(* ===== verification/Prelude.thy ===== *)
theory Prelude
  imports Main "HOL-Library.Word" "HOL-Library.Code_Target_Nat"
begin

text \<open>
  Shared vocabulary of the development: byte strings, big-endian integers, Python slices,
  and the incremental parsing loop (\<open>while True: ... break\<close> over a growing buffer) that the
  WebSocket, RFB and recording readers all have.
  The locale \<open>framing\<close> is the contract of one such reader: it consumes input when it
  succeeds, and what it decides from a prefix does not change when more bytes arrive.
\<close>

unbundle bit_operations_syntax

named_theorems framing_simps \<open>unfoldings of the one-unit readers\<close>

section \<open>Bytes and big-endian integers\<close>

type_synonym byte = "8 word"
type_synonym bytes = "byte list"

definition be_nat :: "bytes \<Rightarrow> nat" where
  "be_nat bs = foldl (\<lambda>a b. a * 256 + unat b) 0 bs"

definition be_int32 :: "bytes \<Rightarrow> int" where
  "be_int32 bs = (let n = be_nat bs in if 2 ^ 31 \<le> n then int n - 2 ^ 32 else int n)"

fun to_be :: "nat \<Rightarrow> nat \<Rightarrow> bytes" where
  "to_be 0 v = []"
| "to_be (Suc n) v = to_be n (v div 256) @ [word_of_nat v]"

definition to_be_int32 :: "int \<Rightarrow> bytes" where
  "to_be_int32 v = to_be 4 (nat (v mod 2 ^ 32))"

definition slice :: "nat \<Rightarrow> nat \<Rightarrow> 'a list \<Rightarrow> 'a list" where
  "slice i j xs = take (j - i) (drop i xs)"

lemma be_nat_Nil [simp]: "be_nat [] = 0"
  by (simp add: be_nat_def)

lemma be_nat_snoc [simp]: "be_nat (bs @ [b]) = be_nat bs * 256 + unat b"
  by (simp add: be_nat_def)

lemma unat_byte_less [simp]: "unat (b :: byte) < 256"
  using unsigned_less [of b] by simp

lemma be_nat_bound: "be_nat bs < 256 ^ length bs"
proof (induction bs rule: rev_induct)
  case Nil
  then show ?case by simp
next
  case (snoc b bs)
  have "unat b < 256" by simp
  with snoc have "be_nat bs * 256 + unat b < (be_nat bs + 1) * 256" by simp
  also from snoc have "\<dots> \<le> 256 ^ length bs * 256"
    by (simp add: Suc_le_eq [symmetric] del: mult_Suc)
  finally show ?case by (simp add: mult.commute)
qed

lemma length_to_be [simp]: "length (to_be n v) = n"
  by (induction n arbitrary: v) auto

lemma unat_word_of_nat_byte [simp]: "unat (word_of_nat v :: byte) = v mod 256"
  by (simp add: unat_of_nat)

lemma be_nat_to_be: "v < 256 ^ n \<Longrightarrow> be_nat (to_be n v) = v"
proof (induction n arbitrary: v)
  case 0
  then show ?case by simp
next
  case (Suc n)
  then have "v div 256 < 256 ^ n"
    by (simp add: less_mult_imp_div_less mult.commute)
  with Suc.IH show ?case by simp
qed

lemma to_be_be_nat: "to_be (length bs) (be_nat bs) = bs"
proof (induction bs rule: rev_induct)
  case Nil
  then show ?case by simp
next
  case (snoc b bs)
  have "(be_nat bs * 256 + unat b) div 256 = be_nat bs"
    by (simp add: div_add1_eq)
  moreover have "(word_of_nat (be_nat bs * 256 + unat b) :: byte) = b"
    by (rule word_unat_eq_iff [THEN iffD2])
      (simp only: unat_word_of_nat_byte mod_mult_self3 mod_less unat_byte_less)
  ultimately show ?case using snoc by simp
qed

lemma be_int32_to_be:
  assumes "- (2 ^ 31) \<le> v" and "v < 2 ^ 31"
  shows "be_int32 (to_be_int32 v) = v"
proof (cases "0 \<le> v")
  case True
  with assms have "be_nat (to_be 4 (nat v)) = nat v"
    by (intro be_nat_to_be) simp
  with True assms show ?thesis
    by (simp add: be_int32_def to_be_int32_def Let_def)
next
  case False
  with assms have "(v + 2 ^ 32) mod 2 ^ 32 = v + 2 ^ 32"
    by (intro mod_pos_pos_trivial) simp_all
  then have m: "v mod 2 ^ 32 = v + 2 ^ 32"
    by simp
  with False assms have "be_nat (to_be 4 (nat (v + 2 ^ 32))) = nat (v + 2 ^ 32)"
    by (intro be_nat_to_be) simp
  with m False assms show ?thesis
    by (simp add: be_int32_def to_be_int32_def Let_def le_nat_iff)
qed

lemma length_slice [simp]: "length (slice i j xs) = min (j - i) (length xs - i)"
  by (simp add: slice_def min.commute)

lemma slice_append_fits: "j \<le> length xs \<Longrightarrow> slice i j (xs @ ys) = slice i j xs"
  by (cases "i \<le> length xs") (auto simp: slice_def)

lemma slice_take_fits: "j \<le> n \<Longrightarrow> slice i j (take n xs) = slice i j xs"
  by (auto simp: slice_def drop_take min_def)

lemma slice_prefix [simp]: "slice 0 j xs = take j xs"
  by (simp add: slice_def)

lemma set_slice: "set (slice i j xs) \<subseteq> set xs"
  by (auto simp: slice_def dest: in_set_takeD in_set_dropD)

section \<open>Python slices with a signed bound\<close>

text \<open>\<open>xs[:k]\<close> and \<open>xs[k:]\<close> for an integer bound: negative bounds count from the end.\<close>

definition py_upto :: "int \<Rightarrow> 'a list \<Rightarrow> 'a list" where
  "py_upto k xs = take (if 0 \<le> k then nat k else length xs - nat (- k)) xs"

definition py_from :: "int \<Rightarrow> 'a list \<Rightarrow> 'a list" where
  "py_from k xs = drop (if 0 \<le> k then nat k else length xs - nat (- k)) xs"

lemma py_slices_append [simp]: "py_upto k xs @ py_from k xs = xs"
  by (simp add: py_upto_def py_from_def)

lemma py_upto_nat [simp]: "py_upto (int n) xs = take n xs"
  by (simp add: py_upto_def)

lemma py_from_nat [simp]: "py_from (int n) xs = drop n xs"
  by (simp add: py_from_def)

section \<open>The incremental parsing loop\<close>

datatype ('f, 'a) pstep =
    PNeed                   \<comment> \<open>incomplete unit: wait for more input\<close>
  | PBad                    \<comment> \<open>violation: the stream is given up\<close>
  | POk 'f "'a list"        \<comment> \<open>one unit and the input after it\<close>

function parse_loop ::
    "('a list \<Rightarrow> ('f, 'a) pstep) \<Rightarrow> 'a list \<Rightarrow> ('f list \<times> 'a list) option" where
  "parse_loop p buf =
     (case p buf of
        PNeed \<Rightarrow> Some ([], buf)
      | PBad \<Rightarrow> None
      | POk f r \<Rightarrow>
          if length r < length buf
          then (case parse_loop p r of
                  None \<Rightarrow> None
                | Some (fs, r') \<Rightarrow> Some (f # fs, r'))
          else None)"
  by pat_completeness auto
termination
  by (relation "measure (\<lambda>(p, buf). length buf)") auto

declare parse_loop.simps [simp del]

locale framing =
  fixes parse1 :: "'a list \<Rightarrow> ('f, 'a) pstep"
  assumes consumes: "parse1 buf = POk f r \<Longrightarrow> length r < length buf"
    and ok_stable: "parse1 buf = POk f r \<Longrightarrow> parse1 (buf @ more) = POk f (r @ more)"
    and bad_stable: "parse1 buf = PBad \<Longrightarrow> parse1 (buf @ more) = PBad"
begin

lemma loop_need: "parse1 buf = PNeed \<Longrightarrow> parse_loop parse1 buf = Some ([], buf)"
  by (simp add: parse_loop.simps)

lemma loop_bad: "parse1 buf = PBad \<Longrightarrow> parse_loop parse1 buf = None"
  by (simp add: parse_loop.simps)

lemma loop_ok:
  "parse1 buf = POk f r \<Longrightarrow>
   parse_loop parse1 buf =
     (case parse_loop parse1 r of None \<Rightarrow> None | Some (fs, r') \<Rightarrow> Some (f # fs, r'))"
  using consumes [of buf f r] by (subst parse_loop.simps) simp

text \<open>Chunk independence: the input may be cut anywhere.\<close>

lemma loop_append:
  "parse_loop parse1 (a @ b) =
     (case parse_loop parse1 a of
        None \<Rightarrow> None
      | Some (fs, r) \<Rightarrow>
          (case parse_loop parse1 (r @ b) of
             None \<Rightarrow> None
           | Some (gs, r') \<Rightarrow> Some (fs @ gs, r')))"
proof (induction a rule: length_induct)
  case (1 a)
  show ?case
  proof (cases "parse1 a")
    case PNeed
    then show ?thesis by (simp add: loop_need split: option.splits prod.splits)
  next
    case PBad
    then show ?thesis by (simp add: loop_bad bad_stable)
  next
    case (POk f r)
    with consumes have "length r < length a" by blast
    with "1" have IH: "parse_loop parse1 (r @ b) =
       (case parse_loop parse1 r of
          None \<Rightarrow> None
        | Some (fs, r) \<Rightarrow>
            (case parse_loop parse1 (r @ b) of
               None \<Rightarrow> None
             | Some (gs, r') \<Rightarrow> Some (fs @ gs, r')))" by blast
    show ?thesis
      by (simp add: loop_ok [OF POk] loop_ok [OF ok_stable [OF POk]] IH
               split: option.splits prod.splits)
  qed
qed

lemma loop_okE:
  assumes "parse_loop parse1 buf = Some (fs, r)" and "parse1 buf = POk f s"
  obtains gs where "parse_loop parse1 s = Some (gs, r)" "fs = f # gs" "length s < length buf"
  using assms consumes [OF assms(2)] by (auto simp: loop_ok split: option.splits)

lemma loop_stops: "parse_loop parse1 buf = Some (fs, r) \<Longrightarrow> parse1 r = PNeed"
proof (induction "length buf" arbitrary: buf fs rule: less_induct)
  case less
  show ?case
  proof (cases "parse1 buf")
    case PNeed
    with less.prems show ?thesis by (simp add: loop_need)
  next
    case PBad
    with less.prems show ?thesis by (simp add: loop_bad)
  next
    case (POk f s)
    with less.prems obtain gs where "parse_loop parse1 s = Some (gs, r)" "length s < length buf"
      by (rule loop_okE)
    with less.hyps show ?thesis by fastforce
  qed
qed

lemma loop_stopped: "parse_loop parse1 buf = Some (fs, r) \<Longrightarrow> parse_loop parse1 r = Some ([], r)"
  using loop_stops by (rule loop_need)

lemma loop_rest_le: "parse_loop parse1 buf = Some (fs, r) \<Longrightarrow> length r \<le> length buf"
proof (induction "length buf" arbitrary: buf fs rule: less_induct)
  case less
  show ?case
  proof (cases "parse1 buf")
    case PNeed
    with less.prems show ?thesis by (simp add: loop_need)
  next
    case PBad
    with less.prems show ?thesis by (simp add: loop_bad)
  next
    case (POk f s)
    with less.prems obtain gs where "parse_loop parse1 s = Some (gs, r)" "length s < length buf"
      by (rule loop_okE)
    with less.hyps show ?thesis by fastforce
  qed
qed

text \<open>Every unit the loop returns was read at some suffix of the input.\<close>

lemma loop_units:
  "parse_loop parse1 buf = Some (fs, r) \<Longrightarrow> f \<in> set fs \<Longrightarrow>
   \<exists>b r'. parse1 b = POk f r' \<and> length b \<le> length buf"
proof (induction buf arbitrary: fs rule: length_induct)
  case (1 buf)
  show ?case
  proof (cases "parse1 buf")
    case PNeed
    with "1.prems" show ?thesis by (simp add: loop_need)
  next
    case PBad
    with "1.prems" show ?thesis by (simp add: loop_bad)
  next
    case (POk g s)
    with "1.prems" obtain gs where gs: "parse_loop parse1 s = Some (gs, r)" "fs = g # gs"
      by (auto simp: loop_ok split: option.splits)
    have less: "length s < length buf" using consumes [OF POk] .
    from gs(2) "1.prems"(2) consider "f = g" | "f \<in> set gs" by auto
    then show ?thesis
    proof cases
      case 1
      with POk show ?thesis by blast
    next
      case 2
      with "1.IH" less gs(1) obtain b r' where "parse1 b = POk f r'" "length b \<le> length s"
        by blast
      with less show ?thesis by (meson le_less_trans less_imp_le)
    qed
  qed
qed

end

section \<open>Output in front of a run\<close>

text \<open>A run yields the bytes it emits and its final state, or gives up.\<close>

definition prepend :: "'a list \<Rightarrow> ('a list \<times> 's) option \<Rightarrow> ('a list \<times> 's) option" where
  "prepend c = map_option (\<lambda>(out, q). (c @ out, q))"

lemma prepend_simps [simp]:
  "prepend c None = None"
  "prepend c (Some (out, q)) = Some (c @ out, q)"
  "prepend [] r = r"
  "prepend a (prepend b r) = prepend (a @ b) r"
  by (cases r; auto simp: prepend_def)+

lemma prepend_eq_Some:
  "prepend c r = Some (out, q) \<longleftrightarrow> (\<exists>out'. r = Some (out', q) \<and> out = c @ out')"
  by (cases r) (auto simp: prepend_def)

lemma prepend_eq_None [simp]: "prepend c r = None \<longleftrightarrow> r = None"
  by (cases r) (auto simp: prepend_def)

section \<open>Python's int of a string\<close>

text \<open>
  \<open>int(s)\<close> for ASCII strings: surrounding white space is dropped, one sign is allowed, single
  underscores may separate digits; anything else raises ValueError (\<open>None\<close>).
\<close>

definition py_space :: "char \<Rightarrow> bool" where
  "py_space c \<longleftrightarrow> of_char c \<in> {9, 10, 11, 12, 13, 28, 29, 30, 31, 32, 133, 160 :: nat}"

definition py_strip :: "string \<Rightarrow> string" where
  "py_strip s = rev (dropWhile py_space (rev (dropWhile py_space s)))"

definition digit_val :: "char \<Rightarrow> nat option" where
  "digit_val c = (let n = of_char c :: nat in if 48 \<le> n \<and> n \<le> 57 then Some (n - 48) else None)"

fun py_digits :: "nat \<Rightarrow> string \<Rightarrow> nat option" where
  "py_digits acc [] = Some acc"
| "py_digits acc (c # cs) =
     (case digit_val c of
        Some d \<Rightarrow> py_digits (acc * 10 + d) cs
      | None \<Rightarrow>
          (case cs of
             d # cs' \<Rightarrow>
               if c = CHR ''_'' \<and> digit_val d \<noteq> None then py_digits acc cs else None
           | [] \<Rightarrow> None))"

definition py_unsigned :: "string \<Rightarrow> nat option" where
  "py_unsigned s =
     (case s of [] \<Rightarrow> None | c # _ \<Rightarrow> if digit_val c = None then None else py_digits 0 s)"

definition py_int :: "string \<Rightarrow> int option" where
  "py_int s =
     (case py_strip s of
        [] \<Rightarrow> None
      | c # cs \<Rightarrow>
          if c = CHR ''-'' then map_option (\<lambda>n. - int n) (py_unsigned cs)
          else if c = CHR ''+'' then map_option int (py_unsigned cs)
          else map_option int (py_unsigned (c # cs)))"

end
