(* ===== verification/RfbWire.thy ===== *)
theory RfbWire
  imports Prelude
begin

text \<open>
  The wire layer of \<open>services/rfb_filter.py\<close>: encoding and parsing of WebSocket frames, the
  rewriting of \<open>SetEncodings\<close> and the sanitiser of cut texts.
  \<open>secrets.token_bytes(4)\<close> is a parameter: the four mask bytes are an argument of \<open>ws_frame\<close>.
  \<open>_parse_ws_frames\<close> is the shared parsing loop over \<open>parse_ws_frame1\<close>, the body of its
  \<open>while True\<close>; it is an instance of the locale \<open>framing\<close>.
\<close>

section \<open>Limits and message tables\<close>

definition max_ws_payload :: nat where
  "max_ws_payload = 8 * 1024 * 1024"

definition max_rfb_buf :: nat where
  "max_rfb_buf = 8 * 1024 * 1024"

text \<open>\<open>os.environ.get("RFB_MAX_CLIPBOARD", ...)\<close> is the argument: \<open>None\<close> when unset.\<close>

definition max_clipboard :: "string option \<Rightarrow> nat" where
  "max_clipboard env =
     (case env of
        None \<Rightarrow> nat (max 1024 (1024 * 1024))
      | Some s \<Rightarrow>
          (case py_int s of
             Some v \<Rightarrow> nat (max 1024 v)
           | None \<Rightarrow> 1024 * 1024))"

definition safe_encodings :: "int list" where
  "safe_encodings = [0, 1, 2, 5, 16, -223, -224, -239, -240, -241, -307, -308]"

lemma max_clipboard_ge [simp]: "1024 \<le> max_clipboard env"
  by (auto simp: max_clipboard_def split: option.splits)

section \<open>Cut text sanitiser\<close>

definition cut_text_keeps :: "byte \<Rightarrow> bool" where
  "cut_text_keeps b \<longleftrightarrow>
     (0x20 \<le> b \<and> \<not> (0x7F \<le> b \<and> b \<le> 0x9F)) \<or> b \<in> {0x09, 0x0A, 0x0D}"

definition sanitize_cut_text :: "bytes \<Rightarrow> bytes" where
  "sanitize_cut_text raw =
     (let payload = filter cut_text_keeps (drop 8 raw)
      in take 4 raw @ to_be 4 (length payload) @ payload)"

text \<open>A cut text message as its reader delivers it: the length field counts the payload.\<close>

definition cut_text_msg :: "bytes \<Rightarrow> bool" where
  "cut_text_msg raw \<longleftrightarrow> 8 \<le> length raw \<and> length raw = 8 + be_nat (slice 4 8 raw)"

lemma sanitize_payload:
  "8 \<le> length raw \<Longrightarrow> drop 8 (sanitize_cut_text raw) = filter cut_text_keeps (drop 8 raw)"
  by (simp add: sanitize_cut_text_def Let_def)

lemma sanitize_take4: "8 \<le> length raw \<Longrightarrow> take 4 (sanitize_cut_text raw) = take 4 raw"
  by (simp add: sanitize_cut_text_def Let_def)

lemma sanitize_length:
  "8 \<le> length raw \<Longrightarrow>
   length (sanitize_cut_text raw) = 8 + length (filter cut_text_keeps (drop 8 raw))"
  by (simp add: sanitize_cut_text_def Let_def)

lemma sanitize_hd:
  assumes "8 \<le> length raw"
  shows "hd (sanitize_cut_text raw) = hd raw"
proof -
  have "hd (take 4 (sanitize_cut_text raw)) = hd (take 4 raw)"
    by (simp only: sanitize_take4 [OF assms])
  then show ?thesis by (simp only: hd_take zero_less_numeral)
qed

lemma cut_text_payload_fits:
  "cut_text_msg raw \<Longrightarrow> length (filter cut_text_keeps (drop 8 raw)) < 256 ^ 4"
proof -
  assume "cut_text_msg raw"
  then have "length (drop 8 raw) = be_nat (slice 4 8 raw)" "length (slice 4 8 raw) = 4"
    by (auto simp: cut_text_msg_def)
  then have "length (drop 8 raw) < 256 ^ 4"
    using be_nat_bound [of "slice 4 8 raw"] by simp
  then show ?thesis
    using length_filter_le [of cut_text_keeps "drop 8 raw"] by linarith
qed

lemma sanitize_cut_text_msg: "cut_text_msg raw \<Longrightarrow> cut_text_msg (sanitize_cut_text raw)"
proof -
  assume raw: "cut_text_msg raw"
  let ?p = "filter cut_text_keeps (drop 8 raw)"
  from raw have len: "8 \<le> length raw" by (simp add: cut_text_msg_def)
  then have "slice 4 8 (sanitize_cut_text raw) = to_be 4 (length ?p)"
    by (simp add: sanitize_cut_text_def slice_def Let_def)
  with cut_text_payload_fits [OF raw] have "be_nat (slice 4 8 (sanitize_cut_text raw)) = length ?p"
    by (simp only: be_nat_to_be)
  with sanitize_length [OF len] show ?thesis
    unfolding cut_text_msg_def by (metis le_add1)
qed

lemma sanitize_idem:
  "8 \<le> length raw \<Longrightarrow> sanitize_cut_text (sanitize_cut_text raw) = sanitize_cut_text raw"
  by (simp add: sanitize_cut_text_def Let_def)

section \<open>WebSocket frames out\<close>

type_synonym mask4 = "byte \<times> byte \<times> byte \<times> byte"

fun mask_bytes :: "mask4 \<Rightarrow> bytes" where
  "mask_bytes (a, b, c, d) = [a, b, c, d]"

definition xor_mask :: "bytes \<Rightarrow> bytes \<Rightarrow> bytes" where
  "xor_mask mk payload =
     map (\<lambda>(i, b). b XOR (mk ! (i mod 4))) (enumerate 0 payload)"

text \<open>The length part of a frame header; \<open>flag\<close> is the mask bit.\<close>

definition ws_len_bytes :: "byte \<Rightarrow> nat \<Rightarrow> bytes" where
  "ws_len_bytes flag n =
     (if n < 126 then [flag OR word_of_nat n]
      else if n \<le> 0xFFFF then (flag OR 126) # to_be 2 n
      else (flag OR 127) # to_be 8 n)"

definition ws_frame :: "mask4 \<Rightarrow> bytes \<Rightarrow> bytes" where
  "ws_frame mk payload =
     [0x82] @ ws_len_bytes 0x80 (length payload) @ mask_bytes mk
     @ xor_mask (mask_bytes mk) payload"

definition ws_server_frame :: "bytes \<Rightarrow> bytes" where
  "ws_server_frame payload = [0x82] @ ws_len_bytes 0 (length payload) @ payload"

section \<open>SetEncodings rewriting\<close>

definition encodings_of :: "bytes \<Rightarrow> int list" where
  "encodings_of raw =
     map (\<lambda>i. be_int32 (slice (4 + 4 * i) (8 + 4 * i) raw)) [0..<be_nat (slice 2 4 raw)]"

definition rewrite_encodings :: "bytes \<Rightarrow> bytes" where
  "rewrite_encodings raw =
     (let encs = encodings_of raw;
          keep = filter (\<lambda>e. e \<in> set safe_encodings) encs;
          keep = (if keep = [] then [1, 0] else keep)
      in take 2 raw @ to_be 2 (length keep) @ concat (map to_be_int32 keep))"

section \<open>WebSocket frames in\<close>

record ws_frame_in =
  fr_opcode :: nat
  fr_payload :: bytes
  fr_raw :: bytes
  fr_fin :: bool

text \<open>The payload length and the position after it; \<open>None\<close> when more bytes are needed.\<close>

definition ws_len :: "bytes \<Rightarrow> (nat \<times> nat) option" where
  "ws_len buf =
     (let ln = unat (buf ! 1 AND 0x7F)
      in if ln = 126 then
           (if length buf - 2 < 2 then None else Some (be_nat (slice 2 4 buf), 4))
         else if ln = 127 then
           (if length buf - 2 < 8 then None else Some (be_nat (slice 2 10 buf), 10))
         else Some (ln, 2))"

definition parse_ws_frame1 :: "bytes \<Rightarrow> (ws_frame_in, byte) pstep" where
  "parse_ws_frame1 buf =
     (if length buf < 2 then PNeed
      else let fin = buf ! 0 AND 0x80 \<noteq> 0;
               opcode = unat (buf ! 0 AND 0x0F);
               masked = buf ! 1 AND 0x80 \<noteq> 0
           in case ws_len buf of
                None \<Rightarrow> PNeed
              | Some (ln, pos) \<Rightarrow>
                  if max_ws_payload < ln then PBad
                  else if masked \<and> length buf - pos < 4 then PNeed
                  else let mk = (if masked then Some (slice pos (pos + 4) buf) else None);
                           pos = (if masked then pos + 4 else pos)
                       in if length buf - pos < ln then PNeed
                          else let payload = slice pos (pos + ln) buf;
                                   payload = (case mk of
                                                Some m \<Rightarrow> xor_mask m payload
                                              | None \<Rightarrow> payload)
                               in POk \<lparr>fr_opcode = opcode, fr_payload = payload,
                                       fr_raw = take (pos + ln) buf, fr_fin = fin\<rparr>
                                    (drop (pos + ln) buf))"

definition parse_ws_frames :: "bytes \<Rightarrow> (ws_frame_in list \<times> bytes) option" where
  "parse_ws_frames buf = parse_loop parse_ws_frame1 buf"

subsection \<open>The reader meets the framing contract\<close>

lemma ws_len_pos: "ws_len buf = Some (ln, pos) \<Longrightarrow> 2 \<le> length buf \<Longrightarrow> 2 \<le> pos \<and> pos \<le> length buf"
  by (auto simp: ws_len_def Let_def split: if_splits)

lemma ws_len_append:
  "ws_len buf = Some (ln, pos) \<Longrightarrow> 2 \<le> length buf \<Longrightarrow> ws_len (buf @ zs) = Some (ln, pos)"
  by (auto simp: ws_len_def Let_def nth_append slice_append_fits split: if_splits)

lemma parse_ws_frame1_split:
  assumes "parse_ws_frame1 buf = POk f r"
  shows "buf = fr_raw f @ r" and "2 \<le> length (fr_raw f)"
  using assms
  by (auto simp: parse_ws_frame1_def Let_def split: if_splits option.splits dest!: ws_len_pos)

lemma parse_ws_frame1_ok_append:
  assumes "parse_ws_frame1 buf = POk f r"
  shows "parse_ws_frame1 (buf @ zs) = POk f (r @ zs)"
proof -
  from assms have len: "2 \<le> length buf"
    by (auto simp: parse_ws_frame1_def split: if_splits)
  from assms obtain ln pos where wl: "ws_len buf = Some (ln, pos)"
    by (auto simp: parse_ws_frame1_def Let_def split: if_splits option.splits)
  have pos: "2 \<le> pos" "pos \<le> length buf" using ws_len_pos [OF wl len] by auto
  have wl': "ws_len (buf @ zs) = Some (ln, pos)" using ws_len_append [OF wl len] .
  show ?thesis
    using assms wl wl' len pos
    by (auto simp: parse_ws_frame1_def Let_def nth_append slice_append_fits split: if_splits)
qed

lemma parse_ws_frame1_bad_append:
  assumes "parse_ws_frame1 buf = PBad"
  shows "parse_ws_frame1 (buf @ zs) = PBad"
proof -
  from assms have len: "2 \<le> length buf"
    by (auto simp: parse_ws_frame1_def split: if_splits)
  from assms obtain ln pos where wl: "ws_len buf = Some (ln, pos)" and big: "max_ws_payload < ln"
    by (auto simp: parse_ws_frame1_def Let_def split: if_splits option.splits)
  show ?thesis
    using ws_len_append [OF wl len] len big by (simp add: parse_ws_frame1_def Let_def)
qed

interpretation ws: framing parse_ws_frame1
proof
  fix buf zs :: bytes and f r
  show "parse_ws_frame1 buf = POk f r \<Longrightarrow> length r < length buf"
    using parse_ws_frame1_split [of buf f r] by fastforce
qed (auto intro: parse_ws_frame1_ok_append parse_ws_frame1_bad_append)

text \<open>The raw bytes of a frame read back as that frame, whatever follows them.\<close>

lemma ws_len_take:
  "ws_len buf = Some (ln, pos) \<Longrightarrow> 2 \<le> length buf \<Longrightarrow> pos \<le> n \<Longrightarrow>
   ws_len (take n buf) = Some (ln, pos)"
  by (auto simp: ws_len_def Let_def slice_take_fits split: if_splits)

lemma parse_ws_frame1_raw:
  assumes "parse_ws_frame1 buf = POk f r"
  shows "parse_ws_frame1 (fr_raw f @ zs) = POk f zs"
proof -
  from assms have len: "2 \<le> length buf"
    by (auto simp: parse_ws_frame1_def split: if_splits)
  from assms obtain ln pos where wl: "ws_len buf = Some (ln, pos)"
    by (auto simp: parse_ws_frame1_def Let_def split: if_splits option.splits)
  define pos' where "pos' = (if buf ! 1 AND 0x80 \<noteq> 0 then pos + 4 else pos)"
  have pos: "2 \<le> pos" "pos \<le> length buf" "pos \<le> pos'"
    using ws_len_pos [OF wl len] by (auto simp: pos'_def)
  have raw: "fr_raw f = take (pos' + ln) buf" "pos' + ln \<le> length buf"
    using assms wl len pos
    by (auto simp: parse_ws_frame1_def Let_def pos'_def split: if_splits)
  have wl': "ws_len (take (pos' + ln) buf) = Some (ln, pos)"
    using ws_len_take [OF wl len] pos by simp
  have "parse_ws_frame1 (take (pos' + ln) buf) = POk f []"
    using assms wl wl' len pos raw
    by (auto simp: parse_ws_frame1_def Let_def pos'_def slice_take_fits split: if_splits)
  then show ?thesis
    using raw(1) ws.ok_stable by force
qed

subsection \<open>Frames written here read back\<close>

lemma length_xor_mask [simp]: "length (xor_mask mk xs) = length xs"
  by (simp add: xor_mask_def)

lemma xor_mask_involution [simp]: "xor_mask mk (xor_mask mk xs) = xs"
  by (rule nth_equalityI) (simp_all add: xor_mask_def nth_enumerate_eq xor.assoc)

lemma length_mask_bytes [simp]: "length (mask_bytes mk) = 4"
  by (cases mk rule: mask_bytes.cases) simp

lemma low7_byte:
  assumes "n < 128"
  shows "unat ((word_of_nat n :: byte) AND 0x7F) = n"
proof -
  have "(word_of_nat n :: byte) AND 0x7F = take_bit 7 (word_of_nat n)"
    by (simp add: take_bit_eq_mask mask_eq_exp_minus_1)
  then have "unat ((word_of_nat n :: byte) AND 0x7F) = take_bit 7 (n mod 256)"
    by (simp only: unsigned_take_bit_eq unat_word_of_nat_byte)
  with assms show ?thesis by (simp add: take_bit_eq_mod)
qed

lemma low7_flagged:
  assumes "n < 128" and "flag \<in> {0, 0x80 :: byte}"
  shows "unat ((flag OR word_of_nat n) AND 0x7F) = n"
  using assms low7_byte [OF assms(1)] by (auto simp: bit.conj_disj_distrib2)

lemma high_bit_small:
  assumes "n < 128"
  shows "(word_of_nat n :: byte) AND 0x80 = 0"
proof -
  have "(word_of_nat n :: byte) = word_of_nat n AND 0x7F"
    using low7_byte [OF assms] assms by (intro word_unat_eq_iff [THEN iffD2]) simp
  then have "(word_of_nat n :: byte) AND 0x80 = word_of_nat n AND (0x7F AND 0x80)"
    by (metis and.assoc)
  then show ?thesis by simp
qed

lemma ws_len_bytes_ne [simp]: "ws_len_bytes flag n \<noteq> []"
  by (simp add: ws_len_bytes_def)

lemma ws_len_bytes_cases:
  assumes "flag \<in> {0, 0x80 :: byte}" and "n < 256 ^ 8"
  shows "ws_len (b0 # ws_len_bytes flag n @ zs) = Some (n, 1 + length (ws_len_bytes flag n))"
    and "((b0 # ws_len_bytes flag n @ zs) ! 1 AND 0x80 \<noteq> 0) = (flag = 0x80)"
    and "1 \<le> length (ws_len_bytes flag n)"
proof -
  consider "n < 126" | "126 \<le> n" "n \<le> 0xFFFF" | "0xFFFF < n" by linarith
  then show "ws_len (b0 # ws_len_bytes flag n @ zs) = Some (n, 1 + length (ws_len_bytes flag n))"
  proof cases
    case 1
    with assms show ?thesis by (simp add: ws_len_def ws_len_bytes_def low7_flagged)
  next
    case 2
    have "(flag OR 126) AND 0x7F = 126" using assms by auto
    moreover from 2 have "be_nat (to_be 2 n) = n" by (intro be_nat_to_be) simp
    ultimately show ?thesis
      using 2 by (simp add: ws_len_def ws_len_bytes_def slice_def Let_def)
  next
    case 3
    have "(flag OR 127) AND 0x7F = 127" using assms by auto
    moreover from assms have "be_nat (to_be 8 n) = n" by (intro be_nat_to_be)
    ultimately show ?thesis
      using 3 by (simp add: ws_len_def ws_len_bytes_def slice_def Let_def)
  qed
  show "((b0 # ws_len_bytes flag n @ zs) ! 1 AND 0x80 \<noteq> 0) = (flag = 0x80)"
    using assms high_bit_small [of n]
    by (auto simp: ws_len_bytes_def bit.conj_disj_distrib2)
  show "1 \<le> length (ws_len_bytes flag n)"
    by (simp add: ws_len_bytes_def)
qed

lemma max_ws_payload_small: "n \<le> max_ws_payload \<Longrightarrow> n < 256 ^ 8"
  by (simp add: max_ws_payload_def)

lemma parse_ws_frame_raw:
  assumes "length p \<le> max_ws_payload"
  shows "parse_ws_frame1 (ws_frame mk p @ zs) =
           POk \<lparr>fr_opcode = 2, fr_payload = p, fr_raw = ws_frame mk p, fr_fin = True\<rparr> zs"
proof -
  let ?h = "ws_len_bytes 0x80 (length p)"
  let ?b = "0x82 # ?h @ mask_bytes mk @ xor_mask (mask_bytes mk) p @ zs"
  have eq: "ws_frame mk p @ zs = ?b" by (simp add: ws_frame_def)
  have "ws_len ?b = Some (length p, 1 + length ?h)" "?b ! 1 AND 0x80 \<noteq> 0" "1 \<le> length ?h"
    using ws_len_bytes_cases [OF _ max_ws_payload_small [OF assms]] by simp_all
  then show ?thesis
    unfolding eq parse_ws_frame1_def using assms
    by (simp add: Let_def slice_def ws_frame_def take_Cons' drop_Cons')
qed

lemma parse_ws_server_frame_raw:
  assumes "length p \<le> max_ws_payload"
  shows "parse_ws_frame1 (ws_server_frame p @ zs) =
           POk \<lparr>fr_opcode = 2, fr_payload = p, fr_raw = ws_server_frame p, fr_fin = True\<rparr> zs"
proof -
  let ?h = "ws_len_bytes 0 (length p)"
  let ?b = "0x82 # ?h @ p @ zs"
  have eq: "ws_server_frame p @ zs = ?b" by (simp add: ws_server_frame_def)
  have "ws_len ?b = Some (length p, 1 + length ?h)" "\<not> (?b ! 1 AND 0x80 \<noteq> 0)" "1 \<le> length ?h"
    using ws_len_bytes_cases [of 0, OF _ max_ws_payload_small [OF assms]] by simp_all
  then show ?thesis
    unfolding eq parse_ws_frame1_def using assms
    by (simp add: Let_def slice_def ws_server_frame_def take_Cons' drop_Cons')
qed

text \<open>A whole stream of frames written by \<open>ws_frame\<close> is read back frame by frame.\<close>

lemma parse_ws_frames_Nil [simp]: "parse_ws_frames [] = Some ([], [])"
  by (simp add: parse_ws_frames_def parse_loop.simps parse_ws_frame1_def)

lemma parse_ws_frames_raw:
  assumes "parse_ws_frame1 b = POk f r"
  shows "parse_ws_frames (fr_raw f @ zs) =
    map_option (\<lambda>(fs, r'). (f # fs, r')) (parse_ws_frames zs)"
  using parse_ws_frame1_raw [OF assms]
  by (simp add: parse_ws_frames_def ws.loop_ok split: option.splits)

lemma parse_ws_frames_frame:
  assumes "length p \<le> max_ws_payload"
  shows "parse_ws_frames (ws_frame mk p @ zs) =
    map_option (\<lambda>(fs, r').
      (\<lparr>fr_opcode = 2, fr_payload = p, fr_raw = ws_frame mk p, fr_fin = True\<rparr> # fs, r'))
      (parse_ws_frames zs)"
  using parse_ws_frame_raw [OF assms]
  by (simp add: parse_ws_frames_def ws.loop_ok split: option.splits)

subsection \<open>What SetEncodings becomes\<close>

definition set_encodings_msg :: "bytes \<Rightarrow> bool" where
  "set_encodings_msg raw \<longleftrightarrow> 4 \<le> length raw \<and> length raw = 4 + 4 * be_nat (slice 2 4 raw)"

definition kept_encodings :: "bytes \<Rightarrow> int list" where
  "kept_encodings raw =
     (let keep = filter (\<lambda>e. e \<in> set safe_encodings) (encodings_of raw)
      in if keep = [] then [1, 0] else keep)"

lemma kept_encodings_safe: "set (kept_encodings raw) \<subseteq> set safe_encodings"
  by (auto simp: kept_encodings_def Let_def safe_encodings_def)

lemma length_kept_encodings:
  "4 \<le> length raw \<Longrightarrow> length (kept_encodings raw) < 256 ^ 2"
proof -
  assume "4 \<le> length raw"
  then have "be_nat (slice 2 4 raw) < 256 ^ 2"
    using be_nat_bound [of "slice 2 4 raw"] by simp
  moreover have "length (filter (\<lambda>e. e \<in> set safe_encodings) (encodings_of raw))
      \<le> be_nat (slice 2 4 raw)"
    by (rule order_trans [OF length_filter_le]) (simp add: encodings_of_def)
  ultimately show ?thesis
    by (auto simp: kept_encodings_def Let_def)
qed

lemma rewrite_encodings_alt:
  "rewrite_encodings raw =
     take 2 raw @ to_be 2 (length (kept_encodings raw)) @ concat (map to_be_int32 (kept_encodings raw))"
  by (simp add: rewrite_encodings_def kept_encodings_def Let_def)

lemma length_to_be_int32 [simp]: "length (to_be_int32 e) = 4"
  by (simp add: to_be_int32_def)

lemma length_concat_enc [simp]: "length (concat (map to_be_int32 es)) = 4 * length es"
  by (induction es) auto

lemma slice_concat_enc:
  "i < length es \<Longrightarrow> slice (4 * i) (4 * i + 4) (concat (map to_be_int32 es)) = to_be_int32 (es ! i)"
proof (induction es arbitrary: i)
  case (Cons e es)
  then show ?case
    by (cases i) (auto simp: slice_def)
qed simp

lemma encodings_of_rewrite:
  assumes "4 \<le> length raw"
  shows "encodings_of (rewrite_encodings raw) = kept_encodings raw"
proof -
  let ?k = "kept_encodings raw"
  let ?r = "rewrite_encodings raw"
  have count: "be_nat (slice 2 4 ?r) = length ?k"
    using assms length_kept_encodings [OF assms]
    by (simp add: rewrite_encodings_alt slice_def be_nat_to_be)
  have body: "slice (4 + 4 * i) (8 + 4 * i) ?r = to_be_int32 (?k ! i)" if "i < length ?k" for i
    using assms slice_concat_enc [OF that]
    by (simp add: rewrite_encodings_alt slice_def add.commute)
  have range: "be_int32 (to_be_int32 e) = e" if "e \<in> set ?k" for e
    using that kept_encodings_safe [of raw]
    by (intro be_int32_to_be) (auto simp: safe_encodings_def)
  show ?thesis
    by (rule nth_equalityI) (simp_all add: encodings_of_def count body range)
qed

lemma rewrite_encodings_msg:
  "4 \<le> length raw \<Longrightarrow> set_encodings_msg (rewrite_encodings raw)"
  using length_kept_encodings [of raw]
  by (simp add: set_encodings_msg_def rewrite_encodings_alt slice_def be_nat_to_be)

lemma rewrite_encodings_hd: "4 \<le> length raw \<Longrightarrow> hd (rewrite_encodings raw) = hd raw"
  by (cases raw) (auto simp: rewrite_encodings_alt)

end
