(* ===== verification/RfbServer.thy ===== *)
theory RfbServer
  imports RfbWire
begin

text \<open>
  The server-to-client half of \<open>services/rfb_filter.py\<close>: the handshake tracker
  \<open>_ServerHandshake\<close> and the streaming decoder \<open>_ServerMsgParser\<close> with its rectangle sizes.
  A step of the Python loops is a function on the state record; \<open>feed\<close> is the loop.
  Sentinels become values: \<open>_INCOMPLETE\<close> is \<open>None\<close> in the tile functions and \<open>RIncomplete\<close> in
  \<open>rect_data_len\<close>, whose Python \<open>None\<close> (encoding outside the negotiated set) is \<open>RUnknown\<close>.
\<close>

section \<open>Handshake tracker\<close>

datatype hs_state =
    HsVersion | HsSectypes | HsSectypeList | HsSecdata | HsResult | HsServerinit | HsNameData
  | HsDone | HsDead

record handshake =
  hs_buf :: bytes
  hs_state :: hs_state
  hs_sec_type :: "nat option"
  hs_sec_count :: nat
  hs_name_len :: nat
  hs_pix_size :: nat

definition init_handshake :: handshake where
  "init_handshake =
     \<lparr>hs_buf = [], hs_state = HsVersion, hs_sec_type = None, hs_sec_count = 0,
      hs_name_len = 0, hs_pix_size = 4\<rparr>"

text \<open>Each step returns whether it made progress; the loop calls one only when bytes are buffered.\<close>

definition step_version :: "handshake \<Rightarrow> bool \<times> handshake" where
  "step_version h =
     (if length (hs_buf h) < 12 then (False, h)
      else (True, h\<lparr>hs_buf := drop 12 (hs_buf h), hs_state := HsSectypes\<rparr>))"

definition step_sectypes :: "handshake \<Rightarrow> bool \<times> handshake" where
  "step_sectypes h =
     (let count = unat (hs_buf h ! 0);
          h' = h\<lparr>hs_sec_count := count, hs_buf := drop 1 (hs_buf h)\<rparr>
      in (True, h'\<lparr>hs_state := (if count = 0 then HsDead else HsSectypeList)\<rparr>))"

definition step_sectype_list :: "handshake \<Rightarrow> bool \<times> handshake" where
  "step_sectype_list h =
     (if length (hs_buf h) < hs_sec_count h then (False, h)
      else (True, h\<lparr>hs_buf := drop (hs_sec_count h) (hs_buf h), hs_state := HsSecdata\<rparr>))"

definition step_secdata :: "handshake \<Rightarrow> bool \<times> handshake" where
  "step_secdata h =
     (case hs_sec_type h of
        None \<Rightarrow> (False, h)
      | Some sec \<Rightarrow>
          let need = (if sec = 2 then 16 else 0)
          in if length (hs_buf h) < need then (False, h)
             else (True, h\<lparr>hs_buf := drop need (hs_buf h), hs_state := HsResult\<rparr>))"

definition step_result :: "handshake \<Rightarrow> bool \<times> handshake" where
  "step_result h =
     (if length (hs_buf h) < 4 then (False, h)
      else let result = be_nat (take 4 (hs_buf h));
               h' = h\<lparr>hs_buf := drop 4 (hs_buf h)\<rparr>
           in (True, h'\<lparr>hs_state := (if result \<noteq> 0 then HsDead else HsServerinit)\<rparr>))"

definition step_serverinit :: "handshake \<Rightarrow> bool \<times> handshake" where
  "step_serverinit h =
     (if length (hs_buf h) < 24 then (False, h)
      else (True, h\<lparr>hs_name_len := be_nat (slice 20 24 (hs_buf h)),
                   hs_pix_size := max 1 (unat (hs_buf h ! 4) div 8),
                   hs_buf := drop 24 (hs_buf h),
                   hs_state := HsNameData\<rparr>))"

definition step_name_data :: "handshake \<Rightarrow> bool \<times> handshake" where
  "step_name_data h =
     (if length (hs_buf h) < hs_name_len h then (False, h)
      else (True, h\<lparr>hs_buf := drop (hs_name_len h) (hs_buf h), hs_state := HsDone\<rparr>))"

text \<open>The dispatch table \<open>self._step\<close>; the loop never calls it in the two final states.\<close>

definition hs_step :: "handshake \<Rightarrow> bool \<times> handshake" where
  "hs_step h =
     (case hs_state h of
        HsVersion \<Rightarrow> step_version h
      | HsSectypes \<Rightarrow> step_sectypes h
      | HsSectypeList \<Rightarrow> step_sectype_list h
      | HsSecdata \<Rightarrow> step_secdata h
      | HsResult \<Rightarrow> step_result h
      | HsServerinit \<Rightarrow> step_serverinit h
      | HsNameData \<Rightarrow> step_name_data h
      | HsDone \<Rightarrow> (False, h)
      | HsDead \<Rightarrow> (False, h))"

fun hs_rank :: "hs_state \<Rightarrow> nat" where
  "hs_rank HsVersion = 7"
| "hs_rank HsSectypes = 6"
| "hs_rank HsSectypeList = 5"
| "hs_rank HsSecdata = 4"
| "hs_rank HsResult = 3"
| "hs_rank HsServerinit = 2"
| "hs_rank HsNameData = 1"
| "hs_rank HsDone = 0"
| "hs_rank HsDead = 0"

lemmas hs_step_defs =
  hs_step_def step_version_def step_sectypes_def step_sectype_list_def step_secdata_def
  step_result_def step_serverinit_def step_name_data_def

lemma hs_step_progress: "hs_step h = (True, h') \<Longrightarrow> hs_rank (hs_state h') < hs_rank (hs_state h)"
  by (auto simp: hs_step_defs Let_def split: hs_state.splits if_splits option.splits)

lemma hs_step_stuck: "hs_step h = (False, h') \<Longrightarrow> h' = h"
  by (auto simp: hs_step_defs Let_def split: hs_state.splits if_splits option.splits)

function hs_loop :: "handshake \<Rightarrow> handshake" where
  "hs_loop h =
     (if hs_state h = HsDone \<or> hs_state h = HsDead \<or> hs_buf h = [] then h
      else case hs_step h of
             (False, h') \<Rightarrow> h'
           | (True, h') \<Rightarrow> hs_loop h')"
  by pat_completeness auto
termination
  by (relation "measure (\<lambda>h. hs_rank (hs_state h))") (auto dest!: hs_step_progress [OF sym])

declare hs_loop.simps [simp del]

definition hs_feed :: "handshake \<Rightarrow> bytes \<Rightarrow> handshake" where
  "hs_feed h data = hs_loop (h\<lparr>hs_buf := hs_buf h @ data\<rparr>)"

definition hs_done :: "handshake \<Rightarrow> bool" where
  "hs_done h \<longleftrightarrow> hs_state h = HsDone"

subsection \<open>The tracker is independent of how the bytes arrive\<close>

definition hs_more :: "bytes \<Rightarrow> handshake \<Rightarrow> handshake" where
  "hs_more data h = h\<lparr>hs_buf := hs_buf h @ data\<rparr>"

lemma hs_more_sel [simp]:
  "hs_buf (hs_more d h) = hs_buf h @ d"
  "hs_state (hs_more d h) = hs_state h"
  "hs_sec_type (hs_more d h) = hs_sec_type h"
  by (simp_all add: hs_more_def)

lemma hs_more_Nil [simp]: "hs_more [] h = h"
  by (simp add: hs_more_def)

lemma hs_more_more [simp]: "hs_more b (hs_more a h) = hs_more (a @ b) h"
  by (simp add: hs_more_def)

lemma hs_step_more:
  assumes "hs_step h = (True, h')" and "hs_buf h \<noteq> []"
  shows "hs_step (hs_more d h) = (True, hs_more d h')"
proof (cases "hs_state h")
  case HsVersion
  with assms show ?thesis
    by (simp add: hs_step_def step_version_def hs_more_def split: if_splits) auto
next
  case HsSectypes
  with assms show ?thesis
    by (cases "hs_buf h") (auto simp: hs_step_def step_sectypes_def hs_more_def Let_def)
next
  case HsSectypeList
  with assms show ?thesis
    by (simp add: hs_step_def step_sectype_list_def hs_more_def split: if_splits) auto
next
  case HsSecdata
  with assms show ?thesis
    by (simp add: hs_step_def step_secdata_def hs_more_def Let_def split: if_splits option.splits)
      auto
next
  case HsResult
  with assms show ?thesis
    by (simp add: hs_step_def step_result_def hs_more_def Let_def split: if_splits) auto
next
  case HsServerinit
  with assms show ?thesis
    by (simp add: hs_step_def step_serverinit_def hs_more_def nth_append slice_append_fits
             split: if_splits) auto
next
  case HsNameData
  with assms show ?thesis
    by (simp add: hs_step_def step_name_data_def hs_more_def split: if_splits) auto
qed (use assms in \<open>simp_all add: hs_step_def\<close>)

lemma hs_loop_append:
  "hs_loop (hs_more d h) = hs_loop (hs_more d (hs_loop h))"
proof (induction h rule: hs_loop.induct)
  case (1 h)
  show ?case
  proof (cases "hs_state h = HsDone \<or> hs_state h = HsDead \<or> hs_buf h = []")
    case True
    then show ?thesis by (simp add: hs_loop.simps [of h])
  next
    case False
    show ?thesis
    proof (cases "hs_step h")
      case (Pair b h')
      show ?thesis
      proof (cases b)
        case True
        with Pair False have "hs_loop h = hs_loop h'"
          by (simp add: hs_loop.simps [of h])
        moreover from True Pair False
        have "hs_loop (hs_more d h) = hs_loop (hs_more d h')"
          using hs_step_more [of h h' d] by (simp add: hs_loop.simps [of "hs_more d h"])
        ultimately show ?thesis
          using "1.IH" [OF False] Pair True by simp
      next
        case b: False
        with Pair have "h' = h" by (auto dest: hs_step_stuck)
        with Pair b False have "hs_loop h = h" by (simp add: hs_loop.simps [of h])
        then show ?thesis by simp
      qed
    qed
  qed
qed

lemma hs_feed_append: "hs_feed h (a @ b) = hs_feed (hs_feed h a) b"
  using hs_loop_append [of b "hs_more a h"]
  by (simp add: hs_feed_def hs_more_def)

section \<open>Sizes of rectangles\<close>

definition avail :: "bytes \<Rightarrow> nat \<Rightarrow> nat \<Rightarrow> nat option" where
  "avail buf off sz = (if off + sz \<le> length buf then Some (off + sz) else None)"

definition hextile_counted :: "bytes \<Rightarrow> nat \<Rightarrow> nat \<Rightarrow> nat option" where
  "hextile_counted buf off rec =
     (if length buf \<le> off then None else avail buf (off + 1) (rec * unat (buf ! off)))"

text \<open>\<open>_HEXTILE_FIELDS\<close>: (bit, counted, mul, add) in wire order.\<close>

definition hextile_table :: "(byte \<times> bool \<times> nat \<times> nat) list" where
  "hextile_table =
     [(0x02, False, 1, 0), (0x04, False, 1, 0), (0x08, True, 0, 2), (0x10, True, 1, 2)]"

fun hextile_fields ::
    "bytes \<Rightarrow> byte \<Rightarrow> nat \<Rightarrow> (byte \<times> bool \<times> nat \<times> nat) list \<Rightarrow> nat \<Rightarrow> nat option" where
  "hextile_fields buf sub pix [] off = Some off"
| "hextile_fields buf sub pix ((b, counted, mul, add) # fs) off =
     (if sub AND b \<noteq> 0 then
        let sz = mul * pix + add
        in case (if counted then hextile_counted buf off sz else avail buf off sz) of
             None \<Rightarrow> None
           | Some off' \<Rightarrow> hextile_fields buf sub pix fs off'
      else hextile_fields buf sub pix fs off)"

definition hextile_tile :: "bytes \<Rightarrow> nat \<Rightarrow> nat \<Rightarrow> nat \<Rightarrow> nat \<Rightarrow> nat option" where
  "hextile_tile buf off tw th pix =
     (if length buf \<le> off then None
      else let sub = buf ! off; off = off + 1
           in if sub AND 0x01 \<noteq> 0 then avail buf off (tw * th * pix)
              else hextile_fields buf sub pix hextile_table off)"

function hextile_row :: "bytes \<Rightarrow> nat \<Rightarrow> nat \<Rightarrow> nat \<Rightarrow> nat \<Rightarrow> nat \<Rightarrow> nat option" where
  "hextile_row buf w th pix x off =
     (if x < w then
        (case hextile_tile buf off (min 16 (w - x)) th pix of
           None \<Rightarrow> None
         | Some off' \<Rightarrow> hextile_row buf w th pix (x + 16) off')
      else Some off)"
  by pat_completeness auto
termination
  by (relation "measure (\<lambda>(buf, w, th, pix, x, off). w - x)") auto

function hextile_rows :: "bytes \<Rightarrow> nat \<Rightarrow> nat \<Rightarrow> nat \<Rightarrow> nat \<Rightarrow> nat \<Rightarrow> nat option" where
  "hextile_rows buf w h pix y off =
     (if y < h then
        (case hextile_row buf w (min 16 (h - y)) pix 0 off of
           None \<Rightarrow> None
         | Some off' \<Rightarrow> hextile_rows buf w h pix (y + 16) off')
      else Some off)"
  by pat_completeness auto
termination
  by (relation "measure (\<lambda>(buf, w, h, pix, y, off). h - y)") auto

declare hextile_row.simps [simp del] hextile_rows.simps [simp del]

definition hextile_len :: "bytes \<Rightarrow> nat \<Rightarrow> nat \<Rightarrow> nat \<Rightarrow> nat option" where
  "hextile_len buf w h pix = hextile_rows buf w h pix 0 0"

datatype rect_len = RLen nat | RIncomplete | RUnknown

definition rect_data_len :: "bytes \<Rightarrow> nat \<Rightarrow> int \<Rightarrow> nat \<Rightarrow> nat \<Rightarrow> rect_len" where
  "rect_data_len b pix enc w h =
     (let mk = ((w + 7) div 8) * h in
      if enc = 0 then RLen (w * h * pix)
      else if enc = 1 then RLen 4
      else if enc = 2 then
        (if length b < 16 then RIncomplete
         else RLen (4 + pix + be_nat (slice 12 16 b) * (pix + 8)))
      else if enc = 5 then
        (case hextile_len (drop 12 b) w h pix of None \<Rightarrow> RIncomplete | Some n \<Rightarrow> RLen n)
      else if enc = 16 then
        (if length b < 16 then RIncomplete else RLen (4 + be_nat (slice 12 16 b)))
      else if enc = -223 \<or> enc = -224 then RLen 0
      else if enc = -239 \<or> enc = -241 then RLen (w * h * pix + mk)
      else if enc = -240 then RLen (8 + w * h * pix + mk)
      else if enc = -307 then
        (if length b < 16 then RIncomplete else RLen (4 + be_nat (slice 12 16 b)))
      else if enc = -308 then
        (if length b < 16 then RIncomplete else RLen (4 + 16 * be_nat (slice 12 16 b)))
      else RUnknown)"

subsection \<open>A size once decided stays decided\<close>

lemma avail_Some: "avail buf off sz = Some n \<longleftrightarrow> n = off + sz \<and> n \<le> length buf"
  by (auto simp: avail_def)

lemma avail_append: "avail buf off sz = Some n \<Longrightarrow> avail (buf @ zs) off sz = Some n"
  by (auto simp: avail_Some)

lemma hextile_counted_append:
  "hextile_counted buf off rec = Some n \<Longrightarrow> hextile_counted (buf @ zs) off rec = Some n"
  by (auto simp: hextile_counted_def avail_Some nth_append split: if_splits)

lemma hextile_fields_append:
  "hextile_fields buf sub pix fs off = Some n \<Longrightarrow> hextile_fields (buf @ zs) sub pix fs off = Some n"
  by (induction buf sub pix fs off rule: hextile_fields.induct)
    (auto simp: Let_def avail_append hextile_counted_append
          split: if_splits option.splits dest: avail_append [of _ _ _ _ zs]
            hextile_counted_append [of _ _ _ _ zs])

lemma hextile_tile_append:
  "hextile_tile buf off tw th pix = Some n \<Longrightarrow> hextile_tile (buf @ zs) off tw th pix = Some n"
  by (auto simp: hextile_tile_def Let_def nth_append avail_append hextile_fields_append
           split: if_splits)

lemma hextile_row_append:
  "hextile_row buf w th pix x off = Some n \<Longrightarrow> hextile_row (buf @ zs) w th pix x off = Some n"
proof (induction buf w th pix x off rule: hextile_row.induct)
  case (1 buf w th pix x off)
  then show ?case
    by (auto simp: hextile_row.simps [of _ _ _ _ x off] split: if_splits option.splits
             dest: hextile_tile_append [of _ _ _ _ _ _ zs])
qed

lemma hextile_rows_append:
  "hextile_rows buf w h pix y off = Some n \<Longrightarrow> hextile_rows (buf @ zs) w h pix y off = Some n"
proof (induction buf w h pix y off rule: hextile_rows.induct)
  case (1 buf w h pix y off)
  then show ?case
    by (auto simp: hextile_rows.simps [of _ _ _ _ y off] split: if_splits option.splits
             dest: hextile_row_append [of _ _ _ _ _ _ _ zs])
qed

lemma rect_data_len_append:
  "rect_data_len b pix enc w h \<noteq> RIncomplete \<Longrightarrow> 12 \<le> length b \<Longrightarrow>
   rect_data_len (b @ zs) pix enc w h = rect_data_len b pix enc w h"
  by (auto simp: rect_data_len_def hextile_len_def slice_append_fits Let_def
           split: if_splits option.splits dest: hextile_rows_append [of _ _ _ _ _ _ _ zs])

lemma rect_data_len_unknown:
  "rect_data_len b pix enc w h = RUnknown \<longleftrightarrow> enc \<notin> set safe_encodings"
  by (auto simp: rect_data_len_def safe_encodings_def Let_def split: option.splits)

lemma rect_data_len_negotiated:
  "rect_data_len b pix enc w h = RLen n \<Longrightarrow> enc \<in> set safe_encodings"
  using rect_data_len_unknown [of b pix enc w h] by force

subsection \<open>A Hextile size covers bytes that have arrived\<close>

lemma hextile_field_le:
  "(if counted then hextile_counted buf off sz else avail buf off sz) = Some off' \<Longrightarrow>
   off \<le> off' \<and> off' \<le> length buf"
  by (auto simp: avail_Some hextile_counted_def split: if_splits)

lemma hextile_fields_le:
  "hextile_fields buf sub pix fs off = Some n \<Longrightarrow> off \<le> length buf \<Longrightarrow> off \<le> n \<and> n \<le> length buf"
proof (induction buf sub pix fs off rule: hextile_fields.induct)
  case (2 buf sub pix b counted mul add fs off)
  show ?case
  proof (cases "sub AND b \<noteq> 0")
    case True
    with "2.prems" obtain off' where
      off': "(if counted then hextile_counted buf off (mul * pix + add)
              else avail buf off (mul * pix + add)) = Some off'"
      and rest: "hextile_fields buf sub pix fs off' = Some n"
      by (auto simp: Let_def split: option.splits)
    have le: "off \<le> off' \<and> off' \<le> length buf" using hextile_field_le [OF off'] .
    then have "off' \<le> n \<and> n \<le> length buf"
      using "2.IH"(1) [OF True refl off'] rest by blast
    with le show ?thesis by simp
  next
    case False
    with "2" show ?thesis by simp
  qed
qed simp

lemma hextile_tile_le:
  "hextile_tile buf off tw th pix = Some n \<Longrightarrow> off < n \<and> n \<le> length buf"
  using hextile_fields_le [of buf "buf ! off" pix hextile_table "off + 1" n]
  by (auto simp: hextile_tile_def Let_def avail_Some split: if_splits)

lemma hextile_row_le:
  "hextile_row buf w th pix x off = Some n \<Longrightarrow> off \<le> length buf \<Longrightarrow> off \<le> n \<and> n \<le> length buf"
proof (induction buf w th pix x off rule: hextile_row.induct)
  case (1 buf w th pix x off)
  then show ?case
    by (fastforce simp: hextile_row.simps [of _ _ _ _ x off] split: if_splits option.splits
             dest: hextile_tile_le)
qed

lemma hextile_rows_le:
  "hextile_rows buf w h pix y off = Some n \<Longrightarrow> off \<le> length buf \<Longrightarrow> off \<le> n \<and> n \<le> length buf"
proof (induction buf w h pix y off rule: hextile_rows.induct)
  case (1 buf w h pix y off)
  then show ?case
    by (fastforce simp: hextile_rows.simps [of _ _ _ _ y off] split: if_splits option.splits
             dest: hextile_row_le)
qed

lemma hextile_len_le: "hextile_len buf w h pix = Some n \<Longrightarrow> n \<le> length buf"
  unfolding hextile_len_def by (drule hextile_rows_le) simp_all

end
