(* ===== verification/RfbDecoder.thy ===== *)
theory RfbDecoder
  imports RfbServer
begin

text \<open>
  \<open>_ServerMsgParser\<close> of \<open>services/rfb_filter.py\<close>: the streaming decoder of the server-to-client
  RFB messages. Each \<open>_feed_*\<close> method is a function from the parser record to a verdict, the
  bytes it appends to \<open>out\<close>, and the new record; \<open>srv_run\<close> is the \<open>while True\<close> of \<open>feed\<close>.
  The \<open>_DEAD\<close> verdict is \<open>None\<close> of the run: the caller gives the connection up and never
  looks at the parser again.
\<close>

datatype srv_state = SIdle | SFbuHdr | SRectHdr | SRectData

datatype srv_verdict = More | Wait | Dead

record srv_parser =
  sp_buf :: bytes
  sp_pix :: nat
  sp_allow_read :: bool
  sp_state :: srv_state
  sp_rects_left :: int
  sp_rect_pending :: nat

definition init_srv_parser :: "nat \<Rightarrow> bool \<Rightarrow> srv_parser" where
  "init_srv_parser pix allow_read =
     \<lparr>sp_buf = [], sp_pix = max 1 pix, sp_allow_read = allow_read, sp_state = SIdle,
      sp_rects_left = 0, sp_rect_pending = 0\<rparr>"

text \<open>\<open>_SRV_FIXED_LEN\<close> and \<open>_SRV_VAR_LEN\<close>: the length, or header length and tail length.\<close>

definition srv_fixed_len :: "nat \<Rightarrow> nat option" where
  "srv_fixed_len = map_of [(1, 6), (2, 1), (4, 6), (150, 1), (173, 8)]"

definition srv_var_len :: "nat \<Rightarrow> (nat \<times> (bytes \<Rightarrow> nat)) option" where
  "srv_var_len t =
     (if t = 3 then Some (8, \<lambda>h. be_nat (slice 4 8 h))
      else if t = 128 then Some (8, \<lambda>h. be_nat (slice 4 8 h))
      else if t = 248 then Some (9, \<lambda>h. unat (h ! 4))
      else None)"

definition feed_idle :: "string option \<Rightarrow> srv_parser \<Rightarrow> srv_verdict \<times> bytes \<times> srv_parser" where
  "feed_idle env p =
     (if sp_buf p = [] then (Wait, [], p)
      else let t = unat (sp_buf p ! 0) in
      if t = 0 then (More, [], p\<lparr>sp_state := SFbuHdr\<rparr>)
      else case srv_fixed_len t of
        Some need \<Rightarrow>
          if length (sp_buf p) < need then (Wait, [], p)
          else (More, take need (sp_buf p), p\<lparr>sp_buf := drop need (sp_buf p)\<rparr>)
      | None \<Rightarrow>
        (case srv_var_len t of
          Some (hdr, tail) \<Rightarrow>
            if length (sp_buf p) < hdr then (Wait, [], p)
            else let need = hdr + tail (take hdr (sp_buf p)) in
            if length (sp_buf p) < need then (Wait, [], p)
            else let raw = take need (sp_buf p);
                     p = p\<lparr>sp_buf := drop need (sp_buf p)\<rparr> in
            if t = 3 then
              if \<not> sp_allow_read p then (More, [], p)
              else if max_clipboard env < need then (More, [], p)
              else let raw = sanitize_cut_text raw in
                if length raw \<le> 8 then (More, [], p) else (More, raw, p)
            else (More, raw, p)
        | None \<Rightarrow> (Dead, [], p)))"

definition feed_fbu_hdr :: "srv_parser \<Rightarrow> srv_verdict \<times> bytes \<times> srv_parser" where
  "feed_fbu_hdr p =
     (if length (sp_buf p) < 4 then (Wait, [], p)
      else let rects = int (be_nat (slice 2 4 (sp_buf p)));
               p = p\<lparr>sp_rects_left := rects, sp_buf := drop 4 (sp_buf p)\<rparr> in
      if rects = 0 then (More, [0, 0, 0, 0], p\<lparr>sp_state := SIdle\<rparr>)
      else (More, [], p\<lparr>sp_state := SRectHdr\<rparr>))"

definition feed_rect_hdr :: "srv_parser \<Rightarrow> srv_verdict \<times> bytes \<times> srv_parser" where
  "feed_rect_hdr p =
     (if length (sp_buf p) < 12 then (Wait, [], p)
      else let w = be_nat (slice 4 6 (sp_buf p));
               h = be_nat (slice 6 8 (sp_buf p));
               enc = be_int32 (slice 8 12 (sp_buf p)) in
      case rect_data_len (sp_buf p) (sp_pix p) enc w h of
        RIncomplete \<Rightarrow> (Wait, [], p)
      | RUnknown \<Rightarrow> (Dead, [], p)
      | RLen datalen \<Rightarrow>
          (More, [0, 0, 0, 1] @ take 12 (sp_buf p),
           p\<lparr>sp_buf := drop 12 (sp_buf p), sp_rect_pending := datalen,
             sp_rects_left := sp_rects_left p - 1, sp_state := SRectData\<rparr>))"

definition feed_rect_data :: "srv_parser \<Rightarrow> srv_verdict \<times> bytes \<times> srv_parser" where
  "feed_rect_data p =
     (let n = min (length (sp_buf p)) (sp_rect_pending p) in
      if n = 0 then (Wait, [], p)
      else let p' = p\<lparr>sp_buf := drop n (sp_buf p), sp_rect_pending := sp_rect_pending p - n\<rparr> in
        (More, take n (sp_buf p),
         if sp_rect_pending p' = 0
         then p'\<lparr>sp_state := (if sp_rects_left p' = 0 then SIdle else SRectHdr)\<rparr>
         else p'))"

definition srv_step :: "string option \<Rightarrow> srv_parser \<Rightarrow> srv_verdict \<times> bytes \<times> srv_parser" where
  "srv_step env p =
     (case sp_state p of
        SIdle \<Rightarrow> feed_idle env p
      | SFbuHdr \<Rightarrow> feed_fbu_hdr p
      | SRectHdr \<Rightarrow> feed_rect_hdr p
      | SRectData \<Rightarrow> feed_rect_data p)"

subsection \<open>The loop of feed ends: every continued step consumes input\<close>

definition srv_measure :: "srv_parser \<Rightarrow> nat" where
  "srv_measure p = 2 * length (sp_buf p) + (if sp_state p = SIdle then 1 else 0)"

lemma srv_fixed_len_pos: "srv_fixed_len t = Some n \<Longrightarrow> 1 \<le> n"
  by (auto simp: srv_fixed_len_def split: if_splits)

lemma srv_var_len_pos: "srv_var_len t = Some (hdr, tail) \<Longrightarrow> 8 \<le> hdr"
  by (auto simp: srv_var_len_def split: if_splits)

lemma feed_idle_decreases:
  "feed_idle env p = (More, c, p') \<Longrightarrow> sp_state p = SIdle \<Longrightarrow> srv_measure p' < srv_measure p"
  by (auto simp: feed_idle_def srv_measure_def Let_def
           split: if_splits option.splits dest!: srv_fixed_len_pos srv_var_len_pos)

lemma srv_step_decreases: "srv_step env p = (More, c, p') \<Longrightarrow> srv_measure p' < srv_measure p"
proof (cases "sp_state p")
  case SIdle
  then show "srv_step env p = (More, c, p') \<Longrightarrow> ?thesis"
    using feed_idle_decreases by (simp add: srv_step_def)
next
  case SFbuHdr
  then show "srv_step env p = (More, c, p') \<Longrightarrow> ?thesis"
    by (auto simp: srv_step_def feed_fbu_hdr_def srv_measure_def Let_def split: if_splits)
next
  case SRectHdr
  then show "srv_step env p = (More, c, p') \<Longrightarrow> ?thesis"
    by (auto simp: srv_step_def feed_rect_hdr_def srv_measure_def Let_def
             split: if_splits rect_len.splits)
next
  case SRectData
  then show "srv_step env p = (More, c, p') \<Longrightarrow> ?thesis"
    by (auto simp: srv_step_def feed_rect_data_def srv_measure_def Let_def split: if_splits)
qed

function srv_run :: "string option \<Rightarrow> srv_parser \<Rightarrow> (bytes \<times> srv_parser) option" where
  "srv_run env p =
     (case srv_step env p of
        (Dead, c, p') \<Rightarrow> None
      | (Wait, c, p') \<Rightarrow> Some (c, p')
      | (More, c, p') \<Rightarrow>
          (case srv_run env p' of
             None \<Rightarrow> None
           | Some (out, q) \<Rightarrow> Some (c @ out, q)))"
  by pat_completeness auto
termination
  by (relation "measure (\<lambda>(env, p). srv_measure p)") (auto dest: srv_step_decreases [OF sym])

declare srv_run.simps [simp del]

definition srv_feed :: "string option \<Rightarrow> srv_parser \<Rightarrow> bytes \<Rightarrow> (bytes \<times> srv_parser) option" where
  "srv_feed env p data = srv_run env (p\<lparr>sp_buf := sp_buf p @ data\<rparr>)"

section \<open>The decoder does not depend on how the stream is cut\<close>

definition sp_more :: "bytes \<Rightarrow> srv_parser \<Rightarrow> srv_parser" where
  "sp_more d p = p\<lparr>sp_buf := sp_buf p @ d\<rparr>"

lemma sp_more_sel [simp]:
  "sp_buf (sp_more d p) = sp_buf p @ d"
  "sp_pix (sp_more d p) = sp_pix p"
  "sp_allow_read (sp_more d p) = sp_allow_read p"
  "sp_state (sp_more d p) = sp_state p"
  "sp_rects_left (sp_more d p) = sp_rects_left p"
  "sp_rect_pending (sp_more d p) = sp_rect_pending p"
  by (simp_all add: sp_more_def)

lemma sp_more_more [simp]: "sp_more b (sp_more a p) = sp_more (a @ b) p"
  by (simp add: sp_more_def)

lemma sp_more_Nil [simp]: "sp_more [] p = p"
  by (simp add: sp_more_def)

lemma srv_feed_more: "srv_feed env p data = srv_run env (sp_more data p)"
  by (simp add: srv_feed_def sp_more_def)

lemma feed_idle_more:
  assumes "feed_idle env p = (v, c, p')" and "v \<noteq> Wait"
  shows "feed_idle env (sp_more d p) = (v, c, sp_more d p')"
proof -
  from assms have ne: "sp_buf p \<noteq> []" by (auto simp: feed_idle_def)
  then have nth: "(sp_buf p @ d) ! 0 = sp_buf p ! 0" by (simp add: nth_append)
  define t where "t = unat (sp_buf p ! 0)"
  show ?thesis
  proof (cases "srv_fixed_len t")
    case (Some need)
    with assms ne nth show ?thesis
      by (auto simp: feed_idle_def sp_more_def t_def [symmetric] split: if_splits)
  next
    case None
    note fixed = None
    show ?thesis
    proof (cases "srv_var_len t")
      case None
      with fixed assms ne nth show ?thesis
        by (auto simp: feed_idle_def sp_more_def t_def [symmetric] split: if_splits)
    next
      case (Some ht)
      obtain hdr tail where ht: "ht = (hdr, tail)" by (cases ht)
      with Some fixed assms ne nth show ?thesis
        by (auto simp: feed_idle_def sp_more_def t_def [symmetric] Let_def split: if_splits)
    qed
  qed
qed

lemma feed_fbu_hdr_more:
  "feed_fbu_hdr p = (v, c, p') \<Longrightarrow> v \<noteq> Wait \<Longrightarrow>
   feed_fbu_hdr (sp_more d p) = (v, c, sp_more d p')"
  by (auto simp: feed_fbu_hdr_def sp_more_def Let_def slice_append_fits split: if_splits)

lemma feed_rect_hdr_more:
  assumes "feed_rect_hdr p = (v, c, p')" and "v \<noteq> Wait"
  shows "feed_rect_hdr (sp_more d p) = (v, c, sp_more d p')"
proof -
  from assms have len: "12 \<le> length (sp_buf p)"
    by (auto simp: feed_rect_hdr_def split: if_splits)
  let ?l = "rect_data_len (sp_buf p) (sp_pix p) (be_int32 (slice 8 12 (sp_buf p)))
              (be_nat (slice 4 6 (sp_buf p))) (be_nat (slice 6 8 (sp_buf p)))"
  from assms len have "?l \<noteq> RIncomplete" by (auto simp: feed_rect_hdr_def Let_def)
  note same = rect_data_len_append [OF this len, of d]
  show ?thesis
    using assms len
    by (simp add: feed_rect_hdr_def Let_def slice_append_fits same split: rect_len.splits)
      (auto simp: sp_more_def)
qed

lemma feed_rect_data_more:
  assumes "feed_rect_data p = (v, c, p')" and "v \<noteq> Wait"
    and "sp_rect_pending p \<le> length (sp_buf p)"
  shows "feed_rect_data (sp_more d p) = (v, c, sp_more d p')"
  using assms by (auto simp: feed_rect_data_def Let_def sp_more_def split: if_splits)

lemma srv_step_more:
  assumes "srv_step env p = (v, c, p')" and "v \<noteq> Wait"
    and "sp_state p = SRectData \<Longrightarrow> sp_rect_pending p \<le> length (sp_buf p)"
  shows "srv_step env (sp_more d p) = (v, c, sp_more d p')"
  using assms
  by (cases "sp_state p")
    (simp_all add: srv_step_def feed_idle_more feed_fbu_hdr_more feed_rect_hdr_more
      feed_rect_data_more)

lemma srv_step_wait: "srv_step env p = (Wait, c, p') \<Longrightarrow> c = [] \<and> p' = p"
  by (auto simp: srv_step_def feed_idle_def feed_fbu_hdr_def feed_rect_hdr_def
        feed_rect_data_def Let_def split: srv_state.splits if_splits option.splits rect_len.splits)

text \<open>A payload that has only partly arrived: the two ways of cutting it emit the same bytes.\<close>

lemma srv_run_partial:
  assumes st: "sp_state p = SRectData" and part: "length (sp_buf p) < sp_rect_pending p"
  shows "srv_run env p = Some (sp_buf p, p\<lparr>sp_buf := [], sp_rect_pending :=
           sp_rect_pending p - length (sp_buf p)\<rparr>)"
  using assms
  by (cases "sp_buf p = []")
    (simp_all add: srv_run.simps srv_step_def feed_rect_data_def Let_def)

lemma srv_run_more:
  "srv_run env p = (case srv_step env p of (v, c, p') \<Rightarrow>
     if v = More then map_option (\<lambda>(out, q). (c @ out, q)) (srv_run env p')
     else if v = Wait then Some (c, p') else None)"
  by (subst srv_run.simps) (auto split: prod.splits srv_verdict.splits option.splits)

lemma srv_run_partial_append:
  assumes st: "sp_state p = SRectData" and part: "length (sp_buf p) < sp_rect_pending p"
  shows "srv_run env (sp_more d p) =
     map_option (\<lambda>(out, q). (sp_buf p @ out, q))
       (srv_run env (p\<lparr>sp_buf := d, sp_rect_pending := sp_rect_pending p - length (sp_buf p)\<rparr>))"
proof (cases "sp_buf p = []")
  case True
  then show ?thesis by (simp add: sp_more_def option.map_ident case_prod_unfold)
next
  case ne: False
  show ?thesis
  proof (cases "d = []")
    case True
    with assms ne show ?thesis
      by (simp add: srv_run_partial srv_run_more srv_step_def feed_rect_data_def)
  next
    case False
    let ?k = "length (sp_buf p)"
    let ?q = "p\<lparr>sp_buf := d, sp_rect_pending := sp_rect_pending p - ?k\<rparr>"
    obtain c r where q: "srv_step env ?q = (More, c, r)"
      using st part False by (simp add: srv_step_def feed_rect_data_def Let_def)
    have "srv_step env (sp_more d p) = (More, sp_buf p @ c, r)"
      using q st part ne False
      by (auto simp: srv_step_def feed_rect_data_def Let_def sp_more_def min_def
               split: if_splits)
    with q show ?thesis
      by (simp add: srv_run_more [of _ "sp_more d p"] srv_run_more [of _ ?q]
          option.map_comp comp_def case_prod_unfold)
  qed
qed

lemma srv_run_append:
  "srv_run env (sp_more d p) =
     (case srv_run env p of
        None \<Rightarrow> None
      | Some (out, q) \<Rightarrow> map_option (\<lambda>(out', r). (out @ out', r)) (srv_run env (sp_more d q)))"
proof (induction env p rule: srv_run.induct)
  case (1 env p)
  obtain v c p' where step: "srv_step env p = (v, c, p')" by (cases "srv_step env p")
  show ?case
  proof (cases "v = Wait")
    case True
    with step srv_step_wait [of env p c p'] show ?thesis
      by (simp add: srv_run_more [of env p] option.map_ident case_prod_unfold)
  next
    case go: False
    show ?thesis
    proof (cases "sp_state p = SRectData \<and> length (sp_buf p) < sp_rect_pending p")
      case True
      then show ?thesis
        by (simp add: srv_run_partial srv_run_partial_append)
          (simp add: sp_more_def option.map_id)
    next
      case False
      then have step': "srv_step env (sp_more d p) = (v, c, sp_more d p')"
        using srv_step_more [OF step go] by auto
      show ?thesis
      proof (cases v)
        case More
        with "1.IH" step step' show ?thesis
          by (simp add: srv_run_more [of env p] srv_run_more [of env "sp_more d p"]
              split: option.splits)
            (auto simp: option.map_comp comp_def case_prod_unfold split: option.splits)
      qed (use go step step' in
          \<open>simp_all add: srv_run_more [of env p] srv_run_more [of env "sp_more d p"]\<close>)
    qed
  qed
qed

lemma srv_feed_append:
  "srv_feed env p (a @ b) =
     (case srv_feed env p a of
        None \<Rightarrow> None
      | Some (out, q) \<Rightarrow> map_option (\<lambda>(out', r). (out @ out', r)) (srv_feed env q b))"
  unfolding srv_feed_more using srv_run_append [of env b "sp_more a p"] by simp

section \<open>What the decoder lets through\<close>

text \<open>The units a run appends to \<open>out\<close>, each with the state that emitted it.\<close>

function srv_trace :: "string option \<Rightarrow> srv_parser \<Rightarrow> (srv_state \<times> bytes) list" where
  "srv_trace env p =
     (case srv_step env p of
        (More, c, p') \<Rightarrow> (sp_state p, c) # srv_trace env p'
      | (Wait, c, p') \<Rightarrow> []
      | (Dead, c, p') \<Rightarrow> [])"
  by pat_completeness auto
termination
  by (relation "measure (\<lambda>(env, p). srv_measure p)") (auto dest: srv_step_decreases [OF sym])

declare srv_trace.simps [simp del]

lemma srv_trace_out: "srv_run env p = Some (out, q) \<Longrightarrow> concat (map snd (srv_trace env p)) = out"
proof (induction env p arbitrary: out rule: srv_run.induct)
  case (1 env p)
  obtain v c p' where step: "srv_step env p = (v, c, p')" by (cases "srv_step env p")
  show ?case
  proof (cases v)
    case More
    with "1.prems" step obtain out' where "srv_run env p' = Some (out', q)" "out = c @ out'"
      by (auto simp: srv_run_more)
    with "1.IH" [OF step [symmetric] More refl] step More show ?thesis
      by (simp add: srv_trace.simps [of env p])
  next
    case Wait
    with "1.prems" step srv_step_wait [of env p c p'] show ?thesis
      by (simp add: srv_run_more srv_trace.simps [of env p])
  next
    case Dead
    with "1.prems" step show ?thesis by (simp add: srv_run_more)
  qed
qed

definition server_msg_types :: "nat set" where
  "server_msg_types = {1, 2, 3, 4, 128, 150, 173, 248}"

definition clean_cut_text :: "string option \<Rightarrow> bytes \<Rightarrow> bool" where
  "clean_cut_text env c \<longleftrightarrow>
     cut_text_msg c \<and> length c \<le> max_clipboard env \<and> list_all cut_text_keeps (drop 8 c)"

fun server_unit_ok :: "string option \<Rightarrow> bool \<Rightarrow> srv_state \<times> bytes \<Rightarrow> bool" where
  "server_unit_ok env allow (SIdle, c) \<longleftrightarrow>
     c = [] \<or> (unat (hd c) \<in> server_msg_types \<and>
              (unat (hd c) = 3 \<longrightarrow> allow \<and> clean_cut_text env c))"
| "server_unit_ok env allow (SFbuHdr, c) \<longleftrightarrow> c = [] \<or> c = [0, 0, 0, 0]"
| "server_unit_ok env allow (SRectHdr, c) \<longleftrightarrow>
     length c = 16 \<and> take 4 c = [0, 0, 0, 1] \<and> be_int32 (slice 12 16 c) \<in> set safe_encodings"
| "server_unit_ok env allow (SRectData, c) \<longleftrightarrow> c \<noteq> []"

lemma srv_step_allow: "srv_step env p = (v, c, p') \<Longrightarrow> sp_allow_read p' = sp_allow_read p"
  by (auto simp: srv_step_def feed_idle_def feed_fbu_hdr_def feed_rect_hdr_def
        feed_rect_data_def Let_def split: srv_state.splits if_splits option.splits rect_len.splits)

lemma sanitize_clean:
  assumes "cut_text_msg raw" and "length raw \<le> max_clipboard env"
  shows "clean_cut_text env (sanitize_cut_text raw)"
proof -
  from assms(1) have len: "8 \<le> length raw" by (simp add: cut_text_msg_def)
  have "length (sanitize_cut_text raw) \<le> length raw"
    using len length_filter_le [of cut_text_keeps "drop 8 raw"] by (simp add: sanitize_length)
  with assms len show ?thesis
    by (auto simp: clean_cut_text_def sanitize_cut_text_msg sanitize_payload list_all_iff)
qed

lemma feed_idle_unit:
  assumes "feed_idle env p = (More, c, p')"
  shows "server_unit_ok env (sp_allow_read p) (SIdle, c)"
proof -
  from assms have ne: "sp_buf p \<noteq> []" by (auto simp: feed_idle_def)
  define t where "t = unat (sp_buf p ! 0)"
  show ?thesis
  proof (cases "srv_fixed_len t")
    case (Some need)
    then have "t \<in> server_msg_types" "t \<noteq> 3" "0 < need"
      by (auto simp: srv_fixed_len_def server_msg_types_def split: if_splits)
    with Some assms ne show ?thesis
      by (auto simp: feed_idle_def Let_def t_def [symmetric] hd_conv_nth split: if_splits)
  next
    case None
    note fixed = None
    show ?thesis
    proof (cases "t = 0")
      case True
      with assms ne show ?thesis by (auto simp: feed_idle_def Let_def t_def)
    next
      case t0: False
      with fixed assms ne obtain hdr tail where var: "srv_var_len t = Some (hdr, tail)"
        by (auto simp: feed_idle_def Let_def t_def [symmetric] split: option.splits)
      define need where "need = hdr + tail (take hdr (sp_buf p))"
      from var have "0 < need" and mem: "t \<in> server_msg_types"
        by (auto simp: srv_var_len_def need_def server_msg_types_def split: if_splits)
      then have hd: "unat (hd (take need (sp_buf p))) = t"
        using ne by (simp add: hd_conv_nth t_def)
      show ?thesis
      proof (cases "t = 3")
        case False
        with assms ne fixed var t0 mem hd show ?thesis
          by (auto simp: feed_idle_def Let_def t_def [symmetric] need_def [symmetric]
              split: if_splits)
      next
        case True
        let ?m = "take need (sp_buf p)"
        have "c = [] \<or> (sp_allow_read p \<and> need \<le> length (sp_buf p) \<and>
            need \<le> max_clipboard env \<and> c = sanitize_cut_text ?m)"
          using assms ne fixed var t0 True
          by (auto simp: feed_idle_def Let_def t_def [symmetric] need_def [symmetric]
              split: if_splits)
        moreover have "cut_text_msg ?m" if "need \<le> length (sp_buf p)"
          using that var True
          by (auto simp: cut_text_msg_def srv_var_len_def need_def slice_take_fits)
        moreover have "8 \<le> need" using var True by (auto simp: srv_var_len_def need_def)
        ultimately show ?thesis
          using hd mem sanitize_clean [of ?m env] sanitize_hd [of ?m]
          by (auto simp: True)
      qed
    qed
  qed
qed

lemma srv_step_unit:
  assumes "srv_step env p = (More, c, p')"
  shows "server_unit_ok env (sp_allow_read p) (sp_state p, c)"
proof (cases "sp_state p")
  case SIdle
  with assms show ?thesis by (simp only: srv_step_def srv_state.case feed_idle_unit)
next
  case SFbuHdr
  with assms show ?thesis
    by (auto simp: srv_step_def feed_fbu_hdr_def Let_def split: if_splits)
next
  case SRectHdr
  have "slice 12 16 ([0, 0, 0, 1] @ take 12 b) = slice 8 12 b" if "12 \<le> length b" for b :: bytes
    using that by (simp add: slice_def drop_take)
  with SRectHdr assms show ?thesis
    by (auto simp: srv_step_def feed_rect_hdr_def Let_def
        split: if_splits rect_len.splits dest: rect_data_len_negotiated)
next
  case SRectData
  with assms show ?thesis
    by (auto simp: srv_step_def feed_rect_data_def Let_def split: if_splits)
qed

lemma srv_trace_units:
  "u \<in> set (srv_trace env p) \<Longrightarrow> server_unit_ok env (sp_allow_read p) u"
proof (induction env p rule: srv_trace.induct)
  case (1 env p)
  obtain v c p' where step: "srv_step env p = (v, c, p')" by (cases "srv_step env p")
  show ?case
  proof (cases v)
    case More
    with "1.prems" step consider "u = (sp_state p, c)" | "u \<in> set (srv_trace env p')"
      by (auto simp: srv_trace.simps [of env p])
    then show ?thesis
      using srv_step_unit [of env p c p'] "1.IH" [OF step [symmetric] More refl]
        srv_step_allow [OF step] step More
      by cases auto
  qed (use "1.prems" step in \<open>simp_all add: srv_trace.simps [of env p]\<close>)
qed

lemma srv_run_step: "srv_step env p = (More, c, p') \<Longrightarrow> srv_run env p = prepend c (srv_run env p')"
  by (simp add: srv_run_more [of env p] prepend_def)

lemma srv_run_wait: "srv_step env p = (Wait, c, p') \<Longrightarrow> srv_run env p = Some ([], p)"
  using srv_step_wait [of env p c p'] by (simp add: srv_run_more [of env p])

subsection \<open>Server cut texts\<close>

definition cut_text_out :: "string option \<Rightarrow> bool \<Rightarrow> bytes \<Rightarrow> bytes" where
  "cut_text_out env allow m =
     (if allow \<and> length m \<le> max_clipboard env \<and> filter cut_text_keeps (drop 8 m) \<noteq> []
      then sanitize_cut_text m else [])"

definition srv_idle :: "srv_parser \<Rightarrow> bool" where
  "srv_idle p \<longleftrightarrow> sp_state p = SIdle \<and> sp_buf p = []"

lemma feed_idle_cut_text:
  assumes "srv_idle p" and m: "cut_text_msg m" "m ! 0 = 3"
  shows "srv_step env (sp_more (m @ rest) p) =
           (More, cut_text_out env (sp_allow_read p) m, sp_more rest p)"
proof -
  from m have len: "8 \<le> length m" "8 + be_nat (slice 4 8 m) = length m"
    by (auto simp: cut_text_msg_def)
  then have ne: "m \<noteq> []" "(m @ rest) ! 0 = 3" using m(2) by (auto simp: nth_append)
  have need: "slice 4 8 (m @ rest) = slice 4 8 m" "slice 4 8 (take 8 m) = slice 4 8 m"
    using len(1) by (simp_all add: slice_append_fits slice_take_fits)
  have var: "srv_fixed_len 3 = None" "srv_var_len 3 = Some (8, \<lambda>h. be_nat (slice 4 8 h))"
    by (simp_all add: srv_fixed_len_def srv_var_len_def)
  show ?thesis
    using assms(1) ne len need var
    by (simp add: srv_step_def feed_idle_def srv_idle_def Let_def cut_text_out_def
        sanitize_length sp_more_def)
qed

lemma srv_feed_cut_text:
  assumes "srv_idle p" and "cut_text_msg m" and "m ! 0 = 3"
  shows "srv_feed env p (m @ rest) =
    prepend (cut_text_out env (sp_allow_read p) m) (srv_feed env p rest)"
  using srv_run_step [OF feed_idle_cut_text [OF assms]] by (simp add: srv_feed_more)

subsection \<open>Rectangles are re-emitted one per message\<close>

definition rect_size :: "nat \<Rightarrow> bytes \<Rightarrow> rect_len" where
  "rect_size pix r =
     rect_data_len r pix (be_int32 (slice 8 12 r)) (be_nat (slice 4 6 r)) (be_nat (slice 6 8 r))"

definition rect_complete :: "nat \<Rightarrow> bytes \<Rightarrow> bool" where
  "rect_complete pix r \<longleftrightarrow> 12 < length r \<and> rect_size pix r = RLen (length r - 12)"

lemma rect_size_append:
  "12 \<le> length r \<Longrightarrow> rect_size pix r \<noteq> RIncomplete \<Longrightarrow> rect_size pix (r @ zs) = rect_size pix r"
  by (simp add: rect_size_def slice_append_fits rect_data_len_append)

lemma feed_rect_hdr_size:
  "sp_state p = SRectHdr \<Longrightarrow> 12 \<le> length (sp_buf p) \<Longrightarrow>
   rect_size (sp_pix p) (sp_buf p) = RLen n \<Longrightarrow>
   srv_step env p = (More, [0, 0, 0, 1] @ take 12 (sp_buf p),
     p\<lparr>sp_buf := drop 12 (sp_buf p), sp_rect_pending := n,
       sp_rects_left := sp_rects_left p - 1, sp_state := SRectData\<rparr>)"
  by (simp add: srv_step_def feed_rect_hdr_def rect_size_def Let_def)

definition after_rect :: "int \<Rightarrow> srv_parser \<Rightarrow> srv_parser" where
  "after_rect left p = p\<lparr>sp_rects_left := left, sp_rect_pending := 0,
     sp_state := (if left = 0 then SIdle else SRectHdr)\<rparr>"

lemma srv_run_rect:
  assumes st: "sp_state p = SRectHdr" "sp_buf p = r @ rest" and r: "rect_complete (sp_pix p) r"
  shows "srv_run env p =
    prepend ([0, 0, 0, 1] @ r)
      (srv_run env (after_rect (sp_rects_left p - 1) (p\<lparr>sp_buf := rest\<rparr>)))"
proof -
  let ?n = "length r - 12"
  from r have len: "12 < length r" and sz: "rect_size (sp_pix p) r = RLen ?n"
    by (auto simp: rect_complete_def)
  have "rect_size (sp_pix p) (sp_buf p) = RLen ?n"
    using rect_size_append [of r "sp_pix p" rest] len sz st by simp
  then have s1: "srv_step env p = (More, [0, 0, 0, 1] @ take 12 r,
      p\<lparr>sp_buf := drop 12 r @ rest, sp_rect_pending := ?n,
        sp_rects_left := sp_rects_left p - 1, sp_state := SRectData\<rparr>)"
    using st len by (subst feed_rect_hdr_size [where n = ?n]) auto
  have s2: "srv_step env (p\<lparr>sp_buf := drop 12 r @ rest, sp_rect_pending := ?n,
        sp_rects_left := sp_rects_left p - 1, sp_state := SRectData\<rparr>) =
      (More, drop 12 r, after_rect (sp_rects_left p - 1) (p\<lparr>sp_buf := rest\<rparr>))"
    using len by (simp add: srv_step_def feed_rect_data_def Let_def after_rect_def)
  show ?thesis
    using len by (simp add: srv_run_step [OF s1] srv_run_step [OF s2] flip: append_assoc)
qed

definition one_rect_msg :: "bytes \<Rightarrow> bytes" where
  "one_rect_msg r = [0, 0, 0, 1] @ r"

lemma srv_run_rects:
  assumes "list_all (rect_complete (sp_pix p)) rs" and "rs \<noteq> []"
    and "sp_state p = SRectHdr" and "sp_rects_left p = int (length rs)"
    and "sp_buf p = concat rs @ rest"
  shows "srv_run env p =
    prepend (concat (map one_rect_msg rs))
      (srv_run env (after_rect 0 (p\<lparr>sp_buf := rest\<rparr>)))"
  using assms
proof (induction rs arbitrary: p)
  case (Cons r rs)
  let ?q = "after_rect (sp_rects_left p - 1) (p\<lparr>sp_buf := concat rs @ rest\<rparr>)"
  have step: "srv_run env p = prepend ([0, 0, 0, 1] @ r) (srv_run env ?q)"
    using Cons.prems by (intro srv_run_rect) auto
  show ?case
  proof (cases "rs = []")
    case True
    with step Cons.prems show ?thesis by (simp add: one_rect_msg_def)
  next
    case False
    then have "srv_run env ?q =
      prepend (concat (map one_rect_msg rs))
        (srv_run env (after_rect 0 (?q\<lparr>sp_buf := rest\<rparr>)))"
      using Cons.prems by (intro Cons.IH) (auto simp: after_rect_def)
    moreover have "after_rect 0 (?q\<lparr>sp_buf := rest\<rparr>) = after_rect 0 (p\<lparr>sp_buf := rest\<rparr>)"
      by (simp add: after_rect_def)
    ultimately show ?thesis
      by (simp add: step one_rect_msg_def [of r])
  qed
qed simp

lemma srv_run_fbu_hdr:
  assumes "srv_idle p" and "0 < n" and "n < 65536"
  shows "srv_run env (sp_more ([0, pad] @ to_be 2 n @ body) p) =
    srv_run env (p\<lparr>sp_buf := body, sp_rects_left := int n, sp_state := SRectHdr\<rparr>)"
proof -
  let ?p = "sp_more ([0, pad] @ to_be 2 n @ body) p"
  have "srv_step env ?p = (More, [], ?p\<lparr>sp_state := SFbuHdr\<rparr>)"
    using assms(1) by (simp add: srv_step_def srv_idle_def feed_idle_def)
  moreover have "srv_step env (?p\<lparr>sp_state := SFbuHdr\<rparr>) =
      (More, [], p\<lparr>sp_buf := body, sp_rects_left := int n, sp_state := SRectHdr\<rparr>)"
    using assms be_nat_to_be [of n 2]
    by (simp add: srv_step_def srv_idle_def feed_fbu_hdr_def Let_def slice_def sp_more_def)
  ultimately show ?thesis
    by (simp add: srv_run_step)
qed

subsection \<open>A rectangle without data\<close>

text \<open>Once in \<open>rect_data\<close> with nothing pending, no further input is ever forwarded.\<close>

lemma srv_feed_stalled:
  "sp_state p = SRectData \<Longrightarrow> sp_rect_pending p = 0 \<Longrightarrow> srv_feed env p data = Some ([], sp_more data p)"
  by (simp add: srv_feed_more srv_run_more [of _ "sp_more data p"] srv_step_def feed_rect_data_def)

lemma srv_run_empty_rect:
  assumes "srv_idle p" and "0 < n" and "n < 65536"
    and "length r = 12" and "rect_size (sp_pix p) r = RLen 0"
  shows "srv_feed env p ([0, pad] @ to_be 2 n @ r @ rest) =
    Some ([0, 0, 0, 1] @ r, p\<lparr>sp_buf := rest, sp_rects_left := int n - 1,
      sp_rect_pending := 0, sp_state := SRectData\<rparr>)"
proof -
  let ?q = "p\<lparr>sp_buf := r @ rest, sp_rects_left := int n, sp_state := SRectHdr\<rparr>"
  have "rect_size (sp_pix ?q) (sp_buf ?q) = RLen 0"
    using rect_size_append [of r "sp_pix p" rest] assms by simp
  then have "srv_step env ?q = (More, [0, 0, 0, 1] @ r,
      p\<lparr>sp_buf := rest, sp_rects_left := int n - 1, sp_rect_pending := 0, sp_state := SRectData\<rparr>)"
    using assms(4) by (subst feed_rect_hdr_size [where n = 0]) auto
  then show ?thesis
    using srv_run_fbu_hdr [OF assms(1-3), of env pad "r @ rest"]
    by (simp add: srv_feed_more srv_run_more [of _ ?q])
      (simp add: srv_run_more srv_step_def feed_rect_data_def)
qed

lemma rect_size_pseudo:
  "be_int32 (slice 8 12 r) \<in> {-223, -224} \<Longrightarrow> rect_size pix r = RLen 0"
  by (auto simp: rect_size_def rect_data_len_def)

end
