(* ===== verification/RfbFilter.thy ===== *)
theory RfbFilter
  imports RfbDecoder
begin

text \<open>
  \<open>RfbInputFilter\<close> of \<open>services/rfb_filter.py\<close>: the permission filter on the bytes a browser
  session and the VNC bridge exchange. \<open>client_to_server\<close> and \<open>track_server\<close> are the two entry
  points; both return the bytes to forward, or \<open>None\<close> when the connection must be closed.
  A closed filter keeps the flag \<open>ff_dead\<close> only: both entry points test it first, so the buffers
  of a dead filter are never read again.
  The random masks are a parameter \<open>rnd\<close>: the n-th frame written uses \<open>rnd n\<close>.
\<close>

section \<open>State\<close>

datatype cstate = CVersion | CSectype | CSecresp | CClientinit | CWaitServerinit | CMessages

record rfb_filter =
  ff_keyboard :: bool
  ff_pointer :: bool
  ff_clip_write :: bool
  ff_clip_read :: bool
  ff_ws_cbuf :: bytes
  ff_ws_sbuf :: bytes
  ff_rfb :: bytes
  ff_srv :: handshake
  ff_srv_parser :: "srv_parser option"
  ff_frag_op :: "nat option"
  ff_frag :: bytes
  ff_sfrag_op :: "nat option"
  ff_sfrag :: bytes
  ff_cstate :: cstate
  ff_dead :: bool
  ff_masks :: nat

definition init_filter ::
    "bool option \<Rightarrow> bool option \<Rightarrow> bool \<Rightarrow> bool \<Rightarrow> bool \<Rightarrow> bool \<Rightarrow> rfb_filter" where
  "init_filter allow_clipboard allow_control allow_keyboard allow_pointer
     allow_clipboard_write allow_clipboard_read =
     \<lparr>ff_keyboard = allow_keyboard \<or> allow_control = Some True,
      ff_pointer = allow_pointer \<or> allow_control = Some True,
      ff_clip_write = allow_clipboard_write \<or> allow_clipboard = Some True,
      ff_clip_read = allow_clipboard_read,
      ff_ws_cbuf = [], ff_ws_sbuf = [], ff_rfb = [],
      ff_srv = init_handshake, ff_srv_parser = None,
      ff_frag_op = None, ff_frag = [], ff_sfrag_op = None, ff_sfrag = [],
      ff_cstate = CVersion, ff_dead = False, ff_masks = 0\<rparr>"

section \<open>Reassembly of fragmented WebSocket messages\<close>

text \<open>
  The branch on the opcode that both directions run on each frame: control frames pass as they
  are, fragments are collected, a complete payload goes on to the RFB layer.
\<close>

datatype ws_event = EvControl bytes | EvFragment | EvPayload bytes | EvBad

definition ws_reassemble ::
    "ws_frame_in \<Rightarrow> nat option \<Rightarrow> bytes \<Rightarrow> ws_event \<times> nat option \<times> bytes" where
  "ws_reassemble fr op frag =
     (if fr_opcode fr \<in> {8, 9, 10} then (EvControl (fr_raw fr), op, frag)
      else if fr_opcode fr = 0 then
        (if op = None then (EvBad, op, frag)
         else let frag = frag @ fr_payload fr in
           if \<not> fr_fin fr then (EvFragment, op, frag)
           else (EvPayload frag, None, []))
      else if fr_opcode fr \<in> {1, 2} then
        (if \<not> fr_fin fr then (EvFragment, Some (fr_opcode fr), frag @ fr_payload fr)
         else (EvPayload (fr_payload fr), op, frag))
      else (EvBad, op, frag))"

section \<open>Client messages\<close>

text \<open>\<open>_FIXED_LEN\<close> and \<open>_VAR_LEN\<close>.\<close>

definition fixed_len :: "nat \<Rightarrow> nat option" where
  "fixed_len = map_of [(0, 20), (3, 10), (4, 8), (5, 6), (150, 6)]"

definition var_len :: "nat \<Rightarrow> (nat \<times> (bytes \<Rightarrow> nat)) option" where
  "var_len t =
     (if t = 1 then Some (6, \<lambda>h. 6 * be_nat (slice 4 6 h))
      else if t = 2 then Some (4, \<lambda>h. 4 * be_nat (slice 2 4 h))
      else if t = 6 then Some (8, \<lambda>h. be_nat (slice 4 8 h))
      else if t = 248 then Some (9, \<lambda>h. unat (h ! 4))
      else if t = 251 then Some (8, \<lambda>h. 16 * unat (h ! 4))
      else None)"

datatype parsed_msg = MIncomplete | MUnknown nat | MMsg nat nat

text \<open>Called on a non-empty buffer only.\<close>

definition parse_message :: "bytes \<Rightarrow> parsed_msg" where
  "parse_message b =
     (let t = unat (b ! 0) in
      case fixed_len t of
        Some need \<Rightarrow> if need \<le> length b then MMsg t need else MIncomplete
      | None \<Rightarrow>
        (case var_len t of
          Some (hdr, tail) \<Rightarrow>
            if length b < hdr then MIncomplete
            else let need = hdr + tail b
                 in if need \<le> length b then MMsg t need else MIncomplete
        | None \<Rightarrow> MUnknown t))"

definition filter_message ::
    "string option \<Rightarrow> rfb_filter \<Rightarrow> nat \<Rightarrow> nat \<Rightarrow> bytes \<Rightarrow> bytes option \<times> rfb_filter" where
  "filter_message env f mtype mlen raw =
     (if mtype = 2 then (Some (rewrite_encodings raw), f)
      else if mtype = 0 then
        let new_pix = max 1 (unat (raw ! 4) div 8)
        in (Some raw, f\<lparr>ff_srv := (ff_srv f)\<lparr>hs_pix_size := new_pix\<rparr>,
                       ff_srv_parser := map_option (\<lambda>p. p\<lparr>sp_pix := new_pix\<rparr>) (ff_srv_parser f)\<rparr>)
      else if mtype = 4 \<and> \<not> ff_keyboard f then (None, f)
      else if mtype \<in> {5, 251} \<and> \<not> ff_pointer f then (None, f)
      else if mtype = 6 then
        (if \<not> ff_clip_write f then (None, f)
         else if max_clipboard env < mlen then (None, f)
         else let raw = sanitize_cut_text raw
              in if length raw \<le> 8 then (None, f) else (Some raw, f))
      else (Some raw, f))"

text \<open>Returns the number of bytes consumed, 0 to wait, -1 to close.\<close>

definition client_handshake :: "rfb_filter \<Rightarrow> int \<times> rfb_filter" where
  "client_handshake f =
     (case ff_cstate f of
        CVersion \<Rightarrow>
          if length (ff_rfb f) < 12 then (0, f) else (12, f\<lparr>ff_cstate := CSectype\<rparr>)
      | CSectype \<Rightarrow>
          if length (ff_rfb f) < 1 then (0, f)
          else let sec = unat (ff_rfb f ! 0);
                   f = f\<lparr>ff_srv := hs_feed ((ff_srv f)\<lparr>hs_sec_type := Some sec\<rparr>) []\<rparr>
               in if sec = 2 then (1, f\<lparr>ff_cstate := CSecresp\<rparr>)
                  else if sec = 1 then (1, f\<lparr>ff_cstate := CClientinit\<rparr>)
                  else (-1, f)
      | CSecresp \<Rightarrow>
          if length (ff_rfb f) < 16 then (0, f) else (16, f\<lparr>ff_cstate := CClientinit\<rparr>)
      | CClientinit \<Rightarrow>
          if length (ff_rfb f) < 1 then (0, f) else (1, f\<lparr>ff_cstate := CWaitServerinit\<rparr>)
      | CWaitServerinit \<Rightarrow>
          if hs_done (ff_srv f) then (0, f\<lparr>ff_cstate := CMessages\<rparr>) else (0, f)
      | CMessages \<Rightarrow> (0, f))"

subsection \<open>The draining loop\<close>

definition drain_measure :: "rfb_filter \<Rightarrow> nat" where
  "drain_measure f = 2 * length (ff_rfb f) + (if ff_cstate f = CMessages then 0 else 1)"

lemma client_handshake_rfb:
  "client_handshake f = (k, g) \<Longrightarrow> ff_rfb g = ff_rfb f \<and> k \<le> int (length (ff_rfb f)) \<and> -1 \<le> k \<and>
     (0 < k \<longrightarrow> ff_cstate g \<noteq> CMessages)"
  by (auto simp: client_handshake_def Let_def Suc_le_eq split: cstate.splits if_splits)

lemma parse_message_bounds:
  "parse_message b = MMsg t n \<Longrightarrow> 4 \<le> n \<and> n \<le> length b"
  by (auto simp: parse_message_def fixed_len_def var_len_def Let_def
           split: if_splits option.splits prod.splits)

lemma filter_message_rfb:
  "filter_message env f t n raw = (r, g) \<Longrightarrow> ff_rfb g = ff_rfb f \<and> ff_cstate g = ff_cstate f"
  by (auto simp: filter_message_def Let_def split: if_splits)

function drain_rfb ::
    "string option \<Rightarrow> (nat \<Rightarrow> mask4) \<Rightarrow> rfb_filter \<Rightarrow> (bytes \<times> rfb_filter) option" where
  "drain_rfb env rnd f =
     (if ff_rfb f = [] then Some ([], f)
      else if ff_cstate f \<noteq> CMessages then
        (case client_handshake f of
           (consumed, g) \<Rightarrow>
             if consumed < 0 then None
             else if consumed = 0 then
               (if ff_cstate g = CMessages then drain_rfb env rnd g else Some ([], g))
             else prepend (ws_frame (rnd (ff_masks g)) (take (nat consumed) (ff_rfb g)))
                    (drain_rfb env rnd
                       (g\<lparr>ff_rfb := drop (nat consumed) (ff_rfb g), ff_masks := ff_masks g + 1\<rparr>)))
      else
        (case parse_message (ff_rfb f) of
           MIncomplete \<Rightarrow> Some ([], f)
         | MUnknown t \<Rightarrow> None
         | MMsg mtype mlen \<Rightarrow>
             (case filter_message env (f\<lparr>ff_rfb := drop mlen (ff_rfb f)\<rparr>) mtype mlen
                     (take mlen (ff_rfb f)) of
                (None, g) \<Rightarrow> drain_rfb env rnd g
              | (Some raw, g) \<Rightarrow>
                  prepend (ws_frame (rnd (ff_masks g)) raw)
                    (drain_rfb env rnd (g\<lparr>ff_masks := ff_masks g + 1\<rparr>)))))"
  by pat_completeness auto
termination
  by (relation "measure (\<lambda>(env, rnd, f). drain_measure f)")
    (auto simp: drain_measure_def
          dest!: client_handshake_rfb [OF sym] filter_message_rfb [OF sym] parse_message_bounds)

declare drain_rfb.simps [simp del]

section \<open>Client to server\<close>

definition client_payload ::
    "string option \<Rightarrow> (nat \<Rightarrow> mask4) \<Rightarrow> rfb_filter \<Rightarrow> bytes \<Rightarrow> (bytes \<times> rfb_filter) option" where
  "client_payload env rnd f payload =
     (let f = f\<lparr>ff_rfb := ff_rfb f @ payload\<rparr>
      in if max_rfb_buf < length (ff_rfb f) then None else drain_rfb env rnd f)"

definition client_frame ::
    "string option \<Rightarrow> (nat \<Rightarrow> mask4) \<Rightarrow> rfb_filter \<Rightarrow> ws_frame_in \<Rightarrow> (bytes \<times> rfb_filter) option" where
  "client_frame env rnd f fr =
     (case ws_reassemble fr (ff_frag_op f) (ff_frag f) of
        (ev, op, frag) \<Rightarrow>
          let f = f\<lparr>ff_frag_op := op, ff_frag := frag\<rparr> in
          (case ev of
             EvControl raw \<Rightarrow> Some (raw, f)
           | EvFragment \<Rightarrow> Some ([], f)
           | EvPayload payload \<Rightarrow> client_payload env rnd f payload
           | EvBad \<Rightarrow> None))"

text \<open>The loop over the frames of one call, for either direction.\<close>

fun run_frames ::
    "('s \<Rightarrow> ws_frame_in \<Rightarrow> (bytes \<times> 's) option) \<Rightarrow> 's \<Rightarrow> ws_frame_in list \<Rightarrow> (bytes \<times> 's) option" where
  "run_frames step f [] = Some ([], f)"
| "run_frames step f (fr # frs) =
     (case step f fr of
        None \<Rightarrow> None
      | Some (out, g) \<Rightarrow> prepend out (run_frames step g frs))"

definition client_to_server ::
    "string option \<Rightarrow> (nat \<Rightarrow> mask4) \<Rightarrow> rfb_filter \<Rightarrow> bytes \<Rightarrow> bytes option \<times> rfb_filter" where
  "client_to_server env rnd f data =
     (if ff_dead f then (None, f)
      else case parse_ws_frames (ff_ws_cbuf f @ data) of
        None \<Rightarrow> (None, f\<lparr>ff_dead := True\<rparr>)
      | Some (frames, rest) \<Rightarrow>
          (case run_frames (client_frame env rnd) (f\<lparr>ff_ws_cbuf := rest\<rparr>) frames of
             None \<Rightarrow> (None, f\<lparr>ff_dead := True\<rparr>)
           | Some (out, g) \<Rightarrow> (Some out, g)))"

section \<open>Server to client\<close>

definition track_server_payload ::
    "string option \<Rightarrow> rfb_filter \<Rightarrow> bytes \<Rightarrow> (bytes \<times> rfb_filter) option" where
  "track_server_payload env f payload =
     (case ff_srv_parser f of
        Some p \<Rightarrow>
          (case srv_feed env p payload of
             None \<Rightarrow> None
           | Some (res, p') \<Rightarrow>
               Some (if res \<noteq> [] then ws_server_frame res else [], f\<lparr>ff_srv_parser := Some p'\<rparr>))
      | None \<Rightarrow>
          let srv = hs_feed (ff_srv f) payload in
          if \<not> hs_done srv then Some (ws_server_frame payload, f\<lparr>ff_srv := srv\<rparr>)
          else
            let p = init_srv_parser (hs_pix_size srv) (ff_clip_read f);
                leftover = hs_buf srv;
                srv = srv\<lparr>hs_buf := []\<rparr>;
                hs_len = int (length payload) - int (length leftover);
                hs_out = (if hs_len \<noteq> 0 then ws_server_frame (py_upto hs_len payload) else [])
            in (case srv_feed env p (py_from hs_len payload) of
                  None \<Rightarrow> None
                | Some (res, p') \<Rightarrow>
                    Some (hs_out @ (if res \<noteq> [] then ws_server_frame res else []),
                          f\<lparr>ff_srv := srv, ff_srv_parser := Some p'\<rparr>)))"

definition server_frame ::
    "string option \<Rightarrow> rfb_filter \<Rightarrow> ws_frame_in \<Rightarrow> (bytes \<times> rfb_filter) option" where
  "server_frame env f fr =
     (case ws_reassemble fr (ff_sfrag_op f) (ff_sfrag f) of
        (ev, op, frag) \<Rightarrow>
          let f = f\<lparr>ff_sfrag_op := op, ff_sfrag := frag\<rparr> in
          (case ev of
             EvControl raw \<Rightarrow> Some (raw, f)
           | EvFragment \<Rightarrow> Some ([], f)
           | EvPayload payload \<Rightarrow> track_server_payload env f payload
           | EvBad \<Rightarrow> None))"

definition track_server ::
    "string option \<Rightarrow> rfb_filter \<Rightarrow> bytes \<Rightarrow> bytes option \<times> rfb_filter" where
  "track_server env f data =
     (if ff_dead f then (None, f)
      else case parse_ws_frames (ff_ws_sbuf f @ data) of
        None \<Rightarrow> (None, f\<lparr>ff_dead := True\<rparr>)
      | Some (frames, rest) \<Rightarrow>
          (case run_frames (server_frame env) (f\<lparr>ff_ws_sbuf := rest\<rparr>) frames of
             None \<Rightarrow> (None, f\<lparr>ff_dead := True\<rparr>)
           | Some (out, g) \<Rightarrow> (Some out, g)))"

end
