(* ===== verification/RfbPolicy.thy ===== *)
theory RfbPolicy
  imports RfbFilter
begin

text \<open>
  What the filter of \<open>RfbFilter\<close> guarantees. The client messages are read by one more instance of
  the \<open>framing\<close> contract, and in the message phase the draining loop is refined to its
  specification: split the stream into messages, apply the permission policy to each, frame what
  is left. The statements about the forwarded bytes read those bytes back with the parser of the
  wire layer, as the peer will.
\<close>

section \<open>The client message reader\<close>

definition client_msg1 :: "bytes \<Rightarrow> (nat \<times> bytes, byte) pstep" where
  "client_msg1 b =
     (if b = [] then PNeed
      else case parse_message b of
        MIncomplete \<Rightarrow> PNeed
      | MUnknown t \<Rightarrow> PBad
      | MMsg t n \<Rightarrow> POk (t, take n b) (drop n b))"

lemma var_len_local:
  assumes "var_len t = Some (hdr, tail)"
  shows "4 \<le> hdr" and "hdr \<le> length b \<Longrightarrow> tail (b @ zs) = tail b"
    and "hdr \<le> n \<Longrightarrow> hdr \<le> length b \<Longrightarrow> tail (take n b) = tail b"
  using assms
  by (auto simp: var_len_def slice_append_fits slice_take_fits nth_append split: if_splits)

lemma parse_message_append:
  assumes "b \<noteq> []" and "parse_message b \<noteq> MIncomplete"
  shows "parse_message (b @ zs) = parse_message b"
proof -
  from assms(1) have nth: "(b @ zs) ! 0 = b ! 0" by (simp add: nth_append)
  show ?thesis
    using assms nth
    by (auto simp: parse_message_def Let_def var_len_local(2) split: option.splits if_splits)
qed

lemma parse_message_take:
  assumes "parse_message b = MMsg t n"
  shows "parse_message (take n b) = MMsg t n"
proof -
  from parse_message_bounds [OF assms] have n: "4 \<le> n" "n \<le> length b" by auto
  then have nth: "take n b ! 0 = b ! 0" by simp
  have le: "hdr \<le> n" if "var_len (unat (b ! 0)) = Some (hdr, tail)"
      "fixed_len (unat (b ! 0)) = None" for hdr tail
    using assms that by (auto simp: parse_message_def Let_def split: if_splits)
  show ?thesis
    using assms n nth le
    by (auto simp: parse_message_def Let_def var_len_local(3) split: option.splits if_splits)
qed

interpretation cm: framing client_msg1
proof
  fix buf zs :: bytes and f r
  show "client_msg1 buf = POk f r \<Longrightarrow> length r < length buf"
    by (auto simp: client_msg1_def split: if_splits parsed_msg.splits dest!: parse_message_bounds)
  show "client_msg1 buf = POk f r \<Longrightarrow> client_msg1 (buf @ zs) = POk f (r @ zs)"
    using parse_message_append [of buf zs]
    by (auto simp: client_msg1_def split: if_splits parsed_msg.splits dest: parse_message_bounds)
  show "client_msg1 buf = PBad \<Longrightarrow> client_msg1 (buf @ zs) = PBad"
    using parse_message_append [of buf zs]
    by (auto simp: client_msg1_def split: if_splits parsed_msg.splits)
qed

section \<open>Policy of one message\<close>

definition permitted :: "rfb_filter \<Rightarrow> nat \<Rightarrow> bool" where
  "permitted f t \<longleftrightarrow>
     (t = 4 \<longrightarrow> ff_keyboard f) \<and> (t \<in> {5, 251} \<longrightarrow> ff_pointer f) \<and> (t = 6 \<longrightarrow> ff_clip_write f)"

definition client_unit_ok :: "string option \<Rightarrow> rfb_filter \<Rightarrow> bytes \<Rightarrow> bool" where
  "client_unit_ok env f p \<longleftrightarrow>
     (\<exists>t. parse_message p = MMsg t (length p) \<and> permitted f t \<and>
        (t = 2 \<longrightarrow> set (encodings_of p) \<subseteq> set safe_encodings) \<and>
        (t = 6 \<longrightarrow> clean_cut_text env p))"

lemma parse_message_type: "parse_message p = MMsg t n \<Longrightarrow> unat (p ! 0) = t"
  by (auto simp: parse_message_def Let_def split: option.splits if_splits)

lemma parse_set_encodings:
  "set_encodings_msg p \<Longrightarrow> p ! 0 = 2 \<Longrightarrow> parse_message p = MMsg 2 (length p)"
  by (simp add: parse_message_def set_encodings_msg_def fixed_len_def var_len_def)

lemma parse_cut_text:
  "cut_text_msg p \<Longrightarrow> p ! 0 = 6 \<Longrightarrow> parse_message p = MMsg 6 (length p)"
  by (simp add: parse_message_def cut_text_msg_def fixed_len_def var_len_def)

lemma parse_message_cut_text:
  assumes "parse_message p = MMsg 6 (length p)"
  shows "cut_text_msg p"
proof -
  have "unat (p ! 0) = 6" using parse_message_type [OF assms] .
  with assms show ?thesis
    by (auto simp: parse_message_def cut_text_msg_def fixed_len_def var_len_def Let_def
        split: if_splits)
qed

lemma byte_of_unat: "unat (b :: byte) = n \<Longrightarrow> b = word_of_nat n"
  by auto

lemma filter_message_perms:
  "filter_message env f t n raw = (r, g) \<Longrightarrow>
     ff_keyboard g = ff_keyboard f \<and> ff_pointer g = ff_pointer f \<and>
     ff_clip_write g = ff_clip_write f \<and> ff_clip_read g = ff_clip_read f"
  by (auto simp: filter_message_def Let_def split: if_splits)

lemma filter_message_cut_text:
  "filter_message env f 6 n raw = (Some r, g) \<Longrightarrow>
     ff_clip_write f \<and> n \<le> max_clipboard env \<and> r = sanitize_cut_text raw"
  by (auto simp: filter_message_def Let_def split: if_splits)

lemma filter_message_other:
  "filter_message env f t n raw = (Some r, g) \<Longrightarrow> t \<noteq> 2 \<Longrightarrow> t \<noteq> 6 \<Longrightarrow> r = raw \<and> permitted f t"
  by (auto simp: filter_message_def permitted_def Let_def split: if_splits)

lemma filter_message_unit:
  assumes msg: "parse_message raw = MMsg t (length raw)"
    and out: "filter_message env f t (length raw) raw = (Some r, g)"
  shows "client_unit_ok env f r"
proof -
  have len: "4 \<le> length raw" using parse_message_bounds [OF msg] by simp
  have t: "raw ! 0 = word_of_nat t" using byte_of_unat [OF parse_message_type [OF msg]] .
  have hd0: "hd raw = raw ! 0" using len by (cases raw) auto
  consider "t = 2" | "t = 6" | "t \<noteq> 2" "t \<noteq> 6" by blast
  then show ?thesis
  proof cases
    case 1
    with out have r: "r = rewrite_encodings raw" by (simp add: filter_message_def)
    have m: "set_encodings_msg r" using rewrite_encodings_msg [OF len] r by simp
    then have "r \<noteq> []" by (auto simp: set_encodings_msg_def)
    then have "r ! 0 = 2"
      using rewrite_encodings_hd [OF len] r t hd0 1 by (simp add: hd_conv_nth)
    with m have "parse_message r = MMsg 2 (length r)" by (rule parse_set_encodings)
    moreover have "set (encodings_of r) \<subseteq> set safe_encodings"
      using encodings_of_rewrite [OF len] kept_encodings_safe r by simp
    ultimately show ?thesis by (auto simp: client_unit_ok_def permitted_def)
  next
    case 2
    with msg have ct: "cut_text_msg raw" using parse_message_cut_text by blast
    then have len8: "8 \<le> length raw" by (simp add: cut_text_msg_def)
    from filter_message_cut_text [of env f "length raw" raw r g] out 2
    have r: "r = sanitize_cut_text raw" "ff_clip_write f" "length raw \<le> max_clipboard env" by auto
    have clean: "clean_cut_text env r" using sanitize_clean [OF ct r(3)] r(1) by simp
    then have m: "cut_text_msg r" by (simp add: clean_cut_text_def)
    then have "r \<noteq> []" by (auto simp: cut_text_msg_def)
    then have "r ! 0 = 6"
      using sanitize_hd [OF len8] r t hd0 2 by (simp add: hd_conv_nth)
    with m have "parse_message r = MMsg 6 (length r)" by (rule parse_cut_text)
    with clean r(2) show ?thesis by (auto simp: client_unit_ok_def permitted_def)
  next
    case 3
    with filter_message_other [OF out] msg show ?thesis by (auto simp: client_unit_ok_def)
  qed
qed

section \<open>Specification of the message phase\<close>

fun filter_msgs ::
    "string option \<Rightarrow> rfb_filter \<Rightarrow> (nat \<times> bytes) list \<Rightarrow> bytes list \<times> rfb_filter" where
  "filter_msgs env f [] = ([], f)"
| "filter_msgs env f ((t, raw) # ms) =
     (case filter_message env f t (length raw) raw of
        (r, g) \<Rightarrow>
          (case filter_msgs env g ms of
             (rs, h) \<Rightarrow> ((case r of None \<Rightarrow> rs | Some x \<Rightarrow> x # rs), h)))"

fun frames_out :: "(nat \<Rightarrow> mask4) \<Rightarrow> nat \<Rightarrow> bytes list \<Rightarrow> bytes" where
  "frames_out rnd n [] = []"
| "frames_out rnd n (p # ps) = ws_frame (rnd n) p @ frames_out rnd (Suc n) ps"

definition message_phase_spec ::
    "string option \<Rightarrow> (nat \<Rightarrow> mask4) \<Rightarrow> rfb_filter \<Rightarrow> (bytes \<times> rfb_filter) option" where
  "message_phase_spec env rnd f =
     (case parse_loop client_msg1 (ff_rfb f) of
        None \<Rightarrow> None
      | Some (ms, rest) \<Rightarrow>
          (case filter_msgs env f ms of
             (ps, g) \<Rightarrow> Some (frames_out rnd (ff_masks f) ps,
                            g\<lparr>ff_rfb := rest, ff_masks := ff_masks f + length ps\<rparr>)))"

text \<open>The policy neither reads nor writes the buffer and the mask counter.\<close>

definition with_buf :: "bytes \<Rightarrow> nat \<Rightarrow> rfb_filter \<Rightarrow> rfb_filter" where
  "with_buf b k f = f\<lparr>ff_rfb := b, ff_masks := k\<rparr>"

lemma filter_message_with_buf:
  "filter_message env (with_buf b k f) t n raw =
     (fst (filter_message env f t n raw), with_buf b k (snd (filter_message env f t n raw)))"
  by (simp add: filter_message_def with_buf_def Let_def)

lemma filter_msgs_with_buf:
  "filter_msgs env (with_buf b k f) ms =
     (fst (filter_msgs env f ms), with_buf b k (snd (filter_msgs env f ms)))"
proof (induction ms arbitrary: f)
  case (Cons m ms)
  then show ?case
    by (cases m) (simp add: filter_message_with_buf case_prod_unfold split: option.split)
qed simp

lemma filter_message_frame:
  "filter_message env f t n raw = (r, g) \<Longrightarrow> ff_masks g = ff_masks f"
  by (auto simp: filter_message_def Let_def split: if_splits)

lemma filter_msgs_cstate: "ff_cstate (snd (filter_msgs env f ms)) = ff_cstate f"
proof (induction ms arbitrary: f)
  case (Cons m ms)
  obtain t raw where m: "m = (t, raw)" by (cases m)
  obtain r g where "filter_message env f t (length raw) raw = (r, g)" by fastforce
  with Cons m filter_message_rfb [OF this] show ?case by (simp add: case_prod_unfold)
qed simp

lemma drain_messages:
  "ff_cstate f = CMessages \<Longrightarrow> drain_rfb env rnd f = message_phase_spec env rnd f"
proof (induction "length (ff_rfb f)" arbitrary: f rule: less_induct)
  case less
  let ?b = "ff_rfb f"
  show ?case
  proof (cases "?b = [] \<or> parse_message ?b = MIncomplete")
    case True
    then have "client_msg1 ?b = PNeed" by (auto simp: client_msg1_def)
    with True less.prems show ?thesis
      by (auto simp: drain_rfb.simps [of env rnd f] message_phase_spec_def cm.loop_need)
  next
    case False
    then have ne: "?b \<noteq> []" and ninc: "parse_message ?b \<noteq> MIncomplete" by auto
    show ?thesis
    proof (cases "parse_message ?b")
      case MIncomplete
      with ninc show ?thesis by simp
    next
      case (MUnknown t)
      with ne have "client_msg1 ?b = PBad" by (simp add: client_msg1_def)
      with MUnknown ne less.prems show ?thesis
        by (simp add: drain_rfb.simps [of env rnd f] message_phase_spec_def cm.loop_bad)
    next
      case (MMsg t n)
      then have n: "4 \<le> n" "n \<le> length ?b" using parse_message_bounds by auto
      let ?raw = "take n ?b" and ?rest = "drop n ?b"
      from MMsg ne have one: "client_msg1 ?b = POk (t, ?raw) ?rest" by (simp add: client_msg1_def)
      obtain r g where fm: "filter_message env f t n ?raw = (r, g)" by fastforce
      have g0: "ff_rfb g = ?b" "ff_masks g = ff_masks f" "ff_cstate g = CMessages"
        using filter_message_frame [OF fm] filter_message_rfb [OF fm] less.prems by auto
      have fm': "filter_message env (with_buf ?rest (ff_masks f) f) t n ?raw =
          (r, with_buf ?rest (ff_masks f) g)"
        using fm by (simp add: filter_message_with_buf)
      have wb: "f\<lparr>ff_rfb := ?rest\<rparr> = with_buf ?rest (ff_masks f) f"
        by (simp add: with_buf_def)
      have IH: "drain_rfb env rnd (with_buf ?rest k g) =
          message_phase_spec env rnd (with_buf ?rest k g)" for k
        using less.hyps [of "with_buf ?rest k g"] n g0 by (simp add: with_buf_def)
      have drain: "drain_rfb env rnd f =
        (case r of None \<Rightarrow> message_phase_spec env rnd (with_buf ?rest (ff_masks f) g)
         | Some x \<Rightarrow> prepend (ws_frame (rnd (ff_masks f)) x)
             (message_phase_spec env rnd (with_buf ?rest (ff_masks f + 1) g)))"
        using ne less.prems MMsg fm' IH
        by (simp add: drain_rfb.simps [of env rnd f] wb split: option.split)
          (simp add: with_buf_def)
      show ?thesis
      proof (cases "parse_loop client_msg1 ?rest")
        case None
        then show ?thesis
          by (simp add: drain message_phase_spec_def cm.loop_ok [OF one] with_buf_def
              split: option.split)
      next
        case (Some mr)
        obtain ms rest' where mr: "mr = (ms, rest')" by (cases mr)
        have loop: "parse_loop client_msg1 ?b = Some ((t, ?raw) # ms, rest')"
          using Some mr by (simp add: cm.loop_ok [OF one])
        obtain ps h where fs: "filter_msgs env g ms = (ps, h)" by fastforce
        have fs': "filter_msgs env (with_buf ?rest k g) ms = (ps, with_buf ?rest k h)" for k
          using fs by (simp add: filter_msgs_with_buf)
        have spec: "message_phase_spec env rnd (with_buf ?rest k g) =
            Some (frames_out rnd k ps, with_buf rest' (k + length ps) h)" for k
          using Some mr fs' by (simp add: message_phase_spec_def) (simp add: with_buf_def)
        have "message_phase_spec env rnd f =
          (case r of
             None \<Rightarrow> Some (frames_out rnd (ff_masks f) ps, with_buf rest' (ff_masks f + length ps) h)
           | Some x \<Rightarrow> Some (ws_frame (rnd (ff_masks f)) x @ frames_out rnd (ff_masks f + 1) ps,
                           with_buf rest' (ff_masks f + 1 + length ps) h))"
          using n fs fm
          by (simp add: message_phase_spec_def loop min_absorb2 with_buf_def split: option.split)
        then show ?thesis
          by (simp add: drain spec split: option.split)
      qed
    qed
  qed
qed

lemma filter_msgs_units:
  assumes "\<forall>(t, raw) \<in> set ms. parse_message raw = MMsg t (length raw)"
  shows "\<forall>p \<in> set (fst (filter_msgs env f ms)). client_unit_ok env f p"
  using assms
proof (induction ms arbitrary: f)
  case (Cons m ms)
  obtain t raw where m: "m = (t, raw)" by (cases m)
  obtain r g where fm: "filter_message env f t (length raw) raw = (r, g)" by fastforce
  have "client_unit_ok env g p = client_unit_ok env f p" for p
    using filter_message_perms [OF fm] by (simp add: client_unit_ok_def permitted_def)
  moreover have "\<forall>p \<in> set (fst (filter_msgs env g ms)). client_unit_ok env g p"
    using Cons by auto
  moreover have "client_unit_ok env f x" if "r = Some x" for x
    using filter_message_unit [of raw t env f x g] fm that Cons.prems m by auto
  ultimately show ?case
    using m fm by (auto simp: case_prod_unfold split: option.splits)
qed simp

lemma client_loop_msgs:
  assumes "parse_loop client_msg1 b = Some (ms, rest)"
  shows "\<forall>(t, raw) \<in> set ms. parse_message raw = MMsg t (length raw) \<and> length raw \<le> length b"
proof (clarify)
  fix t raw assume "(t, raw) \<in> set ms"
  with cm.loop_units [OF assms] obtain b' r' where
    one: "client_msg1 b' = POk (t, raw) r'" and le: "length b' \<le> length b" by blast
  then have msg: "parse_message b' = MMsg t (length raw)" "raw = take (length raw) b'"
    by (auto simp: client_msg1_def split: if_splits parsed_msg.splits
        dest: parse_message_bounds)
  then have "parse_message raw = MMsg t (length raw)" by (metis parse_message_take)
  moreover have "length raw \<le> length b" using parse_message_bounds [OF msg(1)] le by simp
  ultimately show "parse_message raw = MMsg t (length raw) \<and> length raw \<le> length b" ..
qed

section \<open>Reading the forwarded bytes back\<close>

definition decodes :: "bytes \<Rightarrow> ws_frame_in list \<Rightarrow> bool" where
  "decodes out frs \<longleftrightarrow> parse_ws_frames out = Some (frs, [])"

lemma decodes_Nil [simp]: "decodes [] []"
  by (simp add: decodes_def)

lemma decodes_append: "decodes a fs \<Longrightarrow> decodes b gs \<Longrightarrow> decodes (a @ b) (fs @ gs)"
  by (simp add: decodes_def parse_ws_frames_def ws.loop_append [of a b])

lemma decodes_unique: "decodes out fs \<Longrightarrow> decodes out gs \<Longrightarrow> fs = gs"
  by (simp add: decodes_def)

definition is_ws_frame :: "ws_frame_in \<Rightarrow> bool" where
  "is_ws_frame fr \<longleftrightarrow> (\<exists>b r. parse_ws_frame1 b = POk fr r)"

lemma parsed_are_frames: "parse_ws_frames buf = Some (frs, r) \<Longrightarrow> fr \<in> set frs \<Longrightarrow> is_ws_frame fr"
  unfolding parse_ws_frames_def is_ws_frame_def by (drule (1) ws.loop_units) blast

lemma decodes_raw: "is_ws_frame fr \<Longrightarrow> decodes (fr_raw fr) [fr]"
  using parse_ws_frames_raw [of _ fr _ "[]"] by (auto simp: is_ws_frame_def decodes_def)

definition binary_frame :: "mask4 \<Rightarrow> bytes \<Rightarrow> ws_frame_in" where
  "binary_frame mk p = \<lparr>fr_opcode = 2, fr_payload = p, fr_raw = ws_frame mk p, fr_fin = True\<rparr>"

fun binary_frames :: "(nat \<Rightarrow> mask4) \<Rightarrow> nat \<Rightarrow> bytes list \<Rightarrow> ws_frame_in list" where
  "binary_frames rnd n [] = []"
| "binary_frames rnd n (p # ps) = binary_frame (rnd n) p # binary_frames rnd (Suc n) ps"

lemma decodes_frames_out:
  "\<forall>p \<in> set ps. length p \<le> max_ws_payload \<Longrightarrow>
   decodes (frames_out rnd n ps) (binary_frames rnd n ps)"
proof (induction ps arbitrary: n)
  case (Cons p ps)
  then have "decodes (ws_frame (rnd n) p) [binary_frame (rnd n) p]"
    using parse_ws_frames_frame [of p "rnd n" "[]"] by (simp add: decodes_def binary_frame_def)
  moreover have "decodes (frames_out rnd (Suc n) ps) (binary_frames rnd (Suc n) ps)"
    using Cons by simp
  ultimately show ?case using decodes_append by fastforce
qed simp

text \<open>The RFB payloads of a sequence of frames: control frames carry none.\<close>

definition data_of :: "ws_frame_in list \<Rightarrow> bytes list" where
  "data_of frs = map fr_payload (filter (\<lambda>fr. fr_opcode fr = 2) frs)"

lemma data_of_simps [simp]:
  "data_of [] = []"
  "data_of (fs @ gs) = data_of fs @ data_of gs"
  "data_of (binary_frames rnd n ps) = ps"
  by (simp_all add: data_of_def) (induction ps arbitrary: n; simp add: binary_frame_def)

definition upstream_frame :: "ws_frame_in \<Rightarrow> bool" where
  "upstream_frame fr \<longleftrightarrow> fr_opcode fr \<in> {8, 9, 10} \<or> (fr_opcode fr = 2 \<and> fr_fin fr)"

lemma binary_frames_upstream: "fr \<in> set (binary_frames rnd n ps) \<Longrightarrow> upstream_frame fr"
  by (induction ps arbitrary: n) (auto simp: upstream_frame_def binary_frame_def)

section \<open>The contract of a frame handler\<close>

text \<open>
  A handler processes one frame of a direction and emits bytes that decode to frames;
  \<open>inv\<close> relates its state to everything decoded from its output so far.
\<close>

locale frame_handler =
  fixes step :: "'s \<Rightarrow> ws_frame_in \<Rightarrow> (bytes \<times> 's) option"
    and inv :: "'s \<Rightarrow> ws_frame_in list \<Rightarrow> bool"
  assumes step_inv: "inv s hist \<Longrightarrow> is_ws_frame fr \<Longrightarrow> step s fr = Some (out, s') \<Longrightarrow>
      \<exists>frs. decodes out frs \<and> inv s' (hist @ frs)"
begin

lemma run_inv:
  "inv s hist \<Longrightarrow> \<forall>fr \<in> set frs. is_ws_frame fr \<Longrightarrow> run_frames step s frs = Some (out, s') \<Longrightarrow>
   \<exists>gs. decodes out gs \<and> inv s' (hist @ gs)"
proof (induction frs arbitrary: s hist out)
  case Nil
  then have "decodes out [] \<and> inv s' (hist @ [])" by simp
  then show ?case by blast
next
  case (Cons fr frs)
  then obtain o1 s1 where s1: "step s fr = Some (o1, s1)"
    by (auto split: option.splits)
  with Cons.prems obtain o2 where o2: "run_frames step s1 frs = Some (o2, s')" "out = o1 @ o2"
    by (auto simp: prepend_eq_Some)
  from step_inv [OF Cons.prems(1) _ s1] Cons.prems(2)
  obtain f1 where f1: "decodes o1 f1" "inv s1 (hist @ f1)" by auto
  with Cons.IH [OF f1(2) _ o2(1)] Cons.prems(2)
  obtain f2 where "decodes o2 f2" "inv s' ((hist @ f1) @ f2)" by auto
  with f1(1) o2(2) show ?case
    by (intro exI [of _ "f1 @ f2"]) (simp add: decodes_append)
qed

end

section \<open>The upstream invariant\<close>

text \<open>Lengths of the handshake pieces forwarded when the client phase is \<open>cs\<close>.\<close>

fun hs_shapes :: "cstate \<Rightarrow> nat list set" where
  "hs_shapes CVersion = {[]}"
| "hs_shapes CSectype = {[12]}"
| "hs_shapes CSecresp = {[12, 1]}"
| "hs_shapes CClientinit = {[12, 1], [12, 1, 16]}"
| "hs_shapes CWaitServerinit = {[12, 1, 1], [12, 1, 16, 1]}"
| "hs_shapes CMessages = {[12, 1, 1], [12, 1, 16, 1]}"

definition upstream_shape :: "string option \<Rightarrow> rfb_filter \<Rightarrow> cstate \<Rightarrow> bytes list \<Rightarrow> bool" where
  "upstream_shape env f0 cs ps \<longleftrightarrow>
     (\<exists>hs ms. ps = hs @ ms \<and> map length hs \<in> hs_shapes cs \<and> (cs \<noteq> CMessages \<longrightarrow> ms = []) \<and>
        (\<forall>p \<in> set ms. client_unit_ok env f0 p))"

definition same_perms :: "rfb_filter \<Rightarrow> rfb_filter \<Rightarrow> bool" where
  "same_perms f g \<longleftrightarrow>
     ff_keyboard g = ff_keyboard f \<and> ff_pointer g = ff_pointer f \<and>
     ff_clip_write g = ff_clip_write f \<and> ff_clip_read g = ff_clip_read f"

lemma same_perms_refl [simp]: "same_perms f f"
  by (simp add: same_perms_def)

lemma same_perms_unit: "same_perms f g \<Longrightarrow> client_unit_ok env g p = client_unit_ok env f p"
  by (simp add: same_perms_def client_unit_ok_def permitted_def)

lemma upstream_shape_piece:
  assumes "upstream_shape env f0 cs ps" and "cs \<noteq> CMessages"
    and "(\<lambda>ls. ls @ [length p]) ` hs_shapes cs \<subseteq> hs_shapes cs'" and "cs' \<noteq> CMessages"
  shows "upstream_shape env f0 cs' (ps @ [p])"
proof -
  from assms obtain hs where "ps = hs" "map length hs \<in> hs_shapes cs"
    by (auto simp: upstream_shape_def)
  with assms(3) have "map length (hs @ [p]) \<in> hs_shapes cs'" "ps @ [p] = (hs @ [p]) @ []" by auto
  with assms(4) show ?thesis unfolding upstream_shape_def by (metis empty_iff list.set(1))
qed

lemma upstream_shape_msgs:
  assumes "upstream_shape env f0 CMessages ps" and "\<forall>p \<in> set qs. client_unit_ok env f0 p"
  shows "upstream_shape env f0 CMessages (ps @ qs)"
proof -
  from assms(1) obtain hs ms where "ps = hs @ ms" "map length hs \<in> hs_shapes CMessages"
      "\<forall>p \<in> set ms. client_unit_ok env f0 p"
    unfolding upstream_shape_def by blast
  with assms(2) show ?thesis
    unfolding upstream_shape_def by (intro exI [of _ hs] exI [of _ "ms @ qs"]) auto
qed

lemma client_handshake_perms:
  "client_handshake f = (k, g) \<Longrightarrow> same_perms f g \<and> ff_masks g = ff_masks f"
  by (auto simp: client_handshake_def same_perms_def Let_def split: cstate.splits if_splits)

lemma client_handshake_shape:
  assumes "client_handshake f = (k, g)" and "0 < k" and "k \<le> int (length (ff_rfb f))"
    and "upstream_shape env f0 (ff_cstate f) ps"
  shows "upstream_shape env f0 (ff_cstate g) (ps @ [take (nat k) (ff_rfb f)])"
proof -
  from assms(1,2) have "ff_cstate f \<noteq> CMessages" "ff_cstate g \<noteq> CMessages"
    by (auto simp: client_handshake_def Let_def split: cstate.splits if_splits)
  moreover have "(\<lambda>ls. ls @ [nat k]) ` hs_shapes (ff_cstate f) \<subseteq> hs_shapes (ff_cstate g)"
    using assms(1,2)
    by (auto simp: client_handshake_def Let_def split: cstate.splits if_splits)
  moreover have "length (take (nat k) (ff_rfb f)) = nat k" using assms(2,3) by simp
  ultimately show ?thesis
    using upstream_shape_piece [OF assms(4)] by simp
qed

lemma upstream_shape_start:
  assumes "upstream_shape env f0 CWaitServerinit ps"
  shows "upstream_shape env f0 CMessages ps"
proof -
  from assms have "map length ps \<in> hs_shapes CWaitServerinit"
    by (simp add: upstream_shape_def)
  then have "ps = ps @ [] \<and> map length ps \<in> hs_shapes CMessages \<and>
      (CMessages \<noteq> CMessages \<longrightarrow> [] = []) \<and> (\<forall>p \<in> set []. client_unit_ok env f0 p)"
    by simp
  then show ?thesis unfolding upstream_shape_def by blast
qed

lemma client_handshake_wait:
  assumes "client_handshake f = (0, g)" and "upstream_shape env f0 (ff_cstate f) ps"
  shows "upstream_shape env f0 (ff_cstate g) ps"
proof -
  from assms(1) have "ff_cstate g = ff_cstate f \<or>
      (ff_cstate f = CWaitServerinit \<and> ff_cstate g = CMessages)"
    by (auto simp: client_handshake_def Let_def split: cstate.splits if_splits)
  with assms(2) show ?thesis using upstream_shape_start by auto
qed

end
