(* ===== verification/RfbSession.thy ===== *)
theory RfbSession
  imports RfbPolicy
begin

text \<open>
  A proxied connection as a state machine: the relay loop hands chunks from either side to the
  filter in any order, and what the filter returns goes to the other side. The invariant of the
  reachable connections says what can have been sent upstream: a handshake of known shape and
  then only messages the session is allowed to send.
\<close>

section \<open>The draining loop keeps the upstream shape\<close>

lemma filter_message_length:
  assumes "parse_message raw = MMsg t (length raw)"
    and "filter_message env f t (length raw) raw = (Some r, g)"
  shows "length r \<le> max 12 (length raw)"
proof -
  have len: "4 \<le> length raw" using parse_message_bounds [OF assms(1)] by simp
  have t: "unat (raw ! 0) = t" using parse_message_type [OF assms(1)] .
  consider "t = 2" | "t = 6" | "t \<noteq> 2" "t \<noteq> 6" by blast
  then show ?thesis
  proof cases
    case 1
    then have "length raw = 4 + 4 * be_nat (slice 2 4 raw)"
      using assms(1) t
      by (auto simp: parse_message_def fixed_len_def var_len_def Let_def split: if_splits)
    moreover have "length (kept_encodings raw) \<le> max 2 (be_nat (slice 2 4 raw))"
      using length_filter_le [of "\<lambda>e. e \<in> set safe_encodings" "encodings_of raw"]
      by (auto simp: kept_encodings_def Let_def encodings_of_def)
    moreover have "r = rewrite_encodings raw" using assms(2) 1 by (simp add: filter_message_def)
    ultimately show ?thesis using len by (simp add: rewrite_encodings_alt)
  next
    case 2
    with assms(1) have "8 \<le> length raw"
      using parse_message_cut_text by (auto simp: cut_text_msg_def)
    with assms(2) 2 show ?thesis
      using filter_message_cut_text [of env f "length raw" raw r g]
        length_filter_le [of cut_text_keeps "drop 8 raw"]
      by (auto simp: sanitize_length)
  next
    case 3
    with filter_message_other [OF assms(2)] show ?thesis by simp
  qed
qed

definition filter_ok :: "rfb_filter \<Rightarrow> rfb_filter \<Rightarrow> bool" where
  "filter_ok f0 f \<longleftrightarrow>
     same_perms f0 f \<and> length (ff_rfb f) \<le> max_rfb_buf \<and>
     (ff_cstate f = CMessages \<longrightarrow> hs_done (ff_srv f)) \<and>
     (ff_srv_parser f \<noteq> None \<longrightarrow> hs_done (ff_srv f))"

lemma hs_feed_done: "hs_done h \<Longrightarrow> hs_done (hs_feed h d)"
  by (simp add: hs_done_def hs_feed_def hs_loop.simps)

lemma client_handshake_srv:
  "client_handshake f = (k, g) \<Longrightarrow>
     ff_srv_parser g = ff_srv_parser f \<and>
     (ff_srv g = ff_srv f \<or> (\<exists>x. ff_srv g = hs_feed (ff_srv f\<lparr>hs_sec_type := x\<rparr>) [])) \<and>
     (ff_cstate g = CMessages \<longrightarrow> (ff_cstate f = CMessages \<and> ff_srv g = ff_srv f) \<or> hs_done (ff_srv g))"
  by (auto simp: client_handshake_def Let_def split: cstate.splits if_splits)

lemma client_handshake_ok:
  assumes hs: "client_handshake f = (k, g)" and ok: "filter_ok f0 f"
  shows "filter_ok f0 g"
proof -
  have "hs_done (ff_srv f) \<Longrightarrow> hs_done (hs_feed (ff_srv f\<lparr>hs_sec_type := x\<rparr>) [])" for x
    by (rule hs_feed_done) (simp add: hs_done_def)
  then have keeps: "hs_done (ff_srv f) \<Longrightarrow> hs_done (ff_srv g)"
    using client_handshake_srv [OF hs] by auto
  have "same_perms f0 g"
    using client_handshake_perms [OF hs] ok by (simp add: filter_ok_def same_perms_def)
  with keeps client_handshake_srv [OF hs] client_handshake_rfb [OF hs] ok show ?thesis
    unfolding filter_ok_def by metis
qed

lemma filter_message_srv:
  "filter_message env f t n raw = (r, g) \<Longrightarrow>
     hs_done (ff_srv g) = hs_done (ff_srv f) \<and>
     (ff_srv_parser g = None) = (ff_srv_parser f = None)"
  by (auto simp: filter_message_def hs_done_def Let_def split: if_splits)

lemma filter_message_ok:
  assumes fm: "filter_message env f t n raw = (r, g)" and ok: "filter_ok f0 f"
  shows "filter_ok f0 g"
proof -
  have "same_perms f0 g"
    using filter_message_perms [OF fm] ok by (simp add: filter_ok_def same_perms_def)
  with filter_message_srv [OF fm] filter_message_rfb [OF fm] ok show ?thesis
    unfolding filter_ok_def by metis
qed

lemma filter_ok_buf: "filter_ok f0 f \<Longrightarrow> length b \<le> max_rfb_buf \<Longrightarrow> filter_ok f0 (f\<lparr>ff_rfb := b\<rparr>)"
  by (simp add: filter_ok_def same_perms_def)

lemma filter_ok_masks: "filter_ok f0 f \<Longrightarrow> filter_ok f0 (f\<lparr>ff_masks := k\<rparr>)"
  by (simp add: filter_ok_def same_perms_def)

text \<open>What a run of the loop adds to a history of payloads.\<close>

definition drained ::
    "string option \<Rightarrow> (nat \<Rightarrow> mask4) \<Rightarrow> rfb_filter \<Rightarrow> bytes list \<Rightarrow> nat \<Rightarrow> bytes \<Rightarrow> rfb_filter \<Rightarrow> bool" where
  "drained env rnd f0 ps n out g \<longleftrightarrow>
     (\<exists>qs. out = frames_out rnd n qs \<and> (\<forall>q \<in> set qs. length q \<le> max_ws_payload) \<and>
        upstream_shape env f0 (ff_cstate g) (ps @ qs) \<and> filter_ok f0 g)"

lemma drained_Nil:
  "upstream_shape env f0 (ff_cstate g) ps \<Longrightarrow> filter_ok f0 g \<Longrightarrow> drained env rnd f0 ps n [] g"
  unfolding drained_def by (intro exI [of _ "[]"]) simp

lemma drained_Cons:
  assumes "drained env rnd f0 (ps @ [p]) (Suc n) out g" and "length p \<le> max_ws_payload"
  shows "drained env rnd f0 ps n (ws_frame (rnd n) p @ out) g"
proof -
  from assms(1) obtain qs where "out = frames_out rnd (Suc n) qs"
      "\<forall>q \<in> set qs. length q \<le> max_ws_payload"
      "upstream_shape env f0 (ff_cstate g) (ps @ p # qs)" "filter_ok f0 g"
    by (auto simp: drained_def)
  with assms(2) show ?thesis unfolding drained_def by (intro exI [of _ "p # qs"]) simp
qed

lemma rfb_buf_payload: "l \<le> max 12 n \<Longrightarrow> n \<le> max_rfb_buf \<Longrightarrow> l \<le> max_ws_payload"
  by (simp add: max_rfb_buf_def max_ws_payload_def)

lemma filter_ok_len: "filter_ok f0 f \<Longrightarrow> length (ff_rfb f) \<le> max_rfb_buf"
  by (simp add: filter_ok_def)

lemma drain_handshake_upstream:
  assumes IH: "\<And>g ps. drain_measure g < drain_measure f \<Longrightarrow> drain_rfb env rnd g = Some (out', g') \<Longrightarrow>
      filter_ok f0 g \<Longrightarrow> upstream_shape env f0 (ff_cstate g) ps \<Longrightarrow>
      drained env rnd f0 ps (ff_masks g) out' g'"
    and hs: "client_handshake f = (k, g)" "0 < k" and ok: "filter_ok f0 f"
    and sh: "upstream_shape env f0 (ff_cstate f) ps"
    and st: "ff_cstate f \<noteq> CMessages"
    and run: "drain_rfb env rnd (g\<lparr>ff_rfb := drop (nat k) (ff_rfb g), ff_masks := ff_masks g + 1\<rparr>)
                = Some (out', g')"
  shows "drained env rnd f0 ps (ff_masks f)
           (ws_frame (rnd (ff_masks g)) (take (nat k) (ff_rfb g)) @ out') g'"
proof -
  let ?g = "g\<lparr>ff_rfb := drop (nat k) (ff_rfb g), ff_masks := ff_masks g + 1\<rparr>"
  let ?p = "take (nat k) (ff_rfb f)"
  note facts = client_handshake_rfb [OF hs(1)] client_handshake_perms [OF hs(1)]
  then have g: "ff_rfb g = ff_rfb f" "ff_masks g = ff_masks f" "k \<le> int (length (ff_rfb f))"
      "ff_cstate g \<noteq> CMessages"
    using hs(2) by auto
  have "drain_measure ?g < drain_measure f"
    using g hs(2) st by (auto simp: drain_measure_def)
  moreover have "filter_ok f0 ?g"
    using client_handshake_ok [OF hs(1) ok]
    by (intro filter_ok_masks filter_ok_buf) (auto simp: filter_ok_def)
  moreover have "upstream_shape env f0 (ff_cstate ?g) (ps @ [?p])"
    using client_handshake_shape [OF hs g(3) sh] by simp
  ultimately have "drained env rnd f0 (ps @ [?p]) (Suc (ff_masks f)) out' g'"
    using IH [of ?g "ps @ [?p]"] run g by simp
  moreover have "length ?p \<le> max_ws_payload"
    by (rule rfb_buf_payload [OF _ filter_ok_len [OF ok]]) simp
  ultimately show ?thesis
    using g by (simp add: drained_Cons)
qed

lemma drain_message_upstream:
  assumes msg: "parse_message (ff_rfb f) = MMsg t n" and ok: "filter_ok f0 f"
    and sh: "upstream_shape env f0 CMessages ps" and st: "ff_cstate f = CMessages"
    and fm: "filter_message env (f\<lparr>ff_rfb := drop n (ff_rfb f)\<rparr>) t n (take n (ff_rfb f)) = (Some r, g)"
    and rest: "\<And>ps. upstream_shape env f0 CMessages ps \<Longrightarrow>
      drained env rnd f0 ps (Suc (ff_masks f)) out' g'"
  shows "drained env rnd f0 ps (ff_masks f) (ws_frame (rnd (ff_masks g)) r @ out') g'"
proof -
  let ?f = "f\<lparr>ff_rfb := drop n (ff_rfb f)\<rparr>" and ?raw = "take n (ff_rfb f)"
  from parse_message_bounds [OF msg] have n: "n \<le> length (ff_rfb f)" by simp
  then have raw: "parse_message ?raw = MMsg t (length ?raw)" "length ?raw = n"
    using parse_message_take [OF msg] by auto
  have fm': "filter_message env ?f t (length ?raw) ?raw = (Some r, g)" using fm n by simp
  have "same_perms f0 ?f" using ok by (simp add: filter_ok_def same_perms_def)
  then have "client_unit_ok env f0 r"
    using filter_message_unit [OF raw(1) fm'] same_perms_unit by blast
  then have "upstream_shape env f0 CMessages (ps @ [r])"
    using upstream_shape_msgs [OF sh, of "[r]"] by simp
  then have "drained env rnd f0 (ps @ [r]) (Suc (ff_masks f)) out' g'" by (rule rest)
  moreover have "length r \<le> max_ws_payload"
    using filter_message_length [OF raw(1) fm'] raw(2) n filter_ok_len [OF ok]
    by (intro rfb_buf_payload [of _ n]) simp_all
  moreover have "ff_masks g = ff_masks f" using filter_message_frame [OF fm] by simp
  ultimately show ?thesis by (simp add: drained_Cons)
qed

lemma drain_upstream:
  "drain_rfb env rnd f = Some (out, g) \<Longrightarrow> filter_ok f0 f \<Longrightarrow>
   upstream_shape env f0 (ff_cstate f) ps \<Longrightarrow> drained env rnd f0 ps (ff_masks f) out g"
proof (induction "drain_measure f" arbitrary: f ps out rule: less_induct)
  case less
  show ?case
  proof (cases "ff_rfb f = []")
    case True
    with less.prems show ?thesis by (simp add: drain_rfb.simps [of env rnd f] drained_Nil)
  next
    case ne: False
    show ?thesis
    proof (cases "ff_cstate f = CMessages")
      case False
      obtain k g1 where hs: "client_handshake f = (k, g1)" by fastforce
      note rfb = client_handshake_rfb [OF hs]
      note masks = client_handshake_perms [OF hs]
      consider "k < 0" | "k = 0" "ff_cstate g1 = CMessages" | "k = 0" "ff_cstate g1 \<noteq> CMessages"
        | "0 < k" by linarith
      then show ?thesis
      proof cases
        case 1
        with ne False hs less.prems show ?thesis by (simp add: drain_rfb.simps [of env rnd f])
      next
        case 2
        then have "drain_measure g1 < drain_measure f" using rfb False by (simp add: drain_measure_def)
        moreover have "drain_rfb env rnd g1 = Some (out, g)"
          using 2 ne False hs less.prems by (simp add: drain_rfb.simps [of env rnd f])
        moreover have "filter_ok f0 g1" using client_handshake_ok [OF hs less.prems(2)] .
        moreover have "upstream_shape env f0 (ff_cstate g1) ps"
          using client_handshake_wait hs 2(1) less.prems(3) by blast
        ultimately show ?thesis using less.hyps masks by metis
      next
        case 3
        then have "out = [] \<and> g = g1"
          using ne False hs less.prems by (simp add: drain_rfb.simps [of env rnd f])
        moreover have "upstream_shape env f0 (ff_cstate g1) ps"
          using client_handshake_wait hs 3(1) less.prems(3) by blast
        ultimately show ?thesis
          using client_handshake_ok [OF hs less.prems(2)] by (simp add: drained_Nil)
      next
        case 4
        then obtain out' where
          "drain_rfb env rnd (g1\<lparr>ff_rfb := drop (nat k) (ff_rfb g1), ff_masks := ff_masks g1 + 1\<rparr>)
             = Some (out', g)"
          "out = ws_frame (rnd (ff_masks g1)) (take (nat k) (ff_rfb g1)) @ out'"
          using ne False hs less.prems
          by (auto simp: drain_rfb.simps [of env rnd f] prepend_eq_Some)
        with drain_handshake_upstream [OF less.hyps hs 4 less.prems(2,3) False] show ?thesis
          by blast
      qed
    next
      case True
      show ?thesis
      proof (cases "parse_message (ff_rfb f)")
        case MIncomplete
        with True ne less.prems show ?thesis
          by (simp add: drain_rfb.simps [of env rnd f] drained_Nil)
      next
        case (MUnknown t)
        with True ne less.prems show ?thesis by (simp add: drain_rfb.simps [of env rnd f])
      next
        case (MMsg t n)
        let ?f = "f\<lparr>ff_rfb := drop n (ff_rfb f)\<rparr>"
        obtain r g1 where fm: "filter_message env ?f t n (take n (ff_rfb f)) = (r, g1)" by fastforce
        have okf: "filter_ok f0 ?f"
          using less.prems(2) by (intro filter_ok_buf) (auto simp: filter_ok_def)
        have ok1: "filter_ok f0 g1" using filter_message_ok [OF fm okf] .
        have g1: "ff_rfb g1 = drop n (ff_rfb f)" "ff_cstate g1 = CMessages" "ff_masks g1 = ff_masks f"
          using filter_message_rfb [OF fm] filter_message_frame [OF fm] True by auto
        then have dec: "drain_measure g1 < drain_measure f"
            "drain_measure (g1\<lparr>ff_masks := Suc (ff_masks f)\<rparr>) < drain_measure f"
          using parse_message_bounds [OF MMsg] True by (auto simp: drain_measure_def)
        show ?thesis
        proof (cases r)
          case None
          then have "drain_rfb env rnd g1 = Some (out, g)"
            using fm MMsg True ne less.prems(1) by (simp add: drain_rfb.simps [of env rnd f])
          then show ?thesis using less.hyps [OF dec(1)] ok1 g1 less.prems(3) True by metis
        next
          case (Some x)
          then obtain out' where
            run: "drain_rfb env rnd (g1\<lparr>ff_masks := Suc (ff_masks f)\<rparr>) = Some (out', g)"
            and out: "out = ws_frame (rnd (ff_masks g1)) x @ out'"
            using fm MMsg True ne less.prems(1) g1
            by (auto simp: drain_rfb.simps [of env rnd f] prepend_eq_Some)
          have "drained env rnd f0 qs (Suc (ff_masks f)) out' g"
            if "upstream_shape env f0 CMessages qs" for qs
            using less.hyps [OF dec(2) run filter_ok_masks [OF ok1]] that g1 by simp
          with drain_message_upstream [OF MMsg less.prems(2) _ True] fm Some less.prems(3) True out
          show ?thesis by auto
        qed
      qed
    qed
  qed
qed

section \<open>Frames and calls\<close>

text \<open>Everything decoded from what went upstream: control frames, and data of the right shape.\<close>

definition upstream_inv ::
    "string option \<Rightarrow> rfb_filter \<Rightarrow> rfb_filter \<Rightarrow> ws_frame_in list \<Rightarrow> bool" where
  "upstream_inv env f0 f hist \<longleftrightarrow>
     filter_ok f0 f \<and> upstream_shape env f0 (ff_cstate f) (data_of hist) \<and>
     list_all upstream_frame hist"

lemma drained_upstream:
  assumes "drained env rnd f0 (data_of hist) n out g" and "list_all upstream_frame hist"
  shows "\<exists>frs. decodes out frs \<and> upstream_inv env f0 g (hist @ frs)"
proof -
  from assms(1) obtain qs where qs: "out = frames_out rnd n qs"
      "\<forall>q \<in> set qs. length q \<le> max_ws_payload"
      "upstream_shape env f0 (ff_cstate g) (data_of hist @ qs)" "filter_ok f0 g"
    by (auto simp: drained_def)
  have "list_all upstream_frame (binary_frames rnd n qs)"
    by (auto simp: list_all_iff dest: binary_frames_upstream)
  with qs assms(2) show ?thesis
    by (intro exI [of _ "binary_frames rnd n qs"])
      (simp add: decodes_frames_out upstream_inv_def)
qed

definition with_frag :: "nat option \<Rightarrow> bytes \<Rightarrow> rfb_filter \<Rightarrow> rfb_filter" where
  "with_frag op frag f = f\<lparr>ff_frag_op := op, ff_frag := frag\<rparr>"

lemma upstream_inv_frag: "upstream_inv env f0 (with_frag op frag f) = upstream_inv env f0 f"
  by (rule ext) (simp add: upstream_inv_def filter_ok_def same_perms_def with_frag_def)

lemma client_frame_alt:
  "client_frame env rnd f fr =
     (case ws_reassemble fr (ff_frag_op f) (ff_frag f) of
        (ev, op, frag) \<Rightarrow>
          (case ev of
             EvControl raw \<Rightarrow> Some (raw, with_frag op frag f)
           | EvFragment \<Rightarrow> Some ([], with_frag op frag f)
           | EvPayload payload \<Rightarrow> client_payload env rnd (with_frag op frag f) payload
           | EvBad \<Rightarrow> None))"
  unfolding client_frame_def with_frag_def Let_def ..

lemma client_payload_inv:
  assumes inv: "upstream_inv env f0 f hist" and run: "client_payload env rnd f payload = Some (out, g)"
  shows "\<exists>frs. decodes out frs \<and> upstream_inv env f0 g (hist @ frs)"
proof -
  let ?f = "f\<lparr>ff_rfb := ff_rfb f @ payload\<rparr>"
  from run have len: "length (ff_rfb f @ payload) \<le> max_rfb_buf"
      and d: "drain_rfb env rnd ?f = Some (out, g)"
    by (auto simp: client_payload_def Let_def split: if_splits)
  have "filter_ok f0 ?f"
    using inv len by (intro filter_ok_buf) (simp_all add: upstream_inv_def)
  moreover have "upstream_shape env f0 (ff_cstate ?f) (data_of hist)"
    using inv by (simp add: upstream_inv_def)
  ultimately have "drained env rnd f0 (data_of hist) (ff_masks ?f) out g"
    by (rule drain_upstream [OF d])
  then show ?thesis
    using inv drained_upstream by (simp add: upstream_inv_def)
qed

lemma ws_reassemble_control:
  "ws_reassemble fr op frag = (EvControl raw, op', frag') \<Longrightarrow>
     raw = fr_raw fr \<and> fr_opcode fr \<in> {8, 9, 10}"
  by (auto simp: ws_reassemble_def Let_def split: if_splits)

lemma client_frame_inv:
  assumes inv: "upstream_inv env f0 f hist" and fr: "is_ws_frame fr"
    and run: "client_frame env rnd f fr = Some (out, g)"
  shows "\<exists>frs. decodes out frs \<and> upstream_inv env f0 g (hist @ frs)"
proof -
  obtain ev op frag where re: "ws_reassemble fr (ff_frag_op f) (ff_frag f) = (ev, op, frag)"
    by (cases "ws_reassemble fr (ff_frag_op f) (ff_frag f)")
  let ?f = "with_frag op frag f"
  have inv': "upstream_inv env f0 ?f hist" using inv by (simp add: upstream_inv_frag)
  show ?thesis
  proof (cases ev)
    case (EvControl raw)
    then have "raw = fr_raw fr" "fr_opcode fr \<in> {8, 9, 10}" using ws_reassemble_control re by auto
    moreover from run re EvControl have "out = raw" "g = ?f" by (auto simp: client_frame_alt)
    moreover from calculation have "data_of [fr] = []" "upstream_frame fr"
      by (auto simp: data_of_def upstream_frame_def)
    ultimately show ?thesis
      using inv' decodes_raw [OF fr] by (intro exI [of _ "[fr]"]) (simp add: upstream_inv_def)
  next
    case EvFragment
    with run re inv' show ?thesis by (intro exI [of _ "[]"]) (auto simp: client_frame_alt)
  next
    case (EvPayload payload)
    with run re client_payload_inv [OF inv'] show ?thesis by (simp add: client_frame_alt)
  next
    case EvBad
    with run re show ?thesis by (simp add: client_frame_alt)
  qed
qed

interpretation up: frame_handler "client_frame env rnd" "upstream_inv env f0"
  by unfold_locales (rule client_frame_inv)

lemma client_to_server_inv:
  assumes inv: "upstream_inv env f0 f hist" and run: "client_to_server env rnd f data = (Some out, g)"
  shows "\<exists>frs. decodes out frs \<and> upstream_inv env f0 g (hist @ frs)"
proof -
  from run obtain frs rest where
    parse: "parse_ws_frames (ff_ws_cbuf f @ data) = Some (frs, rest)" and
    r: "run_frames (client_frame env rnd) (f\<lparr>ff_ws_cbuf := rest\<rparr>) frs = Some (out, g)"
    by (auto simp: client_to_server_def split: if_splits option.splits)
  have "upstream_inv env f0 (f\<lparr>ff_ws_cbuf := rest\<rparr>) hist"
    using inv by (simp add: upstream_inv_def filter_ok_def same_perms_def)
  then show ?thesis
    using up.run_inv r parsed_are_frames [OF parse] by blast
qed

text \<open>The server direction leaves the upstream side as it is.\<close>

definition upstream_same :: "rfb_filter \<Rightarrow> rfb_filter \<Rightarrow> bool" where
  "upstream_same f g \<longleftrightarrow>
     same_perms f g \<and> ff_rfb g = ff_rfb f \<and> ff_cstate g = ff_cstate f \<and> ff_masks g = ff_masks f \<and>
     (hs_done (ff_srv f) \<longrightarrow> hs_done (ff_srv g)) \<and>
     (ff_srv_parser g \<noteq> None \<longrightarrow> ff_srv_parser f \<noteq> None \<or> hs_done (ff_srv g))"

lemma upstream_same_refl [simp]: "upstream_same f f"
  by (simp add: upstream_same_def)

lemma upstream_same_trans: "upstream_same f g \<Longrightarrow> upstream_same g h \<Longrightarrow> upstream_same f h"
  by (auto simp: upstream_same_def same_perms_def)

lemma upstream_same_inv:
  "upstream_same f g \<Longrightarrow> upstream_inv env f0 f hist \<Longrightarrow> upstream_inv env f0 g hist"
  unfolding upstream_same_def upstream_inv_def filter_ok_def same_perms_def by metis

lemma track_server_payload_same:
  "track_server_payload env f payload = Some (out, g) \<Longrightarrow> upstream_same f g"
  using hs_feed_done [of "ff_srv f" payload]
  by (auto simp: track_server_payload_def upstream_same_def same_perms_def hs_done_def Let_def
      split: option.splits if_splits)

lemma server_frame_same:
  assumes "server_frame env f fr = Some (out, g)"
  shows "upstream_same f g"
proof -
  have "upstream_same f (f\<lparr>ff_sfrag_op := op, ff_sfrag := frag\<rparr>)" for op frag
    by (simp add: upstream_same_def same_perms_def)
  with assms show ?thesis
    by (auto simp: server_frame_def Let_def split: prod.splits ws_event.splits
        dest: track_server_payload_same intro: upstream_same_trans)
qed

lemma server_frames_same:
  "run_frames (server_frame env) f frs = Some (out, g) \<Longrightarrow> upstream_same f g"
proof (induction frs arbitrary: f out)
  case (Cons fr frs)
  then obtain o1 f1 o2 where "server_frame env f fr = Some (o1, f1)"
      "run_frames (server_frame env) f1 frs = Some (o2, g)"
    by (auto simp: prepend_eq_Some split: option.splits)
  with Cons.IH show ?case by (blast dest: server_frame_same intro: upstream_same_trans)
qed simp

lemma upstream_same_fields [simp]:
  "upstream_same (f\<lparr>ff_ws_sbuf := b\<rparr>) g = upstream_same f g"
  "upstream_same f (f\<lparr>ff_dead := d\<rparr>)"
  by (simp_all add: upstream_same_def same_perms_def)

lemma track_server_same: "track_server env f data = (out, g) \<Longrightarrow> upstream_same f g"
  by (auto simp: track_server_def split: if_splits option.splits dest!: server_frames_same)

section \<open>The proxied connection\<close>

record conn =
  cn_filter :: rfb_filter
  cn_up :: bytes    \<comment> \<open>all bytes forwarded to the bridge\<close>
  cn_down :: bytes  \<comment> \<open>all bytes forwarded to the browser\<close>

definition init_conn :: "rfb_filter \<Rightarrow> conn" where
  "init_conn f = \<lparr>cn_filter = f, cn_up = [], cn_down = []\<rparr>"

inductive conn_step :: "string option \<Rightarrow> (nat \<Rightarrow> mask4) \<Rightarrow> conn \<Rightarrow> conn \<Rightarrow> bool"
  for env rnd where
  client_ok: "client_to_server env rnd (cn_filter c) data = (Some out, g) \<Longrightarrow>
     conn_step env rnd c (c\<lparr>cn_filter := g, cn_up := cn_up c @ out\<rparr>)"
| client_closed: "client_to_server env rnd (cn_filter c) data = (None, g) \<Longrightarrow>
     conn_step env rnd c (c\<lparr>cn_filter := g\<rparr>)"
| server_ok: "track_server env (cn_filter c) data = (Some out, g) \<Longrightarrow>
     conn_step env rnd c (c\<lparr>cn_filter := g, cn_down := cn_down c @ out\<rparr>)"
| server_closed: "track_server env (cn_filter c) data = (None, g) \<Longrightarrow>
     conn_step env rnd c (c\<lparr>cn_filter := g\<rparr>)"

inductive conn_reachable :: "string option \<Rightarrow> (nat \<Rightarrow> mask4) \<Rightarrow> rfb_filter \<Rightarrow> conn \<Rightarrow> bool"
  for env rnd f0 where
  start: "conn_reachable env rnd f0 (init_conn f0)"
| step: "conn_reachable env rnd f0 c \<Longrightarrow> conn_step env rnd c c' \<Longrightarrow> conn_reachable env rnd f0 c'"

inductive_cases conn_stepE: "conn_step env rnd c c'"

lemma client_to_server_closed:
  "client_to_server env rnd f data = (None, g) \<Longrightarrow> g = f \<or> g = f\<lparr>ff_dead := True\<rparr>"
  by (auto simp: client_to_server_def split: if_splits option.splits)

lemma conn_step_inv:
  assumes "conn_step env rnd c c'" and "decodes (cn_up c) hist"
    and "upstream_inv env f0 (cn_filter c) hist"
  shows "\<exists>hist'. decodes (cn_up c') hist' \<and> upstream_inv env f0 (cn_filter c') hist'"
  using assms(1)
proof cases
  case (client_ok data out g)
  with client_to_server_inv [OF assms(3)] obtain frs where
    "decodes out frs" "upstream_inv env f0 g (hist @ frs)" by blast
  with client_ok assms(2) show ?thesis by (intro exI [of _ "hist @ frs"]) (simp add: decodes_append)
next
  case (client_closed data g)
  with client_to_server_closed [of env rnd "cn_filter c" data g] assms show ?thesis
    by (auto simp: upstream_inv_def filter_ok_def same_perms_def)
next
  case (server_ok data out g)
  with upstream_same_inv [OF track_server_same [OF server_ok(2)] assms(3)] assms(2)
  show ?thesis by auto
next
  case (server_closed data g)
  with upstream_same_inv [OF track_server_same [OF server_closed(2)] assms(3)] assms(2)
  show ?thesis by auto
qed

lemma init_filter_inv: "upstream_inv env (init_filter a b k p w r) (init_filter a b k p w r) []"
  by (simp add: upstream_inv_def filter_ok_def init_filter_def upstream_shape_def)

lemma conn_reachable_inv:
  assumes "conn_reachable env rnd (init_filter a b k p w r) c"
  shows "\<exists>hist. decodes (cn_up c) hist \<and>
           upstream_inv env (init_filter a b k p w r) (cn_filter c) hist"
  using assms
proof induction
  case start
  show ?case
    using init_filter_inv by (intro exI [of _ "[]"]) (simp add: init_conn_def)
next
  case (step c c')
  then show ?case using conn_step_inv by blast
qed

end
