(* ===== verification/RfbChunks.thy ===== *)
theory RfbChunks
  imports RfbSession
begin

text \<open>
  The client direction does not depend on how the bytes of the WebSocket stream are cut into
  calls of \<open>client_to_server\<close>: what two calls forward is what one call on the whole forwards.
\<close>

section \<open>The frame buffer is only touched by the entry point\<close>

definition with_cbuf :: "bytes \<Rightarrow> bool \<Rightarrow> rfb_filter \<Rightarrow> rfb_filter" where
  "with_cbuf b d f = f\<lparr>ff_ws_cbuf := b, ff_dead := d\<rparr>"

lemma with_cbuf_sel [simp]:
  "ff_rfb (with_cbuf b d f) = ff_rfb f"
  "ff_cstate (with_cbuf b d f) = ff_cstate f"
  "ff_masks (with_cbuf b d f) = ff_masks f"
  "ff_frag_op (with_cbuf b d f) = ff_frag_op f"
  "ff_frag (with_cbuf b d f) = ff_frag f"
  "ff_ws_cbuf (with_cbuf b d f) = b"
  "ff_dead (with_cbuf b d f) = d"
  "with_cbuf a e (with_cbuf b d f) = with_cbuf a e f"
  by (simp_all add: with_cbuf_def)

lemma with_cbuf_upd [simp]:
  "with_cbuf b d f\<lparr>ff_rfb := x\<rparr> = with_cbuf b d (f\<lparr>ff_rfb := x\<rparr>)"
  "with_cbuf b d f\<lparr>ff_masks := k\<rparr> = with_cbuf b d (f\<lparr>ff_masks := k\<rparr>)"
  "with_frag op fr (with_cbuf b d f) = with_cbuf b d (with_frag op fr f)"
  by (simp_all add: with_cbuf_def with_frag_def)

definition keep_cbuf :: "bytes \<Rightarrow> bool \<Rightarrow> (bytes \<times> rfb_filter) option \<Rightarrow> (bytes \<times> rfb_filter) option" where
  "keep_cbuf b d = map_option (\<lambda>(out, g). (out, with_cbuf b d g))"

lemma keep_cbuf_simps [simp]:
  "keep_cbuf b d None = None"
  "keep_cbuf b d (Some (out, g)) = Some (out, with_cbuf b d g)"
  "keep_cbuf b d (prepend c r) = prepend c (keep_cbuf b d r)"
  by (cases r; auto simp: keep_cbuf_def prepend_def)+

lemma filter_message_cbuf:
  "filter_message env (with_cbuf b d f) t n raw =
     (fst (filter_message env f t n raw), with_cbuf b d (snd (filter_message env f t n raw)))"
  by (simp add: filter_message_def with_cbuf_def Let_def)

lemma client_handshake_cbuf:
  "client_handshake (with_cbuf b d f) =
     (fst (client_handshake f), with_cbuf b d (snd (client_handshake f)))"
  by (auto simp: client_handshake_def with_cbuf_def Let_def split: cstate.split)

lemma drain_cbuf: "drain_rfb env rnd (with_cbuf b d f) = keep_cbuf b d (drain_rfb env rnd f)"
proof (induction "drain_measure f" arbitrary: f rule: less_induct)
  case less
  show ?case
  proof (cases "ff_rfb f = []")
    case True
    then show ?thesis by (simp add: drain_rfb.simps [of env rnd])
  next
    case ne: False
    show ?thesis
    proof (cases "ff_cstate f = CMessages")
      case False
      obtain k g where hs: "client_handshake f = (k, g)" by fastforce
      note rfb = client_handshake_rfb [OF hs]
      have hs': "client_handshake (with_cbuf b d f) = (k, with_cbuf b d g)"
        using hs by (simp add: client_handshake_cbuf)
      have "drain_measure g < drain_measure f" if "ff_cstate g = CMessages"
        using that rfb False by (simp add: drain_measure_def)
      moreover have "drain_measure (g\<lparr>ff_rfb := drop (nat k) (ff_rfb g), ff_masks := Suc (ff_masks g)\<rparr>)
          < drain_measure f" if "0 < k"
        using that rfb False by (auto simp: drain_measure_def)
      ultimately show ?thesis
        using ne False hs hs' less.hyps
        by (simp add: drain_rfb.simps [of env rnd f] drain_rfb.simps [of env rnd "with_cbuf b d f"])
    next
      case st: True
      show ?thesis
      proof (cases "parse_message (ff_rfb f)")
        case (MMsg t n)
        obtain r g where fm:
          "filter_message env (f\<lparr>ff_rfb := drop n (ff_rfb f)\<rparr>) t n (take n (ff_rfb f)) = (r, g)"
          by fastforce
        have fm': "filter_message env (with_cbuf b d (f\<lparr>ff_rfb := drop n (ff_rfb f)\<rparr>)) t n
            (take n (ff_rfb f)) = (r, with_cbuf b d g)"
          using fm by (simp add: filter_message_cbuf)
        have "drain_measure g < drain_measure f"
            "drain_measure (g\<lparr>ff_masks := Suc (ff_masks g)\<rparr>) < drain_measure f"
          using filter_message_rfb [OF fm] parse_message_bounds [OF MMsg] st
          by (auto simp: drain_measure_def)
        then show ?thesis
          using ne st MMsg fm fm' less.hyps
          by (simp add: drain_rfb.simps [of env rnd f] drain_rfb.simps [of env rnd "with_cbuf b d f"]
              split: option.split)
      qed (use ne st in \<open>simp_all add: drain_rfb.simps [of env rnd f]
              drain_rfb.simps [of env rnd "with_cbuf b d f"]\<close>)
    qed
  qed
qed

lemma client_frame_cbuf:
  "client_frame env rnd (with_cbuf b d f) fr = keep_cbuf b d (client_frame env rnd f fr)"
  by (simp add: client_frame_alt client_payload_def Let_def drain_cbuf split: prod.split ws_event.split)

lemma client_frames_cbuf:
  "run_frames (client_frame env rnd) (with_cbuf b d f) frs =
     keep_cbuf b d (run_frames (client_frame env rnd) f frs)"
proof (induction frs arbitrary: f)
  case (Cons fr frs)
  then show ?case by (simp add: client_frame_cbuf split: option.split prod.split)
qed simp

lemma run_frames_append:
  "run_frames st f (xs @ ys) =
     (case run_frames st f xs of
        None \<Rightarrow> None
      | Some (out, g) \<Rightarrow> prepend out (run_frames st g ys))"
  by (induction xs arbitrary: f) (simp_all split: option.split prod.split)

lemma client_frames_keep:
  assumes "run_frames (client_frame env rnd) f frs = Some (out, g)"
  shows "with_cbuf (ff_ws_cbuf f) (ff_dead f) g = g"
proof -
  have "with_cbuf (ff_ws_cbuf f) (ff_dead f) f = f" by (simp add: with_cbuf_def)
  then have "keep_cbuf (ff_ws_cbuf f) (ff_dead f) (Some (out, g)) = Some (out, g)"
    using client_frames_cbuf [of env rnd "ff_ws_cbuf f" "ff_dead f" f frs] assms by metis
  then show ?thesis by simp
qed

lemma with_cbuf_alive: "\<not> ff_dead f \<Longrightarrow> f\<lparr>ff_ws_cbuf := b\<rparr> = with_cbuf b False f"
  by (simp add: with_cbuf_def)

lemma client_to_server_alt:
  "\<not> ff_dead f \<Longrightarrow> client_to_server env rnd f data = (Some out, g) \<longleftrightarrow>
     (\<exists>frs rest. parse_ws_frames (ff_ws_cbuf f @ data) = Some (frs, rest) \<and>
        run_frames (client_frame env rnd) (with_cbuf rest False f) frs = Some (out, g))"
  using with_cbuf_alive [of f]
  by (auto simp: client_to_server_def split: option.splits)

lemma client_to_server_split:
  assumes run: "client_to_server env rnd f (a @ b) = (Some out, g)"
  shows "\<exists>o1 o2 f1. client_to_server env rnd f a = (Some o1, f1) \<and>
           client_to_server env rnd f1 b = (Some o2, g) \<and> out = o1 @ o2"
proof -
  let ?run = "run_frames (client_frame env rnd)"
  from run have alive: "\<not> ff_dead f" by (auto simp: client_to_server_def)
  from run obtain frs rest where
    parse: "parse_ws_frames ((ff_ws_cbuf f @ a) @ b) = Some (frs, rest)" and
    all: "?run (with_cbuf rest False f) frs = Some (out, g)"
    by (auto simp: client_to_server_alt [OF alive])
  from parse obtain fs r gs where
    fs: "parse_ws_frames (ff_ws_cbuf f @ a) = Some (fs, r)" and
    gs: "parse_ws_frames (r @ b) = Some (gs, rest)" and frs: "frs = fs @ gs"
    unfolding parse_ws_frames_def ws.loop_append [of "ff_ws_cbuf f @ a" b]
    by (auto split: option.splits)
  from all frs obtain o1 h o2 where
    h: "?run (with_cbuf rest False f) fs = Some (o1, h)" and
    o2: "?run h gs = Some (o2, g)" and out: "out = o1 @ o2"
    by (auto simp: run_frames_append prepend_eq_Some split: option.splits)
  have first: "?run (with_cbuf r False f) fs = Some (o1, with_cbuf r False h)"
    using client_frames_cbuf [of env rnd r False "with_cbuf rest False f" fs] h by simp
  have "with_cbuf rest False (with_cbuf r False h) = h"
    using client_frames_keep [OF h] by simp
  then have "client_to_server env rnd (with_cbuf r False h) b = (Some o2, g)"
    using o2 gs by (auto simp: client_to_server_alt)
  moreover have "client_to_server env rnd f a = (Some o1, with_cbuf r False h)"
    using fs first by (auto simp: client_to_server_alt [OF alive])
  ultimately show ?thesis using out by blast
qed

end
