(* ===== verification/RfbProperties.thy ===== *)
theory RfbProperties
  imports RfbChunks
begin

text \<open>
  The properties of the RFB input filter (\<open>services/rfb_filter.py\<close>), each with a witness at a
  concrete connection where it has hypotheses.
\<close>

section \<open>Executable runs of a connection\<close>

datatype conn_event = FromClient bytes | FromServer bytes

fun conn_exec :: "string option \<Rightarrow> (nat \<Rightarrow> mask4) \<Rightarrow> conn \<Rightarrow> conn_event \<Rightarrow> conn" where
  "conn_exec env rnd c (FromClient data) =
     (case client_to_server env rnd (cn_filter c) data of
        (Some out, g) \<Rightarrow> c\<lparr>cn_filter := g, cn_up := cn_up c @ out\<rparr>
      | (None, g) \<Rightarrow> c\<lparr>cn_filter := g\<rparr>)"
| "conn_exec env rnd c (FromServer data) =
     (case track_server env (cn_filter c) data of
        (Some out, g) \<Rightarrow> c\<lparr>cn_filter := g, cn_down := cn_down c @ out\<rparr>
      | (None, g) \<Rightarrow> c\<lparr>cn_filter := g\<rparr>)"

fun conn_run :: "string option \<Rightarrow> (nat \<Rightarrow> mask4) \<Rightarrow> conn \<Rightarrow> conn_event list \<Rightarrow> conn" where
  "conn_run env rnd c [] = c"
| "conn_run env rnd c (e # es) = conn_run env rnd (conn_exec env rnd c e) es"

lemma conn_exec_step: "conn_step env rnd c (conn_exec env rnd c e)"
  by (cases e) (auto split: prod.split option.split intro: conn_step.intros)

lemma conn_run_reachable:
  "conn_reachable env rnd f0 c \<Longrightarrow> conn_reachable env rnd f0 (conn_run env rnd c es)"
  by (induction es arbitrary: c) (auto intro: conn_reachable.step conn_exec_step)

text \<open>A sample connection: handshake with security type None, then two client messages.\<close>

definition sample_masks :: "nat \<Rightarrow> mask4" where
  "sample_masks n = (1, 2, 3, 4)"

definition sample_version :: bytes where
  "sample_version = [82, 70, 66, 32, 48, 48, 51, 46, 48, 48, 56, 10]"

definition sample_server_hs :: bytes where
  "sample_server_hs =
     sample_version @ [1, 1] @ [0, 0, 0, 0]
     @ [0, 4, 0, 4, 32, 24, 0, 1, 0, 0, 0, 0, 0, 0, 0, 0, 0, 0, 0, 0, 0, 0, 0, 1] @ [120]"

definition sample_key_event :: bytes where
  "sample_key_event = [4, 1, 0, 0, 0, 0, 0, 97]"

definition sample_update_request :: bytes where
  "sample_update_request = [3, 0, 0, 0, 0, 0, 0, 4, 0, 4]"

definition sample_hs_events :: "conn_event list" where
  "sample_hs_events =
     [FromClient (ws_server_frame (sample_version @ [1, 1])),
      FromServer (ws_server_frame sample_server_hs)]"

definition sample_events :: "conn_event list" where
  "sample_events =
     sample_hs_events @ [FromClient (ws_server_frame (sample_key_event @ sample_update_request))]"

definition view_only :: rfb_filter where
  "view_only = init_filter None None False False False False"

definition sample_conn :: conn where
  "sample_conn = conn_run None sample_masks (init_conn view_only) sample_events"

lemma sample_conn_reachable: "conn_reachable None sample_masks view_only sample_conn"
  unfolding sample_conn_def by (intro conn_run_reachable conn_reachable.start)

lemma sample_conn_data:
  "map_option (\<lambda>(frs, r). (data_of frs, r)) (parse_ws_frames (cn_up sample_conn)) =
     Some ([sample_version, [1], [1], sample_update_request], [])"
  by code_simp

lemma sample_conn_decodes:
  "decodes (cn_up sample_conn) hist \<Longrightarrow>
   data_of hist = [sample_version, [1], [1], sample_update_request]"
  using sample_conn_data by (simp add: decodes_def)

section \<open>The client direction\<close>

text \<open>C1: in every reachable connection the bytes forwarded to the bridge are
  complete WebSocket frames, control frames or whole binary messages; their RFB payloads are a
  handshake of one of the known shapes, and nothing else before ServerInit, followed only by
  complete client messages the session may send: no KeyEvent without the keyboard permission, no
  PointerEvent or SetDesktopSize without the pointer permission, no ClientCutText without clipboard
  write, cut texts clean and capped, and SetEncodings within the negotiable set.\<close>

theorem upstream_only_permitted:
  assumes "conn_reachable env rnd (init_filter ac act k p w r) c"
  shows "\<exists>hist hs ms.
    decodes (cn_up c) hist \<and> list_all upstream_frame hist \<and> data_of hist = hs @ ms \<and>
    map length hs \<in> hs_shapes (ff_cstate (cn_filter c)) \<and>
    (ff_cstate (cn_filter c) \<noteq> CMessages \<longrightarrow> ms = []) \<and>
    (\<forall>m \<in> set ms. client_unit_ok env (init_filter ac act k p w r) m)"
  using conn_reachable_inv [OF assms] unfolding upstream_inv_def upstream_shape_def by metis

theorem upstream_only_permitted_witness:
  "\<exists>hist hs ms. decodes (cn_up sample_conn) hist \<and>
     data_of hist = [sample_version, [1], [1], sample_update_request] \<and> data_of hist = hs @ ms \<and>
     (\<forall>m \<in> set ms. client_unit_ok None view_only m)"
  using upstream_only_permitted
    [OF sample_conn_reachable [unfolded view_only_def]] sample_conn_decodes
  unfolding view_only_def by metis

text \<open>C2: once in the message phase, the draining loop does what its
  specification says: split the buffered stream into client messages, apply the permission policy
  to each in order, send every surviving message in one masked frame, keep the incomplete rest, and
  give up exactly when a message of unknown type is reached.\<close>

theorem message_phase_refines_spec:
  assumes "ff_cstate f = CMessages"
  shows "drain_rfb env rnd f = message_phase_spec env rnd f"
  using assms by (rule drain_messages)

definition sample_message_phase :: rfb_filter where
  "sample_message_phase =
     view_only\<lparr>ff_cstate := CMessages, ff_rfb := sample_key_event @ sample_update_request @ [3, 1]\<rparr>"

theorem message_phase_refines_spec_witness:
  "map_option (\<lambda>(out, g). (out, ff_rfb g)) (drain_rfb None sample_masks sample_message_phase) =
     Some (ws_frame (1, 2, 3, 4) sample_update_request, [3, 1])"
proof -
  have st: "ff_cstate sample_message_phase = CMessages"
    by (simp add: sample_message_phase_def)
  have "map_option (\<lambda>(out, g). (out, ff_rfb g)) (message_phase_spec None sample_masks sample_message_phase)
      = Some (ws_frame (1, 2, 3, 4) sample_update_request, [3, 1])"
    by code_simp
  then show ?thesis by (simp only: message_phase_refines_spec [OF st])
qed



text \<open>While the client has finished its part of the handshake and the
  server has not completed ServerInit, client bytes are only buffered: nothing is forwarded and the
  filter does not enter the message phase.\<close>

theorem no_bytes_before_serverinit:
  assumes "ff_cstate f = CWaitServerinit" and "\<not> hs_done (ff_srv f)"
  shows "drain_rfb env rnd f = Some ([], f)"
  using assms by (simp add: drain_rfb.simps [of env rnd f] client_handshake_def)

theorem no_bytes_before_serverinit_witness:
  "drain_rfb None sample_masks
     (view_only\<lparr>ff_cstate := CWaitServerinit, ff_rfb := sample_key_event\<rparr>) =
   Some ([], view_only\<lparr>ff_cstate := CWaitServerinit, ff_rfb := sample_key_event\<rparr>)"
  by (rule no_bytes_before_serverinit)
    (simp_all add: view_only_def init_filter_def init_handshake_def hs_done_def)

text \<open>In every reachable connection the reassembled RFB buffer stays within
  \<open>_MAX_RFB_BUF\<close>, the permissions are the ones the session was created with, and both the message
  phase of the client side and the decoder of the server side exist only after the server has
  completed its handshake.\<close>

theorem reachable_filter_invariant:
  assumes "conn_reachable env rnd (init_filter ac act k p w r) c"
  shows "length (ff_rfb (cn_filter c)) \<le> 8 * 1024 * 1024 \<and>
    same_perms (init_filter ac act k p w r) (cn_filter c) \<and>
    (ff_cstate (cn_filter c) = CMessages \<longrightarrow> hs_done (ff_srv (cn_filter c))) \<and>
    (ff_srv_parser (cn_filter c) \<noteq> None \<longrightarrow> hs_done (ff_srv (cn_filter c)))"
  using conn_reachable_inv [OF assms]
  unfolding upstream_inv_def filter_ok_def max_rfb_buf_def by blast

theorem reachable_filter_invariant_witness:
  "ff_cstate (cn_filter sample_conn) = CMessages \<and> hs_done (ff_srv (cn_filter sample_conn))"
proof -
  have "ff_cstate (cn_filter sample_conn) = CMessages" by code_simp
  then show ?thesis
    using reachable_filter_invariant [OF sample_conn_reachable [unfolded view_only_def]] by blast
qed

text \<open>The module bounds its reassembly buffers, but not the one that
  collects WebSocket fragments: for any number k, a client that never finishes a message is accepted
  and the fragment buffer holds k payloads.\<close>

theorem fragments_grow_without_bound:
  assumes "is_ws_frame fr" and "fr_opcode fr = 2" and "\<not> fr_fin fr"
    and "\<not> ff_dead f" and "ff_ws_cbuf f = []"
  shows "\<exists>g. client_to_server env rnd f (concat (replicate k (fr_raw fr))) = (Some [], g) \<and>
           ff_frag g = ff_frag f @ concat (replicate k (fr_payload fr))"
proof -
  have parse: "parse_ws_frames (concat (replicate k (fr_raw fr))) = Some (replicate k fr, [])"
    using assms(1)
    by (induction k) (auto simp: is_ws_frame_def parse_ws_frames_raw)
  have "\<exists>g. run_frames (client_frame env rnd) h (replicate k fr) = Some ([], g) \<and>
      ff_frag g = ff_frag h @ concat (replicate k (fr_payload fr))" for h
  proof (induction k arbitrary: h)
    case (Suc k)
    let ?h = "with_frag (Some 2) (ff_frag h @ fr_payload fr) h"
    have "client_frame env rnd h fr = Some ([], ?h)"
      using assms(2,3) by (simp add: client_frame_alt ws_reassemble_def)
    with Suc.IH [of ?h] show ?case by (auto simp: with_frag_def)
  qed simp
  then show ?thesis
    using parse assms(4,5) client_to_server_alt [of f env rnd "concat (replicate k (fr_raw fr))" "[]"]
    by (fastforce simp: with_cbuf_def)
qed

definition open_fragment :: ws_frame_in where
  "open_fragment = \<lparr>fr_opcode = 2, fr_payload = [7], fr_raw = [2, 1, 7], fr_fin = False\<rparr>"

theorem fragments_grow_without_bound_witness:
  "\<exists>g. client_to_server None sample_masks view_only (concat (replicate 3 [2, 1, 7])) = (Some [], g) \<and>
     ff_frag g = [7, 7, 7]"
proof -
  have one: "parse_ws_frame1 [2, 1, 7] = POk open_fragment []" by code_simp
  have f: "\<not> ff_dead view_only" "ff_ws_cbuf view_only = []" "ff_frag view_only = []"
    by (simp_all add: view_only_def init_filter_def)
  have "is_ws_frame open_fragment" using one by (auto simp: is_ws_frame_def)
  from fragments_grow_without_bound [OF this _ _ f(1,2), of None sample_masks 3]
  show ?thesis using f(3) by (simp add: open_fragment_def numeral_3_eq_3)
qed

section \<open>The wire layer\<close>

text \<open>Any sequence of payloads of at most \<open>_MAX_WS_PAYLOAD\<close> bytes written as masked
  frames is read back by the frame parser as that sequence, whatever the masks, with the bytes after
  them left over.\<close>

theorem frames_round_trip:
  assumes "\<forall>p \<in> set ps. length p \<le> 8 * 1024 * 1024"
  shows "parse_ws_frames (frames_out rnd n ps @ zs) =
    map_option (\<lambda>(frs, r). (binary_frames rnd n ps @ frs, r)) (parse_ws_frames zs)"
proof -
  have "decodes (frames_out rnd n ps) (binary_frames rnd n ps)"
    using assms by (intro decodes_frames_out) (simp add: max_ws_payload_def)
  then show ?thesis
    unfolding decodes_def parse_ws_frames_def ws.loop_append [of "frames_out rnd n ps"]
    by (simp split: option.split)
qed

theorem frames_round_trip_witness:
  "parse_ws_frames (frames_out sample_masks 0 [[1, 2], []] @ [0x82]) =
     Some (binary_frames sample_masks 0 [[1, 2], []], [0x82])"
proof -
  have "parse_ws_frames [0x82] = Some ([], [0x82])" by code_simp
  then show ?thesis using frames_round_trip [of "[[1, 2], []]" sample_masks 0 "[0x82]"] by simp
qed

text \<open>The frame parser is incremental: parsing a buffer and then the rest of it
  with more bytes appended gives the frames that parsing everything at once gives, and an oversized
  frame is refused in either order.\<close>

theorem frame_parser_chunks:
  "parse_ws_frames (a @ b) =
     (case parse_ws_frames a of
        None \<Rightarrow> None
      | Some (fs, r) \<Rightarrow>
          (case parse_ws_frames (r @ b) of
             None \<Rightarrow> None
           | Some (gs, r') \<Rightarrow> Some (fs @ gs, r')))"
  unfolding parse_ws_frames_def by (rule ws.loop_append)

text \<open>The rewritten SetEncodings is a well-formed message of the same type
  whose encodings are the client's own, in order, without those whose rectangle size cannot be
  decided; when none is left it asks for CopyRect and Raw.\<close>

theorem set_encodings_rewritten:
  assumes "set_encodings_msg raw"
  shows "set_encodings_msg (rewrite_encodings raw) \<and> hd (rewrite_encodings raw) = hd raw \<and>
    encodings_of (rewrite_encodings raw) =
      (let keep = filter (\<lambda>e. e \<in> set safe_encodings) (encodings_of raw)
       in if keep = [] then [1, 0] else keep)"
  using assms rewrite_encodings_msg [of raw] rewrite_encodings_hd [of raw]
    encodings_of_rewrite [of raw]
  by (simp add: set_encodings_msg_def kept_encodings_def)

theorem set_encodings_rewritten_witness:
  "encodings_of (rewrite_encodings ([2, 0, 0, 3] @ [0, 0, 0, 7] @ [0, 0, 0, 16] @ [255, 255, 255, 33]))
     = [16, -223]"
proof -
  let ?raw = "[2, 0, 0, 3, 0, 0, 0, 7, 0, 0, 0, 16, 255, 255, 255, 33] :: bytes"
  have "set_encodings_msg ?raw" by code_simp
  moreover have "filter (\<lambda>e. e \<in> set safe_encodings) (encodings_of ?raw) = [16, -223]" by code_simp
  ultimately show ?thesis using set_encodings_rewritten [of ?raw] by simp
qed

text \<open>Sanitising a complete cut text gives a complete cut text of the same type
  with a correct length field, whose payload is the old one without control bytes (tab, line feed
  and carriage return stay); doing it twice changes nothing.\<close>

theorem cut_text_sanitised:
  assumes "cut_text_msg raw"
  shows "cut_text_msg (sanitize_cut_text raw) \<and> hd (sanitize_cut_text raw) = hd raw \<and>
    drop 8 (sanitize_cut_text raw) = filter cut_text_keeps (drop 8 raw) \<and>
    sanitize_cut_text (sanitize_cut_text raw) = sanitize_cut_text raw"
  using assms sanitize_cut_text_msg [of raw] sanitize_hd [of raw] sanitize_payload [of raw]
    sanitize_idem [of raw]
  by (simp add: cut_text_msg_def)

theorem cut_text_sanitised_witness:
  "cut_text_msg (sanitize_cut_text [6, 0, 0, 0, 0, 0, 0, 3, 27, 65, 9]) \<and>
     drop 8 (sanitize_cut_text [6, 0, 0, 0, 0, 0, 0, 3, 27, 65, 9]) = [65, 9]"
proof -
  have raw: "cut_text_msg [6, 0, 0, 0, 0, 0, 0, 3, 27, 65, 9]" by code_simp
  have "filter cut_text_keeps (drop 8 [6, 0, 0, 0, 0, 0, 0, 3, 27, 65, 9]) = [65, 9]" by code_simp
  with cut_text_sanitised [OF raw] show ?thesis by metis
qed

section \<open>The server direction\<close>

text \<open>The decoder of server messages does not depend on how the stream is
  cut into payloads: feeding two pieces emits, in order, exactly the bytes that feeding the whole
  emits, ends in the same state, and gives the stream up in the same cases.\<close>

theorem server_chunk_independence:
  "srv_feed env p (a @ b) =
     (case srv_feed env p a of
        None \<Rightarrow> None
      | Some (out, q) \<Rightarrow> map_option (\<lambda>(out', r). (out @ out', r)) (srv_feed env q b))"
  by (rule srv_feed_append)


definition sample_cut_text :: bytes where
  "sample_cut_text = [3, 0, 0, 0, 0, 0, 0, 3, 27, 65, 66]"


text \<open>Between messages, a complete ServerCutText followed by anything is
  decoded as if it were absent when the session has no clipboard read permission, when it exceeds the
  cap or when only control bytes are in it; otherwise its sanitised form is forwarded in its place.
  The rest of the stream is decoded as before in every case.\<close>

theorem server_cut_text_filtered:
  assumes "srv_idle p" and "cut_text_msg m" and "m ! 0 = 3"
  shows "srv_feed env p (m @ rest) =
    prepend
      (if sp_allow_read p \<and> length m \<le> max_clipboard env \<and>
          filter cut_text_keeps (drop 8 m) \<noteq> []
       then sanitize_cut_text m else [])
      (srv_feed env p rest)"
  using srv_feed_cut_text [OF assms] by (simp add: cut_text_out_def)

theorem server_cut_text_filtered_witness:
  "srv_feed None (init_srv_parser 4 False) (sample_cut_text @ [2]) =
     Some ([2], init_srv_parser 4 False)"
proof -
  have p: "srv_idle (init_srv_parser 4 False)" by (simp add: srv_idle_def init_srv_parser_def)
  have m: "cut_text_msg sample_cut_text" "sample_cut_text ! 0 = 3" by code_simp+
  have "srv_feed None (init_srv_parser 4 False) [2] = Some ([2], init_srv_parser 4 False)"
    by code_simp
  then show ?thesis
    using server_cut_text_filtered [OF p m, of None "[2]"] by (simp add: init_srv_parser_def)
qed

text \<open>An update of n rectangles that all carry data is forwarded as n updates of
  one rectangle each, with headers and data unchanged and in order, after which the decoder is
  between messages again and goes on with what follows.\<close>

theorem rectangles_reemitted:
  assumes "srv_idle p" and "rs \<noteq> []" and "length rs < 65536"
    and "list_all (rect_complete (sp_pix p)) rs"
  shows "srv_feed env p ([0, pad] @ to_be 2 (length rs) @ concat rs @ rest) =
    prepend (concat (map one_rect_msg rs))
      (srv_feed env (p\<lparr>sp_rects_left := 0, sp_rect_pending := 0\<rparr>) rest)"
proof -
  let ?q = "p\<lparr>sp_buf := concat rs @ rest, sp_rects_left := int (length rs), sp_state := SRectHdr\<rparr>"
  have "srv_feed env p ([0, pad] @ to_be 2 (length rs) @ concat rs @ rest) = srv_run env ?q"
    using srv_run_fbu_hdr [of p "length rs" env pad "concat rs @ rest"] assms
    by (simp add: srv_feed_more)
  also have "\<dots> = prepend (concat (map one_rect_msg rs))
      (srv_run env (after_rect 0 (?q\<lparr>sp_buf := rest\<rparr>)))"
    using assms by (intro srv_run_rects) auto
  also have "after_rect 0 (?q\<lparr>sp_buf := rest\<rparr>) = sp_more rest (p\<lparr>sp_rects_left := 0, sp_rect_pending := 0\<rparr>)"
    using assms(1) by (simp add: after_rect_def srv_idle_def sp_more_def)
  finally show ?thesis by (simp add: srv_feed_more)
qed

theorem rectangles_reemitted_witness:
  "srv_feed None (init_srv_parser 1 False)
     ([0, 0, 0, 2] @ [0, 0, 0, 0, 0, 1, 0, 2, 0, 0, 0, 0, 7, 8]
        @ [0, 0, 0, 0, 0, 1, 0, 1, 0, 0, 0, 0, 9] @ [2]) =
   Some ([0, 0, 0, 1] @ [0, 0, 0, 0, 0, 1, 0, 2, 0, 0, 0, 0, 7, 8]
        @ [0, 0, 0, 1] @ [0, 0, 0, 0, 0, 1, 0, 1, 0, 0, 0, 0, 9] @ [2], init_srv_parser 1 False)"
proof -
  let ?rs = "[[0, 0, 0, 0, 0, 1, 0, 2, 0, 0, 0, 0, 7, 8],
              [0, 0, 0, 0, 0, 1, 0, 1, 0, 0, 0, 0, 9]] :: bytes list"
  have p: "srv_idle (init_srv_parser 1 False)" by (simp add: srv_idle_def init_srv_parser_def)
  have rs: "list_all (rect_complete (sp_pix (init_srv_parser 1 False))) ?rs" by code_simp
  have n: "to_be 2 (length ?rs) = [0, 2]" by code_simp
  have "srv_feed None (init_srv_parser 1 False) [2] = Some ([2], init_srv_parser 1 False)"
    by code_simp
  then show ?thesis
    using rectangles_reemitted [OF p _ _ rs, of None 0 "[2]"] n
    by (simp add: init_srv_parser_def one_rect_msg_def)
qed

text \<open>A rectangle without data, such as the negotiable DesktopSize and
  LastRect pseudo-encodings, stops the server direction for good: its header is forwarded, and
  whatever the server sends afterwards is buffered and never forwarded.\<close>

theorem empty_rectangle_stalls:
  assumes "srv_idle p" and "0 < n" and "n < 65536"
    and "length r = 12" and "be_int32 (slice 8 12 r) \<in> {-223, -224}"
  shows "\<exists>q. srv_feed env p ([0, pad] @ to_be 2 n @ r @ rest) = Some ([0, 0, 0, 1] @ r, q) \<and>
           sp_buf q = rest \<and> (\<forall>more. srv_feed env q more = Some ([], sp_more more q))"
  using srv_run_empty_rect [OF assms(1-4), of env pad rest] rect_size_pseudo [OF assms(5)]
  by (auto simp: srv_feed_stalled)

theorem empty_rectangle_stalls_witness:
  "\<exists>q. srv_feed None (init_srv_parser 4 True)
        ([0, 0, 0, 1] @ [0, 0, 0, 0, 3, 32, 2, 88, 255, 255, 255, 33] @ [2]) =
        Some ([0, 0, 0, 1] @ [0, 0, 0, 0, 3, 32, 2, 88, 255, 255, 255, 33], q) \<and>
     sp_buf q = [2] \<and> (\<forall>more. srv_feed None q more = Some ([], sp_more more q))"
proof -
  have p: "srv_idle (init_srv_parser 4 True)" by (simp add: srv_idle_def init_srv_parser_def)
  have "be_int32 (slice 8 12 [0, 0, 0, 0, 3, 32, 2, 88, 255, 255, 255, 33]) = -223" by code_simp
  moreover have "to_be 2 1 = [0, 1]" by code_simp
  ultimately show ?thesis
    using empty_rectangle_stalls [OF p, of 1 "[0, 0, 0, 0, 3, 32, 2, 88, 255, 255, 255, 33]" None 0 "[2]"]
    by simp
qed

text \<open>The tracker of the server handshake is incremental: feeding it two
  pieces leaves it in the state that feeding it the whole leaves it in.\<close>

theorem handshake_tracker_chunks:
  "hs_feed h (a @ b) = hs_feed (hs_feed h a) b"
  by (rule hs_feed_append)

end
