(* ===== verification/PyData.thy ===== *)
theory PyData
  imports Complex_Main Prelude "HOL-Library.AList" "HOL-Library.Sublist"
begin

text \<open>
  Python values as the security modules use them: JSON-shaped data with truthiness and the
  conversions \<open>int(v)\<close>, \<open>float(v)\<close>; dictionaries as association lists in insertion order; and the
  string operations \<open>split\<close>, \<open>partition\<close> and \<open>rsplit\<close>.  Floats are rationals: the modules only
  add, compare and truncate them.  Formatting and parsing a float as text is the business of the
  interpreter, so the pair \<open>(fmt, parse)\<close> is passed where the code needs it.
\<close>

type_synonym time = rat

datatype pyval =
    PNone
  | PBool bool
  | PInt int
  | PFloat rat
  | PStr string
  | PList "pyval list"
  | PDict "(string \<times> pyval) list"

fun truthy :: "pyval \<Rightarrow> bool" where
  "truthy PNone = False"
| "truthy (PBool b) = b"
| "truthy (PInt n) = (n \<noteq> 0)"
| "truthy (PFloat x) = (x \<noteq> 0)"
| "truthy (PStr s) = (s \<noteq> [])"
| "truthy (PList xs) = (xs \<noteq> [])"
| "truthy (PDict kvs) = (kvs \<noteq> [])"

text \<open>\<open>int(x)\<close> of a float truncates towards zero.\<close>

definition trunc :: "rat \<Rightarrow> int" where
  "trunc x = (if 0 \<le> x then \<lfloor>x\<rfloor> else \<lceil>x\<rceil>)"

text \<open>The numeric reading of a value in a comparison or in arithmetic; \<open>None\<close> is TypeError.\<close>

fun num_of :: "pyval \<Rightarrow> rat option" where
  "num_of (PBool b) = Some (if b then 1 else 0)"
| "num_of (PInt n) = Some (of_int n)"
| "num_of (PFloat x) = Some x"
| "num_of _ = None"

text \<open>\<open>float(v)\<close> and \<open>int(v)\<close>; \<open>None\<close> is TypeError or ValueError.\<close>

definition float_of :: "(string \<Rightarrow> rat option) \<Rightarrow> pyval \<Rightarrow> rat option" where
  "float_of parse v = (case v of PStr s \<Rightarrow> parse s | _ \<Rightarrow> num_of v)"

definition int_of :: "pyval \<Rightarrow> int option" where
  "int_of v = (case v of PStr s \<Rightarrow> py_int s | _ \<Rightarrow> map_option trunc (num_of v))"

text \<open>What a call does: return a value or raise.\<close>

datatype 'a outcome = Returned 'a | Raised

text \<open>\<open>v or d\<close>.\<close>

definition py_or :: "pyval \<Rightarrow> pyval \<Rightarrow> pyval" where
  "py_or v d = (if truthy v then v else d)"

lemma trunc_of_int [simp]: "trunc (of_int n) = n"
  by (simp add: trunc_def)

lemma trunc_0 [simp]: "trunc 0 = 0"
  by (simp add: trunc_def)

lemma trunc_nonneg: "0 \<le> x \<Longrightarrow> 0 \<le> trunc x"
  by (simp add: trunc_def)

lemma trunc_le: "0 \<le> x \<Longrightarrow> of_int (trunc x) \<le> x"
  by (simp add: trunc_def)

lemma less_trunc_plus_one: "x < of_int (trunc x) + 1"
  by (simp add: trunc_def) linarith

lemma less_trunc_add: "1 \<le> c \<Longrightarrow> x < of_int (trunc x) + c"
  using less_trunc_plus_one [of x] by linarith

section \<open>Dictionaries\<close>

definition py_get :: "'k \<Rightarrow> 'v \<Rightarrow> ('k \<times> 'v) list \<Rightarrow> 'v" where
  "py_get k d kvs = (case map_of kvs k of Some v \<Rightarrow> v | None \<Rightarrow> d)"

lemma map_of_update [simp]: "map_of (AList.update k v kvs) = (map_of kvs)(k \<mapsto> v)"
  by (rule update_conv')

lemma map_of_delete_upd [simp]: "map_of (AList.delete k kvs) = (map_of kvs)(k := None)"
  by (rule delete_conv')

section \<open>Strings\<close>

text \<open>\<open>s.split(c, 1)\<close>: the text before and after the first \<open>c\<close>.\<close>

fun split_first :: "char \<Rightarrow> string \<Rightarrow> (string \<times> string) option" where
  "split_first c [] = None"
| "split_first c (x # xs) =
     (if x = c then Some ([], xs)
      else map_option (\<lambda>(a, b). (x # a, b)) (split_first c xs))"

text \<open>\<open>s.rsplit(c, 1)\<close>: the text before and after the last \<open>c\<close>.\<close>

definition split_last :: "char \<Rightarrow> string \<Rightarrow> (string \<times> string) option" where
  "split_last c s = map_option (\<lambda>(a, b). (rev b, rev a)) (split_first c (rev s))"

text \<open>\<open>s.split(c)\<close>.\<close>

fun split_all :: "char \<Rightarrow> string \<Rightarrow> string list" where
  "split_all c [] = [[]]"
| "split_all c (x # xs) =
     (if x = c then [] # split_all c xs
      else (case split_all c xs of [] \<Rightarrow> [[x]] | p # ps \<Rightarrow> (x # p) # ps))"

lemma split_first_None [simp]: "split_first c s = None \<longleftrightarrow> c \<notin> set s"
  by (induction s) auto

lemma split_first_append:
  "c \<notin> set a \<Longrightarrow> split_first c (a @ c # b) = Some (a, b)"
  by (induction a) auto

lemma split_first_Some:
  "split_first c s = Some (a, b) \<longleftrightarrow> s = a @ c # b \<and> c \<notin> set a"
proof (induction s arbitrary: a)
  case Nil
  then show ?case by simp
next
  case (Cons x s)
  show ?case
  proof (cases a)
    case Nil
    then show ?thesis by auto
  next
    case (Cons y as)
    then show ?thesis using Cons.IH [of as] by auto
  qed
qed

lemma split_last_None [simp]: "split_last c s = None \<longleftrightarrow> c \<notin> set s"
  by (simp add: split_last_def)

lemma split_last_append:
  assumes "c \<notin> set b"
  shows "split_last c (a @ c # b) = Some (a, b)"
proof -
  have "split_first c (rev b @ c # rev a) = Some (rev b, rev a)"
    by (rule split_first_append) (simp add: assms)
  then show ?thesis by (simp add: split_last_def)
qed

lemma split_last_Some:
  "split_last c s = Some (a, b) \<longleftrightarrow> s = a @ c # b \<and> c \<notin> set b"
proof
  assume "split_last c s = Some (a, b)"
  then obtain x y where "split_first c (rev s) = Some (x, y)" "a = rev y" "b = rev x"
    by (auto simp: split_last_def)
  then have "rev s = x @ c # y" "c \<notin> set x" by (simp_all add: split_first_Some)
  then have "s = rev (x @ c # y)" by (metis rev_rev_ident)
  with \<open>a = rev y\<close> \<open>b = rev x\<close> \<open>c \<notin> set x\<close> show "s = a @ c # b \<and> c \<notin> set b" by simp
qed (auto simp: split_last_append)

lemma split_all_nonempty [simp]: "split_all c s \<noteq> []"
  by (induction s) (auto split: list.splits)

lemma split_all_plain: "c \<notin> set s \<Longrightarrow> split_all c s = [s]"
  by (induction s) auto

lemma split_all_append: "c \<notin> set a \<Longrightarrow> split_all c (a @ c # b) = a # split_all c b"
  by (induction a) auto

lemma split_all_parts: "p \<in> set (split_all c s) \<Longrightarrow> c \<notin> set p"
proof (induction s arbitrary: p)
  case (Cons x s)
  then show ?case by (cases "split_all c s") (auto split: if_splits)
qed simp

section \<open>Numbers as text\<close>

text \<open>\<open>str(n)\<close> of an integer.\<close>

fun nat_str :: "nat \<Rightarrow> string" where
  "nat_str n = (if n < 10 then [char_of (48 + n)] else nat_str (n div 10) @ [char_of (48 + n mod 10)])"

declare nat_str.simps [simp del]

definition int_str :: "int \<Rightarrow> string" where
  "int_str n = (if n < 0 then CHR ''-'' # nat_str (nat (- n)) else nat_str (nat n))"

text \<open>
  \<open>repr(x)\<close> and \<open>float(s)\<close>.  The code relies on: reading back what was printed gives the same number,
  and the printed text has no NUL and no colon.
\<close>

record float_io =
  show_float :: "rat \<Rightarrow> string"
  read_float :: "string \<Rightarrow> rat option"

definition float_io_ok :: "float_io \<Rightarrow> bool" where
  "float_io_ok fl \<longleftrightarrow>
     (\<forall>x. read_float fl (show_float fl x) = Some x \<and>
          CHR 0x00 \<notin> set (show_float fl x) \<and> CHR '':'' \<notin> set (show_float fl x))"

text \<open>A pair that satisfies it: signed unary fractions.\<close>

definition unary_io :: float_io where
  "unary_io =
     \<lparr> show_float = (\<lambda>x. let (p, q) = quotient_of x in
         (if p < 0 then CHR ''-'' else CHR ''+'') # replicate (nat \<bar>p\<bar>) (CHR ''1'') @
         CHR ''/'' # replicate (nat q) (CHR ''1'')),
       read_float = (\<lambda>s. case s of [] \<Rightarrow> None | c # s' \<Rightarrow>
         (case split_first (CHR ''/'') s' of None \<Rightarrow> None
          | Some (a, b) \<Rightarrow>
              Some ((if c = CHR ''-'' then - 1 else 1) * of_nat (length a) / of_nat (length b)))) \<rparr>"

lemma unary_io_ok: "float_io_ok unary_io"
proof -
  have "read_float unary_io (show_float unary_io x) = Some x \<and>
      CHR 0x00 \<notin> set (show_float unary_io x) \<and> CHR '':'' \<notin> set (show_float unary_io x)" for x
  proof -
    obtain p q where pq: "quotient_of x = (p, q)" by fastforce
    then have q: "0 < q" and x: "x = of_int p / of_int q"
      by (simp_all add: quotient_of_denom_pos quotient_of_div)
    have "split_first (CHR ''/'') (replicate (nat \<bar>p\<bar>) (CHR ''1'') @ CHR ''/'' # replicate (nat q) (CHR ''1''))
        = Some (replicate (nat \<bar>p\<bar>) (CHR ''1''), replicate (nat q) (CHR ''1''))"
      by (rule split_first_append) (simp add: in_set_replicate)
    with pq q x show ?thesis
      by (auto simp: unary_io_def)
  qed
  then show ?thesis by (simp add: float_io_ok_def)
qed

end
