(* ===== verification/SharedState.thy ===== *)
theory SharedState
  imports PyData
begin

text \<open>
  The shared-state store of security/shared_state.py: namespaced keys with a value and an optional
  expiry.  The record \<open>backend\<close> is the class StateBackend (its methods as fields); \<open>memory_backend\<close>
  and \<open>sqlite_backend\<close> are its two implementations, the second one statement by statement from its
  SQL.  The locale \<open>kv_store\<close> is the contract the clients use, \<open>scan_store\<close> adds prefix listing; both
  are interpreted on both implementations.  A method reads the clock once, as \<open>now\<close>.
\<close>

type_synonym entry = "pyval \<times> time option"
type_synonym rows = "((string \<times> string) \<times> entry) list"

section \<open>The backend interface\<close>

record 's backend =
  b_get :: "time \<Rightarrow> string \<Rightarrow> string \<Rightarrow> 's \<Rightarrow> pyval \<times> 's"
  b_set :: "string \<Rightarrow> string \<Rightarrow> pyval \<Rightarrow> 's \<Rightarrow> 's"
  b_delete :: "string \<Rightarrow> string \<Rightarrow> 's \<Rightarrow> 's"
  b_set_ttl :: "time \<Rightarrow> string \<Rightarrow> string \<Rightarrow> pyval \<Rightarrow> time \<Rightarrow> 's \<Rightarrow> 's"
  b_set_if_absent :: "time \<Rightarrow> string \<Rightarrow> string \<Rightarrow> pyval \<Rightarrow> time option \<Rightarrow> 's \<Rightarrow> bool \<times> 's"
  b_list_keys :: "time \<Rightarrow> string \<Rightarrow> string \<Rightarrow> 's \<Rightarrow> string list"
  b_increment :: "time \<Rightarrow> string \<Rightarrow> string \<Rightarrow> int \<Rightarrow> time option \<Rightarrow> 's \<Rightarrow> int \<times> 's"

text \<open>\<open>expires_at is not None and now > expires_at\<close>.\<close>

definition expired :: "time \<Rightarrow> time option \<Rightarrow> bool" where
  "expired now e = (case e of None \<Rightarrow> False | Some x \<Rightarrow> x < now)"

text \<open>\<open>time.time() + ttl_seconds if ttl_seconds else None\<close>.\<close>

definition claim_expiry :: "time \<Rightarrow> time option \<Rightarrow> time option" where
  "claim_expiry now ttl =
     (case ttl of None \<Rightarrow> None | Some t \<Rightarrow> if t = 0 then None else Some (now + t))"

section \<open>MemoryBackend\<close>

definition mem_get :: "time \<Rightarrow> string \<Rightarrow> string \<Rightarrow> rows \<Rightarrow> pyval \<times> rows" where
  "mem_get now ns k s =
     (case map_of s (ns, k) of
        None \<Rightarrow> (PNone, s)
      | Some (v, e) \<Rightarrow> if expired now e then (PNone, AList.delete (ns, k) s) else (v, s))"

definition mem_set :: "string \<Rightarrow> string \<Rightarrow> pyval \<Rightarrow> rows \<Rightarrow> rows" where
  "mem_set ns k v s = AList.update (ns, k) (v, None) s"

definition mem_delete :: "string \<Rightarrow> string \<Rightarrow> rows \<Rightarrow> rows" where
  "mem_delete ns k s = AList.delete (ns, k) s"

definition mem_set_ttl :: "time \<Rightarrow> string \<Rightarrow> string \<Rightarrow> pyval \<Rightarrow> time \<Rightarrow> rows \<Rightarrow> rows" where
  "mem_set_ttl now ns k v ttl s = AList.update (ns, k) (v, Some (now + ttl)) s"

definition mem_set_if_absent ::
    "time \<Rightarrow> string \<Rightarrow> string \<Rightarrow> pyval \<Rightarrow> time option \<Rightarrow> rows \<Rightarrow> bool \<times> rows" where
  "mem_set_if_absent now ns k v ttl s =
     (case map_of s (ns, k) of
        Some (_, e) \<Rightarrow>
          if \<not> expired now e then (False, s)
          else (True, AList.update (ns, k) (v, claim_expiry now ttl) s)
      | None \<Rightarrow> (True, AList.update (ns, k) (v, claim_expiry now ttl) s))"

definition mem_list_keys :: "time \<Rightarrow> string \<Rightarrow> string \<Rightarrow> rows \<Rightarrow> string list" where
  "mem_list_keys now ns p s =
     map (snd \<circ> fst)
       (filter (\<lambda>((n, k), (v, e)). n = ns \<and> \<not> expired now e \<and> (p = [] \<or> prefix p k)) s)"

definition int_or_zero :: "pyval \<Rightarrow> int" where
  "int_or_zero v = (case v of PInt n \<Rightarrow> n | PBool b \<Rightarrow> (if b then 1 else 0) | _ \<Rightarrow> 0)"

definition mem_increment ::
    "time \<Rightarrow> string \<Rightarrow> string \<Rightarrow> int \<Rightarrow> time option \<Rightarrow> rows \<Rightarrow> int \<times> rows" where
  "mem_increment now ns k amount ttl s =
     (let en = map_of s (ns, k);
          current = (case en of
                       Some (v, e) \<Rightarrow> if \<not> expired now e then int_or_zero v else 0
                     | None \<Rightarrow> 0);
          new = current + amount;
          expires = (case ttl of
                       Some t \<Rightarrow> Some (now + t)
                     | None \<Rightarrow> (case en of Some (_, e) \<Rightarrow> e | None \<Rightarrow> None))
      in (new, AList.update (ns, k) (PInt new, expires) s))"

definition memory_backend :: "rows backend" where
  "memory_backend =
     \<lparr> b_get = mem_get, b_set = mem_set, b_delete = mem_delete, b_set_ttl = mem_set_ttl,
       b_set_if_absent = mem_set_if_absent, b_list_keys = mem_list_keys,
       b_increment = mem_increment \<rparr>"

section \<open>SQLiteBackend\<close>

text \<open>
  The table \<open>state\<close> has primary key \<open>(namespace, key)\<close>.  \<open>INSERT OR REPLACE\<close> deletes the row and
  adds a new one; \<open>ON CONFLICT DO UPDATE\<close> changes it in place.  \<open>LIKE\<close> ignores ASCII case.
\<close>

definition sql_replace :: "string \<times> string \<Rightarrow> entry \<Rightarrow> rows \<Rightarrow> rows" where
  "sql_replace nk en s = AList.delete nk s @ [(nk, en)]"

definition sql_delete :: "string \<Rightarrow> string \<Rightarrow> rows \<Rightarrow> rows" where
  "sql_delete ns k s = filter (\<lambda>(nk, _). nk \<noteq> (ns, k)) s"

definition sql_get :: "time \<Rightarrow> string \<Rightarrow> string \<Rightarrow> rows \<Rightarrow> pyval \<times> rows" where
  "sql_get now ns k s =
     (case map_of s (ns, k) of
        None \<Rightarrow> (PNone, s)
      | Some (raw, e) \<Rightarrow> if expired now e then (PNone, sql_delete ns k s) else (raw, s))"

definition sql_set :: "string \<Rightarrow> string \<Rightarrow> pyval \<Rightarrow> rows \<Rightarrow> rows" where
  "sql_set ns k v s = sql_replace (ns, k) (v, None) s"

definition sql_set_ttl :: "time \<Rightarrow> string \<Rightarrow> string \<Rightarrow> pyval \<Rightarrow> time \<Rightarrow> rows \<Rightarrow> rows" where
  "sql_set_ttl now ns k v ttl s = sql_replace (ns, k) (v, Some (now + ttl)) s"

definition sql_set_if_absent ::
    "time \<Rightarrow> string \<Rightarrow> string \<Rightarrow> pyval \<Rightarrow> time option \<Rightarrow> rows \<Rightarrow> bool \<times> rows" where
  "sql_set_if_absent now ns k v ttl s =
     (case map_of s (ns, k) of
        None \<Rightarrow> (True, AList.update (ns, k) (v, claim_expiry now ttl) s)
      | Some (_, None) \<Rightarrow> (False, s)
      | Some (_, Some x) \<Rightarrow>
          if x \<le> now then (True, AList.update (ns, k) (v, claim_expiry now ttl) s)
          else (False, s))"

definition ascii_lower :: "char \<Rightarrow> char" where
  "ascii_lower c =
     (let n = of_char c :: nat in if 65 \<le> n \<and> n \<le> 90 then char_of (n + 32) else c)"

definition like_escape :: "string \<Rightarrow> string" where
  "like_escape p =
     concat (map (\<lambda>c. if c \<in> {CHR 0x5C, CHR ''%'', CHR ''_''} then [CHR 0x5C, c] else [c]) p)"

text \<open>\<open>text LIKE pattern ESCAPE\<close> backslash.\<close>

function sql_like :: "string \<Rightarrow> string \<Rightarrow> bool" where
  "sql_like [] s = (s = [])"
| "sql_like (p # ps) s =
     (if p = CHR ''%'' then
        (sql_like ps s \<or> (case s of [] \<Rightarrow> False | _ # s' \<Rightarrow> sql_like (p # ps) s'))
      else if p = CHR ''_'' then (case s of [] \<Rightarrow> False | _ # s' \<Rightarrow> sql_like ps s')
      else if p = CHR 0x5C then
        (case ps of
           [] \<Rightarrow> False
         | q # qs \<Rightarrow>
             (case s of [] \<Rightarrow> False | c # s' \<Rightarrow> ascii_lower q = ascii_lower c \<and> sql_like qs s'))
      else
        (case s of [] \<Rightarrow> False | c # s' \<Rightarrow> ascii_lower p = ascii_lower c \<and> sql_like ps s'))"
  by pat_completeness auto
termination by (relation "measure (\<lambda>(p, s). length p + length s)") auto

declare sql_like.simps [simp del]

definition sql_list_keys :: "time \<Rightarrow> string \<Rightarrow> string \<Rightarrow> rows \<Rightarrow> string list" where
  "sql_list_keys now ns p s =
     (let rs = (if p \<noteq> []
                then filter (\<lambda>((n, k), _). n = ns \<and> sql_like (like_escape p @ ''%'') k) s
                else filter (\<lambda>((n, k), _). n = ns) s)
      in map (snd \<circ> fst) (filter (\<lambda>(_, (_, e)). \<not> expired now e) rs))"

text \<open>
  \<open>CAST(value AS INTEGER)\<close> of the JSON text: the leading integer of a number (floats below \<open>1e16\<close>,
  which are printed without an exponent), zero for every other text.
\<close>

definition cast_integer :: "pyval \<Rightarrow> int" where
  "cast_integer v = (case v of PInt n \<Rightarrow> n | PFloat x \<Rightarrow> trunc x | _ \<Rightarrow> 0)"

definition sql_increment ::
    "time \<Rightarrow> string \<Rightarrow> string \<Rightarrow> int \<Rightarrow> time option \<Rightarrow> rows \<Rightarrow> int \<times> rows" where
  "sql_increment now ns k amount ttl s =
     (let excluded = map_option (\<lambda>t. now + t) ttl
      in case map_of s (ns, k) of
           None \<Rightarrow> (amount, AList.update (ns, k) (PInt amount, excluded) s)
         | Some (v, e) \<Rightarrow>
             let new = (if e = None \<or> now \<le> the e then cast_integer v else 0) + amount;
                 expires = (case excluded of None \<Rightarrow> e | Some x \<Rightarrow> Some x)
             in (new, AList.update (ns, k) (PInt new, expires) s))"

definition sqlite_backend :: "rows backend" where
  "sqlite_backend =
     \<lparr> b_get = sql_get, b_set = sql_set, b_delete = sql_delete, b_set_ttl = sql_set_ttl,
       b_set_if_absent = sql_set_if_absent, b_list_keys = sql_list_keys,
       b_increment = sql_increment \<rparr>"

section \<open>Backend selection\<close>

datatype backend_choice =
    BkSqlite        \<comment> \<open>the sqlite file opened\<close>
  | BkMemory        \<comment> \<open>configured in-memory store\<close>
  | BkFallback      \<comment> \<open>sqlite failed: degraded in-memory store\<close>
  | BkRefused       \<comment> \<open>sqlite failed under the strict policy: RuntimeError\<close>

definition get_backend :: "string \<Rightarrow> bool \<Rightarrow> bool \<Rightarrow> backend_choice" where
  "get_backend choice sqlite_opens strict =
     (if map ascii_lower choice = ''sqlite'' then
        if sqlite_opens then BkSqlite else if strict then BkRefused else BkFallback
      else BkMemory)"

definition backend_degraded :: "backend_choice \<Rightarrow> bool" where
  "backend_degraded b = (b = BkFallback)"

section \<open>The contract\<close>

definition live :: "time \<Rightarrow> entry option \<Rightarrow> pyval option" where
  "live now en = (case en of None \<Rightarrow> None | Some (v, e) \<Rightarrow> if expired now e then None else Some v)"

definition val_or_none :: "pyval option \<Rightarrow> pyval" where
  "val_or_none = case_option PNone id"

locale kv_store =
  fixes be :: "'s backend"
    and look :: "'s \<Rightarrow> string \<times> string \<Rightarrow> entry option"
    and wf :: "'s \<Rightarrow> bool"
  assumes get_val: "fst (b_get be now ns k s) = val_or_none (live now (look s (ns, k)))"
    and get_look: "live now (look s (ns, k)) = None \<or> look (snd (b_get be now ns k s)) = look s"
    and get_drop: "live now (look s (ns, k)) = None \<Longrightarrow>
      look (snd (b_get be now ns k s)) = (look s)((ns, k) := None)"
    and set_look: "look (b_set be ns k v s) = (look s)((ns, k) \<mapsto> (v, None))"
    and delete_look: "look (b_delete be ns k s) = (look s)((ns, k) := None)"
    and set_ttl_look: "look (b_set_ttl be now ns k v t s) = (look s)((ns, k) \<mapsto> (v, Some (now + t)))"
    and claim_free: "live now (look s (ns, k)) = None \<Longrightarrow> fst (b_set_if_absent be now ns k v ttl s)"
    and claim_held: "look s (ns, k) = Some (u, e) \<Longrightarrow> (\<And>x. e = Some x \<Longrightarrow> now < x) \<Longrightarrow>
      \<not> fst (b_set_if_absent be now ns k v ttl s)"
    and claim_look: "look (snd (b_set_if_absent be now ns k v ttl s)) =
      (if fst (b_set_if_absent be now ns k v ttl s)
       then (look s)((ns, k) \<mapsto> (v, claim_expiry now ttl)) else look s)"
    and incr_new: "live now (look s (ns, k)) = None \<Longrightarrow> fst (b_increment be now ns k a ttl s) = a"
    and incr_live: "live now (look s (ns, k)) = Some (PInt n) \<Longrightarrow>
      fst (b_increment be now ns k a ttl s) = n + a"
    and incr_look: "look (snd (b_increment be now ns k a (Some t) s)) =
      (look s)((ns, k) \<mapsto> (PInt (fst (b_increment be now ns k a (Some t) s)), Some (now + t)))"
    and wf_keep: "wf s \<Longrightarrow> wf (snd (b_get be now ns k s))"
      "wf s \<Longrightarrow> wf (b_set be ns k v s)" "wf s \<Longrightarrow> wf (b_delete be ns k s)"
      "wf s \<Longrightarrow> wf (b_set_ttl be now ns k v t s)"
      "wf s \<Longrightarrow> wf (snd (b_set_if_absent be now ns k v ttl s))"
      "wf s \<Longrightarrow> wf (snd (b_increment be now ns k a ttl s))"
begin

lemma get_other: "x \<noteq> (ns, k) \<Longrightarrow> look (snd (b_get be now ns k s)) x = look s x"
  using get_look [of now s ns k] get_drop [of now s ns k] by (metis fun_upd_apply)

lemma get_after_set_ttl:
  "now' \<le> now + t \<Longrightarrow> fst (b_get be now' ns k (b_set_ttl be now ns k v t s)) = v"
  by (simp add: get_val set_ttl_look live_def expired_def val_or_none_def)

lemma get_after_delete: "fst (b_get be now ns k (b_delete be ns k s)) = PNone"
  by (simp add: get_val delete_look live_def val_or_none_def)

lemma claim_once:
  assumes "fst (b_set_if_absent be now ns k v (Some t) s)" and "t \<noteq> 0" and "now' < now + t"
  shows "\<not> fst (b_set_if_absent be now' ns k w ttl (snd (b_set_if_absent be now ns k v (Some t) s)))"
  by (rule claim_held [where u = v and e = "Some (now + t)"])
    (use assms in \<open>auto simp: claim_look claim_expiry_def\<close>)

lemma incr_other: "x \<noteq> (ns, k) \<Longrightarrow> look (snd (b_increment be now ns k a (Some t) s)) x = look s x"
  by (simp add: incr_look)

lemma claim_other: "x \<noteq> (ns, k) \<Longrightarrow> look (snd (b_set_if_absent be now ns k v ttl s)) x = look s x"
  by (simp add: claim_look)

end

locale scan_store = kv_store be look wf
  for be :: "'s backend" and look wf +
  fixes norm :: "char \<Rightarrow> char"
  assumes scan: "wf s \<Longrightarrow> set (b_list_keys be now ns p s) =
      {k. live now (look s (ns, k)) \<noteq> None \<and> prefix (map norm p) (map norm k)}"
    and scan_distinct: "wf s \<Longrightarrow> distinct (b_list_keys be now ns p s)"
begin

lemma scan_prefix:
  "wf s \<Longrightarrow> live now (look s (ns, p @ x)) \<noteq> None \<Longrightarrow> p @ x \<in> set (b_list_keys be now ns p s)"
  by (simp add: scan)

text \<open>Deleting every listed key leaves nothing to list.\<close>

lemma delete_all_look:
  "look (foldl (\<lambda>s k. b_delete be ns k s) s ks) x =
     (if fst x = ns \<and> snd x \<in> set ks then None else look s x)"
  by (induction ks arbitrary: s) (auto simp: delete_look prod_eq_iff)

lemma delete_all_wf: "wf s \<Longrightarrow> wf (foldl (\<lambda>s k. b_delete be ns k s) s ks)"
  by (induction ks arbitrary: s) (auto simp: wf_keep)

lemma scan_after_delete_all:
  assumes "wf s" and "now \<le> now'"
  shows "b_list_keys be now' ns p
           (foldl (\<lambda>s k. b_delete be ns k s) s (b_list_keys be now ns p s)) = []"
proof -
  have older: "live now' (look s x) = None" if "live now (look s x) = None" for x
    using that assms(2) by (auto simp: live_def expired_def split: option.splits if_splits)
  have "set (b_list_keys be now' ns p
           (foldl (\<lambda>s k. b_delete be ns k s) s (b_list_keys be now ns p s))) = {}"
    using older
    by (auto simp: scan delete_all_wf [OF assms(1)] delete_all_look assms(1) live_def [of _ None])
  then show ?thesis by simp
qed

end

section \<open>Both backends keep the contract\<close>

definition rows_wf :: "rows \<Rightarrow> bool" where
  "rows_wf s = distinct (map fst s)"

lemma sql_delete_eq: "sql_delete ns k s = AList.delete (ns, k) s"
  by (auto simp: sql_delete_def AList.delete_eq case_prod_unfold intro!: filter_cong)

lemma map_of_sql_replace [simp]: "map_of (sql_replace nk en s) = (map_of s)(nk \<mapsto> en)"
  by (auto simp: sql_replace_def map_add_def fun_eq_iff split: option.splits)

lemma rows_wf_update [simp]: "rows_wf s \<Longrightarrow> rows_wf (AList.update nk en s)"
  by (simp add: rows_wf_def distinct_update)

lemma rows_wf_delete [simp]: "rows_wf s \<Longrightarrow> rows_wf (AList.delete nk s)"
  by (simp add: rows_wf_def distinct_delete)

lemma rows_wf_replace [simp]: "rows_wf s \<Longrightarrow> rows_wf (sql_replace nk en s)"
  by (auto simp: rows_wf_def sql_replace_def delete_keys distinct_removeAll)

lemma rows_wf_look: "rows_wf s \<Longrightarrow> (nk, en) \<in> set s \<longleftrightarrow> map_of s nk = Some en"
  by (simp add: rows_wf_def)

lemmas memory_defs = memory_backend_def mem_get_def mem_set_def mem_delete_def mem_set_ttl_def
  mem_set_if_absent_def mem_increment_def

lemmas sqlite_defs = sqlite_backend_def sql_get_def sql_set_def sql_delete_eq sql_set_ttl_def
  sql_set_if_absent_def sql_increment_def

lemmas row_reads = live_def expired_def val_or_none_def int_or_zero_def cast_integer_def

interpretation memkv: kv_store memory_backend map_of rows_wf
proof (unfold_locales, goal_cases)
  case (9 now s ns k a ttl)
  then show ?case
    by (auto simp: memory_defs row_reads Let_def split: option.splits if_splits)
qed (auto simp: memory_defs row_reads claim_expiry_def Let_def split: option.splits if_splits prod.splits)

interpretation sqlkv: kv_store sqlite_backend map_of rows_wf
  by unfold_locales
    (auto simp: sqlite_defs row_reads claim_expiry_def Let_def split: option.splits if_splits prod.splits)

section \<open>Prefix listing\<close>

lemma mem_list_keys_set:
  assumes "rows_wf s"
  shows "set (mem_list_keys now ns p s) =
    {k. live now (map_of s (ns, k)) \<noteq> None \<and> prefix p k}"
proof -
  have "k \<in> set (mem_list_keys now ns p s) \<longleftrightarrow>
      (\<exists>v e. ((ns, k), (v, e)) \<in> set s \<and> \<not> expired now e \<and> prefix p k)" for k
    by (force simp: mem_list_keys_def image_iff)
  moreover have "(\<exists>v e. map_of s (ns, k) = Some (v, e) \<and> \<not> expired now e \<and> prefix p k) \<longleftrightarrow>
      live now (map_of s (ns, k)) \<noteq> None \<and> prefix p k" for k
    by (cases "map_of s (ns, k)") (auto simp: live_def)
  ultimately show ?thesis
    using rows_wf_look [OF assms] by auto
qed

lemma distinct_keys_of_ns:
  assumes "rows_wf s" and "\<And>r. P r \<Longrightarrow> fst (fst r) = ns"
  shows "distinct (map (snd \<circ> fst) (filter P s))"
proof -
  have "inj_on (snd \<circ> fst) (set (filter P s))"
    using assms by (auto simp: inj_on_def rows_wf_def prod_eq_iff) (metis map_of_is_SomeI option.inject prod.inject)+
  moreover have "distinct (filter P s)"
    using assms(1) by (simp add: rows_wf_def distinct_map)
  ultimately show ?thesis by (simp add: distinct_map)
qed

lemma mem_list_keys_distinct: "rows_wf s \<Longrightarrow> distinct (mem_list_keys now ns p s)"
  unfolding mem_list_keys_def by (rule distinct_keys_of_ns) auto

lemma sql_like_percent: "sql_like ''%'' k"
  by (induction k) (simp_all add: sql_like.simps)

lemma like_escape_Cons:
  "like_escape (c # p) =
     (if c \<in> {CHR 0x5C, CHR ''%'', CHR ''_''} then CHR 0x5C # c # like_escape p
      else c # like_escape p)"
  by (simp add: like_escape_def)

text \<open>The escaped prefix is literal up to ASCII case: no \<open>%\<close> or \<open>_\<close> of it is a wildcard.\<close>

lemma sql_like_escape:
  "sql_like (like_escape p @ ''%'') k \<longleftrightarrow> prefix (map ascii_lower p) (map ascii_lower k)"
proof (induction p arbitrary: k)
  case Nil
  then show ?case by (simp add: like_escape_def sql_like_percent)
next
  case (Cons c p)
  show ?case
  proof (cases k)
    case Nil
    then show ?thesis by (simp add: like_escape_Cons sql_like.simps)
  next
    case (Cons d k')
    then show ?thesis
      using Cons.IH [of k'] by (simp add: like_escape_Cons sql_like.simps (2))
  qed
qed

lemma sql_list_keys_eq:
  "sql_list_keys now ns p s =
     map (snd \<circ> fst) (filter (\<lambda>((n, k), (v, e)). n = ns \<and> \<not> expired now e \<and>
       prefix (map ascii_lower p) (map ascii_lower k)) s)"
  by (auto simp: sql_list_keys_def sql_like_escape Let_def intro!: filter_cong arg_cong [of _ _ "map _"])

lemma sql_list_keys_set:
  assumes "rows_wf s"
  shows "set (sql_list_keys now ns p s) =
    {k. live now (map_of s (ns, k)) \<noteq> None \<and> prefix (map ascii_lower p) (map ascii_lower k)}"
proof -
  have "k \<in> set (sql_list_keys now ns p s) \<longleftrightarrow>
      (\<exists>v e. ((ns, k), (v, e)) \<in> set s \<and> \<not> expired now e \<and>
         prefix (map ascii_lower p) (map ascii_lower k))" for k
    by (force simp: sql_list_keys_eq image_iff)
  moreover have "(\<exists>v e. map_of s (ns, k) = Some (v, e) \<and> \<not> expired now e \<and> Q) \<longleftrightarrow>
      live now (map_of s (ns, k)) \<noteq> None \<and> Q" for k Q
    by (cases "map_of s (ns, k)") (auto simp: live_def)
  ultimately show ?thesis
    using rows_wf_look [OF assms] by auto
qed

lemma sql_list_keys_distinct: "rows_wf s \<Longrightarrow> distinct (sql_list_keys now ns p s)"
  unfolding sql_list_keys_eq by (rule distinct_keys_of_ns) auto

interpretation memscan: scan_store memory_backend map_of rows_wf id
  by unfold_locales (simp_all add: memory_backend_def mem_list_keys_set mem_list_keys_distinct)

interpretation sqlscan: scan_store sqlite_backend map_of rows_wf ascii_lower
  by unfold_locales (simp_all add: sqlite_backend_def sql_list_keys_set sql_list_keys_distinct)

end
