(* ===== verification/RateLimit.thy ===== *)
theory RateLimit
  imports SharedState
begin

text \<open>
  The login rate limiter of security/rate_limit.py over any shared-state backend: attempt records
  keyed \<open>key NUL timestamp NUL random\<close>, lockouts with escalation, and the fixed-window admission
  counter.  Its lemmas are proved once in the contract \<open>scan_store\<close> and hold for both backends.
\<close>

abbreviation ns_attempts :: string where "ns_attempts \<equiv> ''rate_limit_attempts''"
abbreviation ns_lockouts :: string where "ns_lockouts \<equiv> ''rate_limit_lockouts''"
abbreviation ns_strikes :: string where "ns_strikes \<equiv> ''rate_limit_lockout_strikes''"
abbreviation ns_general :: string where "ns_general \<equiv> ''rate_limit_general''"
abbreviation nul :: char where "nul \<equiv> CHR 0x00"

record limiter =
  max_attempts :: int
  lockout_seconds :: int
  window_seconds :: int
  lockout_max_seconds :: int
  escalation :: bool

text \<open>\<open>argument or int(os.environ.get(name, default))\<close>; \<open>None\<close> is ValueError.\<close>

definition or_env :: "(string \<Rightarrow> string option) \<Rightarrow> int option \<Rightarrow> string \<Rightarrow> int \<Rightarrow> int option" where
  "or_env environ arg name dflt =
     (case arg of
        Some n \<Rightarrow> if n \<noteq> 0 then Some n
                  else (case environ name of None \<Rightarrow> Some dflt | Some v \<Rightarrow> py_int v)
      | None \<Rightarrow> (case environ name of None \<Rightarrow> Some dflt | Some v \<Rightarrow> py_int v))"

definition env_flag :: "(string \<Rightarrow> string option) \<Rightarrow> string \<Rightarrow> string \<Rightarrow> bool" where
  "env_flag environ name dflt =
     (map ascii_lower (case environ name of None \<Rightarrow> dflt | Some v \<Rightarrow> v)
        \<in> {''1'', ''true'', ''yes'', ''on''})"

definition new_limiter ::
    "(string \<Rightarrow> string option) \<Rightarrow> int option \<Rightarrow> int option \<Rightarrow> int option \<Rightarrow> limiter option" where
  "new_limiter environ attempts lockout window =
     (case (or_env environ attempts ''AUTH_MAX_ATTEMPTS'' 5,
            or_env environ lockout ''AUTH_LOCKOUT_SECONDS'' 900,
            or_env environ window ''AUTH_WINDOW_SECONDS'' 600,
            or_env environ None ''AUTH_LOCKOUT_MAX_SECONDS'' 86400) of
        (Some a, Some l, Some w, Some m) \<Rightarrow>
          Some \<lparr> max_attempts = a, lockout_seconds = l, window_seconds = w,
                 lockout_max_seconds = m,
                 escalation = env_flag environ ''AUTH_LOCKOUT_ESCALATION'' ''true'' \<rparr>
      | _ \<Rightarrow> None)"

section \<open>RateLimiter\<close>

text \<open>\<open>2 ** n\<close>, a float for a negative exponent.\<close>

definition two_pow :: "int \<Rightarrow> rat" where
  "two_pow n = (if 0 \<le> n then 2 ^ nat n else 1 / 2 ^ nat (- n))"

definition next_lockout :: "'s backend \<Rightarrow> limiter \<Rightarrow> time \<Rightarrow> string \<Rightarrow> 's \<Rightarrow> time \<times> 's" where
  "next_lockout be lm now key s =
     (if \<not> escalation lm then (of_int (lockout_seconds lm), s)
      else
        let (v, s) = b_get be now ns_strikes key s;
            strikes = (case int_of (py_or v (PInt 0)) of Some n \<Rightarrow> n + 1 | None \<Rightarrow> 1);
            duration = min (of_int (lockout_seconds lm) * two_pow (strikes - 1))
                           (of_int (lockout_max_seconds lm))
        in (duration,
            b_set_ttl be now ns_strikes key (PInt strikes)
              (of_int (trunc duration + window_seconds lm + 60)) s))"

definition attempt_keys :: "'s backend \<Rightarrow> time \<Rightarrow> string \<Rightarrow> 's \<Rightarrow> string list" where
  "attempt_keys be now key s = b_list_keys be now ns_attempts (key @ [nul]) s"

definition in_window :: "float_io \<Rightarrow> limiter \<Rightarrow> time \<Rightarrow> string \<Rightarrow> bool" where
  "in_window fl lm now k =
     (case split_all nul k of
        _ # part # _ \<Rightarrow>
          (case read_float fl part of
             Some ts \<Rightarrow> now - of_int (window_seconds lm) < ts
           | None \<Rightarrow> False)
      | _ \<Rightarrow> False)"

definition attempt_count :: "'s backend \<Rightarrow> float_io \<Rightarrow> limiter \<Rightarrow> time \<Rightarrow> string \<Rightarrow> 's \<Rightarrow> nat" where
  "attempt_count be fl lm now key s =
     length (filter (in_window fl lm now) (attempt_keys be now key s))"

definition clear_attempts :: "'s backend \<Rightarrow> time \<Rightarrow> string \<Rightarrow> 's \<Rightarrow> 's" where
  "clear_attempts be now key s =
     foldl (\<lambda>s k. b_delete be ns_attempts k s) s (attempt_keys be now key s)"

text \<open>\<open>None\<close>: the stored lockout is not a number (TypeError).\<close>

definition is_locked :: "'s backend \<Rightarrow> time \<Rightarrow> string \<Rightarrow> 's \<Rightarrow> (bool \<times> 's) option" where
  "is_locked be now key s =
     (let (v, s) = b_get be now ns_lockouts key s
      in if v = PNone then Some (False, s)
         else (case num_of v of
                 None \<Rightarrow> None
               | Some locked_until \<Rightarrow>
                   if now < locked_until then Some (True, s)
                   else Some (False, clear_attempts be now key (b_delete be ns_lockouts key s))))"

definition get_lockout_remaining :: "'s backend \<Rightarrow> time \<Rightarrow> string \<Rightarrow> 's \<Rightarrow> (int \<times> 's) option" where
  "get_lockout_remaining be now key s =
     (let (v, s) = b_get be now ns_lockouts key s
      in map_option (\<lambda>locked_until. (max 0 (trunc (locked_until - now)), s))
           (num_of (py_or v (PInt 0))))"

definition record_key :: "float_io \<Rightarrow> string \<Rightarrow> time \<Rightarrow> string \<Rightarrow> string" where
  "record_key fl key now rnd = key @ [nul] @ show_float fl now @ [nul] @ rnd"

definition record_failure ::
    "'s backend \<Rightarrow> float_io \<Rightarrow> limiter \<Rightarrow> time \<Rightarrow> string \<Rightarrow> string \<Rightarrow> 's \<Rightarrow> 's" where
  "record_failure be fl lm now rnd key s =
     (let s = b_set_ttl be now ns_attempts (record_key fl key now rnd) (PBool True)
                (of_int (window_seconds lm)) s
      in if max_attempts lm \<le> int (attempt_count be fl lm now key s)
         then let (duration, s) = next_lockout be lm now key s
              in b_set_ttl be now ns_lockouts key (PFloat (now + duration))
                   (of_int (trunc duration + 60)) s
         else s)"

definition record_success :: "'s backend \<Rightarrow> time \<Rightarrow> string \<Rightarrow> 's \<Rightarrow> 's" where
  "record_success be now key s =
     b_delete be ns_strikes key (b_delete be ns_lockouts key (clear_attempts be now key s))"

definition remaining_attempts :: "'s backend \<Rightarrow> float_io \<Rightarrow> limiter \<Rightarrow> time \<Rightarrow> string \<Rightarrow> 's \<Rightarrow> int" where
  "remaining_attempts be fl lm now key s =
     max 0 (max_attempts lm - int (attempt_count be fl lm now key s))"

section \<open>The fixed-window request counter\<close>

text \<open>\<open>None\<close>: ZeroDivisionError.\<close>

definition check_rate_limit ::
    "'s backend \<Rightarrow> time \<Rightarrow> string \<Rightarrow> int \<Rightarrow> int \<Rightarrow> 's \<Rightarrow> (bool \<times> 's) option" where
  "check_rate_limit be now ip max_requests window s =
     (if window = 0 then None
      else
        let bucket = \<lfloor>now / of_int window\<rfloor>;
            (count, s) = b_increment be now ns_general (ip @ [nul] @ int_str bucket) 1
                           (Some (of_int window)) s
        in Some (count \<le> max_requests, s))"

section \<open>Runs of failures\<close>

text \<open>A failed login: the key it is counted against, its time, and the random suffix of its record.\<close>

type_synonym failure = "string \<times> time \<times> string"

fun fail_run :: "'s backend \<Rightarrow> float_io \<Rightarrow> limiter \<Rightarrow> failure list \<Rightarrow> 's \<Rightarrow> 's" where
  "fail_run be fl lm [] s = s"
| "fail_run be fl lm ((key, now, rnd) # fs) s =
     fail_run be fl lm fs (record_failure be fl lm now rnd key s)"

fun request_run ::
    "'s backend \<Rightarrow> string \<Rightarrow> int \<Rightarrow> int \<Rightarrow> time list \<Rightarrow> 's \<Rightarrow> (bool list \<times> 's) option" where
  "request_run be ip m w [] s = Some ([], s)"
| "request_run be ip m w (t # ts) s =
     (case check_rate_limit be t ip m w s of
        None \<Rightarrow> None
      | Some (ok, s) \<Rightarrow> map_option (\<lambda>(oks, s). (ok # oks, s)) (request_run be ip m w ts s))"

section \<open>What the limiter guarantees over any backend\<close>

definition strikes_at :: "entry option \<Rightarrow> bool" where
  "strikes_at en = (case en of None \<Rightarrow> True | Some (PInt n, _) \<Rightarrow> 0 \<le> n | _ \<Rightarrow> False)"

definition strike_count :: "time \<Rightarrow> entry option \<Rightarrow> nat" where
  "strike_count now en = (case live now en of Some (PInt n) \<Rightarrow> nat n | _ \<Rightarrow> 0)"

definition lockout_length :: "limiter \<Rightarrow> nat \<Rightarrow> time" where
  "lockout_length lm n =
     (if escalation lm
      then min (of_int (lockout_seconds lm) * 2 ^ n) (of_int (lockout_max_seconds lm))
      else of_int (lockout_seconds lm))"

lemma lockout_length_cap: "escalation lm \<Longrightarrow> lockout_length lm n \<le> of_int (lockout_max_seconds lm)"
  by (simp add: lockout_length_def)

lemma lockout_length_mono:
  assumes "0 \<le> lockout_seconds lm" and "m \<le> n"
  shows "lockout_length lm m \<le> lockout_length lm n"
proof -
  have "(2::rat) ^ m \<le> 2 ^ n" using assms(2) by (simp add: power_increasing)
  then have "of_int (lockout_seconds lm) * (2::rat) ^ m \<le> of_int (lockout_seconds lm) * 2 ^ n"
    using assms(1) by (simp add: mult_left_mono)
  then show ?thesis by (auto simp: lockout_length_def min_def)
qed

lemma lockout_length_nonneg:
  "0 \<le> lockout_seconds lm \<Longrightarrow> 0 \<le> lockout_max_seconds lm \<Longrightarrow> 0 \<le> lockout_length lm n"
  by (simp add: lockout_length_def)

context kv_store
begin

lemma strikes_read:
  "strikes_at (look s (ns_strikes, key)) \<Longrightarrow>
   int_of (py_or (fst (b_get be now ns_strikes key s)) (PInt 0)) =
     Some (int (strike_count now (look s (ns_strikes, key))))"
  by (auto simp: get_val strikes_at_def strike_count_def live_def val_or_none_def py_or_def int_of_def
      split: option.splits pyval.splits)

lemma next_lockout_length:
  assumes "strikes_at (look s (ns_strikes, key))"
  shows "fst (next_lockout be lm now key s) =
    lockout_length lm (strike_count now (look s (ns_strikes, key)))"
proof (cases "escalation lm")
  case True
  from assms have "int_of (py_or (fst (b_get be now ns_strikes key s)) (PInt 0)) =
      Some (int (strike_count now (look s (ns_strikes, key))))"
    by (rule strikes_read)
  with True show ?thesis
    by (simp add: next_lockout_def lockout_length_def two_pow_def Let_def case_prod_unfold)
qed (simp add: next_lockout_def lockout_length_def)

lemma next_lockout_other:
  "fst x \<noteq> ns_strikes \<Longrightarrow> look (snd (next_lockout be lm now key s)) x = look s x"
  by (cases x) (simp add: next_lockout_def Let_def case_prod_unfold set_ttl_look get_other)

lemma next_lockout_wf: "wf s \<Longrightarrow> wf (snd (next_lockout be lm now key s))"
  by (simp add: next_lockout_def Let_def case_prod_unfold wf_keep)

text \<open>The strike is remembered beyond the lockout it caused.\<close>

lemma next_lockout_strikes:
  assumes "strikes_at (look s (ns_strikes, key))" and "escalation lm"
  shows "look (snd (next_lockout be lm now key s)) (ns_strikes, key) =
    Some (PInt (int (strike_count now (look s (ns_strikes, key))) + 1),
      Some (now + of_int (trunc (fst (next_lockout be lm now key s)) + window_seconds lm + 60)))"
proof -
  from assms(1) have "int_of (py_or (fst (b_get be now ns_strikes key s)) (PInt 0)) =
      Some (int (strike_count now (look s (ns_strikes, key))))"
    by (rule strikes_read)
  with assms(2) show ?thesis
    by (simp add: next_lockout_def Let_def case_prod_unfold set_ttl_look)
qed

end

context scan_store
begin

lemma clear_attempts_look:
  "look (clear_attempts be now key s) x =
     (if fst x = ns_attempts \<and> snd x \<in> set (attempt_keys be now key s) then None else look s x)"
  by (simp add: clear_attempts_def delete_all_look)

lemma clear_attempts_wf: "wf s \<Longrightarrow> wf (clear_attempts be now key s)"
  by (simp add: clear_attempts_def delete_all_wf)

lemma record_failure_wf: "wf s \<Longrightarrow> wf (record_failure be fl lm now rnd key s)"
  by (simp add: record_failure_def Let_def case_prod_unfold wf_keep next_lockout_wf)

lemma record_failure_attempts:
  "look (record_failure be fl lm now rnd key s) (ns_attempts, x) =
     (if x = record_key fl key now rnd
      then Some (PBool True, Some (now + of_int (window_seconds lm)))
      else look s (ns_attempts, x))"
  by (simp add: record_failure_def Let_def case_prod_unfold set_ttl_look next_lockout_other)

lemma record_failure_strikes:
  assumes "strikes_at (look s (ns_strikes, x))"
  shows "strikes_at (look (record_failure be fl lm now rnd key s) (ns_strikes, x))"
proof -
  define s1 where "s1 = b_set_ttl be now ns_attempts (record_key fl key now rnd) (PBool True)
                (of_int (window_seconds lm)) s"
  have s1: "look s1 (ns_strikes, y) = look s (ns_strikes, y)" for y
    by (simp add: s1_def set_ttl_look)
  have "strikes_at (look (snd (next_lockout be lm now key s1)) (ns_strikes, x))"
  proof (cases "escalation lm \<and> x = key")
    case True
    with assms s1 show ?thesis by (simp add: next_lockout_strikes strikes_at_def [of "Some _"])
  next
    case False
    with assms s1 show ?thesis
      by (auto simp: next_lockout_def Let_def case_prod_unfold set_ttl_look get_other)
  qed
  with assms s1 show ?thesis
    by (simp add: record_failure_def s1_def [symmetric] Let_def case_prod_unfold set_ttl_look)
qed

text \<open>
  A failure that reaches the limit locks its key for exactly the length of the lockout; with
  escalation the strike is counted, and remembered beyond the lockout and the window.
\<close>

lemma record_failure_locks:
  assumes count: "max_attempts lm \<le> int (attempt_count be fl lm now key
      (b_set_ttl be now ns_attempts (record_key fl key now rnd) (PBool True)
         (of_int (window_seconds lm)) s))"
    and strikes: "strikes_at (look s (ns_strikes, key))"
    and d: "d = lockout_length lm (strike_count now (look s (ns_strikes, key)))"
  shows "map_option fst (is_locked be t key (record_failure be fl lm now rnd key s)) = Some (t < now + d)"
    and "escalation lm \<Longrightarrow> look (record_failure be fl lm now rnd key s) (ns_strikes, key) =
      Some (PInt (int (strike_count now (look s (ns_strikes, key))) + 1),
            Some (now + of_int (trunc d + window_seconds lm + 60)))"
proof -
  define s1 where "s1 = b_set_ttl be now ns_attempts (record_key fl key now rnd) (PBool True)
                (of_int (window_seconds lm)) s"
  have same: "look s1 (ns_strikes, key) = look s (ns_strikes, key)"
    by (simp add: s1_def set_ttl_look)
  with strikes have d1: "fst (next_lockout be lm now key s1) = d"
    by (simp add: next_lockout_length d)
  have eq: "record_failure be fl lm now rnd key s =
      b_set_ttl be now ns_lockouts key (PFloat (now + d)) (of_int (trunc d + 60))
        (snd (next_lockout be lm now key s1))"
    using count d1 by (simp add: record_failure_def s1_def [symmetric] Let_def case_prod_unfold)
  show "map_option fst (is_locked be t key (record_failure be fl lm now rnd key s)) = Some (t < now + d)"
  proof (cases "t \<le> now + of_int (trunc d + 60)")
    case True
    then show ?thesis
      by (simp add: is_locked_def eq get_after_set_ttl Let_def case_prod_unfold)
  next
    case False
    then have "\<not> t < now + d" using less_trunc_plus_one [of d] by simp
    with False show ?thesis
      by (simp add: is_locked_def eq get_val set_ttl_look live_def expired_def val_or_none_def
          Let_def case_prod_unfold)
  qed
  show "look (record_failure be fl lm now rnd key s) (ns_strikes, key) =
      Some (PInt (int (strike_count now (look s (ns_strikes, key))) + 1),
            Some (now + of_int (trunc d + window_seconds lm + 60)))" if "escalation lm"
    using next_lockout_strikes [of s1 key lm now] strikes same that d1
    by (simp add: eq set_ttl_look)
qed

lemma attempts_counted:
  assumes "wf s" and "distinct rks"
    and "\<And>r. r \<in> set rks \<Longrightarrow> live now (look s (ns_attempts, r)) \<noteq> None \<and>
           prefix (key @ [nul]) r \<and> in_window fl lm now r"
  shows "length rks \<le> attempt_count be fl lm now key s"
proof -
  have "set rks \<subseteq> set (filter (in_window fl lm now) (attempt_keys be now key s))"
    using assms(1,3) by (auto simp: attempt_keys_def scan map_mono_prefix simp del: map_append)
  then have "card (set rks) \<le> card (set (filter (in_window fl lm now) (attempt_keys be now key s)))"
    by (intro card_mono) auto
  moreover have "distinct (filter (in_window fl lm now) (attempt_keys be now key s))"
    using assms(1) by (simp add: attempt_keys_def scan_distinct)
  ultimately show ?thesis
    using assms(2) by (simp add: attempt_count_def distinct_card [symmetric])
qed

lemma fail_run_keeps:
  assumes "live t (look s (ns_attempts, x)) \<noteq> None"
    and "\<forall>(k, ts, r) \<in> set fs. t \<le> ts + of_int (window_seconds lm)"
  shows "live t (look (fail_run be fl lm fs s) (ns_attempts, x)) \<noteq> None"
  using assms
proof (induction fs arbitrary: s)
  case (Cons f fs)
  obtain k ts r where f: "f = (k, ts, r)" by (cases f)
  have "live t (look (record_failure be fl lm ts r k s) (ns_attempts, x)) \<noteq> None"
    using Cons.prems by (auto simp: f record_failure_attempts live_def expired_def)
  with Cons show ?case by (simp add: f)
qed simp

lemma fail_run_live:
  assumes "\<forall>(k, ts, r) \<in> set fs. t \<le> ts + of_int (window_seconds lm)" and "(k, ts, r) \<in> set fs"
  shows "live t (look (fail_run be fl lm fs s) (ns_attempts, record_key fl k ts r)) \<noteq> None"
  using assms
proof (induction fs arbitrary: s)
  case (Cons f fs)
  show ?case
  proof (cases "f = (k, ts, r)")
    case True
    with Cons.prems have "live t (look (record_failure be fl lm ts r k s)
        (ns_attempts, record_key fl k ts r)) \<noteq> None"
      by (auto simp: record_failure_attempts live_def expired_def)
    with Cons.prems True show ?thesis by (simp add: fail_run_keeps)
  next
    case False
    with Cons.prems have "(k, ts, r) \<in> set fs" by auto
    with Cons show ?thesis by (cases f) fastforce
  qed
qed simp

lemma fail_run_inv:
  "wf s \<Longrightarrow> wf (fail_run be fl lm fs s)"
  "strikes_at (look s (ns_strikes, x)) \<Longrightarrow> strikes_at (look (fail_run be fl lm fs s) (ns_strikes, x))"
  by (induction fs arbitrary: s) (auto simp: record_failure_wf record_failure_strikes)

lemma fail_run_snoc:
  "fail_run be fl lm (fs @ [(k, t, r)]) s = record_failure be fl lm t r k (fail_run be fl lm fs s)"
  by (induction fs arbitrary: s) auto

lemma in_window_record:
  assumes "nul \<notin> set key" and "float_io_ok fl" and "now - of_int (window_seconds lm) < ts"
  shows "in_window fl lm now (record_key fl key ts r)"
proof -
  have "nul \<notin> set (show_float fl ts)" "read_float fl (show_float fl ts) = Some ts"
    using assms(2) by (auto simp: float_io_ok_def)
  with assms show ?thesis
    by (simp add: in_window_def record_key_def split_all_append)
qed

text \<open>
  Brute force: however failures for other keys interleave, the failure that brings the records of a
  key inside the window up to the limit locks that key for at least the base lockout.
\<close>

lemma failures_lock:
  assumes wf: "wf s" and strikes: "strikes_at (look s (ns_strikes, key))"
    and key: "nul \<notin> set key" and io: "float_io_ok fl"
    and secs: "0 \<le> lockout_seconds lm"
    and times: "\<forall>(k, ts, r) \<in> set fs. now - of_int (window_seconds lm) < ts"
    and win: "0 < window_seconds lm"
    and own: "rks = map (\<lambda>(k, ts, r). record_key fl k ts r)
                (filter (\<lambda>f. fst f = key) (fs @ [(key, now, rnd)]))"
    and dist: "distinct rks" and many: "max_attempts lm \<le> int (length rks)"
    and t: "t < now + lockout_length lm 0"
  shows "map_option fst (is_locked be t key (fail_run be fl lm (fs @ [(key, now, rnd)]) s)) = Some True"
proof -
  define s1 where "s1 = fail_run be fl lm fs s"
  define s2 where "s2 = b_set_ttl be now ns_attempts (record_key fl key now rnd) (PBool True)
                (of_int (window_seconds lm)) s1"
  have wf2: "wf s2" using wf by (simp add: s2_def s1_def wf_keep fail_run_inv)
  have good: "live now (look s2 (ns_attempts, r)) \<noteq> None \<and> prefix (key @ [nul]) r \<and> in_window fl lm now r"
    if "r \<in> set rks" for r
  proof -
    from that own obtain ts x where r: "r = record_key fl key ts x"
      and mem: "(key, ts, x) \<in> set fs \<or> (ts, x) = (now, rnd)" by auto
    have late: "\<forall>(k, ts, r) \<in> set fs. now \<le> ts + of_int (window_seconds lm)"
      using times by fastforce
    have "live now (look s2 (ns_attempts, r)) \<noteq> None"
      using fail_run_live [OF late, of key ts x fl s] mem win
      by (auto simp: s2_def s1_def set_ttl_look r live_def [of _ "Some _"] expired_def)
    moreover have "now - of_int (window_seconds lm) < ts"
      using mem times win by auto
    ultimately show ?thesis
      using key io by (auto simp: r in_window_record) (simp add: record_key_def)
  qed
  have count: "max_attempts lm \<le> int (attempt_count be fl lm now key s2)"
    using attempts_counted [OF wf2 dist good] many by linarith
  have st: "strikes_at (look s1 (ns_strikes, key))"
    using strikes by (simp add: s1_def fail_run_inv)
  have "t < now + lockout_length lm (strike_count now (look s1 (ns_strikes, key)))"
    using t lockout_length_mono [OF secs, of 0] by (meson add_left_mono less_le_trans zero_le)
  with record_failure_locks (1) [OF _ st refl, of lm fl now rnd t] count show ?thesis
    by (simp add: fail_run_snoc s1_def [symmetric] s2_def)
qed

lemma success_clears:
  assumes "wf s" and "now \<le> t"
  shows "map_option fst (is_locked be t key (record_success be now key s)) = Some False"
    and "attempt_count be fl lm t key (record_success be now key s) = 0"
    and "look (record_success be now key s) (ns_strikes, key) = None"
proof -
  define s1 where "s1 = clear_attempts be now key s"
  have eq: "record_success be now key s = b_delete be ns_strikes key (b_delete be ns_lockouts key s1)"
    by (simp add: record_success_def s1_def)
  have wf1: "wf s1" using assms(1) by (simp add: s1_def clear_attempts_wf)
  have "attempt_keys be t key s1 = []"
    using scan_after_delete_all [OF assms] by (simp add: s1_def attempt_keys_def clear_attempts_def)
  moreover have "set (attempt_keys be t key (record_success be now key s)) = set (attempt_keys be t key s1)"
    using wf1 by (simp add: eq attempt_keys_def scan wf_keep delete_look)
  ultimately show "attempt_count be fl lm t key (record_success be now key s) = 0"
    by (simp add: attempt_count_def)
  show "look (record_success be now key s) (ns_strikes, key) = None"
    by (simp add: eq delete_look)
  show "map_option fst (is_locked be t key (record_success be now key s)) = Some False"
    by (simp add: is_locked_def eq get_val delete_look live_def val_or_none_def Let_def case_prod_unfold)
qed

text \<open>A key with a NUL in it is never counted: its records do not split where the reader expects.\<close>

lemma nul_key_uncounted:
  assumes "wf s" and "key @ [nul] = a @ nul # p @ nul # q" and "nul \<notin> set a" "nul \<notin> set p"
    and norm: "\<And>c. norm c = nul \<longleftrightarrow> c = nul"
    and unread: "\<And>p'. map norm p' = map norm p \<Longrightarrow> read_float fl p' = None"
  shows "attempt_count be fl lm now key s = 0"
proof -
  have split: "map (map norm) (split_all nul k) = split_all nul (map norm k)" for k
    by (induction k) (auto simp: norm split: list.splits)
  have nul: "norm nul = nul" using norm by blast
  have "\<not> in_window fl lm now k" if "k \<in> set (attempt_keys be now key s)" for k
  proof -
    from that assms(1) have "prefix (map norm (key @ [nul])) (map norm k)"
      by (simp add: attempt_keys_def scan del: map_append)
    then obtain y where "map norm k = map norm (a @ nul # p @ nul # q) @ y"
      unfolding assms(2) prefix_def by blast
    then have "map norm k = map norm a @ nul # map norm p @ nul # (map norm q @ y)"
      by (simp add: nul)
    moreover have "nul \<notin> set (map norm a)" "nul \<notin> set (map norm p)"
      using assms(3,4) by (metis norm imageE set_map)+
    ultimately have "split_all nul (map norm k) =
        map norm a # map norm p # split_all nul (map norm q @ y)"
      by (simp add: split_all_append)
    with split [of k] obtain a' p' r where "split_all nul k = a' # p' # r" "map norm p' = map norm p"
      by (auto simp: Cons_eq_map_conv)
    with unread show ?thesis by (simp add: in_window_def)
  qed
  then show ?thesis by (simp add: attempt_count_def filter_empty_conv)
qed

end

text \<open>Requests inside one window: the n-th is admitted exactly when n is within the budget.\<close>

context kv_store
begin

lemma request_run_count:
  assumes "w > 0" and "\<forall>t \<in> set ts. \<lfloor>t / of_int w\<rfloor> = b"
    and "\<forall>t \<in> set ts. live t (look s (ns_general, ip @ [nul] @ int_str b)) =
           (if c = 0 then None else Some (PInt (int c)))"
  shows "map_option fst (request_run be ip m w ts s) =
    Some (map (\<lambda>i. int (c + i) < m) [0..<length ts])"
  using assms(2,3)
proof (induction ts arbitrary: c s)
  case (Cons t ts)
  define k where "k = ip @ [nul] @ int_str b"
  define s' where "s' = snd (b_increment be t ns_general k 1 (Some (of_int w)) s)"
  have one: "fst (b_increment be t ns_general k 1 (Some (of_int w)) s) = int c + 1"
    using Cons.prems by (cases "c = 0") (auto simp: k_def incr_new incr_live)
  have step: "check_rate_limit be t ip m w s = Some (int c < m, s')"
    using Cons.prems assms(1) one
    by (simp add: check_rate_limit_def k_def [symmetric] s'_def Let_def case_prod_unfold)
      (simp add: k_def, linarith?)
  have near: "t' \<le> t + of_int w" if "t' \<in> set ts" for t'
  proof -
    have "\<lfloor>t' / of_int w\<rfloor> = b" "\<lfloor>t / of_int w\<rfloor> = b"
      using Cons.prems(1) that by auto
    then have "t' / of_int w < of_int b + 1" "of_int b \<le> t / of_int w"
      by linarith+
    then have "t' / of_int w < t / of_int w + 1" by linarith
    then have "t' / of_int w < (t + of_int w) / of_int w"
      using assms(1) by (simp add: add_divide_distrib)
    then show ?thesis using assms(1) by (simp add: divide_less_cancel)
  qed
  have "\<forall>t' \<in> set ts. live t' (look s' (ns_general, k)) = Some (PInt (int (Suc c)))"
    using near one by (auto simp: s'_def incr_look live_def expired_def not_less)
  then have "map_option fst (request_run be ip m w ts s') =
      Some (map (\<lambda>i. int (Suc c + i) < m) [0..<length ts])"
    using Cons.prems(1) by (intro Cons.IH) (auto simp: k_def)
  moreover have "map (\<lambda>i. int (c + i) < m) [0..<length (t # ts)] =
      (int c < m) # map (\<lambda>i. int (Suc c + i) < m) [0..<length ts]"
    by (simp add: upt_conv_Cons map_Suc_upt [symmetric] add.assoc add.left_commute
        comp_def del: upt_Suc)
  ultimately show ?case
    by (auto simp: step)
qed simp

end

text \<open>On sqlite the attempt records of a key are found up to ASCII case.\<close>

lemma sqlite_attempt_keys_case:
  "map ascii_lower key = map ascii_lower key' \<Longrightarrow>
   attempt_keys sqlite_backend now key s = attempt_keys sqlite_backend now key' s"
  by (simp add: attempt_keys_def sqlite_backend_def sql_list_keys_eq)

end
