(* ===== verification/EphemeralModel.thy ===== *)
theory EphemeralModel
  imports PyData "HOL-Library.Monad_Syntax" "HOL-Library.List_Lexorder" "HOL-Library.Char_ord"
begin

text \<open>
  The share-link session of security/ephemeral_model.py: permissions and their expansion, the session
  record with its operations and its stored form, expiry on two clocks, and the denial checks with
  the order in which the three entry points run them.  A \<open>host\<close> carries what a check reads from its
  surroundings: the two clocks, the deployment id, whether a maintenance drain is due, the address
  arithmetic of the ipaddress module and the public fingerprint of a token.
\<close>

section \<open>Permissions\<close>

definition all_permissions :: "string list" where
  "all_permissions =
     [''view'', ''control'', ''keyboard'', ''pointer'', ''clipboard'', ''clipboard_write'',
      ''clipboard_read'', ''file_transfer'', ''terminal'', ''terminal_view'', ''terminal_write'',
      ''audio'', ''gamepad'', ''admin'', ''admin_users'', ''admin_config'', ''admin_audit'']"

definition permission_expansion :: "string \<Rightarrow> string set" where
  "permission_expansion p =
     (if p = ''control'' then {''keyboard'', ''pointer''}
      else if p = ''clipboard'' then {''clipboard_write'', ''clipboard_read''}
      else if p = ''terminal'' then {''terminal_view'', ''terminal_write''}
      else if p = ''terminal_write'' then {''terminal_view''}
      else if p = ''admin'' then {''admin_users'', ''admin_config'', ''admin_audit''}
      else {})"

fun expand_loop :: "nat \<Rightarrow> string set \<Rightarrow> string set" where
  "expand_loop 0 out = out"
| "expand_loop (Suc n) out =
     (let grown = out \<union> (\<Union>p\<in>out. permission_expansion p)
      in if grown = out then out else expand_loop n grown)"

definition expand_permissions :: "string set \<Rightarrow> string set" where
  "expand_permissions ps = expand_loop (length all_permissions + 1) ps"

definition role_permissions :: "string \<Rightarrow> string set" where
  "role_permissions role =
     (if role = ''viewer'' then {''view''}
      else if role = ''support'' then {''view'', ''control'', ''clipboard'', ''audio''}
      else if role = ''operator'' then
        {''view'', ''control'', ''clipboard'', ''file_transfer'', ''terminal'', ''audio'', ''gamepad''}
      else if role = ''administrator'' then set all_permissions
      else {''view''})"

section \<open>Sessions\<close>

record esession =
  e_token :: string
  e_role :: string
  e_permissions :: "string set"
  e_expires_at :: time
  e_single_use :: bool
  e_view_only :: bool
  e_no_terminal :: bool
  e_allowed_ip :: "string option"
  e_created_by :: string
  e_created_at :: time
  e_created_monotonic :: time
  e_used :: bool
  e_revoked :: bool
  e_last_used_at :: "time option"
  e_last_used_ip :: "string option"
  e_last_connected_at :: "time option"
  e_last_disconnected_at :: "time option"
  e_connection_count :: int
  e_resource :: "string option"
  e_instance_id :: string
  e_nonce :: string
  e_max_uses :: int
  e_use_count :: int
  e_label :: "string option"

text \<open>What a session operation reads from outside the session.\<close>

record host =
  h_now :: time
  h_mono :: time
  h_instance :: string
  h_drained :: bool
  h_in_network :: "string \<Rightarrow> string \<Rightarrow> bool option"
  h_fingerprint :: "string \<Rightarrow> string"

text \<open>The truth of an optional string.\<close>

definition given :: "string option \<Rightarrow> bool" where
  "given x = (case x of None \<Rightarrow> False | Some s \<Rightarrow> s \<noteq> [])"

definition or_string :: "string option \<Rightarrow> string \<Rightarrow> string" where
  "or_string x d = (case x of None \<Rightarrow> d | Some s \<Rightarrow> if s \<noteq> [] then s else d)"

definition ip_matches :: "host \<Rightarrow> string \<Rightarrow> string option \<Rightarrow> bool" where
  "ip_matches h allowed client =
     (case client of
        None \<Rightarrow> False
      | Some c \<Rightarrow>
          if c = [] then False
          else if CHR ''/'' \<notin> set allowed then c = allowed
          else (case h_in_network h c allowed of None \<Rightarrow> False | Some b \<Rightarrow> b))"

text \<open>
  The deployment id: the process memo, else the stored file, else a fresh id that is stored.  A write
  that fails leaves the process with a second fresh id of its own.
\<close>

definition get_instance_id ::
    "string option \<Rightarrow> string option \<Rightarrow> bool \<Rightarrow> string \<Rightarrow> string \<Rightarrow>
     string \<times> string option \<times> string option" where
  "get_instance_id memo file writable fresh fresh2 =
     (case memo of
        Some i \<Rightarrow> (i, memo, file)
      | None \<Rightarrow>
          let saved = (case file of None \<Rightarrow> [] | Some c \<Rightarrow> py_strip c)
          in if saved \<noteq> [] then (saved, Some saved, file)
             else if writable
             then (''srv_'' @ fresh, Some (''srv_'' @ fresh), Some (''srv_'' @ fresh))
             else (''srv_'' @ fresh2, Some (''srv_'' @ fresh2), file))"

record session_args =
  a_token :: string
  a_role :: string
  a_permissions :: "string set"
  a_expires_at :: time
  a_single_use :: bool
  a_view_only :: bool
  a_no_terminal :: bool
  a_allowed_ip :: "string option"
  a_created_by :: string
  a_resource :: "string option"
  a_instance_id :: "string option"
  a_max_uses :: int
  a_label :: "string option"

definition new_session :: "host \<Rightarrow> string \<Rightarrow> session_args \<Rightarrow> esession" where
  "new_session h nonce a =
     \<lparr> e_token = a_token a, e_role = a_role a,
       e_permissions = (if a_permissions a \<noteq> {} then a_permissions a else role_permissions (a_role a)),
       e_expires_at = a_expires_at a, e_single_use = a_single_use a, e_view_only = a_view_only a,
       e_no_terminal = a_no_terminal a, e_allowed_ip = a_allowed_ip a,
       e_created_by = a_created_by a, e_created_at = h_now h, e_created_monotonic = h_mono h,
       e_used = False, e_revoked = False, e_last_used_at = None, e_last_used_ip = None,
       e_last_connected_at = None, e_last_disconnected_at = None, e_connection_count = 0,
       e_resource = a_resource a, e_instance_id = or_string (a_instance_id a) (h_instance h),
       e_nonce = nonce, e_max_uses = a_max_uses a, e_use_count = 0, e_label = a_label a \<rparr>"

section \<open>Permission checks\<close>

text \<open>\<open>resource:action\<close> names the permission \<open>resource_action\<close>, else \<open>action\<close>, else \<open>resource\<close>.\<close>

definition canonical_permission :: "string \<Rightarrow> string" where
  "canonical_permission perm =
     (case split_first (CHR '':'') perm of
        None \<Rightarrow> perm
      | Some (res, action) \<Rightarrow>
          let composite = res @ ''_'' @ action
          in if composite \<in> set all_permissions then composite
             else if action \<in> set all_permissions then action else res)"

definition resource_mismatch :: "esession \<Rightarrow> string option \<Rightarrow> bool" where
  "resource_mismatch s resource \<longleftrightarrow>
     given (e_resource s) \<and> given resource \<and> resource \<noteq> e_resource s"

definition has_permission :: "esession \<Rightarrow> string \<Rightarrow> string option \<Rightarrow> bool" where
  "has_permission s perm resource =
     (let perm = canonical_permission perm
      in if resource_mismatch s resource then False
         else if e_view_only s \<and> perm \<in> expand_permissions
           {''control'', ''clipboard'', ''file_transfer'', ''terminal'', ''gamepad''} then False
         else if e_no_terminal s \<and> perm \<in> expand_permissions {''terminal''} then False
         else perm \<in> expand_permissions (e_permissions s))"

section \<open>Life-cycle marks\<close>

definition mark_used :: "time \<Rightarrow> string option \<Rightarrow> esession \<Rightarrow> esession" where
  "mark_used now ip s =
     (let s = s\<lparr>e_used := True, e_use_count := e_use_count s + 1, e_last_used_at := Some now\<rparr>
      in if given ip then s\<lparr>e_last_used_ip := ip\<rparr> else s)"

definition note_connected :: "time \<Rightarrow> esession \<Rightarrow> esession" where
  "note_connected now s =
     s\<lparr>e_last_connected_at := Some now, e_connection_count := e_connection_count s + 1\<rparr>"

definition note_disconnected :: "time \<Rightarrow> esession \<Rightarrow> esession" where
  "note_disconnected now s = s\<lparr>e_last_disconnected_at := Some now\<rparr>"

definition revoke_mark :: "esession \<Rightarrow> esession" where
  "revoke_mark s = s\<lparr>e_revoked := True\<rparr>"

section \<open>Stored form\<close>

definition opt_str_val :: "string option \<Rightarrow> pyval" where
  "opt_str_val = case_option PNone PStr"

definition opt_time_val :: "time option \<Rightarrow> pyval" where
  "opt_time_val = case_option PNone PFloat"

definition to_dict :: "host \<Rightarrow> esession \<Rightarrow> (string \<times> pyval) list" where
  "to_dict h s =
     [(''token_id'', PStr (h_fingerprint h (e_token s))),
      (''role'', PStr (e_role s)),
      (''permissions'', PList (map PStr (sorted_list_of_set (e_permissions s)))),
      (''expires_at'', PFloat (e_expires_at s)),
      (''single_use'', PBool (e_single_use s)),
      (''view_only'', PBool (e_view_only s)),
      (''no_terminal'', PBool (e_no_terminal s)),
      (''allowed_ip'', opt_str_val (e_allowed_ip s)),
      (''created_by'', PStr (e_created_by s)),
      (''created_at'', PFloat (e_created_at s)),
      (''created_monotonic'', PFloat (e_created_monotonic s)),
      (''used'', PBool (e_used s)),
      (''revoked'', PBool (e_revoked s)),
      (''resource'', opt_str_val (e_resource s)),
      (''instance_id'', PStr (e_instance_id s)),
      (''max_uses'', PInt (e_max_uses s)),
      (''use_count'', PInt (e_use_count s)),
      (''last_used_at'', opt_time_val (e_last_used_at s)),
      (''last_used_ip'', opt_str_val (e_last_used_ip s)),
      (''last_connected_at'', opt_time_val (e_last_connected_at s)),
      (''last_disconnected_at'', opt_time_val (e_last_disconnected_at s)),
      (''connection_count'', PInt (e_connection_count s)),
      (''label'', opt_str_val (e_label s))]"

definition to_persist_dict :: "host \<Rightarrow> esession \<Rightarrow> (string \<times> pyval) list" where
  "to_persist_dict h s = to_dict h s @ [(''token'', PStr (e_token s))]"

text \<open>
  Reading a stored session.  \<open>None\<close> is KeyError, TypeError or ValueError: the caller skips the entry.
  Text fields hold text or null, as the program writes them.
\<close>

definition str_of :: "pyval \<Rightarrow> string option" where
  "str_of v = (case v of PStr s \<Rightarrow> Some s | _ \<Rightarrow> None)"

definition opt_str_of :: "pyval \<Rightarrow> string option option" where
  "opt_str_of v = (case v of PNone \<Rightarrow> Some None | PStr s \<Rightarrow> Some (Some s) | _ \<Rightarrow> None)"

definition opt_time_of :: "float_io \<Rightarrow> pyval \<Rightarrow> time option option" where
  "opt_time_of fl v = (if truthy v then map_option Some (float_of (read_float fl) v) else Some None)"

fun strs_of :: "pyval list \<Rightarrow> string list option" where
  "strs_of [] = Some []"
| "strs_of (PStr s # vs) = map_option (Cons s) (strs_of vs)"
| "strs_of (_ # vs) = None"

text \<open>\<open>set(v)\<close>: of a list its elements, of a string its characters, of a dictionary its keys.\<close>

definition perms_of :: "pyval \<Rightarrow> string set option" where
  "perms_of v =
     (case v of
        PList vs \<Rightarrow> map_option set (strs_of vs)
      | PStr s \<Rightarrow> Some (set (map (\<lambda>c. [c]) s))
      | PDict kvs \<Rightarrow> Some (set (map fst kvs))
      | _ \<Rightarrow> None)"

definition from_dict :: "float_io \<Rightarrow> host \<Rightarrow> string \<Rightarrow> (string \<times> pyval) list \<Rightarrow> esession option" where
  "from_dict fl h nonce d = do {
     tokv \<leftarrow> map_of d ''token'';
     token \<leftarrow> str_of tokv;
     role \<leftarrow> str_of (py_get ''role'' (PStr ''viewer'') d);
     perms \<leftarrow> perms_of (py_get ''permissions'' (PList []) d);
     expires \<leftarrow> float_of (read_float fl) (py_get ''expires_at'' (PInt 0) d);
     allowed \<leftarrow> opt_str_of (py_get ''allowed_ip'' PNone d);
     by \<leftarrow> str_of (py_get ''created_by'' (PStr ''admin'') d);
     resource \<leftarrow> opt_str_of (py_get ''resource'' PNone d);
     inst \<leftarrow> opt_str_of (py_get ''instance_id'' PNone d);
     uses \<leftarrow> int_of (py_get ''max_uses'' (PInt 0) d);
     label \<leftarrow> opt_str_of (py_get ''label'' PNone d);
     created \<leftarrow> float_of (read_float fl) (py_get ''created_at'' (PFloat (h_now h)) d);
     mono \<leftarrow> float_of (read_float fl) (py_get ''created_monotonic'' (PInt 0) d);
     used_n \<leftarrow> int_of (py_get ''use_count'' (PInt 0) d);
     last_at \<leftarrow> opt_time_of fl (py_get ''last_used_at'' PNone d);
     last_ip \<leftarrow> opt_str_of (py_get ''last_used_ip'' PNone d);
     conn_at \<leftarrow> opt_time_of fl (py_get ''last_connected_at'' PNone d);
     disc_at \<leftarrow> opt_time_of fl (py_get ''last_disconnected_at'' PNone d);
     conns \<leftarrow> int_of (py_get ''connection_count'' (PInt 0) d);
     Some ((new_session h nonce
       \<lparr> a_token = token, a_role = role, a_permissions = perms, a_expires_at = expires,
         a_single_use = truthy (py_get ''single_use'' (PBool False) d),
         a_view_only = truthy (py_get ''view_only'' (PBool False) d),
         a_no_terminal = truthy (py_get ''no_terminal'' (PBool False) d),
         a_allowed_ip = allowed, a_created_by = by, a_resource = resource,
         a_instance_id = inst, a_max_uses = uses, a_label = label \<rparr>)
       \<lparr> e_created_at := created, e_created_monotonic := mono,
         e_used := truthy (py_get ''used'' (PBool False) d),
         e_revoked := truthy (py_get ''revoked'' (PBool False) d),
         e_use_count := used_n, e_last_used_at := last_at, e_last_used_ip := last_ip,
         e_last_connected_at := conn_at, e_last_disconnected_at := disc_at,
         e_connection_count := conns \<rparr>)
   }"

section \<open>Expiry and denial checks\<close>

definition session_expired :: "host \<Rightarrow> esession \<Rightarrow> bool" where
  "session_expired h s =
     (if e_expires_at s \<le> h_now h then True
      else if e_created_monotonic s = 0 then False
      else
        let ttl = e_expires_at s - e_created_at s
        in if ttl \<le> 0 then True
           else
             let elapsed = h_mono h - e_created_monotonic s
             in 0 \<le> elapsed \<and> ttl \<le> elapsed)"

datatype check =
  CRevoked | CUsed | CBudget | CExpired | CIp | CResource | CForeign | CDrained

definition run_check :: "host \<Rightarrow> check \<Rightarrow> esession \<Rightarrow> string option \<Rightarrow> string option \<Rightarrow> string option" where
  "run_check h c s ip resource =
     (case c of
        CRevoked \<Rightarrow> if e_revoked s then Some ''revoked'' else None
      | CUsed \<Rightarrow> if e_single_use s \<and> e_used s then Some ''single-use already consumed'' else None
      | CBudget \<Rightarrow> if 0 < e_max_uses s \<and> e_max_uses s \<le> e_use_count s
                   then Some ''use budget exhausted'' else None
      | CExpired \<Rightarrow> if session_expired h s then Some ''expired'' else None
      | CIp \<Rightarrow>
          (case e_allowed_ip s of
             None \<Rightarrow> None
           | Some a \<Rightarrow>
               if a = [] \<or> a = ''first-observed'' then None
               else if ip_matches h a ip then None else Some ''ip binding'')
      | CResource \<Rightarrow> if resource_mismatch s resource then Some ''resource binding'' else None
      | CForeign \<Rightarrow>
          if e_instance_id s \<noteq> [] \<and> e_instance_id s \<noteq> h_instance h
          then Some ''foreign deployment'' else None
      | CDrained \<Rightarrow> if h_drained h then Some ''maintenance drain'' else None)"

definition session_validity_checks :: "check list" where
  "session_validity_checks =
     [CRevoked, CUsed, CBudget, CExpired, CDrained, CIp, CResource, CForeign]"

definition link_denial_checks :: "check list" where
  "link_denial_checks = [CRevoked, CExpired, CUsed, CBudget, CForeign]"

definition request_denial_checks :: "check list" where
  "request_denial_checks = [CRevoked, CExpired, CDrained, CIp, CResource, CForeign]"

fun denial_reason ::
    "host \<Rightarrow> esession \<Rightarrow> check list \<Rightarrow> string option \<Rightarrow> string option \<Rightarrow> string option" where
  "denial_reason h s [] ip resource = None"
| "denial_reason h s (c # cs) ip resource =
     (case run_check h c s ip resource of
        Some reason \<Rightarrow> Some reason
      | None \<Rightarrow> denial_reason h s cs ip resource)"

definition is_valid :: "host \<Rightarrow> esession \<Rightarrow> string option \<Rightarrow> string option \<Rightarrow> bool" where
  "is_valid h s ip resource \<longleftrightarrow> denial_reason h s session_validity_checks ip resource = None"

section \<open>Expansion is the closure under implication\<close>

definition implies :: "(string \<times> string) set" where
  "implies = {(p, q). q \<in> permission_expansion p}"

definition expansion_step :: "string set \<Rightarrow> string set" where
  "expansion_step ps = ps \<union> (\<Union>p\<in>ps. permission_expansion p)"

lemma permission_expansion_trans:
  "q \<in> permission_expansion p \<Longrightarrow> r \<in> permission_expansion q \<Longrightarrow> r \<in> permission_expansion p"
  by (simp add: permission_expansion_def split: if_splits)

lemma expansion_step_closed: "expansion_step (expansion_step ps) = expansion_step ps"
  using permission_expansion_trans by (fastforce simp: expansion_step_def)

lemma expand_loop_closed: "expansion_step out = out \<Longrightarrow> expand_loop n out = out"
  by (cases n) (simp_all add: expansion_step_def)

lemma expand_loop_two: "expand_loop (Suc (Suc n)) ps = expansion_step ps"
proof -
  have "expand_loop (Suc n) (expansion_step ps) = expansion_step ps"
    by (rule expand_loop_closed) (rule expansion_step_closed)
  then show ?thesis
    by (simp only: expand_loop.simps (2) [of "Suc n"] expansion_step_def [symmetric] Let_def) simp
qed

lemma expand_permissions_eq: "expand_permissions ps = expansion_step ps"
proof -
  have "length all_permissions + 1 = Suc (Suc 16)" by (simp add: all_permissions_def)
  then show ?thesis by (simp only: expand_permissions_def expand_loop_two)
qed

lemma expand_permissions_Un: "expand_permissions (A \<union> B) = expand_permissions A \<union> expand_permissions B"
  by (auto simp: expand_permissions_eq expansion_step_def)

lemma expand_permissions_mono: "A \<subseteq> B \<Longrightarrow> expand_permissions A \<subseteq> expand_permissions B"
  by (auto simp: expand_permissions_eq expansion_step_def)

lemma expand_permissions_idem: "expand_permissions (expand_permissions ps) = expand_permissions ps"
  by (simp add: expand_permissions_eq expansion_step_closed)

lemma expand_permissions_closure: "expand_permissions ps = implies\<^sup>* `` ps"
proof
  show "expand_permissions ps \<subseteq> implies\<^sup>* `` ps"
    by (auto simp: expand_permissions_eq expansion_step_def implies_def)
  have "q \<in> expand_permissions ps" if "(p, q) \<in> implies\<^sup>*" "p \<in> ps" for p q
    using that
  proof (induction rule: rtrancl_induct)
    case base
    then show ?case by (simp add: expand_permissions_eq expansion_step_def)
  next
    case (step q r)
    then have "r \<in> expansion_step (expand_permissions ps)"
      by (auto simp: expansion_step_def implies_def)
    then show ?case by (simp add: expand_permissions_eq expansion_step_closed)
  qed
  then show "implies\<^sup>* `` ps \<subseteq> expand_permissions ps" by blast
qed

lemma view_only_blocks:
  "expand_permissions {''control'', ''clipboard'', ''file_transfer'', ''terminal'', ''gamepad''} =
     {''control'', ''keyboard'', ''pointer'', ''clipboard'', ''clipboard_write'', ''clipboard_read'',
      ''file_transfer'', ''terminal'', ''terminal_view'', ''terminal_write'', ''gamepad''}"
  unfolding expand_permissions_eq expansion_step_def permission_expansion_def by auto

lemma no_terminal_blocks:
  "expand_permissions {''terminal''} = {''terminal'', ''terminal_view'', ''terminal_write''}"
  unfolding expand_permissions_eq expansion_step_def permission_expansion_def by auto

text \<open>What a session grants, written out.\<close>

definition granted :: "esession \<Rightarrow> string set" where
  "granted s =
     implies\<^sup>* `` e_permissions s
     - (if e_view_only s
        then {''control'', ''keyboard'', ''pointer'', ''clipboard'', ''clipboard_write'',
              ''clipboard_read'', ''file_transfer'', ''terminal'', ''terminal_view'',
              ''terminal_write'', ''gamepad''} else {})
     - (if e_no_terminal s then {''terminal'', ''terminal_view'', ''terminal_write''} else {})"

lemma gated_iff:
  "(if m then False else if v \<and> c \<in> B then False else if n \<and> c \<in> T then False else c \<in> P) \<longleftrightarrow>
     c \<in> P - (if v then B else {}) - (if n then T else {}) \<and> \<not> m"
  by auto

lemma has_permission_granted:
  "has_permission s perm resource \<longleftrightarrow>
     canonical_permission perm \<in> granted s \<and> \<not> resource_mismatch s resource"
  unfolding has_permission_def granted_def view_only_blocks no_terminal_blocks
    expand_permissions_closure [of "e_permissions s"] Let_def by (rule gated_iff)

section \<open>Which sessions pass the checks\<close>

lemma denial_reason_None:
  "denial_reason h s cs ip resource = None \<longleftrightarrow> (\<forall>c \<in> set cs. run_check h c s ip resource = None)"
  by (induction cs) (auto split: option.splits)

lemma denial_reason_first:
  "denial_reason h s (cs @ ds) ip resource =
     (case denial_reason h s cs ip resource of
        None \<Rightarrow> denial_reason h s ds ip resource | Some reason \<Rightarrow> Some reason)"
  by (induction cs) (auto split: option.splits)

text \<open>The address bound to the session accepts the caller.\<close>

definition ip_bound :: "host \<Rightarrow> esession \<Rightarrow> string option \<Rightarrow> bool" where
  "ip_bound h s ip \<longleftrightarrow>
     (\<forall>a. e_allowed_ip s = Some a \<longrightarrow> a = [] \<or> a = ''first-observed'' \<or> ip_matches h a ip)"

lemma run_check_None:
  "run_check h CRevoked s ip r = None \<longleftrightarrow> \<not> e_revoked s"
  "run_check h CUsed s ip r = None \<longleftrightarrow> \<not> (e_single_use s \<and> e_used s)"
  "run_check h CBudget s ip r = None \<longleftrightarrow> (e_max_uses s \<le> 0 \<or> e_use_count s < e_max_uses s)"
  "run_check h CExpired s ip r = None \<longleftrightarrow> \<not> session_expired h s"
  "run_check h CDrained s ip r = None \<longleftrightarrow> \<not> h_drained h"
  "run_check h CIp s ip r = None \<longleftrightarrow> ip_bound h s ip"
  "run_check h CResource s ip r = None \<longleftrightarrow> \<not> resource_mismatch s r"
  "run_check h CForeign s ip r = None \<longleftrightarrow> e_instance_id s = [] \<or> e_instance_id s = h_instance h"
  by (auto simp: run_check_def ip_bound_def split: option.splits)

lemma is_valid_iff:
  "is_valid h s ip r \<longleftrightarrow>
     \<not> e_revoked s \<and> \<not> (e_single_use s \<and> e_used s) \<and>
     (e_max_uses s \<le> 0 \<or> e_use_count s < e_max_uses s) \<and> \<not> session_expired h s \<and>
     \<not> h_drained h \<and> ip_bound h s ip \<and> \<not> resource_mismatch s r \<and>
     (e_instance_id s = [] \<or> e_instance_id s = h_instance h)"
  unfolding is_valid_def denial_reason_None session_validity_checks_def
  by (simp add: run_check_None)

lemma request_allowed_iff:
  "denial_reason h s request_denial_checks ip r = None \<longleftrightarrow>
     \<not> e_revoked s \<and> \<not> session_expired h s \<and> \<not> h_drained h \<and> ip_bound h s ip \<and>
     \<not> resource_mismatch s r \<and> (e_instance_id s = [] \<or> e_instance_id s = h_instance h)"
  unfolding denial_reason_None request_denial_checks_def by (simp add: run_check_None)

lemma link_allowed_iff:
  "denial_reason h s link_denial_checks ip r = None \<longleftrightarrow>
     \<not> e_revoked s \<and> \<not> session_expired h s \<and> \<not> (e_single_use s \<and> e_used s) \<and>
     (e_max_uses s \<le> 0 \<or> e_use_count s < e_max_uses s) \<and>
     (e_instance_id s = [] \<or> e_instance_id s = h_instance h)"
  unfolding denial_reason_None link_denial_checks_def by (simp add: run_check_None)

section \<open>Expiry\<close>

text \<open>
  Once the lifetime has passed on the monotonic clock, no setting of the wall clock revives the
  session; without a monotonic stamp only the wall clock counts.
\<close>

lemma expired_on_monotonic:
  assumes "e_created_monotonic s \<noteq> 0" and "e_created_at s < e_expires_at s"
    and "e_created_monotonic s + (e_expires_at s - e_created_at s) \<le> h_mono h"
  shows "session_expired h s"
  using assms by (simp add: session_expired_def Let_def)

lemma expired_later:
  assumes "session_expired h s" and "h_now h \<le> h_now h'" and "h_mono h \<le> h_mono h'"
  shows "session_expired h' s"
  using assms by (auto simp: session_expired_def Let_def split: if_splits)

lemma wall_clock_only:
  "e_created_monotonic s = 0 \<Longrightarrow> session_expired h s \<longleftrightarrow> e_expires_at s \<le> h_now h"
  by (simp add: session_expired_def)

section \<open>The stored form\<close>

text \<open>Sessions as the program builds them; a time of zero would be read back as absent.\<close>

definition storable :: "esession \<Rightarrow> bool" where
  "storable s \<longleftrightarrow>
     finite (e_permissions s) \<and> e_permissions s \<noteq> {} \<and> e_instance_id s \<noteq> [] \<and>
     e_last_used_at s \<noteq> Some 0 \<and> e_last_connected_at s \<noteq> Some 0 \<and> e_last_disconnected_at s \<noteq> Some 0"

lemma strs_of_map [simp]: "strs_of (map PStr xs) = Some xs"
  by (induction xs) simp_all

lemma opt_str_of_val [simp]: "opt_str_of (opt_str_val x) = Some x"
  by (cases x) (simp_all add: opt_str_of_def opt_str_val_def)

lemma opt_time_of_val [simp]: "x \<noteq> Some 0 \<Longrightarrow> opt_time_of fl (opt_time_val x) = Some x"
  by (cases x) (simp_all add: opt_time_of_def opt_time_val_def float_of_def)

lemma scalar_reads [simp]:
  "str_of (PStr t) = Some t" "opt_str_of (PStr t) = Some (Some t)" "float_of parse (PFloat x) = Some x" "int_of (PInt n) = Some n"
  by (simp_all add: str_of_def opt_str_of_def float_of_def int_of_def)

lemma perms_of_sorted [simp]:
  "finite ps \<Longrightarrow> perms_of (PList (map PStr (sorted_list_of_set ps))) = Some ps"
  by (simp add: perms_of_def)

lemma from_dict_persist:
  assumes "storable s"
  shows "from_dict fl h nonce (to_persist_dict g s) = Some (s\<lparr>e_nonce := nonce\<rparr>)"
  using assms
  by (cases s) (simp add: from_dict_def to_persist_dict_def to_dict_def py_get_def storable_def
      new_session_def or_string_def)

lemma new_session_storable:
  assumes "finite (a_permissions a)" and "h_instance h \<noteq> []"
  shows "storable (new_session h nonce a)"
proof -
  have "role_permissions r \<noteq> {} \<and> finite (role_permissions r)" for r
    by (simp add: role_permissions_def all_permissions_def)
  then show ?thesis
    using assms by (auto simp: storable_def new_session_def or_string_def split: option.splits)
qed

lemma storable_marks:
  "storable s \<Longrightarrow> now \<noteq> 0 \<Longrightarrow> storable (mark_used now ip s)"
  "storable s \<Longrightarrow> now \<noteq> 0 \<Longrightarrow> storable (note_connected now s)"
  "storable s \<Longrightarrow> now \<noteq> 0 \<Longrightarrow> storable (note_disconnected now s)"
  "storable s \<Longrightarrow> storable (revoke_mark s)"
  by (simp_all add: storable_def mark_used_def note_connected_def note_disconnected_def
      revoke_mark_def Let_def)

end
