(* ===== verification/TokenSigning.thy ===== *)
theory TokenSigning
  imports PyData
begin

text \<open>
  The signed tokens of security/token_signing.py: \<open><type>:<payload>.<signature>\<close>.  The keyed hash is a
  parameter \<open>mac secret message\<close> that returns its hexadecimal digest; the accepted secrets are the
  current one followed by the retired ones that are still in their window.  The lemmas show the
  round trip, what an accepted token looks like, and that the type tag separates token kinds.
\<close>

type_synonym mac = "string \<Rightarrow> string \<Rightarrow> string"

abbreviation token_type_session :: string where "token_type_session \<equiv> ''session''"
abbreviation token_type_ephemeral :: string where "token_type_ephemeral \<equiv> ''ephemeral''"
abbreviation token_type_bearer :: string where "token_type_bearer \<equiv> ''bearer''"

text \<open>The current secret and the retired secrets.\<close>

record keyring =
  kr_current :: string
  kr_previous :: "string list"

definition get_verify_secrets :: "keyring \<Rightarrow> string list" where
  "get_verify_secrets kr = kr_current kr # kr_previous kr"

definition signed_material :: "string \<Rightarrow> string \<Rightarrow> string" where
  "signed_material typ payload = typ @ '':'' @ payload"

definition sign_token :: "mac \<Rightarrow> keyring \<Rightarrow> string \<Rightarrow> string \<Rightarrow> string" where
  "sign_token mac kr typ payload =
     typ @ '':'' @ payload @ ''.'' @ mac (kr_current kr) (signed_material typ payload)"

definition verify_token :: "mac \<Rightarrow> keyring \<Rightarrow> string \<Rightarrow> string \<Rightarrow> string option" where
  "verify_token mac kr typ token =
     (if token = [] \<or> CHR '':'' \<notin> set token \<or> CHR ''.'' \<notin> set token then None
      else (case split_first (CHR '':'') token of
              None \<Rightarrow> None
            | Some (tag, rest) \<Rightarrow>
                if tag \<noteq> typ then None
                else (case split_last (CHR ''.'') rest of
                        None \<Rightarrow> None
                      | Some (payload, sig) \<Rightarrow>
                          if \<exists>secret \<in> set (get_verify_secrets kr).
                               sig = mac secret (signed_material typ payload)
                          then Some payload else None)))"

text \<open>A hexadecimal digest has no dot.\<close>

definition hex_mac :: "mac \<Rightarrow> bool" where
  "hex_mac mac \<longleftrightarrow> (\<forall>k m. CHR ''.'' \<notin> set (mac k m))"

lemma verify_token_Some:
  "verify_token mac kr typ token = Some payload \<longleftrightarrow>
     CHR '':'' \<notin> set typ \<and>
     (\<exists>secret \<in> set (get_verify_secrets kr).
        CHR ''.'' \<notin> set (mac secret (signed_material typ payload)) \<and>
        token = typ @ '':'' @ payload @ ''.'' @ mac secret (signed_material typ payload))"
  (is "?l \<longleftrightarrow> ?r")
proof
  assume ?l
  then obtain tag rest sig secret where
    "split_first (CHR '':'') token = Some (tag, rest)" "tag = typ"
    "split_last (CHR ''.'') rest = Some (payload, sig)"
    "secret \<in> set (get_verify_secrets kr)" "sig = mac secret (signed_material typ payload)"
    by (auto simp: verify_token_def split: if_splits option.splits)
  then show ?r by (auto simp: split_first_Some split_last_Some)
next
  assume ?r
  then obtain secret where r: "CHR '':'' \<notin> set typ" "secret \<in> set (get_verify_secrets kr)"
    "CHR ''.'' \<notin> set (mac secret (signed_material typ payload))"
    "token = typ @ CHR '':'' # payload @ CHR ''.'' # mac secret (signed_material typ payload)"
    by auto
  then have "split_first (CHR '':'') token =
        Some (typ, payload @ CHR ''.'' # mac secret (signed_material typ payload))"
    "split_last (CHR ''.'') (payload @ CHR ''.'' # mac secret (signed_material typ payload)) =
        Some (payload, mac secret (signed_material typ payload))"
    by (simp_all add: split_first_append split_last_append)
  with r show ?l by (auto simp: verify_token_def)
qed

lemma verify_sign:
  assumes "hex_mac mac" and "CHR '':'' \<notin> set typ"
  shows "verify_token mac kr typ (sign_token mac kr typ payload) = Some payload"
  using assms by (auto simp: verify_token_Some sign_token_def hex_mac_def get_verify_secrets_def)

text \<open>A token signed before a key rotation verifies while its key is among the retired ones.\<close>

lemma verify_sign_retired:
  assumes "hex_mac mac" and "CHR '':'' \<notin> set typ"
    and "kr_current old \<in> set (get_verify_secrets kr)"
  shows "verify_token mac kr typ (sign_token mac old typ payload) = Some payload"
  using assms by (auto simp: verify_token_Some sign_token_def hex_mac_def)

lemma verify_other_type:
  assumes "verify_token mac kr typ token = Some payload" and "typ' \<noteq> typ"
  shows "verify_token mac' kr' typ' token = None"
proof (rule ccontr)
  assume "verify_token mac' kr' typ' token \<noteq> None"
  then obtain p where "verify_token mac' kr' typ' token = Some p" by auto
  then obtain y where y: "CHR '':'' \<notin> set typ'" "token = typ' @ CHR '':'' # y"
    by (auto simp: verify_token_Some)
  from assms(1) obtain x where "CHR '':'' \<notin> set typ" "token = typ @ CHR '':'' # x"
    by (auto simp: verify_token_Some)
  with y have "Some (typ', y) = Some (typ, x)"
    by (metis split_first_append)
  with assms(2) show False by simp
qed

end
