(* ===== verification/SessionStore.thy ===== *)
theory SessionStore
  imports EphemeralModel SharedState TokenSigning
begin

text \<open>
  The persistent session store of security/ephemeral_sessions.py (class SessionStore): a dictionary
  of sessions in memory, mirrored in one JSON file that several processes share, and revocation
  markers in the shared-state backend.  A \<open>store\<close> is what one process sees: its own dictionary and the
  file signature it last read, then the shared file and the shared backend state.  A file signature
  stands for (mtime, size, inode) and is fresh after every write.
\<close>

section \<open>State and environment\<close>

type_synonym json_file = "nat \<times> pyval option"   \<comment> \<open>signature; content, \<open>None\<close> when not readable as JSON\<close>

record 's store =
  st_sessions :: "(string \<times> esession) list"
  st_seen :: nat
  st_memo :: "string \<times> time"
  st_file :: "json_file option"
  st_state :: 's

type_synonym flag = "(string \<times> pyval) list"

text \<open>What one operation finds: clocks and deployment, keys, faults, flags, fresh randomness.\<close>

record senv =
  v_host :: host
  v_fl :: float_io
  v_mac :: mac
  v_keys :: keyring
  v_up :: bool                 \<comment> \<open>the shared-state backend answers\<close>
  v_strict :: bool             \<comment> \<open>SHARED_STATE_STRICT\<close>
  v_writable :: bool           \<comment> \<open>the session file can be replaced\<close>
  v_require_resource :: bool   \<comment> \<open>EPHEMERAL_REQUIRE_RESOURCE\<close>
  v_fresh :: string            \<comment> \<open>random text of this operation\<close>
  v_maint_env :: bool          \<comment> \<open>MAINTENANCE_MODE\<close>
  v_flag :: "flag option"      \<comment> \<open>maintenance.json when the operation reads it\<close>
  v_flag_lease :: "flag option" \<comment> \<open>... when it is read again under the drain lease\<close>
  v_flag_done :: "flag option"  \<comment> \<open>... and after the sweep\<close>
  v_boot :: "string option"

abbreviation v_now :: "senv \<Rightarrow> time" where "v_now env \<equiv> h_now (v_host env)"

abbreviation ns_eph_revoked :: string where "ns_eph_revoked \<equiv> ''ephemeral_revoked_sessions''"
abbreviation ns_consumed :: string where "ns_consumed \<equiv> ''ephemeral_consumed''"
abbreviation ns_uses :: string where "ns_uses \<equiv> ''ephemeral_uses''"

section \<open>Tokens of sessions\<close>

definition create_ephemeral_token :: "senv \<Rightarrow> esession \<Rightarrow> string" where
  "create_ephemeral_token env s =
     sign_token (v_mac env) (v_keys env) token_type_ephemeral
       (e_token s @ '':'' @ show_float (v_fl env) (e_expires_at s) @ '':'' @
        int_str (if e_single_use s then 1 else 0))"

text \<open>The internal token, the expiry and the single-use mark of a signed token.\<close>

definition verify_ephemeral_token :: "senv \<Rightarrow> string \<Rightarrow> (string \<times> time \<times> bool) option" where
  "verify_ephemeral_token env stok =
     (case verify_token (v_mac env) (v_keys env) token_type_ephemeral stok of
        None \<Rightarrow> None
      | Some payload \<Rightarrow>
          (case split_all (CHR '':'') payload of
             [tok, expt, single] \<Rightarrow>
               (case (read_float (v_fl env) expt, py_int single) of
                  (Some e, Some n) \<Rightarrow> Some (tok, e, n \<noteq> 0)
                | _ \<Rightarrow> None)
           | _ \<Rightarrow> None))"

section \<open>Reading the file\<close>

definition load_entry ::
    "senv \<Rightarrow> (string \<times> esession) list \<Rightarrow> string \<times> pyval \<Rightarrow> (string \<times> esession) list" where
  "load_entry env m kv =
     (case kv of
        (tok, PDict d) \<Rightarrow>
          (case from_dict (v_fl env) (v_host env) (v_fresh env) d of
             Some s \<Rightarrow> AList.update tok s m
           | None \<Rightarrow> m)
      | _ \<Rightarrow> m)"

definition load_store :: "senv \<Rightarrow> 's store \<Rightarrow> 's store" where
  "load_store env st =
     (case st_file st of
        None \<Rightarrow> st\<lparr>st_seen := 0\<rparr>
      | Some (sig, content) \<Rightarrow>
          (case content of
             Some (PDict items) \<Rightarrow>
               st\<lparr>st_seen := sig, st_sessions := foldl (load_entry env) (st_sessions st) items\<rparr>
           | _ \<Rightarrow> st\<lparr>st_seen := sig\<rparr>))"

definition load_if_changed :: "senv \<Rightarrow> 's store \<Rightarrow> 's store" where
  "load_if_changed env st =
     (case st_file st of
        None \<Rightarrow> st
      | Some (sig, _) \<Rightarrow> if sig \<noteq> st_seen st then load_store env st else st)"

definition read_disk_sessions :: "'s store \<Rightarrow> (string \<times> pyval) list option" where
  "read_disk_sessions st =
     (case st_file st of Some (_, Some (PDict items)) \<Rightarrow> Some items | _ \<Rightarrow> None)"

section \<open>Merging before a write\<close>

definition adopt_foreign_session ::
    "senv \<Rightarrow> string \<Rightarrow> pyval \<Rightarrow> (string \<times> esession) list \<Rightarrow> (string \<times> esession) list" where
  "adopt_foreign_session env tok v m =
     (case v of
        PDict d \<Rightarrow>
          (case from_dict (v_fl env) (v_host env) (v_fresh env) d of
             Some other \<Rightarrow>
               if \<not> e_revoked other \<and> v_now env < e_expires_at other
               then AList.update tok other m else m
           | None \<Rightarrow> m)
      | _ \<Rightarrow> m)"

text \<open>The fresher of two stamps; \<open>None\<close> is TypeError, \<open>Some None\<close> keeps the old one.\<close>

definition newer_stamp :: "time option \<Rightarrow> pyval \<Rightarrow> time option option" where
  "newer_stamp old v =
     (if \<not> truthy v then Some None
      else (case num_of v of
              None \<Rightarrow> None
            | Some x \<Rightarrow> if (case old of None \<Rightarrow> 0 | Some o' \<Rightarrow> o') < x then Some (Some x) else Some None))"

definition merge_connection_fields :: "flag \<Rightarrow> esession \<Rightarrow> esession \<times> bool" where
  "merge_connection_fields d s =
     (case newer_stamp (e_last_connected_at s) (py_get ''last_connected_at'' PNone d) of
        None \<Rightarrow> (s, False)
      | Some c \<Rightarrow>
          let s = (case c of None \<Rightarrow> s | Some t \<Rightarrow> s\<lparr>e_last_connected_at := Some t\<rparr>)
          in (case newer_stamp (e_last_disconnected_at s) (py_get ''last_disconnected_at'' PNone d) of
                None \<Rightarrow> (s, False)
              | Some x \<Rightarrow>
                  let s = (case x of None \<Rightarrow> s | Some t \<Rightarrow> s\<lparr>e_last_disconnected_at := Some t\<rparr>)
                  in (case int_of (py_or (py_get ''connection_count'' (PInt 0) d) (PInt 0)) of
                        None \<Rightarrow> (s, False)
                      | Some n \<Rightarrow> (s\<lparr>e_connection_count := max (e_connection_count s) n\<rparr>, True))))"

definition merge_terminal_flags :: "flag \<Rightarrow> esession \<Rightarrow> esession" where
  "merge_terminal_flags d s =
     (let s = (if truthy (py_get ''revoked'' PNone d) then s\<lparr>e_revoked := True\<rparr> else s)
      in if truthy (py_get ''used'' PNone d) then s\<lparr>e_used := True\<rparr> else s)"

definition merge_last_use :: "flag \<Rightarrow> esession \<Rightarrow> esession \<times> bool" where
  "merge_last_use d s =
     (case newer_stamp (e_last_used_at s) (py_get ''last_used_at'' PNone d) of
        None \<Rightarrow> (s, False)
      | Some None \<Rightarrow> merge_connection_fields d s
      | Some (Some t) \<Rightarrow>
          merge_connection_fields d
            (s\<lparr>e_last_used_at := Some t,
               e_last_used_ip :=
                 (case opt_str_of (py_get ''last_used_ip'' PNone d) of
                    Some ip \<Rightarrow> ip | None \<Rightarrow> None)\<rparr>))"

text \<open>The merged session, and whether the merge ran to its end.\<close>

definition merge_session_flags :: "pyval \<Rightarrow> esession \<Rightarrow> esession \<times> bool" where
  "merge_session_flags v s =
     (case v of
        PDict d \<Rightarrow>
          let s = merge_terminal_flags d s
          in (case int_of (py_or (py_get ''use_count'' (PInt 0) d) (PInt 0)) of
                None \<Rightarrow> (s, False)
              | Some n \<Rightarrow> merge_last_use d (s\<lparr>e_use_count := max (e_use_count s) n\<rparr>))
      | _ \<Rightarrow> (s, False))"

fun merge_entries ::
    "senv \<Rightarrow> (string \<times> pyval) list \<Rightarrow> (string \<times> esession) list \<Rightarrow> (string \<times> esession) list \<times> bool" where
  "merge_entries env [] m = (m, True)"
| "merge_entries env ((tok, v) # items) m =
     (case map_of m tok of
        None \<Rightarrow> merge_entries env items (adopt_foreign_session env tok v m)
      | Some s \<Rightarrow>
          let (s, ok) = merge_session_flags v s; m = AList.update tok s m
          in if ok then merge_entries env items m else (m, False))"

definition merge_disk_flags :: "senv \<Rightarrow> 's store \<Rightarrow> (string \<times> esession) list \<times> bool" where
  "merge_disk_flags env st =
     (case read_disk_sessions st of
        None \<Rightarrow> (st_sessions st, True)
      | Some items \<Rightarrow> merge_entries env items (st_sessions st))"

definition file_of :: "host \<Rightarrow> (string \<times> esession) list \<Rightarrow> pyval" where
  "file_of h m = PDict (map (\<lambda>(tok, s). (tok, PDict (to_persist_dict h s))) m)"

definition next_sig :: "json_file option \<Rightarrow> nat" where
  "next_sig f = (case f of None \<Rightarrow> 1 | Some (n, _) \<Rightarrow> Suc n)"

definition save :: "senv \<Rightarrow> bool \<Rightarrow> 's store \<Rightarrow> unit outcome \<times> 's store" where
  "save env raise_on_error st =
     (let (m, ok) = merge_disk_flags env st; st = st\<lparr>st_sessions := m\<rparr>
      in if \<not> ok then (Raised, st)
         else if \<not> v_writable env then (if raise_on_error then Raised else Returned (), st)
         else let sig = next_sig (st_file st)
              in (Returned (),
                  st\<lparr>st_file := Some (sig, Some (file_of (v_host env) m)), st_seen := sig\<rparr>))"

section \<open>Shared revocation markers\<close>

definition is_revoked_shared :: "'s backend \<Rightarrow> senv \<Rightarrow> string \<Rightarrow> 's \<Rightarrow> bool \<times> 's" where
  "is_revoked_shared be env tok s =
     (if v_up env
      then let (v, s) = b_get be (v_now env) ns_eph_revoked tok s in (truthy v, s)
      else (v_strict env, s))"

definition mark_revoked_shared :: "'s backend \<Rightarrow> senv \<Rightarrow> string \<Rightarrow> time \<Rightarrow> 's \<Rightarrow> 's" where
  "mark_revoked_shared be env tok expires s =
     (if v_up env
      then b_set_ttl be (v_now env) ns_eph_revoked tok (PBool True)
             (of_int (max 86400 (trunc (expires - v_now env)))) s
      else s)"

section \<open>The operations of the store\<close>

definition put_session :: "string \<Rightarrow> esession \<Rightarrow> 's store \<Rightarrow> 's store" where
  "put_session tok s st = st\<lparr>st_sessions := AList.update tok s (st_sessions st)\<rparr>"

definition get_session :: "'s backend \<Rightarrow> senv \<Rightarrow> string \<Rightarrow> 's store \<Rightarrow> esession option \<times> 's store" where
  "get_session be env tok st =
     (let st = (if map_of (st_sessions st) tok = None then load_store env st else st)
      in case map_of (st_sessions st) tok of
           None \<Rightarrow> (None, st)
         | Some s \<Rightarrow>
             if e_revoked s then (Some s, st)
             else
               let (gone, state) = is_revoked_shared be env tok (st_state st);
                   st = st\<lparr>st_state := state\<rparr>
               in if gone then (Some (revoke_mark s), put_session tok (revoke_mark s) st)
                  else (Some s, st))"

text \<open>The session a request for one builds: the expiry from now, the budget, this deployment's id.\<close>

definition requested_session :: "senv \<Rightarrow> time \<Rightarrow> session_args \<Rightarrow> esession" where
  "requested_session env expires_in a =
     new_session (v_host env) (v_fresh env)
       (a\<lparr>a_expires_at := v_now env + expires_in,
          a_max_uses := (if 0 < a_max_uses a then a_max_uses a else if a_single_use a then 1 else 0),
          a_instance_id := None\<rparr>)"

definition create_session ::
    "senv \<Rightarrow> time \<Rightarrow> session_args \<Rightarrow> 's store \<Rightarrow> (esession \<times> string) outcome \<times> 's store" where
  "create_session env expires_in a st =
     (if \<not> given (a_resource a) \<and> v_require_resource env then (Raised, st)
      else
        let s = requested_session env expires_in a;
            stok = create_ephemeral_token env s
        in case save env True (put_session (e_token s) s st) of
             (Raised, st) \<Rightarrow> (Raised, st)
           | (Returned _, st) \<Rightarrow> (Returned (s, stok), st))"

definition revoke_in_store :: "'s backend \<Rightarrow> senv \<Rightarrow> string \<Rightarrow> 's store \<Rightarrow> bool outcome \<times> 's store" where
  "revoke_in_store be env tok st =
     (let internal = (if CHR ''.'' \<in> set tok
                      then (case verify_ephemeral_token env tok of
                              Some (t, _, _) \<Rightarrow> t | None \<Rightarrow> tok)
                      else tok)
      in case get_session be env internal st of
           (None, st) \<Rightarrow> (Returned False, st)
         | (Some s, st) \<Rightarrow>
             let st = put_session internal (revoke_mark s) st;
                 st = st\<lparr>st_state := mark_revoked_shared be env internal (e_expires_at s) (st_state st)\<rparr>
             in case save env False st of
                  (Raised, st) \<Rightarrow> (Raised, st)
                | (Returned _, st) \<Rightarrow> (Returned True, st))"

text \<open>The key of the session with a public id, after a reload.\<close>

definition find_by_token_id :: "senv \<Rightarrow> string \<Rightarrow> 's store \<Rightarrow> string option \<times> 's store" where
  "find_by_token_id env token_id st =
     (let st = load_store env st
      in (map_option fst
            (find (\<lambda>(tok, _). h_fingerprint (v_host env) tok = token_id) (st_sessions st)), st))"

definition set_label ::
    "'s backend \<Rightarrow> senv \<Rightarrow> string \<Rightarrow> string option \<Rightarrow> 's store \<Rightarrow> bool outcome \<times> 's store" where
  "set_label be env tok label st =
     (let (found, st) = find_by_token_id env tok st;
          (key, hit, st) = (case found of
              Some k \<Rightarrow> (k, map_of (st_sessions st) k, st)
            | None \<Rightarrow> (let (s, st) = get_session be env tok st in (tok, s, st)))
      in case hit of
           None \<Rightarrow> (Returned False, st)
         | Some s \<Rightarrow>
             (case save env False (put_session key (s\<lparr>e_label := label\<rparr>) st) of
                (Raised, st) \<Rightarrow> (Raised, st)
              | (Returned _, st) \<Rightarrow> (Returned True, st)))"

definition list_active :: "senv \<Rightarrow> 's store \<Rightarrow> esession list" where
  "list_active env st =
     filter (\<lambda>s. \<not> e_revoked s \<and> v_now env < e_expires_at s) (map snd (st_sessions st))"

definition list_revoked :: "senv \<Rightarrow> 's store \<Rightarrow> esession list" where
  "list_revoked env st =
     filter (\<lambda>s. e_revoked s \<and> v_now env < e_expires_at s) (map snd (st_sessions st))"

definition list_all_sessions :: "'s store \<Rightarrow> esession list" where
  "list_all_sessions st = map snd (st_sessions st)"

definition note_connection :: "senv \<Rightarrow> string \<Rightarrow> bool \<Rightarrow> 's store \<Rightarrow> unit outcome \<times> 's store" where
  "note_connection env tok opened st =
     (let st = (if map_of (st_sessions st) tok = None then load_store env st else st)
      in case map_of (st_sessions st) tok of
           None \<Rightarrow> (Returned (), st)
         | Some s \<Rightarrow>
             save env False
               (put_session tok
                  (if opened then note_connected (v_now env) s
                   else note_disconnected (v_now env) s) st))"

definition cleanup :: "senv \<Rightarrow> 's store \<Rightarrow> unit outcome \<times> 's store" where
  "cleanup env st =
     (let dead = filter (\<lambda>(_, s). e_expires_at s \<le> v_now env) (st_sessions st);
          st = st\<lparr>st_sessions := filter (\<lambda>(_, s). \<not> e_expires_at s \<le> v_now env) (st_sessions st)\<rparr>
      in if dead \<noteq> [] then save env False st else (Returned (), st))"

end
