(* ===== verification/SessionLifecycle.thy ===== *)
theory SessionLifecycle
  imports SessionStore
begin

text \<open>
  The operations services call on share links (the functions of security/ephemeral_sessions.py below
  the store class) and the maintenance drain of security/maintenance.py they trigger: revocation,
  drain, validation, consumption, activation and the per-request permission check.
\<close>

section \<open>Revocation\<close>

definition revoke_session :: "'s backend \<Rightarrow> senv \<Rightarrow> string \<Rightarrow> 's store \<Rightarrow> bool outcome \<times> 's store" where
  "revoke_session be env stok st =
     (let tok = (case verify_ephemeral_token env stok of Some (t, _, _) \<Rightarrow> t | None \<Rightarrow> stok);
          (hit, st) = get_session be env tok st;
          (tok, st) =
            (if hit \<noteq> None then (tok, st)
             else let st = load_if_changed env st
                  in (case find (\<lambda>(k, _). h_fingerprint (v_host env) k = py_strip stok) (st_sessions st) of
                        Some (k, _) \<Rightarrow> (k, st)
                      | None \<Rightarrow> (tok, st)))
      in revoke_in_store be env tok st)"

definition is_session_revoked :: "'s backend \<Rightarrow> senv \<Rightarrow> string \<Rightarrow> 's store \<Rightarrow> bool \<times> 's store" where
  "is_session_revoked be env stok st =
     (case verify_ephemeral_token env stok of
        None \<Rightarrow> (True, st)
      | Some (tok, _, _) \<Rightarrow>
          (case get_session be env tok (load_if_changed env st) of
             (None, st) \<Rightarrow> (True, st)
           | (Some s, st) \<Rightarrow> (e_revoked s, st)))"

definition is_session_expired :: "'s backend \<Rightarrow> senv \<Rightarrow> string \<Rightarrow> 's store \<Rightarrow> bool \<times> 's store" where
  "is_session_expired be env stok st =
     (case verify_ephemeral_token env stok of
        None \<Rightarrow> (True, st)
      | Some (tok, _, _) \<Rightarrow>
          (case get_session be env tok (load_if_changed env st) of
             (None, st) \<Rightarrow> (True, st)
           | (Some s, st) \<Rightarrow> (session_expired (v_host env) s, st)))"

section \<open>Maintenance and its drain\<close>

definition maintenance_active :: "senv \<Rightarrow> bool" where
  "maintenance_active env \<longleftrightarrow> v_maint_env env \<or> v_flag env \<noteq> None"

text \<open>The content of the flag file, empty when there is none.\<close>

definition read_flag :: "flag option \<Rightarrow> flag" where
  "read_flag f = (case f of None \<Rightarrow> [] | Some d \<Rightarrow> d)"

definition maintenance_id :: "flag option \<Rightarrow> pyval" where
  "maintenance_id f = py_get ''maintenance_id'' (PStr '''') (read_flag f)"

definition drain_deadline_passed :: "senv \<Rightarrow> bool" where
  "drain_deadline_passed env =
     (let data = read_flag (v_flag env)
      in if (case num_of (py_get ''drain_at'' PNone data) of Some t \<Rightarrow> t \<le> v_now env | None \<Rightarrow> False)
         then True
         else (case num_of (py_get ''drain_mono'' PNone data) of
                 None \<Rightarrow> False
               | Some m \<Rightarrow>
                   0 \<le> m \<and> truthy (py_get ''boot_id'' PNone data) \<and>
                   py_get ''boot_id'' PNone data = opt_str_val (v_boot env) \<and>
                   m \<le> h_mono (v_host env)))"

definition host_of :: "senv \<Rightarrow> host" where
  "host_of env = (v_host env)\<lparr>h_drained := drain_deadline_passed env\<rparr>"

text \<open>\<open>maintenance on\<close> and \<open>maintenance off\<close>: the new flag, and old drain markers removed.\<close>

definition set_maintenance ::
    "'s backend \<Rightarrow> senv \<Rightarrow> bool \<Rightarrow> string \<Rightarrow> string \<Rightarrow> string \<Rightarrow> time option \<Rightarrow> 's \<Rightarrow> flag option \<times> 's" where
  "set_maintenance be env active by reason since drain_at s =
     (let s = (if v_up env
               then foldl (\<lambda>s k. b_delete be ''maintenance'' k s) s
                      (b_list_keys be (v_now env) ''maintenance'' ''drain_'' s)
               else s)
      in if \<not> active then (None, s)
         else (Some ([(''by'', PStr by), (''since'', PStr since), (''reason'', PStr reason),
                      (''maintenance_id'', PStr (v_fresh env))] @
                     (case drain_at of
                        None \<Rightarrow> []
                      | Some t \<Rightarrow>
                          [(''drain_at'', PFloat t),
                           (''drain_mono'', PFloat (h_mono (v_host env) + (t - v_now env))),
                           (''boot_id'', opt_str_val (v_boot env))])), s))"

text \<open>Revoke, by public id, every session that was active when the sweep began; \<open>None\<close>: an exception.\<close>

fun drain_list ::
    "'s backend \<Rightarrow> senv \<Rightarrow> string list \<Rightarrow> nat \<Rightarrow> 's store \<Rightarrow> nat outcome \<times> 's store" where
  "drain_list be env [] n st = (Returned n, st)"
| "drain_list be env (i # is) n st =
     (case revoke_session be env i st of
        (Raised, st) \<Rightarrow> (Raised, st)
      | (Returned b, st) \<Rightarrow> drain_list be env is (if b then Suc n else n) st)"

definition drain_sessions :: "'s backend \<Rightarrow> senv \<Rightarrow> 's store \<Rightarrow> nat outcome \<times> 's store" where
  "drain_sessions be env st =
     (let st = load_if_changed env st
      in drain_list be env (map (\<lambda>s. h_fingerprint (v_host env) (e_token s)) (list_active env st)) 0 st)"

text \<open>The sweep under the lease; the third component says that it returned early.\<close>

definition drain_sweep :: "'s backend \<Rightarrow> senv \<Rightarrow> string \<Rightarrow> 's store \<Rightarrow> bool \<times> 's store" where
  "drain_sweep be env mid st =
     (let (done_mark, state) =
            (if mid \<noteq> [] then b_get be (v_now env) ''maintenance'' (''drain_done:'' @ mid) (st_state st)
             else (PNone, st_state st));
          st = st\<lparr>st_state := state\<rparr>
      in if truthy done_mark then (True, st)
         else
           let (won, state) = b_set_if_absent be (v_now env) ''maintenance'' (''drain_lease:'' @ mid)
                                (PStr ''1'') (Some 30) (st_state st);
               st = st\<lparr>st_state := state\<rparr>
           in if \<not> won then (False, st)
              else if maintenance_id (v_flag_lease env) \<noteq> PStr mid then (True, st)
              else (case drain_sessions be env st of
                      (Raised, st) \<Rightarrow> (False, st)
                    | (Returned _, st) \<Rightarrow>
                        (False,
                         if maintenance_id (v_flag_done env) = PStr mid
                         then st\<lparr>st_state := b_set_ttl be (v_now env) ''maintenance''
                                  (''drain_done:'' @ mid) (PStr ''1'') 2592000 (st_state st)\<rparr>
                         else st)))"

definition enforce_drain_deadline :: "'s backend \<Rightarrow> senv \<Rightarrow> 's store \<Rightarrow> bool \<times> 's store" where
  "enforce_drain_deadline be env st =
     (if \<not> drain_deadline_passed env then (False, st)
      else
        let mid = (case maintenance_id (v_flag env) of PStr m \<Rightarrow> m | _ \<Rightarrow> []);
            mono = h_mono (v_host env)
        in if fst (st_memo st) = mid \<and> mid \<noteq> [] \<and> mono - snd (st_memo st) < 5 then (True, st)
           else if \<not> v_up env then (True, st\<lparr>st_memo := (mid, mono)\<rparr>)
           else (case drain_sweep be env mid st of
                   (True, st) \<Rightarrow> (True, st)
                 | (False, st) \<Rightarrow> (True, st\<lparr>st_memo := (mid, mono)\<rparr>)))"

text \<open>\<open>None\<close> permissions: the operator store is not available.\<close>

definition maintenance_login_allowed ::
    "senv \<Rightarrow> (string \<Rightarrow> string list option) \<Rightarrow> string \<Rightarrow> string \<Rightarrow> string \<Rightarrow> bool" where
  "maintenance_login_allowed env perms ui_user ttyd_user username =
     (if \<not> maintenance_active env then True
      else if (case perms username of Some (_ # _) \<Rightarrow> True | _ \<Rightarrow> False) then True
      else username \<in> {''admin'', ui_user, ttyd_user} - {[]})"

text \<open>
  A check tuple run on a session: when the checks before \<open>CDrained\<close> pass and the deadline is reached,
  the drain happens on the way; the verdict is the one of the tuple.
\<close>

definition run_checks ::
    "'s backend \<Rightarrow> senv \<Rightarrow> check list \<Rightarrow> esession \<Rightarrow> string option \<Rightarrow> string option \<Rightarrow> 's store \<Rightarrow>
     bool \<times> 's store" where
  "run_checks be env cs s ip resource st =
     (let reached = CDrained \<in> set cs \<and>
            denial_reason (host_of env) s (takeWhile (\<lambda>c. c \<noteq> CDrained) cs) ip resource = None
      in (denial_reason (host_of env) s cs ip resource = None,
          if reached then snd (enforce_drain_deadline be env st) else st))"

section \<open>Validation of a bearer token\<close>

definition validate_session ::
    "'s backend \<Rightarrow> senv \<Rightarrow> string \<Rightarrow> string option \<Rightarrow> string option \<Rightarrow> 's store \<Rightarrow>
     esession option outcome \<times> 's store" where
  "validate_session be env stok ip resource st =
     (case verify_ephemeral_token env stok of
        None \<Rightarrow> (Returned None, st)
      | Some (tok, _, _) \<Rightarrow>
          (case get_session be env tok st of
             (None, st) \<Rightarrow> (Returned None, st)
           | (Some s, st) \<Rightarrow>
               let pin = e_allowed_ip s = Some ''first-observed'' \<and> given ip;
                   (r, st) = (if pin then save env False (put_session tok (s\<lparr>e_allowed_ip := ip\<rparr>) st)
                              else (Returned (), st))
               in (case r of
                     Raised \<Rightarrow> (Raised, st)
                   | Returned _ \<Rightarrow>
                       (case map_of (st_sessions st) tok of
                          None \<Rightarrow> (Returned None, st)
                        | Some s \<Rightarrow>
                            let (ok, st) = run_checks be env session_validity_checks s ip resource st
                            in (Returned (if ok then Some s else None), st)))))"

section \<open>Claims\<close>

definition claim_ttl :: "senv \<Rightarrow> time \<Rightarrow> time" where
  "claim_ttl env expires = max 60 (expires - v_now env)"

definition claim_consumed :: "'s backend \<Rightarrow> senv \<Rightarrow> string \<Rightarrow> time \<Rightarrow> 's \<Rightarrow> bool \<times> 's" where
  "claim_consumed be env tok expires s =
     (if v_up env
      then b_set_if_absent be (v_now env) ns_consumed tok (PBool True) (Some (claim_ttl env expires)) s
      else (False, s))"

definition claim_use :: "'s backend \<Rightarrow> senv \<Rightarrow> string \<Rightarrow> int \<Rightarrow> time \<Rightarrow> 's \<Rightarrow> bool \<times> 's" where
  "claim_use be env tok max_uses expires s =
     (if v_up env
      then let (n, s) = b_increment be (v_now env) ns_uses tok 1 (Some (claim_ttl env expires)) s
           in (n \<le> max_uses, s)
      else (False, s))"

section \<open>Consumption and activation\<close>

definition consume_ephemeral_session :: "'s backend \<Rightarrow> senv \<Rightarrow> string \<Rightarrow> 's store \<Rightarrow> bool outcome \<times> 's store" where
  "consume_ephemeral_session be env stok st =
     (if maintenance_active env then (Returned False, st)
      else (case verify_ephemeral_token env stok of
         None \<Rightarrow> (Returned False, st)
       | Some (tok, _, _) \<Rightarrow>
           (case get_session be env tok st of
              (None, st) \<Rightarrow> (Returned False, st)
            | (Some s, st) \<Rightarrow>
                if e_revoked s \<or> session_expired (v_host env) s \<or>
                   (e_instance_id s \<noteq> [] \<and> e_instance_id s \<noteq> h_instance (v_host env))
                then (Returned False, st)
                else if \<not> e_single_use s then (Returned True, st)
                else
                  let (won, state) = claim_consumed be env tok (e_expires_at s) (st_state st);
                      st = st\<lparr>st_state := state\<rparr>
                  in if \<not> won then (Returned False, st)
                     else
                       let s = (revoke_mark s)\<lparr>e_used := True, e_last_used_at := Some (v_now env)\<rparr>
                       in (case save env False (put_session tok s st) of
                             (Raised, st) \<Rightarrow> (Raised, st)
                           | (Returned _, st) \<Rightarrow> (Returned True, st)))))"

text \<open>The verdict, the session with its address pinned, and the backend after a claim.\<close>

definition activation_denied ::
    "'s backend \<Rightarrow> senv \<Rightarrow> esession \<Rightarrow> string \<Rightarrow> string option \<Rightarrow> 's \<Rightarrow> bool \<times> esession \<times> 's" where
  "activation_denied be env s tok ip state =
     (if denial_reason (host_of env) s link_denial_checks None None \<noteq> None then (True, s, state)
      else
        let s = (if e_allowed_ip s = Some ''first-observed'' \<and> given ip
                 then s\<lparr>e_allowed_ip := ip\<rparr> else s)
        in if given (e_allowed_ip s) \<and> ip \<noteq> None \<and>
              \<not> ip_matches (v_host env) (the (e_allowed_ip s)) ip then (True, s, state)
           else if e_single_use s then
             let (won, state) = claim_consumed be env tok (e_expires_at s) state
             in (\<not> won, s, state)
           else if 0 < e_max_uses s then
             let (won, state) = claim_use be env tok (e_max_uses s) (e_expires_at s) state
             in (\<not> won, s, state)
           else (False, s, state))"

definition activate_ephemeral_session ::
    "'s backend \<Rightarrow> senv \<Rightarrow> string \<Rightarrow> string option \<Rightarrow> 's store \<Rightarrow> string option outcome \<times> 's store" where
  "activate_ephemeral_session be env stok ip st =
     (if maintenance_active env then (Returned None, st)
      else (case verify_ephemeral_token env stok of
         None \<Rightarrow> (Returned None, st)
       | Some (tok, _, _) \<Rightarrow>
           (case get_session be env tok (load_if_changed env st) of
              (None, st) \<Rightarrow> (Returned None, st)
            | (Some s, st) \<Rightarrow>
                let (denied, s, state) = activation_denied be env s tok ip (st_state st);
                    st = (put_session tok s st)\<lparr>st_state := state\<rparr>
                in if denied then (Returned None, st)
                   else (case save env False (put_session tok (mark_used (v_now env) ip s) st) of
                           (Raised, st) \<Rightarrow> (Raised, st)
                         | (Returned _, st) \<Rightarrow> (Returned (Some tok), st)))))"

section \<open>Permission checks\<close>

definition check_session_permission ::
    "'s backend \<Rightarrow> senv \<Rightarrow> string \<Rightarrow> string \<Rightarrow> string option \<Rightarrow> string option \<Rightarrow> 's store \<Rightarrow>
     bool \<times> 's store" where
  "check_session_permission be env tok perm resource ip st =
     (case get_session be env tok (load_if_changed env st) of
        (None, st) \<Rightarrow> (False, st)
      | (Some s, st) \<Rightarrow>
          let (ok, st) = run_checks be env request_denial_checks s ip resource st
          in (ok \<and> has_permission s perm resource, st))"

definition check_permission ::
    "'s backend \<Rightarrow> senv \<Rightarrow> string \<Rightarrow> string \<Rightarrow> string option \<Rightarrow> string option \<Rightarrow> 's store \<Rightarrow>
     bool outcome \<times> 's store" where
  "check_permission be env stok perm resource ip st =
     (case validate_session be env stok ip resource (load_if_changed env st) of
        (Raised, st) \<Rightarrow> (Raised, st)
      | (Returned None, st) \<Rightarrow> (Returned False, st)
      | (Returned (Some s), st) \<Rightarrow>
          let permitted = has_permission s perm resource
          in if permitted \<and> e_single_use s
             then (case consume_ephemeral_session be env stok st of
                     (Raised, st) \<Rightarrow> (Raised, st)
                   | (Returned _, st) \<Rightarrow> (Returned permitted, st))
             else (Returned permitted, st))"

text \<open>The wrapper services call: its \<open>permissions\<close> argument is not passed on.\<close>

definition create_ephemeral_session ::
    "senv \<Rightarrow> string set \<Rightarrow> time \<Rightarrow> session_args \<Rightarrow> 's store \<Rightarrow> string option \<times> 's store" where
  "create_ephemeral_session env permissions ttl a st =
     (case create_session env ttl (a\<lparr>a_permissions := {}, a_label := None\<rparr>) st of
        (Raised, st) \<Rightarrow> (None, st)
      | (Returned (_, stok), st) \<Rightarrow> (Some stok, st))"

text \<open>What a recipient sees before accepting a link.\<close>

record preview =
  pv_role :: string
  pv_expires_in :: int
  pv_permissions :: "string list"
  pv_view_only :: bool
  pv_single_use :: bool
  pv_no_terminal :: bool
  pv_max_uses :: int
  pv_resource :: "string option"

definition preview_session :: "'s backend \<Rightarrow> senv \<Rightarrow> string \<Rightarrow> 's store \<Rightarrow> preview option \<times> 's store" where
  "preview_session be env stok st =
     (case verify_ephemeral_token env stok of
        None \<Rightarrow> (None, st)
      | Some (tok, _, _) \<Rightarrow>
          (case get_session be env tok (load_if_changed env st) of
             (None, st) \<Rightarrow> (None, st)
           | (Some s, st) \<Rightarrow>
               if e_revoked s then (None, st)
               else (Some \<lparr> pv_role = e_role s,
                            pv_expires_in = max 0 (trunc (e_expires_at s - v_now env)),
                            pv_permissions = sorted_list_of_set (e_permissions s),
                            pv_view_only = e_view_only s, pv_single_use = e_single_use s,
                            pv_no_terminal = e_no_terminal s, pv_max_uses = e_max_uses s,
                            pv_resource = e_resource s \<rparr>, st)))"

end
