(* ===== verification/SessionInvariants.thy ===== *)
theory SessionInvariants
  imports SessionLifecycle
begin

text \<open>
  What the session operations keep.  \<open>grows s s'\<close>: the grant of \<open>s\<close> is unchanged in \<open>s'\<close> and its terminal
  marks are not taken back.  \<open>kept P Q st\<close>: every copy of a session, in memory and in the file,
  satisfies a property \<open>P\<close> that growing preserves, and the backend state satisfies \<open>Q\<close>.  One lemma per
  operation shows that it keeps \<open>kept P Q\<close>.
\<close>

definition grows :: "esession \<Rightarrow> esession \<Rightarrow> bool" where
  "grows s s' \<longleftrightarrow>
     e_token s' = e_token s \<and> e_role s' = e_role s \<and> e_expires_at s' = e_expires_at s \<and>
     e_single_use s' = e_single_use s \<and> e_view_only s' = e_view_only s \<and>
     e_no_terminal s' = e_no_terminal s \<and> e_created_by s' = e_created_by s \<and>
     e_created_at s' = e_created_at s \<and> e_created_monotonic s' = e_created_monotonic s \<and>
     e_resource s' = e_resource s \<and> e_max_uses s' = e_max_uses s \<and>
     (finite (e_permissions s) \<and> e_permissions s \<noteq> {} \<longrightarrow> e_permissions s' = e_permissions s) \<and>
     (e_instance_id s \<noteq> [] \<longrightarrow> e_instance_id s' = e_instance_id s) \<and>
     (e_revoked s \<longrightarrow> e_revoked s') \<and> (e_used s \<longrightarrow> e_used s') \<and> e_use_count s \<le> e_use_count s'"

definition stable :: "(string \<Rightarrow> esession \<Rightarrow> bool) \<Rightarrow> bool" where
  "stable P \<longleftrightarrow> (\<forall>k s s'. P k s \<and> grows s s' \<longrightarrow> P k s')"

definition sess_all :: "(string \<Rightarrow> esession \<Rightarrow> bool) \<Rightarrow> (string \<times> esession) list \<Rightarrow> bool" where
  "sess_all P m \<longleftrightarrow> (\<forall>(k, s) \<in> set m. P k s)"

definition items_all :: "(string \<Rightarrow> esession \<Rightarrow> bool) \<Rightarrow> (string \<times> pyval) list \<Rightarrow> bool" where
  "items_all P items \<longleftrightarrow>
     (\<forall>k d fl h nonce s. (k, PDict d) \<in> set items \<and> from_dict fl h nonce d = Some s \<longrightarrow> P k s)"

definition file_all :: "(string \<Rightarrow> esession \<Rightarrow> bool) \<Rightarrow> json_file option \<Rightarrow> bool" where
  "file_all P f \<longleftrightarrow> (\<forall>sig items. f = Some (sig, Some (PDict items)) \<longrightarrow> items_all P items)"

definition kept :: "(string \<Rightarrow> esession \<Rightarrow> bool) \<Rightarrow> ('s \<Rightarrow> bool) \<Rightarrow> 's store \<Rightarrow> bool" where
  "kept P Q st \<longleftrightarrow> sess_all P (st_sessions st) \<and> file_all P (st_file st) \<and> Q (st_state st)"

section \<open>Growing\<close>

lemma grows_refl [simp]: "grows s s"
  by (simp add: grows_def)

lemma grows_trans: "grows a b \<Longrightarrow> grows b c \<Longrightarrow> grows a c"
  by (auto simp: grows_def)

lemma grows_marks [simp]:
  "grows s (mark_used now ip s)" "grows s (note_connected now s)" "grows s (note_disconnected now s)"
  "grows s (revoke_mark s)" "grows s (s\<lparr>e_label := l\<rparr>)" "grows s (s\<lparr>e_allowed_ip := ip\<rparr>)"
  "grows s ((revoke_mark s)\<lparr>e_used := True, e_last_used_at := t\<rparr>)"
  by (simp_all add: grows_def mark_used_def note_connected_def note_disconnected_def revoke_mark_def
      Let_def)

lemma grows_merge_connection: "grows s (fst (merge_connection_fields d s))"
  by (auto simp: merge_connection_fields_def grows_def Let_def split: option.splits)

lemma grows_merge_last_use: "grows s (fst (merge_last_use d s))"
proof -
  have "grows s (s\<lparr>e_last_used_at := t, e_last_used_ip := ip\<rparr>)" for t ip
    by (simp add: grows_def)
  then have "grows s (fst (merge_connection_fields d (s\<lparr>e_last_used_at := t, e_last_used_ip := ip\<rparr>)))"
    for t ip by (rule grows_trans) (rule grows_merge_connection)
  then show ?thesis
    by (simp add: merge_last_use_def grows_merge_connection split: option.splits)
qed

lemma grows_merge: "grows s (fst (merge_session_flags v s))"
proof (cases v)
  case (PDict d)
  have t: "grows s (merge_terminal_flags d s)"
    by (simp add: merge_terminal_flags_def grows_def)
  have "grows s (s\<lparr>e_use_count := max (e_use_count s) n\<rparr>)" for s n
    by (simp add: grows_def)
  then have "grows s (fst (merge_last_use d (s\<lparr>e_use_count := max (e_use_count s) n\<rparr>)))" for s n
    by (rule grows_trans) (rule grows_merge_last_use)
  then have "grows (merge_terminal_flags d s) (fst (merge_session_flags v s))"
    by (simp add: PDict merge_session_flags_def Let_def split: option.splits)
  with t show ?thesis by (rule grows_trans)
qed (simp_all add: merge_session_flags_def)

lemma grows_stored:
  assumes "from_dict fl h nonce (to_persist_dict g s) = Some s'"
  shows "grows s s'"
proof -
  have perms: "perms_of (PList (map PStr (sorted_list_of_set ps))) =
      Some (if finite ps then ps else {})" for ps :: "string set"
    by (simp add: perms_of_def)
  show ?thesis
    using assms
    by (cases s)
      (auto simp: from_dict_def to_persist_dict_def to_dict_def py_get_def new_session_def or_string_def
        grows_def perms split: bind_splits if_splits)
qed

lemma stableD: "stable P \<Longrightarrow> P k s \<Longrightarrow> grows s s' \<Longrightarrow> P k s'"
  by (auto simp: stable_def)

section \<open>The dictionary and the file\<close>

lemma set_update_subset: "set (AList.update k v m) \<subseteq> insert (k, v) (set m)"
  by (induction m) auto

lemma sess_all_update: "sess_all P m \<Longrightarrow> P k s \<Longrightarrow> sess_all P (AList.update k s m)"
  using set_update_subset [of k s m] by (auto simp: sess_all_def)

lemma sess_allD: "sess_all P m \<Longrightarrow> map_of m k = Some s \<Longrightarrow> P k s"
  by (auto simp: sess_all_def dest!: map_of_SomeD)

lemma items_allD:
  "items_all P items \<Longrightarrow> (k, PDict d) \<in> set items \<Longrightarrow> from_dict fl h nonce d = Some s \<Longrightarrow> P k s"
  unfolding items_all_def by blast

lemma items_all_head:
  "items_all P ((k, PDict d) # items) \<Longrightarrow> from_dict fl h nonce d = Some s \<Longrightarrow> P k s"
  by (erule items_allD) simp_all

lemma items_all_Cons: "items_all P (kv # items) \<Longrightarrow> items_all P items"
  unfolding items_all_def by (meson list.set_intros(2))

lemma sess_all_load_entry:
  assumes "sess_all P m" and "items_all P (kv # items)"
  shows "sess_all P (load_entry env m kv)"
proof (cases kv)
  case (Pair k v)
  with assms show ?thesis
    by (cases v) (auto simp: load_entry_def intro!: sess_all_update split: option.splits
        dest: items_all_head)
qed

lemma sess_all_load:
  "sess_all P m \<Longrightarrow> items_all P items \<Longrightarrow> sess_all P (foldl (load_entry env) m items)"
  by (induction items arbitrary: m) (auto intro: sess_all_load_entry dest: items_all_Cons)

lemma sess_all_adopt:
  assumes "sess_all P m" and "items_all P ((k, v) # items)"
  shows "sess_all P (adopt_foreign_session env k v m)"
  using assms
  by (cases v) (auto simp: adopt_foreign_session_def intro!: sess_all_update split: option.splits
      dest: items_all_head)

lemma sess_all_merge:
  "stable P \<Longrightarrow> sess_all P m \<Longrightarrow> items_all P items \<Longrightarrow> sess_all P (fst (merge_entries env items m))"
proof (induction items arbitrary: m)
  case (Cons kv items)
  obtain tok v where kv: "kv = (tok, v)" by (cases kv)
  from Cons.prems(3) have rest: "items_all P items" by (rule items_all_Cons)
  show ?case
  proof (cases "map_of m tok")
    case None
    have "sess_all P (adopt_foreign_session env tok v m)"
      using Cons.prems(2,3) unfolding kv by (rule sess_all_adopt)
    with Cons.IH [OF Cons.prems(1)] rest None show ?thesis by (simp add: kv)
  next
    case (Some s)
    have "P tok (fst (merge_session_flags v s))"
      using Cons.prems(1) sess_allD [OF Cons.prems(2) Some] grows_merge by (rule stableD)
    with Cons.prems(2) have "sess_all P (AList.update tok (fst (merge_session_flags v s)) m)"
      by (rule sess_all_update)
    with Cons.IH [OF Cons.prems(1)] rest Some show ?thesis
      by (simp add: kv Let_def case_prod_unfold)
  qed
qed simp

lemma items_all_file_of:
  assumes "stable P" and "sess_all P m"
  shows "items_all P (map (\<lambda>(tok, s). (tok, PDict (to_persist_dict h s))) m)"
  unfolding items_all_def
proof (intro allI impI, elim conjE)
  fix k d fl g nonce s'
  assume "(k, PDict d) \<in> set (map (\<lambda>(tok, s). (tok, PDict (to_persist_dict h s))) m)"
    and read: "from_dict fl g nonce d = Some s'"
  then obtain s where s: "(k, s) \<in> set m" "d = to_persist_dict h s" by auto
  with assms(2) have "P k s" by (auto simp: sess_all_def)
  with assms(1) show "P k s'"
    using read s(2) grows_stored by (blast intro: stableD)
qed

lemma kept_put: "kept P Q st \<Longrightarrow> P k s \<Longrightarrow> kept P Q (put_session k s st)"
  by (simp add: kept_def put_session_def sess_all_update)

lemma kept_state: "kept P Q st \<Longrightarrow> Q x \<Longrightarrow> kept P Q (st\<lparr>st_state := x\<rparr>)"
  by (simp add: kept_def)

lemma kept_memo: "kept P Q st \<Longrightarrow> kept P Q (st\<lparr>st_memo := x\<rparr>)"
  by (simp add: kept_def)

lemma keptD:
  "kept P Q st \<Longrightarrow> Q (st_state st)"
  "kept P Q st \<Longrightarrow> map_of (st_sessions st) k = Some s \<Longrightarrow> P k s"
  by (auto simp: kept_def dest: sess_allD)

lemma kept_load: "kept P Q st \<Longrightarrow> kept P Q (load_store env st)"
  by (auto simp: kept_def load_store_def file_all_def sess_all_load
      split: option.splits pyval.splits)

lemma kept_load_if_changed: "kept P Q st \<Longrightarrow> kept P Q (load_if_changed env st)"
  by (auto simp: load_if_changed_def kept_load split: option.splits)

lemma kept_save:
  assumes "stable P" and "kept P Q st"
  shows "kept P Q (snd (save env r st))"
proof -
  define m where "m = fst (merge_disk_flags env st)"
  have m: "sess_all P m"
    using assms
    by (auto simp: m_def merge_disk_flags_def read_disk_sessions_def kept_def file_all_def sess_all_merge
        split: option.splits pyval.splits)
  then have "items_all P (map (\<lambda>(tok, s). (tok, PDict (to_persist_dict (v_host env) s))) m)"
    by (rule items_all_file_of [OF assms(1)])
  with m assms(2) show ?thesis
    by (auto simp: save_def m_def [symmetric] Let_def case_prod_unfold kept_def file_of_def file_all_def)
qed

section \<open>Backend writes that are not claims\<close>

text \<open>\<open>Q\<close> survives what revocations and drains do to the backend at the time of \<open>env\<close>.\<close>

definition quiet :: "'s backend \<Rightarrow> senv \<Rightarrow> ('s \<Rightarrow> bool) \<Rightarrow> bool" where
  "quiet be env Q \<longleftrightarrow>
     (\<forall>s. Q s \<longrightarrow>
        (\<forall>k. Q (snd (b_get be (v_now env) ns_eph_revoked k s))) \<and>
        (\<forall>k t. 86400 \<le> t \<longrightarrow> Q (b_set_ttl be (v_now env) ns_eph_revoked k (PBool True) t s)) \<and>
        (\<forall>k. Q (snd (b_get be (v_now env) ''maintenance'' k s))) \<and>
        (\<forall>k v t. Q (b_set_ttl be (v_now env) ''maintenance'' k v t s)) \<and>
        (\<forall>k v t. Q (snd (b_set_if_absent be (v_now env) ''maintenance'' k v t s))))"

text \<open>\<open>Q\<close> survives the claims made for live sessions that satisfy \<open>P\<close>.\<close>

definition claims_keep ::
    "'s backend \<Rightarrow> senv \<Rightarrow> (string \<Rightarrow> esession \<Rightarrow> bool) \<Rightarrow> ('s \<Rightarrow> bool) \<Rightarrow> bool" where
  "claims_keep be env P Q \<longleftrightarrow>
     (\<forall>k e s. P k e \<and> v_now env < e_expires_at e \<and> Q s \<longrightarrow>
        Q (snd (claim_consumed be env k (e_expires_at e) s)) \<and>
        Q (snd (claim_use be env k (e_max_uses e) (e_expires_at e) s)))"

lemma quiet_get: "quiet be env Q \<Longrightarrow> Q s \<Longrightarrow> Q (snd (is_revoked_shared be env k s))"
  by (simp add: quiet_def is_revoked_shared_def case_prod_unfold Let_def)

lemma quiet_mark: "quiet be env Q \<Longrightarrow> Q s \<Longrightarrow> Q (mark_revoked_shared be env k e s)"
proof -
  assume "quiet be env Q" "Q s"
  moreover have "(86400::rat) \<le> of_int (max 86400 n)" for n
    by (metis max.cobounded1 of_int_le_iff of_int_numeral)
  ultimately show ?thesis by (simp add: quiet_def mark_revoked_shared_def)
qed

lemma not_expired_now: "\<not> session_expired (v_host env) s \<Longrightarrow> v_now env < e_expires_at s"
  by (auto simp: session_expired_def split: if_splits)

lemma session_expired_host_of [simp]: "session_expired (host_of env) s = session_expired (v_host env) s"
  by (simp add: host_of_def session_expired_def)

section \<open>Every operation keeps the invariant\<close>

lemma kept_get:
  assumes "stable P" "quiet be env Q" "kept P Q st"
  shows "kept P Q (snd (get_session be env tok st))"
    and "fst (get_session be env tok st) = Some s \<Longrightarrow>
           P tok s \<and> map_of (st_sessions (snd (get_session be env tok st))) tok = Some s"
proof -
  define st1 where "st1 = (if map_of (st_sessions st) tok = None then load_store env st else st)"
  have st1: "kept P Q st1" using assms by (simp add: st1_def kept_load)
  show "kept P Q (snd (get_session be env tok st))"
  proof (cases "map_of (st_sessions st1) tok")
    case None
    with st1 show ?thesis by (simp add: get_session_def st1_def [symmetric] Let_def)
  next
    case (Some s)
    have "P tok (revoke_mark s)"
      using assms(1) keptD(2) [OF st1 Some] grows_marks(4) by (rule stableD)
    moreover have "kept P Q (st1\<lparr>st_state := snd (is_revoked_shared be env tok (st_state st1))\<rparr>)"
      by (rule kept_state [OF st1 quiet_get [OF assms(2) keptD(1) [OF st1]]])
    ultimately show ?thesis
      using Some st1
      by (simp add: get_session_def st1_def [symmetric] Let_def case_prod_unfold kept_put)
  qed
  assume s: "fst (get_session be env tok st) = Some s"
  then obtain s0 where s0: "map_of (st_sessions st1) tok = Some s0"
    by (cases "map_of (st_sessions st1) tok") (auto simp: get_session_def st1_def [symmetric] Let_def)
  with s have "s = s0 \<or> s = revoke_mark s0"
    by (auto simp: get_session_def st1_def [symmetric] Let_def case_prod_unfold split: if_splits)
  then have "grows s0 s" by auto
  then have "P tok s" using assms(1) keptD(2) [OF st1 s0] stableD by blast
  moreover have "map_of (st_sessions (snd (get_session be env tok st))) tok = Some s"
    using s s0 by (auto simp: get_session_def st1_def [symmetric] Let_def case_prod_unfold
        put_session_def split: if_splits)
  ultimately show "P tok s \<and> map_of (st_sessions (snd (get_session be env tok st))) tok = Some s" ..
qed

lemma kept_get_eq:
  assumes "stable P" "quiet be env Q" "kept P Q st" "get_session be env tok st = (hit, st')"
  shows "kept P Q st'" and "hit = Some s \<Longrightarrow> P tok s" and "hit = Some s \<Longrightarrow> map_of (st_sessions st') tok = Some s"
  using kept_get [OF assms(1-3), of tok] assms(4) by auto

lemma kept_save_eq:
  "stable P \<Longrightarrow> kept P Q st \<Longrightarrow> save env r st = (x, st') \<Longrightarrow> kept P Q st'"
  using kept_save [of P Q st env r] by simp

lemma kept_revoke_in_store:
  assumes "stable P" "quiet be env Q" "kept P Q st"
  shows "kept P Q (snd (revoke_in_store be env tok st))"
proof -
  define t where "t = (if CHR ''.'' \<in> set tok
                      then (case verify_ephemeral_token env tok of
                              Some (t, _, _) \<Rightarrow> t | None \<Rightarrow> tok)
                      else tok)"
  obtain hit st1 where g: "get_session be env t st = (hit, st1)" by fastforce
  note k = kept_get_eq [OF assms g]
  show ?thesis
  proof (cases hit)
    case None
    with g k show ?thesis by (simp add: revoke_in_store_def t_def [symmetric] Let_def)
  next
    case (Some s)
    define st2 where "st2 = put_session t (revoke_mark s) st1"
    have st2: "kept P Q st2"
      unfolding st2_def by (rule kept_put [OF k(1) stableD [OF assms(1) k(2) [OF Some] grows_marks(4)]])
    have "kept P Q (st2\<lparr>st_state := mark_revoked_shared be env t (e_expires_at s) (st_state st2)\<rparr>)"
      by (rule kept_state [OF st2 quiet_mark [OF assms(2) keptD(1) [OF st2]]])
    from kept_save [OF assms(1) this, of env False] show ?thesis
      using g Some
      by (auto simp: revoke_in_store_def t_def [symmetric] st2_def [symmetric] Let_def
          split: prod.splits outcome.splits)
  qed
qed

lemma kept_find: "kept P Q st \<Longrightarrow> kept P Q (snd (find_by_token_id env i st))"
  by (simp add: find_by_token_id_def Let_def kept_load)

lemma kept_set_label:
  assumes "stable P" "quiet be env Q" "kept P Q st"
  shows "kept P Q (snd (set_label be env tok label st))"
proof -
  have then_save: "kept P Q (snd (case hit of
           None \<Rightarrow> (Returned False, st1)
         | Some s \<Rightarrow>
             (case save env False (put_session key (s\<lparr>e_label := label\<rparr>) st1) of
                (Raised, st) \<Rightarrow> (Raised, st)
              | (Returned _, st) \<Rightarrow> (Returned True, st))))"
    if "kept P Q st1" "\<And>s. hit = Some s \<Longrightarrow> P key s" for hit key st1
  proof (cases hit)
    case (Some s)
    have "kept P Q (put_session key (s\<lparr>e_label := label\<rparr>) st1)"
      by (rule kept_put [OF that(1) stableD [OF assms(1) that(2) [OF Some] grows_marks(5)]])
    from kept_save [OF assms(1) this, of env False] show ?thesis
      by (auto simp: Some split: prod.splits outcome.splits)
  qed (simp add: that)
  obtain found st1 where f: "find_by_token_id env tok st = (found, st1)" by fastforce
  have st1: "kept P Q st1" using kept_find [OF assms(3), of env tok] f by simp
  show ?thesis
  proof (cases found)
    case None
    obtain hit st2 where g: "get_session be env tok st1 = (hit, st2)" by fastforce
    with then_save kept_get_eq [OF assms(1,2) st1 g] f None show ?thesis
      by (simp add: set_label_def Let_def)
  next
    case (Some k)
    with then_save [OF st1, of "map_of (st_sessions st1) k" k] keptD(2) [OF st1] f show ?thesis
      by (simp add: set_label_def Let_def)
  qed
qed

lemma kept_note_connection:
  assumes "stable P" "kept P Q st"
  shows "kept P Q (snd (note_connection env tok opened st))"
proof -
  define st1 where "st1 = (if map_of (st_sessions st) tok = None then load_store env st else st)"
  have st1: "kept P Q st1" using assms by (simp add: st1_def kept_load)
  show ?thesis
  proof (cases "map_of (st_sessions st1) tok")
    case None
    with st1 show ?thesis by (simp add: note_connection_def st1_def [symmetric] Let_def)
  next
    case (Some s)
    have "kept P Q (put_session tok (note_connected (v_now env) s) st1)"
      "kept P Q (put_session tok (note_disconnected (v_now env) s) st1)"
      by (rule kept_put [OF st1 stableD [OF assms(1) keptD(2) [OF st1 Some]]], simp)+
    then show ?thesis
      using Some by (simp add: note_connection_def st1_def [symmetric] Let_def kept_save [OF assms(1)])
  qed
qed

lemma kept_cleanup:
  assumes "stable P" "kept P Q st"
  shows "kept P Q (snd (cleanup env st))"
proof -
  have "kept P Q (st\<lparr>st_sessions := filter f (st_sessions st)\<rparr>)" for f
    using assms(2) by (auto simp: kept_def sess_all_def)
  with assms(1) show ?thesis
    by (simp add: cleanup_def Let_def kept_save)
qed

lemma requested_token [simp]: "e_token (requested_session env ttl a) = a_token a"
  by (simp add: requested_session_def new_session_def)

lemma create_session_store:
  "snd (create_session env ttl a st) =
     (if \<not> given (a_resource a) \<and> v_require_resource env then st
      else snd (save env True (put_session (a_token a) (requested_session env ttl a) st)))"
proof -
  have "snd (case r of (Raised, x) \<Rightarrow> (Raised, x) | (Returned _, x) \<Rightarrow> (Returned c, x)) = snd r"
    for r :: "unit outcome \<times> 'a store" and c :: "esession \<times> string"
    by (cases r; cases "fst r") auto
  then show ?thesis by (simp add: create_session_def Let_def)
qed

lemma kept_create:
  assumes "stable P" "kept P Q st" and "P (a_token a) (requested_session env ttl a)"
  shows "kept P Q (snd (create_session env ttl a st))"
  using kept_save [OF assms(1) kept_put [OF assms(2,3)]] assms(2)
  by (simp add: create_session_store)

lemma kept_revoke_session:
  assumes "stable P" "quiet be env Q" "kept P Q st"
  shows "kept P Q (snd (revoke_session be env stok st))"
proof -
  define t where "t = (case verify_ephemeral_token env stok of Some (t, _, _) \<Rightarrow> t | None \<Rightarrow> stok)"
  obtain hit st1 where g: "get_session be env t st = (hit, st1)" by fastforce
  have st1: "kept P Q st1" by (rule kept_get_eq (1) [OF assms g])
  note r = kept_revoke_in_store [OF assms(1,2)]
  show ?thesis
    using r [OF st1] r [OF kept_load_if_changed [OF st1]] g
    by (simp add: revoke_session_def t_def [symmetric] Let_def split: option.split prod.split)
qed

lemma kept_drain_list:
  assumes "stable P" "quiet be env Q" "kept P Q st"
  shows "kept P Q (snd (drain_list be env is n st))"
  using assms(3)
proof (induction "is" arbitrary: n st)
  case (Cons i "is")
  then show ?case
    using kept_revoke_session [OF assms(1,2) Cons.prems, of i]
    by (auto split: prod.splits outcome.splits)
qed simp

lemma kept_drain_sessions:
  "stable P \<Longrightarrow> quiet be env Q \<Longrightarrow> kept P Q st \<Longrightarrow> kept P Q (snd (drain_sessions be env st))"
  unfolding drain_sessions_def Let_def by (intro kept_drain_list kept_load_if_changed)

lemma kept_drain_sweep:
  assumes "stable P" "quiet be env Q" "kept P Q st"
  shows "kept P Q (snd (drain_sweep be env mid st))"
proof -
  define g where "g = (if mid \<noteq> [] then b_get be (v_now env) ''maintenance'' (''drain_done:'' @ mid) (st_state st)
             else (PNone, st_state st))"
  define st1 where "st1 = st\<lparr>st_state := snd g\<rparr>"
  define w where "w = b_set_if_absent be (v_now env) ''maintenance'' (''drain_lease:'' @ mid)
                                (PStr ''1'') (Some 30) (st_state st1)"
  define st2 where "st2 = st1\<lparr>st_state := snd w\<rparr>"
  obtain r st3 where d: "drain_sessions be env st2 = (r, st3)" by fastforce
  have "Q (snd g)" using assms(2) keptD(1) [OF assms(3)] by (simp add: g_def quiet_def)
  then have st1: "kept P Q st1" unfolding st1_def by (rule kept_state [OF assms(3)])
  have "Q (snd w)" using assms(2) keptD(1) [OF st1] by (simp add: w_def quiet_def)
  then have st2: "kept P Q st2" unfolding st2_def by (rule kept_state [OF st1])
  have st3: "kept P Q st3" using kept_drain_sessions [OF assms(1,2) st2] d by simp
  have "Q (b_set_ttl be (v_now env) ''maintenance'' (''drain_done:'' @ mid) (PStr ''1'') 2592000 (st_state st3))"
    using assms(2) keptD(1) [OF st3] by (simp add: quiet_def)
  then have st4: "kept P Q (st3\<lparr>st_state := b_set_ttl be (v_now env) ''maintenance''
      (''drain_done:'' @ mid) (PStr ''1'') 2592000 (st_state st3)\<rparr>)"
    by (rule kept_state [OF st3])
  have "drain_sweep be env mid st =
     (if truthy (fst g) then (True, st1)
      else if \<not> fst w then (False, st2)
      else if maintenance_id (v_flag_lease env) \<noteq> PStr mid then (True, st2)
      else (case r of Raised \<Rightarrow> (False, st3)
            | Returned _ \<Rightarrow> (False, if maintenance_id (v_flag_done env) = PStr mid
                 then st3\<lparr>st_state := b_set_ttl be (v_now env) ''maintenance''
                                  (''drain_done:'' @ mid) (PStr ''1'') 2592000 (st_state st3)\<rparr>
                 else st3)))"
    by (simp only: drain_sweep_def g_def [symmetric] Let_def case_prod_unfold st1_def [symmetric]
        w_def [symmetric] st2_def [symmetric] d fst_conv snd_conv)
  then show ?thesis
    using st1 st2 st3 st4 by (simp split: outcome.split)
qed

lemma kept_enforce_drain:
  assumes "stable P" "quiet be env Q" "kept P Q st"
  shows "kept P Q (snd (enforce_drain_deadline be env st))"
proof -
  define mid where "mid = (case maintenance_id (v_flag env) of PStr m \<Rightarrow> m | _ \<Rightarrow> [])"
  obtain b st1 where d: "drain_sweep be env mid st = (b, st1)" by fastforce
  have "kept P Q st1" using kept_drain_sweep [OF assms, of mid] d by simp
  then show ?thesis
    using assms(3)
    by (simp add: enforce_drain_deadline_def mid_def [symmetric] Let_def d kept_memo split: bool.split)
qed

lemma kept_run_checks:
  assumes "stable P" "quiet be env Q" "kept P Q st"
  shows "kept P Q (snd (run_checks be env cs s ip resource st))"
  using assms(3) kept_enforce_drain [OF assms] by (simp add: run_checks_def Let_def)

lemma run_checks_fst [simp]:
  "fst (run_checks be env cs s ip resource st) \<longleftrightarrow> denial_reason (host_of env) s cs ip resource = None"
  by (simp add: run_checks_def Let_def)

lemma kept_is_session_revoked:
  assumes "stable P" "quiet be env Q" "kept P Q st"
  shows "kept P Q (snd (is_session_revoked be env stok st))"
    and "kept P Q (snd (is_session_expired be env stok st))"
    and "kept P Q (snd (preview_session be env stok st))"
proof -
  have got: "kept P Q st1" if "get_session be env tok (load_if_changed env st) = (hit, st1)" for tok hit st1
    by (rule kept_get_eq (1) [OF assms(1,2) kept_load_if_changed [OF assms(3)] that])
  show "kept P Q (snd (is_session_revoked be env stok st))"
    "kept P Q (snd (is_session_expired be env stok st))"
    "kept P Q (snd (preview_session be env stok st))"
    unfolding is_session_revoked_def is_session_expired_def preview_session_def
    using assms(3) by (simp_all split: option.split prod.split add: got)
qed

lemma kept_check_session_permission:
  assumes "stable P" "quiet be env Q" "kept P Q st"
  shows "kept P Q (snd (check_session_permission be env tok perm resource ip st))"
proof -
  obtain hit st1 where g: "get_session be env tok (load_if_changed env st) = (hit, st1)" by fastforce
  note k = kept_get_eq (1) [OF assms(1,2) kept_load_if_changed [OF assms(3)] g]
  show ?thesis
    using k kept_run_checks [OF assms(1,2) k]
    by (simp add: check_session_permission_def g Let_def case_prod_unfold split: option.split)
qed

lemma kept_validate:
  assumes "stable P" "quiet be env Q" "kept P Q st"
  shows "kept P Q (snd (validate_session be env stok ip resource st))"
proof (cases "verify_ephemeral_token env stok")
  case (Some p)
  obtain tok e b where p: "p = (tok, e, b)" by (cases p)
  obtain hit st1 where g: "get_session be env tok st = (hit, st1)" by fastforce
  note k = kept_get_eq [OF assms g]
  show ?thesis
  proof (cases hit)
    case hit: (Some s)
    have "kept P Q (put_session tok (s\<lparr>e_allowed_ip := ip\<rparr>) st1)"
      by (rule kept_put [OF k(1) stableD [OF assms(1) k(2) [OF hit] grows_marks(6)]])
    moreover obtain x st2 where sv:
      "save env False (put_session tok (s\<lparr>e_allowed_ip := ip\<rparr>) st1) = (x, st2)" by fastforce
    ultimately have st2: "kept P Q st2" using kept_save_eq [OF assms(1)] by blast
    show ?thesis
    proof (cases "e_allowed_ip s = Some ''first-observed'' \<and> given ip")
      case True
      then show ?thesis
        using st2 kept_run_checks [OF assms(1,2) st2]
        by (simp add: validate_session_def Some p g hit sv Let_def case_prod_unfold
            split: option.split outcome.split)
    next
      case False
      then show ?thesis
        using k(1) kept_run_checks [OF assms(1,2) k(1)]
        by (auto simp: validate_session_def Some p g hit Let_def case_prod_unfold
            split: option.split)
    qed
  qed (use k in \<open>simp add: validate_session_def Some p g\<close>)
qed (use assms in \<open>simp add: validate_session_def\<close>)

lemma kept_consume:
  assumes "stable P" "quiet be env Q" "claims_keep be env P Q" "kept P Q st"
  shows "kept P Q (snd (consume_ephemeral_session be env stok st))"
proof (cases "maintenance_active env \<or> verify_ephemeral_token env stok = None")
  case False
  then obtain tok e b where p: "\<not> maintenance_active env" "verify_ephemeral_token env stok = Some (tok, e, b)"
    by auto
  obtain hit st1 where g: "get_session be env tok st = (hit, st1)" by fastforce
  note k = kept_get_eq [OF assms(1,2,4) g]
  show ?thesis
  proof (cases "\<exists>s. hit = Some s \<and> \<not> e_revoked s \<and> \<not> session_expired (v_host env) s \<and>
      (e_instance_id s = [] \<or> e_instance_id s = h_instance (v_host env)) \<and> e_single_use s")
    case True
    then obtain s where s: "hit = Some s" "\<not> e_revoked s" "\<not> session_expired (v_host env) s"
      "e_instance_id s = [] \<or> e_instance_id s = h_instance (v_host env)" "e_single_use s" by auto
    obtain won state where c: "claim_consumed be env tok (e_expires_at s) (st_state st1) = (won, state)"
      by fastforce
    have "Q state"
      using assms(3) k(2) [OF s(1)] not_expired_now [OF s(3)] keptD(1) [OF k(1)] c
      by (simp add: claims_keep_def) (metis snd_conv)
    then have st2: "kept P Q (st1\<lparr>st_state := state\<rparr>)" by (rule kept_state [OF k(1)])
    have "kept P Q (put_session tok ((revoke_mark s)\<lparr>e_used := True, e_last_used_at := Some (v_now env)\<rparr>)
        (st1\<lparr>st_state := state\<rparr>))"
      by (rule kept_put [OF st2 stableD [OF assms(1) k(2) [OF s(1)] grows_marks(7)]])
    from kept_save [OF assms(1) this, of env False] show ?thesis
      using st2 s
      by (auto simp: consume_ephemeral_session_def p g c Let_def split: prod.splits outcome.splits)
  next
    case False
    with k(1) show ?thesis
      by (auto simp: consume_ephemeral_session_def p g split: option.split)
  qed
qed (use assms in \<open>auto simp: consume_ephemeral_session_def\<close>)

lemma kept_activation_denied:
  assumes "stable P" "claims_keep be env P Q" "P tok s" "Q state"
    and "activation_denied be env s tok ip state = (denied, s', state')"
  shows "P tok s'" and "Q state'"
proof -
  define s1 where "s1 = (if e_allowed_ip s = Some ''first-observed'' \<and> given ip
                 then s\<lparr>e_allowed_ip := ip\<rparr> else s)"
  have "P tok s1"
    unfolding s1_def using assms(3) stableD [OF assms(1,3) grows_marks(6)] by simp
  moreover have same: "e_expires_at s1 = e_expires_at s" by (simp add: s1_def)
  ultimately have c: "Q (snd (claim_consumed be env tok (e_expires_at s1) state))"
    "Q (snd (claim_use be env tok (e_max_uses s1) (e_expires_at s1) state))"
    if "\<not> session_expired (v_host env) s"
    using assms(2,4) not_expired_now [OF that] unfolding claims_keep_def by metis+
  show "P tok s'" "Q state'"
    using assms(3-5) c \<open>P tok s1\<close>
    by (auto simp: activation_denied_def s1_def [symmetric] link_allowed_iff Let_def case_prod_unfold
        split: if_splits)
qed

lemma kept_activate:
  assumes "stable P" "quiet be env Q" "claims_keep be env P Q" "kept P Q st"
  shows "kept P Q (snd (activate_ephemeral_session be env stok ip st))"
proof (cases "maintenance_active env \<or> verify_ephemeral_token env stok = None")
  case False
  then obtain tok e b where p: "\<not> maintenance_active env" "verify_ephemeral_token env stok = Some (tok, e, b)"
    by auto
  obtain hit st1 where g: "get_session be env tok (load_if_changed env st) = (hit, st1)" by fastforce
  note k = kept_get_eq [OF assms(1,2) kept_load_if_changed [OF assms(4)] g]
  show ?thesis
  proof (cases hit)
    case (Some s)
    obtain denied s' state where d: "activation_denied be env s tok ip (st_state st1) = (denied, s', state)"
      by (metis prod_cases3)
    note a = kept_activation_denied [OF assms(1,3) k(2) [OF Some] keptD(1) [OF k(1)] d]
    have st2: "kept P Q ((put_session tok s' st1)\<lparr>st_state := state\<rparr>)"
      by (rule kept_state [OF kept_put [OF k(1) a(1)] a(2)])
    have "kept P Q (put_session tok (mark_used (v_now env) ip s') ((put_session tok s' st1)\<lparr>st_state := state\<rparr>))"
      by (rule kept_put [OF st2 stableD [OF assms(1) a(1) grows_marks(1)]])
    from kept_save [OF assms(1) this, of env False] show ?thesis
      using st2 Some
      by (auto simp: activate_ephemeral_session_def p g d Let_def split: prod.splits outcome.splits)
  qed (use k in \<open>simp add: activate_ephemeral_session_def p g\<close>)
qed (use assms in \<open>auto simp: activate_ephemeral_session_def\<close>)

lemma kept_check_permission:
  assumes "stable P" "quiet be env Q" "claims_keep be env P Q" "kept P Q st"
  shows "kept P Q (snd (check_permission be env stok perm resource ip st))"
proof -
  obtain r st1 where v: "validate_session be env stok ip resource (load_if_changed env st) = (r, st1)"
    by fastforce
  have st1: "kept P Q st1"
    using kept_validate [OF assms(1,2) kept_load_if_changed [OF assms(4)]] v by (metis snd_conv)
  then show ?thesis
    using kept_consume [OF assms(1-3) st1, of stok]
    by (auto simp: check_permission_def v Let_def split: prod.splits outcome.splits option.splits)
qed

end
