(* ===== verification/SessionSystem.thy ===== *)
theory SessionSystem
  imports SessionInvariants
begin

text \<open>
  Several service processes over one session file and one shared-state backend.  A run is a list of
  requests, each served by one process in the environment it finds (clocks, faults, flags).  The
  lemmas lift the per-operation invariants to runs and derive from the backend contract: a
  single-use link is redeemed at most once, a bounded link at most as often as its budget allows,
  and a revocation reaches every process.
\<close>

datatype request =
    RqCreate time session_args
  | RqGet string
  | RqValidate string "string option" "string option"
  | RqRevoke string
  | RqLabel string "string option"
  | RqNote string bool
  | RqCleanup
  | RqPreview string
  | RqIsRevoked string
  | RqActivate string "string option"
  | RqConsume string
  | RqCheckLink string string "string option" "string option"
  | RqCheckSession string string "string option" "string option"

datatype answer =
    AnRaised
  | AnDone
  | AnBool bool
  | AnToken "string option"
  | AnSession "esession option"
  | AnPreview "preview option"

definition answer_of :: "('a \<Rightarrow> answer) \<Rightarrow> 'a outcome \<Rightarrow> answer" where
  "answer_of f r = (case r of Returned x \<Rightarrow> f x | Raised \<Rightarrow> AnRaised)"

definition serve :: "'s backend \<Rightarrow> senv \<Rightarrow> request \<Rightarrow> 's store \<Rightarrow> answer \<times> 's store" where
  "serve be env rq st =
     (case rq of
        RqCreate ttl a \<Rightarrow> map_prod (answer_of (\<lambda>(_, t). AnToken (Some t))) id (create_session env ttl a st)
      | RqGet tok \<Rightarrow> map_prod AnSession id (get_session be env tok st)
      | RqValidate t ip res \<Rightarrow> map_prod (answer_of AnSession) id (validate_session be env t ip res st)
      | RqRevoke t \<Rightarrow> map_prod (answer_of AnBool) id (revoke_session be env t st)
      | RqLabel t l \<Rightarrow> map_prod (answer_of AnBool) id (set_label be env t l st)
      | RqNote t b \<Rightarrow> map_prod (answer_of (\<lambda>_. AnDone)) id (note_connection env t b st)
      | RqCleanup \<Rightarrow> map_prod (answer_of (\<lambda>_. AnDone)) id (cleanup env st)
      | RqPreview t \<Rightarrow> map_prod AnPreview id (preview_session be env t st)
      | RqIsRevoked t \<Rightarrow> map_prod AnBool id (is_session_revoked be env t st)
      | RqActivate t ip \<Rightarrow> map_prod (answer_of AnToken) id (activate_ephemeral_session be env t ip st)
      | RqConsume t \<Rightarrow> map_prod (answer_of AnBool) id (consume_ephemeral_session be env t st)
      | RqCheckLink t p res ip \<Rightarrow>
          map_prod (answer_of AnBool) id (check_permission be env t p res ip st)
      | RqCheckSession t p res ip \<Rightarrow>
          map_prod AnBool id (check_session_permission be env t p res ip st))"

section \<open>Processes\<close>

type_synonym local = "(string \<times> esession) list \<times> nat \<times> (string \<times> time)"

record 's system =
  sy_local :: "nat \<Rightarrow> local"
  sy_file :: "json_file option"
  sy_state :: 's

definition store_at :: "nat \<Rightarrow> 's system \<Rightarrow> 's store" where
  "store_at pid sy =
     (case sy_local sy pid of (m, seen, memo) \<Rightarrow>
        \<lparr> st_sessions = m, st_seen = seen, st_memo = memo, st_file = sy_file sy, st_state = sy_state sy \<rparr>)"

definition put_store :: "nat \<Rightarrow> 's store \<Rightarrow> 's system \<Rightarrow> 's system" where
  "put_store pid st sy =
     \<lparr> sy_local = (sy_local sy)(pid := (st_sessions st, st_seen st, st_memo st)),
       sy_file = st_file st, sy_state = st_state st \<rparr>"

type_synonym event = "nat \<times> senv \<times> request"

fun serve_all :: "'s backend \<Rightarrow> event list \<Rightarrow> 's system \<Rightarrow> answer list \<times> 's system" where
  "serve_all be [] sy = ([], sy)"
| "serve_all be ((pid, env, rq) # evs) sy =
     (let (a, st) = serve be env rq (store_at pid sy);
          (as, sy) = serve_all be evs (put_store pid st sy)
      in (a # as, sy))"

definition sys_kept :: "(string \<Rightarrow> esession \<Rightarrow> bool) \<Rightarrow> ('s \<Rightarrow> bool) \<Rightarrow> 's system \<Rightarrow> bool" where
  "sys_kept P Q sy \<longleftrightarrow> (\<forall>pid. kept P Q (store_at pid sy))"

text \<open>A request is foreign to a token when it does not create a session under it.\<close>

definition creates :: "request \<Rightarrow> string \<Rightarrow> bool" where
  "creates rq tok = (case rq of RqCreate _ a \<Rightarrow> a_token a = tok | _ \<Rightarrow> False)"

lemma kept_serve:
  assumes "stable P" "quiet be env Q" "claims_keep be env P Q" "kept P Q st"
    and "\<And>k s. creates rq k \<Longrightarrow> P k s"
  shows "kept P Q (snd (serve be env rq st))"
proof (cases rq)
  case (RqCreate ttl a)
  have "P (a_token a) s" for s using assms(5) by (simp add: creates_def RqCreate)
  then show ?thesis using kept_create [OF assms(1,4)] by (simp add: serve_def RqCreate)
qed (use assms in \<open>simp_all add: serve_def kept_get kept_validate kept_revoke_session kept_set_label
      kept_note_connection kept_cleanup kept_is_session_revoked kept_activate kept_consume
      kept_check_permission kept_check_session_permission\<close>)

lemma store_at_fields [simp]:
  "st_sessions (store_at pid sy) = fst (sy_local sy pid)"
  "st_file (store_at pid sy) = sy_file sy" "st_state (store_at pid sy) = sy_state sy"
  by (simp_all add: store_at_def split: prod.split)

lemma sys_kept_iff:
  "sys_kept P Q sy \<longleftrightarrow>
     (\<forall>pid. sess_all P (fst (sy_local sy pid))) \<and> file_all P (sy_file sy) \<and> Q (sy_state sy)"
  by (auto simp: sys_kept_def kept_def)

lemma sys_kept_put:
  "sys_kept P Q' sy \<Longrightarrow> kept P Q st \<Longrightarrow> sys_kept P Q (put_store pid st sy)"
  by (simp add: sys_kept_iff kept_def put_store_def)

lemma sys_kept_serve:
  assumes "stable P" "quiet be env Q" "claims_keep be env P Q" "sys_kept P Q sy"
    and "\<And>k s. creates rq k \<Longrightarrow> P k s"
  shows "sys_kept P Q (put_store pid (snd (serve be env rq (store_at pid sy))) sy)"
proof -
  have "kept P Q (store_at pid sy)" using assms(4) by (simp add: sys_kept_def)
  from kept_serve [OF assms(1-3) this assms(5)] show ?thesis
    by (rule sys_kept_put [OF assms(4)])
qed

lemma sys_kept_run:
  assumes "stable P" and "\<And>pid env rq. (pid, env, rq) \<in> set evs \<Longrightarrow>
      quiet be env Q \<and> claims_keep be env P Q \<and> (\<forall>k s. creates rq k \<longrightarrow> P k s)"
    and "sys_kept P Q sy"
  shows "sys_kept P Q (snd (serve_all be evs sy))"
  using assms(2,3)
proof (induction evs arbitrary: sy)
  case (Cons ev evs)
  obtain pid env rq where ev: "ev = (pid, env, rq)" by (cases ev)
  have "quiet be env Q" "claims_keep be env P Q" and new: "\<And>k s. creates rq k \<Longrightarrow> P k s"
    using Cons.prems(1) [of pid env rq] by (auto simp: ev)
  then have "sys_kept P Q (put_store pid (snd (serve be env rq (store_at pid sy))) sy)"
    using sys_kept_serve [OF assms(1) _ _ Cons.prems(2), of be env rq pid] by blast
  then have "sys_kept P Q (snd (serve_all be evs
      (put_store pid (snd (serve be env rq (store_at pid sy))) sy)))"
    by (rule Cons.IH [rotated]) (erule Cons.prems(1) [OF list.set_intros(2)])
  then show ?case by (simp add: ev Let_def case_prod_unfold)
qed simp

section \<open>Redemptions\<close>

text \<open>An answer that redeems the link of \<open>tok\<close>: it was activated, or consumed as a bearer token.\<close>

definition activated :: "string \<Rightarrow> request \<Rightarrow> answer \<Rightarrow> bool" where
  "activated tok rq a \<longleftrightarrow> (case rq of RqActivate _ _ \<Rightarrow> a = AnToken (Some tok) | _ \<Rightarrow> False)"

definition link_names :: "senv \<Rightarrow> string \<Rightarrow> string \<Rightarrow> bool" where
  "link_names env stok tok \<longleftrightarrow> (\<exists>e b. verify_ephemeral_token env stok = Some (tok, e, b))"

lemma link_names_code [code]:
  "link_names env stok tok =
     (case verify_ephemeral_token env stok of Some (t, _, _) \<Rightarrow> t = tok | None \<Rightarrow> False)"
  by (auto simp: link_names_def split: option.split)

definition burned :: "senv \<Rightarrow> string \<Rightarrow> request \<Rightarrow> answer \<Rightarrow> bool" where
  "burned env tok rq a \<longleftrightarrow>
     (case rq of RqConsume t \<Rightarrow> link_names env t tok \<and> a = AnBool True | _ \<Rightarrow> False)"

definition redemptions :: "string \<Rightarrow> event list \<Rightarrow> answer list \<Rightarrow> nat" where
  "redemptions tok evs as =
     length (filter (\<lambda>((pid, env, rq), a). activated tok rq a \<or> burned env tok rq a) (zip evs as))"

definition activations :: "string \<Rightarrow> event list \<Rightarrow> answer list \<Rightarrow> nat" where
  "activations tok evs as = length (filter (\<lambda>((pid, env, rq), a). activated tok rq a) (zip evs as))"

definition single_use_until :: "string \<Rightarrow> time \<Rightarrow> string \<Rightarrow> esession \<Rightarrow> bool" where
  "single_use_until tok E k s \<longleftrightarrow> (k = tok \<longrightarrow> e_single_use s \<and> e_expires_at s = E)"

definition budget_until :: "string \<Rightarrow> int \<Rightarrow> time \<Rightarrow> string \<Rightarrow> esession \<Rightarrow> bool" where
  "budget_until tok M E k s \<longleftrightarrow>
     (k = tok \<longrightarrow> \<not> e_single_use s \<and> 0 < M \<and> e_max_uses s = M \<and> e_expires_at s = E)"

lemma stable_grants [simp]: "stable (single_use_until tok E)" "stable (budget_until tok M E)"
  by (auto simp: stable_def single_use_until_def budget_until_def grows_def)

text \<open>A claim record that outlives the session; \<open>n\<close> uses counted.\<close>

definition held :: "time \<Rightarrow> entry option \<Rightarrow> bool" where
  "held E en \<longleftrightarrow> (\<exists>v x. en = Some (v, Some x) \<and> E \<le> x)"

definition counted :: "time \<Rightarrow> nat \<Rightarrow> entry option \<Rightarrow> bool" where
  "counted E n en \<longleftrightarrow>
     (n = 0 \<and> en = None) \<or> (\<exists>m x. en = Some (PInt m, Some x) \<and> E \<le> x \<and> int n \<le> m)"

lemma save_state [simp]: "st_state (snd (save env r st)) = st_state st"
  by (simp add: save_def Let_def case_prod_unfold)

lemma save_state_eq: "save env r st = (x, st') \<Longrightarrow> st_state st' = st_state st"
  using save_state [of env r st] by simp

lemma put_session_state [simp]: "st_state (put_session k s st) = st_state st"
  by (simp add: put_session_def)

lemma claim_ttl_covers: "E \<le> v_now env + claim_ttl env E" "claim_ttl env E \<noteq> 0"
  by (auto simp: claim_ttl_def max_def)

context kv_store
begin

lemma quiet_look:
  assumes "ns \<noteq> ns_eph_revoked" and "ns \<noteq> ''maintenance''"
  shows "quiet be env (\<lambda>s. R (look s (ns, k)))"
  using assms by (simp add: quiet_def get_other set_ttl_look claim_other)

lemma claims_keep_held:
  "claims_keep be env (single_use_until tok E) (\<lambda>s. held E (look s (ns_consumed, tok)))"
proof -
  have "held E (look (snd (claim_consumed be env k (e_expires_at e) s)) (ns_consumed, tok))"
    if "single_use_until tok E k e" "held E (look s (ns_consumed, tok))" for k e s
  proof (cases "k = tok")
    case True
    with that claim_ttl_covers [where E = E and env = env] show ?thesis
      by (auto simp: claim_consumed_def claim_look single_use_until_def held_def claim_expiry_def)
  next
    case False
    with that show ?thesis by (simp add: claim_consumed_def claim_other)
  qed
  moreover have "look (snd (claim_use be env k m e s)) (ns_consumed, tok) = look s (ns_consumed, tok)"
    for k m e s by (simp add: claim_use_def Let_def case_prod_unfold incr_other)
  ultimately show ?thesis by (simp add: claims_keep_def)
qed

lemma claim_use_counts:
  assumes "counted E n (look s (ns_uses, tok))" and "v_now env < E"
    and "fst (claim_use be env tok M E s)"
  shows "counted E (Suc n) (look (snd (claim_use be env tok M E s)) (ns_uses, tok)) \<and> int (Suc n) \<le> M"
proof -
  from assms(1) consider "n = 0" "look s (ns_uses, tok) = None"
    | m x where "look s (ns_uses, tok) = Some (PInt m, Some x)" "E \<le> x" "int n \<le> m"
    by (auto simp: counted_def)
  then show ?thesis
  proof cases
    case 1
    then have "fst (b_increment be (v_now env) ns_uses tok 1 (Some (claim_ttl env E)) s) = 1"
      by (simp add: incr_new live_def)
    with assms(3) 1 claim_ttl_covers (1) [where E = E and env = env] show ?thesis
      by (auto simp: claim_use_def Let_def case_prod_unfold counted_def incr_look split: if_splits)
  next
    case 2
    then have "live (v_now env) (look s (ns_uses, tok)) = Some (PInt m)"
      using assms(2) by (simp add: live_def expired_def)
    then have "fst (b_increment be (v_now env) ns_uses tok 1 (Some (claim_ttl env E)) s) = m + 1"
      by (rule incr_live)
    with assms(3) 2 claim_ttl_covers (1) [where E = E and env = env] show ?thesis
      by (auto simp: claim_use_def Let_def case_prod_unfold counted_def incr_look split: if_splits)
  qed
qed

lemma claims_keep_counted:
  "claims_keep be env (budget_until tok M E) (\<lambda>s. counted E n (look s (ns_uses, tok)))"
proof -
  have "counted E n (look (snd (claim_use be env k (e_max_uses e) (e_expires_at e) s)) (ns_uses, tok))"
    if b: "budget_until tok M E k e" and now: "v_now env < e_expires_at e"
      and c: "counted E n (look s (ns_uses, tok))" for k e s
  proof (cases "k = tok \<and> v_up env")
    case True
    with b have e: "e_expires_at e = E" by (simp add: budget_until_def)
    from c consider "n = 0" "look s (ns_uses, tok) = None"
      | m x where "look s (ns_uses, tok) = Some (PInt m, Some x)" "E \<le> x" "int n \<le> m"
      by (auto simp: counted_def)
    then have "int n \<le> fst (b_increment be (v_now env) ns_uses tok 1 (Some (claim_ttl env E)) s)"
    proof cases
      case 2
      then have "live (v_now env) (look s (ns_uses, tok)) = Some (PInt m)"
        using now e by (simp add: live_def expired_def)
      with 2 show ?thesis by (simp add: incr_live)
    qed (simp add: incr_new live_def)
    with True e claim_ttl_covers (1) [where E = E and env = env] show ?thesis
      by (simp add: claim_use_def Let_def case_prod_unfold counted_def incr_look)
  next
    case False
    with c show ?thesis by (auto simp: claim_use_def Let_def case_prod_unfold incr_other)
  qed
  moreover have "look (snd (claim_consumed be env k e s)) (ns_uses, tok) = look s (ns_uses, tok)"
    for k e s by (simp add: claim_consumed_def claim_other)
  ultimately show ?thesis by (simp add: claims_keep_def)
qed

end

section \<open>What a redemption did\<close>

lemma activate_tokenE:
  assumes "fst (activate_ephemeral_session be env stok ip st) = Returned (Some t)"
  obtains s st1 s' state e b where "\<not> maintenance_active env"
    "verify_ephemeral_token env stok = Some (t, e, b)"
    "get_session be env t (load_if_changed env st) = (Some s, st1)"
    "activation_denied be env s t ip (st_state st1) = (False, s', state)"
    "st_state (snd (activate_ephemeral_session be env stok ip st)) = state"
proof -
  have m: "\<not> maintenance_active env"
    using assms by (cases "maintenance_active env") (simp_all add: activate_ephemeral_session_def)
  obtain tok e b where v: "verify_ephemeral_token env stok = Some (tok, e, b)"
    using assms m by (cases "verify_ephemeral_token env stok") (auto simp: activate_ephemeral_session_def)
  obtain hit st1 where g: "get_session be env tok (load_if_changed env st) = (hit, st1)" by fastforce
  obtain s where s: "hit = Some s"
    using assms m v g by (cases hit) (auto simp: activate_ephemeral_session_def)
  obtain denied s' state where d: "activation_denied be env s tok ip (st_state st1) = (denied, s', state)"
    by (metis prod_cases3)
  have nd: "\<not> denied"
    using assms m v g s d by (auto simp: activate_ephemeral_session_def Let_def split: if_splits)
  obtain r st2 where w: "save env False (put_session tok (mark_used (v_now env) ip s')
      ((put_session tok s' st1)\<lparr>st_state := state\<rparr>)) = (r, st2)" by fastforce
  have st2: "st_state st2 = state" using save_state_eq [OF w] by simp
  have eq: "activate_ephemeral_session be env stok ip st =
      (case r of Raised \<Rightarrow> (Raised, st2) | Returned _ \<Rightarrow> (Returned (Some tok), st2))"
    using m v g s d nd w by (simp add: activate_ephemeral_session_def Let_def split: outcome.split)
  with assms have "tok = t" by (simp split: outcome.splits)
  with m v g s d nd eq st2 show thesis by (intro that) (simp_all split: outcome.splits)
qed

lemma consume_trueE:
  assumes "fst (consume_ephemeral_session be env stok st) = Returned True"
    and "verify_ephemeral_token env stok = Some (t, e, b)"
  obtains s st1 where "\<not> maintenance_active env" "get_session be env t st = (Some s, st1)"
    "\<not> e_revoked s" "\<not> session_expired (v_host env) s"
    "e_single_use s \<Longrightarrow> fst (claim_consumed be env t (e_expires_at s) (st_state st1))"
    "e_single_use s \<Longrightarrow> st_state (snd (consume_ephemeral_session be env stok st)) =
       snd (claim_consumed be env t (e_expires_at s) (st_state st1))"
proof -
  have m: "\<not> maintenance_active env"
    using assms by (cases "maintenance_active env") (simp_all add: consume_ephemeral_session_def)
  obtain hit st1 where g: "get_session be env t st = (hit, st1)" by fastforce
  obtain s where s: "hit = Some s"
    using assms m g by (cases hit) (auto simp: consume_ephemeral_session_def)
  have ok: "\<not> e_revoked s" "\<not> session_expired (v_host env) s"
    "e_instance_id s = [] \<or> e_instance_id s = h_instance (v_host env)"
    using assms m g s by (auto simp: consume_ephemeral_session_def split: if_splits)
  obtain won state where c: "claim_consumed be env t (e_expires_at s) (st_state st1) = (won, state)"
    by fastforce
  have won: "won" if "e_single_use s"
    using assms m g s ok c that by (auto simp: consume_ephemeral_session_def Let_def split: if_splits)
  have "st_state (snd (consume_ephemeral_session be env stok st)) = state" if "e_single_use s"
  proof -
    obtain r st2 where w: "save env False (put_session t ((revoke_mark s)\<lparr>e_used := True,
        e_last_used_at := Some (v_now env)\<rparr>) (st1\<lparr>st_state := state\<rparr>)) = (r, st2)" by fastforce
    then show ?thesis
      using m assms(2) g s ok c that won [OF that] save_state_eq [OF w]
      by (auto simp: consume_ephemeral_session_def Let_def split: outcome.split)
  qed
  moreover have "fst (claim_consumed be env t (e_expires_at s) (st_state st1)) = won"
    "snd (claim_consumed be env t (e_expires_at s) (st_state st1)) = state"
    by (simp_all add: c)
  moreover have "get_session be env t st = (Some s, st1)" using g s by simp
  ultimately show thesis using that m ok(1,2) won by metis
qed

text \<open>The pinned session of an activation keeps its grant.\<close>

lemma activation_grant:
  assumes "activation_denied be env s tok ip state = (False, s', state')"
  shows "\<not> e_revoked s" and "v_now env < e_expires_at s"
    and "e_single_use s \<Longrightarrow> fst (claim_consumed be env tok (e_expires_at s) state) \<and>
           state' = snd (claim_consumed be env tok (e_expires_at s) state)"
    and "\<not> e_single_use s \<Longrightarrow> 0 < e_max_uses s \<Longrightarrow>
           fst (claim_use be env tok (e_max_uses s) (e_expires_at s) state) \<and>
           state' = snd (claim_use be env tok (e_max_uses s) (e_expires_at s) state)"
proof -
  define s1 where "s1 = (if e_allowed_ip s = Some ''first-observed'' \<and> given ip
                 then s\<lparr>e_allowed_ip := ip\<rparr> else s)"
  have eq: "e_expires_at s1 = e_expires_at s" "e_single_use s1 = e_single_use s" "e_max_uses s1 = e_max_uses s"
    by (simp_all add: s1_def)
  have link: "denial_reason (host_of env) s link_denial_checks None None = None"
    using assms by (cases "denial_reason (host_of env) s link_denial_checks None None = None")
      (simp_all add: activation_denied_def)
  then show "\<not> e_revoked s" "v_now env < e_expires_at s"
    by (auto simp: link_allowed_iff not_expired_now)
  have ip: "\<not> (given (e_allowed_ip s1) \<and> ip \<noteq> None \<and>
              \<not> ip_matches (v_host env) (the (e_allowed_ip s1)) ip)"
  proof
    assume a: "given (e_allowed_ip s1) \<and> ip \<noteq> None \<and>
              \<not> ip_matches (v_host env) (the (e_allowed_ip s1)) ip"
    have "fst (activation_denied be env s tok ip state) = True"
      unfolding activation_denied_def s1_def [symmetric] Let_def using link a by simp
    with assms show False by simp
  qed
  have rest: "activation_denied be env s tok ip state =
      (if e_single_use s then
             (let (won, state) = claim_consumed be env tok (e_expires_at s) state
             in (\<not> won, s1, state))
           else if 0 < e_max_uses s then
             (let (won, state) = claim_use be env tok (e_max_uses s) (e_expires_at s) state
             in (\<not> won, s1, state))
           else (False, s1, state))"
    by (simp only: activation_denied_def s1_def [symmetric] Let_def eq link ip
        not_True_eq_False if_False simp_thms)
  note f = trans [OF rest [symmetric] assms]
  show "fst (claim_consumed be env tok (e_expires_at s) state) \<and>
      state' = snd (claim_consumed be env tok (e_expires_at s) state)" if "e_single_use s"
    using f that by (simp add: Let_def case_prod_unfold)
  show "fst (claim_use be env tok (e_max_uses s) (e_expires_at s) state) \<and>
      state' = snd (claim_use be env tok (e_max_uses s) (e_expires_at s) state)"
    if "\<not> e_single_use s" "0 < e_max_uses s"
    using f that by (simp add: Let_def case_prod_unfold)
qed

lemma answer_of_eq:
  "answer_of AnToken r = AnToken x \<longleftrightarrow> r = Returned x"
  "answer_of AnBool r' = AnBool y \<longleftrightarrow> r' = Returned y"
  "answer_of AnSession r'' = AnSession z \<longleftrightarrow> r'' = Returned z"
  by (simp_all add: answer_of_def split: outcome.split)

lemma activated_serve:
  "activated tok rq (fst (serve be env rq st)) \<longleftrightarrow>
     (\<exists>stok ip. rq = RqActivate stok ip \<and>
        fst (activate_ephemeral_session be env stok ip st) = Returned (Some tok))"
  by (cases rq) (auto simp: activated_def serve_def answer_of_eq)

lemma burned_serve:
  "burned env tok rq (fst (serve be env rq st)) \<longleftrightarrow>
     (\<exists>stok. rq = RqConsume stok \<and> link_names env stok tok \<and>
        fst (consume_ephemeral_session be env stok st) = Returned True)"
  by (cases rq) (auto simp: burned_def serve_def answer_of_eq)

lemma quiet_True [simp]: "quiet be env (\<lambda>_. True)" "claims_keep be env P (\<lambda>_. True)"
  by (simp_all add: quiet_def claims_keep_def)

lemma redemptions_Cons:
  "redemptions tok ((pid, env, rq) # evs) (a # as) =
     (if activated tok rq a \<or> burned env tok rq a then 1 else 0) + redemptions tok evs as"
  "activations tok ((pid, env, rq) # evs) (a # as) =
     (if activated tok rq a then 1 else 0) + activations tok evs as"
  by (simp_all add: redemptions_def activations_def)

lemma redemptions_Nil [simp]: "redemptions tok [] [] = 0" "activations tok [] [] = 0"
  by (simp_all add: redemptions_def activations_def)

context kv_store
begin

lemma claim_consumed_wins:
  assumes "v_now env < E" and "fst (claim_consumed be env tok E s)"
  shows "\<not> held E (look s (ns_consumed, tok))"
    and "held E (look (snd (claim_consumed be env tok E s)) (ns_consumed, tok))"
proof -
  show "\<not> held E (look s (ns_consumed, tok))"
  proof
    assume "held E (look s (ns_consumed, tok))"
    then obtain v x where "look s (ns_consumed, tok) = Some (v, Some x)" "E \<le> x"
      by (auto simp: held_def)
    with assms show False
      by (auto simp: claim_consumed_def split: if_splits
          dest: claim_held [of s ns_consumed tok v "Some x" "v_now env" "PBool True"
            "Some (claim_ttl env E)"])
  qed
  show "held E (look (snd (claim_consumed be env tok E s)) (ns_consumed, tok))"
    using assms(2) claim_ttl_covers [where E = E and env = env]
    by (auto simp: claim_consumed_def claim_look held_def claim_expiry_def split: if_splits)
qed

lemma single_use_step:
  assumes k: "kept (single_use_until tok E) (\<lambda>_. True) st"
    and win: "activated tok rq (fst (serve be env rq st)) \<or> burned env tok rq (fst (serve be env rq st))"
  shows "\<not> held E (look (st_state st) (ns_consumed, tok))"
    and "held E (look (st_state (snd (serve be env rq st))) (ns_consumed, tok))"
proof -
  define P where "P = single_use_until tok E"
  define R where "R = (\<lambda>s. held E (look s (ns_consumed, tok)))"
  have st: "stable P" by (simp add: P_def)
  have q: "quiet be env R" unfolding R_def by (rule quiet_look) simp_all
  have k: "kept P (\<lambda>_. True) st" using k by (simp add: P_def)
  have up: "kept P R st" if "R (st_state st)" using k that by (simp add: kept_def)
  have both: "\<not> R (st_state st) \<and> R (st_state (snd (serve be env rq st)))"
    if g: "get_session be env tok st0 = (Some s, st1)" and st0: "st0 = st \<or> st0 = load_if_changed env st"
      and now: "v_now env < e_expires_at s"
      and c: "e_single_use s \<Longrightarrow> fst (claim_consumed be env tok (e_expires_at s) (st_state st1)) \<and>
           st_state (snd (serve be env rq st)) = snd (claim_consumed be env tok (e_expires_at s) (st_state st1))"
    for st0 s st1
  proof -
    have "kept P (\<lambda>_. True) st0" using k st0 kept_load_if_changed by blast
    from kept_get_eq (2) [OF st quiet_True(1) this g refl]
    have s: "e_single_use s" "e_expires_at s = E" by (simp_all add: P_def single_use_until_def)
    from claim_consumed_wins [OF now conjunct1 [OF c [OF s(1)]]] c [OF s(1)] s(2)
    have w: "\<not> R (st_state st1)" "R (st_state (snd (serve be env rq st)))"
      by (simp_all add: R_def)
    have "\<not> R (st_state st)"
    proof
      assume "R (st_state st)"
      then have "kept P R st0" using up st0 kept_load_if_changed by blast
      from keptD(1) [OF kept_get_eq (1) [OF st q this g]] w(1) show False by simp
    qed
    with w(2) show ?thesis by simp
  qed
  from win have "\<not> R (st_state st) \<and> R (st_state (snd (serve be env rq st)))"
  proof
    assume "activated tok rq (fst (serve be env rq st))"
    then obtain stok ip where rq: "rq = RqActivate stok ip"
      and a: "fst (activate_ephemeral_session be env stok ip st) = Returned (Some tok)"
      by (auto simp: activated_serve)
    from a show ?thesis
    proof (rule activate_tokenE)
      fix s st1 s' state e b
      assume g: "get_session be env tok (load_if_changed env st) = (Some s, st1)"
        and d: "activation_denied be env s tok ip (st_state st1) = (False, s', state)"
        and f: "st_state (snd (activate_ephemeral_session be env stok ip st)) = state"
      show ?thesis
        using both [OF g _ activation_grant (2) [OF d]] activation_grant (3) [OF d] f
        by (simp add: rq serve_def)
    qed
  next
    assume "burned env tok rq (fst (serve be env rq st))"
    then obtain stok e b where rq: "rq = RqConsume stok"
      and v: "verify_ephemeral_token env stok = Some (tok, e, b)"
      and a: "fst (consume_ephemeral_session be env stok st) = Returned True"
      by (auto simp: burned_serve link_names_def)
    from a v show ?thesis
    proof (rule consume_trueE)
      fix s st1
      assume g: "get_session be env tok st = (Some s, st1)"
        and x: "\<not> session_expired (v_host env) s"
        and c: "e_single_use s \<Longrightarrow> fst (claim_consumed be env tok (e_expires_at s) (st_state st1))"
          "e_single_use s \<Longrightarrow> st_state (snd (consume_ephemeral_session be env stok st)) =
             snd (claim_consumed be env tok (e_expires_at s) (st_state st1))"
      show ?thesis
        using both [OF g _ not_expired_now [OF x]] c by (simp add: rq serve_def)
    qed
  qed
  then show "\<not> held E (look (st_state st) (ns_consumed, tok))"
    "held E (look (st_state (snd (serve be env rq st))) (ns_consumed, tok))"
    by (simp_all add: R_def)
qed

lemma serve_keeps:
  assumes "stable P" and "\<And>k s. creates rq k \<Longrightarrow> P k s" and "sys_kept P (\<lambda>_. True) sy"
    and "\<And>env. quiet be env Q" and "\<And>env. claims_keep be env P Q" and "Q (sy_state sy)"
  shows "sys_kept P Q (put_store pid (snd (serve be env rq (store_at pid sy))) sy)"
  using assms by (intro sys_kept_serve) (auto simp: sys_kept_iff)

lemma single_use_run:
  assumes "\<forall>(pid, env, rq) \<in> set evs. \<not> creates rq tok"
    and "sys_kept (single_use_until tok E) (\<lambda>_. True) sy"
  shows "redemptions tok evs (fst (serve_all be evs sy)) \<le>
    (if held E (look (sy_state sy) (ns_consumed, tok)) then 0 else 1)"
  using assms
proof (induction evs arbitrary: sy)
  case (Cons ev evs)
  obtain pid env rq where ev: "ev = (pid, env, rq)" by (cases ev)
  define st where "st = store_at pid sy"
  define sy' where "sy' = put_store pid (snd (serve be env rq st)) sy"
  have st: "kept (single_use_until tok E) (\<lambda>_. True) st"
    using Cons.prems(2) by (simp add: sys_kept_def st_def)
  have new: "single_use_until tok E k s" if "creates rq k" for k s
    using that Cons.prems(1) by (auto simp: ev single_use_until_def)
  have sy': "sys_kept (single_use_until tok E) (\<lambda>_. True) sy'"
    unfolding sy'_def st_def
    by (rule serve_keeps [OF stable_grants(1) new Cons.prems(2) quiet_True TrueI])
  have IH: "redemptions tok evs (fst (serve_all be evs sy')) \<le>
      (if held E (look (sy_state sy') (ns_consumed, tok)) then 0 else 1)"
    by (rule Cons.IH [OF _ sy']) (use Cons.prems(1) in auto)
  have state: "sy_state sy' = st_state (snd (serve be env rq st))" "st_state st = sy_state sy"
    by (simp_all add: sy'_def put_store_def st_def)
  have keep: "held E (look (sy_state sy') (ns_consumed, tok))"
    if "held E (look (sy_state sy) (ns_consumed, tok))"
  proof -
    have "sys_kept (single_use_until tok E) (\<lambda>s. held E (look s (ns_consumed, tok))) sy'"
      unfolding sy'_def st_def
      by (rule serve_keeps [OF stable_grants(1) new Cons.prems(2) quiet_look claims_keep_held that])
        simp_all
    then show ?thesis by (simp add: sys_kept_iff)
  qed
  show ?case
    using IH keep single_use_step [OF st, of rq env] state
    by (simp add: ev Let_def case_prod_unfold st_def [symmetric] sy'_def [symmetric]
        redemptions_Cons split: if_splits) auto
qed simp

lemma budget_step:
  assumes k: "kept (budget_until tok M E) (\<lambda>_. True) st"
    and c: "counted E n (look (st_state st) (ns_uses, tok))"
    and win: "activated tok rq (fst (serve be env rq st))"
  shows "counted E (Suc n) (look (st_state (snd (serve be env rq st))) (ns_uses, tok)) \<and> int (Suc n) \<le> M"
proof -
  define P where "P = budget_until tok M E"
  define R where "R = (\<lambda>s. counted E n (look s (ns_uses, tok)))"
  have st: "stable P" by (simp add: P_def)
  have q: "quiet be env R" unfolding R_def by (rule quiet_look) simp_all
  have kR: "kept P R st" using k c by (simp add: P_def R_def kept_def)
  obtain stok ip where rq: "rq = RqActivate stok ip"
    and a: "fst (activate_ephemeral_session be env stok ip st) = Returned (Some tok)"
    using win by (auto simp: activated_serve)
  from a show ?thesis
  proof (rule activate_tokenE)
    fix s st1 s' state e b
    assume g: "get_session be env tok (load_if_changed env st) = (Some s, st1)"
      and d: "activation_denied be env s tok ip (st_state st1) = (False, s', state)"
      and f: "st_state (snd (activate_ephemeral_session be env stok ip st)) = state"
    note kg = kept_get_eq [OF st q kept_load_if_changed [OF kR] g]
    have s: "\<not> e_single_use s" "0 < e_max_uses s" "e_max_uses s = M" "e_expires_at s = E"
      using kg(2) [OF refl] by (auto simp: P_def budget_until_def)
    have "counted E n (look (st_state st1) (ns_uses, tok))"
      using keptD(1) [OF kg(1)] by (simp add: R_def)
    from claim_use_counts [OF this _ ] activation_grant (2) [OF d] activation_grant (4) [OF d s(1,2)] s f
    show ?thesis by (simp add: rq serve_def)
  qed
qed

lemma budget_run:
  assumes "\<forall>(pid, env, rq) \<in> set evs. \<not> creates rq tok"
    and "sys_kept (budget_until tok M E) (\<lambda>_. True) sy"
    and "counted E n (look (sy_state sy) (ns_uses, tok))" and "int n \<le> M"
  shows "int (n + activations tok evs (fst (serve_all be evs sy))) \<le> M"
  using assms
proof (induction evs arbitrary: sy n)
  case (Cons ev evs)
  obtain pid env rq where ev: "ev = (pid, env, rq)" by (cases ev)
  define st where "st = store_at pid sy"
  define sy' where "sy' = put_store pid (snd (serve be env rq st)) sy"
  have st: "kept (budget_until tok M E) (\<lambda>_. True) st"
    using Cons.prems(2) by (simp add: sys_kept_def st_def)
  have new: "budget_until tok M E k s" if "creates rq k" for k s
    using that Cons.prems(1) by (auto simp: ev budget_until_def)
  have sy': "sys_kept (budget_until tok M E) (\<lambda>_. True) sy'"
    unfolding sy'_def st_def
    by (rule serve_keeps [OF stable_grants(2) new Cons.prems(2) quiet_True TrueI])
  have rest: "\<forall>(pid, env, rq) \<in> set evs. \<not> creates rq tok" using Cons.prems(1) by simp
  have state: "sy_state sy' = st_state (snd (serve be env rq st))" "st_state st = sy_state sy"
    by (simp_all add: sy'_def put_store_def st_def)
  have "sys_kept (budget_until tok M E) (\<lambda>s. counted E n (look s (ns_uses, tok))) sy'"
    unfolding sy'_def st_def
    by (rule serve_keeps [OF stable_grants(2) new Cons.prems(2) quiet_look claims_keep_counted
          Cons.prems(3)]) simp_all
  then have same: "counted E n (look (sy_state sy') (ns_uses, tok))" by (simp add: sys_kept_iff)
  show ?case
  proof (cases "activated tok rq (fst (serve be env rq st))")
    case True
    have c: "counted E n (look (st_state st) (ns_uses, tok))" using Cons.prems(3) state by simp
    from budget_step [OF st c True] state
    have "counted E (Suc n) (look (sy_state sy') (ns_uses, tok))" "int (Suc n) \<le> M" by simp_all
    from Cons.IH [OF rest sy' this] True show ?thesis
      by (simp add: ev Let_def case_prod_unfold st_def [symmetric] sy'_def [symmetric] redemptions_Cons)
  next
    case False
    with Cons.IH [OF rest sy' same Cons.prems(4)] show ?thesis
      by (simp add: ev Let_def case_prod_unfold st_def [symmetric] sy'_def [symmetric] redemptions_Cons)
  qed
qed simp

end

section \<open>Revocation reaches every process\<close>

text \<open>An answer that lets the session of \<open>tok\<close> in.\<close>

definition admitted :: "senv \<Rightarrow> string \<Rightarrow> request \<Rightarrow> answer \<Rightarrow> bool" where
  "admitted env tok rq a \<longleftrightarrow>
     (case rq of
        RqCheckSession t _ _ _ \<Rightarrow> t = tok \<and> a = AnBool True
      | RqCheckLink t _ _ _ \<Rightarrow> link_names env t tok \<and> a = AnBool True
      | RqValidate t _ _ \<Rightarrow> link_names env t tok \<and> (case a of AnSession (Some _) \<Rightarrow> True | _ \<Rightarrow> False)
      | RqConsume t \<Rightarrow> link_names env t tok \<and> a = AnBool True
      | RqActivate t _ \<Rightarrow> a = AnToken (Some tok)
      | RqIsRevoked t \<Rightarrow> link_names env t tok \<and> a = AnBool False
      | _ \<Rightarrow> False)"

definition marked_until :: "time \<Rightarrow> entry option \<Rightarrow> bool" where
  "marked_until B en \<longleftrightarrow> (\<exists>x. en = Some (PBool True, Some x) \<and> B \<le> x)"

text \<open>A process that consults the backend, or fails closed when it cannot.\<close>

definition enforcing :: "senv \<Rightarrow> bool" where
  "enforcing env \<longleftrightarrow> v_up env \<or> v_strict env"

definition finds_revoked :: "'s backend \<Rightarrow> senv \<Rightarrow> string \<Rightarrow> 's store \<Rightarrow> bool" where
  "finds_revoked be env tok st \<longleftrightarrow>
     (case fst (get_session be env tok st) of None \<Rightarrow> True | Some s \<Rightarrow> e_revoked s)"

lemma finds_revoked_eq:
  "finds_revoked be env tok st \<Longrightarrow> get_session be env tok st = (Some s, st1) \<Longrightarrow> e_revoked s"
  by (simp add: finds_revoked_def)

lemma valid_not_revoked: "denial_reason h s session_validity_checks ip r = None \<Longrightarrow> \<not> e_revoked s"
  using is_valid_iff [of h s ip r] by (auto simp: is_valid_def)

lemma grows_save_session:
  assumes "save env b st = (x, st')" and "map_of (st_sessions st) tok = Some s" and "e_revoked s"
    and "map_of (st_sessions st') tok = Some s'"
  shows "e_revoked s'"
proof -
  have entries: "map_of (fst (merge_entries env items m)) tok = Some s'' \<Longrightarrow>
      map_of m tok = Some s0 \<Longrightarrow> e_revoked s0 \<Longrightarrow> e_revoked s''" for items m s0 s''
  proof (induction items arbitrary: m s0)
    case (Cons kv items)
    obtain k v where kv: "kv = (k, v)" by (cases kv)
    show ?case
    proof (cases "map_of m k")
      case None
      then have "k \<noteq> tok" using Cons.prems(2) by auto
      then have "map_of (adopt_foreign_session env k v m) tok = Some s0"
        using Cons.prems(2) by (auto simp: adopt_foreign_session_def split: pyval.splits option.splits)
      with Cons.IH None Cons.prems show ?thesis by (simp add: kv)
    next
      case (Some s1)
      define m' where "m' = AList.update k (fst (merge_session_flags v s1)) m"
      have "\<exists>s2. map_of m' tok = Some s2 \<and> e_revoked s2"
        using Cons.prems(2,3) Some grows_merge [of s1 v] by (auto simp: m'_def grows_def)
      with Cons.IH [of m'] Cons.prems Some show ?thesis
        by (auto simp: kv Let_def case_prod_unfold m'_def [symmetric] split: if_splits)
    qed
  qed simp
  have "st_sessions st' = fst (merge_disk_flags env st)"
    using assms(1) by (auto simp: save_def Let_def case_prod_unfold split: if_splits)
  with entries assms(2-4) show ?thesis
    by (auto simp: merge_disk_flags_def split: option.splits)
qed

lemma consume_not_revoked:
  assumes "fst (consume_ephemeral_session be env t st) = Returned True" and "link_names env t tok"
  shows "\<not> finds_revoked be env tok st"
proof -
  obtain e b where v: "verify_ephemeral_token env t = Some (tok, e, b)"
    using assms(2) by (auto simp: link_names_def)
  from assms(1) v obtain s st1 where "get_session be env tok st = (Some s, st1)" "\<not> e_revoked s"
    by (rule consume_trueE)
  then show ?thesis by (simp add: finds_revoked_def)
qed

lemma finds_revoked_denies:
  assumes "finds_revoked be env tok (load_if_changed env st)" and "finds_revoked be env tok st"
  shows "\<not> admitted env tok rq (fst (serve be env rq st))"
proof -
  have validate: "fst (validate_session be env t ip r st0) = Returned (Some s) \<Longrightarrow>
      link_names env t tok \<Longrightarrow> finds_revoked be env tok st0 \<Longrightarrow> False" for t ip r s st0
  proof -
    assume v: "fst (validate_session be env t ip r st0) = Returned (Some s)"
      and n: "link_names env t tok" and f: "finds_revoked be env tok st0"
    obtain e b where t: "verify_ephemeral_token env t = Some (tok, e, b)"
      using n by (auto simp: link_names_def)
    obtain hit st1 where g: "get_session be env tok st0 = (hit, st1)" by fastforce
    obtain s0 where s0: "hit = Some s0"
      using v t g by (cases hit) (simp_all add: validate_session_def)
    have rev: "e_revoked s0" using finds_revoked_eq [OF f] g s0 by simp
    have at: "map_of (st_sessions st1) tok = Some s0"
      using kept_get (2) [of "\<lambda>_ _. True" be env "\<lambda>_. True" st0 tok s0] g s0
      by (simp add: stable_def kept_def sess_all_def file_all_def items_all_def)
    obtain x st2 where w: "save env False (put_session tok (s0\<lparr>e_allowed_ip := ip\<rparr>) st1) = (x, st2)"
      by fastforce
    have "e_revoked s'" if "map_of (st_sessions st2) tok = Some s'" for s'
      by (rule grows_save_session [OF w _ _ that, of "s0\<lparr>e_allowed_ip := ip\<rparr>"])
        (simp_all add: put_session_def rev)
    then show False
      using v t g s0 at rev
      by (auto simp: validate_session_def w Let_def case_prod_unfold
          split: if_splits option.splits outcome.splits dest!: valid_not_revoked)
  qed
  show ?thesis
  proof (cases rq)
    case (RqValidate t ip r)
    then show ?thesis using validate assms(2)
      by (auto simp: admitted_def serve_def answer_of_eq split: answer.splits option.splits)
  next
    case (RqIsRevoked t)
    then show ?thesis using assms(1)
      by (auto simp: admitted_def serve_def is_session_revoked_def link_names_def finds_revoked_def
          split: option.splits prod.splits)
  next
    case (RqActivate t ip)
    then show ?thesis using assms(1)
      by (auto simp: admitted_def serve_def answer_of_eq elim!: activate_tokenE dest!: finds_revoked_eq
          dest: activation_grant (1))
  next
    case (RqConsume t)
    then show ?thesis using consume_not_revoked [of be env t st tok] assms(2)
      by (auto simp: admitted_def serve_def answer_of_eq)
  next
    case (RqCheckLink t p r ip)
    then show ?thesis using validate assms(1)
      by (auto simp: admitted_def serve_def answer_of_eq check_permission_def Let_def
          split: prod.splits outcome.splits option.splits if_splits) (metis fst_conv)+
  next
    case (RqCheckSession t p r ip)
    then show ?thesis using assms(1)
      by (auto simp: admitted_def serve_def check_session_permission_def finds_revoked_def Let_def
          case_prod_unfold request_allowed_iff split: option.splits)
  qed (simp_all add: admitted_def)
qed

context kv_store
begin

lemma marked_finds_revoked:
  assumes "marked_until B (look (st_state st) (ns_eph_revoked, tok))" and "v_now env \<le> B"
    and "enforcing env"
  shows "finds_revoked be env tok st"
proof -
  define st1 where "st1 = (if map_of (st_sessions st) tok = None then load_store env st else st)"
  have "st_state st1 = st_state st"
    by (simp add: st1_def load_store_def split: option.split pyval.split prod.split)
  with assms have "fst (is_revoked_shared be env tok (st_state st1))"
    by (auto simp: is_revoked_shared_def Let_def case_prod_unfold get_val marked_until_def live_def
        expired_def val_or_none_def enforcing_def)
  then show ?thesis
    by (auto simp: finds_revoked_def get_session_def st1_def [symmetric] Let_def case_prod_unfold
        revoke_mark_def split: option.split)
qed

lemma quiet_marked:
  assumes "B - 86400 \<le> v_now env" and "v_now env \<le> B"
  shows "quiet be env (\<lambda>s. marked_until B (look s (ns_eph_revoked, tok)))"
proof -
  have "look (snd (b_get be (v_now env) ns_eph_revoked k s)) (ns_eph_revoked, tok) =
      look s (ns_eph_revoked, tok)" if "marked_until B (look s (ns_eph_revoked, tok))" for k s
  proof (cases "k = tok")
    case True
    with that assms(2) have "live (v_now env) (look s (ns_eph_revoked, k)) \<noteq> None"
      by (auto simp: marked_until_def live_def expired_def)
    with get_look [of "v_now env" s ns_eph_revoked k] show ?thesis by auto
  qed (simp add: get_other)
  moreover have "marked_until B (look (b_set_ttl be (v_now env) ns_eph_revoked k (PBool True) t s)
      (ns_eph_revoked, tok))"
    if "86400 \<le> t" "marked_until B (look s (ns_eph_revoked, tok))" for k t s
    using that assms(1) by (auto simp: set_ttl_look marked_until_def)
  ultimately show ?thesis
    by (simp add: quiet_def get_other set_ttl_look claim_other)
qed

lemma claims_keep_marked:
  "claims_keep be env P (\<lambda>s. marked_until B (look s (ns_eph_revoked, tok)))"
  by (simp add: claims_keep_def claim_consumed_def claim_use_def Let_def case_prod_unfold
      claim_other incr_other)

lemma revoke_marks:
  assumes "revoke_in_store be env tok st = (Returned True, st')" and "CHR ''.'' \<notin> set tok" and "v_up env"
  shows "marked_until (v_now env + 86400) (look (st_state st') (ns_eph_revoked, tok))"
proof -
  obtain hit st1 where g: "get_session be env tok st = (hit, st1)" by fastforce
  then obtain s where s: "hit = Some s"
    using assms(1,2) by (cases hit) (simp_all add: revoke_in_store_def)
  define ttl :: rat where "ttl = of_int (max 86400 (trunc (e_expires_at s - v_now env)))"
  have "(86400::rat) \<le> ttl"
    unfolding ttl_def by (metis max.cobounded1 of_int_le_iff of_int_numeral)
  moreover have "st_state st' = b_set_ttl be (v_now env) ns_eph_revoked tok (PBool True) ttl (st_state st1)"
    using assms g s
    by (auto simp: revoke_in_store_def mark_revoked_shared_def ttl_def Let_def
        split: prod.splits outcome.splits dest!: save_state_eq)
  ultimately show ?thesis by (simp add: set_ttl_look marked_until_def)
qed

text \<open>While the marker lives, whatever the processes do, none lets the session in.\<close>

lemma marked_run:
  assumes "\<forall>(pid, env, rq) \<in> set evs. B - 86400 \<le> v_now env \<and> v_now env \<le> B \<and> enforcing env"
    and "marked_until B (look (sy_state sy) (ns_eph_revoked, tok))"
  shows "\<forall>((pid, env, rq), a) \<in> set (zip evs (fst (serve_all be evs sy))). \<not> admitted env tok rq a"
  using assms
proof (induction evs arbitrary: sy)
  case (Cons ev evs)
  obtain pid env rq where ev: "ev = (pid, env, rq)" by (cases ev)
  have env: "B - 86400 \<le> v_now env" "v_now env \<le> B" "enforcing env"
    using Cons.prems(1) by (simp_all add: ev)
  define st where "st = store_at pid sy"
  define sy' where "sy' = put_store pid (snd (serve be env rq st)) sy"
  have m: "marked_until B (look (st_state st) (ns_eph_revoked, tok))"
    using Cons.prems(2) by (simp add: st_def)
  have m': "marked_until B (look (st_state (load_if_changed env st)) (ns_eph_revoked, tok))"
    using m by (simp add: load_if_changed_def load_store_def split: option.split pyval.split prod.split)
  have "\<not> admitted env tok rq (fst (serve be env rq st))"
    by (rule finds_revoked_denies; rule marked_finds_revoked [OF _ env(2,3)]) (fact m' m)+
  moreover have "kept (\<lambda>_ _. True) (\<lambda>s. marked_until B (look s (ns_eph_revoked, tok)))
      (snd (serve be env rq st))"
    by (rule kept_serve [OF _ quiet_marked [OF env(1,2)] claims_keep_marked])
      (use m in \<open>simp_all add: stable_def kept_def sess_all_def file_all_def items_all_def\<close>)
  then have "marked_until B (look (sy_state sy') (ns_eph_revoked, tok))"
    by (simp add: kept_def sy'_def put_store_def)
  ultimately show ?case
    using Cons.IH [of sy'] Cons.prems(1)
    by (simp add: ev Let_def case_prod_unfold st_def [symmetric] sy'_def [symmetric])
qed simp

end

section \<open>From the creation of a link\<close>

definition no_copy :: "string \<Rightarrow> 's system \<Rightarrow> bool" where
  "no_copy tok sy \<longleftrightarrow> sys_kept (\<lambda>k _. k \<noteq> tok) (\<lambda>_. True) sy"

lemma sys_kept_mono: "(\<And>k s. P k s \<Longrightarrow> P' k s) \<Longrightarrow> sys_kept P Q sy \<Longrightarrow> sys_kept P' Q sy"
  by (fastforce simp: sys_kept_iff sess_all_def file_all_def items_all_def)

lemma create_keeps:
  assumes "stable P" and "no_copy tok sy" and "\<And>k s. k \<noteq> tok \<Longrightarrow> P k s"
    and "create_session env ttl a (store_at pid sy) = (r, st)"
    and "P (a_token a) (requested_session env ttl a)"
  shows "sys_kept P (\<lambda>_. True) (put_store pid st sy)"
proof -
  have sy: "sys_kept P (\<lambda>_. True) sy"
    using assms(2) unfolding no_copy_def by (rule sys_kept_mono [rotated]) (rule assms(3))
  then have "kept P (\<lambda>_. True) (snd (create_session env ttl a (store_at pid sy)))"
    by (intro kept_create assms(1,5)) (simp add: sys_kept_def)
  with sy assms(4) show ?thesis by (simp add: sys_kept_put)
qed

lemma create_state:
  "create_session env ttl a st = (r, st') \<Longrightarrow> st_state st' = st_state st"
  using create_session_store [of env ttl a st] by (simp split: if_splits)

lemma stable_grows: "stable (\<lambda>k s. k = tok \<longrightarrow> grows s0 s)"
  by (auto simp: stable_def intro: grows_trans)

text \<open>The copies of a link's session, wherever the run has carried them, keep its grant.\<close>

lemma grant_run:
  assumes "no_copy tok sy" and "a_token a = tok"
    and "create_session env ttl a (store_at pid sy) = (r, st)"
    and "\<forall>(p, e, rq) \<in> set evs. \<not> creates rq tok"
    and "map_of (fst (sy_local (snd (serve_all be evs (put_store pid st sy))) p)) tok = Some s"
  shows "grows (requested_session env ttl a) s"
proof -
  define P where "P = (\<lambda>k s. k = tok \<longrightarrow> grows (requested_session env ttl a) s)"
  have P: "stable P" unfolding P_def by (rule stable_grows)
  have "sys_kept P (\<lambda>_. True) (put_store pid st sy)"
    by (rule create_keeps [OF P assms(1) _ assms(3)]) (simp_all add: P_def)
  then have "sys_kept P (\<lambda>_. True) (snd (serve_all be evs (put_store pid st sy)))"
  proof (rule sys_kept_run [OF P, rotated])
    fix p e rq
    assume "(p, e, rq) \<in> set evs"
    with assms(4) show "quiet be e (\<lambda>_. True) \<and> claims_keep be e P (\<lambda>_. True) \<and>
        (\<forall>k s. creates rq k \<longrightarrow> P k s)"
      by (auto simp: P_def)
  qed
  with assms(5) have "P tok s"
    by (auto simp: sys_kept_iff dest: sess_allD)
  then show ?thesis by (simp add: P_def)
qed

context kv_store
begin

lemma created_single_use_run:
  assumes "no_copy tok sy" and "a_token a = tok" and "a_single_use a"
    and "create_session env ttl a (store_at pid sy) = (r, st)"
    and "\<forall>(p, e, rq) \<in> set evs. \<not> creates rq tok"
  shows "redemptions tok evs (fst (serve_all be evs (put_store pid st sy))) \<le> 1"
proof -
  have "sys_kept (single_use_until tok (v_now env + ttl)) (\<lambda>_. True) (put_store pid st sy)"
    by (rule create_keeps [OF stable_grants(1) assms(1) _ assms(4)])
      (simp_all add: single_use_until_def requested_session_def new_session_def assms(3))
  from single_use_run [OF assms(5) this] show ?thesis by (simp split: if_splits)
qed

lemma created_budget_run:
  assumes "no_copy tok sy" and "a_token a = tok" and "\<not> a_single_use a" and "0 < a_max_uses a"
    and "create_session env ttl a (store_at pid sy) = (r, st)"
    and "look (sy_state sy) (ns_uses, tok) = None"
    and "\<forall>(p, e, rq) \<in> set evs. \<not> creates rq tok"
  shows "int (activations tok evs (fst (serve_all be evs (put_store pid st sy)))) \<le> a_max_uses a"
proof -
  have k: "sys_kept (budget_until tok (a_max_uses a) (v_now env + ttl)) (\<lambda>_. True) (put_store pid st sy)"
    by (rule create_keeps [OF stable_grants(2) assms(1) _ assms(5)])
      (simp_all add: budget_until_def requested_session_def new_session_def assms(2-4))
  have "counted (v_now env + ttl) 0 (look (sy_state (put_store pid st sy)) (ns_uses, tok))"
    using create_state [OF assms(5)] assms(6) by (simp add: put_store_def counted_def)
  from budget_run [OF assms(7) k this] assms(4) show ?thesis by simp
qed

lemma revoked_run:
  assumes "revoke_in_store be env tok (store_at pid sy) = (Returned True, st)"
    and "CHR ''.'' \<notin> set tok" and "v_up env"
    and "\<forall>(p, e, rq) \<in> set evs. v_now env \<le> v_now e \<and> v_now e \<le> v_now env + 86400 \<and> enforcing e"
  shows "\<forall>((p, e, rq), an) \<in> set (zip evs (fst (serve_all be evs (put_store pid st sy)))).
    \<not> admitted e tok rq an"
  by (rule marked_run [where B = "v_now env + 86400"])
    (use assms revoke_marks [OF assms(1-3)] in \<open>simp_all add: put_store_def\<close>)

end

end
