(* ===== verification/SecurityProperties.thy ===== *)
theory SecurityProperties
  imports RateLimit SessionSystem
begin

text \<open>
  The properties of the security modules: shared state, signed tokens, rate limiting and share-link
  sessions over the processes of a deployment, each with a witness at a concrete input.
\<close>

section \<open>A sample deployment\<close>

definition sample_host :: "time \<Rightarrow> host" where
  "sample_host now =
     \<lparr> h_now = now, h_mono = now, h_instance = ''srv_1'', h_drained = False,
       h_in_network = (\<lambda>_ _. None), h_fingerprint = (\<lambda>t. t) \<rparr>"

text \<open>A stand-in for the keyed hash: digits only.\<close>

definition length_mac :: mac where
  "length_mac k m = nat_str (length k + length m)"

definition sample_keys :: keyring where
  "sample_keys = \<lparr> kr_current = ''k'', kr_previous = [] \<rparr>"

definition sample_env :: "time \<Rightarrow> senv" where
  "sample_env now =
     \<lparr> v_host = sample_host now, v_fl = unary_io, v_mac = length_mac, v_keys = sample_keys,
       v_up = True, v_strict = False, v_writable = True, v_require_resource = False,
       v_fresh = ''n'', v_maint_env = False, v_flag = None, v_flag_lease = None,
       v_flag_done = None, v_boot = None \<rparr>"

definition sample_args :: session_args where
  "sample_args =
     \<lparr> a_token = ''tok'', a_role = ''support'', a_permissions = {}, a_expires_at = 0,
       a_single_use = True, a_view_only = False, a_no_terminal = False, a_allowed_ip = None,
       a_created_by = ''admin'', a_resource = None, a_instance_id = None, a_max_uses = 0,
       a_label = None \<rparr>"

definition sample_link :: "session_args \<Rightarrow> string" where
  "sample_link a = create_ephemeral_token (sample_env 10) (requested_session (sample_env 10) 5 a)"

definition empty_system :: "rows system" where
  "empty_system = \<lparr> sy_local = (\<lambda>_. ([], 0, ([], 0))), sy_file = None, sy_state = [] \<rparr>"

lemma empty_system_no_copy: "no_copy tok empty_system"
  by (simp add: no_copy_def sys_kept_iff empty_system_def sess_all_def file_all_def)

definition sample_created :: "session_args \<Rightarrow> rows store" where
  "sample_created a = snd (create_session (sample_env 10) 5 a (store_at 0 empty_system))"

lemma length_mac_hex: "hex_mac length_mac"
proof -
  have "CHR ''.'' \<notin> set (nat_str n)" for n
  proof (induction n rule: nat_str.induct)
    case (1 n)
    have digit: "char_of (48 + d) \<noteq> CHR ''.''" if "d < 10" for d :: nat
    proof
      assume "char_of (48 + d) = CHR ''.''"
      then have "of_char (char_of (48 + d)) = (of_char CHR ''.'' :: nat)" by simp
      with that show False by simp
    qed
    show ?case
      using 1 digit [of "n mod 10"] digit [of n] by (subst nat_str.simps) (auto simp: eq_commute)
  qed
  then show ?thesis by (simp add: hex_mac_def length_mac_def)
qed

section \<open>Shared state\<close>

definition same_result :: "'a \<times> rows \<Rightarrow> 'a \<times> rows \<Rightarrow> bool" where
  "same_result a b \<longleftrightarrow> fst a = fst b \<and> map_of (snd a) = map_of (snd b)"

text \<open>The two backends are interchangeable.  On tables with the same content every
  method returns the same value and leaves tables with the same content: reads, writes and deletes
  always, a claim unless the entry expires at this very instant, an increment when the entry holds an
  integer.  The sqlite listing contains the memory listing.\<close>

theorem backends_agree:
  assumes "map_of s = map_of t" and "rows_wf s" and "rows_wf t"
  shows "same_result (b_get memory_backend now ns k s) (b_get sqlite_backend now ns k t) \<and>
    map_of (b_set memory_backend ns k v s) = map_of (b_set sqlite_backend ns k v t) \<and>
    map_of (b_delete memory_backend ns k s) = map_of (b_delete sqlite_backend ns k t) \<and>
    map_of (b_set_ttl memory_backend now ns k v d s) = map_of (b_set_ttl sqlite_backend now ns k v d t) \<and>
    ((\<forall>u. map_of s (ns, k) \<noteq> Some (u, Some now)) \<longrightarrow>
      same_result (b_set_if_absent memory_backend now ns k v ttl s)
        (b_set_if_absent sqlite_backend now ns k v ttl t)) \<and>
    ((\<forall>u e. map_of s (ns, k) = Some (u, e) \<longrightarrow> (\<exists>n. u = PInt n)) \<longrightarrow>
      same_result (b_increment memory_backend now ns k a ttl s)
        (b_increment sqlite_backend now ns k a ttl t)) \<and>
    set (b_list_keys memory_backend now ns p s) \<subseteq> set (b_list_keys sqlite_backend now ns p t)"
proof (intro conjI impI)
  show "same_result (b_get memory_backend now ns k s) (b_get sqlite_backend now ns k t)"
    using assms(1) by (auto simp: same_result_def memory_defs sqlite_defs split: option.split)
  show "map_of (b_set memory_backend ns k v s) = map_of (b_set sqlite_backend ns k v t)"
    "map_of (b_delete memory_backend ns k s) = map_of (b_delete sqlite_backend ns k t)"
    "map_of (b_set_ttl memory_backend now ns k v d s) = map_of (b_set_ttl sqlite_backend now ns k v d t)"
    using assms(1) by (simp_all add: memory_defs sqlite_defs)
  show "same_result (b_set_if_absent memory_backend now ns k v ttl s)
      (b_set_if_absent sqlite_backend now ns k v ttl t)" if "\<forall>u. map_of s (ns, k) \<noteq> Some (u, Some now)"
    using assms(1) that
    by (auto simp: same_result_def memory_defs sqlite_defs expired_def split: option.split)
  show "same_result (b_increment memory_backend now ns k a ttl s)
      (b_increment sqlite_backend now ns k a ttl t)"
    if "\<forall>u e. map_of s (ns, k) = Some (u, e) \<longrightarrow> (\<exists>n. u = PInt n)"
  proof (cases "map_of s (ns, k)")
    case None
    with assms(1) show ?thesis
      by (simp add: same_result_def memory_defs sqlite_defs Let_def split: option.split)
  next
    case (Some en)
    with that obtain n e where "map_of s (ns, k) = Some (PInt n, e)" by (cases en) blast
    with assms(1) show ?thesis
      by (auto simp: same_result_def memory_defs sqlite_defs Let_def expired_def int_or_zero_def
          cast_integer_def split: option.split)
  qed
  show "set (b_list_keys memory_backend now ns p s) \<subseteq> set (b_list_keys sqlite_backend now ns p t)"
    using memscan.scan [OF assms(2), of now ns p] sqlscan.scan [OF assms(3), of now ns p] assms(1)
    by (auto simp: map_mono_prefix)
qed

theorem backends_agree_witness:
  "same_result
     (b_set_if_absent memory_backend 5 ''n'' ''k'' (PBool True) (Some 60) [((''n'', ''k''), (PInt 1, Some 4))])
     (b_set_if_absent sqlite_backend 5 ''n'' ''k'' (PBool True) (Some 60) [((''n'', ''k''), (PInt 1, Some 4))])"
  using backends_agree [where s = "[((''n'', ''k''), (PInt 1, Some 4))]"
      and t = "[((''n'', ''k''), (PInt 1, Some 4))]" and ns = "''n''" and k = "''k''" and now = 5]
  by (simp add: rows_wf_def)

section \<open>Signed tokens\<close>

text \<open>A signed token is accepted with its payload by every verifier that has the
  signing key as its current or as a retired key, and whatever a verifier accepts was assembled from the
  expected type, the payload and a digest of both under one of its keys.\<close>

theorem token_round_trip:
  assumes "hex_mac mac" and "CHR '':'' \<notin> set typ"
    and "kr_current old \<in> set (get_verify_secrets kr)"
  shows "verify_token mac kr typ (sign_token mac old typ payload) = Some payload \<and>
    (verify_token mac kr typ token = Some payload \<longleftrightarrow>
      (\<exists>secret \<in> set (get_verify_secrets kr).
         token = typ @ '':'' @ payload @ ''.'' @ mac secret (typ @ '':'' @ payload)))"
  using assms verify_sign_retired [OF assms]
  by (auto simp: verify_token_Some hex_mac_def signed_material_def)

theorem token_round_trip_witness:
  "verify_token length_mac \<lparr> kr_current = ''new'', kr_previous = [''k''] \<rparr> token_type_ephemeral
     (sign_token length_mac sample_keys token_type_ephemeral ''a.b:c'') = Some ''a.b:c''"
  by (rule token_round_trip [OF length_mac_hex, THEN conjunct1])
    (simp_all add: sample_keys_def get_verify_secrets_def)

text \<open>A token accepted as one type is rejected as every other type, by every
  verifier and under every key.\<close>

theorem token_types_separate:
  assumes "verify_token mac kr typ token = Some payload" and "typ' \<noteq> typ"
  shows "verify_token mac' kr' typ' token = None"
  using assms by (rule verify_other_type)

theorem token_types_separate_witness:
  "verify_token length_mac sample_keys token_type_session
     (sign_token length_mac sample_keys token_type_ephemeral ''p'') = None"
  by (rule token_types_separate [OF verify_sign [OF length_mac_hex]]) simp_all

section \<open>Rate limiting\<close>

definition sample_limiter :: limiter where
  "sample_limiter =
     \<lparr> max_attempts = 3, lockout_seconds = 900, window_seconds = 600, lockout_max_seconds = 86400,
       escalation = True \<rparr>"

definition sample_failures :: "failure list" where
  "sample_failures = [(''user:bob'', 100, ''a''), (''user:eve'', 101, ''b''), (''user:bob'', 102, ''c'')]"



text \<open>With n lockouts remembered, the failure that reaches the limit locks its key for
  exactly \<open>min (lockout_seconds * 2^n) lockout_max_seconds\<close> seconds, and n + 1 lockouts are remembered
  until that lockout and a further window are over.\<close>

theorem lockout_escalates:
  assumes "max_attempts lm \<le> int (attempt_count sqlite_backend fl lm now key
      (b_set_ttl sqlite_backend now ns_attempts (record_key fl key now rnd) (PBool True)
         (of_int (window_seconds lm)) s))"
    and "strikes_at (map_of s (ns_strikes, key))" and "escalation lm"
    and "d = min (of_int (lockout_seconds lm) * 2 ^ strike_count now (map_of s (ns_strikes, key)))
               (of_int (lockout_max_seconds lm))"
    and "s' = record_failure sqlite_backend fl lm now rnd key s"
  shows "map_option fst (is_locked sqlite_backend t key s') = Some (t < now + d) \<and>
    (u \<le> now + of_int (trunc d + window_seconds lm + 60) \<longrightarrow>
      strike_count u (map_of s' (ns_strikes, key)) = Suc (strike_count now (map_of s (ns_strikes, key))))"
proof (intro conjI impI)
  have d: "d = lockout_length lm (strike_count now (map_of s (ns_strikes, key)))"
    using assms(3,4) by (simp add: lockout_length_def)
  note l = sqlscan.record_failure_locks [OF assms(1,2) d]
  show "map_option fst (is_locked sqlite_backend t key s') = Some (t < now + d)"
    unfolding assms(5) by (rule l (1))
  show "strike_count u (map_of s' (ns_strikes, key)) = Suc (strike_count now (map_of s (ns_strikes, key)))"
    if "u \<le> now + of_int (trunc d + window_seconds lm + 60)"
    using l (2) [OF assms(3)] that unfolding assms(5)
    by (simp add: strike_count_def [of u] live_def expired_def nat_add_distrib)
qed

theorem lockout_escalates_witness:
  "map_option fst (is_locked sqlite_backend 1800 ''k''
      (record_failure sqlite_backend unary_io (sample_limiter\<lparr>max_attempts := 1\<rparr>) 100 ''r'' ''k''
        [((ns_strikes, ''k''), (PInt 1, Some 200))])) = Some (1800 < 100 + (1800 :: rat))"
proof (rule lockout_escalates [THEN conjunct1])
  show "max_attempts (sample_limiter\<lparr>max_attempts := 1\<rparr>) \<le> int (attempt_count sqlite_backend unary_io
      (sample_limiter\<lparr>max_attempts := 1\<rparr>) 100 ''k''
      (b_set_ttl sqlite_backend 100 ns_attempts (record_key unary_io ''k'' 100 ''r'') (PBool True)
         (of_int (window_seconds (sample_limiter\<lparr>max_attempts := 1\<rparr>))) [((ns_strikes, ''k''), (PInt 1, Some 200))]))"
    by code_simp
qed (simp_all add: strikes_at_def strike_count_def live_def expired_def sample_limiter_def)

text \<open>After a successful login the key is not locked, has its full budget of attempts
  and no lockout is remembered against it.\<close>

theorem success_clears_limits:
  assumes "rows_wf s" and "now \<le> t" and "s' = record_success sqlite_backend now key s"
  shows "map_option fst (is_locked sqlite_backend t key s') = Some False \<and>
    remaining_attempts sqlite_backend fl lm t key s' = max 0 (max_attempts lm) \<and>
    map_of s' (ns_strikes, key) = None"
  unfolding assms(3) remaining_attempts_def
  using sqlscan.success_clears [OF assms(1,2)] by simp

theorem success_clears_limits_witness:
  "map_of (record_success sqlite_backend 100 ''k'' [((ns_strikes, ''k''), (PInt 1, Some 200))])
     (ns_strikes, ''k'') = None"
  by (rule success_clears_limits [OF _ order_refl refl, THEN conjunct2, THEN conjunct2])
    (simp add: rows_wf_def)

text \<open>The requests of one address inside one fixed window are admitted exactly while
  their number is within the budget, over either backend.\<close>

theorem window_admits_budget:
  assumes "0 < w" and "\<forall>t \<in> set ts. \<lfloor>t / of_int w\<rfloor> = b"
    and "map_of s (ns_general, ip @ [nul] @ int_str b) = None"
    and "be \<in> {sqlite_backend, memory_backend}"
  shows "map_option fst (request_run be ip m w ts s) = Some (map (\<lambda>i. int i < m) [0..<length ts])"
  using sqlkv.request_run_count [OF assms(1,2), of s ip 0 m] memkv.request_run_count [OF assms(1,2), of s ip 0 m]
    assms(3,4) by (auto simp: live_def)

theorem window_admits_budget_witness:
  "map_option fst (request_run sqlite_backend ''10.0.0.1'' 2 300 [600, 610, 899] []) =
     Some (map (\<lambda>i. int i < 2) [0..<length [600, 610, 899 :: rat]])"
  by (rule window_admits_budget [where b = 2]) (simp_all add: floor_eq_iff)

text \<open>A key in which text between two NULs is no number (the limiter separates the
  parts of its records by NUL) is never counted: no number of failures locks it.\<close>

theorem nul_key_never_locked:
  assumes "rows_wf s" and "key @ [nul] = a @ nul # p @ nul # q" and "nul \<notin> set a" and "nul \<notin> set p"
    and "\<And>p'. map ascii_lower p' = map ascii_lower p \<Longrightarrow> read_float fl p' = None"
    and "0 < max_attempts lm"
  shows "map_of (record_failure sqlite_backend fl lm now rnd key s) (ns_lockouts, k) = map_of s (ns_lockouts, k)"
proof -
  have low: "ascii_lower c = nul \<longleftrightarrow> c = nul" for c
  proof -
    have "char_of (of_char c + 32 :: nat) \<noteq> nul" if "(of_char c :: nat) \<le> 90"
    proof
      assume "char_of (of_char c + 32 :: nat) = nul"
      then have "(of_char (char_of (of_char c + 32 :: nat) :: char) :: nat) = 0" by simp
      with that show False by simp
    qed
    then show ?thesis by (cases "c = nul") (simp_all add: ascii_lower_def Let_def)
  qed
  define s1 where "s1 = b_set_ttl sqlite_backend now ns_attempts (record_key fl key now rnd) (PBool True)
                (of_int (window_seconds lm)) s"
  have "rows_wf s1" using assms(1) by (simp add: s1_def sqlkv.wf_keep)
  from sqlscan.nul_key_uncounted [OF this assms(2-4) low assms(5)]
  have "attempt_count sqlite_backend fl lm now key s1 = 0" .
  with assms(6) have "record_failure sqlite_backend fl lm now rnd key s = s1"
    by (simp add: record_failure_def s1_def [symmetric])
  then show ?thesis by (simp add: s1_def sqlkv.set_ttl_look)
qed

theorem nul_key_never_locked_witness:
  "map_of (record_failure sqlite_backend unary_io (sample_limiter\<lparr>max_attempts := 1\<rparr>) 100 ''r''
     (''user:bob'' @ [nul] @ ''x'') []) (ns_lockouts, ''user:bob'' @ [nul] @ ''x'') =
   map_of [] (ns_lockouts, ''user:bob'' @ [nul] @ ''x'')"
  by (rule nul_key_never_locked [where a = "''user:bob''" and p = "''x''" and q = "[]"])
    (auto simp: rows_wf_def unary_io_def sample_limiter_def split: list.split)

section \<open>Share-link sessions\<close>

text \<open>C8: expansion is the closure of the held permissions under implication, and a
  session grants a request exactly when its canonical permission is in that closure, is not one of the
  control channels a view-only session lacks or the terminal ones a no-terminal session lacks, and the named
  resource is the bound one.\<close>

theorem permissions_granted_exactly:
  "expand_permissions ps = implies\<^sup>* `` ps \<and>
   (has_permission s perm resource \<longleftrightarrow>
     canonical_permission perm \<in>
       implies\<^sup>* `` e_permissions s
       - (if e_view_only s
          then {''control'', ''keyboard'', ''pointer'', ''clipboard'', ''clipboard_write'',
                ''clipboard_read'', ''file_transfer'', ''terminal'', ''terminal_view'',
                ''terminal_write'', ''gamepad''} else {})
       - (if e_no_terminal s then {''terminal'', ''terminal_view'', ''terminal_write''} else {})
     \<and> \<not> (given (e_resource s) \<and> given resource \<and> resource \<noteq> e_resource s))"
  unfolding has_permission_granted granted_def resource_mismatch_def
  by (rule conjI [OF expand_permissions_closure refl])

text \<open>A session whose lifetime has passed on the monotonic clock is expired at
  every setting of the wall clock, and an expired session stays expired while both clocks move forward.\<close>

theorem expiry_survives_clock_rewind:
  assumes "session_expired h s \<and> h_now h \<le> h_now h' \<or>
      e_created_monotonic s \<noteq> 0 \<and> e_created_monotonic s \<le> h_mono h \<and>
      e_created_monotonic s + (e_expires_at s - e_created_at s) \<le> h_mono h"
    and "h_mono h \<le> h_mono h'"
  shows "session_expired h' s"
  using assms by (auto simp: session_expired_def Let_def split: if_splits)

theorem expiry_survives_clock_rewind_witness:
  "session_expired ((sample_host 2)\<lparr>h_mono := 200\<rparr>) (requested_session (sample_env 10) 5 sample_args)"
  by (rule expiry_survives_clock_rewind [where h = "(sample_host 300)\<lparr>h_mono := 100\<rparr>"])
    (simp_all add: requested_session_def new_session_def sample_env_def sample_host_def)

text \<open>A session written to the file is read back unchanged but for its nonce, by every
  process and under every reading of numbers; every session the constructor builds can be written so.\<close>

theorem session_round_trip:
  "(storable s \<longrightarrow> from_dict fl h nonce (to_persist_dict g s) = Some (s\<lparr>e_nonce := nonce\<rparr>)) \<and>
   (finite (a_permissions a) \<and> h_instance g \<noteq> [] \<longrightarrow> storable (new_session g nonce' a))"
  by (simp add: from_dict_persist new_session_storable)

theorem session_round_trip_witness:
  "from_dict unary_io (sample_host 20) ''m''
     (to_persist_dict (sample_host 10) (new_session (sample_host 10) ''n'' sample_args)) =
   Some ((new_session (sample_host 10) ''n'' sample_args)\<lparr>e_nonce := ''m''\<rparr>)"
  by (rule session_round_trip [THEN conjunct1, THEN mp, OF session_round_trip [THEN conjunct2, THEN mp]])
    (simp add: sample_args_def sample_host_def)

section \<open>Links across processes\<close>

text \<open>C5: a single-use link is activated or consumed at most once over the whole
  deployment: whatever requests its processes serve after the link was created, in any order, with any
  clocks and any faults of the session file and the backend.\<close>

theorem single_use_redeemed_once:
  assumes "no_copy tok sy" and "a_token a = tok" and "a_single_use a"
    and "create_session env ttl a (store_at pid sy) = (r, st)"
    and "\<forall>(p, e, rq) \<in> set evs. \<not> creates rq tok"
  shows "redemptions tok evs (fst (serve_all sqlite_backend evs (put_store pid st sy))) \<le> 1"
  using assms by (rule sqlkv.created_single_use_run)

definition sample_redeems :: "event list" where
  "sample_redeems =
     [(1, sample_env 11, RqActivate (sample_link sample_args) None),
      (2, sample_env 11, RqActivate (sample_link sample_args) None),
      (0, sample_env 12, RqConsume (sample_link sample_args)),
      (2, sample_env 12, RqCheckSession ''tok'' ''view'' None None)]"

theorem single_use_redeemed_once_witness:
  "redemptions ''tok'' sample_redeems
     (fst (serve_all sqlite_backend sample_redeems (put_store 0 (sample_created sample_args) empty_system))) \<le> 1"
  by (rule single_use_redeemed_once [OF empty_system_no_copy _ _ surjective_pairing
        [of "create_session (sample_env 10) 5 sample_args (store_at 0 empty_system)",
         folded sample_created_def]])
    (simp_all add: sample_args_def sample_redeems_def creates_def)

lemma sample_redeems_run:
  "fst (serve_all sqlite_backend sample_redeems (put_store 0 (sample_created sample_args) empty_system)) =
     [AnToken (Some ''tok''), AnToken None, AnBool False, AnBool True]"
  by code_simp

text \<open>C7: a link with a budget of uses is activated at most that many times over the
  whole deployment, in any run of any processes.\<close>

theorem budget_bounds_activations:
  assumes "no_copy tok sy" and "a_token a = tok" and "\<not> a_single_use a" and "0 < a_max_uses a"
    and "create_session env ttl a (store_at pid sy) = (r, st)"
    and "map_of (sy_state sy) (ns_uses, tok) = None"
    and "\<forall>(p, e, rq) \<in> set evs. \<not> creates rq tok"
  shows "int (activations tok evs (fst (serve_all sqlite_backend evs (put_store pid st sy)))) \<le> a_max_uses a"
  using assms by (rule sqlkv.created_budget_run)

definition budget_args :: session_args where
  "budget_args = sample_args\<lparr>a_single_use := False, a_max_uses := 2\<rparr>"

definition budget_events :: "event list" where
  "budget_events = map (\<lambda>p. (p, sample_env 11, RqActivate (sample_link budget_args) None)) [1, 2, 1, 2]"

theorem budget_bounds_activations_witness:
  "int (activations ''tok'' budget_events
     (fst (serve_all sqlite_backend budget_events (put_store 0 (sample_created budget_args) empty_system))))
   \<le> a_max_uses budget_args"
  by (rule budget_bounds_activations [OF empty_system_no_copy _ _ _ surjective_pairing
        [of "create_session (sample_env 10) 5 budget_args (store_at 0 empty_system)",
         folded sample_created_def]])
    (simp_all add: budget_args_def sample_args_def budget_events_def creates_def empty_system_def)

lemma budget_events_run:
  "fst (serve_all sqlite_backend budget_events (put_store 0 (sample_created budget_args) empty_system)) =
     [AnToken (Some ''tok''), AnToken (Some ''tok''), AnToken None, AnToken None]"
  by code_simp


text \<open>The file is not writable when process 1 revokes: only the marker tells the others.\<close>

definition revoke_system :: "rows system" where
  "revoke_system = put_store 0 (sample_created budget_args) empty_system"

definition revoke_env :: senv where
  "revoke_env = (sample_env 11)\<lparr>v_writable := False\<rparr>"

definition revoke_events :: "event list" where
  "revoke_events =
     [(2, sample_env 11, RqCheckSession ''tok'' ''view'' None None),
      (0, sample_env 12, RqActivate (sample_link budget_args) None)]"

lemma revoke_system_revoked:
  "fst (revoke_in_store sqlite_backend revoke_env ''tok'' (store_at 1 revoke_system)) = Returned True"
  by code_simp

lemma revoke_system_result:
  "revoke_in_store sqlite_backend revoke_env ''tok'' (store_at 1 revoke_system) =
     (Returned True, snd (revoke_in_store sqlite_backend revoke_env ''tok'' (store_at 1 revoke_system)))"
  by (rule prod_eqI) (simp_all only: fst_conv snd_conv revoke_system_revoked)


text \<open>Wherever a run of any processes carries the session of a link, each copy keeps the
  grant it was created with (role, permissions, expiry, restrictions, binding and budget), is never
  un-revoked or un-used, and never loses counted uses.\<close>

theorem grants_never_change:
  assumes "no_copy tok sy" and "a_token a = tok" and "finite (a_permissions a)"
    and "create_session env ttl a (store_at pid sy) = (r, st)"
    and "\<forall>(p, e, rq) \<in> set evs. \<not> creates rq tok"
    and "map_of (fst (sy_local (snd (serve_all be evs (put_store pid st sy))) p)) tok = Some s"
  shows "e_role s = a_role a \<and> e_expires_at s = v_now env + ttl \<and>
    e_permissions s = (if a_permissions a \<noteq> {} then a_permissions a else role_permissions (a_role a)) \<and>
    e_view_only s = a_view_only a \<and> e_no_terminal s = a_no_terminal a \<and> e_resource s = a_resource a \<and>
    e_single_use s = a_single_use a \<and>
    e_max_uses s = (if 0 < a_max_uses a then a_max_uses a else if a_single_use a then 1 else 0) \<and>
    0 \<le> e_use_count s"
proof -
  have g: "grows (requested_session env ttl a) s"
    by (rule grant_run [OF assms(1,2,4-6)])
  have "role_permissions x \<noteq> {} \<and> finite (role_permissions x)" for x
    by (simp add: role_permissions_def all_permissions_def)
  with g assms(3) show ?thesis
    by (simp add: grows_def requested_session_def new_session_def)
qed

definition carried_session :: esession where
  "carried_session = the (map_of (fst (sy_local (snd (serve_all sqlite_backend sample_redeems
     (put_store 0 (sample_created sample_args) empty_system))) 2)) ''tok'')"

lemma carried_session_found:
  "map_of (fst (sy_local (snd (serve_all sqlite_backend sample_redeems
     (put_store 0 (sample_created sample_args) empty_system))) 2)) ''tok'' = Some carried_session"
proof -
  have "map_of (fst (sy_local (snd (serve_all sqlite_backend sample_redeems
     (put_store 0 (sample_created sample_args) empty_system))) 2)) ''tok'' \<noteq> None"
    by code_simp
  then show ?thesis unfolding carried_session_def by simp
qed

theorem grants_never_change_witness:
  "e_permissions carried_session = role_permissions ''support''"
proof -
  have "e_permissions carried_session = (if a_permissions sample_args \<noteq> {} then a_permissions sample_args
      else role_permissions (a_role sample_args))"
    by (rule grants_never_change [THEN conjunct2, THEN conjunct2, THEN conjunct1, OF empty_system_no_copy _ _ surjective_pairing
        [of "create_session (sample_env 10) 5 sample_args (store_at 0 empty_system)",
         folded sample_created_def] _ carried_session_found])
      (simp_all add: sample_args_def sample_redeems_def creates_def)
  then show ?thesis by (simp add: sample_args_def)
qed

text \<open>When a single-use link is used directly as a bearer token, losing the
  claim does not matter to the answer: once validation passed and the permission is held, the check says yes
  even though the consumption it triggers reports that another process already took the link.\<close>

theorem bearer_check_ignores_lost_claim:
  assumes "validate_session be env stok ip resource (load_if_changed env st) = (Returned (Some s), st1)"
    and "has_permission s perm resource" and "e_single_use s"
    and "fst (consume_ephemeral_session be env stok st1) = Returned False"
  shows "fst (check_permission be env stok perm resource ip st) = Returned True"
  using assms by (auto simp: check_permission_def Let_def split: prod.splits)

text \<open>The session file is not writable: the first process's consumption reaches the second one only through
  the backend claim, which the second check loses without noticing.\<close>

definition bearer_env :: senv where
  "bearer_env = (sample_env 11)\<lparr>v_writable := False\<rparr>"

definition bearer_system :: "rows system" where
  "bearer_system = snd (serve_all sqlite_backend
     [(1, bearer_env, RqCheckLink (sample_link sample_args) ''view'' None None)]
     (put_store 0 (sample_created sample_args) empty_system))"

definition bearer_valid :: "esession option outcome \<times> rows store" where
  "bearer_valid = validate_session sqlite_backend bearer_env (sample_link sample_args) None None
     (load_if_changed bearer_env (store_at 2 bearer_system))"

definition bearer_session :: esession where
  "bearer_session = the (case fst bearer_valid of Returned hit \<Rightarrow> hit | Raised \<Rightarrow> None)"

theorem bearer_check_ignores_lost_claim_witness:
  "fst (check_permission sqlite_backend bearer_env (sample_link sample_args) ''view'' None None
     (store_at 2 bearer_system)) = Returned True"
proof (rule bearer_check_ignores_lost_claim)
  have "(case fst bearer_valid of Returned (Some s) \<Rightarrow> True | _ \<Rightarrow> False)"
    by code_simp
  then have "fst bearer_valid = Returned (Some bearer_session)"
    unfolding bearer_session_def by (auto split: outcome.splits option.splits)
  then show "validate_session sqlite_backend bearer_env (sample_link sample_args) None None
      (load_if_changed bearer_env (store_at 2 bearer_system)) =
      (Returned (Some bearer_session), snd bearer_valid)"
    unfolding bearer_valid_def by (metis prod.collapse)
  show "has_permission bearer_session ''view'' None" "e_single_use bearer_session"
    by code_simp+
  show "fst (consume_ephemeral_session sqlite_backend bearer_env (sample_link sample_args)
      (snd bearer_valid)) = Returned False"
    by code_simp
qed

end
