(* ===== verification/PyJson.thy ===== *)
theory PyJson
  imports PyData "HOL-Library.Char_ord" "HOL-Library.List_Lexorder"
begin

text \<open>
  The module json of the Python library as the services use it: \<open>json.dumps\<close> (ASCII output, either
  separator style, optionally with sorted keys) and \<open>json.loads\<close>.  A text is a list of characters
  up to code 255; NaN, the infinities and escapes of larger code points are outside the value type
  and are read as errors.  The reader has fuel for its nesting; \<open>scan_fuel\<close> shows that the fuel of
  \<open>json_loads\<close> never runs out, and \<open>json_loads_dumps\<close> is the round trip.
\<close>

section \<open>Printing\<close>

definition hex_digit :: "nat \<Rightarrow> char" where
  "hex_digit n = (if n < 10 then char_of (48 + n) else char_of (87 + n))"

definition json_char :: "char \<Rightarrow> string" where
  "json_char c =
     (let n = of_char c :: nat in
      if n = 34 then [CHR 0x5C, CHR 0x22]
      else if n = 92 then [CHR 0x5C, CHR 0x5C]
      else if n = 10 then [CHR 0x5C, CHR ''n'']
      else if n = 13 then [CHR 0x5C, CHR ''r'']
      else if n = 9 then [CHR 0x5C, CHR ''t'']
      else if n = 12 then [CHR 0x5C, CHR ''f'']
      else if n = 8 then [CHR 0x5C, CHR ''b'']
      else if 32 \<le> n \<and> n \<le> 126 then [c]
      else [CHR 0x5C, CHR ''u'', CHR ''0'', CHR ''0'', hex_digit (n div 16), hex_digit (n mod 16)])"

definition json_string :: "string \<Rightarrow> string" where
  "json_string s = CHR 0x22 # concat (map json_char s) @ [CHR 0x22]"

text \<open>\<open>separators=(",", ":")\<close> or the default \<open>(", ", ": ")\<close>.\<close>

datatype json_style = Compact | Spaced

definition gap :: "json_style \<Rightarrow> string" where
  "gap st = (case st of Compact \<Rightarrow> [] | Spaced \<Rightarrow> '' '')"

fun join :: "string \<Rightarrow> string list \<Rightarrow> string" where
  "join sep [] = []"
| "join sep [x] = x"
| "join sep (x # y # ys) = x @ sep @ join sep (y # ys)"

fun json_dumps :: "float_io \<Rightarrow> json_style \<Rightarrow> pyval \<Rightarrow> string" where
  "json_dumps fl st PNone = ''null''"
| "json_dumps fl st (PBool b) = (if b then ''true'' else ''false'')"
| "json_dumps fl st (PInt n) = int_str n"
| "json_dumps fl st (PFloat x) = show_float fl x"
| "json_dumps fl st (PStr s) = json_string s"
| "json_dumps fl st (PList xs) = ''['' @ join ('','' @ gap st) (map (json_dumps fl st) xs) @ '']''"
| "json_dumps fl st (PDict kvs) =
     ''{'' @ join ('','' @ gap st)
       (map (\<lambda>(k, v). json_string k @ '':'' @ gap st @ json_dumps fl st v) kvs) @ ''}''"

text \<open>\<open>sort_keys=True\<close> sorts at every level.\<close>

fun sort_keys :: "pyval \<Rightarrow> pyval" where
  "sort_keys (PList xs) = PList (map sort_keys xs)"
| "sort_keys (PDict kvs) = PDict (sort_key fst (map (\<lambda>(k, v). (k, sort_keys v)) kvs))"
| "sort_keys v = v"

section \<open>Reading\<close>

definition json_space :: "char \<Rightarrow> bool" where
  "json_space c \<longleftrightarrow> of_char c \<in> {9, 10, 13, 32 :: nat}"

definition skip_ws :: "string \<Rightarrow> string" where
  "skip_ws = dropWhile json_space"

definition hex_val :: "char \<Rightarrow> nat option" where
  "hex_val c =
     (let n = of_char c :: nat in
      if 48 \<le> n \<and> n \<le> 57 then Some (n - 48)
      else if 97 \<le> n \<and> n \<le> 102 then Some (n - 87)
      else if 65 \<le> n \<and> n \<le> 70 then Some (n - 55)
      else None)"

definition unescape :: "char \<Rightarrow> char option" where
  "unescape c =
     (if c \<in> {CHR 0x22, CHR 0x5C, CHR ''/''} then Some c
      else if c = CHR ''b'' then Some (CHR 0x08)
      else if c = CHR ''f'' then Some (CHR 0x0C)
      else if c = CHR ''n'' then Some (CHR 0x0A)
      else if c = CHR ''r'' then Some (CHR 0x0D)
      else if c = CHR ''t'' then Some (CHR 0x09)
      else None)"

text \<open>The character after \<open>\u\<close> and the text after it.\<close>

definition scan_hex4 :: "string \<Rightarrow> (char \<times> string) option" where
  "scan_hex4 s =
     (case s of
        a # b # c # d # r \<Rightarrow>
          (case (hex_val a, hex_val b, hex_val c, hex_val d) of
             (Some i, Some j, Some k, Some l) \<Rightarrow>
               if i = 0 \<and> j = 0 then Some (char_of (k * 16 + l), r) else None
           | _ \<Rightarrow> None)
      | _ \<Rightarrow> None)"

lemma scan_hex4_shorter: "scan_hex4 s = Some (c, r) \<Longrightarrow> length r < length s"
  by (auto simp: scan_hex4_def split: list.splits option.splits if_splits)

text \<open>The text of a string literal after its opening quote.\<close>

function scan_string :: "string \<Rightarrow> (string \<times> string) option" where
  "scan_string [] = None"
| "scan_string (c # s) =
     (if c = CHR 0x22 then Some ([], s)
      else if c = CHR 0x5C then
        (case s of
           [] \<Rightarrow> None
         | e # s' \<Rightarrow>
             if e = CHR ''u''
             then (case scan_hex4 s' of
                     None \<Rightarrow> None
                   | Some (x, r) \<Rightarrow> map_option (\<lambda>(t, r'). (x # t, r')) (scan_string r))
             else (case unescape e of
                     None \<Rightarrow> None
                   | Some x \<Rightarrow> map_option (\<lambda>(t, r'). (x # t, r')) (scan_string s')))
      else if of_char c < (32 :: nat) then None
      else map_option (\<lambda>(t, r'). (c # t, r')) (scan_string s))"
  by pat_completeness auto
termination
  by (relation "measure length") (auto dest: scan_hex4_shorter)

definition is_digit :: "char \<Rightarrow> bool" where
  "is_digit c \<longleftrightarrow> digit_val c \<noteq> None"

definition frac_part :: "string \<Rightarrow> string" where
  "frac_part s =
     (case s of
        c # d # r \<Rightarrow> if c = CHR ''.'' \<and> is_digit d then c # takeWhile is_digit (d # r) else []
      | _ \<Rightarrow> [])"

definition exp_part :: "string \<Rightarrow> string" where
  "exp_part s =
     (case s of
        c # r \<Rightarrow>
          if c = CHR ''e'' \<or> c = CHR ''E'' then
            (let sg = (case r of d # _ \<Rightarrow> if d = CHR ''+'' \<or> d = CHR ''-'' then [d] else [] | _ \<Rightarrow> []);
                 ds = takeWhile is_digit (drop (length sg) r)
             in if ds = [] then [] else c # sg @ ds)
          else []
      | _ \<Rightarrow> [])"

text \<open>The digits of a number, its sign given, and the text after it.\<close>

definition scan_magnitude :: "float_io \<Rightarrow> bool \<Rightarrow> string \<Rightarrow> (pyval \<times> string) option" where
  "scan_magnitude fl neg s =
     (case s of
        [] \<Rightarrow> None
      | c # _ \<Rightarrow>
          if \<not> is_digit c then None
          else let ip = (if c = CHR ''0'' then [c] else takeWhile is_digit s);
                   s2 = drop (length ip) s;
                   fr = frac_part s2;
                   s3 = drop (length fr) s2;
                   ex = exp_part s3
               in if fr = [] \<and> ex = []
                  then map_option (\<lambda>n. (PInt (if neg then - int n else int n), s2))
                         (py_digits 0 ip)
                  else map_option (\<lambda>x. (PFloat x, drop (length ex) s3))
                         (read_float fl ((if neg then ''-'' else []) @ ip @ fr @ ex)))"

definition scan_number :: "float_io \<Rightarrow> string \<Rightarrow> (pyval \<times> string) option" where
  "scan_number fl s =
     (case s of
        [] \<Rightarrow> None
      | c # r \<Rightarrow> if c = CHR ''-'' then scan_magnitude fl True r else scan_magnitude fl False s)"

text \<open>\<open>dict(pairs)\<close>.\<close>

definition dict_of :: "(string \<times> pyval) list \<Rightarrow> (string \<times> pyval) list" where
  "dict_of kvs = foldl (\<lambda>d (k, v). AList.update k v d) [] kvs"

fun scan_value :: "float_io \<Rightarrow> nat \<Rightarrow> string \<Rightarrow> (pyval \<times> string) option"
and scan_items :: "float_io \<Rightarrow> nat \<Rightarrow> string \<Rightarrow> (pyval list \<times> string) option"
and scan_members :: "float_io \<Rightarrow> nat \<Rightarrow> string \<Rightarrow> ((string \<times> pyval) list \<times> string) option" where
  "scan_value fl 0 s = None"
| "scan_value fl (Suc n) s =
     (case s of
        [] \<Rightarrow> None
      | c # r \<Rightarrow>
          if c = CHR 0x22 then map_option (\<lambda>(t, r'). (PStr t, r')) (scan_string r)
          else if c = CHR ''{'' then
            (case skip_ws r of
               [] \<Rightarrow> None
             | d # r' \<Rightarrow>
                 if d = CHR ''}'' then Some (PDict [], r')
                 else if d = CHR 0x22
                 then map_option (\<lambda>(kvs, r''). (PDict (dict_of kvs), r'')) (scan_members fl n r')
                 else None)
          else if c = CHR ''['' then
            (case skip_ws r of
               [] \<Rightarrow> None
             | d # r' \<Rightarrow>
                 if d = CHR '']'' then Some (PList [], r')
                 else map_option (\<lambda>(vs, r''). (PList vs, r'')) (scan_items fl n (d # r')))
          else if prefix ''null'' s then Some (PNone, drop 4 s)
          else if prefix ''true'' s then Some (PBool True, drop 4 s)
          else if prefix ''false'' s then Some (PBool False, drop 5 s)
          else scan_number fl s)"
| "scan_items fl 0 s = None"
| "scan_items fl (Suc n) s =
     (case scan_value fl n s of
        None \<Rightarrow> None
      | Some (v, r) \<Rightarrow>
          (case skip_ws r of
             [] \<Rightarrow> None
           | d # r' \<Rightarrow>
               if d = CHR '']'' then Some ([v], r')
               else if d = CHR '',''
               then map_option (\<lambda>(vs, r''). (v # vs, r'')) (scan_items fl n (skip_ws r'))
               else None))"
| "scan_members fl 0 s = None"
| "scan_members fl (Suc n) s =
     (case scan_string s of
        None \<Rightarrow> None
      | Some (k, r) \<Rightarrow>
          (case skip_ws r of
             [] \<Rightarrow> None
           | d # r1 \<Rightarrow>
               if d \<noteq> CHR '':'' then None
               else (case scan_value fl n (skip_ws r1) of
                       None \<Rightarrow> None
                     | Some (v, r2) \<Rightarrow>
                         (case skip_ws r2 of
                            [] \<Rightarrow> None
                          | d' # r3 \<Rightarrow>
                              if d' = CHR ''}'' then Some ([(k, v)], r3)
                              else if d' = CHR '','' then
                                (case skip_ws r3 of
                                   [] \<Rightarrow> None
                                 | q # r4 \<Rightarrow>
                                     if q = CHR 0x22
                                     then map_option (\<lambda>(kvs, r'). ((k, v) # kvs, r'))
                                            (scan_members fl n r4)
                                     else None)
                              else None))))"

definition json_loads :: "float_io \<Rightarrow> string \<Rightarrow> pyval option" where
  "json_loads fl s =
     (case scan_value fl (2 * length s + 2) (skip_ws s) of
        None \<Rightarrow> None
      | Some (v, r) \<Rightarrow> if skip_ws r = [] then Some v else None)"

section \<open>The reader consumes its input and has enough fuel\<close>

declare scan_string.simps [simp del]

lemma skip_ws_length: "length (skip_ws s) \<le> length s"
  by (simp add: skip_ws_def length_dropWhile_le)

lemma skip_ws_Cons: "skip_ws s = d # r \<Longrightarrow> length r < length s"
  using skip_ws_length [of s] by simp

lemma scan_string_shorter: "scan_string s = Some (t, r) \<Longrightarrow> length r < length s"
proof (induction s arbitrary: t r rule: scan_string.induct)
  case (2 c s)
  then show ?case
    by (auto simp: scan_string.simps(2) split: if_splits list.splits option.splits
        dest!: scan_hex4_shorter) fastforce+
qed (simp add: scan_string.simps)

lemma scan_magnitude_shorter:
  assumes "scan_magnitude fl neg s = Some (v, r)"
  shows "length r < length s"
proof -
  from assms obtain c t where s: "s = c # t" and d: "is_digit c"
    by (auto simp: scan_magnitude_def split: list.splits if_splits)
  from assms d show ?thesis
    by (auto simp: scan_magnitude_def Let_def s simp del: py_digits.simps split: if_splits)
qed

lemma scan_number_shorter: "scan_number fl s = Some (v, r) \<Longrightarrow> length r < length s"
  by (auto simp: scan_number_def split: list.splits if_splits dest!: scan_magnitude_shorter)

lemma scan_valueE:
  assumes "scan_value fl (Suc n) s = Some (v, r)"
  obtains (strg) c r0 t where "s = c # r0" "scan_string r0 = Some (t, r)" "v = PStr t"
    | (empty) c r0 d where "s = c # r0" "skip_ws r0 = d # r" "v = PDict [] \<or> v = PList []"
    | (items) c r0 d r1 vs where "s = c # r0" "skip_ws r0 = d # r1"
        "scan_items fl n (d # r1) = Some (vs, r)" "v = PList vs"
    | (members) c r0 d r1 kvs where "s = c # r0" "skip_ws r0 = d # r1"
        "scan_members fl n r1 = Some (kvs, r)" "v = PDict (dict_of kvs)"
    | (word) k where "s \<noteq> []" "r = drop (Suc k) s" "v = PNone \<or> (\<exists>b. v = PBool b)"
    | (number) "scan_number fl s = Some (v, r)"
proof -
  from assms obtain c r0 where s: "s = c # r0" by (auto split: list.splits)
  show thesis
  proof (cases "c = CHR 0x22 \<or> c = CHR ''{'' \<or> c = CHR ''[''")
    case True
    with assms s show thesis
      by (auto split: list.splits if_splits intro: that(1-4) [OF s])
  next
    case False
    with assms s have "(\<exists>k. r = drop (Suc k) s \<and> (v = PNone \<or> (\<exists>b. v = PBool b))) \<or>
        scan_number fl s = Some (v, r)"
      by (simp split: if_splits) (metis drop_Suc_Cons numeral_nat(2))+
    with s show thesis by (auto intro: that(5,6))
  qed
qed

lemma scan_itemsE:
  assumes "scan_items fl (Suc n) s = Some (vs, r)"
  obtains v r1 d r2 where "scan_value fl n s = Some (v, r1)" "skip_ws r1 = d # r2"
    "r = r2 \<or> (\<exists>vs'. scan_items fl n (skip_ws r2) = Some (vs', r))"
  using assms by (auto split: option.splits prod.splits list.splits if_splits)

lemma scan_membersE:
  assumes "scan_members fl (Suc n) s = Some (kvs, r)"
  obtains k r0 d r1 v r2 d' r3 where
    "scan_string s = Some (k, r0)" "skip_ws r0 = d # r1"
    "scan_value fl n (skip_ws r1) = Some (v, r2)" "skip_ws r2 = d' # r3"
    "r = r3 \<or> (\<exists>q r4 kvs'. skip_ws r3 = q # r4 \<and> scan_members fl n r4 = Some (kvs', r))"
  using assms by (auto split: option.splits prod.splits list.splits if_splits)

lemma scan_shorter:
  "(\<forall>s v r. scan_value fl n s = Some (v, r) \<longrightarrow> length r < length s) \<and>
   (\<forall>s vs r. scan_items fl n s = Some (vs, r) \<longrightarrow> length r < length s) \<and>
   (\<forall>s kvs r. scan_members fl n s = Some (kvs, r) \<longrightarrow> length r < length s)"
proof (induction n)
  case (Suc n)
  then have v: "\<And>s v r. scan_value fl n s = Some (v, r) \<Longrightarrow> length r < length s"
    and i: "\<And>s vs r. scan_items fl n s = Some (vs, r) \<Longrightarrow> length r < length s"
    and m: "\<And>s kvs r. scan_members fl n s = Some (kvs, r) \<Longrightarrow> length r < length s"
    by blast+
  have "length r < length s" if "scan_value fl (Suc n) s = Some (w, r)" for s w r
    using that
  proof (cases rule: scan_valueE)
    case (items c r0 d r1 vs)
    then show ?thesis using i [OF items(3)] skip_ws_Cons [OF items(2)] by simp
  next
    case (members c r0 d r1 kvs)
    then show ?thesis using m [OF members(3)] skip_ws_Cons [OF members(2)] by simp
  qed (auto dest: scan_string_shorter skip_ws_Cons scan_number_shorter)
  moreover have "length r < length s" if "scan_items fl (Suc n) s = Some (vs, r)" for s vs r
    using that
  proof (rule scan_itemsE)
    fix w r1 d r2
    assume a: "scan_value fl n s = Some (w, r1)" "skip_ws r1 = d # r2"
      "r = r2 \<or> (\<exists>vs'. scan_items fl n (skip_ws r2) = Some (vs', r))"
    have "length r2 < length s" using v [OF a(1)] skip_ws_Cons [OF a(2)] by linarith
    moreover have "length r \<le> length r2"
      using a(3) i skip_ws_length [of r2] by (metis le_refl less_imp_le order_less_le_trans)
    ultimately show ?thesis by linarith
  qed
  moreover have "length r < length s" if "scan_members fl (Suc n) s = Some (kvs, r)" for s kvs r
    using that
  proof (rule scan_membersE)
    fix k r0 d r1 w r2 d' r3
    assume a: "scan_string s = Some (k, r0)" "skip_ws r0 = d # r1"
      "scan_value fl n (skip_ws r1) = Some (w, r2)" "skip_ws r2 = d' # r3"
      "r = r3 \<or> (\<exists>q r4 kvs'. skip_ws r3 = q # r4 \<and> scan_members fl n r4 = Some (kvs', r))"
    have "length r3 < length s"
      using scan_string_shorter [OF a(1)] skip_ws_Cons [OF a(2)] v [OF a(3)] skip_ws_Cons [OF a(4)]
        skip_ws_length [of r1] by linarith
    moreover have "length r \<le> length r3"
      using a(5) m skip_ws_Cons by (metis le_refl less_imp_le order.strict_trans)
    ultimately show ?thesis by linarith
  qed
  ultimately show ?case by blast
qed simp

lemma scan_value_shorter: "scan_value fl n s = Some (v, r) \<Longrightarrow> length r < length s"
  using scan_shorter by blast

text \<open>Two amounts of fuel above twice the length read the same.\<close>

lemma scan_fuel_aux:
  "(\<forall>s m. 2 * length s < n \<and> 2 * length s < m \<longrightarrow> scan_value fl n s = scan_value fl m s) \<and>
   (\<forall>s m. 2 * length s + 1 < n \<and> 2 * length s + 1 < m \<longrightarrow> scan_items fl n s = scan_items fl m s) \<and>
   (\<forall>s m. 2 * length s < n \<and> 2 * length s < m \<longrightarrow> scan_members fl n s = scan_members fl m s)"
proof (induction n)
  case (Suc n)
  then have v: "\<And>s m. 2 * length s < n \<Longrightarrow> 2 * length s < m \<Longrightarrow> scan_value fl n s = scan_value fl m s"
    and i: "\<And>s m. 2 * length s + 1 < n \<Longrightarrow> 2 * length s + 1 < m \<Longrightarrow> scan_items fl n s = scan_items fl m s"
    and mm: "\<And>s m. 2 * length s < n \<Longrightarrow> 2 * length s < m \<Longrightarrow> scan_members fl n s = scan_members fl m s"
    by blast+
  have "scan_value fl (Suc n) s = scan_value fl m s"
    if l: "2 * length s < Suc n" "2 * length s < m" for s m
  proof -
    obtain m' where m: "m = Suc m'" using l by (cases m) auto
    show ?thesis
    proof (cases s)
      case (Cons c r)
      have "scan_items fl n (d # r') = scan_items fl m' (d # r')" if "skip_ws r = d # r'" for d r'
        by (rule i) (use l m Cons skip_ws_Cons [OF that] in auto)
      moreover have "scan_members fl n r' = scan_members fl m' r'" if "skip_ws r = d # r'" for d r'
        by (rule mm) (use l m Cons skip_ws_Cons [OF that] in auto)
      ultimately show ?thesis by (simp add: m Cons split: list.split)
    qed (simp add: m)
  qed
  moreover have "scan_items fl (Suc n) s = scan_items fl m s"
    if l: "2 * length s + 1 < Suc n" "2 * length s + 1 < m" for s m
  proof -
    obtain m' where m: "m = Suc m'" using l by (cases m) auto
    have e: "scan_value fl n s = scan_value fl m' s" by (rule v) (use l m in auto)
    have "scan_items fl n (skip_ws r') = scan_items fl m' (skip_ws r')"
      if "scan_value fl m' s = Some (w, r)" "skip_ws r = d # r'" for w r d r'
      using scan_value_shorter [OF that(1)] skip_ws_Cons [OF that(2)] skip_ws_length [of r'] l m
      by (intro i) auto
    then show ?thesis by (simp add: m e split: option.split list.split)
  qed
  moreover have "scan_members fl (Suc n) s = scan_members fl m s"
    if l: "2 * length s < Suc n" "2 * length s < m" for s m
  proof -
    obtain m' where m: "m = Suc m'" using l by (cases m) auto
    have e: "scan_value fl n (skip_ws r1) = scan_value fl m' (skip_ws r1)"
      if "scan_string s = Some (k, r0)" "skip_ws r0 = d # r1" for k r0 d r1
      using scan_string_shorter [OF that(1)] skip_ws_Cons [OF that(2)] skip_ws_length [of r1] l m
      by (intro v) auto
    have "scan_members fl n r4 = scan_members fl m' r4"
      if "scan_string s = Some (k, r0)" "skip_ws r0 = d # r1"
        "scan_value fl m' (skip_ws r1) = Some (w, r2)" "skip_ws r2 = d' # r3" "skip_ws r3 = q # r4"
      for k r0 d r1 w r2 d' r3 q r4
      using scan_string_shorter [OF that(1)] skip_ws_Cons [OF that(2)] skip_ws_length [of r1]
        scan_value_shorter [OF that(3)] skip_ws_Cons [OF that(4)] skip_ws_Cons [OF that(5)] l m
      by (intro mm) auto
    with e show ?thesis by (simp add: m split: option.split list.split)
  qed
  ultimately show ?case by blast
qed simp

lemma scan_fuel:
  "2 * length s < n \<Longrightarrow> 2 * length s < m \<Longrightarrow> scan_value fl n s = scan_value fl m s"
  using scan_fuel_aux by blast

section \<open>Round trip\<close>

text \<open>What may follow a value inside a text.\<close>

definition ends_value :: "string \<Rightarrow> bool" where
  "ends_value r \<longleftrightarrow> r = [] \<or> hd r \<in> {CHR '','', CHR '']'', CHR ''}'', CHR 0x0A}"

definition printable :: "char \<Rightarrow> bool" where
  "printable c \<longleftrightarrow> (32 :: nat) \<le> of_char c \<and> of_char c \<le> (126 :: nat)"

text \<open>
  Dictionaries have each key once.  The code relies on \<open>repr\<close> of a float being a JSON number with a
  fraction or an exponent that reads back as the same float.
\<close>

definition json_floats :: "float_io \<Rightarrow> bool" where
  "json_floats fl \<longleftrightarrow>
     (\<forall>x. (\<exists>c t. show_float fl x = c # t \<and> (is_digit c \<or> c = CHR ''-'')) \<and>
          (\<forall>r. ends_value r \<longrightarrow>
               scan_number fl (show_float fl x @ r) = Some (PFloat x, r)) \<and>
          (\<forall>c \<in> set (show_float fl x). printable c))"

fun plain :: "pyval \<Rightarrow> bool" where
  "plain (PList xs) = (\<forall>x \<in> set xs. plain x)"
| "plain (PDict kvs) = (distinct (map fst kvs) \<and> (\<forall>kv \<in> set kvs. plain (snd kv)))"
| "plain v = True"

lemma hex_val_digit [simp]: "n < 16 \<Longrightarrow> hex_val (hex_digit n) = Some n"
  by (simp add: hex_val_def hex_digit_def Let_def)

lemma scan_json_char:
  "scan_string (json_char c @ r) = map_option (\<lambda>(t, r'). (c # t, r')) (scan_string r)"
proof -
  define n where "n = (of_char c :: nat)"
  have n: "n < 256" and c: "c = char_of n"
    by (simp_all add: n_def)
  have h: "hex_val (CHR ''0'') = Some 0" by (simp add: hex_val_def)
  have cs: "char_of (34 :: nat) = CHR 0x22" "char_of (92 :: nat) = CHR 0x5C"
    "char_of (10 :: nat) = CHR 0x0A" "char_of (13 :: nat) = CHR 0x0D" "char_of (9 :: nat) = CHR 0x09"
    "char_of (12 :: nat) = CHR 0x0C" "char_of (8 :: nat) = CHR 0x08"
    by code_simp+
  have d: "n div 16 < 16" using n by simp
  consider "n = 34" | "n = 92" | "n = 10" | "n = 13" | "n = 9" | "n = 12" | "n = 8"
    | "n \<notin> {34, 92, 10, 13, 9, 12, 8}" "32 \<le> n" "n \<le> 126"
    | "n \<notin> {34, 92, 10, 13, 9, 12, 8}" "\<not> (32 \<le> n \<and> n \<le> 126)" by blast
  then show ?thesis
  proof cases
    case 8
    then have "c \<noteq> CHR 0x22" "c \<noteq> CHR 0x5C" unfolding n_def by auto
    with 8 show ?thesis
      by (simp add: json_char_def Let_def n_def [symmetric] scan_string.simps)
  next
    case 9
    then have "json_char c = [CHR 0x5C, CHR ''u'', CHR ''0'', CHR ''0'', hex_digit (n div 16), hex_digit (n mod 16)]"
      by (simp add: json_char_def Let_def n_def [symmetric])
    moreover have "char_of (n div 16 * 16 + n mod 16) = c" by (simp add: c)
    ultimately show ?thesis
      using d by (simp add: scan_string.simps scan_hex4_def h)
  qed (simp_all add: json_char_def n_def [symmetric] scan_string.simps unescape_def c cs)
qed

lemma scan_json_string:
  "scan_string (concat (map json_char s) @ CHR 0x22 # r) = Some (s, r)"
  by (induction s) (simp_all add: scan_json_char scan_string.simps(2))

lemma ends_value_Cons [simp]: "ends_value (c # r) \<longleftrightarrow> c \<in> {CHR '','', CHR '']'', CHR ''}'', CHR 0x0A}"
  by (simp add: ends_value_def)

lemma digit_val_char [simp]: "d < 10 \<Longrightarrow> digit_val (char_of (48 + d)) = Some d"
  by (simp add: digit_val_def Let_def)

lemma is_digit_char [simp]: "d < 10 \<Longrightarrow> is_digit (char_of (48 + d :: nat))"
  by (simp add: is_digit_def)

lemma nat_str_small: "n < 10 \<Longrightarrow> nat_str n = [char_of (48 + n)]"
  by (subst nat_str.simps) simp

lemma nat_str_step: "10 \<le> n \<Longrightarrow> nat_str n = nat_str (n div 10) @ [char_of (48 + n mod 10)]"
  by (subst nat_str.simps) simp

lemma nat_str_digits: "list_all is_digit (nat_str n)"
proof (induction n rule: less_induct)
  case (less n)
  then show ?case
    by (cases "n < 10") (simp_all add: nat_str_small nat_str_step)
qed

lemma py_digits_snoc:
  "list_all is_digit xs \<Longrightarrow> d < 10 \<Longrightarrow>
   py_digits a (xs @ [char_of (48 + d)]) = map_option (\<lambda>m. m * 10 + d) (py_digits a xs)"
  by (induction xs arbitrary: a) (auto simp: is_digit_def)

lemma py_digits_nat_str: "py_digits 0 (nat_str n) = Some n"
proof (induction n rule: less_induct)
  case (less n)
  show ?case
  proof (cases "n < 10")
    case False
    with less have "py_digits 0 (nat_str (n div 10)) = Some (n div 10)" by simp
    moreover have "n mod 10 < 10" by simp
    ultimately show ?thesis
      using False nat_str_digits [of "n div 10"] by (simp add: nat_str_step py_digits_snoc)
  qed (simp add: nat_str_small)
qed

lemma nat_str_head:
  obtains c t where "nat_str n = c # t" "is_digit c" "c = CHR ''0'' \<longrightarrow> t = []"
proof -
  have "\<exists>c t. nat_str n = c # t \<and> is_digit c \<and> (c = CHR ''0'' \<longrightarrow> t = [] \<and> n = 0)"
  proof (induction n rule: less_induct)
    case (less n)
    show ?case
    proof (cases "n < 10")
      case True
      have "n = 0" if "char_of (48 + n) = CHR ''0''"
        using arg_cong [OF that, of "of_char :: char \<Rightarrow> nat"] True by simp
      with True show ?thesis by (simp add: nat_str_small)
    next
      case False
      then have "n div 10 < n" "n div 10 \<noteq> 0" by simp_all
      with less [of "n div 10"] obtain c t where "nat_str (n div 10) = c # t" "is_digit c"
        "c \<noteq> CHR ''0''" by blast
      with False show ?thesis by (simp add: nat_str_step)
    qed
  qed
  with that show thesis by blast
qed

lemma takeWhile_digits: "ends_value r \<Longrightarrow> list_all is_digit xs \<Longrightarrow> takeWhile is_digit (xs @ r) = xs"
  by (induction xs)
    (cases r; auto simp: ends_value_def is_digit_def digit_val_def)+

lemma ends_no_number: "ends_value r \<Longrightarrow> frac_part r = [] \<and> exp_part r = []"
  by (cases r) (auto simp: frac_part_def exp_part_def split: list.splits)

lemma scan_magnitude_nat_str:
  assumes "ends_value r"
  shows "scan_magnitude fl neg (nat_str n @ r) = Some (PInt (if neg then - int n else int n), r)"
proof -
  obtain c t where ct: "nat_str n = c # t" "is_digit c" "c = CHR ''0'' \<longrightarrow> t = []"
    by (rule nat_str_head)
  have tw: "takeWhile is_digit (c # t @ r) = c # t"
    using takeWhile_digits [OF assms nat_str_digits [of n]] ct by simp
  have ip: "(if c = CHR ''0'' then [c] else takeWhile is_digit (c # t @ r)) = c # t"
    using ct(3) tw by simp
  have dg: "py_digits 0 (c # t) = Some n" using py_digits_nat_str [of n] ct(1) by simp
  show ?thesis
    unfolding scan_magnitude_def ct(1) append_Cons list.case Let_def ip
    using ct(2) dg ends_no_number [OF assms] by (simp del: py_digits.simps)
qed

lemma is_digit_nonspace: "is_digit c \<Longrightarrow> \<not> json_space c \<and> c \<noteq> CHR ''-''"
  by (auto simp: is_digit_def digit_val_def json_space_def Let_def split: if_splits)

lemma scan_number_int_str:
  assumes "ends_value r"
  shows "scan_number fl (int_str n @ r) = Some (PInt n, r)"
proof (cases "n < 0")
  case True
  with assms show ?thesis
    by (simp add: scan_number_def int_str_def scan_magnitude_nat_str)
next
  case False
  obtain c t where ct: "nat_str (nat n) = c # t" "is_digit c"
    by (rule nat_str_head)
  with is_digit_nonspace have "c \<noteq> CHR ''-''" by blast
  with False ct scan_magnitude_nat_str [OF assms, of fl False "nat n"] show ?thesis
    by (simp add: scan_number_def int_str_def)
qed

declare scan_value.simps(2) [simp del] scan_items.simps(2) [simp del] scan_members.simps(2) [simp del]

lemma int_str_head:
  obtains c t where "int_str n = c # t" "is_digit c \<or> c = CHR ''-''"
  by (cases "n < 0") (auto simp: int_str_def intro: nat_str_head [of "nat n"])

lemma digit_head:
  assumes "is_digit c \<or> c = CHR ''-''"
  shows "c \<notin> {CHR 0x22, CHR ''{'', CHR ''['', CHR '']'', CHR ''n'', CHR ''t'', CHR ''f''} \<and> \<not> json_space c"
  using assms by (auto simp: is_digit_def digit_val_def json_space_def Let_def split: if_splits)

lemma dumps_head:
  assumes fl: "json_floats fl"
  obtains c t where "json_dumps fl st v = c # t" "\<not> json_space c" "c \<noteq> CHR '']''"
proof (cases v)
  case (PInt n)
  obtain c t where ct: "int_str n = c # t" "is_digit c \<or> c = CHR ''-''" by (rule int_str_head)
  from PInt digit_head [OF ct(2)] ct(1) that show thesis by auto
next
  case (PBool b)
  then show thesis using that by (cases b) (auto simp: json_space_def)
next
  case (PFloat x)
  obtain c t where ct: "show_float fl x = c # t" "is_digit c \<or> c = CHR ''-''"
    using fl unfolding json_floats_def by blast
  from PFloat digit_head [OF ct(2)] ct(1) that show thesis by auto
qed (use that in \<open>auto simp: json_space_def json_string_def\<close>)

lemma skip_ws_gap [simp]: "skip_ws (gap st @ s) = skip_ws s"
  by (cases st) (simp_all add: gap_def skip_ws_def json_space_def)

lemma skip_ws_dumps: "json_floats fl \<Longrightarrow> skip_ws (json_dumps fl st v @ r) = json_dumps fl st v @ r"
  by (rule dumps_head [of fl st v]) (simp_all add: skip_ws_def)

lemma skip_ws_word [simp]: "\<not> json_space c \<Longrightarrow> skip_ws (c # r) = c # r"
  by (simp add: skip_ws_def)

lemma nonspaces [simp]:
  "\<not> json_space (CHR '','')" "\<not> json_space (CHR '']'')" "\<not> json_space (CHR ''}'')"
  "\<not> json_space (CHR '':'')" "\<not> json_space (CHR 0x22)" "\<not> json_space (CHR ''{'')"
  by (simp_all add: json_space_def)

definition reads_back :: "float_io \<Rightarrow> json_style \<Rightarrow> pyval \<Rightarrow> bool" where
  "reads_back fl st v \<longleftrightarrow>
     (\<exists>N. \<forall>n \<ge> N. \<forall>r. ends_value r \<longrightarrow> scan_value fl n (json_dumps fl st v @ r) = Some (v, r))"

lemma reads_backI:
  assumes "\<And>n r. ends_value r \<Longrightarrow> M \<le> n \<Longrightarrow> scan_value fl (Suc n) (json_dumps fl st v @ r) = Some (v, r)"
  shows "reads_back fl st v"
  unfolding reads_back_def using assms by (metis Suc_le_D Suc_le_mono)

lemma scan_items_join:
  assumes fl: "json_floats fl"
    and "xs \<noteq> []" and "\<And>x. x \<in> set xs \<Longrightarrow> reads_back fl st x"
  shows "\<exists>N. \<forall>n \<ge> N. \<forall>r.
    scan_items fl n (join ('','' @ gap st) (map (json_dumps fl st) xs) @ CHR '']'' # r) = Some (xs, r)"
  using assms(2,3)
proof (induction xs rule: list_nonempty_induct)
  case (single x)
  then obtain N where N: "\<And>n r. N \<le> n \<Longrightarrow> ends_value r \<Longrightarrow>
      scan_value fl n (json_dumps fl st x @ r) = Some (x, r)"
    unfolding reads_back_def by auto
  have "scan_items fl n (json_dumps fl st x @ CHR '']'' # r) = Some ([x], r)" if "Suc N \<le> n" for n r
    using that by (cases n) (simp_all add: scan_items.simps(2) N)
  then show ?case by auto
next
  case (cons x xs)
  then have x: "reads_back fl st x" by auto
  from cons obtain y ys where xs: "xs = y # ys" by (cases xs) auto
  from x obtain N where N: "\<And>n r. N \<le> n \<Longrightarrow> ends_value r \<Longrightarrow>
      scan_value fl n (json_dumps fl st x @ r) = Some (x, r)"
    unfolding reads_back_def by auto
  define J where "J = join ('','' @ gap st) (map (json_dumps fl st) xs)"
  have "\<And>x. x \<in> set xs \<Longrightarrow> reads_back fl st x" using cons.prems by simp
  from cons.IH [OF this] obtain K where
    K: "\<And>n r. K \<le> n \<Longrightarrow> scan_items fl n (J @ CHR '']'' # r) = Some (xs, r)"
    unfolding J_def by blast
  obtain t where t: "J = json_dumps fl st y @ t"
    by (cases ys) (simp_all add: xs J_def)
  have "scan_items fl n (join ('','' @ gap st) (map (json_dumps fl st) (x # xs)) @ CHR '']'' # r)
      = Some (x # xs, r)" if "Suc (max N K) \<le> n" for n r
  proof -
    obtain m where m: "n = Suc m" "N \<le> m" "K \<le> m" using \<open>Suc (max N K) \<le> n\<close> by (cases n) auto
    have "join ('','' @ gap st) (map (json_dumps fl st) (x # xs)) @ CHR '']'' # r =
        json_dumps fl st x @ CHR '','' # gap st @ J @ CHR '']'' # r"
      by (simp add: xs J_def)
    moreover have "skip_ws (J @ CHR '']'' # r) = J @ CHR '']'' # r"
      unfolding t append_assoc by (rule skip_ws_dumps [OF fl])
    ultimately show ?thesis
      by (simp only:) (simp add: m scan_items.simps(2) N K)
  qed
  then show ?case by blast
qed

abbreviation member_text :: "float_io \<Rightarrow> json_style \<Rightarrow> string \<times> pyval \<Rightarrow> string" where
  "member_text fl st \<equiv> (\<lambda>(k, v). json_string k @ '':'' @ gap st @ json_dumps fl st v)"

lemma scan_member:
  assumes "json_floats fl"
  shows "scan_members fl (Suc n) (tl (member_text fl st (k, v) @ r)) =
    (case scan_value fl n (json_dumps fl st v @ r) of
       None \<Rightarrow> None
     | Some (w, r2) \<Rightarrow>
         (case skip_ws r2 of
            [] \<Rightarrow> None
          | d' # r3 \<Rightarrow>
              if d' = CHR ''}'' then Some ([(k, w)], r3)
              else if d' = CHR '','' then
                (case skip_ws r3 of
                   [] \<Rightarrow> None
                 | q # r4 \<Rightarrow>
                     if q = CHR 0x22
                     then map_option (\<lambda>(kvs, r'). ((k, w) # kvs, r')) (scan_members fl n r4)
                     else None)
              else None))"
  by (simp add: scan_members.simps(2) json_string_def scan_json_string skip_ws_dumps [OF assms])

lemma scan_members_join:
  assumes fl: "json_floats fl"
    and "kvs \<noteq> []" and "\<And>kv. kv \<in> set kvs \<Longrightarrow> reads_back fl st (snd kv)"
  shows "\<exists>N. \<forall>n \<ge> N. \<forall>r.
    scan_members fl n (tl (join ('','' @ gap st) (map (member_text fl st) kvs) @ CHR ''}'' # r)) = Some (kvs, r)"
  using assms(2,3)
proof (induction kvs rule: list_nonempty_induct)
  case (single kv)
  obtain k v where kv: "kv = (k, v)" by (cases kv)
  with single obtain N where N: "\<And>n r. N \<le> n \<Longrightarrow> ends_value r \<Longrightarrow>
      scan_value fl n (json_dumps fl st v @ r) = Some (v, r)"
    unfolding reads_back_def by auto
  have "scan_members fl n (tl (member_text fl st (k, v) @ CHR ''}'' # r)) = Some ([(k, v)], r)"
    if "Suc N \<le> n" for n r
    using that by (cases n) (simp_all add: scan_member [OF fl, simplified] N)
  then show ?case by (auto simp: kv)
next
  case (cons kv kvs)
  obtain k v where kv: "kv = (k, v)" by (cases kv)
  then have v: "reads_back fl st v" using cons.prems [of kv] by simp
  from cons obtain kv' ys where xs: "kvs = kv' # ys" by (cases kvs) auto
  from v obtain N where N: "\<And>n r. N \<le> n \<Longrightarrow> ends_value r \<Longrightarrow>
      scan_value fl n (json_dumps fl st v @ r) = Some (v, r)"
    unfolding reads_back_def by auto
  define J where "J = join ('','' @ gap st) (map (member_text fl st) kvs)"
  have "\<And>kv. kv \<in> set kvs \<Longrightarrow> reads_back fl st (snd kv)" using cons.prems by simp
  from cons.IH [OF this] obtain K where
    K: "\<And>n r. K \<le> n \<Longrightarrow> scan_members fl n (tl (J @ CHR ''}'' # r)) = Some (kvs, r)"
    unfolding J_def by blast
  let ?rest = "\<lambda>r. J @ CHR ''}'' # r"
  have q: "?rest r = CHR 0x22 # tl (?rest r)" for r
    by (cases kv'; cases ys) (simp_all add: xs J_def json_string_def)
  have "scan_members fl n (tl (join ('','' @ gap st) (map (member_text fl st) (kv # kvs)) @ CHR ''}'' # r))
      = Some (kv # kvs, r)" if "Suc (max N K) \<le> n" for n r
  proof -
    obtain m where m: "n = Suc m" "N \<le> m" "K \<le> m" using \<open>Suc (max N K) \<le> n\<close> by (cases n) auto
    have "join ('','' @ gap st) (map (member_text fl st) (kv # kvs)) @ CHR ''}'' # r =
        member_text fl st (k, v) @ CHR '','' # gap st @ ?rest r"
      by (simp add: xs kv J_def)
    then have "scan_members fl n (tl (join ('','' @ gap st) (map (member_text fl st) (kv # kvs)) @ CHR ''}'' # r)) =
        scan_members fl (Suc m) (tl (member_text fl st (k, v) @ CHR '','' # gap st @ CHR 0x22 # tl (?rest r)))"
      using m q [of r] by metis
    also have "\<dots> = Some ((k, v) # kvs, r)"
      unfolding scan_member [OF fl] using m by (simp add: N K)
    finally show ?thesis by (simp add: kv)
  qed
  then show ?case by blast
qed

lemma update_fresh: "k \<notin> fst ` set d \<Longrightarrow> AList.update k v d = d @ [(k, v)]"
  by (induction d) auto

lemma dict_of_distinct: "distinct (map fst kvs) \<Longrightarrow> dict_of kvs = kvs"
proof (induction kvs rule: rev_induct)
  case (snoc kv kvs)
  then show ?case by (cases kv) (auto simp: dict_of_def update_fresh)
qed (simp add: dict_of_def)

lemma plain_reads_back:
  assumes fl: "json_floats fl"
  shows "plain v \<Longrightarrow> reads_back fl st v"
proof (induction v)
  case (PFloat x)
  obtain c t where ct: "show_float fl x = c # t" "is_digit c \<or> c = CHR ''-''"
    using fl unfolding json_floats_def by blast
  have "scan_value fl (Suc n) (show_float fl x @ r) = Some (PFloat x, r)" if "ends_value r" for n r
  proof -
    have "scan_value fl (Suc n) (show_float fl x @ r) = scan_number fl (show_float fl x @ r)"
      using digit_head [OF ct(2)] by (auto simp: scan_value.simps(2) ct(1))
    with fl that show ?thesis unfolding json_floats_def by simp
  qed
  then show ?case by (intro reads_backI) simp
next
  case PNone
  then show ?case by (intro reads_backI) (simp add: scan_value.simps(2))
next
  case (PBool b)
  then show ?case by (intro reads_backI) (cases b; simp add: scan_value.simps(2))
next
  case (PInt i)
  show ?case
  proof (rule reads_backI)
    fix n r assume "ends_value r"
    obtain c t where ct: "int_str i = c # t" "is_digit c \<or> c = CHR ''-''" by (rule int_str_head)
    have "scan_value fl (Suc n) (int_str i @ r) = scan_number fl (int_str i @ r)"
      using digit_head [OF ct(2)] by (auto simp: scan_value.simps(2) ct(1))
    then show "scan_value fl (Suc n) (json_dumps fl st (PInt i) @ r) = Some (PInt i, r)"
      by (simp add: scan_number_int_str [OF \<open>ends_value r\<close>])
  qed
next
  case (PStr s)
  show ?case
    by (rule reads_backI) (simp add: scan_value.simps(2) json_string_def scan_json_string)
next
  case (PList xs)
  show ?case
  proof (cases "xs = []")
    case True
    show ?thesis unfolding True by (rule reads_backI) (simp add: scan_value.simps(2))
  next
    case False
    have "\<And>x. x \<in> set xs \<Longrightarrow> reads_back fl st x" using PList by simp
    then obtain N where N: "\<And>n r. N \<le> n \<Longrightarrow>
        scan_items fl n (join ('','' @ gap st) (map (json_dumps fl st) xs) @ CHR '']'' # r) = Some (xs, r)"
      using scan_items_join [OF fl False] by blast
    obtain y ys where xs: "xs = y # ys" using False by (cases xs) auto
    obtain c t where ct: "json_dumps fl st y = c # t" "\<not> json_space c" "c \<noteq> CHR '']''"
      by (rule dumps_head [OF fl])
    obtain t' where t: "join ('','' @ gap st) (map (json_dumps fl st) xs) = c # t'"
      by (cases ys) (simp_all add: xs ct)
    show ?thesis
      by (rule reads_backI [of N]) (use N t ct in \<open>simp add: scan_value.simps(2)\<close>)
  qed
next
  case (PDict kvs)
  show ?case
  proof (cases "kvs = []")
    case True
    show ?thesis unfolding True by (rule reads_backI) (simp add: scan_value.simps(2))
  next
    case False
    have "\<And>kv. kv \<in> set kvs \<Longrightarrow> reads_back fl st (snd kv)"
      using PDict by (auto simp: snds.simps)
    then obtain N where N: "\<And>n r. N \<le> n \<Longrightarrow>
        scan_members fl n (tl (join ('','' @ gap st) (map (member_text fl st) kvs) @ CHR ''}'' # r)) = Some (kvs, r)"
      using scan_members_join [OF fl False] by blast
    obtain t where t: "join ('','' @ gap st) (map (member_text fl st) kvs) = CHR 0x22 # t"
      using False by (cases kvs rule: remdups_adj.cases) (auto simp: json_string_def)
    have d: "dict_of kvs = kvs" using PDict.prems by (simp add: dict_of_distinct)
    show ?thesis
      by (rule reads_backI [of N]) (use N t d in \<open>simp add: scan_value.simps(2)\<close>)
  qed
qed

lemma json_loads_dumps_rest:
  assumes fl: "json_floats fl" and "plain v" and r: "ends_value r" "skip_ws r = []"
  shows "json_loads fl (json_dumps fl st v @ r) = Some v"
proof -
  let ?s = "json_dumps fl st v @ r"
  obtain N where N: "\<And>n r. N \<le> n \<Longrightarrow> ends_value r \<Longrightarrow>
      scan_value fl n (json_dumps fl st v @ r) = Some (v, r)"
    using plain_reads_back [OF assms(1,2), of st] unfolding reads_back_def by auto
  have "scan_value fl (2 * length ?s + 2) ?s = scan_value fl (max N (2 * length ?s + 2)) ?s"
    by (rule scan_fuel) simp_all
  also have "\<dots> = Some (v, r)"
    using N [of "max N (2 * length ?s + 2)" r] r by simp
  finally show ?thesis
    using skip_ws_dumps [OF fl, of st v r] r by (simp add: json_loads_def)
qed

lemma json_loads_dumps:
  "json_floats fl \<Longrightarrow> plain v \<Longrightarrow> json_loads fl (json_dumps fl st v) = Some v"
  using json_loads_dumps_rest [of fl v "[]" st] by (simp add: ends_value_def skip_ws_def)

lemma json_loads_dumps_newline:
  "json_floats fl \<Longrightarrow> plain v \<Longrightarrow> json_loads fl (json_dumps fl st v @ [CHR 0x0A]) = Some v"
  by (rule json_loads_dumps_rest) (simp_all add: skip_ws_def json_space_def)

lemma json_dumps_inject:
  "json_floats fl \<Longrightarrow> plain v \<Longrightarrow> plain w \<Longrightarrow> json_dumps fl st v = json_dumps fl st w \<longleftrightarrow> v = w"
  by (metis json_loads_dumps option.inject)

lemma distinct_keys_sort [simp]: "distinct (map f (sort_key f xs)) = distinct (map f xs)"
  by (simp add: distinct_map)

lemma keys_map_snd [simp]: "map fst (map (\<lambda>(k, v). (k, f v)) kvs) = map fst kvs"
  by auto

lemma plain_sort_keys [simp]: "plain (sort_keys v) = plain v"
proof (induction v)
  case (PDict kvs)
  then have "(\<forall>kv \<in> set kvs. plain (sort_keys (snd kv))) = (\<forall>kv \<in> set kvs. plain (snd kv))"
    by (auto simp: snds.simps)
  then show ?case
    by (simp del: map_map add: case_prod_beta)
qed auto

section \<open>The printed text is plain ASCII on one line\<close>

lemma printable_hex [simp]: "n < 16 \<Longrightarrow> printable (hex_digit n)"
  by (simp add: printable_def hex_digit_def)

lemma printable_json_char: "c \<in> set (json_char x) \<Longrightarrow> printable c"
proof -
  have h: "(of_char x :: nat) div 16 < 16" by (simp add: less_mult_imp_div_less)
  show "c \<in> set (json_char x) \<Longrightarrow> printable c"
    by (auto simp: json_char_def Let_def h split: if_splits) (simp_all add: printable_def)
qed

lemma printable_digit: "is_digit c \<Longrightarrow> printable c"
  by (auto simp: is_digit_def digit_val_def printable_def Let_def split: if_splits)

lemma printable_int_str: "c \<in> set (int_str n) \<Longrightarrow> printable c"
  using nat_str_digits [of "nat n"] nat_str_digits [of "nat (- n)"]
  by (auto simp: int_str_def list_all_iff printable_digit split: if_splits) (simp add: printable_def)

lemma printable_gap: "c \<in> set (gap st) \<Longrightarrow> printable c"
  by (cases st) (simp_all add: gap_def printable_def)

lemma set_join: "set (join sep xs) \<subseteq> set sep \<union> \<Union> (set ` set xs)"
  by (induction sep xs rule: join.induct) auto

lemma printable_json_string: "c \<in> set (json_string s) \<Longrightarrow> printable c"
  by (auto simp: json_string_def printable_json_char) (simp_all add: printable_def)

lemma json_printable:
  assumes "json_floats fl"
  shows "c \<in> set (json_dumps fl st v) \<Longrightarrow> printable c"
proof (induction v)
  case (PFloat x)
  then show ?case using assms unfolding json_floats_def by simp
next
  case (PList xs)
  then show ?case
    using set_join [of "'','' @ gap st" "map (json_dumps fl st) xs"] printable_gap [of c st]
    by (auto simp: printable_def)
next
  case (PDict kvs)
  have "printable c" if "(k, v) \<in> set kvs" "c \<in> set (member_text fl st (k, v))" for k v
    using that PDict printable_gap [of c st] printable_json_string [of c k]
    by (fastforce simp: snds.simps printable_def)
  with PDict.prems show ?case
    using set_join [of "'','' @ gap st" "map (member_text fl st) kvs"] printable_gap [of c st]
    by (auto simp: printable_def)
qed (auto simp: printable_int_str printable_json_string split: if_splits; simp add: printable_def)+

text \<open>Such a pair: the fraction \<open>p/q\<close> written as \<open>p.q\<close>.\<close>

definition ratio_io :: float_io where
  "ratio_io =
     \<lparr> show_float = (\<lambda>x. let (p, q) = quotient_of x in int_str p @ ''.'' @ nat_str (nat q)),
       read_float = (\<lambda>s. case split_first (CHR ''.'') s of
           None \<Rightarrow> None
         | Some (a, b) \<Rightarrow>
             (case (scan_number unary_io a, py_digits 0 b) of
                (Some (PInt p, _), Some q) \<Rightarrow> Some (of_int p / of_nat q)
              | _ \<Rightarrow> None)) \<rparr>"

lemma printable_nat_str: "c \<in> set (nat_str n) \<Longrightarrow> printable c"
  using nat_str_digits [of n] by (auto simp: list_all_iff printable_digit)

lemma dot_not_digit: "\<not> is_digit (CHR ''.'')"
  by (simp add: is_digit_def digit_val_def)

lemma dot_not_in_int_str: "CHR ''.'' \<notin> set (int_str n)"
  using nat_str_digits [of "nat n"] nat_str_digits [of "nat (- n)"] dot_not_digit
  by (auto simp: int_str_def list_all_iff)

lemma takeWhile_digits_dot:
  "list_all is_digit xs \<Longrightarrow> takeWhile is_digit (xs @ CHR ''.'' # r) = xs"
  by (induction xs) (auto simp: dot_not_digit)

lemma json_floats_ratio_io: "json_floats ratio_io"
proof -
  have "(\<exists>c t. show_float ratio_io x = c # t \<and> (is_digit c \<or> c = CHR ''-'')) \<and>
        (\<forall>r. ends_value r \<longrightarrow> scan_number ratio_io (show_float ratio_io x @ r) = Some (PFloat x, r)) \<and>
        (\<forall>c \<in> set (show_float ratio_io x). printable c)" for x
  proof (intro conjI allI impI ballI)
    obtain p q where pq: "quotient_of x = (p, q)" by fastforce
    then have q: "0 < q" and x: "x = of_int p / of_int q"
      by (simp_all add: quotient_of_denom_pos quotient_of_div)
    have s: "show_float ratio_io x = int_str p @ CHR ''.'' # nat_str (nat q)"
      by (simp add: ratio_io_def pq)
    obtain c t where ct: "int_str p = c # t" "is_digit c \<or> c = CHR ''-''" by (rule int_str_head)
    then show "\<exists>c t. show_float ratio_io x = c # t \<and> (is_digit c \<or> c = CHR ''-'')"
      by (simp add: s)
    have rd: "read_float ratio_io (int_str p @ CHR ''.'' # nat_str (nat q)) = Some x"
      using q scan_number_int_str [of "[]" unary_io p]
      by (simp add: ratio_io_def split_first_append dot_not_in_int_str ends_value_def
          py_digits_nat_str x)
    show "printable c" if "c \<in> set (show_float ratio_io x)" for c
      using that by (auto simp: s printable_int_str printable_nat_str) (simp add: printable_def)
    show "scan_number ratio_io (show_float ratio_io x @ r) = Some (PFloat x, r)"
      if r: "ends_value r" for r
    proof -
      define m where "m = nat_str (nat \<bar>p\<bar>)"
      define w where "w = nat_str (nat q)"
      obtain d u where du: "m = d # u" "is_digit d" "d = CHR ''0'' \<longrightarrow> u = []"
        unfolding m_def by (rule nat_str_head)
      obtain e v where ev: "w = e # v" "is_digit e" unfolding w_def by (rule nat_str_head)
      have tw: "takeWhile is_digit (d # u @ CHR ''.'' # w @ r) = d # u"
        using takeWhile_digits_dot [of m "w @ r"] du nat_str_digits [of "nat \<bar>p\<bar>"] by (simp add: m_def)
      have ip: "(if d = CHR ''0'' then [d] else takeWhile is_digit (d # u @ CHR ''.'' # w @ r)) = d # u"
        using du(3) tw by simp
      have fr: "frac_part (CHR ''.'' # w @ r) = CHR ''.'' # w"
        using takeWhile_digits [OF r, of w] nat_str_digits [of "nat q"] ev
        by (simp add: frac_part_def w_def)
      have mag: "scan_magnitude ratio_io neg (m @ CHR ''.'' # w @ r) =
          map_option (\<lambda>x. (PFloat x, r))
            (read_float ratio_io ((if neg then ''-'' else []) @ m @ CHR ''.'' # w))" for neg
        unfolding scan_magnitude_def du(1) append_Cons list.case Let_def ip
        using du(2) ends_no_number [OF r] by (simp add: fr)
      have i: "int_str p = (if p < 0 then ''-'' else []) @ m"
        by (simp add: int_str_def m_def)
      show ?thesis
      proof (cases "p < 0")
        case True
        then show ?thesis using rd i mag [of True] by (simp add: s w_def scan_number_def)
      next
        case False
        moreover have "d \<noteq> CHR ''-''" using is_digit_nonspace du(2) by blast
        ultimately show ?thesis
          using rd i mag [of False] by (simp add: s w_def [symmetric] scan_number_def du(1))
      qed
    qed
  qed
  then show ?thesis by (simp add: json_floats_def)
qed

section \<open>What the reader returns has each key once\<close>

lemma dict_of_snoc: "dict_of (kvs @ [(k, v)]) = AList.update k v (dict_of kvs)"
  by (simp add: dict_of_def)

lemma set_update_alist: "set (AList.update k v d) \<subseteq> insert (k, v) (set d)"
  by (induction d) auto

lemma dict_of_plain:
  "(\<forall>kv \<in> set kvs. plain (snd kv)) \<Longrightarrow> plain (PDict (dict_of kvs))"
proof (induction kvs rule: rev_induct)
  case (snoc kv kvs)
  obtain k v where "kv = (k, v)" by (cases kv)
  with snoc set_update_alist [of k v "dict_of kvs"] show ?case
    by (auto simp: dict_of_snoc distinct_update)
qed (simp add: dict_of_def)

lemma scan_magnitude_plain: "scan_magnitude fl neg s = Some (v, r) \<Longrightarrow> plain v"
  by (auto simp: scan_magnitude_def Let_def simp del: py_digits.simps split: list.splits if_splits)

lemma scan_number_plain: "scan_number fl s = Some (v, r) \<Longrightarrow> plain v"
  by (auto simp: scan_number_def split: list.splits if_splits dest: scan_magnitude_plain)

lemma scan_plain_aux:
  "(\<forall>s v r. scan_value fl n s = Some (v, r) \<longrightarrow> plain v) \<and>
   (\<forall>s vs r. scan_items fl n s = Some (vs, r) \<longrightarrow> (\<forall>v \<in> set vs. plain v)) \<and>
   (\<forall>s kvs r. scan_members fl n s = Some (kvs, r) \<longrightarrow> (\<forall>kv \<in> set kvs. plain (snd kv)))"
proof (induction n)
  case (Suc n)
  then have v: "\<And>s v r. scan_value fl n s = Some (v, r) \<Longrightarrow> plain v"
    and i: "\<And>s vs r. scan_items fl n s = Some (vs, r) \<Longrightarrow> \<forall>v \<in> set vs. plain v"
    and m: "\<And>s kvs r. scan_members fl n s = Some (kvs, r) \<Longrightarrow> \<forall>kv \<in> set kvs. plain (snd kv)"
    by blast+
  have "plain w" if "scan_value fl (Suc n) s = Some (w, r)" for s w r
    using that
  proof (cases rule: scan_valueE)
    case (items c r0 d r1 vs)
    then show ?thesis using i [OF items(3)] by simp
  next
    case (members c r0 d r1 kvs)
    then show ?thesis using dict_of_plain [OF m [OF members(3)]] by simp
  qed (auto dest: scan_number_plain)
  moreover have "\<forall>v \<in> set vs. plain v" if "scan_items fl (Suc n) s = Some (vs, r)" for s vs r
    using that
    by (fastforce simp: scan_items.simps(2) split: option.splits prod.splits list.splits if_splits
        dest: v i)
  moreover have "\<forall>kv \<in> set kvs. plain (snd kv)" if "scan_members fl (Suc n) s = Some (kvs, r)" for s kvs r
    using that
    by (fastforce simp: scan_members.simps(2) split: option.splits prod.splits list.splits if_splits
        dest: v m)
  ultimately show ?case by blast
qed simp

lemma json_loads_plain: "json_loads fl s = Some v \<Longrightarrow> plain v"
  using scan_plain_aux [of fl "2 * length s + 2"]
  by (fastforce simp: json_loads_def split: option.splits prod.splits if_splits)

end
