(* ===== verification/Redaction.thy ===== *)
theory Redaction
  imports PyData
begin

text \<open>
  Secret redaction of security/redaction.py.  The environment of the process and the persisted
  generated credentials are the record \<open>secret_env\<close>; the hash behind a fingerprint is a parameter.
  Names are compared after \<open>upper()\<close>, which is modelled on ASCII letters.  \<open>SECRET_VARS\<close> is a set in
  the code and a list here: where the order of its iteration matters it is an argument.
\<close>

section \<open>Secrets and where they come from\<close>

definition secret_vars :: "string list" where
  "secret_vars =
     [''TTYD_PASSWD'', ''TEMP_USER_PASS'', ''VNC_PASSWORD'', ''USER_UI_PASSWORD'',
      ''LANDING_PASSWORD'', ''HEALTH_AUTH_TOKEN'', ''DUCKDNS_TOKEN'', ''AUTH_SECRET'',
      ''FLASK_SECRET_KEY'', ''TOTP_SECRET'', ''RECOVERY_CODES_HASHES'', ''BACKUP_PASSWORD'',
      ''DISCORD_WEBHOOK_URL'', ''ALERT_WEBHOOK_URL'', ''ALERT_WEBHOOK_SECRET'',
      ''ALERT_SMTP_PASS'', ''SSL_KEY'']"

record secret_env =
  se_env :: "(string \<times> string) list"
  se_generated :: "string \<Rightarrow> string option"   \<comment> \<open>\<open>_load_generated_credential\<close>\<close>
  se_key_file :: bool                        \<comment> \<open>the persisted signing secret exists\<close>

definition upper_char :: "char \<Rightarrow> char" where
  "upper_char c =
     (let n = of_char c :: nat in if 97 \<le> n \<and> n \<le> 122 then char_of (n - 32) else c)"

abbreviation upper :: "string \<Rightarrow> string" where "upper \<equiv> map upper_char"

definition secret_name :: "string \<Rightarrow> bool" where
  "secret_name name \<longleftrightarrow> upper name \<in> set secret_vars"

definition env_get :: "secret_env \<Rightarrow> string \<Rightarrow> string" where
  "env_get se name = py_get name [] (se_env se)"

text \<open>\<open>... or ""\<close>.\<close>

definition generated :: "secret_env \<Rightarrow> string \<Rightarrow> string" where
  "generated se name = (case se_generated se name of None \<Rightarrow> [] | Some v \<Rightarrow> v)"

section \<open>Values and dictionaries\<close>

type_synonym sha = "string \<Rightarrow> string"

definition redact_value :: "sha \<Rightarrow> string \<Rightarrow> string \<Rightarrow> bool \<Rightarrow> string" where
  "redact_value sha name value fingerprint =
     (if value = [] then ''empty''
      else if \<not> secret_name name then value
      else if fingerprint then ''configured (sha256:'' @ take 8 (sha value) @ '')''
      else ''configured'')"

definition redact_env :: "sha \<Rightarrow> secret_env \<Rightarrow> string \<Rightarrow> bool \<Rightarrow> string" where
  "redact_env sha se name fingerprint =
     (let value = env_get se name;
          value = (if value = [] \<and> secret_name name then generated se name else value)
      in redact_value sha name value fingerprint)"

text \<open>\<open>str(v)\<close> of a value that is neither a list nor a dictionary.\<close>

fun leaf_str :: "float_io \<Rightarrow> pyval \<Rightarrow> string" where
  "leaf_str fl PNone = ''None''"
| "leaf_str fl (PBool b) = (if b then ''True'' else ''False'')"
| "leaf_str fl (PInt n) = int_str n"
| "leaf_str fl (PFloat x) = show_float fl x"
| "leaf_str fl (PStr s) = s"
| "leaf_str fl v = []"

fun is_dict :: "pyval \<Rightarrow> bool" where
  "is_dict (PDict d) = True"
| "is_dict v = False"

text \<open>One round of the loop of \<open>redact_dict\<close>; on a dictionary the key is not looked at.\<close>

fun redact_member :: "float_io \<Rightarrow> sha \<Rightarrow> bool \<Rightarrow> string \<Rightarrow> pyval \<Rightarrow> pyval" where
  "redact_member fl sha fp key (PDict d) =
     PDict (map (\<lambda>(k, v). (k, redact_member fl sha fp k v)) d)"
| "redact_member fl sha fp key (PList xs) =
     PList (map (\<lambda>item. if is_dict item then redact_member fl sha fp key item else item) xs)"
| "redact_member fl sha fp key value =
     (if secret_name key then PStr (redact_value sha key (leaf_str fl value) fp) else value)"

definition redact_dict ::
    "float_io \<Rightarrow> sha \<Rightarrow> bool \<Rightarrow> (string \<times> pyval) list \<Rightarrow> (string \<times> pyval) list" where
  "redact_dict fl sha fp data = map (\<lambda>(key, value). (key, redact_member fl sha fp key value)) data"

section \<open>Text\<close>

text \<open>\<open>s.replace(old, new)\<close> for a non-empty \<open>old\<close>.\<close>

function py_replace :: "string \<Rightarrow> string \<Rightarrow> string \<Rightarrow> string" where
  "py_replace old new s =
     (if old \<noteq> [] \<and> prefix old s then new @ py_replace old new (drop (length old) s)
      else case s of [] \<Rightarrow> [] | c # r \<Rightarrow> c # py_replace old new r)"
  by pat_completeness auto
termination
  by (relation "measure (\<lambda>(old, new, s). length s)") (auto simp: prefix_def)

declare py_replace.simps [simp del]

definition secret_text :: "secret_env \<Rightarrow> string \<Rightarrow> string" where
  "secret_text se name =
     (let value = env_get se name in if value = [] then generated se name else value)"

definition redact_step :: "secret_env \<Rightarrow> string \<Rightarrow> string \<Rightarrow> string" where
  "redact_step se result name =
     (let value = secret_text se name
      in if 4 \<le> length value \<and> sublist value result
         then py_replace value ''[REDACTED]'' result else result)"

text \<open>The names in the order the set yields them.\<close>

definition redact_text :: "secret_env \<Rightarrow> string list \<Rightarrow> string \<Rightarrow> string" where
  "redact_text se names text = (if text = [] then text else foldl (redact_step se) text names)"

section \<open>Status and child processes\<close>

definition secret_status_value :: "secret_env \<Rightarrow> string \<Rightarrow> string" where
  "secret_status_value se name =
     (let val = env_get se name;
          other = (if name = ''AUTH_SECRET'' then ''FLASK_SECRET_KEY'' else ''AUTH_SECRET'');
          val = (if val = [] \<and> name \<in> {''AUTH_SECRET'', ''FLASK_SECRET_KEY''}
                 then if env_get se other \<noteq> [] then ''<shared>''
                      else if se_key_file se then ''<persisted>'' else []
                 else val)
      in if val = [] \<and> name \<in> {''VNC_PASSWORD'', ''TTYD_PASSWD'', ''LANDING_PASSWORD''}
         then if generated se name \<noteq> [] then ''<generated>'' else []
         else val)"

definition get_secret_status :: "sha \<Rightarrow> secret_env \<Rightarrow> string list \<Rightarrow> (string \<times> string) list" where
  "get_secret_status sha se names =
     map (\<lambda>name. (name, redact_value sha name (secret_status_value se name) False)) names"

definition sanitized_child_env :: "secret_env \<Rightarrow> (string \<times> string) list" where
  "sanitized_child_env se = filter (\<lambda>(k, v). k \<notin> set secret_vars) (se_env se)"

section \<open>What redaction hides\<close>

text \<open>
  The leaves under a secret name, reached through dictionaries and through lists of dictionaries.
\<close>

fun secret_leaves :: "string \<Rightarrow> pyval \<Rightarrow> (string \<times> pyval) list" where
  "secret_leaves key (PDict d) = concat (map (\<lambda>(k, v). secret_leaves k v) d)"
| "secret_leaves key (PList xs) =
     concat (map (\<lambda>item. if is_dict item then secret_leaves key item else []) xs)"
| "secret_leaves key value = (if secret_name key then [(key, value)] else [])"

definition hidden :: "sha \<Rightarrow> string \<times> pyval \<Rightarrow> bool" where
  "hidden sha kv \<longleftrightarrow>
     (\<exists>t. snd kv = PStr t \<and>
        (t = ''empty'' \<or> t = ''configured'' \<or> (\<exists>v. t = ''configured (sha256:'' @ take 8 (sha v) @ '')'')))"

lemma redact_value_hidden:
  "secret_name key \<Longrightarrow> hidden sha (key, PStr (redact_value sha key v fp))"
  by (auto simp: hidden_def redact_value_def)

lemma is_dict_redact [simp]: "is_dict (redact_member fl sha fp key v) = is_dict v"
  by (cases v) simp_all

lemma redact_member_hides:
  "kv \<in> set (secret_leaves key (redact_member fl sha fp key v)) \<Longrightarrow> hidden sha kv"
proof (induction v arbitrary: key)
  case (PList xs)
  then show ?case by (auto split: if_splits)
next
  case (PDict d)
  then show ?case by (fastforce simp: snds.simps)
qed (auto simp: redact_value_hidden split: if_splits)

lemma redact_dict_hides:
  "kv \<in> set (secret_leaves key (PDict (redact_dict fl sha fp data))) \<Longrightarrow> hidden sha kv"
  using redact_member_hides [of kv key fl sha fp "PDict data"] by (simp add: redact_dict_def)

text \<open>A secret inside a list, or under a secret name whose value is a list, is not redacted.\<close>

lemma redact_dict_keeps_lists:
  "redact_dict fl sha fp [(''VNC_PASSWORD'', PList [PStr pw])] = [(''VNC_PASSWORD'', PList [PStr pw])]"
  by (simp add: redact_dict_def)

lemma child_env_has_no_secret:
  "(k, v) \<in> set (sanitized_child_env se) \<Longrightarrow> k \<notin> set secret_vars"
  by (simp add: sanitized_child_env_def)

lemma py_replace_absent: "old \<noteq> [] \<Longrightarrow> \<not> sublist old s \<Longrightarrow> py_replace old new s = s"
proof (induction s)
  case (Cons c s)
  moreover have "\<not> prefix old (c # s)" using Cons.prems prefix_imp_sublist by blast
  moreover have "\<not> sublist old s" using Cons.prems(2) by (auto simp: sublist_Cons_right)
  ultimately show ?case by (subst py_replace.simps) simp
qed (subst py_replace.simps; simp)

text \<open>When one secret is part of another, the order of the names decides how much is left.\<close>

lemma redact_text_order:
  "let se = \<lparr>se_env = [(''VNC_PASSWORD'', ''abcd''), (''AUTH_SECRET'', ''abcdefgh'')],
             se_generated = \<lambda>_. None, se_key_file = False\<rparr>
   in redact_text se [''VNC_PASSWORD'', ''AUTH_SECRET''] ''key=abcdefgh'' = ''key=[REDACTED]efgh'' \<and>
      redact_text se [''AUTH_SECRET'', ''VNC_PASSWORD''] ''key=abcdefgh'' = ''key=[REDACTED]''"
  by code_simp

end
