(* ===== verification/AuditLog.thy ===== *)
theory AuditLog
  imports PyJson SharedState TokenSigning Redaction
begin

text \<open>
  The tamper-evident audit log of security/audit.py.  The log is the text of a file of JSON lines;
  every entry carries the hash of its content and of the previous entry's hash.  Process memory
  (chain hash, startup flag, line index, time of the last alert) is the record \<open>aproc\<close>; what
  processes share (log, rotated log, signed tip, mirror, shared-state store) is \<open>adisk\<close>.  The
  cross-process lock makes each operation one step.  SHA-256 and HMAC are parameters; an
  environment \<open>aenv\<close> gives the clock, the configuration and the faults of one operation.
\<close>

section \<open>Text files\<close>

abbreviation newline :: char where "newline \<equiv> CHR 0x0A"

text \<open>Text mode reads CR and CR LF as a newline.\<close>

fun read_text :: "string \<Rightarrow> string" where
  "read_text [] = []"
| "read_text (c # s) =
     (if c = CHR 0x0D then
        newline # (case s of d # s' \<Rightarrow> if d = newline then read_text s' else read_text s | [] \<Rightarrow> [])
      else c # read_text s)"

text \<open>\<open>f.readline()\<close>.\<close>

fun first_line :: "string \<Rightarrow> string" where
  "first_line [] = []"
| "first_line (c # s) = (if c = newline then [c] else c # first_line s)"

text \<open>\<open>s.split()\<close>.\<close>

fun split_ws :: "string \<Rightarrow> string list" where
  "split_ws [] = []"
| "split_ws (c # s) =
     (if py_space c then split_ws s
      else (case s of
              [] \<Rightarrow> [[c]]
            | d # _ \<Rightarrow> if py_space d then [c] # split_ws s
                      else (case split_ws s of [] \<Rightarrow> [[c]] | w # ws \<Rightarrow> (c # w) # ws)))"

section \<open>State and environment\<close>

record line_index =
  ix_first :: string
  ix_size :: nat
  ix_offsets :: "nat list"

record aproc =
  ap_chain :: pyval
  ap_started :: bool
  ap_index :: "line_index option"
  ap_alerted :: time

record 's adisk =
  ad_log :: "string option"
  ad_rotated :: "string option"
  ad_tip :: "string option"
  ad_mirror :: "string option"
  ad_state :: 's

text \<open>
  A write that fails leaves the first \<open>n\<close> characters on the disk (\<open>Some n\<close>); \<open>None\<close> is a write that
  goes through.
\<close>

record aenv =
  ae_now :: time
  ae_stamp :: string              \<comment> \<open>\<open>strftime\<close> of now\<close>
  ae_fl :: float_io
  ae_sha :: sha
  ae_mac :: mac
  ae_secret :: string
  ae_max_bytes :: "string option" \<comment> \<open>\<open>AUDIT_LOG_MAX_BYTES\<close>\<close>
  ae_strict :: bool               \<comment> \<open>\<open>AUDIT_STRICT\<close>\<close>
  ae_secrets :: secret_env
  ae_names :: "string list"       \<comment> \<open>iteration order of \<open>SECRET_VARS\<close>\<close>
  ae_up :: bool                   \<comment> \<open>the shared-state backend answers\<close>
  ae_tip_writable :: bool
  ae_renamable :: bool
  ae_anchor_write :: "nat option" \<comment> \<open>writing an anchor\<close>
  ae_write :: "nat option"        \<comment> \<open>appending an entry\<close>
  ae_mirror_write :: "nat option option"  \<comment> \<open>\<open>None\<close> when no mirror is configured\<close>

definition init_aproc :: aproc where
  "init_aproc = \<lparr>ap_chain = PStr [], ap_started = False, ap_index = None, ap_alerted = 0\<rparr>"

datatype verdict =
    NoFile
  | EmptyLog
  | Intact nat
  | BadJson nat
  | NoAnchor
  | SeqGap nat
  | HashMismatch nat

definition verdict_ok :: "verdict \<Rightarrow> bool" where
  "verdict_ok v = (case v of NoFile \<Rightarrow> True | EmptyLog \<Rightarrow> True | Intact _ \<Rightarrow> True | _ \<Rightarrow> False)"

text \<open>What an operation reports beside its result: log messages, alerts, exported lines.\<close>

datatype anote =
    LogMissing
  | FreshLog
  | ChainVerified verdict
  | ChainFailed verdict
  | TipMismatch pyval pyval
  | SidecarForged
  | RotateFailed
  | Alerted
  | Exported string

text \<open>An operation on one process and the shared files.\<close>

type_synonym ('s, 'a) aop = "aproc \<times> 's adisk \<Rightarrow> 'a outcome \<times> anote list \<times> aproc \<times> 's adisk"

definition a_return :: "'a \<Rightarrow> ('s, 'a) aop" where
  "a_return x c = (Returned x, [], c)"

definition a_raise :: "('s, 'a) aop" where
  "a_raise c = (Raised, [], c)"

definition a_note :: "anote \<Rightarrow> ('s, unit) aop" where
  "a_note n c = (Returned (), [n], c)"

definition a_bind :: "('s, 'a) aop \<Rightarrow> ('a \<Rightarrow> ('s, 'b) aop) \<Rightarrow> ('s, 'b) aop" where
  "a_bind f g c =
     (case f c of
        (Raised, ns, c') \<Rightarrow> (Raised, ns, c')
      | (Returned x, ns, c') \<Rightarrow> (case g x c' of (r, ms, c'') \<Rightarrow> (r, ns @ ms, c'')))"

text \<open>Look at the state, then go on.\<close>

definition a_get :: "(aproc \<Rightarrow> 's adisk \<Rightarrow> ('s, 'a) aop) \<Rightarrow> ('s, 'a) aop" where
  "a_get f = (\<lambda>(p, d). f p d (p, d))"

definition set_chain :: "pyval \<Rightarrow> ('s, unit) aop" where
  "set_chain v = (\<lambda>(p, d). (Returned (), [], p\<lparr>ap_chain := v\<rparr>, d))"

definition set_log :: "string option \<Rightarrow> ('s, unit) aop" where
  "set_log f = (\<lambda>(p, d). (Returned (), [], p, d\<lparr>ad_log := f\<rparr>))"

section \<open>Configuration\<close>

definition audit_log_max_bytes :: "aenv \<Rightarrow> int" where
  "audit_log_max_bytes env =
     (case ae_max_bytes env of
        None \<Rightarrow> 10 * 1024 * 1024
      | Some s \<Rightarrow> (case py_int s of Some n \<Rightarrow> n | None \<Rightarrow> 10 * 1024 * 1024))"

definition anchor_hash :: string where
  "anchor_hash = replicate 64 (CHR ''0'')"

section \<open>The line index\<close>

text \<open>The starts of the complete lines, and the start of what follows them.\<close>

fun extend_offsets :: "nat \<Rightarrow> nat \<Rightarrow> string \<Rightarrow> nat list \<times> nat" where
  "extend_offsets start pos [] = ([], start)"
| "extend_offsets start pos (c # s) =
     (if c = newline
      then (let (os, e) = extend_offsets (pos + 1) (pos + 1) s in (start # os, e))
      else extend_offsets start (pos + 1) s)"

text \<open>The cached index, or an empty one when the file was replaced.\<close>

definition current_index :: "sha \<Rightarrow> string \<Rightarrow> line_index option \<Rightarrow> line_index" where
  "current_index sha s ix =
     (let first = sha (first_line s);
          empty = \<lparr>ix_first = first, ix_size = 0, ix_offsets = []\<rparr>
      in case ix of
           None \<Rightarrow> empty
         | Some e \<Rightarrow> if ix_first e \<noteq> first \<or> length s < ix_size e then empty else e)"

definition audit_offsets ::
    "sha \<Rightarrow> string option \<Rightarrow> line_index option \<Rightarrow> nat list \<times> line_index option" where
  "audit_offsets sha file ix =
     (case file of
        None \<Rightarrow> ([], ix)
      | Some s \<Rightarrow>
          (let ent = current_index sha s ix
           in if length s = ix_size ent then (ix_offsets ent, Some ent)
              else (let (os, e) = extend_offsets (ix_size ent) (ix_size ent) (drop (ix_size ent) s);
                        offsets = ix_offsets ent @ os
                    in (offsets, Some (ent\<lparr>ix_offsets := offsets, ix_size := e\<rparr>)))))"

definition read_lines ::
    "sha \<Rightarrow> string option \<Rightarrow> line_index option \<Rightarrow> int \<Rightarrow> int \<Rightarrow> string list" where
  "read_lines sha file ix start stop =
     (let offsets = fst (audit_offsets sha file ix)
      in case file of
           None \<Rightarrow> []
         | Some s \<Rightarrow>
             map (\<lambda>i. first_line (drop (offsets ! nat i) s))
               [max 0 start .. min stop (int (length offsets)) - 1])"

definition last_audit_line :: "sha \<Rightarrow> string option \<Rightarrow> line_index option \<Rightarrow> string" where
  "last_audit_line sha file ix =
     (let offsets = fst (audit_offsets sha file ix);
          lines = read_lines sha file ix (int (length offsets) - 1) (int (length offsets))
      in if offsets \<noteq> [] \<and> lines \<noteq> [] then last lines
         else (case file of
                 None \<Rightarrow> []
               | Some s \<Rightarrow>
                   (let text = py_strip (read_text s)
                    in if text \<noteq> [] then last (split_all newline text) else [])))"

text \<open>Reading through the index leaves it extended.\<close>

definition use_index :: "aenv \<Rightarrow> ('s, unit) aop" where
  "use_index env = (\<lambda>(p, d).
     (Returned (), [],
      p\<lparr>ap_index := snd (audit_offsets (ae_sha env) (ad_log d) (ap_index p))\<rparr>, d))"

section \<open>The chain\<close>

definition canonical :: "float_io \<Rightarrow> pyval \<Rightarrow> (string \<times> pyval) list \<Rightarrow> string" where
  "canonical fl prev e =
     json_dumps fl Compact
       (sort_keys (PDict (AList.update ''prev_hash'' prev (filter (\<lambda>(k, _). k \<noteq> ''hash'') e))))"

definition compute_hash :: "sha \<Rightarrow> float_io \<Rightarrow> pyval \<Rightarrow> (string \<times> pyval) list \<Rightarrow> string" where
  "compute_hash sha fl prev e = sha (canonical fl prev e)"

text \<open>The last line, parsed: \<open>None\<close> for no line, \<open>Some None\<close> for one that is not JSON.\<close>

definition last_entry :: "aenv \<Rightarrow> ('s, pyval option option) aop" where
  "last_entry env =
     a_get (\<lambda>p d.
       let line = last_audit_line (ae_sha env) (ad_log d) (ap_index p)
       in a_bind (use_index env) (\<lambda>_.
            a_return (if line = [] then None else Some (json_loads (ae_fl env) line))))"

definition load_chain_hash :: "aenv \<Rightarrow> ('s, unit) aop" where
  "load_chain_hash env =
     a_get (\<lambda>p d.
       if ad_log d = None then a_return ()
       else a_bind (last_entry env) (\<lambda>e.
              case e of
                None \<Rightarrow> a_return ()
              | Some None \<Rightarrow> set_chain (PStr [])
              | Some (Some (PDict e)) \<Rightarrow> set_chain (py_get ''hash'' (PStr []) e)
              | Some (Some _) \<Rightarrow> a_raise))"

definition load_last_seq :: "aenv \<Rightarrow> ('s, int) aop" where
  "load_last_seq env =
     a_get (\<lambda>p d.
       if ad_log d = None then a_return (- 1)
       else a_bind (last_entry env) (\<lambda>e.
              case e of
                None \<Rightarrow> a_return (- 1)
              | Some None \<Rightarrow> a_return (- 1)
              | Some (Some (PDict e)) \<Rightarrow>
                  a_return (case py_get ''seq'' PNone e of
                              PInt n \<Rightarrow> n
                            | PBool b \<Rightarrow> (if b then 1 else 0)
                            | _ \<Rightarrow> - 1)
              | Some (Some _) \<Rightarrow> a_raise))"

section \<open>The tip witness\<close>

abbreviation tip_ns :: string where "tip_ns \<equiv> ''audit_chain''"

definition tip_signature :: "aenv \<Rightarrow> string \<Rightarrow> string" where
  "tip_signature env h = ae_mac env (ae_secret env) (''audit-tip:'' @ h)"

definition record_tip :: "'s backend \<Rightarrow> aenv \<Rightarrow> string \<Rightarrow> ('s, unit) aop" where
  "record_tip B env h = (\<lambda>(p, d).
     (let d = (if ae_up env
               then d\<lparr>ad_state := b_set_ttl B (ae_now env) tip_ns ''tip'' (PStr h) (86400 * 365) (ad_state d)\<rparr>
               else d);
          d = (if ae_tip_writable env
               then d\<lparr>ad_tip := Some (h @ '' '' @ tip_signature env h)\<rparr> else d)
      in (Returned (), [], p, d)))"

text \<open>\<open>hmac.compare_digest\<close> raises on text that is not ASCII.\<close>

definition is_ascii :: "string \<Rightarrow> bool" where
  "is_ascii s = list_all (\<lambda>c. of_char c < (128 :: nat)) s"

definition state_tip :: "'s backend \<Rightarrow> aenv \<Rightarrow> ('s, pyval) aop" where
  "state_tip B env = (\<lambda>(p, d).
     if ae_up env
     then (let (v, st) = b_get B (ae_now env) tip_ns ''tip'' (ad_state d)
           in (Returned v, [], p, d\<lparr>ad_state := st\<rparr>))
     else (Returned PNone, [], p, d))"

definition stored_tip :: "'s backend \<Rightarrow> aenv \<Rightarrow> ('s, pyval) aop" where
  "stored_tip B env =
     a_get (\<lambda>p d.
       case ad_tip d of
         None \<Rightarrow> state_tip B env
       | Some text \<Rightarrow>
           (case split_ws (py_strip (read_text text)) of
              [tip, sig] \<Rightarrow>
                if \<not> (is_ascii sig \<and> is_ascii (tip_signature env tip)) then state_tip B env
                else if sig = tip_signature env tip then a_return (PStr tip)
                else a_bind (a_note SidecarForged)
                       (\<lambda>_. a_return (PStr ''INVALID-TIP-SIDECAR''))
            | _ \<Rightarrow> state_tip B env))"

definition alert_audit_write_failure :: "aenv \<Rightarrow> ('s, unit) aop" where
  "alert_audit_write_failure env = (\<lambda>(p, d).
     if ae_now env - ap_alerted p < 60 then (Returned (), [], p, d)
     else (Returned (), [Alerted], p\<lparr>ap_alerted := ae_now env\<rparr>, d))"

section \<open>Anchor and rotation\<close>

text \<open>The dash of the detail text is the one character of the log above code 255; 0x97 stands for it.\<close>

definition anchor_entry :: "aenv \<Rightarrow> pyval \<Rightarrow> (string \<times> pyval) list" where
  "anchor_entry env prev_tip =
     (let e = [(''timestamp'', PStr (ae_stamp env)), (''seq'', PInt 0), (''event'', PStr ''anchor''),
               (''user'', PStr ''system''), (''ip'', PStr ''unknown''), (''result'', PStr ''success''),
               (''detail'', PStr (''Audit chain anchor '' @ [CHR 0x97] @ '' genesis entry''))]
              @ (if truthy prev_tip then [(''prev_tip'', prev_tip)] else [])
      in e @ [(''hash'', PStr (compute_hash (ae_sha env) (ae_fl env) (PStr anchor_hash) e))])"

definition entry_hash :: "(string \<times> pyval) list \<Rightarrow> pyval" where
  "entry_hash e = py_get ''hash'' (PStr []) e"

definition hash_text :: "(string \<times> pyval) list \<Rightarrow> string" where
  "hash_text e = (case entry_hash e of PStr h \<Rightarrow> h | _ \<Rightarrow> [])"

definition log_line :: "float_io \<Rightarrow> (string \<times> pyval) list \<Rightarrow> string" where
  "log_line fl e = json_dumps fl Compact (PDict e) @ [newline]"

definition write_anchor :: "'s backend \<Rightarrow> aenv \<Rightarrow> pyval \<Rightarrow> ('s, unit) aop" where
  "write_anchor B env prev_tip =
     (let e = anchor_entry env prev_tip; line = log_line (ae_fl env) e
      in a_bind (set_chain (entry_hash e)) (\<lambda>_.
           case ae_anchor_write env of
             Some n \<Rightarrow> a_bind (set_log (Some (take n line))) (\<lambda>_. a_raise)
           | None \<Rightarrow> a_bind (set_log (Some line)) (\<lambda>_. record_tip B env (hash_text e))))"

definition move_log :: "('s, unit) aop" where
  "move_log = (\<lambda>(p, d). (Returned (), [], p, d\<lparr>ad_rotated := ad_log d, ad_log := None\<rparr>))"

definition rotate_from :: "'s backend \<Rightarrow> aenv \<Rightarrow> pyval \<Rightarrow> ('s, unit) aop" where
  "rotate_from B env prev_tip =
     (if ae_renamable env then a_bind move_log (\<lambda>_. write_anchor B env prev_tip)
      else a_note RotateFailed)"

definition maybe_rotate :: "'s backend \<Rightarrow> aenv \<Rightarrow> ('s, unit) aop" where
  "maybe_rotate B env =
     a_get (\<lambda>p d.
       case ad_log d of
         None \<Rightarrow> a_return ()
       | Some s \<Rightarrow>
           if int (length s) < audit_log_max_bytes env then a_return ()
           else a_bind (last_entry env) (\<lambda>e.
                  case e of
                    Some (Some (PDict e)) \<Rightarrow> rotate_from B env (py_get ''hash'' PNone e)
                  | Some (Some _) \<Rightarrow> a_raise
                  | _ \<Rightarrow> rotate_from B env PNone))"

section \<open>Verification\<close>

text \<open>\<open>seq != prev_seq + 1\<close>; \<open>None\<close> is TypeError.\<close>

definition seq_gap :: "pyval \<Rightarrow> pyval \<Rightarrow> bool option" where
  "seq_gap prev_seq seq = map_option (\<lambda>p. num_of seq \<noteq> Some (p + 1)) (num_of prev_seq)"

text \<open>The loop of \<open>verify_chain\<close> from line \<open>i\<close> on.\<close>

fun verify_lines ::
    "sha \<Rightarrow> float_io \<Rightarrow> nat \<Rightarrow> pyval \<Rightarrow> pyval \<Rightarrow> string list \<Rightarrow> verdict outcome" where
  "verify_lines sha fl i prev prev_seq [] = Returned (Intact i)"
| "verify_lines sha fl i prev prev_seq (line # lines) =
     (case json_loads fl line of
        None \<Rightarrow> Returned (BadJson (i + 1))
      | Some (PDict full) \<Rightarrow>
          (let stored = entry_hash full;
               e = filter (\<lambda>(k, _). k \<noteq> ''hash'') full
           in if i = 0 \<and> py_get ''event'' PNone e \<noteq> PStr ''anchor'' then Returned NoAnchor
              else
                (let prev = (if i = 0 then PStr anchor_hash else prev);
                     seq = py_get ''seq'' PNone e
                 in case (if seq \<noteq> PNone \<and> prev_seq \<noteq> PNone then seq_gap prev_seq seq
                          else Some False) of
                      None \<Rightarrow> Raised
                    | Some True \<Rightarrow> Returned (SeqGap (i + 1))
                    | Some False \<Rightarrow>
                        if PStr (compute_hash sha fl prev e) \<noteq> stored
                        then Returned (HashMismatch (i + 1))
                        else verify_lines sha fl (i + 1) stored
                               (if seq \<noteq> PNone then seq else prev_seq) lines))
      | Some _ \<Rightarrow> Raised)"

definition log_lines :: "string \<Rightarrow> string list" where
  "log_lines s = split_all newline (py_strip (read_text s))"

definition verify_chain :: "sha \<Rightarrow> float_io \<Rightarrow> string option \<Rightarrow> verdict outcome" where
  "verify_chain sha fl file =
     (case file of
        None \<Rightarrow> Returned NoFile
      | Some s \<Rightarrow>
          if log_lines s = [[]] then Returned EmptyLog
          else verify_lines sha fl 0 (PStr []) PNone (log_lines s))"

definition set_started :: "('s, unit) aop" where
  "set_started = (\<lambda>(p, d). (Returned (), [], p\<lparr>ap_started := True\<rparr>, d))"

text \<open>What startup says about a verdict; the tip is compared only when the chain verifies.\<close>

definition report_verdict :: "aenv \<Rightarrow> pyval \<Rightarrow> verdict \<Rightarrow> ('s, unit) aop" where
  "report_verdict env stored v =
     (if \<not> verdict_ok v then a_note (ChainFailed v)
      else a_bind (a_note (ChainVerified v)) (\<lambda>_.
             a_bind (load_chain_hash env) (\<lambda>_.
               a_get (\<lambda>p d.
                 if truthy stored \<and> truthy (ap_chain p) \<and> ap_chain p \<noteq> stored
                 then a_note (TipMismatch stored (ap_chain p))
                 else a_return ()))))"

definition verify_chain_on_startup :: "'s backend \<Rightarrow> aenv \<Rightarrow> ('s, unit) aop" where
  "verify_chain_on_startup B env =
     a_get (\<lambda>p d.
       if ap_started p then a_return ()
       else a_bind set_started (\<lambda>_. a_bind (stored_tip B env) (\<lambda>stored.
         if ad_log d = None \<or> ad_log d = Some []
         then a_bind (if truthy stored then a_note LogMissing else a_return ()) (\<lambda>_.
                a_bind (write_anchor B env PNone) (\<lambda>_. a_note FreshLog))
         else (case verify_chain (ae_sha env) (ae_fl env) (ad_log d) of
                 Raised \<Rightarrow> a_raise
               | Returned v \<Rightarrow> report_verdict env stored v))))"

section \<open>Writing\<close>

record audit_args =
  aa_event :: string
  aa_user :: string
  aa_ip :: string
  aa_result :: string
  aa_detail :: string
  aa_extra :: "(string \<times> pyval) list"

definition redact :: "aenv \<Rightarrow> string \<Rightarrow> string" where
  "redact env t = redact_text (ae_secrets env) (ae_names env) t"

definition add_extra ::
    "aenv \<Rightarrow> (string \<times> pyval) list \<Rightarrow> (string \<times> pyval) list \<Rightarrow> (string \<times> pyval) list" where
  "add_extra env e extra =
     foldl (\<lambda>e (k, v). AList.update k (case v of PStr s \<Rightarrow> PStr (redact env s) | _ \<Rightarrow> v) e) e extra"

text \<open>The entry with its hash, chained from \<open>prev\<close>.\<close>

definition new_entry :: "aenv \<Rightarrow> audit_args \<Rightarrow> int \<Rightarrow> pyval \<Rightarrow> (string \<times> pyval) list" where
  "new_entry env a seq prev =
     (let e = add_extra env
                [(''timestamp'', PStr (ae_stamp env)), (''seq'', PInt seq),
                 (''event'', PStr (aa_event a)), (''user'', PStr (aa_user a)),
                 (''ip'', PStr (aa_ip a)), (''result'', PStr (aa_result a)),
                 (''detail'', PStr (redact env (aa_detail a)))] (aa_extra a)
      in AList.update ''hash'' (PStr (compute_hash (ae_sha env) (ae_fl env) prev e)) e)"

definition append_text :: "string option \<Rightarrow> string \<Rightarrow> string option" where
  "append_text f t = Some ((case f of None \<Rightarrow> [] | Some s \<Rightarrow> s) @ t)"

definition append_log :: "string \<Rightarrow> ('s, unit) aop" where
  "append_log t = (\<lambda>(p, d). (Returned (), [], p, d\<lparr>ad_log := append_text (ad_log d) t\<rparr>))"

definition append_mirror :: "string \<Rightarrow> ('s, unit) aop" where
  "append_mirror t = (\<lambda>(p, d). (Returned (), [], p, d\<lparr>ad_mirror := append_text (ad_mirror d) t\<rparr>))"

text \<open>The mirror is written whether or not the log was, unless strict mode raised.\<close>

definition write_mirror :: "aenv \<Rightarrow> string \<Rightarrow> ('s, unit) aop" where
  "write_mirror env line =
     (case ae_mirror_write env of
        None \<Rightarrow> a_return ()
      | Some None \<Rightarrow> append_mirror line
      | Some (Some n) \<Rightarrow> a_bind (append_mirror (take n line)) (\<lambda>_. alert_audit_write_failure env))"

text \<open>True when the entry reached the log.\<close>

definition persist_entry ::
    "'s backend \<Rightarrow> aenv \<Rightarrow> (string \<times> pyval) list \<Rightarrow> string \<Rightarrow> ('s, bool) aop" where
  "persist_entry B env e line =
     (case ae_write env of
        None \<Rightarrow>
          a_bind (append_log line) (\<lambda>_.
            a_bind (set_chain (entry_hash e)) (\<lambda>_.
              a_bind (record_tip B env (hash_text e)) (\<lambda>_. a_return True)))
      | Some n \<Rightarrow>
          a_bind (append_log (take n line)) (\<lambda>_.
            a_bind (alert_audit_write_failure env) (\<lambda>_.
              if ae_strict env then a_raise else a_return False)))"

definition audit_log ::
    "'s backend \<Rightarrow> aenv \<Rightarrow> audit_args \<Rightarrow> ('s, (string \<times> pyval) list) aop" where
  "audit_log B env a =
     a_bind (verify_chain_on_startup B env) (\<lambda>_.
     a_bind (maybe_rotate B env) (\<lambda>_.
     a_bind (load_chain_hash env) (\<lambda>_.
     a_bind (load_last_seq env) (\<lambda>last_seq.
     a_get (\<lambda>p d.
       let e = new_entry env a (last_seq + 1) (ap_chain p);
           line = log_line (ae_fl env) e
       in a_bind (persist_entry B env e line) (\<lambda>persisted.
          a_bind (write_mirror env line) (\<lambda>_.
          a_bind (if persisted then a_note (Exported line) else a_return ()) (\<lambda>_.
          a_return e))))))))"

definition audit_event ::
    "'s backend \<Rightarrow> aenv \<Rightarrow> audit_args \<Rightarrow> ('s, (string \<times> pyval) list option) aop" where
  "audit_event B env a c =
     (case audit_log B env a c of
        (Returned e, ns, c') \<Rightarrow> (Returned (Some e), ns, c')
      | (Raised, ns, c') \<Rightarrow> (Returned None, ns, c'))"

section \<open>Reading\<close>

record entry_filter =
  ef_event :: "string option"
  ef_before :: "int option"
  ef_user :: "string option"
  ef_result :: "string option"

definition field_is :: "string \<Rightarrow> string option \<Rightarrow> (string \<times> pyval) list \<Rightarrow> bool" where
  "field_is k want e = (case want of None \<Rightarrow> True | Some v \<Rightarrow> py_get k PNone e = PStr v)"

text \<open>\<open>None\<close> when \<open>int(entry.get("seq", 0))\<close> raises.\<close>

definition entry_matches :: "entry_filter \<Rightarrow> (string \<times> pyval) list \<Rightarrow> bool option" where
  "entry_matches ef e =
     (case (case ef_before ef of
              None \<Rightarrow> Some True
            | Some b \<Rightarrow> map_option (\<lambda>n. n < b) (int_of (py_get ''seq'' (PInt 0) e))) of
        None \<Rightarrow> None
      | Some below \<Rightarrow>
          Some (below \<and> field_is ''event'' (ef_event ef) e \<and> field_is ''user'' (ef_user ef) e \<and>
                field_is ''result'' (ef_result ef) e))"

text \<open>
  The inner loop over lines, newest first: \<open>acc\<close> holds what was found, and the loop ends when
  \<open>limit\<close> entries are there.
\<close>

fun collect_entries ::
    "float_io \<Rightarrow> entry_filter \<Rightarrow> int \<Rightarrow> (string \<times> pyval) list list \<Rightarrow> string list \<Rightarrow>
     (string \<times> pyval) list list outcome" where
  "collect_entries fl ef limit acc [] = Returned acc"
| "collect_entries fl ef limit acc (line # lines) =
     (case json_loads fl line of
        None \<Rightarrow> collect_entries fl ef limit acc lines
      | Some (PDict e) \<Rightarrow>
          (case entry_matches ef e of
             None \<Rightarrow> Raised
           | Some False \<Rightarrow> collect_entries fl ef limit acc lines
           | Some True \<Rightarrow>
               if limit \<le> int (length (acc @ [e])) then Returned (acc @ [e])
               else collect_entries fl ef limit (acc @ [e]) lines)
      | Some _ \<Rightarrow> Raised)"

definition dense_seq_start ::
    "sha \<Rightarrow> float_io \<Rightarrow> string option \<Rightarrow> line_index option \<Rightarrow> nat list \<Rightarrow> int option \<Rightarrow> int outcome" where
  "dense_seq_start sha fl file ix offsets below_seq =
     (let start = int (length offsets) - 1
      in case below_seq of
           None \<Rightarrow> Returned start
         | Some b \<Rightarrow>
             if b < int (length offsets) then
               (case read_lines sha file ix b (b + 1) of
                  [] \<Rightarrow> Returned start
                | probe # _ \<Rightarrow>
                    (case json_loads fl probe of
                       None \<Rightarrow> Returned start
                     | Some (PDict e) \<Rightarrow>
                         Returned (if num_of (py_get ''seq'' PNone e) = Some (of_int b)
                                   then b - 1 else start)
                     | Some _ \<Rightarrow> Raised))
             else Returned start)"

text \<open>The outer loop reads windows of lines from the end.\<close>

function entries_windows ::
    "sha \<Rightarrow> float_io \<Rightarrow> string option \<Rightarrow> line_index option \<Rightarrow> entry_filter \<Rightarrow> int \<Rightarrow> int \<Rightarrow>
     (string \<times> pyval) list list \<Rightarrow> (string \<times> pyval) list list outcome" where
  "entries_windows sha fl file ix ef limit hi acc =
     (if 0 < hi \<and> int (length acc) < limit then
        (let window = max (limit * 2) 64;
             lo = max 0 (hi - window)
         in case collect_entries fl ef limit acc (rev (read_lines sha file ix lo hi)) of
              Raised \<Rightarrow> Raised
            | Returned acc' \<Rightarrow> entries_windows sha fl file ix ef limit lo acc')
      else Returned acc)"
  by pat_completeness auto
termination
  by (relation "measure (\<lambda>(sha, fl, file, ix, ef, limit, hi, acc). nat hi)") auto

declare entries_windows.simps [simp del]

definition entries_indexed ::
    "sha \<Rightarrow> float_io \<Rightarrow> string option \<Rightarrow> line_index option \<Rightarrow> nat list \<Rightarrow> entry_filter \<Rightarrow> int \<Rightarrow>
     (string \<times> pyval) list list outcome" where
  "entries_indexed sha fl file ix offsets ef limit =
     (case dense_seq_start sha fl file ix offsets (ef_before ef) of
        Raised \<Rightarrow> Raised
      | Returned start \<Rightarrow> entries_windows sha fl file ix ef limit (start + 1) [])"

definition get_audit_entries ::
    "aenv \<Rightarrow> entry_filter \<Rightarrow> int \<Rightarrow> ('s, (string \<times> pyval) list list) aop" where
  "get_audit_entries env ef limit =
     a_get (\<lambda>p d.
       case ad_log d of
         None \<Rightarrow> a_return []
       | Some s \<Rightarrow>
           (let offsets = fst (audit_offsets (ae_sha env) (Some s) (ap_index p));
                found = (if offsets \<noteq> []
                         then entries_indexed (ae_sha env) (ae_fl env) (Some s) (ap_index p)
                                offsets ef limit
                         else collect_entries (ae_fl env) ef limit [] (rev (log_lines s)))
            in a_bind (use_index env) (\<lambda>_.
                 case found of Raised \<Rightarrow> a_raise | Returned es \<Rightarrow> a_return es)))"

end
