(* ===== verification/AuditChain.thy ===== *)
theory AuditChain
  imports AuditLog
begin

text \<open>
  What the audit log looks like on disk and what its operations do on it.  A log written by the
  service is the text of a list of entries, each on one line (\<open>log_text\<close>); the lemmas show how the
  reader splits that text, that the cached line index agrees with it, and that a chained list of
  entries (\<open>chain\<close>) passes verification.
\<close>

declare json_dumps.simps [simp del]

section \<open>Lines of a log\<close>

definition log_text :: "float_io \<Rightarrow> (string \<times> pyval) list list \<Rightarrow> string" where
  "log_text fl es = concat (map (log_line fl) es)"

lemma log_text_simps [simp]:
  "log_text fl [] = []"
  "log_text fl (e # es) = log_line fl e @ log_text fl es"
  "log_text fl (es @ fs) = log_text fl es @ log_text fl fs"
  by (simp_all add: log_text_def)

lemma newline_not_printable: "\<not> printable newline" "\<not> printable (CHR 0x0D)"
  by (simp_all add: printable_def)

lemma dumps_no_break:
  "json_floats fl \<Longrightarrow> newline \<notin> set (json_dumps fl st v) \<and> CHR 0x0D \<notin> set (json_dumps fl st v)"
  using json_printable [of fl newline] json_printable [of fl "CHR 0x0D"] newline_not_printable by blast

lemma first_line_no_break: "newline \<notin> set b \<Longrightarrow> first_line (b @ newline # r) = b @ [newline]"
  by (induction b) auto

lemma first_line_log:
  "json_floats fl \<Longrightarrow> first_line (log_line fl e @ r) = log_line fl e"
  using dumps_no_break by (simp add: log_line_def first_line_no_break)

lemma read_text_id: "CHR 0x0D \<notin> set s \<Longrightarrow> read_text s = s"
  by (induction s rule: read_text.induct) auto

lemma log_text_no_cr: "json_floats fl \<Longrightarrow> CHR 0x0D \<notin> set (log_text fl es)"
  by (induction es) (auto simp: log_line_def dumps_no_break)

lemma dict_text_ends:
  obtains t where "json_dumps fl st (PDict e) = CHR ''{'' # t @ [CHR ''}'']"
  by (simp add: json_dumps.simps)

lemma dropWhile_head: "xs \<noteq> [] \<Longrightarrow> \<not> P (hd xs) \<Longrightarrow> dropWhile P xs = xs"
  by (cases xs) auto

lemma strip_log_text:
  assumes "es \<noteq> []"
  shows "py_strip (log_text fl es) = butlast (log_text fl es)"
proof -
  obtain e fs where es: "es = e # fs" using assms by (cases es) auto
  obtain g hs where rs: "es = hs @ [g]" using assms by (cases es rule: rev_cases) auto
  have h: "log_text fl es = CHR ''{'' # tl (log_text fl es)"
    by (simp add: es log_line_def json_dumps.simps)
  obtain t where t: "json_dumps fl Compact (PDict g) = CHR ''{'' # t @ [CHR ''}'']"
    by (rule dict_text_ends)
  define b where "b = log_text fl hs @ CHR ''{'' # t @ [CHR ''}'']"
  have b: "log_text fl es = b @ [newline]"
    by (simp add: rs log_line_def t b_def)
  have sp: "py_space newline" "\<not> py_space (CHR ''{'')" "\<not> py_space (CHR ''}'')"
    by (simp_all add: py_space_def)
  have "dropWhile py_space (log_text fl es) = log_text fl es"
    using h sp by (metis dropWhile.simps(2))
  moreover have "dropWhile py_space (rev (b @ [newline])) = rev b"
    by (simp add: sp b_def)
  ultimately show ?thesis by (simp add: py_strip_def b)
qed

lemma split_log_text:
  assumes "json_floats fl" and "es \<noteq> []"
  shows "split_all newline (butlast (log_text fl es)) = map (\<lambda>e. json_dumps fl Compact (PDict e)) es"
  using assms(2)
proof (induction es rule: list_nonempty_induct)
  case (single e)
  have "newline \<notin> set (json_dumps fl Compact (PDict e))" using dumps_no_break [OF assms(1)] by blast
  then show ?case by (simp add: log_line_def split_all_plain)
next
  case (cons e es)
  have nb: "newline \<notin> set (json_dumps fl Compact (PDict e))" using dumps_no_break [OF assms(1)] by blast
  have "log_text fl es \<noteq> []" using cons by (cases es) (simp_all add: log_line_def)
  then have "butlast (log_text fl (e # es)) =
      json_dumps fl Compact (PDict e) @ newline # butlast (log_text fl es)"
    by (simp add: log_line_def butlast_append)
  with nb cons.IH show ?case by (simp add: split_all_append)
qed

lemma log_lines_text:
  assumes "json_floats fl" and "es \<noteq> []"
  shows "log_lines (log_text fl es) = map (\<lambda>e. json_dumps fl Compact (PDict e)) es"
  using assms
  by (simp add: log_lines_def read_text_id log_text_no_cr strip_log_text split_log_text)

section \<open>The line index\<close>

lemma extend_offsets_append:
  "extend_offsets start pos (x @ y) =
     (let (os, e) = extend_offsets start pos x;
          (os', e') = extend_offsets e (pos + length x) y
      in (os @ os', e'))"
  by (induction x arbitrary: start pos) (simp_all add: Let_def case_prod_beta)

lemma extend_offsets_line:
  "newline \<notin> set b \<Longrightarrow> extend_offsets start pos (b @ newline # r) =
     (let (os, e) = extend_offsets (pos + length b + 1) (pos + length b + 1) r in (start # os, e))"
  by (induction b arbitrary: pos) (auto simp: Let_def case_prod_beta)

text \<open>A cached index fits a file when, if its digest is that of the first line, it indexes a part of it.\<close>

definition index_fits :: "sha \<Rightarrow> string \<Rightarrow> line_index option \<Rightarrow> bool" where
  "index_fits sha s ix \<longleftrightarrow>
     (case ix of None \<Rightarrow> True
      | Some e \<Rightarrow> ix_first e = sha (first_line s) \<longrightarrow>
          ix_size e \<le> length s \<and>
          extend_offsets 0 0 (take (ix_size e) s) = (ix_offsets e, ix_size e))"

lemma extend_offsets_plain: "newline \<notin> set s \<Longrightarrow> extend_offsets start pos s = ([], start)"
  by (induction s arbitrary: pos) auto

lemma extend_offsets_full: "snd (extend_offsets start pos (x @ [newline])) = pos + length x + 1"
  by (simp add: extend_offsets_append Let_def case_prod_beta)

text \<open>The end of the index is the end of the last complete line.\<close>

lemma last_newline:
  obtains x y where "s = x @ y" "newline \<notin> set y" "x = [] \<or> (\<exists>b. x = b @ [newline])"
proof (induction s rule: rev_induct)
  case Nil
  then show ?case by simp
next
  case (snoc c s)
  show ?case
  proof (cases "c = newline")
    case True
    then show ?thesis using snoc.prems [of "s @ [c]" "[]"] by simp
  next
    case False
    show ?thesis
    proof (rule snoc.IH)
      fix x y assume "s = x @ y" "newline \<notin> set y" "x = [] \<or> (\<exists>b. x = b @ [newline])"
      with False show ?thesis by (intro snoc.prems [of x "y @ [c]"]) auto
    qed
  qed
qed

lemma extend_offsets_take:
  assumes "extend_offsets 0 0 s = (os, e)"
  shows "e \<le> length s \<and> extend_offsets 0 0 (take e s) = (os, e)"
proof -
  obtain x y where xy: "s = x @ y" "newline \<notin> set y" "x = [] \<or> (\<exists>b. x = b @ [newline])"
    by (rule last_newline)
  have e: "snd (extend_offsets 0 0 x) = length x"
    using xy(3) extend_offsets_full by (metis add.left_neutral add.commute extend_offsets.simps(1)
        length_append list.size(3) list.size(4) snd_conv plus_1_eq_Suc)
  obtain os' where x: "extend_offsets 0 0 x = (os', length x)"
    using e by (metis prod.collapse)
  have "extend_offsets 0 0 s = (os', length x)"
    by (simp add: xy(1) extend_offsets_append x extend_offsets_plain [OF xy(2)])
  with assms x show ?thesis by (simp add: xy(1))
qed

definition full_index :: "sha \<Rightarrow> string \<Rightarrow> line_index" where
  "full_index sha s =
     (let (os, e) = extend_offsets 0 0 s in \<lparr>ix_first = sha (first_line s), ix_size = e, ix_offsets = os\<rparr>)"

lemma audit_offsets_fit:
  assumes "index_fits sha s ix"
  shows "audit_offsets sha (Some s) ix = (fst (extend_offsets 0 0 s), Some (full_index sha s))"
proof -
  define ent where "ent = current_index sha s ix"
  have ent: "ix_first ent = sha (first_line s)" "ix_size ent \<le> length s"
    "extend_offsets 0 0 (take (ix_size ent) s) = (ix_offsets ent, ix_size ent)"
    using assms by (auto simp: ent_def current_index_def index_fits_def Let_def split: option.splits)
  have all: "extend_offsets 0 0 s =
      (let (os, e) = extend_offsets (ix_size ent) (ix_size ent) (drop (ix_size ent) s)
       in (ix_offsets ent @ os, e))"
    using extend_offsets_append [of 0 0 "take (ix_size ent) s" "drop (ix_size ent) s"] ent(2,3)
    by (simp add: min_absorb2)
  show ?thesis
  proof (cases "length s = ix_size ent")
    case True
    then have "extend_offsets 0 0 s = (ix_offsets ent, ix_size ent)" using ent(3) by simp
    moreover have "ent = full_index sha s"
      using ent(1) calculation by (simp add: full_index_def)
    ultimately show ?thesis
      using True by (simp add: audit_offsets_def ent_def [symmetric] Let_def)
  next
    case False
    then show ?thesis
      by (simp add: audit_offsets_def ent_def [symmetric] Let_def all full_index_def case_prod_beta
          ent(1) [symmetric])
  qed
qed

lemma full_index_fits [simp]: "index_fits sha s (Some (full_index sha s))"
  using extend_offsets_take [of s] by (auto simp: index_fits_def full_index_def split: prod.split)

lemma first_line_append: "newline \<in> set s \<Longrightarrow> first_line (s @ t) = first_line s"
  by (induction s) auto

text \<open>The log only grows at its end: an index that fits keeps fitting.\<close>

lemma index_fits_append:
  assumes "index_fits sha s ix" and "newline \<in> set s"
  shows "index_fits sha (s @ t) ix"
  using assms by (auto simp: index_fits_def first_line_append split: option.splits)

section \<open>Reading lines of a log\<close>

fun starts :: "nat \<Rightarrow> nat list \<Rightarrow> nat list" where
  "starts p [] = []"
| "starts p (n # ns) = p # starts (p + n) ns"

lemma length_starts [simp]: "length (starts p ns) = length ns"
  by (induction ns arbitrary: p) auto

lemma nth_starts: "i < length ns \<Longrightarrow> starts p ns ! i = p + sum_list (take i ns)"
  by (induction ns arbitrary: p i) (auto simp: nth_Cons' take_Cons' split: nat.splits)

lemma extend_offsets_log:
  assumes "json_floats fl"
  shows "extend_offsets p p (log_text fl es) =
    (starts p (map (\<lambda>e. length (log_line fl e)) es), p + length (log_text fl es))"
proof (induction es arbitrary: p)
  case (Cons e es)
  have "newline \<notin> set (json_dumps fl Compact (PDict e))" using dumps_no_break [OF assms] by blast
  then have "extend_offsets p p (log_text fl (e # es)) =
      (let (os, q) = extend_offsets (p + length (log_line fl e)) (p + length (log_line fl e)) (log_text fl es)
       in (p # os, q))"
    by (simp add: log_line_def extend_offsets_line)
  with Cons.IH show ?case by (simp add: log_line_def)
qed simp

lemma drop_log_text:
  "i \<le> length es \<Longrightarrow>
   drop (sum_list (take i (map (\<lambda>e. length (log_line fl e)) es))) (log_text fl es) = log_text fl (drop i es)"
proof (induction es arbitrary: i)
  case (Cons e es)
  then show ?case by (cases i) auto
qed simp

lemma read_lines_log:
  assumes "json_floats fl" and "index_fits sha (log_text fl es) ix"
  shows "read_lines sha (Some (log_text fl es)) ix a b =
    map (\<lambda>i. log_line fl (es ! nat i)) [max 0 a .. min b (int (length es)) - 1]"
proof -
  let ?offs = "starts 0 (map (\<lambda>e. length (log_line fl e)) es)"
  have "first_line (drop (?offs ! i) (log_text fl es)) = log_line fl (es ! i)" if "i < length es" for i
  proof -
    from that have "drop (?offs ! i) (log_text fl es) = log_text fl (drop i es)"
      using nth_starts [of i "map (\<lambda>e. length (log_line fl e)) es" 0] drop_log_text [of i es fl] by simp
    also have "\<dots> = log_line fl (es ! i) @ log_text fl (drop (Suc i) es)"
      using that by (simp add: Cons_nth_drop_Suc [symmetric])
    finally show ?thesis by (simp add: first_line_log [OF assms(1)])
  qed
  then show ?thesis
    by (auto simp: read_lines_def audit_offsets_fit [OF assms(2)] extend_offsets_log [OF assms(1)])
qed

lemma last_line_log:
  assumes "json_floats fl" and "index_fits sha (log_text fl es) ix" and "es \<noteq> []"
  shows "last_audit_line sha (Some (log_text fl es)) ix = log_line fl (last es)"
proof -
  have "fst (audit_offsets sha (Some (log_text fl es)) ix) =
      starts 0 (map (\<lambda>e. length (log_line fl e)) es)"
    by (simp add: audit_offsets_fit [OF assms(2)] extend_offsets_log [OF assms(1)])
  moreover have "starts 0 (map (\<lambda>e. length (log_line fl e)) es) \<noteq> []"
    using assms(3) by (metis length_0_conv length_map length_starts)
  moreover have "[int (length es) - 1 .. int (length es) - 1] = [int (length es) - 1]"
    by (simp add: upto_single)
  moreover have "nat (int (length es) - 1) = length es - 1" by simp
  ultimately show ?thesis
    using assms(3) by (simp add: last_audit_line_def read_lines_log [OF assms(1,2)] Let_def last_conv_nth
        max_def)
qed


section \<open>Chained entries\<close>

abbreviation seq_of :: "(string \<times> pyval) list \<Rightarrow> pyval" where
  "seq_of e \<equiv> py_get ''seq'' PNone e"

fun chain :: "sha \<Rightarrow> float_io \<Rightarrow> pyval \<Rightarrow> int \<Rightarrow> (string \<times> pyval) list list \<Rightarrow> bool" where
  "chain sha fl prev n [] = True"
| "chain sha fl prev n (e # es) =
     (plain (PDict e) \<and> seq_of e = PInt n \<and> entry_hash e = PStr (compute_hash sha fl prev e) \<and>
      chain sha fl (entry_hash e) (n + 1) es)"

text \<open>A log as the service writes it: an anchor, and entries chained from it.\<close>

definition good_log :: "sha \<Rightarrow> float_io \<Rightarrow> (string \<times> pyval) list list \<Rightarrow> bool" where
  "good_log sha fl es \<longleftrightarrow>
     es \<noteq> [] \<and> py_get ''event'' PNone (hd es) = PStr ''anchor'' \<and>
     chain sha fl (PStr anchor_hash) 0 es"

definition tip_of :: "pyval \<Rightarrow> (string \<times> pyval) list list \<Rightarrow> pyval" where
  "tip_of prev es = (if es = [] then prev else entry_hash (last es))"

lemma chain_append:
  "chain sha fl prev n (es @ fs) \<longleftrightarrow>
     chain sha fl prev n es \<and> chain sha fl (tip_of prev es) (n + int (length es)) fs"
  by (induction es arbitrary: prev n) (auto simp: tip_of_def algebra_simps)

lemma chain_plain: "chain sha fl prev n es \<Longrightarrow> e \<in> set es \<Longrightarrow> plain (PDict e)"
  by (induction es arbitrary: prev n) auto

lemma chain_seq: "chain sha fl prev n es \<Longrightarrow> i < length es \<Longrightarrow> seq_of (es ! i) = PInt (n + int i)"
  by (induction es arbitrary: prev n i) (auto simp: nth_Cons' algebra_simps)

lemma good_log_last:
  assumes "good_log sha fl es"
  shows "plain (PDict (last es)) \<and> seq_of (last es) = PInt (int (length es) - 1) \<and>
    (\<exists>h. entry_hash (last es) = PStr h)"
proof -
  obtain fs e where es: "es = fs @ [e]" using assms by (cases es rule: rev_cases) (auto simp: good_log_def)
  with assms show ?thesis by (auto simp: good_log_def chain_append)
qed

lemma py_get_filter: "k \<noteq> ''hash'' \<Longrightarrow> py_get k d (filter (\<lambda>(k, _). k \<noteq> ''hash'') e) = py_get k d e"
  by (simp add: py_get_def map_of_filter_in) (induction e, auto)

lemma compute_hash_filter [simp]:
  "compute_hash sha fl prev (filter (\<lambda>(k, _). k \<noteq> ''hash'') e) = compute_hash sha fl prev e"
  by (simp add: compute_hash_def canonical_def)

lemma filter_update_hash:
  "filter (\<lambda>(k, _). k \<noteq> ''hash'') (AList.update ''hash'' v e) = filter (\<lambda>(k, _). k \<noteq> ''hash'') e"
  by (induction e) auto

lemma compute_hash_update [simp]:
  "compute_hash sha fl prev (AList.update ''hash'' v e) = compute_hash sha fl prev e"
  by (simp add: compute_hash_def canonical_def filter_update_hash)

lemma verify_lines_chain:
  assumes "json_floats fl" and "chain sha fl prev (int i) es"
    and "i = 0 \<Longrightarrow> prev = PStr anchor_hash \<and> (es \<noteq> [] \<longrightarrow> py_get ''event'' PNone (hd es) = PStr ''anchor'')"
    and "i = 0 \<and> pseq = PNone \<or> 0 < i \<and> pseq = PInt (int i - 1)"
  shows "verify_lines sha fl i prev pseq (map (\<lambda>e. json_dumps fl Compact (PDict e)) es) =
    Returned (Intact (i + length es))"
  using assms(2-4)
proof (induction es arbitrary: i prev pseq)
  case (Cons e es)
  have ld: "json_loads fl (json_dumps fl Compact (PDict e)) = Some (PDict e)"
    using json_loads_dumps [OF assms(1)] Cons.prems(1) by simp
  have ev: "i = 0 \<longrightarrow> py_get ''event'' PNone e = PStr ''anchor''" using Cons.prems(2) by auto
  have pr: "(if i = 0 then PStr anchor_hash else prev) = prev" using Cons.prems(2) by auto
  have sq: "seq_gap pseq (PInt (int i)) = Some False" if "pseq \<noteq> PNone"
    using Cons.prems(3) that by (auto simp: seq_gap_def)
  have "verify_lines sha fl (Suc i) (entry_hash e) (PInt (int i)) (map (\<lambda>e. json_dumps fl Compact (PDict e)) es)
      = Returned (Intact (Suc i + length es))"
    using Cons.prems(1) by (intro Cons.IH) (auto simp: algebra_simps)
  with Cons.prems(1) ev pr sq show ?case
    by (auto simp: ld Let_def py_get_filter)
qed simp

lemma verify_good_log:
  assumes "json_floats fl" and "good_log sha fl es"
  shows "verify_chain sha fl (Some (log_text fl es)) = Returned (Intact (length es))"
proof -
  have "es \<noteq> []" using assms(2) by (simp add: good_log_def)
  moreover have "map (\<lambda>e. json_dumps fl Compact (PDict e)) es \<noteq> [[]]"
    by (cases es) (simp_all add: json_dumps.simps)
  moreover have "verify_lines sha fl 0 (PStr []) PNone (map (\<lambda>e. json_dumps fl Compact (PDict e)) es)
      = verify_lines sha fl 0 (PStr anchor_hash) PNone (map (\<lambda>e. json_dumps fl Compact (PDict e)) es)"
    by (cases es) (simp_all split: option.split pyval.split)
  ultimately show ?thesis
    using verify_lines_chain [OF assms(1), of sha "PStr anchor_hash" 0 es PNone] assms
    by (simp add: verify_chain_def log_lines_text good_log_def)
qed

section \<open>New entries\<close>

definition clean_args :: "audit_args \<Rightarrow> bool" where
  "clean_args a \<longleftrightarrow> list_all (\<lambda>(k, v). plain v \<and> k \<noteq> ''seq'') (aa_extra a)"

lemma plain_update: "plain v \<Longrightarrow> plain (PDict e) \<Longrightarrow> plain (PDict (AList.update k v e))"
  using set_update_alist [of k v e] by (auto simp: distinct_update)

lemma add_extra_Cons:
  "add_extra env e ((k, v) # ex) =
     add_extra env (AList.update k (case v of PStr s \<Rightarrow> PStr (redact env s) | _ \<Rightarrow> v) e) ex"
  by (simp add: add_extra_def)

lemma add_extra_ok:
  "list_all (\<lambda>(k, v). plain v \<and> k \<noteq> ''seq'') extra \<Longrightarrow> plain (PDict e) \<Longrightarrow>
   plain (PDict (add_extra env e extra)) \<and> seq_of (add_extra env e extra) = seq_of e"
proof (induction extra arbitrary: e)
  case (Cons kv extra)
  obtain k v where kv: "kv = (k, v)" by (cases kv)
  define w where "w = (case v of PStr s \<Rightarrow> PStr (redact env s) | _ \<Rightarrow> v)"
  have "plain w" using Cons.prems(1) by (cases v) (simp_all add: kv w_def)
  with Cons.prems have "plain (PDict (AList.update k w e))" by (intro plain_update) auto
  moreover have "seq_of (AList.update k w e) = seq_of e"
    using Cons.prems(1) by (auto simp: kv py_get_def)
  ultimately show ?case
    using Cons.IH [of "AList.update k w e"] Cons.prems(1)
    by (simp add: kv add_extra_Cons w_def [symmetric] del: plain.simps)
qed (simp add: add_extra_def)

lemma new_entry_ok:
  assumes "clean_args a"
  shows "plain (PDict (new_entry env a n prev)) \<and> seq_of (new_entry env a n prev) = PInt n \<and>
    entry_hash (new_entry env a n prev) =
      PStr (compute_hash (ae_sha env) (ae_fl env) prev (new_entry env a n prev))"
proof -
  define b where "b = [(''timestamp'', PStr (ae_stamp env)), (''seq'', PInt n),
                 (''event'', PStr (aa_event a)), (''user'', PStr (aa_user a)),
                 (''ip'', PStr (aa_ip a)), (''result'', PStr (aa_result a)),
                 (''detail'', PStr (redact env (aa_detail a)))]"
  define e where "e = add_extra env b (aa_extra a)"
  have b: "plain (PDict b)" "seq_of b = PInt n"
    by (simp_all add: b_def py_get_def)
  have e: "plain (PDict e)" "seq_of e = PInt n"
    using add_extra_ok [of "aa_extra a" b env] assms b by (simp_all add: clean_args_def e_def)
  have n: "new_entry env a n prev = AList.update ''hash'' (PStr (compute_hash (ae_sha env) (ae_fl env) prev e)) e"
    by (simp add: new_entry_def Let_def e_def b_def)
  have "plain (PDict (new_entry env a n prev))"
    unfolding n by (rule plain_update) (use e in simp_all)
  moreover have "seq_of (new_entry env a n prev) = PInt n"
    using e by (simp add: n py_get_def)
  moreover have "entry_hash (new_entry env a n prev) = PStr (compute_hash (ae_sha env) (ae_fl env) prev e)"
    by (simp add: n py_get_def entry_hash_def)
  ultimately show ?thesis by (simp add: n)
qed

lemma good_log_append:
  assumes "good_log sha fl es" and "clean_args a" and "ae_sha env = sha" and "ae_fl env = fl"
  shows "good_log sha fl (es @ [new_entry env a (int (length es)) (entry_hash (last es))])"
  using assms new_entry_ok [OF assms(2), of env "int (length es)" "entry_hash (last es)"]
  by (auto simp: good_log_def chain_append tip_of_def simp del: plain.simps)

lemma good_anchor:
  assumes "ae_sha env = sha" and "ae_fl env = fl" and "plain t"
  shows "good_log sha fl [anchor_entry env t]"
proof -
  define b where "b = [(''timestamp'', PStr (ae_stamp env)), (''seq'', PInt 0), (''event'', PStr ''anchor''),
               (''user'', PStr ''system''), (''ip'', PStr ''unknown''), (''result'', PStr ''success''),
               (''detail'', PStr (''Audit chain anchor '' @ [CHR 0x97] @ '' genesis entry''))]
              @ (if truthy t then [(''prev_tip'', t)] else [])"
  have a: "anchor_entry env t = AList.update ''hash'' (PStr (compute_hash sha fl (PStr anchor_hash) b)) b"
    by (simp add: anchor_entry_def b_def Let_def assms(1,2))
  have "plain (PDict b)" "seq_of b = PInt 0" "py_get ''event'' PNone b = PStr ''anchor''"
    using assms(3) by (simp_all add: b_def py_get_def)
  moreover from this have "plain (PDict (anchor_entry env t))"
    unfolding a by (intro plain_update) simp_all
  ultimately show ?thesis
    by (simp add: good_log_def a entry_hash_def py_get_def del: plain.simps)
qed

end
