(* ===== verification/AuditOps.thy ===== *)
theory AuditOps
  imports AuditChain
begin

text \<open>
  The operations of the audit log on a log that is in order: what each one returns, reports and
  leaves behind, for one process (\<open>audit_log_good\<close>) and then for several processes that share the
  files and restart (\<open>audit_run_good\<close>).
\<close>

section \<open>Sequencing\<close>

lemma a_bind_simps [simp]:
  "a_bind (a_return x) g = g x"
  "a_bind a_raise g = a_raise"
  by (rule ext; simp add: a_bind_def a_return_def a_raise_def)+

lemma a_get_apply [simp]: "a_get f (p, d) = f p d (p, d)"
  by (simp add: a_get_def)

lemma a_return_apply [simp]: "a_return x c = (Returned x, [], c)"
  by (simp add: a_return_def)

section \<open>Digests as text\<close>

definition hex_text :: "string \<Rightarrow> bool" where
  "hex_text s \<longleftrightarrow> s \<noteq> [] \<and> list_all (\<lambda>c. hex_val c \<noteq> None) s"

lemma hex_char:
  "hex_val c \<noteq> None \<Longrightarrow> \<not> py_space c \<and> c \<noteq> CHR 0x0D \<and> of_char c < (128 :: nat)"
  by (auto simp: hex_val_def py_space_def Let_def split: if_splits)

lemma split_ws_word:
  assumes "w \<noteq> []" and "\<forall>c \<in> set w. \<not> py_space c"
  shows "split_ws (w @ CHR '' '' # r) = w # split_ws r" "split_ws w = [w]"
proof -
  have sp: "py_space (CHR '' '')" by (simp add: py_space_def)
  show "split_ws (w @ CHR '' '' # r) = w # split_ws r"
    using assms
  proof (induction w rule: list_nonempty_induct)
    case (cons x xs)
    then show ?case by (cases xs) auto
  qed (simp add: sp)
  show "split_ws w = [w]"
    using assms
  proof (induction w rule: list_nonempty_induct)
    case (cons x xs)
    then show ?case by (cases xs) auto
  qed simp
qed

lemma dropWhile_none: "\<forall>c \<in> set s. \<not> P c \<Longrightarrow> dropWhile P s = s"
  by (cases s) auto

lemma split_sidecar:
  assumes "hex_text h" and "hex_text g"
  shows "split_ws (py_strip (read_text (h @ '' '' @ g))) = [h, g]"
proof -
  have h: "h \<noteq> []" "\<forall>c \<in> set h. \<not> py_space c" and g: "g \<noteq> []" "\<forall>c \<in> set g. \<not> py_space c"
    and cr: "CHR 0x0D \<notin> set (h @ '' '' @ g)"
    using assms hex_char by (fastforce simp: hex_text_def list_all_iff)+
  have "dropWhile py_space (h @ '' '' @ g) = h @ '' '' @ g"
    using h by (cases h) auto
  moreover have "dropWhile py_space (rev (h @ '' '' @ g)) = rev (h @ '' '' @ g)"
    using g by (cases g rule: rev_cases) auto
  ultimately have "py_strip (h @ '' '' @ g) = h @ '' '' @ g" by (simp add: py_strip_def)
  then show ?thesis
    using read_text_id [OF cr] split_ws_word(1) [OF h, of g] split_ws_word(2) [OF g] by simp
qed

lemma hex_ascii: "hex_text s \<Longrightarrow> is_ascii s"
  using hex_char by (auto simp: hex_text_def is_ascii_def list_all_iff)

section \<open>Deployments and good states\<close>

text \<open>What does not change between the operations of one deployment, and what digests look like.\<close>

definition hex_digests :: "sha \<Rightarrow> (string \<Rightarrow> string) \<Rightarrow> bool" where
  "hex_digests sha sign \<longleftrightarrow> (\<forall>x. hex_text (sha x) \<and> hex_text (sign x))"

definition deployed :: "sha \<Rightarrow> float_io \<Rightarrow> (string \<Rightarrow> string) \<Rightarrow> aenv \<Rightarrow> bool" where
  "deployed sha fl sign env \<longleftrightarrow>
     json_floats fl \<and> hex_digests sha sign \<and>
     ae_sha env = sha \<and> ae_fl env = fl \<and> (\<forall>h. tip_signature env h = sign h)"

text \<open>
  Faults that the log survives: an anchor and the tip reach the disk, an entry reaches it whole or
  not at all.
\<close>

definition clean_env :: "aenv \<Rightarrow> bool" where
  "clean_env env \<longleftrightarrow>
     ae_tip_writable env \<and> ae_anchor_write env = None \<and> (ae_write env = None \<or> ae_write env = Some 0)"

definition tip_text :: "(string \<Rightarrow> string) \<Rightarrow> string \<Rightarrow> string" where
  "tip_text sign h = h @ '' '' @ sign h"

definition good_disk ::
    "sha \<Rightarrow> float_io \<Rightarrow> (string \<Rightarrow> string) \<Rightarrow> (string \<times> pyval) list list \<Rightarrow> 's adisk \<Rightarrow> bool" where
  "good_disk sha fl sign es d \<longleftrightarrow>
     good_log sha fl es \<and> ad_log d = Some (log_text fl es) \<and>
     ad_tip d = Some (tip_text sign (hash_text (last es)))"

definition alarm :: "anote \<Rightarrow> bool" where
  "alarm n = (case n of ChainFailed _ \<Rightarrow> True | TipMismatch _ _ \<Rightarrow> True | SidecarForged \<Rightarrow> True | _ \<Rightarrow> False)"

abbreviation quiet_notes :: "anote list \<Rightarrow> bool" where
  "quiet_notes \<equiv> list_all (\<lambda>n. \<not> alarm n)"

lemma chain_last_hash:
  "chain sha fl prev n es \<Longrightarrow> es \<noteq> [] \<Longrightarrow> \<exists>x. entry_hash (last es) = PStr (sha x)"
  by (cases es rule: rev_cases) (auto simp: chain_append compute_hash_def)

lemma good_last_hash:
  assumes "good_log sha fl es"
  obtains x where "entry_hash (last es) = PStr (sha x)" "hash_text (last es) = sha x"
  using assms chain_last_hash [of sha fl "PStr anchor_hash" 0 es] that
  by (auto simp: good_log_def hash_text_def)

lemma deployedD:
  assumes "deployed sha fl sign env"
  shows "json_floats fl" "ae_sha env = sha" "ae_fl env = fl" "tip_signature env h = sign h"
    "hex_text (sha x)" "hex_text (sign x)"
  using assms by (simp_all add: deployed_def hex_digests_def)

lemma py_get_hash: "entry_hash e = PStr h \<Longrightarrow> h \<noteq> [] \<Longrightarrow> py_get ''hash'' PNone e = PStr h"
  by (auto simp: entry_hash_def py_get_def split: option.splits)

definition seen :: "sha \<Rightarrow> float_io \<Rightarrow> (string \<times> pyval) list list \<Rightarrow> aproc \<Rightarrow> aproc" where
  "seen sha fl es p = p\<lparr>ap_index := Some (full_index sha (log_text fl es))\<rparr>"

lemma seen_simps [simp]:
  "ap_chain (seen sha fl es p) = ap_chain p"
  "ap_started (seen sha fl es p) = ap_started p"
  "ap_alerted (seen sha fl es p) = ap_alerted p"
  "seen sha fl es (seen sha fl es p) = seen sha fl es p"
  "index_fits sha (log_text fl es) (ap_index (seen sha fl es p))"
  by (simp_all add: seen_def)

lemma last_entry_good:
  assumes D: "deployed sha fl sign env" and g: "good_log sha fl es" and l: "ad_log d = Some (log_text fl es)"
    and ix: "index_fits sha (log_text fl es) (ap_index p)"
  shows "last_entry env (p, d) = (Returned (Some (Some (PDict (last es)))), [], seen sha fl es p, d)"
proof -
  have fl: "json_floats fl" using deployedD [OF D] by simp
  have ne: "es \<noteq> []" using g by (simp add: good_log_def)
  have ll: "last_audit_line sha (Some (log_text fl es)) (ap_index p) = log_line fl (last es)"
    by (rule last_line_log [OF fl ix ne])
  have "plain (PDict (last es))" using good_log_last [OF g] by simp
  then have "json_loads fl (log_line fl (last es)) = Some (PDict (last es))"
    unfolding log_line_def by (rule json_loads_dumps_newline [OF fl])
  moreover have "log_line fl (last es) \<noteq> []" by (simp add: log_line_def)
  ultimately show ?thesis
    by (simp add: last_entry_def l deployedD [OF D] ll a_bind_def use_index_def Let_def
        audit_offsets_fit [OF ix] seen_def)
qed

lemma load_chain_hash_good:
  assumes D: "deployed sha fl sign env" and g: "good_log sha fl es" and l: "ad_log d = Some (log_text fl es)"
    and ix: "index_fits sha (log_text fl es) (ap_index p)"
  shows "load_chain_hash env (p, d) =
    (Returned (), [], (seen sha fl es p)\<lparr>ap_chain := entry_hash (last es)\<rparr>, d)"
  by (simp add: load_chain_hash_def l a_bind_def last_entry_good [OF assms] set_chain_def
      entry_hash_def)

lemma load_last_seq_good:
  assumes D: "deployed sha fl sign env" and g: "good_log sha fl es" and l: "ad_log d = Some (log_text fl es)"
    and ix: "index_fits sha (log_text fl es) (ap_index p)"
  shows "load_last_seq env (p, d) = (Returned (int (length es) - 1), [], seen sha fl es p, d)"
  using good_log_last [OF g]
  by (simp add: load_last_seq_def l a_bind_def last_entry_good [OF assms])

section \<open>Startup\<close>

lemma stored_tip_good:
  assumes D: "deployed sha fl sign env" and g: "good_disk sha fl sign es d"
  shows "stored_tip B env (p, d) = (Returned (entry_hash (last es)), [], p, d)"
proof -
  obtain x where x: "entry_hash (last es) = PStr (sha x)" "hash_text (last es) = sha x"
    using g good_last_hash unfolding good_disk_def by blast
  have "split_ws (py_strip (read_text (tip_text sign (sha x)))) = [sha x, sign (sha x)]"
    unfolding tip_text_def by (rule split_sidecar) (use deployedD [OF D] in blast)+
  moreover have "is_ascii (sign (sha x))" using deployedD(6) [OF D] hex_ascii by blast
  ultimately show ?thesis
    using g by (simp add: stored_tip_def good_disk_def x deployedD [OF D])
qed

lemma startup_good:
  assumes D: "deployed sha fl sign env" and g: "good_disk sha fl sign es d"
    and ix: "index_fits sha (log_text fl es) (ap_index p)"
  shows "\<exists>ns q. verify_chain_on_startup B env (p, d) = (Returned (), ns, q, d) \<and> quiet_notes ns \<and>
    ap_started q \<and> index_fits sha (log_text fl es) (ap_index q) \<and>
    (ap_started p \<longrightarrow> q = p) \<and> (\<not> ap_started p \<longrightarrow> ns = [ChainVerified (Intact (length es))])"
proof (cases "ap_started p")
  case True
  then show ?thesis using ix by (simp add: verify_chain_on_startup_def)
next
  case False
  have gl: "good_log sha fl es" and l: "ad_log d = Some (log_text fl es)"
    using g by (simp_all add: good_disk_def)
  have ne: "log_text fl es \<noteq> []"
    using gl by (cases es) (simp_all add: good_log_def log_line_def)
  obtain x where x: "entry_hash (last es) = PStr (sha x)"
    using gl good_last_hash by blast
  define q where "q = p\<lparr>ap_started := True\<rparr>"
  have ixq: "index_fits sha (log_text fl es) (ap_index q)" using ix by (simp add: q_def)
  have ch: "load_chain_hash env (q, d) =
      (Returned (), [], (seen sha fl es q)\<lparr>ap_chain := entry_hash (last es)\<rparr>, d)"
    by (rule load_chain_hash_good [OF D gl l ixq])
  have st: "stored_tip B env (q, d) = (Returned (entry_hash (last es)), [], q, d)"
    by (rule stored_tip_good [OF D g])
  have v: "verify_chain (ae_sha env) (ae_fl env) (ad_log d) = Returned (Intact (length es))"
    using verify_good_log [OF _ gl] deployedD [OF D] by (simp add: l)
  have "verify_chain_on_startup B env (p, d) =
      (Returned (), [ChainVerified (Intact (length es))], (seen sha fl es q)\<lparr>ap_chain := entry_hash (last es)\<rparr>, d)"
    using False ne
    by (simp add: verify_chain_on_startup_def a_bind_def set_started_def q_def [symmetric] st l [symmetric] v)
      (simp add: l report_verdict_def verdict_ok_def a_note_def ch a_bind_def)
  then show ?thesis
    using False by (simp add: q_def alarm_def seen_def)
qed



section \<open>Tip, anchor, rotation\<close>

lemma record_tip_good:
  assumes "deployed sha fl sign env" and "ae_tip_writable env"
  shows "\<exists>st. record_tip B env h (p, d) =
    (Returned (), [], p, d\<lparr>ad_state := st, ad_tip := Some (tip_text sign h)\<rparr>)"
proof (cases "ae_up env")
  case True
  then show ?thesis using assms(2) by (auto simp: record_tip_def tip_text_def deployedD [OF assms(1)])
next
  case False
  then show ?thesis
    using assms(2)
    by (intro exI [of _ "ad_state d"]) (simp add: record_tip_def tip_text_def deployedD [OF assms(1)])
qed

lemma write_anchor_good:
  assumes D: "deployed sha fl sign env" and "clean_env env" and "plain t"
  defines "a \<equiv> anchor_entry env t"
  shows "\<exists>d'. write_anchor B env t (p, d) = (Returned (), [], p\<lparr>ap_chain := entry_hash a\<rparr>, d') \<and>
    good_disk sha fl sign [a] d' \<and> ad_rotated d' = ad_rotated d"
proof -
  have c: "ae_tip_writable env" "ae_anchor_write env = None"
    using assms(2) by (simp_all add: clean_env_def)
  obtain st where st: "record_tip B env (hash_text a) (p\<lparr>ap_chain := entry_hash a\<rparr>, d\<lparr>ad_log := Some (log_line fl a)\<rparr>) =
      (Returned (), [], p\<lparr>ap_chain := entry_hash a\<rparr>,
       d\<lparr>ad_log := Some (log_line fl a), ad_state := st, ad_tip := Some (tip_text sign (hash_text a))\<rparr>)"
    using record_tip_good [OF D c(1)] by (metis adisk.update_convs(1))
  have "good_log sha fl [a]"
    unfolding a_def by (rule good_anchor) (simp_all add: deployedD [OF D] assms(3) del: plain.simps)
  then show ?thesis
    by (simp add: write_anchor_def a_def [symmetric] Let_def a_bind_def set_chain_def set_log_def c
        deployedD [OF D] st good_disk_def)
qed

text \<open>The anchor that a rotation of this log would write.\<close>

definition next_anchor :: "aenv \<Rightarrow> string \<Rightarrow> (string \<times> pyval) list" where
  "next_anchor env s =
     anchor_entry env
       (case json_loads (ae_fl env) (last (log_lines s)) of
          Some (PDict e) \<Rightarrow> py_get ''hash'' PNone e
        | _ \<Rightarrow> PNone)"

lemma next_anchor_good:
  assumes D: "deployed sha fl sign env" and g: "good_log sha fl es"
  shows "next_anchor env (log_text fl es) = anchor_entry env (entry_hash (last es))"
    and "py_get ''hash'' PNone (last es) = entry_hash (last es)"
proof -
  have fl: "json_floats fl" using deployedD [OF D] by simp
  have ne: "es \<noteq> []" using g by (simp add: good_log_def)
  obtain x where x: "entry_hash (last es) = PStr (sha x)" using g good_last_hash by blast
  have "sha x \<noteq> []" using deployedD(5) [OF D, of x] by (simp add: hex_text_def)
  with x show p: "py_get ''hash'' PNone (last es) = entry_hash (last es)"
    using py_get_hash by metis
  have "json_loads fl (json_dumps fl Compact (PDict (last es))) = Some (PDict (last es))"
    using good_log_last [OF g] by (intro json_loads_dumps [OF fl]) simp
  then show "next_anchor env (log_text fl es) = anchor_entry env (entry_hash (last es))"
    using ne by (simp add: next_anchor_def log_lines_text [OF fl ne] last_map deployedD [OF D] p)
qed

lemma truthy_hash:
  assumes "deployed sha fl sign env" and "good_log sha fl es"
  shows "plain (entry_hash (last es))"
proof -
  obtain x where "entry_hash (last es) = PStr (sha x)" using assms(2) good_last_hash by blast
  then show ?thesis by simp
qed

lemma index_unfit: 
  "(\<And>e. ix = Some e \<Longrightarrow> ix_first e \<noteq> sha (first_line s)) \<Longrightarrow> index_fits sha s ix"
  by (auto simp: index_fits_def split: option.split)

lemma maybe_rotate_good:
  assumes D: "deployed sha fl sign env" and C: "clean_env env" and g: "good_disk sha fl sign es d"
    and ix: "index_fits sha (log_text fl es) (ap_index p)"
    and fresh: "sha (log_line fl (anchor_entry env (entry_hash (last es)))) \<noteq> sha (first_line (log_text fl es))"
  shows "\<exists>ns q d' es'. maybe_rotate B env (p, d) = (Returned (), ns, q, d') \<and> quiet_notes ns \<and>
    ap_started q = ap_started p \<and> good_disk sha fl sign es' d' \<and>
    index_fits sha (log_text fl es') (ap_index q) \<and>
    (es' = es \<and> d' = d \<or>
     es' = [anchor_entry env (entry_hash (last es))] \<and> ad_rotated d' = ad_log d)"
proof -
  have gl: "good_log sha fl es" and l: "ad_log d = Some (log_text fl es)"
    using g by (simp_all add: good_disk_def)
  have fl: "json_floats fl" using deployedD [OF D] by simp
  let ?a = "anchor_entry env (entry_hash (last es))"
  let ?q = "seen sha fl es p"
  note le = last_entry_good [OF D gl l ix]
  consider (small) "int (length (log_text fl es)) < audit_log_max_bytes env"
    | (stuck) "\<not> int (length (log_text fl es)) < audit_log_max_bytes env" "\<not> ae_renamable env"
    | (moved) "\<not> int (length (log_text fl es)) < audit_log_max_bytes env" "ae_renamable env"
    by blast
  then show ?thesis
  proof cases
    case small
    then have "maybe_rotate B env (p, d) = (Returned (), [], p, d)"
      by (simp add: maybe_rotate_def l)
    with g ix show ?thesis by force
  next
    case stuck
    then have "maybe_rotate B env (p, d) = (Returned (), [RotateFailed], ?q, d)"
      by (simp add: maybe_rotate_def l a_bind_def le rotate_from_def a_note_def)
    moreover have "quiet_notes [RotateFailed]" by (simp add: alarm_def)
    ultimately show ?thesis
      using g by (intro exI [of _ "[RotateFailed]"] exI [of _ ?q] exI [of _ d] exI [of _ es]) simp
  next
    case moved
    obtain d' where d': "write_anchor B env (entry_hash (last es)) (?q, d\<lparr>ad_rotated := ad_log d, ad_log := None\<rparr>)
        = (Returned (), [], ?q\<lparr>ap_chain := entry_hash ?a\<rparr>, d')"
      "good_disk sha fl sign [?a] d'" "ad_rotated d' = ad_log d"
      using write_anchor_good [OF D C truthy_hash [OF D gl], of B ?q "d\<lparr>ad_rotated := ad_log d, ad_log := None\<rparr>"]
      by auto
    have "maybe_rotate B env (p, d) = (Returned (), [], ?q\<lparr>ap_chain := entry_hash ?a\<rparr>, d')"
      using moved d'(1)
      by (simp add: maybe_rotate_def l a_bind_def le rotate_from_def next_anchor_good(2) [OF D gl] move_log_def)
    moreover have "index_fits sha (log_text fl [?a]) (ap_index ?q)"
      using fresh first_line_log [OF fl, of ?a "[]"]
      by (intro index_unfit) (auto simp: seen_def full_index_def split: prod.splits)
    ultimately show ?thesis
      using d'(2,3) by (intro exI [of _ "[]"] exI [of _ "?q\<lparr>ap_chain := entry_hash ?a\<rparr>"] exI [of _ d']
          exI [of _ "[?a]"]) simp
  qed
qed

section \<open>Writing an entry\<close>

lemma alert_frame:
  "\<exists>ns t. alert_audit_write_failure env (p, d) = (Returned (), ns, p\<lparr>ap_alerted := t\<rparr>, d) \<and> quiet_notes ns"
proof (cases "ae_now env - ap_alerted p < 60")
  case True
  then show ?thesis
    by (intro exI [of _ "[]"] exI [of _ "ap_alerted p"]) (simp add: alert_audit_write_failure_def)
next
  case False
  then show ?thesis
    by (intro exI [of _ "[Alerted]"] exI [of _ "ae_now env"])
      (simp add: alert_audit_write_failure_def alarm_def)
qed

lemma write_mirror_frame:
  "\<exists>ns q m. write_mirror env line (p, d) = (Returned (), ns, p\<lparr>ap_alerted := q\<rparr>, d\<lparr>ad_mirror := m\<rparr>) \<and>
    quiet_notes ns"
proof (cases "ae_mirror_write env")
  case None
  then show ?thesis
    by (intro exI [of _ "[]"] exI [of _ "ap_alerted p"] exI [of _ "ad_mirror d"])
      (simp add: write_mirror_def)
next
  case (Some w)
  show ?thesis
  proof (cases w)
    case None
    with Some show ?thesis
      by (intro exI [of _ "[]"] exI [of _ "ap_alerted p"] exI)
        (simp add: write_mirror_def append_mirror_def)
  next
    case (Some n)
    obtain ns t where "alert_audit_write_failure env (p, d\<lparr>ad_mirror := append_text (ad_mirror d) (take n line)\<rparr>) =
        (Returned (), ns, p\<lparr>ap_alerted := t\<rparr>, d\<lparr>ad_mirror := append_text (ad_mirror d) (take n line)\<rparr>)"
      "quiet_notes ns"
      using alert_frame by blast
    with \<open>ae_mirror_write env = Some w\<close> Some show ?thesis
      by (intro exI [of _ ns] exI [of _ t] exI)
        (simp add: write_mirror_def append_mirror_def a_bind_def)
  qed
qed

text \<open>Everything after the startup check.\<close>

definition write_entry :: "'s backend \<Rightarrow> aenv \<Rightarrow> audit_args \<Rightarrow> ('s, (string \<times> pyval) list) aop" where
  "write_entry B env a =
     a_bind (load_chain_hash env) (\<lambda>_.
     a_bind (load_last_seq env) (\<lambda>last_seq.
     a_get (\<lambda>p d.
       let e = new_entry env a (last_seq + 1) (ap_chain p);
           line = log_line (ae_fl env) e
       in a_bind (persist_entry B env e line) (\<lambda>persisted.
          a_bind (write_mirror env line) (\<lambda>_.
          a_bind (if persisted then a_note (Exported line) else a_return ()) (\<lambda>_.
          a_return e))))))"

lemma audit_log_steps:
  "audit_log B env a =
     a_bind (verify_chain_on_startup B env) (\<lambda>_. a_bind (maybe_rotate B env) (\<lambda>_. write_entry B env a))"
  by (simp add: audit_log_def write_entry_def)

lemma write_entry_good:
  assumes D: "deployed sha fl sign env" and C: "clean_env env" and A: "clean_args a"
    and g: "good_disk sha fl sign es d" and ix: "index_fits sha (log_text fl es) (ap_index p)"
  defines "e \<equiv> new_entry env a (int (length es)) (entry_hash (last es))"
  shows "\<exists>r ns q d'. write_entry B env a (p, d) = (r, ns, q, d') \<and> quiet_notes ns \<and>
    ap_started q = ap_started p \<and> ad_rotated d' = ad_rotated d \<and>
    (if ae_write env = None
     then good_disk sha fl sign (es @ [e]) d' \<and> r = Returned e
     else good_disk sha fl sign es d' \<and> r = (if ae_strict env then Raised else Returned e)) \<and>
    ap_index q = Some (full_index sha (log_text fl es))"
proof -
  have gl: "good_log sha fl es" and l: "ad_log d = Some (log_text fl es)"
    using g by (simp_all add: good_disk_def)
  define p1 where "p1 = (seen sha fl es p)\<lparr>ap_chain := entry_hash (last es)\<rparr>"
  have s1: "seen sha fl es p1 = p1" by (simp add: p1_def seen_def)
  have ch: "load_chain_hash env (p, d) = (Returned (), [], p1, d)"
    unfolding p1_def by (rule load_chain_hash_good [OF D gl l ix])
  have ix1: "index_fits sha (log_text fl es) (ap_index p1)" by (simp add: p1_def seen_def)
  have sq: "load_last_seq env (p1, d) = (Returned (int (length es) - 1), [], p1, d)"
    using load_last_seq_good [OF D gl l ix1] by (simp add: s1)
  let ?line = "log_line fl e"
  have e: "new_entry env a (int (length es) - 1 + 1) (ap_chain p1) = e"
    "new_entry env a (int (length es)) (ap_chain p1) = e" by (simp_all add: e_def p1_def)
  have we: "write_entry B env a (p, d) =
      a_bind (persist_entry B env e ?line) (\<lambda>persisted.
          a_bind (write_mirror env ?line) (\<lambda>_.
          a_bind (if persisted then a_note (Exported ?line) else a_return ()) (\<lambda>_.
          a_return e))) (p1, d)"
    by (simp add: write_entry_def a_bind_def [of "load_chain_hash env"] ch
        a_bind_def [of "load_last_seq env"] sq Let_def e deployedD [OF D] cong: if_cong)
  have tp: "ae_tip_writable env" using C by (simp add: clean_env_def)
  have gl': "good_log sha fl (es @ [e])"
    unfolding e_def by (rule good_log_append [OF gl A]) (simp_all add: deployedD [OF D])
  show ?thesis
  proof (cases "ae_write env")
    case None
    obtain st where st: "record_tip B env (hash_text e) (p1\<lparr>ap_chain := entry_hash e\<rparr>, d\<lparr>ad_log := Some (log_text fl es @ ?line)\<rparr>) =
        (Returned (), [], p1\<lparr>ap_chain := entry_hash e\<rparr>,
         d\<lparr>ad_log := Some (log_text fl es @ ?line), ad_state := st, ad_tip := Some (tip_text sign (hash_text e))\<rparr>)"
      using record_tip_good [OF D tp, of B "hash_text e" "p1\<lparr>ap_chain := entry_hash e\<rparr>"
          "d\<lparr>ad_log := Some (log_text fl es @ ?line)\<rparr>"] by blast
    define d1 where "d1 = d\<lparr>ad_log := Some (log_text fl es @ ?line), ad_state := st, ad_tip := Some (tip_text sign (hash_text e))\<rparr>"
    have pe: "persist_entry B env e ?line (p1, d) = (Returned True, [], p1\<lparr>ap_chain := entry_hash e\<rparr>, d1)"
      by (simp add: persist_entry_def None a_bind_def append_log_def append_text_def l set_chain_def st d1_def)
    obtain ns t m where m: "write_mirror env ?line (p1\<lparr>ap_chain := entry_hash e\<rparr>, d1) =
        (Returned (), ns, p1\<lparr>ap_chain := entry_hash e, ap_alerted := t\<rparr>, d1\<lparr>ad_mirror := m\<rparr>)" "quiet_notes ns"
      using write_mirror_frame [of env ?line "p1\<lparr>ap_chain := entry_hash e\<rparr>" d1] by auto
    have "write_entry B env a (p, d) =
        (Returned e, ns @ [Exported ?line], p1\<lparr>ap_chain := entry_hash e, ap_alerted := t\<rparr>, d1\<lparr>ad_mirror := m\<rparr>)"
      by (simp add: we a_bind_def pe m a_note_def)
    moreover have "good_disk sha fl sign (es @ [e]) (d1\<lparr>ad_mirror := m\<rparr>)"
      using gl' by (simp add: good_disk_def d1_def)
    ultimately show ?thesis
      using None m(2) by (simp add: d1_def p1_def seen_def alarm_def)
  next
    case (Some k)
    with C have k: "k = 0" by (simp add: clean_env_def)
    have gd: "good_disk sha fl sign es d" by (rule g)
    obtain ns t where al: "alert_audit_write_failure env (p1, d) = (Returned (), ns, p1\<lparr>ap_alerted := t\<rparr>, d)"
      "quiet_notes ns"
      using alert_frame by blast
    have ap: "append_log (take k ?line) (p1, d) = (Returned (), [], p1, d)"
      using l by (simp add: append_log_def append_text_def k)
    show ?thesis
    proof (cases "ae_strict env")
      case True
      have "persist_entry B env e ?line (p1, d) = (Raised, ns, p1\<lparr>ap_alerted := t\<rparr>, d)"
        by (simp add: persist_entry_def Some a_bind_def ap al True a_raise_def)
      then have "write_entry B env a (p, d) = (Raised, ns, p1\<lparr>ap_alerted := t\<rparr>, d)"
        by (simp add: we a_bind_def)
      then show ?thesis using Some gd al(2) True by (simp add: p1_def seen_def)
    next
      case False
      have pe: "persist_entry B env e ?line (p1, d) = (Returned False, ns, p1\<lparr>ap_alerted := t\<rparr>, d)"
        by (simp add: persist_entry_def Some a_bind_def ap al False)
      obtain ms u m where m: "write_mirror env ?line (p1\<lparr>ap_alerted := t\<rparr>, d) =
          (Returned (), ms, p1\<lparr>ap_alerted := u\<rparr>, d\<lparr>ad_mirror := m\<rparr>)" "quiet_notes ms"
        using write_mirror_frame [of env ?line "p1\<lparr>ap_alerted := t\<rparr>" d] by auto
      have "write_entry B env a (p, d) = (Returned e, ns @ ms, p1\<lparr>ap_alerted := u\<rparr>, d\<lparr>ad_mirror := m\<rparr>)"
        by (simp add: we a_bind_def pe m)
      then show ?thesis using Some gd al(2) m(2) False
        by (simp add: p1_def seen_def good_disk_def)
    qed
  qed
qed


section \<open>A whole call\<close>

definition fresh_over :: "sha \<Rightarrow> float_io \<Rightarrow> aenv \<Rightarrow> (string \<times> pyval) list list \<Rightarrow> bool" where
  "fresh_over sha fl env es \<longleftrightarrow>
     sha (log_line fl (anchor_entry env (entry_hash (last es)))) \<noteq> sha (first_line (log_text fl es))"

lemma rotate_and_write_good:
  assumes D: "deployed sha fl sign env" and C: "clean_env env" and A: "clean_args a"
    and g: "good_disk sha fl sign es d" and ix: "index_fits sha (log_text fl es) (ap_index p)"
    and F: "fresh_over sha fl env es"
  shows "\<exists>r ns q d' es'. a_bind (maybe_rotate B env) (\<lambda>_. write_entry B env a) (p, d) = (r, ns, q, d') \<and>
    quiet_notes ns \<and> ap_started q = ap_started p \<and> good_disk sha fl sign es' d' \<and>
    index_fits sha (log_text fl es') (ap_index q) \<and>
    ((\<exists>fs. es' = es @ fs) \<or> hd es' = anchor_entry env (entry_hash (last es))) \<and>
    (ae_write env = None \<longrightarrow> r = Returned (last es'))"
proof -
  obtain ns1 q1 d1 es1 where rot: "maybe_rotate B env (p, d) = (Returned (), ns1, q1, d1)" "quiet_notes ns1"
    "ap_started q1 = ap_started p" "good_disk sha fl sign es1 d1"
    "index_fits sha (log_text fl es1) (ap_index q1)"
    "es1 = es \<or> es1 = [anchor_entry env (entry_hash (last es))]"
    using maybe_rotate_good [OF D C g ix, of B] F unfolding fresh_over_def by blast
  define e where "e = new_entry env a (int (length es1)) (entry_hash (last es1))"
  obtain r ns2 q2 d2 where wr: "write_entry B env a (q1, d1) = (r, ns2, q2, d2)" "quiet_notes ns2"
    "ap_started q2 = ap_started q1"
    "if ae_write env = None
     then good_disk sha fl sign (es1 @ [e]) d2 \<and> r = Returned e
     else good_disk sha fl sign es1 d2 \<and> r = (if ae_strict env then Raised else Returned e)"
    "ap_index q2 = Some (full_index sha (log_text fl es1))"
    using write_entry_good [OF D C A rot(4,5), of B] unfolding e_def by blast
  define es2 where "es2 = (if ae_write env = None then es1 @ [e] else es1)"
  have ne: "es1 \<noteq> []" using rot(4) by (simp add: good_disk_def good_log_def)
  have nl: "newline \<in> set (log_text fl es1)" using ne by (cases es1) (simp_all add: log_line_def)
  have g2: "good_disk sha fl sign es2 d2" using wr(4) by (auto simp: es2_def split: if_splits)
  have i2: "index_fits sha (log_text fl es2) (ap_index q2)"
    using index_fits_append [OF full_index_fits nl] by (simp add: es2_def wr(5))
  have h2: "(\<exists>fs. es2 = es @ fs) \<or> hd es2 = anchor_entry env (entry_hash (last es))"
    using rot(6) ne by (auto simp: es2_def)
  have "a_bind (maybe_rotate B env) (\<lambda>_. write_entry B env a) (p, d) = (r, ns1 @ ns2, q2, d2)"
    by (simp add: a_bind_def rot(1) wr(1))
  moreover have "ae_write env = None \<longrightarrow> r = Returned (last es2)"
    using wr(4) by (simp add: es2_def)
  ultimately show ?thesis
    using rot(2,3) wr(2,3) g2 i2 h2 by auto
qed

lemma audit_log_good:
  assumes D: "deployed sha fl sign env" and C: "clean_env env" and A: "clean_args a"
    and g: "good_disk sha fl sign es d" and ix: "index_fits sha (log_text fl es) (ap_index p)"
    and F: "fresh_over sha fl env es"
  shows "\<exists>r ns q d' es'. audit_log B env a (p, d) = (r, ns, q, d') \<and> quiet_notes ns \<and>
    ap_started q \<and> good_disk sha fl sign es' d' \<and>
    index_fits sha (log_text fl es') (ap_index q) \<and>
    ((\<exists>fs. es' = es @ fs) \<or> hd es' = anchor_entry env (entry_hash (last es))) \<and>
    (ae_write env = None \<longrightarrow> r = Returned (last es'))"
proof -
  obtain ns1 q1 where st: "verify_chain_on_startup B env (p, d) = (Returned (), ns1, q1, d)"
    "quiet_notes ns1" "ap_started q1" "index_fits sha (log_text fl es) (ap_index q1)"
    using startup_good [OF D g ix, of B] by blast
  obtain r ns q d' es' where rw: "a_bind (maybe_rotate B env) (\<lambda>_. write_entry B env a) (q1, d) = (r, ns, q, d')"
    "quiet_notes ns" "ap_started q = ap_started q1" "good_disk sha fl sign es' d'"
    "index_fits sha (log_text fl es') (ap_index q)"
    "(\<exists>fs. es' = es @ fs) \<or> hd es' = anchor_entry env (entry_hash (last es))"
    "ae_write env = None \<longrightarrow> r = Returned (last es')"
    using rotate_and_write_good [OF D C A g st(4) F, of B] by (elim exE conjE) (rule that)
  have "audit_log B env a (p, d) = (r, ns1 @ ns, q, d')"
    by (simp add: audit_log_steps a_bind_def [of "verify_chain_on_startup B env"] st(1) rw(1))
  then show ?thesis using st rw by auto
qed

text \<open>The first call of a deployment writes the genesis anchor.\<close>

lemma startup_empty:
  assumes D: "deployed sha fl sign env" and C: "clean_env env"
    and d: "ad_log d = None" "ad_tip d = None" and p: "\<not> ap_started p" "ap_index p = None"
  shows "\<exists>ns q d'. verify_chain_on_startup B env (p, d) = (Returned (), ns, q, d') \<and> quiet_notes ns \<and>
    ap_started q \<and> ap_index q = None \<and> good_disk sha fl sign [anchor_entry env PNone] d'"
proof -
  define q where "q = p\<lparr>ap_started := True\<rparr>"
  obtain v st where sv: "stored_tip B env (q, d) = (Returned v, [], q, d\<lparr>ad_state := st\<rparr>)"
  proof (cases "ae_up env")
    case True
    obtain v s where "b_get B (ae_now env) tip_ns ''tip'' (ad_state d) = (v, s)" by fastforce
    with True show ?thesis by (intro that [of v s]) (simp add: stored_tip_def d state_tip_def)
  next
    case False
    then show ?thesis by (intro that [of PNone "ad_state d"]) (simp add: stored_tip_def d state_tip_def)
  qed
  obtain d' where d': "write_anchor B env PNone (q, d\<lparr>ad_state := st\<rparr>) =
      (Returned (), [], q\<lparr>ap_chain := entry_hash (anchor_entry env PNone)\<rparr>, d')"
    "good_disk sha fl sign [anchor_entry env PNone] d'"
    using write_anchor_good [OF D C, of PNone B q "d\<lparr>ad_state := st\<rparr>"] by auto
  have "verify_chain_on_startup B env (p, d) =
      (Returned (), (if truthy v then [LogMissing] else []) @ [FreshLog],
       q\<lparr>ap_chain := entry_hash (anchor_entry env PNone)\<rparr>, d')"
    using p by (simp add: verify_chain_on_startup_def a_bind_def set_started_def q_def [symmetric] sv d
        d' a_note_def)
  then show ?thesis using d'(2) p by (simp add: q_def alarm_def)
qed

lemma audit_log_empty:
  assumes D: "deployed sha fl sign env" and C: "clean_env env" and A: "clean_args a"
    and d: "ad_log d = None" "ad_tip d = None" and p: "\<not> ap_started p" "ap_index p = None"
    and F: "fresh_over sha fl env [anchor_entry env PNone]"
  shows "\<exists>r ns q d' es'. audit_log B env a (p, d) = (r, ns, q, d') \<and> quiet_notes ns \<and>
    ap_started q \<and> good_disk sha fl sign es' d' \<and>
    index_fits sha (log_text fl es') (ap_index q) \<and>
    (ae_write env = None \<longrightarrow> r = Returned (last es'))"
proof -
  obtain ns1 q1 d1 where st: "verify_chain_on_startup B env (p, d) = (Returned (), ns1, q1, d1)"
    "quiet_notes ns1" "ap_started q1" "ap_index q1 = None"
    "good_disk sha fl sign [anchor_entry env PNone] d1"
    using startup_empty [OF D C d p, of B] by blast
  have ix: "index_fits sha (log_text fl [anchor_entry env PNone]) (ap_index q1)"
    by (simp add: st(4) index_fits_def)
  obtain r ns q d' es' where rw: "a_bind (maybe_rotate B env) (\<lambda>_. write_entry B env a) (q1, d1) = (r, ns, q, d')"
    "quiet_notes ns" "ap_started q = ap_started q1" "good_disk sha fl sign es' d'"
    "index_fits sha (log_text fl es') (ap_index q)"
    "ae_write env = None \<longrightarrow> r = Returned (last es')"
    using rotate_and_write_good [OF D C A st(5) ix F, of B] by (elim exE conjE) (rule that)
  have "audit_log B env a (p, d) = (r, ns1 @ ns, q, d')"
    by (simp add: audit_log_steps a_bind_def [of "verify_chain_on_startup B env"] st(1) rw(1))
  then show ?thesis using st rw by auto
qed


section \<open>Equations for evaluation\<close>

text \<open>The same operations with the sequencing unfolded, for evaluation on concrete states.\<close>

lemma last_entry_code [code]:
  "last_entry env (p, d) =
     (let line = last_audit_line (ae_sha env) (ad_log d) (ap_index p)
      in (Returned (if line = [] then None else Some (json_loads (ae_fl env) line)), [],
          p\<lparr>ap_index := snd (audit_offsets (ae_sha env) (ad_log d) (ap_index p))\<rparr>, d))"
  by (simp add: last_entry_def a_bind_def use_index_def a_get_def a_return_def Let_def)

lemma load_chain_hash_code [code]:
  "load_chain_hash env (p, d) =
     (if ad_log d = None then (Returned (), [], p, d)
      else (case last_entry env (p, d) of
              (Raised, ns, c) \<Rightarrow> (Raised, ns, c)
            | (Returned e, ns, p', d') \<Rightarrow>
                (case e of
                   None \<Rightarrow> (Returned (), ns, p', d')
                 | Some None \<Rightarrow> (Returned (), ns, p'\<lparr>ap_chain := PStr []\<rparr>, d')
                 | Some (Some (PDict e)) \<Rightarrow>
                     (Returned (), ns, p'\<lparr>ap_chain := py_get ''hash'' (PStr []) e\<rparr>, d')
                 | Some (Some _) \<Rightarrow> (Raised, ns, p', d'))))"
  by (simp add: load_chain_hash_def a_bind_def a_get_def a_return_def a_raise_def set_chain_def
      split: outcome.split option.split pyval.split prod.split)

lemma load_last_seq_code [code]:
  "load_last_seq env (p, d) =
     (if ad_log d = None then (Returned (- 1), [], p, d)
      else (case last_entry env (p, d) of
              (Raised, ns, c) \<Rightarrow> (Raised, ns, c)
            | (Returned e, ns, p', d') \<Rightarrow>
                (case e of
                   None \<Rightarrow> (Returned (- 1), ns, p', d')
                 | Some None \<Rightarrow> (Returned (- 1), ns, p', d')
                 | Some (Some (PDict e)) \<Rightarrow>
                     (Returned (case py_get ''seq'' PNone e of
                                  PInt n \<Rightarrow> n | PBool b \<Rightarrow> (if b then 1 else 0) | _ \<Rightarrow> - 1), ns, p', d')
                 | Some (Some _) \<Rightarrow> (Raised, ns, p', d'))))"
  by (simp add: load_last_seq_def a_bind_def a_get_def a_return_def a_raise_def
      split: outcome.split option.split pyval.split prod.split)

lemma stored_tip_code [code]:
  "stored_tip B env (p, d) =
     (case ad_tip d of
        None \<Rightarrow> state_tip B env (p, d)
      | Some t \<Rightarrow>
          (case split_ws (py_strip (read_text t)) of
             [tip, sig] \<Rightarrow>
               if \<not> (is_ascii sig \<and> is_ascii (tip_signature env tip)) then state_tip B env (p, d)
               else if sig = tip_signature env tip then (Returned (PStr tip), [], p, d)
               else (Returned (PStr ''INVALID-TIP-SIDECAR''), [SidecarForged], p, d)
           | _ \<Rightarrow> state_tip B env (p, d)))"
  by (auto simp: stored_tip_def a_bind_def a_get_def a_return_def a_note_def
      split: option.split list.split)

lemma write_anchor_code [code]:
  "write_anchor B env prev_tip (p, d) =
     (let e = anchor_entry env prev_tip; line = log_line (ae_fl env) e;
          p' = p\<lparr>ap_chain := entry_hash e\<rparr>
      in case ae_anchor_write env of
           Some n \<Rightarrow> (Raised, [], p', d\<lparr>ad_log := Some (take n line)\<rparr>)
         | None \<Rightarrow> record_tip B env (hash_text e) (p', d\<lparr>ad_log := Some line\<rparr>))"
  by (simp add: write_anchor_def a_bind_def set_chain_def set_log_def a_raise_def Let_def
      split: option.split prod.split)

lemma maybe_rotate_code [code]:
  "maybe_rotate B env (p, d) =
     (case ad_log d of
        None \<Rightarrow> (Returned (), [], p, d)
      | Some s \<Rightarrow>
          if int (length s) < audit_log_max_bytes env then (Returned (), [], p, d)
          else (case last_entry env (p, d) of
                  (Raised, ns, c) \<Rightarrow> (Raised, ns, c)
                | (Returned e, ns, p', d') \<Rightarrow>
                    (case e of
                       Some (Some v) \<Rightarrow>
                         (case v of
                            PDict e \<Rightarrow> rotate_from B env (py_get ''hash'' PNone e) (p', d')
                          | _ \<Rightarrow> (Raised, [], p', d'))
                     | _ \<Rightarrow> rotate_from B env PNone (p', d'))))"
  by (auto simp: maybe_rotate_def a_bind_def a_get_def a_return_def a_raise_def last_entry_code Let_def
      split: outcome.split option.split pyval.split prod.split)

lemma rotate_from_code [code]:
  "rotate_from B env t (p, d) =
     (if ae_renamable env then write_anchor B env t (p, d\<lparr>ad_rotated := ad_log d, ad_log := None\<rparr>)
      else (Returned (), [RotateFailed], p, d))"
  by (simp add: rotate_from_def a_bind_def move_log_def a_note_def split: prod.split)

lemma report_verdict_code [code]:
  "report_verdict env stored v (p, d) =
     (if \<not> verdict_ok v then (Returned (), [ChainFailed v], p, d)
      else (case load_chain_hash env (p, d) of
              (Raised, ns, c) \<Rightarrow> (Raised, ChainVerified v # ns, c)
            | (Returned _, ns, p', d') \<Rightarrow>
                (Returned (),
                 ChainVerified v # ns @
                   (if truthy stored \<and> truthy (ap_chain p') \<and> ap_chain p' \<noteq> stored
                    then [TipMismatch stored (ap_chain p')] else []), p', d')))"
  by (simp add: report_verdict_def a_bind_def a_get_def a_return_def a_note_def
      split: outcome.split prod.split)

lemma verify_chain_on_startup_code [code]:
  "verify_chain_on_startup B env (p, d) =
     (if ap_started p then (Returned (), [], p, d)
      else (case stored_tip B env (p\<lparr>ap_started := True\<rparr>, d) of
              (Raised, ns, c) \<Rightarrow> (Raised, ns, c)
            | (Returned stored, ns, p', d') \<Rightarrow>
                if ad_log d = None \<or> ad_log d = Some [] then
                  (case write_anchor B env PNone (p', d') of
                     (Raised, ms, c) \<Rightarrow> (Raised, ns @ (if truthy stored then [LogMissing] else []) @ ms, c)
                   | (Returned _, ms, c) \<Rightarrow>
                       (Returned (), ns @ (if truthy stored then [LogMissing] else []) @ ms @ [FreshLog], c))
                else
                  (case verify_chain (ae_sha env) (ae_fl env) (ad_log d) of
                     Raised \<Rightarrow> (Raised, ns, p', d')
                   | Returned v \<Rightarrow>
                       (case report_verdict env stored v (p', d') of (r, ms, c) \<Rightarrow> (r, ns @ ms, c)))))"
  by (simp add: verify_chain_on_startup_def a_bind_def a_get_def a_return_def a_note_def a_raise_def
      set_started_def split: outcome.split prod.split)

lemma persist_entry_code [code]:
  "persist_entry B env e line (p, d) =
     (case ae_write env of
        None \<Rightarrow>
          (case record_tip B env (hash_text e)
                  (p\<lparr>ap_chain := entry_hash e\<rparr>, d\<lparr>ad_log := append_text (ad_log d) line\<rparr>) of
             (Raised, ns, c) \<Rightarrow> (Raised, ns, c)
           | (Returned _, ns, c) \<Rightarrow> (Returned True, ns, c))
      | Some n \<Rightarrow>
          (case alert_audit_write_failure env (p, d\<lparr>ad_log := append_text (ad_log d) (take n line)\<rparr>) of
             (Raised, ns, c) \<Rightarrow> (Raised, ns, c)
           | (Returned _, ns, c) \<Rightarrow> (if ae_strict env then Raised else Returned False, ns, c)))"
  by (simp add: persist_entry_def a_bind_def append_log_def set_chain_def a_return_def a_raise_def
      split: outcome.split option.split prod.split)

lemma write_mirror_code [code]:
  "write_mirror env line (p, d) =
     (case ae_mirror_write env of
        None \<Rightarrow> (Returned (), [], p, d)
      | Some None \<Rightarrow> (Returned (), [], p, d\<lparr>ad_mirror := append_text (ad_mirror d) line\<rparr>)
      | Some (Some n) \<Rightarrow>
          alert_audit_write_failure env (p, d\<lparr>ad_mirror := append_text (ad_mirror d) (take n line)\<rparr>))"
  by (simp add: write_mirror_def a_bind_def append_mirror_def a_return_def split: option.split prod.split)

lemma write_entry_code [code]:
  "write_entry B env a (p, d) =
     (case load_chain_hash env (p, d) of
        (Raised, ns, c) \<Rightarrow> (Raised, ns, c)
      | (Returned _, ns1, p1, d1) \<Rightarrow>
          (case load_last_seq env (p1, d1) of
             (Raised, ns, c) \<Rightarrow> (Raised, ns1 @ ns, c)
           | (Returned n, ns2, p2, d2) \<Rightarrow>
               (let e = new_entry env a (n + 1) (ap_chain p2); line = log_line (ae_fl env) e
                in case persist_entry B env e line (p2, d2) of
                     (Raised, ns, c) \<Rightarrow> (Raised, ns1 @ ns2 @ ns, c)
                   | (Returned ok, ns3, p3, d3) \<Rightarrow>
                       (case write_mirror env line (p3, d3) of
                          (Raised, ns, c) \<Rightarrow> (Raised, ns1 @ ns2 @ ns3 @ ns, c)
                        | (Returned _, ns4, c) \<Rightarrow>
                            (Returned e, ns1 @ ns2 @ ns3 @ ns4 @ (if ok then [Exported line] else []), c)))))"
  by (simp add: write_entry_def a_bind_def a_get_def a_return_def a_note_def Let_def
      split: outcome.split prod.split)

lemma audit_log_code [code]:
  "audit_log B env a (p, d) =
     (case verify_chain_on_startup B env (p, d) of
        (Raised, ns, c) \<Rightarrow> (Raised, ns, c)
      | (Returned _, ns1, c1) \<Rightarrow>
          (case maybe_rotate B env c1 of
             (Raised, ns, c) \<Rightarrow> (Raised, ns1 @ ns, c)
           | (Returned _, ns2, c2) \<Rightarrow>
               (case write_entry B env a c2 of (r, ns3, c3) \<Rightarrow> (r, ns1 @ ns2 @ ns3, c3))))"
  by (simp add: audit_log_steps a_bind_def split: outcome.split prod.split)

end
