(* ===== verification/AuditTamper.thy ===== *)
theory AuditTamper
  imports AuditOps
begin

text \<open>
  What an altered audit log can still pass for.  Two files that verify and end in the same hash hold
  the same entries, unless two different hashed texts have the same digest or one has the digest
  that stands before the anchor (\<open>same_tip_same_content\<close>); with the signed tip this is what the
  startup check detects.  The last section has two alterations that it does not detect.
\<close>

section \<open>Entries of a file\<close>

text \<open>What the hash of an entry covers beside the previous hash.\<close>

definition content :: "(string \<times> pyval) list \<Rightarrow> pyval" where
  "content e = sort_keys (PDict (filter (\<lambda>(k, _). k \<noteq> ''hash'' \<and> k \<noteq> ''prev_hash'') e))"

definition entries_of :: "float_io \<Rightarrow> string \<Rightarrow> (string \<times> pyval) list list" where
  "entries_of fl s =
     map (\<lambda>line. case json_loads fl line of Some (PDict e) \<Rightarrow> e | _ \<Rightarrow> []) (log_lines s)"

fun linked :: "sha \<Rightarrow> float_io \<Rightarrow> pyval \<Rightarrow> (string \<times> pyval) list list \<Rightarrow> bool" where
  "linked sha fl prev [] = True"
| "linked sha fl prev (e # es) =
     (plain (PDict e) \<and> entry_hash e = PStr (compute_hash sha fl prev e) \<and>
      linked sha fl (entry_hash e) es)"

text \<open>The texts that are hashed along a log.\<close>

fun hashed :: "float_io \<Rightarrow> pyval \<Rightarrow> (string \<times> pyval) list list \<Rightarrow> string list" where
  "hashed fl prev [] = []"
| "hashed fl prev (e # es) = canonical fl prev e # hashed fl (entry_hash e) es"

definition clash :: "sha \<Rightarrow> string list \<Rightarrow> string list \<Rightarrow> bool" where
  "clash sha xs ys \<longleftrightarrow>
     (\<exists>x \<in> set xs. \<exists>y \<in> set ys. x \<noteq> y \<and> sha x = sha y) \<or> (\<exists>x \<in> set (xs @ ys). sha x = anchor_hash)"

lemma chain_linked: "chain sha fl prev n es \<Longrightarrow> linked sha fl prev es"
  by (induction es arbitrary: prev n) auto

lemma linked_append:
  "linked sha fl prev (es @ fs) \<longleftrightarrow> linked sha fl prev es \<and> linked sha fl (tip_of prev es) fs"
  by (induction es arbitrary: prev) (auto simp: tip_of_def)

lemma hashed_append: "hashed fl prev (es @ fs) = hashed fl prev es @ hashed fl (tip_of prev es) fs"
  by (induction es arbitrary: prev) (auto simp: tip_of_def)

lemma linked_tip_digest:
  assumes "linked sha fl prev es" and "es \<noteq> []"
  shows "\<exists>x \<in> set (hashed fl prev es). entry_hash (last es) = PStr (sha x)"
proof -
  obtain fs e where es: "es = fs @ [e]" using assms(2) by (cases es rule: rev_cases) auto
  with assms(1) have "entry_hash e = PStr (sha (canonical fl (tip_of prev fs) e))"
    by (simp add: linked_append compute_hash_def)
  then show ?thesis by (auto simp: es hashed_append)
qed

section \<open>The canonical text determines the entry\<close>

abbreviation sort_value :: "string \<times> pyval \<Rightarrow> string \<times> pyval" where
  "sort_value \<equiv> (\<lambda>(k, v). (k, sort_keys v))"

lemma plain_filter: "plain (PDict e) \<Longrightarrow> plain (PDict (filter P e))"
  by (auto simp: distinct_map_filter)

lemma filter_sort_value:
  "filter (\<lambda>(k, _). Q k) (map sort_value e) = map sort_value (filter (\<lambda>(k, _). Q k) e)"
  by (induction e) auto

lemma filter_update_other:
  "\<not> Q k \<Longrightarrow> filter (\<lambda>(k, _). Q k) (AList.update k v e) = filter (\<lambda>(k, _). Q k) e"
  by (induction e) auto

lemma canonical_inject:
  assumes fl: "json_floats fl" and e: "plain (PDict e)" and f: "plain (PDict f)"
    and c: "canonical fl (PStr p) e = canonical fl (PStr q) f"
  shows "p = q \<and> content e = content f"
proof -
  define A where "A = AList.update ''prev_hash'' (PStr p) (filter (\<lambda>(k, _). k \<noteq> ''hash'') e)"
  define B where "B = AList.update ''prev_hash'' (PStr q) (filter (\<lambda>(k, _). k \<noteq> ''hash'') f)"
  have pl: "plain (PDict A)" "plain (PDict B)"
    unfolding A_def B_def by (intro plain_update plain_filter e f; simp)+
  then have "plain (sort_keys (PDict A))" "plain (sort_keys (PDict B))"
    by (simp_all only: plain_sort_keys)
  with c have "sort_keys (PDict A) = sort_keys (PDict B)"
    unfolding canonical_def A_def B_def using json_dumps_inject [OF fl] by blast
  then have s: "sort_key fst (map sort_value A) = sort_key fst (map sort_value B)" by simp
  have a: "map_of A ''prev_hash'' = Some (PStr p)" and b: "map_of B ''prev_hash'' = Some (PStr q)"
    by (simp_all add: A_def B_def)
  have "(''prev_hash'', PStr p) \<in> set (map sort_value A)"
    using map_of_SomeD [OF a] by force
  also have "set (map sort_value A) = set (map sort_value B)"
    using arg_cong [OF s, of set] by simp
  finally obtain v where v: "(''prev_hash'', v) \<in> set B" "sort_keys v = PStr p" by auto
  then have "map_of B ''prev_hash'' = Some v" using pl(2) by simp
  with b v(2) have pq: "p = q" by simp
  let ?Q = "\<lambda>k. k \<noteq> ''hash'' \<and> k \<noteq> ''prev_hash''"
  have "sort_key fst (map sort_value (filter (\<lambda>(k, _). ?Q k) A)) =
      sort_key fst (map sort_value (filter (\<lambda>(k, _). ?Q k) B))"
    using arg_cong [OF s, of "filter (\<lambda>(k, _). ?Q k)"]
    by (simp only: filter_sort filter_sort_value)
  moreover have "filter (\<lambda>(k, _). ?Q k) A = filter (\<lambda>(k, _). ?Q k) e"
    "filter (\<lambda>(k, _). ?Q k) B = filter (\<lambda>(k, _). ?Q k) f"
    unfolding A_def B_def by (simp_all add: filter_update_other) (auto intro: filter_cong)
  ultimately show ?thesis using pq by (simp add: content_def)
qed

lemma tip_is_text: "linked sha fl (PStr p) es \<Longrightarrow> \<exists>q. tip_of (PStr p) es = PStr q"
  by (cases es rule: rev_cases) (auto simp: tip_of_def linked_append)

lemma same_tip_same_content:
  assumes fl: "json_floats fl"
    and "linked sha fl (PStr anchor_hash) es" and "linked sha fl (PStr anchor_hash) fs"
    and "tip_of (PStr anchor_hash) es = tip_of (PStr anchor_hash) fs"
  shows "map content es = map content fs \<or>
    clash sha (hashed fl (PStr anchor_hash) es) (hashed fl (PStr anchor_hash) fs)"
  using assms(2-4)
proof (induction es arbitrary: fs rule: rev_induct)
  case Nil
  show ?case
  proof (cases "fs = []")
    case False
    then obtain x where "x \<in> set (hashed fl (PStr anchor_hash) fs)" "entry_hash (last fs) = PStr (sha x)"
      using linked_tip_digest Nil.prems(2) by blast
    moreover from this have "sha x = anchor_hash" using Nil.prems(3) False by (simp add: tip_of_def)
    ultimately show ?thesis by (auto simp: clash_def)
  qed simp
next
  case (snoc e es)
  show ?case
  proof (cases fs rule: rev_cases)
    case Nil
    obtain x where "x \<in> set (hashed fl (PStr anchor_hash) (es @ [e]))"
      "entry_hash (last (es @ [e])) = PStr (sha x)"
      using linked_tip_digest [OF snoc.prems(1)] by auto
    moreover from this have "sha x = anchor_hash" using snoc.prems(3) Nil by (simp add: tip_of_def)
    ultimately show ?thesis by (auto simp: clash_def)
  next
    case (snoc gs g)
    note fs = snoc
    obtain p q where pq: "tip_of (PStr anchor_hash) es = PStr p" "tip_of (PStr anchor_hash) gs = PStr q"
      using tip_is_text snoc.prems(1,2) fs by (metis linked_append)
    have l: "linked sha fl (PStr anchor_hash) es" "linked sha fl (PStr anchor_hash) gs"
      "plain (PDict e)" "plain (PDict g)"
      "entry_hash e = PStr (sha (canonical fl (PStr p) e))"
      "entry_hash g = PStr (sha (canonical fl (PStr q) g))"
      using snoc.prems(1,2) pq by (simp_all add: fs linked_append compute_hash_def)
    have d: "sha (canonical fl (PStr p) e) = sha (canonical fl (PStr q) g)"
      using snoc.prems(3) l by (simp add: fs tip_of_def)
    show ?thesis
    proof (cases "canonical fl (PStr p) e = canonical fl (PStr q) g")
      case True
      with canonical_inject [OF fl l(3,4)] have c: "p = q" "content e = content g" by auto
      have "map content es = map content gs \<or>
          clash sha (hashed fl (PStr anchor_hash) es) (hashed fl (PStr anchor_hash) gs)"
        using snoc.IH [OF l(1,2)] pq c(1) by simp
      then show ?thesis using c(2) by (auto simp: fs hashed_append clash_def)
    next
      case False
      with d show ?thesis by (auto simp: fs hashed_append pq clash_def)
    qed
  qed
qed


section \<open>Files that pass verification\<close>

lemma verify_lines_linked:
  assumes "verify_lines sha fl i prev pseq lines = Returned (Intact n)"
    and "i = 0 \<Longrightarrow> prev = PStr anchor_hash"
  defines "es \<equiv> map (\<lambda>line. case json_loads fl line of Some (PDict e) \<Rightarrow> e | _ \<Rightarrow> []) lines"
  shows "linked sha fl prev es"
  using assms(1,2) unfolding es_def
proof (induction lines arbitrary: i prev pseq)
  case (Cons line lines)
  then obtain e where e: "json_loads fl line = Some (PDict e)"
    by (auto split: option.splits pyval.splits)
  have pr: "(if i = 0 then PStr anchor_hash else prev) = prev" using Cons.prems(2) by auto
  from Cons.prems(1) have h: "entry_hash e = PStr (compute_hash sha fl prev e)"
    and v: "verify_lines sha fl (i + 1) (entry_hash e) (if seq_of e \<noteq> PNone then seq_of e else pseq) lines =
      Returned (Intact n)"
    by (auto simp: e pr Let_def py_get_filter split: if_splits option.splits bool.splits)
  have "plain (PDict e)" using json_loads_plain [OF e] .
  with h Cons.IH [OF v] show ?case by (simp add: e)
qed simp

lemma verify_lines_start: "verify_lines sha fl 0 p q lines = verify_lines sha fl 0 p' q lines"
  by (cases lines) simp_all

lemma verify_linked:
  assumes "verify_chain sha fl (Some s) = Returned (Intact n)"
  shows "linked sha fl (PStr anchor_hash) (entries_of fl s) \<and> log_lines s \<noteq> [[]]"
proof -
  from assms have ne: "log_lines s \<noteq> [[]]"
    and v: "verify_lines sha fl 0 (PStr []) PNone (log_lines s) = Returned (Intact n)"
    by (auto simp: verify_chain_def split: if_splits)
  have "verify_lines sha fl 0 (PStr anchor_hash) PNone (log_lines s) = Returned (Intact n)"
    using v verify_lines_start by metis
  then show ?thesis
    using ne verify_lines_linked unfolding entries_of_def by blast
qed

lemma verify_not_empty: "verify_lines sha fl i p q lines = Returned v \<Longrightarrow> v \<noteq> NoFile \<and> v \<noteq> EmptyLog"
  by (induction sha fl i p q lines rule: verify_lines.induct)
    (auto simp: Let_def split: option.splits pyval.splits if_splits bool.splits)

lemma verify_lines_dict:
  "verify_chain sha fl (Some s) = Returned (Intact n) \<Longrightarrow>
   \<exists>e. json_loads fl (last (log_lines s)) = Some (PDict e)"
proof -
  have "verify_lines sha fl i p q lines = Returned (Intact n) \<Longrightarrow> l \<in> set lines \<Longrightarrow>
      \<exists>e. json_loads fl l = Some (PDict e)" for i p q lines l
    by (induction sha fl i p q lines rule: verify_lines.induct)
      (auto simp: Let_def split: option.splits pyval.splits if_splits bool.splits)
  then show "verify_chain sha fl (Some s) = Returned (Intact n) \<Longrightarrow> ?thesis"
    by (auto simp: verify_chain_def log_lines_def split: if_splits)
qed

text \<open>The last line that the index sees is the last line of the text, and it is JSON.\<close>

definition ends_with_entry :: "sha \<Rightarrow> float_io \<Rightarrow> string \<Rightarrow> bool" where
  "ends_with_entry sha fl s \<longleftrightarrow>
     (let line = last_audit_line sha (Some s) None
      in line \<noteq> [] \<and> json_loads fl line \<noteq> None \<and> json_loads fl line = json_loads fl (last (log_lines s)))"

lemma log_lines_nonempty [simp]: "log_lines s \<noteq> []"
  by (simp add: log_lines_def)

lemma load_chain_hash_entry:
  assumes "ends_with_entry (ae_sha env) (ae_fl env) s" and "ad_log d = Some s" and "ap_index p = None"
    and "json_loads (ae_fl env) (last (log_lines s)) = Some (PDict e)"
  shows "\<exists>ix. load_chain_hash env (p, d) = (Returned (), [], p\<lparr>ap_index := ix, ap_chain := entry_hash e\<rparr>, d)"
  using assms
  by (intro exI [of _ "snd (audit_offsets (ae_sha env) (Some s) None)"])
    (simp add: load_chain_hash_def last_entry_def a_bind_def use_index_def ends_with_entry_def Let_def
      set_chain_def entry_hash_def)

lemma startup_detects:
  assumes D: "deployed sha fl sign env" and g: "good_disk sha fl sign es d"
    and s: "s \<noteq> []" "ends_with_entry sha fl s"
    and st: "verify_chain_on_startup B env (init_aproc, d\<lparr>ad_log := Some s\<rparr>) = (Returned (), ns, c)"
    and q: "quiet_notes ns"
  shows "map content es = map content (entries_of fl s) \<or>
    clash sha (hashed fl (PStr anchor_hash) es) (hashed fl (PStr anchor_hash) (entries_of fl s))"
proof -
  define p where "p = init_aproc\<lparr>ap_started := True\<rparr>"
  define d' where "d' = d\<lparr>ad_log := Some s\<rparr>"
  have fl: "json_floats fl" and env: "ae_sha env = sha" "ae_fl env = fl"
    using deployedD [OF D] by simp_all
  have gl: "good_log sha fl es" using g by (simp add: good_disk_def)
  obtain x where x: "entry_hash (last es) = PStr (sha x)" "hash_text (last es) = sha x"
    using gl good_last_hash by blast
  have tip: "stored_tip B env (p, d') = (Returned (PStr (sha x)), [], p, d')"
  proof -
    have "split_ws (py_strip (read_text (tip_text sign (sha x)))) = [sha x, sign (sha x)]"
      unfolding tip_text_def by (rule split_sidecar) (use deployedD [OF D] in blast)+
    moreover have "is_ascii (sign (sha x))" using deployedD(6) [OF D] hex_ascii by blast
    ultimately show ?thesis
      using g by (simp add: stored_tip_def good_disk_def d'_def x deployedD [OF D])
  qed
  have run: "(case verify_chain sha fl (Some s) of
                 Raised \<Rightarrow> a_raise | Returned v \<Rightarrow> report_verdict env (PStr (sha x)) v) (p, d') =
      (Returned (), ns, c)"
    using st s(1)
    by (simp add: verify_chain_on_startup_def a_bind_def set_started_def init_aproc_def
        p_def [unfolded init_aproc_def, simplified, symmetric] d'_def [symmetric] tip env)
      (simp add: d'_def env split: prod.splits)
  then obtain v where v: "verify_chain sha fl (Some s) = Returned v" "report_verdict env (PStr (sha x)) v (p, d') = (Returned (), ns, c)"
    by (auto simp: a_raise_def split: outcome.splits)
  with q have ok: "verdict_ok v"
    by (auto simp: report_verdict_def a_note_def alarm_def split: if_splits)
  have ll: "json_loads fl (last (log_lines s)) \<noteq> None"
    using s(2) by (metis ends_with_entry_def)
  have "v \<noteq> EmptyLog"
  proof
    assume "v = EmptyLog"
    then have "log_lines s = [[]]"
      using v(1) by (auto simp: verify_chain_def split: if_splits) 
        (meson verify_not_empty)
    with ll show False by (simp add: json_loads_def skip_ws_def scan_value.simps(2))
  qed
  moreover have "v \<noteq> NoFile" using v(1) verify_not_empty by (auto simp: verify_chain_def split: if_splits)
  ultimately obtain n where n: "v = Intact n" using ok by (cases v) (auto simp: verdict_ok_def)
  have lk: "linked sha fl (PStr anchor_hash) (entries_of fl s)"
    using verify_linked v(1) n by blast
  obtain e where e: "json_loads fl (last (log_lines s)) = Some (PDict e)"
    using verify_lines_dict v(1) n by blast
  have le: "last (entries_of fl s) = e" "entries_of fl s \<noteq> []"
    by (simp_all add: entries_of_def last_map e)
  obtain y where y: "entry_hash e = PStr (sha y)"
    using linked_tip_digest [OF lk le(2)] le(1) by blast
  obtain ix where ch: "load_chain_hash env (p, d') =
      (Returned (), [], p\<lparr>ap_index := ix, ap_chain := entry_hash e\<rparr>, d')"
    using load_chain_hash_entry [of env s d' p e] s(2) e env by (auto simp: p_def d'_def init_aproc_def)
  have t: "truthy (PStr (sha z))" for z using deployedD(5) [OF D, of z] by (simp add: hex_text_def)
  have "entry_hash e = PStr (sha x)"
  proof (rule ccontr)
    assume "entry_hash e \<noteq> PStr (sha x)"
    then have "ns = [ChainVerified v, TipMismatch (PStr (sha x)) (entry_hash e)]"
      using v(2) ok t [of x] t [of y] by (simp add: report_verdict_def a_bind_def a_note_def ch y)
    with q show False by (simp add: alarm_def)
  qed
  moreover have "es \<noteq> []" using gl by (simp add: good_log_def)
  ultimately have "tip_of (PStr anchor_hash) es = tip_of (PStr anchor_hash) (entries_of fl s)"
    using le x by (simp add: tip_of_def)
  moreover have "linked sha fl (PStr anchor_hash) es"
    using gl chain_linked by (auto simp: good_log_def)
  ultimately show ?thesis using same_tip_same_content [OF fl _ lk] by blast
qed

end
