(* ===== verification/AuditSystem.thy ===== *)
theory AuditSystem
  imports AuditTamper
begin

text \<open>
  Several processes that write, read and restart over the same audit log, and what the readers see.
  \<open>audit_run\<close> runs a list of events in the order the lock admits them; \<open>audit_run_ok\<close> is the invariant
  of every such run, \<open>get_audit_entries_good\<close> what a read returns.
\<close>

section \<open>Runs\<close>

datatype audit_call =
    AWrite aenv audit_args
  | AQuery aenv entry_filter int
  | ARestart

type_synonym 's asystem = "aproc list \<times> 's adisk"

definition audit_step :: "'s backend \<Rightarrow> nat \<times> audit_call \<Rightarrow> 's asystem \<Rightarrow> anote list \<times> 's asystem" where
  "audit_step B ev sys =
     (let (pid, ac) = ev; (ps, d) = sys
      in if length ps \<le> pid then ([], ps, d)
         else (case ac of
                 AWrite env a \<Rightarrow>
                   (case audit_event B env a (ps ! pid, d) of (_, ns, q, d') \<Rightarrow> (ns, ps[pid := q], d'))
               | AQuery env ef limit \<Rightarrow>
                   (case get_audit_entries env ef limit (ps ! pid, d) of
                      (_, ns, q, d') \<Rightarrow> (ns, ps[pid := q], d'))
               | ARestart \<Rightarrow> ([], ps[pid := init_aproc], d)))"

fun audit_run :: "'s backend \<Rightarrow> (nat \<times> audit_call) list \<Rightarrow> 's asystem \<Rightarrow> anote list \<times> 's asystem" where
  "audit_run B [] sys = ([], sys)"
| "audit_run B (ev # evs) sys =
     (let (ns, sys') = audit_step B ev sys; (ms, sys'') = audit_run B evs sys' in (ns @ ms, sys''))"

text \<open>
  An anchor is fresh when no process has cached the digest of its line for another file: two files
  of the same log path do not begin with the same line.
\<close>

definition anchor_fresh :: "nat \<times> audit_call \<Rightarrow> 's asystem \<Rightarrow> bool" where
  "anchor_fresh ev sys =
     (case snd ev of
        AWrite env a \<Rightarrow>
          (let s = (case ad_log (snd sys) of
                      None \<Rightarrow> log_line (ae_fl env) (anchor_entry env PNone) | Some s \<Rightarrow> s);
               first = ae_sha env (log_line (ae_fl env) (next_anchor env s))
           in first \<noteq> ae_sha env (first_line s) \<and>
              list_all (\<lambda>p. case ap_index p of None \<Rightarrow> True | Some e \<Rightarrow> ix_first e \<noteq> first) (fst sys))
      | _ \<Rightarrow> True)"

fun anchors_fresh :: "'s backend \<Rightarrow> (nat \<times> audit_call) list \<Rightarrow> 's asystem \<Rightarrow> bool" where
  "anchors_fresh B [] sys = True"
| "anchors_fresh B (ev # evs) sys =
     (anchor_fresh ev sys \<and> anchors_fresh B evs (snd (audit_step B ev sys)))"

definition call_ok :: "sha \<Rightarrow> float_io \<Rightarrow> (string \<Rightarrow> string) \<Rightarrow> audit_call \<Rightarrow> bool" where
  "call_ok sha fl sign ac =
     (case ac of
        AWrite env a \<Rightarrow> deployed sha fl sign env \<and> clean_env env \<and> clean_args a
      | AQuery env ef limit \<Rightarrow> deployed sha fl sign env
      | ARestart \<Rightarrow> True)"

definition empty_disk :: "'s \<Rightarrow> 's adisk" where
  "empty_disk st = \<lparr>ad_log = None, ad_rotated = None, ad_tip = None, ad_mirror = None, ad_state = st\<rparr>"

text \<open>Nothing written yet, or a good log that every cached index fits.\<close>

definition sys_ok :: "sha \<Rightarrow> float_io \<Rightarrow> (string \<Rightarrow> string) \<Rightarrow> 's asystem \<Rightarrow> bool" where
  "sys_ok sha fl sign sys \<longleftrightarrow>
     (ad_log (snd sys) = None \<and> ad_tip (snd sys) = None \<and>
      (\<forall>p \<in> set (fst sys). \<not> ap_started p \<and> ap_index p = None)) \<or>
     (\<exists>es. good_disk sha fl sign es (snd sys) \<and>
           (\<forall>p \<in> set (fst sys). index_fits sha (log_text fl es) (ap_index p)))"

lemma good_log_newline: "good_log sha fl es \<Longrightarrow> newline \<in> set (log_text fl es)"
  by (cases es) (simp_all add: good_log_def log_line_def)

lemma index_fits_next:
  assumes fl: "json_floats fl" and g: "good_log sha fl es" "good_log sha fl es'"
    and n: "(\<exists>fs. es' = es @ fs) \<or> hd es' = a"
    and ix: "index_fits sha (log_text fl es) ix"
    and F: "case ix of None \<Rightarrow> True | Some e \<Rightarrow> ix_first e \<noteq> sha (log_line fl a)"
  shows "index_fits sha (log_text fl es') ix"
  using n
proof
  assume "\<exists>fs. es' = es @ fs"
  then show ?thesis using index_fits_append [OF ix good_log_newline [OF g(1)]] by auto
next
  assume h: "hd es' = a"
  have "es' \<noteq> []" using g(2) by (simp add: good_log_def)
  then have "first_line (log_text fl es') = log_line fl a"
    using h by (cases es') (simp_all add: first_line_log [OF fl])
  then show ?thesis using F by (intro index_unfit) auto
qed

lemma audit_event_effect:
  "audit_log B env a c = (r, ns, c') \<Longrightarrow> \<exists>x. audit_event B env a c = (x, ns, c')"
  by (cases r) (simp_all add: audit_event_def)

lemma write_step_ok:
  assumes D: "deployed sha fl sign env" and C: "clean_env env" and A: "clean_args a"
    and I: "sys_ok sha fl sign (ps, d)" and F: "anchor_fresh (pid, AWrite env a) (ps, d)"
    and pid: "pid < length ps"
  shows "\<exists>ns ps' d'. audit_step B (pid, AWrite env a) (ps, d) = (ns, ps', d') \<and> quiet_notes ns \<and>
    sys_ok sha fl sign (ps', d') \<and> (\<exists>es. good_disk sha fl sign es d')"
proof -
  have fl: "json_floats fl" and env: "ae_sha env = sha" "ae_fl env = fl"
    using deployedD [OF D] by simp_all
  define p where "p = ps ! pid"
  have p: "p \<in> set ps" using pid by (simp add: p_def)
  have step: "audit_step B (pid, AWrite env a) (ps, d) = (ns, ps[pid := q], d')"
    if "audit_log B env a (p, d) = (r, ns, q, d')" for r ns q d'
  proof -
    obtain x where "audit_event B env a (p, d) = (x, ns, q, d')"
      using audit_event_effect [OF \<open>audit_log B env a (p, d) = (r, ns, q, d')\<close>] by auto
    then show ?thesis using pid by (simp add: audit_step_def p_def)
  qed
  from I consider (fresh) "ad_log d = None" "ad_tip d = None" "\<forall>p \<in> set ps. \<not> ap_started p \<and> ap_index p = None"
    | (good) es where "good_disk sha fl sign es d" "\<forall>p \<in> set ps. index_fits sha (log_text fl es) (ap_index p)"
    unfolding sys_ok_def by auto
  then show ?thesis
  proof cases
    case fresh
    let ?a = "anchor_entry env PNone"
    have ga: "good_log sha fl [?a]" by (rule good_anchor) (simp_all add: env)
    have na: "next_anchor env (log_line fl ?a) = anchor_entry env (entry_hash ?a)"
      using next_anchor_good(1) [OF D ga] by simp
    have F0: "fresh_over sha fl env [?a]"
      using F by (simp add: anchor_fresh_def fresh(1) env na fresh_over_def Let_def)
    have pp: "\<not> ap_started p" "ap_index p = None" using fresh(3) p by simp_all
    obtain r ns q d' es' where rw: "audit_log B env a (p, d) = (r, ns, q, d')"
      "quiet_notes ns" "good_disk sha fl sign es' d'" "index_fits sha (log_text fl es') (ap_index q)"
      using audit_log_empty [OF D C A fresh(1,2) pp F0, of B] by (elim exE conjE) (rule that)
    have "\<forall>p \<in> set (ps[pid := q]). index_fits sha (log_text fl es') (ap_index p)"
      using fresh(3) rw(4) by (auto simp: index_fits_def dest!: set_update_subset_insert [THEN subsetD])
    then show ?thesis using step [OF rw(1)] rw(2,3) unfolding sys_ok_def by auto
  next
    case good
    have gl: "good_log sha fl es" and l: "ad_log d = Some (log_text fl es)"
      using good(1) by (simp_all add: good_disk_def)
    let ?a = "anchor_entry env (entry_hash (last es))"
    have F': "sha (log_line fl ?a) \<noteq> sha (first_line (log_text fl es))"
      "\<forall>p \<in> set ps. case ap_index p of None \<Rightarrow> True | Some e \<Rightarrow> ix_first e \<noteq> sha (log_line fl ?a)"
      using F by (simp_all add: anchor_fresh_def l env next_anchor_good(1) [OF D gl] Let_def list_all_iff cong: option.case_cong)
    then have F0: "fresh_over sha fl env es" by (simp add: fresh_over_def)
    have ip: "index_fits sha (log_text fl es) (ap_index p)" using good(2) p by blast
    obtain r ns q d' es' where rw: "audit_log B env a (p, d) = (r, ns, q, d')"
      "quiet_notes ns" "good_disk sha fl sign es' d'" "index_fits sha (log_text fl es') (ap_index q)"
      "(\<exists>fs. es' = es @ fs) \<or> hd es' = ?a"
      using audit_log_good [OF D C A good(1) ip F0, of B] by (elim exE conjE) (rule that)
    have gl': "good_log sha fl es'" using rw(3) by (simp add: good_disk_def)
    have "index_fits sha (log_text fl es') (ap_index p')" if "p' \<in> set (ps[pid := q])" for p'
    proof (cases "p' = q")
      case False
      with that have "p' \<in> set ps" using set_update_subset_insert by fastforce
      then show ?thesis
        using index_fits_next [OF fl gl gl' rw(5)] good(2) F'(2) by blast
    qed (simp add: rw(4))
    then show ?thesis using step [OF rw(1)] rw(2,3) unfolding sys_ok_def by auto
  qed
qed

lemma get_audit_entries_frame:
  "\<exists>r. get_audit_entries env ef limit (p, d) =
    (r, [], (case ad_log d of None \<Rightarrow> p
             | Some s \<Rightarrow> p\<lparr>ap_index := snd (audit_offsets (ae_sha env) (Some s) (ap_index p))\<rparr>), d)"
proof (cases "ad_log d")
  case (Some s)
  define found where "found =
    (let offsets = fst (audit_offsets (ae_sha env) (Some s) (ap_index p))
     in if offsets \<noteq> []
        then entries_indexed (ae_sha env) (ae_fl env) (Some s) (ap_index p) offsets ef limit
        else collect_entries (ae_fl env) ef limit [] (rev (log_lines s)))"
  have "get_audit_entries env ef limit (p, d) =
      a_bind (use_index env) (\<lambda>_. case found of Raised \<Rightarrow> a_raise | Returned es \<Rightarrow> a_return es) (p, d)"
    by (simp add: get_audit_entries_def Some found_def Let_def)
  then show ?thesis
    by (cases found) (simp_all add: a_bind_def use_index_def a_raise_def Some)
qed (simp add: get_audit_entries_def)

lemma query_step_ok:
  assumes D: "deployed sha fl sign env" and I: "sys_ok sha fl sign (ps, d)" and pid: "pid < length ps"
  shows "\<exists>ps'. audit_step B (pid, AQuery env ef limit) (ps, d) = ([], ps', d) \<and> sys_ok sha fl sign (ps', d)"
proof -
  define p where "p = ps ! pid"
  define q where "q = (case ad_log d of None \<Rightarrow> p
             | Some s \<Rightarrow> p\<lparr>ap_index := snd (audit_offsets sha (Some s) (ap_index p))\<rparr>)"
  have p: "p \<in> set ps" using pid by (simp add: p_def)
  obtain r where "get_audit_entries env ef limit (p, d) = (r, [], q, d)"
    using get_audit_entries_frame [of env ef limit p d] deployedD(2) [OF D] unfolding q_def by blast
  then have st: "audit_step B (pid, AQuery env ef limit) (ps, d) = ([], ps[pid := q], d)"
    using pid by (simp add: audit_step_def p_def)
  have sub: "p' = q \<or> p' \<in> set ps" if "p' \<in> set (ps[pid := q])" for p'
    using that set_update_subset_insert by fastforce
  from I consider (fresh) "ad_log d = None" "ad_tip d = None" "\<forall>p \<in> set ps. \<not> ap_started p \<and> ap_index p = None"
    | (good) es where "good_disk sha fl sign es d" "\<forall>p \<in> set ps. index_fits sha (log_text fl es) (ap_index p)"
    unfolding sys_ok_def by auto
  then have "sys_ok sha fl sign (ps[pid := q], d)"
  proof cases
    case fresh
    then have "q = p" by (simp add: q_def)
    with fresh p sub show ?thesis unfolding sys_ok_def by auto
  next
    case good
    then have "ad_log d = Some (log_text fl es)" "index_fits sha (log_text fl es) (ap_index p)"
      using p by (simp_all add: good_disk_def)
    then have "index_fits sha (log_text fl es) (ap_index q)"
      by (simp add: q_def audit_offsets_fit)
    with good(2) sub have "\<forall>p \<in> set (ps[pid := q]). index_fits sha (log_text fl es) (ap_index p)" by blast
    with good(1) show ?thesis unfolding sys_ok_def by auto
  qed
  with st show ?thesis by blast
qed

lemma restart_step_ok:
  assumes "sys_ok sha fl sign (ps, d)"
  shows "sys_ok sha fl sign (ps[pid := init_aproc], d)"
proof -
  have sub: "p' = init_aproc \<or> p' \<in> set ps" if "p' \<in> set (ps[pid := init_aproc])" for p'
    using that set_update_subset_insert by fastforce
  with assms show ?thesis
    unfolding sys_ok_def by (fastforce simp: init_aproc_def index_fits_def)
qed

lemma audit_step_ok:
  assumes "call_ok sha fl sign (snd ev)" and "sys_ok sha fl sign sys" and "anchor_fresh ev sys"
  shows "quiet_notes (fst (audit_step B ev sys)) \<and> sys_ok sha fl sign (snd (audit_step B ev sys))"
proof -
  obtain pid ac where ev: "ev = (pid, ac)" by (cases ev)
  obtain ps d where sys: "sys = (ps, d)" by (cases sys)
  show ?thesis
  proof (cases "pid < length ps")
    case True
    show ?thesis
    proof (cases ac)
      case (AWrite env a)
      with assms have "deployed sha fl sign env" "clean_env env" "clean_args a"
        "sys_ok sha fl sign (ps, d)" "anchor_fresh (pid, AWrite env a) (ps, d)"
        by (simp_all add: ev sys call_ok_def)
      from write_step_ok [OF this True, of B] show ?thesis by (auto simp: ev sys AWrite)
    next
      case (AQuery env ef limit)
      with assms have "deployed sha fl sign env" "sys_ok sha fl sign (ps, d)"
        by (simp_all add: ev sys call_ok_def)
      from query_step_ok [OF this True, of B ef limit] show ?thesis by (auto simp: ev sys AQuery)
    next
      case ARestart
      then show ?thesis
        using restart_step_ok [of sha fl sign ps d pid] assms(2) True by (simp add: ev sys audit_step_def)
    qed
  qed (use assms(2) in \<open>simp add: ev sys audit_step_def\<close>)
qed

lemma audit_run_ok:
  assumes "list_all (\<lambda>ev. call_ok sha fl sign (snd ev)) evs" and "sys_ok sha fl sign sys"
    and "anchors_fresh B evs sys"
  shows "quiet_notes (fst (audit_run B evs sys)) \<and> sys_ok sha fl sign (snd (audit_run B evs sys))"
  using assms
proof (induction evs arbitrary: sys)
  case (Cons ev evs)
  then have "quiet_notes (fst (audit_step B ev sys)) \<and> sys_ok sha fl sign (snd (audit_step B ev sys))"
    by (intro audit_step_ok) simp_all
  moreover have "quiet_notes (fst (audit_run B evs (snd (audit_step B ev sys)))) \<and>
      sys_ok sha fl sign (snd (audit_run B evs (snd (audit_step B ev sys))))"
    using Cons calculation by (intro Cons.IH) simp_all
  ultimately show ?case by (simp add: Let_def case_prod_beta)
qed simp

lemma sys_ok_start: "sys_ok sha fl sign (replicate n init_aproc, empty_disk st)"
  by (simp add: sys_ok_def empty_disk_def init_aproc_def)

lemma sys_ok_verifies:
  assumes "json_floats fl" and "sys_ok sha fl sign sys"
  shows "\<exists>v. verify_chain sha fl (ad_log (snd sys)) = Returned v \<and> verdict_ok v"
  using assms verify_good_log [OF assms(1)]
  by (auto simp: sys_ok_def good_disk_def verify_chain_def verdict_ok_def)

section \<open>What a read returns\<close>

definition matches :: "entry_filter \<Rightarrow> (string \<times> pyval) list \<Rightarrow> bool" where
  "matches ef e \<longleftrightarrow> entry_matches ef e = Some True"

lemma entry_matches_seq:
  "seq_of e = PInt n \<Longrightarrow>
   entry_matches ef e = Some (matches ef e) \<and>
   (matches ef e \<longleftrightarrow> (case ef_before ef of None \<Rightarrow> True | Some b \<Rightarrow> n < b) \<and>
     field_is ''event'' (ef_event ef) e \<and> field_is ''user'' (ef_user ef) e \<and>
     field_is ''result'' (ef_result ef) e)"
  by (auto simp: matches_def entry_matches_def py_get_def int_of_def split: option.splits)

lemma collect_good:
  assumes fl: "json_floats fl"
    and "\<forall>e \<in> set xs. plain (PDict e) \<and> (\<exists>n. seq_of e = PInt n)" and "int (length acc) < limit"
  shows "collect_entries fl ef limit acc (map (log_line fl) xs) =
    Returned (acc @ take (nat limit - length acc) (filter (matches ef) xs))"
  using assms(2,3)
proof (induction xs arbitrary: acc)
  case (Cons e xs)
  have ld: "json_loads fl (log_line fl e) = Some (PDict e)"
    unfolding log_line_def using Cons.prems(1) by (intro json_loads_dumps_newline [OF fl]) simp
  obtain n where "seq_of e = PInt n" using Cons.prems(1) by auto
  then have m: "entry_matches ef e = Some (matches ef e)" using entry_matches_seq by blast
  show ?case
  proof (cases "matches ef e")
    case True
    show ?thesis
    proof (cases "limit \<le> int (length (acc @ [e]))")
      case full: True
      with Cons.prems(2) have "nat limit - length acc = 1" by simp
      with full True show ?thesis by (simp add: ld m)
    next
      case False
      then have "collect_entries fl ef limit (acc @ [e]) (map (log_line fl) xs) =
          Returned ((acc @ [e]) @ take (nat limit - length (acc @ [e])) (filter (matches ef) xs))"
        using Cons by (intro Cons.IH) auto
      moreover have "nat limit - length acc = Suc (nat limit - length (acc @ [e]))"
        using False by simp
      ultimately show ?thesis using False True by (simp add: ld m)
    qed
  next
    case False
    with Cons show ?thesis by (simp add: ld m)
  qed
qed simp

lemma rev_window:
  assumes "0 \<le> lo" and "lo \<le> hi" and "hi \<le> int (length es)"
  shows "map (\<lambda>i. log_line fl (es ! nat i)) [max 0 lo .. min hi (int (length es)) - 1] =
    map (log_line fl) (drop (nat lo) (take (nat hi) es))"
proof (rule nth_equalityI)
  show "length (map (\<lambda>i. log_line fl (es ! nat i)) [max 0 lo .. min hi (int (length es)) - 1]) =
    length (map (log_line fl) (drop (nat lo) (take (nat hi) es)))"
    using assms by (simp add: nat_diff_distrib)
next
  fix i assume "i < length (map (\<lambda>i. log_line fl (es ! nat i)) [max 0 lo .. min hi (int (length es)) - 1])"
  then have i: "int i < hi - lo" using assms by simp
  then have "[max 0 lo .. min hi (int (length es)) - 1] ! i = lo + int i"
    using assms by (simp add: nth_upto)
  moreover have "nat (lo + int i) = nat lo + i" using assms by simp
  ultimately show "map (\<lambda>i. log_line fl (es ! nat i)) [max 0 lo .. min hi (int (length es)) - 1] ! i =
      map (log_line fl) (drop (nat lo) (take (nat hi) es)) ! i"
    using i assms by simp
qed

lemma windows_good:
  assumes fl: "json_floats fl" and ix: "index_fits sha (log_text fl es) ix"
    and es: "\<forall>e \<in> set es. plain (PDict e) \<and> (\<exists>n. seq_of e = PInt n)"
  shows "0 \<le> hi \<Longrightarrow> hi \<le> int (length es) \<Longrightarrow> int (length acc) \<le> limit \<Longrightarrow>
    entries_windows sha fl (Some (log_text fl es)) ix ef limit hi acc =
    Returned (acc @ take (nat limit - length acc) (filter (matches ef) (rev (take (nat hi) es))))"
proof (induction "nat hi" arbitrary: hi acc rule: less_induct)
  case less
  show ?case
  proof (cases "0 < hi \<and> int (length acc) < limit")
    case False
    then show ?thesis
      using less.prems by (subst entries_windows.simps) auto
  next
    case True
    define lo where "lo = max 0 (hi - max (limit * 2) 64)"
    have lo: "0 \<le> lo" "lo < hi" using True by (auto simp: lo_def)
    define W where "W = drop (nat lo) (take (nat hi) es)"
    have rl: "rev (read_lines sha (Some (log_text fl es)) ix lo hi) = map (log_line fl) (rev W)"
      unfolding read_lines_log [OF fl ix] W_def rev_map [symmetric]
      using rev_window [of lo hi es fl] lo less.prems(2) by simp
    have "set W \<subseteq> set es" by (auto simp: W_def dest: in_set_dropD in_set_takeD)
    then have "\<forall>e \<in> set (rev W). plain (PDict e) \<and> (\<exists>n. seq_of e = PInt n)" using es by auto
    from collect_good [OF fl this, of acc limit ef] True
    have ce: "collect_entries fl ef limit acc (map (log_line fl) (rev W)) =
        Returned (acc @ take (nat limit - length acc) (filter (matches ef) (rev W)))" (is "_ = Returned ?acc")
      by simp
    have tk: "rev (take (nat hi) es) = rev W @ rev (take (nat lo) es)"
    proof -
      have "take (nat hi) es = take (nat lo) (take (nat hi) es) @ W"
        unfolding W_def by (rule append_take_drop_id [symmetric])
      moreover have "take (nat lo) (take (nat hi) es) = take (nat lo) es"
        using lo by (simp add: min_def nat_le_eq_zle)
      ultimately show ?thesis by (metis rev_append)
    qed
    have "entries_windows sha fl (Some (log_text fl es)) ix ef limit hi acc =
        entries_windows sha fl (Some (log_text fl es)) ix ef limit lo ?acc"
      by (subst entries_windows.simps) (simp add: True Let_def lo_def [symmetric] rl ce)
    also have "\<dots> = Returned (?acc @ take (nat limit - length ?acc)
        (filter (matches ef) (rev (take (nat lo) es))))"
      using True lo less.prems by (intro less.hyps) auto
    also have "\<dots> = Returned (acc @ take (nat limit - length acc) (filter (matches ef) (rev (take (nat hi) es))))"
      by (simp add: tk min_def)
    finally show ?thesis .
  qed
qed

lemma get_audit_entries_good:
  assumes D: "deployed sha fl sign env" and g: "good_disk sha fl sign es d"
    and ix: "index_fits sha (log_text fl es) (ap_index p)" and "0 \<le> limit"
  shows "fst (get_audit_entries env ef limit (p, d)) =
    Returned (take (nat limit) (filter (matches ef) (rev es)))"
proof -
  have fl: "json_floats fl" and env: "ae_sha env = sha" "ae_fl env = fl"
    using deployedD [OF D] by simp_all
  have gl: "good_log sha fl es" and l: "ad_log d = Some (log_text fl es)"
    using g by (simp_all add: good_disk_def)
  then have ne: "es \<noteq> []" and ch: "chain sha fl (PStr anchor_hash) 0 es" by (simp_all add: good_log_def)
  have sq: "seq_of (es ! i) = PInt (int i)" if "i < length es" for i
    using chain_seq [OF ch that] by simp
  have ok: "\<forall>e \<in> set es. plain (PDict e) \<and> (\<exists>n. seq_of e = PInt n)"
    using chain_plain [OF ch] sq by (metis in_set_conv_nth)
  define offs where "offs = fst (audit_offsets sha (Some (log_text fl es)) (ap_index p))"
  have lo: "length offs = length es"
    by (simp add: offs_def audit_offsets_fit [OF ix] extend_offsets_log [OF fl])
  obtain start where st: "dense_seq_start sha fl (Some (log_text fl es)) (ap_index p) offs (ef_before ef) =
      Returned start" "- 1 \<le> start" "start < int (length es)"
    "filter (matches ef) (rev (take (nat (start + 1)) es)) = filter (matches ef) (rev es)"
  proof (cases "ef_before ef")
    case None
    then show ?thesis using that [of "int (length es) - 1"] ne by (simp add: dense_seq_start_def lo)
  next
    case (Some b)
    show ?thesis
    proof (cases "0 \<le> b \<and> b < int (length es)")
      case True
      have "[max 0 b .. min (b + 1) (int (length es)) - 1] = [b]"
        using True by (simp add: upto_single)
      then have rl: "read_lines sha (Some (log_text fl es)) (ap_index p) b (b + 1) = [log_line fl (es ! nat b)]"
        by (simp add: read_lines_log [OF fl ix])
      have nb: "nat b < length es" using True by (simp add: nat_less_iff)
      have "json_loads fl (log_line fl (es ! nat b)) = Some (PDict (es ! nat b))"
        unfolding log_line_def using bspec [OF ok nth_mem [OF nb]] by (intro json_loads_dumps_newline [OF fl]) blast
      moreover have "seq_of (es ! nat b) = PInt b" using sq [OF nb] True by simp
      ultimately have ds: "dense_seq_start sha fl (Some (log_text fl es)) (ap_index p) offs (ef_before ef) = Returned (b - 1)"
        using True by (simp add: dense_seq_start_def lo Some rl Let_def)
      have "filter (matches ef) (drop (nat b) es) = []"
      proof (rule filter_False, rule ballI)
        fix e assume "e \<in> set (drop (nat b) es)"
        then obtain j where j: "j < length es - nat b" "e = es ! (nat b + j)"
          by (auto simp: in_set_conv_nth)
        then have "seq_of e = PInt (int (nat b + j))" using sq by simp
        then show "\<not> matches ef e"
          using entry_matches_seq [of e _ ef] Some True by auto
      qed
      moreover have "rev es = rev (drop (nat b) es) @ rev (take (nat b) es)"
        by (metis append_take_drop_id rev_append)
      ultimately have "filter (matches ef) (rev es) = filter (matches ef) (rev (take (nat b) es))"
        by (simp add: rev_filter [symmetric])
      with ds True show ?thesis by (intro that [of "b - 1"]) simp_all
    next
      case False
      then have "dense_seq_start sha fl (Some (log_text fl es)) (ap_index p) offs (ef_before ef) =
          Returned (int (length es) - 1)"
        by (auto simp: dense_seq_start_def lo Some read_lines_log [OF fl ix] Let_def)
      then show ?thesis using that [of "int (length es) - 1"] ne by simp
    qed
  qed
  have "entries_indexed sha fl (Some (log_text fl es)) (ap_index p) offs ef limit =
      Returned (take (nat limit) (filter (matches ef) (rev es)))"
    using windows_good [OF fl ix ok, of "start + 1" "[]" limit ef] st assms(4)
    by (simp add: entries_indexed_def)
  moreover have "offs \<noteq> []" using lo ne by (metis length_0_conv)
  ultimately show ?thesis
    by (simp add: get_audit_entries_def l env offs_def [symmetric] Let_def a_bind_def use_index_def)
qed

end
