(* ===== verification/AuditProperties.thy ===== *)
theory AuditProperties
  imports AuditSystem
begin

text \<open>
  Properties of the audit log, each with a witness on a small deployment: a small checksum as the
  hash, decimal fractions \<open>p.q\<close> as floats, two processes over the SQLite backend, and a size limit
  that a few entries reach.  The last section shows, on the same deployment, faults and alterations
  that the code does not handle the way its comments say.
\<close>

section \<open>A sample deployment\<close>

text \<open>Eleven bits that are rotated by one place and get the next character added.\<close>

fun mix :: "bool list \<Rightarrow> char \<Rightarrow> bool list" where
  "mix [a0, a1, a2, a3, a4, a5, a6, a7, a8, a9, a10] (Char b0 b1 b2 b3 b4 b5 b6 b7) =
     [a10 \<noteq> b0, a0 \<noteq> b1, a1 \<noteq> b2, a2 \<noteq> b3, a3 \<noteq> b4, a4 \<noteq> b5, a5 \<noteq> b6, a6 \<noteq> b7, a7, a8, a9]"
| "mix bs c = bs"

definition toy_sha :: sha where
  "toy_sha s = CHR ''f'' #
     map (\<lambda>b. if b then CHR ''1'' else CHR ''0'') (foldl mix (replicate 11 False) s)"

definition toy_sign :: "string \<Rightarrow> string" where
  "toy_sign h = toy_sha (''key'' @ ''audit-tip:'' @ h)"

definition toy_env :: "nat \<Rightarrow> aenv" where
  "toy_env t =
     \<lparr>ae_now = of_nat t, ae_stamp = nat_str t, ae_fl = ratio_io, ae_sha = toy_sha,
      ae_mac = (\<lambda>k m. toy_sha (k @ m)), ae_secret = ''key'', ae_max_bytes = Some ''300'',
      ae_strict = False,
      ae_secrets = \<lparr>se_env = [(''VNC_PASSWORD'', ''hunter22'')], se_generated = (\<lambda>_. None), se_key_file = True\<rparr>,
      ae_names = [''VNC_PASSWORD''], ae_up = True, ae_tip_writable = True, ae_renamable = True,
      ae_anchor_write = None, ae_write = None, ae_mirror_write = None\<rparr>"

definition toy_args :: "string \<Rightarrow> audit_args" where
  "toy_args user =
     \<lparr>aa_event = ''login'', aa_user = user, aa_ip = ''10.0.0.1'', aa_result = ''success'',
      aa_detail = ''pw=hunter22'', aa_extra = []\<rparr>"

lemma hex_text_bits: "list_all (\<lambda>c. hex_val c \<noteq> None) (map (\<lambda>b. if b then CHR ''1'' else CHR ''0'') bs)"
  by (induction bs) (simp_all add: hex_val_def)

lemma hex_text_toy: "hex_text (toy_sha s)"
proof -
  have "hex_val (CHR ''f'') \<noteq> None" by (simp add: hex_val_def)
  with hex_text_bits show ?thesis by (simp only: hex_text_def toy_sha_def list.pred_inject) simp
qed

lemma toy_deployed: "deployed toy_sha ratio_io toy_sign (toy_env t)"
  by (simp add: deployed_def hex_digests_def toy_sign_def hex_text_toy toy_env_def
      json_floats_ratio_io tip_signature_def)

lemma deployed_faults [simp]:
  "deployed sha fl sign (env\<lparr>ae_write := w\<rparr>) = deployed sha fl sign env"
  by (simp add: deployed_def tip_signature_def)

lemma toy_deployed_faults:
  "deployed toy_sha ratio_io toy_sign ((toy_env t)\<lparr>ae_write := w\<rparr>)"
  by (simp add: toy_deployed)

text \<open>
  Two processes write and one restarts; at the second write the log rotates and the entry itself
  does not reach the disk; then the second process reads.
\<close>

definition toy_calls :: "(nat \<times> audit_call) list" where
  "toy_calls =
     [(0, AWrite (toy_env 1) (toy_args ''ann'')),
      (0, ARestart),
      (1, AWrite ((toy_env 2)\<lparr>ae_write := Some 0\<rparr>) (toy_args ''eve'')),
      (0, AQuery (toy_env 3) \<lparr>ef_event = None, ef_before = None, ef_user = None, ef_result = None\<rparr> 5)]"

definition toy_start :: "rows asystem" where
  "toy_start = (replicate 2 init_aproc, empty_disk [])"

lemma toy_calls_ok: "list_all (\<lambda>ev. call_ok toy_sha ratio_io toy_sign (snd ev)) toy_calls"
  by (simp add: toy_calls_def call_ok_def toy_deployed)
    (simp add: clean_env_def toy_env_def clean_args_def toy_args_def)

lemma toy_fresh: "anchors_fresh sqlite_backend toy_calls toy_start"
  by code_simp

definition toy_end :: "rows asystem" where
  "toy_end = snd (audit_run sqlite_backend toy_calls toy_start)"

section \<open>The chain verifies after every run\<close>

lemma entries_of_log_text:
  assumes "json_floats fl" and "good_log sha fl es"
  shows "entries_of fl (log_text fl es) = es"
proof -
  have "es \<noteq> []" and ch: "chain sha fl (PStr anchor_hash) 0 es" using assms(2) by (simp_all add: good_log_def)
  then show ?thesis
    using json_loads_dumps [OF assms(1)] chain_plain [OF ch]
    by (simp add: entries_of_def log_lines_text [OF assms(1)] map_idI)
qed

lemma run_disk:
  assumes "list_all (\<lambda>ev. call_ok sha fl sign (snd ev)) evs"
    and "anchors_fresh B evs (replicate n init_aproc, empty_disk st)"
    and "audit_run B evs (replicate n init_aproc, empty_disk st) = (ms, ps, d)" and "ad_log d = Some t"
  obtains es where "good_disk sha fl sign es d" "t = log_text fl es"
    "\<forall>p \<in> set ps. index_fits sha t (ap_index p)"
proof -
  have "sys_ok sha fl sign (ps, d)"
    using audit_run_ok [OF assms(1) sys_ok_start assms(2)] assms(3) by simp
  with assms(4) that show thesis by (auto simp: sys_ok_def good_disk_def)
qed



section \<open>An altered log is reported\<close>


text \<open>The log of one call, and the same entries written with spaces.\<close>

definition one_entries :: "(string \<times> pyval) list list" where
  "one_entries =
     (let a = anchor_entry (toy_env 1) PNone
      in [a, new_entry (toy_env 1) (toy_args ''ann'') 1 (entry_hash a)])"

definition one_text :: string where
  "one_text = log_text ratio_io one_entries"

definition one_disk :: "rows adisk" where
  "one_disk =
     (let h = hash_text (last one_entries)
      in \<lparr>ad_log = Some one_text, ad_rotated = None, ad_tip = Some (tip_text toy_sign h),
          ad_mirror = None, ad_state = [((tip_ns, ''tip''), (PStr h, Some 31536001))]\<rparr>)"

abbreviation one_call :: "(nat \<times> audit_call) list" where
  "one_call \<equiv> [(0, AWrite ((toy_env 1)\<lparr>ae_max_bytes := None\<rparr>) (toy_args ''ann''))]"

lemma one_run: "snd (snd (audit_run sqlite_backend one_call toy_start)) = one_disk"
  by code_simp

lemma one_call_ok: "list_all (\<lambda>ev. call_ok toy_sha ratio_io toy_sign (snd ev)) one_call"
proof -
  have "deployed toy_sha ratio_io toy_sign ((toy_env 1)\<lparr>ae_max_bytes := None\<rparr>)"
    using toy_deployed [of 1] by (simp add: deployed_def tip_signature_def)
  then show ?thesis
    by (simp add: call_ok_def) (simp add: clean_env_def toy_env_def clean_args_def toy_args_def)
qed

lemma one_call_fresh: "anchors_fresh sqlite_backend one_call toy_start"
proof -
  have "anchor_fresh (0, AWrite ((toy_env 1)\<lparr>ae_max_bytes := None\<rparr>) (toy_args ''ann'')) toy_start"
    by code_simp
  then show ?thesis by simp
qed

lemma one_run_tuple:
  "audit_run sqlite_backend one_call (replicate 2 init_aproc, empty_disk []) =
    (fst (audit_run sqlite_backend one_call toy_start),
     fst (snd (audit_run sqlite_backend one_call toy_start)), one_disk)"
  by (simp only: one_run [symmetric] toy_start_def prod.collapse)

lemma one_log: "ad_log one_disk = Some one_text"
  by (simp add: one_disk_def Let_def)

lemma one_good: "good_disk toy_sha ratio_io toy_sign one_entries one_disk"
proof -
  let ?a = "anchor_entry (toy_env 1) PNone"
  have a: "good_log toy_sha ratio_io [?a]" by (rule good_anchor) (simp_all add: toy_env_def)
  have e: "one_entries = [?a] @ [new_entry (toy_env 1) (toy_args ''ann'') (int (length [?a])) (entry_hash (last [?a]))]"
    by (simp add: one_entries_def Let_def)
  have "good_log toy_sha ratio_io one_entries"
    unfolding e by (rule good_log_append [OF a]) (simp_all add: clean_args_def toy_args_def toy_env_def)
  then show ?thesis by (simp add: good_disk_def one_disk_def one_text_def Let_def)
qed

definition spaced_text :: string where
  "spaced_text = concat (map (\<lambda>e. json_dumps ratio_io Spaced (PDict e) @ [newline]) one_entries)"


section \<open>Reading\<close>

text \<open>C12: A read of at most \<open>limit\<close> entries after any such run, through whatever index the
  reading process has cached, returns the first \<open>limit\<close> of the entries in the file that pass the
  filters, newest first; the index, the windows and the cursor shortcut change nothing.\<close>

theorem entries_read_newest_first:
  assumes "list_all (\<lambda>ev. call_ok sha fl sign (snd ev)) evs"
    and "anchors_fresh B evs (replicate n init_aproc, empty_disk st)"
    and "audit_run B evs (replicate n init_aproc, empty_disk st) = (ms, ps, d)"
    and "deployed sha fl sign env" and "pid < length ps" and "0 \<le> limit"
  shows "fst (get_audit_entries env ef limit (ps ! pid, d)) =
    Returned (take (nat limit)
      (filter (matches ef) (rev (case ad_log d of None \<Rightarrow> [] | Some t \<Rightarrow> entries_of fl t))))"
proof (cases "ad_log d")
  case None
  then show ?thesis by (simp add: get_audit_entries_def)
next
  case (Some t)
  obtain es where es: "good_disk sha fl sign es d" "t = log_text fl es"
    "\<forall>p \<in> set ps. index_fits sha t (ap_index p)"
    using run_disk [OF assms(1-3) Some] by blast
  then have "index_fits sha (log_text fl es) (ap_index (ps ! pid))" using assms(5) by simp
  moreover have "entries_of fl t = es"
    using entries_of_log_text deployedD(1) [OF assms(4)] es by (auto simp: good_disk_def)
  ultimately show ?thesis
    using get_audit_entries_good [OF assms(4) es(1) _ assms(6)] Some by simp
qed

definition system_only :: entry_filter where
  "system_only = \<lparr>ef_event = None, ef_before = None, ef_user = Some ''system'', ef_result = None\<rparr>"

theorem entries_read_newest_first_witness:
  "fst (get_audit_entries (toy_env 9) system_only 5
      (fst (snd (audit_run sqlite_backend toy_calls toy_start)) ! 0,
       snd (snd (audit_run sqlite_backend toy_calls toy_start)))) =
    Returned (take (nat 5)
      (filter (matches system_only)
        (rev (case ad_log (snd (snd (audit_run sqlite_backend toy_calls toy_start))) of
                None \<Rightarrow> [] | Some t \<Rightarrow> entries_of ratio_io t))))"
proof (rule entries_read_newest_first [OF toy_calls_ok toy_fresh [unfolded toy_start_def]])
  show "audit_run sqlite_backend toy_calls (replicate 2 init_aproc, empty_disk []) =
      (fst (audit_run sqlite_backend toy_calls toy_start),
       fst (snd (audit_run sqlite_backend toy_calls toy_start)),
       snd (snd (audit_run sqlite_backend toy_calls toy_start)))"
    by (simp only: toy_start_def prod.collapse)
  show "deployed toy_sha ratio_io toy_sign (toy_env 9)" by (rule toy_deployed)
  show "0 < length (fst (snd (audit_run sqlite_backend toy_calls toy_start)))" by code_simp
qed simp

section \<open>Rotation\<close>

text \<open>When a rotation can rename the file, the old log is kept unchanged next to a new one
  that consists of one anchor; the anchor carries the last hash of the old log, and its own hash
  covers it.\<close>

theorem rotation_links_logs:
  assumes "deployed sha fl sign env" and "clean_env env" and "good_disk sha fl sign es d"
    and "index_fits sha (log_text fl es) (ap_index p)"
    and "audit_log_max_bytes env \<le> int (length (log_text fl es))" and "ae_renamable env"
    and "maybe_rotate B env (p, d) = (r, ns, q, d')"
  shows "r = Returned () \<and> ad_rotated d' = ad_log d \<and>
    (\<exists>a. ad_log d' = Some (log_line fl a) \<and> py_get ''prev_tip'' PNone a = entry_hash (last es) \<and>
         entry_hash a = PStr (compute_hash sha fl (PStr anchor_hash) a) \<and> ap_chain q = entry_hash a)"
proof -
  let ?t = "entry_hash (last es)" and ?q = "seen sha fl es p"
  let ?a = "anchor_entry env ?t" and ?d = "d\<lparr>ad_rotated := ad_log d, ad_log := None\<rparr>"
  have gl: "good_log sha fl es" and l: "ad_log d = Some (log_text fl es)"
    using assms(3) by (simp_all add: good_disk_def)
  obtain x where x: "?t = PStr (sha x)" using gl good_last_hash by blast
  have tr: "truthy ?t" using deployedD(5) [OF assms(1), of x] by (simp add: x hex_text_def)
  obtain e' where w: "write_anchor B env ?t (?q, ?d) = (Returned (), [], ?q\<lparr>ap_chain := entry_hash ?a\<rparr>, e')"
    "good_disk sha fl sign [?a] e'" "ad_rotated e' = ad_log d"
    using write_anchor_good [OF assms(1,2) truthy_hash [OF assms(1) gl], of B ?q ?d] by auto
  have "maybe_rotate B env (p, d) = (Returned (), [], ?q\<lparr>ap_chain := entry_hash ?a\<rparr>, e')"
    using assms(5,6) w(1)
    by (simp add: maybe_rotate_def l a_bind_def last_entry_good [OF assms(1) gl l assms(4)]
        rotate_from_def next_anchor_good(2) [OF assms(1) gl] move_log_def)
  moreover have "py_get ''prev_tip'' PNone ?a = ?t" using tr by (simp add: anchor_entry_def py_get_def Let_def)
  ultimately show ?thesis
    using assms(7) w(2,3) by (auto simp: good_disk_def good_log_def)
qed

theorem rotation_links_logs_witness:
  "fst (maybe_rotate sqlite_backend (toy_env 2) (init_aproc, one_disk)) = Returned () \<and>
   ad_rotated (snd (snd (snd (maybe_rotate sqlite_backend (toy_env 2) (init_aproc, one_disk))))) = ad_log one_disk"
proof -
  note g = one_good
  have m: "audit_log_max_bytes (toy_env 2) \<le> int (length (log_text ratio_io one_entries))"
    by code_simp
  have c: "clean_env (toy_env 2)" "ae_renamable (toy_env 2)" by (simp_all add: clean_env_def toy_env_def)
  have ix: "index_fits toy_sha (log_text ratio_io one_entries) (ap_index init_aproc)"
    by (simp add: init_aproc_def index_fits_def)
  have "maybe_rotate sqlite_backend (toy_env 2) (init_aproc, one_disk) =
      (fst (maybe_rotate sqlite_backend (toy_env 2) (init_aproc, one_disk)),
       fst (snd (maybe_rotate sqlite_backend (toy_env 2) (init_aproc, one_disk))),
       fst (snd (snd (maybe_rotate sqlite_backend (toy_env 2) (init_aproc, one_disk)))),
       snd (snd (snd (maybe_rotate sqlite_backend (toy_env 2) (init_aproc, one_disk)))))"
    by simp
  from rotation_links_logs [OF toy_deployed c(1) g ix m c(2) this] show ?thesis by blast
qed

section \<open>What the checks miss\<close>

text \<open>
  Deleting the last entry is the truncation that the tip is there for.  A blank line after the
  shortened log hides it: verification strips the text, but the tip is compared with the last line
  of the file, which is then no entry.
\<close>

definition cut_text :: string where
  "cut_text = concat (map (log_line ratio_io) (butlast one_entries))"

definition startup_notes :: "rows adisk \<Rightarrow> anote list" where
  "startup_notes d = fst (snd (verify_chain_on_startup sqlite_backend (toy_env 9) (init_aproc, d)))"

lemma truncation_reported:
  "list_all (\<lambda>n. case n of TipMismatch _ _ \<Rightarrow> False | _ \<Rightarrow> True)
     (startup_notes (one_disk\<lparr>ad_log := Some cut_text\<rparr>)) = False"
  by code_simp

lemma blank_line_hides_truncation:
  "startup_notes (one_disk\<lparr>ad_log := Some (cut_text @ [newline])\<rparr>) = [ChainVerified (Intact 1)]"
  by code_simp

text \<open>An entry appended without its newline is verified as part of the chain and is not compared.\<close>

definition forged_entry :: "(string \<times> pyval) list" where
  "forged_entry = new_entry (toy_env 4) (toy_args ''mallory'') 2 (entry_hash (last one_entries))"

lemma unterminated_entry_unreported:
  "startup_notes (one_disk\<lparr>ad_log := Some (one_text @ json_dumps ratio_io Compact (PDict forged_entry))\<rparr>) =
    [ChainVerified (Intact 3)]"
  by code_simp

text \<open>
  The sidecar is signed so that rewriting the log and the shared state is not enough; but a sidecar
  that is no pair of words is ignored, and the shared state is believed.
\<close>

definition cut_disk :: "rows adisk" where
  "cut_disk = one_disk\<lparr>ad_log := Some cut_text, ad_tip := Some ''x'',
     ad_state := [((tip_ns, ''tip''), (entry_hash (last (butlast one_entries)), None))]\<rparr>"

lemma broken_sidecar_hides_truncation: "startup_notes cut_disk = [ChainVerified (Intact 1)]"
  by code_simp

text \<open>A sidecar that could not be written keeps its old tip and outranks the shared state: a false alarm.\<close>

lemma stale_sidecar_alarms:
  "list_ex alarm
     (startup_notes
       (snd (snd (snd (audit_log sqlite_backend ((toy_env 2)\<lparr>ae_tip_writable := False, ae_max_bytes := None\<rparr>)
          (toy_args ''bob'') (init_aproc, one_disk))))))"
  by code_simp

text \<open>
  A log whose anchor could not be written stays without one, and an entry that was cut off by a full
  disk makes the log unreadable from there on.
\<close>

definition log_verdict :: "rows adisk \<Rightarrow> verdict outcome" where
  "log_verdict d = verify_chain toy_sha ratio_io (ad_log d)"

lemma failed_anchor_never_repaired:
  "(case audit_log sqlite_backend ((toy_env 1)\<lparr>ae_anchor_write := Some 0\<rparr>) (toy_args ''ann'')
           (init_aproc, empty_disk []) of
      (r, _, c) \<Rightarrow> r = Raised \<and>
        (case audit_log sqlite_backend (toy_env 2) (toy_args ''bob'') c of
           (r', _, _, d) \<Rightarrow> r' \<noteq> Raised \<and> log_verdict d = Returned NoAnchor))"
  by code_simp

lemma cut_entry_breaks_log:
  "(case audit_log sqlite_backend ((toy_env 2)\<lparr>ae_write := Some 20, ae_max_bytes := None\<rparr>)
           (toy_args ''bob'') (init_aproc, one_disk) of
      (r, _, _, d) \<Rightarrow> r \<noteq> Raised \<and> log_verdict d = Returned (BadJson 3))"
  by code_simp

text \<open>A field named \<open>prev_hash\<close> of an entry is not covered by its hash.\<close>

lemma prev_hash_field_uncovered:
  "compute_hash sha fl prev (AList.update ''prev_hash'' v e) =
   compute_hash sha fl prev (AList.update ''prev_hash'' w e)"
proof -
  have "AList.update ''prev_hash'' prev (filter (\<lambda>(k, _). k \<noteq> ''hash'') (AList.update ''prev_hash'' v e)) =
      AList.update ''prev_hash'' prev (filter (\<lambda>(k, _). k \<noteq> ''hash'') (AList.update ''prev_hash'' w e))"
    by (induction e) auto
  then show ?thesis by (simp add: compute_hash_def canonical_def)
qed

text \<open>Without an entry the last sequence number is -1.\<close>

lemma last_seq_none: "load_last_seq env (p, d\<lparr>ad_log := None\<rparr>) = (Returned (- 1), [], p, d\<lparr>ad_log := None\<rparr>)"
  by (simp add: load_last_seq_def)

end
