(* ===== verification/Capture.thy ===== *)
theory Capture
  imports PyData
begin

text \<open>
  The capture client of core/rfb_capture.py: the socket reader, the framebuffer, the PNG export, the
  client side of the RFB handshake and the pump of server messages, with the key schedule of
  vendor/d3des.py.  A socket is the list of chunks its \<open>recv\<close> hands out, in order; when none is left
  (or an empty one comes, which is how a closed connection reads) the reader raises.  DES and
  \<open>zlib.compress\<close> are arguments; the callbacks are an argument too, with a state of their own.
\<close>

section \<open>The socket\<close>

datatype capture_error =
    Closed
  | NotRfb bytes
  | Refused bytes
  | NoDes
  | NoUsableType "byte list"
  | AuthFailed
  | UnNegotiated int
  | UnknownMessage nat
  | HookRaised
  | WrongPixelCount
  | TooLong

text \<open>\<open>recv(k)\<close> returns at most \<open>k\<close> bytes of the chunk in front.\<close>

fun recvn_loop :: "nat \<Rightarrow> bytes \<Rightarrow> bytes list \<Rightarrow> (bytes \<times> bytes list) option" where
  "recvn_loop n out [] = (if length out < n then None else Some (out, []))"
| "recvn_loop n out (chunk # rest) =
     (if length out < n then
        let k = n - length out
        in if chunk = [] then None
           else if length chunk \<le> k then recvn_loop n (out @ chunk) rest
           else Some (out @ take k chunk, drop k chunk # rest)
      else Some (out, chunk # rest))"

definition recvn :: "nat \<Rightarrow> bytes list \<Rightarrow> (bytes \<times> bytes list) option" where
  "recvn n rx = recvn_loop n [] rx"

section \<open>VNC authentication\<close>

definition bit_reverse :: "byte \<Rightarrow> byte" where
  "bit_reverse b = fold (\<lambda>i result. push_bit 1 result OR (drop_bit i b AND 1)) [0..<8] 0"

definition deskey :: "bytes \<Rightarrow> bytes" where
  "deskey key = map bit_reverse key"

definition bytes_of :: "string \<Rightarrow> bytes" where
  "bytes_of s = map (\<lambda>c. word_of_nat (of_char c)) s"

definition text_of :: "bytes \<Rightarrow> string" where
  "text_of bs = map (\<lambda>b. char_of (unat b)) bs"

text \<open>\<open>s.ljust(8, b"\x00")\<close> of the first eight bytes.\<close>

definition des_pad :: "string \<Rightarrow> bytes" where
  "des_pad password =
     (let key = take 8 (bytes_of password) in key @ replicate (8 - length key) 0)"

text \<open>The block cipher takes the key and one block; \<open>None\<close> when pycryptodome is not installed.\<close>

type_synonym des = "(bytes \<Rightarrow> bytes \<Rightarrow> bytes) option"

definition vnc_auth_response :: "des \<Rightarrow> string \<Rightarrow> bytes \<Rightarrow> bytes option" where
  "vnc_auth_response des password challenge =
     (let key = deskey (des_pad password)
      in case des of
           None \<Rightarrow> None
         | Some cipher \<Rightarrow> Some (cipher key (take 8 challenge) @ cipher key (drop 8 challenge)))"

definition vnc_passwd_fixed_key :: bytes where
  "vnc_passwd_fixed_key = [0xE8, 0x4A, 0xD6, 0x60, 0xC4, 0x72, 0x1A, 0xE0]"

definition encrypt_vnc_password :: "des \<Rightarrow> string \<Rightarrow> bytes option" where
  "encrypt_vnc_password des password =
     (case des of None \<Rightarrow> None | Some cipher \<Rightarrow> Some (cipher vnc_passwd_fixed_key (des_pad password)))"

section \<open>The framebuffer\<close>

record fbuf =
  fb_w :: nat
  fb_h :: nat
  fb_px :: bytes

definition init_fbuf :: "nat \<Rightarrow> nat \<Rightarrow> fbuf" where
  "init_fbuf w h = \<lparr> fb_w = w, fb_h = h, fb_px = replicate (w * h * 4) 0 \<rparr>"

definition fb_resize :: "nat \<Rightarrow> nat \<Rightarrow> fbuf \<Rightarrow> fbuf" where
  "fb_resize w h fb = fb\<lparr>fb_w := w, fb_h := h, fb_px := replicate (w * h * 4) 0\<rparr>"

text \<open>\<open>px[a : a + n] = d\<close> on a bytearray: bounds are clamped, and the length changes when \<open>d\<close> does
  not have the length of what it replaces.\<close>

definition splice :: "nat \<Rightarrow> nat \<Rightarrow> 'a list \<Rightarrow> 'a list \<Rightarrow> 'a list" where
  "splice a n d px = take a px @ d @ drop (a + n) px"

definition row_at :: "fbuf \<Rightarrow> nat \<Rightarrow> nat \<Rightarrow> nat" where
  "row_at fb x y = (y * fb_w fb + x) * 4"

definition blit_row :: "fbuf \<Rightarrow> nat \<Rightarrow> nat \<Rightarrow> nat \<Rightarrow> bytes \<Rightarrow> nat \<Rightarrow> bytes \<Rightarrow> bytes" where
  "blit_row fb x y w dat i px =
     splice (row_at fb x (y + i)) (w * 4) (slice (i * (w * 4)) ((i + 1) * (w * 4)) dat) px"

definition blit :: "nat \<Rightarrow> nat \<Rightarrow> nat \<Rightarrow> nat \<Rightarrow> bytes \<Rightarrow> fbuf \<Rightarrow> fbuf" where
  "blit x y w h dat fb = fb\<lparr>fb_px := fold (blit_row fb x y w dat) [0..<h] (fb_px fb)\<rparr>"

text \<open>The reading loop that \<open>copy_rect\<close> and \<open>rect_pixels\<close> share.\<close>

definition rect_pixels :: "nat \<Rightarrow> nat \<Rightarrow> nat \<Rightarrow> nat \<Rightarrow> fbuf \<Rightarrow> bytes" where
  "rect_pixels x y w h fb =
     concat (map (\<lambda>i. slice (row_at fb x (y + i)) (row_at fb x (y + i) + w * 4) (fb_px fb)) [0..<h])"

definition copy_rect :: "nat \<Rightarrow> nat \<Rightarrow> nat \<Rightarrow> nat \<Rightarrow> nat \<Rightarrow> nat \<Rightarrow> fbuf \<Rightarrow> fbuf" where
  "copy_rect x y w h sx sy fb = blit x y w h (rect_pixels sx sy w h fb) fb"

section \<open>PNG export\<close>

definition crc_step :: "32 word \<Rightarrow> 32 word" where
  "crc_step c = (if bit c 0 then drop_bit 1 c XOR 0xEDB88320 else drop_bit 1 c)"

definition crc_byte :: "32 word \<Rightarrow> byte \<Rightarrow> 32 word" where
  "crc_byte c b = (crc_step ^^ 8) (c XOR ucast b)"

definition crc32 :: "bytes \<Rightarrow> 32 word" where
  "crc32 bs = NOT (foldl crc_byte (NOT 0) bs)"

definition png_chunk :: "bytes \<Rightarrow> bytes \<Rightarrow> bytes option" where
  "png_chunk tag dat =
     (if 2 ^ 32 \<le> length dat then None
      else Some (to_be 4 (length dat) @ tag @ dat @ to_be 4 (unat (crc32 (tag @ dat)))))"

text \<open>\<open>xs[k::4]\<close> and the assignment to \<open>rgba[k::4]\<close>, which needs exactly \<open>n\<close> values.\<close>

fun every4 :: "'a list \<Rightarrow> 'a list" where
  "every4 [] = []"
| "every4 (x # xs) = x # every4 (drop 3 xs)"

fun rgba_of :: "bytes \<Rightarrow> bytes \<Rightarrow> bytes \<Rightarrow> bytes" where
  "rgba_of (r # rs) (g # gs) (b # bs) = [r, g, b, 0xFF] @ rgba_of rs gs bs"
| "rgba_of _ _ _ = []"

definition swap_channels :: "nat \<Rightarrow> bytes \<Rightarrow> bytes option" where
  "swap_channels n px =
     (let r = every4 (drop 2 px); g = every4 (drop 1 px); b = every4 px
      in if length r = n \<and> length g = n \<and> length b = n then Some (rgba_of r g b) else None)"

definition scanlines :: "nat \<Rightarrow> nat \<Rightarrow> bytes \<Rightarrow> bytes" where
  "scanlines stride h rgba =
     fold (\<lambda>i raw. splice (i * (stride + 1) + 1) stride (slice (i * stride) ((i + 1) * stride) rgba) raw)
       [0..<h] (replicate ((stride + 1) * h) 0)"

definition png_magic :: bytes where
  "png_magic = [0x89, 0x50, 0x4E, 0x47, 0x0D, 0x0A, 0x1A, 0x0A]"

definition png_ihdr :: "fbuf \<Rightarrow> bytes" where
  "png_ihdr fb = to_be 4 (fb_w fb) @ to_be 4 (fb_h fb) @ [8, 6, 0, 0, 0]"

definition png_encode :: "(nat \<Rightarrow> bytes \<Rightarrow> bytes) \<Rightarrow> fbuf \<Rightarrow> capture_error + bytes" where
  "png_encode zlib fb =
     (case swap_channels (fb_w fb * fb_h fb) (fb_px fb) of
        None \<Rightarrow> Inl WrongPixelCount
      | Some rgba \<Rightarrow>
          (case (png_chunk (bytes_of ''IHDR'') (png_ihdr fb),
                 png_chunk (bytes_of ''IDAT'') (zlib 6 (scanlines (fb_w fb * 4) (fb_h fb) rgba)),
                 png_chunk (bytes_of ''IEND'') []) of
             (Some a, Some b, Some c) \<Rightarrow> Inr (png_magic @ a @ b @ c)
           | _ \<Rightarrow> Inl TooLong))"

section \<open>The connection\<close>

text \<open>The state of a connection whose handshake is over, with the state of the callbacks.\<close>

record 'r rconn =
  cn_rx :: "bytes list"
  cn_tx :: bytes
  cn_fb :: fbuf
  cn_name :: string
  cn_hook :: 'r

text \<open>\<open>on_rect\<close> and \<open>on_resize\<close>; a callback that raises returns \<open>False\<close>.\<close>

record 'r hooks =
  on_rect :: "nat \<Rightarrow> nat \<Rightarrow> nat \<Rightarrow> nat \<Rightarrow> bytes \<Rightarrow> 'r \<Rightarrow> bool \<times> 'r"
  on_resize :: "nat \<Rightarrow> nat \<Rightarrow> 'r \<Rightarrow> bool \<times> 'r"

definition no_hooks :: "'r hooks" where
  "no_hooks = \<lparr> on_rect = (\<lambda>_ _ _ _ _ r. (True, r)), on_resize = (\<lambda>_ _ r. (True, r)) \<rparr>"

definition rfb_banner :: bytes where
  "rfb_banner = bytes_of ''RFB 003.008'' @ [0x0A]"

definition client_encodings :: "int list" where
  "client_encodings = [0, 1, -223, -308]"

definition set_pixel_format :: bytes where
  "set_pixel_format =
     [0, 0, 0, 0, 32, 24, 0, 1] @ to_be 2 255 @ to_be 2 255 @ to_be 2 255 @ [16, 8, 0, 0, 0, 0]"

definition set_encodings :: bytes where
  "set_encodings =
     [2, 0] @ to_be 2 (length client_encodings) @ concat (map to_be_int32 client_encodings)"

definition request_update :: "bool \<Rightarrow> 'r rconn \<Rightarrow> 'r rconn" where
  "request_update incremental c =
     c\<lparr>cn_tx := cn_tx c @ [3, if incremental then 1 else 0] @ to_be 2 0 @ to_be 2 0 @
        to_be 2 (fb_w (cn_fb c)) @ to_be 2 (fb_h (cn_fb c))\<rparr>"

text \<open>The security type the client picks, what it sends for it, and the bytes left.\<close>

definition client_auth ::
    "des \<Rightarrow> string \<Rightarrow> byte list \<Rightarrow> bytes list \<Rightarrow> capture_error + (bytes \<times> bytes list)" where
  "client_auth des password sectypes rx =
     (if 2 \<in> set sectypes \<and> password \<noteq> [] then
        (case recvn 16 rx of
           None \<Rightarrow> Inl Closed
         | Some (challenge, rx) \<Rightarrow>
             (case vnc_auth_response des password challenge of
                None \<Rightarrow> Inl NoDes
              | Some response \<Rightarrow> Inr ([2] @ response, rx)))
      else if 1 \<in> set sectypes then Inr ([1], rx)
      else Inl (NoUsableType (remdups sectypes)))"

definition refusal :: "bytes list \<Rightarrow> capture_error" where
  "refusal rx =
     (case recvn 4 rx of
        None \<Rightarrow> Closed
      | Some (n, rx) \<Rightarrow>
          (case recvn (be_nat n) rx of None \<Rightarrow> Closed | Some (reason, _) \<Rightarrow> Refused reason))"

definition client_init ::
    "(bytes \<Rightarrow> string) \<Rightarrow> bytes \<Rightarrow> bytes list \<Rightarrow> 'r \<Rightarrow> capture_error + 'r rconn" where
  "client_init utf8 tx rx r =
     (case recvn 4 rx of
        None \<Rightarrow> Inl Closed
      | Some (result, rx) \<Rightarrow>
          if be_nat result \<noteq> 0 then Inl AuthFailed
          else (case recvn 24 rx of
             None \<Rightarrow> Inl Closed
           | Some (si, rx) \<Rightarrow>
               (case recvn (be_nat (slice 20 24 si)) rx of
                  None \<Rightarrow> Inl Closed
                | Some (name, rx) \<Rightarrow>
                    Inr \<lparr> cn_rx = rx, cn_tx = tx @ [1] @ set_pixel_format @ set_encodings,
                          cn_fb = init_fbuf (be_nat (slice 0 2 si)) (be_nat (slice 2 4 si)),
                          cn_name = utf8 name, cn_hook = r \<rparr>)))"

definition connect ::
    "des \<Rightarrow> (bytes \<Rightarrow> string) \<Rightarrow> string \<Rightarrow> bytes list \<Rightarrow> 'r \<Rightarrow> capture_error + 'r rconn" where
  "connect des utf8 password rx r =
     (case recvn 12 rx of
        None \<Rightarrow> Inl Closed
      | Some (banner, rx) \<Rightarrow>
          if take 4 banner \<noteq> bytes_of ''RFB '' then Inl (NotRfb banner)
          else (case recvn 1 rx of
             None \<Rightarrow> Inl Closed
           | Some (nsec, rx) \<Rightarrow>
               if nsec ! 0 = 0 then Inl (refusal rx)
               else (case recvn (unat (nsec ! 0)) rx of
                  None \<Rightarrow> Inl Closed
                | Some (sectypes, rx) \<Rightarrow>
                    (case client_auth des password sectypes rx of
                       Inl e \<Rightarrow> Inl e
                     | Inr (sent, rx) \<Rightarrow> client_init utf8 (rfb_banner @ sent) rx r))))"

section \<open>Server messages\<close>

type_synonym 'r pumped = "(capture_error + nat) \<times> 'r rconn"

definition run_on_rect ::
    "'r hooks \<Rightarrow> nat \<Rightarrow> nat \<Rightarrow> nat \<Rightarrow> nat \<Rightarrow> bytes \<Rightarrow> 'r rconn \<Rightarrow> 'r pumped" where
  "run_on_rect hk x y w h dat c =
     (case on_rect hk x y w h dat (cn_hook c) of
        (ok, r) \<Rightarrow> (if ok then Inr 1 else Inl HookRaised, c\<lparr>cn_hook := r\<rparr>))"

definition run_on_resize :: "'r hooks \<Rightarrow> nat \<Rightarrow> nat \<Rightarrow> 'r rconn \<Rightarrow> 'r pumped" where
  "run_on_resize hk w h c =
     (case on_resize hk w h (cn_hook c) of
        (ok, r) \<Rightarrow> (if ok then Inr 0 else Inl HookRaised, c\<lparr>cn_hook := r\<rparr>))"

text \<open>The screen list of ExtendedDesktopSize is skipped.\<close>

definition skip_screens :: "bytes list \<Rightarrow> bytes list option" where
  "skip_screens rx =
     (case recvn 4 rx of
        None \<Rightarrow> None
      | Some (n, rx) \<Rightarrow> map_option snd (recvn (16 * unat (n ! 0)) rx))"

definition pump_rect :: "'r hooks \<Rightarrow> 'r rconn \<Rightarrow> 'r pumped" where
  "pump_rect hk c =
     (case recvn 12 (cn_rx c) of
        None \<Rightarrow> (Inl Closed, c)
      | Some (hdr, rx) \<Rightarrow>
          (let c = c\<lparr>cn_rx := rx\<rparr>;
               x = be_nat (slice 0 2 hdr); y = be_nat (slice 2 4 hdr);
               w = be_nat (slice 4 6 hdr); h = be_nat (slice 6 8 hdr);
               enc = be_int32 (slice 8 12 hdr)
           in if enc = 0 then
                (case recvn (w * h * 4) rx of
                   None \<Rightarrow> (Inl Closed, c)
                 | Some (dat, rx) \<Rightarrow>
                     run_on_rect hk x y w h dat (c\<lparr>cn_rx := rx, cn_fb := blit x y w h dat (cn_fb c)\<rparr>))
              else if enc = 1 then
                (case recvn 4 rx of
                   None \<Rightarrow> (Inl Closed, c)
                 | Some (s, rx) \<Rightarrow>
                     (let fb = copy_rect x y w h (be_nat (slice 0 2 s)) (be_nat (slice 2 4 s)) (cn_fb c)
                      in run_on_rect hk x y w h (rect_pixels x y w h fb) (c\<lparr>cn_rx := rx, cn_fb := fb\<rparr>)))
              else if enc = -223 then
                run_on_resize hk w h (c\<lparr>cn_fb := fb_resize w h (cn_fb c)\<rparr>)
              else if enc = -308 then
                (case skip_screens rx of
                   None \<Rightarrow> (Inl Closed, c)
                 | Some rx \<Rightarrow>
                     run_on_resize hk w h (c\<lparr>cn_rx := rx, cn_fb := fb_resize w h (cn_fb c)\<rparr>))
              else (Inl (UnNegotiated enc), c)))"

fun pump_rects :: "'r hooks \<Rightarrow> nat \<Rightarrow> nat \<Rightarrow> 'r rconn \<Rightarrow> 'r pumped" where
  "pump_rects hk 0 applied c = (Inr applied, c)"
| "pump_rects hk (Suc n) applied c =
     (case pump_rect hk c of
        (Inl e, c) \<Rightarrow> (Inl e, c)
      | (Inr k, c) \<Rightarrow> pump_rects hk n (applied + k) c)"

text \<open>A message whose body is only skipped.\<close>

definition skipped :: "'r rconn \<Rightarrow> (bytes \<times> bytes list) option \<Rightarrow> 'r pumped" where
  "skipped c r = (case r of None \<Rightarrow> (Inl Closed, c) | Some (_, rx) \<Rightarrow> (Inr 0, c\<lparr>cn_rx := rx\<rparr>))"

definition pump :: "'r hooks \<Rightarrow> 'r rconn \<Rightarrow> 'r pumped" where
  "pump hk c =
     (case recvn 1 (cn_rx c) of
        None \<Rightarrow> (Inl Closed, c)
      | Some (m, rx) \<Rightarrow>
          (let mtype = unat (m ! 0)
           in if mtype = 0 then
                (case recvn 3 rx of
                   None \<Rightarrow> (Inl Closed, c)
                 | Some (n, rx) \<Rightarrow> pump_rects hk (be_nat (slice 1 3 n)) 0 (c\<lparr>cn_rx := rx\<rparr>))
              else if mtype = 1 then
                (case recvn 5 rx of
                   None \<Rightarrow> (Inl Closed, c)
                 | Some (hdr, rx) \<Rightarrow> skipped c (recvn (6 * be_nat (slice 3 5 hdr)) rx))
              else if mtype = 2 then (Inr 0, c\<lparr>cn_rx := rx\<rparr>)
              else if mtype = 3 then
                (case recvn 3 rx of
                   None \<Rightarrow> (Inl Closed, c)
                 | Some (_, rx) \<Rightarrow>
                     (case recvn 4 rx of
                        None \<Rightarrow> (Inl Closed, c)
                      | Some (n, rx) \<Rightarrow> skipped c (recvn (be_nat n) rx)))
              else (Inl (UnknownMessage mtype), c)))"

text \<open>\<open>while applied == 0: applied += pump()\<close>; \<open>None\<close> when the fuel runs out.\<close>

fun pump_frame :: "nat \<Rightarrow> 'r hooks \<Rightarrow> 'r rconn \<Rightarrow> 'r pumped option" where
  "pump_frame 0 hk c = None"
| "pump_frame (Suc n) hk c =
     (case pump hk c of
        (Inl e, c) \<Rightarrow> Some (Inl e, c)
      | (Inr k, c) \<Rightarrow> if k = 0 then pump_frame n hk c else Some (Inr k, c))"

definition capture_screenshot ::
    "nat \<Rightarrow> des \<Rightarrow> (bytes \<Rightarrow> string) \<Rightarrow> (nat \<Rightarrow> bytes \<Rightarrow> bytes) \<Rightarrow> string \<Rightarrow> bytes list \<Rightarrow>
     (capture_error + bytes) option" where
  "capture_screenshot fuel des utf8 zlib password rx =
     (case connect des utf8 password rx () of
        Inl e \<Rightarrow> Some (Inl e)
      | Inr c \<Rightarrow>
          (case pump_frame fuel no_hooks (request_update False c) of
             None \<Rightarrow> None
           | Some (Inl e, c) \<Rightarrow> Some (Inl e)
           | Some (Inr k, c) \<Rightarrow> Some (png_encode zlib (cn_fb c))))"

end
