(* ===== verification/CaptureScreen.thy ===== *)
theory CaptureScreen
  imports Capture
begin

text \<open>
  What the pump does with a conforming server: server messages as data with their wire encoding, the
  desktop as an abstract screen (a colour per position), and the lemmas that the framebuffer of
  Capture.thy displays the screen the messages describe, however the bytes are cut into chunks.
\<close>

section \<open>The reader depends on the bytes only\<close>

definition all_nonempty :: "'a list list \<Rightarrow> bool" where
  "all_nonempty rx \<longleftrightarrow> [] \<notin> set rx"

lemma recvn_loop_ok:
  assumes "all_nonempty rx" and "length out \<le> n" and "n \<le> length out + length (concat rx)"
  shows "\<exists>rx'. recvn_loop n out rx = Some (out @ take (n - length out) (concat rx), rx') \<and>
    concat rx' = drop (n - length out) (concat rx) \<and> all_nonempty rx'"
  using assms
proof (induction n out rx rule: recvn_loop.induct)
  case (2 n out chunk rest)
  show ?case
  proof (cases "length out < n \<and> length chunk \<le> n - length out")
    case True
    then show ?thesis using 2 by (auto simp: all_nonempty_def Let_def)
  next
    case False
    then show ?thesis using 2(2-) by (auto simp: all_nonempty_def Let_def)
  qed
qed (auto simp: all_nonempty_def)

lemma recvn_bytes:
  assumes "concat rx = d @ rest" and "all_nonempty rx"
  obtains rx' where "recvn (length d) rx = Some (d, rx')" "concat rx' = rest" "all_nonempty rx'"
  using recvn_loop_ok [of rx "[]" "length d"] assms by (auto simp: recvn_def)

lemma recvn_loop_Some:
  "recvn_loop n out rx = Some (d, rx') \<Longrightarrow> length out \<le> n \<Longrightarrow>
   length d = n \<and> out @ concat rx = d @ concat rx'"
  by (induction n out rx rule: recvn_loop.induct) (auto simp: Let_def split: if_splits)

lemma recvn_Some: "recvn n rx = Some (d, rx') \<Longrightarrow> length d = n \<and> concat rx = d @ concat rx'"
  using recvn_loop_Some [of n "[]"] by (auto simp: recvn_def)

lemma recvn_short: "length (concat rx) < n \<Longrightarrow> recvn n rx = None"
  using recvn_Some [of n rx] by (cases "recvn n rx") auto

section \<open>Bytes of a list cut in groups of four\<close>

lemma length_splice:
  "length d = n \<Longrightarrow> a + n \<le> length px \<Longrightarrow> length (splice a n d px) = length px"
  by (simp add: splice_def)

lemma slice_splice:
  assumes "length d = n" and "a + n \<le> length px" and "j \<le> a \<or> a + n \<le> i"
  shows "slice i j (splice a n d px) = slice i j px"
  using assms(3)
proof
  assume "j \<le> a"
  then show ?thesis using assms(2) by (simp add: splice_def slice_append_fits slice_take_fits)
next
  assume "a + n \<le> i"
  then show ?thesis
    using assms(1,2) by (simp add: splice_def slice_def add.commute [of _ "i - (a + n)"])
qed

lemma slice_splice_inside:
  assumes "length d = n" and "a + n \<le> length px" and "a \<le> i" and "j \<le> a + n"
  shows "slice i j (splice a n d px) = slice (i - a) (j - a) d"
  using assms by (simp add: splice_def slice_def)

lemma slice_slice:
  "j \<le> b - a \<Longrightarrow> slice i j (slice a b xs) = slice (a + i) (a + j) xs"
  by (auto simp: slice_def take_drop drop_drop min_def add.commute)

lemma slice_joins: "i \<le> j \<Longrightarrow> j \<le> k \<Longrightarrow> slice i j xs @ slice j k xs = slice i k xs"
proof -
  assume "i \<le> j" "j \<le> k"
  then have k: "k - i = (j - i) + (k - j)" "j = (j - i) + i" by simp_all
  then show ?thesis
    unfolding slice_def k(1) take_add by (metis drop_drop)
qed

lemma slice_blocks:
  "concat (map (\<lambda>j. slice (a + j * 4) (a + j * 4 + 4) xs) [0..<w]) = slice a (a + w * 4) xs"
proof (induction w)
  case (Suc w)
  then show ?case
    using slice_joins [of a "a + w * 4" "a + w * 4 + 4" xs] by (simp add: add.commute add.left_commute)
qed (simp add: slice_def)

section \<open>Screens\<close>

type_synonym colour = bytes

record screen =
  sc_w :: nat
  sc_h :: nat
  sc_at :: "nat \<Rightarrow> nat \<Rightarrow> colour"

definition black :: colour where
  "black = [0, 0, 0, 0]"

definition paint :: "nat \<Rightarrow> nat \<Rightarrow> nat \<Rightarrow> nat \<Rightarrow> (nat \<Rightarrow> nat \<Rightarrow> colour) \<Rightarrow> screen \<Rightarrow> screen" where
  "paint x y w h img s =
     s\<lparr>sc_at := (\<lambda>cx cy. if x \<le> cx \<and> cx < x + w \<and> y \<le> cy \<and> cy < y + h
                        then img (cx - x) (cy - y) else sc_at s cx cy)\<rparr>"

definition blank :: "nat \<Rightarrow> nat \<Rightarrow> screen" where
  "blank w h = \<lparr> sc_w = w, sc_h = h, sc_at = (\<lambda>_ _. black) \<rparr>"

text \<open>The colours of a region, row by row.\<close>

definition region :: "nat \<Rightarrow> nat \<Rightarrow> nat \<Rightarrow> nat \<Rightarrow> screen \<Rightarrow> bytes" where
  "region x y w h s = concat (map (\<lambda>i. concat (map (\<lambda>j. sc_at s (x + j) (y + i)) [0..<w])) [0..<h])"

definition raw_image :: "nat \<Rightarrow> bytes \<Rightarrow> nat \<Rightarrow> nat \<Rightarrow> colour" where
  "raw_image w d j i = slice ((i * w + j) * 4) ((i * w + j) * 4 + 4) d"

definition pixel :: "fbuf \<Rightarrow> nat \<Rightarrow> nat \<Rightarrow> colour" where
  "pixel fb cx cy = slice (row_at fb cx cy) (row_at fb cx cy + 4) (fb_px fb)"

definition displays :: "fbuf \<Rightarrow> screen \<Rightarrow> bool" where
  "displays fb s \<longleftrightarrow> fb_w fb = sc_w s \<and> fb_h fb = sc_h s \<and> length (fb_px fb) = fb_w fb * fb_h fb * 4 \<and>
     (\<forall>cx < sc_w s. \<forall>cy < sc_h s. pixel fb cx cy = sc_at s cx cy)"

lemma displaysD:
  assumes "displays fb s"
  shows "fb_w fb = sc_w s" "fb_h fb = sc_h s" "length (fb_px fb) = sc_w s * sc_h s * 4"
    "cx < sc_w s \<Longrightarrow> cy < sc_h s \<Longrightarrow> pixel fb cx cy = sc_at s cx cy"
  using assms by (auto simp: displays_def)

lemma row_end: "x + w \<le> fb_w fb \<Longrightarrow> y < fb_h fb \<Longrightarrow> row_at fb x y + w * 4 \<le> fb_w fb * fb_h fb * 4"
proof -
  assume "x + w \<le> fb_w fb" "y < fb_h fb"
  then have "y * fb_w fb + x + w \<le> Suc y * fb_w fb" by simp
  also have "\<dots> \<le> fb_h fb * fb_w fb" using \<open>y < fb_h fb\<close> by (intro mult_right_mono) simp_all
  finally show ?thesis by (simp add: row_at_def mult.commute)
qed

lemma row_order:
  assumes "cx < fb_w fb" and "x + w \<le> fb_w fb" and "cy \<noteq> y \<or> cx < x \<or> x + w \<le> cx"
  shows "row_at fb cx cy + 4 \<le> row_at fb x y \<or> row_at fb x y + w * 4 \<le> row_at fb cx cy"
proof -
  have "(cy * fb_w fb + cx) + 1 \<le> y * fb_w fb + x \<or> (y * fb_w fb + x) + w \<le> cy * fb_w fb + cx"
  proof (cases "cy = y")
    case False
    then consider "Suc cy \<le> y" | "Suc y \<le> cy" by linarith
    then show ?thesis
    proof cases
      case 1
      then have "Suc cy * fb_w fb \<le> y * fb_w fb" by (rule mult_le_mono1)
      then show ?thesis using assms(1) by simp
    next
      case 2
      then have "Suc y * fb_w fb \<le> cy * fb_w fb" by (rule mult_le_mono1)
      then show ?thesis using assms(2) by simp
    qed
  qed (use assms(3) in auto)
  then show ?thesis by (auto simp: row_at_def)
qed

section \<open>Drawing\<close>

lemma blit_row_length:
  assumes "x + w \<le> fb_w fb" and "y + i < fb_h fb" and "(i + 1) * (w * 4) \<le> length dat"
    and "length px = fb_w fb * fb_h fb * 4"
  shows "length (blit_row fb x y w dat i px) = length px"
  using row_end [OF assms(1,2)] assms(3,4) by (simp add: blit_row_def length_splice)

lemma blit_row_pixel:
  assumes "x + w \<le> fb_w fb" and "y + i < fb_h fb" and "(i + 1) * (w * 4) \<le> length dat"
    and "length px = fb_w fb * fb_h fb * 4" and "cx < fb_w fb"
  shows "slice (row_at fb cx cy) (row_at fb cx cy + 4) (blit_row fb x y w dat i px) =
    (if cy = y + i \<and> x \<le> cx \<and> cx < x + w then raw_image w dat (cx - x) i
     else slice (row_at fb cx cy) (row_at fb cx cy + 4) px)"
proof -
  let ?a = "row_at fb x (y + i)" and ?p = "row_at fb cx cy"
  let ?d = "slice (i * (w * 4)) ((i + 1) * (w * 4)) dat"
  have d: "length ?d = w * 4" using assms(3) by simp
  have a: "?a + w * 4 \<le> length px" using row_end [OF assms(1,2)] assms(4) by simp
  show ?thesis
  proof (cases "cy = y + i \<and> x \<le> cx \<and> cx < x + w")
    case True
    define k where "k = cx - x"
    have k: "cx = x + k" "k < w" using True by (auto simp: k_def)
    then have p: "?p = ?a + k * 4" using True by (simp add: row_at_def)
    have "slice ?p (?p + 4) (splice ?a (w * 4) ?d px) = slice (k * 4) (k * 4 + 4) ?d"
      using slice_splice_inside [OF d a, of ?p "?p + 4"] k(2) by (simp add: p)
    also have "\<dots> = slice (i * (w * 4) + k * 4) (i * (w * 4) + k * 4 + 4) dat"
      using k(2) by (subst slice_slice) (simp_all add: add.assoc)
    also have "\<dots> = raw_image w dat k i" by (simp add: raw_image_def mult.assoc)
    finally show ?thesis using True by (simp add: blit_row_def k_def)
  next
    case False
    then have "?p + 4 \<le> ?a \<or> ?a + w * 4 \<le> ?p"
      using row_order [OF assms(5,1), of cy "y + i"] by auto
    then have "slice ?p (?p + 4) (splice ?a (w * 4) ?d px) = slice ?p (?p + 4) px"
      by (rule slice_splice [OF d a])
    then show ?thesis using False by (auto simp: blit_row_def)
  qed
qed

lemma blit_rows:
  assumes "x + w \<le> fb_w fb" and "y + h \<le> fb_h fb" and "h * (w * 4) \<le> length dat"
    and "length px = fb_w fb * fb_h fb * 4" and "cx < fb_w fb"
  shows "length (fold (blit_row fb x y w dat) [0..<h] px) = length px \<and>
    slice (row_at fb cx cy) (row_at fb cx cy + 4) (fold (blit_row fb x y w dat) [0..<h] px) =
    (if x \<le> cx \<and> cx < x + w \<and> y \<le> cy \<and> cy < y + h then raw_image w dat (cx - x) (cy - y)
     else slice (row_at fb cx cy) (row_at fb cx cy + 4) px)"
  using assms(2,3)
proof (induction h)
  case (Suc h)
  let ?q = "fold (blit_row fb x y w dat) [0..<h] px"
  have IH: "length ?q = length px"
    "slice (row_at fb cx cy) (row_at fb cx cy + 4) ?q =
     (if x \<le> cx \<and> cx < x + w \<and> y \<le> cy \<and> cy < y + h then raw_image w dat (cx - x) (cy - y)
      else slice (row_at fb cx cy) (row_at fb cx cy + 4) px)"
    using Suc.IH Suc.prems by simp_all
  have r: "y + h < fb_h fb" "(h + 1) * (w * 4) \<le> length dat" "length ?q = fb_w fb * fb_h fb * 4"
    using Suc.prems IH(1) assms(4) by simp_all
  show ?case
    using blit_row_length [OF assms(1) r] blit_row_pixel [OF assms(1) r assms(5), of cy] IH
    by (auto simp: less_Suc_eq)
qed auto

lemma displays_blit:
  assumes "displays fb s" and "x + w \<le> sc_w s" and "y + h \<le> sc_h s" and "length dat = w * h * 4"
  shows "displays (blit x y w h dat fb) (paint x y w h (raw_image w dat) s)"
proof -
  note d = displaysD [OF assms(1)]
  have b: "x + w \<le> fb_w fb" "y + h \<le> fb_h fb" "h * (w * 4) \<le> length dat"
    "length (fb_px fb) = fb_w fb * fb_h fb * 4"
    using assms(2-4) d(1-3) by simp_all
  have r: "row_at (blit x y w h dat fb) = row_at fb" by (simp add: fun_eq_iff row_at_def blit_def)
  have l: "length (fb_px (blit x y w h dat fb)) = length (fb_px fb)"
  proof (cases "fb_w fb = 0")
    case True
    then have "w = 0" using b(1) by simp
    then have "blit_row fb x y w dat i px = px" for i px by (simp add: blit_row_def splice_def slice_def)
    then have "fold (blit_row fb x y w dat) [0..<n] px = px" for n px by (induction n) simp_all
    then show ?thesis by (simp add: blit_def)
  next
    case False
    then show ?thesis using blit_rows [OF b, of 0] by (simp add: blit_def)
  qed
  have "pixel (blit x y w h dat fb) cx cy =
      (if x \<le> cx \<and> cx < x + w \<and> y \<le> cy \<and> cy < y + h then raw_image w dat (cx - x) (cy - y)
       else sc_at s cx cy)" if "cx < sc_w s" "cy < sc_h s" for cx cy
    using blit_rows [OF b, of cx cy] that d(1) d(4) [OF that]
    unfolding pixel_def r by (simp add: blit_def)
  then show ?thesis
    using d(1-3) l by (simp add: displays_def paint_def) (simp add: blit_def)
qed

lemma displays_region:
  assumes "displays fb s" and "x + w \<le> sc_w s" and "y + h \<le> sc_h s"
  shows "rect_pixels x y w h fb = region x y w h s"
proof -
  note d = displaysD [OF assms(1)]
  have "slice (row_at fb x (y + i)) (row_at fb x (y + i) + w * 4) (fb_px fb) =
      concat (map (\<lambda>j. sc_at s (x + j) (y + i)) [0..<w])" if "i < h" for i
  proof -
    have "map (\<lambda>j. sc_at s (x + j) (y + i)) [0..<w] =
        map (\<lambda>j. slice (row_at fb x (y + i) + j * 4) (row_at fb x (y + i) + j * 4 + 4) (fb_px fb)) [0..<w]"
      using that assms(2,3) d(4) [of _ "y + i", symmetric]
      by (intro map_cong) (simp_all add: pixel_def row_at_def add.assoc)
    then show ?thesis by (simp only: slice_blocks)
  qed
  then show ?thesis unfolding rect_pixels_def region_def by (intro arg_cong [of _ _ concat] map_cong) simp_all
qed

lemma displays_init: "displays (init_fbuf w h) (blank w h)"
proof -
  have "pixel (init_fbuf w h) cx cy = black" if "cx < w" "cy < h" for cx cy
  proof -
    have "row_at (init_fbuf w h) cx cy + 1 * 4 \<le> w * h * 4"
      using row_end [of cx 1 "init_fbuf w h" cy] that by (simp add: init_fbuf_def)
    then have "pixel (init_fbuf w h) cx cy = replicate 4 0"
      by (simp add: pixel_def init_fbuf_def slice_def)
    then show ?thesis by (simp add: black_def numeral_eq_Suc)
  qed
  then show ?thesis by (simp add: displays_def blank_def) (simp add: init_fbuf_def)
qed

lemma displays_resize: "displays (fb_resize w h fb) (blank w h)"
proof -
  have "fb_resize w h fb = init_fbuf w h" by (cases fb) (simp add: fb_resize_def init_fbuf_def)
  then show ?thesis using displays_init by simp
qed

text \<open>A colour read from a region is the colour of the screen there.\<close>

lemma length_pixels:
  assumes "displays fb s" and "cx < sc_w s" and "cy < sc_h s"
  shows "length (sc_at s cx cy) = 4"
proof -
  note d = displaysD [OF assms(1)]
  have "row_at fb cx cy + 1 * 4 \<le> fb_w fb * fb_h fb * 4"
    using assms(2,3) d(1,2) by (intro row_end) simp_all
  then show ?thesis using d(1-3) d(4) [OF assms(2,3), symmetric] by (simp add: pixel_def)
qed

section \<open>CopyRect\<close>

lemma length_concat_blocks: "\<forall>b \<in> set bs. length b = m \<Longrightarrow> length (concat bs) = length bs * m"
  by (induction bs) auto

lemma slice_concat_block:
  "\<forall>b \<in> set bs. length b = m \<Longrightarrow> i < length bs \<Longrightarrow> slice (i * m) (i * m + m) (concat bs) = bs ! i"
proof (induction bs arbitrary: i)
  case (Cons b bs)
  then show ?case by (cases i) (auto simp: slice_def)
qed simp

lemma paint_cong:
  "(\<And>j i. j < w \<Longrightarrow> i < h \<Longrightarrow> f j i = g j i) \<Longrightarrow> paint x y w h f s = paint x y w h g s"
  by (cases s) (auto simp: paint_def fun_eq_iff)

lemma region_rows:
  assumes "displays fb s" and "x + w \<le> sc_w s" and "y + h \<le> sc_h s"
  shows "length (rect_pixels x y w h fb) = w * h * 4" and
    "j < w \<Longrightarrow> i < h \<Longrightarrow> raw_image w (rect_pixels x y w h fb) j i = sc_at s (x + j) (y + i)"
proof -
  note d = displaysD [OF assms(1)]
  let ?row = "\<lambda>i. slice (row_at fb x (y + i)) (row_at fb x (y + i) + w * 4) (fb_px fb)"
  have m: "length (?row i) = w * 4" if "i < h" for i
    using row_end [of x w fb "y + i"] that assms(2,3) d(1-3) by simp
  then have b: "\<forall>b \<in> set (map ?row [0..<h]). length b = w * 4" by auto
  show "length (rect_pixels x y w h fb) = w * h * 4"
    using length_concat_blocks [OF b] by (simp add: rect_pixels_def)
  assume j: "j < w" and i: "i < h"
  have "slice (i * (w * 4)) (i * (w * 4) + w * 4) (rect_pixels x y w h fb) = ?row i"
    unfolding rect_pixels_def using slice_concat_block [OF b, of i] i by simp
  then have "raw_image w (rect_pixels x y w h fb) j i = slice (j * 4) (j * 4 + 4) (?row i)"
    using slice_slice [of "j * 4 + 4" "i * (w * 4) + w * 4" "i * (w * 4)" "j * 4" "rect_pixels x y w h fb"] j
    by (simp add: raw_image_def algebra_simps)
  also have "\<dots> = pixel fb (x + j) (y + i)"
    using j by (subst slice_slice) (simp_all add: pixel_def row_at_def algebra_simps)
  also have "\<dots> = sc_at s (x + j) (y + i)" using i j assms(2,3) by (intro d(4)) simp_all
  finally show "raw_image w (rect_pixels x y w h fb) j i = sc_at s (x + j) (y + i)" .
qed

lemma displays_copy:
  assumes "displays fb s" and "x + w \<le> sc_w s" and "y + h \<le> sc_h s"
    and "sx + w \<le> sc_w s" and "sy + h \<le> sc_h s"
  shows "displays (copy_rect x y w h sx sy fb) (paint x y w h (\<lambda>j i. sc_at s (sx + j) (sy + i)) s)"
  using displays_blit [OF assms(1-3) region_rows(1) [OF assms(1,4,5)]]
    paint_cong [OF region_rows(2) [OF assms(1,4,5)], where x = x and y = y and s = s]
  by (simp add: copy_rect_def)

section \<open>Server messages\<close>

datatype server_rect =
    RawRect nat nat nat nat bytes
  | CopyRect nat nat nat nat nat nat
  | DesktopSize nat nat nat nat
  | ExtendedSize nat nat nat nat bytes "bytes list"

datatype server_msg =
    Update byte "server_rect list"
  | ColourMap bytes "bytes list"
  | Bell
  | CutText bytes bytes

definition rect_header :: "nat \<Rightarrow> nat \<Rightarrow> nat \<Rightarrow> nat \<Rightarrow> int \<Rightarrow> bytes" where
  "rect_header x y w h enc = to_be 2 x @ to_be 2 y @ to_be 2 w @ to_be 2 h @ to_be_int32 enc"

fun encode_rect :: "server_rect \<Rightarrow> bytes" where
  "encode_rect (RawRect x y w h d) = rect_header x y w h 0 @ d"
| "encode_rect (CopyRect x y w h sx sy) = rect_header x y w h 1 @ to_be 2 sx @ to_be 2 sy"
| "encode_rect (DesktopSize x y w h) = rect_header x y w h (-223)"
| "encode_rect (ExtendedSize x y w h pad screens) =
     rect_header x y w h (-308) @ to_be 1 (length screens) @ pad @ concat screens"

fun encode_msg :: "server_msg \<Rightarrow> bytes" where
  "encode_msg (Update pad rs) = [0, pad] @ to_be 2 (length rs) @ concat (map encode_rect rs)"
| "encode_msg (ColourMap hdr es) = [1] @ hdr @ to_be 2 (length es) @ concat es"
| "encode_msg Bell = [2]"
| "encode_msg (CutText pad t) = [3] @ pad @ to_be 4 (length t) @ t"

fun rect_fits :: "screen \<Rightarrow> server_rect \<Rightarrow> bool" where
  "rect_fits s (RawRect x y w h d) \<longleftrightarrow> x + w \<le> sc_w s \<and> y + h \<le> sc_h s \<and> length d = w * h * 4"
| "rect_fits s (CopyRect x y w h sx sy) \<longleftrightarrow>
     x + w \<le> sc_w s \<and> y + h \<le> sc_h s \<and> sx + w \<le> sc_w s \<and> sy + h \<le> sc_h s"
| "rect_fits s (DesktopSize x y w h) \<longleftrightarrow> x < 65536 \<and> y < 65536 \<and> w < 65536 \<and> h < 65536"
| "rect_fits s (ExtendedSize x y w h pad screens) \<longleftrightarrow> x < 65536 \<and> y < 65536 \<and> w < 65536 \<and> h < 65536 \<and>
     length pad = 3 \<and> length screens < 256 \<and> list_all (\<lambda>b. length b = 16) screens"

fun draw :: "server_rect \<Rightarrow> screen \<Rightarrow> screen" where
  "draw (RawRect x y w h d) s = paint x y w h (raw_image w d) s"
| "draw (CopyRect x y w h sx sy) s = paint x y w h (\<lambda>j i. sc_at s (sx + j) (sy + i)) s"
| "draw (DesktopSize x y w h) s = blank w h"
| "draw (ExtendedSize x y w h pad screens) s = blank w h"

text \<open>What is drawn counts, a change of size does not; and the callback that is told.\<close>

fun counted :: "server_rect \<Rightarrow> nat" where
  "counted (RawRect x y w h d) = 1"
| "counted (CopyRect x y w h sx sy) = 1"
| "counted _ = 0"

fun told :: "'r hooks \<Rightarrow> server_rect \<Rightarrow> screen \<Rightarrow> 'r \<Rightarrow> bool \<times> 'r" where
  "told hk (RawRect x y w h d) s = on_rect hk x y w h d"
| "told hk (CopyRect x y w h sx sy) s = on_rect hk x y w h (region x y w h s)"
| "told hk (DesktopSize x y w h) s = on_resize hk w h"
| "told hk (ExtendedSize x y w h pad screens) s = on_resize hk w h"

fun spec_rects ::
    "'r hooks \<Rightarrow> server_rect list \<Rightarrow> nat \<Rightarrow> screen \<times> 'r \<Rightarrow> (capture_error + nat) \<times> screen \<times> 'r" where
  "spec_rects hk [] applied (s, r) = (Inr applied, s, r)"
| "spec_rects hk (rc # rcs) applied (s, r) =
     (let s = draw rc s
      in case told hk rc s r of
           (False, r) \<Rightarrow> (Inl HookRaised, s, r)
         | (True, r) \<Rightarrow> spec_rects hk rcs (applied + counted rc) (s, r))"

fun spec_msg ::
    "'r hooks \<Rightarrow> server_msg \<Rightarrow> screen \<times> 'r \<Rightarrow> (capture_error + nat) \<times> screen \<times> 'r" where
  "spec_msg hk (Update pad rs) (s, r) = spec_rects hk rs 0 (s, r)"
| "spec_msg hk _ (s, r) = (Inr 0, s, r)"

fun rects_fit :: "screen \<Rightarrow> server_rect list \<Rightarrow> bool" where
  "rects_fit s [] = True"
| "rects_fit s (rc # rcs) \<longleftrightarrow> rect_fits s rc \<and> rects_fit (draw rc s) rcs"

fun msg_fits :: "screen \<Rightarrow> server_msg \<Rightarrow> bool" where
  "msg_fits s (Update pad rs) \<longleftrightarrow> length rs < 65536 \<and> rects_fit s rs"
| "msg_fits s (ColourMap hdr es) \<longleftrightarrow>
     length hdr = 3 \<and> length es < 65536 \<and> list_all (\<lambda>e. length e = 6) es"
| "msg_fits s Bell = True"
| "msg_fits s (CutText pad t) \<longleftrightarrow> length pad = 3 \<and> length t < 2 ^ 32"

section \<open>The pump draws what the messages say\<close>

definition small :: "screen \<Rightarrow> bool" where
  "small s \<longleftrightarrow> sc_w s < 65536 \<and> sc_h s < 65536"

lemma small_draw: "small s \<Longrightarrow> rect_fits s rc \<Longrightarrow> small (draw rc s)"
  by (cases rc) (auto simp: small_def paint_def blank_def)

lemma be_nat_to_be2: "v < 65536 \<Longrightarrow> be_nat (to_be 2 v) = v"
  by (rule be_nat_to_be) simp

lemma slice_skip: "length a = i \<Longrightarrow> slice i j (a @ b) = take (j - i) b"
  by (simp add: slice_def)

lemma rect_header_fields:
  assumes "x < 65536" and "y < 65536" and "w < 65536" and "h < 65536"
    and "- (2 ^ 31) \<le> enc" and "enc < 2 ^ 31"
  shows "length (rect_header x y w h enc) = 12"
    "be_nat (slice 0 2 (rect_header x y w h enc)) = x"
    "be_nat (slice 2 4 (rect_header x y w h enc)) = y"
    "be_nat (slice 4 6 (rect_header x y w h enc)) = w"
    "be_nat (slice 6 8 (rect_header x y w h enc)) = h"
    "be_int32 (slice 8 12 (rect_header x y w h enc)) = enc"
proof -
  have l: "length (to_be_int32 enc) = 4" by (simp add: to_be_int32_def)
  then show "length (rect_header x y w h enc) = 12" by (simp add: rect_header_def)
  show "be_nat (slice 0 2 (rect_header x y w h enc)) = x"
    "be_nat (slice 2 4 (rect_header x y w h enc)) = y"
    "be_nat (slice 4 6 (rect_header x y w h enc)) = w"
    "be_nat (slice 6 8 (rect_header x y w h enc)) = h"
    using assms(1-4) by (simp_all add: rect_header_def slice_def be_nat_to_be2)
  show "be_int32 (slice 8 12 (rect_header x y w h enc)) = enc"
    using be_int32_to_be [OF assms(5,6)] l by (simp add: rect_header_def slice_def)
qed

text \<open>The stream of a connection whose chunks are all non-empty.\<close>

definition stream_of :: "bytes list \<Rightarrow> bytes \<Rightarrow> bool" where
  "stream_of rx bs \<longleftrightarrow> concat rx = bs \<and> all_nonempty rx"

lemma recvn_stream:
  assumes "stream_of rx (d @ rest)" and "n = length d"
  obtains rx' where "recvn n rx = Some (d, rx')" "stream_of rx' rest"
  using recvn_bytes [of rx d rest] assms by (auto simp: stream_of_def)

lemma rect_fits_small:
  assumes "small s" and "rect_fits s rc"
  obtains x y w h enc body where "encode_rect rc = rect_header x y w h enc @ body"
    "x < 65536" "y < 65536" "w < 65536" "h < 65536" "- (2 ^ 31) \<le> enc" "enc < 2 ^ 31"
proof -
  have "\<exists>x y w h enc body. encode_rect rc = rect_header x y w h enc @ body \<and>
      x < 65536 \<and> y < 65536 \<and> w < 65536 \<and> h < 65536 \<and> - (2 ^ 31) \<le> enc \<and> enc < 2 ^ 31"
    using assms
  proof (cases rc)
    case (RawRect x y w h d)
    then show ?thesis using assms
      by (intro exI [of _ x] exI [of _ y] exI [of _ w] exI [of _ h] exI [of _ 0] exI [of _ d])
        (simp add: small_def)
  next
    case (CopyRect x y w h sx sy)
    then show ?thesis using assms
      by (intro exI [of _ x] exI [of _ y] exI [of _ w] exI [of _ h] exI [of _ 1]
          exI [of _ "to_be 2 sx @ to_be 2 sy"]) (simp add: small_def)
  next
    case (DesktopSize x y w h)
    then show ?thesis using assms
      by (intro exI [of _ x] exI [of _ y] exI [of _ w] exI [of _ h] exI [of _ "-223"] exI [of _ "[]"]) simp
  next
    case (ExtendedSize x y w h pad screens)
    then show ?thesis using assms
      by (intro exI [of _ x] exI [of _ y] exI [of _ w] exI [of _ h] exI [of _ "-308"]
          exI [of _ "to_be 1 (length screens) @ pad @ concat screens"]) simp
  qed
  then show ?thesis by (elim exE conjE) (rule that)
qed

definition drawn ::
    "'r hooks \<Rightarrow> screen \<Rightarrow> server_rect \<Rightarrow> bytes \<Rightarrow> 'r rconn \<Rightarrow> 'r pumped \<Rightarrow> bool" where
  "drawn hk s rc rest c p \<longleftrightarrow>
     (\<exists>rx fb ok r. told hk rc (draw rc s) (cn_hook c) = (ok, r) \<and>
        p = (if ok then Inr (counted rc) else Inl HookRaised,
             c\<lparr>cn_rx := rx, cn_fb := fb, cn_hook := r\<rparr>) \<and>
        stream_of rx rest \<and> displays fb (draw rc s))"

lemma drawn_on_rect:
  assumes "told hk rc (draw rc s) = on_rect hk x y w h dat" and "counted rc = 1"
    and "stream_of rx rest" and "displays fb (draw rc s)"
  shows "drawn hk s rc rest c (run_on_rect hk x y w h dat (c\<lparr>cn_rx := rx, cn_fb := fb\<rparr>))"
proof -
  obtain ok r where "on_rect hk x y w h dat (cn_hook c) = (ok, r)" by fastforce
  then show ?thesis
    unfolding drawn_def using assms
    by (intro exI [of _ rx] exI [of _ fb] exI [of _ ok] exI [of _ r]) (simp add: run_on_rect_def)
qed

lemma drawn_on_resize:
  assumes "told hk rc (draw rc s) = on_resize hk w h" and "counted rc = 0"
    and "stream_of rx rest" and "displays fb (draw rc s)"
  shows "drawn hk s rc rest c (run_on_resize hk w h (c\<lparr>cn_rx := rx, cn_fb := fb\<rparr>))"
proof -
  obtain ok r where "on_resize hk w h (cn_hook c) = (ok, r)" by fastforce
  then show ?thesis
    unfolding drawn_def using assms
    by (intro exI [of _ rx] exI [of _ fb] exI [of _ ok] exI [of _ r]) (simp add: run_on_resize_def)
qed

lemma skip_screens_ok:
  assumes "stream_of rx (to_be 1 (length screens) @ pad @ concat screens @ rest)"
    and "length pad = 3" and "length screens < 256" and "list_all (\<lambda>b. length b = 16) screens"
  obtains rx' where "skip_screens rx = Some rx'" "stream_of rx' rest"
proof -
  obtain rx1 where r1: "recvn 4 rx = Some (to_be 1 (length screens) @ pad, rx1)"
    "stream_of rx1 (concat screens @ rest)"
    using assms(1,2) by (auto intro: recvn_stream [of rx "to_be 1 (length screens) @ pad"])
  have l: "length (concat screens) = 16 * length screens"
    using length_concat_blocks [of screens 16] assms(4) by (simp add: list_all_iff mult.commute)
  obtain rx2 where r2: "recvn (length (concat screens)) rx1 = Some (concat screens, rx2)" "stream_of rx2 rest"
    using r1(2) by (auto intro: recvn_stream [of rx1 "concat screens" rest])
  have n: "unat ((to_be 1 (length screens) @ pad) ! 0) = length screens"
    using assms(3) by simp
  show ?thesis
    by (rule that [of rx2]) (use r1(1) r2 l n in \<open>simp_all add: skip_screens_def\<close>)
qed

lemma pump_rect_body:
  assumes "recvn 12 (cn_rx c) = Some (rect_header x y w h enc, rx)"
    and "x < 65536" "y < 65536" "w < 65536" "h < 65536" "- (2 ^ 31) \<le> enc" "enc < 2 ^ 31"
  shows "pump_rect hk c =
     (if enc = 0 then
        (case recvn (w * h * 4) rx of
           None \<Rightarrow> (Inl Closed, c\<lparr>cn_rx := rx\<rparr>)
         | Some (dat, rx) \<Rightarrow>
             run_on_rect hk x y w h dat (c\<lparr>cn_rx := rx, cn_fb := blit x y w h dat (cn_fb c)\<rparr>))
      else if enc = 1 then
        (case recvn 4 rx of
           None \<Rightarrow> (Inl Closed, c\<lparr>cn_rx := rx\<rparr>)
         | Some (s, rx) \<Rightarrow>
             (let fb = copy_rect x y w h (be_nat (slice 0 2 s)) (be_nat (slice 2 4 s)) (cn_fb c)
              in run_on_rect hk x y w h (rect_pixels x y w h fb) (c\<lparr>cn_rx := rx, cn_fb := fb\<rparr>)))
      else if enc = -223 then
        run_on_resize hk w h (c\<lparr>cn_rx := rx, cn_fb := fb_resize w h (cn_fb c)\<rparr>)
      else if enc = -308 then
        (case skip_screens rx of
           None \<Rightarrow> (Inl Closed, c\<lparr>cn_rx := rx\<rparr>)
         | Some rx \<Rightarrow>
             run_on_resize hk w h (c\<lparr>cn_rx := rx, cn_fb := fb_resize w h (cn_fb c)\<rparr>))
      else (Inl (UnNegotiated enc), c\<lparr>cn_rx := rx\<rparr>))"
  unfolding pump_rect_def assms(1) option.case prod.case Let_def rect_header_fields(2-6) [OF assms(2-7)]
  by (simp split: option.split)

lemma pump_rect_drawn:
  assumes d: "displays (cn_fb c) s" and sm: "small s" and f: "rect_fits s rc"
    and st: "stream_of (cn_rx c) (encode_rect rc @ rest)"
  shows "drawn hk s rc rest c (pump_rect hk c)"
proof (cases rc)
  case (RawRect x y w h dat)
  then have b: "x < 65536" "y < 65536" "w < 65536" "h < 65536"
    using f sm by (simp_all add: small_def)
  obtain rx where rx: "recvn 12 (cn_rx c) = Some (rect_header x y w h 0, rx)" "stream_of rx (dat @ rest)"
    using st RawRect rect_header_fields(1) [OF b, of 0]
    by (auto intro: recvn_stream [of "cn_rx c" "rect_header x y w h 0" "dat @ rest" 12])
  obtain rx' where rx': "recvn (w * h * 4) rx = Some (dat, rx')" "stream_of rx' rest"
    using rx(2) f RawRect by (auto intro: recvn_stream [of rx dat rest "w * h * 4"])
  have "displays (blit x y w h dat (cn_fb c)) (draw rc s)"
    using displays_blit [OF d] f RawRect by simp
  from drawn_on_rect [OF _ _ rx'(2) this, of hk x y w h dat c]
  show ?thesis
    using pump_rect_body [OF rx(1) b, of hk] rx'(1) RawRect by simp
next
  case (CopyRect x y w h sx sy)
  then have b: "x < 65536" "y < 65536" "w < 65536" "h < 65536" and q: "sx < 65536" "sy < 65536"
    using f sm by (simp_all add: small_def)
  obtain rx where rx: "recvn 12 (cn_rx c) = Some (rect_header x y w h 1, rx)"
      "stream_of rx ((to_be 2 sx @ to_be 2 sy) @ rest)"
    using st CopyRect rect_header_fields(1) [OF b, of 1]
    by (auto intro: recvn_stream [of "cn_rx c" "rect_header x y w h 1" "(to_be 2 sx @ to_be 2 sy) @ rest" 12])
  obtain rx' where rx': "recvn 4 rx = Some (to_be 2 sx @ to_be 2 sy, rx')" "stream_of rx' rest"
    by (rule recvn_stream [OF rx(2)]) auto
  have fb: "displays (copy_rect x y w h sx sy (cn_fb c)) (draw rc s)"
    using displays_copy [OF d] f CopyRect by simp
  have "rect_pixels x y w h (copy_rect x y w h sx sy (cn_fb c)) = region x y w h (draw rc s)"
    using displays_region [OF fb] f CopyRect by (simp add: paint_def)
  with drawn_on_rect [OF _ _ rx'(2) fb, of hk x y w h "region x y w h (draw rc s)" c]
  show ?thesis
    using pump_rect_body [OF rx(1) b, of hk] rx'(1) CopyRect q
    by (simp add: slice_skip be_nat_to_be2 Let_def)
next
  case (DesktopSize x y w h)
  then have b: "x < 65536" "y < 65536" "w < 65536" "h < 65536" using f by simp_all
  obtain rx where rx: "recvn 12 (cn_rx c) = Some (rect_header x y w h (-223), rx)" "stream_of rx rest"
    using st DesktopSize rect_header_fields(1) [OF b, of "-223"]
    by (auto intro: recvn_stream [of "cn_rx c" "rect_header x y w h (-223)" rest 12])
  have "displays (fb_resize w h (cn_fb c)) (draw rc s)"
    using displays_resize DesktopSize by simp
  from drawn_on_resize [OF _ _ rx(2) this, of hk w h c]
  show ?thesis
    using pump_rect_body [OF rx(1) b, of hk] DesktopSize by simp
next
  case (ExtendedSize x y w h pad screens)
  then have b: "x < 65536" "y < 65536" "w < 65536" "h < 65536" using f by simp_all
  let ?t = "to_be 1 (length screens) @ pad @ concat screens @ rest"
  obtain rx where rx: "recvn 12 (cn_rx c) = Some (rect_header x y w h (-308), rx)" "stream_of rx ?t"
    using st ExtendedSize rect_header_fields(1) [OF b, of "-308"]
    by (auto intro: recvn_stream [of "cn_rx c" "rect_header x y w h (-308)" ?t 12])
  obtain rx' where rx': "skip_screens rx = Some rx'" "stream_of rx' rest"
    using skip_screens_ok [OF rx(2)] f ExtendedSize by auto
  have "displays (fb_resize w h (cn_fb c)) (draw rc s)"
    using displays_resize ExtendedSize by simp
  from drawn_on_resize [OF _ _ rx'(2) this, of hk w h c]
  show ?thesis
    using pump_rect_body [OF rx(1) b, of hk] rx'(1) ExtendedSize by simp
qed

text \<open>A pump that agrees with the specification and has read exactly its message.\<close>

definition agrees ::
    "(capture_error + nat) \<times> screen \<times> 'r \<Rightarrow> bytes \<Rightarrow> 'r rconn \<Rightarrow> 'r pumped \<Rightarrow> bool" where
  "agrees spec rest c p \<longleftrightarrow>
     (\<exists>rx fb. p = (fst spec, c\<lparr>cn_rx := rx, cn_fb := fb, cn_hook := snd (snd spec)\<rparr>) \<and>
        displays fb (fst (snd spec)) \<and> (fst spec \<noteq> Inl HookRaised \<longrightarrow> stream_of rx rest))"

lemma pump_rects_agrees:
  assumes "displays (cn_fb c) s" and "small s" and "rects_fit s rcs"
    and "stream_of (cn_rx c) (concat (map encode_rect rcs) @ rest)"
  shows "agrees (spec_rects hk rcs applied (s, cn_hook c)) rest c (pump_rects hk (length rcs) applied c)"
  using assms
proof (induction rcs arbitrary: applied s c)
  case Nil
  then show ?case
    by (cases c) (simp add: agrees_def)
next
  case (Cons rc rcs)
  have f: "rect_fits s rc" "rects_fit (draw rc s) rcs" using Cons.prems(3) by simp_all
  have "drawn hk s rc (concat (map encode_rect rcs) @ rest) c (pump_rect hk c)"
    using Cons.prems by (intro pump_rect_drawn) simp_all
  then obtain rx fb ok r where t: "told hk rc (draw rc s) (cn_hook c) = (ok, r)"
    and p: "pump_rect hk c = (if ok then Inr (counted rc) else Inl HookRaised,
              c\<lparr>cn_rx := rx, cn_fb := fb, cn_hook := r\<rparr>)"
    and s: "stream_of rx (concat (map encode_rect rcs) @ rest)" and d: "displays fb (draw rc s)"
    unfolding drawn_def by (elim exE conjE) (rule that)
  let ?c = "c\<lparr>cn_rx := rx, cn_fb := fb, cn_hook := r\<rparr>"
  show ?case
  proof (cases ok)
    case True
    have "agrees (spec_rects hk rcs (applied + counted rc) (draw rc s, cn_hook ?c)) rest ?c
        (pump_rects hk (length rcs) (applied + counted rc) ?c)"
      using d s f small_draw [OF Cons.prems(2) f(1)] by (intro Cons.IH) simp_all
    then show ?thesis using True t p by (simp add: agrees_def Let_def)
  next
    case False
    then show ?thesis using t p d by (auto simp: agrees_def Let_def)
  qed
qed

lemma skip_agrees:
  assumes "displays (cn_fb c) s" and "stream_of rx (d @ rest)" and "n = length d"
  shows "agrees (Inr 0, s, cn_hook c) rest c (skipped c (recvn n rx))"
proof -
  obtain rx' where "recvn n rx = Some (d, rx')" "stream_of rx' rest"
    by (rule recvn_stream [OF assms(2,3)])
  then show ?thesis using assms(1) by (cases c) (auto simp: agrees_def skipped_def)
qed

lemma pump_agrees:
  assumes d: "displays (cn_fb c) s" and sm: "small s" and f: "msg_fits s m"
    and st: "stream_of (cn_rx c) (encode_msg m @ rest)"
  shows "agrees (spec_msg hk m (s, cn_hook c)) rest c (pump hk c)"
proof (cases m)
  case (Update pad rs)
  let ?b = "concat (map encode_rect rs) @ rest"
  obtain rx where rx: "recvn 1 (cn_rx c) = Some ([0], rx)" "stream_of rx (([pad] @ to_be 2 (length rs)) @ ?b)"
    using st Update by (auto intro: recvn_stream [of "cn_rx c" "[0]" "([pad] @ to_be 2 (length rs)) @ ?b" 1])
  obtain rx' where rx': "recvn 3 rx = Some ([pad] @ to_be 2 (length rs), rx')" "stream_of rx' ?b"
    by (rule recvn_stream [OF rx(2)]) auto
  have n: "be_nat (slice 1 3 ([pad] @ to_be 2 (length rs))) = length rs"
    using f Update by (simp add: slice_def be_nat_to_be2)
  have "agrees (spec_rects hk rs 0 (s, cn_hook (c\<lparr>cn_rx := rx'\<rparr>))) rest (c\<lparr>cn_rx := rx'\<rparr>)
      (pump_rects hk (length rs) 0 (c\<lparr>cn_rx := rx'\<rparr>))"
    using d sm f Update rx'(2) by (intro pump_rects_agrees) simp_all
  then show ?thesis
    using rx(1) rx'(1) n Update by (simp add: pump_def agrees_def)
next
  case (ColourMap hdr es)
  let ?h = "hdr @ to_be 2 (length es)"
  obtain rx where rx: "recvn 1 (cn_rx c) = Some ([1], rx)" "stream_of rx (?h @ concat es @ rest)"
    using st ColourMap by (auto intro: recvn_stream [of "cn_rx c" "[1]" "?h @ concat es @ rest" 1])
  obtain rx' where rx': "recvn 5 rx = Some (?h, rx')" "stream_of rx' (concat es @ rest)"
    by (rule recvn_stream [OF rx(2)]) (use f ColourMap in auto)
  have n: "be_nat (slice 3 5 ?h) = length es"
    using f ColourMap by (simp add: slice_skip be_nat_to_be2)
  have l: "6 * length es = length (concat es)"
    using length_concat_blocks [of es 6] f ColourMap by (simp add: list_all_iff)
  show ?thesis
    using skip_agrees [OF d rx'(2) l] rx(1) rx'(1) n ColourMap by (simp add: pump_def)
next
  case Bell
  obtain rx where "recvn 1 (cn_rx c) = Some ([2], rx)" "stream_of rx rest"
    using st Bell by (auto intro: recvn_stream [of "cn_rx c" "[2]" rest 1])
  then show ?thesis using Bell d by (cases c) (auto simp: pump_def agrees_def)
next
  case (CutText pad t)
  let ?b = "to_be 4 (length t) @ t @ rest"
  obtain rx where rx: "recvn 1 (cn_rx c) = Some ([3], rx)" "stream_of rx (pad @ ?b)"
    using st CutText by (auto intro: recvn_stream [of "cn_rx c" "[3]" "pad @ ?b" 1])
  obtain rx1 where rx1: "recvn 3 rx = Some (pad, rx1)" "stream_of rx1 ?b"
    by (rule recvn_stream [OF rx(2)]) (use f CutText in auto)
  obtain rx2 where rx2: "recvn 4 rx1 = Some (to_be 4 (length t), rx2)" "stream_of rx2 (t @ rest)"
    by (rule recvn_stream [OF rx1(2)]) auto
  have n: "be_nat (to_be 4 (length t)) = length t"
    using f CutText by (intro be_nat_to_be) simp
  show ?thesis
    using skip_agrees [OF d rx2(2)] rx(1) rx1(1) rx2(1) n CutText by (simp add: pump_def)
qed

end
