(* ===== verification/Screenshot.thy ===== *)
theory Screenshot
  imports CaptureScreen
begin

text \<open>
  The screenshot from end to end: the server's side of the handshake as data, the raster of an
  abstract screen, and the lemmas that the exported PNG carries that raster.
\<close>

section \<open>The raster of a screen\<close>

fun rgba :: "colour \<Rightarrow> bytes" where
  "rgba [b, g, r, x] = [r, g, b, 0xFF]"
| "rgba _ = []"

definition raster :: "screen \<Rightarrow> bytes" where
  "raster s = concat (map (\<lambda>y. 0 # concat (map (\<lambda>x. rgba (sc_at s x y)) [0..<sc_w s])) [0..<sc_h s])"

text \<open>Groups of four bytes.\<close>

lemma every4_groups:
  "\<forall>g \<in> set gs. length g = 4 \<Longrightarrow> k < 4 \<Longrightarrow> every4 (drop k (concat gs)) = map (\<lambda>g. g ! k) gs"
proof (induction gs arbitrary: k)
  case (Cons g gs)
  obtain a b c d where g: "g = [a, b, c, d]"
    using Cons.prems by (auto simp: numeral_eq_Suc length_Suc_conv)
  have IH: "every4 (drop k (concat gs)) = map (\<lambda>g. g ! k) gs" if "k < 4" for k
    using Cons that by simp
  consider "k = 0" | "k = 1" | "k = 2" | "k = 3" using Cons.prems(2) by linarith
  then show ?case
    by cases (use IH [of 0] IH [of 1] IH [of 2] IH [of 3] in \<open>simp_all add: g numeral_eq_Suc\<close>)
qed simp

lemma concat_map_concat: "concat (map f (concat xss)) = concat (map (\<lambda>xs. concat (map f xs)) xss)"
  by (induction xss) simp_all

lemma rgba_of_groups:
  "\<forall>g \<in> set gs. length g = 4 \<Longrightarrow>
   rgba_of (map (\<lambda>g. g ! 2) gs) (map (\<lambda>g. g ! 1) gs) (map (\<lambda>g. g ! 0) gs) = concat (map rgba gs)"
proof (induction gs)
  case (Cons g gs)
  obtain a b c d where "g = [a, b, c, d]"
    using Cons.prems by (auto simp: numeral_eq_Suc length_Suc_conv)
  with Cons show ?case by simp
qed simp

lemma swap_channels_groups:
  assumes "\<forall>g \<in> set gs. length g = 4"
  shows "swap_channels (length gs) (concat gs) = Some (concat (map rgba gs))"
proof -
  have e: "every4 (drop 2 (concat gs)) = map (\<lambda>g. g ! 2) gs" "every4 (drop 1 (concat gs)) = map (\<lambda>g. g ! 1) gs"
    "every4 (concat gs) = map (\<lambda>g. g ! 0) gs"
    using every4_groups [OF assms, of 2] every4_groups [OF assms, of 1] every4_groups [OF assms, of 0]
    by simp_all
  show ?thesis
    using rgba_of_groups [OF assms] unfolding swap_channels_def Let_def e by simp
qed

section \<open>The framebuffer as rows of colours\<close>

definition colour_rows :: "screen \<Rightarrow> colour list list" where
  "colour_rows s = map (\<lambda>y. map (\<lambda>x. sc_at s x y) [0..<sc_w s]) [0..<sc_h s]"

lemma displays_rows:
  assumes "displays fb s"
  shows "fb_px fb = concat (concat (colour_rows s))"
proof -
  note d = displaysD [OF assms]
  have "slice 0 (n * (sc_w s * 4)) (fb_px fb) =
      concat (concat (map (\<lambda>y. map (\<lambda>x. sc_at s x y) [0..<sc_w s]) [0..<n]))" if "n \<le> sc_h s" for n
    using that
  proof (induction n)
    case (Suc n)
    have "concat (map (\<lambda>x. sc_at s x n) [0..<sc_w s]) =
        concat (map (\<lambda>x. slice (n * (sc_w s * 4) + x * 4) (n * (sc_w s * 4) + x * 4 + 4) (fb_px fb)) [0..<sc_w s])"
      using Suc.prems d(1) d(4) [of _ n, symmetric]
      by (intro arg_cong [of _ _ concat] map_cong) (simp_all add: pixel_def row_at_def algebra_simps)
    also have "\<dots> = slice (n * (sc_w s * 4)) (n * (sc_w s * 4) + sc_w s * 4) (fb_px fb)"
      by (rule slice_blocks)
    finally show ?case
      using Suc slice_joins [of 0 "n * (sc_w s * 4)" "n * (sc_w s * 4) + sc_w s * 4" "fb_px fb"]
      by (simp add: add.commute del: slice_prefix)
  qed (simp add: slice_def)
  from this [of "sc_h s"] show ?thesis using d(3) by (simp add: colour_rows_def mult_ac)
qed

lemma colour_rows_length:
  assumes "displays fb s"
  shows "length (concat (colour_rows s)) = sc_w s * sc_h s"
    and "\<forall>g \<in> set (concat (colour_rows s)). length g = 4"
proof -
  have "\<forall>r \<in> set (colour_rows s). length r = sc_w s" by (auto simp: colour_rows_def)
  then have "length (concat (colour_rows s)) = length (colour_rows s) * sc_w s"
    by (rule length_concat_blocks)
  then show "length (concat (colour_rows s)) = sc_w s * sc_h s" by (simp add: colour_rows_def)
  show "\<forall>g \<in> set (concat (colour_rows s)). length g = 4"
    using length_pixels [OF assms] by (auto simp: colour_rows_def)
qed

section \<open>Scan lines\<close>

lemma scanlines_rows:
  assumes "\<forall>r \<in> set rows. length r = stride"
  shows "scanlines stride (length rows) (concat rows) = concat (map (\<lambda>r. 0 # r) rows)"
proof -
  let ?step = "\<lambda>i raw. splice (i * (stride + 1) + 1) stride (slice (i * stride) ((i + 1) * stride) (concat rows)) raw"
  have b: "slice (i * stride) ((i + 1) * stride) (concat rows) = rows ! i" if "i < length rows" for i
    using slice_concat_block [OF assms that] by (simp add: add.commute)
  have "fold ?step [0..<n] (replicate ((stride + 1) * length rows) 0) =
      concat (map (\<lambda>r. 0 # r) (take n rows)) @ replicate ((stride + 1) * (length rows - n)) 0"
    if "n \<le> length rows" for n
    using that
  proof (induction n)
    case (Suc n)
    let ?p = "concat (map (\<lambda>r. 0 # r) (take n rows))"
    have l: "length ?p = n * (stride + 1)"
      using length_concat_blocks [of "map (\<lambda>r. 0 # r) (take n rows)" "stride + 1"] assms Suc.prems
      by (auto dest: in_set_takeD)
    have k: "length rows - n = Suc (length rows - Suc n)" using Suc.prems by simp
    have r: "replicate ((stride + 1) * (length rows - n)) (0 :: byte) =
        [0] @ replicate stride 0 @ replicate ((stride + 1) * (length rows - Suc n)) 0"
      unfolding k mult_Suc_right by (simp add: replicate_add)
    have sp: "splice (length ?p + 1) stride q (?p @ [0] @ replicate stride 0 @ z) = ?p @ [0] @ q @ z" for q z
      by (simp add: splice_def)
    have "fold ?step [0..<Suc n] (replicate ((stride + 1) * length rows) 0) =
        ?step n (?p @ [0] @ replicate stride 0 @ replicate ((stride + 1) * (length rows - Suc n)) 0)"
      using Suc r by simp
    also have "\<dots> = ?p @ [0] @ rows ! n @ replicate ((stride + 1) * (length rows - Suc n)) 0"
      unfolding b [OF Suc_le_lessD [OF Suc.prems]] l [symmetric] by (rule sp)
    finally show ?case using Suc.prems by (simp add: take_Suc_conv_app_nth)
  qed simp
  from this [of "length rows"] show ?thesis by (simp add: scanlines_def)
qed

text \<open>The export of a framebuffer that displays a screen.\<close>

definition png_of :: "(nat \<Rightarrow> bytes \<Rightarrow> bytes) \<Rightarrow> screen \<Rightarrow> bytes option" where
  "png_of zlib s =
     (case (png_chunk (bytes_of ''IHDR'') (to_be 4 (sc_w s) @ to_be 4 (sc_h s) @ [8, 6, 0, 0, 0]),
            png_chunk (bytes_of ''IDAT'') (zlib 6 (raster s)), png_chunk (bytes_of ''IEND'') []) of
        (Some a, Some b, Some c) \<Rightarrow> Some (png_magic @ a @ b @ c)
      | _ \<Rightarrow> None)"

lemma png_encode_displays:
  assumes "displays fb s"
  shows "png_encode zlib fb = (case png_of zlib s of None \<Rightarrow> Inl TooLong | Some p \<Rightarrow> Inr p)"
proof -
  note d = displaysD [OF assms] and r = colour_rows_length [OF assms]
  let ?rows = "map (\<lambda>row. concat (map rgba row)) (colour_rows s)"
  have sw: "swap_channels (fb_w fb * fb_h fb) (fb_px fb) = Some (concat ?rows)"
    using swap_channels_groups [OF r(2)] r(1) d(1,2) displays_rows [OF assms]
    by (simp add: concat_map_concat)
  have g4: "length (rgba g) = 4" if "length g = 4" for g :: colour
    using that by (auto simp: numeral_eq_Suc length_Suc_conv)
  have rows: "length row = sc_w s * 4" if row: "row \<in> set ?rows" for row
  proof -
    obtain cs where cs: "cs \<in> set (colour_rows s)" "row = concat (map rgba cs)"
      using row unfolding set_map image_iff by blast
    then have "\<forall>g \<in> set (map rgba cs). length g = 4" using r(2) g4 by auto
    from length_concat_blocks [OF this] show ?thesis using cs by (auto simp: colour_rows_def)
  qed
  have "scanlines (sc_w s * 4) (length ?rows) (concat ?rows) = concat (map (\<lambda>r. 0 # r) ?rows)"
    using rows by (intro scanlines_rows) blast
  then have sc: "scanlines (fb_w fb * 4) (fb_h fb) (concat ?rows) = raster s"
    using d(1,2) by (simp add: raster_def colour_rows_def comp_def)
  show ?thesis
    unfolding png_encode_def sw option.case sc using d(1,2)
    by (simp add: png_of_def png_ihdr_def split: option.split)
qed

section \<open>A conforming server\<close>

text \<open>What the server sends in the handshake: its banner, the security types, the challenge when the
  client answers one, the security result, and ServerInit with the size, the pixel format and the
  name.\<close>

record server_hello =
  sh_banner :: bytes
  sh_types :: "byte list"
  sh_challenge :: bytes
  sh_format :: bytes
  sh_size :: "nat \<times> nat"
  sh_name :: bytes

definition answers_challenge :: "string \<Rightarrow> server_hello \<Rightarrow> bool" where
  "answers_challenge password sh \<longleftrightarrow> 2 \<in> set (sh_types sh) \<and> password \<noteq> []"

definition encode_hello :: "string \<Rightarrow> server_hello \<Rightarrow> bytes" where
  "encode_hello password sh =
     sh_banner sh @ [word_of_nat (length (sh_types sh))] @ sh_types sh @
     (if answers_challenge password sh then sh_challenge sh else []) @ to_be 4 0 @
     (to_be 2 (fst (sh_size sh)) @ to_be 2 (snd (sh_size sh)) @ sh_format sh @ to_be 4 (length (sh_name sh))) @
     sh_name sh"

definition hello_fits :: "des \<Rightarrow> string \<Rightarrow> server_hello \<Rightarrow> bool" where
  "hello_fits des password sh \<longleftrightarrow>
     length (sh_banner sh) = 12 \<and> take 4 (sh_banner sh) = bytes_of ''RFB '' \<and>
     sh_types sh \<noteq> [] \<and> length (sh_types sh) < 256 \<and>
     (answers_challenge password sh \<and> length (sh_challenge sh) = 16 \<and> des \<noteq> None \<or>
      \<not> answers_challenge password sh \<and> 1 \<in> set (sh_types sh)) \<and>
     length (sh_format sh) = 16 \<and> fst (sh_size sh) < 65536 \<and> snd (sh_size sh) < 65536 \<and>
     length (sh_name sh) < 2 ^ 32"

definition hello_screen :: "server_hello \<Rightarrow> screen" where
  "hello_screen sh = blank (fst (sh_size sh)) (snd (sh_size sh))"

lemma client_auth_ok:
  assumes "hello_fits des password sh"
    and "stream_of rx ((if answers_challenge password sh then sh_challenge sh else []) @ rest)"
  obtains sent rx' where "client_auth des password (sh_types sh) rx = Inr (sent, rx')" "stream_of rx' rest"
proof (cases "answers_challenge password sh")
  case True
  then obtain cipher where c: "des = Some cipher" "length (sh_challenge sh) = 16"
    using assms(1) by (auto simp: hello_fits_def)
  obtain rx' where "recvn 16 rx = Some (sh_challenge sh, rx')" "stream_of rx' rest"
    using assms(2) True c(2) by (auto intro: recvn_stream [of rx "sh_challenge sh" rest 16])
  then show ?thesis
    using True c(1) by (intro that) (simp_all add: client_auth_def answers_challenge_def vnc_auth_response_def Let_def)
next
  case False
  then have "1 \<in> set (sh_types sh)" using assms(1) by (simp add: hello_fits_def)
  then show ?thesis
    using assms(2) False by (intro that [of "[1]" rx]) (auto simp: client_auth_def answers_challenge_def)
qed

lemma client_init_ok:
  assumes "stream_of rx (to_be 4 0 @
      (to_be 2 w @ to_be 2 h @ fmt @ to_be 4 (length name)) @ name @ rest)"
    and "w < 65536" "h < 65536" "length fmt = 16" "length name < 2 ^ 32"
  obtains c where "client_init utf8 tx rx r = Inr c" "stream_of (cn_rx c) rest"
    "cn_fb c = init_fbuf w h" "cn_hook c = r"
proof -
  let ?si = "to_be 2 w @ to_be 2 h @ fmt @ to_be 4 (length name)"
  obtain rx1 where r1: "recvn 4 rx = Some (to_be 4 0, rx1)" "stream_of rx1 (?si @ name @ rest)"
    by (rule recvn_stream [OF assms(1)]) simp_all
  obtain rx2 where r2: "recvn 24 rx1 = Some (?si, rx2)" "stream_of rx2 (name @ rest)"
    by (rule recvn_stream [OF r1(2)]) (simp_all add: assms(4))
  obtain rx3 where r3: "recvn (length name) rx2 = Some (name, rx3)" "stream_of rx3 rest"
    by (rule recvn_stream [OF r2(2)]) simp_all
  have n: "be_nat (slice 0 2 ?si) = w" "be_nat (slice 2 4 ?si) = h" "be_nat (slice 20 24 ?si) = length name"
    using assms(2-5) by (simp_all add: slice_def be_nat_to_be2 be_nat_to_be)
  have "be_nat (to_be 4 0) = 0" by (rule be_nat_to_be) simp
  then have "client_init utf8 tx rx r =
      Inr \<lparr> cn_rx = rx3, cn_tx = tx @ [1] @ set_pixel_format @ set_encodings, cn_fb = init_fbuf w h,
            cn_name = utf8 name, cn_hook = r \<rparr>"
    unfolding client_init_def r1(1) option.case prod.case r2(1) n r3(1) by simp
  then show ?thesis by (rule that) (simp_all add: r3(2))
qed

lemma connect_ok:
  assumes "hello_fits des password sh" and "stream_of rx (encode_hello password sh @ rest)"
  obtains c where "connect des utf8 password rx r = Inr c" "stream_of (cn_rx c) rest"
    "displays (cn_fb c) (hello_screen sh)" "cn_hook c = r" "small (hello_screen sh)"
proof -
  note f = assms(1) [unfolded hello_fits_def]
  let ?t4 = "to_be 4 0 @ (to_be 2 (fst (sh_size sh)) @ to_be 2 (snd (sh_size sh)) @ sh_format sh @
      to_be 4 (length (sh_name sh))) @ sh_name sh @ rest"
  let ?t3 = "(if answers_challenge password sh then sh_challenge sh else []) @ ?t4"
  let ?n = "[word_of_nat (length (sh_types sh)) :: byte]"
  obtain rx1 where r1: "recvn 12 rx = Some (sh_banner sh, rx1)" "stream_of rx1 (?n @ sh_types sh @ ?t3)"
    using assms(2) f by (auto simp: encode_hello_def intro: recvn_stream [of rx "sh_banner sh" "?n @ sh_types sh @ ?t3"])
  obtain rx2 where r2: "recvn 1 rx1 = Some (?n, rx2)" "stream_of rx2 (sh_types sh @ ?t3)"
    by (rule recvn_stream [OF r1(2)]) simp_all
  have n: "unat (?n ! 0) = length (sh_types sh)" "?n ! 0 \<noteq> 0"
    using f by (simp, metis length_0_conv mod_less nth_Cons_0 unat_0 unat_word_of_nat_byte)
  obtain rx3 where r3: "recvn (unat (?n ! 0)) rx2 = Some (sh_types sh, rx3)" "stream_of rx3 ?t3"
    by (rule recvn_stream [OF r2(2)]) (simp_all only: n)
  obtain sent rx4 where r4: "client_auth des password (sh_types sh) rx3 = Inr (sent, rx4)" "stream_of rx4 ?t4"
    by (rule client_auth_ok [OF assms(1) r3(2)])
  obtain c where c: "client_init utf8 (rfb_banner @ sent) rx4 r = Inr c" "stream_of (cn_rx c) rest"
    "cn_fb c = init_fbuf (fst (sh_size sh)) (snd (sh_size sh))" "cn_hook c = r"
    by (rule client_init_ok [OF r4(2)]) (use f in simp_all)
  show ?thesis
  proof (rule that [OF _ c(2) _ c(4)])
    show "connect des utf8 password rx r = Inr c"
      using f n(2) by (simp only: connect_def r1(1) r2(1) r3(1) r4(1) c(1) option.case prod.case sum.case) simp
    show "displays (cn_fb c) (hello_screen sh)"
      using displays_init c(3) by (simp add: hello_screen_def)
    show "small (hello_screen sh)" using f by (simp add: small_def hello_screen_def blank_def)
  qed
qed

section \<open>Frames of a conforming server\<close>

fun draw_msg :: "server_msg \<Rightarrow> screen \<Rightarrow> screen" where
  "draw_msg (Update pad rs) s = fold draw rs s"
| "draw_msg _ s = s"

fun msgs_fit :: "screen \<Rightarrow> server_msg list \<Rightarrow> bool" where
  "msgs_fit s [] = True"
| "msgs_fit s (m # ms) \<longleftrightarrow> msg_fits s m \<and> msgs_fit (draw_msg m s) ms"

text \<open>The messages up to the first one that draws; the result has the messages left.\<close>

fun spec_frame ::
    "'r hooks \<Rightarrow> server_msg list \<Rightarrow> screen \<times> 'r \<Rightarrow>
     ((capture_error + nat) \<times> (screen \<times> 'r) \<times> server_msg list) option" where
  "spec_frame hk [] sr = None"
| "spec_frame hk (m # ms) sr =
     (case spec_msg hk m sr of
        (Inl e, sr) \<Rightarrow> Some (Inl e, sr, ms)
      | (Inr k, sr) \<Rightarrow> if k = 0 then spec_frame hk ms sr else Some (Inr k, sr, ms))"

lemma spec_rects_draws:
  "spec_rects hk rs applied (s, r) = (Inr k, s', r') \<Longrightarrow> s' = fold draw rs s"
  by (induction rs arbitrary: applied s r) (auto simp: Let_def split: prod.splits bool.splits)

lemma spec_msg_draws: "spec_msg hk m (s, r) = (Inr k, s', r') \<Longrightarrow> s' = draw_msg m s"
  by (cases m) (auto dest: spec_rects_draws)

lemma small_draws: "small s \<Longrightarrow> rects_fit s rs \<Longrightarrow> small (fold draw rs s)"
  by (induction rs arbitrary: s) (auto dest: small_draw)

lemma small_draw_msg: "small s \<Longrightarrow> msg_fits s m \<Longrightarrow> small (draw_msg m s)"
  by (cases m) (auto dest: small_draws)

lemma pump_frame_agrees:
  assumes "displays (cn_fb c) s" and "small s" and "msgs_fit s ms"
    and "stream_of (cn_rx c) (concat (map encode_msg ms) @ rest)"
    and "spec_frame hk ms (s, cn_hook c) = Some (res, (s', r'), left)" and "length ms < fuel"
  shows "\<exists>c'. pump_frame fuel hk c = Some (res, c') \<and> displays (cn_fb c') s' \<and> cn_hook c' = r' \<and>
    (res \<noteq> Inl HookRaised \<longrightarrow> stream_of (cn_rx c') (concat (map encode_msg left) @ rest))"
  using assms
proof (induction ms arbitrary: c s fuel)
  case (Cons m ms)
  obtain n where n: "fuel = Suc n" "length ms < n" using Cons.prems(6) by (cases fuel) auto
  have "agrees (spec_msg hk m (s, cn_hook c)) (concat (map encode_msg ms) @ rest) c (pump hk c)"
    using Cons.prems by (intro pump_agrees) simp_all
  then obtain rx fb where
    p: "pump hk c = (fst (spec_msg hk m (s, cn_hook c)),
          c\<lparr>cn_rx := rx, cn_fb := fb, cn_hook := snd (snd (spec_msg hk m (s, cn_hook c)))\<rparr>)"
    and d: "displays fb (fst (snd (spec_msg hk m (s, cn_hook c))))"
    and st: "fst (spec_msg hk m (s, cn_hook c)) \<noteq> Inl HookRaised \<longrightarrow> stream_of rx (concat (map encode_msg ms) @ rest)"
    unfolding agrees_def by (elim exE conjE) (rule that)
  obtain r1 s1 h1 where m: "spec_msg hk m (s, cn_hook c) = (r1, s1, h1)" by (metis prod_cases3)
  let ?c = "c\<lparr>cn_rx := rx, cn_fb := fb, cn_hook := h1\<rparr>"
  show ?case
  proof (cases "r1 = Inr 0")
    case True
    then have s1: "s1 = draw_msg m s" using m spec_msg_draws [of hk m s "cn_hook c" 0 s1 h1] by simp
    have fit: "msg_fits s m" "msgs_fit s1 ms" using Cons.prems(3) s1 by simp_all
    have "\<exists>c'. pump_frame n hk ?c = Some (res, c') \<and> displays (cn_fb c') s' \<and> cn_hook c' = r' \<and>
        (res \<noteq> Inl HookRaised \<longrightarrow> stream_of (cn_rx c') (concat (map encode_msg left) @ rest))"
      using d st fit small_draw_msg [OF Cons.prems(2) fit(1)] Cons.prems(5) m True s1 n(2)
      by (intro Cons.IH [of ?c s1]) simp_all
    then show ?thesis using n(1) p m True by simp
  next
    case False
    then have "res = r1" "s' = s1" "r' = h1" "left = ms"
      using Cons.prems(5) m by (auto split: sum.splits if_splits)
    then show ?thesis using n(1) p m d st False by (auto split: sum.splits)
  qed
qed simp

lemma screenshot_of_server:
  assumes "hello_fits des password sh" and "msgs_fit (hello_screen sh) ms"
    and "stream_of rx (encode_hello password sh @ concat (map encode_msg ms) @ rest)"
    and "spec_frame no_hooks ms (hello_screen sh, ()) = Some (Inr k, (s, ()), left)"
    and "length ms < fuel"
  shows "capture_screenshot fuel des utf8 zlib password rx =
    Some (case png_of zlib s of None \<Rightarrow> Inl TooLong | Some p \<Rightarrow> Inr p)"
proof -
  obtain c where c: "connect des utf8 password rx () = Inr c"
    "stream_of (cn_rx c) (concat (map encode_msg ms) @ rest)"
    "displays (cn_fb c) (hello_screen sh)" "small (hello_screen sh)"
    by (rule connect_ok [OF assms(1,3), of utf8 "()"])
  let ?c = "request_update False c"
  have "\<exists>c'. pump_frame fuel no_hooks ?c = Some (Inr k, c') \<and> displays (cn_fb c') s \<and> cn_hook c' = () \<and>
      (Inr k \<noteq> Inl HookRaised \<longrightarrow> stream_of (cn_rx c') (concat (map encode_msg left) @ rest))"
    using c assms(2,4,5) by (intro pump_frame_agrees) (simp_all add: request_update_def)
  then obtain c' where "pump_frame fuel no_hooks ?c = Some (Inr k, c')" "displays (cn_fb c') s" by blast
  then show ?thesis using c(1) png_encode_displays [of "cn_fb c'" s zlib] by (simp add: capture_screenshot_def)
qed

end
