(* ===== verification/Recording.thy ===== *)
theory Recording
  imports Capture PyJson
begin

text \<open>
  The session recorder of core/rfb_capture.py: the background thread that writes the \<open>.vrsrec\<close>
  stream, the bounds it runs under, and the operations on the recordings directory.  The directory
  is a list of named files in the order \<open>os.listdir\<close> gives them, beside the table of live recorders.
  Writes succeed; the clock is the sequence of its readings, and whether the stop event is set is a
  value per check.
\<close>

section \<open>Environment and state\<close>

record renv =
  re_clock :: "nat \<Rightarrow> time"
  re_stop :: "nat \<Rightarrow> bool"
  re_zlib :: "nat \<Rightarrow> bytes \<Rightarrow> bytes"
  re_des :: des
  re_utf8 :: "bytes \<Rightarrow> string"
  re_json_text :: "bytes \<Rightarrow> string option"
  re_fl :: float_io
  re_repr :: "pyval \<Rightarrow> string"
  re_password :: string
  re_max_seconds :: "string option"
  re_max_bytes :: "string option"
  re_pid :: int

record rstate =
  rs_file :: bytes
  rs_written :: nat
  rs_tick :: nat

record recdir =
  rd_files :: "(string \<times> bytes) list"
  rd_live :: "string list"
  rd_stopped :: "string list"

definition rec_magic :: bytes where
  "rec_magic = bytes_of ''VRSREC01''"

text \<open>\<open>max(lo, min(hi, int(os.environ.get(name, default))))\<close>, or the default when that raises.\<close>

definition env_int :: "string option \<Rightarrow> int \<Rightarrow> int \<Rightarrow> int \<Rightarrow> int" where
  "env_int v dflt lo hi =
     (case v of
        None \<Rightarrow> max lo (min hi dflt)
      | Some s \<Rightarrow> (case py_int s of None \<Rightarrow> dflt | Some n \<Rightarrow> max lo (min hi n)))"

definition max_seconds :: "renv \<Rightarrow> int" where
  "max_seconds env = env_int (re_max_seconds env) 7200 60 86400"

definition max_bytes :: "renv \<Rightarrow> int" where
  "max_bytes env = env_int (re_max_bytes env) (256 * 1024 * 1024) (1024 * 1024) (4 * 1024 * 1024 * 1024)"

section \<open>Blocks\<close>

text \<open>\<open>n.to_bytes(4, "big")\<close> raises OverflowError outside of the four bytes.\<close>

definition to_bytes4 :: "int \<Rightarrow> bytes option" where
  "to_bytes4 n = (if 0 \<le> n \<and> n < 2 ^ 32 then Some (to_be 4 (nat n)) else None)"

definition framed :: "bytes \<Rightarrow> bytes option" where
  "framed blob = map_option (\<lambda>n. n @ blob) (to_bytes4 (int (length blob)))"

text \<open>\<open>int((time.time() - started) * 1000)\<close>.\<close>

definition elapsed_ms :: "renv \<Rightarrow> time \<Rightarrow> rstate \<Rightarrow> int" where
  "elapsed_ms env started r = trunc ((re_clock env (rs_tick r) - started) * 1000)"

definition ticked :: "rstate \<Rightarrow> rstate" where
  "ticked r = r\<lparr>rs_tick := Suc (rs_tick r)\<rparr>"

definition rec_rect ::
    "renv \<Rightarrow> time \<Rightarrow> nat \<Rightarrow> nat \<Rightarrow> nat \<Rightarrow> nat \<Rightarrow> bytes \<Rightarrow> rstate \<Rightarrow> bool \<times> rstate" where
  "rec_rect env started x y w h px r =
     (case to_bytes4 (elapsed_ms env started r) of
        None \<Rightarrow> (False, ticked r)
      | Some t \<Rightarrow>
          (let blob = bytes_of ''R'' @ t @ to_be 2 x @ to_be 2 y @ to_be 2 w @ to_be 2 h @ re_zlib env 1 px
           in case framed blob of
                None \<Rightarrow> (False, ticked r)
              | Some b \<Rightarrow> (True, (ticked r)\<lparr>rs_file := rs_file r @ b,
                                         rs_written := rs_written r + length blob\<rparr>)))"

definition rec_resize :: "renv \<Rightarrow> time \<Rightarrow> nat \<Rightarrow> nat \<Rightarrow> rstate \<Rightarrow> bool \<times> rstate" where
  "rec_resize env started w h r =
     (case to_bytes4 (elapsed_ms env started r) of
        None \<Rightarrow> (False, ticked r)
      | Some t \<Rightarrow>
          (case framed (bytes_of ''Z'' @ t @ to_be 2 w @ to_be 2 h) of
             None \<Rightarrow> (False, ticked r)
           | Some b \<Rightarrow> (True, (ticked r)\<lparr>rs_file := rs_file r @ b\<rparr>)))"

definition rec_hooks :: "renv \<Rightarrow> time \<Rightarrow> rstate hooks" where
  "rec_hooks env started = \<lparr> on_rect = rec_rect env started, on_resize = rec_resize env started \<rparr>"

section \<open>The recorder thread\<close>

definition rec_header :: "string \<Rightarrow> string \<Rightarrow> time \<Rightarrow> 'r rconn \<Rightarrow> pyval" where
  "rec_header rec_id actor started c =
     PDict [(''id'', PStr rec_id), (''created'', PFloat started), (''operator'', PStr actor),
            (''width'', PInt (int (fb_w (cn_fb c)))), (''height'', PInt (int (fb_h (cn_fb c)))),
            (''name'', PStr (cn_name c)), (''channels'', PStr ''bgrx'')]"

definition header_blob :: "renv \<Rightarrow> string \<Rightarrow> string \<Rightarrow> time \<Rightarrow> 'r rconn \<Rightarrow> bytes" where
  "header_blob env rec_id actor started c =
     bytes_of (json_dumps (re_fl env) Spaced (rec_header rec_id actor started c))"

text \<open>The loop condition, in the order of its conjuncts; the clock is read when not stopped.\<close>

definition may_go_on :: "renv \<Rightarrow> time \<Rightarrow> nat \<Rightarrow> rstate \<Rightarrow> bool \<times> rstate" where
  "may_go_on env started i r =
     (if re_stop env i then (False, r)
      else (re_clock env (rs_tick r) - started < of_int (max_seconds env) \<and>
              int (rs_written r) < max_bytes env, ticked r))"

fun record_loop ::
    "renv \<Rightarrow> time \<Rightarrow> nat \<Rightarrow> nat \<Rightarrow> nat \<Rightarrow> rstate rconn \<Rightarrow> ((capture_error + unit) \<times> rstate rconn) option" where
  "record_loop env started fuel 0 i c = None"
| "record_loop env started fuel (Suc n) i c =
     (case may_go_on env started i (cn_hook c) of
        (False, r) \<Rightarrow> Some (Inr (), c\<lparr>cn_hook := r\<rparr>)
      | (True, r) \<Rightarrow>
          (case pump_frame fuel (rec_hooks env started) (request_update True (c\<lparr>cn_hook := r\<rparr>)) of
             None \<Rightarrow> None
           | Some (Inl e, c) \<Rightarrow> Some (Inl e, c)
           | Some (Inr _, c) \<Rightarrow> record_loop env started fuel n (Suc i) c))"

definition rec_finish :: "renv \<Rightarrow> time \<Rightarrow> rstate rconn \<Rightarrow> (capture_error + unit) \<times> rstate rconn" where
  "rec_finish env started c =
     (let r = cn_hook c
      in case to_bytes4 (elapsed_ms env started r) of
           None \<Rightarrow> (Inl HookRaised, c\<lparr>cn_hook := ticked r\<rparr>)
         | Some t \<Rightarrow>
             (Inr (), c\<lparr>cn_hook := (ticked r)\<lparr>rs_file := rs_file r @ to_be 4 5 @ bytes_of ''E'' @ t\<rparr>\<rparr>))"

text \<open>Everything after the file is open and its header written.\<close>

definition rec_stream ::
    "renv \<Rightarrow> time \<Rightarrow> nat \<Rightarrow> rstate rconn \<Rightarrow> ((capture_error + unit) \<times> rstate rconn) option" where
  "rec_stream env started fuel c =
     (case pump_frame fuel (rec_hooks env started) (request_update False c) of
        None \<Rightarrow> None
      | Some (Inl e, c) \<Rightarrow> Some (Inl e, c)
      | Some (Inr _, c) \<Rightarrow>
          (case record_loop env started fuel fuel 0 c of
             None \<Rightarrow> None
           | Some (Inl e, c) \<Rightarrow> Some (Inl e, c)
           | Some (Inr _, c) \<Rightarrow> Some (rec_finish env started c)))"

definition rec_name :: "string \<Rightarrow> string" where
  "rec_name rec_id = rec_id @ ''.vrsrec''"

definition live_marker :: "string \<Rightarrow> string" where
  "live_marker rec_id = rec_name rec_id @ ''.live''"

definition put_file :: "string \<Rightarrow> bytes \<Rightarrow> recdir \<Rightarrow> recdir" where
  "put_file name b d = d\<lparr>rd_files := AList.update name b (rd_files d)\<rparr>"

text \<open>The file after its opening, and the directory with the live marker.\<close>

definition rec_open :: "renv \<Rightarrow> string \<Rightarrow> string \<Rightarrow> time \<Rightarrow> 'r rconn \<Rightarrow> bytes option" where
  "rec_open env rec_id actor started c =
     map_option (\<lambda>hblob. rec_magic @ hblob) (framed (header_blob env rec_id actor started c))"

definition rec_opened :: "renv \<Rightarrow> string \<Rightarrow> bytes \<Rightarrow> recdir \<Rightarrow> recdir" where
  "rec_opened env rec_id b d =
     put_file (live_marker rec_id) (bytes_of (int_str (re_pid env))) (put_file (rec_name rec_id) b d)"

text \<open>The \<open>finally\<close> block.\<close>

definition rec_forget :: "string \<Rightarrow> recdir \<Rightarrow> recdir" where
  "rec_forget rec_id d =
     d\<lparr>rd_files := AList.delete (live_marker rec_id) (rd_files d), rd_live := removeAll rec_id (rd_live d)\<rparr>"

definition run_recorder ::
    "renv \<Rightarrow> nat \<Rightarrow> string \<Rightarrow> string \<Rightarrow> bytes list \<Rightarrow> recdir \<Rightarrow> ((capture_error + unit) \<times> recdir) option" where
  "run_recorder env fuel rec_id actor rx d =
     (let started = re_clock env 0
      in case connect (re_des env) (re_utf8 env) (re_password env) rx
                \<lparr> rs_file = [], rs_written = 0, rs_tick = 1 \<rparr> of
           Inl e \<Rightarrow> Some (Inl e, rec_forget rec_id d)
         | Inr c \<Rightarrow>
             (case rec_open env rec_id actor started c of
                None \<Rightarrow> Some (Inl TooLong, rec_forget rec_id (put_file (rec_name rec_id) rec_magic d))
              | Some b \<Rightarrow>
                  (case rec_stream env started fuel (c\<lparr>cn_hook := (cn_hook c)\<lparr>rs_file := b\<rparr>\<rparr>) of
                     None \<Rightarrow> None
                   | Some (res, c) \<Rightarrow>
                       Some (res, rec_forget rec_id
                         (put_file (rec_name rec_id) (rs_file (cn_hook c)) (rec_opened env rec_id b d))))))"

section \<open>The recordings directory\<close>

record rec_meta =
  rm_id :: string
  rm_created :: time
  rm_operator :: string
  rm_width :: int
  rm_height :: int
  rm_name :: string
  rm_size :: nat
  rm_running :: bool
  rm_ended :: bool

definition parse_header :: "renv \<Rightarrow> bytes \<Rightarrow> pyval option" where
  "parse_header env b =
     (if take 8 b \<noteq> rec_magic then None
      else case re_json_text env (take (be_nat (slice 8 12 b)) (drop 12 b)) of
             None \<Rightarrow> None
           | Some s \<Rightarrow> json_loads (re_fl env) s)"

definition file_has_end :: "bytes \<Rightarrow> bool" where
  "file_has_end b =
     (let tail = drop (length b - 9) b
      in 9 \<le> length tail \<and> be_nat (take 4 tail) = 5 \<and> tail ! 4 = 69)"

text \<open>\<open>str(v)\<close>.\<close>

definition str_of :: "renv \<Rightarrow> pyval \<Rightarrow> string" where
  "str_of env v = (case v of PStr s \<Rightarrow> s | PInt n \<Rightarrow> int_str n | _ \<Rightarrow> re_repr env v)"

text \<open>The entry of one file whose header is the dictionary \<open>h\<close>; \<open>None\<close> when a conversion raises.\<close>

definition meta_of ::
    "renv \<Rightarrow> recdir \<Rightarrow> string \<Rightarrow> (string \<times> pyval) list \<Rightarrow> bytes \<Rightarrow> rec_meta option" where
  "meta_of env d rec_id h b =
     (case (float_of (read_float (re_fl env)) (py_get ''created'' (PInt 0) h),
            int_of (py_get ''width'' (PInt 0) h), int_of (py_get ''height'' (PInt 0) h)) of
        (Some created, Some width, Some height) \<Rightarrow>
          Some \<lparr> rm_id = rec_id, rm_created = created, rm_operator = str_of env (py_get ''operator'' (PStr []) h),
                 rm_width = width, rm_height = height, rm_name = str_of env (py_get ''name'' (PStr []) h),
                 rm_size = length b,
                 rm_running = (rec_id \<in> set (rd_live d) \<or>
                               map_of (rd_files d) (rec_id @ ''.live'') \<noteq> None),
                 rm_ended = file_has_end b \<rparr>
      | _ \<Rightarrow> None)"

fun collect_metas :: "renv \<Rightarrow> recdir \<Rightarrow> (string \<times> bytes) list \<Rightarrow> rec_meta list outcome" where
  "collect_metas env d [] = Returned []"
| "collect_metas env d ((name, b) # rest) =
     (if \<not> suffix ''.vrsrec'' name then collect_metas env d rest
      else case parse_header env b of
             None \<Rightarrow> collect_metas env d rest
           | Some PNone \<Rightarrow> collect_metas env d rest
           | Some (PDict h) \<Rightarrow>
               (case meta_of env d (take (length name - 7) name) h b of
                  None \<Rightarrow> Raised
                | Some m \<Rightarrow>
                    (case collect_metas env d rest of Raised \<Rightarrow> Raised | Returned ms \<Rightarrow> Returned (m # ms)))
           | Some _ \<Rightarrow> Raised)"

definition list_recordings :: "renv \<Rightarrow> recdir \<Rightarrow> rec_meta list outcome" where
  "list_recordings env d =
     (case collect_metas env d (rd_files d) of
        Raised \<Rightarrow> Raised
      | Returned ms \<Rightarrow> Returned (sort_key (\<lambda>m. - rm_created m) ms))"

definition start_recording :: "time \<Rightarrow> string \<Rightarrow> recdir \<Rightarrow> string \<times> recdir" where
  "start_recording now hex d =
     (let rec_id = ''rec_'' @ int_str (trunc now) @ ''_'' @ hex
      in (rec_id, d\<lparr>rd_live := rec_id # removeAll rec_id (rd_live d)\<rparr>))"

definition stop_recording :: "string \<Rightarrow> recdir \<Rightarrow> bool \<times> recdir" where
  "stop_recording rec_id d =
     (if rec_id \<in> set (rd_live d) then (True, d\<lparr>rd_stopped := rec_id # rd_stopped d\<rparr>) else (False, d))"

text \<open>\<open>c.isalnum()\<close> for the characters up to U+00FF.\<close>

definition py_isalnum :: "char \<Rightarrow> bool" where
  "py_isalnum c =
     (let n = of_char c :: nat
      in 48 \<le> n \<and> n \<le> 57 \<or> 65 \<le> n \<and> n \<le> 90 \<or> 97 \<le> n \<and> n \<le> 122 \<or>
         n \<in> {0xAA, 0xB2, 0xB3, 0xB5, 0xB9, 0xBA, 0xBC, 0xBD, 0xBE} \<or>
         0xC0 \<le> n \<and> n \<noteq> 0xD7 \<and> n \<noteq> 0xF7)"

definition bad_rec_id :: "string \<Rightarrow> bool" where
  "bad_rec_id rec_id = (rec_id = [] \<or> \<not> list_all (\<lambda>c. py_isalnum c \<or> c = CHR ''_'' \<or> c = CHR ''-'') rec_id)"

datatype rec_error = BadRecId | NoSuchRecording | StillRunning

definition recording_file :: "string \<Rightarrow> recdir \<Rightarrow> rec_error + (bytes \<times> string)" where
  "recording_file rec_id d =
     (if bad_rec_id rec_id then Inl BadRecId
      else case map_of (rd_files d) (rec_name rec_id) of
             None \<Rightarrow> Inl NoSuchRecording
           | Some b \<Rightarrow> Inr (b, rec_name rec_id))"

definition delete_recording :: "string \<Rightarrow> recdir \<Rightarrow> (rec_error + bool) \<times> recdir" where
  "delete_recording rec_id d =
     (if bad_rec_id rec_id then (Inl BadRecId, d)
      else if rec_id \<in> set (rd_live d) then (Inl StillRunning, d)
      else case map_of (rd_files d) (rec_name rec_id) of
             None \<Rightarrow> (Inr False, d)
           | Some _ \<Rightarrow> (Inr True, d\<lparr>rd_files := AList.delete (rec_name rec_id) (rd_files d)\<rparr>))"

end
