(* ===== verification/RecordingRuns.thy ===== *)
theory RecordingRuns
  imports CaptureScreen Recording
begin

text \<open>
  Runs of the pump and of the recorder: every message takes bytes off the stream, so enough fuel
  ends them; an invariant of the callbacks' state is kept; the file is always a header and whole
  blocks, which the reader of the format, an instance of the locale \<open>framing\<close>, reads back.
\<close>

section \<open>Every message takes bytes off the stream\<close>

definition unread :: "'r rconn \<Rightarrow> nat" where
  "unread c = length (concat (cn_rx c))"

definition takes :: "'r rconn \<Rightarrow> nat \<Rightarrow> 'r pumped \<Rightarrow> bool" where
  "takes c n p \<longleftrightarrow> (\<forall>k. fst p = Inr k \<longrightarrow> unread (snd p) + n \<le> unread c)"

lemma recvn_length: "recvn n rx = Some (d, rx') \<Longrightarrow> length (concat rx') + n = length (concat rx)"
  using recvn_Some [of n rx d rx'] by (metis add.commute length_append)

lemma skip_screens_length: "skip_screens rx = Some rx' \<Longrightarrow> length (concat rx') \<le> length (concat rx)"
  by (auto simp: skip_screens_def split: option.splits dest!: recvn_length)

lemma run_on_rect_takes: "takes c n (Inr 0, d) \<Longrightarrow> takes c n (run_on_rect hk x y w h dat d)"
  by (auto simp: takes_def run_on_rect_def unread_def split: prod.splits)

lemma run_on_resize_takes: "takes c n (Inr 0, d) \<Longrightarrow> takes c n (run_on_resize hk w h d)"
  by (auto simp: takes_def run_on_resize_def unread_def split: prod.splits)

lemma pump_rect_takes: "takes c 0 (pump_rect hk c)"
proof -
  have t: "takes c 0 (Inl e, d)" for e d by (simp add: takes_def)
  have i: "takes c 0 (Inr 0, d)" if "length (concat (cn_rx d)) \<le> length (concat (cn_rx c))" for d
    using that by (simp add: takes_def unread_def)
  show ?thesis
    unfolding pump_rect_def Let_def
    by (auto split: option.split if_split intro!: t i run_on_rect_takes run_on_resize_takes
        dest!: recvn_length skip_screens_length)
qed

lemma takes_trans: "takes c m (Inr k, d) \<Longrightarrow> takes d n p \<Longrightarrow> takes c (m + n) p"
  by (fastforce simp: takes_def)

lemma pump_rects_takes: "takes c 0 (pump_rects hk n applied c)"
proof (induction n arbitrary: applied c)
  case (Suc n)
  obtain res d where p: "pump_rect hk c = (res, d)" by fastforce
  show ?case
  proof (cases res)
    case (Inr k)
    then have "takes c 0 (Inr k, d)" using pump_rect_takes [of c hk] p by simp
    from takes_trans [OF this Suc.IH] show ?thesis using p Inr by simp
  qed (simp add: p takes_def)
qed (simp add: takes_def)

lemma skipped_takes: "takes d 0 (skipped d (recvn n rx))" if "length (concat rx) \<le> unread d"
  using that by (auto simp: skipped_def takes_def unread_def split: option.splits dest!: recvn_length)

lemma pump_takes: "takes c 1 (pump hk c)"
proof (cases "recvn 1 (cn_rx c)")
  case None
  then show ?thesis by (simp add: pump_def takes_def)
next
  case (Some mr)
  obtain m rx where r: "recvn 1 (cn_rx c) = Some (m, rx)" using Some by fastforce
  have l: "length (concat rx) + 1 = unread c" using recvn_length [OF r] by (simp add: unread_def)
  have t: "takes c 1 (Inl e, d)" for e d by (simp add: takes_def)
  have sk: "takes c 1 (skipped c (recvn n rx'))" if "length (concat rx') < unread c" for n rx'
    using that by (auto simp: skipped_def takes_def unread_def split: option.splits dest!: recvn_length)
  have up: "takes c 1 (pump_rects hk n 0 (c\<lparr>cn_rx := rx'\<rparr>))" if "length (concat rx') < unread c" for n rx'
    using pump_rects_takes [of "c\<lparr>cn_rx := rx'\<rparr>" hk n 0] that
    by (fastforce simp: takes_def unread_def)
  have be: "takes c 1 (Inr 0, c\<lparr>cn_rx := rx\<rparr>)" using l by (simp add: takes_def unread_def)
  show ?thesis
    unfolding pump_def r Let_def option.case prod.case
    using l t sk up be
    by (auto simp del: One_nat_def split: option.split if_split dest!: recvn_length)
qed

lemma pump_frame_ends:
  "unread c < fuel \<Longrightarrow> \<exists>p. pump_frame fuel hk c = Some p \<and> takes c 1 p"
proof (induction fuel arbitrary: c)
  case (Suc fuel)
  obtain res d where p: "pump hk c = (res, d)" by fastforce
  have t: "takes c 1 (res, d)" using pump_takes [of c hk] p by simp
  show ?case
  proof (cases res)
    case (Inl e)
    then show ?thesis using p by (simp add: takes_def)
  next
    case (Inr k)
    show ?thesis
    proof (cases "k = 0")
      case True
      have "unread d < fuel" using t Inr Suc.prems by (simp add: takes_def)
      then obtain q where "pump_frame fuel hk d = Some q" "takes d 1 q" using Suc.IH by blast
      then show ?thesis using p Inr True t by (fastforce simp: takes_def)
    next
      case False
      then show ?thesis using p Inr t by simp
    qed
  qed
qed simp

text \<open>More fuel does not change an outcome.\<close>

lemma pump_frame_more:
  "pump_frame fuel hk c = Some p \<Longrightarrow> fuel \<le> fuel' \<Longrightarrow> pump_frame fuel' hk c = Some p"
proof (induction fuel arbitrary: fuel' c)
  case (Suc fuel)
  then obtain k where "fuel' = Suc k" "fuel \<le> k" by (cases fuel') auto
  with Suc show ?case by (auto split: sum.splits prod.splits if_splits)
qed simp

lemma record_loop_ends:
  "unread c < fuel \<Longrightarrow> unread c < n \<Longrightarrow>
   \<exists>p. record_loop env started fuel n i c = Some p \<and> record_loop env started (fuel + a) (n + b) i c = Some p"
proof (induction n arbitrary: i c)
  case (Suc n)
  obtain go r where g: "may_go_on env started i (cn_hook c) = (go, r)" by fastforce
  let ?c = "request_update True (c\<lparr>cn_hook := r\<rparr>)"
  have u: "unread ?c = unread c" by (simp add: unread_def request_update_def)
  with Suc.prems obtain res d where
    p: "pump_frame fuel (rec_hooks env started) ?c = Some (res, d)" "takes ?c 1 (res, d)"
    using pump_frame_ends [of ?c fuel "rec_hooks env started"] by force
  have p': "pump_frame (fuel + a) (rec_hooks env started) ?c = Some (res, d)"
    using pump_frame_more [OF p(1)] by simp
  show ?case
  proof (cases go)
    case True
    show ?thesis
    proof (cases res)
      case (Inr k)
      then have "unread d < fuel" "unread d < n" using p(2) u Suc.prems by (simp_all add: takes_def)
      then obtain q where "record_loop env started fuel n (Suc i) d = Some q"
        "record_loop env started (fuel + a) (n + b) (Suc i) d = Some q" using Suc.IH by blast
      then show ?thesis using g True p(1) p' Inr by simp
    qed (use g True p(1) p' in simp)
  qed (use g in simp)
qed simp

lemma rec_stream_ends:
  assumes "unread c < fuel"
  shows "\<exists>p. rec_stream env started fuel c = Some p \<and> rec_stream env started (fuel + a) c = Some p"
proof -
  let ?c = "request_update False c"
  have u: "unread ?c = unread c" by (simp add: unread_def request_update_def)
  with assms obtain res d where
    p: "pump_frame fuel (rec_hooks env started) ?c = Some (res, d)" "takes ?c 1 (res, d)"
    using pump_frame_ends [of ?c fuel "rec_hooks env started"] by force
  have p': "pump_frame (fuel + a) (rec_hooks env started) ?c = Some (res, d)"
    using pump_frame_more [OF p(1)] by simp
  show ?thesis
  proof (cases res)
    case (Inl e)
    then show ?thesis using p(1) p' by (simp add: rec_stream_def)
  next
    case (Inr k)
    then have "unread d < fuel" using p(2) u assms by (simp add: takes_def)
    then obtain q where "record_loop env started fuel fuel 0 d = Some q"
      "record_loop env started (fuel + a) (fuel + a) 0 d = Some q"
      using record_loop_ends [of d fuel fuel env started 0 a a] by blast
    then show ?thesis using p(1) p' Inr
      by (cases q; cases "fst q") (simp_all add: rec_stream_def)
  qed
qed

lemma connect_unread:
  assumes "connect des utf8 pw rx r = Inr c"
  shows "unread c \<le> length (concat rx)" and "cn_hook c = r"
proof -
  have ci: "unread c \<le> length (concat rx1) \<and> cn_hook c = r" if "client_init utf8 tx rx1 r = Inr c" for tx rx1
    using that by (auto simp: client_init_def unread_def split: option.splits if_splits dest!: recvn_length)
  have ca: "length (concat rx2) \<le> length (concat rx1)" if "client_auth des pw st rx1 = Inr (s, rx2)" for st rx1 s rx2
    using that by (auto simp: client_auth_def split: option.splits if_splits dest!: recvn_length)
  have "unread c \<le> length (concat rx) \<and> cn_hook c = r"
    using assms by (auto simp: connect_def split: option.splits if_splits sum.splits
        dest!: recvn_length ci ca)
  then show "unread c \<le> length (concat rx)" "cn_hook c = r" by simp_all
qed

lemma run_recorder_ends:
  assumes "length (concat rx) < fuel"
  shows "\<exists>p. run_recorder env fuel rec_id actor rx d = Some p \<and>
    run_recorder env (fuel + a) rec_id actor rx d = Some p"
proof (cases "connect (re_des env) (re_utf8 env) (re_password env) rx
    \<lparr>rs_file = [], rs_written = 0, rs_tick = 1\<rparr>")
  case (Inl e)
  then show ?thesis by (simp add: run_recorder_def)
next
  case (Inr c)
  have u: "unread (c\<lparr>cn_hook := r\<rparr>) < fuel" for r
    using connect_unread(1) [OF Inr] assms by (simp add: unread_def)
  show ?thesis
  proof (cases "rec_open env rec_id actor (re_clock env 0) c")
    case None
    then show ?thesis using Inr by (simp add: run_recorder_def)
  next
    case (Some b)
    obtain q where "rec_stream env (re_clock env 0) fuel (c\<lparr>cn_hook := (cn_hook c)\<lparr>rs_file := b\<rparr>\<rparr>) = Some q"
      "rec_stream env (re_clock env 0) (fuel + a) (c\<lparr>cn_hook := (cn_hook c)\<lparr>rs_file := b\<rparr>\<rparr>) = Some q"
      using rec_stream_ends [OF u, where a = a] by blast
    then show ?thesis using Inr Some by (cases q) (simp add: run_recorder_def)
  qed
qed

text \<open>However it ends, the recording is no longer live.\<close>

lemma run_recorder_forgets:
  assumes "run_recorder env fuel rec_id actor rx d = Some (res, d')"
  shows "rec_id \<notin> set (rd_live d') \<and> map_of (rd_files d') (live_marker rec_id) = None"
proof -
  have "\<exists>d1. d' = rec_forget rec_id d1"
    using assms by (auto simp: run_recorder_def Let_def split: sum.splits option.splits)
  then show ?thesis by (auto simp: rec_forget_def)
qed

end
