(* ===== verification/RecordingFile.thy ===== *)
theory RecordingFile
  imports RecordingRuns
begin

text \<open>
  The \<open>.vrsrec\<close> format as a specification: events with their encoding and a block reader, which meets
  the contract \<open>framing\<close>.  Whatever the server sends, the recorder's file is the header followed by
  whole blocks, so the reader returns exactly the events that were written.
\<close>

section \<open>Events and their reader\<close>

datatype rec_event =
    RectEvent nat nat nat nat nat bytes
  | SizeEvent nat nat nat
  | EndEvent nat

fun event_payload :: "rec_event \<Rightarrow> bytes" where
  "event_payload (RectEvent t x y w h z) =
     bytes_of ''R'' @ to_be 4 t @ to_be 2 x @ to_be 2 y @ to_be 2 w @ to_be 2 h @ z"
| "event_payload (SizeEvent t w h) = bytes_of ''Z'' @ to_be 4 t @ to_be 2 w @ to_be 2 h"
| "event_payload (EndEvent t) = bytes_of ''E'' @ to_be 4 t"

fun event_fits :: "rec_event \<Rightarrow> bool" where
  "event_fits (RectEvent t x y w h z) \<longleftrightarrow>
     t < 2 ^ 32 \<and> x < 65536 \<and> y < 65536 \<and> w < 65536 \<and> h < 65536 \<and> 13 + length z < 2 ^ 32"
| "event_fits (SizeEvent t w h) \<longleftrightarrow> t < 2 ^ 32 \<and> w < 65536 \<and> h < 65536"
| "event_fits (EndEvent t) \<longleftrightarrow> t < 2 ^ 32"

definition encode_event :: "rec_event \<Rightarrow> bytes" where
  "encode_event e = to_be 4 (length (event_payload e)) @ event_payload e"

definition event_of :: "bytes \<Rightarrow> rec_event option" where
  "event_of p =
     (let t = be_nat (slice 1 5 p) in
      if 13 \<le> length p \<and> p ! 0 = 82 then
        Some (RectEvent t (be_nat (slice 5 7 p)) (be_nat (slice 7 9 p)) (be_nat (slice 9 11 p))
                (be_nat (slice 11 13 p)) (drop 13 p))
      else if length p = 9 \<and> p ! 0 = 90 then Some (SizeEvent t (be_nat (slice 5 7 p)) (be_nat (slice 7 9 p)))
      else if length p = 5 \<and> p ! 0 = 69 then Some (EndEvent t)
      else None)"

definition read_event :: "bytes \<Rightarrow> (rec_event, byte) pstep" where
  "read_event buf =
     (if length buf < 4 then PNeed
      else let n = be_nat (take 4 buf) in
        if length buf < 4 + n then PNeed
        else (case event_of (take n (drop 4 buf)) of
                None \<Rightarrow> PBad
              | Some e \<Rightarrow> POk e (drop (4 + n) buf)))"

definition read_events :: "bytes \<Rightarrow> (rec_event list \<times> bytes) option" where
  "read_events = parse_loop read_event"

text \<open>The events of a recording: what follows the magic and the header.\<close>

definition recorded_events :: "bytes \<Rightarrow> (rec_event list \<times> bytes) option" where
  "recorded_events b = read_events (drop (12 + be_nat (slice 8 12 b)) b)"

lemma read_event_ok:
  assumes "read_event buf = POk e r"
  shows "read_event (buf @ zs) = POk e (r @ zs)" and "length r < length buf"
  using assms by (auto simp: read_event_def Let_def split: if_splits option.splits)

lemma read_event_bad: "read_event buf = PBad \<Longrightarrow> read_event (buf @ zs) = PBad"
  by (auto simp: read_event_def Let_def split: if_splits option.splits)

interpretation vrs: framing read_event
  by unfold_locales (simp_all add: read_event_ok read_event_bad)

lemma bytes_of_tags: "bytes_of ''R'' = [82]" "bytes_of ''Z'' = [90]" "bytes_of ''E'' = [69]"
  by (simp_all add: bytes_of_def)

lemma event_of_payload: "event_fits e \<Longrightarrow> event_of (event_payload e) = Some e"
  by (cases e) (simp_all add: event_of_def Let_def bytes_of_tags slice_def be_nat_to_be2 be_nat_to_be)

lemma payload_length: "event_fits e \<Longrightarrow> length (event_payload e) < 2 ^ 32"
  by (cases e) (simp_all add: bytes_of_tags)

lemma read_encoded:
  assumes "event_fits e"
  shows "read_event (encode_event e @ zs) = POk e zs"
proof -
  have "be_nat (to_be 4 (length (event_payload e))) = length (event_payload e)"
    using payload_length [OF assms] by (intro be_nat_to_be) simp
  then show ?thesis
    using event_of_payload [OF assms] by (simp add: read_event_def encode_event_def)
qed

lemma read_events_encoded:
  "list_all event_fits es \<Longrightarrow> read_events (concat (map encode_event es)) = Some (es, [])"
proof (induction es)
  case Nil
  have "read_event [] = PNeed" by (simp add: read_event_def)
  then show ?case by (simp add: read_events_def vrs.loop_need)
next
  case (Cons e es)
  then show ?case
    using vrs.loop_ok [OF read_encoded [of e "concat (map encode_event es)"]]
    by (simp add: read_events_def)
qed

section \<open>What the callbacks keep\<close>

text \<open>An invariant of the callbacks' state that every callback with wire coordinates keeps.\<close>

definition hooks_keep :: "('r \<Rightarrow> bool) \<Rightarrow> 'r hooks \<Rightarrow> bool" where
  "hooks_keep I hk \<longleftrightarrow>
     (\<forall>x y w h d r. x < 65536 \<longrightarrow> y < 65536 \<longrightarrow> w < 65536 \<longrightarrow> h < 65536 \<longrightarrow> I r \<longrightarrow>
        I (snd (on_rect hk x y w h d r)) \<and> I (snd (on_resize hk w h r)))"

lemma hooks_keepD:
  assumes "hooks_keep I hk" and "x < 65536" "y < 65536" "w < 65536" "h < 65536" and "I (cn_hook c)"
  shows "I (cn_hook (snd (run_on_rect hk x y w h d c)))" "I (cn_hook (snd (run_on_resize hk w h c)))"
proof -
  have "I (snd (on_rect hk x y w h d (cn_hook c)))" "I (snd (on_resize hk w h (cn_hook c)))"
    using assms unfolding hooks_keep_def by blast+
  then show "I (cn_hook (snd (run_on_rect hk x y w h d c)))" "I (cn_hook (snd (run_on_resize hk w h c)))"
    by (simp_all add: run_on_rect_def run_on_resize_def case_prod_beta)
qed

lemma be_nat_slice2: "be_nat (slice i (i + 2) bs) < 65536"
proof -
  have "be_nat (slice i (i + 2) bs) < 256 ^ length (slice i (i + 2) bs)" by (rule be_nat_bound)
  also have "\<dots> \<le> 256 ^ 2" by (intro power_increasing) simp_all
  finally show ?thesis by simp
qed

lemma wire_coordinates:
  "be_nat (slice 0 2 bs) < 65536" "be_nat (slice 2 4 bs) < 65536"
  "be_nat (slice 4 6 bs) < 65536" "be_nat (slice 6 8 bs) < 65536"
  using be_nat_slice2 [of 0 bs, unfolded add_0] be_nat_slice2 [of 2 bs] be_nat_slice2 [of 4 bs]
    be_nat_slice2 [of 6 bs]
  by (simp_all del: slice_prefix)

lemma pump_rect_keeps:
  assumes "hooks_keep I hk" and "I (cn_hook c)"
  shows "I (cn_hook (snd (pump_rect hk c)))"
  using assms(2) unfolding pump_rect_def Let_def
  by (auto simp del: slice_prefix split: option.split if_split
      intro!: hooks_keepD [OF assms(1) wire_coordinates] hooks_keepD(2) [OF assms(1) wire_coordinates])

lemma pump_rects_keeps:
  "hooks_keep I hk \<Longrightarrow> I (cn_hook c) \<Longrightarrow> I (cn_hook (snd (pump_rects hk n applied c)))"
proof (induction n arbitrary: applied c)
  case (Suc n)
  obtain res d where p: "pump_rect hk c = (res, d)" by fastforce
  have "I (cn_hook d)" using pump_rect_keeps [OF Suc.prems] p by simp
  then show ?case using Suc.IH [OF Suc.prems(1)] p by (simp split: sum.split)
qed simp

lemma pump_keeps:
  "hooks_keep I hk \<Longrightarrow> I (cn_hook c) \<Longrightarrow> I (cn_hook (snd (pump hk c)))"
  by (auto simp: pump_def Let_def skipped_def pump_rects_keeps simp del: slice_prefix split: option.split)

lemma pump_frame_keeps:
  "hooks_keep I hk \<Longrightarrow> I (cn_hook c) \<Longrightarrow> pump_frame fuel hk c = Some (res, d) \<Longrightarrow> I (cn_hook d)"
proof (induction fuel arbitrary: c)
  case (Suc fuel)
  obtain r1 d1 where p: "pump hk c = (r1, d1)" by fastforce
  have "I (cn_hook d1)" using pump_keeps [OF Suc.prems(1,2)] p by simp
  then show ?case using Suc p by (auto split: sum.splits if_splits)
qed simp

section \<open>The file of a run\<close>

text \<open>A prefix followed by the encodings of events; the terminator is not among them.\<close>

fun is_end :: "rec_event \<Rightarrow> bool" where
  "is_end (EndEvent t) = True"
| "is_end _ = False"

definition file_events :: "bytes \<Rightarrow> rec_event list \<Rightarrow> bytes \<Rightarrow> bool" where
  "file_events b es f \<longleftrightarrow> f = b @ concat (map encode_event es) \<and> list_all event_fits es"

definition whole_blocks :: "bytes \<Rightarrow> rstate \<Rightarrow> bool" where
  "whole_blocks b r \<longleftrightarrow> (\<exists>es. file_events b es (rs_file r) \<and> list_all (\<lambda>e. \<not> is_end e) es)"

lemma whole_blocks_snoc:
  assumes "whole_blocks b r" and "event_fits e" and "\<not> is_end e" and "rs_file r' = rs_file r @ encode_event e"
  shows "whole_blocks b r'"
proof -
  obtain es where "file_events b es (rs_file r)" "list_all (\<lambda>e. \<not> is_end e) es"
    using assms(1) unfolding whole_blocks_def by blast
  then show ?thesis
    unfolding whole_blocks_def using assms(2-4)
    by (intro exI [of _ "es @ [e]"]) (simp add: file_events_def)
qed

lemma to_bytes4_Some: "to_bytes4 n = Some t \<longleftrightarrow> 0 \<le> n \<and> nat n < 2 ^ 32 \<and> t = to_be 4 (nat n)"
  by (auto simp: to_bytes4_def)

lemma framed_Some: "framed blob = Some b \<longleftrightarrow> length blob < 2 ^ 32 \<and> b = to_be 4 (length blob) @ blob"
  by (auto simp: framed_def to_bytes4_def)

lemma whole_blocks_ticked [simp]: "whole_blocks b (ticked r) = whole_blocks b r"
  by (simp add: whole_blocks_def ticked_def)

lemma rec_rect_keeps:
  assumes "x < 65536" "y < 65536" "w < 65536" "h < 65536" and "whole_blocks b r"
  shows "whole_blocks b (snd (rec_rect env started x y w h px r))"
proof (cases "to_bytes4 (elapsed_ms env started r)")
  case (Some t)
  let ?e = "RectEvent (nat (elapsed_ms env started r)) x y w h (re_zlib env 1 px)"
  let ?blob = "bytes_of ''R'' @ t @ to_be 2 x @ to_be 2 y @ to_be 2 w @ to_be 2 h @ re_zlib env 1 px"
  have t: "nat (elapsed_ms env started r) < 2 ^ 32" "t = to_be 4 (nat (elapsed_ms env started r))"
    using Some by (simp_all add: to_bytes4_Some)
  then have p: "?blob = event_payload ?e" by simp
  show ?thesis
  proof (cases "framed ?blob")
    case (Some bb)
    then have f: "length ?blob < 2 ^ 32" "bb = encode_event ?e"
      using p by (simp_all only: framed_Some encode_event_def)
    have "event_fits ?e" using f(1) t(1) assms(1-4) t(2) by (simp add: bytes_of_tags)
    then show ?thesis
      using whole_blocks_snoc [OF assms(5), of ?e] \<open>to_bytes4 _ = Some t\<close> Some f(2)
      by (simp add: rec_rect_def Let_def)
  qed (use Some assms(5) in \<open>simp add: rec_rect_def Let_def\<close>)
qed (use assms(5) in \<open>simp add: rec_rect_def\<close>)

lemma rec_resize_keeps:
  assumes "w < 65536" "h < 65536" and "whole_blocks b r"
  shows "whole_blocks b (snd (rec_resize env started w h r))"
proof (cases "to_bytes4 (elapsed_ms env started r)")
  case (Some t)
  let ?e = "SizeEvent (nat (elapsed_ms env started r)) w h"
  have t: "nat (elapsed_ms env started r) < 2 ^ 32" "t = to_be 4 (nat (elapsed_ms env started r))"
    using Some by (simp_all add: to_bytes4_Some)
  have f: "framed (bytes_of ''Z'' @ t @ to_be 2 w @ to_be 2 h) = Some (encode_event ?e)"
    using t(2) by (simp add: framed_Some encode_event_def bytes_of_tags)
  show ?thesis
    using whole_blocks_snoc [OF assms(3), of ?e] t(1) assms(1,2) Some f
    by (simp add: rec_resize_def)
qed (use assms(3) in \<open>simp add: rec_resize_def\<close>)

lemma rec_hooks_keep: "hooks_keep (whole_blocks b) (rec_hooks env started)"
  by (simp add: hooks_keep_def rec_hooks_def rec_rect_keeps rec_resize_keeps)

lemma record_loop_keeps:
  "whole_blocks b (cn_hook c) \<Longrightarrow> record_loop env started fuel n i c = Some (res, d) \<Longrightarrow>
   whole_blocks b (cn_hook d)"
proof (induction n arbitrary: i c)
  case (Suc n)
  obtain go r where g: "may_go_on env started i (cn_hook c) = (go, r)" by fastforce
  have r: "whole_blocks b r"
    using g Suc.prems(1) by (auto simp: may_go_on_def split: if_splits)
  let ?c = "request_update True (c\<lparr>cn_hook := r\<rparr>)"
  have k: "whole_blocks b (cn_hook d1)" if "pump_frame fuel (rec_hooks env started) ?c = Some (r1, d1)" for r1 d1
    using pump_frame_keeps [OF rec_hooks_keep _ that] r by (simp add: request_update_def)
  show ?case
    using Suc.prems(2) g r Suc.IH k
    by (auto split: bool.splits option.splits sum.splits prod.splits)
qed simp

text \<open>A finished stream: whole blocks, and after a clean end the terminator.\<close>

lemma rec_stream_file:
  assumes "whole_blocks b (cn_hook c)" and "rec_stream env started fuel c = Some (res, d)"
  shows "\<exists>es. file_events b es (rs_file (cn_hook d)) \<and> (res = Inr () \<longrightarrow> es \<noteq> [] \<and> is_end (last es)) \<and>
    (res \<noteq> Inr () \<longrightarrow> list_all (\<lambda>e. \<not> is_end e) es)"
proof -
  let ?c = "request_update False c"
  have c: "whole_blocks b (cn_hook ?c)" using assms(1) by (simp add: request_update_def)
  have open_end: ?thesis if "whole_blocks b (cn_hook d)" "res \<noteq> Inr ()"
    using that unfolding whole_blocks_def by auto
  obtain r1 d1 where p: "pump_frame fuel (rec_hooks env started) ?c = Some (r1, d1)"
    using assms(2) by (auto simp: rec_stream_def split: option.splits)
  have k1: "whole_blocks b (cn_hook d1)" by (rule pump_frame_keeps [OF rec_hooks_keep c p])
  show ?thesis
  proof (cases r1)
    case (Inl e)
    then show ?thesis using assms(2) p k1 by (intro open_end) (auto simp: rec_stream_def)
  next
    case (Inr k)
    then obtain r2 d2 where l: "record_loop env started fuel fuel 0 d1 = Some (r2, d2)"
      using assms(2) p by (auto simp: rec_stream_def split: option.splits)
    have k2: "whole_blocks b (cn_hook d2)" by (rule record_loop_keeps [OF k1 l])
    show ?thesis
    proof (cases r2)
      case (Inl e)
      then show ?thesis using assms(2) p Inr l k2 by (intro open_end) (auto simp: rec_stream_def)
    next
      case (Inr u)
      then have f: "(res, d) = rec_finish env started d2"
        using assms(2) p \<open>r1 = Inr k\<close> l by (simp add: rec_stream_def)
      let ?t = "elapsed_ms env started (cn_hook d2)"
      show ?thesis
      proof (cases "to_bytes4 ?t")
        case None
        then show ?thesis using f k2 open_end by (simp add: rec_finish_def Let_def)
      next
        case (Some t)
        then have t: "nat ?t < 2 ^ 32" "t = to_be 4 (nat ?t)" by (simp_all add: to_bytes4_Some)
        obtain es where es: "file_events b es (rs_file (cn_hook d2))"
          using k2 unfolding whole_blocks_def by blast
        have "file_events b (es @ [EndEvent (nat ?t)]) (rs_file (cn_hook d))"
          using f Some t es
          by (simp add: rec_finish_def Let_def file_events_def encode_event_def bytes_of_tags)
        moreover have "res = Inr ()" using f Some by (simp add: rec_finish_def Let_def)
        ultimately show ?thesis by (intro exI [of _ "es @ [EndEvent (nat ?t)]"]) simp
      qed
    qed
  qed
qed

section \<open>Reading a recording back\<close>

text \<open>\<open>json.loads\<close> decodes bytes that are printable ASCII to those characters.\<close>

definition ascii_text :: "(bytes \<Rightarrow> string option) \<Rightarrow> bool" where
  "ascii_text dec \<longleftrightarrow> (\<forall>s. (\<forall>c \<in> set s. printable c) \<longrightarrow> dec (bytes_of s) = Some s)"

lemma text_of_bytes_of [simp]: "text_of (bytes_of s) = s"
  by (induction s) (simp_all add: text_of_def bytes_of_def)

lemma ascii_text_latin: "ascii_text (\<lambda>b. Some (text_of b))"
  by (simp add: ascii_text_def)

lemma header_reads:
  assumes "json_floats (re_fl env)" and "ascii_text (re_json_text env)"
    and "rec_open env rec_id actor started c = Some b" and "file_events b es f"
  shows "parse_header env f = Some (rec_header rec_id actor started c)"
    and "recorded_events f = Some (es, [])"
proof -
  let ?h = "header_blob env rec_id actor started c"
  have b: "length ?h < 2 ^ 32" "b = rec_magic @ to_be 4 (length ?h) @ ?h"
    using assms(3) by (auto simp: rec_open_def framed_Some)
  have f: "f = rec_magic @ to_be 4 (length ?h) @ ?h @ concat (map encode_event es)" "list_all event_fits es"
    using assms(4) b(2) by (simp_all add: file_events_def)
  have m: "length rec_magic = 8" by (simp add: rec_magic_def bytes_of_def)
  have n: "be_nat (slice 8 12 f) = length ?h"
    using b(1) m by (simp add: f(1) slice_def be_nat_to_be)
  have h: "re_json_text env ?h = Some (json_dumps (re_fl env) Spaced (rec_header rec_id actor started c))"
    using assms(2) json_printable [OF assms(1)] by (simp add: ascii_text_def header_blob_def)
  have j: "json_loads (re_fl env) (json_dumps (re_fl env) Spaced (rec_header rec_id actor started c)) =
      Some (rec_header rec_id actor started c)"
    by (rule json_loads_dumps [OF assms(1)]) (simp add: rec_header_def)
  have "take 8 f = rec_magic" "take (length ?h) (drop 12 f) = ?h"
    "drop (12 + length ?h) f = concat (map encode_event es)"
    using m by (simp_all add: f(1))
  then show "parse_header env f = Some (rec_header rec_id actor started c)"
    "recorded_events f = Some (es, [])"
    using n h j read_events_encoded [OF f(2)]
    by (simp_all add: parse_header_def recorded_events_def del: drop_drop)
qed

lemma ended_file: "file_events b es f \<Longrightarrow> es \<noteq> [] \<Longrightarrow> is_end (last es) \<Longrightarrow> file_has_end f"
proof -
  assume f: "file_events b es f" "es \<noteq> []" "is_end (last es)"
  then obtain t where t: "last es = EndEvent t" by (cases "last es") simp_all
  have "concat (map encode_event es) = concat (map encode_event (butlast es)) @ encode_event (EndEvent t)"
    by (metis f(2) t append_butlast_last_id concat.simps(1) concat_append list.simps(8,9) concat.simps(2) append_Nil2 map_append)
  then have "f = (b @ concat (map encode_event (butlast es))) @ to_be 4 5 @ [69] @ to_be 4 t"
    using f(1) by (simp add: file_events_def encode_event_def bytes_of_tags)
  then obtain p where "f = p @ to_be 4 5 @ [69] @ to_be 4 t" by blast
  then show ?thesis by (simp add: file_has_end_def be_nat_to_be nth_append)
qed

lemma recording_listed:
  assumes "parse_header env f = Some (rec_header rec_id actor started c)"
  shows "\<exists>m. collect_metas env d [(rec_name rec_id, f)] = Returned [m] \<and>
    rm_id m = rec_id \<and> rm_created m = started \<and> rm_operator m = actor \<and>
    rm_width m = int (fb_w (cn_fb c)) \<and> rm_height m = int (fb_h (cn_fb c)) \<and> rm_name m = cn_name c \<and>
    rm_size m = length f \<and> rm_ended m = file_has_end f"
  using assms trunc_of_int [of "int (fb_w (cn_fb c))"] trunc_of_int [of "int (fb_h (cn_fb c))"]
  by (simp add: rec_header_def meta_of_def py_get_def float_of_def int_of_def str_of_def rec_name_def suffix_def)

lemma marker_differs: "live_marker rec_id \<noteq> rec_name rec_id"
  by (simp add: live_marker_def)

lemma run_recorder_file:
  assumes "run_recorder env fuel rec_id actor rx d = Some (res, d')"
    and "connect (re_des env) (re_utf8 env) (re_password env) rx
           \<lparr>rs_file = [], rs_written = 0, rs_tick = 1\<rparr> = Inr c"
    and "rec_open env rec_id actor (re_clock env 0) c = Some b"
  shows "\<exists>es f. map_of (rd_files d') (rec_name rec_id) = Some f \<and> file_events b es f \<and>
    (res = Inr () \<longrightarrow> es \<noteq> [] \<and> is_end (last es)) \<and> (res \<noteq> Inr () \<longrightarrow> list_all (\<lambda>e. \<not> is_end e) es)"
proof -
  let ?c = "c\<lparr>cn_hook := (cn_hook c)\<lparr>rs_file := b\<rparr>\<rparr>"
  obtain e where s: "rec_stream env (re_clock env 0) fuel ?c = Some (res, e)"
    and d': "d' = rec_forget rec_id (put_file (rec_name rec_id) (rs_file (cn_hook e)) (rec_opened env rec_id b d))"
    using assms by (auto simp: run_recorder_def split: option.splits)
  have "whole_blocks b (cn_hook ?c)"
    by (simp add: whole_blocks_def file_events_def exI [of _ "[]"])
  from rec_stream_file [OF this s] obtain es where
    "file_events b es (rs_file (cn_hook e))" "res = Inr () \<longrightarrow> es \<noteq> [] \<and> is_end (last es)"
    "res \<noteq> Inr () \<longrightarrow> list_all (\<lambda>e. \<not> is_end e) es" by blast
  moreover have "map_of (rd_files d') (rec_name rec_id) = Some (rs_file (cn_hook e))"
    using marker_differs [of rec_id] by (simp add: d' rec_forget_def put_file_def)
  ultimately show ?thesis by blast
qed

end
