(* ===== verification/CaptureProperties.thy ===== *)
theory CaptureProperties
  imports Screenshot RecordingFile
begin

text \<open>
  The properties of the desktop capture with their witnesses: what a screenshot shows, what the pump
  keeps, that a recorder ends, and that its file is read back; and the facts behind the findings.
\<close>

section \<open>Screenshots\<close>

definition sample_hello :: server_hello where
  "sample_hello = \<lparr> sh_banner = rfb_banner, sh_types = [1], sh_challenge = [], sh_format = replicate 16 0,
     sh_size = (2, 1), sh_name = [118, 110, 99] \<rparr>"

definition sample_frame :: server_msg where
  "sample_frame = Update 0 [RawRect 0 0 2 1 [1, 2, 3, 0, 4, 5, 6, 0], CopyRect 1 0 1 1 0 0]"

definition sample_screen :: screen where
  "sample_screen = draw (CopyRect 1 0 1 1 0 0) (draw (RawRect 0 0 2 1 [1, 2, 3, 0, 4, 5, 6, 0]) (blank 2 1))"

definition sample_stream :: bytes where
  "sample_stream = encode_hello [] sample_hello @ concat (map encode_msg [Bell, sample_frame]) @ []"

text \<open>The stream cut into a first chunk of five bytes and the rest.\<close>

definition sample_chunks :: "bytes list" where
  "sample_chunks = [take 5 sample_stream, drop 5 sample_stream]"

lemma sample_hello_fits: "hello_fits None [] sample_hello"
  by (simp add: hello_fits_def sample_hello_def answers_challenge_def rfb_banner_def bytes_of_def)

lemma sample_frame_fits: "msgs_fit (hello_screen sample_hello) [Bell, sample_frame]"
  by (simp add: sample_frame_def hello_screen_def sample_hello_def blank_def paint_def)

lemma sample_chunks_stream: "stream_of sample_chunks sample_stream"
proof -
  have "5 < length sample_stream" by code_simp
  then show ?thesis by (auto simp: stream_of_def sample_chunks_def all_nonempty_def)
qed

text \<open>C13: Against a server that conforms to the protocol, with its bytes cut into
  chunks anywhere, a screenshot is the PNG of the desktop that the messages up to the first drawing one
  describe: every pixel with its three channels in PNG order and opaque, row by row.\<close>

theorem screenshot_shows_desktop:
  assumes "hello_fits des password sh" and "msgs_fit (hello_screen sh) ms"
    and "stream_of rx (encode_hello password sh @ concat (map encode_msg ms) @ rest)"
    and "spec_frame no_hooks ms (hello_screen sh, ()) = Some (Inr k, (s, ()), later)"
    and "length ms < fuel"
  shows "capture_screenshot fuel des utf8 zlib password rx =
    Some (case png_of zlib s of None \<Rightarrow> Inl TooLong | Some p \<Rightarrow> Inr p)"
  using assms by (rule screenshot_of_server)

theorem screenshot_shows_desktop_witness:
  "capture_screenshot 3 None text_of (\<lambda>_ b. b) [] sample_chunks =
     Some (case png_of (\<lambda>_ b. b) sample_screen of None \<Rightarrow> Inl TooLong | Some p \<Rightarrow> Inr p) \<and>
   raster sample_screen = [0, 3, 2, 1, 255, 3, 2, 1, 255]"
proof (intro conjI)
  have f: "spec_frame no_hooks [Bell, sample_frame] (hello_screen sample_hello, ()) =
      Some (Inr 2, (sample_screen, ()), [])"
    by (simp add: sample_frame_def sample_screen_def hello_screen_def sample_hello_def no_hooks_def Let_def)
  show "capture_screenshot 3 None text_of (\<lambda>_ b. b) [] sample_chunks =
     Some (case png_of (\<lambda>_ b. b) sample_screen of None \<Rightarrow> Inl TooLong | Some p \<Rightarrow> Inr p)"
    using screenshot_shows_desktop [OF sample_hello_fits sample_frame_fits _ f, of sample_chunks "[]" 3 text_of "\<lambda>_ b. b"]
      sample_chunks_stream by (simp add: sample_stream_def)
qed code_simp

section \<open>The framebuffer\<close>

definition fb_typed :: "fbuf \<Rightarrow> bool" where
  "fb_typed fb \<longleftrightarrow> length (fb_px fb) = fb_w fb * fb_h fb * 4 \<and> fb_w fb < 65536 \<and> fb_h fb < 65536"

text \<open>C14: A message of a conforming server leaves a framebuffer of exactly
  width times height times four bytes, so that no export can fail on it but for its size, and the pump
  returns, draws and calls back what the specification of the message says.\<close>

theorem framebuffer_typed:
  assumes "displays (cn_fb c) s" and "small s" and "msg_fits s m"
    and "stream_of (cn_rx c) (encode_msg m @ rest)"
    and "spec_msg hk m (s, cn_hook c) = (Inr k, s', r')" and "pump hk c = (res, c')"
  shows "fb_typed (cn_fb c') \<and> png_encode zlib (cn_fb c') \<noteq> Inl WrongPixelCount \<and>
    res = Inr k \<and> displays (cn_fb c') s' \<and> cn_hook c' = r' \<and> stream_of (cn_rx c') rest"
proof -
  have a: "res = Inr k" "displays (cn_fb c') s'" "cn_hook c' = r'" "stream_of (cn_rx c') rest"
    using pump_agrees [OF assms(1-4), of hk] assms(5,6) by (auto simp: agrees_def)
  have s': "s' = draw_msg m s" by (rule spec_msg_draws [OF assms(5)])
  have "small s'" using small_draw_msg [OF assms(2,3)] s' by simp
  then have t: "fb_typed (cn_fb c')"
    using displaysD(1-3) [OF a(2)] by (simp add: fb_typed_def small_def)
  have "png_encode zlib (cn_fb c') \<noteq> Inl WrongPixelCount"
    using png_encode_displays [OF a(2), of zlib] by (simp split: option.split)
  with t a show ?thesis by blast
qed

definition sample_rconn :: "unit rconn" where
  "sample_rconn = \<lparr> cn_rx = [encode_msg sample_frame], cn_tx = [], cn_fb = init_fbuf 2 1, cn_name = [], cn_hook = () \<rparr>"

theorem framebuffer_typed_witness:
  "fb_typed (cn_fb (snd (pump no_hooks sample_rconn))) \<and> fst (pump no_hooks sample_rconn) = Inr 2"
proof -
  have "stream_of (cn_rx sample_rconn) (encode_msg sample_frame @ [])"
    by (simp add: stream_of_def all_nonempty_def sample_rconn_def sample_frame_def)
  moreover have "displays (cn_fb sample_rconn) (blank 2 1)"
    using displays_init by (simp add: sample_rconn_def)
  moreover have "spec_msg no_hooks sample_frame (blank 2 1, cn_hook sample_rconn) = (Inr 2, sample_screen, ())"
    by (simp add: sample_frame_def sample_screen_def no_hooks_def Let_def)
  moreover have "msg_fits (blank 2 1) sample_frame" "small (blank 2 1)"
    by (simp_all add: sample_frame_def blank_def paint_def small_def)
  ultimately show ?thesis
    using framebuffer_typed [of sample_rconn "blank 2 1" sample_frame "[]" no_hooks 2 sample_screen "()"
        "fst (pump no_hooks sample_rconn)" "snd (pump no_hooks sample_rconn)"]
    by simp
qed

section \<open>Recordings\<close>

text \<open>A recorder on the sample server: its clock advances a tenth of a second per reading.\<close>

definition sample_renv :: "nat \<Rightarrow> renv" where
  "sample_renv stop_at = \<lparr> re_clock = (\<lambda>n. of_nat n / 10), re_stop = (\<lambda>i. stop_at \<le> i), re_zlib = (\<lambda>_ b. b),
     re_des = None, re_utf8 = text_of, re_json_text = (\<lambda>b. Some (text_of b)), re_fl = ratio_io,
     re_repr = (\<lambda>_. []), re_password = [], re_max_seconds = None, re_max_bytes = None, re_pid = 7 \<rparr>"

definition empty_recdir :: recdir where
  "empty_recdir = \<lparr> rd_files = [], rd_live = [''r1''], rd_stopped = [] \<rparr>"

definition sample_run :: "nat \<Rightarrow> (capture_error + unit) \<times> recdir" where
  "sample_run stop_at = the (run_recorder (sample_renv stop_at) 200 ''r1'' ''ann'' sample_chunks empty_recdir)"

text \<open>C15: A recorder ends on every stream of finite length, whatever the server sends: with
  more fuel than the stream has bytes it has an outcome, which more fuel does not change, and when it
  has ended, with or without an error, its recording is not live and its marker file is gone.\<close>

theorem recorder_ends:
  assumes "length (concat rx) < fuel" and "fuel \<le> fuel'"
  shows "\<exists>res d'. run_recorder env fuel rec_id actor rx d = Some (res, d') \<and>
    run_recorder env fuel' rec_id actor rx d = Some (res, d') \<and>
    rec_id \<notin> set (rd_live d') \<and> map_of (rd_files d') (live_marker rec_id) = None"
proof -
  obtain res d' where "run_recorder env fuel rec_id actor rx d = Some (res, d')"
    "run_recorder env (fuel + (fuel' - fuel)) rec_id actor rx d = Some (res, d')"
    using run_recorder_ends [OF assms(1), where a = "fuel' - fuel"] by fastforce
  then show ?thesis using assms(2) run_recorder_forgets by fastforce
qed

theorem recorder_ends_witness:
  "run_recorder (sample_renv 0) 200 ''r1'' ''ann'' sample_chunks empty_recdir \<noteq> None \<and>
   run_recorder (sample_renv 0) 300 ''r1'' ''ann'' sample_chunks empty_recdir =
   run_recorder (sample_renv 0) 200 ''r1'' ''ann'' sample_chunks empty_recdir"
proof -
  have "length (concat sample_chunks) < 200" by code_simp
  from recorder_ends [OF this, of 300 "sample_renv 0" "''r1''" "''ann''" empty_recdir] show ?thesis by auto
qed

text \<open>C16: A recorder that got past the handshake leaves a file from which the
  header and all events are read back, whatever the server sent and however the run ended: nothing but
  whole well-formed blocks follows the header.  The last event is the terminator exactly when the run
  ended without an error; the listing then says that the recording has its end, and it shows the
  time, operator, size and name the recording was made with.\<close>

theorem recording_reads_back:
  assumes "run_recorder env fuel rec_id actor rx d = Some (res, d')"
    and "connect (re_des env) (re_utf8 env) (re_password env) rx
           \<lparr>rs_file = [], rs_written = 0, rs_tick = 1\<rparr> = Inr c"
    and "rec_open env rec_id actor (re_clock env 0) c = Some b"
    and "json_floats (re_fl env)" and "ascii_text (re_json_text env)"
  shows "\<exists>f es m. map_of (rd_files d') (rec_name rec_id) = Some f \<and>
    parse_header env f = Some (rec_header rec_id actor (re_clock env 0) c) \<and>
    recorded_events f = Some (es, []) \<and> list_all event_fits es \<and>
    (res = Inr () \<longleftrightarrow> es \<noteq> [] \<and> is_end (last es)) \<and> (res = Inr () \<longrightarrow> rm_ended m) \<and>
    collect_metas env d' [(rec_name rec_id, f)] = Returned [m] \<and> rm_id m = rec_id \<and>
    rm_created m = re_clock env 0 \<and> rm_operator m = actor \<and> rm_width m = int (fb_w (cn_fb c)) \<and>
    rm_height m = int (fb_h (cn_fb c)) \<and> rm_name m = cn_name c \<and> rm_size m = length f"
proof -
  obtain es f where f: "map_of (rd_files d') (rec_name rec_id) = Some f" "file_events b es f"
    and e: "res = Inr () \<Longrightarrow> es \<noteq> [] \<and> is_end (last es)"
      "res \<noteq> Inr () \<Longrightarrow> list_all (\<lambda>e. \<not> is_end e) es"
    using run_recorder_file [OF assms(1-3)] by blast
  have fits: "list_all event_fits es" using f(2) by (simp add: file_events_def)
  have "res = Inr ()" if "es \<noteq> []" "is_end (last es)"
    using e(2) last_in_set [of es] that by (cases "res = Inr ()") (auto simp: list_all_iff)
  moreover note h = header_reads [OF assms(4,5,3) f(2)]
  moreover obtain m where "collect_metas env d' [(rec_name rec_id, f)] = Returned [m]"
    "rm_id m = rec_id" "rm_created m = re_clock env 0" "rm_operator m = actor"
    "rm_width m = int (fb_w (cn_fb c))" "rm_height m = int (fb_h (cn_fb c))" "rm_name m = cn_name c"
    "rm_size m = length f" "rm_ended m = file_has_end f"
    using recording_listed [OF h(1), of d'] by (elim exE conjE) (rule that)
  ultimately show ?thesis
    using f e fits ended_file [OF f(2)] by (intro exI [of _ f] exI [of _ es] exI [of _ m]) auto
qed

definition sample_opened :: "rstate rconn" where
  "sample_opened = (case connect None text_of [] sample_chunks \<lparr>rs_file = [], rs_written = 0, rs_tick = 1\<rparr> of
     Inr c \<Rightarrow> c | Inl e \<Rightarrow> undefined)"

definition sample_file :: bytes where
  "sample_file = the (map_of (rd_files (snd (sample_run 0))) ''r1.vrsrec'')"

lemma sample_connects:
  "connect None text_of [] sample_chunks \<lparr>rs_file = [], rs_written = 0, rs_tick = 1\<rparr> = Inr sample_opened"
proof -
  obtain c where "connect None text_of [] sample_chunks \<lparr>rs_file = [], rs_written = 0, rs_tick = 1\<rparr> = Inr c"
    using connect_ok [OF sample_hello_fits sample_chunks_stream [unfolded sample_stream_def]] by metis
  then show ?thesis by (simp add: sample_opened_def)
qed

lemma sample_runs:
  "run_recorder (sample_renv i) 200 ''r1'' ''ann'' sample_chunks empty_recdir = Some (fst (sample_run i), snd (sample_run i))"
proof -
  have "length (concat sample_chunks) < 200" by code_simp
  from run_recorder_ends [OF this] obtain p where
    "run_recorder (sample_renv i) 200 ''r1'' ''ann'' sample_chunks empty_recdir = Some p" by blast
  then show ?thesis by (simp add: sample_run_def)
qed

lemma sample_opens:
  "rec_open (sample_renv 0) ''r1'' ''ann'' (re_clock (sample_renv 0) 0) sample_opened =
     Some (the (rec_open (sample_renv 0) ''r1'' ''ann'' (re_clock (sample_renv 0) 0) sample_opened))"
proof -
  have "rec_open (sample_renv 0) ''r1'' ''ann'' (re_clock (sample_renv 0) 0) sample_opened \<noteq> None" by code_simp
  then show ?thesis by simp
qed

theorem recording_reads_back_witness:
  "parse_header (sample_renv 0) sample_file = Some (rec_header ''r1'' ''ann'' (re_clock (sample_renv 0) 0) sample_opened) \<and>
   list_all event_fits (fst (the (recorded_events sample_file))) \<and>
   is_end (last (fst (the (recorded_events sample_file)))) \<and> fst (sample_run 0) = Inr ()"
proof -
  have r: "fst (sample_run 0) = Inr ()" by code_simp
  have "run_recorder (sample_renv 0) 200 ''r1'' ''ann'' sample_chunks empty_recdir = Some (Inr (), snd (sample_run 0))"
    using sample_runs [of 0] r by simp
  moreover have "connect (re_des (sample_renv 0)) (re_utf8 (sample_renv 0)) (re_password (sample_renv 0))
      sample_chunks \<lparr>rs_file = [], rs_written = 0, rs_tick = 1\<rparr> = Inr sample_opened"
    using sample_connects by (simp add: sample_renv_def)
  moreover have "json_floats (re_fl (sample_renv 0))" "ascii_text (re_json_text (sample_renv 0))"
    by (simp_all add: sample_renv_def json_floats_ratio_io ascii_text_latin)
  ultimately obtain f es where "map_of (rd_files (snd (sample_run 0))) (rec_name ''r1'') = Some f"
    "parse_header (sample_renv 0) f = Some (rec_header ''r1'' ''ann'' (re_clock (sample_renv 0) 0) sample_opened)"
    "recorded_events f = Some (es, [])" "list_all event_fits es" "is_end (last es)"
    using recording_reads_back [OF _ _ sample_opens] by blast
  then show ?thesis using r by (simp add: sample_file_def rec_name_def)
qed

lemma sample_file_events:
  "recorded_events sample_file =
     Some ([RectEvent 100 0 0 2 1 [1, 2, 3, 0, 4, 5, 6, 0], RectEvent 200 1 0 1 1 [1, 2, 3, 0], EndEvent 300], [])"
  by code_simp

section \<open>Behind the findings\<close>

text \<open>A desktop on which nothing changes until the socket times out: the recording ends in an error and
  without its terminator.\<close>

lemma idle_desktop_unfinished:
  "fst (sample_run 1) = Inl Closed \<and> list_all (\<lambda>(_, f). \<not> file_has_end f) (rd_files (snd (sample_run 1)))"
  by code_simp

text \<open>Updates that only change the size write blocks and are not counted, and the loop over messages
  does not come back to the bounds or to the stop event: here the event is set from the second check on.\<close>

definition size_update :: server_msg where
  "size_update = Update 0 [DesktopSize 0 0 3 3]"

definition size_chunks :: "bytes list" where
  "size_chunks = [sample_stream @ concat (map encode_msg (replicate 4 size_update))]"

lemma size_updates_unchecked:
  "map_option (\<lambda>(res, d). (res, map_option fst (recorded_events (snd (hd (rd_files d))))))
     (run_recorder (sample_renv 1) 300 ''r1'' ''ann'' size_chunks empty_recdir) =
   Some (Inl Closed, Some [RectEvent 100 0 0 2 1 [1, 2, 3, 0, 4, 5, 6, 0], RectEvent 200 1 0 1 1 [1, 2, 3, 0],
     SizeEvent 400 3 3, SizeEvent 500 3 3, SizeEvent 600 3 3, SizeEvent 700 3 3])"
  by code_simp

text \<open>The marker a recorder writes is not the one the listing looks for, so another process lists a live
  recording as not running.\<close>

lemma marker_not_found:
  "map_of (rd_files (rec_opened env ''r1'' b \<lparr>rd_files = [], rd_live = [], rd_stopped = []\<rparr>)) (''r1'' @ ''.live'') = None"
  by (simp add: rec_opened_def put_file_def live_marker_def rec_name_def)

text \<open>One file whose header is JSON but not an object makes the listing of all recordings raise.\<close>

definition array_file :: bytes where
  "array_file = rec_magic @ to_be 4 2 @ bytes_of ''[]''"

lemma array_header_raises:
  "list_recordings (sample_renv 0) \<lparr>rd_files = [(''r1.vrsrec'', sample_file), (''x.vrsrec'', array_file)],
     rd_live = [], rd_stopped = []\<rparr> = Raised"
  by code_simp

text \<open>A CopyRect whose source is outside of the screen shortens the buffer, and the export raises.\<close>

lemma copy_outside_breaks_export:
  "png_encode zlib (copy_rect 0 0 2 1 1 0 (init_fbuf 2 1)) = Inl WrongPixelCount"
proof -
  have "length (fb_px (copy_rect 0 0 2 1 1 0 (init_fbuf 2 1))) = 4" by code_simp
  have "swap_channels (fb_w (copy_rect 0 0 2 1 1 0 (init_fbuf 2 1)) * fb_h (copy_rect 0 0 2 1 1 0 (init_fbuf 2 1)))
      (fb_px (copy_rect 0 0 2 1 1 0 (init_fbuf 2 1))) = None" by code_simp
  then show ?thesis by (simp add: png_encode_def)
qed

text \<open>A wall clock that steps back behind the start makes the next block raise.\<close>

lemma clock_step_back:
  "re_clock env (rs_tick r) \<le> started - 1 \<Longrightarrow> rec_rect env started x y w h px r = (False, ticked r)"
proof -
  assume "re_clock env (rs_tick r) \<le> started - 1"
  then have "(re_clock env (rs_tick r) - started) * 1000 \<le> -1" by simp
  then have "elapsed_ms env started r < 0" by (simp add: elapsed_ms_def trunc_def)
  then show ?thesis by (simp add: rec_rect_def to_bytes4_def)
qed

end
