(* ===== verification/Runs.thy ===== *)
theory Runs
  imports SharedState
begin

text \<open>
  Runs of interleaved steps.  A request that makes several calls to the shared-state backend is split
  into its calls; a run is any sequence of such steps of any callers.  The locale \<open>held_off\<close> is the
  contract of a condition that stays and that no step wins against: a run from it has no winner.
  \<open>won_once\<close> extends it by a claim: winning makes the condition hold, so a run has at most one winner.
\<close>

fun run_steps :: "('e \<Rightarrow> 'y \<Rightarrow> 'a \<times> 'y) \<Rightarrow> 'e list \<Rightarrow> 'y \<Rightarrow> 'a list \<times> 'y" where
  "run_steps step [] y = ([], y)"
| "run_steps step (e # es) y =
     (case step e y of (a, y) \<Rightarrow> (case run_steps step es y of (as, y) \<Rightarrow> (a # as, y)))"

text \<open>A side condition on every step of a run, in the state it is taken in.\<close>

fun along :: "('e \<Rightarrow> 'y \<Rightarrow> 'a \<times> 'y) \<Rightarrow> ('e \<Rightarrow> 'y \<Rightarrow> bool) \<Rightarrow> 'e list \<Rightarrow> 'y \<Rightarrow> bool" where
  "along step ok [] y = True"
| "along step ok (e # es) y \<longleftrightarrow> ok e y \<and> along step ok es (snd (step e y))"

definition count_of :: "('a \<Rightarrow> bool) \<Rightarrow> 'a list \<Rightarrow> nat" where
  "count_of P as = length (filter P as)"

lemma run_steps_Cons:
  "fst (run_steps step (e # es) y) = fst (step e y) # fst (run_steps step es (snd (step e y)))"
  "snd (run_steps step (e # es) y) = snd (run_steps step es (snd (step e y)))"
  by (simp_all split: prod.split)

lemma run_steps_append:
  "run_steps step (es @ fs) y =
     (case run_steps step es y of (as, y1) \<Rightarrow>
        (case run_steps step fs y1 of (bs, y2) \<Rightarrow> (as @ bs, y2)))"
  by (induction es arbitrary: y) (auto split: prod.splits)

lemma run_steps_length: "length (fst (run_steps step es y)) = length es"
  by (induction es arbitrary: y) (simp_all only: run_steps.simps(1) run_steps_Cons fst_conv list.size)

lemma along_conj:
  "along step (\<lambda>e y. A e y \<and> B e) es y \<longleftrightarrow> along step A es y \<and> list_all B es"
  by (induction es arbitrary: y) auto

lemma along_static: "(\<And>e y. ok e y \<longleftrightarrow> B e) \<Longrightarrow> along step ok es y \<longleftrightarrow> list_all B es"
  by (induction es arbitrary: y) auto

lemma run_steps_inv:
  assumes "\<And>e y. good y \<Longrightarrow> ok e y \<Longrightarrow> good (snd (step e y))"
  shows "good y \<Longrightarrow> along step ok es y \<Longrightarrow> good (snd (run_steps step es y))"
  by (induction es arbitrary: y) (auto simp: run_steps_Cons simp del: run_steps.simps(2) dest: assms)

text \<open>A relation between the steps taken so far and the state.\<close>

lemma run_trace:
  assumes "tr [] y"
    and step: "\<And>ps e y. tr ps y \<Longrightarrow> ok e y \<Longrightarrow> tr (ps @ [e]) (snd (step e y))"
    and "along step ok es y"
  shows "tr es (snd (run_steps step es y))"
proof -
  have "tr ps y \<Longrightarrow> along step ok es y \<Longrightarrow> tr (ps @ es) (snd (run_steps step es y))" for ps
  proof (induction es arbitrary: ps y)
    case (Cons e es)
    then show ?case
      using Cons.IH [of "ps @ [e]" "snd (step e y)"] step [of ps y e]
      by (simp add: run_steps_Cons del: run_steps.simps(2))
  qed simp
  with assms(1,3) show ?thesis by fastforce
qed

text \<open>A condition that stays and under which no step wins; winning may bring it about.\<close>

locale held_off =
  fixes step :: "'e \<Rightarrow> 'y \<Rightarrow> 'a \<times> 'y"
    and ok :: "'e \<Rightarrow> 'y \<Rightarrow> bool"
    and good :: "'y \<Rightarrow> bool"
    and wins :: "'a \<Rightarrow> bool"
    and held :: "'y \<Rightarrow> bool"
  assumes good_step: "good y \<Longrightarrow> ok e y \<Longrightarrow> good (snd (step e y))"
    and held_stays: "good y \<Longrightarrow> ok e y \<Longrightarrow> held y \<Longrightarrow> held (snd (step e y))"
    and held_blocks: "good y \<Longrightarrow> ok e y \<Longrightarrow> held y \<Longrightarrow> \<not> wins (fst (step e y))"
begin

lemma none_while_held:
  "good y \<Longrightarrow> held y \<Longrightarrow> along step ok es y \<Longrightarrow> count_of wins (fst (run_steps step es y)) = 0"
  by (induction es arbitrary: y)
    (simp_all add: count_of_def run_steps_Cons good_step held_stays held_blocks del: run_steps.simps(2))

end

locale won_once = held_off step ok good wins held
  for step :: "'e \<Rightarrow> 'y \<Rightarrow> 'a \<times> 'y" and ok good wins held +
  assumes win_holds: "good y \<Longrightarrow> ok e y \<Longrightarrow> wins (fst (step e y)) \<Longrightarrow> held (snd (step e y))"
begin

lemma won_at_most_once:
  "good y \<Longrightarrow> along step ok es y \<Longrightarrow> count_of wins (fst (run_steps step es y)) \<le> 1"
proof (induction es arbitrary: y)
  case (Cons e es)
  let ?z = "snd (step e y)"
  have z: "good ?z" "along step ok es ?z" using Cons.prems good_step [of y e] by simp_all
  show ?case
  proof (cases "wins (fst (step e y))")
    case True
    then have "held ?z" using win_holds [of y e] Cons.prems by simp
    then have "count_of wins (fst (run_steps step es ?z)) = 0" using none_while_held z by blast
    then show ?thesis using True by (simp add: count_of_def run_steps_Cons del: run_steps.simps(2))
  next
    case False
    then show ?thesis
      using Cons.IH [OF z] by (simp add: count_of_def run_steps_Cons del: run_steps.simps(2))
  qed
qed (simp add: count_of_def)

end

text \<open>A key of the store that is claimed at least until \<open>x\<close>.\<close>

context kv_store
begin

definition claimed_until :: "string \<times> string \<Rightarrow> time \<Rightarrow> 's \<Rightarrow> bool" where
  "claimed_until nk x s \<longleftrightarrow> (\<exists>v e. look s nk = Some (v, Some e) \<and> x \<le> e)"

lemma claim_claims:
  "fst (b_set_if_absent be now ns k v (Some t) s) \<Longrightarrow> t \<noteq> 0 \<Longrightarrow> x \<le> now + t \<Longrightarrow>
   claimed_until (ns, k) x (snd (b_set_if_absent be now ns k v (Some t) s))"
  by (simp add: claimed_until_def claim_look claim_expiry_def)

lemma claimed_blocks:
  "claimed_until (ns, k) x s \<Longrightarrow> now < x \<Longrightarrow> \<not> fst (b_set_if_absent be now ns k v t s)"
  by (auto simp: claimed_until_def dest: claim_held [where now = now and v = v and ttl = t])

lemma claimed_claim:
  assumes "claimed_until (ns, k) x s" and "now < x \<or> k' \<noteq> k \<or> ns' \<noteq> ns"
  shows "claimed_until (ns, k) x (snd (b_set_if_absent be now ns' k' v t s))"
proof (cases "(ns', k') = (ns, k)")
  case True
  then show ?thesis
    using assms claimed_blocks [OF assms(1), of now v t] by (auto simp: claimed_until_def claim_look)
next
  case False
  then show ?thesis using assms(1) by (auto simp: claimed_until_def claim_other)
qed

lemma claimed_other:
  "claimed_until nk x s \<Longrightarrow> nk \<noteq> (ns, k) \<Longrightarrow> claimed_until nk x (snd (b_get be now ns k s))"
  "claimed_until nk x s \<Longrightarrow> nk \<noteq> (ns, k) \<Longrightarrow> claimed_until nk x (b_set be ns k v s)"
  "claimed_until nk x s \<Longrightarrow> nk \<noteq> (ns, k) \<Longrightarrow> claimed_until nk x (b_delete be ns k s)"
  "claimed_until nk x s \<Longrightarrow> nk \<noteq> (ns, k) \<Longrightarrow> claimed_until nk x (b_set_ttl be now ns k v t s)"
  by (simp_all add: claimed_until_def get_other set_look delete_look set_ttl_look)

text \<open>A row that lives at least until \<open>x\<close> with a value of the given kind.\<close>

definition row_until :: "string \<times> string \<Rightarrow> (pyval \<Rightarrow> bool) \<Rightarrow> time \<Rightarrow> 's \<Rightarrow> bool" where
  "row_until nk P x s \<longleftrightarrow> (\<exists>v e. look s nk = Some (v, Some e) \<and> x \<le> e \<and> P v)"

lemma get_sub: "look (snd (b_get be now ns k s)) x = Some en \<Longrightarrow> look s x = Some en"
  using get_look [of now s ns k] get_drop [of now s ns k] by (auto split: if_splits)

lemma read_row:
  assumes "fst (b_get be now ns k s) \<noteq> PNone"
  obtains e where "look s (ns, k) = Some (fst (b_get be now ns k s), e)" "\<not> expired now e"
  using assms unfolding get_val val_or_none_def live_def
  by (cases "look s (ns, k)") (auto split: if_splits)

lemma row_get:
  assumes "row_until nk P x s" and "now \<le> x"
  shows "row_until nk P x (snd (b_get be now ns k s))"
proof (cases "nk = (ns, k)")
  case True
  with assms have "live now (look s (ns, k)) \<noteq> None"
    by (auto simp: row_until_def live_def expired_def)
  with get_look [of now s ns k] assms(1) show ?thesis by (auto simp: row_until_def)
qed (use assms(1) in \<open>auto simp: row_until_def get_other\<close>)

lemma row_read:
  assumes "row_until (ns, k) P x s" and "now \<le> x"
  shows "P (fst (b_get be now ns k s))"
  using assms by (auto simp: row_until_def get_val live_def expired_def val_or_none_def)

lemma row_set:
  "row_until nk P x s \<Longrightarrow> nk \<noteq> (ns, k) \<or> P v \<and> x \<le> now + t \<Longrightarrow>
   row_until nk P x (b_set_ttl be now ns k v t s)"
  by (auto simp: row_until_def set_ttl_look)

lemma row_new: "P v \<Longrightarrow> x \<le> now + t \<Longrightarrow> row_until (ns, k) P x (b_set_ttl be now ns k v t s)"
  by (simp add: row_until_def set_ttl_look)

lemma row_delete: "row_until nk P x s \<Longrightarrow> fst nk \<noteq> ns \<Longrightarrow> row_until nk P x (b_delete be ns k s)"
  by (auto simp: row_until_def delete_look)

lemma row_fold:
  "(\<And>a s. row_until nk P x s \<Longrightarrow> row_until nk P x (f s a)) \<Longrightarrow> row_until nk P x s \<Longrightarrow>
   row_until nk P x (foldl f s as)"
  by (induction as arbitrary: s) simp_all

end

end
