(* ===== verification/AuthData.thy ===== *)
theory AuthData
  imports Runs PyJson RateLimit Redaction TokenSigning
begin

text \<open>
  What the modules of the login stack share: the process as a call sees it (clock, environment,
  reachability of the shared-state backend, hash, keyed hash and keyring) and the text lemmas behind
  keys and payloads that join their parts with a colon.
\<close>

record login_env =
  l_now :: time
  l_up :: bool                          \<comment> \<open>\<open>get_backend()\<close> and its calls do not raise\<close>
  l_strict :: bool                      \<comment> \<open>\<open>shared_state_strict()\<close>\<close>
  l_environ :: "string \<Rightarrow> string option"
  l_sha :: sha
  l_mac :: mac
  l_keys :: keyring
  l_fl :: float_io

text \<open>\<open>int(time.time())\<close>.\<close>

definition l_secs :: "login_env \<Rightarrow> int" where
  "l_secs env = trunc (l_now env)"

text \<open>\<open>_get_env_int\<close>: the default also for a value that is no integer.\<close>

definition get_env_int :: "login_env \<Rightarrow> string \<Rightarrow> int \<Rightarrow> int" where
  "get_env_int env name dflt =
     (case l_environ env name of
        None \<Rightarrow> dflt
      | Some v \<Rightarrow> (case py_int v of Some n \<Rightarrow> n | None \<Rightarrow> dflt))"

section \<open>Integers as text\<close>

lemma digit_not: "is_digit c \<Longrightarrow> c \<notin> {CHR '':'', CHR ''-'', CHR ''+'', CHR ''.''} \<and> \<not> py_space c"
  by (auto simp: is_digit_def digit_val_def py_space_def Let_def split: if_splits)

lemma int_str_chars: "c \<in> set (int_str n) \<Longrightarrow> is_digit c \<or> c = CHR ''-''"
  using nat_str_digits [of "nat n"] nat_str_digits [of "nat (- n)"]
  by (auto simp: int_str_def list_all_iff split: if_splits)

lemma colon_not_in_int_str [simp]: "CHR '':'' \<notin> set (int_str n)"
  using int_str_chars [of "CHR '':''" n] digit_not [of "CHR '':''"] by auto

lemma space_not_in_int_str: "c \<in> set (int_str n) \<Longrightarrow> \<not> py_space c"
  using int_str_chars [of c n] digit_not [of c] by (auto simp: py_space_def)

lemma py_strip_plain: "(\<And>c. c \<in> set s \<Longrightarrow> \<not> py_space c) \<Longrightarrow> py_strip s = s"
proof -
  assume a: "\<And>c. c \<in> set s \<Longrightarrow> \<not> py_space c"
  then have "dropWhile py_space s = s" by (cases s) auto
  moreover have "dropWhile py_space (rev s) = rev s"
    using a by (cases "rev s") (auto simp: dropWhile_eq_self_iff rev_eq_Cons_iff)
  ultimately show ?thesis by (simp add: py_strip_def)
qed

lemma py_unsigned_nat_str: "py_unsigned (nat_str n) = Some n"
proof -
  obtain c t where ct: "nat_str n = c # t" "is_digit c" by (rule nat_str_head)
  then have "py_unsigned (nat_str n) = py_digits 0 (nat_str n)"
    by (auto simp: py_unsigned_def is_digit_def split: list.split)
  then show ?thesis by (simp add: py_digits_nat_str)
qed

lemma py_int_int_str [simp]: "py_int (int_str n) = Some n"
proof -
  have strip: "py_strip (int_str n) = int_str n" by (rule py_strip_plain) (rule space_not_in_int_str)
  show ?thesis
  proof (cases "n < 0")
    case True
    then show ?thesis using strip by (simp add: py_int_def int_str_def py_unsigned_nat_str)
  next
    case False
    obtain c t where ct: "nat_str (nat n) = c # t" "is_digit c" by (rule nat_str_head)
    then have "c \<noteq> CHR ''-''" "c \<noteq> CHR ''+''" using digit_not by blast+
    with False ct strip py_unsigned_nat_str [of "nat n"] show ?thesis
      by (simp add: py_int_def int_str_def)
  qed
qed

lemma int_str_inject [simp]: "int_str m = int_str n \<longleftrightarrow> m = n"
  by (metis py_int_int_str option.inject)

text \<open>A text, a colon and a colon-free text: the parts can be read off.\<close>

lemma colon_split:
  assumes "CHR '':'' \<notin> set b" and "CHR '':'' \<notin> set d"
  shows "a @ CHR '':'' # b = c @ CHR '':'' # d \<longleftrightarrow> a = c \<and> b = d"
  by (metis assms split_last_append option.inject prod.inject)

end
