(* ===== verification/Mfa.thy ===== *)
theory Mfa
  imports AuthData
begin

text \<open>
  The second factor of security/mfa.py: one-time codes with replay protection over the shared state,
  and recovery codes.  SHA-256 and the HOTP function (pyotp, after the base32 normalisation) are
  parameters.  Verifying a code makes three calls to the backend; \<open>verify_totp\<close> is their composition,
  and \<open>totp_step\<close> interleaves them for any number of callers.
\<close>

abbreviation totp_interval :: int where "totp_interval \<equiv> 30"
abbreviation totp_digits :: nat where "totp_digits \<equiv> 6"
abbreviation totp_window :: int where "totp_window \<equiv> 1"

abbreviation ns_totp :: string where "ns_totp \<equiv> ''mfa_last_step''"
abbreviation ns_used_steps :: string where "ns_used_steps \<equiv> ''mfa_used_steps''"

text \<open>\<open>HOTP(secret).at(counter)\<close>; \<open>None\<close> when the secret is not base32.\<close>

record mfa_cfg =
  mc_sha :: sha
  mc_hotp :: "string \<Rightarrow> (int \<Rightarrow> nat) option"

record menv =
  m_now :: time
  m_up :: bool

definition secret_id :: "mfa_cfg \<Rightarrow> string \<Rightarrow> string" where
  "secret_id cfg secret = take 16 (mc_sha cfg secret)"

definition last_key :: "mfa_cfg \<Rightarrow> string \<Rightarrow> string" where
  "last_key cfg secret = (if secret = [] then ''last'' else ''last:'' @ secret_id cfg secret)"

definition last_step :: "'s backend \<Rightarrow> mfa_cfg \<Rightarrow> menv \<Rightarrow> string \<Rightarrow> 's \<Rightarrow> int \<times> 's" where
  "last_step be cfg env secret s =
     (if m_up env
      then (case b_get be (m_now env) ns_totp (''last:'' @ secret_id cfg secret) s of
              (v, s) \<Rightarrow> (if v = PNone then -1 else case int_of v of Some n \<Rightarrow> n | None \<Rightarrow> -1, s))
      else (-1, s))"

definition record_step :: "'s backend \<Rightarrow> mfa_cfg \<Rightarrow> menv \<Rightarrow> int \<Rightarrow> string \<Rightarrow> 's \<Rightarrow> 's" where
  "record_step be cfg env step secret s =
     (if m_up env then b_set be ns_totp (last_key cfg secret) (PInt step) s else s)"

definition step_key :: "mfa_cfg \<Rightarrow> string \<Rightarrow> int \<Rightarrow> string" where
  "step_key cfg secret step = secret_id cfg secret @ '':'' @ int_str step"

definition claim_step :: "'s backend \<Rightarrow> mfa_cfg \<Rightarrow> menv \<Rightarrow> string \<Rightarrow> int \<Rightarrow> 's \<Rightarrow> bool \<times> 's" where
  "claim_step be cfg env secret step s =
     (if m_up env
      then b_set_if_absent be (m_now env) ns_used_steps (step_key cfg secret step) (PBool True)
             (Some (of_int ((totp_window * 2 + 1) * totp_interval * 2))) s
      else (False, s))"

text \<open>\<open>f"{candidate:06d}"\<close>.\<close>

definition pad_code :: "nat \<Rightarrow> string" where
  "pad_code n = (let d = nat_str n in replicate (totp_digits - length d) (CHR ''0'') @ d)"

definition code_shape :: "string \<Rightarrow> bool" where
  "code_shape code \<longleftrightarrow> list_all is_digit code \<and> length code = totp_digits"

text \<open>The loop over the drift window: the first counter whose code is the given one.\<close>

definition matched_step :: "(int \<Rightarrow> nat) \<Rightarrow> int \<Rightarrow> string \<Rightarrow> int option" where
  "matched_step hotp step code =
     find (\<lambda>c. pad_code (hotp c) = code) (map (\<lambda>d. step + d) [- totp_window .. totp_window])"

text \<open>\<open>timestamp or int(time.time())\<close>, in steps.\<close>

definition step_at :: "menv \<Rightarrow> int option \<Rightarrow> int" where
  "step_at env timestamp =
     (case timestamp of
        Some ts \<Rightarrow> if ts \<noteq> 0 then ts else trunc (m_now env)
      | None \<Rightarrow> trunc (m_now env)) div totp_interval"

text \<open>Up to the claim: the counter to be claimed, or \<open>None\<close> when the code is rejected.\<close>

definition totp_check ::
    "'s backend \<Rightarrow> mfa_cfg \<Rightarrow> menv \<Rightarrow> string \<Rightarrow> string \<Rightarrow> int option \<Rightarrow> 's \<Rightarrow> int option \<times> 's" where
  "totp_check be cfg env secret code timestamp s =
     (if \<not> code_shape code then (None, s)
      else case mc_hotp cfg secret of
             None \<Rightarrow> (None, s)
           | Some hotp \<Rightarrow>
               (case last_step be cfg env secret s of
                  (seen, s) \<Rightarrow>
                    (case matched_step hotp (step_at env timestamp) code of
                       None \<Rightarrow> (None, s)
                     | Some matched \<Rightarrow> (if matched \<le> seen then None else Some matched, s))))"

definition verify_totp ::
    "'s backend \<Rightarrow> mfa_cfg \<Rightarrow> menv \<Rightarrow> string \<Rightarrow> string \<Rightarrow> int option \<Rightarrow> 's \<Rightarrow> bool \<times> 's" where
  "verify_totp be cfg env secret code timestamp s =
     (case totp_check be cfg env secret code timestamp s of
        (None, s) \<Rightarrow> (False, s)
      | (Some matched, s) \<Rightarrow>
          (case claim_step be cfg env secret matched s of
             (False, s) \<Rightarrow> (False, s)
           | (True, s) \<Rightarrow> (True, record_step be cfg env matched secret s)))"

section \<open>Recovery codes and the login switch\<close>

text \<open>A recovery code from 32 random hexadecimal digits.\<close>

definition recovery_code :: "string \<Rightarrow> string" where
  "recovery_code raw = upper (join ''-'' (map (\<lambda>i. take 4 (drop (4 * i) raw)) [0..<8]))"

definition generate_recovery_codes :: "string list \<Rightarrow> string list" where
  "generate_recovery_codes raws = map recovery_code raws"

definition hash_recovery_code :: "mfa_cfg \<Rightarrow> string \<Rightarrow> string" where
  "hash_recovery_code cfg code = mc_sha cfg (upper code)"

definition verify_recovery_code :: "mfa_cfg \<Rightarrow> string \<Rightarrow> string list \<Rightarrow> bool" where
  "verify_recovery_code cfg code stored \<longleftrightarrow> code \<noteq> [] \<and> hash_recovery_code cfg code \<in> set stored"

definition is_mfa_enabled :: "(string \<Rightarrow> string option) \<Rightarrow> bool" where
  "is_mfa_enabled environ = (case environ ''TOTP_SECRET'' of None \<Rightarrow> False | Some v \<Rightarrow> v \<noteq> [])"

definition mfa_required_for_login :: "(string \<Rightarrow> string option) \<Rightarrow> bool" where
  "mfa_required_for_login environ = (env_flag environ ''MFA_REQUIRED'' ''false'' \<or> is_mfa_enabled environ)"

section \<open>Interleaved verifications\<close>

datatype totp_phase =
    TotpIdle
  | TotpMatched string int time    \<comment> \<open>secret, counter to claim, when it was checked\<close>
  | TotpClaimed string int

record 's totp_sys =
  tt_state :: 's
  tt_phase :: "nat \<Rightarrow> totp_phase"

datatype totp_event =
    TotpCheck nat menv string string
  | TotpClaim nat menv
  | TotpRecord nat menv

text \<open>The answer is the secret and the counter of an accepted code.\<close>

fun totp_step ::
    "'s backend \<Rightarrow> mfa_cfg \<Rightarrow> totp_event \<Rightarrow> 's totp_sys \<Rightarrow> (string \<times> int) option \<times> 's totp_sys" where
  "totp_step be cfg (TotpCheck p env secret code) y =
     (case totp_check be cfg env secret code None (tt_state y) of
        (r, s) \<Rightarrow> (None, y\<lparr>tt_state := s, tt_phase := (tt_phase y)(p :=
          (case r of None \<Rightarrow> TotpIdle | Some m \<Rightarrow> TotpMatched secret m (m_now env)))\<rparr>))"
| "totp_step be cfg (TotpClaim p env) y =
     (case tt_phase y p of
        TotpMatched secret m t \<Rightarrow>
          (case claim_step be cfg env secret m (tt_state y) of
             (True, s) \<Rightarrow> (Some (secret, m), y\<lparr>tt_state := s, tt_phase := (tt_phase y)(p := TotpClaimed secret m)\<rparr>)
           | (False, s) \<Rightarrow> (None, y\<lparr>tt_state := s, tt_phase := (tt_phase y)(p := TotpIdle)\<rparr>))
      | _ \<Rightarrow> (None, y))"
| "totp_step be cfg (TotpRecord p env) y =
     (case tt_phase y p of
        TotpClaimed secret m \<Rightarrow>
          (None, y\<lparr>tt_state := record_step be cfg env m secret (tt_state y),
                   tt_phase := (tt_phase y)(p := TotpIdle)\<rparr>)
      | _ \<Rightarrow> (None, y))"

text \<open>A caller claims within 90 seconds of its check; clocks are not before the epoch.\<close>

fun totp_prompt :: "totp_event \<Rightarrow> 's totp_sys \<Rightarrow> bool" where
  "totp_prompt (TotpCheck p env secret code) y = (0 \<le> m_now env)"
| "totp_prompt (TotpClaim p env) y =
     (case tt_phase y p of TotpMatched secret m t \<Rightarrow> t \<le> m_now env \<and> m_now env < t + 90 | _ \<Rightarrow> True)"
| "totp_prompt _ y = True"

text \<open>A matched counter is within one step of its check.\<close>

fun phase_near :: "totp_phase \<Rightarrow> bool" where
  "phase_near (TotpMatched secret m t) \<longleftrightarrow>
     of_int (totp_interval * (m - 1)) \<le> t \<and> t < of_int (totp_interval * (m + 2))"
| "phase_near _ = True"

declare phase_near.simps(1) [simp del]

definition totp_inv :: "'s totp_sys \<Rightarrow> bool" where
  "totp_inv y \<longleftrightarrow> (\<forall>p. phase_near (tt_phase y p))"

definition accepts_step :: "mfa_cfg \<Rightarrow> string \<Rightarrow> int \<Rightarrow> (string \<times> int) option \<Rightarrow> bool" where
  "accepts_step cfg sid m a = (case a of Some (secret, k) \<Rightarrow> secret_id cfg secret = sid \<and> k = m | None \<Rightarrow> False)"

lemma find_mem: "find P xs = Some x \<Longrightarrow> x \<in> set xs"
  by (induction xs) (auto split: if_splits)

lemma matched_step_near:
  assumes "matched_step hotp step code = Some m"
  shows "step - 1 \<le> m" and "m \<le> step + 1"
  using find_mem [OF assms [unfolded matched_step_def]] by auto

lemma step_time:
  assumes "0 \<le> m_now env" and "step_at env None - 1 \<le> m" and "m \<le> step_at env None + 1"
  shows "of_int (30 * (m - 1)) \<le> m_now env" and "m_now env < of_int (30 * (m + 2))"
proof -
  let ?n = "\<lfloor>m_now env\<rfloor>"
  have s: "step_at env None = ?n div 30" using assms(1) by (simp add: step_at_def trunc_def)
  have "30 * (?n div 30) \<le> ?n" "?n < 30 * (?n div 30) + 30" by presburger+
  then have "30 * (m - 1) \<le> ?n" "?n < 30 * (m + 2)" using assms(2,3) s by presburger+
  then show "of_int (30 * (m - 1)) \<le> m_now env" "m_now env < of_int (30 * (m + 2))"
    by (simp_all only: le_floor_iff floor_less_iff)
qed

section \<open>Replay protection\<close>

lemma totp_check_state:
  "snd (totp_check be cfg env secret code ts s) = s \<or>
   snd (totp_check be cfg env secret code ts s) = snd (b_get be (m_now env) ns_totp (''last:'' @ secret_id cfg secret) s)"
  by (auto simp: totp_check_def last_step_def split: option.split prod.split)

lemma totp_check_matched:
  assumes "fst (totp_check be cfg env secret code ts s) = Some m"
  shows "step_at env ts - 1 \<le> m" and "m \<le> step_at env ts + 1"
proof -
  obtain hotp where "matched_step hotp (step_at env ts) code = Some m"
    using assms by (auto simp: totp_check_def split: if_splits option.splits prod.splits)
  then show "step_at env ts - 1 \<le> m" "m \<le> step_at env ts + 1" by (fact matched_step_near)+
qed

lemma step_key_eq:
  "step_key cfg secret m = sid @ CHR '':'' # int_str k \<longleftrightarrow> secret_id cfg secret = sid \<and> m = k"
  by (simp add: step_key_def colon_split)

context kv_store
begin

definition step_held :: "mfa_cfg \<Rightarrow> string \<Rightarrow> int \<Rightarrow> 's totp_sys \<Rightarrow> bool" where
  "step_held cfg sid m y \<longleftrightarrow>
     claimed_until (ns_used_steps, sid @ CHR '':'' # int_str m) (of_int (30 * (m + 5))) (tt_state y)"

lemma totp_check_held:
  assumes "claimed_until (ns_used_steps, k) x s"
  shows "claimed_until (ns_used_steps, k) x (snd (totp_check be cfg env secret code ts s))"
proof -
  have "(ns_used_steps, k) \<noteq> (ns_totp, l)" for l by simp
  then have "claimed_until (ns_used_steps, k) x (snd (b_get be now ns_totp l s))" for now l
    by (intro claimed_other(1) assms)
  with totp_check_state [of be cfg env secret code ts s] assms show ?thesis by metis
qed

lemma claim_step_held:
  assumes "fst (claim_step be cfg env secret m s)" and "of_int (30 * (m - 1)) \<le> m_now env"
  shows "claimed_until (ns_used_steps, step_key cfg secret m) (of_int (30 * (m + 5)))
    (snd (claim_step be cfg env secret m s))"
  using assms by (auto simp: claim_step_def split: if_splits intro!: claim_claims)

lemma claim_step_keeps:
  assumes "claimed_until (ns_used_steps, k) x s" and "m_now env < x \<or> step_key cfg secret m \<noteq> k"
  shows "claimed_until (ns_used_steps, k) x (snd (claim_step be cfg env secret m s))"
  using assms by (auto simp: claim_step_def intro!: claimed_claim)

lemma record_step_keeps:
  "claimed_until (ns_used_steps, k) x s \<Longrightarrow>
   claimed_until (ns_used_steps, k) x (record_step be cfg env m secret s)"
  by (simp add: record_step_def claimed_other)

lemma totp_inv_step:
  assumes "totp_inv y" and "totp_prompt e y"
  shows "totp_inv (snd (totp_step be cfg e y))"
proof (cases e)
  case (TotpCheck p env secret code)
  obtain r s where rs: "totp_check be cfg env secret code None (tt_state y) = (r, s)" by fastforce
  have now: "0 \<le> m_now env" using assms(2) TotpCheck by simp
  have near: "phase_near (TotpMatched secret m (m_now env))" if "r = Some m" for m
    using totp_check_matched [of be cfg env secret code None "tt_state y" m] rs that step_time [OF now]
    by (simp add: phase_near.simps(1))
  show ?thesis
    using assms(1) rs near TotpCheck by (auto simp: totp_inv_def split: option.splits)
next
  case (TotpClaim p env)
  then show ?thesis
    using assms(1) by (auto simp: totp_inv_def split: totp_phase.split bool.split prod.split)
next
  case (TotpRecord p env)
  then show ?thesis
    using assms(1) by (auto simp: totp_inv_def split: totp_phase.split)
qed

lemma matched_window:
  assumes "totp_inv y" and "totp_prompt (TotpClaim p env) y" and "tt_phase y p = TotpMatched secret m t"
  shows "of_int (30 * (m - 1)) \<le> m_now env" and "m_now env < of_int (30 * (m + 5))"
proof -
  from assms(1,3) have "of_int (totp_interval * (m - 1)) \<le> t \<and> t < of_int (totp_interval * (m + 2))"
    unfolding totp_inv_def by (metis phase_near.simps(1))
  then show "of_int (30 * (m - 1)) \<le> m_now env" "m_now env < of_int (30 * (m + 5))"
    using assms(2,3) by auto
qed

lemma step_held_step:
  assumes "totp_inv y" and "totp_prompt e y" and "step_held cfg sid m y"
  shows "step_held cfg sid m (snd (totp_step be cfg e y)) \<and>
    \<not> accepts_step cfg sid m (fst (totp_step be cfg e y))"
proof (cases e)
  case (TotpCheck p env secret code)
  then show ?thesis
    using assms(3) totp_check_held [of _ _ "tt_state y" cfg env secret code None]
    by (auto simp: step_held_def accepts_step_def case_prod_beta)
next
  case (TotpRecord p env)
  then show ?thesis
    using assms(3) by (auto simp: step_held_def accepts_step_def record_step_keeps split: totp_phase.split)
next
  case (TotpClaim p env)
  show ?thesis
  proof (cases "tt_phase y p")
    case (TotpMatched secret k t)
    let ?r = "claim_step be cfg env secret k (tt_state y)"
    have c: "claimed_until (ns_used_steps, sid @ CHR '':'' # int_str m) (of_int (30 * (m + 5))) (tt_state y)"
      using assms(3) by (simp add: step_held_def)
    have same: "step_key cfg secret k = sid @ CHR '':'' # int_str m \<longleftrightarrow> secret_id cfg secret = sid \<and> k = m"
      by (rule step_key_eq)
    have w: "m_now env < of_int (30 * (k + 5))"
      using matched_window(2) assms(1,2) TotpClaim TotpMatched by metis
    have held: "claimed_until (ns_used_steps, sid @ CHR '':'' # int_str m) (of_int (30 * (m + 5))) (snd ?r)"
      by (rule claim_step_keeps [OF c]) (use same w in auto)
    have "\<not> fst ?r" if "secret_id cfg secret = sid \<and> k = m"
      using that claimed_blocks [OF c] w same by (auto simp: claim_step_def)
    with held show ?thesis
      using TotpClaim TotpMatched
      by (cases ?r) (auto simp: step_held_def accepts_step_def split: bool.split)
  qed (use TotpClaim assms(3) in \<open>auto simp: accepts_step_def\<close>)
qed

lemma accepted_held:
  assumes "totp_inv y" and "totp_prompt e y" and "accepts_step cfg sid m (fst (totp_step be cfg e y))"
  shows "step_held cfg sid m (snd (totp_step be cfg e y))"
proof (cases e)
  case (TotpClaim p env)
  show ?thesis
  proof (cases "tt_phase y p")
    case (TotpMatched secret k t)
    let ?r = "claim_step be cfg env secret k (tt_state y)"
    have won: "fst ?r" "secret_id cfg secret = sid" "k = m"
      using assms(3) TotpClaim TotpMatched
      by (auto simp: accepts_step_def split: bool.splits prod.splits)
    have "claimed_until (ns_used_steps, step_key cfg secret k) (of_int (30 * (k + 5))) (snd ?r)"
      by (rule claim_step_held [OF won(1)])
        (use matched_window(1) assms(1,2) TotpClaim TotpMatched in metis)
    with won show ?thesis
      using TotpClaim TotpMatched
      by (cases ?r) (auto simp: step_held_def step_key_def split: bool.split)
  qed (use TotpClaim assms(3) in \<open>auto simp: accepts_step_def\<close>)
next
  case (TotpCheck p env secret code)
  then show ?thesis using assms(3) by (auto simp: accepts_step_def case_prod_beta)
next
  case (TotpRecord p env)
  then show ?thesis using assms(3) by (auto simp: accepts_step_def split: totp_phase.splits)
qed

end

interpretation totp: won_once "totp_step sqlite_backend cfg" totp_prompt totp_inv
    "accepts_step cfg sid m" "sqlkv.step_held cfg sid m" for cfg sid m
  by unfold_locales (simp_all add: sqlkv.totp_inv_step sqlkv.accepted_held sqlkv.step_held_step)

end
