(* ===== verification/StepUp.thy ===== *)
theory StepUp
  imports AuthData
begin

text \<open>
  Recent-authentication checks and operation-bound grants of security/step_up_auth.py.  The manager
  keeps the last authentication time of each user in the shared state, with a process-local copy that
  is only read when the backend raises.  A grant is consumed in three calls to the backend; \<open>gr_step\<close>
  interleaves those of any number of requests.
\<close>

abbreviation ns_auth_times :: string where "ns_auth_times \<equiv> ''step_up_auth_times''"
abbreviation ns_grants :: string where "ns_grants \<equiv> ''step_up_grants''"
abbreviation ns_grant_used :: string where "ns_grant_used \<equiv> ''step_up_consumed''"
abbreviation grant_ttl_seconds :: time where "grant_ttl_seconds \<equiv> 120"

definition sensitive_actions :: "string list" where
  "sensitive_actions =
     [''open_terminal'', ''create_admin'', ''delete_admin'', ''webauthn_register'', ''webauthn_revoke'']"

section \<open>StepUpAuthManager\<close>

record stepup_manager =
  su_times :: "(string \<times> time) list"
  su_max_age :: int

definition su_backend_get ::
    "'s backend \<Rightarrow> login_env \<Rightarrow> string \<Rightarrow> stepup_manager \<Rightarrow> 's \<Rightarrow> time option \<times> 's" where
  "su_backend_get be env user m s =
     (if l_up env
      then (case b_get be (l_now env) ns_auth_times user s of
              (v, s) \<Rightarrow>
                (if v = PNone then None
                 else case float_of (read_float (l_fl env)) v of
                        Some t \<Rightarrow> Some t
                      | None \<Rightarrow> map_of (su_times m) user, s))
      else (map_of (su_times m) user, s))"

definition record_auth_time ::
    "'s backend \<Rightarrow> login_env \<Rightarrow> string \<Rightarrow> time option \<Rightarrow> stepup_manager \<Rightarrow> 's \<Rightarrow> stepup_manager \<times> 's"
where
  "record_auth_time be env user auth_time m s =
     (let ts = (case auth_time of Some t \<Rightarrow> if t \<noteq> 0 then t else l_now env | None \<Rightarrow> l_now env)
      in (m\<lparr>su_times := AList.update user ts (su_times m)\<rparr>,
          if l_up env then b_set_ttl be (l_now env) ns_auth_times user (PFloat ts) 86400 s else s))"

definition needs_step_up ::
    "'s backend \<Rightarrow> login_env \<Rightarrow> string \<Rightarrow> int option \<Rightarrow> stepup_manager \<Rightarrow> 's \<Rightarrow> bool \<times> 's" where
  "needs_step_up be env user max_age m s =
     (let age = (case max_age of Some a \<Rightarrow> a | None \<Rightarrow> su_max_age m)
      in (case su_backend_get be env user m s of
            (None, s) \<Rightarrow> (True, s)
          | (Some t, s) \<Rightarrow> (if l_now env < t then True else of_int age < l_now env - t, s)))"

definition get_auth_age ::
    "'s backend \<Rightarrow> login_env \<Rightarrow> string \<Rightarrow> stepup_manager \<Rightarrow> 's \<Rightarrow> time option \<times> 's" where
  "get_auth_age be env user m s =
     (case su_backend_get be env user m s of (t, s) \<Rightarrow> (map_option (\<lambda>t. l_now env - t) t, s))"

text \<open>The empty name clears every user, as \<open>None\<close> does.\<close>

definition clear_auth_time ::
    "'s backend \<Rightarrow> login_env \<Rightarrow> string option \<Rightarrow> stepup_manager \<Rightarrow> 's \<Rightarrow> stepup_manager \<times> 's" where
  "clear_auth_time be env user m s =
     (case user of
        Some u \<Rightarrow>
          if u \<noteq> [] then
            (m\<lparr>su_times := AList.delete u (su_times m)\<rparr>,
             if l_up env then b_delete be ns_auth_times u s else s)
          else (m\<lparr>su_times := []\<rparr>,
                if l_up env
                then foldl (\<lambda>s k. b_delete be ns_auth_times k s) s (b_list_keys be (l_now env) ns_auth_times [] s)
                else s)
      | None \<Rightarrow>
          (m\<lparr>su_times := []\<rparr>,
           if l_up env
           then foldl (\<lambda>s k. b_delete be ns_auth_times k s) s (b_list_keys be (l_now env) ns_auth_times [] s)
           else s))"

definition cleanup_auth_times :: "login_env \<Rightarrow> int \<Rightarrow> stepup_manager \<Rightarrow> stepup_manager" where
  "cleanup_auth_times env max_age m =
     m\<lparr>su_times := filter (\<lambda>(_, t). \<not> t < l_now env - of_int max_age) (su_times m)\<rparr>"

definition step_up_error :: "string \<Rightarrow> string" where
  "step_up_error action =
     ''Re-authentication required for action: '' @ action @ ''. Please log in again or provide MFA.''"

definition require_step_up ::
    "'s backend \<Rightarrow> login_env \<Rightarrow> string \<Rightarrow> string \<Rightarrow> int option \<Rightarrow> stepup_manager \<Rightarrow> 's \<Rightarrow> string option \<times> 's"
where
  "require_step_up be env user action max_age m s =
     (if action \<notin> set sensitive_actions then (None, s)
      else (case needs_step_up be env user max_age m s of
              (needed, s) \<Rightarrow> (if needed then Some (step_up_error action) else None, s)))"

section \<open>Operation-bound grants\<close>

definition resource_hash :: "sha \<Rightarrow> string \<Rightarrow> string" where
  "resource_hash sha resource = take 16 (sha resource)"

definition grant_key :: "sha \<Rightarrow> string \<Rightarrow> string \<Rightarrow> string \<Rightarrow> string" where
  "grant_key sha user operation resource =
     join [nul] [user, operation, resource_hash sha resource]"

definition grant_payload :: "string \<Rightarrow> string \<Rightarrow> time \<Rightarrow> pyval" where
  "grant_payload nonce sid now =
     PDict [(''nonce'', PStr nonce), (''sid'', if sid = [] then PNone else PStr sid), (''issued_at'', PFloat now)]"

text \<open>\<open>nonce\<close> is the \<open>token_hex(16)\<close> of the call.\<close>

definition grant_step_up ::
    "'s backend \<Rightarrow> login_env \<Rightarrow> string \<Rightarrow> string \<Rightarrow> string \<Rightarrow> string \<Rightarrow> string \<Rightarrow> 's \<Rightarrow> string \<times> 's" where
  "grant_step_up be env user operation resource sid nonce s =
     (nonce,
      if l_up env
      then b_set_ttl be (l_now env) ns_grants (grant_key (l_sha env) user operation resource)
             (PStr (json_dumps (l_fl env) Spaced (grant_payload nonce sid (l_now env)))) grant_ttl_seconds s
      else s)"

text \<open>
  The session and the nonce of a stored grant.  The code reads whatever JSON is there; only
  \<open>grant_step_up\<close> writes to the namespace, and a nonce that is no string counts as no grant.
\<close>

definition parse_grant :: "float_io \<Rightarrow> pyval \<Rightarrow> (pyval \<times> string) option" where
  "parse_grant fl raw =
     (case raw of
        PStr txt \<Rightarrow>
          (case json_loads fl txt of
             Some (PDict d) \<Rightarrow>
               (case py_get ''nonce'' (PStr []) d of
                  PStr nonce \<Rightarrow> Some (py_get ''sid'' PNone d, nonce)
                | _ \<Rightarrow> None)
           | _ \<Rightarrow> None)
      | _ \<Rightarrow> None)"

text \<open>The three calls of \<open>consume_step_up\<close>; the first yields the nonce to claim.\<close>

definition consume_read ::
    "'s backend \<Rightarrow> login_env \<Rightarrow> string \<Rightarrow> string \<Rightarrow> 's \<Rightarrow> string option \<times> 's" where
  "consume_read be env key sid s =
     (if \<not> l_up env then (None, s)
      else (case b_get be (l_now env) ns_grants key s of
              (raw, s) \<Rightarrow>
                (case parse_grant (l_fl env) raw of
                   None \<Rightarrow> None
                 | Some (grant_sid, nonce) \<Rightarrow>
                     if grant_sid \<noteq> PNone \<and> grant_sid \<noteq> PStr sid then None else Some nonce, s)))"

definition consume_claim ::
    "'s backend \<Rightarrow> login_env \<Rightarrow> string \<Rightarrow> string \<Rightarrow> 's \<Rightarrow> bool \<times> 's" where
  "consume_claim be env user nonce s =
     (if \<not> l_up env then (False, s)
      else b_set_if_absent be (l_now env) ns_grant_used nonce (PStr user) (Some grant_ttl_seconds) s)"

definition consume_drop :: "'s backend \<Rightarrow> login_env \<Rightarrow> string \<Rightarrow> 's \<Rightarrow> bool \<times> 's" where
  "consume_drop be env key s =
     (if \<not> l_up env then (False, s) else (True, b_delete be ns_grants key s))"

definition consume_step_up ::
    "'s backend \<Rightarrow> login_env \<Rightarrow> string \<Rightarrow> string \<Rightarrow> string \<Rightarrow> string \<Rightarrow> 's \<Rightarrow> bool \<times> 's" where
  "consume_step_up be env user operation resource sid s =
     (let key = grant_key (l_sha env) user operation resource
      in (case consume_read be env key sid s of
            (None, s) \<Rightarrow> (False, s)
          | (Some nonce, s) \<Rightarrow>
              (case consume_claim be env user nonce s of
                 (False, s) \<Rightarrow> (False, s)
               | (True, s) \<Rightarrow> consume_drop be env key s)))"

definition pending_step_up ::
    "'s backend \<Rightarrow> login_env \<Rightarrow> string \<Rightarrow> string \<Rightarrow> string \<Rightarrow> 's \<Rightarrow> bool \<times> 's" where
  "pending_step_up be env user operation resource s =
     (if \<not> l_up env then (False, s)
      else (case b_get be (l_now env) ns_grants (grant_key (l_sha env) user operation resource) s of
              (v, s) \<Rightarrow> (v \<noteq> PNone, s)))"

section \<open>Several processes\<close>

record 's su_sys =
  us_state :: 's
  us_managers :: "nat \<Rightarrow> stepup_manager"

datatype su_event =
    SuRecord nat login_env string "time option"
  | SuClear nat login_env "string option"
  | SuCleanup nat login_env int
  | SuRequire nat login_env string string "int option"   \<comment> \<open>user, action, maximal age\<close>

text \<open>The answer of \<open>SuRequire\<close>: whether the action may proceed.\<close>

fun su_step :: "'s backend \<Rightarrow> su_event \<Rightarrow> 's su_sys \<Rightarrow> bool \<times> 's su_sys" where
  "su_step be (SuRecord p env u t) y =
     (let r = record_auth_time be env u t (us_managers y p) (us_state y)
      in (False, y\<lparr>us_state := snd r, us_managers := (us_managers y)(p := fst r)\<rparr>))"
| "su_step be (SuClear p env u) y =
     (let r = clear_auth_time be env u (us_managers y p) (us_state y)
      in (False, y\<lparr>us_state := snd r, us_managers := (us_managers y)(p := fst r)\<rparr>))"
| "su_step be (SuCleanup p env age) y =
     (False, y\<lparr>us_managers := (us_managers y)(p := cleanup_auth_times env age (us_managers y p))\<rparr>)"
| "su_step be (SuRequire p env u a age) y =
     (let r = require_step_up be env u a age (us_managers y p) (us_state y)
      in (fst r = None, y\<lparr>us_state := snd r\<rparr>))"

text \<open>The authentications recorded by a sequence of steps.\<close>

definition recorded :: "su_event list \<Rightarrow> string \<Rightarrow> time \<Rightarrow> bool" where
  "recorded es u t \<longleftrightarrow>
     (\<exists>p env. SuRecord p env u (Some t) \<in> set es \<or> SuRecord p env u None \<in> set es \<and> l_now env = t \<or>
        SuRecord p env u (Some 0) \<in> set es \<and> l_now env = t)"

lemma recorded_more: "recorded es u t \<Longrightarrow> recorded (es @ fs) u t"
  unfolding recorded_def set_append by blast

lemma update_entry: "(u, t) \<in> set (AList.update k v xs) \<Longrightarrow> (u, t) = (k, v) \<or> (u, t) \<in> set xs"
  by (induction xs) (auto split: if_splits)

lemma delete_entry: "(u, t) \<in> set (AList.delete k xs) \<Longrightarrow> (u, t) \<in> set xs"
  by (simp add: AList.delete_eq)

context kv_store
begin

definition su_traced :: "su_event list \<Rightarrow> 's su_sys \<Rightarrow> bool" where
  "su_traced es y \<longleftrightarrow>
     (\<forall>u v e. look (us_state y) (ns_auth_times, u) = Some (v, e) \<longrightarrow> (\<exists>t. v = PFloat t \<and> recorded es u t)) \<and>
     (\<forall>p u t. (u, t) \<in> set (su_times (us_managers y p)) \<longrightarrow> recorded es u t)"

lemma delete_all_auth:
  "look (foldl (\<lambda>s k. b_delete be ns_auth_times k s) s ks) x = Some en \<Longrightarrow> look s x = Some en"
proof (induction ks arbitrary: s)
  case (Cons k ks)
  from Cons.IH [of "b_delete be ns_auth_times k s"] Cons.prems
  show ?case by (simp add: delete_look split: if_splits)
qed simp

lemma backend_get_traced:
  assumes "su_traced es y" and "fst (su_backend_get be env u (us_managers y p) (us_state y)) = Some t"
  shows "recorded es u t"
proof -
  have cache: "map_of (su_times (us_managers y p)) u = Some t \<Longrightarrow> recorded es u t"
    using assms(1) map_of_SomeD unfolding su_traced_def by fastforce
  show ?thesis
  proof (cases "l_up env")
    case True
    let ?v = "fst (b_get be (l_now env) ns_auth_times u (us_state y))"
    from True assms(2) have "?v \<noteq> PNone"
      and r: "case float_of (read_float (l_fl env)) ?v of Some t' \<Rightarrow> t' = t
        | None \<Rightarrow> map_of (su_times (us_managers y p)) u = Some t"
      by (auto simp: su_backend_get_def case_prod_beta split: if_splits option.splits)
    then obtain e where "look (us_state y) (ns_auth_times, u) = Some (?v, e)"
      by (auto simp: get_val val_or_none_def live_def split: option.splits if_splits)
    then obtain t' where "?v = PFloat t'" "recorded es u t'" using assms(1) unfolding su_traced_def by blast
    with r show ?thesis by (simp add: float_of_def)
  qed (use assms(2) cache in \<open>simp add: su_backend_get_def\<close>)
qed

lemma su_get_state:
  "look (snd (su_backend_get be env u m s)) x = Some en \<Longrightarrow> look s x = Some en"
  using get_look [of "l_now env" s ns_auth_times u] get_drop [of "l_now env" s ns_auth_times u]
  by (auto simp: su_backend_get_def case_prod_beta split: if_splits)

lemma require_state:
  "look (snd (require_step_up be env u a age m s)) x = Some en \<Longrightarrow> look s x = Some en"
  using su_get_state [of env u m s x en]
  by (auto simp: require_step_up_def needs_step_up_def case_prod_beta split: if_splits option.splits)

lemma su_traced_step:
  assumes tr: "su_traced es y"
  shows "su_traced (es @ [e]) (snd (su_step be e y))"
proof -
  have sd: "\<exists>t. v = PFloat t \<and> recorded (es @ [e]) u t"
    if "look (us_state y) (ns_auth_times, u) = Some (v, x)" for u v x
    using that tr recorded_more unfolding su_traced_def by blast
  have cd: "recorded (es @ [e]) u t" if "(u, t) \<in> set (su_times (us_managers y p))" for p u t
    using that tr recorded_more unfolding su_traced_def by blast
  show ?thesis
  proof (cases e)
    case (SuRecord p env u ta)
    have "recorded (es @ [e]) u (case ta of Some t \<Rightarrow> if t \<noteq> 0 then t else l_now env | None \<Rightarrow> l_now env)"
      using SuRecord by (auto simp: recorded_def split: option.split)
    then show ?thesis
      using SuRecord sd cd
      by (auto simp: su_traced_def record_auth_time_def Let_def set_ttl_look
          dest!: update_entry split: if_splits)
  next
    case (SuClear p env u)
    then show ?thesis
      using sd cd
      by (auto simp: su_traced_def clear_auth_time_def Let_def delete_look
          dest!: delete_all_auth delete_entry split: option.splits if_splits)
  next
    case (SuCleanup p env age)
    then show ?thesis using sd cd by (auto simp: su_traced_def cleanup_auth_times_def split: if_splits)
  next
    case (SuRequire p env u a age)
    then show ?thesis using sd cd by (auto simp: su_traced_def Let_def dest!: require_state)
  qed
qed

text \<open>A sensitive action proceeds only on a recorded authentication that is recent enough.\<close>

lemma allowed_recorded:
  assumes "su_traced [] y" and "a \<in> set sensitive_actions"
    and "fst (su_step be (SuRequire p env u a (Some age)) (snd (run_steps (su_step be) es y)))"
  obtains t where "recorded es u t" "l_now env - of_int age \<le> t" "t \<le> l_now env"
proof -
  let ?y = "snd (run_steps (su_step be) es y)"
  have "along (su_step be) (\<lambda>_ _. True) es z" for z by (induction es arbitrary: z) simp_all
  then have "su_traced es ?y"
    by (intro run_trace [where tr = su_traced and ok = "\<lambda>_ _. True"] assms(1) su_traced_step)
  moreover obtain t where "fst (su_backend_get be env u (us_managers ?y p) (us_state ?y)) = Some t"
    "\<not> l_now env < t" "\<not> of_int age < l_now env - t"
    using assms(2,3)
    by (auto simp: Let_def require_step_up_def needs_step_up_def case_prod_beta split: option.splits if_splits)
  ultimately show thesis using backend_get_traced that by fastforce
qed

text \<open>What one process records or clears, another one sees.\<close>

lemma needs_after_record:
  assumes "l_up env" and "l_up env'" and "age \<le> 86400"
  shows "fst (needs_step_up be env' u (Some age) m' (snd (record_auth_time be env u None m s))) \<longleftrightarrow>
    \<not> (l_now env \<le> l_now env' \<and> l_now env' - l_now env \<le> of_int age)"
proof -
  have "of_int age \<le> (86400 :: rat)" using assms(3) by linarith
  then show ?thesis
    using assms(1,2)
    by (auto simp: needs_step_up_def record_auth_time_def su_backend_get_def case_prod_beta get_val
        set_ttl_look live_def expired_def val_or_none_def float_of_def Let_def split: option.split)
qed

lemma needs_after_clear:
  assumes "l_up env" and "l_up env'" and "u \<noteq> []"
  shows "fst (needs_step_up be env' u age m' (snd (clear_auth_time be env (Some u) m s)))"
  using assms
  by (simp add: needs_step_up_def clear_auth_time_def su_backend_get_def case_prod_beta get_val
      delete_look live_def val_or_none_def)

end

end
