(* ===== verification/StepUpRuns.thy ===== *)
theory StepUpRuns
  imports StepUp
begin

text \<open>
  Requests of several processes that mint and consume step-up grants.  \<open>gr_step\<close> takes the calls of
  \<open>consume_step_up\<close> one at a time; \<open>gr_inv\<close> relates the grants, the consumed marks and the requests
  under way, and \<open>grants\<close> interprets \<open>won_once\<close>: a nonce is consumed at most once.
\<close>

datatype gr_phase =
    GrIdle
  | GrBusy bool string string string time   \<comment> \<open>claimed, user, key, nonce, when the grant was read\<close>

text \<open>\<open>gr_used\<close> are the nonces drawn so far: \<open>token_hex(16)\<close> does not repeat.\<close>

record 's gr_sys =
  gr_state :: 's
  gr_phase :: "nat \<Rightarrow> gr_phase"
  gr_clock :: time
  gr_used :: "string set"

datatype gr_event =
    GrGrant login_env string string string string string   \<comment> \<open>user, operation, resource, sid, nonce\<close>
  | GrRead nat login_env string string string string       \<comment> \<open>request, user, operation, resource, sid\<close>
  | GrClaim nat login_env
  | GrDrop nat login_env

fun gr_env :: "gr_event \<Rightarrow> login_env" where
  "gr_env (GrGrant env u op r sid n) = env"
| "gr_env (GrRead p env u op r sid) = env"
| "gr_env (GrClaim p env) = env"
| "gr_env (GrDrop p env) = env"

text \<open>The answer is the key and the nonce of a successful consumption.\<close>

fun gr_step :: "'s backend \<Rightarrow> gr_event \<Rightarrow> 's gr_sys \<Rightarrow> (string \<times> string) option \<times> 's gr_sys" where
  "gr_step be (GrGrant env u op r sid n) y =
     (None, y\<lparr>gr_state := snd (grant_step_up be env u op r sid n (gr_state y)),
              gr_clock := l_now env, gr_used := insert n (gr_used y)\<rparr>)"
| "gr_step be (GrRead p env u op r sid) y =
     (let key = grant_key (l_sha env) u op r;
          ns = consume_read be env key sid (gr_state y)
      in (None, y\<lparr>gr_state := snd ns, gr_clock := l_now env, gr_phase := (gr_phase y)(p :=
            (case fst ns of None \<Rightarrow> GrIdle | Some n \<Rightarrow> GrBusy False u key n (l_now env)))\<rparr>))"
| "gr_step be (GrClaim p env) y =
     (case gr_phase y p of
        GrBusy False u key n t \<Rightarrow>
          (let bs = consume_claim be env u n (gr_state y)
           in (None, y\<lparr>gr_state := snd bs, gr_clock := l_now env, gr_phase := (gr_phase y)(p :=
                (if fst bs then GrBusy True u key n t else GrIdle))\<rparr>))
      | _ \<Rightarrow> (None, y))"
| "gr_step be (GrDrop p env) y =
     (case gr_phase y p of
        GrBusy True u key n t \<Rightarrow>
          (let bs = consume_drop be env key (gr_state y)
           in (if fst bs then Some (key, n) else None,
               y\<lparr>gr_state := snd bs, gr_clock := l_now env, gr_phase := (gr_phase y)(p := GrIdle)\<rparr>))
      | _ \<Rightarrow> (None, y))"

text \<open>
  The processes' clocks agree, nonces are fresh, and a request is answered less than 60 seconds after
  it read the grant; every process prints floats in the same way.
\<close>

fun gr_prompt :: "gr_event \<Rightarrow> 's gr_sys \<Rightarrow> bool" where
  "gr_prompt (GrGrant env u op r sid n) y \<longleftrightarrow> gr_clock y \<le> l_now env \<and> n \<notin> gr_used y"
| "gr_prompt (GrRead p env u op r sid) y \<longleftrightarrow> gr_clock y \<le> l_now env"
| "gr_prompt (GrClaim p env) y \<longleftrightarrow> gr_clock y \<le> l_now env \<and>
     (case gr_phase y p of GrIdle \<Rightarrow> True | GrBusy c u k n t \<Rightarrow> l_now env < t + 60)"
| "gr_prompt (GrDrop p env) y \<longleftrightarrow> gr_clock y \<le> l_now env \<and>
     (case gr_phase y p of GrIdle \<Rightarrow> True | GrBusy c u k n t \<Rightarrow> l_now env < t + 60)"

definition gr_ok :: "float_io \<Rightarrow> gr_event \<Rightarrow> 's gr_sys \<Rightarrow> bool" where
  [simp]: "gr_ok fl e y \<longleftrightarrow> gr_prompt e y \<and> l_fl (gr_env e) = fl"

lemma gr_ok_along:
  "along step (gr_ok fl) es y \<longleftrightarrow> along step gr_prompt es y \<and> list_all (\<lambda>e. l_fl (gr_env e) = fl) es"
  by (simp add: gr_ok_def [abs_def] along_conj)

lemma parse_grant_payload:
  assumes "json_floats fl"
  shows "parse_grant fl (PStr (json_dumps fl Spaced (grant_payload n sid t))) =
    Some (if sid = [] then PNone else PStr sid, n)"
proof -
  have "json_loads fl (json_dumps fl Spaced (grant_payload n sid t)) = Some (grant_payload n sid t)"
    by (rule json_loads_dumps [OF assms]) (simp add: grant_payload_def)
  then show ?thesis by (simp add: parse_grant_def grant_payload_def py_get_def)
qed

lemma parse_grant_None [simp]: "parse_grant fl PNone = None"
  by (simp add: parse_grant_def)

definition consumed :: "string \<Rightarrow> (string \<times> string) option \<Rightarrow> bool" where
  "consumed n a \<longleftrightarrow> map_option snd a = Some n"

context kv_store
begin

text \<open>The grant with nonce \<open>n\<close> lies under the key \<open>k\<close>.\<close>

definition stored :: "float_io \<Rightarrow> 's \<Rightarrow> string \<Rightarrow> string \<Rightarrow> bool" where
  "stored fl s n k \<longleftrightarrow> (\<exists>v e g. look s (ns_grants, k) = Some (v, e) \<and> parse_grant fl v = Some (g, n))"

abbreviation used_up :: "'s \<Rightarrow> string \<Rightarrow> time \<Rightarrow> bool" where
  "used_up s n x \<equiv> claimed_until (ns_grant_used, n) x s"

lemma stored_grant:
  assumes "json_floats (l_fl env)" and "stored (l_fl env) (snd (grant_step_up be env u op r sid n s)) m k"
  shows "m = n \<and> k = grant_key (l_sha env) u op r \<or> stored (l_fl env) s m k"
  using assms by (auto simp: stored_def grant_step_up_def set_ttl_look parse_grant_payload split: if_splits)

lemma stored_read:
  "stored fl (snd (consume_read be env key sid s)) m k \<Longrightarrow> stored fl s m k"
  using get_look [of "l_now env" s ns_grants key] get_drop [of "l_now env" s ns_grants key]
  by (fastforce simp: stored_def consume_read_def case_prod_beta split: if_splits)

lemma read_stored:
  assumes "fst (consume_read be env key sid s) = Some n"
  shows "stored (l_fl env) s n key"
proof -
  obtain g where g: "parse_grant (l_fl env) (fst (b_get be (l_now env) ns_grants key s)) = Some (g, n)"
    using assms by (auto simp: consume_read_def case_prod_beta split: if_splits option.splits)
  then have "fst (b_get be (l_now env) ns_grants key s) \<noteq> PNone" by auto
  then obtain e where "look s (ns_grants, key) = Some (fst (b_get be (l_now env) ns_grants key s), e)"
    by (auto simp: get_val val_or_none_def live_def split: option.splits if_splits)
  with g show ?thesis by (auto simp: stored_def)
qed

lemma stored_claim [simp]: "stored fl (snd (consume_claim be env u n s)) m k = stored fl s m k"
  by (simp add: stored_def consume_claim_def claim_other)

lemma stored_drop:
  "fst (consume_drop be env key s) \<Longrightarrow>
   stored fl (snd (consume_drop be env key s)) m k \<longleftrightarrow> k \<noteq> key \<and> stored fl s m k"
  by (auto simp: stored_def consume_drop_def delete_look split: if_splits)

lemma stored_dropD: "stored fl (snd (consume_drop be env key s)) m k \<Longrightarrow> stored fl s m k"
  by (auto simp: stored_def consume_drop_def delete_look split: if_splits)

lemma used_keeps:
  "used_up s n x \<Longrightarrow> used_up (snd (grant_step_up be env u op r sid m s)) n x"
  "used_up s n x \<Longrightarrow> used_up (snd (consume_read be env key sid s)) n x"
  "used_up s n x \<Longrightarrow> used_up (snd (consume_drop be env key s)) n x"
  by (auto simp: grant_step_up_def consume_read_def consume_drop_def case_prod_beta claimed_other)

lemma used_claim:
  "used_up s n x \<Longrightarrow> l_now env < x \<or> m \<noteq> n \<Longrightarrow> used_up (snd (consume_claim be env u m s)) n x"
  by (auto simp: consume_claim_def intro: claimed_claim)

lemma used_blocks: "used_up s n x \<Longrightarrow> l_now env < x \<Longrightarrow> \<not> fst (consume_claim be env u n s)"
  by (simp add: consume_claim_def claimed_blocks)

lemma claim_uses:
  "fst (consume_claim be env u n s) \<Longrightarrow> x \<le> l_now env + 120 \<Longrightarrow> used_up (snd (consume_claim be env u n s)) n x"
  by (auto simp: consume_claim_def intro: claim_claims split: if_splits)

text \<open>What holds of one request under way, at the clock \<open>c\<close>.\<close>

definition busy_ok :: "float_io \<Rightarrow> 's \<Rightarrow> time \<Rightarrow> string set \<Rightarrow> bool \<Rightarrow> string \<Rightarrow> string \<Rightarrow> time \<Rightarrow> bool" where
  "busy_ok fl s c used claimed key n t \<longleftrightarrow>
     n \<in> used \<and> t \<le> c \<and> (\<forall>k. stored fl s n k \<longrightarrow> k = key) \<and>
     (claimed \<and> c < t + 60 \<longrightarrow> used_up s n (t + 120))"

definition gr_inv :: "float_io \<Rightarrow> 's gr_sys \<Rightarrow> bool" where
  "gr_inv fl y \<longleftrightarrow>
     json_floats fl \<and>
     (\<forall>n k. stored fl (gr_state y) n k \<longrightarrow> n \<in> gr_used y) \<and>
     (\<forall>n k k'. stored fl (gr_state y) n k \<and> stored fl (gr_state y) n k' \<longrightarrow> k = k') \<and>
     (\<forall>p c u k n t. gr_phase y p = GrBusy c u k n t \<longrightarrow>
        busy_ok fl (gr_state y) (gr_clock y) (gr_used y) c k n t) \<and>
     (\<forall>p q u k n t u' k' t'. p \<noteq> q \<and> gr_phase y p = GrBusy True u k n t \<and>
        gr_phase y q = GrBusy True u' k' n t' \<longrightarrow> \<not> (gr_clock y < t + 60 \<and> gr_clock y < t' + 60))"

definition spent :: "float_io \<Rightarrow> string \<Rightarrow> 's gr_sys \<Rightarrow> bool" where
  "spent fl n y \<longleftrightarrow>
     n \<in> gr_used y \<and> (\<forall>k. \<not> stored fl (gr_state y) n k) \<and>
     (\<forall>p c u k t. gr_phase y p = GrBusy c u k n t \<longrightarrow>
        (if c then t + 60 \<le> gr_clock y else used_up (gr_state y) n (t + 60)))"

lemma busy_ok_later:
  assumes "busy_ok fl s c used cl key n t" and "c \<le> c'" and "used \<subseteq> used'"
    and "\<And>k. stored fl s' n k \<Longrightarrow> stored fl s n k"
    and "\<And>x. used_up s n x \<Longrightarrow> c' < x \<Longrightarrow> used_up s' n x"
  shows "busy_ok fl s' c' used' cl key n t"
  using assms(1-3) assms(4) assms(5) [of "t + 120"] by (auto simp: busy_ok_def)

lemma gr_invI:
  assumes "json_floats fl"
    and "\<And>n k. stored fl (gr_state y) n k \<Longrightarrow> n \<in> gr_used y"
    and "\<And>n k k'. stored fl (gr_state y) n k \<Longrightarrow> stored fl (gr_state y) n k' \<Longrightarrow> k = k'"
    and "\<And>p c u k n t. gr_phase y p = GrBusy c u k n t \<Longrightarrow>
      busy_ok fl (gr_state y) (gr_clock y) (gr_used y) c k n t"
    and "\<And>p q u k n t u' k' t'. p \<noteq> q \<Longrightarrow> gr_phase y p = GrBusy True u k n t \<Longrightarrow>
      gr_phase y q = GrBusy True u' k' n t' \<Longrightarrow> \<not> (gr_clock y < t + 60 \<and> gr_clock y < t' + 60)"
  shows "gr_inv fl y"
  using assms unfolding gr_inv_def by blast

lemma gr_invD:
  assumes "gr_inv fl y"
  shows "json_floats fl"
    and "stored fl (gr_state y) n k \<Longrightarrow> n \<in> gr_used y"
    and "stored fl (gr_state y) n k \<Longrightarrow> stored fl (gr_state y) n k' \<Longrightarrow> k = k'"
    and "gr_phase y p = GrBusy c u k n t \<Longrightarrow> busy_ok fl (gr_state y) (gr_clock y) (gr_used y) c k n t"
    and "p \<noteq> q \<Longrightarrow> gr_phase y p = GrBusy True u k n t \<Longrightarrow> gr_phase y q = GrBusy True u' k' n t' \<Longrightarrow>
      \<not> (gr_clock y < t + 60 \<and> gr_clock y < t' + 60)"
  using assms unfolding gr_inv_def by blast+

text \<open>
  A step of request \<open>p\<close> that stores no new grant: its new phase has to be fine, and unique when it
  claims; what the others hold carries over.
\<close>

lemma gr_inv_move:
  assumes inv: "gr_inv fl y" and "gr_clock y \<le> c"
    and st: "\<And>n k. stored fl s n k \<Longrightarrow> stored fl (gr_state y) n k"
    and used: "\<And>n x. used_up (gr_state y) n x \<Longrightarrow> c < x \<Longrightarrow> used_up s n x"
    and busy: "\<And>cl u k n t. ph = GrBusy cl u k n t \<Longrightarrow> busy_ok fl s c (gr_used y) cl k n t"
    and sole: "\<And>u k n t q u' k' t'. ph = GrBusy True u k n t \<Longrightarrow> q \<noteq> p \<Longrightarrow>
      gr_phase y q = GrBusy True u' k' n t' \<Longrightarrow> t' + 60 \<le> c"
  shows "gr_inv fl (y\<lparr>gr_state := s, gr_clock := c, gr_phase := (gr_phase y)(p := ph)\<rparr>)"
proof -
  let ?y = "y\<lparr>gr_state := s, gr_clock := c, gr_phase := (gr_phase y)(p := ph)\<rparr>"
  have "busy_ok fl s c (gr_used y) cl k n t" if "gr_phase ?y q = GrBusy cl u k n t" for q cl u k n t
  proof (cases "q = p")
    case False
    with that have "busy_ok fl (gr_state y) (gr_clock y) (gr_used y) cl k n t"
      using gr_invD(4) [OF inv] by simp
    then show ?thesis by (rule busy_ok_later) (use assms(2) st used in auto)
  qed (use that busy in simp)
  moreover have "\<not> (c < t + 60 \<and> c < t' + 60)"
    if "a \<noteq> b" "gr_phase ?y a = GrBusy True u k n t" "gr_phase ?y b = GrBusy True u' k' n t'"
    for a b u k n t u' k' t'
  proof (cases "a = p \<or> b = p")
    case True
    then show ?thesis using that sole by (fastforce simp: not_less split: if_splits)
  next
    case False
    then show ?thesis using that gr_invD(5) [OF inv, of a b u k n t u' k' t'] assms(2) by auto
  qed
  ultimately show ?thesis
  proof (intro gr_invI)
    show "json_floats fl" by (rule gr_invD(1) [OF inv])
    show "n \<in> gr_used ?y" if "stored fl (gr_state ?y) n k" for n k
      using gr_invD(2) [OF inv st] that by simp
    show "k = k'" if "stored fl (gr_state ?y) n k" "stored fl (gr_state ?y) n k'" for n k k'
      using gr_invD(3) [OF inv st st] that by simp
  qed auto
qed

lemma gr_inv_grant:
  assumes inv: "gr_inv fl y" and ok: "gr_ok fl (GrGrant env u op r sid n) y"
  shows "gr_inv fl (snd (gr_step be (GrGrant env u op r sid n) y))"
proof -
  let ?s = "snd (grant_step_up be env u op r sid n (gr_state y))"
  let ?k = "grant_key (l_sha env) u op r"
  note fl = gr_invD(1) [OF inv]
  have new: "m = n \<and> k = ?k \<or> stored fl (gr_state y) m k" if "stored fl ?s m k" for m k
    using stored_grant [of env u op r sid n "gr_state y" m k] that ok fl by auto
  have fresh: "\<not> stored fl (gr_state y) n k" for k using gr_invD(2) [OF inv] ok by auto
  have "busy_ok fl ?s (l_now env) (insert n (gr_used y)) c k m t"
    if "gr_phase y p = GrBusy c v k m t" for p c v k m t
  proof -
    have b: "busy_ok fl (gr_state y) (gr_clock y) (gr_used y) c k m t"
      using gr_invD(4) [OF inv] that by simp
    then have "m \<noteq> n" using ok by (auto simp: busy_ok_def)
    with b ok new show ?thesis by (elim busy_ok_later) (auto intro: used_keeps)
  qed
  moreover have "\<not> (l_now env < t + 60 \<and> l_now env < t' + 60)"
    if "a \<noteq> b" "gr_phase y a = GrBusy True v k m t" "gr_phase y b = GrBusy True v' k' m t'"
    for a b v k m t v' k' t'
    using gr_invD(5) [OF inv that] ok by auto
  ultimately show ?thesis
  proof (intro gr_invI)
    let ?y = "snd (gr_step be (GrGrant env u op r sid n) y)"
    show "json_floats fl" by (rule fl)
    show "m \<in> gr_used ?y" if "stored fl (gr_state ?y) m k" for m k
      using new [of m k] that gr_invD(2) [OF inv] by auto
    show "k = k'" if "stored fl (gr_state ?y) m k" "stored fl (gr_state ?y) m k'" for m k k'
      using new [of m k] new [of m k'] that fresh gr_invD(3) [OF inv] by auto
  qed auto
qed

lemma gr_inv_step:
  assumes inv: "gr_inv fl y" and ok: "gr_ok fl e y"
  shows "gr_inv fl (snd (gr_step be e y))"
proof (cases e)
  case (GrGrant env u op r sid n)
  then show ?thesis using gr_inv_grant assms by metis
next
  case (GrRead p env u op r sid)
  let ?k = "grant_key (l_sha env) u op r"
  let ?r = "consume_read be env ?k sid (gr_state y)"
  have sd: "stored fl (gr_state y) n k" if "stored fl (snd ?r) n k" for n k
    using that by (rule stored_read)
  have "busy_ok fl (snd ?r) (l_now env) (gr_used y) False ?k n (l_now env)" if "fst ?r = Some n" for n
  proof -
    have st: "stored fl (gr_state y) n ?k" using read_stored [OF that] ok GrRead by simp
    with sd gr_invD(3) [OF inv] have "k = ?k" if "stored fl (snd ?r) n k" for k using that by blast
    with st gr_invD(2) [OF inv] ok GrRead show ?thesis by (auto simp: busy_ok_def)
  qed
  moreover have "gr_clock y \<le> l_now env" using ok GrRead by simp
  ultimately have "gr_inv fl (y\<lparr>gr_state := snd ?r, gr_clock := l_now env, gr_phase := (gr_phase y)(p :=
      (case fst ?r of None \<Rightarrow> GrIdle | Some n \<Rightarrow> GrBusy False u ?k n (l_now env)))\<rparr>)"
    using sd by (intro gr_inv_move [OF inv]) (auto simp: used_keeps split: option.splits)
  then show ?thesis using GrRead by (simp add: Let_def)
next
  case (GrClaim p env)
  show ?thesis
  proof (cases "\<exists>u k n t. gr_phase y p = GrBusy False u k n t")
    case True
    then obtain u k n t where ph: "gr_phase y p = GrBusy False u k n t" by blast
    let ?r = "consume_claim be env u n (gr_state y)"
    have c: "gr_clock y \<le> l_now env" "l_now env < t + 60" using ok GrClaim ph by simp_all
    have b: "busy_ok fl (gr_state y) (gr_clock y) (gr_used y) False k n t" using gr_invD(4) [OF inv ph] .
    have "busy_ok fl (snd ?r) (l_now env) (gr_used y) True k n t" if "fst ?r"
      using b c claim_uses [OF that, of "t + 120"] by (auto simp: busy_ok_def)
    moreover have "t' + 60 \<le> l_now env"
      if "fst ?r" "q \<noteq> p" "gr_phase y q = GrBusy True u' k' n t'" for q u' k' t'
    proof (rule ccontr)
      assume "\<not> t' + 60 \<le> l_now env"
      then have "used_up (gr_state y) n (t' + 120)" "l_now env < t' + 120"
        using gr_invD(4) [OF inv that(3)] c by (auto simp: busy_ok_def)
      with that(1) show False using used_blocks by blast
    qed
    ultimately have "gr_inv fl (y\<lparr>gr_state := snd ?r, gr_clock := l_now env,
        gr_phase := (gr_phase y)(p := (if fst ?r then GrBusy True u k n t else GrIdle))\<rparr>)"
      by (intro gr_inv_move [OF inv c(1)]) (auto simp: used_claim split: if_splits)
    then show ?thesis using GrClaim ph by (simp add: Let_def)
  qed (use GrClaim inv in \<open>auto split: gr_phase.split bool.split\<close>)
next
  case (GrDrop p env)
  show ?thesis
  proof (cases "\<exists>u k n t. gr_phase y p = GrBusy True u k n t")
    case True
    then obtain u k n t where ph: "gr_phase y p = GrBusy True u k n t" by blast
    then show ?thesis
      using GrDrop ok gr_inv_move [OF inv, of "l_now env" "snd (consume_drop be env k (gr_state y))" GrIdle p]
      by (auto simp: Let_def used_keeps dest: stored_dropD)
  qed (use GrDrop inv in \<open>auto split: gr_phase.split bool.split\<close>)
qed

lemma spentD:
  assumes "spent fl n y"
  shows "n \<in> gr_used y" and "\<not> stored fl (gr_state y) n k"
    and "gr_phase y p = GrBusy True u k n t \<Longrightarrow> t + 60 \<le> gr_clock y"
    and "gr_phase y p = GrBusy False u k n t \<Longrightarrow> used_up (gr_state y) n (t + 60)"
  using assms unfolding spent_def by (metis (full_types))+

lemma spentI:
  assumes "n \<in> gr_used y" and "\<And>k. \<not> stored fl (gr_state y) n k"
    and "\<And>p u k t. gr_phase y p = GrBusy True u k n t \<Longrightarrow> t + 60 \<le> gr_clock y"
    and "\<And>p u k t. gr_phase y p = GrBusy False u k n t \<Longrightarrow> used_up (gr_state y) n (t + 60)"
  shows "spent fl n y"
  using assms unfolding spent_def by (metis (full_types))

lemma spent_late:
  "spent fl n y \<Longrightarrow> gr_clock y \<le> c \<Longrightarrow> gr_phase y p = GrBusy True u k n t \<Longrightarrow> t + 60 \<le> c"
  using spentD(3) order_trans by blast

lemma spent_step:
  assumes inv: "gr_inv fl y" and ok: "gr_ok fl e y" and sp: "spent fl n y"
  shows "spent fl n (snd (gr_step be e y)) \<and> \<not> consumed n (fst (gr_step be e y))"
proof (cases e)
  case (GrGrant env u op r sid m)
  have "m \<noteq> n" "gr_clock y \<le> l_now env" using ok GrGrant spentD(1) [OF sp] by auto
  moreover have "\<not> stored fl (snd (grant_step_up be env u op r sid m (gr_state y))) n k" for k
    using stored_grant [of env u op r sid m "gr_state y" n k] gr_invD(1) [OF inv] spentD(2) [OF sp] ok
      GrGrant \<open>m \<noteq> n\<close> by auto
  ultimately have "spent fl n (snd (gr_step be e y))"
    using GrGrant spentD(1,4) [OF sp] by (intro spentI) (auto simp: used_keeps dest: spent_late [OF sp])
  then show ?thesis using GrGrant by (simp add: consumed_def)
next
  case (GrRead p env u op r sid)
  let ?k = "grant_key (l_sha env) u op r"
  let ?r = "consume_read be env ?k sid (gr_state y)"
  have "fst ?r \<noteq> Some n" using read_stored [of env ?k sid "gr_state y" n] spentD(2) [OF sp] ok GrRead by auto
  moreover have "\<not> stored fl (snd ?r) n k" for k using stored_read spentD(2) [OF sp] by blast
  moreover have "gr_clock y \<le> l_now env" using ok GrRead by simp
  ultimately have "spent fl n (snd (gr_step be e y))"
    using GrRead spentD(1,4) [OF sp]
    by (intro spentI) (auto simp: used_keeps Let_def dest: spent_late [OF sp] split: option.splits if_splits)
  then show ?thesis using GrRead by (simp add: consumed_def Let_def)
next
  case (GrClaim p env)
  show ?thesis
  proof (cases "\<exists>u k m t. gr_phase y p = GrBusy False u k m t")
    case True
    then obtain u k m t where ph: "gr_phase y p = GrBusy False u k m t" by blast
    let ?r = "consume_claim be env u m (gr_state y)"
    have c: "gr_clock y \<le> l_now env" "l_now env < t + 60" using ok GrClaim ph by simp_all
    have lost: "\<not> fst ?r" if "m = n"
      using used_blocks spentD(4) [OF sp] ph that c by blast
    have keep: "used_up (snd ?r) n x" if "used_up (gr_state y) n x" for x
      using that lost by (cases "m = n") (auto simp: used_claim consume_claim_def claimed_until_def claim_look)
    have "spent fl n (snd (gr_step be e y))"
      using GrClaim ph spentD(1,2,4) [OF sp] c lost keep
      by (intro spentI) (auto simp: Let_def dest: spent_late [OF sp] split: if_splits)
    then show ?thesis using GrClaim ph by (simp add: consumed_def Let_def)
  qed (use GrClaim sp in \<open>auto simp: consumed_def split: gr_phase.split bool.split\<close>)
next
  case (GrDrop p env)
  show ?thesis
  proof (cases "\<exists>u k m t. gr_phase y p = GrBusy True u k m t")
    case True
    then obtain u k m t where ph: "gr_phase y p = GrBusy True u k m t" by blast
    have c: "gr_clock y \<le> l_now env" "l_now env < t + 60" using ok GrDrop ph by simp_all
    then have m: "m \<noteq> n" using spentD(3) [OF sp] ph by force
    have st: "\<not> stored fl (snd (consume_drop be env k (gr_state y))) n k'" for k'
      using stored_dropD spentD(2) [OF sp] by blast
    have "spent fl n (snd (gr_step be e y))"
      using GrDrop ph spentD(1,4) [OF sp] c st
      by (intro spentI) (auto simp: Let_def used_keeps dest: spent_late [OF sp] split: if_splits)
    then show ?thesis using GrDrop ph m by (simp add: consumed_def Let_def)
  qed (use GrDrop sp in \<open>auto simp: consumed_def split: gr_phase.split bool.split\<close>)
qed

lemma consumed_spent:
  assumes inv: "gr_inv fl y" and ok: "gr_ok fl e y" and won: "consumed n (fst (gr_step be e y))"
  shows "spent fl n (snd (gr_step be e y))"
proof -
  obtain p env u k t where e: "e = GrDrop p env" and ph: "gr_phase y p = GrBusy True u k n t"
    and done_: "fst (consume_drop be env k (gr_state y))"
    using won by (cases e) (auto simp: consumed_def Let_def split: gr_phase.splits bool.splits if_splits)
  have c: "gr_clock y \<le> l_now env" "l_now env < t + 60" using ok e ph by simp_all
  have b: "busy_ok fl (gr_state y) (gr_clock y) (gr_used y) True k n t" using gr_invD(4) [OF inv ph] .
  have gone: "\<not> stored fl (snd (consume_drop be env k (gr_state y))) n k'" for k'
    using b stored_drop [OF done_] by (auto simp: busy_ok_def)
  have others: "t' + 60 \<le> l_now env" if "q \<noteq> p" "gr_phase y q = GrBusy True u' k' n t'" for q u' k' t'
    using gr_invD(5) [OF inv, of p q u k n t u' k' t'] that ph c by auto
  have "used_up (gr_state y) n (t' + 60)" if "gr_phase y q = GrBusy False u' k' n t'" for q u' k' t'
  proof -
    have "t' + 60 \<le> t + 120" using gr_invD(4) [OF inv that] c by (auto simp: busy_ok_def)
    moreover have "used_up (gr_state y) n (t + 120)" using b c by (auto simp: busy_ok_def)
    ultimately show ?thesis by (auto simp: claimed_until_def intro: order_trans)
  qed
  then show ?thesis
    using e ph b gone others
    by (intro spentI) (auto simp: Let_def used_keeps busy_ok_def split: if_splits)
qed

end

section \<open>Where a consumed grant comes from\<close>

definition bound_sid :: "string \<Rightarrow> pyval" where
  "bound_sid sid = (if sid = [] then PNone else PStr sid)"

text \<open>A grant for the key \<open>k\<close> was minted with these fields.\<close>

definition minted :: "gr_event list \<Rightarrow> string \<Rightarrow> string \<Rightarrow> pyval \<Rightarrow> time \<Rightarrow> bool" where
  "minted es k n g t \<longleftrightarrow>
     (\<exists>env u op r sid. GrGrant env u op r sid n \<in> set es \<and> grant_key (l_sha env) u op r = k \<and>
        bound_sid sid = g \<and> l_now env = t)"

text \<open>Request \<open>p\<close> asked for the key \<open>k\<close> at \<open>t\<close>, from the session \<open>sid\<close>.\<close>

definition asked :: "gr_event list \<Rightarrow> nat \<Rightarrow> string \<Rightarrow> string \<Rightarrow> time \<Rightarrow> bool" where
  "asked es p k sid t \<longleftrightarrow>
     (\<exists>env u op r. GrRead p env u op r sid \<in> set es \<and> grant_key (l_sha env) u op r = k \<and> l_now env = t)"

lemma minted_more: "minted es k n g t \<Longrightarrow> minted (es @ fs) k n g t"
  unfolding minted_def set_append by blast

lemma asked_more: "asked es p k sid t \<Longrightarrow> asked (es @ fs) p k sid t"
  unfolding asked_def set_append by blast

definition entitled :: "gr_event list \<Rightarrow> nat \<Rightarrow> string \<Rightarrow> string \<Rightarrow> bool" where
  "entitled es p k n \<longleftrightarrow>
     (\<exists>g t sid t'. minted es k n g t \<and> asked es p k sid t' \<and> (g = PNone \<or> g = PStr sid) \<and> t' \<le> t + 120)"

lemma entitled_more: "entitled es p k n \<Longrightarrow> entitled (es @ fs) p k n"
  unfolding entitled_def using minted_more asked_more by blast

context kv_store
begin

definition all_minted :: "float_io \<Rightarrow> gr_event list \<Rightarrow> 's gr_sys \<Rightarrow> bool" where
  "all_minted fl es y \<longleftrightarrow>
     json_floats fl \<and>
     (\<forall>k v e g n. look (gr_state y) (ns_grants, k) = Some (v, e) \<and> parse_grant fl v = Some (g, n) \<longrightarrow>
        (\<exists>t. minted es k n g t \<and> e = Some (t + 120))) \<and>
     (\<forall>p c u k n t. gr_phase y p = GrBusy c u k n t \<longrightarrow> entitled es p k n)"

lemma all_mintedD:
  assumes "all_minted fl es y"
  shows "json_floats fl"
    and "look (gr_state y) (ns_grants, k) = Some (v, e) \<Longrightarrow> parse_grant fl v = Some (g, n) \<Longrightarrow>
      \<exists>t. minted es k n g t \<and> e = Some (t + 120)"
    and "gr_phase y p = GrBusy c u k n t \<Longrightarrow> entitled es p k n"
  using assms unfolding all_minted_def by blast+

lemma all_minted_move:
  assumes "all_minted fl es y"
    and st: "\<And>k v e. look (gr_state y') (ns_grants, k) = Some (v, e) \<Longrightarrow> look (gr_state y) (ns_grants, k) = Some (v, e)"
    and ph: "\<And>p c u k n t. gr_phase y' p = GrBusy c u k n t \<Longrightarrow> entitled (es @ [e]) p k n"
  shows "all_minted fl (es @ [e]) y'"
  unfolding all_minted_def
  using all_mintedD(1) [OF assms(1)] all_mintedD(2) [OF assms(1) st] ph minted_more by metis

lemma all_minted_step:
  assumes inv: "all_minted fl es y" and ok: "gr_ok fl e y"
  shows "all_minted fl (es @ [e]) (snd (gr_step be e y))"
proof (cases e)
  case (GrGrant env u op r sid n)
  let ?k = "grant_key (l_sha env) u op r"
  have new: "minted (es @ [e]) ?k n (bound_sid sid) (l_now env)"
    unfolding minted_def GrGrant set_append by simp blast
  have row: "\<exists>t. minted (es @ [e]) k m g t \<and> x = Some (t + 120)"
    if "look (snd (grant_step_up be env u op r sid n (gr_state y))) (ns_grants, k) = Some (v, x)"
      "parse_grant fl v = Some (g, m)" for k v x g m
  proof (cases "l_up env \<and> k = ?k")
    case True
    have "l_fl env = fl" using ok GrGrant by simp
    then have "g = bound_sid sid \<and> m = n \<and> x = Some (l_now env + 120)"
      using that True parse_grant_payload [OF all_mintedD(1) [OF inv], of n sid "l_now env"]
      by (auto simp: grant_step_up_def set_ttl_look bound_sid_def)
    with True new show ?thesis by blast
  next
    case False
    with that(1) have "look (gr_state y) (ns_grants, k) = Some (v, x)"
      by (auto simp: grant_step_up_def set_ttl_look split: if_splits)
    with that(2) all_mintedD(2) [OF inv] minted_more show ?thesis by blast
  qed
  then show ?thesis
    using GrGrant all_mintedD(1,3) [OF inv] entitled_more unfolding all_minted_def by simp
next
  case (GrRead p env u op r sid)
  let ?k = "grant_key (l_sha env) u op r"
  let ?r = "consume_read be env ?k sid (gr_state y)"
  have st: "look (gr_state y) (ns_grants, k) = Some (v, x)" if "look (snd ?r) (ns_grants, k) = Some (v, x)" for k v x
    using that get_look [of "l_now env" "gr_state y" ns_grants ?k] get_drop [of "l_now env" "gr_state y" ns_grants ?k]
    by (auto simp: consume_read_def case_prod_beta split: if_splits)
  have "entitled (es @ [e]) p ?k n" if n: "fst ?r = Some n" for n
  proof -
    let ?v = "fst (b_get be (l_now env) ns_grants ?k (gr_state y))"
    obtain g where g: "parse_grant (l_fl env) ?v = Some (g, n)" "g = PNone \<or> g = PStr sid"
      using n by (auto simp: consume_read_def case_prod_beta split: if_splits option.splits)
    then have "?v \<noteq> PNone" by auto
    then obtain x where x: "look (gr_state y) (ns_grants, ?k) = Some (?v, x)" "\<not> expired (l_now env) x"
      by (auto simp: get_val val_or_none_def live_def split: option.splits if_splits)
    have "parse_grant fl ?v = Some (g, n)" using g(1) ok GrRead by simp
    then obtain t where "minted es ?k n g t" "x = Some (t + 120)" using all_mintedD(2) [OF inv x(1)] by blast
    moreover have "asked (es @ [e]) p ?k sid (l_now env)" unfolding asked_def GrRead set_append by simp blast
    ultimately show ?thesis
      using g(2) x(2) minted_more unfolding entitled_def expired_def by fastforce
  qed
  then have "entitled (es @ [e]) q k n"
    if ph: "gr_phase (snd (gr_step be e y)) q = GrBusy c v k n t" for q c v k n t
  proof (cases "q = p")
    case True
    with ph GrRead have "fst ?r = Some n" "k = ?k" by (auto simp: Let_def split: option.splits)
    with True \<open>\<And>n. fst ?r = Some n \<Longrightarrow> entitled (es @ [e]) p ?k n\<close> show ?thesis by blast
  qed (use ph GrRead all_mintedD(3) [OF inv] entitled_more in \<open>auto simp: Let_def\<close>)
  then show ?thesis using GrRead st by (intro all_minted_move [OF inv]) (auto simp: Let_def)
next
  case (GrClaim p env)
  have "entitled (es @ [e]) q k n"
    if "gr_phase (snd (gr_step be e y)) q = GrBusy c v k n t" for q c v k n t
    using that GrClaim all_mintedD(3) [OF inv] entitled_more
    by (auto simp: Let_def split: if_splits gr_phase.splits bool.splits)
  then show ?thesis
    using GrClaim by (intro all_minted_move [OF inv])
      (auto simp: Let_def consume_claim_def claim_other split: gr_phase.splits bool.splits if_splits)
next
  case (GrDrop p env)
  have "entitled (es @ [e]) q k n"
    if "gr_phase (snd (gr_step be e y)) q = GrBusy c v k n t" for q c v k n t
    using that GrDrop all_mintedD(3) [OF inv] entitled_more
    by (auto simp: Let_def split: if_splits gr_phase.splits bool.splits)
  then show ?thesis
    using GrDrop by (intro all_minted_move [OF inv])
      (auto simp: Let_def consume_drop_def delete_look split: gr_phase.splits bool.splits if_splits)
qed

lemma consumed_entitled:
  assumes "all_minted fl [] y" and "along (gr_step be) (gr_ok fl) es y"
    and "fst (gr_step be (GrDrop p env) (snd (run_steps (gr_step be) es y))) = Some (k, n)"
  shows "entitled es p k n"
proof -
  have "all_minted fl es (snd (run_steps (gr_step be) es y))"
    by (rule run_trace [where tr = "all_minted fl", OF assms(1) all_minted_step assms(2)])
  with assms(3) show ?thesis
    using all_mintedD(3) by (fastforce simp: Let_def split: gr_phase.splits bool.splits if_splits)
qed

end

text \<open>Names without NUL: equal keys are the same user, operation and resource digest.\<close>

lemma grant_key_parts:
  assumes "nul \<notin> set u" and "nul \<notin> set op" and "nul \<notin> set u'" and "nul \<notin> set op'"
  shows "grant_key sha u op r = grant_key sha u' op' r' \<longleftrightarrow>
    u = u' \<and> op = op' \<and> resource_hash sha r = resource_hash sha r'"
proof -
  have "split_first nul (grant_key sha v o' q) = Some (v, o' @ nul # resource_hash sha q)"
    if "nul \<notin> set v" for v o' q
    using that split_first_append [of nul v "o' @ nul # resource_hash sha q"] by (simp add: grant_key_def)
  moreover have "split_first nul (o' @ nul # h) = Some (o', h)" if "nul \<notin> set o'" for o' h
    using that by (rule split_first_append)
  ultimately show ?thesis using assms by (metis grant_key_def option.inject prod.inject)
qed

interpretation grants: won_once "gr_step sqlite_backend" "gr_ok fl" "sqlkv.gr_inv fl" "consumed n" "sqlkv.spent fl n"
  for fl n
  by unfold_locales (simp_all add: sqlkv.gr_inv_step sqlkv.consumed_spent sqlkv.spent_step)

end
