(* ===== verification/SessionCookie.thy ===== *)
theory SessionCookie
  imports AuthData
begin

text \<open>
  The signed operator cookie of security/sessions.py: creation, verification, refresh, the revocation
  key and the operator epoch.  The payload is text: user, creation, last use, expiry and the random
  session id, joined by colons.  \<open>issued\<close> is the set of cookies a login and its refreshes produce.
\<close>

record cookie_session =
  c_username :: string
  c_created :: int
  c_last_seen :: int
  c_expires :: int
  c_sid :: "string option"

record made_cookie =
  mk_value :: string
  mk_csrf :: string
  mk_max_age :: int

abbreviation default_idle_timeout :: int where "default_idle_timeout \<equiv> 1800"
abbreviation default_max_lifetime :: int where "default_max_lifetime \<equiv> 28800"
abbreviation ns_operator_epoch :: string where "ns_operator_epoch \<equiv> ''operator_session_epoch''"

definition join_colon :: "string list \<Rightarrow> string" where
  "join_colon ps = join '':'' ps"

definition payload_v3 :: "string \<Rightarrow> int \<Rightarrow> int \<Rightarrow> int \<Rightarrow> string \<Rightarrow> string" where
  "payload_v3 user created seen expires sid =
     join_colon [user, int_str created, int_str seen, int_str expires, sid]"

text \<open>\<open>argument or default\<close>.\<close>

definition or_int :: "int option \<Rightarrow> int \<Rightarrow> int" where
  "or_int arg d = (case arg of Some n \<Rightarrow> if n \<noteq> 0 then n else d | None \<Rightarrow> d)"

definition or_str :: "string option \<Rightarrow> string \<Rightarrow> string" where
  "or_str arg d = (case arg of Some t \<Rightarrow> if t \<noteq> [] then t else d | None \<Rightarrow> d)"

text \<open>\<open>fresh_csrf\<close> and \<open>sid\<close> are the random tokens of the call.\<close>

definition create_session_cookie ::
    "login_env \<Rightarrow> string \<Rightarrow> string option \<Rightarrow> int option \<Rightarrow> int option \<Rightarrow> string \<Rightarrow> string \<Rightarrow> made_cookie" where
  "create_session_cookie env user csrf idle_timeout max_lifetime fresh_csrf sid =
     (let idle = or_int idle_timeout (get_env_int env ''SESSION_IDLE_TIMEOUT'' default_idle_timeout);
          max_lt = or_int max_lifetime (get_env_int env ''SESSION_MAX_LIFETIME'' default_max_lifetime);
          now = l_secs env
      in \<lparr> mk_value = sign_token (l_mac env) (l_keys env) token_type_session
             (payload_v3 user now now (now + max_lt) sid),
           mk_csrf = or_str csrf fresh_csrf,
           mk_max_age = min idle max_lt \<rparr>)"

text \<open>\<open>re.fullmatch(r"[A-Za-z0-9_-]{16,64}", sid)\<close>.\<close>

definition sid_char :: "char \<Rightarrow> bool" where
  "sid_char c \<longleftrightarrow>
     (let n = of_char c :: nat
      in 48 \<le> n \<and> n \<le> 57 \<or> 65 \<le> n \<and> n \<le> 90 \<or> 97 \<le> n \<and> n \<le> 122 \<or> c = CHR ''_'' \<or> c = CHR ''-'')"

definition valid_sid :: "string \<Rightarrow> bool" where
  "valid_sid sid \<longleftrightarrow> 16 \<le> length sid \<and> length sid \<le> 64 \<and> list_all sid_char sid"

text \<open>The fields of a payload of version 3, 2 or 1.\<close>

definition payload_fields :: "string \<Rightarrow> (string \<times> string \<times> string \<times> string \<times> string option) option" where
  "payload_fields payload =
     (case split_all (CHR '':'') payload of
        [user, created, seen, expires, sid] \<Rightarrow>
          if valid_sid sid then Some (user, created, seen, expires, Some sid) else None
      | [user, created, seen, expires] \<Rightarrow> Some (user, created, seen, expires, None)
      | [user, created, expires] \<Rightarrow> Some (user, created, created, expires, None)
      | _ \<Rightarrow> None)"

definition verify_session_cookie :: "login_env \<Rightarrow> string \<Rightarrow> cookie_session option" where
  "verify_session_cookie env cv =
     (case verify_token (l_mac env) (l_keys env) token_type_session cv of
        None \<Rightarrow> None
      | Some payload \<Rightarrow>
          (case payload_fields payload of
             None \<Rightarrow> None
           | Some (user, created_str, seen_str, expires_str, sid) \<Rightarrow>
               (case (py_int created_str, py_int seen_str, py_int expires_str) of
                  (Some created, Some seen, Some expires) \<Rightarrow>
                    if of_int expires < l_now env then None
                    else if of_int (get_env_int env ''SESSION_IDLE_TIMEOUT'' default_idle_timeout)
                        < l_now env - of_int seen then None
                    else Some \<lparr> c_username = user, c_created = created, c_last_seen = seen,
                                c_expires = expires, c_sid = sid \<rparr>
                | _ \<Rightarrow> None)))"

definition stable_id :: "cookie_session \<Rightarrow> string" where
  "stable_id c = c_username c @ '':'' @ int_str (c_created c)"

definition session_revocation_key :: "login_env \<Rightarrow> string \<Rightarrow> string option" where
  "session_revocation_key env cv = map_option stable_id (verify_session_cookie env cv)"

text \<open>A cookie without a session id is not extended (the code audits it).\<close>

definition refresh_session_cookie :: "login_env \<Rightarrow> string \<Rightarrow> int \<Rightarrow> string option" where
  "refresh_session_cookie env cv refresh_grace =
     (case verify_session_cookie env cv of
        None \<Rightarrow> None
      | Some c \<Rightarrow>
          (case c_sid c of
             None \<Rightarrow> None
           | Some sid \<Rightarrow>
               if l_now env - of_int (c_last_seen c) < of_int refresh_grace then None
               else Some (sign_token (l_mac env) (l_keys env) token_type_session
                      (payload_v3 (c_username c) (c_created c) (l_secs env) (c_expires c) sid))))"

section \<open>The operator epoch\<close>

text \<open>The epoch is infinite when it cannot be read under the strict policy.\<close>

datatype epoch = EpochAt time | EpochInf

fun before_epoch :: "time \<Rightarrow> epoch \<Rightarrow> bool" where
  "before_epoch t (EpochAt e) = (t < e)"
| "before_epoch t EpochInf = True"

definition operator_session_epoch :: "'s backend \<Rightarrow> login_env \<Rightarrow> 's \<Rightarrow> epoch \<times> 's" where
  "operator_session_epoch be env s =
     (let outage = (if l_strict env then EpochInf else EpochAt 0)
      in if \<not> l_up env then (outage, s)
         else (case b_get be (l_now env) ns_operator_epoch ''all'' s of
                 (v, s) \<Rightarrow>
                   (if \<not> truthy v then EpochAt 0
                    else case float_of (read_float (l_fl env)) v of
                           Some t \<Rightarrow> EpochAt t
                         | None \<Rightarrow> outage, s)))"

section \<open>Cookies of one login\<close>

text \<open>
  The cookies of a login by \<open>user\<close> at \<open>created\<close> that ends at \<open>expires\<close>, with the time of the last
  refresh.
\<close>

inductive issued :: "string \<Rightarrow> int \<Rightarrow> int \<Rightarrow> string \<Rightarrow> string \<Rightarrow> int \<Rightarrow> bool" where
  login: "mk_value (create_session_cookie env user csrf idle life fresh sid) = cv \<Longrightarrow>
      l_secs env = created \<Longrightarrow>
      or_int life (get_env_int env ''SESSION_MAX_LIFETIME'' default_max_lifetime) = expires - created \<Longrightarrow>
      hex_mac (l_mac env) \<Longrightarrow> issued user created expires sid cv created"
| refresh: "issued user created expires sid old seen \<Longrightarrow> hex_mac (l_mac env) \<Longrightarrow>
      refresh_session_cookie env old grace = Some cv \<Longrightarrow>
      issued user created expires sid cv (l_secs env)"

lemma payload_v3_split:
  assumes "CHR '':'' \<notin> set user" and "CHR '':'' \<notin> set sid"
  shows "split_all (CHR '':'') (payload_v3 user created seen expires sid) =
    [user, int_str created, int_str seen, int_str expires, sid]"
  using assms
  by (simp add: payload_v3_def join_colon_def split_all_append split_all_plain)

lemma valid_sid_colon: "valid_sid sid \<Longrightarrow> CHR '':'' \<notin> set sid"
  by (auto simp: valid_sid_def list_all_iff sid_char_def Let_def)

text \<open>Whatever a process accepts, it was signed over exactly this text.\<close>

lemma verify_session_Some:
  assumes "verify_session_cookie env cv = Some c"
  shows "l_now env \<le> of_int (c_expires c)"
    and "l_now env - of_int (c_last_seen c) \<le> of_int (get_env_int env ''SESSION_IDLE_TIMEOUT'' default_idle_timeout)"
    and "\<exists>payload. verify_token (l_mac env) (l_keys env) token_type_session cv = Some payload"
  using assms
  by (auto simp: verify_session_cookie_def split: option.splits if_splits)

lemma verify_signed:
  assumes "verify_token (l_mac env) (l_keys env) token_type_session cv =
      Some (payload_v3 user created seen expires sid)"
    and "CHR '':'' \<notin> set user" and "valid_sid sid"
  shows "verify_session_cookie env cv =
    (if of_int expires < l_now env then None
     else if of_int (get_env_int env ''SESSION_IDLE_TIMEOUT'' default_idle_timeout) < l_now env - of_int seen
     then None
     else Some \<lparr> c_username = user, c_created = created, c_last_seen = seen, c_expires = expires,
                 c_sid = Some sid \<rparr>)"
  using assms valid_sid_colon
  by (simp add: verify_session_cookie_def payload_fields_def payload_v3_split)

lemma token_payload_unique:
  assumes "verify_token mac kr typ cv = Some p" and "cv = typ @ CHR '':'' # q @ CHR ''.'' # d"
    and "CHR ''.'' \<notin> set d"
  shows "p = q"
proof -
  from assms obtain x where "p @ CHR ''.'' # x = q @ CHR ''.'' # d" "CHR ''.'' \<notin> set x"
    by (auto simp: verify_token_Some)
  with assms(3) show ?thesis by (metis split_last_append option.inject prod.inject)
qed

definition cookie_text :: "string \<Rightarrow> string \<Rightarrow> bool" where
  "cookie_text payload cv \<longleftrightarrow>
     (\<exists>d. cv = token_type_session @ CHR '':'' # payload @ CHR ''.'' # d \<and> CHR ''.'' \<notin> set d)"

lemma sign_cookie_text:
  "hex_mac (l_mac env) \<Longrightarrow>
   cookie_text payload (sign_token (l_mac env) (l_keys env) token_type_session payload)"
  unfolding cookie_text_def sign_token_def hex_mac_def by fastforce

text \<open>A process that accepts such a text reads its fields back.\<close>

lemma cookie_text_verify:
  assumes "cookie_text (payload_v3 user created seen expires sid) cv"
    and "CHR '':'' \<notin> set user" and "valid_sid sid" and "verify_session_cookie env cv = Some c"
  shows "c = \<lparr> c_username = user, c_created = created, c_last_seen = seen, c_expires = expires,
               c_sid = Some sid \<rparr>"
proof -
  obtain payload where p: "verify_token (l_mac env) (l_keys env) token_type_session cv = Some payload"
    using verify_session_Some(3) [OF assms(4)] by blast
  then have "payload = payload_v3 user created seen expires sid"
    using assms(1) token_payload_unique unfolding cookie_text_def by blast
  with p show ?thesis
    using verify_signed [of env cv user created seen expires sid] assms(2-4) by (auto split: if_splits)
qed

lemma issued_text:
  assumes "issued user created expires sid cv seen" and "CHR '':'' \<notin> set user" and "valid_sid sid"
  shows "cookie_text (payload_v3 user created seen expires sid) cv"
  using assms
proof (induction rule: issued.induct)
  case (login env user csrf idle life fresh sid cv created expires)
  then show ?case
    using sign_cookie_text [of env] by (auto simp: create_session_cookie_def Let_def)
next
  case (refresh user created expires sid old seen env grace cv)
  obtain c where c: "verify_session_cookie env old = Some c"
    using refresh.hyps(3) by (auto simp: refresh_session_cookie_def split: option.splits)
  then have "c = \<lparr> c_username = user, c_created = created, c_last_seen = seen, c_expires = expires,
               c_sid = Some sid \<rparr>"
    using cookie_text_verify refresh.IH refresh.prems by blast
  with c refresh.hyps(2,3) show ?case
    using sign_cookie_text [of env] by (auto simp: refresh_session_cookie_def split: if_splits)
qed

text \<open>A login and its refreshes: what a process reads in any of their cookies, and until when.\<close>

lemma issued_bounds:
  assumes "issued user created expires sid cv seen" and "CHR '':'' \<notin> set user" and "valid_sid sid"
    and "verify_session_cookie env cv = Some c"
  shows "c_username c = user" and "c_created c = created" and "c_sid c = Some sid"
    and "c_expires c = expires" and "c_last_seen c = seen" and "l_now env \<le> of_int expires"
    and "l_now env - of_int seen \<le> of_int (get_env_int env ''SESSION_IDLE_TIMEOUT'' default_idle_timeout)"
proof -
  have c: "c = \<lparr> c_username = user, c_created = created, c_last_seen = seen, c_expires = expires,
               c_sid = Some sid \<rparr>"
    using cookie_text_verify issued_text assms by blast
  then show "c_username c = user" "c_created c = created" "c_sid c = Some sid" "c_expires c = expires"
    "c_last_seen c = seen" by simp_all
  show "l_now env \<le> of_int expires"
    "l_now env - of_int seen \<le> of_int (get_env_int env ''SESSION_IDLE_TIMEOUT'' default_idle_timeout)"
    using verify_session_Some(1,2) [OF assms(4)] c by simp_all
qed

text \<open>A fresh cookie is accepted by every process with the key, inside its two windows.\<close>

lemma created_accepted:
  assumes "mk_value (create_session_cookie env user csrf idle life fresh sid) = cv"
    and "hex_mac (l_mac env)" and "l_mac env' = l_mac env"
    and "kr_current (l_keys env) \<in> set (get_verify_secrets (l_keys env'))"
    and "CHR '':'' \<notin> set user" and "valid_sid sid"
    and "expires = l_secs env + or_int life (get_env_int env ''SESSION_MAX_LIFETIME'' default_max_lifetime)"
  shows "verify_session_cookie env' cv =
    (if of_int expires < l_now env' \<or>
        of_int (get_env_int env' ''SESSION_IDLE_TIMEOUT'' default_idle_timeout) < l_now env' - of_int (l_secs env)
     then None
     else Some \<lparr> c_username = user, c_created = l_secs env, c_last_seen = l_secs env,
                 c_expires = expires, c_sid = Some sid \<rparr>)"
proof -
  have "cv = sign_token (l_mac env) (l_keys env) token_type_session
      (payload_v3 user (l_secs env) (l_secs env) expires sid)"
    using assms(1,7) by (simp add: create_session_cookie_def Let_def)
  moreover have "CHR '':'' \<notin> set token_type_session" by simp
  ultimately have "verify_token (l_mac env') (l_keys env') token_type_session cv =
      Some (payload_v3 user (l_secs env) (l_secs env) expires sid)"
    using verify_sign_retired assms(2-4) by metis
  with assms(5,6) show ?thesis by (auto simp: verify_signed)
qed

text \<open>A user name with a colon gets a cookie that no process accepts.\<close>

lemma split_all_length: "length (split_all c s) = Suc (length (filter (\<lambda>x. x = c) s))"
  by (induction s) (auto split: list.split)

end
