(* ===== verification/AuthPolicy.thy ===== *)
theory AuthPolicy
  imports SessionCookie
begin

text \<open>
  Authentication assurance of security/auth_policy.py (with the profile name of security/profiles.py
  and \<open>bump_operator_epoch\<close> of security/sessions.py, which drops every recorded context): what a
  login proved is kept per session in the shared state, and \<open>evaluate\<close> compares it with the
  requirements of an operation under the deployment's profile.  Log and audit records are left out.
\<close>

record requirement =
  rq_mfa :: bool
  rq_phishing_resistant :: bool
  rq_user_verified :: bool
  rq_max_age :: "int option"
  rq_alternatives :: "string list list"

record decision =
  dc_allowed :: bool
  dc_operation :: string
  dc_reason :: "string option"
  dc_method :: pyval
  dc_age :: "int option"
  dc_missing :: "string list"
  dc_enforced :: bool
  dc_satisfied :: bool

definition strong_alternatives :: "string list list" where
  "strong_alternatives = [[''mfa''], [''phishing_resistant'', ''user_verified'']]"

definition no_requirement :: requirement where
  "no_requirement = \<lparr> rq_mfa = False, rq_phishing_resistant = False, rq_user_verified = False,
     rq_max_age = None, rq_alternatives = [] \<rparr>"

definition auth_policies :: "(string \<times> requirement) list" where
  "auth_policies =
     [(''open_terminal'',
         no_requirement\<lparr>rq_alternatives := strong_alternatives, rq_max_age := Some 600\<rparr>),
      (''create_admin'', no_requirement\<lparr>rq_mfa := True, rq_max_age := Some 300\<rparr>),
      (''delete_admin'', no_requirement\<lparr>rq_mfa := True, rq_max_age := Some 300\<rparr>),
      (''webauthn_register'', no_requirement\<lparr>rq_mfa := True, rq_max_age := Some 300\<rparr>),
      (''webauthn_delete'', no_requirement\<lparr>rq_phishing_resistant := True,
         rq_user_verified := True, rq_max_age := Some 300\<rparr>)]"

definition pending_policies :: "(string \<times> requirement) list" where
  "pending_policies =
     [(''secrets.rotate'', no_requirement\<lparr>rq_phishing_resistant := True,
         rq_user_verified := True, rq_max_age := Some 300\<rparr>),
      (''backup.restore'',
         no_requirement\<lparr>rq_alternatives := strong_alternatives, rq_max_age := Some 300\<rparr>),
      (''operator.grant_admin'', no_requirement\<lparr>rq_phishing_resistant := True,
         rq_user_verified := True, rq_max_age := Some 300\<rparr>)]"

definition enforce_mfa_only :: "string list" where "enforce_mfa_only = [''trusted-lan'']"
definition enforce_all_in :: "string list" where
  "enforce_all_in = [''private-overlay'', ''public-hardened'']"

section \<open>The profile name\<close>

definition env_or :: "login_env \<Rightarrow> string \<Rightarrow> string \<Rightarrow> string" where
  "env_or env name dflt =
     (case l_environ env name of Some v \<Rightarrow> if v \<noteq> [] then v else dflt | None \<Rightarrow> dflt)"

definition get_profile :: "login_env \<Rightarrow> string" where
  "get_profile env = env_or env ''SECURITY_PROFILE'' (env_or env ''VNC_REMOTE_PROFILE'' ''development'')"

definition profile_aliases :: "(string \<times> string) list" where
  "profile_aliases =
     [(''home-lan'', ''trusted-lan''), (''private-vpn'', ''private-overlay''),
      (''internet-hardened'', ''public-hardened''), (''local-only'', ''development'')]"

definition resolve_profile :: "login_env \<Rightarrow> string" where
  "resolve_profile env = py_get (get_profile env) (get_profile env) profile_aliases"

section \<open>Recorded contexts\<close>

abbreviation ns_ctx :: string where "ns_ctx \<equiv> ''web_auth_context''"

definition session_key :: "login_env \<Rightarrow> string \<Rightarrow> string" where
  "session_key env session_id = l_sha env session_id"

definition session_id_for_cookie :: "login_env \<Rightarrow> string \<Rightarrow> string option" where
  "session_id_for_cookie env cv =
     (case verify_session_cookie env cv of Some c \<Rightarrow> c_sid c | None \<Rightarrow> None)"

definition idx_prefix :: "login_env \<Rightarrow> string \<Rightarrow> string" where
  "idx_prefix env pair = ''idx:'' @ session_key env pair @ '':''"

text \<open>\<open>int(os.environ.get("SESSION_MAX_LIFETIME", "86400"))\<close>; \<open>None\<close> is ValueError.\<close>

definition strict_lifetime :: "login_env \<Rightarrow> int option" where
  "strict_lifetime env =
     (case l_environ env ''SESSION_MAX_LIFETIME'' of None \<Rightarrow> Some 86400 | Some v \<Rightarrow> py_int v)"

definition epoch_val :: "epoch \<Rightarrow> pyval" where
  "epoch_val e = (case e of EpochAt t \<Rightarrow> PFloat t | EpochInf \<Rightarrow> PNone)"

text \<open>
  Every exception is swallowed: an outage, and a lifetime that is no number, record nothing.  (With
  the backend reachable the epoch is finite unless a stored one cannot be read; \<open>epoch_val\<close> of an
  infinite one is a null.)
\<close>

definition record_auth_context ::
    "'s backend \<Rightarrow> login_env \<Rightarrow> string \<Rightarrow> (string \<times> pyval) list \<Rightarrow> string option \<Rightarrow> int option \<Rightarrow> 's \<Rightarrow> 's"
where
  "record_auth_context be env session_id ctx pair expires_at s =
     (if \<not> l_up env then s
      else (case operator_session_epoch be env s of
              (ep, s) \<Rightarrow>
                let ctx = AList.update ''operator_epoch'' (epoch_val ep) ctx
                in (case strict_lifetime env of
                      None \<Rightarrow> s
                    | Some life \<Rightarrow>
                        let ttl = (case expires_at of
                                     Some x \<Rightarrow> if x \<noteq> 0 then min life (max 1 (x - l_secs env)) else life
                                   | None \<Rightarrow> life);
                            s = b_set_ttl be (l_now env) ns_ctx (session_key env session_id) (PDict ctx)
                                  (of_int ttl) s
                        in (case pair of
                              Some st \<Rightarrow>
                                if st \<noteq> [] then
                                  b_set_ttl be (l_now env) ns_ctx
                                    (idx_prefix env st @ session_key env session_id) (PStr session_id)
                                    (of_int ttl) s
                                else s
                            | None \<Rightarrow> s))))"

definition ctx_fields :: "string list" where
  "ctx_fields =
     [''auth_method'', ''mfa'', ''phishing_resistant'', ''user_verified'', ''authenticated_at'', ''username'']"

definition update_auth_context ::
    "'s backend \<Rightarrow> login_env \<Rightarrow> string \<Rightarrow> (string \<times> pyval) list \<Rightarrow> 's \<Rightarrow> 's" where
  "update_auth_context be env session_id flds s =
     (if \<not> list_all (\<lambda>(k, _). k \<in> set ctx_fields) flds then s
      else if (case map_of flds ''authenticated_at'' of Some v \<Rightarrow> num_of v = None | None \<Rightarrow> False) then s
      else if \<not> l_up env then s
      else (case b_get be (l_now env) ns_ctx (session_key env session_id) s of
              (PDict ctx, s) \<Rightarrow>
                (case strict_lifetime env of
                   None \<Rightarrow> s
                 | Some life \<Rightarrow>
                     b_set_ttl be (l_now env) ns_ctx (session_key env session_id)
                       (PDict (foldl (\<lambda>d (k, v). AList.update k v d) ctx flds)) (of_int life) s)
            | (_, s) \<Rightarrow> s))"

definition auth_context_for ::
    "'s backend \<Rightarrow> login_env \<Rightarrow> string \<Rightarrow> 's \<Rightarrow> (string \<times> pyval) list \<times> 's" where
  "auth_context_for be env session_id s =
     (if session_id = [] \<or> \<not> l_up env then ([], s)
      else (case b_get be (l_now env) ns_ctx (session_key env session_id) s of
              (PDict d, s) \<Rightarrow> (d, s)
            | (_, s) \<Rightarrow> ([], s)))"

definition drop_auth_context ::
    "'s backend \<Rightarrow> login_env \<Rightarrow> string \<Rightarrow> string option \<Rightarrow> 's \<Rightarrow> 's" where
  "drop_auth_context be env session_id pair s =
     (if \<not> l_up env then s
      else let s = b_delete be ns_ctx (session_key env session_id) s
           in (case pair of
                 Some st \<Rightarrow>
                   if st \<noteq> [] then b_delete be ns_ctx (idx_prefix env st @ session_key env session_id) s else s
               | None \<Rightarrow> s))"

definition drop_auth_context_for_cookie :: "'s backend \<Rightarrow> login_env \<Rightarrow> string \<Rightarrow> 's \<Rightarrow> 's" where
  "drop_auth_context_for_cookie be env cv s =
     (case verify_session_cookie env cv of
        None \<Rightarrow> s
      | Some c \<Rightarrow>
          (case c_sid c of
             None \<Rightarrow> s
           | Some sid \<Rightarrow>
               drop_auth_context be env sid (if c_created c \<noteq> 0 then Some (stable_id c) else None) s))"

definition drop_auth_contexts_for_stable :: "'s backend \<Rightarrow> login_env \<Rightarrow> string \<Rightarrow> 's \<Rightarrow> 's" where
  "drop_auth_contexts_for_stable be env pair s =
     (if pair = [] \<or> \<not> l_up env then s
      else let p = idx_prefix env pair
           in foldl (\<lambda>s k. b_delete be ns_ctx (drop (length p) k) (b_delete be ns_ctx k s)) s
                (b_list_keys be (l_now env) ns_ctx p s))"

definition drop_auth_context_for :: "'s backend \<Rightarrow> login_env \<Rightarrow> string \<Rightarrow> 's \<Rightarrow> 's" where
  "drop_auth_context_for be env cookie_or_stable s =
     (if session_id_for_cookie env cookie_or_stable \<noteq> None
      then drop_auth_context_for_cookie be env cookie_or_stable s
      else drop_auth_contexts_for_stable be env cookie_or_stable s)"

definition drop_all_auth_contexts :: "'s backend \<Rightarrow> login_env \<Rightarrow> 's \<Rightarrow> nat \<times> 's" where
  "drop_all_auth_contexts be env s =
     (if \<not> l_up env then (0, s)
      else let ks = b_list_keys be (l_now env) ns_ctx [] s
           in (length ks, foldl (\<lambda>s k. b_delete be ns_ctx k s) s ks))"

text \<open>\<open>sessions.bump_operator_epoch\<close>: an outage is re-raised under the strict policy only.\<close>

definition bump_operator_epoch :: "'s backend \<Rightarrow> login_env \<Rightarrow> 's \<Rightarrow> unit outcome \<times> 's" where
  "bump_operator_epoch be env s =
     (if \<not> l_up env then (if l_strict env then Raised else Returned (), s)
      else (Returned (),
        snd (drop_all_auth_contexts be env
          (b_set_ttl be (l_now env) ns_operator_epoch ''all'' (PFloat (l_now env))
             (of_int (get_env_int env ''SESSION_MAX_LIFETIME'' 86400 + 86400)) s))))"

section \<open>Evaluation\<close>

definition resolve_requirement :: "string \<Rightarrow> requirement option \<times> bool" where
  "resolve_requirement operation =
     (case map_of auth_policies operation of
        Some r \<Rightarrow> (Some r, False)
      | None \<Rightarrow> (let r = map_of pending_policies operation in (r, r \<noteq> None)))"

definition auth_age :: "login_env \<Rightarrow> (string \<times> pyval) list \<Rightarrow> int option" where
  "auth_age env ctx =
     map_option (\<lambda>t. trunc (l_now env - t)) (num_of (py_get ''authenticated_at'' PNone ctx))"

definition future_denial :: "string \<Rightarrow> pyval \<Rightarrow> int option \<Rightarrow> decision option" where
  "future_denial operation meth age =
     (case age of
        Some a \<Rightarrow>
          if a < -30 then
            Some \<lparr> dc_allowed = False, dc_operation = operation, dc_reason = Some ''INVALID_AUTH_CONTEXT'',
                   dc_method = meth, dc_age = age, dc_missing = [''recent_auth''], dc_enforced = True,
                   dc_satisfied = True \<rparr>
          else None
      | None \<Rightarrow> None)"

definition epoch_denied ::
    "'s backend \<Rightarrow> login_env \<Rightarrow> (string \<times> pyval) list \<Rightarrow> string \<Rightarrow> pyval \<Rightarrow> int option \<Rightarrow> 's \<Rightarrow> decision option \<times> 's"
where
  "epoch_denied be env ctx operation meth age s =
     (let deny = (\<lambda>reason lacking.
            \<lparr> dc_allowed = False, dc_operation = operation, dc_reason = Some reason, dc_method = meth,
              dc_age = age, dc_missing = [lacking], dc_enforced = True, dc_satisfied = False \<rparr>)
      in (case py_get ''operator_epoch'' PNone ctx of
            PNone \<Rightarrow> (None, s)
          | v \<Rightarrow>
              (case float_of (read_float (l_fl env)) v of
                 None \<Rightarrow> (Some (deny ''AUTH_CONTEXT_INVALID'' ''operator_epoch''), s)
               | Some t \<Rightarrow>
                   (case operator_session_epoch be env s of
                      (ep, s) \<Rightarrow>
                        (if before_epoch t ep then Some (deny ''SESSION_REVOKED'' ''current_epoch'')
                         else None, s)))))"

definition missing_requirements :: "requirement \<Rightarrow> (string \<times> pyval) list \<Rightarrow> int option \<Rightarrow> string list" where
  "missing_requirements rq ctx age =
     (let has = (\<lambda>p. truthy (py_get p PNone ctx)) in
      (if rq_mfa rq \<and> \<not> has ''mfa'' then [''mfa''] else []) @
      (if rq_phishing_resistant rq \<and> \<not> has ''phishing_resistant'' then [''phishing_resistant''] else []) @
      (if rq_user_verified rq \<and> py_get ''user_verified'' PNone ctx \<noteq> PBool True then [''user_verified''] else []) @
      (if rq_alternatives rq \<noteq> [] \<and> \<not> list_ex (list_all has) (rq_alternatives rq) then [''strong_method''] else []) @
      (case rq_max_age rq of
         Some limit \<Rightarrow>
           (case age of None \<Rightarrow> [''recent_auth''] | Some a \<Rightarrow> if limit < a then [''recent_auth''] else [])
       | None \<Rightarrow> []))"

definition reason_code :: "bool \<Rightarrow> string list \<Rightarrow> bool \<Rightarrow> bool \<Rightarrow> string list \<Rightarrow> string option" where
  "reason_code pending missing enforced allowed enforced_missing =
     (if pending \<and> missing \<noteq> [] then Some ''POLICY_PENDING''
      else if enforced \<and> \<not> allowed then
        (if enforced_missing = [''recent_auth''] then Some ''AUTH_TOO_OLD''
         else if ''mfa'' \<in> set enforced_missing then Some ''MFA_REQUIRED''
         else Some ''STRONG_AUTH_REQUIRED'')
      else None)"

definition policy_decision ::
    "string \<Rightarrow> requirement \<Rightarrow> bool \<Rightarrow> (string \<times> pyval) list \<Rightarrow> string \<Rightarrow> pyval \<Rightarrow> int option \<Rightarrow> decision" where
  "policy_decision operation rq pending ctx profile meth age =
     (let enforce_all = (profile \<in> set enforce_all_in \<and> \<not> pending);
          enforce_mfa = ((enforce_all \<or> profile \<in> set enforce_mfa_only) \<and> \<not> pending);
          missing = missing_requirements rq ctx age;
          enforced_missing =
            filter (\<lambda>m. m \<in> {''mfa'', ''recent_auth'', ''strong_method''} \<or> enforce_all) missing;
          enforced = (enforce_mfa \<or> enforce_all);
          allowed = (if enforced then enforced_missing = [] else True)
      in \<lparr> dc_allowed = allowed, dc_operation = operation,
           dc_reason = reason_code pending missing enforced allowed enforced_missing,
           dc_method = meth, dc_age = age, dc_missing = missing, dc_enforced = enforced,
           dc_satisfied = (missing = []) \<rparr>)"

definition evaluate ::
    "'s backend \<Rightarrow> login_env \<Rightarrow> string \<Rightarrow> (string \<times> pyval) list \<Rightarrow> string option \<Rightarrow> 's \<Rightarrow> decision \<times> 's" where
  "evaluate be env operation ctx profile s =
     (let rp = resolve_requirement operation;
          meth = py_get ''auth_method'' PNone ctx;
          age = auth_age env ctx
      in (case future_denial operation meth age of
            Some d \<Rightarrow> (d, s)
          | None \<Rightarrow>
              (case fst rp of
                 None \<Rightarrow>
                   (\<lparr> dc_allowed = True, dc_operation = operation, dc_reason = None, dc_method = meth,
                      dc_age = age, dc_missing = [], dc_enforced = False, dc_satisfied = True \<rparr>, s)
               | Some rq \<Rightarrow>
                   (case epoch_denied be env ctx operation meth age s of
                      (Some d, s) \<Rightarrow> (d, s)
                    | (None, s) \<Rightarrow>
                        (policy_decision operation rq (snd rp) ctx
                           (case profile of Some p \<Rightarrow> p | None \<Rightarrow> get_profile env) meth age, s)))))"

end
