(* ===== verification/SocketRegistry.thy ===== *)
theory SocketRegistry
  imports AuthPolicy
begin

text \<open>
  The registry of live WebSocket connections of security/websocket_registry.py and the sweep that
  closes them.  A close callback is what it does when it is called.  The expiry of a share link is
  looked up in another component and is an argument of the sweep.  Gauges, counters, forensic stamps
  and log records are left out.
\<close>

abbreviation ns_revoked :: string where "ns_revoked \<equiv> ''websocket_revoked_sessions''"

datatype close_callback =
    CloseRuns            \<comment> \<open>an ordinary function that returns\<close>
  | CloseRaises
  | CloseScheduled       \<comment> \<open>a coroutine whose loop takes it\<close>
  | CloseAbandoned       \<comment> \<open>a coroutine that no running loop takes\<close>

record connection =
  cn_session :: string
  cn_close :: close_callback
  cn_resource :: "string option"
  cn_created :: time
  cn_ip :: string

text \<open>\<open>rg_by_session\<close> is a dictionary of sets.\<close>

record registry =
  rg_connections :: "(string \<times> connection) list"
  rg_by_session :: "(string \<times> string list) list"
  rg_next :: nat

definition new_registry :: registry where
  "new_registry = \<lparr> rg_connections = [], rg_by_session = [], rg_next = 0 \<rparr>"

section \<open>Revocation marks\<close>

definition revoked_shared :: "'s backend \<Rightarrow> login_env \<Rightarrow> string \<Rightarrow> 's \<Rightarrow> bool \<times> 's" where
  "revoked_shared be env session_id s =
     (if \<not> l_up env then (l_strict env, s)
      else (case b_get be (l_now env) ns_revoked session_id s of (v, s) \<Rightarrow> (truthy v, s)))"

definition sid_mark :: "string \<Rightarrow> string" where
  "sid_mark sid = ''sid:'' @ sid"

text \<open>\<open>is_revoked_shared(x) or is_revoked_shared("sid:" + x)\<close>.\<close>

definition revoked_either :: "'s backend \<Rightarrow> login_env \<Rightarrow> string \<Rightarrow> 's \<Rightarrow> bool \<times> 's" where
  "revoked_either be env session_id s =
     (case revoked_shared be env session_id s of
        (True, s) \<Rightarrow> (True, s)
      | (False, s) \<Rightarrow> revoked_shared be env (sid_mark session_id) s)"

section \<open>Registering\<close>

definition max_connections :: "login_env \<Rightarrow> int" where
  "max_connections env =
     (case l_environ env ''WS_MAX_CONNECTIONS'' of
        None \<Rightarrow> 256
      | Some v \<Rightarrow> (case py_int v of Some n \<Rightarrow> max 1 n | None \<Rightarrow> 256))"

definition max_connections_per_ip :: "login_env \<Rightarrow> int" where
  "max_connections_per_ip env =
     (case l_environ env ''WS_MAX_CONNECTIONS_PER_IP'' of
        None \<Rightarrow> 32
      | Some v \<Rightarrow> (case py_int v of Some n \<Rightarrow> max 1 n | None \<Rightarrow> 32))"

definition from_ip :: "string \<Rightarrow> (string \<times> connection) list \<Rightarrow> nat" where
  "from_ip ip cs = length (filter (\<lambda>(_, c). cn_ip c = ip) cs)"

definition fire_close :: "close_callback \<Rightarrow> bool" where
  "fire_close c \<longleftrightarrow> c = CloseRuns \<or> c = CloseScheduled"

definition add_conn :: "string \<Rightarrow> connection \<Rightarrow> registry \<Rightarrow> registry" where
  "add_conn conn_id c reg =
     reg\<lparr> rg_connections := AList.update conn_id c (rg_connections reg),
          rg_by_session := AList.update (cn_session c)
            (List.insert conn_id (py_get (cn_session c) [] (rg_by_session reg))) (rg_by_session reg) \<rparr>"

text \<open>The set of the session stays, even when it is empty now.\<close>

definition take_back :: "string \<Rightarrow> string \<Rightarrow> registry \<Rightarrow> registry" where
  "take_back conn_id session_id reg =
     reg\<lparr> rg_connections := AList.delete conn_id (rg_connections reg),
          rg_by_session :=
            (case map_of (rg_by_session reg) session_id of
               None \<Rightarrow> rg_by_session reg
             | Some ids \<Rightarrow> AList.update session_id (removeAll conn_id ids) (rg_by_session reg)) \<rparr>"

definition conn_name :: "nat \<Rightarrow> string" where
  "conn_name n = ''ws_'' @ nat_str n"

text \<open>
  \<open>register\<close>: the guards, the entry, the second look at the marks.  Between the two looks other
  processes may write to the shared state; \<open>meanwhile\<close> is what they do.
\<close>

definition register_connection ::
    "'s backend \<Rightarrow> login_env \<Rightarrow> ('s \<Rightarrow> 's) \<Rightarrow> string \<Rightarrow> close_callback \<Rightarrow> string option \<Rightarrow> string \<Rightarrow>
     registry \<Rightarrow> 's \<Rightarrow> string option \<times> registry \<times> 's"
where
  "register_connection be env meanwhile session_id close resource ip reg s =
     (case revoked_either be env session_id s of
        (True, s) \<Rightarrow> (None, reg, s)
      | (False, s) \<Rightarrow>
          if max_connections env \<le> int (length (rg_connections reg)) then (None, reg, s)
          else if ip \<noteq> [] \<and> max_connections_per_ip env \<le> int (from_ip ip (rg_connections reg))
          then (None, reg, s)
          else
            let n = rg_next reg + 1;
                conn_id = conn_name n;
                c = \<lparr> cn_session = session_id, cn_close = close, cn_resource = resource,
                      cn_created = l_now env, cn_ip = ip \<rparr>;
                reg = add_conn conn_id c (reg\<lparr>rg_next := n\<rparr>)
            in (case revoked_either be env session_id (meanwhile s) of
                  (True, s) \<Rightarrow> (None, take_back conn_id session_id reg, s)
                | (False, s) \<Rightarrow> (Some conn_id, reg, s)))"

definition unregister_connection :: "string \<Rightarrow> registry \<Rightarrow> registry" where
  "unregister_connection conn_id reg =
     (case map_of (rg_connections reg) conn_id of
        None \<Rightarrow> reg
      | Some c \<Rightarrow>
          let reg = reg\<lparr>rg_connections := AList.delete conn_id (rg_connections reg)\<rparr>
          in (case map_of (rg_by_session reg) (cn_session c) of
                None \<Rightarrow> reg
              | Some ids \<Rightarrow>
                  let ids = removeAll conn_id ids
                  in reg\<lparr>rg_by_session :=
                       (if ids = [] then AList.delete (cn_session c) (rg_by_session reg)
                        else AList.update (cn_session c) ids (rg_by_session reg))\<rparr>))"

definition get_active_count :: "string \<Rightarrow> registry \<Rightarrow> nat" where
  "get_active_count session_id reg = length (py_get session_id [] (rg_by_session reg))"

definition get_active_sessions :: "registry \<Rightarrow> string list" where
  "get_active_sessions reg = map fst (rg_by_session reg)"

definition get_connection_info :: "string \<Rightarrow> registry \<Rightarrow> (string \<times> connection) list" where
  "get_connection_info session_id reg =
     concat (map (\<lambda>i. case map_of (rg_connections reg) i of Some c \<Rightarrow> [(i, c)] | None \<Rightarrow> [])
       (py_get session_id [] (rg_by_session reg)))"

section \<open>Closing\<close>

text \<open>The time of an earlier mark; a \<open>True\<close> of an old version counts as none.\<close>

definition earlier_mark :: "pyval \<Rightarrow> pyval option" where
  "earlier_mark v = (case v of PInt n \<Rightarrow> Some v | PFloat t \<Rightarrow> Some v | _ \<Rightarrow> None)"

definition mark_ttl :: "int \<Rightarrow> time" where
  "mark_ttl lifetime = of_int (max 86400 lifetime)"

text \<open>
  \<open>revoke_session_connections\<close>: mark the session, drop its contexts, take its connections out and close them.
  With the backend out of reach the first call raises and nothing is closed.
\<close>

definition revoke_session_connections ::
    "'s backend \<Rightarrow> login_env \<Rightarrow> string \<Rightarrow> registry \<Rightarrow> 's \<Rightarrow> nat outcome \<times> registry \<times> 's" where
  "revoke_session_connections be env session_id reg s =
     (if \<not> l_up env then (Raised, reg, s)
      else (case b_get be (l_now env) ns_revoked session_id s of
              (existing, s) \<Rightarrow>
                let marked_at = (case earlier_mark existing of Some v \<Rightarrow> v | None \<Rightarrow> PFloat (l_now env));
                    ttl = mark_ttl (get_env_int env ''SESSION_MAX_LIFETIME'' default_max_lifetime);
                    key = (case session_id_for_cookie env session_id of
                             Some sid \<Rightarrow> if sid \<noteq> [] then sid_mark sid else session_id
                           | None \<Rightarrow> session_id);
                    s = drop_auth_context_for be env session_id
                          (b_set_ttl be (l_now env) ns_revoked key marked_at ttl s);
                    ids = py_get session_id [] (rg_by_session reg);
                    gone = concat (map (\<lambda>i. case map_of (rg_connections reg) i of Some c \<Rightarrow> [c] | None \<Rightarrow> []) ids);
                    reg = reg\<lparr> rg_connections := filter (\<lambda>(i, _). i \<notin> set ids) (rg_connections reg),
                               rg_by_session := AList.delete session_id (rg_by_session reg) \<rparr>
                in (Returned (length (filter (\<lambda>c. fire_close (cn_close c)) gone)), reg, s)))"

section \<open>The sweep\<close>

text \<open>The reason to close an operator session: its absolute end or the operator epoch.\<close>

definition operator_session_dead ::
    "'s backend \<Rightarrow> login_env \<Rightarrow> string \<Rightarrow> 's \<Rightarrow> string option \<times> 's" where
  "operator_session_dead be env session_id s =
     (let failed = (if l_strict env then Some ''revoked'' else None);
          check = (\<lambda>created expires.
            case py_int expires of
              None \<Rightarrow> (failed, s)
            | Some x \<Rightarrow>
                if of_int x < l_now env then (Some ''expired'', s)
                else (case operator_session_epoch be env s of
                        (ep, s) \<Rightarrow>
                          (case py_int created of
                             None \<Rightarrow> failed
                           | Some c \<Rightarrow> if before_epoch (of_int c) ep then Some ''revoked'' else None, s)))
      in if take 8 session_id \<noteq> ''session:'' then (None, s)
         else (case verify_token (l_mac env) (l_keys env) token_type_session session_id of
                 None \<Rightarrow> (Some ''expired'', s)
               | Some payload \<Rightarrow>
                   (case split_all (CHR '':'') payload of
                      [_, created, _, expires] \<Rightarrow> check created expires
                    | [_, created, expires] \<Rightarrow> check created expires
                    | _ \<Rightarrow> (Some ''expired'', s))))"

text \<open>\<open>share\<close>: the expiry of a share link in the session store, or an error of the store.\<close>

definition share_expired :: "login_env \<Rightarrow> time option outcome \<Rightarrow> bool" where
  "share_expired env share =
     (case share of
        Returned (Some x) \<Rightarrow> x < l_now env
      | Returned None \<Rightarrow> False
      | Raised \<Rightarrow> l_strict env)"

definition sweep_session ::
    "'s backend \<Rightarrow> login_env \<Rightarrow> time option outcome \<Rightarrow> string \<Rightarrow> registry \<Rightarrow> 's \<Rightarrow>
     bool outcome \<times> registry \<times> 's"
where
  "sweep_session be env share session_id reg s =
     (case (case revoked_shared be env session_id s of
              (True, s) \<Rightarrow> (Some ''revoked'', s)
            | (False, s) \<Rightarrow>
                if share_expired env share then (Some ''expired'', s)
                else operator_session_dead be env session_id s) of
        (None, s) \<Rightarrow> (Returned False, reg, s)
      | (Some reason, s) \<Rightarrow>
          (case revoke_session_connections be env session_id reg s of
             (Raised, reg, s) \<Rightarrow> (Raised, reg, s)
           | (Returned n, reg, s) \<Rightarrow> (Returned True, reg, s)))"

text \<open>One round of a watcher: \<open>True\<close> when it goes on polling.\<close>

definition watch_round ::
    "'s backend \<Rightarrow> login_env \<Rightarrow> time option outcome \<Rightarrow> string \<Rightarrow> registry \<Rightarrow> 's \<Rightarrow>
     bool outcome \<times> registry \<times> 's"
where
  "watch_round be env share session_id reg s =
     (case sweep_session be env share session_id reg s of
        (Raised, reg, s) \<Rightarrow> (Raised, reg, s)
      | (Returned True, reg, s) \<Rightarrow> (Returned False, reg, s)
      | (Returned False, reg, s) \<Rightarrow> (Returned (get_active_count session_id reg \<noteq> 0), reg, s))"

section \<open>The two tables agree\<close>

definition conns_of :: "string \<Rightarrow> registry \<Rightarrow> string set" where
  "conns_of session_id reg =
     {i. \<exists>c. map_of (rg_connections reg) i = Some c \<and> cn_session c = session_id}"

definition reg_ok :: "registry \<Rightarrow> bool" where
  "reg_ok reg \<longleftrightarrow>
     distinct (map fst (rg_connections reg)) \<and> distinct (map fst (rg_by_session reg)) \<and>
     (\<forall>x. distinct (py_get x [] (rg_by_session reg)) \<and>
          set (py_get x [] (rg_by_session reg)) = conns_of x reg) \<and>
     (\<forall>i c. map_of (rg_connections reg) i = Some c \<longrightarrow> (\<exists>n \<le> rg_next reg. i = conn_name n))"

lemma reg_okD:
  assumes "reg_ok reg"
  shows "distinct (map fst (rg_connections reg))" and "distinct (map fst (rg_by_session reg))"
    and "distinct (py_get x [] (rg_by_session reg))"
    and "set (py_get x [] (rg_by_session reg)) = conns_of x reg"
    and "map_of (rg_connections reg) i = Some c \<Longrightarrow> \<exists>n \<le> rg_next reg. i = conn_name n"
  using assms unfolding reg_ok_def by blast+

lemma reg_ok_new: "reg_ok new_registry"
  by (simp add: reg_ok_def new_registry_def py_get_def conns_of_def)

lemma conn_name_inject [simp]: "conn_name m = conn_name n \<longleftrightarrow> m = n"
  unfolding conn_name_def by (metis py_digits_nat_str option.inject same_append_eq)

lemma fresh_name:
  assumes "reg_ok reg"
  shows "map_of (rg_connections reg) (conn_name (rg_next reg + 1)) = None"
proof (cases "map_of (rg_connections reg) (conn_name (rg_next reg + 1))")
  case (Some c)
  then show ?thesis using reg_okD(5) [OF assms Some] by auto
qed simp

lemma py_get_update [simp]: "py_get k d (AList.update j v kvs) = (if k = j then v else py_get k d kvs)"
  by (simp add: py_get_def)

lemma py_get_delete [simp]: "py_get k d (AList.delete j kvs) = (if k = j then d else py_get k d kvs)"
  by (simp add: py_get_def)

lemma reg_ok_add:
  assumes ok: "reg_ok reg" and i: "i = conn_name (rg_next reg + 1)"
  shows "reg_ok (add_conn i c (reg\<lparr>rg_next := rg_next reg + 1\<rparr>))"
proof -
  let ?r = "add_conn i c (reg\<lparr>rg_next := rg_next reg + 1\<rparr>)"
  have new: "map_of (rg_connections reg) i = None" using fresh_name [OF ok] i by simp
  have conns: "conns_of x ?r = (if x = cn_session c then insert i (conns_of x reg) else conns_of x reg)" for x
    using new by (auto simp: conns_of_def add_conn_def)
  have "\<exists>n \<le> rg_next ?r. j = conn_name n" if "map_of (rg_connections ?r) j = Some d" for j d
    using that reg_okD(5) [OF ok, of j d] i by (fastforce simp: add_conn_def split: if_splits)
  with reg_okD(1-4) [OF ok] conns show ?thesis
    by (simp add: reg_ok_def add_conn_def distinct_update)
qed

lemma has_set:
  assumes "reg_ok reg" and "map_of (rg_connections reg) i = Some c"
  obtains ids where "map_of (rg_by_session reg) (cn_session c) = Some ids"
proof (cases "map_of (rg_by_session reg) (cn_session c)")
  case None
  then have "conns_of (cn_session c) reg = {}"
    using reg_okD(4) [OF assms(1), of "cn_session c"] by (simp add: py_get_def)
  with assms(2) show ?thesis by (auto simp: conns_of_def)
qed

lemma reg_ok_take_back:
  assumes ok: "reg_ok reg" and c: "map_of (rg_connections reg) i = Some c"
  shows "reg_ok (take_back i (cn_session c) reg)"
proof -
  let ?r = "take_back i (cn_session c) reg"
  obtain ids where ids: "map_of (rg_by_session reg) (cn_session c) = Some ids"
    by (rule has_set [OF ok c])
  have get: "py_get x [] (rg_by_session ?r) = removeAll i (py_get x [] (rg_by_session reg))" for x
  proof (cases "x = cn_session c")
    case False
    have "i \<notin> conns_of x reg" using c False by (auto simp: conns_of_def)
    with False ids reg_okD(4) [OF ok, of x] show ?thesis by (simp add: take_back_def)
  qed (use ids in \<open>simp add: take_back_def py_get_def\<close>)
  have "conns_of x ?r = conns_of x reg - {i}" for x
    by (auto simp: conns_of_def take_back_def)
  moreover have "\<exists>n \<le> rg_next ?r. j = conn_name n" if "map_of (rg_connections ?r) j = Some d" for j d
    using that reg_okD(5) [OF ok, of j d] by (auto simp: take_back_def split: if_splits)
  moreover have "distinct (map fst (rg_connections ?r))" "distinct (map fst (rg_by_session ?r))"
    using reg_okD(1,2) [OF ok] ids by (simp_all add: take_back_def distinct_delete distinct_update)
  ultimately show ?thesis
    using get reg_okD(3,4) [OF ok] by (simp add: reg_ok_def distinct_removeAll)
qed

lemma reg_ok_register:
  assumes "reg_ok reg"
  shows "reg_ok (fst (snd (register_connection be env meanwhile x cl res ip reg s)))"
proof -
  let ?i = "conn_name (rg_next reg + 1)"
  let ?c = "\<lparr> cn_session = x, cn_close = cl, cn_resource = res, cn_created = l_now env, cn_ip = ip \<rparr>"
  let ?r = "add_conn ?i ?c (reg\<lparr>rg_next := rg_next reg + 1\<rparr>)"
  have ok: "reg_ok ?r" by (rule reg_ok_add [OF assms refl])
  moreover have "reg_ok (take_back ?i x ?r)"
    using reg_ok_take_back [OF ok, of ?i ?c] by (simp add: add_conn_def)
  ultimately show ?thesis
    using assms
    by (auto simp: register_connection_def Let_def case_prod_beta split: bool.split)
qed

lemma reg_ok_unregister:
  assumes ok: "reg_ok reg"
  shows "reg_ok (unregister_connection i reg)"
proof (cases "map_of (rg_connections reg) i")
  case (Some c)
  let ?r = "unregister_connection i reg"
  obtain ids where ids: "map_of (rg_by_session reg) (cn_session c) = Some ids"
    by (rule has_set [OF ok Some])
  have get: "py_get x [] (rg_by_session ?r) = removeAll i (py_get x [] (rg_by_session reg))" for x
  proof (cases "x = cn_session c")
    case False
    have "i \<notin> conns_of x reg" using Some False by (auto simp: conns_of_def)
    with False Some ids reg_okD(4) [OF ok, of x] show ?thesis by (simp add: unregister_connection_def Let_def)
  qed (use Some ids in \<open>simp add: unregister_connection_def py_get_def Let_def\<close>)
  have conns: "rg_connections ?r = AList.delete i (rg_connections reg)" "rg_next ?r = rg_next reg"
    using Some ids by (simp_all add: unregister_connection_def Let_def)
  then have "conns_of x ?r = conns_of x reg - {i}" for x by (auto simp: conns_of_def)
  moreover have "\<exists>n \<le> rg_next ?r. j = conn_name n" if "map_of (rg_connections ?r) j = Some d" for j d
    using that conns reg_okD(5) [OF ok, of j d] by (auto split: if_splits)
  moreover have "distinct (map fst (rg_connections ?r))" "distinct (map fst (rg_by_session ?r))"
    using reg_okD(1,2) [OF ok] conns Some ids
    by (simp_all add: unregister_connection_def Let_def distinct_delete distinct_update)
  ultimately show ?thesis
    using get reg_okD(3,4) [OF ok] by (simp add: reg_ok_def distinct_removeAll)
qed (use ok in \<open>simp add: unregister_connection_def\<close>)

lemma map_of_filter_key: "map_of (filter (\<lambda>(i, _). P i) kvs) k = (if P k then map_of kvs k else None)"
  by (induction kvs) auto

lemma reg_ok_revoke:
  assumes ok: "reg_ok reg"
  shows "reg_ok (fst (snd (revoke_session_connections be env x reg s)))"
proof (cases "l_up env")
  case True
  let ?r = "fst (snd (revoke_session_connections be env x reg s))"
  let ?ids = "py_get x [] (rg_by_session reg)"
  have r: "rg_connections ?r = filter (\<lambda>(i, _). i \<notin> set ?ids) (rg_connections reg)"
    "rg_by_session ?r = AList.delete x (rg_by_session reg)" "rg_next ?r = rg_next reg"
    using True by (simp_all add: revoke_session_connections_def Let_def case_prod_beta)
  have "conns_of y ?r = (if y = x then {} else conns_of y reg)" for y
    using r(1) reg_okD(4) [OF ok, of x] by (auto simp: conns_of_def map_of_filter_key split: if_splits)
  moreover have "\<exists>n \<le> rg_next ?r. j = conn_name n" if "map_of (rg_connections ?r) j = Some d" for j d
    using that r reg_okD(5) [OF ok, of j d] by (auto simp: map_of_filter_key split: if_splits)
  moreover have "distinct (map fst (rg_connections ?r))"
    using r(1) reg_okD(1) [OF ok] by (simp add: distinct_map_filter)
  moreover have "distinct (map fst (rg_by_session ?r))"
    using r(2) reg_okD(2) [OF ok] by (simp add: distinct_delete)
  ultimately show ?thesis using r(2) reg_okD(3,4) [OF ok] by (simp add: reg_ok_def)
qed (use ok in \<open>simp add: revoke_session_connections_def\<close>)

text \<open>A returned revocation leaves no connection of the session.\<close>

lemma revoke_empties:
  assumes "reg_ok reg" and "revoke_session_connections be env x reg s = (Returned n, reg', s')"
  shows "conns_of x reg' = {}" and "get_active_count x reg' = 0"
proof -
  have "l_up env" using assms(2) by (auto simp: revoke_session_connections_def split: if_splits)
  with assms(2) have r: "rg_connections reg' = filter (\<lambda>(i, _). i \<notin> set (py_get x [] (rg_by_session reg))) (rg_connections reg)"
    "rg_by_session reg' = AList.delete x (rg_by_session reg)"
    by (auto simp: revoke_session_connections_def Let_def case_prod_beta)
  then show "conns_of x reg' = {}"
    using reg_okD(4) [OF assms(1), of x] by (auto simp: conns_of_def map_of_filter_key split: if_splits)
  show "get_active_count x reg' = 0" using r by (simp add: get_active_count_def)
qed

section \<open>The caps\<close>

definition caps_ok :: "login_env \<Rightarrow> registry \<Rightarrow> bool" where
  "caps_ok env reg \<longleftrightarrow>
     int (length (rg_connections reg)) \<le> max_connections env \<and>
     (\<forall>ip. ip \<noteq> [] \<longrightarrow> int (from_ip ip (rg_connections reg)) \<le> max_connections_per_ip env)"

lemma length_filter_twice: "length (filter Q (filter P xs)) \<le> length (filter Q xs)"
  by (induction xs) auto

lemma caps_sub:
  assumes "caps_ok env reg" and "rg_connections reg' = filter P (rg_connections reg)"
  shows "caps_ok env reg'"
proof -
  have "length (rg_connections reg') \<le> length (rg_connections reg)" using assms(2) by simp
  moreover have "from_ip ip (rg_connections reg') \<le> from_ip ip (rg_connections reg)" for ip
    unfolding from_ip_def assms(2) by (rule length_filter_twice)
  ultimately show ?thesis
    using assms(1) unfolding caps_ok_def by (meson of_nat_mono order_trans)
qed

lemma delete_filter: "AList.delete k xs = filter (\<lambda>(i, _). i \<noteq> k) xs"
  by (induction xs) auto

lemma update_new: "k \<notin> fst ` set xs \<Longrightarrow> AList.update k v xs = xs @ [(k, v)]"
  by (induction xs) auto

lemma caps_add:
  assumes ok: "reg_ok reg" and caps: "caps_ok env reg" and i: "i = conn_name (rg_next reg + 1)"
    and room: "int (length (rg_connections reg)) < max_connections env"
    and room_ip: "cn_ip c \<noteq> [] \<Longrightarrow> int (from_ip (cn_ip c) (rg_connections reg)) < max_connections_per_ip env"
  shows "caps_ok env (add_conn i c (reg\<lparr>rg_next := n\<rparr>))"
proof -
  have "i \<notin> fst ` set (rg_connections reg)"
    using fresh_name [OF ok] i by (simp add: map_of_eq_None_iff)
  then have "rg_connections (add_conn i c (reg\<lparr>rg_next := n\<rparr>)) = rg_connections reg @ [(i, c)]"
    by (simp add: add_conn_def update_new)
  then show ?thesis using caps room room_ip by (auto simp: caps_ok_def from_ip_def)
qed

lemma caps_register:
  assumes "reg_ok reg" and "caps_ok env reg"
  shows "caps_ok env (fst (snd (register_connection be env meanwhile x cl res ip reg s)))"
proof -
  let ?i = "conn_name (rg_next reg + 1)"
  let ?c = "\<lparr> cn_session = x, cn_close = cl, cn_resource = res, cn_created = l_now env, cn_ip = ip \<rparr>"
  let ?r = "add_conn ?i ?c (reg\<lparr>rg_next := rg_next reg + 1\<rparr>)"
  have "caps_ok env (take_back ?i x ?r)" if "caps_ok env ?r"
    using that by (rule caps_sub) (simp add: take_back_def delete_filter)
  moreover have "caps_ok env ?r"
    if "int (length (rg_connections reg)) < max_connections env"
      "ip \<noteq> [] \<longrightarrow> int (from_ip ip (rg_connections reg)) < max_connections_per_ip env"
    by (rule caps_add [OF assms refl]) (use that in simp_all)
  ultimately show ?thesis
    using assms by (auto simp: register_connection_def Let_def case_prod_beta not_le split: bool.split)
qed

lemma caps_unregister:
  assumes "caps_ok env reg"
  shows "caps_ok env (unregister_connection i reg)"
proof (cases "map_of (rg_connections reg) i")
  case (Some c)
  then have "rg_connections (unregister_connection i reg) = AList.delete i (rg_connections reg)"
    by (simp add: unregister_connection_def Let_def split: option.split)
  with assms show ?thesis by (intro caps_sub [OF assms]) (simp add: delete_filter)
qed (use assms in \<open>simp add: unregister_connection_def\<close>)

lemma caps_revoke:
  assumes "caps_ok env reg"
  shows "caps_ok env (fst (snd (revoke_session_connections be env' x reg s)))"
proof (cases "l_up env'")
  case True
  then show ?thesis
    by (intro caps_sub [OF assms]) (simp add: revoke_session_connections_def Let_def case_prod_beta)
qed (use assms in \<open>simp add: revoke_session_connections_def\<close>)

end
