(* ===== verification/Revocation.thy ===== *)
theory Revocation
  imports SocketRegistry
begin

text \<open>
  The revocation coordinator of security/revocation.py, and the places of security/auth_gateway.py and
  security/authentication.py where a session is looked at: \<open>check_authenticated\<close>, bearer tokens, and
  the key a socket is registered under.  Audit records are left out; an outage of the backend lasts
  for the whole call.
\<close>

record rev_error =
  re_phase :: string
  re_code :: string
  re_retryable :: bool

record rev_result =
  rr_kind :: string
  rr_revoked :: bool
  rr_marked :: nat
  rr_dropped :: nat
  rr_closed :: nat
  rr_already :: nat
  rr_errors :: "rev_error list"

definition rev_err :: "string \<Rightarrow> string \<Rightarrow> bool \<Rightarrow> rev_error" where
  "rev_err phase code retryable = \<lparr> re_phase = phase, re_code = code, re_retryable = retryable \<rparr>"

definition cleanup_complete :: "rev_result \<Rightarrow> bool" where
  "cleanup_complete r \<longleftrightarrow> rr_revoked r \<and> rr_errors r = []"

definition retry_recommended :: "rev_result \<Rightarrow> bool" where
  "retry_recommended r \<longleftrightarrow> rr_revoked r \<and> list_ex re_retryable (rr_errors r)"

section \<open>The coordinator\<close>

text \<open>\<open>_mark\<close> with the backend in reach: \<open>True\<close> when this call created the mark.\<close>

definition mark_revoked :: "'s backend \<Rightarrow> login_env \<Rightarrow> string \<Rightarrow> 's \<Rightarrow> bool \<times> 's" where
  "mark_revoked be env key s =
     (let ttl = mark_ttl (get_env_int env ''SESSION_MAX_LIFETIME'' 86400)
      in (case b_get be (l_now env) ns_revoked key s of
            (existing, s) \<Rightarrow>
              (case earlier_mark existing of
                 Some v \<Rightarrow> (False, b_set_ttl be (l_now env) ns_revoked key v ttl s)
               | None \<Rightarrow> (True, b_set_ttl be (l_now env) ns_revoked key (PFloat (l_now env)) ttl s))))"

definition suffix_of :: "string \<Rightarrow> string \<Rightarrow> bool" where
  "suffix_of p k = prefix (rev p) (rev k)"

definition drop_sid_context :: "'s backend \<Rightarrow> login_env \<Rightarrow> string \<Rightarrow> 's \<Rightarrow> 's" where
  "drop_sid_context be env sid s =
     (let h = l_sha env sid;
          s = b_delete be ns_ctx h s
      in foldl (\<lambda>s k. if prefix ''idx:'' k \<and> suffix_of ('':'' @ h) k then b_delete be ns_ctx k s else s)
           s (b_list_keys be (l_now env) ns_ctx [] s))"

definition revoke_sid ::
    "'s backend \<Rightarrow> login_env \<Rightarrow> string \<Rightarrow> registry \<Rightarrow> 's \<Rightarrow> rev_result \<times> registry \<times> 's" where
  "revoke_sid be env sid reg s =
     (if \<not> l_up env then
        (\<lparr> rr_kind = ''sid'', rr_revoked = False, rr_marked = 1, rr_dropped = 0, rr_closed = 0,
           rr_already = 0,
           rr_errors = [rev_err ''mark'' ''SHARED_STATE_WRITE_FAILED'' True,
             rev_err ''ctx'' ''CTX_DROP_FAILED'' True,
             rev_err ''connections'' ''REGISTRY_UNAVAILABLE'' True] \<rparr>, reg, s)
      else
        (case mark_revoked be env (sid_mark sid) s of
           (created, s) \<Rightarrow>
             (case revoke_session_connections be env sid reg (drop_sid_context be env sid s) of
                (r, reg, s) \<Rightarrow>
                  (\<lparr> rr_kind = ''sid'', rr_revoked = True, rr_marked = (if created then 1 else 0),
                     rr_dropped = 1, rr_closed = (case r of Returned n \<Rightarrow> n | Raised \<Rightarrow> 0),
                     rr_already = (if created then 0 else 1),
                     rr_errors = (case r of Returned _ \<Rightarrow> []
                       | Raised \<Rightarrow> [rev_err ''connections'' ''REGISTRY_UNAVAILABLE'' True]) \<rparr>, reg, s))))"

text \<open>One entry of the index of a pair: the session it names is marked and closed as well.\<close>

record ('s) pair_sweep =
  ps_result :: rev_result
  ps_reg :: registry
  ps_state :: 's

definition sweep_index_entry ::
    "'s backend \<Rightarrow> login_env \<Rightarrow> string \<Rightarrow> 's pair_sweep \<Rightarrow> string \<Rightarrow> 's pair_sweep" where
  "sweep_index_entry be env p w idx_key =
     (case b_get be (l_now env) ns_ctx idx_key (ps_state w) of
        (v, s) \<Rightarrow>
          let s = b_delete be ns_ctx (drop (length p) idx_key) (b_delete be ns_ctx idx_key s);
              r = (ps_result w)\<lparr>rr_dropped := rr_dropped (ps_result w) + 1\<rparr>;
              bad = w\<lparr>ps_state := s, ps_result := r\<lparr>rr_errors := rr_errors r @ [rev_err ''index'' ''INDEX_INVALID_SID'' False]\<rparr>\<rparr>
          in (case v of
                PStr sid \<Rightarrow>
                  if valid_sid sid then
                    (case mark_revoked be env (sid_mark sid) s of
                       (_, s) \<Rightarrow>
                         (case revoke_session_connections be env sid (ps_reg w) s of
                            (Returned n, reg, s) \<Rightarrow>
                              \<lparr> ps_result = r\<lparr>rr_marked := rr_marked r + 1, rr_closed := rr_closed r + n\<rparr>,
                                ps_reg = reg, ps_state = s \<rparr>
                          | (Raised, reg, s) \<Rightarrow>
                              \<lparr> ps_result = r\<lparr>rr_marked := rr_marked r + 1, rr_errors := rr_errors r @
                                  [rev_err ''connections'' ''SID_MARK_OR_CLOSE_FAILED'' True]\<rparr>,
                                ps_reg = reg, ps_state = s \<rparr>))
                  else bad
              | _ \<Rightarrow> bad))"

abbreviation max_idx :: nat where "max_idx \<equiv> 10000"

definition revoke_stable_pair ::
    "'s backend \<Rightarrow> login_env \<Rightarrow> string \<Rightarrow> registry \<Rightarrow> 's \<Rightarrow> rev_result \<times> registry \<times> 's" where
  "revoke_stable_pair be env pair reg s =
     (if \<not> l_up env then
        (\<lparr> rr_kind = ''legacy_pair'', rr_revoked = False, rr_marked = 1, rr_dropped = 0, rr_closed = 0,
           rr_already = 0,
           rr_errors = [rev_err ''mark'' ''SHARED_STATE_WRITE_FAILED'' True,
             rev_err ''index'' ''IDX_SWEEP_FAILED'' True,
             rev_err ''connections'' ''REGISTRY_UNAVAILABLE'' True] \<rparr>, reg, s)
      else
        (case mark_revoked be env pair s of
           (_, s) \<Rightarrow>
             let p = idx_prefix env pair;
                 keys = b_list_keys be (l_now env) ns_ctx p s;
                 r = \<lparr> rr_kind = ''legacy_pair'', rr_revoked = True, rr_marked = 1, rr_dropped = 0,
                       rr_closed = 0, rr_already = 0,
                       rr_errors = (if max_idx < length keys then [rev_err ''index'' ''SWEEP_TRUNCATED'' True]
                                    else []) \<rparr>;
                 w = foldl (sweep_index_entry be env p) \<lparr> ps_result = r, ps_reg = reg, ps_state = s \<rparr>
                       (take max_idx keys)
             in (case revoke_session_connections be env pair (ps_reg w) (ps_state w) of
                   (Returned n, reg, s) \<Rightarrow>
                     ((ps_result w)\<lparr>rr_closed := rr_closed (ps_result w) + n\<rparr>, reg, s)
                 | (Raised, reg, s) \<Rightarrow>
                     ((ps_result w)\<lparr>rr_errors := rr_errors (ps_result w) @
                        [rev_err ''connections'' ''REGISTRY_UNAVAILABLE'' True]\<rparr>, reg, s))))"

definition revoke_cookie ::
    "'s backend \<Rightarrow> login_env \<Rightarrow> string \<Rightarrow> registry \<Rightarrow> 's \<Rightarrow> rev_result \<times> registry \<times> 's" where
  "revoke_cookie be env cv reg s =
     (case verify_session_cookie env cv of
        None \<Rightarrow>
          (\<lparr> rr_kind = ''sid'', rr_revoked = False, rr_marked = 0, rr_dropped = 0, rr_closed = 0,
             rr_already = 0, rr_errors = [rev_err ''resolve'' ''INVALID_COOKIE'' False] \<rparr>, reg, s)
      | Some c \<Rightarrow>
          (case c_sid c of
             Some sid \<Rightarrow> revoke_sid be env sid reg s
           | None \<Rightarrow> revoke_stable_pair be env (stable_id c) reg s))"

section \<open>Bearer tokens\<close>

definition create_session_token :: "login_env \<Rightarrow> string \<Rightarrow> int \<Rightarrow> string" where
  "create_session_token env user lifetime =
     sign_token (l_mac env) (l_keys env) token_type_bearer (user @ '':'' @ int_str (l_secs env + lifetime))"

text \<open>\<open>None\<close> is SecurityError.\<close>

definition validate_session_token :: "login_env \<Rightarrow> string \<Rightarrow> string option" where
  "validate_session_token env token =
     (case verify_token (l_mac env) (l_keys env) token_type_bearer token of
        None \<Rightarrow> None
      | Some payload \<Rightarrow>
          (case split_last (CHR '':'') payload of
             None \<Rightarrow> None
           | Some (user, expiry) \<Rightarrow>
               (case py_int expiry of
                  None \<Rightarrow> None
                | Some x \<Rightarrow> if of_int x < l_now env then None else Some user)))"

section \<open>The gateway\<close>

definition check_authenticated ::
    "'s backend \<Rightarrow> login_env \<Rightarrow> string \<Rightarrow> string \<Rightarrow> 's \<Rightarrow> (bool \<times> string option) \<times> 's" where
  "check_authenticated be env cv bearer s =
     (let by_bearer = (\<lambda>s.
            if bearer = [] then ((False, None), s)
            else (case revoked_shared be env bearer s of
                    (True, s) \<Rightarrow> ((False, None), s)
                  | (False, s) \<Rightarrow>
                      (case validate_session_token env bearer of
                         Some user \<Rightarrow> ((True, Some user), s)
                       | None \<Rightarrow> ((False, None), s))))
      in if cv = [] then by_bearer s
         else (case revoked_shared be env cv s of
                 (True, s) \<Rightarrow> ((False, None), s)
               | (False, s) \<Rightarrow>
                   (case verify_session_cookie env cv of
                      None \<Rightarrow> by_bearer s
                    | Some c \<Rightarrow>
                        (case revoked_shared be env (stable_id c) s of
                           (True, s) \<Rightarrow> ((False, None), s)
                         | (False, s) \<Rightarrow>
                             (case (case c_sid c of
                                      None \<Rightarrow> (False, s)
                                    | Some sid \<Rightarrow> revoked_shared be env (sid_mark sid) s) of
                                (True, s) \<Rightarrow> ((False, None), s)
                              | (False, s) \<Rightarrow>
                                  (case operator_session_epoch be env s of
                                     (ep, s) \<Rightarrow>
                                       if before_epoch (of_int (c_created c)) ep then ((False, None), s)
                                       else ((True, Some (c_username c)), s)))))))"

text \<open>\<open>share\<close> resolves a signed share-link token to its internal token.\<close>

definition resolve_session_id :: "login_env \<Rightarrow> (string \<Rightarrow> string option) \<Rightarrow> string \<Rightarrow> string" where
  "resolve_session_id env share session_id =
     (case share session_id of
        Some tok \<Rightarrow> tok
      | None \<Rightarrow>
          (case verify_session_cookie env session_id of
             Some c \<Rightarrow> (case c_sid c of Some sid \<Rightarrow> sid | None \<Rightarrow> stable_id c)
           | None \<Rightarrow> session_id))"

text \<open>The value the services compare with \<open>None\<close>: a refused registration is the empty text.\<close>

definition register_websocket_connection ::
    "'s backend \<Rightarrow> login_env \<Rightarrow> ('s \<Rightarrow> 's) \<Rightarrow> (string \<Rightarrow> string option) \<Rightarrow> string \<Rightarrow> close_callback \<Rightarrow>
     string \<Rightarrow> string \<Rightarrow> registry \<Rightarrow> 's \<Rightarrow> string option \<times> registry \<times> 's"
where
  "register_websocket_connection be env meanwhile share session_id close resource ip reg s =
     (case register_connection be env meanwhile (resolve_session_id env share session_id) close
             (Some resource) ip reg s of
        (r, reg, s) \<Rightarrow> (Some (case r of Some i \<Rightarrow> i | None \<Rightarrow> []), reg, s))"

end
