(* ===== verification/LoginSystem.thy ===== *)
theory LoginSystem
  imports Revocation
begin

text \<open>
  The processes of a deployment that look at operator sessions, record and drop their contexts,
  register and sweep sockets, revoke sessions and rotate credentials, over one shared state.  The
  lemmas show which rows of the shared state each operation leaves alone, and from that what a
  revocation and a rotation mean for every later request.
\<close>

datatype auth_event =
    AeCheck login_env string string                        \<comment> \<open>cookie, bearer\<close>
  | AeRecord login_env string "(string \<times> pyval) list" "string option" "int option"
  | AeUpdate login_env string "(string \<times> pyval) list"
  | AeEvaluate login_env string string "string option"       \<comment> \<open>operation, session id, profile\<close>
  | AeRegister nat login_env string close_callback "string option" string
  | AeUnregister nat string login_env
  | AeSweep nat login_env "time option outcome" string
  | AeRevokeConns nat login_env string
  | AeRevokeCookie nat login_env string
  | AeRevokeSid nat login_env string
  | AeRevokePair nat login_env string
  | AeBump login_env

record 's deployment =
  dp_state :: 's
  dp_regs :: "nat \<Rightarrow> registry"
  dp_clock :: time

fun ae_env :: "auth_event \<Rightarrow> login_env" where
  "ae_env (AeCheck env cv bt) = env"
| "ae_env (AeRecord env sid ctx pr x) = env"
| "ae_env (AeUpdate env sid ctx) = env"
| "ae_env (AeEvaluate env op sid pf) = env"
| "ae_env (AeRegister p env i cl res ip) = env"
| "ae_env (AeUnregister p i env) = env"
| "ae_env (AeSweep p env share i) = env"
| "ae_env (AeRevokeConns p env i) = env"
| "ae_env (AeRevokeCookie p env cv) = env"
| "ae_env (AeRevokeSid p env sid) = env"
| "ae_env (AeRevokePair p env pr) = env"
| "ae_env (AeBump env) = env"

datatype auth_answer =
    AaNothing
  | AaChecked string string bool      \<comment> \<open>cookie, bearer, whether it was authenticated\<close>
  | AaDecided decision

text \<open>The effect on the answer, the registry of the acting process (if any) and the shared state.\<close>

fun auth_op ::
    "'s backend \<Rightarrow> auth_event \<Rightarrow> 's deployment \<Rightarrow> auth_answer \<times> (nat \<times> registry) option \<times> 's" where
  "auth_op be (AeCheck env cv bt) y =
     (let r = check_authenticated be env cv bt (dp_state y)
      in (AaChecked cv bt (fst (fst r)), None, snd r))"
| "auth_op be (AeRecord env sid ctx pr x) y =
     (AaNothing, None, record_auth_context be env sid ctx pr x (dp_state y))"
| "auth_op be (AeUpdate env sid ctx) y = (AaNothing, None, update_auth_context be env sid ctx (dp_state y))"
| "auth_op be (AeEvaluate env op sid pf) y =
     (let c = auth_context_for be env sid (dp_state y);
          d = evaluate be env op (fst c) pf (snd c)
      in (AaDecided (fst d), None, snd d))"
| "auth_op be (AeRegister p env i cl res ip) y =
     (let r = register_connection be env id i cl res ip (dp_regs y p) (dp_state y)
      in (AaNothing, Some (p, fst (snd r)), snd (snd r)))"
| "auth_op be (AeUnregister p i env) y =
     (AaNothing, Some (p, unregister_connection i (dp_regs y p)), dp_state y)"
| "auth_op be (AeSweep p env share i) y =
     (let r = watch_round be env share i (dp_regs y p) (dp_state y)
      in (AaNothing, Some (p, fst (snd r)), snd (snd r)))"
| "auth_op be (AeRevokeConns p env i) y =
     (let r = revoke_session_connections be env i (dp_regs y p) (dp_state y)
      in (AaNothing, Some (p, fst (snd r)), snd (snd r)))"
| "auth_op be (AeRevokeCookie p env cv) y =
     (let r = revoke_cookie be env cv (dp_regs y p) (dp_state y)
      in (AaNothing, Some (p, fst (snd r)), snd (snd r)))"
| "auth_op be (AeRevokeSid p env sid) y =
     (let r = revoke_sid be env sid (dp_regs y p) (dp_state y)
      in (AaNothing, Some (p, fst (snd r)), snd (snd r)))"
| "auth_op be (AeRevokePair p env pr) y =
     (let r = revoke_stable_pair be env pr (dp_regs y p) (dp_state y)
      in (AaNothing, Some (p, fst (snd r)), snd (snd r)))"
| "auth_op be (AeBump env) y = (AaNothing, None, snd (bump_operator_epoch be env (dp_state y)))"

definition auth_step ::
    "'s backend \<Rightarrow> auth_event \<Rightarrow> 's deployment \<Rightarrow> auth_answer \<times> 's deployment" where
  "auth_step be e y =
     (case auth_op be e y of
        (a, r, s) \<Rightarrow>
          (a, y\<lparr> dp_state := s, dp_clock := l_now (ae_env e),
                 dp_regs := (case r of None \<Rightarrow> dp_regs y | Some (p, reg) \<Rightarrow> (dp_regs y)(p := reg)) \<rparr>))"

text \<open>The kinds of value the two rows have.\<close>

definition epoch_past :: "int \<Rightarrow> pyval \<Rightarrow> bool" where
  "epoch_past created v \<longleftrightarrow> (\<exists>t. v = PFloat t \<and> of_int created < t)"

lemma mark_ttl_default:
  "mark_ttl (get_env_int env ''SESSION_MAX_LIFETIME'' 86400) =
   mark_ttl (get_env_int env ''SESSION_MAX_LIFETIME'' default_max_lifetime)"
  by (simp add: mark_ttl_def get_env_int_def split: option.split)

text \<open>A mark or an epoch written now outlives the instant \<open>x\<close>.\<close>

definition covers :: "login_env \<Rightarrow> time \<Rightarrow> bool" where
  "covers env x \<longleftrightarrow> x \<le> l_now env + mark_ttl (get_env_int env ''SESSION_MAX_LIFETIME'' 86400) \<and>
     x \<le> l_now env + of_int (get_env_int env ''SESSION_MAX_LIFETIME'' 86400 + 86400)"

context kv_store
begin

text \<open>Every mark in the shared state reads as revoked.\<close>

definition marks_good :: "'s \<Rightarrow> bool" where
  "marks_good s \<longleftrightarrow> (\<forall>k v e. look s (ns_revoked, k) = Some (v, e) \<longrightarrow> truthy v)"

text \<open>A mark or the epoch, kept at least until \<open>x\<close>.\<close>

definition lives :: "string \<times> string \<Rightarrow> (pyval \<Rightarrow> bool) \<Rightarrow> time \<Rightarrow> 's \<Rightarrow> bool" where
  "lives nk P x s \<longleftrightarrow>
     row_until nk P x s \<and> marks_good s \<and> fst nk \<noteq> ns_ctx \<and> (fst nk = ns_revoked \<longrightarrow> P = truthy)"

lemma marks_sub:
  "marks_good s \<Longrightarrow> (\<And>k en. look s' (ns_revoked, k) = Some en \<Longrightarrow> look s (ns_revoked, k) = Some en) \<Longrightarrow>
   marks_good s'"
  unfolding marks_good_def by blast

lemma lives_get:
  assumes "lives nk P x s" and "now \<le> x"
  shows "lives nk P x (snd (b_get be now ns k s))"
proof -
  have "marks_good (snd (b_get be now ns k s))"
  proof (rule marks_sub)
    show "marks_good s" using assms(1) by (simp add: lives_def)
  qed (rule get_sub)
  then show ?thesis using assms row_get by (auto simp: lives_def)
qed

lemma lives_ctx:
  assumes "lives nk P x s"
  shows "lives nk P x (b_delete be ns_ctx k s)" and "lives nk P x (b_set_ttl be now ns_ctx k v t s)"
proof -
  have "nk \<noteq> (ns_ctx, k)" using assms by (auto simp: lives_def)
  moreover have "marks_good (b_delete be ns_ctx k s)" "marks_good (b_set_ttl be now ns_ctx k v t s)"
    using assms marks_sub unfolding lives_def by (simp_all add: marks_good_def delete_look set_ttl_look)
  ultimately show "lives nk P x (b_delete be ns_ctx k s)" "lives nk P x (b_set_ttl be now ns_ctx k v t s)"
    using assms row_delete row_set unfolding lives_def by blast+
qed

lemma lives_mark:
  assumes "lives nk P x s" and "truthy v" and "x \<le> now + t"
  shows "lives nk P x (b_set_ttl be now ns_revoked k v t s)"
  using assms row_set [of nk P x s ns_revoked k v now t]
  by (auto simp: lives_def marks_good_def set_ttl_look)

lemma lives_epoch:
  assumes "lives nk P x s" and "fst nk = ns_operator_epoch \<longrightarrow> P v" and "x \<le> now + t"
  shows "lives nk P x (b_set_ttl be now ns_operator_epoch k v t s)"
  using assms row_set [of nk P x s ns_operator_epoch k v now t]
  by (auto simp: lives_def marks_good_def set_ttl_look)

lemma lives_fold:
  "(\<And>a s. lives nk P x s \<Longrightarrow> lives nk P x (f s a)) \<Longrightarrow> lives nk P x s \<Longrightarrow> lives nk P x (foldl f s as)"
  by (induction as arbitrary: s) simp_all

text \<open>The value a mark is renewed with.\<close>

lemma mark_value:
  assumes "marks_good s" and "0 < now"
  shows "truthy (case earlier_mark (fst (b_get be now' ns_revoked k s)) of Some u \<Rightarrow> u | None \<Rightarrow> PFloat now)"
proof (cases "earlier_mark (fst (b_get be now' ns_revoked k s))")
  case (Some u)
  let ?v = "fst (b_get be now' ns_revoked k s)"
  have u: "u = ?v" "?v \<noteq> PNone" using Some by (auto simp: earlier_mark_def split: pyval.splits)
  from u(2) obtain e where "look s (ns_revoked, k) = Some (?v, e)" by (rule read_row)
  with assms(1) have "truthy ?v" unfolding marks_good_def by blast
  with Some u(1) show ?thesis by simp
qed (use assms(2) in simp)

subsection \<open>Reading operations\<close>

lemma lives_revoked_shared:
  "lives nk P x s \<Longrightarrow> l_now env \<le> x \<Longrightarrow> lives nk P x (snd (revoked_shared be env i s))"
  by (simp add: revoked_shared_def case_prod_beta lives_get)

lemma lives_revoked_either:
  "lives nk P x s \<Longrightarrow> l_now env \<le> x \<Longrightarrow> lives nk P x (snd (revoked_either be env i s))"
  by (auto simp: revoked_either_def case_prod_beta lives_revoked_shared split: bool.split)

lemma lives_session_epoch:
  "lives nk P x s \<Longrightarrow> l_now env \<le> x \<Longrightarrow> lives nk P x (snd (operator_session_epoch be env s))"
  by (simp add: operator_session_epoch_def case_prod_beta Let_def lives_get)

lemma lives_check:
  assumes "lives nk P x s" and "l_now env \<le> x"
  shows "lives nk P x (snd (check_authenticated be env cv bt s))"
  using assms
  by (auto simp: check_authenticated_def Let_def case_prod_beta lives_revoked_shared lives_session_epoch
      split: bool.split option.split)

lemma lives_context:
  assumes "lives nk P x s" and "l_now env \<le> x"
  shows "lives nk P x (snd (auth_context_for be env i s))"
  using assms lives_get [OF assms]
  by (auto simp: auth_context_for_def case_prod_beta split: pyval.split)

lemma lives_evaluate:
  assumes "lives nk P x s" and "l_now env \<le> x"
  shows "lives nk P x (snd (evaluate be env op ctx pf s))"
proof -
  have "lives nk P x (snd (epoch_denied be env ctx op meth age s))" for meth age
    using assms lives_session_epoch [OF assms]
    by (auto simp: epoch_denied_def Let_def case_prod_beta split: pyval.split option.split)
  then show ?thesis
    using assms by (auto simp: evaluate_def Let_def case_prod_beta split: option.split)
qed

subsection \<open>Contexts\<close>

lemma lives_drop:
  assumes "lives nk P x s"
  shows "lives nk P x (drop_auth_context be env i pr s)"
    and "lives nk P x (drop_auth_context_for be env i s)"
    and "lives nk P x (snd (drop_all_auth_contexts be env s))"
    and "lives nk P x (drop_sid_context be env i s)"
proof -
  show one: "lives nk P x (drop_auth_context be env i pr s)" for i pr
    using assms by (simp add: drop_auth_context_def Let_def lives_ctx split: option.split)
  show "lives nk P x (snd (drop_all_auth_contexts be env s))"
    using assms by (auto simp: drop_all_auth_contexts_def Let_def intro!: lives_fold lives_ctx)
  show "lives nk P x (drop_sid_context be env i s)"
    using assms by (auto simp: drop_sid_context_def Let_def intro!: lives_fold lives_ctx)
  show "lives nk P x (drop_auth_context_for be env i s)"
    using assms one
    by (auto simp: drop_auth_context_for_def drop_auth_context_for_cookie_def
        drop_auth_contexts_for_stable_def Let_def intro!: lives_fold lives_ctx split: option.split)
qed

lemma lives_record:
  assumes "lives nk P x s" and "l_now env \<le> x"
  shows "lives nk P x (record_auth_context be env i ctx pr ex s)"
  using assms
  by (auto simp: record_auth_context_def Let_def case_prod_beta intro!: lives_ctx lives_session_epoch
      split: option.split)

lemma lives_update:
  assumes "lives nk P x s" and "l_now env \<le> x"
  shows "lives nk P x (update_auth_context be env i ctx s)"
  using assms lives_get [OF assms]
  by (auto simp: update_auth_context_def case_prod_beta intro!: lives_ctx split: option.split pyval.split)

subsection \<open>Revocations\<close>

lemma livesD: "lives nk P x s \<Longrightarrow> marks_good s"
  by (simp add: lives_def)

lemma lives_revoke_connections:
  assumes "lives nk P x s" and "l_now env \<le> x" and "0 < l_now env" and "covers env x"
  shows "lives nk P x (snd (snd (revoke_session_connections be env i reg s)))"
proof (cases "l_up env")
  case True
  let ?v = "case earlier_mark (fst (b_get be (l_now env) ns_revoked i s)) of Some v \<Rightarrow> v | None \<Rightarrow> PFloat (l_now env)"
  have "truthy ?v" by (rule mark_value [OF livesD [OF assms(1)] assms(3)])
  then have "lives nk P x (drop_auth_context_for be env i (b_set_ttl be (l_now env) ns_revoked k ?v
      (mark_ttl (get_env_int env ''SESSION_MAX_LIFETIME'' default_max_lifetime))
      (snd (b_get be (l_now env) ns_revoked i s))))" for k
    using assms by (intro lives_drop(2) lives_mark lives_get) (simp_all add: covers_def mark_ttl_default)
  with True show ?thesis by (simp add: revoke_session_connections_def Let_def case_prod_beta)
qed (use assms(1) in \<open>simp add: revoke_session_connections_def\<close>)

lemma lives_mark_revoked:
  assumes "lives nk P x s" and "l_now env \<le> x" and "0 < l_now env" and "covers env x"
  shows "lives nk P x (snd (mark_revoked be env k s))"
proof -
  have "truthy (case earlier_mark (fst (b_get be (l_now env) ns_revoked k s)) of Some v \<Rightarrow> v | None \<Rightarrow> PFloat (l_now env))"
    by (rule mark_value [OF livesD [OF assms(1)] assms(3)])
  with assms show ?thesis
    by (auto simp: mark_revoked_def Let_def case_prod_beta covers_def intro!: lives_mark lives_get split: option.splits)
qed

lemma lives_revoke_sid:
  assumes "lives nk P x s" and "l_now env \<le> x" and "0 < l_now env" and "covers env x"
  shows "lives nk P x (snd (snd (revoke_sid be env i reg s)))"
  using assms
  by (auto simp: revoke_sid_def case_prod_beta intro!: lives_revoke_connections lives_drop(4) lives_mark_revoked)

lemma lives_index_entry:
  assumes "lives nk P x (ps_state w)" and "l_now env \<le> x" and "0 < l_now env" and "covers env x"
  shows "lives nk P x (ps_state (sweep_index_entry be env p w k))"
proof -
  let ?s = "b_delete be ns_ctx (drop (length p) k) (b_delete be ns_ctx k (snd (b_get be (l_now env) ns_ctx k (ps_state w))))"
  have s: "lives nk P x ?s" using assms by (intro lives_ctx lives_get)
  have "lives nk P x (snd (snd (revoke_session_connections be env i reg (snd (mark_revoked be env j ?s)))))" for i j reg
    by (intro lives_revoke_connections lives_mark_revoked s assms(2-4))
  with s show ?thesis
    by (auto simp: sweep_index_entry_def Let_def case_prod_beta split: pyval.split outcome.split)
qed

lemma lives_revoke_pair:
  assumes "lives nk P x s" and "l_now env \<le> x" and "0 < l_now env" and "covers env x"
  shows "lives nk P x (snd (snd (revoke_stable_pair be env i reg s)))"
proof -
  have "lives nk P x (ps_state (foldl (sweep_index_entry be env p) w ks))"
    if "lives nk P x (ps_state w)" for p w ks
    using that by (induction ks arbitrary: w) (simp_all add: lives_index_entry assms(2-4))
  then show ?thesis
    using assms lives_mark_revoked [OF assms]
    by (auto simp: revoke_stable_pair_def Let_def case_prod_beta intro!: lives_revoke_connections split: outcome.split)
qed

lemma lives_revoke_cookie:
  assumes "lives nk P x s" and "l_now env \<le> x" and "0 < l_now env" and "covers env x"
  shows "lives nk P x (snd (snd (revoke_cookie be env cv reg s)))"
  using assms
  by (auto simp: revoke_cookie_def lives_revoke_sid lives_revoke_pair split: option.split)

subsection \<open>Sockets and rotation\<close>

lemma lives_register:
  assumes "lives nk P x s" and "l_now env \<le> x"
  shows "lives nk P x (snd (snd (register_connection be env id i cl res ip reg s)))"
  using assms
  by (auto simp: register_connection_def Let_def case_prod_beta lives_revoked_either split: bool.split)

lemma lives_dead:
  assumes "lives nk P x s" and "l_now env \<le> x"
  shows "lives nk P x (snd (operator_session_dead be env i s))"
  using assms lives_session_epoch [OF assms]
  by (auto simp: operator_session_dead_def Let_def case_prod_beta split: option.split list.split)

lemma lives_watch:
  assumes "lives nk P x s" and "l_now env \<le> x" and "0 < l_now env" and "covers env x"
  shows "lives nk P x (snd (snd (watch_round be env share i reg s)))"
proof -
  have "lives nk P x (snd (snd (sweep_session be env share i reg s)))"
    using assms
    by (auto simp: sweep_session_def case_prod_beta intro!: lives_revoke_connections lives_dead lives_revoked_shared
        split: bool.split option.split outcome.split)
  then show ?thesis
    by (auto simp: watch_round_def case_prod_beta split: outcome.split bool.split)
qed

lemma lives_bump:
  assumes "lives nk P x s" and "fst nk = ns_operator_epoch \<longrightarrow> P (PFloat (l_now env))" and "covers env x"
  shows "lives nk P x (snd (bump_operator_epoch be env s))"
  using assms by (auto simp: bump_operator_epoch_def covers_def intro!: lives_drop(3) lives_epoch)

text \<open>A step of the deployment at or before \<open>x\<close> keeps the row.\<close>

lemma lives_step:
  assumes "lives nk P x (dp_state y)" and "l_now (ae_env e) \<le> x" and "0 < l_now (ae_env e)"
    and "covers (ae_env e) x" and "fst nk = ns_operator_epoch \<longrightarrow> P (PFloat (l_now (ae_env e)))"
  shows "lives nk P x (dp_state (snd (auth_step be e y)))"
  using assms
  by (cases e)
    (simp_all add: auth_step_def Let_def lives_check lives_record lives_update lives_evaluate lives_context
      lives_register lives_watch lives_revoke_connections lives_revoke_cookie lives_revoke_sid lives_revoke_pair lives_bump)

end

end
