(* ===== verification/LoginRuns.thy ===== *)
theory LoginRuns
  imports LoginSystem
begin

text \<open>
  What a revocation and a credential rotation mean for every later request of the deployment, as
  interpretations of \<open>held_off\<close>, and the invariants of the socket registries over its runs.
\<close>

text \<open>The clocks agree, the backend answers or the policy is strict, and marks outlive the session.\<close>

definition auth_ok :: "time \<Rightarrow> auth_event \<Rightarrow> 's deployment \<Rightarrow> bool" where
  "auth_ok x e y \<longleftrightarrow>
     dp_clock y \<le> l_now (ae_env e) \<and> 0 < l_now (ae_env e) \<and> (l_up (ae_env e) \<or> l_strict (ae_env e)) \<and>
     (l_now (ae_env e) \<le> x \<longrightarrow> covers (ae_env e) x)"

text \<open>An answer that authenticates a cookie of the login, no bearer token being given.\<close>

definition lets_in :: "string \<Rightarrow> int \<Rightarrow> int \<Rightarrow> string \<Rightarrow> auth_answer \<Rightarrow> bool" where
  "lets_in user created expires sid a \<longleftrightarrow>
     (\<exists>cv seen. a = AaChecked cv [] True \<and> issued user created expires sid cv seen)"

definition plain_login :: "string \<Rightarrow> int \<Rightarrow> string \<Rightarrow> bool" where
  "plain_login user created sid \<longleftrightarrow> CHR '':'' \<notin> set user \<and> valid_sid sid \<and> 0 \<le> created"

context kv_store
begin

lemma revoked_shared_kept:
  assumes "lives (ns_revoked, k) truthy x s" and "l_now env \<le> x" and "l_up env \<or> l_strict env"
  shows "fst (revoked_shared be env k s)"
  using assms row_read [of ns_revoked k truthy x s "l_now env"]
  by (auto simp: revoked_shared_def lives_def case_prod_beta)

lemma epoch_kept:
  assumes "lives (ns_operator_epoch, ''all'') (epoch_past created) x s" and "l_now env \<le> x"
    and "l_up env \<or> l_strict env" and "0 \<le> created"
  shows "before_epoch (of_int created) (fst (operator_session_epoch be env s))"
proof (cases "l_up env")
  case True
  have "epoch_past created (fst (b_get be (l_now env) ns_operator_epoch ''all'' s))"
    using assms(1,2) row_read [of ns_operator_epoch "''all''" "epoch_past created" x s "l_now env"]
    by (simp add: lives_def)
  then obtain t where t: "fst (b_get be (l_now env) ns_operator_epoch ''all'' s) = PFloat t" "of_int created < t"
    by (auto simp: epoch_past_def)
  then have "t \<noteq> 0" using assms(4) by auto
  with True t show ?thesis
    by (simp add: operator_session_epoch_def Let_def case_prod_beta float_of_def)
qed (use assms(3) in \<open>simp add: operator_session_epoch_def Let_def\<close>)

lemma check_revoked:
  assumes k: "lives (ns_revoked, sid_mark sid) truthy x s" and "l_now env \<le> x" and "l_up env \<or> l_strict env"
    and c: "\<And>c. verify_session_cookie env cv = Some c \<Longrightarrow> c_sid c = Some sid"
  shows "\<not> fst (fst (check_authenticated be env cv [] s))"
proof -
  have "fst (revoked_shared be env (sid_mark sid) (snd (revoked_shared be env a (snd (revoked_shared be env b s)))))" for a b
    by (intro revoked_shared_kept [of _ x] lives_revoked_shared assms(1-3))
  then show ?thesis
    using c by (auto simp: check_authenticated_def Let_def case_prod_beta split: bool.split option.split)
qed

lemma check_rotated:
  assumes k: "lives (ns_operator_epoch, ''all'') (epoch_past created) x s" and "l_now env \<le> x"
    and "l_up env \<or> l_strict env" and "0 \<le> created"
    and c: "\<And>c. verify_session_cookie env cv = Some c \<Longrightarrow> c_created c = created"
  shows "\<not> fst (fst (check_authenticated be env cv [] s))"
proof -
  have "before_epoch (of_int created) (fst (operator_session_epoch be env s'))"
    if "lives (ns_operator_epoch, ''all'') (epoch_past created) x s'" for s'
    by (rule epoch_kept [OF that assms(2-4)])
  then show ?thesis
    using c k assms(2)
    by (auto simp: check_authenticated_def Let_def case_prod_beta lives_revoked_shared
        split: bool.split option.split)
qed

definition session_out :: "string \<Rightarrow> int \<Rightarrow> 's deployment \<Rightarrow> bool" where
  "session_out sid expires y \<longleftrightarrow>
     of_int expires < dp_clock y \<or> lives (ns_revoked, sid_mark sid) truthy (of_int expires) (dp_state y)"

definition rotated :: "int \<Rightarrow> int \<Rightarrow> 's deployment \<Rightarrow> bool" where
  "rotated created expires y \<longleftrightarrow>
     of_int created < dp_clock y \<and>
     (of_int expires < dp_clock y \<or>
      lives (ns_operator_epoch, ''all'') (epoch_past created) (of_int expires) (dp_state y))"

lemma clock_step [simp]: "dp_clock (snd (auth_step be e y)) = l_now (ae_env e)"
  by (simp add: auth_step_def case_prod_beta)

lemma session_out_step:
  assumes "session_out sid expires y" and ok: "auth_ok (of_int expires) e y"
  shows "session_out sid expires (snd (auth_step be e y))"
proof (cases "of_int expires < l_now (ae_env e)")
  case False
  then have "lives (ns_revoked, sid_mark sid) truthy (of_int expires) (dp_state y)"
    using assms by (auto simp: session_out_def auth_ok_def)
  then have "lives (ns_revoked, sid_mark sid) truthy (of_int expires) (dp_state (snd (auth_step be e y)))"
    by (rule lives_step) (use ok False in \<open>auto simp: auth_ok_def\<close>)
  then show ?thesis by (simp add: session_out_def)
qed (simp add: session_out_def)

lemma rotated_step:
  assumes "rotated created expires y" and ok: "auth_ok (of_int expires) e y"
  shows "rotated created expires (snd (auth_step be e y))"
proof -
  have late: "of_int created < l_now (ae_env e)" using assms by (auto simp: rotated_def auth_ok_def)
  show ?thesis
  proof (cases "of_int expires < l_now (ae_env e)")
    case False
    then have "lives (ns_operator_epoch, ''all'') (epoch_past created) (of_int expires) (dp_state y)"
      using assms by (auto simp: rotated_def auth_ok_def)
    then have "lives (ns_operator_epoch, ''all'') (epoch_past created) (of_int expires)
        (dp_state (snd (auth_step be e y)))"
      by (rule lives_step) (use ok False late in \<open>auto simp: auth_ok_def epoch_past_def\<close>)
    with late show ?thesis by (simp add: rotated_def)
  qed (use late in \<open>simp add: rotated_def\<close>)
qed

lemma lets_in_check:
  assumes "lets_in user created expires sid (fst (auth_step be e y))" and "plain_login user created sid"
  shows "\<exists>env cv. e = AeCheck env cv [] \<and> fst (fst (check_authenticated be env cv [] (dp_state y))) \<and>
    (\<forall>c. verify_session_cookie env cv = Some c \<longrightarrow>
       c_sid c = Some sid \<and> c_created c = created \<and> l_now env \<le> of_int expires)"
proof -
  from assms(1) obtain cv seen where a: "fst (auth_step be e y) = AaChecked cv [] True"
    "issued user created expires sid cv seen" by (auto simp: lets_in_def)
  then obtain env where e: "e = AeCheck env cv []" "fst (fst (check_authenticated be env cv [] (dp_state y)))"
    by (cases e) (auto simp: auth_step_def Let_def case_prod_beta)
  have "c_sid c = Some sid \<and> c_created c = created \<and> l_now env \<le> of_int expires"
    if "verify_session_cookie env cv = Some c" for c
    using issued_bounds(2,3,6) [OF a(2) _ _ that] assms(2) by (simp add: plain_login_def)
  with e show ?thesis by blast
qed

lemma expired_cookie_out:
  assumes "verify_session_cookie env cv = None"
  shows "\<not> fst (fst (check_authenticated be env cv [] s))"
  using assms by (auto simp: check_authenticated_def Let_def case_prod_beta split: bool.split)

lemma session_out_blocks:
  assumes "session_out sid expires y" and ok: "auth_ok (of_int expires) e y" and "plain_login user created sid"
  shows "\<not> lets_in user created expires sid (fst (auth_step be e y))"
proof
  assume "lets_in user created expires sid (fst (auth_step be e y))"
  then obtain env cv where e: "e = AeCheck env cv []" "fst (fst (check_authenticated be env cv [] (dp_state y)))"
    and c: "\<And>c. verify_session_cookie env cv = Some c \<Longrightarrow>
       c_sid c = Some sid \<and> c_created c = created \<and> l_now env \<le> of_int expires"
    using lets_in_check [OF _ assms(3)] by blast
  from e(2) expired_cookie_out obtain d where "verify_session_cookie env cv = Some d" by blast
  then have now: "l_now env \<le> of_int expires" using c by blast
  then have "lives (ns_revoked, sid_mark sid) truthy (of_int expires) (dp_state y)"
    using assms(1) ok e(1) by (auto simp: session_out_def auth_ok_def)
  then show False using check_revoked now ok e c by (auto simp: auth_ok_def)
qed

lemma rotated_blocks:
  assumes "rotated created expires y" and ok: "auth_ok (of_int expires) e y" and "plain_login user created sid"
  shows "\<not> lets_in user created expires sid (fst (auth_step be e y))"
proof
  assume "lets_in user created expires sid (fst (auth_step be e y))"
  then obtain env cv where e: "e = AeCheck env cv []" "fst (fst (check_authenticated be env cv [] (dp_state y)))"
    and c: "\<And>c. verify_session_cookie env cv = Some c \<Longrightarrow>
       c_sid c = Some sid \<and> c_created c = created \<and> l_now env \<le> of_int expires"
    using lets_in_check [OF _ assms(3)] by blast
  from e(2) expired_cookie_out obtain d where "verify_session_cookie env cv = Some d" by blast
  then have now: "l_now env \<le> of_int expires" using c by blast
  then have "lives (ns_operator_epoch, ''all'') (epoch_past created) (of_int expires) (dp_state y)"
    using assms(1) ok e(1) by (auto simp: rotated_def auth_ok_def)
  then show False using check_rotated now ok e c assms(3) by (fastforce simp: auth_ok_def plain_login_def)
qed

subsection \<open>What makes the conditions hold\<close>

lemma lives_new_mark:
  assumes "marks_good s" and "0 < l_now env" and "covers env x"
  shows "lives (ns_revoked, k) truthy x (snd (mark_revoked be env k s))"
proof -
  let ?v = "case earlier_mark (fst (b_get be (l_now env) ns_revoked k s)) of Some v \<Rightarrow> v | None \<Rightarrow> PFloat (l_now env)"
  have v: "truthy ?v" by (rule mark_value [OF assms(1,2)])
  have "marks_good (snd (b_get be (l_now env) ns_revoked k s))"
  proof (rule marks_sub)
    show "marks_good s" by (rule assms(1))
  qed (rule get_sub)
  then have "marks_good (snd (mark_revoked be env k s))"
    using v by (auto simp: mark_revoked_def Let_def case_prod_beta marks_good_def set_ttl_look split: option.splits)
  moreover have "row_until (ns_revoked, k) truthy x (snd (mark_revoked be env k s))"
    using v assms(3)
    by (auto simp: mark_revoked_def Let_def case_prod_beta covers_def intro!: row_new split: option.splits)
  ultimately show ?thesis by (simp add: lives_def)
qed

lemma lives_after_revoke_sid:
  assumes "marks_good s" and "0 < l_now env" and "covers env x" and "l_now env \<le> x" and "l_up env"
  shows "lives (ns_revoked, sid_mark sid) truthy x (snd (snd (revoke_sid be env sid reg s)))"
    and "rr_revoked (fst (revoke_sid be env sid reg s))"
  using assms
  by (auto simp: revoke_sid_def case_prod_beta intro!: lives_revoke_connections lives_drop(4) lives_new_mark)

lemma lives_after_bump:
  assumes "marks_good s" and "of_int created < l_now env" and "covers env x" and "l_up env"
  shows "lives (ns_operator_epoch, ''all'') (epoch_past created) x (snd (bump_operator_epoch be env s))"
proof -
  let ?s = "b_set_ttl be (l_now env) ns_operator_epoch ''all'' (PFloat (l_now env))
    (of_int (get_env_int env ''SESSION_MAX_LIFETIME'' 86400 + 86400)) s"
  have "marks_good ?s" using assms(1) by (simp add: marks_good_def set_ttl_look)
  moreover have "row_until (ns_operator_epoch, ''all'') (epoch_past created) x ?s"
    using assms(2,3) by (intro row_new) (auto simp: epoch_past_def covers_def)
  ultimately have "lives (ns_operator_epoch, ''all'') (epoch_past created) x ?s" by (simp add: lives_def)
  with assms(4) show ?thesis by (simp add: bump_operator_epoch_def lives_drop)
qed

end

interpretation logout: held_off "auth_step sqlite_backend" "auth_ok (of_int expires)"
    "\<lambda>_. plain_login user created sid" "lets_in user created expires sid" "sqlkv.session_out sid expires"
  for user created expires sid
  by unfold_locales (simp_all add: sqlkv.session_out_step sqlkv.session_out_blocks)

interpretation rotation: held_off "auth_step sqlite_backend" "auth_ok (of_int expires)"
    "\<lambda>_. plain_login user created sid" "lets_in user created expires sid" "sqlkv.rotated created expires"
  for user created expires sid
  by unfold_locales (simp_all add: sqlkv.rotated_step sqlkv.rotated_blocks)

section \<open>Registries over runs\<close>

definition good_reg :: "login_env \<Rightarrow> registry \<Rightarrow> bool" where
  "good_reg env reg \<longleftrightarrow> reg_ok reg \<and> caps_ok env reg"

definition regs_ok :: "login_env \<Rightarrow> 's deployment \<Rightarrow> bool" where
  "regs_ok env y \<longleftrightarrow> (\<forall>p. good_reg env (dp_regs y p))"

text \<open>The caps of the acting process are those of \<open>env\<close>.\<close>

definition same_caps :: "login_env \<Rightarrow> auth_event \<Rightarrow> 's deployment \<Rightarrow> bool" where
  "same_caps env e y \<longleftrightarrow>
     max_connections (ae_env e) = max_connections env \<and>
     max_connections_per_ip (ae_env e) = max_connections_per_ip env"

lemma good_revoke: "good_reg env reg \<Longrightarrow> good_reg env (fst (snd (revoke_session_connections be env' x reg s)))"
  unfolding good_reg_def by (intro conjI reg_ok_revoke caps_revoke) simp_all

lemma good_register:
  assumes "good_reg env reg" and "max_connections env' = max_connections env"
    and "max_connections_per_ip env' = max_connections_per_ip env"
  shows "good_reg env (fst (snd (register_connection be env' meanwhile x cl res ip reg s)))"
proof -
  have "caps_ok env' r = caps_ok env r" for r using assms(2,3) by (simp add: caps_ok_def)
  then show ?thesis
    using assms(1) reg_ok_register [of reg be env' meanwhile x cl res ip s]
      caps_register [of reg env' be meanwhile x cl res ip s]
    by (simp add: good_reg_def)
qed

lemma good_unregister: "good_reg env reg \<Longrightarrow> good_reg env (unregister_connection i reg)"
  unfolding good_reg_def by (intro conjI reg_ok_unregister caps_unregister) simp_all

lemma good_sweep:
  "good_reg env reg \<Longrightarrow> good_reg env (fst (snd (sweep_session be env' share i reg s)))"
  by (auto simp: sweep_session_def case_prod_beta good_revoke split: option.split outcome.split)

lemma good_watch:
  "good_reg env reg \<Longrightarrow> good_reg env (fst (snd (watch_round be env' share i reg s)))"
  by (auto simp: watch_round_def case_prod_beta good_sweep split: outcome.split bool.split)

lemma good_index_entry:
  "good_reg env (ps_reg w) \<Longrightarrow> good_reg env (ps_reg (sweep_index_entry be env' p w k))"
  by (auto simp: sweep_index_entry_def Let_def case_prod_beta good_revoke split: pyval.split outcome.split)

lemma good_index_entries:
  "good_reg env (ps_reg w) \<Longrightarrow> good_reg env (ps_reg (foldl (sweep_index_entry be env' p) w ks))"
  by (induction ks arbitrary: w) (simp_all add: good_index_entry)

lemma good_revoke_sid:
  "good_reg env reg \<Longrightarrow> good_reg env (fst (snd (revoke_sid be env' sid reg s)))"
  by (auto simp: revoke_sid_def case_prod_beta good_revoke)

lemma good_revoke_pair:
  "good_reg env reg \<Longrightarrow> good_reg env (fst (snd (revoke_stable_pair be env' pr reg s)))"
  by (auto simp: revoke_stable_pair_def Let_def case_prod_beta good_revoke good_index_entries split: outcome.split)

lemma good_revoke_cookie:
  "good_reg env reg \<Longrightarrow> good_reg env (fst (snd (revoke_cookie be env' cv reg s)))"
  by (auto simp: revoke_cookie_def good_revoke_sid good_revoke_pair split: option.split)

lemma regs_ok_step:
  assumes "regs_ok env y" and "same_caps env e y"
  shows "regs_ok env (snd (auth_step be e y))"
proof -
  have g: "good_reg env (dp_regs y p)" for p using assms(1) by (simp add: regs_ok_def)
  have "good_reg env reg" if "fst (snd (auth_op be e y)) = Some (p, reg)" for p reg
    using that assms(2) g
    by (cases e)
      (auto simp: Let_def same_caps_def good_register good_unregister good_watch good_revoke good_revoke_sid
        good_revoke_pair good_revoke_cookie)
  with g show ?thesis
    by (auto simp: regs_ok_def auth_step_def case_prod_beta split: option.split)
qed

lemma regs_ok_run:
  "regs_ok env y \<Longrightarrow> along (auth_step be) (same_caps env) es y \<Longrightarrow>
   regs_ok env (snd (run_steps (auth_step be) es y))"
  by (rule run_steps_inv [where ok = "same_caps env"]) (rule regs_ok_step)

section \<open>Marks reach the sockets of other processes\<close>

context kv_store
begin

lemma lives_after_revoke_connections:
  assumes good: "marks_good s" and "0 < l_now env" and "covers env x" and up: "l_up env"
    and key: "session_id_for_cookie env i = None"
  shows "lives (ns_revoked, i) truthy x (snd (snd (revoke_session_connections be env i reg s)))"
proof -
  let ?v = "case earlier_mark (fst (b_get be (l_now env) ns_revoked i s)) of Some v \<Rightarrow> v | None \<Rightarrow> PFloat (l_now env)"
  let ?s = "b_set_ttl be (l_now env) ns_revoked i ?v
      (mark_ttl (get_env_int env ''SESSION_MAX_LIFETIME'' default_max_lifetime)) (snd (b_get be (l_now env) ns_revoked i s))"
  have v: "truthy ?v" by (rule mark_value [OF assms(1,2)])
  have "marks_good (snd (b_get be (l_now env) ns_revoked i s))"
  proof (rule marks_sub)
    show "marks_good s" by (rule good)
  qed (rule get_sub)
  with v have "marks_good ?s" by (auto simp: marks_good_def set_ttl_look)
  moreover have "row_until (ns_revoked, i) truthy x ?s"
    using v assms(3) by (intro row_new) (simp_all add: covers_def mark_ttl_default)
  ultimately have "lives (ns_revoked, i) truthy x ?s" by (simp add: lives_def)
  then show ?thesis
    using up key by (simp add: revoke_session_connections_def Let_def case_prod_beta lives_drop)
qed

lemma watch_closes:
  assumes k: "lives (ns_revoked, i) truthy x s" and "l_now env \<le> x" and up: "l_up env" and "reg_ok reg"
  shows "fst (watch_round be env share i reg s) = Returned False"
    and "conns_of i (fst (snd (watch_round be env share i reg s))) = {}"
proof -
  have "fst (revoked_shared be env i s)" by (rule revoked_shared_kept [OF k assms(2)]) (use up in simp)
  moreover obtain n reg' s' where r: "revoke_session_connections be env i reg (snd (revoked_shared be env i s)) = (Returned n, reg', s')"
    using up by (auto simp: revoke_session_connections_def Let_def case_prod_beta)
  moreover have "conns_of i reg' = {}" by (rule revoke_empties(1) [OF assms(4) r])
  ultimately show "fst (watch_round be env share i reg s) = Returned False"
    "conns_of i (fst (snd (watch_round be env share i reg s))) = {}"
    by (simp_all add: watch_round_def sweep_session_def case_prod_beta)
qed

lemma lives_run:
  assumes "along (auth_step be) (\<lambda>e y. auth_ok x e y \<and> l_now (ae_env e) \<le> x) es y"
    and "lives (ns_revoked, k) truthy x (dp_state y)"
  shows "lives (ns_revoked, k) truthy x (dp_state (snd (run_steps (auth_step be) es y)))"
  by (rule run_steps_inv [where good = "\<lambda>y. lives (ns_revoked, k) truthy x (dp_state y)"])
    (use assms lives_step in \<open>auto simp: auth_ok_def\<close>)

end

section \<open>Where the sweep goes wrong\<close>

lemma token_head:
  "verify_token mac kr token_type_session cv = Some payload \<Longrightarrow> take 8 cv = ''session:''"
  by (auto simp: verify_token_Some)

text \<open>The payload of a cookie with a session id has five fields, and the sweep knows three or four.\<close>

lemma v3_cookie_dead:
  assumes "verify_session_cookie env cv = Some c" and "c_sid c = Some sid"
  shows "operator_session_dead be env cv s = (Some ''expired'', s)"
proof -
  obtain payload where p: "verify_token (l_mac env) (l_keys env) token_type_session cv = Some payload"
    using verify_session_Some(3) [OF assms(1)] by blast
  obtain a b d e f where "split_all (CHR '':'') payload = [a, b, d, e, f]"
    using assms p
    by (auto simp: verify_session_cookie_def payload_fields_def split: option.splits list.splits if_splits)
  with p token_head [OF p] show ?thesis by (simp add: operator_session_dead_def Let_def)
qed

context kv_store
begin

text \<open>So one round of the watcher of a live operator cookie revokes the session.\<close>

lemma watcher_logs_out:
  assumes c: "verify_session_cookie env cv = Some c" "c_sid c = Some sid" "valid_sid sid"
    and "marks_good s" and "0 < l_now env" and "l_up env"
    and live: "\<not> fst (revoked_shared be env cv s)" and "\<not> share_expired env share"
  shows "fst (watch_round be env share cv reg s) = Returned False"
    and "\<not> fst (fst (check_authenticated be env cv [] (snd (snd (watch_round be env share cv reg s)))))"
proof -
  let ?s = "snd (revoked_shared be env cv s)"
  let ?r = "revoke_session_connections be env cv reg ?s"
  let ?v = "case earlier_mark (fst (b_get be (l_now env) ns_revoked cv ?s)) of Some v \<Rightarrow> v | None \<Rightarrow> PFloat (l_now env)"
  have dead: "operator_session_dead be env cv ?s = (Some ''expired'', ?s)"
    by (rule v3_cookie_dead [OF c(1,2)])
  have ret: "\<exists>n. fst ?r = Returned n" using assms(6) by (simp add: revoke_session_connections_def Let_def case_prod_beta)
  then have w: "watch_round be env share cv reg s = (Returned False, snd ?r)"
    using live assms(8) dead by (auto simp: watch_round_def sweep_session_def case_prod_beta prod_eq_iff)
  then show "fst (watch_round be env share cv reg s) = Returned False" by simp
  have "marks_good (snd (b_get be (l_now env) ns_revoked cv t))" if "marks_good t" for t
  proof (rule marks_sub)
    show "marks_good t" by (rule that)
  qed (rule get_sub)
  then have good: "marks_good ?s" "marks_good (snd (b_get be (l_now env) ns_revoked cv ?s))"
    using assms(4,6) by (simp_all add: revoked_shared_def case_prod_beta)
  have v: "truthy ?v" by (rule mark_value [OF good(1) assms(5)])
  let ?s1 = "b_set_ttl be (l_now env) ns_revoked (sid_mark sid) ?v
      (mark_ttl (get_env_int env ''SESSION_MAX_LIFETIME'' default_max_lifetime))
      (snd (b_get be (l_now env) ns_revoked cv ?s))"
  have "marks_good ?s1" using good(2) v by (auto simp: marks_good_def set_ttl_look)
  moreover have "row_until (ns_revoked, sid_mark sid) truthy (l_now env) ?s1"
    using v by (intro row_new) (simp_all add: mark_ttl_def)
  ultimately have "lives (ns_revoked, sid_mark sid) truthy (l_now env) ?s1" by (simp add: lives_def)
  then have "lives (ns_revoked, sid_mark sid) truthy (l_now env) (drop_auth_context_for be env cv ?s1)"
    by (rule lives_drop)
  moreover have "sid \<noteq> []" using c(3) by (auto simp: valid_sid_def)
  ultimately have "lives (ns_revoked, sid_mark sid) truthy (l_now env) (snd (snd ?r))"
    using assms(6) c(1,2) by (simp add: revoke_session_connections_def Let_def case_prod_beta session_id_for_cookie_def)
  then show "\<not> fst (fst (check_authenticated be env cv [] (snd (snd (watch_round be env share cv reg s)))))"
    using check_revoked [of sid "l_now env" "snd (snd ?r)" env cv] c w assms(6) by simp
qed

end

text \<open>Under the strict policy an outage ends the watcher and leaves the sockets open.\<close>

lemma outage_ends_watcher:
  "\<not> l_up env \<Longrightarrow> l_strict env \<Longrightarrow> watch_round be env share i reg s = (Raised, reg, s)"
  by (simp add: watch_round_def sweep_session_def revoked_shared_def revoke_session_connections_def)

text \<open>A watcher that polls another name than the socket is registered under stops at once.\<close>

lemma other_name_unwatched:
  assumes "get_active_count i reg = 0" and "\<not> fst (revoked_shared be env i s)" and "\<not> share_expired env share"
    and "fst (operator_session_dead be env i (snd (revoked_shared be env i s))) = None"
  shows "fst (watch_round be env share i reg s) = Returned False \<and> fst (snd (watch_round be env share i reg s)) = reg"
  using assms by (simp add: watch_round_def sweep_session_def case_prod_beta split: option.split)

text \<open>The registration a service asks for is never \<open>None\<close>.\<close>

lemma refused_registration_kept:
  "fst (register_websocket_connection be env meanwhile share i cl res ip reg s) \<noteq> None"
  by (simp add: register_websocket_connection_def case_prod_beta)

lemma refused_registration_empty:
  assumes "fst (revoked_either be env (resolve_session_id env share i) s)"
  shows "fst (register_websocket_connection be env meanwhile share i cl res ip reg s) = Some []"
  using assms by (simp add: register_websocket_connection_def register_connection_def case_prod_beta)

end
