(* ===== verification/Assurance.thy ===== *)
theory Assurance
  imports LoginRuns
begin

text \<open>
  What the assurance policy decides: \<open>policy_met\<close> is the reading of a requirement without codes,
  reasons or audit splits, and \<open>evaluate\<close> decides it exactly where the profile enforces everything.
\<close>

definition holds :: "(string \<times> pyval) list \<Rightarrow> string \<Rightarrow> bool" where
  "holds ctx p \<longleftrightarrow> truthy (py_get p PNone ctx)"

definition fresh_enough :: "login_env \<Rightarrow> int option \<Rightarrow> (string \<times> pyval) list \<Rightarrow> bool" where
  "fresh_enough env limit ctx \<longleftrightarrow>
     (case num_of (py_get ''authenticated_at'' PNone ctx) of
        None \<Rightarrow> limit = None
      | Some t \<Rightarrow> - 31 < l_now env - t \<and> (\<forall>l. limit = Some l \<longrightarrow> l_now env - t < of_int l + 1))"

definition epoch_current :: "login_env \<Rightarrow> (string \<times> pyval) list \<Rightarrow> epoch \<Rightarrow> bool" where
  "epoch_current env ctx ep \<longleftrightarrow>
     py_get ''operator_epoch'' PNone ctx = PNone \<or>
     (\<exists>t. float_of (read_float (l_fl env)) (py_get ''operator_epoch'' PNone ctx) = Some t \<and> \<not> before_epoch t ep)"

definition policy_met :: "login_env \<Rightarrow> requirement \<Rightarrow> (string \<times> pyval) list \<Rightarrow> epoch \<Rightarrow> bool" where
  "policy_met env rq ctx ep \<longleftrightarrow>
     (rq_mfa rq \<longrightarrow> holds ctx ''mfa'') \<and>
     (rq_phishing_resistant rq \<longrightarrow> holds ctx ''phishing_resistant'') \<and>
     (rq_user_verified rq \<longrightarrow> py_get ''user_verified'' PNone ctx = PBool True) \<and>
     (rq_alternatives rq = [] \<or> (\<exists>alt \<in> set (rq_alternatives rq). \<forall>p \<in> set alt. holds ctx p)) \<and>
     fresh_enough env (rq_max_age rq) ctx \<and> epoch_current env ctx ep"

text \<open>Without the properties a trusted LAN only audits.\<close>

definition audited_only :: "requirement \<Rightarrow> requirement" where
  "audited_only rq = rq\<lparr>rq_phishing_resistant := False, rq_user_verified := False\<rparr>"

lemma trunc_bounds:
  fixes x :: rat
  shows "trunc x < -30 \<longleftrightarrow> x \<le> -31" and "0 \<le> l \<Longrightarrow> l < trunc x \<longleftrightarrow> of_int l + 1 \<le> x"
proof -
  show "trunc x < -30 \<longleftrightarrow> x \<le> -31"
  proof (cases "0 \<le> x")
    case False
    then have "trunc x < -30 \<longleftrightarrow> \<lceil>x\<rceil> \<le> -31" by (auto simp: trunc_def)
    then show ?thesis by (simp add: ceiling_le_iff)
  qed (simp add: trunc_def le_floor_iff)
  show "l < trunc x \<longleftrightarrow> of_int l + 1 \<le> x" if "0 \<le> l"
  proof (cases "0 \<le> x")
    case True
    have "l < \<lfloor>x\<rfloor> \<longleftrightarrow> l + 1 \<le> \<lfloor>x\<rfloor>" by auto
    also have "\<dots> \<longleftrightarrow> of_int l + 1 \<le> x" by (simp add: le_floor_iff)
    finally show ?thesis using True by (simp add: trunc_def)
  next
    case False
    then have "\<lceil>x\<rceil> \<le> 0" by (simp add: ceiling_le_iff)
    with False that show ?thesis by (simp add: trunc_def) linarith
  qed
qed

lemma future_denial_iff:
  "future_denial op meth (auth_age env ctx) = None \<longleftrightarrow>
     (\<forall>t. num_of (py_get ''authenticated_at'' PNone ctx) = Some t \<longrightarrow> - 31 < l_now env - t)"
  by (auto simp: future_denial_def auth_age_def trunc_bounds not_le split: option.split)

lemma future_denial_denies: "future_denial op meth age = Some d \<Longrightarrow> \<not> dc_allowed d"
  by (auto simp: future_denial_def split: option.splits if_splits)

lemma epoch_denied_iff:
  "fst (epoch_denied be env ctx op meth age s) = None \<longleftrightarrow>
     epoch_current env ctx (fst (operator_session_epoch be env s))"
  by (cases "py_get ''operator_epoch'' PNone ctx")
    (simp_all add: epoch_denied_def epoch_current_def Let_def case_prod_beta float_of_def split: option.split)

lemma epoch_denied_denies: "fst (epoch_denied be env ctx op meth age s) = Some d \<Longrightarrow> \<not> dc_allowed d"
  by (auto simp: epoch_denied_def Let_def case_prod_beta split: pyval.splits option.splits if_splits)

text \<open>The missing properties as five conditions.\<close>

definition too_old :: "requirement \<Rightarrow> (string \<times> pyval) list \<Rightarrow> login_env \<Rightarrow> bool" where
  "too_old rq ctx env \<longleftrightarrow>
     (\<exists>l. rq_max_age rq = Some l \<and>
        (\<forall>t. num_of (py_get ''authenticated_at'' PNone ctx) = Some t \<longrightarrow> of_int l + 1 \<le> l_now env - t))"

definition no_strong :: "requirement \<Rightarrow> (string \<times> pyval) list \<Rightarrow> bool" where
  "no_strong rq ctx \<longleftrightarrow>
     rq_alternatives rq \<noteq> [] \<and> (\<forall>alt \<in> set (rq_alternatives rq). \<exists>p \<in> set alt. \<not> holds ctx p)"

lemma missing_eq:
  assumes "\<forall>l. rq_max_age rq = Some l \<longrightarrow> 0 \<le> l"
  shows "missing_requirements rq ctx (auth_age env ctx) =
    (if rq_mfa rq \<and> \<not> holds ctx ''mfa'' then [''mfa''] else []) @
    (if rq_phishing_resistant rq \<and> \<not> holds ctx ''phishing_resistant'' then [''phishing_resistant''] else []) @
    (if rq_user_verified rq \<and> py_get ''user_verified'' PNone ctx \<noteq> PBool True then [''user_verified''] else []) @
    (if no_strong rq ctx then [''strong_method''] else []) @
    (if too_old rq ctx env then [''recent_auth''] else [])"
proof -
  have "(case rq_max_age rq of
          Some l \<Rightarrow> (case auth_age env ctx of None \<Rightarrow> [''recent_auth''] | Some a \<Rightarrow> if l < a then [''recent_auth''] else [])
        | None \<Rightarrow> []) = (if too_old rq ctx env then [''recent_auth''] else [])"
    using assms by (auto simp: too_old_def auth_age_def trunc_bounds(2) split: option.split)
  moreover have "no_strong rq ctx \<longleftrightarrow>
      rq_alternatives rq \<noteq> [] \<and> \<not> list_ex (list_all (\<lambda>p. truthy (py_get p PNone ctx))) (rq_alternatives rq)"
    by (auto simp: no_strong_def holds_def list_ex_iff list_all_iff)
  ultimately show ?thesis
    by (simp only: missing_requirements_def holds_def Let_def)
qed

definition lacks :: "requirement \<Rightarrow> (string \<times> pyval) list \<Rightarrow> login_env \<Rightarrow> bool" where
  "lacks rq ctx env \<longleftrightarrow>
     (rq_mfa rq \<and> \<not> holds ctx ''mfa'') \<or>
     (rq_phishing_resistant rq \<and> \<not> holds ctx ''phishing_resistant'') \<or>
     (rq_user_verified rq \<and> py_get ''user_verified'' PNone ctx \<noteq> PBool True) \<or>
     no_strong rq ctx \<or> too_old rq ctx env"

lemma missing_empty:
  assumes "\<forall>l. rq_max_age rq = Some l \<longrightarrow> 0 \<le> l"
  shows "missing_requirements rq ctx (auth_age env ctx) = [] \<longleftrightarrow> \<not> lacks rq ctx env"
  unfolding missing_eq [OF assms] lacks_def by simp

lemma lan_missing_empty:
  assumes "\<forall>l. rq_max_age rq = Some l \<longrightarrow> 0 \<le> l"
  shows "filter (\<lambda>m. m \<in> {''mfa'', ''recent_auth'', ''strong_method''})
      (missing_requirements rq ctx (auth_age env ctx)) = [] \<longleftrightarrow> \<not> lacks (audited_only rq) ctx env"
proof -
  have same: "no_strong (audited_only rq) ctx = no_strong rq ctx" "too_old (audited_only rq) ctx env = too_old rq ctx env"
    by (simp_all add: no_strong_def too_old_def audited_only_def)
  show ?thesis
    unfolding missing_eq [OF assms] lacks_def same by (simp add: audited_only_def)
qed

lemma met_iff:
  "policy_met env rq ctx ep \<longleftrightarrow>
     \<not> lacks rq ctx env \<and>
     (\<forall>t. num_of (py_get ''authenticated_at'' PNone ctx) = Some t \<longrightarrow> - 31 < l_now env - t) \<and>
     epoch_current env ctx ep"
proof -
  have "fresh_enough env (rq_max_age rq) ctx \<longleftrightarrow>
      (\<forall>t. num_of (py_get ''authenticated_at'' PNone ctx) = Some t \<longrightarrow> - 31 < l_now env - t) \<and> \<not> too_old rq ctx env"
    by (auto simp: fresh_enough_def too_old_def not_le split: option.split)
  moreover have "(rq_alternatives rq = [] \<or> (\<exists>alt \<in> set (rq_alternatives rq). \<forall>p \<in> set alt. holds ctx p)) \<longleftrightarrow>
      \<not> no_strong rq ctx"
    by (auto simp: no_strong_def)
  ultimately show ?thesis unfolding policy_met_def lacks_def by blast
qed

lemma policy_ages: "map_of auth_policies op = Some rq \<Longrightarrow> \<forall>l. rq_max_age rq = Some l \<longrightarrow> 0 \<le> l"
  by (auto simp: auth_policies_def no_requirement_def split: if_splits)

lemma evaluate_cases:
  assumes op: "map_of auth_policies op = Some rq"
  shows "dc_allowed (fst (evaluate be env op ctx (Some pf) s)) \<longleftrightarrow>
    (\<forall>t. num_of (py_get ''authenticated_at'' PNone ctx) = Some t \<longrightarrow> - 31 < l_now env - t) \<and>
    epoch_current env ctx (fst (operator_session_epoch be env s)) \<and>
    dc_allowed (policy_decision op rq False ctx pf (py_get ''auth_method'' PNone ctx) (auth_age env ctx))"
proof -
  let ?meth = "py_get ''auth_method'' PNone ctx"
  let ?age = "auth_age env ctx"
  have rr: "resolve_requirement op = (Some rq, False)" using op by (simp add: resolve_requirement_def)
  show ?thesis
  proof (cases "future_denial op ?meth ?age")
    case (Some d)
    then show ?thesis
      using future_denial_iff [of op ?meth env ctx] future_denial_denies [OF Some]
      by (simp add: evaluate_def Let_def)
  next
    case None
    note fresh = None [unfolded future_denial_iff]
    show ?thesis
    proof (cases "fst (epoch_denied be env ctx op ?meth ?age s)")
      case (Some d)
      then show ?thesis
        using None rr epoch_denied_iff [of be env ctx op ?meth ?age s] epoch_denied_denies [OF Some]
        by (simp add: evaluate_def Let_def case_prod_beta)
    next
      case None
      then show ?thesis
        using \<open>future_denial op ?meth ?age = None\<close> fresh rr epoch_denied_iff [of be env ctx op ?meth ?age s]
        by (simp add: evaluate_def Let_def case_prod_beta)
    qed
  qed
qed

lemma enforced_exact:
  assumes op: "map_of auth_policies op = Some rq" and "pf \<in> set enforce_all_in"
  shows "dc_allowed (fst (evaluate be env op ctx (Some pf) s)) \<longleftrightarrow>
    policy_met env rq ctx (fst (operator_session_epoch be env s))"
proof -
  have "dc_allowed (policy_decision op rq False ctx pf m (auth_age env ctx)) \<longleftrightarrow> \<not> lacks rq ctx env" for m
    using assms(2) missing_empty [OF policy_ages [OF op], where ctx = ctx and env = env]
    by (simp add: policy_decision_def Let_def)
  then show ?thesis unfolding evaluate_cases [OF op] met_iff by blast
qed

lemma lan_exact:
  assumes op: "map_of auth_policies op = Some rq"
  shows "dc_allowed (fst (evaluate be env op ctx (Some ''trusted-lan'') s)) \<longleftrightarrow>
    policy_met env (audited_only rq) ctx (fst (operator_session_epoch be env s))"
proof -
  have "dc_allowed (policy_decision op rq False ctx ''trusted-lan'' m (auth_age env ctx)) \<longleftrightarrow>
      \<not> lacks (audited_only rq) ctx env" for m
    using lan_missing_empty [OF policy_ages [OF op], where ctx = ctx and env = env]
    by (simp add: policy_decision_def Let_def enforce_all_in_def enforce_mfa_only_def)
  then show ?thesis unfolding evaluate_cases [OF op] met_iff by blast
qed

section \<open>Where the policy is not what the documents say\<close>

text \<open>A profile named by its older alias enforces nothing.\<close>

lemma alias_not_enforced:
  assumes "l_environ env ''SECURITY_PROFILE'' = Some ''internet-hardened''"
  shows "resolve_profile env = ''public-hardened''"
    and "dc_allowed (fst (evaluate be env ''create_admin'' [] None s))"
  using assms
  by (simp_all add: resolve_profile_def get_profile_def env_or_def profile_aliases_def py_get_def
      evaluate_def resolve_requirement_def auth_policies_def no_requirement_def auth_age_def future_denial_def
      epoch_denied_def policy_decision_def enforce_all_in_def enforce_mfa_only_def Let_def)

text \<open>A development deployment denies too, and reports the requirements as satisfied.\<close>

lemma development_denies:
  assumes "l_now env + 31 \<le> t"
  shows "\<not> dc_allowed (fst (evaluate be env op [(''authenticated_at'', PFloat t)] (Some ''development'') s))"
    and "dc_satisfied (fst (evaluate be env op [(''authenticated_at'', PFloat t)] (Some ''development'') s))"
proof -
  have "trunc (l_now env - t) < - 30" using assms by (simp add: trunc_bounds(1))
  then show "\<not> dc_allowed (fst (evaluate be env op [(''authenticated_at'', PFloat t)] (Some ''development'') s))"
    "dc_satisfied (fst (evaluate be env op [(''authenticated_at'', PFloat t)] (Some ''development'') s))"
    by (simp_all add: evaluate_def auth_age_def py_get_def future_denial_def Let_def)
qed

end
