(* ===== verification/LoginProperties.thy ===== *)
theory LoginProperties
  imports Mfa StepUpRuns Assurance
begin

text \<open>
  The properties of the second factor, of step-up authentication and of operator sessions, each with a
  witness at a concrete input.
\<close>

section \<open>A sample process\<close>

definition toy_mac :: mac where
  "toy_mac k m = nat_str (length k + length m)"

lemma toy_mac_hex: "hex_mac toy_mac"
proof -
  have "CHR ''.'' \<notin> set (nat_str n)" for n
    using nat_str_digits [of n] dot_not_digit by (auto simp: list_all_iff)
  then show ?thesis by (simp add: hex_mac_def toy_mac_def)
qed

definition toy_login :: "time \<Rightarrow> login_env" where
  "toy_login now =
     \<lparr> l_now = now, l_up = True, l_strict = False, l_environ = (\<lambda>_. None), l_sha = (\<lambda>t. t),
       l_mac = toy_mac, l_keys = \<lparr> kr_current = ''k'', kr_previous = [] \<rparr>, l_fl = ratio_io \<rparr>"

definition toy_hotp :: mfa_cfg where
  "toy_hotp = \<lparr> mc_sha = (\<lambda>t. t), mc_hotp = (\<lambda>_. Some (\<lambda>c. nat (c mod 1000000))) \<rparr>"

section \<open>One-time codes\<close>


definition idle_totp :: "rows totp_sys" where
  "idle_totp = \<lparr> tt_state = [], tt_phase = (\<lambda>_. TotpIdle) \<rparr>"

definition two_logins :: "totp_event list" where
  "two_logins =
     (let env = \<lparr> m_now = 100, m_up = True \<rparr>
      in [TotpCheck 0 env ''s'' ''000003'', TotpCheck 1 env ''s'' ''000003'', TotpClaim 0 env,
          TotpClaim 1 env, TotpRecord 0 env])"


section \<open>Step-up grants\<close>

text \<open>C18: a step-up grant is consumed at most once in any interleaving of
  the requests of any processes, when each request is answered within 60 seconds of reading the
  grant.\<close>

theorem grant_single_use:
  assumes "sqlkv.gr_inv fl y" and "along (gr_step sqlite_backend) (gr_ok fl) es y"
  shows "count_of (consumed n) (fst (run_steps (gr_step sqlite_backend) es y)) \<le> 1"
  using assms by (rule grants.won_at_most_once)

definition no_grants :: "rows gr_sys" where
  "no_grants = \<lparr> gr_state = [], gr_phase = (\<lambda>_. GrIdle), gr_clock = 0, gr_used = {} \<rparr>"

definition restore_race :: "gr_event list" where
  "restore_race =
     [GrGrant (toy_login 10) ''ann'' ''backup.restore'' ''b1'' ''sid'' ''n1'',
      GrRead 0 (toy_login 11) ''ann'' ''backup.restore'' ''b1'' ''sid'',
      GrRead 1 (toy_login 11) ''ann'' ''backup.restore'' ''b1'' ''sid'',
      GrClaim 1 (toy_login 12), GrClaim 0 (toy_login 12), GrRead 2 (toy_login 12) ''bob'' ''backup.restore'' ''b1'' ''sid'',
      GrDrop 1 (toy_login 13)]"

lemma no_grants_inv: "sqlkv.gr_inv ratio_io no_grants"
  by (simp add: sqlkv.gr_inv_def sqlkv.stored_def no_grants_def json_floats_ratio_io)

lemma restore_race_ok: "along (gr_step sqlite_backend) (gr_ok ratio_io) restore_race no_grants"
proof -
  have "along (gr_step sqlite_backend) gr_prompt restore_race no_grants" by code_simp
  then show ?thesis by (simp add: gr_ok_along) (simp add: restore_race_def toy_login_def)
qed

theorem grant_single_use_witness:
  "count_of (consumed ''n1'') (fst (run_steps (gr_step sqlite_backend) restore_race no_grants)) \<le> 1"
  by (rule grant_single_use [OF no_grants_inv restore_race_ok])



section \<open>Recent authentication\<close>

text \<open>C20: a sensitive action proceeds only when the user
  authenticated, in some process, no longer ago than the allowed age, whatever was recorded, cleared
  or out of reach in between.\<close>

theorem sensitive_action_needs_recent_login:
  assumes "sqlkv.su_traced [] y" and "a \<in> set sensitive_actions"
    and "fst (su_step sqlite_backend (SuRequire p env u a (Some age)) (snd (run_steps (su_step sqlite_backend) es y)))"
  shows "\<exists>t. recorded es u t \<and> l_now env - of_int age \<le> t \<and> t \<le> l_now env"
  using sqlkv.allowed_recorded [OF assms] by blast

definition no_times :: "rows su_sys" where
  "no_times = \<lparr> us_state = [], us_managers = (\<lambda>_. \<lparr> su_times = [], su_max_age = 300 \<rparr>) \<rparr>"

theorem sensitive_action_needs_recent_login_witness:
  "\<exists>t. recorded [SuRecord 0 (toy_login 100) ''ann'' None] ''ann'' t \<and> 200 - of_int 300 \<le> t \<and> t \<le> 200"
proof -
  have "sqlkv.su_traced [] no_times" by (simp add: sqlkv.su_traced_def no_times_def)
  moreover have "''open_terminal'' \<in> set sensitive_actions" by (simp add: sensitive_actions_def)
  moreover have "fst (su_step sqlite_backend (SuRequire 1 (toy_login 200) ''ann'' ''open_terminal'' (Some 300))
      (snd (run_steps (su_step sqlite_backend) [SuRecord 0 (toy_login 100) ''ann'' None] no_times)))"
    by code_simp
  ultimately show ?thesis
    using sensitive_action_needs_recent_login [of no_times "''open_terminal''" 1 "toy_login 200" "''ann''" 300
        "[SuRecord 0 (toy_login 100) ''ann'' None]"] by (simp add: toy_login_def)
qed

section \<open>Operator sessions\<close>

text \<open>C21: the cookies of a login and of all its refreshes carry the
  same user, login time and session id, and a process accepts one only until the expiry fixed at the
  login and only within the idle timeout after the last refresh; refreshing extends nothing else.\<close>

theorem session_lifetime_bounded:
  assumes "issued user created expires sid cv seen" and "CHR '':'' \<notin> set user" and "valid_sid sid"
    and "verify_session_cookie env cv = Some c"
  shows "c_username c = user \<and> c_created c = created \<and> c_sid c = Some sid \<and> c_expires c = expires \<and>
    l_now env \<le> of_int expires \<and>
    l_now env - of_int seen \<le> of_int (get_env_int env ''SESSION_IDLE_TIMEOUT'' default_idle_timeout)"
  using issued_bounds [OF assms] by simp

definition toy_sid :: string where "toy_sid = ''aaaaaaaaaaaaaaaa''"

definition toy_cookie :: string where
  "toy_cookie = mk_value (create_session_cookie (toy_login 100) ''ann'' None None None ''c'' toy_sid)"

definition toy_session :: cookie_session where
  "toy_session = \<lparr> c_username = ''ann'', c_created = 100, c_last_seen = 100, c_expires = 28900,
     c_sid = Some toy_sid \<rparr>"

lemma toy_sid_valid: "valid_sid toy_sid"
  by code_simp

lemma toy_issued: "issued ''ann'' 100 28900 toy_sid toy_cookie 100"
proof (rule issued.login)
  show "mk_value (create_session_cookie (toy_login 100) ''ann'' None None None ''c'' toy_sid) = toy_cookie"
    by (simp add: toy_cookie_def)
  show "l_secs (toy_login 100) = 100" by code_simp
  show "or_int None (get_env_int (toy_login 100) ''SESSION_MAX_LIFETIME'' default_max_lifetime) = 28900 - 100"
    by code_simp
qed (simp add: toy_login_def toy_mac_hex)

lemma toy_verify: "verify_session_cookie (toy_login 200) toy_cookie = Some toy_session"
proof -
  have "verify_session_cookie (toy_login 200) toy_cookie =
      (if of_int 28900 < l_now (toy_login 200) \<or>
         of_int (get_env_int (toy_login 200) ''SESSION_IDLE_TIMEOUT'' default_idle_timeout) <
           l_now (toy_login 200) - of_int (l_secs (toy_login 100)) then None
       else Some \<lparr> c_username = ''ann'', c_created = l_secs (toy_login 100), c_last_seen = l_secs (toy_login 100),
                   c_expires = 28900, c_sid = Some toy_sid \<rparr>)"
    by (rule created_accepted [OF toy_cookie_def [symmetric]])
      (simp_all add: toy_login_def toy_mac_hex toy_sid_valid get_verify_secrets_def l_secs_def or_int_def
        get_env_int_def trunc_def)
  then show ?thesis by (simp add: toy_login_def get_env_int_def l_secs_def toy_session_def trunc_def)
qed

theorem session_lifetime_bounded_witness:
  "c_username toy_session = ''ann'' \<and> c_created toy_session = 100 \<and> c_sid toy_session = Some toy_sid \<and>
   c_expires toy_session = 28900 \<and> l_now (toy_login 200) \<le> of_int 28900 \<and>
   l_now (toy_login 200) - of_int 100 \<le>
     of_int (get_env_int (toy_login 200) ''SESSION_IDLE_TIMEOUT'' default_idle_timeout)"
  by (rule session_lifetime_bounded [OF toy_issued _ toy_sid_valid toy_verify]) simp


definition toy_deployment :: "rows deployment" where
  "toy_deployment = \<lparr> dp_state = [], dp_regs = (\<lambda>_. new_registry), dp_clock = 150 \<rparr>"

definition toy_requests :: "auth_event list" where
  "toy_requests = [AeCheck (toy_login 210) toy_cookie [], AeSweep 1 (toy_login 220) (Returned None) toy_sid,
     AeCheck (toy_login 230) toy_cookie []]"

definition toy_logged_out :: "rows deployment" where
  "toy_logged_out = snd (auth_step sqlite_backend (AeRevokeCookie 0 (toy_login 200) toy_cookie) toy_deployment)"

lemma toy_plain: "plain_login ''ann'' 100 toy_sid"
  by (simp add: plain_login_def toy_sid_valid)

lemma toy_marks: "sqlkv.marks_good (dp_state toy_deployment)"
  by (simp add: sqlkv.marks_good_def toy_deployment_def)

lemma toy_covers: "100 \<le> t \<Longrightarrow> covers (toy_login t) (of_int 28900)"
  by (simp add: covers_def toy_login_def mark_ttl_def get_env_int_def)

text \<open>With the clock given, \<open>auth_ok\<close> of these requests does not depend on the state.\<close>

lemma toy_auth_ok:
  assumes "list_all (\<lambda>e. \<exists>t. ae_env e = toy_login t \<and> 100 \<le> t) es"
    and "sorted (dp_clock y # map (\<lambda>e. l_now (ae_env e)) es)"
  shows "along (auth_step be) (auth_ok (of_int 28900)) es y"
  using assms
proof (induction es arbitrary: y)
  case (Cons e es)
  then obtain t where t: "ae_env e = toy_login t" "100 \<le> t" by auto
  then have "l_now (ae_env e) = t" "l_up (ae_env e)" by (simp_all add: toy_login_def)
  with t Cons.prems(2) toy_covers [of t] have "auth_ok (of_int 28900) e y" by (simp add: auth_ok_def)
  moreover have "along (auth_step be) (auth_ok (of_int 28900)) es (snd (auth_step be e y))"
    by (rule Cons.IH) (use Cons.prems in \<open>simp_all add: auth_step_def case_prod_beta\<close>)
  ultimately show ?case by simp
qed simp



definition toy_rotated :: "rows deployment" where
  "toy_rotated = snd (auth_step sqlite_backend (AeBump (toy_login 200)) toy_deployment)"


section \<open>Assurance and sockets\<close>

text \<open>C24: for every declared operation, a deployment that enforces
  everything allows it exactly when the session's recorded properties meet the requirement, are recent
  and not from before the last rotation; a trusted LAN decides the same without the requirements on
  phishing resistance and user verification.\<close>

theorem policy_enforced_exactly:
  assumes "map_of auth_policies op = Some rq"
  shows "(\<forall>pf \<in> set enforce_all_in. dc_allowed (fst (evaluate be env op ctx (Some pf) s)) \<longleftrightarrow>
      policy_met env rq ctx (fst (operator_session_epoch be env s))) \<and>
    (dc_allowed (fst (evaluate be env op ctx (Some ''trusted-lan'') s)) \<longleftrightarrow>
      policy_met env (audited_only rq) ctx (fst (operator_session_epoch be env s)))"
  by (intro conjI ballI enforced_exact [OF assms] lan_exact [OF assms])

theorem policy_enforced_exactly_witness:
  "dc_allowed (fst (evaluate sqlite_backend (toy_login 200) ''webauthn_delete''
     [(''authenticated_at'', PFloat 150)] (Some ''trusted-lan'') [])) \<longleftrightarrow>
   policy_met (toy_login 200)
     (audited_only (no_requirement\<lparr>rq_phishing_resistant := True, rq_user_verified := True, rq_max_age := Some 300\<rparr>))
     [(''authenticated_at'', PFloat 150)] (fst (operator_session_epoch sqlite_backend (toy_login 200) []))"
proof -
  have "map_of auth_policies ''webauthn_delete'' =
      Some (no_requirement\<lparr>rq_phishing_resistant := True, rq_user_verified := True, rq_max_age := Some 300\<rparr>)"
    by (simp add: auth_policies_def)
  from policy_enforced_exactly [OF this, of sqlite_backend "toy_login 200" "[(''authenticated_at'', PFloat 150)]" "[]"]
  show ?thesis by blast
qed

text \<open>C25: in every run of the deployment the two tables of every
  socket registry agree, no connection name is used twice, and neither the number of connections nor
  the number of connections of one address exceeds its cap.\<close>

theorem socket_registry_invariant:
  assumes "regs_ok env y" and "along (auth_step be) (same_caps env) es y"
  shows "reg_ok (dp_regs (snd (run_steps (auth_step be) es y)) p) \<and>
    caps_ok env (dp_regs (snd (run_steps (auth_step be) es y)) p)"
  using regs_ok_run [OF assms] by (simp add: regs_ok_def good_reg_def)

definition toy_sockets :: "auth_event list" where
  "toy_sockets = [AeRegister 0 (toy_login 210) ''tok'' CloseRuns (Some ''desktop'') ''10.0.0.1'',
     AeRegister 0 (toy_login 220) ''tok'' CloseRaises None ''10.0.0.2'', AeUnregister 0 ''ws_1'' (toy_login 230)]"

lemma toy_regs: "regs_ok (toy_login 200) toy_deployment"
  using reg_ok_new
  by (simp add: regs_ok_def good_reg_def toy_deployment_def caps_ok_def new_registry_def from_ip_def
      max_connections_def max_connections_per_ip_def toy_login_def)

theorem socket_registry_invariant_witness:
  "reg_ok (dp_regs (snd (run_steps (auth_step sqlite_backend) toy_sockets toy_deployment)) 0) \<and>
   caps_ok (toy_login 200) (dp_regs (snd (run_steps (auth_step sqlite_backend) toy_sockets toy_deployment)) 0)"
proof (rule socket_registry_invariant)
  show "regs_ok (toy_login 200) toy_deployment" by (rule toy_regs)
  show "along (auth_step sqlite_backend) (same_caps (toy_login 200)) toy_sockets toy_deployment"
    by (subst along_static [OF same_caps_def])
      (simp add: toy_sockets_def max_connections_def max_connections_per_ip_def toy_login_def)
qed


definition toy_watched :: "rows deployment" where
  "toy_watched = snd (auth_step sqlite_backend (AeRevokeConns 1 (toy_login 240) ''tok'')
     (snd (run_steps (auth_step sqlite_backend) (butlast toy_sockets) toy_deployment)))"

lemma toy_watched_marks:
  "sqlkv.marks_good (dp_state (snd (run_steps (auth_step sqlite_backend) (butlast toy_sockets) toy_deployment)))"
proof -
  have "dp_state (snd (run_steps (auth_step sqlite_backend) (butlast toy_sockets) toy_deployment)) = []"
    by code_simp
  then show ?thesis by (simp add: sqlkv.marks_good_def)
qed


end
