(* ===== verification/Credentials.thy ===== *)
theory Credentials
  imports AuthData
begin

text \<open>
  Passwords and request headers: the stored password formats of security/credentials.py, and from
  security/http_auth.py the reading of Authorization and Cookie headers and of the client address.
  The key derivation functions and UTF-8 are parameters; base64 is the non-strict decoder of the
  Python library.
\<close>

section \<open>Text and base64\<close>

text \<open>UTF-8: encoding, strict decoding, and decoding with replacement characters.\<close>

record text_io =
  tx_enc :: "string \<Rightarrow> string"
  tx_dec :: "string \<Rightarrow> string option"
  tx_replace :: "string \<Rightarrow> string"

definition ascii :: "string \<Rightarrow> bool" where
  "ascii s \<longleftrightarrow> list_all (\<lambda>c. of_char c < (128 :: nat)) s"

text \<open>The code relies on: what was encoded is decoded again, and ASCII text is its own encoding.\<close>

definition text_io_ok :: "text_io \<Rightarrow> bool" where
  "text_io_ok tx \<longleftrightarrow>
     (\<forall>s. tx_dec tx (tx_enc tx s) = Some s \<and> tx_replace tx (tx_enc tx s) = s \<and>
          (ascii s \<longrightarrow> tx_enc tx s = s))"

definition b64_char :: "nat \<Rightarrow> char" where
  "b64_char n =
     (if n < 26 then char_of (65 + n) else if n < 52 then char_of (71 + n)
      else if n < 62 then char_of (n - 4) else if n = 62 then CHR ''+'' else CHR ''/'')"

definition b64_val :: "char \<Rightarrow> nat option" where
  "b64_val c =
     (let n = of_char c :: nat
      in if 65 \<le> n \<and> n \<le> 90 then Some (n - 65) else if 97 \<le> n \<and> n \<le> 122 then Some (n - 71)
         else if 48 \<le> n \<and> n \<le> 57 then Some (n + 4) else if c = CHR ''+'' then Some 62
         else if c = CHR ''/'' then Some 63 else None)"

text \<open>\<open>base64.b64encode\<close>.\<close>

fun b64_encode :: "string \<Rightarrow> string" where
  "b64_encode [] = []"
| "b64_encode [a] =
     [b64_char (of_char a div 4), b64_char (of_char a mod 4 * 16), CHR ''='', CHR ''='']"
| "b64_encode [a, b] =
     [b64_char (of_char a div 4), b64_char (of_char a mod 4 * 16 + of_char b div 16),
      b64_char (of_char b mod 16 * 4), CHR ''='']"
| "b64_encode (a # b # c # s) =
     [b64_char (of_char a div 4), b64_char (of_char a mod 4 * 16 + of_char b div 16),
      b64_char (of_char b mod 16 * 4 + of_char c div 64), b64_char (of_char c mod 64)] @ b64_encode s"

text \<open>
  \<open>binascii.a2b_base64\<close>, not strict: characters outside the alphabet are skipped, enough padding ends
  the text, and a text that ends within a group of four is an error (\<open>None\<close>).  The state is the
  position in the group, the bits left over and the padding characters just seen.
\<close>

fun b64_scan :: "nat \<Rightarrow> nat \<Rightarrow> nat \<Rightarrow> string \<Rightarrow> string option" where
  "b64_scan q left pads [] = (if q = 0 then Some [] else None)"
| "b64_scan q left pads (c # cs) =
     (if c = CHR ''='' then
        if 2 \<le> q \<and> 4 \<le> q + pads + 1 then Some []
        else b64_scan q left (if 2 \<le> q then pads + 1 else pads) cs
      else (case b64_val c of
              None \<Rightarrow> b64_scan q left pads cs
            | Some v \<Rightarrow>
                if q = 0 then b64_scan 1 v 0 cs
                else if q = 1 then map_option ((#) (char_of (left * 4 + v div 16))) (b64_scan 2 (v mod 16) 0 cs)
                else if q = 2 then map_option ((#) (char_of (left * 16 + v div 4))) (b64_scan 3 (v mod 4) 0 cs)
                else map_option ((#) (char_of (left * 64 + v))) (b64_scan 0 0 0 cs)))"

definition b64_decode :: "string \<Rightarrow> string option" where
  "b64_decode s = (if ascii s then b64_scan 0 0 0 s else None)"

definition url_char :: "char \<Rightarrow> char" where
  "url_char c = (if c = CHR ''+'' then CHR ''-'' else if c = CHR ''/'' then CHR ''_'' else c)"

definition std_char :: "char \<Rightarrow> char" where
  "std_char c = (if c = CHR ''-'' then CHR ''+'' else if c = CHR ''_'' then CHR ''/'' else c)"

text \<open>\<open>urlsafe_b64encode(b).rstrip(b"=")\<close> and \<open>urlsafe_b64decode(s + "=" * (-len(s) % 4))\<close>.\<close>

definition b64url_encode :: "string \<Rightarrow> string" where
  "b64url_encode s = rev (dropWhile (\<lambda>c. c = CHR ''='') (rev (map url_char (b64_encode s))))"

definition b64url_decode :: "string \<Rightarrow> string option" where
  "b64url_decode s =
     b64_decode (map std_char (s @ replicate (nat (- int (length s) mod 4)) (CHR ''='')))"

section \<open>Stored passwords\<close>

text \<open>The key derivation functions; \<open>None\<close> is ValueError (an unknown digest, bad parameters).\<close>

record kdf =
  kd_argon2 :: "string \<Rightarrow> string \<Rightarrow> bool"         \<comment> \<open>stored hash, password\<close>
  kd_hash :: "string \<Rightarrow> string \<Rightarrow> string"         \<comment> \<open>password, salt\<close>
  kd_stale :: "string \<Rightarrow> bool"
  kd_pbkdf2 :: "string \<Rightarrow> string \<Rightarrow> string \<Rightarrow> int \<Rightarrow> string option"
  kd_scrypt :: "string \<Rightarrow> string \<Rightarrow> int \<Rightarrow> int \<Rightarrow> int \<Rightarrow> string option"

abbreviation argon2_max_mib :: int where "argon2_max_mib \<equiv> 512"
abbreviation argon2_max_time :: int where "argon2_max_time \<equiv> 16"
abbreviation argon2_max_par :: int where "argon2_max_par \<equiv> 8"

definition cut_prefix :: "string \<Rightarrow> string \<Rightarrow> string option" where
  "cut_prefix p s = (if prefix p s then Some (drop (length p) s) else None)"

text \<open>A text, then at least one digit: the number and the rest.\<close>

definition cut_number :: "string \<Rightarrow> string \<Rightarrow> (int \<times> string) option" where
  "cut_number p s =
     Option.bind (cut_prefix p s)
       (\<lambda>r. let d = takeWhile is_digit r
            in if d = [] then None
               else map_option (\<lambda>n. (int n, drop (length d) r)) (py_digits 0 d))"

text \<open>\<open>_ARGON2_PARAM_RE\<close>: memory, time and parallelism.\<close>

definition argon2_params :: "string \<Rightarrow> (int \<times> int \<times> int) option" where
  "argon2_params stored =
     Option.bind (cut_number ''$argon2id$v='' stored) (\<lambda>(_, r).
     Option.bind (cut_number ''$m='' r) (\<lambda>(m, r).
     Option.bind (cut_number '',t='' r) (\<lambda>(t, r).
     Option.bind (cut_number '',p='' r) (\<lambda>(p, r).
       if prefix ''$'' r then Some (m, t, p) else None))))"

definition verify_argon2 :: "kdf \<Rightarrow> string \<Rightarrow> string \<Rightarrow> bool" where
  "verify_argon2 kd password stored =
     (case argon2_params stored of
        None \<Rightarrow> False
      | Some (mem_kib, time_cost, par) \<Rightarrow>
          \<not> (argon2_max_mib * 1024 < mem_kib \<or>
             \<not> (1 \<le> time_cost \<and> time_cost \<le> argon2_max_time) \<or>
             \<not> (1 \<le> par \<and> par \<le> argon2_max_par)) \<and>
          kd_argon2 kd stored password)"

text \<open>A text cut at its first \<open>$\<close>, and again: the parameters, the salt and the digest.\<close>

definition dollar_parts :: "string \<Rightarrow> (string \<times> string \<times> string) option" where
  "dollar_parts body =
     Option.bind (split_first (CHR ''$'') body) (\<lambda>(a, rest).
       map_option (\<lambda>(salt, hexd). (a, salt, hexd)) (split_first (CHR ''$'') rest))"

definition verify_pbkdf2 :: "kdf \<Rightarrow> string \<Rightarrow> string \<Rightarrow> bool" where
  "verify_pbkdf2 kd password stored =
     (case dollar_parts (drop (length ''pbkdf2:'') stored) of
        None \<Rightarrow> False
      | Some (iterations_str, salt, expected_hex) \<Rightarrow>
          (case (case split_last (CHR '':'') iterations_str of
                   Some (m, i) \<Rightarrow> (m, i) | None \<Rightarrow> (''sha256'', iterations_str)) of
             (digest, iterations_str) \<Rightarrow>
               (case py_int iterations_str of
                  None \<Rightarrow> False
                | Some iterations \<Rightarrow>
                    if iterations < 1 \<or> 10000000 < iterations then False
                    else kd_pbkdf2 kd digest password salt iterations = Some expected_hex)))"

unbundle bit_operations_syntax

text \<open>\<open>n\<close> is a power of two above one: \<open>n & (n - 1)\<close> is zero.\<close>

definition verify_scrypt :: "kdf \<Rightarrow> string \<Rightarrow> string \<Rightarrow> bool" where
  "verify_scrypt kd password stored =
     (case dollar_parts (drop (length ''scrypt:'') stored) of
        None \<Rightarrow> False
      | Some (params_str, salt, expected_hex) \<Rightarrow>
          (case map py_int (split_all (CHR '':'') params_str) of
             [Some n, Some r, Some p] \<Rightarrow>
               if n < 2 \<or> n AND (n - 1) \<noteq> 0 \<or> 2 ^ 20 < n \<or> \<not> (1 \<le> r \<and> r \<le> 32) \<or>
                  \<not> (1 \<le> p \<and> p \<le> 32) \<or> 2 ^ 21 < n * r
               then False
               else kd_scrypt kd password salt n r p = Some expected_hex
           | _ \<Rightarrow> False))"

definition verify_password :: "kdf \<Rightarrow> string \<Rightarrow> string \<Rightarrow> bool" where
  "verify_password kd password stored =
     (if stored = [] then False
      else if prefix ''$argon2'' stored then verify_argon2 kd password stored
      else if prefix ''pbkdf2:'' stored then verify_pbkdf2 kd password stored
      else if prefix ''scrypt:'' stored then verify_scrypt kd password stored
      else False)"

section \<open>Headers\<close>

text \<open>\<open>hmac.compare_digest\<close> of two texts raises TypeError unless both are ASCII.\<close>

definition check_basic_auth :: "text_io \<Rightarrow> string \<Rightarrow> string \<Rightarrow> string \<Rightarrow> bool" where
  "check_basic_auth tx auth user password =
     (if \<not> prefix ''Basic '' auth then False
      else (case Option.bind (b64_decode (drop 6 auth)) (tx_dec tx) of
              None \<Rightarrow> False
            | Some decoded \<Rightarrow>
                let expected = user @ '':'' @ password
                in ascii decoded \<and> ascii expected \<and> decoded = expected))"

definition check_bearer_token :: "string \<Rightarrow> string \<Rightarrow> bool" where
  "check_bearer_token auth expected \<longleftrightarrow> prefix ''Bearer '' auth \<and> drop 7 auth = expected"

definition extract_bearer_token :: "string \<Rightarrow> string" where
  "extract_bearer_token auth =
     (if prefix ''bearer '' (map ascii_lower auth) then py_strip (drop 7 auth) else [])"

text \<open>The headers of http.server: every value of a name, in order.\<close>

definition request_headers_safe :: "(string \<Rightarrow> string list) \<Rightarrow> bool" where
  "request_headers_safe get_all \<longleftrightarrow>
     get_all ''Transfer-Encoding'' = [] \<and>
     \<not> 1 < length (filter (\<lambda>v. py_strip v \<noteq> []) (get_all ''Content-Length''))"

definition cookie_value :: "string \<Rightarrow> string \<Rightarrow> string" where
  "cookie_value header name =
     (case find (prefix (name @ ''='')) (map py_strip (split_all (CHR '';'') header)) of
        None \<Rightarrow> []
      | Some part \<Rightarrow> (case split_first (CHR ''='') part of Some (_, v) \<Rightarrow> py_strip v | None \<Rightarrow> []))"

text \<open>A comma-separated setting: its stripped entries that are not empty.\<close>

definition comma_list :: "string \<Rightarrow> string list" where
  "comma_list s = filter (\<lambda>p. p \<noteq> []) (map py_strip (split_all (CHR '','') s))"

text \<open>
  \<open>in_network peer entry\<close> is membership of an address in a CIDR range of the module ipaddress, false
  where it raises ValueError.
\<close>

definition peer_is_trusted_proxy :: "(string \<Rightarrow> string \<Rightarrow> bool) \<Rightarrow> string \<Rightarrow> string list \<Rightarrow> bool" where
  "peer_is_trusted_proxy in_network peer proxies \<longleftrightarrow>
     peer \<in> set proxies \<or> list_ex (\<lambda>e. CHR ''/'' \<in> set e \<and> in_network peer e) proxies"

definition environ_get :: "login_env \<Rightarrow> string \<Rightarrow> string \<Rightarrow> string" where
  "environ_get env name dflt = (case l_environ env name of None \<Rightarrow> dflt | Some v \<Rightarrow> v)"

definition client_ip_from :: "login_env \<Rightarrow> (string \<Rightarrow> string \<Rightarrow> bool) \<Rightarrow> string \<Rightarrow> string \<Rightarrow> string" where
  "client_ip_from env in_network forwarded peer =
     (if env_flag (l_environ env) ''TRUSTED_PROXY'' ''false'' \<and> peer \<noteq> [] then
        if \<not> peer_is_trusted_proxy in_network peer
               ([''127.0.0.1'', ''::1'', ''localhost''] @ comma_list (environ_get env ''TRUSTED_PROXY_IPS'' [])) then peer
        else (case rev (comma_list forwarded) of hop # _ \<Rightarrow> hop | [] \<Rightarrow> peer)
      else peer)"

section \<open>Base64 reads back\<close>

lemma b64_chars:
  "n < 64 \<Longrightarrow> b64_val (b64_char n) = Some n \<and> b64_char n \<noteq> CHR ''='' \<and> b64_char n \<noteq> CHR ''-'' \<and>
     b64_char n \<noteq> CHR ''_'' \<and> of_char (b64_char n) < (128 :: nat)"
proof -
  assume "n < 64"
  moreover have "list_all (\<lambda>n. b64_val (b64_char n) = Some n \<and> b64_char n \<noteq> CHR ''='' \<and>
      b64_char n \<noteq> CHR ''-'' \<and> b64_char n \<noteq> CHR ''_'' \<and> of_char (b64_char n) < (128 :: nat)) [0..<64]"
    by code_simp
  ultimately show ?thesis by (simp add: list_all_iff)
qed

lemma b64_bits:
  "of_char a div 4 < (64 :: nat)" "of_char a mod 4 * 16 < (64 :: nat)"
  "of_char a mod 4 * 16 + of_char b div 16 < (64 :: nat)" "of_char b mod 16 * 4 < (64 :: nat)"
  "of_char b mod 16 * 4 + of_char c div 64 < (64 :: nat)" "of_char c mod 64 < (64 :: nat)"
proof -
  have "of_char x < (256 :: nat)" for x :: char by simp
  from this [of a] this [of b] this [of c]
  show "of_char a div 4 < (64 :: nat)" "of_char a mod 4 * 16 < (64 :: nat)"
    "of_char a mod 4 * 16 + of_char b div 16 < (64 :: nat)" "of_char b mod 16 * 4 < (64 :: nat)"
    "of_char b mod 16 * 4 + of_char c div 64 < (64 :: nat)" "of_char c mod 64 < (64 :: nat)"
    by linarith+
qed

lemma b64_scan_char:
  "n < 64 \<Longrightarrow> b64_scan 0 left pads (b64_char n # s) = b64_scan 1 n 0 s"
  "n < 64 \<Longrightarrow> b64_scan 1 left pads (b64_char n # s) =
     map_option ((#) (char_of (left * 4 + n div 16))) (b64_scan 2 (n mod 16) 0 s)"
  "n < 64 \<Longrightarrow> b64_scan 2 left pads (b64_char n # s) =
     map_option ((#) (char_of (left * 16 + n div 4))) (b64_scan 3 (n mod 4) 0 s)"
  "n < 64 \<Longrightarrow> b64_scan 3 left pads (b64_char n # s) =
     map_option ((#) (char_of (left * 64 + n))) (b64_scan 0 0 0 s)"
  using b64_chars [of n] by simp_all

lemma low_bits: "z < k \<Longrightarrow> (m * k + z) div k = m \<and> (m * k + z) mod k = (z :: nat)"
  by simp

lemma b64_group:
  "char_of (of_char a div 4 * 4 + (of_char a mod 4 * 16) div 16 :: nat) = a"
  "char_of (of_char a div 4 * 4 + (of_char a mod 4 * 16 + of_char b div 16) div 16 :: nat) = a"
  "char_of ((of_char a mod 4 * 16 + of_char b div 16) mod 16 * 16 + (of_char b mod 16 * 4) div 4 :: nat) = b"
  "char_of ((of_char a mod 4 * 16 + of_char b div 16) mod 16 * 16 + (of_char b mod 16 * 4 + of_char c div 64) div 4 :: nat) = b"
  "char_of ((of_char b mod 16 * 4 + of_char c div 64) mod 4 * 64 + of_char c mod 64 :: nat) = c"
proof -
  have l: "of_char x < (256 :: nat)" for x :: char by simp
  have "of_char b div 16 < (16 :: nat)" using l [of b] by linarith
  note b = low_bits [OF this, of "of_char a mod 4"]
  have "of_char c div 64 < (4 :: nat)" using l [of c] by linarith
  note c = low_bits [OF this, of "of_char b mod 16"]
  show "char_of (of_char a div 4 * 4 + (of_char a mod 4 * 16) div 16 :: nat) = a"
    by (simp del: mult_div_mod_eq)
  show "char_of (of_char a div 4 * 4 + (of_char a mod 4 * 16 + of_char b div 16) div 16 :: nat) = a"
    by (simp only: b) simp
  show "char_of ((of_char a mod 4 * 16 + of_char b div 16) mod 16 * 16 + (of_char b mod 16 * 4) div 4 :: nat) = b"
    by (simp only: b) simp
  show "char_of ((of_char a mod 4 * 16 + of_char b div 16) mod 16 * 16 + (of_char b mod 16 * 4 + of_char c div 64) div 4 :: nat) = b"
    by (simp only: b c) simp
  show "char_of ((of_char b mod 16 * 4 + of_char c div 64) mod 4 * 64 + of_char c mod 64 :: nat) = c"
    by (simp only: c) simp
qed

lemma b64_scan_pad: "b64_scan 2 left 0 ''=='' = Some []" "b64_scan 3 left 0 ''='' = Some []"
  by simp_all

lemma b64_scan_encode: "b64_scan 0 0 0 (b64_encode s) = Some s"
  by (induction s rule: b64_encode.induct)
    (simp_all add: b64_scan_char b64_bits b64_group [simplified] b64_scan_pad del: b64_scan.simps(2) One_nat_def)

lemma b64_encode_chars: "set (b64_encode s) \<subseteq> insert (CHR ''='') (b64_char ` {..<64})"
  by (induction s rule: b64_encode.induct) (auto intro!: imageI simp: b64_bits)

lemma b64_decode_encode: "b64_decode (b64_encode s) = Some s"
proof -
  have "of_char c < (128 :: nat)" if "c \<in> set (b64_encode s)" for c
    using subsetD [OF b64_encode_chars that] b64_chars by auto
  then show ?thesis by (simp add: b64_decode_def ascii_def list_all_iff b64_scan_encode)
qed

lemma url_std: "c \<noteq> CHR ''-'' \<Longrightarrow> c \<noteq> CHR ''_'' \<Longrightarrow> std_char (url_char c) = c"
  by (auto simp: std_char_def url_char_def)

text \<open>The encoded text without its padding, and how much padding there was.\<close>

lemma b64_encode_padding:
  "\<exists>t k. b64_encode s = t @ replicate k (CHR ''='') \<and> k = nat (- int (length t) mod 4) \<and>
     set t \<subseteq> b64_char ` {..<64}"
proof (induction s rule: b64_encode.induct)
  case 1
  show ?case by (rule exI [of _ "[]"]) simp
next
  case (2 a)
  show ?case
    by (rule exI [of _ "[b64_char (of_char a div 4), b64_char (of_char a mod 4 * 16)]"]) (auto intro!: imageI simp: b64_bits numeral_2_eq_2)
next
  case (3 a b)
  show ?case
    by (rule exI [of _ "[b64_char (of_char a div 4), b64_char (of_char a mod 4 * 16 + of_char b div 16),
          b64_char (of_char b mod 16 * 4)]"]) (auto intro!: imageI simp: b64_bits)
next
  case (4 a b c s)
  then obtain t k where t: "b64_encode s = t @ replicate k (CHR ''='')" "k = nat (- int (length t) mod 4)"
    "set t \<subseteq> b64_char ` {..<64}" by blast
  let ?g = "[b64_char (of_char a div 4), b64_char (of_char a mod 4 * 16 + of_char b div 16),
      b64_char (of_char b mod 16 * 4 + of_char c div 64), b64_char (of_char c mod 64)]"
  have "- int (length (?g @ t)) mod 4 = - int (length t) mod 4" by simp presburger
  then show ?case
    by (intro exI [of _ "?g @ t"] exI [of _ k]) (use t in \<open>auto intro!: imageI simp: b64_bits\<close>)
qed

lemma b64url_decode_encode: "b64url_decode (b64url_encode s) = Some s"
proof -
  obtain t k where t: "b64_encode s = t @ replicate k (CHR ''='')" "k = nat (- int (length t) mod 4)"
    "set t \<subseteq> b64_char ` {..<64}" using b64_encode_padding by blast
  have ne: "c \<noteq> CHR ''='' \<and> url_char c \<noteq> CHR ''='' \<and> std_char (url_char c) = c" if "c \<in> set t" for c
  proof -
    from that t(3) obtain n where n: "n < 64" "c = b64_char n" by auto
    with b64_chars [of n] show ?thesis by (auto simp: url_std) (simp add: url_char_def split: if_splits)
  qed
  have "b64url_encode s = map url_char t"
  proof -
    have "map url_char (b64_encode s) = map url_char t @ replicate k (CHR ''='')"
      by (simp add: t(1) map_replicate url_char_def)
    moreover have "dropWhile (\<lambda>c. c = CHR ''='') (replicate k (CHR ''='') @ rev (map url_char t)) = rev (map url_char t)"
    proof -
      have "dropWhile (\<lambda>c. c = CHR ''='') (rev (map url_char t)) = rev (map url_char t)"
        using ne by (cases "rev (map url_char t)") (auto simp: rev_map Cons_eq_map_conv)
      then show ?thesis by (induction k) simp_all
    qed
    ultimately show ?thesis by (simp add: b64url_encode_def)
  qed
  moreover have "map std_char (map url_char t) = t" using ne by (auto intro: map_idI)
  ultimately have "b64url_decode (b64url_encode s) = b64_decode (b64_encode s)"
    using t(1,2) by (simp add: b64url_decode_def map_replicate std_char_def)
  then show ?thesis by (simp add: b64_decode_encode)
qed

section \<open>What Basic authentication accepts\<close>

lemma check_basic_auth_own:
  assumes "text_io_ok tx"
  shows "check_basic_auth tx (''Basic '' @ b64_encode (tx_enc tx (user @ '':'' @ password))) user' password' \<longleftrightarrow>
    user @ '':'' @ password = user' @ '':'' @ password' \<and> ascii (user @ '':'' @ password)"
  using assms by (auto simp: check_basic_auth_def b64_decode_encode text_io_ok_def Let_def)

end
