(* ===== verification/OperatorStore.thy ===== *)
theory OperatorStore
  imports Credentials
begin

text \<open>
  The operator accounts of security/operator_users.py: a JSON file of records with password hash,
  role and a disabled flag, written as a whole.  Records of a file that was edited by hand need not be
  dictionaries; the operations raise where the code does.  Changes mark the operator's sessions
  revoked in the shared state.
\<close>

section \<open>Roles\<close>

definition role_permissions :: "(string \<times> string list) list" where
  "role_permissions =
     [(''admin'', [''admin:*'']), (''operator'', [''admin_sessions'', ''admin_audit'']), (''viewer'', [])]"

definition admin_permissions :: "string list" where
  "admin_permissions = [''admin_users'', ''admin_config'', ''admin_audit'', ''admin_sessions'']"

text \<open>A value used as a dictionary key: lists and dictionaries raise TypeError (\<open>None\<close>).\<close>

fun hashable :: "pyval \<Rightarrow> bool" where
  "hashable (PList _) = False"
| "hashable (PDict _) = False"
| "hashable _ = True"

definition permissions_for :: "pyval \<Rightarrow> string list option" where
  "permissions_for role =
     (if \<not> hashable role then None
      else
        let perms = (case role of PStr r \<Rightarrow> py_get r [] role_permissions | _ \<Rightarrow> [])
        in Some (sort (remdups (if ''admin:*'' \<in> set perms then perms @ admin_permissions else perms))))"

definition known_role :: "string \<Rightarrow> bool" where
  "known_role role \<longleftrightarrow> role \<in> fst ` set role_permissions"

section \<open>The store\<close>

type_synonym accounts = "(string \<times> pyval) list"

text \<open>
  What one call finds: the process, the derivation functions, the salt of a new hash, the hash of a
  random secret for unknown users, whether the file can be replaced, and the text of the exception it
  raises when it cannot.
\<close>

record op_call =
  oc_env :: login_env
  oc_kdf :: kdf
  oc_salt :: string
  oc_dummy :: string
  oc_writes :: bool
  oc_error :: string

text \<open>The text of the file (\<open>None\<close>: absent or unreadable) and the shared state.\<close>

record 's op_state =
  os_file :: "string option"
  os_state :: 's

definition load_accounts :: "op_call \<Rightarrow> string option \<Rightarrow> accounts" where
  "load_accounts oc file =
     (case file of
        None \<Rightarrow> []
      | Some t \<Rightarrow> (case json_loads (l_fl (oc_env oc)) t of Some (PDict d) \<Rightarrow> d | _ \<Rightarrow> []))"

text \<open>\<open>None\<close>: OSError.\<close>

definition save_accounts :: "op_call \<Rightarrow> accounts \<Rightarrow> string option option" where
  "save_accounts oc d =
     (if oc_writes oc then Some (Some (json_dumps (l_fl (oc_env oc)) Spaced (PDict d))) else None)"

definition hash_password :: "op_call \<Rightarrow> string \<Rightarrow> string" where
  "hash_password oc password = kd_hash (oc_kdf oc) password (oc_salt oc)"

text \<open>\<open>isalnum()\<close> on the characters below 256.\<close>

definition py_alnum :: "char \<Rightarrow> bool" where
  "py_alnum c \<longleftrightarrow>
     (let n = of_char c :: nat
      in 48 \<le> n \<and> n \<le> 57 \<or> 65 \<le> n \<and> n \<le> 90 \<or> 97 \<le> n \<and> n \<le> 122 \<or>
         n \<in> {170, 178, 179, 181, 185, 186, 188, 189, 190} \<or> 192 \<le> n \<and> n \<noteq> 215 \<and> n \<noteq> 247)"

definition valid_username :: "string \<Rightarrow> bool" where
  "valid_username u \<longleftrightarrow>
     1 \<le> length u \<and> length u \<le> 64 \<and> list_all (\<lambda>c. py_alnum c \<or> c \<in> set ''._-@'') u"

datatype account_error = BadUsername | BadRole | EmptyPassword | AlreadyExists | WriteFailed

definition new_account :: "op_call \<Rightarrow> string \<Rightarrow> string \<Rightarrow> pyval" where
  "new_account oc password role =
     PDict [(''password_hash'', PStr (hash_password oc password)), (''role'', PStr role),
            (''disabled'', PBool False), (''created_at'', PInt (l_secs (oc_env oc)))]"

definition add_user ::
    "op_call \<Rightarrow> string \<Rightarrow> string \<Rightarrow> string \<Rightarrow> string option \<Rightarrow> account_error + string option" where
  "add_user oc username password role file =
     (if \<not> valid_username username then Inl BadUsername
      else if \<not> known_role role then Inl BadRole
      else if password = [] then Inl EmptyPassword
      else
        let d = load_accounts oc file
        in if map_of d username \<noteq> None then Inl AlreadyExists
           else (case save_accounts oc (AList.update username (new_account oc password role) d) of
                   None \<Rightarrow> Inl WriteFailed | Some file \<Rightarrow> Inr file))"

definition remove_user :: "op_call \<Rightarrow> string \<Rightarrow> string option \<Rightarrow> bool outcome \<times> string option" where
  "remove_user oc username file =
     (let d = load_accounts oc file
      in if map_of d username = None then (Returned False, file)
         else (case save_accounts oc (AList.delete username d) of
                 None \<Rightarrow> (Raised, file) | Some file \<Rightarrow> (Returned True, file)))"

section \<open>Changes\<close>

abbreviation ns_revoked_users :: string where "ns_revoked_users \<equiv> ''op_revoked_users''"

text \<open>A mark that is never refused: an outage is ignored.\<close>

definition mark_sessions_revoked :: "'s backend \<Rightarrow> login_env \<Rightarrow> string \<Rightarrow> 's \<Rightarrow> 's" where
  "mark_sessions_revoked be env username s =
     (if l_up env
      then b_set_ttl be (l_now env) ns_revoked_users username (PStr (show_float (l_fl env) (l_now env)))
             (86400 * 30) s
      else s)"

text \<open>\<open>data[username][field] = value\<close>, save, mark; a record that is no dictionary raises.\<close>

definition set_field ::
    "'s backend \<Rightarrow> op_call \<Rightarrow> string \<Rightarrow> string \<Rightarrow> pyval \<Rightarrow> 's op_state \<Rightarrow> bool outcome \<times> 's op_state"
where
  "set_field be oc username field v y =
     (let d = load_accounts oc (os_file y)
      in (case map_of d username of
            None \<Rightarrow> (Returned False, y)
          | Some (PDict rec) \<Rightarrow>
              (case save_accounts oc (AList.update username (PDict (AList.update field v rec)) d) of
                 None \<Rightarrow> (Raised, y)
               | Some file \<Rightarrow>
                   (Returned True,
                    y\<lparr>os_file := file, os_state := mark_sessions_revoked be (oc_env oc) username (os_state y)\<rparr>))
          | Some _ \<Rightarrow> (Raised, y)))"

definition set_password ::
    "'s backend \<Rightarrow> op_call \<Rightarrow> string \<Rightarrow> string \<Rightarrow> 's op_state \<Rightarrow> bool outcome \<times> 's op_state" where
  "set_password be oc username password =
     set_field be oc username ''password_hash'' (PStr (hash_password oc password))"

definition set_role ::
    "'s backend \<Rightarrow> op_call \<Rightarrow> string \<Rightarrow> string \<Rightarrow> 's op_state \<Rightarrow> bool outcome \<times> 's op_state" where
  "set_role be oc username role y =
     (if \<not> known_role role then (Returned False, y) else set_field be oc username ''role'' (PStr role) y)"

definition set_disabled ::
    "'s backend \<Rightarrow> op_call \<Rightarrow> string \<Rightarrow> bool \<Rightarrow> 's op_state \<Rightarrow> bool outcome \<times> 's op_state" where
  "set_disabled be oc username disabled = set_field be oc username ''disabled'' (PBool disabled)"

section \<open>Reading and verifying\<close>

text \<open>\<open>rec.get(field, dflt)\<close>; AttributeError (\<open>None\<close>) unless the record is a dictionary.\<close>

definition rec_get :: "pyval \<Rightarrow> string \<Rightarrow> pyval \<Rightarrow> pyval option" where
  "rec_get rec field dflt = (case rec of PDict d \<Rightarrow> Some (py_get field dflt d) | _ \<Rightarrow> None)"

record account_info =
  ai_username :: string
  ai_role :: pyval
  ai_disabled :: bool
  ai_created :: pyval

definition list_users :: "op_call \<Rightarrow> string option \<Rightarrow> account_info list option" where
  "list_users oc file =
     those (map (\<lambda>(name, rec).
         (case rec of
            PDict d \<Rightarrow> Some \<lparr> ai_username = name, ai_role = py_get ''role'' (PStr ''viewer'') d,
                            ai_disabled = truthy (py_get ''disabled'' PNone d),
                            ai_created = py_get ''created_at'' PNone d \<rparr>
          | _ \<Rightarrow> None))
       (sort_key fst (load_accounts oc file)))"

record operator =
  op_username :: string
  op_role :: pyval
  op_permissions :: "string list"

text \<open>The stored hash of a record, or the hash no password is known for; \<open>None\<close> raises.\<close>

definition stored_hash :: "op_call \<Rightarrow> pyval option \<Rightarrow> string option" where
  "stored_hash oc rec =
     (let r = (case rec of None \<Rightarrow> PDict [] | Some r \<Rightarrow> if truthy r then r else PDict [])
      in case rec_get r ''password_hash'' PNone of
           None \<Rightarrow> None
         | Some h \<Rightarrow> if \<not> truthy h then Some (oc_dummy oc) else (case h of PStr t \<Rightarrow> Some t | _ \<Rightarrow> None))"

text \<open>After a successful login: a weaker hash is replaced while the password is at hand.\<close>

definition rehash ::
    "op_call \<Rightarrow> string \<Rightarrow> string \<Rightarrow> string \<Rightarrow> string option \<Rightarrow> string option" where
  "rehash oc username password stored file =
     (if \<not> prefix ''$argon2'' stored \<or> kd_stale (oc_kdf oc) stored then
        let d = load_accounts oc file
        in (case map_of d username of
              Some (PDict rec) \<Rightarrow>
                (case save_accounts oc (AList.update username
                    (PDict (AList.update ''password_hash'' (PStr (hash_password oc password)) rec)) d) of
                   None \<Rightarrow> file | Some file \<Rightarrow> file)
            | _ \<Rightarrow> file)
      else file)"

definition verify_operator ::
    "op_call \<Rightarrow> string \<Rightarrow> string \<Rightarrow> string option \<Rightarrow> operator option outcome \<times> string option" where
  "verify_operator oc username password file =
     (let rec = map_of (load_accounts oc file) username
      in (case stored_hash oc rec of
            None \<Rightarrow> (Raised, file)
          | Some stored \<Rightarrow>
              if \<not> verify_password (oc_kdf oc) password stored \<or> rec = None \<or> rec = Some PNone
              then (Returned None, file)
              else (case the rec of
                      PDict d \<Rightarrow>
                        if truthy (py_get ''disabled'' PNone d) then (Returned None, file)
                        else
                          let role = py_get ''role'' (PStr ''viewer'') d;
                              file = rehash oc username password stored file
                          in (case permissions_for role of
                                None \<Rightarrow> (Raised, file)
                              | Some perms \<Rightarrow>
                                  (Returned (Some \<lparr> op_username = username, op_role = role,
                                                    op_permissions = perms \<rparr>), file))
                    | _ \<Rightarrow> (Raised, file))))"

text \<open>An operator who is not stored has every permission: the built-in one.\<close>

definition get_permissions :: "op_call \<Rightarrow> string \<Rightarrow> string option \<Rightarrow> string list option" where
  "get_permissions oc username file =
     (case map_of (load_accounts oc file) username of
        None \<Rightarrow> permissions_for (PStr ''admin'')
      | Some PNone \<Rightarrow> permissions_for (PStr ''admin'')
      | Some (PDict d) \<Rightarrow>
          if truthy (py_get ''disabled'' PNone d) then Some []
          else permissions_for (py_get ''role'' (PStr ''viewer'') d)
      | Some _ \<Rightarrow> None)"

definition has_operator_permission :: "op_call \<Rightarrow> string \<Rightarrow> string \<Rightarrow> string option \<Rightarrow> bool option" where
  "has_operator_permission oc username permission file =
     map_option (\<lambda>ps. permission \<in> set ps) (get_permissions oc username file)"

end
