(* ===== verification/PortalAuth.thy ===== *)
theory PortalAuth
  imports OperatorStore RateLimit
begin

text \<open>
  The credential checks of security/http_auth.py that the services share: the portal's Basic login
  against the operator store and the configured administrator, the terminal's and the health
  endpoints' checks, all feeding the rate limiter.  An outage of the shared state makes the limiter
  raise.
\<close>

text \<open>
  One request as the checks see it: the process and store, UTF-8, the persisted generated
  credentials, the limiter, and the random part of an attempt record.
\<close>

record http_call =
  hc_op :: op_call
  hc_tx :: text_io
  hc_generated :: "(string \<times> string) list"
  hc_limiter :: limiter
  hc_rnd :: string

abbreviation hc_env :: "http_call \<Rightarrow> login_env" where "hc_env hc \<equiv> oc_env (hc_op hc)"

section \<open>The limiter\<close>

definition lim_locked :: "'s backend \<Rightarrow> login_env \<Rightarrow> string \<Rightarrow> 's \<Rightarrow> (bool \<times> 's) option" where
  "lim_locked be env key s = (if l_up env then is_locked be (l_now env) key s else None)"

definition lim_failure :: "'s backend \<Rightarrow> http_call \<Rightarrow> string \<Rightarrow> 's \<Rightarrow> 's option" where
  "lim_failure be hc key s =
     (if l_up (hc_env hc)
      then Some (record_failure be (l_fl (hc_env hc)) (hc_limiter hc) (l_now (hc_env hc)) (hc_rnd hc) key s)
      else None)"

definition lim_success :: "'s backend \<Rightarrow> http_call \<Rightarrow> string \<Rightarrow> 's \<Rightarrow> 's option" where
  "lim_success be hc key s =
     (if l_up (hc_env hc) then Some (record_success be (l_now (hc_env hc)) key s) else None)"

text \<open>The first locked key of a list ends the search.\<close>

fun any_locked :: "'s backend \<Rightarrow> login_env \<Rightarrow> string list \<Rightarrow> 's \<Rightarrow> (bool \<times> 's) option" where
  "any_locked be env [] s = Some (False, s)"
| "any_locked be env (k # ks) s =
     (case lim_locked be env k s of
        None \<Rightarrow> None
      | Some (True, s) \<Rightarrow> Some (True, s)
      | Some (False, s) \<Rightarrow> any_locked be env ks s)"

definition basic_locked :: "'s backend \<Rightarrow> login_env \<Rightarrow> string \<Rightarrow> 's \<Rightarrow> (bool \<times> 's) option" where
  "basic_locked be env ip s = any_locked be env [ip, ''ip:'' @ ip] s"

text \<open>One outcome of an attempt, when there is an address to count it for.\<close>

definition lim_outcome ::
    "'s backend \<Rightarrow> http_call \<Rightarrow> string \<Rightarrow> bool \<Rightarrow> bool \<Rightarrow> 's \<Rightarrow> 's option" where
  "lim_outcome be hc ip ok presented s =
     (if ip = [] then Some s
      else if ok then lim_success be hc ip s
      else if presented then lim_failure be hc ip s
      else Some s)"

section \<open>The portal\<close>

definition generated_credential :: "http_call \<Rightarrow> string \<Rightarrow> string" where
  "generated_credential hc name = py_get name [] (hc_generated hc)"

definition landing_password :: "http_call \<Rightarrow> string" where
  "landing_password hc =
     (let p = environ_get (hc_env hc) ''LANDING_PASSWORD'' []
      in if p \<noteq> [] then p else generated_credential hc ''LANDING_PASSWORD'')"

text \<open>
  A check between a look at the limiter and the count of its outcome; \<open>ip\<close> is empty when the caller
  has no address.
\<close>

definition limited ::
    "'s backend \<Rightarrow> http_call \<Rightarrow> string \<Rightarrow> bool \<Rightarrow> bool \<Rightarrow> 's \<Rightarrow> bool outcome \<times> 's" where
  "limited be hc ip ok presented s =
     (case (if ip = [] then Some (False, s) else basic_locked be (hc_env hc) ip s) of
        None \<Rightarrow> (Raised, s)
      | Some (True, s) \<Rightarrow> (Returned False, s)
      | Some (False, s) \<Rightarrow>
          (case lim_outcome be hc ip ok presented s of
             None \<Rightarrow> (Raised, s) | Some s \<Rightarrow> (Returned ok, s)))"

definition check_landing_auth ::
    "'s backend \<Rightarrow> http_call \<Rightarrow> string \<Rightarrow> string \<Rightarrow> 's \<Rightarrow> bool outcome \<times> 's" where
  "check_landing_auth be hc auth ip s =
     (let password = landing_password hc
      in if password = [] then (Returned False, s)
         else limited be hc ip (check_basic_auth (hc_tx hc) auth ''admin'' password) (py_strip auth \<noteq> []) s)"

text \<open>
  \<open>None\<close>: the user is not in the store, or something was raised, and the caller goes on to the
  configured administrator.
\<close>

definition operator_store_auth ::
    "'s backend \<Rightarrow> http_call \<Rightarrow> string \<Rightarrow> string \<Rightarrow> string \<Rightarrow> 's op_state \<Rightarrow>
     (bool \<times> operator option) option \<times> 's op_state"
where
  "operator_store_auth be hc username password ip y =
     (if map_of (load_accounts (hc_op hc) (os_file y)) username = None then (None, y)
      else (case verify_operator (hc_op hc) username password (os_file y) of
              (Raised, file) \<Rightarrow> (None, y\<lparr>os_file := file\<rparr>)
            | (Returned rec, file) \<Rightarrow>
                let y = y\<lparr>os_file := file\<rparr>
                in (case lim_outcome be hc ip (rec \<noteq> None) True (os_state y) of
                      None \<Rightarrow> (None, y)
                    | Some s \<Rightarrow> (Some (rec \<noteq> None, rec), y\<lparr>os_state := s\<rparr>))))"

definition built_in_admin :: operator where
  "built_in_admin = \<lparr> op_username = ''admin'', op_role = PStr ''admin'', op_permissions = [''admin:*''] \<rparr>"

text \<open>The user name and password of a Basic header, if it can be read.\<close>

definition basic_credentials :: "text_io \<Rightarrow> string \<Rightarrow> (string \<times> string) option" where
  "basic_credentials tx auth =
     (if \<not> prefix ''Basic '' auth then None
      else map_option (\<lambda>b. let t = tx_replace tx b
                           in case split_first (CHR '':'') t of Some p \<Rightarrow> p | None \<Rightarrow> (t, []))
             (b64_decode (drop 6 auth)))"

definition authenticate_landing ::
    "'s backend \<Rightarrow> http_call \<Rightarrow> string \<Rightarrow> string \<Rightarrow> 's op_state \<Rightarrow>
     (bool \<times> operator option) outcome \<times> 's op_state"
where
  "authenticate_landing be hc auth ip y =
     (case (if ip = [] then Some (False, os_state y) else basic_locked be (hc_env hc) ip (os_state y)) of
        None \<Rightarrow> (Raised, y)
      | Some (True, s) \<Rightarrow> (Returned (False, None), y\<lparr>os_state := s\<rparr>)
      | Some (False, s) \<Rightarrow>
          (case (case basic_credentials (hc_tx hc) auth of
                   None \<Rightarrow> (None, y\<lparr>os_state := s\<rparr>)
                 | Some (username, password) \<Rightarrow>
                     if username = [] then (None, y\<lparr>os_state := s\<rparr>)
                     else operator_store_auth be hc username password ip (y\<lparr>os_state := s\<rparr>)) of
             (Some answer, y) \<Rightarrow> (Returned answer, y)
           | (None, y) \<Rightarrow>
               let ok = (landing_password hc \<noteq> [] \<and>
                         check_basic_auth (hc_tx hc) auth ''admin'' (landing_password hc))
               in (case lim_outcome be hc ip ok (py_strip auth \<noteq> []) (os_state y) of
                     None \<Rightarrow> (Raised, y)
                   | Some s \<Rightarrow>
                       (Returned (if ok then (True, Some built_in_admin) else (False, None)),
                        y\<lparr>os_state := s\<rparr>))))"

section \<open>The terminal and the health endpoints\<close>

text \<open>\<open>share\<close> is the share-link permission check of the token on the resource \<open>terminal\<close>.\<close>

definition check_terminal_auth ::
    "'s backend \<Rightarrow> http_call \<Rightarrow> string \<Rightarrow> (string \<Rightarrow> 's \<Rightarrow> bool outcome \<times> 's) \<Rightarrow> string \<Rightarrow> string \<Rightarrow> 's \<Rightarrow>
     bool outcome \<times> 's"
where
  "check_terminal_auth be hc default_user share auth ip s =
     (if prefix ''Bearer '' auth then
        (case (if ip = [] then Some (False, s) else basic_locked be (hc_env hc) ip s) of
           None \<Rightarrow> (Raised, s)
         | Some (True, s) \<Rightarrow> (Returned False, s)
         | Some (False, s) \<Rightarrow>
             (case share (py_strip (drop 7 auth)) s of
                (Raised, s) \<Rightarrow> (Raised, s)
              | (Returned ok, s) \<Rightarrow>
                  (case lim_outcome be hc ip ok True s of
                     None \<Rightarrow> (Raised, s) | Some s \<Rightarrow> (Returned ok, s))))
      else
        let user = environ_get (hc_env hc) ''TTYD_USERNAME'' default_user;
            p = environ_get (hc_env hc) ''TTYD_PASSWD'' [];
            password = (if p \<noteq> [] then p else generated_credential hc ''TTYD_PASSWD'')
        in if password = [] then (Returned False, s)
           else limited be hc ip (check_basic_auth (hc_tx hc) auth user password) True s)"

definition loopback_bind :: "string \<Rightarrow> bool" where
  "loopback_bind h \<longleftrightarrow> py_strip h \<in> {''127.0.0.1'', ''::1'', ''localhost'', ''127.0.0.0/8''}"

text \<open>\<open>is_loopback\<close> of the module ipaddress; \<open>None\<close>: not an address.\<close>

definition loopback_peer :: "(string \<Rightarrow> bool option) \<Rightarrow> string \<Rightarrow> bool" where
  "loopback_peer is_loopback ip =
     (case is_loopback (py_strip ip) of Some b \<Rightarrow> b | None \<Rightarrow> py_strip ip = ''localhost'')"

definition health_token :: "login_env \<Rightarrow> string option \<Rightarrow> string" where
  "health_token env scope =
     (let scoped = (case scope of
                      Some sc \<Rightarrow> if sc = ''audit'' then environ_get env ''AUDIT_AUTH_TOKEN'' []
                                 else if sc = ''metrics'' then environ_get env ''METRICS_AUTH_TOKEN'' [] else []
                    | None \<Rightarrow> [])
      in if scoped \<noteq> [] then scoped else environ_get env ''HEALTH_AUTH_TOKEN'' [])"

definition health_no_token_access ::
    "login_env \<Rightarrow> (string \<Rightarrow> bool option) \<Rightarrow> string option \<Rightarrow> string option \<Rightarrow> bool" where
  "health_no_token_access env is_loopback client_ip peer_ip =
     (let base = environ_get env ''BIND_HOST'' ''127.0.0.1'';
          ui_host = (let h = environ_get env ''USER_UI_HOST'' [] in if h \<noteq> [] then h else base);
          health_host = (let h = environ_get env ''HEALTH_WEB_HOST'' [] in if h \<noteq> [] then h else base)
      in if \<not> (loopback_bind ui_host \<and> loopback_bind health_host) then False
         else (case (case peer_ip of Some p \<Rightarrow> Some p | None \<Rightarrow> client_ip) of
                 None \<Rightarrow> True | Some p \<Rightarrow> loopback_peer is_loopback p))"

definition check_health_auth ::
    "'s backend \<Rightarrow> http_call \<Rightarrow> (string \<Rightarrow> bool option) \<Rightarrow> string \<Rightarrow> string option \<Rightarrow> string option \<Rightarrow>
     string option \<Rightarrow> 's \<Rightarrow> bool outcome \<times> 's"
where
  "check_health_auth be hc is_loopback auth client_ip peer_ip scope s =
     (let token = health_token (hc_env hc) scope
      in if token = [] then (Returned (health_no_token_access (hc_env hc) is_loopback client_ip peer_ip), s)
         else
           let ip = (case client_ip of Some (c # cs) \<Rightarrow> c # cs | _ \<Rightarrow> (case peer_ip of Some p \<Rightarrow> p | None \<Rightarrow> []))
           in limited be hc ip (check_bearer_token auth token) True s)"

end
