(* ===== verification/Jobs.thy ===== *)
theory Jobs
  imports StepUp
begin

text \<open>
  The job ledger of security/jobs.py with the operator tombstones, the queueing of destructive
  operations in engine/application/ops.py and their detached runner core/deferred_lifecycle.py.  What
  an executor does to the host is outside: the runner's step that ends a job takes its outcome.
  \<open>str\<close> of a value that is no text and \<open>repr\<close> of a text are parameters.
\<close>

abbreviation ns_jobs :: string where "ns_jobs \<equiv> ''ops_jobs''"
abbreviation ns_tombstones :: string where "ns_tombstones \<equiv> ''operator_tombstones''"
abbreviation ns_claims :: string where "ns_claims \<equiv> ''ops_job_claims''"
abbreviation ns_locks :: string where "ns_locks \<equiv> ''ops_job_locks''"
abbreviation job_ttl :: time where "job_ttl \<equiv> 24 * 3600"
abbreviation tombstone_ttl :: time where "tombstone_ttl \<equiv> 30 * 86400"
abbreviation claim_lease :: time where "claim_lease \<equiv> 3600"
abbreviation lock_lease :: time where "lock_lease \<equiv> 600"
abbreviation max_scan :: nat where "max_scan \<equiv> 500"

section \<open>The ledger\<close>

definition row_text :: "login_env \<Rightarrow> (string \<times> pyval) list \<Rightarrow> pyval" where
  "row_text env d = PStr (json_dumps (l_fl env) Spaced (PDict d))"

text \<open>\<open>text or None\<close>.\<close>

definition or_none :: "string \<Rightarrow> pyval" where
  "or_none t = (if t = [] then PNone else PStr t)"

text \<open>The ledger never blocks the operation: an outage is ignored.  \<open>jid\<close> is the random id.\<close>

definition job_start ::
    "'s backend \<Rightarrow> login_env \<Rightarrow> string \<Rightarrow> string \<Rightarrow> string \<Rightarrow> string \<Rightarrow> string \<Rightarrow> 's \<Rightarrow> string \<times> 's" where
  "job_start be env jid kind actor target detail s =
     (jid,
      if l_up env
      then b_set_ttl be (l_now env) ns_jobs jid (row_text env
             [(''id'', PStr jid), (''kind'', PStr kind), (''actor'', PStr actor), (''target'', PStr target),
              (''state'', PStr ''running''), (''started_at'', PFloat (l_now env)), (''finished_at'', PNone),
              (''detail'', PStr (take 256 detail)), (''error'', PNone)]) job_ttl s
      else s)"

definition put_fields :: "(string \<times> pyval) list \<Rightarrow> (string \<times> pyval) list \<Rightarrow> (string \<times> pyval) list" where
  "put_fields fs d = foldl (\<lambda>d kv. AList.update (fst kv) (snd kv) d) d fs"

definition update_job ::
    "'s backend \<Rightarrow> login_env \<Rightarrow> string \<Rightarrow> (string \<times> pyval) list \<Rightarrow> 's \<Rightarrow> 's" where
  "update_job be env jid fs s =
     (if \<not> l_up env then s
      else (case b_get be (l_now env) ns_jobs jid s of
              (PStr t, s) \<Rightarrow>
                (case json_loads (l_fl env) t of
                   Some (PDict d) \<Rightarrow> b_set_ttl be (l_now env) ns_jobs jid (row_text env (put_fields fs d)) job_ttl s
                 | _ \<Rightarrow> s)
            | (_, s) \<Rightarrow> s))"

definition job_finish :: "'s backend \<Rightarrow> login_env \<Rightarrow> string \<Rightarrow> string \<Rightarrow> 's \<Rightarrow> 's" where
  "job_finish be env jid detail =
     update_job be env jid [(''state'', PStr ''done''), (''finished_at'', PFloat (l_now env)),
       (''detail'', or_none (take 256 detail)), (''percent'', PInt 100)]"

definition job_fail :: "'s backend \<Rightarrow> login_env \<Rightarrow> string \<Rightarrow> string \<Rightarrow> 's \<Rightarrow> 's" where
  "job_fail be env jid err =
     update_job be env jid [(''state'', PStr ''failed''), (''finished_at'', PFloat (l_now env)),
       (''error'', PStr (take 256 err))]"

definition job_progress ::
    "'s backend \<Rightarrow> login_env \<Rightarrow> string \<Rightarrow> string \<Rightarrow> string \<Rightarrow> int option \<Rightarrow> 's \<Rightarrow> 's" where
  "job_progress be env jid phase detail percent =
     update_job be env jid ([(''state'', PStr ''running''), (''progress'', PStr (take 64 phase)),
       (''detail'', or_none (take 256 detail))] @
       (case percent of None \<Rightarrow> [] | Some n \<Rightarrow> [(''percent'', PInt (max 0 (min 100 n)))]))"

section \<open>Queued jobs\<close>

text \<open>The id of the persisted job, or the empty text when the ledger cannot be written.\<close>

definition job_enqueue ::
    "'s backend \<Rightarrow> login_env \<Rightarrow> string \<Rightarrow> string \<Rightarrow> string \<Rightarrow> string \<Rightarrow> (string \<times> pyval) list \<Rightarrow> 's \<Rightarrow>
     string \<times> 's"
where
  "job_enqueue be env jid kind actor target payload s =
     (if \<not> l_up env then ([], s)
      else (jid, b_set_ttl be (l_now env) ns_jobs jid (row_text env
             [(''id'', PStr jid), (''kind'', PStr kind), (''actor'', PStr actor), (''target'', PStr target),
              (''state'', PStr ''queued''), (''started_at'', PFloat (l_now env)), (''finished_at'', PNone),
              (''detail'', PNone), (''error'', PNone), (''payload'', PDict payload),
              (''claimed_by'', PNone), (''progress'', PNone)]) job_ttl s))"

definition job_claim :: "'s backend \<Rightarrow> login_env \<Rightarrow> string \<Rightarrow> string \<Rightarrow> 's \<Rightarrow> bool \<times> 's" where
  "job_claim be env jid worker s =
     (let worker = (if worker = [] then ''runner'' else worker)
      in if \<not> l_up env then (False, s)
         else (case b_set_if_absent be (l_now env) ns_claims jid (PStr worker) (Some claim_lease) s of
                 (False, s) \<Rightarrow> (False, s)
               | (True, s) \<Rightarrow>
                   (True, update_job be env jid [(''state'', PStr ''running''), (''claimed_by'', PStr worker)] s)))"

definition job_get :: "'s backend \<Rightarrow> login_env \<Rightarrow> string \<Rightarrow> 's \<Rightarrow> pyval option \<times> 's" where
  "job_get be env jid s =
     (if \<not> l_up env then (None, s)
      else (case b_get be (l_now env) ns_jobs jid s of
              (raw, s) \<Rightarrow>
                (case raw of
                   PStr t \<Rightarrow>
                     (case json_loads (l_fl env) t of Some PNone \<Rightarrow> None | v \<Rightarrow> v)
                 | _ \<Rightarrow> None, s)))"

definition job_lock :: "'s backend \<Rightarrow> login_env \<Rightarrow> string \<Rightarrow> string \<Rightarrow> 's \<Rightarrow> bool \<times> 's" where
  "job_lock be env name jid s =
     (if \<not> l_up env then (False, s)
      else b_set_if_absent be (l_now env) ns_locks name (PStr jid) (Some lock_lease) s)"

text \<open>Reading whose lock it is, and deleting the row, are two calls.\<close>

definition unlock_read :: "'s backend \<Rightarrow> login_env \<Rightarrow> string \<Rightarrow> string \<Rightarrow> 's \<Rightarrow> bool \<times> 's" where
  "unlock_read be env name jid s =
     (if \<not> l_up env then (False, s)
      else (case b_get be (l_now env) ns_locks name s of (v, s) \<Rightarrow> (v = PStr jid, s)))"

definition unlock_drop :: "'s backend \<Rightarrow> login_env \<Rightarrow> string \<Rightarrow> 's \<Rightarrow> 's" where
  "unlock_drop be env name s = (if l_up env then b_delete be ns_locks name s else s)"

definition job_unlock :: "'s backend \<Rightarrow> login_env \<Rightarrow> string \<Rightarrow> string \<Rightarrow> 's \<Rightarrow> 's" where
  "job_unlock be env name jid s =
     (case unlock_read be env name jid s of
        (True, s) \<Rightarrow> unlock_drop be env name s
      | (False, s) \<Rightarrow> s)"

text \<open>The readable rows among the given ones, in order.\<close>

definition read_rows :: "'s backend \<Rightarrow> login_env \<Rightarrow> string \<Rightarrow> string list \<Rightarrow> 's \<Rightarrow> pyval list \<times> 's" where
  "read_rows be env ns ks s =
     foldl (\<lambda>(out, s) k.
         (case b_get be (l_now env) ns k s of
            (PStr t, s) \<Rightarrow> (case json_loads (l_fl env) t of Some v \<Rightarrow> (out @ [v], s) | None \<Rightarrow> (out, s))
          | (_, s) \<Rightarrow> (out, s)))
       ([], s) ks"

text \<open>
  \<open>rows.sort(key=lambda j: j.get(field, 0), reverse=True)\<close>; an exception makes the listing empty: a row
  that is no dictionary, or times that cannot be compared.
\<close>

definition str_of :: "pyval \<Rightarrow> string option" where
  "str_of v = (case v of PStr t \<Rightarrow> Some t | _ \<Rightarrow> None)"

definition sort_desc :: "'k::linorder list \<Rightarrow> 'a list \<Rightarrow> 'a list" where
  "sort_desc ks xs = map snd (rev (sort_key fst (rev (zip ks xs))))"

definition newest_first :: "string \<Rightarrow> pyval list \<Rightarrow> pyval list" where
  "newest_first field rows =
     (case those (map (\<lambda>j. case j of PDict d \<Rightarrow> Some (py_get field (PInt 0) d) | _ \<Rightarrow> None) rows) of
        None \<Rightarrow> []
      | Some ks \<Rightarrow>
          if length ks \<le> 1 then rows
          else (case (those (map num_of ks), those (map str_of ks)) of
                  (Some ts, _) \<Rightarrow> sort_desc ts rows
                | (None, Some ts) \<Rightarrow> sort_desc ts rows
                | (None, None) \<Rightarrow> []))"

definition list_jobs :: "'s backend \<Rightarrow> login_env \<Rightarrow> nat \<Rightarrow> 's \<Rightarrow> pyval list \<times> 's" where
  "list_jobs be env limit s =
     (if \<not> l_up env then ([], s)
      else (case read_rows be env ns_jobs (take max_scan (b_list_keys be (l_now env) ns_jobs [] s)) s of
              (rows, s) \<Rightarrow> (take limit (newest_first ''started_at'' rows), s)))"

section \<open>Tombstones\<close>

text \<open>A record that is no dictionary leaves no tombstone.\<close>

definition tombstone_save :: "'s backend \<Rightarrow> login_env \<Rightarrow> string \<Rightarrow> pyval \<Rightarrow> 's \<Rightarrow> 's" where
  "tombstone_save be env username rec s =
     (case rec of
        PDict d \<Rightarrow>
          if l_up env
          then b_set_ttl be (l_now env) ns_tombstones username (row_text env
                 [(''username'', PStr username), (''role'', py_get ''role'' (PStr ''viewer'') d),
                  (''created_at'', py_get ''created_at'' PNone d), (''deleted_at'', PFloat (l_now env))])
                 tombstone_ttl s
          else s
      | _ \<Rightarrow> s)"

definition tombstone_get :: "'s backend \<Rightarrow> login_env \<Rightarrow> string \<Rightarrow> 's \<Rightarrow> pyval option \<times> 's" where
  "tombstone_get be env username s =
     (if \<not> l_up env then (None, s)
      else (case b_get be (l_now env) ns_tombstones username s of
              (raw, s) \<Rightarrow>
                (case raw of
                   PStr t \<Rightarrow> (case json_loads (l_fl env) t of Some PNone \<Rightarrow> None | v \<Rightarrow> v)
                 | _ \<Rightarrow> None, s)))"

definition tombstone_remove :: "'s backend \<Rightarrow> login_env \<Rightarrow> string \<Rightarrow> 's \<Rightarrow> 's" where
  "tombstone_remove be env username s = (if l_up env then b_delete be ns_tombstones username s else s)"

definition tombstones :: "'s backend \<Rightarrow> login_env \<Rightarrow> 's \<Rightarrow> pyval list \<times> 's" where
  "tombstones be env s =
     (if \<not> l_up env then ([], s)
      else (case read_rows be env ns_tombstones (b_list_keys be (l_now env) ns_tombstones [] s) s of
              (rows, s) \<Rightarrow> (newest_first ''deleted_at'' rows, s)))"

section \<open>Queueing a destructive operation\<close>

abbreviation destructive_lock :: string where "destructive_lock \<equiv> ''destructive''"

datatype use_case_error = ErrNotFound | ErrPermission | ErrConflict | ErrInvalid | ErrLastAdmin | ErrStepUp

record command_context =
  cc_transport :: string
  cc_username :: string
  cc_sid :: string

definition require_bound_step_up ::
    "'s backend \<Rightarrow> login_env \<Rightarrow> string \<Rightarrow> string \<Rightarrow> string \<Rightarrow> command_context \<Rightarrow> 's \<Rightarrow> bool \<times> 's" where
  "require_bound_step_up be env actor operation resource ctx s =
     (if cc_transport ctx \<noteq> ''api'' then (True, s)
      else consume_step_up be env (if cc_username ctx \<noteq> [] then cc_username ctx else actor)
             operation resource (cc_sid ctx) s)"

definition queue_destructive ::
    "'s backend \<Rightarrow> login_env \<Rightarrow> string \<Rightarrow> string \<Rightarrow> string \<Rightarrow> string \<Rightarrow> (string \<times> pyval) list \<Rightarrow> 's \<Rightarrow>
     (use_case_error + string) \<times> 's"
where
  "queue_destructive be env jid actor kind target payload s =
     (case job_enqueue be env jid kind actor target payload s of
        (j, s) \<Rightarrow>
          if j = [] then (Inl ErrInvalid, s)
          else (case job_lock be env destructive_lock j s of
                  (True, s) \<Rightarrow> (Inr j, s)
                | (False, s) \<Rightarrow>
                    (Inl ErrConflict, job_fail be env j ''another destructive operation is running'' s)))"

text \<open>\<open>spawned\<close> is the process id, or the message of the error that starting it raised.\<close>

definition spawn_runner ::
    "'s backend \<Rightarrow> login_env \<Rightarrow> string \<Rightarrow> string + int \<Rightarrow> 's \<Rightarrow> (use_case_error + int) \<times> 's" where
  "spawn_runner be env jid spawned s =
     (case spawned of
        Inr pid \<Rightarrow> (Inr pid, s)
      | Inl err \<Rightarrow> (Inl ErrInvalid, job_fail be env jid err (job_unlock be env destructive_lock jid s)))"

text \<open>The common shape of the four operations: grant, queue, spawn.\<close>

definition run_destructive ::
    "'s backend \<Rightarrow> login_env \<Rightarrow> command_context \<Rightarrow> string \<Rightarrow> string \<Rightarrow> string \<Rightarrow> string \<Rightarrow> string \<Rightarrow>
     (string \<times> pyval) list \<Rightarrow> string \<Rightarrow> string + int \<Rightarrow> 's \<Rightarrow> (use_case_error + string \<times> int) \<times> 's"
where
  "run_destructive be env ctx actor operation resource kind target payload jid spawned s =
     (case require_bound_step_up be env actor operation resource ctx s of
        (False, s) \<Rightarrow> (Inl ErrStepUp, s)
      | (True, s) \<Rightarrow>
          (case queue_destructive be env jid actor kind target payload s of
             (Inl e, s) \<Rightarrow> (Inl e, s)
           | (Inr j, s) \<Rightarrow>
               (case spawn_runner be env j spawned s of
                  (Inl e, s) \<Rightarrow> (Inl e, s)
                | (Inr pid, s) \<Rightarrow> (Inr (j, pid), s))))"

definition lifecycle_actions :: "string list" where
  "lifecycle_actions = [''start'', ''stop'', ''restart'']"

definition lifecycle_action ::
    "'s backend \<Rightarrow> login_env \<Rightarrow> command_context \<Rightarrow> string \<Rightarrow> string \<Rightarrow> string \<Rightarrow> string + int \<Rightarrow> 's \<Rightarrow>
     (use_case_error + string \<times> int) \<times> 's"
where
  "lifecycle_action be env ctx actor action jid spawned s =
     (let action = map ascii_lower action
      in if action \<notin> set lifecycle_actions then (Inl ErrInvalid, s)
         else run_destructive be env ctx actor ''lifecycle.action'' action ''lifecycle'' action
                [(''op'', PStr ''lifecycle.action''), (''action'', PStr action)] jid spawned s)"

text \<open>\<open>os.path.basename\<close> on POSIX.\<close>

definition basename :: "string \<Rightarrow> string" where
  "basename p = (case split_last (CHR ''/'') p of Some (_, b) \<Rightarrow> b | None \<Rightarrow> p)"

definition resolve_backup :: "string list \<Rightarrow> string \<Rightarrow> string option" where
  "resolve_backup paths name =
     (let wanted = basename (py_strip name) in find (\<lambda>p. basename p = wanted) paths)"

definition restore_backup ::
    "'s backend \<Rightarrow> login_env \<Rightarrow> string list \<Rightarrow> command_context \<Rightarrow> string \<Rightarrow> string \<Rightarrow> string \<Rightarrow> string + int \<Rightarrow>
     's \<Rightarrow> (use_case_error + string \<times> int) \<times> 's"
where
  "restore_backup be env paths ctx actor name jid spawned s =
     (case resolve_backup paths name of
        None \<Rightarrow> (Inl ErrNotFound, s)
      | Some path \<Rightarrow>
          let base = basename path
          in run_destructive be env ctx actor ''backup.restore'' base ''restore'' base
               [(''op'', PStr ''backup.restore''), (''path'', PStr path), (''name'', PStr base)] jid spawned s)"

definition upgrade_run ::
    "'s backend \<Rightarrow> login_env \<Rightarrow> command_context \<Rightarrow> string \<Rightarrow> string \<Rightarrow> string \<Rightarrow> string + int \<Rightarrow> 's \<Rightarrow>
     (use_case_error + string \<times> int) \<times> 's"
where
  "upgrade_run be env ctx actor source jid spawned s =
     (let source = py_strip source;
          target = (if source = [] then ''latest'' else source)
      in run_destructive be env ctx actor ''upgrade.run'' target ''upgrade'' target
           [(''op'', PStr ''upgrade.run''), (''source'', or_none source)] jid spawned s)"

definition upgrade_rollback ::
    "'s backend \<Rightarrow> login_env \<Rightarrow> command_context \<Rightarrow> string \<Rightarrow> string \<Rightarrow> string + int \<Rightarrow> 's \<Rightarrow>
     (use_case_error + string \<times> int) \<times> 's"
where
  "upgrade_rollback be env ctx actor jid spawned s =
     run_destructive be env ctx actor ''upgrade.rollback'' [] ''upgrade_rollback'' []
       [(''op'', PStr ''upgrade.rollback'')] jid spawned s"

section \<open>The detached runner\<close>

definition executors :: "string list" where
  "executors = [''lifecycle.action'', ''backup.restore'', ''upgrade.run'', ''upgrade.rollback'']"

datatype run_begun =
    RunExit int          \<comment> \<open>the process ends with this status\<close>
  | RunExec string       \<comment> \<open>the executor of this operation is called\<close>

text \<open>\<open>str(v)\<close> of other values than texts, and \<open>repr(t)\<close>.\<close>

record py_texts =
  py_str :: "pyval \<Rightarrow> string"
  py_repr :: "string \<Rightarrow> string"

text \<open>\<open>str(payload.get("op", ""))\<close> of \<open>job.get("payload") or {}\<close>; \<open>None\<close> is AttributeError.\<close>

definition job_op :: "py_texts \<Rightarrow> pyval \<Rightarrow> string option" where
  "job_op rp job =
     (case job of
        PDict d \<Rightarrow>
          (case py_or (py_get ''payload'' PNone d) (PDict []) of
             PDict p \<Rightarrow> Some (case py_get ''op'' (PStr []) p of PStr op \<Rightarrow> op | v \<Rightarrow> py_str rp v)
           | _ \<Rightarrow> None)
      | _ \<Rightarrow> None)"

definition run_begin ::
    "'s backend \<Rightarrow> py_texts \<Rightarrow> login_env \<Rightarrow> string \<Rightarrow> string \<Rightarrow> 's \<Rightarrow> run_begun \<times> 's" where
  "run_begin be rp env pid jid s =
     (case job_get be env jid s of
        (None, s) \<Rightarrow> (RunExit 2, job_unlock be env destructive_lock jid s)
      | (Some job, s) \<Rightarrow>
          (case job_claim be env jid (''pid-'' @ pid) s of
             (False, s) \<Rightarrow> (RunExit 2, job_unlock be env destructive_lock jid s)
           | (True, s) \<Rightarrow>
               (case job_op rp job of
                  None \<Rightarrow> (RunExit 1, s)
                | Some op \<Rightarrow>
                    if op \<notin> set executors
                    then (RunExit 2, job_unlock be env destructive_lock jid
                            (job_fail be env jid (''unknown op '' @ py_repr rp op) s))
                    else (RunExec op, job_progress be env jid ''claim'' (''pid='' @ pid) (Some 5) s))))"

text \<open>The executor raised with a message, or returned its verdict.\<close>

definition run_end ::
    "'s backend \<Rightarrow> login_env \<Rightarrow> string \<Rightarrow> string + bool \<times> string \<Rightarrow> 's \<Rightarrow> int \<times> 's" where
  "run_end be env jid res s =
     (case res of
        Inl exc \<Rightarrow> (1, job_unlock be env destructive_lock jid (job_fail be env jid (take 256 exc) s))
      | Inr (True, detail) \<Rightarrow> (0, job_unlock be env destructive_lock jid (job_finish be env jid detail s))
      | Inr (False, detail) \<Rightarrow> (1, job_unlock be env destructive_lock jid (job_fail be env jid detail s)))"

end
