(* ===== verification/OperatorCases.thy ===== *)
theory OperatorCases
  imports OperatorStore Jobs
begin

text \<open>
  The operator use cases of engine/application/operators.py: creating, changing, deleting and restoring
  accounts with the rule that the last viable administrator stays, and the end of the operator's
  sessions.  A use case returns its result, fails with a typed error, or raises; what it changed
  before it failed stays.
\<close>

type_synonym ('a, 's) use_case = "(use_case_error + 'a) outcome \<times> 's op_state"

definition uc_then :: "('a, 's) use_case \<Rightarrow> ('a \<Rightarrow> 's op_state \<Rightarrow> ('b, 's) use_case) \<Rightarrow> ('b, 's) use_case" where
  "uc_then m f =
     (case m of
        (Returned (Inr a), y) \<Rightarrow> f a y
      | (Returned (Inl e), y) \<Rightarrow> (Returned (Inl e), y)
      | (Raised, y) \<Rightarrow> (Raised, y))"

definition uc_fail :: "use_case_error \<Rightarrow> 's op_state \<Rightarrow> ('a, 's) use_case" where
  "uc_fail e y = (Returned (Inl e), y)"

definition uc_return :: "'a \<Rightarrow> 's op_state \<Rightarrow> ('a, 's) use_case" where
  "uc_return a y = (Returned (Inr a), y)"

section \<open>Administrators\<close>

text \<open>\<open>stores.env("LANDING_PASSWORD")\<close> is set.\<close>

definition landing_set :: "login_env \<Rightarrow> bool" where
  "landing_set env = (environ_get env ''LANDING_PASSWORD'' [] \<noteq> [])"

definition enabled_admin :: "(string \<times> pyval) list \<Rightarrow> bool" where
  "enabled_admin rec \<longleftrightarrow>
     \<not> truthy (py_get ''disabled'' PNone rec) \<and> py_get ''role'' PNone rec = PStr ''admin''"

text \<open>\<open>None\<close>: a record that is no dictionary.\<close>

definition viable_admin_count :: "op_call \<Rightarrow> string \<Rightarrow> string option \<Rightarrow> nat option" where
  "viable_admin_count oc excluding file =
     map_option (\<lambda>vs. (if excluding \<noteq> ''admin'' \<and> landing_set (oc_env oc) then 1 else 0) + length (filter id vs))
       (those (map (\<lambda>(name, rec).
            if name = excluding then Some False
            else (case rec of PDict d \<Rightarrow> Some (enabled_admin d) | _ \<Rightarrow> None))
          (load_accounts oc file)))"

definition is_admin :: "op_call \<Rightarrow> string \<Rightarrow> string option \<Rightarrow> bool option" where
  "is_admin oc username file =
     (case map_of (load_accounts oc file) username of
        None \<Rightarrow> Some False
      | Some PNone \<Rightarrow> Some False
      | Some (PDict d) \<Rightarrow> Some (py_get ''role'' PNone d = PStr ''admin'')
      | Some _ \<Rightarrow> None)"

text \<open>\<open>_is_admin(username) and viable_admin_count(excluding=username) == 0\<close>.\<close>

definition last_admin :: "op_call \<Rightarrow> string \<Rightarrow> string option \<Rightarrow> bool option" where
  "last_admin oc username file =
     (case is_admin oc username file of
        Some True \<Rightarrow> map_option (\<lambda>n. n = 0) (viable_admin_count oc username file)
      | b \<Rightarrow> b)"

abbreviation op_session_ttl :: int where "op_session_ttl \<equiv> 8 * 3600"

text \<open>An outage is an error here (\<open>None\<close>).\<close>

definition revoke_operator_sessions :: "'s backend \<Rightarrow> login_env \<Rightarrow> string \<Rightarrow> 's \<Rightarrow> 's option" where
  "revoke_operator_sessions be env username s =
     (if l_up env
      then Some (b_set_ttl be (l_now env) ns_revoked_users username
             (PStr (show_float (l_fl env) (l_now env))) (of_int op_session_ttl) s)
      else None)"

definition account_record :: "op_call \<Rightarrow> string \<Rightarrow> 's op_state \<Rightarrow> (pyval, 's) use_case" where
  "account_record oc username y =
     (case map_of (load_accounts oc (os_file y)) username of
        None \<Rightarrow> (Raised, y) | Some rec \<Rightarrow> uc_return rec y)"

section \<open>Creating\<close>

definition umbrella :: "string list \<Rightarrow> bool" where
  "umbrella perms \<longleftrightarrow> ''admin:*'' \<in> set perms"

definition create_operator ::
    "'s backend \<Rightarrow> op_call \<Rightarrow> string list \<Rightarrow> string \<Rightarrow> string \<Rightarrow> string \<Rightarrow> bool \<Rightarrow> 's op_state \<Rightarrow>
     (pyval, 's) use_case"
where
  "create_operator be oc perms username password role enabled y =
     (if \<not> known_role role then uc_fail ErrInvalid y
      else if role = ''admin'' \<and> \<not> umbrella perms then uc_fail ErrPermission y
      else (case add_user oc username password role (os_file y) of
              Inl AlreadyExists \<Rightarrow> uc_fail ErrConflict y
            | Inl WriteFailed \<Rightarrow> (Raised, y)
            | Inl _ \<Rightarrow> uc_fail ErrInvalid y
            | Inr file \<Rightarrow>
                let y = y\<lparr>os_file := file\<rparr>
                in if enabled then account_record oc username y
                   else (case set_disabled be oc username True y of
                           (Raised, y) \<Rightarrow> (Raised, y)
                         | (Returned _, y) \<Rightarrow> account_record oc username y)))"

section \<open>Changing\<close>

text \<open>A change of one field: refused when the store does not know the account.\<close>

definition applied :: "bool outcome \<times> 's op_state \<Rightarrow> (unit, 's) use_case" where
  "applied r =
     (case r of
        (Raised, y) \<Rightarrow> (Raised, y)
      | (Returned False, y) \<Rightarrow> uc_fail ErrInvalid y
      | (Returned True, y) \<Rightarrow> uc_return () y)"

text \<open>The rule about the last administrator, when the change would take one away.\<close>

definition keep_admin :: "op_call \<Rightarrow> bool \<Rightarrow> string \<Rightarrow> 's op_state \<Rightarrow> (unit, 's) use_case" where
  "keep_admin oc takes username y =
     (if \<not> takes then uc_return () y
      else (case last_admin oc username (os_file y) of
              None \<Rightarrow> (Raised, y)
            | Some True \<Rightarrow> uc_fail ErrLastAdmin y
            | Some False \<Rightarrow> uc_return () y))"

definition apply_role ::
    "'s backend \<Rightarrow> op_call \<Rightarrow> string list \<Rightarrow> string \<Rightarrow> string \<Rightarrow> 's op_state \<Rightarrow> (unit, 's) use_case" where
  "apply_role be oc perms username role y =
     (if \<not> known_role role then uc_fail ErrInvalid y
      else uc_then (keep_admin oc (role \<noteq> ''admin'') username y)
        (\<lambda>_ y. if role = ''admin'' \<and> \<not> umbrella perms then uc_fail ErrPermission y
                else applied (set_role be oc username role y)))"

definition apply_disabled ::
    "'s backend \<Rightarrow> op_call \<Rightarrow> string \<Rightarrow> bool \<Rightarrow> 's op_state \<Rightarrow> (unit, 's) use_case" where
  "apply_disabled be oc username disabled y =
     uc_then (keep_admin oc disabled username y) (\<lambda>_ y. applied (set_disabled be oc username disabled y))"

definition apply_password ::
    "'s backend \<Rightarrow> op_call \<Rightarrow> string \<Rightarrow> string \<Rightarrow> 's op_state \<Rightarrow> (unit, 's) use_case" where
  "apply_password be oc username password y = applied (set_password be oc username password y)"

record update_result =
  ur_record :: pyval
  ur_changed :: "string list"
  ur_sessions_revoked :: bool

definition given_list :: "'a option \<Rightarrow> 'b \<Rightarrow> 'b list" where
  "given_list x b = (if x = None then [] else [b])"

definition update_operator ::
    "'s backend \<Rightarrow> op_call \<Rightarrow> string list \<Rightarrow> string \<Rightarrow> string option \<Rightarrow> bool option \<Rightarrow> string option \<Rightarrow>
     's op_state \<Rightarrow> (update_result, 's) use_case"
where
  "update_operator be oc perms username role disabled password y =
     (case map_of (load_accounts oc (os_file y)) username of
        None \<Rightarrow> uc_fail ErrNotFound y
      | Some PNone \<Rightarrow> uc_fail ErrNotFound y
      | Some _ \<Rightarrow>
          uc_then (case role of None \<Rightarrow> uc_return () y | Some r \<Rightarrow> apply_role be oc perms username r y) (\<lambda>_ y.
          uc_then (case disabled of None \<Rightarrow> uc_return () y | Some b \<Rightarrow> apply_disabled be oc username b y) (\<lambda>_ y.
          uc_then (case password of None \<Rightarrow> uc_return () y | Some p \<Rightarrow> apply_password be oc username p y) (\<lambda>_ y.
            let revoke = (role \<noteq> None \<or> disabled = Some True \<or> password \<noteq> None);
                changed = given_list role ''role'' @ given_list disabled ''disabled'' @ given_list password ''password''
            in uc_then
                 (if \<not> revoke then uc_return () y
                  else (case revoke_operator_sessions be (oc_env oc) username (os_state y) of
                          None \<Rightarrow> (Raised, y) | Some s \<Rightarrow> uc_return () (y\<lparr>os_state := s\<rparr>)))
                 (\<lambda>_ y. uc_then (account_record oc username y) (\<lambda>rec.
                    uc_return \<lparr> ur_record = rec, ur_changed = changed, ur_sessions_revoked = revoke \<rparr>))))))"

section \<open>Deleting, restoring, revoking\<close>

definition with_state :: "('s \<Rightarrow> 's) \<Rightarrow> 's op_state \<Rightarrow> 's op_state" where
  "with_state f y = y\<lparr>os_state := f (os_state y)\<rparr>"

definition delete_operator ::
    "'s backend \<Rightarrow> op_call \<Rightarrow> string \<Rightarrow> string \<Rightarrow> string \<Rightarrow> 's op_state \<Rightarrow> (unit, 's) use_case" where
  "delete_operator be oc actor username jid y =
     (case map_of (load_accounts oc (os_file y)) username of
        None \<Rightarrow> uc_fail ErrNotFound y
      | Some PNone \<Rightarrow> uc_fail ErrNotFound y
      | Some rec \<Rightarrow>
          uc_then (keep_admin oc True username y) (\<lambda>_ y.
            let env = oc_env oc;
                y = with_state (tombstone_save be env username rec)
                      (with_state (\<lambda>s. snd (job_start be env jid ''operator.delete'' actor username [] s)) y)
            in (case remove_user oc username (os_file y) of
                  (Raised, _) \<Rightarrow> (Raised, with_state (job_fail be env jid (oc_error oc)) y)
                | (Returned False, _) \<Rightarrow>
                    uc_fail ErrInvalid (with_state (job_fail be env jid ''operator delete failed'') y)
                | (Returned True, file) \<Rightarrow>
                    let y = y\<lparr>os_file := file\<rparr>
                    in (case revoke_operator_sessions be env username (os_state y) of
                          None \<Rightarrow> (Raised, with_state (job_fail be env jid (oc_error oc)) y)
                        | Some s \<Rightarrow>
                            uc_return () (with_state (job_finish be env jid ''deleted; tombstone kept'')
                              (y\<lparr>os_state := s\<rparr>))))))"

text \<open>\<open>password\<close> is the random password of the restored account, \<open>err\<close> the text of what was raised.\<close>

definition restore_operator ::
    "'s backend \<Rightarrow> op_call \<Rightarrow> string \<Rightarrow> string \<Rightarrow> string \<Rightarrow> string \<Rightarrow> 's op_state \<Rightarrow> (pyval, 's) use_case" where
  "restore_operator be oc actor username jid password y =
     (let env = oc_env oc
      in (case tombstone_get be env username (os_state y) of
            (None, s) \<Rightarrow> uc_fail ErrNotFound (y\<lparr>os_state := s\<rparr>)
          | (Some tomb, s) \<Rightarrow>
              let y = y\<lparr>os_state := s\<rparr>
              in if map_of (load_accounts oc (os_file y)) username \<noteq> None then uc_fail ErrConflict y
                 else
                   let y = with_state (\<lambda>s. snd (job_start be env jid ''operator.restore'' actor username [] s)) y;
                       refused = (\<lambda>y. uc_fail ErrInvalid (with_state (job_fail be env jid (oc_error oc)) y))
                   in (case tomb of
                         PDict d \<Rightarrow>
                           (case py_get ''role'' (PStr ''viewer'') d of
                              PStr role \<Rightarrow>
                                (case add_user oc username password role (os_file y) of
                                   Inl _ \<Rightarrow> refused y
                                 | Inr file \<Rightarrow>
                                     (case set_disabled be oc username True (y\<lparr>os_file := file\<rparr>) of
                                        (Raised, y) \<Rightarrow> refused y
                                      | (Returned _, y) \<Rightarrow>
                                          account_record oc username
                                            (with_state (job_finish be env jid ''restored disabled'')
                                              (with_state (tombstone_remove be env username) y))))
                            | _ \<Rightarrow> refused y)
                       | _ \<Rightarrow> refused y)))"

definition revoke_sessions ::
    "'s backend \<Rightarrow> op_call \<Rightarrow> string \<Rightarrow> string \<Rightarrow> string \<Rightarrow> 's op_state \<Rightarrow> (unit, 's) use_case" where
  "revoke_sessions be oc actor username jid y =
     (case map_of (load_accounts oc (os_file y)) username of
        None \<Rightarrow> uc_fail ErrNotFound y
      | Some PNone \<Rightarrow> uc_fail ErrNotFound y
      | Some _ \<Rightarrow>
          let env = oc_env oc;
              y = with_state (\<lambda>s. snd (job_start be env jid ''operator.sessions_revoke'' actor username [] s)) y
          in (case revoke_operator_sessions be env username (os_state y) of
                None \<Rightarrow> (Raised, y)
              | Some s \<Rightarrow> uc_return () (with_state (job_finish be env jid []) (y\<lparr>os_state := s\<rparr>))))"

end
