(* ===== verification/PortalSession.thy ===== *)
theory PortalSession
  imports PortalAuth OperatorCases SessionCookie
begin

text \<open>
  The operator's portal session of backend/context.py: the cookie \<open>vnc_op\<close> with the fields session id,
  user, expiry and signature, joined by dots; the index of live sessions with its cap; revocation by
  session and by user; the identity behind a cookie; and the CSRF token bound to session and nonce.
\<close>

abbreviation ns_op_sessions :: string where "ns_op_sessions \<equiv> ''op_sessions''"
abbreviation ns_op_revoked :: string where "ns_op_revoked \<equiv> ''op_revoked_sessions''"
abbreviation op_session_max :: nat where "op_session_max \<equiv> 10"

section \<open>The cookie\<close>

definition lower_hex :: "char \<Rightarrow> bool" where
  "lower_hex c \<longleftrightarrow> c \<in> set ''0123456789abcdef''"

text \<open>\<open>_split_op_cookie\<close>: shape, characters and sizes.\<close>

definition split_op_cookie :: "string \<Rightarrow> (string \<times> string \<times> string \<times> string) option" where
  "split_op_cookie cv =
     (if cv = [] \<or> 256 < length cv then None
      else if list_ex (\<lambda>c. of_char c < (33 :: nat) \<or> of_char c = (127 :: nat)) cv then None
      else (case split_all (CHR ''.'') cv of
              [sid, user64, exp_s, sig] \<Rightarrow>
                if 8 \<le> length sid \<and> length sid \<le> 64 \<and> list_all sid_char sid \<and>
                   1 \<le> length exp_s \<and> length exp_s \<le> 12 \<and> list_all is_digit exp_s \<and>
                   length sig = 64 \<and> list_all lower_hex sig
                then Some (sid, user64, exp_s, sig) else None
            | _ \<Rightarrow> None))"

definition decode_op_username :: "text_io \<Rightarrow> string \<Rightarrow> string option" where
  "decode_op_username tx user64 =
     (case Option.bind (b64url_decode user64) (tx_dec tx) of
        None \<Rightarrow> None
      | Some u \<Rightarrow> if u = [] \<or> 64 < length u then None else Some u)"

text \<open>The address a session is bound to, when binding is switched on.\<close>

definition op_bind_ip :: "login_env \<Rightarrow> string \<Rightarrow> string option" where
  "op_bind_ip env client_ip =
     (if env_flag (l_environ env) ''OP_SESSION_IP_BIND'' ''false'' then Some client_ip else None)"

definition bind_suffix :: "string option \<Rightarrow> string" where
  "bind_suffix ip = (case ip of None \<Rightarrow> [] | Some ip \<Rightarrow> CHR ''|'' # ip)"

definition op_payload :: "string \<Rightarrow> string \<Rightarrow> string \<Rightarrow> string" where
  "op_payload sid user64 exp_s = join ''.'' [sid, user64, exp_s]"

definition op_signature :: "login_env \<Rightarrow> string \<Rightarrow> string option \<Rightarrow> string" where
  "op_signature env payload ip = l_mac env (kr_current (l_keys env)) (''op:'' @ payload @ bind_suffix ip)"

definition parse_op_cookie ::
    "login_env \<Rightarrow> text_io \<Rightarrow> string \<Rightarrow> string option \<Rightarrow> (string \<times> string \<times> int) option" where
  "parse_op_cookie env tx cv ip =
     (case split_op_cookie cv of
        None \<Rightarrow> None
      | Some (sid, user64, exp_s, sig) \<Rightarrow>
          (case (decode_op_username tx user64, py_int exp_s) of
             (Some username, Some expires) \<Rightarrow>
               if of_int expires \<le> l_now env \<or> l_now env + of_int op_session_ttl + 60 < of_int expires then None
               else if sig \<noteq> op_signature env (op_payload sid user64 exp_s) ip then None
               else Some (sid, username, expires)
           | _ \<Rightarrow> None))"

definition op_user64 :: "text_io \<Rightarrow> string \<Rightarrow> string" where
  "op_user64 tx username = b64url_encode (tx_enc tx username)"

definition op_expiry :: "login_env \<Rightarrow> int" where
  "op_expiry env = l_secs env + op_session_ttl"

text \<open>The value of the cookie a login mints; \<open>sid\<close> is the random session id.\<close>

definition mint_op_cookie :: "login_env \<Rightarrow> text_io \<Rightarrow> string option \<Rightarrow> string \<Rightarrow> string \<Rightarrow> string" where
  "mint_op_cookie env tx ip username sid =
     (let payload = op_payload sid (op_user64 tx username) (int_str (op_expiry env))
      in payload @ ''.'' @ op_signature env payload ip)"

definition cookie_occurrences :: "string \<Rightarrow> string \<Rightarrow> nat" where
  "cookie_occurrences header name =
     length (filter (\<lambda>p. prefix (name @ ''='') (py_strip p)) (split_all (CHR '';'') header))"

section \<open>Index and revocation\<close>

definition revoke_op_session :: "'s backend \<Rightarrow> login_env \<Rightarrow> string \<Rightarrow> int \<Rightarrow> 's \<Rightarrow> 's" where
  "revoke_op_session be env sid expires =
     b_set_ttl be (l_now env) ns_op_revoked sid (PStr ''1'') (of_int (max 1 (expires - l_secs env)))"

text \<open>Reading the index: expired and unreadable rows are deleted, the user's others collected.\<close>

definition index_row :: "'s backend \<Rightarrow> login_env \<Rightarrow> string \<Rightarrow> (int \<times> string) list \<times> 's \<Rightarrow> string \<Rightarrow>
    (int \<times> string) list \<times> 's" where
  "index_row be env username = (\<lambda>(active, s) k.
     (case b_get be (l_now env) ns_op_sessions k s of
        (v, s) \<Rightarrow>
          (case int_of (py_or v (PInt 0)) of
             None \<Rightarrow> (active, b_delete be ns_op_sessions k s)
           | Some expires \<Rightarrow>
               if expires \<le> l_secs env then (active, b_delete be ns_op_sessions k s)
               else (case (case split_first nul k of Some p \<Rightarrow> p | None \<Rightarrow> (k, [])) of
                       (user, ksid) \<Rightarrow> (if user = username then active @ [(expires, ksid)] else active, s)))))"

text \<open>The least pair of expiry and session id.\<close>

definition oldest :: "(int \<times> string) list \<Rightarrow> int \<times> string" where
  "oldest active = hd (sort_key fst (sort_key snd active))"

function evict :: "'s backend \<Rightarrow> login_env \<Rightarrow> string \<Rightarrow> (int \<times> string) list \<Rightarrow> 's \<Rightarrow> 's" where
  "evict be env username active s =
     (if length active < op_session_max then s
      else
        let (expires, sid) = oldest active
        in evict be env username (remove1 (oldest active) active)
             (b_delete be ns_op_sessions (username @ [nul] @ sid) (revoke_op_session be env sid expires s)))"
  by pat_completeness auto

lemma oldest_in: "active \<noteq> [] \<Longrightarrow> oldest active \<in> set active"
proof -
  assume "active \<noteq> []"
  then have "sort_key fst (sort_key snd active) \<noteq> []" by (metis length_0_conv length_sort)
  from hd_in_set [OF this] show ?thesis by (simp add: oldest_def)
qed

termination evict
  by (relation "measure (\<lambda>(be, env, username, active, s). length active)")
    (auto simp: length_remove1 not_less intro!: oldest_in)

declare evict.simps [simp del]

definition index_op_session :: "'s backend \<Rightarrow> login_env \<Rightarrow> string \<Rightarrow> string \<Rightarrow> int \<Rightarrow> 's \<Rightarrow> 's" where
  "index_op_session be env username sid expires s =
     (if \<not> l_up env then s
      else (case foldl (index_row be env username) ([], s) (b_list_keys be (l_now env) ns_op_sessions [] s) of
              (active, s) \<Rightarrow>
                b_set_ttl be (l_now env) ns_op_sessions (username @ [nul] @ sid) (PStr (int_str expires))
                  (of_int op_session_ttl) (evict be env username active s)))"

text \<open>Minting: the cookie, its index row, and the time of the authentication.\<close>

definition issue_op_session ::
    "'s backend \<Rightarrow> login_env \<Rightarrow> text_io \<Rightarrow> string option \<Rightarrow> string \<Rightarrow> string \<Rightarrow> stepup_manager \<Rightarrow> 's \<Rightarrow>
     string \<times> stepup_manager \<times> 's"
where
  "issue_op_session be env tx ip username sid m s =
     (mint_op_cookie env tx ip username sid,
      record_auth_time be env username None m (index_op_session be env username sid (op_expiry env) s))"

text \<open>A mark on the session, or on the user at or after the second the cookie was issued in.\<close>

definition op_session_revoked :: "'s backend \<Rightarrow> login_env \<Rightarrow> string \<Rightarrow> string \<Rightarrow> int \<Rightarrow> 's \<Rightarrow> bool \<times> 's" where
  "op_session_revoked be env sid username expires s =
     (if \<not> l_up env then (True, s)
      else (case b_get be (l_now env) ns_op_revoked sid s of
              (v, s) \<Rightarrow>
                if truthy v then (True, s)
                else (case b_get be (l_now env) ns_revoked_users username s of
                        (v, s) \<Rightarrow>
                          (truthy v \<and>
                             (case float_of (read_float (l_fl env)) v of
                                None \<Rightarrow> True
                              | Some t \<Rightarrow> expires - op_session_ttl \<le> trunc t), s))))"

text \<open>A stored account that is not disabled, or the built-in administrator.\<close>

definition resolve_op_identity :: "op_call \<Rightarrow> string \<Rightarrow> string option \<Rightarrow> operator option" where
  "resolve_op_identity oc username file =
     (case map_of (load_accounts oc file) username of
        Some (PDict d) \<Rightarrow>
          if truthy (py_get ''disabled'' PNone d) then None
          else map_option (\<lambda>ps. \<lparr> op_username = username, op_role = py_get ''role'' (PStr ''operator'') d,
                                  op_permissions = ps \<rparr>)
                 (get_permissions oc username file)
      | Some _ \<Rightarrow> None
      | None \<Rightarrow> if username = ''admin'' then Some built_in_admin else None)"

definition verify_op_cookie ::
    "'s backend \<Rightarrow> op_call \<Rightarrow> text_io \<Rightarrow> string \<Rightarrow> string \<Rightarrow> 's op_state \<Rightarrow>
     (string \<times> operator) option \<times> 's op_state"
where
  "verify_op_cookie be oc tx client_ip cv y =
     (case parse_op_cookie (oc_env oc) tx cv (op_bind_ip (oc_env oc) client_ip) of
        None \<Rightarrow> (None, y)
      | Some (sid, username, expires) \<Rightarrow>
          (case op_session_revoked be (oc_env oc) sid username expires (os_state y) of
             (True, s) \<Rightarrow> (None, y\<lparr>os_state := s\<rparr>)
           | (False, s) \<Rightarrow>
               (map_option (\<lambda>op. (sid, op)) (resolve_op_identity oc username (os_file y)), y\<lparr>os_state := s\<rparr>)))"

section \<open>Requests\<close>

record request =
  rq_cookie :: string
  rq_authorization :: string
  rq_origin :: string
  rq_fetch_site :: string
  rq_csrf :: string
  rq_client_ip :: string

text \<open>
  The cookie first, when it occurs once; then Basic credentials, which mint a session with the random
  id \<open>fresh\<close>.  The answer is the session id and the operator, and the cookie to be set.
\<close>

definition resolve_operator ::
    "'s backend \<Rightarrow> http_call \<Rightarrow> request \<Rightarrow> string \<Rightarrow> stepup_manager \<Rightarrow> 's op_state \<Rightarrow>
     ((string \<times> operator \<times> string option) option) outcome \<times> stepup_manager \<times> 's op_state"
where
  "resolve_operator be hc rq fresh m y =
     (case (if cookie_occurrences (rq_cookie rq) ''vnc_op'' = 1
            then verify_op_cookie be (hc_op hc) (hc_tx hc) (rq_client_ip rq) (cookie_value (rq_cookie rq) ''vnc_op'') y
            else (None, y)) of
        (Some (sid, op), y) \<Rightarrow> (Returned (Some (sid, op, None)), m, y)
      | (None, y) \<Rightarrow>
          (case authenticate_landing be hc (rq_authorization rq) (rq_client_ip rq) y of
             (Raised, y) \<Rightarrow> (Raised, m, y)
           | (Returned (True, Some op), y) \<Rightarrow>
               (case issue_op_session be (hc_env hc) (hc_tx hc) (op_bind_ip (hc_env hc) (rq_client_ip rq))
                       (op_username op) fresh m (os_state y) of
                  (cv, m, s) \<Rightarrow>
                    (case record_auth_time be (hc_env hc) (op_username op) None m s of
                       (m, s) \<Rightarrow> (Returned (Some (fresh, op, Some cv)), m, y\<lparr>os_state := s\<rparr>)))
           | (Returned _, y) \<Rightarrow> (Returned None, m, y)))"

text \<open>\<open>_csrf_token\<close> of backend/handlers/common.py.\<close>

definition csrf_token :: "login_env \<Rightarrow> string \<Rightarrow> string \<Rightarrow> string" where
  "csrf_token env sid nonce = l_mac env (kr_current (l_keys env)) (''csrf:'' @ sid @ '':'' @ nonce)"

text \<open>\<open>None\<close>: comparing a token that is not ASCII raises TypeError.\<close>

definition check_csrf :: "login_env \<Rightarrow> request \<Rightarrow> string \<Rightarrow> bool option" where
  "check_csrf env rq sid =
     (let nonce = cookie_value (rq_cookie rq) ''vnc_csrf''
      in if nonce = [] \<or> sid = [] \<or> rq_csrf rq = [] then Some False
         else if \<not> ascii (rq_csrf rq) then None
         else Some (rq_csrf rq = csrf_token env sid nonce))"

datatype gate_answer = GateUnauthorized | GateForbidden | GateOpen operator

text \<open>\<open>_operator_gate\<close>; \<open>origin_ok\<close> is the origin check of security/auth_gateway.py.\<close>

definition operator_gate ::
    "'s backend \<Rightarrow> http_call \<Rightarrow> (string \<Rightarrow> bool) \<Rightarrow> request \<Rightarrow> string \<Rightarrow> string \<Rightarrow> stepup_manager \<Rightarrow> 's op_state \<Rightarrow>
     gate_answer outcome \<times> stepup_manager \<times> 's op_state"
where
  "operator_gate be hc origin_ok rq permission fresh m y =
     (case resolve_operator be hc rq fresh m y of
        (Raised, my) \<Rightarrow> (Raised, my)
      | (Returned None, my) \<Rightarrow> (Returned GateUnauthorized, my)
      | (Returned (Some (sid, op, _)), my) \<Rightarrow>
          (if rq_origin rq \<noteq> [] \<and> \<not> origin_ok (rq_origin rq) then Returned GateForbidden
           else if map ascii_lower (rq_fetch_site rq) = ''cross-site'' then Returned GateForbidden
           else (case check_csrf (hc_env hc) rq sid of
                   None \<Rightarrow> Raised
                 | Some False \<Rightarrow> Returned GateForbidden
                 | Some True \<Rightarrow>
                     if permission \<noteq> [] \<and> permission \<notin> set (op_permissions op) \<and>
                        ''admin:*'' \<notin> set (op_permissions op) then Returned GateForbidden
                     else Returned (GateOpen op)), my))"

end
