(* ===== verification/OperatorRules.thy ===== *)
theory OperatorRules
  imports OperatorCases
begin

text \<open>
  What the operator use cases keep: the file reads back what was saved, each use case changes at most
  the accounts it is about, and no use case takes away the last administrator.
\<close>

section \<open>The file\<close>

lemma load_plain: "plain (PDict (load_accounts oc fl))"
proof -
  have "plain (PDict d)" if "json_loads (l_fl (oc_env oc)) t = Some (PDict d)" for t d
    using that by (rule json_loads_plain)
  moreover have "plain (PDict [])" by simp
  ultimately show ?thesis by (simp add: load_accounts_def del: plain.simps split: option.split pyval.split)
qed

lemma plain_field: "plain (PDict d) \<Longrightarrow> plain v \<Longrightarrow> plain (PDict (AList.update k v d))"
  using set_update_alist [of k v d] by (auto simp: distinct_update)

lemma plain_delete: "plain (PDict d) \<Longrightarrow> plain (PDict (AList.delete k d))"
  by (auto simp: AList.delete_eq distinct_map_filter)

lemma plain_member: "plain (PDict d) \<Longrightarrow> map_of d k = Some v \<Longrightarrow> plain v"
  by (auto dest: map_of_SomeD)

lemma load_saved:
  assumes "json_floats (l_fl (oc_env oc))" and "plain (PDict d)" and "save_accounts oc d = Some fl"
  shows "load_accounts oc fl = d"
  using assms json_loads_dumps [OF assms(1,2)]
  by (auto simp: save_accounts_def load_accounts_def simp del: plain.simps json_dumps.simps split: if_splits)

text \<open>The accounts by name.\<close>

definition account :: "op_call \<Rightarrow> string option \<Rightarrow> string \<Rightarrow> pyval option" where
  "account oc fl = map_of (load_accounts oc fl)"

definition same_format :: "op_call \<Rightarrow> op_call \<Rightarrow> bool" where
  "same_format oc oc' \<longleftrightarrow> l_fl (oc_env oc) = l_fl (oc_env oc')"

lemma account_same: "same_format oc oc' \<Longrightarrow> account oc = account oc'"
  by (rule ext)+ (simp add: account_def load_accounts_def same_format_def cong: option.case_cong)

lemma set_field_file:
  assumes "json_floats (l_fl (oc_env oc))" and "plain v"
  shows "os_file (snd (set_field be oc u field v y)) = os_file y \<or>
    (\<exists>rec. account oc (os_file y) u = Some (PDict rec) \<and>
       account oc (os_file (snd (set_field be oc u field v y))) =
         (account oc (os_file y))(u \<mapsto> PDict (AList.update field v rec)))"
proof -
  let ?d = "load_accounts oc (os_file y)"
  show ?thesis
  proof (cases "\<exists>rec fl. map_of ?d u = Some (PDict rec) \<and>
      save_accounts oc (AList.update u (PDict (AList.update field v rec)) ?d) = Some fl")
    case True
    then obtain rec fl where r: "map_of ?d u = Some (PDict rec)"
      "save_accounts oc (AList.update u (PDict (AList.update field v rec)) ?d) = Some fl" by blast
    have "plain (PDict rec)" by (rule plain_member [OF load_plain r(1)])
    then have "plain (PDict (AList.update u (PDict (AList.update field v rec)) ?d))"
      by (intro plain_field load_plain assms(2))
    from load_saved [OF assms(1) this r(2)] r show ?thesis
      by (simp add: set_field_def account_def)
  next
    case False
    then show ?thesis by (auto simp: set_field_def Let_def split: option.split pyval.split)
  qed
qed

lemma add_user_file:
  assumes "json_floats (l_fl (oc_env oc))" and "add_user oc u password role fl = Inr fl2"
  shows "account oc fl u = None" and "known_role role"
    and "account oc fl2 = (account oc fl)(u \<mapsto> new_account oc password role)"
proof -
  let ?d = "AList.update u (new_account oc password role) (load_accounts oc fl)"
  from assms(2) have s: "save_accounts oc ?d = Some fl2" "account oc fl u = None" "known_role role"
    by (auto simp: add_user_def account_def Let_def split: if_splits option.splits)
  have "plain (PDict ?d)"
    by (intro plain_field load_plain) (simp add: new_account_def)
  from load_saved [OF assms(1) this s(1)]
  show "account oc fl2 = (account oc fl)(u \<mapsto> new_account oc password role)" by (simp add: account_def)
  show "account oc fl u = None" "known_role role" by (rule s)+
qed

lemma remove_user_file:
  assumes "json_floats (l_fl (oc_env oc))"
  shows "snd (remove_user oc u fl) = fl \<or>
    account oc (snd (remove_user oc u fl)) = (account oc fl)(u := None)"
proof (cases "save_accounts oc (AList.delete u (load_accounts oc fl))")
  case (Some fl2)
  from load_saved [OF assms plain_delete [OF load_plain] this] Some
  show ?thesis by (auto simp: remove_user_def account_def Let_def)
qed (simp add: remove_user_def Let_def)

section \<open>The last administrator\<close>

definition admin_at :: "(string \<Rightarrow> pyval option) \<Rightarrow> string \<Rightarrow> bool" where
  "admin_at m u \<longleftrightarrow> (\<exists>rec. m u = Some (PDict rec) \<and> enabled_admin rec)"

text \<open>Somebody can administer: the configured administrator, or a stored one who is not disabled.\<close>

definition admin_remains :: "op_call \<Rightarrow> string option \<Rightarrow> bool" where
  "admin_remains oc fl \<longleftrightarrow> landing_set (oc_env oc) \<or> (\<exists>u. admin_at (account oc fl) u)"

lemma those_map:
  "those (map f xs) = (if \<forall>x \<in> set xs. f x \<noteq> None then Some (map (the \<circ> f) xs) else None)"
  by (induction xs) (auto split: option.splits)

lemma last_admin_other:
  assumes "last_admin oc u fl = Some False"
  shows "landing_set (oc_env oc) \<or> \<not> admin_at (account oc fl) u \<or> (\<exists>v. v \<noteq> u \<and> admin_at (account oc fl) v)"
proof (cases "is_admin oc u fl")
  case (Some b)
  show ?thesis
  proof (cases b)
    case True
    let ?f = "\<lambda>(name, rec). if name = u then Some False
        else (case rec of PDict d \<Rightarrow> Some (enabled_admin d) | _ \<Rightarrow> None)"
    from assms Some True obtain n where "viable_admin_count oc u fl = Some n" "n \<noteq> 0"
      by (auto simp: last_admin_def)
    then have "\<forall>x \<in> set (load_accounts oc fl). ?f x \<noteq> None"
      and n: "(if u \<noteq> ''admin'' \<and> landing_set (oc_env oc) then 1 else 0) +
        length (filter id (map (the \<circ> ?f) (load_accounts oc fl))) \<noteq> 0"
      by (auto simp: viable_admin_count_def those_map simp del: filter_map split: if_splits)
    show ?thesis
    proof (cases "landing_set (oc_env oc)")
      case False
      with n have "filter (the \<circ> ?f) (load_accounts oc fl) \<noteq> []" by auto
      then obtain name rec where m: "(name, rec) \<in> set (load_accounts oc fl)" "the (?f (name, rec))"
        by (fastforce simp: filter_empty_conv)
      moreover have "?f (name, rec) \<noteq> None" using \<open>\<forall>x \<in> _. _\<close> m(1) by blast
      ultimately obtain d where "name \<noteq> u" "rec = PDict d" "enabled_admin d"
        by (auto split: if_splits pyval.splits)
      moreover have "distinct (map fst (load_accounts oc fl))" using load_plain [of oc fl] by simp
      ultimately have "name \<noteq> u" "admin_at (account oc fl) name"
        using m(1) by (auto simp: admin_at_def account_def)
      then show ?thesis by blast
    qed simp
  next
    case False
    with Some have "\<not> admin_at (account oc fl) u"
      by (auto simp: is_admin_def admin_at_def account_def enabled_admin_def py_get_def split: option.splits pyval.splits)
    then show ?thesis by blast
  qed
qed (use assms in \<open>simp add: last_admin_def\<close>)

text \<open>A change of one account keeps an administrator if it keeps one there or there is another.\<close>

lemma admin_remains_upd:
  assumes "admin_remains oc fl" and "account oc fl2 = (account oc fl)(u := r)"
    and "admin_at (account oc fl) u \<longrightarrow> admin_at ((account oc fl)(u := r)) u \<or> last_admin oc u fl = Some False"
  shows "admin_remains oc fl2"
proof (cases "landing_set (oc_env oc)")
  case False
  with assms(1) obtain v where v: "admin_at (account oc fl) v" by (auto simp: admin_remains_def)
  have other: "admin_at (account oc fl2) w" if "w \<noteq> u" "admin_at (account oc fl) w" for w
    using that by (simp add: admin_at_def assms(2))
  show ?thesis
  proof (cases "v = u")
    case True
    with v assms(3) consider "admin_at ((account oc fl)(u := r)) u" | "last_admin oc u fl = Some False" by blast
    then show ?thesis
      by cases (use v True False other last_admin_other [of oc u fl] in \<open>auto simp: admin_remains_def assms(2)\<close>)
  qed (use other v in \<open>auto simp: admin_remains_def\<close>)
qed (simp add: admin_remains_def)

lemma update_keeps_admin:
  assumes "account oc fl u = Some (PDict rec)"
    and "field = ''role'' \<longrightarrow> v = PStr ''admin''" and "field = ''disabled'' \<longrightarrow> v = PBool False"
  shows "admin_at (account oc fl) u \<longrightarrow> admin_at ((account oc fl)(u \<mapsto> PDict (AList.update field v rec))) u"
  using assms by (auto simp: admin_at_def enabled_admin_def py_get_def)

lemma set_field_admin:
  assumes "json_floats (l_fl (oc_env oc))" and "plain v" and "admin_remains oc (os_file y)"
    and "last_admin oc u (os_file y) = Some False \<or>
      (field = ''role'' \<longrightarrow> v = PStr ''admin'') \<and> (field = ''disabled'' \<longrightarrow> v = PBool False)"
  shows "admin_remains oc (os_file (snd (set_field be oc u field v y)))"
  using set_field_file [OF assms(1,2), of be u field y]
proof
  assume "\<exists>rec. account oc (os_file y) u = Some (PDict rec) \<and>
       account oc (os_file (snd (set_field be oc u field v y))) =
         (account oc (os_file y))(u \<mapsto> PDict (AList.update field v rec))"
  then obtain rec where r: "account oc (os_file y) u = Some (PDict rec)"
    "account oc (os_file (snd (set_field be oc u field v y))) =
         (account oc (os_file y))(u \<mapsto> PDict (AList.update field v rec))" by blast
  show ?thesis
    by (rule admin_remains_upd [OF assms(3) r(2)]) (use assms(4) update_keeps_admin [OF r(1), of field v] in blast)
qed (use assms(3) in simp)

section \<open>Every use case\<close>

lemma uc_then_inv:
  "P (snd m) \<Longrightarrow> (\<And>a z. fst m = Returned (Inr a) \<Longrightarrow> z = snd m \<Longrightarrow> P z \<Longrightarrow> P (snd (f a z))) \<Longrightarrow> P (snd (uc_then m f))"
  by (auto simp: uc_then_def split: prod.split outcome.split sum.split)

lemma keep_admin_same [simp]: "snd (keep_admin oc takes u y) = y"
  by (simp add: keep_admin_def uc_fail_def uc_return_def split: option.split bool.split)

lemma keep_admin_passed:
  "fst (keep_admin oc takes u y) = Returned (Inr a) \<Longrightarrow> takes \<Longrightarrow> last_admin oc u (os_file y) = Some False"
  by (auto simp: keep_admin_def uc_fail_def uc_return_def split: option.splits if_splits)

lemma applied_state [simp]: "snd (applied r) = snd r"
  by (simp add: applied_def uc_fail_def uc_return_def split: prod.split outcome.split bool.split)

lemma account_record_same [simp]: "snd (account_record oc u y) = y"
  by (simp add: account_record_def uc_return_def split: option.split)

lemma with_state_file [simp]: "os_file (with_state f y) = os_file y"
  by (simp add: with_state_def)

lemma add_user_admin:
  assumes "json_floats (l_fl (oc_env oc))" and "add_user oc u password role fl = Inr fl2" and "admin_remains oc fl"
  shows "admin_remains oc fl2"
  using add_user_file [OF assms(1,2)] assms(3) by (intro admin_remains_upd [OF assms(3)]) (auto simp: admin_at_def)

lemma remove_user_admin:
  assumes "json_floats (l_fl (oc_env oc))" and "last_admin oc u fl = Some False" and "admin_remains oc fl"
  shows "admin_remains oc (snd (remove_user oc u fl))"
  using remove_user_file [OF assms(1), of u fl]
proof
  assume "account oc (snd (remove_user oc u fl)) = (account oc fl)(u := None)"
  then show ?thesis by (rule admin_remains_upd [OF assms(3)]) (simp add: assms(2))
qed (simp add: assms(3))

lemma set_disabled_admin:
  "json_floats (l_fl (oc_env oc)) \<Longrightarrow> admin_remains oc (os_file y) \<Longrightarrow>
   disabled \<longrightarrow> last_admin oc u (os_file y) = Some False \<Longrightarrow>
   admin_remains oc (os_file (snd (set_disabled be oc u disabled y)))"
  by (auto simp: set_disabled_def intro!: set_field_admin)

lemma set_role_admin:
  "json_floats (l_fl (oc_env oc)) \<Longrightarrow> admin_remains oc (os_file y) \<Longrightarrow>
   role \<noteq> ''admin'' \<longrightarrow> last_admin oc u (os_file y) = Some False \<Longrightarrow>
   admin_remains oc (os_file (snd (set_role be oc u role y)))"
  by (auto simp: set_role_def intro!: set_field_admin)

lemma set_password_admin:
  "json_floats (l_fl (oc_env oc)) \<Longrightarrow> admin_remains oc (os_file y) \<Longrightarrow>
   admin_remains oc (os_file (snd (set_password be oc u password y)))"
  by (auto simp: set_password_def intro!: set_field_admin)

lemmas op_admin = set_disabled_admin set_role_admin set_password_admin add_user_admin remove_user_admin

text \<open>A new account or a restored one can be disabled: it was not there before.\<close>

lemma disabled_new_admin:
  assumes fl: "json_floats (l_fl (oc_env oc))" and a: "add_user oc u password role (os_file y) = Inr fl2"
    and r: "admin_remains oc (os_file y)"
  shows "admin_remains oc (os_file (snd (set_disabled be oc u True (y\<lparr>os_file := fl2\<rparr>))))"
proof -
  note add = add_user_file [OF fl a]
  have "os_file (snd (set_disabled be oc u True (y\<lparr>os_file := fl2\<rparr>))) = fl2 \<or>
      (\<exists>r. account oc (os_file (snd (set_disabled be oc u True (y\<lparr>os_file := fl2\<rparr>)))) = (account oc (os_file y))(u := r))"
    using set_field_file [OF fl, of "PBool True" be u "''disabled''" "y\<lparr>os_file := fl2\<rparr>"] add(3)
    by (auto simp: set_disabled_def)
  then show ?thesis
  proof
    assume "\<exists>r. account oc (os_file (snd (set_disabled be oc u True (y\<lparr>os_file := fl2\<rparr>)))) = (account oc (os_file y))(u := r)"
    then show ?thesis using add(1) by (auto intro: admin_remains_upd [OF r] simp: admin_at_def)
  qed (simp add: add_user_admin [OF fl a r])
qed

lemma uc_fail_state [simp]: "snd (uc_fail e y) = y"
  by (simp add: uc_fail_def)

lemma uc_return_state [simp]: "snd (uc_return a y) = y"
  by (simp add: uc_return_def)

lemma create_operator_admin:
  assumes "json_floats (l_fl (oc_env oc))" and "admin_remains oc (os_file y)"
  shows "admin_remains oc (os_file (snd (create_operator be oc perms u password role enabled y)))"
proof (cases "add_user oc u password role (os_file y)")
  case (Inr fl2)
  show ?thesis
    using disabled_new_admin [OF assms(1) Inr assms(2), of be] add_user_admin [OF assms(1) Inr assms(2)] assms(2) Inr
    by (auto simp: create_operator_def Let_def split: prod.split outcome.split)
qed (simp add: create_operator_def assms(2) split: account_error.split)

lemma apply_role_admin:
  "json_floats (l_fl (oc_env oc)) \<Longrightarrow> admin_remains oc (os_file y) \<Longrightarrow>
   admin_remains oc (os_file (snd (apply_role be oc perms u role y)))"
  by (auto simp: apply_role_def intro!: uc_then_inv [where P = "\<lambda>z. admin_remains oc (os_file z)"] set_role_admin dest: keep_admin_passed)

lemma apply_disabled_admin:
  "json_floats (l_fl (oc_env oc)) \<Longrightarrow> admin_remains oc (os_file y) \<Longrightarrow>
   admin_remains oc (os_file (snd (apply_disabled be oc u disabled y)))"
  by (auto simp: apply_disabled_def intro!: uc_then_inv [where P = "\<lambda>z. admin_remains oc (os_file z)"] set_disabled_admin dest: keep_admin_passed)

lemma apply_password_admin:
  "json_floats (l_fl (oc_env oc)) \<Longrightarrow> admin_remains oc (os_file y) \<Longrightarrow>
   admin_remains oc (os_file (snd (apply_password be oc u password y)))"
  by (simp add: apply_password_def set_password_admin)

lemma uc_then_keeps:
  assumes "P (snd m)" and "\<And>a z. P z \<Longrightarrow> P (snd (f a z))"
  shows "P (snd (uc_then m f))"
  by (rule uc_then_inv) (use assms in blast)+

lemma update_operator_admin:
  assumes fl: "json_floats (l_fl (oc_env oc))" and "admin_remains oc (os_file y)"
  shows "admin_remains oc (os_file (snd (update_operator be oc perms u role disabled password y)))"
proof -
  let ?P = "\<lambda>z. admin_remains oc (os_file z)"
  note parts = apply_role_admin [OF fl] apply_disabled_admin [OF fl] apply_password_admin [OF fl]
  have 1: "?P (snd (case role of None \<Rightarrow> uc_return () z | Some r \<Rightarrow> apply_role be oc perms u r z))" if "?P z" for z
    using that by (simp add: parts split: option.split)
  have 2: "?P (snd (case disabled of None \<Rightarrow> uc_return () z | Some b \<Rightarrow> apply_disabled be oc u b z))" if "?P z" for z
    using that by (simp add: parts split: option.split)
  have 3: "?P (snd (case password of None \<Rightarrow> uc_return () z | Some p \<Rightarrow> apply_password be oc u p z))" if "?P z" for z
    using that by (simp add: parts split: option.split)
  have 4: "?P (snd (if \<not> r then uc_return () z
      else (case revoke_operator_sessions be (oc_env oc) u (os_state z) of
              None \<Rightarrow> (Raised, z) | Some s \<Rightarrow> uc_return () (z\<lparr>os_state := s\<rparr>))))" if "?P z" for r z
    using that by (simp split: option.split)
  have 5: "?P (snd (uc_then (account_record oc u z) (\<lambda>rec. uc_return (f rec))))" if "?P z" for z and f :: "pyval \<Rightarrow> update_result"
    using that by (intro uc_then_keeps [where P = ?P]) simp_all
  have found: "?P (snd (case map_of (load_accounts oc (os_file y)) u of None \<Rightarrow> uc_fail ErrNotFound y
      | Some PNone \<Rightarrow> uc_fail ErrNotFound y | Some _ \<Rightarrow> m))" if "?P (snd m)" for m :: "(update_result, 'a) use_case"
    using that assms(2) by (simp split: option.split pyval.split)
  show ?thesis
    unfolding update_operator_def Let_def
    by (rule found, rule uc_then_keeps [where P = ?P, OF 1 uc_then_keeps [where P = ?P, OF 2 uc_then_keeps [where P = ?P, OF 3
        uc_then_keeps [where P = ?P, OF 4 5]]]]) (rule assms(2))
qed

lemma delete_operator_admin:
  assumes fl: "json_floats (l_fl (oc_env oc))" and r: "admin_remains oc (os_file y)"
  shows "admin_remains oc (os_file (snd (delete_operator be oc actor u jid y)))"
proof -
  let ?P = "\<lambda>z. admin_remains oc (os_file z)"
  have guard: "?P (snd (uc_then (keep_admin oc True u y) m))"
    if "last_admin oc u (os_file y) = Some False \<longrightarrow> ?P (snd (m () y))" for m :: "unit \<Rightarrow> 'a op_state \<Rightarrow> (unit, 'a) use_case"
    using that r by (auto intro!: uc_then_inv [where P = ?P] dest: keep_admin_passed)
  have removed: "admin_remains oc fl2" if "last_admin oc u (os_file y) = Some False" "remove_user oc u (os_file y) = (b, fl2)" for b fl2
    using remove_user_admin [OF fl that(1) r] that(2) by simp
  have rest: "?P (snd (case remove_user oc u (os_file y) of (Raised, _) \<Rightarrow> (Raised, with_state f1 z)
      | (Returned False, _) \<Rightarrow> uc_fail ErrInvalid (with_state f2 z)
      | (Returned True, fl) \<Rightarrow> (case g fl of
          None \<Rightarrow> (Raised, with_state f3 (z\<lparr>os_file := fl\<rparr>))
        | Some s \<Rightarrow> uc_return () (with_state f4 (z\<lparr>os_file := fl, os_state := s\<rparr>)))))"
    if "last_admin oc u (os_file y) = Some False" "os_file z = os_file y" for z :: "'a op_state" and f1 f2 f3 f4 g
  proof (cases "remove_user oc u (os_file y)")
    case (Pair b fl2)
    with removed [OF that(1)] r that(2) show ?thesis
      by (cases b) (auto split: bool.split option.split)
  qed
  show ?thesis
    unfolding delete_operator_def Let_def
    using r by (auto intro!: guard simp: rest split: option.split pyval.split)
qed

lemma restore_operator_admin:
  assumes fl: "json_floats (l_fl (oc_env oc))" and r: "admin_remains oc (os_file y)"
  shows "admin_remains oc (os_file (snd (restore_operator be oc actor u jid password y)))"
proof -
  let ?P = "\<lambda>z. admin_remains oc (os_file z)"
  have acc: "?P (snd (account_record oc u (with_state f z)))" if "?P z" for f z
    using that by simp
  have dis: "admin_remains oc (os_file z)"
    if "add_user oc u password role (os_file y) = Inr fl2"
      "set_disabled be oc u True (y'\<lparr>os_file := fl2\<rparr>) = (b, z)" "os_file y' = os_file y"
    for role fl2 y' b z
    using disabled_new_admin [OF fl, of u password role y' fl2 be] that r by simp
  let ?refused = "\<lambda>z. uc_fail ErrInvalid (with_state (job_fail be (oc_env oc) jid (oc_error oc)) z) :: (pyval, 'a) use_case"
  have body: "?P (snd (case add_user oc u password role (os_file y) of Inl _ \<Rightarrow> ?refused y'
        | Inr fl2 \<Rightarrow> (case set_disabled be oc u True (y'\<lparr>os_file := fl2\<rparr>) of (Raised, z) \<Rightarrow> ?refused z
            | (Returned _, z) \<Rightarrow> account_record oc u (with_state fb (with_state fc z)))))"
    if "os_file y' = os_file y" for y' role fb fc
    using that r dis [OF _ _ that(1)] by (simp split: sum.split prod.split outcome.split)
  show ?thesis
    unfolding restore_operator_def Let_def
    using r by (auto simp: body split: option.split pyval.split prod.split)
qed

section \<open>Runs of calls\<close>

datatype op_event =
    OpCreate "string list" string string string bool
  | OpUpdate "string list" string "string option" "bool option" "string option"
  | OpDelete string string string
  | OpRestore string string string string
  | OpRevoke string string string
  | OpVerify string string

fun op_step :: "'s backend \<Rightarrow> op_call \<times> op_event \<Rightarrow> 's op_state \<Rightarrow> 's op_state" where
  "op_step be (oc, OpCreate perms u password role enabled) y = snd (create_operator be oc perms u password role enabled y)"
| "op_step be (oc, OpUpdate perms u role disabled password) y = snd (update_operator be oc perms u role disabled password y)"
| "op_step be (oc, OpDelete actor u jid) y = snd (delete_operator be oc actor u jid y)"
| "op_step be (oc, OpRestore actor u jid password) y = snd (restore_operator be oc actor u jid password y)"
| "op_step be (oc, OpRevoke actor u jid) y = snd (revoke_sessions be oc actor u jid y)"
| "op_step be (oc, OpVerify u password) y = y\<lparr>os_file := snd (verify_operator oc u password (os_file y))\<rparr>"

lemma rehash_admin:
  assumes fl: "json_floats (l_fl (oc_env oc))" and r: "admin_remains oc db"
  shows "admin_remains oc (rehash oc u password stored db)"
proof (cases "\<exists>rec fl2. map_of (load_accounts oc db) u = Some (PDict rec) \<and>
    save_accounts oc (AList.update u (PDict (AList.update ''password_hash''
      (PStr (hash_password oc password)) rec)) (load_accounts oc db)) = Some fl2")
  case True
  then obtain rec fl2 where m: "map_of (load_accounts oc db) u = Some (PDict rec)"
    and s: "save_accounts oc (AList.update u (PDict (AList.update ''password_hash''
      (PStr (hash_password oc password)) rec)) (load_accounts oc db)) = Some fl2" by blast
  have "plain (PDict rec)" by (rule plain_member [OF load_plain m])
  then have "plain (PDict (AList.update u (PDict (AList.update ''password_hash''
      (PStr (hash_password oc password)) rec)) (load_accounts oc db)))"
    by (intro plain_field load_plain) simp_all
  from load_saved [OF fl this s]
  have "account oc fl2 = (account oc db)(u \<mapsto> PDict (AList.update ''password_hash'' (PStr (hash_password oc password)) rec))"
    by (simp add: account_def)
  then have "admin_remains oc fl2"
    by (rule admin_remains_upd [OF r]) (use update_keeps_admin [of oc db u rec] m in \<open>simp add: account_def\<close>)
  with r m s show ?thesis by (simp add: rehash_def)
next
  case False
  with r show ?thesis by (auto simp: rehash_def Let_def split: option.split pyval.split)
qed

lemma verify_operator_file:
  "snd (verify_operator oc u password fl) = fl \<or> (\<exists>stored. snd (verify_operator oc u password fl) = rehash oc u password stored fl)"
  by (auto simp: verify_operator_def Let_def split: option.split pyval.split)

lemma op_step_admin:
  assumes fl: "json_floats (l_fl (oc_env oc))" and r: "admin_remains oc (os_file y)"
  shows "admin_remains oc (os_file (op_step be (oc, e) y))"
proof (cases e)
  case (OpRevoke actor u jid)
  with r show ?thesis by (simp add: revoke_sessions_def Let_def split: option.split pyval.split)
next
  case (OpVerify u password)
  with r verify_operator_file [of oc u password "os_file y"] rehash_admin [OF fl r] show ?thesis by auto
qed (simp_all add: r fl create_operator_admin update_operator_admin delete_operator_admin restore_operator_admin)

text \<open>The same format of the file and the same configured administrator.\<close>

definition same_deployment :: "op_call \<Rightarrow> op_call \<Rightarrow> bool" where
  "same_deployment oc oc' \<longleftrightarrow> same_format oc oc' \<and> landing_set (oc_env oc) = landing_set (oc_env oc')"

lemma admin_remains_same: "same_deployment oc oc' \<Longrightarrow> admin_remains oc = admin_remains oc'"
  by (rule ext) (use account_same [of oc oc'] in \<open>simp add: same_deployment_def admin_remains_def\<close>)

lemma op_steps_admin:
  "json_floats (l_fl (oc_env oc)) \<Longrightarrow> \<forall>c \<in> set calls. same_deployment oc (fst c) \<Longrightarrow>
   admin_remains oc (os_file y) \<Longrightarrow> admin_remains oc (os_file (fold (op_step be) calls y))"
proof (induction calls arbitrary: y)
  case (Cons c calls)
  obtain oc' e where c: "c = (oc', e)" by (cases c)
  with Cons.prems have s: "same_deployment oc oc'" by simp
  then have "json_floats (l_fl (oc_env oc'))"
    using Cons.prems(1) by (simp add: same_deployment_def same_format_def)
  from op_step_admin [OF this, of y be e] Cons.prems s c have "admin_remains oc (os_file (op_step be c y))"
    by (simp add: admin_remains_same)
  with Cons show ?case by simp
qed simp

end
