(* ===== verification/PortalRuns.thy ===== *)
theory PortalRuns
  imports PortalSession OperatorRules
begin

text \<open>
  What the portal's cookie promises: an issued cookie reads back as its session, user and expiry; a
  change of an account refuses every cookie the account was issued before it, over all later requests;
  and an account has at most ten live sessions.
\<close>

section \<open>The cookie reads back\<close>

lemma nat_str_length: "n < 10 ^ Suc k \<Longrightarrow> length (nat_str n) \<le> Suc k"
proof (induction k arbitrary: n)
  case 0
  then show ?case by (simp add: nat_str_small)
next
  case (Suc k)
  show ?case
  proof (cases "n < 10")
    case False
    have "n div 10 < 10 ^ Suc k" using Suc.prems by (simp add: less_mult_imp_div_less mult.commute)
    with Suc.IH [of "n div 10"] False show ?thesis by (simp add: nat_str_step)
  qed (simp add: nat_str_small)
qed

lemma nat_str_nonempty: "nat_str n \<noteq> []"
  by (rule nat_str_head [of n]) simp

text \<open>The keyed hash is 64 lower-case hexadecimal digits, as HMAC-SHA256 is.\<close>

definition mac64 :: "mac \<Rightarrow> bool" where
  "mac64 mac \<longleftrightarrow> (\<forall>k m. length (mac k m) = 64 \<and> list_all lower_hex (mac k m))"

definition cookie_char :: "char \<Rightarrow> bool" where
  "cookie_char c \<longleftrightarrow> 33 \<le> (of_char c :: nat) \<and> (of_char c :: nat) < 127 \<and> c \<noteq> CHR ''.''"

lemma cookie_chars:
  "sid_char c \<Longrightarrow> cookie_char c" "is_digit c \<Longrightarrow> cookie_char c" "lower_hex c \<Longrightarrow> cookie_char c"
proof -
  show "sid_char c \<Longrightarrow> cookie_char c" by (auto simp: sid_char_def cookie_char_def Let_def)
  show "is_digit c \<Longrightarrow> cookie_char c"
    by (auto simp: cookie_char_def is_digit_def digit_val_def Let_def split: if_splits)
  show "lower_hex c \<Longrightarrow> cookie_char c" by (auto simp: lower_hex_def cookie_char_def)
qed

lemma b64url_chars:
  assumes "c \<in> set (b64url_encode s)"
  shows "cookie_char c"
proof -
  have "list_all (\<lambda>n. cookie_char (url_char (b64_char n))) [0..<64]" by code_simp
  then have b: "cookie_char (url_char (b64_char n))" if "n < 64" for n using that by (simp add: list_all_iff)
  from assms have "c \<in> set (map url_char (b64_encode s))"
    unfolding b64url_encode_def by (metis set_dropWhileD set_rev)
  then obtain d where d: "d \<in> set (b64_encode s)" "c = url_char d" by auto
  show ?thesis
  proof (cases "d = CHR ''=''")
    case True
    then show ?thesis by (simp add: d(2) url_char_def cookie_char_def)
  next
    case False
    with subsetD [OF b64_encode_chars d(1)] obtain n where "n < 64" "d = b64_char n" by auto
    with b d(2) show ?thesis by simp
  qed
qed

lemma b64_encode_length: "length (b64_encode s) \<le> (length s + 2) div 3 * 4"
proof (induction s rule: b64_encode.induct)
  case (4 a b c s)
  have "(length (a # b # c # s) + 2) div 3 = Suc ((length s + 2) div 3)" by simp
  with 4 show ?case by simp
qed simp_all

lemma b64url_length: "length (b64url_encode s) \<le> (length s + 2) div 3 * 4"
proof -
  have "length (b64url_encode s) \<le> length (b64_encode s)"
    unfolding b64url_encode_def by (metis length_dropWhile_le length_map length_rev)
  with b64_encode_length [of s] show ?thesis by linarith
qed

text \<open>A session id as the code draws it, and a user name of the size and kind the cookie can carry.\<close>

definition op_fields_ok :: "string \<Rightarrow> string \<Rightarrow> bool" where
  "op_fields_ok username sid \<longleftrightarrow>
     8 \<le> length sid \<and> length sid \<le> 64 \<and> list_all sid_char sid \<and>
     1 \<le> length username \<and> length username \<le> 64 \<and> ascii username"

text \<open>The time of the issue: after the epoch, and an expiry of at most twelve digits.\<close>

definition op_time_ok :: "login_env \<Rightarrow> bool" where
  "op_time_ok env \<longleftrightarrow> 0 \<le> op_expiry env \<and> op_expiry env < 10 ^ 12"

lemma split_minted:
  assumes "text_io_ok tx" and "mac64 (l_mac env)" and "op_fields_ok username sid" and "op_time_ok env"
  shows "split_op_cookie (mint_op_cookie env tx ip username sid) =
    Some (sid, op_user64 tx username, int_str (op_expiry env),
      op_signature env (op_payload sid (op_user64 tx username) (int_str (op_expiry env))) ip)"
proof -
  let ?u = "op_user64 tx username" and ?e = "int_str (op_expiry env)"
  let ?sig = "op_signature env (op_payload sid ?u ?e) ip"
  have sid: "8 \<le> length sid" "length sid \<le> 64" "list_all sid_char sid" and u: "length username \<le> 64" "ascii username"
    using assms(3) by (simp_all add: op_fields_ok_def)
  have e: "?e = nat_str (nat (op_expiry env))" using assms(4) by (simp add: int_str_def op_time_ok_def)
  have "op_expiry env < 1000000000000" using assms(4) by (simp add: op_time_ok_def)
  then have "nat (op_expiry env) < 1000000000000" by linarith
  then have "nat (op_expiry env) < 10 ^ Suc 11" by simp
  then have le: "length ?e \<le> 12" using nat_str_length e by fastforce
  have he: "list_all is_digit ?e" "1 \<le> length ?e"
    using e nat_str_digits nat_str_nonempty by (simp_all add: Suc_le_eq)
  have sig: "length ?sig = 64" "list_all lower_hex ?sig"
    using assms(2) by (simp_all add: mac64_def op_signature_def)
  have "length (tx_enc tx username) \<le> 64" using assms(1) u by (simp add: text_io_ok_def)
  then have "(length (tx_enc tx username) + 2) div 3 * 4 \<le> 88" by linarith
  then have lu: "length ?u \<le> 88" using b64url_length [of "tx_enc tx username"] by (simp add: op_user64_def)
  have cv: "mint_op_cookie env tx ip username sid = sid @ CHR ''.'' # ?u @ CHR ''.'' # ?e @ CHR ''.'' # ?sig"
    by (simp add: mint_op_cookie_def op_payload_def Let_def)
  have chars: "\<forall>c \<in> set sid. cookie_char c" "\<forall>c \<in> set ?u. cookie_char c" "\<forall>c \<in> set ?e. cookie_char c"
    "\<forall>c \<in> set ?sig. cookie_char c"
    using sid(3) he(1) sig(2) b64url_chars by (auto simp: list_all_iff op_user64_def intro: cookie_chars)
  then have nodot: "CHR ''.'' \<notin> set sid" "CHR ''.'' \<notin> set ?u" "CHR ''.'' \<notin> set ?e" "CHR ''.'' \<notin> set ?sig"
    by (auto simp: cookie_char_def)
  have parts: "split_all (CHR ''.'') (mint_op_cookie env tx ip username sid) = [sid, ?u, ?e, ?sig]"
    unfolding cv by (simp only: split_all_append [OF nodot(1)] split_all_append [OF nodot(2)]
      split_all_append [OF nodot(3)] split_all_plain [OF nodot(4)])
  have "list_all (\<lambda>c. 33 \<le> (of_char c :: nat) \<and> (of_char c :: nat) < 127) (mint_op_cookie env tx ip username sid)"
    unfolding cv using chars by (auto simp: list_all_iff cookie_char_def)
  then have "\<not> list_ex (\<lambda>c. of_char c < (33 :: nat) \<or> of_char c = (127 :: nat)) (mint_op_cookie env tx ip username sid)"
    by (auto simp: list_all_iff list_ex_iff)
  moreover have "length (mint_op_cookie env tx ip username sid) \<le> 256" "mint_op_cookie env tx ip username sid \<noteq> []"
    unfolding cv using sid(2) le lu sig(1) by simp_all
  ultimately show ?thesis
    using parts sid he le sig by (simp add: split_op_cookie_def)
qed

lemma decode_minted:
  "text_io_ok tx \<Longrightarrow> op_fields_ok username sid \<Longrightarrow> decode_op_username tx (op_user64 tx username) = Some username"
  unfolding text_io_ok_def op_fields_ok_def
  by (drule spec [where x = username]) (auto simp: decode_op_username_def op_user64_def b64url_decode_encode)

lemma parse_minted:
  assumes "text_io_ok tx" and "mac64 (l_mac env)" and "op_fields_ok username sid" and "op_time_ok env"
  shows "parse_op_cookie env' tx (mint_op_cookie env tx ip username sid) ip' =
    (if l_now env' < of_int (op_expiry env) \<and> of_int (op_expiry env) \<le> l_now env' + of_int op_session_ttl + 60 \<and>
        op_signature env (op_payload sid (op_user64 tx username) (int_str (op_expiry env))) ip =
        op_signature env' (op_payload sid (op_user64 tx username) (int_str (op_expiry env))) ip'
     then Some (sid, username, op_expiry env) else None)"
  using assms by (auto simp: parse_op_cookie_def split_minted decode_minted)

section \<open>A change of an account ends its sessions\<close>

text \<open>
  Every request of the portal that can touch what decides about a session: the use cases, and a
  request that is resolved to an operator, with whatever step-up manager its process has.
\<close>

datatype portal_event =
    PeCase op_call op_event
  | PeRequest http_call request string stepup_manager   \<comment> \<open>the random session id of a new session\<close>
  | PeLogout op_call string int                         \<comment> \<open>session id and expiry\<close>

record 's portal =
  pt_op :: "'s op_state"
  pt_clock :: time

fun pe_env :: "portal_event \<Rightarrow> login_env" where
  "pe_env (PeCase oc e) = oc_env oc"
| "pe_env (PeRequest hc rq fresh m) = hc_env hc"
| "pe_env (PeLogout oc sid expires) = oc_env oc"

text \<open>The answer is the user and the expiry of the cookie a request was let in by.\<close>

definition portal_step ::
    "'s backend \<Rightarrow> portal_event \<Rightarrow> 's portal \<Rightarrow> (string \<times> int) option \<times> 's portal" where
  "portal_step be e y0 =
     (let y = y0\<lparr>pt_clock := l_now (pe_env e)\<rparr>
      in (case e of
            PeCase oc ev \<Rightarrow> (None, y\<lparr>pt_op := op_step be (oc, ev) (pt_op y)\<rparr>)
          | PeLogout oc sid expires \<Rightarrow>
              (None, y\<lparr>pt_op := with_state (revoke_op_session be (oc_env oc) sid expires) (pt_op y)\<rparr>)
          | PeRequest hc rq fresh m \<Rightarrow>
              (case resolve_operator be hc rq fresh m (pt_op y) of
                 (r, m', z) \<Rightarrow>
                   (case r of
                      Returned (Some (sid, op, None)) \<Rightarrow>
                        map_option (\<lambda>(sid, user, expires). (user, expires))
                          (parse_op_cookie (hc_env hc) (hc_tx hc) (cookie_value (rq_cookie rq) ''vnc_op'')
                            (op_bind_ip (hc_env hc) (rq_client_ip rq)))
                    | _ \<Rightarrow> None,
                    y\<lparr>pt_op := z\<rparr>))))"

lemma portal_clock [simp]: "pt_clock (snd (portal_step be e y)) = l_now (pe_env e)"
  by (auto simp: portal_step_def Let_def case_prod_beta split: portal_event.split)

text \<open>Times are written so that they are read back.\<close>

definition float_texts :: "float_io \<Rightarrow> bool" where
  "float_texts fl \<longleftrightarrow> (\<forall>t. read_float fl (show_float fl t) = Some t \<and> show_float fl t \<noteq> [])"

text \<open>A mark that refuses every cookie that expires at \<open>expires\<close> or earlier.\<close>

definition mark_from :: "float_io \<Rightarrow> int \<Rightarrow> pyval \<Rightarrow> bool" where
  "mark_from fl expires v \<longleftrightarrow> (\<exists>t. v = PStr (show_float fl t) \<and> expires - op_session_ttl \<le> trunc t)"

text \<open>The clocks agree and the texts of times are those of one process.\<close>

definition portal_ok :: "float_io \<Rightarrow> portal_event \<Rightarrow> 's portal \<Rightarrow> bool" where
  "portal_ok fl e y \<longleftrightarrow> pt_clock y \<le> l_now (pe_env e) \<and> l_fl (pe_env e) = fl"

definition by_old_cookie :: "string \<Rightarrow> int \<Rightarrow> (string \<times> int) option \<Rightarrow> bool" where
  "by_old_cookie user expires a \<longleftrightarrow> (\<exists>e. a = Some (user, e) \<and> e \<le> expires)"

lemma trunc_mono: "0 \<le> s \<Longrightarrow> s \<le> t \<Longrightarrow> trunc s \<le> trunc t"
  by (simp add: trunc_def floor_mono)

context kv_store
begin

abbreviation held_mark :: "float_io \<Rightarrow> string \<Rightarrow> int \<Rightarrow> 's \<Rightarrow> bool" where
  "held_mark fl user expires s \<equiv>
     row_until (ns_revoked_users, user) (mark_from fl expires) (of_int expires) s"

text \<open>What else is written lies in other namespaces.\<close>

lemma mark_other_rows:
  assumes "held_mark fl user expires s" and "ns \<noteq> ns_revoked_users"
  shows "held_mark fl user expires (b_set_ttl be now ns k v t s)" "held_mark fl user expires (b_delete be ns k s)"
    "held_mark fl user expires (snd (b_get be now ns k s))"
    "held_mark fl user expires (snd (b_set_if_absent be now ns k v x s))"
  using assms by (simp_all add: row_until_def get_other claim_other set_ttl_look delete_look)

lemma mark_get: "held_mark fl user expires s \<Longrightarrow> now \<le> of_int expires \<Longrightarrow> held_mark fl user expires (snd (b_get be now ns k s))"
  by (rule row_get)

lemma mark_fold:
  "(\<And>a s. held_mark fl user expires s \<Longrightarrow> held_mark fl user expires (f s a)) \<Longrightarrow>
   held_mark fl user expires s \<Longrightarrow> held_mark fl user expires (foldl f s as)"
  by (rule row_fold)

lemma mark_update_job:
  "held_mark fl user expires s \<Longrightarrow> held_mark fl user expires (update_job be env jid fs s)"
  by (auto simp: update_job_def case_prod_beta intro!: mark_other_rows split: pyval.split option.split)

lemma mark_jobs:
  assumes "held_mark fl user expires s"
  shows "held_mark fl user expires (job_finish be env jid t s)" "held_mark fl user expires (job_fail be env jid t s)"
    "held_mark fl user expires (snd (job_start be env jid kd a tg dt s))"
    "held_mark fl user expires (tombstone_save be env u rec s)"
    "held_mark fl user expires (snd (tombstone_get be env u s))"
    "held_mark fl user expires (tombstone_remove be env u s)"
  using assms
  by (auto simp: job_finish_def job_fail_def job_start_def tombstone_save_def tombstone_get_def tombstone_remove_def
      case_prod_beta intro!: mark_update_job mark_other_rows split: pyval.split)

text \<open>A new mark is later than the one that holds.\<close>

lemma new_mark:
  assumes "expires - op_session_ttl \<le> trunc (l_now env)" and "0 \<le> l_now env" and "of_int op_session_ttl \<le> t"
  shows "held_mark (l_fl env) user expires
    (b_set_ttl be (l_now env) ns_revoked_users user (PStr (show_float (l_fl env) (l_now env))) t s)"
proof (rule row_new)
  show "mark_from (l_fl env) expires (PStr (show_float (l_fl env) (l_now env)))"
    using assms(1) by (auto simp: mark_from_def)
  have "of_int (expires - op_session_ttl) \<le> (of_int (trunc (l_now env)) :: rat)" using assms(1) by (simp only: of_int_le_iff)
  also have "\<dots> \<le> l_now env" by (rule trunc_le [OF assms(2)])
  finally show "of_int expires \<le> l_now env + t" using assms(3) by simp
qed

lemma mark_user:
  assumes "held_mark (l_fl env) user expires s" and "expires - op_session_ttl \<le> trunc (l_now env)" and "0 \<le> l_now env"
    and "of_int op_session_ttl \<le> t"
  shows "held_mark (l_fl env) user expires
    (b_set_ttl be (l_now env) ns_revoked_users u (PStr (show_float (l_fl env) (l_now env))) t s)"
  using assms by (cases "u = user") (auto intro: new_mark row_set)

lemma mark_sessions:
  assumes "held_mark (l_fl env) user expires s" and "expires - op_session_ttl \<le> trunc (l_now env)" and "0 \<le> l_now env"
  shows "held_mark (l_fl env) user expires (mark_sessions_revoked be env u s)"
    "revoke_operator_sessions be env u s = Some s' \<Longrightarrow> held_mark (l_fl env) user expires s'"
  using assms
  by (auto simp: mark_sessions_revoked_def revoke_operator_sessions_def intro!: mark_user split: if_splits)

lemma mark_set_field:
  assumes "held_mark (l_fl (oc_env oc)) user expires (os_state y)"
    and "expires - op_session_ttl \<le> trunc (l_now (oc_env oc))" and "0 \<le> l_now (oc_env oc)"
  shows "held_mark (l_fl (oc_env oc)) user expires (os_state (snd (set_field be oc u field v y)))"
  using assms by (auto simp: set_field_def Let_def intro!: mark_sessions split: option.split pyval.split)

lemma mark_applied:
  assumes "held_mark (l_fl (oc_env oc)) user expires (os_state y)"
    and "expires - op_session_ttl \<le> trunc (l_now (oc_env oc))" and "0 \<le> l_now (oc_env oc)"
  shows "held_mark (l_fl (oc_env oc)) user expires (os_state (snd (set_disabled be oc u b y)))"
    "held_mark (l_fl (oc_env oc)) user expires (os_state (snd (set_password be oc u p y)))"
    "held_mark (l_fl (oc_env oc)) user expires (os_state (snd (set_role be oc u r y)))"
  using assms by (auto simp: set_disabled_def set_password_def set_role_def intro!: mark_set_field)

text \<open>What every call of a run keeps; \<open>oc\<close> is a call after the mark was set.\<close>

definition after_mark :: "op_call \<Rightarrow> string \<Rightarrow> int \<Rightarrow> 's op_state \<Rightarrow> bool" where
  "after_mark oc user expires y \<longleftrightarrow>
     held_mark (l_fl (oc_env oc)) user expires (os_state y) \<and>
     expires - op_session_ttl \<le> trunc (l_now (oc_env oc)) \<and> 0 \<le> l_now (oc_env oc)"

lemma after_fields:
  assumes "after_mark oc user expires y"
  shows "after_mark oc user expires (snd (set_disabled be oc u b y))"
    "after_mark oc user expires (snd (set_password be oc u p y))"
    "after_mark oc user expires (snd (set_role be oc u r y))"
    "after_mark oc user expires (y\<lparr>os_file := fl\<rparr>)"
    "after_mark oc user expires (with_state (job_finish be env jid t) y)"
    "after_mark oc user expires (with_state (job_fail be env jid t) y)"
    "after_mark oc user expires (with_state (\<lambda>s. snd (job_start be env jid kd a tg dt s)) y)"
    "after_mark oc user expires (with_state (tombstone_save be env v rec) y)"
    "after_mark oc user expires (with_state (tombstone_remove be env v) y)"
    "after_mark oc user expires (y\<lparr>os_state := snd (tombstone_get be env v (os_state y))\<rparr>)"
  using assms by (simp_all add: after_mark_def mark_applied mark_jobs with_state_def)

lemma after_revoke:
  "after_mark oc user expires y \<Longrightarrow> revoke_operator_sessions be (oc_env oc) u (os_state y) = Some s \<Longrightarrow>
   after_mark oc user expires (y\<lparr>os_state := s\<rparr>)"
  by (auto simp: after_mark_def intro: mark_sessions(2))

lemma after_pair: "after_mark oc user expires (snd p) \<Longrightarrow> p = (a, z) \<Longrightarrow> after_mark oc user expires z"
  by simp

lemma after_create:
  assumes "after_mark oc user expires y"
  shows "after_mark oc user expires (snd (create_operator be oc perms u password role enabled y))"
  using assms
  by (auto simp: create_operator_def Let_def after_fields elim!: after_pair [rotated]
      split: sum.split account_error.split prod.split outcome.split)

lemma after_apply:
  assumes "after_mark oc user expires y"
  shows "after_mark oc user expires (snd (apply_role be oc perms u role y))"
    "after_mark oc user expires (snd (apply_disabled be oc u disabled y))"
    "after_mark oc user expires (snd (apply_password be oc u password y))"
  using assms
  by (auto simp: apply_role_def apply_disabled_def apply_password_def after_fields
      intro!: uc_then_keeps [where P = "after_mark oc user expires"])

lemma after_update:
  assumes "after_mark oc user expires y"
  shows "after_mark oc user expires (snd (update_operator be oc perms u role disabled password y))"
proof -
  let ?P = "after_mark oc user expires"
  have 1: "?P (snd (case role of None \<Rightarrow> uc_return () z | Some r \<Rightarrow> apply_role be oc perms u r z))" if "?P z" for z
    using that by (simp add: after_apply split: option.split)
  have 2: "?P (snd (case disabled of None \<Rightarrow> uc_return () z | Some b \<Rightarrow> apply_disabled be oc u b z))" if "?P z" for z
    using that by (simp add: after_apply split: option.split)
  have 3: "?P (snd (case password of None \<Rightarrow> uc_return () z | Some p \<Rightarrow> apply_password be oc u p z))" if "?P z" for z
    using that by (simp add: after_apply split: option.split)
  have 4: "?P (snd (if \<not> r then uc_return () z
      else (case revoke_operator_sessions be (oc_env oc) u (os_state z) of
              None \<Rightarrow> (Raised, z) | Some s \<Rightarrow> uc_return () (z\<lparr>os_state := s\<rparr>))))" if "?P z" for r z
    using that by (simp add: after_revoke split: option.split)
  have 5: "?P (snd (uc_then (account_record oc u z) (\<lambda>rec. uc_return (f rec))))" if "?P z" for z and f :: "pyval \<Rightarrow> update_result"
    using that by (intro uc_then_keeps [where P = ?P]) simp_all
  have found: "?P (snd (case map_of (load_accounts oc (os_file y)) u of None \<Rightarrow> uc_fail ErrNotFound y
      | Some PNone \<Rightarrow> uc_fail ErrNotFound y | Some _ \<Rightarrow> m))" if "?P (snd m)" for m :: "(update_result, 's) use_case"
    using that assms by (simp split: option.split pyval.split)
  show ?thesis
    unfolding update_operator_def Let_def
    by (rule found, rule uc_then_keeps [where P = ?P, OF 1 uc_then_keeps [where P = ?P, OF 2
        uc_then_keeps [where P = ?P, OF 3 uc_then_keeps [where P = ?P, OF 4 5]]]]) (rule assms)
qed

lemma after_delete:
  assumes "after_mark oc user expires y"
  shows "after_mark oc user expires (snd (delete_operator be oc actor u jid y))"
proof -
  let ?P = "after_mark oc user expires"
  have guard: "?P (snd (uc_then (keep_admin oc True u y) m))"
    if "\<And>z. ?P z \<Longrightarrow> ?P (snd (m () z))" for m :: "unit \<Rightarrow> 's op_state \<Rightarrow> (unit, 's) use_case"
    using that assms by (intro uc_then_keeps [where P = ?P]) simp_all
  show ?thesis
    unfolding delete_operator_def Let_def
    using assms
    by (auto intro!: guard simp: after_fields after_revoke
        split: option.split pyval.split prod.split outcome.split bool.split)
qed

lemma after_tombstone:
  "after_mark oc user expires y \<Longrightarrow> tombstone_get be env u (os_state y) = (r, s) \<Longrightarrow>
   after_mark oc user expires (y\<lparr>os_state := s\<rparr>)"
  using after_fields(10) [of oc user expires y env u] by simp

lemma after_restore:
  assumes "after_mark oc user expires y"
  shows "after_mark oc user expires (snd (restore_operator be oc actor u jid password y))"
  unfolding restore_operator_def Let_def
  using assms
  by (auto simp: after_fields after_tombstone intro!: after_fields(5,6,9) elim!: after_pair [rotated]
      split: option.split pyval.split prod.split sum.split outcome.split)

lemma after_revoke_sessions:
  assumes "after_mark oc user expires y"
  shows "after_mark oc user expires (snd (revoke_sessions be oc actor u jid y))"
  unfolding revoke_sessions_def Let_def
  using assms by (auto simp: after_fields after_revoke split: option.split pyval.split)

lemma after_op_step:
  "after_mark oc user expires y \<Longrightarrow> after_mark oc user expires (op_step be (oc, e) y)"
  by (cases e)
    (simp_all add: after_create after_update after_delete after_restore after_revoke_sessions after_fields)

lemma mark_any_locked:
  "held_mark fl user expires s \<Longrightarrow> any_locked be env ks s = Some (b, s') \<Longrightarrow> held_mark fl user expires s'"
proof (induction ks arbitrary: s)
  case (Cons k ks)
  have locked: "held_mark fl user expires s2" if "lim_locked be env k s = Some (c, s2)" for c s2
    using that Cons.prems(1)
    by (auto simp: lim_locked_def is_locked_def clear_attempts_def Let_def case_prod_beta
        intro!: mark_fold mark_other_rows split: if_splits option.splits)
  from Cons.prems(2) show ?case
    by (auto split: option.splits prod.splits bool.splits dest: locked intro: Cons.IH)
qed simp

lemma mark_lim_outcome:
  assumes "held_mark fl user expires s" and "lim_outcome be hc ip ok presented s = Some s'"
  shows "held_mark fl user expires s'"
  using assms
  by (auto simp: lim_outcome_def lim_success_def lim_failure_def record_success_def record_failure_def next_lockout_def
      clear_attempts_def Let_def case_prod_beta intro!: mark_fold mark_other_rows split: if_splits)

lemma mark_index_row:
  "held_mark fl user expires (snd acc) \<Longrightarrow> held_mark fl user expires (snd (index_row be env u acc k))"
  by (auto simp: index_row_def case_prod_beta intro!: mark_other_rows split: option.split)

lemma evict_inv:
  assumes "\<And>sid e s. P s \<Longrightarrow> P (b_delete be ns_op_sessions (u @ [nul] @ sid) (revoke_op_session be env sid e s))"
  shows "P s \<Longrightarrow> P (evict be env u active s)"
proof (induction "length active" arbitrary: active s rule: less_induct)
  case less
  show ?case
  proof (cases "length active < op_session_max")
    case True
    with less.prems show ?thesis by (subst evict.simps) simp
  next
    case False
    obtain e sid where o: "oldest active = (e, sid)" by (cases "oldest active")
    have "active \<noteq> []" using False by auto
    then have "length (remove1 (oldest active) active) < length active"
      using oldest_in [of active] by (simp add: length_remove1)
    from less.hyps [OF this assms [OF less.prems, of sid e]] False o show ?thesis
      by (subst evict.simps) simp
  qed
qed

lemma mark_evict: "held_mark fl user expires s \<Longrightarrow> held_mark fl user expires (evict be env u active s)"
  by (rule evict_inv [where P = "held_mark fl user expires"])
    (auto simp: revoke_op_session_def intro!: mark_other_rows)

lemma mark_foldl_snd:
  "held_mark fl user expires (snd acc) \<Longrightarrow> held_mark fl user expires (snd (foldl (index_row be env u) acc ks))"
  by (induction ks arbitrary: acc) (simp_all add: mark_index_row)

lemma mark_index:
  assumes "held_mark fl user expires s"
  shows "held_mark fl user expires (index_op_session be env u sid e s)"
proof -
  have "held_mark fl user expires (snd (foldl (index_row be env u) ([], s) ks))" for ks
    using assms mark_foldl_snd [where acc = "([], s)"] by simp
  then show ?thesis
    by (auto simp: index_op_session_def case_prod_beta assms intro!: mark_other_rows mark_evict)
qed

lemma mark_issue:
  assumes "held_mark fl user expires s" and "issue_op_session be env tx ip u sid m s = (cv, m', s')"
  shows "held_mark fl user expires s'"
proof -
  have "held_mark fl user expires (index_op_session be env u sid (op_expiry env) s)" by (rule mark_index [OF assms(1)])
  with assms(2) show ?thesis
    by (auto simp: issue_op_session_def record_auth_time_def Let_def intro!: mark_other_rows)
qed

lemma mark_auth_time:
  "held_mark fl user expires s \<Longrightarrow> record_auth_time be env u t m s = (m', s') \<Longrightarrow> held_mark fl user expires s'"
  by (auto simp: record_auth_time_def Let_def intro!: mark_other_rows)

lemma mark_revoked_read:
  assumes "held_mark fl user expires s" and "l_now env \<le> of_int expires" and "op_session_revoked be env sid u e s = (b, s')"
  shows "held_mark fl user expires s'"
  using assms by (auto simp: op_session_revoked_def case_prod_beta intro!: mark_get split: if_splits)

lemma mark_store_auth:
  assumes "held_mark fl user expires (os_state y)" and "operator_store_auth be hc u pw ip y = (a, y')"
  shows "held_mark fl user expires (os_state y')"
  using assms
  by (auto simp: operator_store_auth_def Let_def split: if_splits prod.splits outcome.splits option.splits
      dest: mark_lim_outcome)

lemma mark_landing:
  assumes "held_mark fl user expires (os_state y)" and "authenticate_landing be hc auth ip y = (a, y')"
  shows "held_mark fl user expires (os_state y')"
proof -
  let ?X = "if ip = [] then Some (False, os_state y) else basic_locked be (hc_env hc) ip (os_state y)"
  let ?Y = "\<lambda>s. case basic_credentials (hc_tx hc) auth of None \<Rightarrow> (None, y\<lparr>os_state := s\<rparr>)
      | Some (u, pw) \<Rightarrow> if u = [] then (None, y\<lparr>os_state := s\<rparr>)
          else operator_store_auth be hc u pw ip (y\<lparr>os_state := s\<rparr>)"
  have X: "held_mark fl user expires s" if "?X = Some (b, s)" for b s
    by (rule mark_any_locked [OF assms(1), of "hc_env hc" "if ip = [] then [] else [ip, ''ip:'' @ ip]" b])
      (use that in \<open>simp add: basic_locked_def del: any_locked.simps(2) split: if_splits\<close>)
  have Y: "held_mark fl user expires (os_state z)" if "?Y s = (ans, z)" "held_mark fl user expires s" for s ans z
    using that mark_store_auth [where y = "y\<lparr>os_state := s\<rparr>" and fl = fl and user = user and expires = expires]
    by (auto split: option.splits if_splits)
  show ?thesis
  proof (cases ?X)
    case None
    with assms show ?thesis by (simp add: authenticate_landing_def)
  next
    case (Some bs)
    obtain b s where bs: "bs = (b, s)" by (cases bs)
    with X Some have s: "held_mark fl user expires s" by simp
    obtain ans z where z: "?Y s = (ans, z)" by (cases "?Y s")
    note hz = Y [OF z s]
    show ?thesis
    proof (cases b)
      case True
      with assms(2) Some bs s show ?thesis by (simp add: authenticate_landing_def) auto
    next
      case False
      show ?thesis
      proof (cases ans)
        case None
        with assms(2) Some bs False z hz show ?thesis
          by (auto simp: authenticate_landing_def Let_def split: option.splits dest: mark_lim_outcome)
      next
        case (Some x)
        with assms(2) \<open>?X = Some bs\<close> bs False z hz show ?thesis
          by (simp add: authenticate_landing_def)
      qed
    qed
  qed
qed

lemma mark_cookie:
  assumes "held_mark fl user expires (os_state y)" and "l_now (oc_env oc) \<le> of_int expires"
    and "verify_op_cookie be oc tx ip cv y = (a, y')"
  shows "held_mark fl user expires (os_state y')"
  using assms
  by (auto simp: verify_op_cookie_def split: option.splits prod.splits bool.splits dest: mark_revoked_read)

lemma mark_resolve:
  assumes "held_mark fl user expires (os_state y)" and "l_now (hc_env hc) \<le> of_int expires"
  shows "held_mark fl user expires (os_state (snd (snd (resolve_operator be hc rq fresh m y))))"
proof -
  let ?X = "if cookie_occurrences (rq_cookie rq) ''vnc_op'' = 1
      then verify_op_cookie be (hc_op hc) (hc_tx hc) (rq_client_ip rq) (cookie_value (rq_cookie rq) ''vnc_op'') y
      else (None, y)"
  obtain a z where X: "?X = (a, z)" by (cases ?X)
  then have z: "held_mark fl user expires (os_state z)"
    using assms(1) mark_cookie [OF assms(1), of "hc_op hc"] assms(2) by (auto split: if_splits)
  show ?thesis
  proof (cases a)
    case (Some x)
    with X z show ?thesis by (cases x) (simp add: resolve_operator_def)
  next
    case None
    obtain r w where w: "authenticate_landing be hc (rq_authorization rq) (rq_client_ip rq) z = (r, w)"
      by (cases "authenticate_landing be hc (rq_authorization rq) (rq_client_ip rq) z")
    note hw = mark_landing [OF z w]
    have issued: "held_mark fl user expires s2"
      if "issue_op_session be (hc_env hc) (hc_tx hc) ip u fresh m (os_state w) = (cv, m1, s1)"
        "record_auth_time be (hc_env hc) u None m1 s1 = (m2, s2)" for ip u cv m1 s1 m2 s2
      by (rule mark_auth_time [OF mark_issue [OF hw that(1)] that(2)])
    show ?thesis
    proof (cases "\<exists>op. r = Returned (True, Some op)")
      case True
      then obtain op where "r = Returned (True, Some op)" by blast
      with X None w show ?thesis by (auto simp: resolve_operator_def split: prod.split dest: issued)
    next
      case False
      with X None w hw show ?thesis
        by (auto simp: resolve_operator_def split: outcome.split prod.split bool.split option.split)
    qed
  qed
qed

text \<open>An old cookie of the user is refused while the mark is held.\<close>

lemma mark_refuses:
  assumes "held_mark fl user expires s" and "l_now env < of_int expires" and "e \<le> expires"
    and "float_texts fl" and "l_fl env = fl"
  shows "fst (op_session_revoked be env sid user e s)"
proof -
  have "held_mark fl user expires (snd (b_get be (l_now env) ns_op_revoked sid s))"
    by (rule mark_get [OF assms(1)]) (use assms(2) in simp)
  from row_read [OF this] assms(2)
  have "mark_from fl expires (fst (b_get be (l_now env) ns_revoked_users user
      (snd (b_get be (l_now env) ns_op_revoked sid s))))" by simp
  then show ?thesis
    using assms(3-5) by (auto simp: op_session_revoked_def case_prod_beta mark_from_def float_texts_def float_of_def)
qed

definition ended :: "float_io \<Rightarrow> string \<Rightarrow> int \<Rightarrow> 's portal \<Rightarrow> bool" where
  "ended fl user expires y \<longleftrightarrow>
     expires - op_session_ttl \<le> trunc (pt_clock y) \<and> 0 \<le> pt_clock y \<and>
     (of_int expires \<le> pt_clock y \<or> held_mark fl user expires (os_state (pt_op y)))"

lemma ended_step:
  assumes "ended fl user expires y" and "portal_ok fl e y"
  shows "ended fl user expires (snd (portal_step be e y))"
proof -
  have t: "expires - op_session_ttl \<le> trunc (l_now (pe_env e))" "0 \<le> l_now (pe_env e)" "l_fl (pe_env e) = fl"
    using assms trunc_mono [of "pt_clock y" "l_now (pe_env e)"] by (auto simp: ended_def portal_ok_def)
  show ?thesis
  proof (cases "of_int expires \<le> l_now (pe_env e)")
    case True
    then show ?thesis using t by (simp add: ended_def)
  next
    case False
    then have h: "held_mark fl user expires (os_state (pt_op y))"
      using assms by (auto simp: ended_def portal_ok_def)
    have "held_mark fl user expires (os_state (pt_op (snd (portal_step be e y))))"
    proof (cases e)
      case (PeCase oc ev)
      with h t have "after_mark oc user expires (pt_op y)" by (simp add: after_mark_def)
      from after_op_step [OF this, of ev] PeCase t show ?thesis
        by (simp add: portal_step_def after_mark_def)
    next
      case (PeRequest hc rq fresh m)
      with h False mark_resolve [OF h, of hc rq fresh m] show ?thesis
        by (simp add: portal_step_def case_prod_beta)
    next
      case (PeLogout oc sid e)
      with h show ?thesis
        by (simp add: portal_step_def with_state_def revoke_op_session_def mark_other_rows)
    qed
    with t show ?thesis by (simp add: ended_def)
  qed
qed

lemma resolve_by_cookie:
  assumes "fst (resolve_operator be hc rq fresh m y) = Returned (Some (sid, op, None))"
  obtains user e s where "parse_op_cookie (hc_env hc) (hc_tx hc) (cookie_value (rq_cookie rq) ''vnc_op'')
      (op_bind_ip (hc_env hc) (rq_client_ip rq)) = Some (sid, user, e)"
    "op_session_revoked be (hc_env hc) sid user e (os_state y) = (False, s)"
  using assms
  by (auto simp: resolve_operator_def verify_op_cookie_def
      split: if_splits option.splits prod.splits outcome.splits bool.splits)

lemma parse_not_expired:
  "parse_op_cookie env tx cv ip = Some (sid, user, e) \<Longrightarrow> l_now env < of_int e"
  by (auto simp: parse_op_cookie_def split: option.splits prod.splits if_splits)

lemma ended_blocks:
  assumes "ended fl user expires y" and "portal_ok fl e y" and "float_texts fl"
  shows "\<not> by_old_cookie user expires (fst (portal_step be e y))"
proof
  assume "by_old_cookie user expires (fst (portal_step be e y))"
  then obtain x where x: "fst (portal_step be e y) = Some (user, x)" "x \<le> expires" by (auto simp: by_old_cookie_def)
  then obtain hc rq fresh m sid op sid' where e: "e = PeRequest hc rq fresh m"
    "fst (resolve_operator be hc rq fresh m (pt_op y)) = Returned (Some (sid, op, None))"
    "parse_op_cookie (hc_env hc) (hc_tx hc) (cookie_value (rq_cookie rq) ''vnc_op'')
      (op_bind_ip (hc_env hc) (rq_client_ip rq)) = Some (sid', user, x)"
    by (cases e) (auto simp: portal_step_def case_prod_beta split: outcome.splits option.splits)
  from e(2) e(3) obtain s where r: "op_session_revoked be (hc_env hc) sid' user x (os_state (pt_op y)) = (False, s)"
    by (auto elim: resolve_by_cookie)
  have "l_now (hc_env hc) < of_int x" by (rule parse_not_expired [OF e(3)])
  also have "(of_int x :: rat) \<le> of_int expires" using x(2) by simp
  finally have now: "l_now (hc_env hc) < of_int expires" .
  then have "held_mark fl user expires (os_state (pt_op y))"
    using assms(1,2) e(1) by (auto simp: ended_def portal_ok_def)
  from mark_refuses [OF this now x(2) assms(3)] assms(2) e(1) have "fst (op_session_revoked be (hc_env hc) sid' user x (os_state (pt_op y)))"
    by (simp add: portal_ok_def)
  with r show False by simp
qed

end

interpretation account_change: held_off "portal_step sqlite_backend" "portal_ok fl" "\<lambda>_. float_texts fl"
    "by_old_cookie user expires" "sqlkv.ended fl user expires"
  for fl user expires
  by unfold_locales (simp_all add: sqlkv.ended_step sqlkv.ended_blocks)

subsection \<open>The changes that end sessions\<close>

text \<open>A call that ends the sessions of a user when it succeeds.\<close>

fun ends_sessions :: "op_event \<Rightarrow> string \<Rightarrow> bool" where
  "ends_sessions (OpUpdate perms u role disabled password) user \<longleftrightarrow>
     u = user \<and> (role \<noteq> None \<or> disabled = Some True \<or> password \<noteq> None)"
| "ends_sessions (OpDelete actor u jid) user \<longleftrightarrow> u = user"
| "ends_sessions (OpRevoke actor u jid) user \<longleftrightarrow> u = user"
| "ends_sessions _ user \<longleftrightarrow> False"

definition uc_succeeds :: "('a, 's) use_case \<Rightarrow> bool" where
  "uc_succeeds m \<longleftrightarrow> (\<exists>a. fst m = Returned (Inr a))"

fun op_succeeds :: "'s backend \<Rightarrow> op_call \<times> op_event \<Rightarrow> 's op_state \<Rightarrow> bool" where
  "op_succeeds be (oc, OpCreate perms u password role enabled) y = uc_succeeds (create_operator be oc perms u password role enabled y)"
| "op_succeeds be (oc, OpUpdate perms u role disabled password) y = uc_succeeds (update_operator be oc perms u role disabled password y)"
| "op_succeeds be (oc, OpDelete actor u jid) y = uc_succeeds (delete_operator be oc actor u jid y)"
| "op_succeeds be (oc, OpRestore actor u jid password) y = uc_succeeds (restore_operator be oc actor u jid password y)"
| "op_succeeds be (oc, OpRevoke actor u jid) y = uc_succeeds (revoke_sessions be oc actor u jid y)"
| "op_succeeds be (oc, OpVerify u password) y = (\<exists>op. fst (verify_operator oc u password (os_file y)) = Returned (Some op))"

lemma uc_succeeds_simps [simp]:
  "\<not> uc_succeeds (uc_fail e y)" "uc_succeeds (uc_return a y)" "\<not> uc_succeeds (Raised, y)"
  by (simp_all add: uc_succeeds_def uc_fail_def uc_return_def)

lemma uc_then_succeeds:
  "uc_succeeds (uc_then m f) \<longleftrightarrow> (\<exists>a z. m = (Returned (Inr a), z) \<and> uc_succeeds (f a z))"
  by (cases m) (auto simp: uc_then_def uc_succeeds_def split: outcome.splits sum.splits)

lemma uc_then_done: "m = (Returned (Inr a), z) \<Longrightarrow> uc_then m f = f a z"
  by (simp add: uc_then_def)

context kv_store
begin

lemma revoked_marks:
  assumes "revoke_operator_sessions be env u s = Some s'" and "0 \<le> l_now env"
  shows "held_mark (l_fl env) u (op_expiry env) s'"
  using assms
  by (auto simp: revoke_operator_sessions_def intro!: new_mark split: if_splits) (simp add: op_expiry_def l_secs_def)

lemma update_marks:
  assumes "uc_succeeds (update_operator be oc perms u role disabled password y)"
    and "role \<noteq> None \<or> disabled = Some True \<or> password \<noteq> None" and "0 \<le> l_now (oc_env oc)"
  shows "held_mark (l_fl (oc_env oc)) u (op_expiry (oc_env oc))
    (os_state (snd (update_operator be oc perms u role disabled password y)))"
proof -
  let ?P = "\<lambda>m. uc_succeeds m \<longrightarrow> held_mark (l_fl (oc_env oc)) u (op_expiry (oc_env oc)) (os_state (snd m))"
  have 5: "?P (uc_then (account_record oc u z) (\<lambda>rec. uc_return (f rec)))"
    if "held_mark (l_fl (oc_env oc)) u (op_expiry (oc_env oc)) (os_state z)"
    for z and f :: "pyval \<Rightarrow> update_result"
    using that by (auto intro!: uc_then_keeps [where P = "\<lambda>z. held_mark (l_fl (oc_env oc)) u (op_expiry (oc_env oc)) (os_state z)"])
  have 4: "?P (uc_then (if \<not> r then uc_return () z
      else (case revoke_operator_sessions be (oc_env oc) u (os_state z) of
              None \<Rightarrow> (Raised, z) | Some s \<Rightarrow> uc_return () (z\<lparr>os_state := s\<rparr>)))
      (\<lambda>_ y. uc_then (account_record oc u y) (\<lambda>rec. uc_return (f rec))))"
    if r for z r and f :: "pyval \<Rightarrow> update_result"
  proof (cases "revoke_operator_sessions be (oc_env oc) u (os_state z)")
    case (Some s)
    with 5 [of "z\<lparr>os_state := s\<rparr>" f] revoked_marks [OF Some assms(3)] that show ?thesis
      by (simp add: uc_then_done [OF uc_return_def])
  qed (use that in \<open>simp add: uc_then_succeeds uc_return_def\<close>)
  have thn: "?P (uc_then m g)" if "\<And>a z. ?P (g a z)" for m :: "(unit, 's) use_case" and g :: "unit \<Rightarrow> 's op_state \<Rightarrow> (update_result, 's) use_case"
    using that by (auto simp: uc_then_succeeds uc_then_done)
  have found: "?P (case map_of (load_accounts oc (os_file y)) u of None \<Rightarrow> uc_fail ErrNotFound y
      | Some PNone \<Rightarrow> uc_fail ErrNotFound y | Some _ \<Rightarrow> m)" if "?P m" for m :: "(update_result, 's) use_case"
    using that by (simp split: option.split pyval.split)
  have "?P (update_operator be oc perms u role disabled password y)"
    unfolding update_operator_def Let_def
    by (rule found, rule thn, rule thn, rule thn, rule 4 [OF assms(2)])
  with assms(1) show ?thesis by blast
qed

lemma delete_marks:
  assumes "uc_succeeds (delete_operator be oc actor u jid y)" and "0 \<le> l_now (oc_env oc)"
  shows "held_mark (l_fl (oc_env oc)) u (op_expiry (oc_env oc))
    (os_state (snd (delete_operator be oc actor u jid y)))"
proof -
  let ?P = "\<lambda>m. uc_succeeds m \<longrightarrow> held_mark (l_fl (oc_env oc)) u (op_expiry (oc_env oc)) (os_state (snd m))"
  have rest: "?P (case remove_user oc u (os_file w) of (Raised, _) \<Rightarrow> (Raised, f1)
      | (Returned False, _) \<Rightarrow> uc_fail ErrInvalid f2
      | (Returned True, fl) \<Rightarrow> (case revoke_operator_sessions be (oc_env oc) u (os_state (z\<lparr>os_file := fl\<rparr>)) of
          None \<Rightarrow> (Raised, f3 fl)
        | Some s \<Rightarrow> uc_return () (with_state (job_finish be (oc_env oc) jid t) (z\<lparr>os_file := fl, os_state := s\<rparr>))))"
    for w z :: "'s op_state" and f1 f2 f3 t
    by (auto simp: with_state_def assms(2) intro!: mark_jobs revoked_marks
        split: prod.split outcome.split bool.split option.split)
  have guard: "?P (uc_then m g)" if "\<And>a z. ?P (g a z)" for m :: "(unit, 's) use_case" and g :: "unit \<Rightarrow> 's op_state \<Rightarrow> (unit, 's) use_case"
    using that by (auto simp: uc_then_succeeds uc_then_done)
  have "?P (delete_operator be oc actor u jid y)"
    unfolding delete_operator_def Let_def
    by (simp only: split: option.split pyval.split) (auto simp only: uc_succeeds_simps intro!: guard rest)
  with assms(1) show ?thesis by blast
qed

lemma revoke_marks:
  assumes "uc_succeeds (revoke_sessions be oc actor u jid y)" and "0 \<le> l_now (oc_env oc)"
  shows "held_mark (l_fl (oc_env oc)) u (op_expiry (oc_env oc))
    (os_state (snd (revoke_sessions be oc actor u jid y)))"
  using assms
  by (auto simp: revoke_sessions_def Let_def with_state_def
      intro!: mark_jobs revoked_marks split: option.splits pyval.splits)

lemma change_ends:
  assumes "ends_sessions ev user" and "op_succeeds be (oc, ev) (pt_op y)" and "0 \<le> l_now (oc_env oc)"
  shows "ended (l_fl (oc_env oc)) user (op_expiry (oc_env oc)) (snd (portal_step be (PeCase oc ev) y))"
  using assms
  by (cases ev)
    (auto simp: ended_def portal_step_def update_marks delete_marks revoke_marks, auto simp: op_expiry_def l_secs_def)

end

end
