(* ===== verification/PortalCap.thy ===== *)
theory PortalCap
  imports PortalRuns
begin

text \<open>
  The cap on an account's sessions: indexing a new session leaves at most ten live ones in the index,
  and every session that was pushed out is marked revoked until it would have expired.
\<close>

text \<open>Every key of the index is a user, a NUL and a session id.\<close>

definition user_key :: "string \<Rightarrow> string \<Rightarrow> string" where
  "user_key u sid = u @ [nul] @ sid"

lemma user_key_inject [simp]: "user_key u a = user_key u b \<longleftrightarrow> a = b"
  by (simp add: user_key_def)

context scan_store
begin

abbreviation session_row :: "'s \<Rightarrow> string \<Rightarrow> entry option" where
  "session_row s k \<equiv> look s (ns_op_sessions, k)"

text \<open>The expiry a live row holds.\<close>

definition row_expiry :: "time \<Rightarrow> 's \<Rightarrow> string \<Rightarrow> int option" where
  "row_expiry now s k = Option.bind (live now (session_row s k)) (\<lambda>v. int_of (py_or v (PInt 0)))"

definition good_row :: "login_env \<Rightarrow> 's \<Rightarrow> string \<Rightarrow> int \<Rightarrow> bool" where
  "good_row env s k e \<longleftrightarrow> row_expiry (l_now env) s k = Some e \<and> l_secs env < e"

lemma live_get:
  assumes "live now (look s (n, k)) = Some v"
  shows "fst (b_get be now n k s) = v" "look (snd (b_get be now n k s)) = look s"
  using assms get_look [of now s n k] by (simp_all add: get_val val_or_none_def)

text \<open>One row of the index.\<close>

lemma index_row_look:
  assumes "live (l_now env) (session_row s k) = Some v"
  shows "look (snd (index_row be env u (a, s) k)) =
      (if \<exists>e. good_row env s k e then look s else (look s)((ns_op_sessions, k) := None))"
    and "fst (index_row be env u (a, s) k) =
      (case row_expiry (l_now env) s k of
         None \<Rightarrow> a
       | Some e \<Rightarrow>
           if l_secs env < e \<and> fst (case split_first nul k of Some p \<Rightarrow> p | None \<Rightarrow> (k, [])) = u
           then a @ [(e, snd (case split_first nul k of Some p \<Rightarrow> p | None \<Rightarrow> (k, [])))] else a)"
  using live_get [OF assms] assms
  by (auto simp: index_row_def good_row_def row_expiry_def case_prod_beta delete_look split: option.split)

lemma index_row_user:
  assumes "live (l_now env) (session_row s k) = Some v" and "nul \<in> set k" and "nul \<notin> set u"
  shows "(\<exists>sid e. k = user_key u sid \<and> good_row env s k e \<and> fst (index_row be env u (a, s) k) = a @ [(e, sid)]) \<or>
    ((\<forall>sid e. k = user_key u sid \<longrightarrow> \<not> good_row env s k e) \<and> fst (index_row be env u (a, s) k) = a)"
proof -
  obtain us sid where k: "split_first nul k = Some (us, sid)"
    using assms(2) by (cases "split_first nul k") (simp, force)
  then have k': "k = us @ nul # sid" "nul \<notin> set us" by (simp_all add: split_first_Some)
  have same: "us = u" if "k = user_key u x" for x
    using that k split_first_append [OF assms(3), of x] by (simp add: user_key_def)
  show ?thesis
  proof (cases "us = u \<and> (\<exists>e. good_row env s k e)")
    case True
    then obtain e where "us = u" "good_row env s k e" by blast
    moreover from this have "fst (index_row be env u (a, s) k) = a @ [(e, sid)]"
      using k by (simp add: index_row_look(2) [OF assms(1)] good_row_def)
    ultimately show ?thesis using k'(1) by (auto simp: user_key_def)
  next
    case False
    then have "\<forall>x e. k = user_key u x \<longrightarrow> \<not> good_row env s k e" using same by blast
    moreover have "fst (index_row be env u (a, s) k) = a"
      using False k by (auto simp: index_row_look(2) [OF assms(1)] good_row_def split: option.split)
    ultimately show ?thesis by blast
  qed
qed

lemma row_expiry_same: "session_row s' k = session_row s k \<Longrightarrow> row_expiry now s' k = row_expiry now s k"
  by (simp add: row_expiry_def)

lemma index_rows:
  assumes "distinct ks" and "\<forall>k \<in> set ks. live (l_now env) (session_row s k) \<noteq> None \<and> nul \<in> set k" and "nul \<notin> set u"
  shows "look (snd (foldl (index_row be env u) (a, s) ks)) =
      (\<lambda>x. if \<exists>k \<in> set ks. x = (ns_op_sessions, k) \<and> (\<forall>e. \<not> good_row env s k e) then None else look s x)" (is "?L a s ks")
    and "\<exists>b. fst (foldl (index_row be env u) (a, s) ks) = a @ b \<and> distinct (map snd b) \<and>
      set b = {(e, sid). user_key u sid \<in> set ks \<and> good_row env s (user_key u sid) e}" (is "?B a s ks")
proof -
  have "?L a s ks \<and> ?B a s ks"
    using assms(1,2)
  proof (induction ks arbitrary: a s)
    case (Cons k ks)
    obtain v where v: "live (l_now env) (session_row s k) = Some v" and nk: "nul \<in> set k" using Cons.prems by auto
    obtain a1 s1 where r: "index_row be env u (a, s) k = (a1, s1)" by fastforce
    have look1: "look s1 = (if \<exists>e. good_row env s k e then look s else (look s)((ns_op_sessions, k) := None))"
      using index_row_look(1) [OF v, of u a] r by simp
    then have same: "session_row s1 k' = session_row s k'" if "k' \<noteq> k" for k' using that by simp
    have ne: "k' \<noteq> k" if "k' \<in> set ks" for k' using that Cons.prems(1) by auto
    then have pre: "\<forall>k \<in> set ks. live (l_now env) (session_row s1 k) \<noteq> None \<and> nul \<in> set k"
      using Cons.prems(2) same by simp
    have good: "good_row env s1 k' e = good_row env s k' e" if "k' \<in> set ks" for k' e
      unfolding good_row_def row_expiry_same [OF same [OF ne [OF that]]] ..
    have L: "?L a1 s1 ks" and "?B a1 s1 ks" using Cons.IH [of s1 a1] Cons.prems(1) pre by simp_all
    then obtain b where b: "fst (foldl (index_row be env u) (a1, s1) ks) = a1 @ b" "distinct (map snd b)"
      "set b = {(e, sid). user_key u sid \<in> set ks \<and> good_row env s1 (user_key u sid) e}" by blast
    have b3: "set b = {(e, sid). user_key u sid \<in> set ks \<and> good_row env s (user_key u sid) e}"
      using b(3) good by auto
    have "?L a s (k # ks)"
    proof -
      have "look (snd (foldl (index_row be env u) (a, s) (k # ks))) x =
        (if \<exists>k \<in> set (k # ks). x = (ns_op_sessions, k) \<and> (\<forall>e. \<not> good_row env s k e) then None else look s x)" for x
        using fun_cong [OF L, of x] r look1 good by (auto split: if_splits)
      then show ?thesis by blast
    qed
    moreover have "?B a s (k # ks)"
      using index_row_user [OF v nk assms(3), of a]
    proof
      assume "\<exists>sid e. k = user_key u sid \<and> good_row env s k e \<and> fst (index_row be env u (a, s) k) = a @ [(e, sid)]"
      then obtain sid e where se: "k = user_key u sid" "good_row env s k e" "a1 = a @ [(e, sid)]" using r by auto
      have "sid \<notin> snd ` set b" using b3 ne se(1) by force
      moreover have "set ((e, sid) # b) = {(e, sid). user_key u sid \<in> set (k # ks) \<and> good_row env s (user_key u sid) e}"
        using b3 se(1,2) by (auto simp: good_row_def)
      ultimately show ?thesis
        using b(1,2) se r by (intro exI [of _ "(e, sid) # b"]) simp
    next
      assume n: "(\<forall>sid e. k = user_key u sid \<longrightarrow> \<not> good_row env s k e) \<and> fst (index_row be env u (a, s) k) = a"
      then have "set b = {(e, sid). user_key u sid \<in> set (k # ks) \<and> good_row env s (user_key u sid) e}"
        using b3 by auto
      with n b(1,2) r show ?thesis by (intro exI [of _ b]) simp
    qed
    ultimately show ?case by blast
  qed simp
  then show "?L a s ks" "?B a s ks" by blast+
qed

section \<open>Eviction\<close>

definition evicted :: "login_env \<Rightarrow> string \<Rightarrow> (int \<times> string) set \<Rightarrow> 's \<Rightarrow> 's \<Rightarrow> bool" where
  "evicted env u gone s s' \<longleftrightarrow>
     (\<forall>k. session_row s' k = (if k \<in> user_key u ` snd ` gone then None else session_row s k)) \<and>
     (\<forall>(e, sid) \<in> gone. row_until (ns_op_revoked, sid) truthy (of_int e) s') \<and>
     (\<forall>sid. sid \<notin> snd ` gone \<longrightarrow> look s' (ns_op_revoked, sid) = look s (ns_op_revoked, sid))"

lemma evict_step_look:
  "session_row (b_delete be ns_op_sessions (u @ [nul] @ sid) (revoke_op_session be env sid e s)) k =
     (if k = user_key u sid then None else session_row s k)"
  "look (b_delete be ns_op_sessions (u @ [nul] @ sid) (revoke_op_session be env sid e s)) (ns_op_revoked, sid') =
     (if sid' = sid then Some (PStr ''1'', Some (l_now env + of_int (max 1 (e - l_secs env)))) else look s (ns_op_revoked, sid'))"
  by (auto simp: delete_look set_ttl_look revoke_op_session_def user_key_def)

lemma evicted_insert:
  assumes ev: "evicted env u gone s1 s'" and row: "\<And>k. session_row s1 k = (if k = user_key u sid then None else session_row s k)"
    and mark: "\<And>x. look s1 (ns_op_revoked, x) =
      (if x = sid then Some (PStr ''1'', Some t) else look s (ns_op_revoked, x))"
    and "of_int e \<le> t" and sid: "sid \<notin> snd ` gone"
  shows "evicted env u (insert (e, sid) gone) s s'"
  unfolding evicted_def
proof (intro conjI allI)
  fix k
  show "session_row s' k = (if k \<in> user_key u ` snd ` insert (e, sid) gone then None else session_row s k)"
    using ev row [of k] by (auto simp: evicted_def)
  have "look s' (ns_op_revoked, sid) = Some (PStr ''1'', Some t)" using ev mark sid by (simp add: evicted_def)
  then show "\<forall>(e, x) \<in> insert (e, sid) gone. row_until (ns_op_revoked, x) truthy (of_int e) s'"
    using ev assms(4) by (simp add: evicted_def row_until_def)
  fix x
  show "x \<notin> snd ` insert (e, sid) gone \<longrightarrow> look s' (ns_op_revoked, x) = look s (ns_op_revoked, x)"
    using ev mark [of x] by (simp add: evicted_def)
qed

lemma revoked_covers: "0 \<le> l_now env \<Longrightarrow> of_int e \<le> l_now env + of_int (max 1 (e - l_secs env))"
proof -
  assume "0 \<le> l_now env"
  then have "of_int (l_secs env) \<le> l_now env" using trunc_le by (simp add: l_secs_def)
  moreover have "(of_int (e - l_secs env) :: rat) \<le> of_int (max 1 (e - l_secs env))" by simp
  ultimately show ?thesis by simp
qed

lemma evict_spec:
  assumes "0 \<le> l_now env"
  shows "distinct (map snd active) \<Longrightarrow>
    \<exists>kept. length kept < op_session_max \<and> set kept \<subseteq> set active \<and>
      evicted env u (set active - set kept) s (evict be env u active s)"
proof (induction "length active" arbitrary: active s rule: less_induct)
  case less
  show ?case
  proof (cases "length active < op_session_max")
    case True
    then show ?thesis
      by (intro exI [of _ active]) (subst evict.simps, simp add: evicted_def)
  next
    case False
    obtain e sid where o: "oldest active = (e, sid)" by (cases "oldest active")
    have "active \<noteq> []" using False by auto
    then have o_in: "(e, sid) \<in> set active" using oldest_in [of active] o by simp
    let ?rest = "remove1 (e, sid) active"
    let ?s = "b_delete be ns_op_sessions (u @ [nul] @ sid) (revoke_op_session be env sid e s)"
    have d: "distinct active" using less.prems by (simp add: distinct_map)
    then have rest: "set ?rest = set active - {(e, sid)}" by simp
    have "distinct (map snd ?rest)" using less.prems by (simp add: distinct_map inj_on_diff)
    moreover have "length ?rest < length active" using o_in \<open>active \<noteq> []\<close> by (simp add: length_remove1)
    ultimately obtain kept where k: "length kept < op_session_max" "set kept \<subseteq> set ?rest"
      "evicted env u (set ?rest - set kept) ?s (evict be env u ?rest ?s)"
      using less.hyps [of ?rest ?s] by blast
    have e: "evict be env u active s = evict be env u ?rest ?s"
      using False o by (subst evict.simps) simp
    have g: "set active - set kept = insert (e, sid) (set ?rest - set kept)"
      using k(2) rest o_in by auto
    have sid: "sid \<notin> snd ` (set ?rest - set kept)"
      using less.prems o_in rest by (force simp: distinct_map inj_on_def)
    from k(3) have "evicted env u (insert (e, sid) (set ?rest - set kept)) s (evict be env u ?rest ?s)"
      by (rule evicted_insert) (use sid revoked_covers [OF assms, of e] evict_step_look in simp_all)
    with k(1,2) rest e g show ?thesis by (intro exI [of _ kept]) auto
  qed
qed

section \<open>Indexing a session\<close>

lemma index_session:
  assumes "wf s" and "l_up env" and "0 \<le> l_now env" and "nul \<notin> set u"
    and keys: "\<forall>k. live (l_now env) (session_row s k) \<noteq> None \<longrightarrow> nul \<in> set k"
  shows "card {x. \<exists>e. good_row env (index_op_session be env u sid expires s) (user_key u x) e} \<le> op_session_max" (is ?A)
    and "good_row env s (user_key u x) e \<Longrightarrow> x \<noteq> sid \<Longrightarrow>
      good_row env (index_op_session be env u sid expires s) (user_key u x) e \<or>
      row_until (ns_op_revoked, x) truthy (of_int e) (index_op_session be env u sid expires s)"
proof -
  let ?ks = "b_list_keys be (l_now env) ns_op_sessions [] s"
  let ?f = "foldl (index_row be env u) ([], s) ?ks"
  let ?v = "(PStr (int_str expires), Some (l_now env + of_int op_session_ttl))"
  have ks: "distinct ?ks" "set ?ks = {k. live (l_now env) (session_row s k) \<noteq> None}"
    using scan [OF assms(1), of "l_now env" ns_op_sessions "[]"] scan_distinct [OF assms(1)] by simp_all
  then have pre: "\<forall>k \<in> set ?ks. live (l_now env) (session_row s k) \<noteq> None \<and> nul \<in> set k" using keys by simp
  note rows = index_rows [OF ks(1) pre assms(4), where a = "[]"]
  have good_in: "user_key u x \<in> set ?ks" if "good_row env s (user_key u x) e" for x e
    using that by (auto simp: ks(2) good_row_def row_expiry_def bind_eq_Some_conv)
  then have active: "distinct (map snd (fst ?f))" "set (fst ?f) = {(e, x). good_row env s (user_key u x) e}"
    using rows(2) by auto
  obtain kept where kept: "length kept < op_session_max" "set kept \<subseteq> set (fst ?f)"
    "evicted env u (set (fst ?f) - set kept) (snd ?f) (evict be env u (fst ?f) (snd ?f))"
    using evict_spec [OF assms(3) active(1)] by blast
  let ?gone = "set (fst ?f) - set kept"
  let ?s = "index_op_session be env u sid expires s"
  have s: "look ?s = (look (evict be env u (fst ?f) (snd ?f)))((ns_op_sessions, user_key u sid) \<mapsto> ?v)"
    using assms(2) by (simp add: index_op_session_def case_prod_beta set_ttl_look user_key_def)
  have row: "session_row ?s (user_key u x) = (if x \<in> snd ` ?gone then None else
      if live (l_now env) (session_row s (user_key u x)) \<noteq> None \<and> (\<forall>e. \<not> good_row env s (user_key u x) e) then None
      else session_row s (user_key u x))" if "x \<noteq> sid" for x
    using that kept(3) by (auto simp: s evicted_def rows(1) ks(2) image_iff)
  have stays: "good_row env ?s (user_key u x) e \<longleftrightarrow> good_row env s (user_key u x) e \<and> x \<notin> snd ` ?gone" if "x \<noteq> sid" for x e
    unfolding good_row_def row_expiry_def row [OF that] by (auto simp: good_row_def row_expiry_def live_def)
  have "{x. \<exists>e. good_row env ?s (user_key u x) e} \<subseteq> insert sid (snd ` set kept)"
  proof
    fix x assume "x \<in> {x. \<exists>e. good_row env ?s (user_key u x) e}"
    then obtain e where e: "good_row env ?s (user_key u x) e" by blast
    show "x \<in> insert sid (snd ` set kept)"
    proof (cases "x = sid")
      case False
      with e stays have "good_row env s (user_key u x) e" "x \<notin> snd ` ?gone" by blast+
      then have "(e, x) \<in> set (fst ?f)" "(e, x) \<notin> ?gone" by (auto simp: active(2) intro: rev_image_eqI)
      then show ?thesis by (auto intro: rev_image_eqI)
    qed simp
  qed
  then have "card {x. \<exists>e. good_row env ?s (user_key u x) e} \<le> card (insert sid (snd ` set kept))"
    by (rule card_mono [rotated]) simp
  also have "\<dots> \<le> Suc (card (snd ` set kept))" by (rule card_insert_le_m1) simp_all
  also have "card (snd ` set kept) \<le> length kept"
    by (metis card_length length_map set_map)
  finally show ?A using kept(1) by simp
  show "good_row env ?s (user_key u x) e \<or> row_until (ns_op_revoked, x) truthy (of_int e) ?s"
    if "good_row env s (user_key u x) e" "x \<noteq> sid"
  proof (cases "x \<in> snd ` ?gone")
    case True
    then obtain e' where g: "(e', x) \<in> ?gone" by auto
    then have "e' = e" using that(1) by (simp add: active(2) good_row_def)
    have "\<forall>(e, x) \<in> ?gone. row_until (ns_op_revoked, x) truthy (of_int e) (evict be env u (fst ?f) (snd ?f))"
      using kept(3) by (simp add: evicted_def)
    from bspec [OF this g] \<open>e' = e\<close>
    have "row_until (ns_op_revoked, x) truthy (of_int e) (evict be env u (fst ?f) (snd ?f))" by simp
    then show ?thesis by (simp add: row_until_def s)
  qed (use that stays in blast)
qed

end

end
