(* ===== verification/JobRuns.thy ===== *)
theory JobRuns
  imports Jobs
begin

text \<open>
  The processes that queue destructive operations and the detached runners that execute them, over one
  shared state.  A job is executed at most once within the hour its claim lasts (an instance of
  \<open>won_once\<close>), and two operations never overlap as long as each job has one runner and each
  operation ends within its lease; the last section shows what happens otherwise.
\<close>

datatype job_event =
    JeQueue login_env string string string string "(string \<times> pyval) list"
      \<comment> \<open>job id, actor, kind, target, payload\<close>
  | JeAbort login_env string string              \<comment> \<open>the runner of a job could not be spawned\<close>
  | JeBegin nat login_env string string          \<comment> \<open>runner, process id, job id\<close>
  | JeProgress nat login_env string string "int option"
  | JeEnd nat login_env "string + bool \<times> string"

record 's job_sys =
  js_state :: 's
  js_run :: "nat \<Rightarrow> string option"    \<comment> \<open>the job a runner is executing\<close>
  js_clock :: time

fun je_env :: "job_event \<Rightarrow> login_env" where
  "je_env (JeQueue env jid actor kind target payload) = env"
| "je_env (JeAbort env jid err) = env"
| "je_env (JeBegin r env pid jid) = env"
| "je_env (JeProgress r env phase detail percent) = env"
| "je_env (JeEnd r env res) = env"

text \<open>The answer is the job whose executor is called.  A runner that is executing does not begin another.\<close>

definition job_step ::
    "'s backend \<Rightarrow> py_texts \<Rightarrow> job_event \<Rightarrow> 's job_sys \<Rightarrow> string option \<times> 's job_sys" where
  "job_step be rp e y0 =
     (let y = y0\<lparr>js_clock := l_now (je_env e)\<rparr>
      in (case e of
            JeQueue env jid actor kind target payload \<Rightarrow>
              (None, y\<lparr>js_state := snd (queue_destructive be env jid actor kind target payload (js_state y))\<rparr>)
          | JeAbort env jid err \<Rightarrow>
              (None, y\<lparr>js_state := snd (spawn_runner be env jid (Inl err) (js_state y))\<rparr>)
          | JeBegin r env pid jid \<Rightarrow>
              if js_run y r \<noteq> None then (None, y)
              else (case run_begin be rp env pid jid (js_state y) of
                      (RunExec op, s) \<Rightarrow> (Some jid, y\<lparr>js_state := s, js_run := (js_run y)(r := Some jid)\<rparr>)
                    | (RunExit n, s) \<Rightarrow> (None, y\<lparr>js_state := s\<rparr>))
          | JeProgress r env phase detail percent \<Rightarrow>
              (case js_run y r of
                 None \<Rightarrow> (None, y)
               | Some jid \<Rightarrow> (None, y\<lparr>js_state := job_progress be env jid phase detail percent (js_state y)\<rparr>))
          | JeEnd r env res \<Rightarrow>
              (case js_run y r of
                 None \<Rightarrow> (None, y)
               | Some jid \<Rightarrow>
                   (None, y\<lparr>js_state := snd (run_end be env jid res (js_state y)), js_run := (js_run y)(r := None)\<rparr>))))"

section \<open>Claims\<close>

context kv_store
begin

text \<open>The ledger only touches its own rows.\<close>

lemma update_job_other: "(n, k) \<noteq> (ns_jobs, jid) \<Longrightarrow> look (update_job be env jid fs s) (n, k) = look s (n, k)"
  by (auto simp: update_job_def get_other set_ttl_look case_prod_beta Let_def
      split: pyval.split option.split prod.splits)

lemma job_rows_other:
  assumes "n \<noteq> ns_jobs"
  shows "look (job_finish be env jid t s) (n, k) = look s (n, k)" "look (job_fail be env jid t s) (n, k) = look s (n, k)"
    "look (job_progress be env jid ph t pc s) (n, k) = look s (n, k)"
    "look (snd (job_get be env jid s)) (n, k) = look s (n, k)"
    "look (snd (job_enqueue be env jid kd a tg pl s)) (n, k) = look s (n, k)"
  using assms
  by (auto simp: job_finish_def job_fail_def job_progress_def job_get_def job_enqueue_def case_prod_beta
      update_job_other get_other set_ttl_look)

lemma job_lock_other: "(n, k) \<noteq> (ns_locks, name) \<Longrightarrow> look (snd (job_lock be env name jid s)) (n, k) = look s (n, k)"
  by (simp add: job_lock_def claim_other)

lemma job_unlock_other: "(n, k) \<noteq> (ns_locks, name) \<Longrightarrow> look (job_unlock be env name jid s) (n, k) = look s (n, k)"
  by (auto simp: job_unlock_def unlock_read_def unlock_drop_def get_other delete_look case_prod_beta split: bool.split)

lemma job_claim_other:
  "n \<noteq> ns_jobs \<Longrightarrow> (n, k) \<noteq> (ns_claims, jid) \<Longrightarrow> look (snd (job_claim be env jid w s)) (n, k) = look s (n, k)"
  by (auto simp: job_claim_def Let_def case_prod_beta claim_other update_job_other split: bool.split)

lemma queue_other:
  "n \<noteq> ns_jobs \<Longrightarrow> n \<noteq> ns_locks \<Longrightarrow>
   look (snd (queue_destructive be env jid actor kind target payload s)) (n, k) = look s (n, k)"
  by (auto simp: queue_destructive_def case_prod_beta Let_def job_rows_other job_lock_other split: bool.split)

lemma run_end_other:
  "n \<noteq> ns_jobs \<Longrightarrow> n \<noteq> ns_locks \<Longrightarrow> look (snd (run_end be env jid res s)) (n, k) = look s (n, k)"
  by (auto simp: run_end_def job_rows_other job_unlock_other split: sum.split bool.split)

text \<open>A claim holds off every other claim of the job while it lasts.\<close>

lemma claimed_by_look: "look s' nk = look s nk \<Longrightarrow> claimed_until nk x s' = claimed_until nk x s"
  by (simp add: claimed_until_def)

lemma job_claim_claims:
  "fst (job_claim be env jid w s) \<Longrightarrow> x \<le> l_now env + claim_lease \<Longrightarrow>
   claimed_until (ns_claims, jid) x (snd (job_claim be env jid w s))"
  by (auto simp: job_claim_def Let_def case_prod_beta claimed_by_look [OF update_job_other] claim_claims
      split: if_splits bool.splits)

lemma job_claim_blocked:
  "claimed_until (ns_claims, jid) x s \<Longrightarrow> l_now env < x \<Longrightarrow> \<not> fst (job_claim be env jid w s)"
  using claimed_blocks by (auto simp: job_claim_def Let_def case_prod_beta split: bool.splits)

lemma job_claim_keeps:
  "claimed_until (ns_claims, j) x s \<Longrightarrow> l_now env < x \<Longrightarrow>
   claimed_until (ns_claims, j) x (snd (job_claim be env jid w s))"
  by (auto simp: job_claim_def Let_def case_prod_beta claimed_by_look [OF update_job_other]
      intro!: claimed_claim split: bool.split)

lemma run_begin_keeps:
  assumes "claimed_until (ns_claims, j) x s" and "l_now env < x"
  shows "claimed_until (ns_claims, j) x (snd (run_begin be rp env pid jid s))"
proof -
  have g: "claimed_until (ns_claims, j) x (snd (job_get be env jid s))"
    using assms(1) by (simp add: claimed_by_look [OF job_rows_other(4)])
  have c: "claimed_until (ns_claims, j) x (snd (job_claim be env jid w (snd (job_get be env jid s))))" for w
    by (rule job_claim_keeps [OF g assms(2)])
  show ?thesis
    using g c
    by (auto simp: run_begin_def case_prod_beta claimed_by_look [OF job_unlock_other]
        claimed_by_look [OF job_rows_other(2)] claimed_by_look [OF job_rows_other(3)]
        split: option.split bool.split)
qed

lemma run_begin_execD:
  assumes "fst (run_begin be rp env pid jid s) = RunExec op"
  shows "l_up env" and "fst (job_claim be env jid (''pid-'' @ pid) (snd (job_get be env jid s)))"
    and "snd (run_begin be rp env pid jid s) =
      job_progress be env jid ''claim'' (''pid='' @ pid) (Some 5)
        (snd (job_claim be env jid (''pid-'' @ pid) (snd (job_get be env jid s))))"
  using assms
  by (auto simp: run_begin_def case_prod_beta job_claim_def Let_def split: option.splits bool.splits if_splits)

end

text \<open>Every step within an hour that ends at \<open>x\<close>.\<close>

definition within_hour :: "time \<Rightarrow> job_event \<Rightarrow> 's job_sys \<Rightarrow> bool" where
  "within_hour x e y \<longleftrightarrow> l_now (je_env e) < x \<and> x \<le> l_now (je_env e) + claim_lease"

lemma job_step_wins:
  assumes "fst (job_step be rp e y) = Some jid"
  obtains r env pid op where "e = JeBegin r env pid jid" "js_run y r = None"
    "fst (run_begin be rp env pid jid (js_state y)) = RunExec op"
    "js_state (snd (job_step be rp e y)) = snd (run_begin be rp env pid jid (js_state y))"
    "js_run (snd (job_step be rp e y)) = (js_run y)(r := Some jid)"
  using assms
  by (cases e) (auto simp: job_step_def Let_def split: option.splits if_splits prod.splits run_begun.splits)

interpretation claims: won_once "job_step sqlite_backend rp" "within_hour x" "\<lambda>_. True" "\<lambda>a. a = Some jid"
    "\<lambda>y. sqlkv.claimed_until (ns_claims, jid) x (js_state y)"
proof (unfold_locales, goal_cases)
  case (2 y e)
  note keep = sqlkv.claimed_by_look [OF sqlkv.queue_other] sqlkv.claimed_by_look [OF sqlkv.job_rows_other(2)]
    sqlkv.claimed_by_look [OF sqlkv.job_rows_other(3)] sqlkv.claimed_by_look [OF sqlkv.job_unlock_other]
    sqlkv.claimed_by_look [OF sqlkv.run_end_other]
  from 2 show ?case
  proof (cases e)
    case (JeBegin r env pid j)
    with 2 have "sqlkv.claimed_until (ns_claims, jid) x (snd (run_begin sqlite_backend rp env pid j (js_state y)))"
      by (intro sqlkv.run_begin_keeps) (simp_all add: within_hour_def)
    with 2 JeBegin show ?thesis
      by (auto simp: job_step_def Let_def split: prod.split run_begun.split)
  qed (auto simp: job_step_def Let_def keep spawn_runner_def split: option.split)
next
  case (3 y e)
  show ?case
  proof
    assume "fst (job_step sqlite_backend rp e y) = Some jid"
    then obtain r env pid op where e: "e = JeBegin r env pid jid"
      "fst (run_begin sqlite_backend rp env pid jid (js_state y)) = RunExec op"
      by (rule job_step_wins)
    have "sqlkv.claimed_until (ns_claims, jid) x (snd (job_get sqlite_backend env jid (js_state y)))"
      using 3 by (simp add: sqlkv.claimed_by_look [OF sqlkv.job_rows_other(4)])
    with 3 e sqlkv.run_begin_execD(2) [OF e(2)] show False
      using sqlkv.job_claim_blocked by (simp add: within_hour_def)
  qed
next
  case (4 y e)
  then obtain r env pid op where e: "e = JeBegin r env pid jid"
    "fst (run_begin sqlite_backend rp env pid jid (js_state y)) = RunExec op"
    "js_state (snd (job_step sqlite_backend rp e y)) = snd (run_begin sqlite_backend rp env pid jid (js_state y))"
    by (auto elim: job_step_wins)
  have "sqlkv.claimed_until (ns_claims, jid) x
      (snd (job_claim sqlite_backend env jid (''pid-'' @ pid) (snd (job_get sqlite_backend env jid (js_state y)))))"
    by (rule sqlkv.job_claim_claims [OF sqlkv.run_begin_execD(2) [OF e(2)]]) (use 4 e in \<open>simp add: within_hour_def\<close>)
  with e show ?case
    by (simp add: sqlkv.run_begin_execD(3) [OF e(2)] sqlkv.claimed_by_look [OF sqlkv.job_rows_other(3)])
qed simp_all

section \<open>The mutex\<close>

context kv_store
begin

abbreviation lock_row :: "'s \<Rightarrow> entry option" where
  "lock_row s \<equiv> look s (ns_locks, destructive_lock)"

text \<open>
  An orderly step: while an operation runs its lease has not ended; a runner begins a job that holds
  the lock and has no other runner; a job whose runner could not be spawned is not running.
\<close>

definition orderly :: "job_event \<Rightarrow> 's job_sys \<Rightarrow> bool" where
  "orderly e y \<longleftrightarrow>
     ((\<exists>r. js_run y r \<noteq> None) \<longrightarrow> (\<forall>v x. lock_row (js_state y) = Some (v, Some x) \<longrightarrow> l_now (je_env e) < x)) \<and>
     (case e of
        JeBegin r env pid jid \<Rightarrow>
          (\<exists>x. lock_row (js_state y) = Some (PStr jid, Some x) \<and> l_now env < x) \<and> (\<forall>q. js_run y q \<noteq> Some jid)
      | JeAbort env jid err \<Rightarrow> \<forall>q. js_run y q \<noteq> Some jid
      | _ \<Rightarrow> True)"

definition exclusive :: "'s job_sys \<Rightarrow> bool" where
  "exclusive y \<longleftrightarrow>
     (\<forall>r jid. js_run y r = Some jid \<longrightarrow> (\<exists>x. lock_row (js_state y) = Some (PStr jid, Some x))) \<and>
     (\<forall>r q. js_run y r \<noteq> None \<longrightarrow> js_run y q \<noteq> None \<longrightarrow> r = q)"

lemma job_lock_held:
  assumes "lock_row s = Some (v, Some x)" and "l_now env < x"
  shows "lock_row (snd (job_lock be env destructive_lock jid s)) = Some (v, Some x)"
  using assms claim_held [OF assms(1), of "l_now env" "PStr jid" "Some lock_lease"]
  by (simp add: job_lock_def claim_look)

lemma job_unlock_foreign:
  assumes "lock_row s = Some (PStr j, Some x)" and "l_now env < x" and "j \<noteq> jid"
  shows "lock_row (job_unlock be env destructive_lock jid s) = Some (PStr j, Some x)"
proof -
  have l: "live (l_now env) (lock_row s) = Some (PStr j)"
    using assms(1,2) by (simp add: live_def expired_def)
  then have "look (snd (b_get be (l_now env) ns_locks destructive_lock s)) = look s"
    using get_look [of "l_now env" s ns_locks destructive_lock] by simp
  moreover have "fst (b_get be (l_now env) ns_locks destructive_lock s) = PStr j"
    using l by (simp add: get_val val_or_none_def)
  ultimately show ?thesis
    using assms(1,3) by (simp add: job_unlock_def unlock_read_def case_prod_beta)
qed

lemma exclusive_run:
  assumes "exclusive y" and "js_run y r = Some jid"
  obtains x where "lock_row (js_state y) = Some (PStr jid, Some x)" "\<And>q. q \<noteq> r \<Longrightarrow> js_run y q = None"
  using assms by (force simp: exclusive_def)

lemma exclusive_idle: "(\<And>r. js_run y r = None) \<Longrightarrow> exclusive y"
  by (simp add: exclusive_def)

lemma exclusive_same_runs:
  assumes "exclusive y" and "js_run y' = js_run y"
    and "\<And>r jid x. js_run y r = Some jid \<Longrightarrow> lock_row (js_state y) = Some (PStr jid, Some x) \<Longrightarrow>
      lock_row (js_state y') = lock_row (js_state y)"
  shows "exclusive y'"
  unfolding exclusive_def
proof (intro conjI allI impI)
  fix r jid assume r: "js_run y' r = Some jid"
  then obtain x where "lock_row (js_state y) = Some (PStr jid, Some x)"
    using assms(1,2) by (auto elim: exclusive_run)
  with assms(3) [of r jid x] r assms(2) show "\<exists>x. lock_row (js_state y') = Some (PStr jid, Some x)" by simp
next
  fix r q assume "js_run y' r \<noteq> None" "js_run y' q \<noteq> None"
  with assms(1,2) show "r = q" by (simp add: exclusive_def)
qed

lemma exclusive_step:
  assumes "exclusive y" and "orderly e y"
  shows "exclusive (snd (job_step be rp e y))"
proof (cases e)
  case (JeQueue env jid actor kind target payload)
  show ?thesis
  proof (rule exclusive_same_runs [OF assms(1)])
    fix r j x
    assume r: "js_run y r = Some j" "lock_row (js_state y) = Some (PStr j, Some x)"
    then have "l_now env < x" using assms(2) JeQueue by (auto simp: orderly_def)
    then have "lock_row (snd (queue_destructive be env jid actor kind target payload (js_state y))) = Some (PStr j, Some x)"
      using r by (auto simp: queue_destructive_def Let_def case_prod_beta job_rows_other job_lock_held split: bool.split)
    with r JeQueue show "lock_row (js_state (snd (job_step be rp e y))) = lock_row (js_state y)"
      by (simp add: job_step_def)
  qed (simp add: JeQueue job_step_def)
next
  case (JeAbort env jid err)
  show ?thesis
  proof (rule exclusive_same_runs [OF assms(1)])
    fix r j x
    assume r: "js_run y r = Some j" "lock_row (js_state y) = Some (PStr j, Some x)"
    then have "l_now env < x" "j \<noteq> jid" using assms(2) JeAbort by (auto simp: orderly_def)
    with r JeAbort show "lock_row (js_state (snd (job_step be rp e y))) = lock_row (js_state y)"
      by (simp add: job_step_def spawn_runner_def job_rows_other job_unlock_foreign)
  qed (simp add: JeAbort job_step_def)
next
  case (JeBegin r env pid jid)
  then obtain x where x: "lock_row (js_state y) = Some (PStr jid, Some x)" and n: "\<And>q. js_run y q \<noteq> Some jid"
    using assms(2) by (auto simp: orderly_def)
  have idle: "js_run y q = None" for q
    using assms(1) x n [of q] by (cases "js_run y q") (auto simp: exclusive_def)
  show ?thesis
  proof (cases "fst (run_begin be rp env pid jid (js_state y))")
    case (RunExit k)
    then show ?thesis
      using idle JeBegin by (intro exclusive_idle) (simp add: job_step_def case_prod_beta)
  next
    case (RunExec op)
    have "lock_row (snd (run_begin be rp env pid jid (js_state y))) = Some (PStr jid, Some x)"
      using x by (simp add: run_begin_execD(3) [OF RunExec] job_rows_other job_claim_other)
    with RunExec show ?thesis
      using idle JeBegin by (auto simp: exclusive_def job_step_def case_prod_beta)
  qed
next
  case (JeProgress r env phase detail percent)
  show ?thesis
    by (rule exclusive_same_runs [OF assms(1)])
      (auto simp: JeProgress job_step_def Let_def job_rows_other split: option.split)
next
  case (JeEnd r env res)
  show ?thesis
  proof (cases "js_run y r")
    case None
    then show ?thesis
      using JeEnd by (intro exclusive_same_runs [OF assms(1)]) (simp_all add: job_step_def)
  next
    case (Some j)
    then have "js_run y q = None" if "q \<noteq> r" for q
      using assms(1) that by (auto elim: exclusive_run)
    with JeEnd Some show ?thesis by (intro exclusive_idle) (simp add: job_step_def)
  qed
qed

lemma exclusive_along:
  assumes "exclusive y" and "along (job_step be rp) orderly es y"
  shows "exclusive (snd (run_steps (job_step be rp) es y))"
  by (rule run_steps_inv [where good = exclusive and ok = orderly, OF exclusive_step assms])

lemma exclusive_one:
  assumes "exclusive y"
  shows "\<exists>r. {q. js_run y q \<noteq> None} \<subseteq> {r}"
proof (cases "\<exists>r. js_run y r \<noteq> None")
  case True
  then obtain r where "js_run y r \<noteq> None" by blast
  with assms have "{q. js_run y q \<noteq> None} \<subseteq> {r}" by (auto simp: exclusive_def)
  then show ?thesis by blast
qed auto

end

end
