(* ===== verification/PortalProperties.thy ===== *)
theory PortalProperties
  imports PortalCap JobRuns LoginProperties
begin

text \<open>
  The properties of the operator accounts, the portal's sessions and the queue of destructive
  operations, each with a witness at a concrete input; the last section shows defects of the code that
  the models make visible.
\<close>

section \<open>A sample deployment\<close>

text \<open>A hash is the password and its salt; there is no other derivation function.\<close>

definition toy_kdf :: kdf where
  "toy_kdf =
     \<lparr> kd_argon2 = (\<lambda>stored password. stored = ''$argon2id$v=19$m=8,t=1,p=1$'' @ password),
       kd_hash = (\<lambda>password salt. ''$argon2id$v=19$m=8,t=1,p=1$'' @ password), kd_stale = (\<lambda>_. False),
       kd_pbkdf2 = (\<lambda>_ _ _ _. None), kd_scrypt = (\<lambda>_ _ _ _ _. None) \<rparr>"

definition hex64 :: mac where
  "hex64 k m = take 64 (nat_str (length k + length m) @ replicate 64 (CHR ''0''))"

lemma mac64_hex64: "mac64 hex64"
proof -
  have "list_all lower_hex (nat_str n)" for n
  proof -
    have "lower_hex c" if "is_digit c" for c
    proof -
      have "list_all (\<lambda>n. lower_hex (char_of n)) [48..<58]" by code_simp
      then have d: "\<forall>n \<in> set [48..<58]. lower_hex (char_of (n :: nat))" by (simp only: list_all_iff)
      have "48 \<le> (of_char c :: nat)" "(of_char c :: nat) < 58"
        using that by (auto simp: is_digit_def digit_val_def Let_def split: if_splits)
      then have "(of_char c :: nat) \<in> set [48..<58]" unfolding set_upt by simp
      with d have "lower_hex (char_of (of_char c :: nat))" by (rule bspec)
      then show ?thesis by (simp only: char_of_char)
    qed
    with nat_str_digits [of n] show ?thesis by (auto simp: list_all_iff)
  qed
  moreover have "lower_hex (CHR ''0'')" by code_simp
  ultimately show ?thesis by (auto simp: mac64_def hex64_def list_all_iff dest!: in_set_takeD)
qed

definition toy_text :: text_io where
  "toy_text = \<lparr> tx_enc = id, tx_dec = Some, tx_replace = id \<rparr>"

lemma toy_text_ok: "text_io_ok toy_text"
  by (simp add: text_io_ok_def toy_text_def)

definition portal_env :: "time \<Rightarrow> login_env" where
  "portal_env now = (toy_login now)\<lparr>l_mac := hex64\<rparr>"

definition toy_call :: "time \<Rightarrow> op_call" where
  "toy_call now =
     \<lparr> oc_env = portal_env now, oc_kdf = toy_kdf, oc_salt = ''s'', oc_dummy = ''$argon2id$v=19$m=8,t=1,p=1$?'',
       oc_writes = True, oc_error = ''error'' \<rparr>"

definition two_accounts :: accounts where
  "two_accounts =
     [(''ann'', PDict [(''password_hash'', PStr ''x''), (''role'', PStr ''admin''), (''disabled'', PBool False)]),
      (''bob'', PDict [(''password_hash'', PStr ''x''), (''role'', PStr ''operator''), (''disabled'', PBool False)])]"

definition toy_file :: "string option" where
  "toy_file = Some (json_dumps ratio_io Spaced (PDict two_accounts))"

lemma toy_loads: "load_accounts (toy_call now) toy_file = two_accounts"
  by (rule load_saved) (simp_all add: toy_call_def portal_env_def toy_login_def json_floats_ratio_io
      two_accounts_def save_accounts_def toy_file_def)

section \<open>Accounts\<close>

text \<open>C27: whatever sequence of use cases runs, whether they succeed, fail or raise half-way,
  an administrator remains: the one configured in the environment, or a stored account with the role
  admin that is not disabled.\<close>

theorem last_admin_kept:
  assumes "json_floats (l_fl (oc_env oc))" and "\<forall>c \<in> set calls. same_deployment oc (fst c)"
    and "admin_remains oc (os_file y)"
  shows "admin_remains oc (os_file (fold (op_step be) calls y))"
  using assms by (rule op_steps_admin)

definition takeover :: "(op_call \<times> op_event) list" where
  "takeover =
     [(toy_call 10, OpDelete ''bob'' ''ann'' ''j1''),
      (toy_call 11, OpUpdate [''admin:*''] ''ann'' None (Some True) None),
      (toy_call 12, OpUpdate [''admin:*''] ''bob'' (Some ''admin'') None None),
      (toy_call 13, OpDelete ''bob'' ''ann'' ''j2'')]"

theorem last_admin_kept_witness:
  "admin_remains (toy_call 1)
     (os_file (fold (op_step memory_backend) takeover \<lparr> os_file = toy_file, os_state = [] \<rparr>))"
proof (rule last_admin_kept)
  show "json_floats (l_fl (oc_env (toy_call 1)))"
    by (simp add: toy_call_def portal_env_def toy_login_def json_floats_ratio_io)
  show "\<forall>c \<in> set takeover. same_deployment (toy_call 1) (fst c)"
    by (simp add: takeover_def same_deployment_def same_format_def landing_set_def environ_get_def toy_call_def
        portal_env_def toy_login_def)
  show "admin_remains (toy_call 1) (os_file \<lparr> os_file = toy_file, os_state = [] \<rparr>)"
    unfolding admin_remains_def admin_at_def
    by (intro disjI2 exI [of _ "''ann''"])
      (simp add: account_def toy_loads, simp add: two_accounts_def enabled_admin_def py_get_def)
qed

section \<open>The portal's cookie\<close>



text \<open>C28: when a change of an account's role or password, its disabling, its removal
  or the revocation of its sessions has succeeded, no later request of any process is let in by a
  cookie the account was issued up to that second, whatever other calls and requests happen.\<close>

theorem operator_sessions_end:
  assumes "float_texts (l_fl (oc_env oc))" and "0 \<le> l_now (oc_env oc)" and "ends_sessions ev user"
    and "op_succeeds sqlite_backend (oc, ev) (pt_op y)"
    and "along (portal_step sqlite_backend) (portal_ok (l_fl (oc_env oc))) es
      (snd (portal_step sqlite_backend (PeCase oc ev) y))"
  shows "count_of (by_old_cookie user (op_expiry (oc_env oc)))
    (fst (run_steps (portal_step sqlite_backend) es (snd (portal_step sqlite_backend (PeCase oc ev) y)))) = 0"
  by (rule account_change.none_while_held [OF assms(1) sqlkv.change_ends [OF assms(3,4,2)] assms(5)])

definition toy_http :: "time \<Rightarrow> http_call" where
  "toy_http now =
     \<lparr> hc_op = toy_call now, hc_tx = toy_text, hc_generated = [],
       hc_limiter = \<lparr> max_attempts = 5, lockout_seconds = 900, window_seconds = 600, lockout_max_seconds = 86400,
                      escalation = True \<rparr>, hc_rnd = ''r'' \<rparr>"

definition ann_cookie :: string where
  "ann_cookie = mint_op_cookie (portal_env 90) toy_text None ''ann'' ''abcdefgh''"

definition ann_request :: request where
  "ann_request =
     \<lparr> rq_cookie = ''vnc_op='' @ ann_cookie, rq_authorization = [], rq_origin = [], rq_fetch_site = [], rq_csrf = [],
       rq_client_ip = ''10.0.0.9'' \<rparr>"

definition fresh_manager :: stepup_manager where
  "fresh_manager = \<lparr> su_times = [], su_max_age = 300 \<rparr>"

definition ann_portal :: "rows portal" where
  "ann_portal = \<lparr> pt_op = \<lparr> os_file = toy_file, os_state = [] \<rparr>, pt_clock = 95 \<rparr>"

definition later_requests :: "portal_event list" where
  "later_requests =
     [PeRequest (toy_http 101) ann_request ''sid-00000001'' fresh_manager,
      PeCase (toy_call 102) (OpUpdate [''admin:*''] ''ann'' None (Some False) None),
      PeLogout (toy_call 103) ''abcdefgh'' 28890,
      PeRequest (toy_http 20000) ann_request ''sid-00000002'' fresh_manager]"

lemma float_texts_ratio_io: "float_texts ratio_io"
proof -
  have "read_float ratio_io (show_float ratio_io x) = Some x \<and> show_float ratio_io x \<noteq> []" for x
  proof -
    obtain p q where pq: "quotient_of x = (p, q)" by fastforce
    then have q: "0 < q" and x: "x = of_int p / of_int q"
      by (simp_all add: quotient_of_denom_pos quotient_of_div)
    have "show_float ratio_io x = int_str p @ CHR ''.'' # nat_str (nat q)" by (simp add: ratio_io_def pq)
    moreover have "read_float ratio_io (int_str p @ CHR ''.'' # nat_str (nat q)) = Some x"
      using q scan_number_int_str [of "[]" unary_io p]
      by (simp add: ratio_io_def split_first_append dot_not_in_int_str ends_value_def py_digits_nat_str x)
    ultimately show ?thesis by simp
  qed
  then show ?thesis by (simp add: float_texts_def)
qed

theorem operator_sessions_end_witness:
  "count_of (by_old_cookie ''ann'' 28900)
     (fst (run_steps (portal_step sqlite_backend) later_requests
       (snd (portal_step sqlite_backend (PeCase (toy_call 100) (OpRevoke ''root'' ''ann'' ''j1'')) ann_portal)))) = 0"
proof -
  have ok: "op_succeeds sqlite_backend (toy_call 100, OpRevoke ''root'' ''ann'' ''j1'') (pt_op ann_portal)"
    by (simp add: revoke_sessions_def ann_portal_def toy_loads, simp add: two_accounts_def revoke_operator_sessions_def
        toy_call_def portal_env_def toy_login_def Let_def)
  have "along (portal_step sqlite_backend) (portal_ok ratio_io) later_requests
      (snd (portal_step sqlite_backend (PeCase (toy_call 100) (OpRevoke ''root'' ''ann'' ''j1'')) ann_portal))"
    by (simp add: later_requests_def portal_ok_def toy_http_def toy_call_def portal_env_def toy_login_def)
  with operator_sessions_end [of "toy_call 100" "OpRevoke ''root'' ''ann'' ''j1''" "''ann''" ann_portal later_requests] ok
  show ?thesis
    by (simp add: float_texts_ratio_io toy_call_def portal_env_def toy_login_def op_expiry_def l_secs_def trunc_def)
qed

text \<open>C30: issuing a session leaves the account at most ten live sessions in the
  index, and every live one that is no longer there carries a revocation mark that lasts until the
  session's expiry.\<close>

theorem operator_session_cap:
  assumes "rows_wf s" and "l_up env" and "0 \<le> l_now env" and "nul \<notin> set u"
    and "\<forall>k. live (l_now env) (map_of s (ns_op_sessions, k)) \<noteq> None \<longrightarrow> nul \<in> set k"
  shows "card {x. \<exists>e. sqlscan.good_row env (index_op_session sqlite_backend env u sid expires s) (user_key u x) e}
      \<le> op_session_max \<and>
    (\<forall>x e. sqlscan.good_row env s (user_key u x) e \<longrightarrow> x \<noteq> sid \<longrightarrow>
      sqlscan.good_row env (index_op_session sqlite_backend env u sid expires s) (user_key u x) e \<or>
      sqlkv.row_until (ns_op_revoked, x) truthy (of_int e) (index_op_session sqlite_backend env u sid expires s))"
  using sqlscan.index_session [OF assms] by blast

definition ten_sessions :: rows where
  "ten_sessions =
     map (\<lambda>i. ((ns_op_sessions, user_key ''ann'' (nat_str i)), (PStr (int_str (28900 + int i)), Some 29000))) [0..<10]"

lemma ten_sessions_keys: "map_of ten_sessions (ns_op_sessions, k) \<noteq> None \<Longrightarrow> nul \<in> set k"
  by (auto simp: ten_sessions_def user_key_def dest!: map_of_SomeD)

theorem operator_session_cap_witness:
  "card {x. \<exists>e. sqlscan.good_row (portal_env 200)
      (index_op_session sqlite_backend (portal_env 200) ''ann'' ''new'' 29000 ten_sessions) (user_key ''ann'' x) e} \<le> 10 \<and>
   (sqlscan.good_row (portal_env 200)
      (index_op_session sqlite_backend (portal_env 200) ''ann'' ''new'' 29000 ten_sessions) (user_key ''ann'' ''0'') 28900 \<or>
    sqlkv.row_until (ns_op_revoked, ''0'') truthy 28900
      (index_op_session sqlite_backend (portal_env 200) ''ann'' ''new'' 29000 ten_sessions))"
proof -
  have wf: "rows_wf ten_sessions" by code_simp
  have env: "l_up (portal_env 200)" "0 \<le> l_now (portal_env 200)" "nul \<notin> set ''ann''"
    by (simp_all add: portal_env_def toy_login_def)
  have keys: "\<forall>k. live (l_now (portal_env 200)) (map_of ten_sessions (ns_op_sessions, k)) \<noteq> None \<longrightarrow> nul \<in> set k"
    using ten_sessions_keys by (auto simp: live_def split: option.splits)
  have g: "sqlscan.good_row (portal_env 200) ten_sessions (user_key ''ann'' ''0'') 28900"
    unfolding sqlscan.good_row_def sqlscan.row_expiry_def by code_simp
  note cap = operator_session_cap [OF wf env keys, of "''new''" 29000]
  have "''0'' \<noteq> ''new''" by simp
  with cap g have "sqlscan.good_row (portal_env 200)
      (index_op_session sqlite_backend (portal_env 200) ''ann'' ''new'' 29000 ten_sessions) (user_key ''ann'' ''0'') 28900 \<or>
    sqlkv.row_until (ns_op_revoked, ''0'') truthy (of_int 28900)
      (index_op_session sqlite_backend (portal_env 200) ''ann'' ''new'' 29000 ten_sessions)" by blast
  with cap show ?thesis by simp
qed

section \<open>Destructive operations\<close>

text \<open>C31: within the hour a job's claim lasts, at most one runner of any number of
  processes calls the job's executor, however often a runner is spawned for it.\<close>

theorem job_executed_once:
  assumes "along (job_step sqlite_backend rp) (within_hour x) es y"
  shows "count_of (\<lambda>a. a = Some jid) (fst (run_steps (job_step sqlite_backend rp) es y)) \<le> 1"
  using assms by (rule claims.won_at_most_once [OF TrueI])

definition no_jobs :: "rows job_sys" where
  "no_jobs = \<lparr> js_state = [], js_run = (\<lambda>_. None), js_clock = 0 \<rparr>"

definition restore_job :: "time \<Rightarrow> string \<Rightarrow> job_event" where
  "restore_job now jid =
     JeQueue (portal_env now) jid ''ann'' ''restore'' ''b1'' [(''op'', PStr ''backup.restore'')]"

definition toy_texts :: py_texts where
  "toy_texts = \<lparr> py_str = (\<lambda>_. []), py_repr = (\<lambda>t. t) \<rparr>"

definition two_runners :: "job_event list" where
  "two_runners =
     [restore_job 10 ''j1'', JeBegin 0 (portal_env 11) ''7'' ''j1'', JeBegin 1 (portal_env 12) ''8'' ''j1'']"

theorem job_executed_once_witness:
  "count_of (\<lambda>a. a = Some ''j1'') (fst (run_steps (job_step sqlite_backend toy_texts) two_runners no_jobs)) \<le> 1"
proof (rule job_executed_once)
  show "along (job_step sqlite_backend toy_texts) (within_hour 100) two_runners no_jobs"
    by (simp add: two_runners_def restore_job_def within_hour_def portal_env_def toy_login_def)
qed


definition one_runner :: "job_event list" where
  "one_runner =
     [restore_job 10 ''j1'', JeBegin 0 (portal_env 11) ''7'' ''j1'', restore_job 12 ''j2'',
      JeEnd 0 (portal_env 13) (Inr (True, ''ok'')), restore_job 14 ''j3'', JeBegin 1 (portal_env 15) ''8'' ''j3'']"

text \<open>The side condition of a run, computed for the runners that occur in it.\<close>

fun runner_of :: "job_event \<Rightarrow> nat option" where
  "runner_of (JeBegin r env pid jid) = Some r"
| "runner_of _ = None"

definition lock_until :: "rows \<Rightarrow> (string \<times> time) option" where
  "lock_until s = (case map_of s (ns_locks, destructive_lock) of Some (PStr j, Some x) \<Rightarrow> Some (j, x) | _ \<Rightarrow> None)"

definition orderly_on :: "nat list \<Rightarrow> job_event \<Rightarrow> rows job_sys \<Rightarrow> bool" where
  "orderly_on rs e y \<longleftrightarrow>
     (list_all (\<lambda>r. js_run y r = None) rs \<or>
      (case lock_until (js_state y) of Some (j, x) \<Rightarrow> l_now (je_env e) < x | None \<Rightarrow> False)) \<and>
     (case e of
        JeBegin r env pid jid \<Rightarrow>
          (case lock_until (js_state y) of Some (j, x) \<Rightarrow> j = jid \<and> l_now env < x | None \<Rightarrow> False) \<and>
          list_all (\<lambda>q. js_run y q \<noteq> Some jid) rs
      | JeAbort env jid err \<Rightarrow> list_all (\<lambda>q. js_run y q \<noteq> Some jid) rs
      | _ \<Rightarrow> True)"

definition runners_in :: "nat list \<Rightarrow> 's job_sys \<Rightarrow> bool" where
  "runners_in rs y \<longleftrightarrow> (\<forall>q. q \<notin> set rs \<longrightarrow> js_run y q = None)"

lemma orderly_on: "runners_in rs y \<Longrightarrow> orderly_on rs e y \<Longrightarrow> sqlkv.orderly e y"
  by (cases e)
    (auto simp: orderly_on_def sqlkv.orderly_def runners_in_def lock_until_def list_all_iff
      split: option.splits pyval.splits, (metis option.distinct(1))+)

lemma runners_step:
  "runners_in rs y \<Longrightarrow> (case runner_of e of Some r \<Rightarrow> r \<in> set rs | None \<Rightarrow> True) \<Longrightarrow>
   runners_in rs (snd (job_step be rp e y))"
  by (cases e) (auto simp: runners_in_def job_step_def Let_def split: option.split prod.split run_begun.split)

lemma along_orderly:
  "runners_in rs y \<Longrightarrow> list_all (\<lambda>e. case runner_of e of Some r \<Rightarrow> r \<in> set rs | None \<Rightarrow> True) es \<Longrightarrow>
   along (job_step sqlite_backend rp) (orderly_on rs) es y \<Longrightarrow>
   along (job_step sqlite_backend rp) sqlkv.orderly es y"
  by (induction es arbitrary: y) (simp_all add: orderly_on runners_step)


section \<open>Defects the models show\<close>

text \<open>
  A second runner of a job that is already executed exits, but first releases the mutex the running
  operation holds (core/deferred_lifecycle.py): another operation starts beside it.
\<close>

definition overlap_run :: "job_event list" where
  "overlap_run = two_runners @ [restore_job 13 ''j2'', JeBegin 2 (portal_env 14) ''9'' ''j2'']"

lemma double_spawn_overlaps:
  "js_run (snd (run_steps (job_step sqlite_backend toy_texts) overlap_run no_jobs)) 0 = Some ''j1'' \<and>
   js_run (snd (run_steps (job_step sqlite_backend toy_texts) overlap_run no_jobs)) 2 = Some ''j2''"
  by code_simp

text \<open>The mutex is a lease of ten minutes: an operation that takes longer is joined by the next.\<close>

definition long_run :: "job_event list" where
  "long_run =
     [restore_job 10 ''j1'', JeBegin 0 (portal_env 11) ''7'' ''j1'', restore_job 611 ''j2'',
      JeBegin 1 (portal_env 612) ''9'' ''j2'']"

lemma long_run_overlaps:
  "js_run (snd (run_steps (job_step sqlite_backend toy_texts) long_run no_jobs)) 0 = Some ''j1'' \<and>
   js_run (snd (run_steps (job_step sqlite_backend toy_texts) long_run no_jobs)) 1 = Some ''j2''"
  by code_simp

text \<open>The claim of a job ends after an hour, the job itself after a day: a late runner executes it again.\<close>

lemma claim_ends_executed_twice:
  "count_of (\<lambda>a. a = Some ''j1'') (fst (run_steps (job_step sqlite_backend toy_texts)
     [restore_job 10 ''j1'', JeBegin 0 (portal_env 11) ''7'' ''j1'', JeBegin 1 (portal_env 3612) ''8'' ''j1''] no_jobs)) = 2"
  by code_simp

text \<open>A job that was never queued can be claimed.\<close>

lemma unknown_job_claimed: "fst (job_claim sqlite_backend (portal_env 1) ''no such job'' ''w'' [])"
  by code_simp

text \<open>Unlocking reads the owner and deletes in two calls; between them the lease can pass on.\<close>

lemma late_unlock_frees_other:
  "(let s0 = snd (job_lock sqlite_backend (portal_env 10) destructive_lock ''j1'' []);
        (mine, s1) = unlock_read sqlite_backend (portal_env 609) destructive_lock ''j1'' s0;
        (taken, s2) = job_lock sqlite_backend (portal_env 611) destructive_lock ''j2'' s1;
        s3 = unlock_drop sqlite_backend (portal_env 612) destructive_lock s2
    in mine \<and> taken \<and> fst (job_lock sqlite_backend (portal_env 613) destructive_lock ''j3'' s3))"
  by code_simp

text \<open>
  An account named admin shadows the built-in administrator; when it is removed without a mark on its
  sessions, as the command line does, its cookie turns into the built-in administrator's.
\<close>

definition admin_file :: "string option" where
  "admin_file = Some (json_dumps ratio_io Spaced (PDict
     [(''admin'', PDict [(''password_hash'', PStr ''x''), (''role'', PStr ''viewer''), (''disabled'', PBool False)])]))"

lemma stored_admin_removed_escalates:
  "map_option op_permissions (resolve_op_identity (toy_call 10) ''admin'' admin_file) = Some [] \<and>
   map_option op_permissions (resolve_op_identity (toy_call 10) ''admin''
     (snd (remove_user (toy_call 10) ''admin'' admin_file))) = Some [''admin:*'']"
  by code_simp

text \<open>
  The configured administrator counts as viable although a disabled account named admin keeps it out:
  the last account that can administer may be deleted, and the configured password lets nobody in.
\<close>

definition shadow_call :: op_call where
  "shadow_call =
     (toy_call 10)\<lparr>oc_env := (portal_env 10)\<lparr>l_environ := (\<lambda>n. if n = ''LANDING_PASSWORD'' then Some ''pw'' else None)\<rparr>\<rparr>"

definition shadow_file :: "string option" where
  "shadow_file = Some (json_dumps ratio_io Spaced (PDict
     [(''admin'', PDict [(''password_hash'', PStr ''x''), (''role'', PStr ''admin''), (''disabled'', PBool True)]),
      (''ann'', PDict [(''password_hash'', PStr ''x''), (''role'', PStr ''admin''), (''disabled'', PBool False)])]))"

definition after_shadow :: "rows op_state" where
  "after_shadow =
     snd (delete_operator sqlite_backend shadow_call ''ann'' ''ann'' ''j1'' \<lparr> os_file = shadow_file, os_state = [] \<rparr>)"

lemma shadowed_admin_locked_out:
  "map fst (load_accounts shadow_call (os_file after_shadow)) = [''admin''] \<and>
   (case authenticate_landing sqlite_backend ((toy_http 11)\<lparr>hc_op := shadow_call\<rparr>)
      (''Basic '' @ b64_encode ''admin:pw'') [] after_shadow of
      (Returned (ok, _), _) \<Rightarrow> \<not> ok | _ \<Rightarrow> False)"
  by code_simp

text \<open>
  A change that is refused half-way has been applied up to there: the role was written and the
  sessions of the account ended, although the request failed.
\<close>

definition refused_update :: "(update_result, rows) use_case" where
  "refused_update =
     update_operator sqlite_backend (toy_call 10) [''admin:*''] ''ann'' (Some ''admin'') (Some True) None
       \<lparr> os_file = toy_file, os_state = [] \<rparr>"

lemma refused_update_applied:
  "(case fst refused_update of Returned (Inl ErrLastAdmin) \<Rightarrow> True | _ \<Rightarrow> False) \<and>
   fst (b_get sqlite_backend 11 ns_revoked_users ''ann'' (os_state (snd refused_update))) \<noteq> PNone"
  by code_simp

text \<open>Enabling an account ends its sessions, though the answer says that it did not.\<close>

definition enabled_update :: "(update_result, rows) use_case" where
  "enabled_update =
     update_operator sqlite_backend (toy_call 10) [''admin:*''] ''ann'' None (Some False) None
       \<lparr> os_file = toy_file, os_state = [] \<rparr>"

lemma enabling_ends_sessions:
  "(case fst enabled_update of Returned (Inr r) \<Rightarrow> \<not> ur_sessions_revoked r | _ \<Rightarrow> False) \<and>
   fst (b_get sqlite_backend 11 ns_revoked_users ''ann'' (os_state (snd enabled_update))) \<noteq> PNone"
  by code_simp

text \<open>A configured password that is not ASCII lets nobody in: comparing the texts raises TypeError.\<close>

lemma nonascii_password_refused:
  "text_io_ok tx \<Longrightarrow> \<not> ascii password \<Longrightarrow>
   \<not> check_basic_auth tx (''Basic '' @ b64_encode (tx_enc tx (''admin:'' @ password))) ''admin'' password"
  using check_basic_auth_own [of tx "''admin''" password "''admin''" password]
  by (auto simp: ascii_def)

end
