(* ===== verification/OpCatalog.thy ===== *)
theory OpCatalog
  imports Prelude
begin

text \<open>
  The catalog of operations of engine/domain/operations.py: for every manageable action its risk, the
  capability and the authentication it requires, how it runs, and its route.  Titles, command lines and the
  documentation flags (user interface, reversible) are left out.  The lists keep the source's order.
\<close>

section \<open>Entries\<close>

record operation =
  ot_id :: string
  ot_risk :: string
  ot_capability :: string
  ot_auth :: string
  ot_cli :: bool
  ot_api :: bool
  ot_exec :: string
  ot_confirm :: string
  ot_job :: string
  ot_audit :: string
  ot_route :: string

definition spec :: "string \<Rightarrow> string \<Rightarrow> string \<Rightarrow> operation" where
  "spec i risk capability =
     \<lparr> ot_id = i, ot_risk = risk, ot_capability = capability, ot_auth = [], ot_cli = True, ot_api = True,
       ot_exec = ''sync'', ot_confirm = ''none'', ot_job = [], ot_audit = [], ot_route = [] \<rparr>"

section \<open>The registry\<close>

definition system_operations :: "operation list" where
  "system_operations = [
     (spec ''system.version'' ''low'' ''session'')\<lparr>ot_exec := ''sync'',
        ot_route := ''GET /version''\<rparr>,
     (spec ''system.status'' ''low'' ''operator'')\<lparr>ot_route := ''GET /lifecycle''\<rparr>,
     (spec ''system.doctor'' ''low'' ''operator'')\<lparr>ot_route := ''GET /doctor''\<rparr>,
     (spec ''lifecycle.action'' ''critical'' ''admin:*'')\<lparr>ot_auth := ''stepup-bound'',
        ot_exec := ''deferred'', ot_confirm := ''typed'', ot_job := ''lifecycle'',
        ot_audit := ''lifecycle_action'', ot_route := ''POST /lifecycle''\<rparr>]"

definition backup_operations :: "operation list" where
  "backup_operations = [
     (spec ''backup.list'' ''low'' ''operator'')\<lparr>ot_route := ''GET /backups''\<rparr>,
     (spec ''backup.create'' ''moderate'' ''admin:*'')\<lparr>ot_auth := ''stepup-bound'',
        ot_job := ''backup'', ot_audit := ''backup_create'', ot_confirm := ''simple'',
        ot_route := ''POST /backups''\<rparr>,
     (spec ''backup.verify'' ''low'' ''admin:*'')\<lparr>ot_audit := ''backup_verify'',
        ot_route := ''POST /backups/verify''\<rparr>,
     (spec ''backup.restore'' ''critical'' ''admin:*'')\<lparr>ot_auth := ''stepup-bound'',
        ot_exec := ''job'', ot_confirm := ''typed'', ot_job := ''restore'',
        ot_audit := ''backup_restore'', ot_route := ''POST /backups/restore''\<rparr>]"

definition secret_operations :: "operation list" where
  "secret_operations = [
     (spec ''secrets.status'' ''low'' ''admin:*'')\<lparr>ot_route := ''GET /secrets''\<rparr>,
     (spec ''secrets.redact'' ''low'' ''admin:*'')\<lparr>ot_route := ''GET /secrets/{name}''\<rparr>,
     (spec ''secrets.rotate'' ''critical'' ''admin:*'')\<lparr>ot_auth := ''stepup-bound'',
        ot_confirm := ''typed'', ot_job := ''secret_rotate'', ot_audit := ''secret_rotate'',
        ot_route := ''POST /secrets/{name}/rotate''\<rparr>,
     (spec ''secrets.rotate_signing'' ''critical'' ''admin:*'')\<lparr>ot_auth := ''stepup-bound'',
        ot_confirm := ''simple'', ot_audit := ''signing_key_rotate'',
        ot_route := ''POST /secrets/rotate-signing''\<rparr>,
     (spec ''secrets.check'' ''low'' ''admin:*'')\<lparr>ot_audit := ''secrets_check'',
        ot_route := ''POST /secrets/check''\<rparr>,
     (spec ''secrets.recovery_codes'' ''critical'' ''admin:*'')\<lparr>ot_auth := ''stepup-bound'',
        ot_confirm := ''simple'', ot_audit := ''recovery_codes_generate'',
        ot_route := ''POST /secrets/recovery-codes''\<rparr>]"

definition config_operations :: "operation list" where
  "config_operations = [
     (spec ''config.effective'' ''low'' ''admin_config'')\<lparr>ot_route := ''GET /config''\<rparr>,
     (spec ''config.explain'' ''low'' ''admin_config'')
        \<lparr>ot_route := ''GET /config/explain/{name}''\<rparr>,
     (spec ''config.validate'' ''low'' ''admin_config'')\<lparr>ot_route := ''GET /config/validate''\<rparr>,
     (spec ''config.diff'' ''low'' ''admin_config'')\<lparr>ot_route := ''GET /config/diff''\<rparr>,
     (spec ''config.migrate'' ''high'' ''admin_config'')\<lparr>ot_auth := ''stepup-bound'',
        ot_confirm := ''simple'', ot_audit := ''config_migrate'',
        ot_route := ''POST /config/migrate''\<rparr>,
     (spec ''config.history'' ''low'' ''admin_config'')\<lparr>ot_route := ''GET /config/history''\<rparr>,
     (spec ''config.rollback'' ''high'' ''admin_config'')\<lparr>ot_auth := ''stepup-bound'',
        ot_confirm := ''simple'', ot_audit := ''config_rollback'',
        ot_route := ''POST /config/rollback''\<rparr>]"

definition session_operations :: "operation list" where
  "session_operations = [
     (spec ''session.create'' ''high'' ''admin_sessions'')\<lparr>ot_confirm := ''simple'',
        ot_audit := ''ephemeral_session_create'', ot_route := ''POST /sessions''\<rparr>,
     (spec ''session.revoke'' ''moderate'' ''admin_sessions'')\<lparr>ot_confirm := ''simple'',
        ot_audit := ''portal_session_revoke'', ot_route := ''POST /sessions/revoke''\<rparr>,
     (spec ''session.revoke_all'' ''high'' ''admin_sessions'')\<lparr>ot_auth := ''stepup'',
        ot_confirm := ''typed'', ot_audit := ''portal_session_revoke_all'',
        ot_route := ''POST /sessions/revoke-all''\<rparr>,
     (spec ''session.update'' ''low'' ''admin_sessions'')\<lparr>ot_audit := ''session_label'',
        ot_route := ''PATCH /sessions/{token_id}''\<rparr>]"

definition operator_operations :: "operation list" where
  "operator_operations = [
     (spec ''operator.create'' ''high'' ''admin_users'')\<lparr>ot_auth := ''stepup'',
        ot_confirm := ''simple'', ot_audit := ''operator_created'', ot_route := ''POST /operators''\<rparr>,
     (spec ''operator.update'' ''moderate'' ''admin_users'')\<lparr>ot_confirm := ''simple'',
        ot_audit := ''operator_updated'', ot_route := ''PATCH /operators/{username}''\<rparr>,
     (spec ''operator.delete'' ''high'' ''admin_users'')\<lparr>ot_auth := ''stepup'',
        ot_confirm := ''typed'', ot_audit := ''operator_deleted'',
        ot_route := ''DELETE /operators/{username}''\<rparr>,
     (spec ''operator.restore'' ''high'' ''admin_users'')\<lparr>ot_auth := ''stepup'',
        ot_confirm := ''simple'', ot_audit := ''operator_restored'',
        ot_route := ''POST /operators/{username}/restore''\<rparr>,
     (spec ''operator.sessions_revoke_all'' ''moderate'' ''admin_users'')\<lparr>ot_auth := ''stepup'',
        ot_confirm := ''simple'', ot_audit := ''operator_sessions_revoked'',
        ot_route := ''POST /operators/{username}/sessions/revoke-all''\<rparr>]"

definition account_operations :: "operation list" where
  "account_operations = [
     (spec ''system_user.create'' ''high'' ''admin_users'')\<lparr>ot_auth := ''stepup'',
        ot_confirm := ''simple'', ot_audit := ''user_create'', ot_route := ''POST /system-users''\<rparr>,
     (spec ''system_user.delete'' ''high'' ''admin_users'')\<lparr>ot_auth := ''stepup'',
        ot_confirm := ''typed'', ot_audit := ''user_delete'',
        ot_route := ''DELETE /system-users/{username}''\<rparr>,
     (spec ''passkey.register_begin'' ''high'' ''operator'')\<lparr>ot_auth := ''stepup'',
        ot_confirm := ''simple'', ot_cli := False, ot_audit := ''passkey_register_begin'',
        ot_route := ''POST /operators/{username}/passkeys/register/begin''\<rparr>,
     (spec ''passkey.register_complete'' ''high'' ''operator'')\<lparr>ot_auth := ''stepup'',
        ot_confirm := ''simple'', ot_cli := False, ot_audit := ''passkey_registered'',
        ot_route := ''POST /operators/{username}/passkeys/register/complete''\<rparr>,
     (spec ''passkey.rename'' ''low'' ''operator'')\<lparr>ot_cli := False,
        ot_audit := ''passkey_renamed'',
        ot_route := ''PATCH /operators/{username}/passkeys/{credential_ref}''\<rparr>,
     (spec ''passkey.revoke'' ''high'' ''operator'')\<lparr>ot_auth := ''stepup'',
        ot_confirm := ''simple'', ot_cli := False, ot_audit := ''passkey_revoked'',
        ot_route := ''DELETE /operators/{username}/passkeys/{credential_ref}''\<rparr>]"

definition maintenance_operations :: "operation list" where
  "maintenance_operations = [
     (spec ''maintenance.toggle'' ''high'' ''admin:*'')\<lparr>ot_auth := ''stepup'',
        ot_confirm := ''simple'', ot_audit := ''maintenance_changed'',
        ot_route := ''POST /maintenance''\<rparr>,
     (spec ''upgrade.check'' ''low'' ''operator'')\<lparr>ot_route := ''GET /upgrade''\<rparr>,
     (spec ''upgrade.run'' ''critical'' ''admin:*'')\<lparr>ot_auth := ''stepup-bound'',
        ot_exec := ''job'', ot_confirm := ''typed'', ot_job := ''upgrade'',
        ot_audit := ''upgrade_run'', ot_route := ''POST /upgrade''\<rparr>,
     (spec ''upgrade.rollback'' ''critical'' ''admin:*'')\<lparr>ot_auth := ''stepup-bound'',
        ot_exec := ''job'', ot_confirm := ''typed'', ot_job := ''upgrade_rollback'',
        ot_audit := ''upgrade_rollback'', ot_route := ''POST /upgrade/rollback''\<rparr>,
     (spec ''power.action'' ''critical'' ''admin:*'')\<lparr>ot_auth := ''stepup-bound'',
        ot_confirm := ''typed'', ot_audit := ''power_action'', ot_route := ''POST /power''\<rparr>,
     (spec ''power.wol'' ''low'' ''admin:*'')\<lparr>ot_audit := ''power_wol'',
        ot_route := ''POST /power/wol''\<rparr>]"

definition capture_operations :: "operation list" where
  "capture_operations = [
     (spec ''desktop.screenshot'' ''moderate'' ''admin:*'')
        \<lparr>ot_route := ''GET /desktop/screenshot'', ot_audit := ''desktop_screenshot''\<rparr>,
     (spec ''recording.list'' ''low'' ''admin:*'')\<lparr>ot_route := ''GET /recordings''\<rparr>,
     (spec ''recording.get'' ''moderate'' ''admin:*'')\<lparr>ot_route := ''GET /recordings/{id}'',
        ot_audit := ''recording_download''\<rparr>,
     (spec ''recording.start'' ''high'' ''admin:*'')\<lparr>ot_route := ''POST /recordings'',
        ot_audit := ''recording_start''\<rparr>,
     (spec ''recording.stop'' ''moderate'' ''admin:*'')
        \<lparr>ot_route := ''POST /recordings/{id}/stop'', ot_audit := ''recording_stop''\<rparr>,
     (spec ''recording.delete'' ''high'' ''admin:*'')\<lparr>ot_auth := ''stepup-bound'',
        ot_confirm := ''simple'', ot_route := ''DELETE /recordings/{id}'',
        ot_audit := ''recording_delete''\<rparr>]"

definition other_operations :: "operation list" where
  "other_operations = [
     (spec ''gamepad.stop'' ''moderate'' ''admin_sessions'')\<lparr>ot_cli := False,
        ot_route := ''POST /gamepad/stop'', ot_audit := ''portal_gamepad_stop''\<rparr>,
     (spec ''gamepad.resume'' ''moderate'' ''admin_sessions'')\<lparr>ot_cli := False,
        ot_route := ''POST /gamepad/resume'', ot_audit := ''portal_gamepad_resume''\<rparr>,
     (spec ''host.install'' ''critical'' '''')\<lparr>ot_api := False, ot_confirm := ''typed''\<rparr>,
     (spec ''host.uninstall'' ''critical'' '''')\<lparr>ot_api := False, ot_confirm := ''typed''\<rparr>,
     (spec ''host.service'' ''moderate'' '''')\<lparr>ot_api := False\<rparr>,
     (spec ''ui.step_up'' ''low'' ''operator'')\<lparr>ot_cli := False, ot_audit := ''step_up_granted'',
        ot_route := ''POST /step-up''\<rparr>]"

section \<open>Lookups\<close>

definition operations :: "operation list" where
  "operations =
     system_operations @ backup_operations @ secret_operations @ config_operations @ session_operations @
     operator_operations @ account_operations @ maintenance_operations @ capture_operations @
     other_operations"

definition get_operation :: "string \<Rightarrow> operation option" where
  "get_operation i = find (\<lambda>e. ot_id e = i) operations"

definition api_operations :: "operation list" where
  "api_operations = filter ot_api operations"

definition cli_operations :: "operation list" where
  "cli_operations = filter ot_cli operations"

definition step_up_bound_operations :: "string list" where
  "step_up_bound_operations = map ot_id (filter (\<lambda>e. ot_auth e = ''stepup-bound'') operations)"

lemmas catalog_defs =
  system_operations_def backup_operations_def secret_operations_def config_operations_def
  session_operations_def operator_operations_def account_operations_def maintenance_operations_def
  capture_operations_def other_operations_def operations_def

text \<open>The registry is a dictionary: every operation is declared once.\<close>

lemma operation_ids_distinct: "distinct (map ot_id operations)"
  by code_simp

lemma get_operation_id: "get_operation i = Some e \<Longrightarrow> ot_id e = i \<and> e \<in> set operations"
  unfolding get_operation_def by (auto simp: find_Some_iff)

lemma get_operation_member:
  assumes "e \<in> set operations"
  shows "get_operation (ot_id e) = Some e"
proof (cases "get_operation (ot_id e)")
  case None
  then show ?thesis using assms by (auto simp: get_operation_def find_None_iff)
next
  case (Some f)
  have "inj_on ot_id (set operations)"
    using operation_ids_distinct by (simp add: distinct_map)
  then show ?thesis
    using Some get_operation_id [OF Some] assms by (auto dest: inj_onD)
qed

end
