(* ===== verification/ApiRoutes.thy ===== *)
theory ApiRoutes
  imports OpCatalog SharedState
begin

text \<open>
  The route registry of services/api_v1.py: every route of the JSON API with its handler, capability,
  rate-limit scope, audit event, response schema and step-up flag; the budgets of the scopes; and the
  resolution of a method and path.  Handlers are named, they are modelled elsewhere.  A route that
  names an operation of the catalog takes its gate fields from there.
\<close>

section \<open>Rate limits\<close>

text \<open>Requests and seconds of a window.\<close>

definition rate_limits :: "(string \<times> int \<times> int) list" where
  "rate_limits = [
     (''sessions.create'', (30, 60)), (''sessions.revoke'', (60, 60)), (''sessions.revoke-all'',
      (10, 60)), (''doctor'', (6, 60)), (''audit'', (60, 60)), (''audit.verify'', (10, 60)),
      (''session.activate'', (30, 60)), (''session.preview'', (60, 60)), (''operators.create'', (10,
      60)), (''operators.update'', (30, 60)), (''operators.delete'', (10, 60)),
      (''operators.sessions_revoke'', (30, 60)), (''passkeys.register'', (10, 60)),
      (''passkeys.manage'', (30, 60)), (''system_users.manage'', (30, 60)), (''maintenance'', (10,
      60)), (''lifecycle'', (6, 60)), (''backups.write'', (10, 60)), (''secrets.rotate'', (10, 60)),
      (''config.write'', (10, 60)), (''upgrade'', (6, 60)), (''login'', (10, 60)),
      (''passkeys.auth'', (10, 60)), (''stepup'', (10, 60)), (''files.list'', (60, 60)),
      (''files.download'', (60, 60)), (''files.write'', (20, 60)), (''chat'', (120, 60)),
      (''power'', (4, 60)), (''default'', (120, 60))]"

definition rate_budget :: "string \<Rightarrow> int \<times> int" where
  "rate_budget scope =
     (case map_of rate_limits scope of
        Some b \<Rightarrow> b
      | None \<Rightarrow> (case map_of rate_limits ''default'' of Some b \<Rightarrow> b | None \<Rightarrow> (120, 60)))"

section \<open>Routes\<close>

record route =
  rt_fn :: string
  rt_perm :: "string option"
  rt_scope :: string
  rt_audit :: "string option"
  rt_resp :: string
  rt_step_up :: bool
  rt_op :: string

definition direct ::
    "string \<Rightarrow> string option \<Rightarrow> string \<Rightarrow> string option \<Rightarrow> string \<Rightarrow> route option" where
  "direct fn perm scope audit resp =
     Some \<lparr> rt_fn = fn, rt_perm = perm, rt_scope = scope, rt_audit = audit, rt_resp = resp,
            rt_step_up = False, rt_op = [] \<rparr>"

definition filled :: "string \<Rightarrow> string option" where
  "filled s = (if s = [] then None else Some s)"

text \<open>\<open>None\<close>: the assertion on an unknown operation fails.\<close>

definition derived :: "string \<Rightarrow> string \<Rightarrow> string \<Rightarrow> string \<Rightarrow> route option" where
  "derived fn scope resp i =
     map_option (\<lambda>e.
        \<lparr> rt_fn = fn, rt_perm = filled (ot_capability e), rt_scope = scope, rt_audit = filled (ot_audit e),
          rt_resp = resp, rt_step_up = (ot_auth e \<noteq> []), rt_op = i \<rparr>)
       (get_operation i)"

definition portal_routes :: "((string \<times> string) \<times> route option) list" where
  "portal_routes = [
     ((''GET'', ''me''),
        direct ''_get_me'' None ''default'' None ''MeResponse''),
     ((''GET'', ''portal''),
        direct ''_get_portal'' (Some ''session'') ''default'' None ''PortalResponse''),
     ((''GET'', ''status''),
        direct ''_get_status'' None ''default'' None ''StatusResponse''),
     ((''GET'', ''session-context''),
        direct ''_get_session_context'' None ''default'' None ''SessionContextResponse''),
     ((''GET'', ''services''),
        direct ''_get_services'' (Some ''operator'') ''default'' None ''ServicesResponse''),
     ((''GET'', ''sessions''),
        direct ''_get_sessions'' (Some ''admin_sessions'') ''default'' None ''SessionPageResponse''),
     ((''GET'', ''sessions/{token_id}''),
        direct ''_get_session_detail'' (Some ''admin_sessions'') ''default'' None
          ''SessionDetailResponse''),
     ((''GET'', ''files''),
        direct ''_get_files'' (Some ''session'') ''files.list'' None ''FileListResponse''),
     ((''GET'', ''files/download''),
        direct ''_get_files_download'' (Some ''session'') ''files.download'' None ''FileDownloadResponse''),
     ((''POST'', ''files/upload''),
        direct ''_post_files_upload'' (Some ''session'') ''files.write'' (Some ''file_transfer_upload'')
          ''FileWriteResponse''),
     ((''POST'', ''files/mkdir''),
        direct ''_post_files_mkdir'' (Some ''session'') ''files.write'' (Some ''file_transfer_mkdir'')
          ''FileWriteResponse''),
     ((''GET'', ''chat''),
        direct ''_get_chat'' (Some ''session'') ''chat'' None ''ChatResponse''),
     ((''POST'', ''chat''),
        direct ''_post_chat'' (Some ''session'') ''chat'' (Some ''session_chat_message'')
          ''ChatPostResponse''),
     ((''GET'', ''health''),
        direct ''_get_health'' (Some ''operator'') ''default'' None ''HealthResponse''),
     ((''GET'', ''security/posture''),
        direct ''_get_posture'' (Some ''operator'') ''default'' None ''PostureResponse''),
     ((''GET'', ''security/overview''),
        direct ''_get_security_overview'' (Some ''operator'') ''default'' None
          ''SecurityOverviewResponse''),
     ((''GET'', ''doctor''),
        derived ''_get_doctor'' ''doctor'' ''DoctorResponse'' ''system.doctor''),
     ((''GET'', ''audit''),
        direct ''_get_audit'' (Some ''admin_audit'') ''audit'' None ''AuditPageResponse''),
     ((''GET'', ''audit/verify''),
        direct ''_get_audit_verify'' (Some ''admin_audit'') ''audit.verify'' None ''AuditVerifyResponse''),
     ((''GET'', ''config''),
        derived ''_get_config_effective'' ''default'' ''ConfigPageResponse'' ''config.effective''),
     ((''GET'', ''backups''),
        derived ''_get_backups'' ''default'' ''BackupPageResponse'' ''backup.list''),
     ((''GET'', ''operators''),
        direct ''_get_operators'' (Some ''admin_users'') ''default'' None ''OperatorPageResponse''),
     ((''GET'', ''maintenance''),
        direct ''_get_maintenance'' (Some ''operator'') ''default'' None ''MaintenanceResponse''),
     ((''GET'', ''auth/methods''),
        direct ''_get_auth_methods'' (Some ''public'') ''default'' None ''AuthMethodsResponse''),
     ((''POST'', ''auth/login''),
        direct ''_post_auth_login'' (Some ''public'') ''login'' (Some ''operator_login'')
          ''LoginResponse''),
     ((''POST'', ''auth/passkey/begin''),
        direct ''_post_auth_passkey_begin'' (Some ''public'') ''passkeys.auth'' (Some
          ''passkey_auth_begin'') ''PasskeyAuthOptionsResponse''),
     ((''POST'', ''auth/passkey/complete''),
        direct ''_post_auth_passkey_complete'' (Some ''public'') ''passkeys.auth'' (Some
          ''operator_login'') ''LoginResponse''),
     ((''POST'', ''session/preview''),
        direct ''_post_session_preview'' (Some ''public'') ''session.preview'' (Some
          ''session_preview'') ''SessionPreviewResponse''),
     ((''POST'', ''session/activate''),
        direct ''_post_session_activate'' (Some ''public'') ''session.activate'' (Some
          ''ephemeral_session_activate'') ''SessionActivateResponse'')]"

definition admin_routes :: "((string \<times> string) \<times> route option) list" where
  "admin_routes = [
     ((''POST'', ''gamepad/stop''),
        derived ''_post_gamepad_stop'' ''default'' ''GamepadStateResponse'' ''gamepad.stop''),
     ((''POST'', ''gamepad/resume''),
        derived ''_post_gamepad_resume'' ''default'' ''GamepadStateResponse'' ''gamepad.resume''),
     ((''POST'', ''maintenance''),
        derived ''_post_maintenance'' ''maintenance'' ''MaintenanceSetResponse'' ''maintenance.toggle''),
     ((''POST'', ''sessions''),
        derived ''_post_session_create'' ''sessions.create'' ''SessionCreatedResponse'' ''session.create''),
     ((''POST'', ''sessions/revoke''),
        derived ''_post_session_revoke'' ''sessions.revoke'' ''SessionRevokeResponse'' ''session.revoke''),
     ((''PATCH'', ''sessions/{token_id}''),
        derived ''_patch_session_label'' ''sessions.create'' ''SessionUpdateResponse'' ''session.update''),
     ((''POST'', ''sessions/revoke-all''),
        derived ''_post_session_revoke_all'' ''sessions.revoke-all'' ''SessionRevokeResponse''
          ''session.revoke_all''),
     ((''POST'', ''power''),
        derived ''_post_power'' ''power'' ''PowerActionResponse'' ''power.action''),
     ((''POST'', ''power/wol''),
        derived ''_post_power_wol'' ''power'' ''WolResponse'' ''power.wol''),
     ((''GET'', ''desktop/screenshot''),
        derived ''_get_screenshot'' ''power'' ''BinaryResponse'' ''desktop.screenshot''),
     ((''GET'', ''recordings''),
        derived ''_get_recordings'' ''default'' ''RecordingListResponse'' ''recording.list''),
     ((''POST'', ''recordings''),
        derived ''_post_recordings'' ''power'' ''RecordingStartResponse'' ''recording.start''),
     ((''GET'', ''recordings/{id}''),
        derived ''_get_recording'' ''default'' ''BinaryResponse'' ''recording.get''),
     ((''POST'', ''recordings/{id}/stop''),
        derived ''_post_recording_stop'' ''power'' ''RecordingStopResponse'' ''recording.stop''),
     ((''DELETE'', ''recordings/{id}''),
        derived ''_delete_recording'' ''power'' ''RecordingDeleteResponse'' ''recording.delete''),
     ((''POST'', ''logout''),
        direct ''_post_logout'' (Some ''operator'') ''default'' (Some ''portal_logout'')
          ''LogoutResponse''),
     ((''POST'', ''step-up''),
        derived ''_post_step_up'' ''stepup'' ''StepUpResponse'' ''ui.step_up'')]"

definition operator_routes :: "((string \<times> string) \<times> route option) list" where
  "operator_routes = [
     ((''GET'', ''operators/{username}''),
        direct ''_get_operator_detail'' (Some ''admin_users'') ''default'' None ''OperatorResponse''),
     ((''GET'', ''operators/{username}/passkeys''),
        direct ''_get_operator_passkeys'' (Some ''operator'') ''default'' None ''PasskeyPageResponse''),
     ((''POST'', ''operators/{username}/passkeys/register/begin''),
        derived ''_post_passkey_register_begin'' ''passkeys.register'' ''PasskeyOptionsResponse''
          ''passkey.register_begin''),
     ((''POST'', ''operators/{username}/passkeys/register/complete''),
        derived ''_post_passkey_register_complete'' ''passkeys.register'' ''PasskeyRegisteredResponse''
          ''passkey.register_complete''),
     ((''PATCH'', ''operators/{username}/passkeys/{credential_ref}''),
        derived ''_patch_passkey'' ''passkeys.manage'' ''PasskeyRenamedResponse'' ''passkey.rename''),
     ((''DELETE'', ''operators/{username}/passkeys/{credential_ref}''),
        derived ''_delete_passkey'' ''passkeys.manage'' ''DeleteResponse'' ''passkey.revoke''),
     ((''POST'', ''operators''),
        derived ''_post_operator_create'' ''operators.create'' ''OperatorResponse'' ''operator.create''),
     ((''PATCH'', ''operators/{username}''),
        derived ''_patch_operator'' ''operators.update'' ''OperatorResponse'' ''operator.update''),
     ((''DELETE'', ''operators/{username}''),
        derived ''_delete_operator'' ''operators.delete'' ''DeleteResponse'' ''operator.delete''),
     ((''POST'', ''operators/{username}/sessions/revoke-all''),
        derived ''_post_operator_revoke_sessions'' ''operators.sessions_revoke''
          ''SessionRevokeResponse'' ''operator.sessions_revoke_all''),
     ((''GET'', ''jobs''),
        direct ''_get_jobs'' (Some ''admin_audit'') ''default'' None ''JobPageResponse''),
     ((''GET'', ''jobs/{jid}''),
        direct ''_get_job_detail'' (Some ''admin_audit'') ''default'' None ''JobDetailResponse''),
     ((''GET'', ''operators/deleted''),
        direct ''_get_operators_deleted'' (Some ''admin_users'') ''default'' None
          ''DeletedOperatorsResponse''),
     ((''POST'', ''operators/{username}/restore''),
        derived ''_post_operator_restore'' ''operators.create'' ''OperatorResponse'' ''operator.restore''),
     ((''GET'', ''system-users''),
        direct ''_get_system_users'' (Some ''admin_users'') ''default'' None ''SystemUserPageResponse''),
     ((''POST'', ''system-users''),
        derived ''_post_system_user_create'' ''system_users.manage'' ''SystemUserCreatedResponse''
          ''system_user.create''),
     ((''DELETE'', ''system-users/{username}''),
        derived ''_delete_system_user'' ''system_users.manage'' ''DeleteResponse'' ''system_user.delete'')]"

definition parity_routes :: "((string \<times> string) \<times> route option) list" where
  "parity_routes = [
     ((''GET'', ''version''),
        derived ''_get_version'' ''default'' ''VersionResponse'' ''system.version''),
     ((''GET'', ''lifecycle''),
        derived ''_get_lifecycle'' ''default'' ''LifecycleStatusResponse'' ''system.status''),
     ((''POST'', ''lifecycle''),
        derived ''_post_lifecycle'' ''lifecycle'' ''LifecycleActionResponse'' ''lifecycle.action''),
     ((''POST'', ''backups''),
        derived ''_post_backup_create'' ''backups.write'' ''BackupCreatedResponse'' ''backup.create''),
     ((''POST'', ''backups/verify''),
        derived ''_post_backup_verify'' ''default'' ''BackupVerifyResponse'' ''backup.verify''),
     ((''POST'', ''backups/restore''),
        derived ''_post_backup_restore'' ''backups.write'' ''BackupRestoreResponse'' ''backup.restore''),
     ((''GET'', ''secrets''),
        derived ''_get_secrets'' ''default'' ''SecretsResponse'' ''secrets.status''),
     ((''GET'', ''secrets/{name}''),
        derived ''_get_secret_redact'' ''default'' ''SecretRedactResponse'' ''secrets.redact''),
     ((''POST'', ''secrets/{name}/rotate''),
        derived ''_post_secret_rotate'' ''secrets.rotate'' ''SecretRotateResponse'' ''secrets.rotate''),
     ((''POST'', ''secrets/rotate-signing''),
        derived ''_post_secrets_rotate_signing'' ''secrets.rotate'' ''SigningRotateResponse''
          ''secrets.rotate_signing''),
     ((''POST'', ''secrets/check''),
        derived ''_post_secrets_check'' ''default'' ''SecretsCheckResponse'' ''secrets.check''),
     ((''POST'', ''secrets/recovery-codes''),
        derived ''_post_recovery_codes'' ''secrets.rotate'' ''RecoveryCodesResponse''
          ''secrets.recovery_codes''),
     ((''GET'', ''config/effective''),
        derived ''_get_config_effective'' ''default'' ''ConfigPageResponse'' ''config.effective''),
     ((''GET'', ''config/explain/{name}''),
        derived ''_get_config_explain'' ''default'' ''ConfigExplainResponse'' ''config.explain''),
     ((''GET'', ''config/validate''),
        derived ''_get_config_validate'' ''default'' ''ConfigValidateResponse'' ''config.validate''),
     ((''GET'', ''config/diff''),
        derived ''_get_config_diff'' ''default'' ''ConfigDiffResponse'' ''config.diff''),
     ((''POST'', ''config/migrate''),
        derived ''_post_config_migrate'' ''config.write'' ''ConfigMigrateResponse'' ''config.migrate''),
     ((''GET'', ''config/history''),
        derived ''_get_config_history'' ''default'' ''ConfigHistoryResponse'' ''config.history''),
     ((''POST'', ''config/rollback''),
        derived ''_post_config_rollback'' ''config.write'' ''ConfigRollbackResponse'' ''config.rollback''),
     ((''GET'', ''upgrade''),
        derived ''_get_upgrade'' ''default'' ''UpgradeResponse'' ''upgrade.check''),
     ((''POST'', ''upgrade''),
        derived ''_post_upgrade'' ''upgrade'' ''UpgradeRunResponse'' ''upgrade.run''),
     ((''POST'', ''upgrade/rollback''),
        derived ''_post_upgrade_rollback'' ''upgrade'' ''UpgradeRollbackResponse'' ''upgrade.rollback'')]"

definition route_entries :: "((string \<times> string) \<times> route option) list" where
  "route_entries = portal_routes @ admin_routes @ operator_routes @ parity_routes"

text \<open>The registry; the import of the module fails when an entry does.\<close>

definition routes :: "((string \<times> string) \<times> route) list" where
  "routes = concat (map (\<lambda>(k, r). case r of None \<Rightarrow> [] | Some r \<Rightarrow> [(k, r)]) route_entries)"

definition known_perms :: "string list" where
  "known_perms = [''operator'', ''admin_sessions'', ''admin_audit'', ''admin_config'', ''admin_users'',
     ''public'', ''session'', ''admin:*'']"

section \<open>Matching\<close>

text \<open>A template is matched segment by segment; a parameter takes one non-empty segment.\<close>

definition is_param :: "string \<Rightarrow> bool" where
  "is_param seg \<longleftrightarrow> prefix ''{'' seg \<and> suffix ''}'' seg"

definition param_name :: "string \<Rightarrow> string" where
  "param_name seg = butlast (drop 1 seg)"

fun match_segments :: "string list \<Rightarrow> string list \<Rightarrow> (string \<times> string) list option" where
  "match_segments [] [] = Some []"
| "match_segments (p # ps) (x # xs) =
     (if is_param p then
        (if x = [] then None else map_option ((#) (param_name p, x)) (match_segments ps xs))
      else if p = x then match_segments ps xs else None)"
| "match_segments _ _ = None"

text \<open>The end of the pattern also matches before a final line end.\<close>

definition match_template :: "string \<Rightarrow> string \<Rightarrow> (string \<times> string) list option" where
  "match_template template rel =
     (case match_segments (split_all (CHR ''/'') template) (split_all (CHR ''/'') rel) of
        Some ps \<Rightarrow> Some ps
      | None \<Rightarrow>
          if rel \<noteq> [] \<and> last rel = CHR 0x0A
          then match_segments (split_all (CHR ''/'') template) (split_all (CHR ''/'') (butlast rel))
          else None)"

fun match_templates ::
    "string \<Rightarrow> string \<Rightarrow> ((string \<times> string) \<times> route) list \<Rightarrow> (route \<times> (string \<times> string) list) option" where
  "match_templates verb rel [] = None"
| "match_templates verb rel (((m, template), r) # rs) =
     (if CHR ''{'' \<in> set template \<and> m = verb then
        (case match_template template rel of
           Some ps \<Rightarrow> Some (r, ps)
         | None \<Rightarrow> match_templates verb rel rs)
      else match_templates verb rel rs)"

text \<open>A literal key first, without parameters, then the templates in order.\<close>

definition match_route :: "string \<Rightarrow> string \<Rightarrow> (route \<times> (string \<times> string) list) option" where
  "match_route verb rel =
     (case map_of routes (verb, rel) of
        Some r \<Rightarrow> Some (r, [])
      | None \<Rightarrow> match_templates verb rel routes)"

definition api_prefix :: string where "api_prefix = ''/api/v1/''"

definition is_api_path :: "string \<Rightarrow> bool" where
  "is_api_path path \<longleftrightarrow> prefix api_prefix path"

definition is_public_route :: "string \<Rightarrow> string \<Rightarrow> bool" where
  "is_public_route verb path =
     (case match_route verb (if is_api_path path then drop (length api_prefix) path else path) of
        None \<Rightarrow> False
      | Some (r, _) \<Rightarrow> rt_perm r = Some ''public'')"

section \<open>Facts of the registry\<close>

text \<open>Every entry loads, and no method and path is declared twice.\<close>

lemma route_entries_load: "list_all (\<lambda>(_, r). r \<noteq> None) route_entries"
  by code_simp

lemma route_keys_distinct: "distinct (map fst route_entries)"
  by code_simp

lemma route_count: "length routes = 85"
  by code_simp

end
