(* ===== verification/Origins.thy ===== *)
theory Origins
  imports Credentials
begin

text \<open>
  Origin validation of security/auth_gateway.py: the parts of an Origin header as urllib.parse reads
  them, the origins a deployment generates for itself (\<open>get_allowed_origins\<close>), and \<open>check_origin\<close> with
  its exception for the hosts of ALLOWED_LAN_IPS, which is limited to the ports the services use.
\<close>

section \<open>Reading an origin\<close>

text \<open>\<open>str.lower()\<close> on the characters below 256.\<close>

definition lower_char :: "char \<Rightarrow> char" where
  "lower_char c =
     (let n = of_char c :: nat
      in if 65 \<le> n \<and> n \<le> 90 \<or> 192 \<le> n \<and> n \<le> 222 \<and> n \<noteq> 215 then char_of (n + 32) else c)"

definition letter :: "char \<Rightarrow> bool" where
  "letter c \<longleftrightarrow> (let n = of_char c :: nat in 65 \<le> n \<and> n \<le> 90 \<or> 97 \<le> n \<and> n \<le> 122)"

definition scheme_char :: "char \<Rightarrow> bool" where
  "scheme_char c \<longleftrightarrow> letter c \<or> is_digit c \<or> c \<in> set ''+-.''"

text \<open>Control characters and blanks at the front, and tabs and line ends anywhere, are dropped.\<close>

definition clean_url :: "string \<Rightarrow> string" where
  "clean_url url =
     filter (\<lambda>c. c \<notin> {CHR 0x09, CHR 0x0A, CHR 0x0D}) (dropWhile (\<lambda>c. of_char c \<le> (32 :: nat)) url)"

definition split_scheme :: "string \<Rightarrow> string \<times> string" where
  "split_scheme url =
     (case split_first (CHR '':'') url of
        Some (c # s, rest) \<Rightarrow>
          if letter c \<and> list_all scheme_char s then (map lower_char (c # s), rest) else ([], url)
      | _ \<Rightarrow> ([], url))"

definition netloc_of :: "string \<Rightarrow> string" where
  "netloc_of url = (if take 2 url = ''//'' then takeWhile (\<lambda>c. c \<notin> set ''/?#'') (drop 2 url) else [])"

text \<open>
  The text before and after the first \<open>c\<close> (\<open>partition\<close>), the second empty when there is none.
\<close>

definition part_at :: "char \<Rightarrow> string \<Rightarrow> string \<times> string" where
  "part_at c s = (case split_first c s of Some p \<Rightarrow> p | None \<Rightarrow> (s, []))"

text \<open>Host and port of a network location, behind user information; the host may be bracketed.\<close>

definition host_info :: "string \<Rightarrow> string \<times> string" where
  "host_info netloc =
     (let hostinfo = (case split_last (CHR ''@'') netloc of Some (_, h) \<Rightarrow> h | None \<Rightarrow> netloc)
      in (case split_first (CHR ''['') hostinfo of
            Some (_, bracketed) \<Rightarrow>
              (case part_at (CHR '']'') bracketed of
                 (host, rest) \<Rightarrow> (host, snd (part_at (CHR '':'') rest)))
          | None \<Rightarrow> part_at (CHR '':'') hostinfo))"

text \<open>The host in lower case, except for the zone of an IPv6 address.\<close>

definition host_name :: "string \<Rightarrow> string" where
  "host_name h =
     (case split_first (CHR ''%'') h of
        Some (a, zone) \<Rightarrow> map lower_char a @ CHR ''%'' # zone
      | None \<Rightarrow> map lower_char h)"

datatype port = NoPort | Port nat | BadPort

definition read_port :: "string \<Rightarrow> port" where
  "read_port p =
     (if p = [] then NoPort
      else if \<not> list_all is_digit p then BadPort
      else (case py_digits 0 p of
              Some n \<Rightarrow> if n \<le> 65535 then Port n else BadPort
            | None \<Rightarrow> BadPort))"

record origin_parts =
  og_scheme :: string
  og_host :: string
  og_port :: port

text \<open>
  \<open>urlparse\<close>; \<open>None\<close> is ValueError.  \<open>brackets\<close> is its check of an address in brackets.  (The check of
  the network location under NFKC normalisation never fails for characters below 256.)
\<close>

definition parse_origin :: "(string \<Rightarrow> bool) \<Rightarrow> string \<Rightarrow> origin_parts option" where
  "parse_origin brackets origin =
     (case split_scheme (clean_url origin) of
        (scheme, rest) \<Rightarrow>
          let netloc = netloc_of rest; op = CHR ''['' \<in> set netloc; cl = CHR '']'' \<in> set netloc
          in if op \<noteq> cl \<or> op \<and> \<not> brackets netloc then None
             else (case host_info netloc of
                     (h, p) \<Rightarrow> Some \<lparr> og_scheme = scheme, og_host = host_name h, og_port = read_port p \<rparr>))"

section \<open>The origins of a deployment\<close>

text \<open>\<open>health\<close> is the platform's default port of the health service.\<close>

abbreviation env_port :: "login_env \<Rightarrow> string \<Rightarrow> string \<Rightarrow> string" where
  "env_port env name dflt \<equiv> environ_get env name dflt"

definition lan_service_ports :: "login_env \<Rightarrow> string \<Rightarrow> string list" where
  "lan_service_ports env health =
     filter (\<lambda>p. p \<noteq> [])
       [env_port env ''LANDING_PORT'' ''8000'', env_port env ''NOVNC_PORT'' ''6080'',
        env_port env ''TTYD_PORT'' ''5000'', env_port env ''HEALTH_WEB_PORT'' health,
        env_port env ''USER_UI_PORT'' ''8081'', env_port env ''NGINX_HTTPS_PORT'' ''443'',
        env_port env ''NGINX_PORT'' [], env_port env ''NGINX_HTTP_PORT'' []]"

definition allowed_lan_ips :: "login_env \<Rightarrow> string list" where
  "allowed_lan_ips env = comma_list (environ_get env ''ALLOWED_LAN_IPS'' [])"

definition loopback_names :: "string list" where
  "loopback_names = [''127.0.0.1'', ''localhost'', ''::1'']"

definition check_origin ::
    "login_env \<Rightarrow> (string \<Rightarrow> bool) \<Rightarrow> string \<Rightarrow> string \<Rightarrow> string list \<Rightarrow> bool" where
  "check_origin env brackets health origin allowed =
     (if origin = [] \<or> origin = ''null'' then False
      else if origin \<in> set allowed then True
      else (case parse_origin brackets origin of
              None \<Rightarrow> False
            | Some og \<Rightarrow>
                if og_scheme og \<notin> {''http'', ''https''} then False
                else if og_host og = [] \<or> og_host og \<notin> set (allowed_lan_ips env) then False
                else if og_host og \<in> set loopback_names then True
                else (case og_port og of
                        BadPort \<Rightarrow> False
                      | NoPort \<Rightarrow> True
                      | Port n \<Rightarrow> nat_str n \<in> set (lan_service_ports env health))))"

definition normalize_duck_domain :: "string \<Rightarrow> string" where
  "normalize_duck_domain v =
     (let d = py_strip v
      in if d = [] then [] else if CHR ''.'' \<notin> set d then d @ ''.duckdns.org'' else d)"

text \<open>\<open>dict.fromkeys\<close>: the first occurrence of each.\<close>

definition dedupe :: "string list \<Rightarrow> string list" where
  "dedupe xs = rev (remdups (rev xs))"

text \<open>\<open>lan_ips\<close> are the addresses of this host, empty where they cannot be found out.\<close>

definition get_allowed_origins :: "login_env \<Rightarrow> string \<Rightarrow> string list \<Rightarrow> string list" where
  "get_allowed_origins env health lan_ips =
     (let configured = comma_list (environ_get env ''ALLOWED_ORIGINS'' []);
          duck = normalize_duck_domain (environ_get env ''DUCK_DOMAIN'' []);
          https_port = env_port env ''NGINX_HTTPS_PORT'' ''443'';
          landing = env_port env ''LANDING_PORT'' ''8000'';
          local = sort (remdups [landing, env_port env ''NOVNC_PORT'' ''6080'',
            env_port env ''TTYD_PORT'' ''5000'', env_port env ''HEALTH_WEB_PORT'' health,
            env_port env ''USER_UI_PORT'' ''8081''])
      in dedupe
           (configured @
            (if duck \<noteq> [] then [''https://'' @ duck] else []) @
            (if duck \<noteq> [] \<and> https_port \<noteq> ''443'' then [''https://'' @ duck @ '':'' @ https_port] else []) @
            concat (map (\<lambda>port. concat (map (\<lambda>host.
                [''http://'' @ host @ '':'' @ port, ''https://'' @ host @ '':'' @ port])
              [''localhost'', ''127.0.0.1''])) local) @
            [''https://localhost:'' @ https_port, ''https://127.0.0.1:'' @ https_port] @
            concat (map (\<lambda>ip.
                [''https://'' @ ip] @
                (if https_port \<noteq> ''443'' then [''https://'' @ ip @ '':'' @ https_port] else []) @
                [''http://'' @ ip @ '':'' @ landing, ''https://'' @ ip @ '':'' @ landing]) lan_ips)))"

section \<open>What a well-formed origin reads as\<close>

definition host_char :: "char \<Rightarrow> bool" where
  "host_char c \<longleftrightarrow> letter c \<or> is_digit c \<or> c \<in> set ''.-_''"

definition plain_host :: "string \<Rightarrow> bool" where
  "plain_host h \<longleftrightarrow> h \<noteq> [] \<and> list_all host_char h"

lemma host_char_not:
  "host_char c \<Longrightarrow> c \<notin> set '':/?#[]@%'' \<and> c \<notin> {CHR 0x09, CHR 0x0A, CHR 0x0D}"
  by (auto simp: host_char_def letter_def is_digit_def digit_val_def Let_def split: if_splits)

lemma digit_host: "is_digit c \<Longrightarrow> host_char c"
  by (simp add: host_char_def)

lemma plain_host_set: "plain_host h \<Longrightarrow> c \<in> set h \<Longrightarrow> host_char c"
  by (simp add: plain_host_def list_all_iff)

lemma nat_str_host: "c \<in> set (nat_str n) \<Longrightarrow> host_char c"
  using nat_str_digits [of n] digit_host by (auto simp: list_all_iff)

lemma read_port_nat_str: "n \<le> 65535 \<Longrightarrow> read_port (nat_str n) = Port n"
proof -
  obtain c t where "nat_str n = c # t" by (rule nat_str_head)
  then show "n \<le> 65535 \<Longrightarrow> ?thesis"
    using nat_str_digits [of n] py_digits_nat_str [of n]
    by (simp add: read_port_def del: py_digits.simps)
qed

text \<open>An origin is a scheme, a host and perhaps a port.\<close>

definition origin_text :: "string \<Rightarrow> string \<Rightarrow> nat option \<Rightarrow> string" where
  "origin_text scheme host port =
     scheme @ ''://'' @ host @ (case port of None \<Rightarrow> [] | Some n \<Rightarrow> '':'' @ nat_str n)"

definition port_tail :: "nat option \<Rightarrow> string" where
  "port_tail port = (case port of None \<Rightarrow> [] | Some n \<Rightarrow> CHR '':'' # nat_str n)"

lemma origin_tail_chars:
  assumes "plain_host host" and "c \<in> set (host @ port_tail port)"
  shows "host_char c \<or> c = CHR '':''"
  using assms plain_host_set nat_str_host by (auto simp: port_tail_def split: option.splits)

lemma plain_chars:
  assumes "plain_host host" and "c \<in> {CHR ''/'', CHR ''?'', CHR ''#'', CHR ''['', CHR '']'', CHR ''@'', CHR ''%'',
      CHR 0x09, CHR 0x0A, CHR 0x0D}"
  shows "c \<notin> set (host @ port_tail port)"
proof
  assume "c \<in> set (host @ port_tail port)"
  then have "host_char c \<or> c = CHR '':''" by (rule origin_tail_chars [OF assms(1)])
  moreover have "c \<noteq> CHR '':''" "c \<in> set '':/?#[]@%'' \<or> c \<in> {CHR 0x09, CHR 0x0A, CHR 0x0D}"
    using assms(2) by (elim insertE; simp)+
  ultimately show False using host_char_not [of c] by blast
qed

lemma parse_origin_text:
  assumes scheme: "scheme = ''http'' \<or> scheme = ''https''" and host: "plain_host host"
    and port: "\<forall>n. port = Some n \<longrightarrow> n \<le> 65535"
  shows "parse_origin brackets (origin_text scheme host port) =
    Some \<lparr> og_scheme = scheme, og_host = map lower_char host,
           og_port = (case port of None \<Rightarrow> NoPort | Some n \<Rightarrow> Port n) \<rparr>"
proof -
  let ?t = "host @ port_tail port"
  have whole: "origin_text scheme host port = scheme @ ''://'' @ ?t"
    by (simp add: origin_text_def port_tail_def split: option.split)
  note notin = plain_chars [OF host, of _ port]
  have same: "filter (\<lambda>c. c \<noteq> CHR 0x09 \<and> c \<noteq> CHR 0x0A \<and> c \<noteq> CHR 0x0D) ?t = ?t"
    by (rule filter_True) (use notin in blast)
  have clean: "clean_url (origin_text scheme host port) = scheme @ ''://'' @ ?t"
    using scheme same unfolding whole by (auto simp: clean_url_def)
  have split: "split_scheme (scheme @ ''://'' @ ?t) = (scheme, ''//'' @ ?t)"
    using scheme by (auto simp: split_scheme_def letter_def scheme_char_def lower_char_def)
  have netloc: "netloc_of (''//'' @ ?t) = ?t"
  proof -
    have "\<forall>c \<in> set ?t. c \<notin> set ''/?#''" using notin by auto
    then have "takeWhile (\<lambda>c. c \<notin> set ''/?#'') ?t = ?t" by (rule takeWhile_eq_all_conv [THEN iffD2])
    then show ?thesis by (simp add: netloc_of_def)
  qed
  have parts: "split_last (CHR ''@'') ?t = None" "split_first (CHR ''['') ?t = None"
    using notin by (simp_all del: set_append)
  have colon: "CHR '':'' \<notin> set host" using plain_host_set [OF host] host_char_not by auto
  have info: "host_info ?t = (host, case port of None \<Rightarrow> [] | Some n \<Rightarrow> nat_str n)"
    unfolding host_info_def Let_def parts option.case
    using colon
    by (cases port) (simp_all add: part_at_def port_tail_def split_first_append
        split_first_None [THEN iffD2])
  have name: "host_name host = map lower_char host"
  proof -
    have "CHR ''%'' \<notin> set host" using notin [of "CHR ''%''"] by auto
    then show ?thesis by (simp add: host_name_def split_first_None [THEN iffD2])
  qed
  have pr: "read_port (case port of None \<Rightarrow> [] | Some n \<Rightarrow> nat_str n) =
      (case port of None \<Rightarrow> NoPort | Some n \<Rightarrow> Port n)"
    using port by (auto simp: read_port_nat_str split: option.split) (simp add: read_port_def)
  have br: "CHR ''['' \<notin> set ?t" "CHR '']'' \<notin> set ?t" using notin by blast+
  show ?thesis
    unfolding parse_origin_def clean split prod.case Let_def netloc
    using br by (simp add: info name pr)
qed

text \<open>The exception for the hosts of ALLOWED_LAN_IPS, exactly.\<close>

lemma check_origin_exact:
  assumes "scheme = ''http'' \<or> scheme = ''https''" and "plain_host host"
    and "\<forall>n. port = Some n \<longrightarrow> n \<le> 65535"
  shows "check_origin env brackets health (origin_text scheme host port) allowed \<longleftrightarrow>
    origin_text scheme host port \<in> set allowed \<or>
    map lower_char host \<in> set (allowed_lan_ips env) \<and>
      (map lower_char host \<in> set loopback_names \<or>
       (case port of None \<Rightarrow> True | Some n \<Rightarrow> nat_str n \<in> set (lan_service_ports env health)))"
proof -
  have ne: "origin_text scheme host port \<noteq> []" "origin_text scheme host port \<noteq> ''null''"
    using assms(1) by (auto simp: origin_text_def)
  have host: "map lower_char host \<noteq> []" using assms(2) by (simp add: plain_host_def)
  show ?thesis
    unfolding check_origin_def parse_origin_text [OF assms]
    using ne host assms(1) by (auto split: option.split)
qed

lemma mem_dedupe: "x \<in> set (dedupe xs) \<longleftrightarrow> x \<in> set xs"
  by (simp add: dedupe_def)

lemma distinct_dedupe: "distinct (dedupe xs)"
  by (simp add: dedupe_def)

end
