(* ===== verification/Gateway.thy ===== *)
theory Gateway
  imports SessionLifecycle Mfa StepUp Revocation Origins PortalAuth
begin

text \<open>
  The authentication gateway: logins and request decisions of security/auth_gateway.py, and the
  password check of security/authentication.py behind them.  One state holds what they share: the
  share-link store with the shared state inside, the operator file, the times of authentication and
  the configured recovery codes.  Counters of the metrics and audit records are left out.
\<close>

abbreviation ns_used_recovery :: string where "ns_used_recovery \<equiv> ''mfa_used_recovery_codes''"

section \<open>A call and the state\<close>

text \<open>
  Beside the process and the limiter a call finds the second factor's parameters, the share-link
  store's environment, the random part of a second attempt record, the random tokens of a new session,
  the name of the process' user, and whether the environment file can be rewritten.
\<close>

record gate =
  g_http :: http_call
  g_hotp :: "string \<Rightarrow> (int \<Rightarrow> nat) option"
  g_share :: senv
  g_rnd :: string
  g_csrf :: string
  g_sid :: string
  g_user :: string
  g_env_writes :: bool

abbreviation g_env :: "gate \<Rightarrow> login_env" where "g_env g \<equiv> hc_env (g_http g)"
abbreviation g_now :: "gate \<Rightarrow> time" where "g_now g \<equiv> l_now (g_env g)"

definition g_mfa :: "gate \<Rightarrow> mfa_cfg" where
  "g_mfa g = \<lparr> mc_sha = l_sha (g_env g), mc_hotp = g_hotp g \<rparr>"

definition g_menv :: "gate \<Rightarrow> menv" where
  "g_menv g = \<lparr> m_now = g_now g, m_up = l_up (g_env g) \<rparr>"

text \<open>The share-link store runs in the same process.\<close>

definition g_senv :: "gate \<Rightarrow> senv" where
  "g_senv g = (g_share g)\<lparr> v_host := (v_host (g_share g))\<lparr>h_now := g_now g\<rparr>, v_fl := l_fl (g_env g),
     v_mac := l_mac (g_env g), v_keys := l_keys (g_env g), v_up := l_up (g_env g),
     v_strict := l_strict (g_env g) \<rparr>"

text \<open>\<open>RECOVERY_CODES_HASHES\<close> is rewritten by the program, empty when unset.\<close>

record 's gate_state =
  gs_store :: "'s store"
  gs_file :: "string option"
  gs_auth :: stepup_manager
  gs_hashes :: string

abbreviation gs_state :: "'s gate_state \<Rightarrow> 's" where "gs_state y \<equiv> st_state (gs_store y)"

definition put_state :: "'s \<Rightarrow> 's gate_state \<Rightarrow> 's gate_state" where
  "put_state s y = y\<lparr>gs_store := (gs_store y)\<lparr>st_state := s\<rparr>\<rparr>"

definition on_store :: "('s \<Rightarrow> 'a \<times> 's) \<Rightarrow> 's store \<Rightarrow> 'a \<times> 's store" where
  "on_store f st = (case f (st_state st) of (r, s) \<Rightarrow> (r, st\<lparr>st_state := s\<rparr>))"

section \<open>Passwords (security/authentication.py)\<close>

definition dummy_hash :: string where
  "dummy_hash = ''pbkdf2:sha256:600000$dummysalt$'' @ replicate 64 (CHR ''0'')"

text \<open>The configured administrator.\<close>

definition configured_user :: "gate \<Rightarrow> string" where
  "configured_user g =
     environ_get (g_env g) ''USER_UI_USERNAME'' (environ_get (g_env g) ''TTYD_USERNAME'' (g_user g))"

definition configured_password :: "gate \<Rightarrow> string" where
  "configured_password g =
     (let ui = environ_get (g_env g) ''USER_UI_PASSWORD'' [];
          shared = environ_get (g_env g) ''TTYD_PASSWD'' []
      in if ui \<noteq> [] then ui else if shared \<noteq> [] then shared
         else generated_credential (g_http g) ''TTYD_PASSWD'')"

definition env_credentials :: "gate \<Rightarrow> string \<Rightarrow> string \<Rightarrow> bool" where
  "env_credentials g username password =
     (let stored = configured_password g; enc = tx_enc (hc_tx (g_http g));
          kd = oc_kdf (hc_op (g_http g))
      in if stored = [] then False
         else
           let user_ok = (enc username = enc (configured_user g))
           in if list_ex (\<lambda>p. prefix p stored) [''pbkdf2:'', ''scrypt:'', ''argon2:'']
              then verify_password kd password (if user_ok then stored else dummy_hash) \<and> user_ok
              else user_ok \<and> enc password = enc stored)"

text \<open>A stored operator first; an exception falls back to the configured administrator.\<close>

definition authenticate :: "gate \<Rightarrow> string \<Rightarrow> string \<Rightarrow> string option \<Rightarrow> bool \<times> string option" where
  "authenticate g username password file =
     (let oc = hc_op (g_http g)
      in if map_of (load_accounts oc file) username = None
         then (env_credentials g username password, file)
         else (case verify_operator oc username password file of
                 (Returned r, file) \<Rightarrow> (r \<noteq> None, file)
               | (Raised, file) \<Rightarrow> (env_credentials g username password, file)))"

section \<open>The second factor of a login\<close>

definition claim_recovery_code :: "'s backend \<Rightarrow> login_env \<Rightarrow> string \<Rightarrow> 's \<Rightarrow> bool \<times> 's" where
  "claim_recovery_code be env code_hash s =
     (if code_hash = [] \<or> \<not> l_up env then (False, s)
      else b_set_if_absent be (l_now env) ns_used_recovery code_hash (PBool True) (Some (30 * 86400)) s)"

text \<open>\<open>set_env_persistent\<close> refuses a value with a line end.\<close>

definition prune_hashes :: "bool \<Rightarrow> string \<Rightarrow> string \<Rightarrow> string" where
  "prune_hashes writes code_hash stored =
     (let v = join '','' (filter (\<lambda>h. h \<noteq> code_hash) (comma_list stored))
      in if \<not> writes \<or> CHR 0x0D \<in> set v \<or> CHR 0x0A \<in> set v then stored else v)"

definition ip_key :: "string \<Rightarrow> string" where "ip_key ip = ''ip:'' @ ip"
definition account_key :: "string \<Rightarrow> string" where "account_key user = ''user:'' @ user"
definition ws_key :: "string \<Rightarrow> string" where "ws_key ip = ''ws:'' @ ip"

definition second_call :: "gate \<Rightarrow> http_call" where
  "second_call g = (g_http g)\<lparr>hc_rnd := g_rnd g\<rparr>"

text \<open>A failure counted for the address and for the user; \<open>None\<close>: the limiter raised.\<close>

definition count_both :: "'s backend \<Rightarrow> gate \<Rightarrow> string \<Rightarrow> string \<Rightarrow> 's \<Rightarrow> 's option" where
  "count_both be g ip user s =
     Option.bind (lim_failure be (g_http g) (ip_key ip) s) (lim_failure be (second_call g) (account_key user))"

text \<open>The refusal, or the method that succeeded.\<close>

definition mfa_fail ::
    "'s backend \<Rightarrow> gate \<Rightarrow> string \<Rightarrow> string \<Rightarrow> 's gate_state \<Rightarrow> (string + string) outcome \<times> 's gate_state"
where
  "mfa_fail be g user ip y =
     (case count_both be g ip user (gs_state y) of
        None \<Rightarrow> (Raised, y)
      | Some s \<Rightarrow> (Returned (Inl ''Invalid MFA code.''), put_state s y))"

text \<open>The hash to be claimed, when the code is one of the configured ones.\<close>

definition recovery_match :: "mfa_cfg \<Rightarrow> string \<Rightarrow> string \<Rightarrow> string option" where
  "recovery_match cfg code stored =
     (if stored = [] \<or> \<not> verify_recovery_code cfg code (comma_list stored) then None
      else Some (hash_recovery_code cfg code))"

definition use_recovery_code ::
    "'s backend \<Rightarrow> gate \<Rightarrow> string \<Rightarrow> string \<Rightarrow> string \<Rightarrow> 's gate_state \<Rightarrow>
     (string + string) outcome \<times> 's gate_state"
where
  "use_recovery_code be g user code ip y =
     (case recovery_match (g_mfa g) code (gs_hashes y) of
        None \<Rightarrow> mfa_fail be g user ip y
      | Some h \<Rightarrow>
          (case claim_recovery_code be (g_env g) h (gs_state y) of
             (False, s) \<Rightarrow> mfa_fail be g user ip (put_state s y)
           | (True, s) \<Rightarrow>
               (Returned (Inr ''recovery''),
                (put_state s y)\<lparr>gs_hashes := prune_hashes (g_env_writes g) h (gs_hashes y)\<rparr>)))"

definition verify_login_mfa ::
    "'s backend \<Rightarrow> gate \<Rightarrow> string \<Rightarrow> string \<Rightarrow> string \<Rightarrow> 's gate_state \<Rightarrow>
     (string + string) outcome \<times> 's gate_state"
where
  "verify_login_mfa be g user code ip y =
     (if code = [] then
        (case lim_failure be (g_http g) (ip_key ip) (gs_state y) of
           None \<Rightarrow> (Raised, y)
         | Some s \<Rightarrow> (Returned (Inl ''MFA code required.''), put_state s y))
      else
        let secret = environ_get (g_env g) ''TOTP_SECRET'' []
        in if secret = [] then use_recovery_code be g user code ip y
           else (case verify_totp be (g_mfa g) (g_menv g) secret code None (gs_state y) of
                   (True, s) \<Rightarrow> (Returned (Inr ''totp''), put_state s y)
                 | (False, s) \<Rightarrow> use_recovery_code be g user code ip (put_state s y)))"

section \<open>Logging in\<close>

text \<open>The cookie, the bearer token and the method of a new session.\<close>

datatype login_answer = LoggedIn made_cookie string string | Refused string

definition lockout_left :: "'s backend \<Rightarrow> gate \<Rightarrow> string \<Rightarrow> 's \<Rightarrow> (int \<times> 's) option" where
  "lockout_left be g key s =
     (if l_up (g_env g) then get_lockout_remaining be (g_now g) key s else None)"

definition locked_answer ::
    "'s backend \<Rightarrow> gate \<Rightarrow> string \<Rightarrow> string \<Rightarrow> 's gate_state \<Rightarrow> login_answer outcome \<times> 's gate_state"
where
  "locked_answer be g ip user y =
     (case lockout_left be g (ip_key ip) (gs_state y) of
        None \<Rightarrow> (Raised, y)
      | Some (a, s) \<Rightarrow>
          (case lockout_left be g (account_key user) s of
             None \<Rightarrow> (Raised, put_state s y)
           | Some (b, s) \<Rightarrow>
               (Returned (Refused (''Account locked. Try again in '' @ int_str (max a b) @ ''s.'')),
                put_state s y)))"

definition wrong_password ::
    "'s backend \<Rightarrow> gate \<Rightarrow> string \<Rightarrow> string \<Rightarrow> 's gate_state \<Rightarrow> login_answer outcome \<times> 's gate_state"
where
  "wrong_password be g ip user y =
     (case count_both be g ip user (gs_state y) of
        None \<Rightarrow> (Raised, y)
      | Some s \<Rightarrow>
          let n = remaining_attempts be (l_fl (g_env g)) (hc_limiter (g_http g)) (g_now g) (ip_key ip) s
          in (Returned (Refused (if 0 < n then ''Invalid credentials. '' @ int_str n @ '' attempts remaining.''
                                 else ''Too many attempts. Account locked.'')), put_state s y))"

definition new_login ::
    "'s backend \<Rightarrow> gate \<Rightarrow> string \<Rightarrow> string option \<Rightarrow> 's gate_state \<Rightarrow> login_answer \<times> 's gate_state" where
  "new_login be g user mfa_method y =
     (case record_auth_time be (g_env g) user None (gs_auth y) (gs_state y) of
        (m, s) \<Rightarrow>
          (LoggedIn (create_session_cookie (g_env g) user None None None (g_csrf g) (g_sid g))
             (create_session_token (g_env g) user 1800)
             (case mfa_method of None \<Rightarrow> ''password'' | Some k \<Rightarrow> ''password+'' @ k),
           (put_state s y)\<lparr>gs_auth := m\<rparr>))"

definition login_allowed :: "gate \<Rightarrow> string \<Rightarrow> string option \<Rightarrow> bool" where
  "login_allowed g user file =
     maintenance_login_allowed (g_senv g) (\<lambda>u. get_permissions (hc_op (g_http g)) u file)
       (environ_get (g_env g) ''USER_UI_USERNAME'' []) (environ_get (g_env g) ''TTYD_USERNAME'' []) user"

text \<open>Both factors are right: the limits are cleared, and maintenance may still refuse.\<close>

definition login_succeeded ::
    "'s backend \<Rightarrow> gate \<Rightarrow> string \<Rightarrow> string \<Rightarrow> string option \<Rightarrow> 's gate_state \<Rightarrow>
     login_answer outcome \<times> 's gate_state"
where
  "login_succeeded be g user ip mfa_method y =
     (case Option.bind (lim_success be (g_http g) (ip_key ip) (gs_state y))
             (lim_success be (g_http g) (account_key user)) of
        None \<Rightarrow> (Raised, y)
      | Some s \<Rightarrow>
          let y = put_state s y
          in if \<not> login_allowed g user (gs_file y)
             then (Returned (Refused ''System under maintenance. Try again later.''), y)
             else (case new_login be g user mfa_method y of (a, y) \<Rightarrow> (Returned a, y)))"

definition attempt_login ::
    "'s backend \<Rightarrow> gate \<Rightarrow> string \<Rightarrow> string \<Rightarrow> string \<Rightarrow> string \<Rightarrow> 's gate_state \<Rightarrow>
     login_answer outcome \<times> 's gate_state"
where
  "attempt_login be g user password totp ip y =
     (case any_locked be (g_env g) [ip_key ip, account_key user] (gs_state y) of
        None \<Rightarrow> (Raised, y)
      | Some (True, s) \<Rightarrow> locked_answer be g ip user (put_state s y)
      | Some (False, s) \<Rightarrow>
          (case authenticate g user password (gs_file y) of
             (ok, file) \<Rightarrow>
               let y = (put_state s y)\<lparr>gs_file := file\<rparr>
               in if \<not> ok then wrong_password be g ip user y
                  else if \<not> mfa_required_for_login (l_environ (g_env g))
                  then login_succeeded be g user ip None y
                  else (case verify_login_mfa be g user totp ip y of
                          (Raised, y) \<Rightarrow> (Raised, y)
                        | (Returned (Inl message), y) \<Rightarrow> (Returned (Refused message), y)
                        | (Returned (Inr k), y) \<Rightarrow> login_succeeded be g user ip (Some k) y)))"

section \<open>Deciding requests\<close>

definition is_client_locked :: "'s backend \<Rightarrow> login_env \<Rightarrow> string \<Rightarrow> 's \<Rightarrow> (bool \<times> 's) option" where
  "is_client_locked be env ip s = any_locked be env [ip, ip_key ip, ws_key ip] s"

text \<open>A caller without an address is not looked up.\<close>

definition address_locked :: "'s backend \<Rightarrow> login_env \<Rightarrow> string \<Rightarrow> 's \<Rightarrow> (bool \<times> 's) option" where
  "address_locked be env ip s = (if ip = [] then Some (False, s) else is_client_locked be env ip s)"

definition some_text :: "string \<Rightarrow> string option" where
  "some_text t = (if t = [] then None else Some t)"

definition authorize_ephemeral_cookie ::
    "'s backend \<Rightarrow> gate \<Rightarrow> string \<Rightarrow> string \<Rightarrow> string \<Rightarrow> string \<Rightarrow> 's store \<Rightarrow> bool \<times> 's store" where
  "authorize_ephemeral_cookie be g ephemeral permission resource ip st =
     (if permission \<noteq> []
      then check_session_permission be (g_senv g) ephemeral permission (some_text resource) (some_text ip) st
      else check_session_permission be (g_senv g) ephemeral ''view'' None (some_text ip) st)"

definition ephemeral_bearer_authorized ::
    "'s backend \<Rightarrow> gate \<Rightarrow> string \<Rightarrow> string \<Rightarrow> string \<Rightarrow> string \<Rightarrow> 's store \<Rightarrow> bool outcome \<times> 's store" where
  "ephemeral_bearer_authorized be g bearer permission resource ip st =
     (if bearer = [] \<or> permission = [] then (Returned False, st)
      else check_permission be (g_senv g) bearer permission (some_text resource) (some_text ip) st)"

text \<open>The verdict, the reason, and the identity of an admitted request.\<close>

type_synonym access_verdict = "bool \<times> string \<times> string option"

text \<open>The outcome of an attempt is counted when the caller has an address.\<close>

definition count_failure :: "'s backend \<Rightarrow> gate \<Rightarrow> string \<Rightarrow> 's store \<Rightarrow> 's store option" where
  "count_failure be g ip st =
     (if ip = [] then Some st
      else map_option (\<lambda>s. st\<lparr>st_state := s\<rparr>) (lim_failure be (g_http g) ip (st_state st)))"

definition count_success :: "'s backend \<Rightarrow> gate \<Rightarrow> string \<Rightarrow> 's store \<Rightarrow> 's store option" where
  "count_success be g ip st =
     (if ip = [] then Some st
      else map_option (\<lambda>s. st\<lparr>st_state := s\<rparr>) (lim_success be (g_http g) ip (st_state st)))"

definition ended_with :: "'a \<Rightarrow> 's store \<Rightarrow> 's store option \<Rightarrow> 'a outcome \<times> 's store" where
  "ended_with a st r = (case r of None \<Rightarrow> (Raised, st) | Some st \<Rightarrow> (Returned a, st))"

definition authorize_operator_session ::
    "'s backend \<Rightarrow> gate \<Rightarrow> string \<Rightarrow> string \<Rightarrow> string \<Rightarrow> 's store \<Rightarrow> access_verdict outcome \<times> 's store" where
  "authorize_operator_session be g cookie bearer ip st =
     (case on_store (check_authenticated be (g_env g) cookie bearer) st of
        ((True, _), st) \<Rightarrow>
          ended_with (True, ''OK'', Some (if cookie \<noteq> [] then cookie else bearer)) st (count_success be g ip st)
      | ((False, _), st) \<Rightarrow>
          ended_with (False, ''Invalid or expired session'', None) st (count_failure be g ip st))"

text \<open>After the share-link cookie: the bearer token as a share link, then the operator session.\<close>

definition authorize_credentials ::
    "'s backend \<Rightarrow> gate \<Rightarrow> string \<Rightarrow> string \<Rightarrow> string \<Rightarrow> string \<Rightarrow> string \<Rightarrow> 's store \<Rightarrow>
     access_verdict outcome \<times> 's store"
where
  "authorize_credentials be g cookie bearer resource permission ip st =
     (if cookie = [] \<and> bearer = [] then (Returned (False, ''Authentication required'', None), st)
      else (case ephemeral_bearer_authorized be g bearer permission resource ip st of
              (Raised, st) \<Rightarrow> (Raised, st)
            | (Returned True, st) \<Rightarrow> (Returned (True, ''OK'', Some bearer), st)
            | (Returned False, st) \<Rightarrow> authorize_operator_session be g cookie bearer ip st))"

text \<open>The share-link cookie; \<open>Inr\<close> when it failed and other credentials remain.\<close>

definition authorize_ephemeral_step ::
    "'s backend \<Rightarrow> gate \<Rightarrow> string \<Rightarrow> string \<Rightarrow> string \<Rightarrow> string \<Rightarrow> bool \<Rightarrow> 's store \<Rightarrow>
     (access_verdict outcome \<times> 's store) + 's store"
where
  "authorize_ephemeral_step be g ephemeral permission resource ip has_fallback st =
     (case authorize_ephemeral_cookie be g ephemeral permission resource ip st of
        (True, st) \<Rightarrow> Inl (Returned (True, ''OK'', Some ephemeral), st)
      | (False, st) \<Rightarrow>
          if has_fallback then Inr st
          else Inl (ended_with (False, ''Invalid or expired session'', None) st (count_failure be g ip st)))"

definition authorize_request ::
    "'s backend \<Rightarrow> gate \<Rightarrow> string \<Rightarrow> string \<Rightarrow> string \<Rightarrow> string \<Rightarrow> string \<Rightarrow> string \<Rightarrow> 's store \<Rightarrow>
     access_verdict outcome \<times> 's store"
where
  "authorize_request be g cookie bearer ephemeral resource permission ip st =
     (case address_locked be (g_env g) ip (st_state st) of
        None \<Rightarrow> (Raised, st)
      | Some (True, s) \<Rightarrow> (Returned (False, ''Rate limited'', None), st\<lparr>st_state := s\<rparr>)
      | Some (False, s) \<Rightarrow>
          let st = st\<lparr>st_state := s\<rparr>
          in if ephemeral = [] then authorize_credentials be g cookie bearer resource permission ip st
             else (case authorize_ephemeral_step be g ephemeral permission resource ip
                          (cookie \<noteq> [] \<or> bearer \<noteq> []) st of
                     Inl r \<Rightarrow> r
                   | Inr st \<Rightarrow> authorize_credentials be g cookie bearer resource permission ip st))"

section \<open>WebSocket upgrades\<close>

definition ws_reject ::
    "'s backend \<Rightarrow> gate \<Rightarrow> string \<Rightarrow> string \<Rightarrow> 's store \<Rightarrow> (bool \<times> string) outcome \<times> 's store" where
  "ws_reject be g ip reason st =
     ended_with (False, reason) st
       (if ip = [] then Some st
        else map_option (\<lambda>s. st\<lparr>st_state := s\<rparr>) (lim_failure be (g_http g) (ws_key ip) (st_state st)))"

text \<open>A bearer token that is a share link is decided here; \<open>Inr\<close>: it is not one.\<close>

definition ws_ephemeral_bearer ::
    "'s backend \<Rightarrow> gate \<Rightarrow> string \<Rightarrow> string \<Rightarrow> string \<Rightarrow> string \<Rightarrow> 's store \<Rightarrow>
     ((bool \<times> string) outcome \<times> 's store) + 's store"
where
  "ws_ephemeral_bearer be g bearer permission resource ip st =
     (case verify_token (l_mac (g_env g)) (l_keys (g_env g)) token_type_ephemeral bearer of
        None \<Rightarrow> Inr st
      | Some [] \<Rightarrow> Inr st
      | Some _ \<Rightarrow> Inl
          (case is_session_revoked be (g_senv g) bearer st of
             (True, st) \<Rightarrow> ws_reject be g ip ''Session revoked'' st
           | (False, st) \<Rightarrow>
               (case is_session_expired be (g_senv g) bearer st of
                  (True, st) \<Rightarrow> ws_reject be g ip ''Session expired'' st
                | (False, st) \<Rightarrow>
                    (case check_permission be (g_senv g) bearer permission (Some resource) (some_text ip) st of
                       (Raised, st) \<Rightarrow> (Raised, st)
                     | (Returned False, st) \<Rightarrow> ws_reject be g ip (''Permission denied: '' @ permission) st
                     | (Returned True, st) \<Rightarrow> (Returned (True, ''OK''), st)))))"

definition ws_operator ::
    "'s backend \<Rightarrow> gate \<Rightarrow> string \<Rightarrow> string \<Rightarrow> string \<Rightarrow> 's store \<Rightarrow> (bool \<times> string) outcome \<times> 's store" where
  "ws_operator be g cookie bearer ip st =
     (case on_store (check_authenticated be (g_env g) cookie bearer) st of
        ((True, _), st) \<Rightarrow> (Returned (True, ''OK''), st)
      | ((False, _), st) \<Rightarrow> ws_reject be g ip ''Authentication required'' st)"

definition ws_credentials ::
    "'s backend \<Rightarrow> gate \<Rightarrow> string \<Rightarrow> string \<Rightarrow> string \<Rightarrow> string \<Rightarrow> string \<Rightarrow> 's store \<Rightarrow>
     (bool \<times> string) outcome \<times> 's store"
where
  "ws_credentials be g cookie bearer resource permission ip st =
     (if permission = [] \<or> bearer = [] then ws_operator be g cookie bearer ip st
      else (case ws_ephemeral_bearer be g bearer permission resource ip st of
              Inl r \<Rightarrow> r
            | Inr st \<Rightarrow> ws_operator be g cookie bearer ip st))"

text \<open>\<open>origin_ok\<close> is \<open>check_origin\<close> against \<open>get_allowed_origins\<close>.\<close>

definition check_websocket_upgrade ::
    "'s backend \<Rightarrow> gate \<Rightarrow> (string \<Rightarrow> bool) \<Rightarrow> string \<Rightarrow> string \<Rightarrow> string \<Rightarrow> string \<Rightarrow> string \<Rightarrow> string \<Rightarrow>
     string \<Rightarrow> 's store \<Rightarrow> (bool \<times> string) outcome \<times> 's store"
where
  "check_websocket_upgrade be g origin_ok origin cookie bearer resource permission ip ephemeral st =
     (case address_locked be (g_env g) ip (st_state st) of
        None \<Rightarrow> (Raised, st)
      | Some (True, s) \<Rightarrow> (Returned (False, ''Rate limited''), st\<lparr>st_state := s\<rparr>)
      | Some (False, s) \<Rightarrow>
          let st = st\<lparr>st_state := s\<rparr>
          in if \<not> origin_ok origin then ws_reject be g ip ''Invalid origin'' st
             else if ephemeral = [] \<or> permission = [] then ws_credentials be g cookie bearer resource permission ip st
             else (case check_session_permission be (g_senv g) ephemeral permission (some_text resource) (some_text ip) st of
                     (True, st) \<Rightarrow> (Returned (True, ''OK''), st)
                   | (False, st) \<Rightarrow>
                       if cookie = [] \<and> bearer = [] then ws_reject be g ip ''Invalid or expired session'' st
                       else ws_credentials be g cookie bearer resource permission ip st))"

section \<open>One action of a share link\<close>

definition check_permission_for_action ::
    "'s backend \<Rightarrow> gate \<Rightarrow> string \<Rightarrow> string \<Rightarrow> string \<Rightarrow> 's store \<Rightarrow> (bool \<times> string) outcome \<times> 's store" where
  "check_permission_for_action be g bearer permission ip st =
     (if bearer = [] then (Returned (False, ''No token provided''), st)
      else (case is_session_revoked be (g_senv g) bearer st of
              (True, st) \<Rightarrow> (Returned (False, ''Session revoked''), st)
            | (False, st) \<Rightarrow>
                (case is_session_expired be (g_senv g) bearer st of
                   (True, st) \<Rightarrow> (Returned (False, ''Session expired''), st)
                 | (False, st) \<Rightarrow>
                     (case check_permission be (g_senv g) bearer permission None (some_text ip) st of
                        (Raised, st) \<Rightarrow> (Raised, st)
                      | (Returned False, st) \<Rightarrow> (Returned (False, ''Permission denied: '' @ permission), st)
                      | (Returned True, st) \<Rightarrow> (Returned (True, ''OK''), st)))))"

end
