(* ===== verification/LoginHandlers.thy ===== *)
theory LoginHandlers
  imports Gateway OpCatalog PortalSession AuthPolicy
begin

text \<open>
  The operator's login handlers of backend/handlers/auth.py: password login of the web client, logout
  and step-up.  A login mints the portal cookie and the service cookie and records the context of the
  authentication; a logout revokes portal sessions and expires the cookies; a step-up verifies the
  password again and may bind a grant to one operation.  The bodies are the validated requests.
\<close>

section \<open>Plumbing\<close>

text \<open>The part of the state the portal's functions work on.\<close>

definition portal_part :: "'s gate_state \<Rightarrow> 's op_state" where
  "portal_part y = \<lparr> os_file = gs_file y, os_state = gs_state y \<rparr>"

definition with_portal :: "'s op_state \<Rightarrow> 's gate_state \<Rightarrow> 's gate_state" where
  "with_portal z y = (put_state (os_state z) y)\<lparr>gs_file := os_file z\<rparr>"

text \<open>An answer of a handler: status and message, or the data of a success.\<close>

datatype 'a reply = Fails nat string | Gives 'a

definition public_gate :: "(string \<Rightarrow> bool) \<Rightarrow> string \<Rightarrow> string \<Rightarrow> (nat \<times> string) option" where
  "public_gate origin_ok origin fetch_site =
     (if origin \<noteq> [] \<and> \<not> origin_ok origin then Some (403, ''Invalid origin'')
      else if map ascii_lower fetch_site = ''cross-site'' then Some (403, ''Cross-site request rejected'')
      else None)"

section \<open>Login\<close>

record login_body =
  lb_username :: string
  lb_password :: string
  lb_totp :: "string option"

definition login_body_ok :: "login_body \<Rightarrow> bool" where
  "login_body_ok b \<longleftrightarrow>
     1 \<le> length (lb_username b) \<and> length (lb_username b) \<le> 128 \<and>
     1 \<le> length (lb_password b) \<and> length (lb_password b) \<le> 512 \<and>
     (case lb_totp b of None \<Rightarrow> True | Some t \<Rightarrow> length t \<le> 64)"

text \<open>What the browser receives: the portal cookie, the service cookie, and the method.\<close>

record login_grant =
  lg_username :: string
  lg_op_cookie :: string
  lg_service_cookie :: string
  lg_method :: string

definition login_context :: "login_env \<Rightarrow> string \<Rightarrow> string \<Rightarrow> (string \<times> pyval) list" where
  "login_context env username method =
     [(''username'', PStr username), (''auth_method'', PStr method),
      (''authenticated_at'', PInt (l_secs env)),
      (''mfa'', PBool (method \<in> {''password+totp'', ''password+recovery''})),
      (''phishing_resistant'', PBool (method = ''webauthn'')), (''user_verified'', PBool (method = ''webauthn''))]"

definition service_cookie :: "gate \<Rightarrow> string \<Rightarrow> string" where
  "service_cookie g username =
     mk_value (create_session_cookie (g_env g) username None None
       (Some (get_env_int (g_env g) ''SESSION_MAX_LIFETIME'' default_max_lifetime)) (g_csrf g) (g_sid g))"

text \<open>\<open>fresh\<close> is the random id of the portal session; the method is one of the four ceremonies.\<close>

definition finish_operator_login ::
    "'s backend \<Rightarrow> gate \<Rightarrow> string \<Rightarrow> string \<Rightarrow> string \<Rightarrow> string \<Rightarrow> 's gate_state \<Rightarrow>
     login_grant \<times> 's gate_state"
where
  "finish_operator_login be g ip fresh username method y =
     (case issue_op_session be (g_env g) (hc_tx (g_http g)) (op_bind_ip (g_env g) ip) username fresh
             (gs_auth y) (gs_state y) of
        (cookie, m, s) \<Rightarrow>
          let service = service_cookie g username;
              s = (case verify_session_cookie (g_env g) service of
                     None \<Rightarrow> s
                   | Some c \<Rightarrow>
                       (case c_sid c of
                          Some (x # xs) \<Rightarrow>
                            record_auth_context be (g_env g) (x # xs) (login_context (g_env g) username method)
                              (Some (username @ '':'' @ int_str (c_created c))) (Some (c_expires c)) s
                        | _ \<Rightarrow> s))
          in (\<lparr> lg_username = username, lg_op_cookie = cookie, lg_service_cookie = service, lg_method = method \<rparr>,
              (put_state s y)\<lparr>gs_auth := m\<rparr>))"

definition login_authorization :: "gate \<Rightarrow> string \<Rightarrow> string \<Rightarrow> string" where
  "login_authorization g username password =
     ''Basic '' @ b64_encode (tx_enc (hc_tx (g_http g)) (username @ '':'' @ password))"

text \<open>The second factor of the web client, with the code cut to 32 characters.\<close>

definition login_second_factor ::
    "'s backend \<Rightarrow> gate \<Rightarrow> login_body \<Rightarrow> string \<Rightarrow> 's gate_state \<Rightarrow>
     (string option) reply outcome \<times> 's gate_state"
where
  "login_second_factor be g b ip y =
     (if \<not> mfa_required_for_login (l_environ (g_env g)) then (Returned (Gives None), y)
      else
        let code = (case lb_totp b of None \<Rightarrow> [] | Some t \<Rightarrow> py_strip t)
        in if code = [] then (Returned (Fails 401 ''MFA code required''), y)
           else (case verify_login_mfa be g (lb_username b) (take 32 code) ip y of
                   (Raised, y) \<Rightarrow> (Raised, y)
                 | (Returned (Inl message), y) \<Rightarrow> (Returned (Fails 401 message), y)
                 | (Returned (Inr k), y) \<Rightarrow> (Returned (Gives (Some k)), y)))"

definition post_auth_login ::
    "'s backend \<Rightarrow> gate \<Rightarrow> (string \<Rightarrow> bool) \<Rightarrow> string \<Rightarrow> string \<Rightarrow> login_body \<Rightarrow> string \<Rightarrow> string \<Rightarrow> 's gate_state \<Rightarrow>
     login_grant reply outcome \<times> 's gate_state"
where
  "post_auth_login be g origin_ok origin fetch_site b ip fresh y =
     (case public_gate origin_ok origin fetch_site of
        Some (status, message) \<Rightarrow> (Returned (Fails status message), y)
      | None \<Rightarrow>
          if \<not> login_body_ok b then (Returned (Fails 400 ''Invalid request body''), y)
          else (case authenticate_landing be (g_http g)
                       (login_authorization g (lb_username b) (lb_password b)) ip (portal_part y) of
                  (Raised, z) \<Rightarrow> (Raised, with_portal z y)
                | (Returned (True, Some operator), z) \<Rightarrow>
                    (case login_second_factor be g b ip (with_portal z y) of
                       (Raised, y) \<Rightarrow> (Raised, y)
                     | (Returned (Fails status message), y) \<Rightarrow> (Returned (Fails status message), y)
                     | (Returned (Gives k), y) \<Rightarrow>
                         if \<not> login_allowed g (lb_username b) (gs_file y)
                         then (Returned (Fails 503 ''System under maintenance. Try again later.''), y)
                         else (case finish_operator_login be g ip fresh (op_username operator)
                                      (''password'' @ (case k of None \<Rightarrow> [] | Some k \<Rightarrow> ''+'' @ k)) y of
                                 (grant, y) \<Rightarrow> (Returned (Gives grant), y)))
                | (Returned _, z) \<Rightarrow> (Returned (Fails 401 ''Invalid credentials''), with_portal z y)))"

section \<open>Logout\<close>

text \<open>Session id and expiry of a portal cookie, read from its text alone.\<close>

definition logout_target :: "string \<Rightarrow> string \<times> int" where
  "logout_target cookie =
     (case split_all (CHR ''.'') cookie of
        [sid, user64, exp_s, sig] \<Rightarrow> (sid, case py_int exp_s of Some n \<Rightarrow> n | None \<Rightarrow> 0)
      | _ \<Rightarrow> ([], 0))"

definition revoke_target :: "'s backend \<Rightarrow> login_env \<Rightarrow> string \<times> int \<Rightarrow> 's \<Rightarrow> 's" where
  "revoke_target be env t s =
     (if fst t = [] \<or> \<not> l_up env then s
      else revoke_op_session be env (fst t)
             (if snd t \<noteq> 0 then snd t else l_secs env + op_session_ttl) s)"

text \<open>\<open>portal_sid\<close> is the session the gate resolved; both cookies are expired in the answer.\<close>

definition post_logout :: "'s backend \<Rightarrow> login_env \<Rightarrow> string \<Rightarrow> string \<Rightarrow> 's \<Rightarrow> 's" where
  "post_logout be env portal_sid cookie_header s =
     drop_auth_context_for_cookie be env (cookie_value cookie_header ''vnc_session'')
       (revoke_target be env (logout_target (cookie_value cookie_header ''vnc_op''))
          (revoke_target be env (portal_sid, l_secs env + op_session_ttl) s))"

section \<open>Step-up\<close>

record step_up_body =
  sb_password :: string
  sb_operation :: string
  sb_resource :: string

definition step_up_body_ok :: "step_up_body \<Rightarrow> bool" where
  "step_up_body_ok b \<longleftrightarrow>
     1 \<le> length (sb_password b) \<and> length (sb_password b) \<le> 256 \<and>
     length (sb_operation b) \<le> 64 \<and> length (sb_resource b) \<le> 256"

text \<open>A stored operator by the store; otherwise, and when it raises, the portal's own check.\<close>

definition verify_step_up_password ::
    "'s backend \<Rightarrow> gate \<Rightarrow> string \<Rightarrow> string \<Rightarrow> 's gate_state \<Rightarrow> bool outcome \<times> 's gate_state"
where
  "verify_step_up_password be g username password y =
     (let oc = hc_op (g_http g);
          (r, fl) = (if map_of (load_accounts oc (gs_file y)) username = None then (Raised, gs_file y)
                     else verify_operator oc username password (gs_file y));
          y = y\<lparr>gs_file := fl\<rparr>
      in (case r of
            Returned rec \<Rightarrow> (Returned (rec \<noteq> None), y)
          | Raised \<Rightarrow>
              (case check_landing_auth be (g_http g) (login_authorization g username password) [] (gs_state y) of
                 (ok, s) \<Rightarrow> (ok, put_state s y))))"

definition refresh_auth_policy_context :: "'s backend \<Rightarrow> login_env \<Rightarrow> string \<Rightarrow> 's \<Rightarrow> 's" where
  "refresh_auth_policy_context be env cookie_header s =
     (case session_id_for_cookie env (cookie_value cookie_header ''vnc_session'') of
        Some (x # xs) \<Rightarrow> update_auth_context be env (x # xs) [(''authenticated_at'', PInt (l_secs env))] s
      | _ \<Rightarrow> s)"

text \<open>The grant's operation and resource; the success of a step-up without one is generic.\<close>

definition bind_step_up_grant ::
    "'s backend \<Rightarrow> login_env \<Rightarrow> string \<Rightarrow> string \<Rightarrow> step_up_body \<Rightarrow> string \<Rightarrow> 's \<Rightarrow>
     ((string \<times> string) option) reply \<times> 's"
where
  "bind_step_up_grant be env cookie_header username b nonce s =
     (if sb_operation b = [] then (Gives None, s)
      else if sb_operation b \<notin> set step_up_bound_operations \<and> get_operation (sb_operation b) = None
      then (Fails 400 (''Unknown operation: '' @ sb_operation b), s)
      else (case grant_step_up be env username (sb_operation b) (sb_resource b)
                   (cookie_value cookie_header ''vnc_op'') nonce s of
              (_, s) \<Rightarrow> (Gives (Some (sb_operation b, sb_resource b)), s)))"

definition post_step_up ::
    "'s backend \<Rightarrow> gate \<Rightarrow> operator \<Rightarrow> string \<Rightarrow> step_up_body \<Rightarrow> string \<Rightarrow> 's gate_state \<Rightarrow>
     ((string \<times> string) option) reply outcome \<times> 's gate_state"
where
  "post_step_up be g operator cookie_header b nonce y =
     (if \<not> step_up_body_ok b then (Returned (Fails 400 ''Invalid request body''), y)
      else (case verify_step_up_password be g (op_username operator) (sb_password b) y of
              (Raised, y) \<Rightarrow> (Raised, y)
            | (Returned False, y) \<Rightarrow> (Returned (Fails 403 ''Re-authentication failed''), y)
            | (Returned True, y) \<Rightarrow>
                (case record_auth_time be (g_env g) (op_username operator) None (gs_auth y) (gs_state y) of
                   (m, s) \<Rightarrow>
                     (case bind_step_up_grant be (g_env g) cookie_header (op_username operator) b nonce
                             (refresh_auth_policy_context be (g_env g) cookie_header s) of
                        (r, s) \<Rightarrow> (Returned r, (put_state s y)\<lparr>gs_auth := m\<rparr>)))))"

end
