(* ===== verification/ApiDispatch.thy ===== *)
theory ApiDispatch
  imports ApiRoutes LoginHandlers
begin

text \<open>
  The dispatch of the JSON API: services/api_v1.py from the rate limit to the call of a handler, and
  the two entry points of backend/app.py, reads and mutations, with the identity gate of
  backend/context.py.  A handled request names its route, its parameters and who is calling; what the
  handler then does is modelled per use case.
\<close>

section \<open>Answers\<close>

datatype caller = Nobody | Guest | Account operator

datatype api_answer =
    NotFound
  | TooMany
  | Unauthorized
  | Denied
  | StepUpNeeded
  | ServerError
  | Page string
  | StatusJson
  | Handled caller route "(string \<times> string) list"

text \<open>What a gate lets through.\<close>

definition gated :: "gate_answer \<Rightarrow> (operator \<Rightarrow> api_answer \<times> 'y) \<Rightarrow> 'y \<Rightarrow> api_answer \<times> 'y" where
  "gated a f y =
     (case a of GateUnauthorized \<Rightarrow> (Unauthorized, y) | GateForbidden \<Rightarrow> (Denied, y) | GateOpen op \<Rightarrow> f op)"

section \<open>The rate limit\<close>

definition api_bucket :: "login_env \<Rightarrow> int \<Rightarrow> int" where
  "api_bucket env window = \<lfloor>l_now env / of_int window\<rfloor>"

definition api_rate_key :: "login_env \<Rightarrow> string \<Rightarrow> string \<Rightarrow> string" where
  "api_rate_key env scope ip =
     scope @ [nul] @ ip @ [nul] @ int_str (api_bucket env (snd (rate_budget scope)))"

definition rate_limit :: "'s backend \<Rightarrow> login_env \<Rightarrow> string \<Rightarrow> string \<Rightarrow> bool \<Rightarrow> 's \<Rightarrow> bool \<times> 's" where
  "rate_limit be env scope client_ip mutating s =
     (let ip = (if client_ip = [] then ''unknown'' else client_ip)
      in if \<not> l_up env then (\<not> mutating, s)
         else (case b_increment be (l_now env) ''api_rate'' (api_rate_key env scope ip) 1
                      (Some (of_int (snd (rate_budget scope)))) s of
                 (n, s) \<Rightarrow> (n \<le> fst (rate_budget scope), s)))"

section \<open>Identities\<close>

text \<open>An activated share link that still grants \<open>view\<close>.\<close>

definition valid_ephemeral_cookie :: "'s backend \<Rightarrow> gate \<Rightarrow> request \<Rightarrow> 's gate_state \<Rightarrow> bool \<times> 's gate_state" where
  "valid_ephemeral_cookie be g rq y =
     (let internal = cookie_value (rq_cookie rq) ''vnc_ephemeral''
      in if internal = [] then (False, y)
         else (case check_session_permission be (g_senv g) internal ''view'' None (Some (rq_client_ip rq))
                      (gs_store y) of
                 (ok, st) \<Rightarrow> (ok, y\<lparr>gs_store := st\<rparr>)))"

definition resolve_in ::
    "'s backend \<Rightarrow> gate \<Rightarrow> request \<Rightarrow> string \<Rightarrow> 's gate_state \<Rightarrow>
     ((string \<times> operator \<times> string option) option) outcome \<times> 's gate_state"
where
  "resolve_in be g rq fresh y =
     (case resolve_operator be (g_http g) rq fresh (gs_auth y) (portal_part y) of
        (r, m, z) \<Rightarrow> (r, (with_portal z y)\<lparr>gs_auth := m\<rparr>))"

text \<open>\<open>_portal_identity\<close>: whether the caller is known, and the operator unless it is a guest.\<close>

definition portal_identity ::
    "'s backend \<Rightarrow> gate \<Rightarrow> request \<Rightarrow> string \<Rightarrow> 's gate_state \<Rightarrow>
     (bool \<times> operator option) outcome \<times> 's gate_state"
where
  "portal_identity be g rq fresh y =
     (case valid_ephemeral_cookie be g rq y of
        (True, y) \<Rightarrow> (Returned (True, None), y)
      | (False, y) \<Rightarrow>
          (case resolve_in be g rq fresh y of
             (Raised, y) \<Rightarrow> (Raised, y)
           | (Returned None, y) \<Rightarrow> (Returned (False, None), y)
           | (Returned (Some (sid, op, _)), y) \<Rightarrow> (Returned (True, Some op), y)))"

definition gate_in ::
    "'s backend \<Rightarrow> gate \<Rightarrow> (string \<Rightarrow> bool) \<Rightarrow> request \<Rightarrow> string \<Rightarrow> string \<Rightarrow> 's gate_state \<Rightarrow>
     gate_answer outcome \<times> 's gate_state"
where
  "gate_in be g origin_ok rq permission fresh y =
     (case operator_gate be (g_http g) origin_ok rq permission fresh (gs_auth y) (portal_part y) of
        (r, m, z) \<Rightarrow> (r, (with_portal z y)\<lparr>gs_auth := m\<rparr>))"

text \<open>\<open>_operator\<close> of backend/handlers/common.py: the identity the gate of a read resolved.\<close>

definition read_operator :: "operator option \<Rightarrow> string \<Rightarrow> gate_answer" where
  "read_operator portal permission =
     (case portal of
        None \<Rightarrow> GateForbidden
      | Some op \<Rightarrow>
          if permission \<noteq> [] \<and> permission \<notin> set (op_permissions op) \<and>
             ''admin:*'' \<notin> set (op_permissions op) then GateForbidden
          else GateOpen op)"

section \<open>Dispatch\<close>

text \<open>\<open>operator\<close> asks for an account and no capability.\<close>

definition capability :: "route \<Rightarrow> string" where
  "capability r =
     (case rt_perm r of None \<Rightarrow> [] | Some p \<Rightarrow> if p = ''operator'' then [] else p)"

definition dispatch_session ::
    "'s backend \<Rightarrow> gate \<Rightarrow> (string \<Rightarrow> bool) \<Rightarrow> string \<Rightarrow> operator option \<Rightarrow> request \<Rightarrow> string \<Rightarrow>
     route \<Rightarrow> (string \<times> string) list \<Rightarrow> 's gate_state \<Rightarrow> api_answer outcome \<times> 's gate_state"
where
  "dispatch_session be g origin_ok verb portal rq fresh r ps y =
     (case valid_ephemeral_cookie be g rq y of
        (True, y) \<Rightarrow>
          if verb \<noteq> ''GET'' \<and> public_gate origin_ok (rq_origin rq) (rq_fetch_site rq) \<noteq> None
          then (Returned Denied, y)
          else (Returned (Handled Guest r ps), y)
      | (False, y) \<Rightarrow>
          (case (if verb \<noteq> ''GET'' then gate_in be g origin_ok rq [] fresh y
                 else (Returned (read_operator portal []), y)) of
             (Raised, y) \<Rightarrow> (Raised, y)
           | (Returned a, y) \<Rightarrow>
               (case gated a (\<lambda>op. (Handled (Account op) r ps, y)) y of (a, y) \<Rightarrow> (Returned a, y))))"

text \<open>Mutations pass the gate, and the step-up check where the route has one.\<close>

definition step_up_gate ::
    "'s backend \<Rightarrow> gate \<Rightarrow> route \<Rightarrow> (string \<times> string) list \<Rightarrow> operator \<Rightarrow> 's gate_state \<Rightarrow>
     api_answer \<times> 's gate_state"
where
  "step_up_gate be g r ps op y =
     (if \<not> rt_step_up r then (Handled (Account op) r ps, y)
      else (case needs_step_up be (g_env g) (op_username op) None (gs_auth y) (gs_state y) of
              (True, s) \<Rightarrow> (StepUpNeeded, put_state s y)
            | (False, s) \<Rightarrow> (Handled (Account op) r ps, put_state s y)))"

definition dispatch_operator ::
    "'s backend \<Rightarrow> gate \<Rightarrow> (string \<Rightarrow> bool) \<Rightarrow> string \<Rightarrow> operator option \<Rightarrow> request \<Rightarrow> string \<Rightarrow>
     route \<Rightarrow> (string \<times> string) list \<Rightarrow> 's gate_state \<Rightarrow> api_answer outcome \<times> 's gate_state"
where
  "dispatch_operator be g origin_ok verb portal rq fresh r ps y =
     (if verb \<noteq> ''GET'' then
        (case gate_in be g origin_ok rq (capability r) fresh y of
           (Raised, y) \<Rightarrow> (Raised, y)
         | (Returned a, y) \<Rightarrow>
             (case gated a (\<lambda>op. step_up_gate be g r ps op y) y of (a, y) \<Rightarrow> (Returned a, y)))
      else if rt_perm r \<noteq> None then
        (Returned (fst (gated (read_operator portal (capability r)) (\<lambda>op. (Handled (Account op) r ps, y)) y)), y)
      else (Returned (Handled Nobody r ps), y))"

definition dispatch ::
    "'s backend \<Rightarrow> gate \<Rightarrow> (string \<Rightarrow> bool) \<Rightarrow> string \<Rightarrow> string \<Rightarrow> operator option \<Rightarrow> request \<Rightarrow> string \<Rightarrow>
     's gate_state \<Rightarrow> api_answer outcome \<times> 's gate_state"
where
  "dispatch be g origin_ok verb path portal rq fresh y =
     (case match_route verb (drop (length api_prefix) path) of
        None \<Rightarrow> (Returned NotFound, y)
      | Some (r, ps) \<Rightarrow>
          (case rate_limit be (g_env g) (rt_scope r) (rq_client_ip rq) (rt_audit r \<noteq> None) (gs_state y) of
             (False, s) \<Rightarrow> (Returned TooMany, put_state s y)
           | (True, s) \<Rightarrow>
               if rt_perm r = Some ''public'' then (Returned (Handled Nobody r ps), put_state s y)
               else if rt_perm r = Some ''session''
               then dispatch_session be g origin_ok verb portal rq fresh r ps (put_state s y)
               else dispatch_operator be g origin_ok verb portal rq fresh r ps (put_state s y)))"

section \<open>The application\<close>

definition spa_paths :: "string list" where
  "spa_paths = [''/'', ''/index.html'', ''/share'', ''/share/'', ''/audio_receiver.html'',
     ''/gamepad.html'', ''/audio'', ''/audio/'', ''/gamepad'', ''/gamepad/'', ''/terminal'', ''/terminal/'',
     ''/terminal.html'', ''/guest'', ''/guest/'', ''/recovery'', ''/recovery/'', ''/desktop'', ''/desktop/'',
     ''/files'', ''/files/'']"

text \<open>An exception of the dispatch becomes the status 500.\<close>

definition answered :: "api_answer outcome \<times> 'y \<Rightarrow> api_answer \<times> 'y" where
  "answered p = (case p of (Raised, y) \<Rightarrow> (ServerError, y) | (Returned a, y) \<Rightarrow> (a, y))"

definition serve_read ::
    "'s backend \<Rightarrow> gate \<Rightarrow> (string \<Rightarrow> bool) \<Rightarrow> string \<Rightarrow> request \<Rightarrow> string \<Rightarrow> 's gate_state \<Rightarrow>
     api_answer \<times> 's gate_state"
where
  "serve_read be g origin_ok path rq fresh y =
     (if path \<in> set spa_paths then (Page ''/index.html'', y)
      else if is_public_route ''GET'' path then answered (dispatch be g origin_ok ''GET'' path None rq fresh y)
      else if path = ''/admin'' \<or> prefix ''/admin/'' path then (Page path, y)
      else (case portal_identity be g rq fresh y of
              (Raised, y) \<Rightarrow> (ServerError, y)
            | (Returned (False, _), y) \<Rightarrow> (Unauthorized, y)
            | (Returned (True, portal), y) \<Rightarrow>
                if path = ''/status.json'' then (StatusJson, y)
                else if is_api_path path then answered (dispatch be g origin_ok ''GET'' path portal rq fresh y)
                else (NotFound, y)))"

text \<open>Mutations are routed here below the prefix only.\<close>

definition serve_mutation ::
    "'s backend \<Rightarrow> gate \<Rightarrow> (string \<Rightarrow> bool) \<Rightarrow> string \<Rightarrow> string \<Rightarrow> request \<Rightarrow> string \<Rightarrow> 's gate_state \<Rightarrow>
     api_answer \<times> 's gate_state"
where
  "serve_mutation be g origin_ok verb path rq fresh y =
     (if \<not> is_api_path path then (NotFound, y)
      else answered (dispatch be g origin_ok verb path None rq fresh y))"

end
