(* ===== verification/GatewayRuns.thy ===== *)
theory GatewayRuns
  imports Gateway SessionInvariants
begin

text \<open>
  Logins, requests and upgrades of any callers in any order.  A lockout is a row of the shared state;
  every operation either leaves the rows of other keys alone or consults the key first, so a lockout
  lasts until its end and nobody passes it.
\<close>

datatype gw_event =
    GwLogin gate string string string string    \<comment> \<open>user, password, code, address\<close>
  | GwRequest gate string string string string string string
      \<comment> \<open>cookie, bearer, share-link cookie, resource, permission, address\<close>
  | GwUpgrade gate "string \<Rightarrow> bool" string string string string string string string
      \<comment> \<open>origins accepted, origin, cookie, bearer, resource, permission, address, share-link cookie\<close>

fun gw_gate :: "gw_event \<Rightarrow> gate" where
  "gw_gate (GwLogin g _ _ _ _) = g"
| "gw_gate (GwRequest g _ _ _ _ _ _) = g"
| "gw_gate (GwUpgrade g _ _ _ _ _ _ _ _) = g"

definition address_keys :: "string \<Rightarrow> string list" where
  "address_keys ip = (if ip = [] then [] else [ip, ip_key ip, ws_key ip])"

text \<open>The keys of the limiter that an event consults.\<close>

fun gw_keys :: "gw_event \<Rightarrow> string list" where
  "gw_keys (GwLogin _ user _ _ ip) = [ip_key ip, account_key user]"
| "gw_keys (GwRequest _ _ _ _ _ _ ip) = address_keys ip"
| "gw_keys (GwUpgrade _ _ _ _ _ _ _ ip _) = address_keys ip"

definition on_gate :: "('s store \<Rightarrow> 'a \<times> 's store) \<Rightarrow> 's gate_state \<Rightarrow> 'a \<times> 's gate_state" where
  "on_gate f y = (case f (gs_store y) of (r, st) \<Rightarrow> (r, y\<lparr>gs_store := st\<rparr>))"

fun logged_in :: "login_answer outcome \<Rightarrow> bool" where
  "logged_in (Returned (LoggedIn c t m)) = True"
| "logged_in _ = False"

fun let_in :: "(bool \<times> 'a) outcome \<Rightarrow> bool" where
  "let_in (Returned (ok, a)) = ok"
| "let_in Raised = False"

text \<open>Whether the event let its caller in, and the keys it had to pass.\<close>

definition gw_step :: "'s backend \<Rightarrow> gw_event \<Rightarrow> 's gate_state \<Rightarrow> (bool \<times> string list) \<times> 's gate_state" where
  "gw_step be e y =
     (case e of
        GwLogin g user password code ip \<Rightarrow>
          (case attempt_login be g user password code ip y of (r, y) \<Rightarrow> ((logged_in r, gw_keys e), y))
      | GwRequest g cookie bearer eph resource permission ip \<Rightarrow>
          (case on_gate (authorize_request be g cookie bearer eph resource permission ip) y of
             (r, y) \<Rightarrow> ((let_in r, gw_keys e), y))
      | GwUpgrade g ok origin cookie bearer resource permission ip eph \<Rightarrow>
          (case on_gate (check_websocket_upgrade be g ok origin cookie bearer resource permission ip eph) y of
             (r, y) \<Rightarrow> ((let_in r, gw_keys e), y)))"

definition passed :: "string \<Rightarrow> bool \<times> string list \<Rightarrow> bool" where
  "passed k a \<longleftrightarrow> fst a \<and> k \<in> set (snd a)"

definition ends_at :: "time \<Rightarrow> pyval \<Rightarrow> bool" where
  "ends_at x v \<longleftrightarrow> (\<exists>u. num_of v = Some u \<and> x \<le> u)"

section \<open>The lockout of a key\<close>

lemma kept_state_only: "kept (\<lambda>_ _. True) Q st \<longleftrightarrow> Q (st_state st)"
  by (simp add: kept_def sess_all_def file_all_def items_all_def)

lemma stable_True [simp]: "stable (\<lambda>_ _. True)"
  by (simp add: stable_def)

lemma g_senv_now [simp]: "v_now (g_senv g) = g_now g"
  by (simp add: g_senv_def)

lemma put_state_sel [simp]:
  "gs_state (put_state s y) = s" "gs_file (put_state s y) = gs_file y"
  "gs_hashes (put_state s y) = gs_hashes y" "gs_auth (put_state s y) = gs_auth y"
  by (simp_all add: put_state_def)

context kv_store
begin

definition lock_held :: "string \<Rightarrow> time \<Rightarrow> 's \<Rightarrow> bool" where
  "lock_held k x s \<longleftrightarrow> row_until (ns_lockouts, k) (ends_at x) x s"

lemma lock_get: "lock_held k x s \<Longrightarrow> now \<le> x \<Longrightarrow> lock_held k x (snd (b_get be now ns j s))"
  by (simp add: lock_held_def row_get)

lemma lock_set_ttl:
  "lock_held k x s \<Longrightarrow> ns \<noteq> ns_lockouts \<or> j \<noteq> k \<Longrightarrow> lock_held k x (b_set_ttl be now ns j v t s)"
  unfolding lock_held_def by (rule row_set) auto

lemma lock_others:
  assumes "lock_held k x s" and "ns \<noteq> ns_lockouts \<or> j \<noteq> k"
  shows "lock_held k x (b_set be ns j v s)"
    and "lock_held k x (b_delete be ns j s)"
    and "lock_held k x (snd (b_set_if_absent be now ns j v t s))"
    and "lock_held k x (snd (b_increment be now ns j a (Some u) s))"
  using assms
  by (auto simp: lock_held_def row_until_def set_look delete_look claim_other incr_other)

lemma lock_clear_attempts: "lock_held k x s \<Longrightarrow> lock_held k x (clear_attempts be now j s)"
  unfolding clear_attempts_def lock_held_def by (rule row_fold) (simp_all add: row_delete)

lemma lock_is_locked:
  assumes "lock_held k x s" and "now < x" and "is_locked be now j s = Some (b, s')"
  shows "lock_held k x s'" and "j = k \<Longrightarrow> b"
proof -
  obtain v s1 where g: "b_get be now ns_lockouts j s = (v, s1)" by fastforce
  have s1: "lock_held k x s1" using lock_get [OF assms(1), of now ns_lockouts j] assms(2) g by simp
  note eq = assms(3) [unfolded is_locked_def Let_def g prod.case]
  have own: "ends_at x v" if "j = k"
    using row_read [OF assms(1) [unfolded lock_held_def], of now] assms(2) g that by simp
  show "lock_held k x s'"
  proof (cases "j = k")
    case True
    with own assms(2) eq s1 show ?thesis
      by (auto simp: ends_at_def split: if_splits option.splits)
  next
    case False
    with eq s1 show ?thesis
      by (auto intro!: lock_clear_attempts lock_others(2) split: if_splits option.splits)
  qed
  show b if "j = k"
    using own [OF that] assms(2) eq by (auto simp: ends_at_def split: if_splits option.splits)
qed

lemma lock_any:
  "lock_held k x s \<Longrightarrow> l_now env < x \<Longrightarrow> any_locked be env ks s = Some (b, s') \<Longrightarrow>
   lock_held k x s' \<and> (k \<in> set ks \<longrightarrow> b)"
proof (induction ks arbitrary: s)
  case (Cons j ks)
  show ?case
  proof (cases "lim_locked be env j s")
    case (Some p)
    obtain c s1 where p: "p = (c, s1)" by (cases p)
    have l: "is_locked be (l_now env) j s = Some (c, s1)"
      using Some p by (auto simp: lim_locked_def split: if_splits)
    note one = lock_is_locked [OF Cons.prems(1,2) l]
    show ?thesis
      using Cons.IH [OF one(1) Cons.prems(2)] Cons.prems(3) one Some p by (cases c) auto
  qed (use Cons.prems in simp)
qed simp

lemma lock_next_lockout:
  "lock_held k x s \<Longrightarrow> now \<le> x \<Longrightarrow> lock_held k x (snd (next_lockout be lm now j s))"
  by (simp add: next_lockout_def Let_def case_prod_unfold lock_get lock_set_ttl)

lemma lock_failure:
  assumes "lock_held k x s" and "l_now (hc_env hc) \<le> x" and "j \<noteq> k" and "lim_failure be hc j s = Some s'"
  shows "lock_held k x s'"
proof -
  have "lock_held k x (record_failure be fl lm now rnd j s)" if "now \<le> x" for fl lm now rnd
    using assms(1,3) that
    by (auto simp: record_failure_def Let_def case_prod_unfold intro!: lock_set_ttl lock_next_lockout)
  with assms(2,4) show ?thesis by (auto simp: lim_failure_def split: if_splits)
qed

lemma lock_success:
  "lock_held k x s \<Longrightarrow> j \<noteq> k \<Longrightarrow> lim_success be hc j s = Some s' \<Longrightarrow> lock_held k x s'"
  by (auto simp: lim_success_def record_success_def intro!: lock_others(2) lock_clear_attempts split: if_splits)

section \<open>What else a request does\<close>

lemma lock_quiet: "v_now env \<le> x \<Longrightarrow> quiet be env (lock_held k x)"
  by (simp add: quiet_def lock_get lock_set_ttl lock_others(3))

lemma lock_claims: "claims_keep be env P (lock_held k x)"
  by (auto simp: claims_keep_def claim_consumed_def claim_use_def Let_def case_prod_unfold
      lock_others(3) lock_others(4))

lemma lock_store:
  assumes "lock_held k x (st_state st)" and "g_now g \<le> x"
  shows "lock_held k x (st_state (snd (check_session_permission be (g_senv g) tok perm r ip st)))"
    and "lock_held k x (st_state (snd (check_permission be (g_senv g) tok perm r ip st)))"
    and "lock_held k x (st_state (snd (is_session_revoked be (g_senv g) tok st)))"
    and "lock_held k x (st_state (snd (is_session_expired be (g_senv g) tok st)))"
proof -
  have q: "quiet be (g_senv g) (lock_held k x)" using assms(2) by (simp add: lock_quiet)
  have st: "kept (\<lambda>_ _. True) (lock_held k x) st" using assms(1) by (simp add: kept_state_only)
  show "lock_held k x (st_state (snd (check_session_permission be (g_senv g) tok perm r ip st)))"
    using kept_check_session_permission [OF stable_True q st] by (simp add: kept_state_only)
  show "lock_held k x (st_state (snd (check_permission be (g_senv g) tok perm r ip st)))"
    using kept_check_permission [OF stable_True q lock_claims st] by (simp add: kept_state_only)
  show "lock_held k x (st_state (snd (is_session_revoked be (g_senv g) tok st)))"
    "lock_held k x (st_state (snd (is_session_expired be (g_senv g) tok st)))"
    using kept_is_session_revoked [OF stable_True q st] by (simp_all add: kept_state_only)
qed

lemma lock_check_authenticated:
  assumes "lock_held k x s" and "l_now env \<le> x"
  shows "lock_held k x (snd (check_authenticated be env cv bt s))"
proof -
  have r: "lock_held k x (snd (revoked_shared be env i z))" "lock_held k x (snd (operator_session_epoch be env z))"
    if "lock_held k x z" for i z
    using that assms(2) by (auto simp: revoked_shared_def operator_session_epoch_def case_prod_beta Let_def lock_get)
  show ?thesis
    using assms(1) by (auto simp: check_authenticated_def Let_def case_prod_beta r split: bool.split option.split)
qed

lemma lock_on_store:
  assumes "lock_held k x (st_state st)" and "g_now g \<le> x"
  shows "lock_held k x (st_state (snd (on_store (check_authenticated be (g_env g) cv bt) st)))"
  using lock_check_authenticated [OF assms, of cv bt] by (simp add: on_store_def case_prod_beta)

lemma lock_totp:
  assumes "lock_held k x s" and "m_now env \<le> x"
  shows "lock_held k x (snd (verify_totp be cfg env secret code ts s))"
proof -
  have check: "lock_held k x (snd (totp_check be cfg env secret code ts s))"
    using totp_check_state [of be cfg env secret code ts s] assms lock_get by metis
  have claim: "lock_held k x (snd (claim_step be cfg env secret m z))" if "lock_held k x z" for m z
    using that by (simp add: claim_step_def lock_others(3))
  have rec: "lock_held k x (record_step be cfg env m secret z)" if "lock_held k x z" for m z
    using that by (simp add: record_step_def lock_others(1))
  obtain r s1 where c: "totp_check be cfg env secret code ts s = (r, s1)" by fastforce
  show ?thesis
  proof (cases r)
    case (Some m)
    obtain b s2 where w: "claim_step be cfg env secret m s1 = (b, s2)" by fastforce
    have "lock_held k x s2" using claim [of s1 m] check c w by simp
    then show ?thesis by (cases b) (simp_all add: verify_totp_def c w Some rec)
  qed (use check c in \<open>simp add: verify_totp_def\<close>)
qed

section \<open>No event passes a lockout, and none ends it\<close>

abbreviation locked_store :: "string \<Rightarrow> time \<Rightarrow> 's store \<Rightarrow> bool" where
  "locked_store k x st \<equiv> lock_held k x (st_state st)"

lemma lock_address:
  assumes "locked_store k x st" and "g_now g < x" and "address_locked be (g_env g) ip (st_state st) = Some (b, s)"
  shows "lock_held k x s" and "k \<in> set (address_keys ip) \<Longrightarrow> b"
  using assms lock_any [of k x "st_state st" "g_env g" "[ip, ip_key ip, ws_key ip]" b s]
  by (auto simp: address_locked_def is_client_locked_def address_keys_def split: if_splits)

lemma lock_behind_check:
  assumes "locked_store k x st" and "g_now g < x"
    and "\<And>st1. locked_store k x st1 \<Longrightarrow> k \<notin> set (address_keys ip) \<Longrightarrow> locked_store k x (snd (f st1))"
  shows "locked_store k x (snd (case address_locked be (g_env g) ip (st_state st) of
        None \<Rightarrow> (Raised, st)
      | Some (True, s) \<Rightarrow> (Returned (False, a), st\<lparr>st_state := s\<rparr>)
      | Some (False, s) \<Rightarrow> Let (st\<lparr>st_state := s\<rparr>) f))"
    and "k \<in> set (address_keys ip) \<Longrightarrow>
      \<not> let_in (fst (case address_locked be (g_env g) ip (st_state st) of
        None \<Rightarrow> (Raised, st)
      | Some (True, s) \<Rightarrow> (Returned (False, a), st\<lparr>st_state := s\<rparr>)
      | Some (False, s) \<Rightarrow> Let (st\<lparr>st_state := s\<rparr>) f))"
proof -
  have b: "lock_held k x s \<and> (k \<in> set (address_keys ip) \<longrightarrow> b)"
    if "address_locked be (g_env g) ip (st_state st) = Some (b, s)" for b s
    using lock_address [OF assms(1,2) that] by blast
  then show "locked_store k x (snd (case address_locked be (g_env g) ip (st_state st) of
        None \<Rightarrow> (Raised, st)
      | Some (True, s) \<Rightarrow> (Returned (False, a), st\<lparr>st_state := s\<rparr>)
      | Some (False, s) \<Rightarrow> Let (st\<lparr>st_state := s\<rparr>) f))"
  proof (cases "address_locked be (g_env g) ip (st_state st)")
    case (Some p)
    obtain c s where p: "p = (c, s)" by (cases p)
    show ?thesis
    proof (cases c)
      case False
      then have "k \<notin> set (address_keys ip)" "locked_store k x (st\<lparr>st_state := s\<rparr>)" using b Some p by auto
      then show ?thesis using assms(3) Some p False by simp
    qed (use b Some p in auto)
  qed (use assms(1) in simp)
  show "\<not> let_in (fst (case address_locked be (g_env g) ip (st_state st) of
        None \<Rightarrow> (Raised, st)
      | Some (True, s) \<Rightarrow> (Returned (False, a), st\<lparr>st_state := s\<rparr>)
      | Some (False, s) \<Rightarrow> Let (st\<lparr>st_state := s\<rparr>) f))" if "k \<in> set (address_keys ip)"
    using b that by (auto split: option.split bool.split)
qed

lemma lock_ended:
  assumes "locked_store k x st" and "\<And>st'. r = Some st' \<Longrightarrow> locked_store k x st'"
  shows "locked_store k x (snd (ended_with a st r))"
  using assms by (cases r) (simp_all add: ended_with_def)

lemma lock_counted:
  assumes "locked_store k x st" and "g_now g \<le> x" and "ip = [] \<or> ip \<noteq> k"
  shows "count_failure be g ip st = Some st' \<Longrightarrow> locked_store k x st'"
    and "count_success be g ip st = Some st' \<Longrightarrow> locked_store k x st'"
proof -
  have f: "lock_held k x s" if "ip \<noteq> []" "lim_failure be (g_http g) ip (st_state st) = Some s" for s
    by (rule lock_failure [OF assms(1,2) _ that(2)]) (use assms(3) that in simp)
  have s: "lock_held k x s" if "ip \<noteq> []" "lim_success be (g_http g) ip (st_state st) = Some s" for s
    by (rule lock_success [OF assms(1) _ that(2)]) (use assms(3) that in simp)
  show "count_failure be g ip st = Some st' \<Longrightarrow> locked_store k x st'"
    using assms(1) f by (auto simp: count_failure_def split: if_splits)
  show "count_success be g ip st = Some st' \<Longrightarrow> locked_store k x st'"
    using assms(1) s by (auto simp: count_success_def split: if_splits)
qed

lemma lock_ended_counted:
  assumes "locked_store k x st" and "g_now g \<le> x" and "ip = [] \<or> ip \<noteq> k"
  shows "locked_store k x (snd (ended_with a st (count_failure be g ip st)))"
    and "locked_store k x (snd (ended_with a st (count_success be g ip st)))"
  using lock_counted [OF assms] by (auto intro: lock_ended [OF assms(1)])

lemma lock_ws_reject:
  assumes "locked_store k x st" and "g_now g \<le> x" and "ip = [] \<or> ws_key ip \<noteq> k"
  shows "locked_store k x (snd (ws_reject be g ip reason st))"
  unfolding ws_reject_def
  by (rule lock_ended [OF assms(1)])
    (use assms lock_failure [of k x "st_state st" "g_http g" "ws_key ip"] in \<open>auto split: if_splits\<close>)

lemma lock_operator_session:
  assumes "locked_store k x st" and "g_now g \<le> x" and "ip = [] \<or> ip \<noteq> k"
  shows "locked_store k x (snd (authorize_operator_session be g cookie bearer ip st))"
proof -
  obtain a b st1 where c: "on_store (check_authenticated be (g_env g) cookie bearer) st = ((a, b), st1)"
    by (metis prod.exhaust)
  have st1: "locked_store k x st1" using lock_on_store [OF assms(1,2), of cookie bearer] c by simp
  show ?thesis
    unfolding authorize_operator_session_def c prod.case
    by (cases a) (simp_all add: lock_ended_counted [OF st1 assms(2,3)])
qed

lemma lock_credentials:
  assumes "locked_store k x st" and "g_now g \<le> x" and "ip = [] \<or> ip \<noteq> k"
  shows "locked_store k x (snd (authorize_credentials be g cookie bearer resource permission ip st))"
proof -
  obtain r st1 where e: "ephemeral_bearer_authorized be g bearer permission resource ip st = (r, st1)"
    by fastforce
  have st1: "locked_store k x st1"
    using lock_store(2) [OF assms(1,2)] assms(1) e
    by (auto simp: ephemeral_bearer_authorized_def split: if_splits) (metis snd_conv)+
  show ?thesis
    using assms(1) st1 lock_operator_session [OF st1 assms(2,3)]
    by (auto simp: authorize_credentials_def e split: outcome.split bool.split)
qed

lemma lock_request:
  assumes "locked_store k x st" and "g_now g < x"
  shows "locked_store k x (snd (authorize_request be g cookie bearer eph resource permission ip st))"
    and "k \<in> set (address_keys ip) \<Longrightarrow>
      \<not> let_in (fst (authorize_request be g cookie bearer eph resource permission ip st))"
proof -
  have free: "locked_store k x (snd (if eph = [] then authorize_credentials be g cookie bearer resource permission ip st1
             else (case authorize_ephemeral_step be g eph permission resource ip
                          (cookie \<noteq> [] \<or> bearer \<noteq> []) st1 of
                     Inl r \<Rightarrow> r
                   | Inr st \<Rightarrow> authorize_credentials be g cookie bearer resource permission ip st)))"
    if st1: "locked_store k x st1" and ip: "k \<notin> set (address_keys ip)" for st1
  proof -
    have le: "g_now g \<le> x" using assms(2) by simp
    have ip': "ip = [] \<or> ip \<noteq> k" using ip by (auto simp: address_keys_def split: if_splits)
    obtain ok st2 where e: "authorize_ephemeral_cookie be g eph permission resource ip st1 = (ok, st2)" by fastforce
    have st2: "locked_store k x st2"
      using lock_store(1) [OF st1 le] e
      by (auto simp: authorize_ephemeral_cookie_def split: if_splits) (metis snd_conv)+
    show ?thesis
      using lock_credentials [OF st1 le ip'] lock_credentials [OF st2 le ip'] st2
      by (simp add: authorize_ephemeral_step_def e lock_ended_counted [OF st2 le ip'] split: bool.split)
  qed
  show "locked_store k x (snd (authorize_request be g cookie bearer eph resource permission ip st))"
    and "k \<in> set (address_keys ip) \<Longrightarrow>
      \<not> let_in (fst (authorize_request be g cookie bearer eph resource permission ip st))"
    unfolding authorize_request_def
    by (rule lock_behind_check [OF assms free]; assumption)+
qed

lemma lock_ws_operator:
  assumes "locked_store k x st" and "g_now g \<le> x" and "ip = [] \<or> ws_key ip \<noteq> k"
  shows "locked_store k x (snd (ws_operator be g cookie bearer ip st))"
proof -
  obtain a b st1 where c: "on_store (check_authenticated be (g_env g) cookie bearer) st = ((a, b), st1)"
    by (metis prod.exhaust)
  have st1: "locked_store k x st1" using lock_on_store [OF assms(1,2), of cookie bearer] c by simp
  show ?thesis
    unfolding ws_operator_def c prod.case
    using st1 lock_ws_reject [OF st1 assms(2,3)] by (cases a) auto
qed

lemma lock_ws_bearer:
  assumes "locked_store k x st" and "g_now g \<le> x" and "ip = [] \<or> ws_key ip \<noteq> k"
  shows "case ws_ephemeral_bearer be g bearer permission resource ip st of
           Inl (r, st1) \<Rightarrow> locked_store k x st1 | Inr st1 \<Rightarrow> locked_store k x st1"
proof -
  obtain a st1 where r: "is_session_revoked be (g_senv g) bearer st = (a, st1)" by fastforce
  obtain b st2 where e: "is_session_expired be (g_senv g) bearer st1 = (b, st2)" by fastforce
  obtain c st3 where p: "check_permission be (g_senv g) bearer permission (Some resource) (some_text ip) st2 = (c, st3)"
    by fastforce
  have st1: "locked_store k x st1" using lock_store(3) [OF assms(1,2), of bearer] r by simp
  have st2: "locked_store k x st2" using lock_store(4) [OF st1 assms(2), of bearer] e by simp
  have st3: "locked_store k x st3" using lock_store(2) [OF st2 assms(2), of bearer] p by (metis snd_conv)
  note rej = lock_ws_reject [OF st1 assms(2,3)] lock_ws_reject [OF st2 assms(2,3)]
    lock_ws_reject [OF st3 assms(2,3)]
  show ?thesis
    using assms(1) st3 rej
    by (simp add: ws_ephemeral_bearer_def r e p case_prod_beta split: option.split list.split bool.split outcome.split)
qed

lemma lock_ws_credentials:
  assumes "locked_store k x st" and "g_now g \<le> x" and "ip = [] \<or> ws_key ip \<noteq> k"
  shows "locked_store k x (snd (ws_credentials be g cookie bearer resource permission ip st))"
proof (cases "ws_ephemeral_bearer be g bearer permission resource ip st")
  case (Inl r)
  with lock_ws_bearer [OF assms, of bearer permission resource] lock_ws_operator [OF assms] show ?thesis
    by (cases r) (simp add: ws_credentials_def)
next
  case (Inr st1)
  with lock_ws_bearer [OF assms, of bearer permission resource] have "locked_store k x st1" by simp
  from lock_ws_operator [OF this assms(2,3)] lock_ws_operator [OF assms] Inr show ?thesis
    by (simp add: ws_credentials_def)
qed

lemma lock_upgrade:
  assumes "locked_store k x st" and "g_now g < x"
  shows "locked_store k x (snd (check_websocket_upgrade be g ok origin cookie bearer resource permission ip eph st))"
    and "k \<in> set (address_keys ip) \<Longrightarrow>
      \<not> let_in (fst (check_websocket_upgrade be g ok origin cookie bearer resource permission ip eph st))"
proof -
  have free: "locked_store k x (snd (if \<not> ok origin then ws_reject be g ip ''Invalid origin'' st1
             else if eph = [] \<or> permission = [] then ws_credentials be g cookie bearer resource permission ip st1
             else (case check_session_permission be (g_senv g) eph permission (some_text resource) (some_text ip) st1 of
                     (True, st) \<Rightarrow> (Returned (True, ''OK''), st)
                   | (False, st) \<Rightarrow>
                       if cookie = [] \<and> bearer = [] then ws_reject be g ip ''Invalid or expired session'' st
                       else ws_credentials be g cookie bearer resource permission ip st)))"
    if st1: "locked_store k x st1" and ip: "k \<notin> set (address_keys ip)" for st1
  proof -
    have le: "g_now g \<le> x" using assms(2) by simp
    have ip': "ip = [] \<or> ws_key ip \<noteq> k" using ip by (auto simp: address_keys_def split: if_splits)
    obtain a st2 where e: "check_session_permission be (g_senv g) eph permission (some_text resource) (some_text ip) st1
        = (a, st2)" by fastforce
    have st2: "locked_store k x st2" using lock_store(1) [OF st1 le] e by (metis snd_conv)
    show ?thesis
      using st2 lock_ws_credentials [OF st1 le ip'] lock_ws_credentials [OF st2 le ip']
        lock_ws_reject [OF st1 le ip'] lock_ws_reject [OF st2 le ip'] by (cases a) (simp_all add: e)
  qed
  show "locked_store k x (snd (check_websocket_upgrade be g ok origin cookie bearer resource permission ip eph st))"
    and "k \<in> set (address_keys ip) \<Longrightarrow>
      \<not> let_in (fst (check_websocket_upgrade be g ok origin cookie bearer resource permission ip eph st))"
    unfolding check_websocket_upgrade_def
    by (rule lock_behind_check [OF assms free]; assumption)+
qed

subsection \<open>Logins\<close>

abbreviation locked_gate :: "string \<Rightarrow> time \<Rightarrow> 's gate_state \<Rightarrow> bool" where
  "locked_gate k x y \<equiv> lock_held k x (gs_state y)"

lemma lock_count_both:
  assumes "lock_held k x s" and "g_now g \<le> x" and "k \<notin> {ip_key ip, account_key user}"
    and "count_both be g ip user s = Some s'"
  shows "lock_held k x s'"
proof -
  obtain s1 where s1: "lim_failure be (g_http g) (ip_key ip) s = Some s1"
    "lim_failure be (second_call g) (account_key user) s1 = Some s'"
    using assms(4) by (auto simp: count_both_def split: bind_splits)
  have "lock_held k x s1" by (rule lock_failure [OF assms(1,2) _ s1(1)]) (use assms(3) in auto)
  then show ?thesis
    by (rule lock_failure [OF _ _ _ s1(2)]) (use assms(2,3) in \<open>auto simp: second_call_def\<close>)
qed

lemma lock_mfa_fail:
  assumes "locked_gate k x y" and "g_now g \<le> x" and "k \<notin> {ip_key ip, account_key user}"
  shows "locked_gate k x (snd (mfa_fail be g user ip y))"
  using assms(1) lock_count_both [OF assms] by (auto simp: mfa_fail_def split: option.split)

lemma lock_recovery:
  assumes "locked_gate k x y" and "g_now g \<le> x" and "k \<notin> {ip_key ip, account_key user}"
  shows "locked_gate k x (snd (use_recovery_code be g user code ip y))"
proof (cases "recovery_match (g_mfa g) code (gs_hashes y)")
  case (Some h)
  obtain b s where c: "claim_recovery_code be (g_env g) h (gs_state y) = (b, s)" by fastforce
  then have "lock_held k x s"
    using assms(1) lock_others(3) [OF assms(1), of ns_used_recovery]
    by (auto simp: claim_recovery_code_def split: if_splits) (metis snd_conv)
  then have "locked_gate k x (put_state s y)" by simp
  from lock_mfa_fail [OF this assms(2,3)] this Some c show ?thesis
    by (cases b) (simp_all add: use_recovery_code_def)
qed (use lock_mfa_fail [OF assms] in \<open>simp add: use_recovery_code_def\<close>)

lemma lock_second_factor:
  assumes "locked_gate k x y" and "g_now g \<le> x" and "k \<notin> {ip_key ip, account_key user}"
  shows "locked_gate k x (snd (verify_login_mfa be g user code ip y))"
proof (cases "code = [] \<or> environ_get (g_env g) ''TOTP_SECRET'' [] = []")
  case True
  have "locked_gate k x (snd (case lim_failure be (g_http g) (ip_key ip) (gs_state y) of
           None \<Rightarrow> (Raised, y) | Some s \<Rightarrow> (Returned a, put_state s y)))" for a :: "string + string"
    using assms(1) lock_failure [OF assms(1,2), of "ip_key ip"] assms(3) by (auto split: option.split)
  then show ?thesis
    using True lock_recovery [OF assms, of code] by (auto simp: verify_login_mfa_def Let_def)
next
  case False
  obtain b s where v: "verify_totp be (g_mfa g) (g_menv g) (environ_get (g_env g) ''TOTP_SECRET'' []) code None
      (gs_state y) = (b, s)" by fastforce
  have "lock_held k x s"
    using lock_totp [OF assms(1), of "g_menv g" "g_mfa g" "environ_get (g_env g) ''TOTP_SECRET'' []" code None]
      v assms(2) by (simp add: g_menv_def)
  then have s: "locked_gate k x (put_state s y)" by simp
  then show ?thesis
    using False v lock_recovery [OF s assms(2,3), of code] by (cases b) (simp_all add: verify_login_mfa_def)
qed

lemma lock_refusals:
  assumes "locked_gate k x y" and "g_now g \<le> x"
  shows "locked_gate k x (snd (locked_answer be g ip user y))"
    and "k \<notin> {ip_key ip, account_key user} \<Longrightarrow> locked_gate k x (snd (wrong_password be g ip user y))"
proof -
  have left: "lock_held k x s'" if "lock_held k x s" "lockout_left be g j s = Some (n, s')" for s s' j n
    using that lock_get [OF that(1), of "g_now g" ns_lockouts j] assms(2)
    by (auto simp: lockout_left_def get_lockout_remaining_def Let_def case_prod_beta split: if_splits)
  show "locked_gate k x (snd (locked_answer be g ip user y))"
  proof (cases "lockout_left be g (ip_key ip) (gs_state y)")
    case (Some p)
    obtain a s where p: "p = (a, s)" by (cases p)
    have s: "lock_held k x s" using left [OF assms(1)] Some p by simp
    then show ?thesis
      using Some p left [OF s] by (auto simp: locked_answer_def split: option.split)
  qed (use assms(1) in \<open>simp add: locked_answer_def\<close>)
  show "locked_gate k x (snd (wrong_password be g ip user y))" if "k \<notin> {ip_key ip, account_key user}"
    using assms(1) lock_count_both [OF assms that] by (auto simp: wrong_password_def Let_def split: option.split)
qed

lemma lock_succeeded:
  assumes "locked_gate k x y" and "k \<notin> {ip_key ip, account_key user}"
  shows "locked_gate k x (snd (login_succeeded be g user ip k' y))"
proof -
  have both: "lock_held k x s"
    if "Option.bind (lim_success be (g_http g) (ip_key ip) (gs_state y)) (lim_success be (g_http g) (account_key user)) = Some s"
    for s
  proof -
    note b = that
    obtain s1 where s1: "lim_success be (g_http g) (ip_key ip) (gs_state y) = Some s1"
      "lim_success be (g_http g) (account_key user) s1 = Some s"
      using b by (auto simp: bind_eq_Some_conv)
    have "lock_held k x s1" by (rule lock_success [OF assms(1) _ s1(1)]) (use assms(2) in auto)
    then show ?thesis by (rule lock_success [OF _ _ s1(2)]) (use assms(2) in auto)
  qed
  have new: "locked_gate k x (snd (new_login be g user k' z))" if "locked_gate k x z" for z
    using that by (auto simp: new_login_def record_auth_time_def Let_def intro!: lock_set_ttl)
  show ?thesis
    unfolding login_succeeded_def Let_def using assms(1) both new
    by (auto simp: case_prod_beta split: option.split)
qed

lemma lock_login:
  assumes "locked_gate k x y" and "g_now g < x"
  shows "locked_gate k x (snd (attempt_login be g user password code ip y))"
    and "k \<in> {ip_key ip, account_key user} \<Longrightarrow>
      \<not> logged_in (fst (attempt_login be g user password code ip y))"
proof -
  have le: "g_now g \<le> x" using assms(2) by simp
  have denied: "\<not> logged_in (fst (locked_answer be g ip user z))" for z
    by (simp add: locked_answer_def split: option.split)
  have rest: "locked_gate k x (snd (
         case authenticate g user password (gs_file y) of
             (ok, file) \<Rightarrow>
               let y = (put_state s y)\<lparr>gs_file := file\<rparr>
               in if \<not> ok then wrong_password be g ip user y
                  else if \<not> mfa_required_for_login (l_environ (g_env g))
                  then login_succeeded be g user ip None y
                  else (case verify_login_mfa be g user code ip y of
                          (Raised, y) \<Rightarrow> (Raised, y)
                        | (Returned (Inl message), y) \<Rightarrow> (Returned (Refused message), y)
                        | (Returned (Inr k), y) \<Rightarrow> login_succeeded be g user ip (Some k) y)))"
    if s: "lock_held k x s" and k: "k \<notin> {ip_key ip, account_key user}" for s
  proof -
    obtain ok fl where a: "authenticate g user password (gs_file y) = (ok, fl)" by fastforce
    let ?z = "(put_state s y)\<lparr>gs_file := fl\<rparr>"
    have z: "locked_gate k x ?z" using s by (simp add: put_state_def)
    obtain r z' where m: "verify_login_mfa be g user code ip ?z = (r, z')" by fastforce
    have z': "locked_gate k x z'" using lock_second_factor [OF z le k, of code] m by simp
    show ?thesis
      using lock_refusals(2) [OF z le k] lock_succeeded [OF z k] z' lock_succeeded [OF z' k]
      by (simp add: a m Let_def split: outcome.split sum.split)
  qed
  have l: "lock_held k x s \<and> (k \<in> {ip_key ip, account_key user} \<longrightarrow> b)"
    if "any_locked be (g_env g) [ip_key ip, account_key user] (gs_state y) = Some (b, s)" for b s
    using lock_any [OF assms that] by simp
  have step: "locked_gate k x (snd (locked_answer be g ip user (put_state s y)))" if "lock_held k x s" for s
    by (rule lock_refusals(1) [OF _ le]) (simp add: that)
  show "locked_gate k x (snd (attempt_login be g user password code ip y))"
  proof (cases "any_locked be (g_env g) [ip_key ip, account_key user] (gs_state y)")
    case (Some p)
    obtain b s where p: "p = (b, s)" by (cases p)
    show ?thesis
      using l [of b s] step [of s] rest [of s] Some p
      by (cases b) (simp_all add: attempt_login_def del: any_locked.simps)
  qed (use assms(1) in \<open>simp add: attempt_login_def del: any_locked.simps\<close>)
  show "\<not> logged_in (fst (attempt_login be g user password code ip y))"
    if "k \<in> {ip_key ip, account_key user}"
    using l denied that by (auto simp: attempt_login_def simp del: any_locked.simps split: option.split bool.split)
qed

lemma lock_step:
  assumes "locked_gate k x y" and "g_now (gw_gate e) < x"
  shows "locked_gate k x (snd (gw_step be e y))" and "\<not> passed k (fst (gw_step be e y))"
proof -
  have "locked_gate k x (snd (gw_step be e y)) \<and> \<not> passed k (fst (gw_step be e y))"
  proof (cases e)
    case (GwLogin g user p c ip)
    then show ?thesis
      using lock_login [OF assms(1), where g = g and user = user and password = p and code = c and ip = ip]
        assms(2)
      by (auto simp: gw_step_def passed_def case_prod_beta)
  next
    case (GwRequest g c b eph r perm ip)
    then show ?thesis
      using lock_request [OF assms(1), where g = g and cookie = c and bearer = b and eph = eph and
          resource = r and permission = perm and ip = ip] assms(2)
      by (auto simp: gw_step_def passed_def on_gate_def case_prod_beta)
  next
    case (GwUpgrade g ok ori c b r perm ip eph)
    then show ?thesis
      using lock_upgrade [OF assms(1), where g = g and ok = ok and origin = ori and cookie = c and
          bearer = b and resource = r and permission = perm and ip = ip and eph = eph] assms(2)
      by (auto simp: gw_step_def passed_def on_gate_def case_prod_beta)
  qed
  then show "locked_gate k x (snd (gw_step be e y))" "\<not> passed k (fst (gw_step be e y))" by blast+
qed

end

text \<open>A lockout holds against every sequence of events that takes place before it ends.\<close>

interpretation lockout: held_off "gw_step sqlite_backend" "\<lambda>e y. g_now (gw_gate e) < x" "\<lambda>_. True"
    "passed k" "sqlkv.locked_gate k x" for k x
  by unfold_locales (simp_all add: sqlkv.lock_step)

end
