(* ===== verification/GatewayRules.thy ===== *)
theory GatewayRules
  imports GatewayRuns
begin

text \<open>
  What a login and an admitted request have shown.  A recovery code is claimed by a single call to the
  backend, so among interleaved logins of several processes one wins; a session is only issued after
  both factors, each of them used up; a request is only admitted on a share link that grants the
  permission or on a valid operator session.
\<close>

section \<open>Recovery codes of interleaved logins\<close>

datatype rec_phase = RecIdle | RecMatched string

text \<open>Every process has its own copy of the configured hashes.\<close>

record 's rec_sys =
  rc_state :: 's
  rc_phase :: "nat \<Rightarrow> rec_phase"
  rc_hashes :: "nat \<Rightarrow> string"

datatype rec_event =
    RecMatch nat mfa_cfg string            \<comment> \<open>process, code\<close>
  | RecClaim nat login_env bool            \<comment> \<open>whether the environment file can be rewritten\<close>
  | RecReload nat string                   \<comment> \<open>the process reads its configuration again\<close>
  | RecElse string string pyval time time  \<comment> \<open>a write elsewhere: namespace, key, value, time, lifetime\<close>

text \<open>The answer is the hash of an accepted code.\<close>

fun rec_step :: "'s backend \<Rightarrow> rec_event \<Rightarrow> 's rec_sys \<Rightarrow> string option \<times> 's rec_sys" where
  "rec_step be (RecMatch p cfg code) y =
     (None, y\<lparr>rc_phase := (rc_phase y)(p :=
        case recovery_match cfg code (rc_hashes y p) of None \<Rightarrow> RecIdle | Some h \<Rightarrow> RecMatched h)\<rparr>)"
| "rec_step be (RecClaim p env writes) y =
     (case rc_phase y p of
        RecIdle \<Rightarrow> (None, y)
      | RecMatched h \<Rightarrow>
          (case claim_recovery_code be env h (rc_state y) of
             (ok, s) \<Rightarrow>
               (if ok then Some h else None,
                y\<lparr>rc_state := s, rc_phase := (rc_phase y)(p := RecIdle),
                  rc_hashes := (if ok then (rc_hashes y)(p := prune_hashes writes h (rc_hashes y p))
                                else rc_hashes y)\<rparr>)))"
| "rec_step be (RecReload p t) y = (None, y\<lparr>rc_hashes := (rc_hashes y)(p := t)\<rparr>)"
| "rec_step be (RecElse ns k v now t) y =
     (None, if ns = ns_used_recovery then y else y\<lparr>rc_state := b_set_ttl be now ns k v t (rc_state y)\<rparr>)"

text \<open>Claims happen within thirty days.\<close>

fun rec_within :: "time \<Rightarrow> rec_event \<Rightarrow> bool" where
  "rec_within t0 (RecClaim p env writes) \<longleftrightarrow> t0 \<le> l_now env \<and> l_now env < t0 + 2592000"
| "rec_within t0 _ = True"

context kv_store
begin

lemma claim_recovery_keeps:
  "claimed_until (ns_used_recovery, h) x s \<Longrightarrow> l_now env < x \<Longrightarrow>
   claimed_until (ns_used_recovery, h) x (snd (claim_recovery_code be env k s))"
  by (simp add: claim_recovery_code_def claimed_claim)

lemma rec_held_step:
  assumes "rec_within t0 e" and "claimed_until (ns_used_recovery, h) (t0 + 2592000) (rc_state y)"
  shows "claimed_until (ns_used_recovery, h) (t0 + 2592000) (rc_state (snd (rec_step be e y)))"
    and "fst (rec_step be e y) \<noteq> Some h"
proof -
  have "claimed_until (ns_used_recovery, h) (t0 + 2592000) (rc_state (snd (rec_step be e y))) \<and>
      fst (rec_step be e y) \<noteq> Some h"
  proof (cases e)
    case (RecClaim p env w)
    have t: "l_now env < t0 + 2592000" using assms(1) RecClaim by simp
    show ?thesis
    proof (cases "rc_phase y p")
      case (RecMatched k)
      have "\<not> fst (claim_recovery_code be env h (rc_state y))"
        using claimed_blocks [OF assms(2) t] by (simp add: claim_recovery_code_def)
      then show ?thesis
        using claim_recovery_keeps [OF assms(2) t, of k] RecClaim RecMatched
        by (auto simp: case_prod_beta)
    qed (use assms(2) RecClaim in simp)
  qed (use assms(2) in \<open>auto simp: claimed_other\<close>)
  then show "claimed_until (ns_used_recovery, h) (t0 + 2592000) (rc_state (snd (rec_step be e y)))"
    and "fst (rec_step be e y) \<noteq> Some h" by blast+
qed

lemma rec_win_holds:
  assumes "rec_within t0 e" and "fst (rec_step be e y) = Some h"
  shows "claimed_until (ns_used_recovery, h) (t0 + 2592000) (rc_state (snd (rec_step be e y)))"
proof (cases e)
  case (RecClaim p env w)
  then obtain s where m: "rc_phase y p = RecMatched h" "claim_recovery_code be env h (rc_state y) = (True, s)"
    using assms(2) by (auto split: rec_phase.splits prod.splits if_splits)
  have won: "fst (b_set_if_absent be (l_now env) ns_used_recovery h (PBool True) (Some 2592000) (rc_state y))"
    "snd (b_set_if_absent be (l_now env) ns_used_recovery h (PBool True) (Some 2592000) (rc_state y)) = s"
    using m(2) by (simp_all add: claim_recovery_code_def split: if_splits)
  have "claimed_until (ns_used_recovery, h) (t0 + 2592000) s"
    using claim_claims [OF won(1), of "t0 + 2592000"] assms(1) RecClaim won(2) by simp
  with m RecClaim show ?thesis by simp
qed (use assms(2) in auto)

end

interpretation recovery: won_once "rec_step sqlite_backend" "\<lambda>e y. rec_within t0 e" "\<lambda>_. True"
    "\<lambda>a. a = Some h" "\<lambda>y. sqlkv.claimed_until (ns_used_recovery, h) (t0 + 2592000) (rc_state y)" for t0 h
  by unfold_locales (simp_all add: sqlkv.rec_held_step sqlkv.rec_win_holds)

section \<open>What a login leaves alone\<close>

text \<open>The rows of one namespace.\<close>

context kv_store
begin

definition same_rows :: "string \<Rightarrow> 's \<Rightarrow> 's \<Rightarrow> bool" where
  "same_rows ns s s' \<longleftrightarrow> (\<forall>k. look s' (ns, k) = look s (ns, k))"

lemma same_refl [simp]: "same_rows ns s s"
  by (simp add: same_rows_def)

lemma same_trans [trans]: "same_rows ns s s1 \<Longrightarrow> same_rows ns s1 s2 \<Longrightarrow> same_rows ns s s2"
  by (simp add: same_rows_def)

lemma same_calls:
  assumes "ns' \<noteq> ns"
  shows "same_rows ns s (snd (b_get be now ns' k s))" and "same_rows ns s (b_set be ns' k v s)"
    and "same_rows ns s (b_delete be ns' k s)" and "same_rows ns s (b_set_ttl be now ns' k v t s)"
    and "same_rows ns s (snd (b_set_if_absent be now ns' k v u s))"
  using assms by (auto simp: same_rows_def get_other set_look delete_look set_ttl_look claim_other)

lemma same_clear: "ns \<noteq> ns_attempts \<Longrightarrow> same_rows ns s (clear_attempts be now k s)"
proof -
  assume ns: "ns \<noteq> ns_attempts"
  have "same_rows ns s (foldl (\<lambda>s k. b_delete be ns_attempts k s) s ks)" for ks
    using ns by (induction ks arbitrary: s) (simp_all add: same_rows_def delete_look)
  then show ?thesis by (simp add: clear_attempts_def)
qed

definition limiter_spaces :: "string set" where
  "limiter_spaces = {ns_attempts, ns_lockouts, ns_strikes}"

lemma same_is_locked:
  assumes "ns \<notin> limiter_spaces" and "is_locked be now k s = Some (b, s')"
  shows "same_rows ns s s'"
proof -
  obtain v s1 where g: "b_get be now ns_lockouts k s = (v, s1)" by fastforce
  have s1: "same_rows ns s s1" using same_calls(1) [of ns_lockouts ns s now k] assms(1) g
    by (auto simp: limiter_spaces_def)
  have "same_rows ns s1 (clear_attempts be now k (b_delete be ns_lockouts k s1))"
    using assms(1) by (intro same_trans [OF same_calls(3) same_clear]) (auto simp: limiter_spaces_def)
  with s1 assms(2) same_trans [OF s1] show ?thesis
    by (auto simp: is_locked_def g split: if_splits option.splits)
qed

lemma same_any_locked:
  "ns \<notin> limiter_spaces \<Longrightarrow> any_locked be env ks s = Some (b, s') \<Longrightarrow> same_rows ns s s'"
proof (induction ks arbitrary: s)
  case (Cons k ks)
  show ?case
  proof (cases "lim_locked be env k s")
    case (Some p)
    obtain c s1 where p: "p = (c, s1)" by (cases p)
    have "same_rows ns s s1"
      using same_is_locked [OF Cons.prems(1), of "l_now env" k s c s1] Some p
      by (auto simp: lim_locked_def split: if_splits)
    then show ?thesis
      using Cons.IH [OF Cons.prems(1), of s1] Cons.prems(2) Some p same_trans by (cases c) auto
  qed (use Cons.prems in simp)
qed simp

lemma same_success:
  assumes "ns \<notin> limiter_spaces" and "lim_success be hc k s = Some s'"
  shows "same_rows ns s s'"
proof -
  have "same_rows ns s (record_success be now k s)" for now
    unfolding record_success_def
    using assms(1) by (intro same_trans [OF same_trans [OF same_clear same_calls(3)] same_calls(3)])
      (auto simp: limiter_spaces_def)
  with assms(2) show ?thesis by (auto simp: lim_success_def split: if_splits)
qed

lemma same_auth_time:
  "ns \<noteq> ns_auth_times \<Longrightarrow> same_rows ns s (snd (record_auth_time be env user t m s))"
  by (simp add: record_auth_time_def Let_def same_calls(4))

lemma same_totp_check: "ns \<noteq> ns_totp \<Longrightarrow> same_rows ns s (snd (totp_check be cfg env secret code ts s))"
  using totp_check_state [of be cfg env secret code ts s] same_calls(1) [of ns_totp ns s] by (metis same_refl)

lemma same_record_step: "ns \<noteq> ns_totp \<Longrightarrow> same_rows ns s (record_step be cfg env m secret s)"
  by (simp add: record_step_def same_calls(2))

lemma same_verify_totp:
  assumes "ns \<noteq> ns_totp" and "ns \<noteq> ns_used_steps"
  shows "same_rows ns s (snd (verify_totp be cfg env secret code ts s))"
proof -
  obtain r s1 where c: "totp_check be cfg env secret code ts s = (r, s1)" by fastforce
  have s1: "same_rows ns s s1" using same_totp_check [OF assms(1), of s cfg env secret code ts] c by simp
  show ?thesis
  proof (cases r)
    case (Some m)
    obtain b s2 where w: "claim_step be cfg env secret m s1 = (b, s2)" by fastforce
    have "same_rows ns s1 s2"
      using same_calls(5) [of ns_used_steps ns s1] assms(2) w
      by (auto simp: claim_step_def split: if_splits) (metis snd_conv)
    then have "same_rows ns s s2" by (rule same_trans [OF s1])
    then show ?thesis
      using same_trans [OF _ same_record_step [OF assms(1), of s2 cfg env m secret]] Some c w
      by (cases b) (simp_all add: verify_totp_def)
  qed (use s1 c in \<open>simp add: verify_totp_def\<close>)
qed

section \<open>What a login has shown\<close>

text \<open>A single-use row that was free and is taken now.\<close>

definition used_up :: "time \<Rightarrow> string \<times> string \<Rightarrow> time \<Rightarrow> 's \<Rightarrow> 's \<Rightarrow> bool" where
  "used_up now nk t s s' \<longleftrightarrow>
     (\<forall>v e. look s nk = Some (v, e) \<longrightarrow> (\<exists>x. e = Some x \<and> x \<le> now)) \<and>
     look s' nk = Some (PBool True, Some (now + t))"

lemma claim_used_up:
  assumes "fst (b_set_if_absent be now ns k (PBool True) (Some t) s)" and "t \<noteq> 0"
  shows "used_up now (ns, k) t s (snd (b_set_if_absent be now ns k (PBool True) (Some t) s))"
proof -
  have "\<exists>x. e = Some x \<and> x \<le> now" if "look s (ns, k) = Some (v, e)" for v e
    using claim_held [OF that] assms(1) by (meson not_le)
  then show ?thesis using assms by (auto simp: used_up_def claim_look claim_expiry_def)
qed

lemma used_up_same:
  "used_up now (ns, k) t s1 s2 \<Longrightarrow> same_rows ns s s1 \<Longrightarrow> same_rows ns s2 s3 \<Longrightarrow> used_up now (ns, k) t s s3"
  by (simp add: used_up_def same_rows_def)

text \<open>The second factor of an accepted code.\<close>

definition totp_used :: "gate \<Rightarrow> string \<Rightarrow> 's \<Rightarrow> 's \<Rightarrow> bool" where
  "totp_used g code s s' \<longleftrightarrow>
     (\<exists>hotp n. g_hotp g (environ_get (g_env g) ''TOTP_SECRET'' []) = Some hotp \<and> pad_code (hotp n) = code \<and>
        \<bar>n - l_secs (g_env g) div 30\<bar> \<le> 1 \<and>
        used_up (g_now g) (ns_used_steps, step_key (g_mfa g) (environ_get (g_env g) ''TOTP_SECRET'' []) n) 180 s s')"

definition recovery_used :: "gate \<Rightarrow> string \<Rightarrow> string \<Rightarrow> 's \<Rightarrow> 's \<Rightarrow> bool" where
  "recovery_used g code hashes s s' \<longleftrightarrow>
     hash_recovery_code (g_mfa g) code \<in> set (comma_list hashes) \<and>
     used_up (g_now g) (ns_used_recovery, hash_recovery_code (g_mfa g) code) 2592000 s s'"

lemma totp_claims:
  assumes "verify_totp be (g_mfa g) (g_menv g) secret code None s = (True, s')"
  shows "\<exists>hotp n. g_hotp g secret = Some hotp \<and> pad_code (hotp n) = code \<and> \<bar>n - l_secs (g_env g) div 30\<bar> \<le> 1 \<and>
    used_up (g_now g) (ns_used_steps, step_key (g_mfa g) secret n) 180 s s'"
proof -
  obtain m s1 where c: "totp_check be (g_mfa g) (g_menv g) secret code None s = (Some m, s1)"
    using assms by (auto simp: verify_totp_def split: prod.splits option.splits)
  obtain s2 where w: "claim_step be (g_mfa g) (g_menv g) secret m s1 = (True, s2)"
    and s': "s' = record_step be (g_mfa g) (g_menv g) m secret s2"
    using assms c by (auto simp: verify_totp_def split: prod.splits bool.splits)
  obtain hotp where h: "g_hotp g secret = Some hotp" "matched_step hotp (step_at (g_menv g) None) code = Some m"
    using c by (auto simp: totp_check_def g_mfa_def split: if_splits option.splits prod.splits)
  have "pad_code (hotp m) = code"
    using h(2) by (auto simp: matched_step_def find_Some_iff)
  moreover have "\<bar>m - l_secs (g_env g) div 30\<bar> \<le> 1"
    using matched_step_near [OF h(2)] by (simp add: step_at_def l_secs_def g_menv_def)
  moreover have "used_up (g_now g) (ns_used_steps, step_key (g_mfa g) secret m) 180 s1 s2"
    using w claim_used_up [of "g_now g" ns_used_steps "step_key (g_mfa g) secret m" 180 s1]
    by (auto simp: claim_step_def g_menv_def split: if_splits)
  moreover have "same_rows ns_used_steps s s1"
    using same_totp_check [of ns_used_steps s "g_mfa g" "g_menv g" secret code None] c by simp
  moreover have "same_rows ns_used_steps s2 s'" unfolding s' by (rule same_record_step) simp
  ultimately show ?thesis using h(1) used_up_same by blast
qed

lemma second_factor_used:
  assumes "verify_login_mfa be g user code ip y = (Returned (Inr k), y')"
  shows "k = ''totp'' \<and> totp_used g code (gs_state y) (gs_state y') \<or>
    k = ''recovery'' \<and> recovery_used g code (gs_hashes y) (gs_state y) (gs_state y')"
    and "gs_file y' = gs_file y"
proof -
  let ?secret = "environ_get (g_env g) ''TOTP_SECRET'' []"
  have fail: "fst (mfa_fail be g user ip z) \<noteq> Returned (Inr k)" for z
    by (simp add: mfa_fail_def split: option.split)
  have rec: "k = ''recovery'' \<and> recovery_used g code (gs_hashes z) (gs_state z) (gs_state y') \<and> gs_file y' = gs_file z"
    if u: "use_recovery_code be g user code ip z = (Returned (Inr k), y')" for z
  proof -
    obtain h where h: "recovery_match (g_mfa g) code (gs_hashes z) = Some h"
      using u fail [of z] by (cases "recovery_match (g_mfa g) code (gs_hashes z)") (auto simp: use_recovery_code_def)
    obtain s where c: "claim_recovery_code be (g_env g) h (gs_state z) = (True, s)"
      using u fail h by (auto simp: use_recovery_code_def split: prod.splits bool.splits) (metis fst_conv)+
    have "h = hash_recovery_code (g_mfa g) code" "h \<in> set (comma_list (gs_hashes z))"
      using h by (auto simp: recovery_match_def verify_recovery_code_def split: if_splits)
    moreover have "used_up (g_now g) (ns_used_recovery, h) 2592000 (gs_state z) s"
      using c claim_used_up [of "g_now g" ns_used_recovery h 2592000 "gs_state z"]
      by (auto simp: claim_recovery_code_def split: if_splits)
    moreover have "k = ''recovery''" "gs_state y' = s" "gs_file y' = gs_file z"
      using u h c by (auto simp: use_recovery_code_def put_state_def)
    ultimately show ?thesis by (simp add: recovery_used_def)
  qed
  have code: "code \<noteq> []" using assms by (auto simp: verify_login_mfa_def split: option.splits)
  have "(k = ''totp'' \<and> totp_used g code (gs_state y) (gs_state y') \<or>
      k = ''recovery'' \<and> recovery_used g code (gs_hashes y) (gs_state y) (gs_state y')) \<and> gs_file y' = gs_file y"
  proof (cases "?secret = []")
    case True
    then show ?thesis using rec [of y] assms code by (simp add: verify_login_mfa_def)
  next
    case False
    obtain b s where v: "verify_totp be (g_mfa g) (g_menv g) ?secret code None (gs_state y) = (b, s)" by fastforce
    show ?thesis
    proof (cases b)
      case True
      then have "k = ''totp''" "y' = put_state s y" using assms False code v by (auto simp: verify_login_mfa_def)
      then show ?thesis using totp_claims v True by (auto simp: totp_used_def)
    next
      case b: False
      then have "use_recovery_code be g user code ip (put_state s y) = (Returned (Inr k), y')"
        using assms False code v by (simp add: verify_login_mfa_def)
      from rec [OF this] have r: "k = ''recovery''" "recovery_used g code (gs_hashes y) s (gs_state y')"
        "gs_file y' = gs_file y" by simp_all
      have "same_rows ns_used_recovery (gs_state y) s"
        using same_verify_totp [of ns_used_recovery "gs_state y" "g_mfa g" "g_menv g" ?secret code None] v by simp
      then show ?thesis using r used_up_same by (auto simp: recovery_used_def)
    qed
  qed
  then show "k = ''totp'' \<and> totp_used g code (gs_state y) (gs_state y') \<or>
      k = ''recovery'' \<and> recovery_used g code (gs_hashes y) (gs_state y) (gs_state y')"
    and "gs_file y' = gs_file y" by blast+
qed

text \<open>The methods of a login and what each has used up between two states.\<close>

definition factors_used :: "gate \<Rightarrow> string \<Rightarrow> string \<Rightarrow> string \<Rightarrow> 's \<Rightarrow> 's \<Rightarrow> bool" where
  "factors_used g code hashes m s s' \<longleftrightarrow>
     (if mfa_required_for_login (l_environ (g_env g))
      then m = ''password+totp'' \<and> totp_used g code s s' \<or> m = ''password+recovery'' \<and> recovery_used g code hashes s s'
      else m = ''password'')"

lemma factors_same:
  assumes "factors_used g code hashes m s1 s2"
    and "\<And>ns. ns \<in> {ns_used_steps, ns_used_recovery} \<Longrightarrow> same_rows ns s s1"
    and "\<And>ns. ns \<in> {ns_used_steps, ns_used_recovery} \<Longrightarrow> same_rows ns s2 s3"
  shows "factors_used g code hashes m s s3"
proof -
  have "totp_used g code s1 s2 \<Longrightarrow> totp_used g code s s3"
    unfolding totp_used_def using used_up_same assms(2,3) by blast
  moreover have "recovery_used g code hashes s1 s2 \<Longrightarrow> recovery_used g code hashes s s3"
    unfolding recovery_used_def using used_up_same assms(2,3) by blast
  ultimately show ?thesis using assms(1) by (auto simp: factors_used_def)
qed

lemma login_succeededE:
  assumes "login_succeeded be g user ip k y = (Returned (LoggedIn c tok m), y')"
  shows "login_allowed g user (gs_file y')" and "gs_file y' = gs_file y"
    and "c = create_session_cookie (g_env g) user None None None (g_csrf g) (g_sid g)"
    and "m = (case k of None \<Rightarrow> ''password'' | Some x \<Rightarrow> ''password+'' @ x)"
    and "ns \<notin> limiter_spaces \<Longrightarrow> ns \<noteq> ns_auth_times \<Longrightarrow> same_rows ns (gs_state y) (gs_state y')"
proof -
  obtain s1 s where s1: "lim_success be (g_http g) (ip_key ip) (gs_state y) = Some s1"
    and s: "lim_success be (g_http g) (account_key user) s1 = Some s"
    using assms by (auto simp: login_succeeded_def bind_eq_Some_conv split: option.splits)
  have a: "login_allowed g user (gs_file y)"
    and n: "new_login be g user k (put_state s y) = (LoggedIn c tok m, y')"
    using assms s1 s by (auto simp: login_succeeded_def Let_def split: if_splits prod.splits)
  obtain t z where r: "record_auth_time be (g_env g) user None (gs_auth y) s = (t, z)" by fastforce
  have y': "y' = (put_state z (put_state s y))\<lparr>gs_auth := t\<rparr>"
    and c: "c = create_session_cookie (g_env g) user None None None (g_csrf g) (g_sid g)"
    and m: "m = (case k of None \<Rightarrow> ''password'' | Some x \<Rightarrow> ''password+'' @ x)"
    using n r by (auto simp: new_login_def)
  have f: "gs_file y' = gs_file y" "gs_state y' = z" by (simp_all add: y' put_state_def)
  with a c m show "login_allowed g user (gs_file y')" "gs_file y' = gs_file y"
    "c = create_session_cookie (g_env g) user None None None (g_csrf g) (g_sid g)"
    "m = (case k of None \<Rightarrow> ''password'' | Some x \<Rightarrow> ''password+'' @ x)" by simp_all
  assume ns: "ns \<notin> limiter_spaces" "ns \<noteq> ns_auth_times"
  have "same_rows ns s z" using same_auth_time [OF ns(2), of s "g_env g" user None "gs_auth y"] r by simp
  then show "same_rows ns (gs_state y) (gs_state y')"
    using same_trans [OF same_trans [OF same_success [OF ns(1) s1] same_success [OF ns(1) s]]] f(2) by simp
qed

lemma login_shown:
  assumes "attempt_login be g user password code ip y = (Returned (LoggedIn c tok m), y')"
  shows "fst (authenticate g user password (gs_file y))"
    and "factors_used g code (gs_hashes y) m (gs_state y) (gs_state y')"
    and "login_allowed g user (gs_file y')"
    and "c = create_session_cookie (g_env g) user None None None (g_csrf g) (g_sid g)"
proof -
  obtain s where l: "any_locked be (g_env g) [ip_key ip, account_key user] (gs_state y) = Some (False, s)"
    using assms by (auto simp: attempt_login_def locked_answer_def simp del: any_locked.simps
        split: option.splits prod.splits bool.splits)
  obtain fl where a: "authenticate g user password (gs_file y) = (True, fl)"
    using assms l by (cases "authenticate g user password (gs_file y)"; cases "fst (authenticate g user password (gs_file y))")
      (auto simp: attempt_login_def wrong_password_def Let_def simp del: any_locked.simps split: option.splits)
  let ?z = "(put_state s y)\<lparr>gs_file := fl\<rparr>"
  have z: "gs_state ?z = s" "gs_hashes ?z = gs_hashes y" by (simp_all add: put_state_def)
  have first: "same_rows ns (gs_state y) s" if "ns \<in> {ns_used_steps, ns_used_recovery}" for ns
    using same_any_locked [OF _ l, of ns] that by (auto simp: limiter_spaces_def)
  have spaces: "ns \<notin> limiter_spaces" "ns \<noteq> ns_auth_times" if "ns \<in> {ns_used_steps, ns_used_recovery}" for ns
    using that by (auto simp: limiter_spaces_def)
  show "fst (authenticate g user password (gs_file y))" using a by simp
  have "factors_used g code (gs_hashes y) m (gs_state y) (gs_state y') \<and> login_allowed g user (gs_file y') \<and>
      c = create_session_cookie (g_env g) user None None None (g_csrf g) (g_sid g)"
  proof (cases "mfa_required_for_login (l_environ (g_env g))")
    case False
    then have e: "login_succeeded be g user ip None ?z = (Returned (LoggedIn c tok m), y')"
      using assms l a by (simp add: attempt_login_def Let_def del: any_locked.simps)
    show ?thesis using login_succeededE(1,3,4) [OF e] False by (simp add: factors_used_def)
  next
    case True
    obtain k z' where v: "verify_login_mfa be g user code ip ?z = (Returned (Inr k), z')"
      and e: "login_succeeded be g user ip (Some k) z' = (Returned (LoggedIn c tok m), y')"
      using assms l a True
      by (auto simp: attempt_login_def Let_def simp del: any_locked.simps split: prod.splits outcome.splits sum.splits)
    note u = second_factor_used [OF v, unfolded z]
    have "factors_used g code (gs_hashes y) m s (gs_state z')"
      using u(1) login_succeededE(4) [OF e] True by (auto simp: factors_used_def)
    then have "factors_used g code (gs_hashes y) m (gs_state y) (gs_state y')"
      by (rule factors_same) (use first login_succeededE(5) [OF e] spaces in blast)+
    with login_succeededE(1,3) [OF e] show ?thesis by simp
  qed
  then show "factors_used g code (gs_hashes y) m (gs_state y) (gs_state y')"
    and "login_allowed g user (gs_file y')"
    and "c = create_session_cookie (g_env g) user None None None (g_csrf g) (g_sid g)" by blast+
qed

end

end
