(* ===== verification/GatewayRequests.thy ===== *)
theory GatewayRequests
  imports GatewayRules
begin

text \<open>
  What a request that was let in has shown: an open share link that grants the permission, held in the
  store, or a valid operator session without a revocation mark.  The session of the link is one of the
  store's, or has grown from one: every stable property of the store's sessions holds of it.
\<close>

section \<open>Share links\<close>

definition of_store :: "'s store \<Rightarrow> string \<Rightarrow> esession \<Rightarrow> bool" where
  "of_store st k s \<longleftrightarrow> (\<forall>P. stable P \<longrightarrow> kept P (\<lambda>_. True) st \<longrightarrow> P k s)"

definition link_open :: "senv \<Rightarrow> esession \<Rightarrow> string option \<Rightarrow> string option \<Rightarrow> bool" where
  "link_open env s ip r \<longleftrightarrow>
     \<not> e_revoked s \<and> \<not> session_expired (v_host env) s \<and> \<not> drain_deadline_passed env \<and>
     ip_bound (host_of env) s ip \<and> \<not> resource_mismatch s r \<and>
     (e_instance_id s = [] \<or> e_instance_id s = h_instance (host_of env))"

lemma quiet_always [simp]: "quiet be env (\<lambda>_. True)" and claims_always [simp]: "claims_keep be env P (\<lambda>_. True)"
  by (simp_all add: quiet_def claims_keep_def)

lemma drained_host [simp]: "h_drained (host_of env) = drain_deadline_passed env"
  by (simp add: host_of_def)

lemma session_permission_shown:
  assumes "check_session_permission be env tok perm r ip st = (True, st')"
  shows "\<exists>s. of_store st tok s \<and> link_open env s ip r \<and> has_permission s perm r"
proof -
  obtain s st1 where g: "get_session be env tok (load_if_changed env st) = (Some s, st1)"
    using assms by (auto simp: check_session_permission_def split: prod.splits option.splits)
  have "P tok s" if "stable P" "kept P (\<lambda>_. True) st" for P
    using kept_get_eq(2) [OF that(1) quiet_always kept_load_if_changed [OF that(2)] g] by simp
  moreover have "denial_reason (host_of env) s request_denial_checks ip r = None" "has_permission s perm r"
    using assms g run_checks_fst [of be env request_denial_checks s ip r st1]
    by (auto simp: check_session_permission_def Let_def case_prod_beta simp del: run_checks_fst)
  ultimately show ?thesis
    by (auto simp: of_store_def link_open_def request_allowed_iff)
qed

lemma validated_shown:
  assumes "validate_session be env stok ip r st = (Returned (Some s), st')"
  shows "\<exists>tok. (\<exists>e b. verify_ephemeral_token env stok = Some (tok, e, b)) \<and> of_store st tok s \<and>
    is_valid (host_of env) s ip r"
proof -
  obtain tok e b where v: "verify_ephemeral_token env stok = Some (tok, e, b)"
    using assms by (auto simp: validate_session_def split: option.splits)
  obtain s0 st1 where g: "get_session be env tok st = (Some s0, st1)"
    using assms v by (auto simp: validate_session_def split: prod.splits option.splits)
  let ?pin = "e_allowed_ip s0 = Some ''first-observed'' \<and> given ip"
  obtain x st2 where sv: "save env False (put_session tok (s0\<lparr>e_allowed_ip := ip\<rparr>) st1) = (x, st2)" by fastforce
  let ?st = "if ?pin then st2 else st1"
  have m: "map_of (st_sessions ?st) tok = Some s" "fst (run_checks be env session_validity_checks s ip r ?st)"
    using assms v g sv
    by (auto simp: validate_session_def Let_def case_prod_beta split: if_splits option.splits outcome.splits)
  have "P tok s" if P: "stable P" "kept P (\<lambda>_. True) st" for P
  proof -
    note k = kept_get_eq [OF P(1) quiet_always P(2) g]
    have "kept P (\<lambda>_. True) st2"
      by (rule kept_save_eq [OF P(1) kept_put [OF k(1) stableD [OF P(1) k(2) grows_marks(6)]] sv]) simp
    with k(1) have "kept P (\<lambda>_. True) ?st" by simp
    then show ?thesis using m(1) by (rule keptD(2))
  qed
  then have "of_store st tok s" unfolding of_store_def by blast
  moreover have "is_valid (host_of env) s ip r" using m(2) by (simp add: is_valid_def)
  ultimately show ?thesis using v by blast
qed

lemma of_store_sub:
  assumes "of_store st1 k s" and "\<And>P. stable P \<Longrightarrow> kept P (\<lambda>_. True) st \<Longrightarrow> kept P (\<lambda>_. True) st1"
  shows "of_store st k s"
  using assms by (auto simp: of_store_def)

lemma permission_shown:
  assumes "check_permission be env stok perm r ip st = (Returned True, st')"
  shows "\<exists>tok s. (\<exists>e b. verify_ephemeral_token env stok = Some (tok, e, b)) \<and> of_store st tok s \<and>
    is_valid (host_of env) s ip r \<and> has_permission s perm r"
proof -
  obtain s st1 where v: "validate_session be env stok ip r (load_if_changed env st) = (Returned (Some s), st1)"
    using assms by (auto simp: check_permission_def split: prod.splits outcome.splits option.splits)
  have p: "has_permission s perm r"
    using assms v by (auto simp: check_permission_def Let_def split: prod.splits outcome.splits if_splits)
  obtain tok e b where t: "verify_ephemeral_token env stok = Some (tok, e, b)"
    and o: "of_store (load_if_changed env st) tok s" and i: "is_valid (host_of env) s ip r"
    using validated_shown [OF v] by blast
  have "of_store st tok s" by (rule of_store_sub [OF o]) (rule kept_load_if_changed)
  with p t i show ?thesis by blast
qed

section \<open>Operator sessions\<close>

context kv_store
begin

definition stored :: "time \<Rightarrow> string \<Rightarrow> string \<Rightarrow> 's \<Rightarrow> pyval" where
  "stored now ns k s = val_or_none (live now (look s (ns, k)))"

lemma stored_get: "stored now ns k (snd (b_get be now ns' k' s)) = stored now ns k s"
  using get_look [of now s ns' k'] get_drop [of now s ns' k']
  by (cases "(ns, k) = (ns', k')") (auto simp: stored_def live_def)

lemma stored_same: "same_rows ns s s' \<Longrightarrow> stored now ns k s' = stored now ns k s"
  by (simp add: stored_def same_rows_def)

definition unmarked :: "login_env \<Rightarrow> string \<Rightarrow> 's \<Rightarrow> bool" where
  "unmarked env k s \<longleftrightarrow> \<not> truthy (stored (l_now env) ns_revoked k s)"

text \<open>The epoch of the last rotation, if there is one, is not after the session's creation.\<close>

definition after_epoch :: "login_env \<Rightarrow> int \<Rightarrow> 's \<Rightarrow> bool" where
  "after_epoch env created s \<longleftrightarrow>
     (let v = stored (l_now env) ns_operator_epoch ''all'' s
      in truthy v \<longrightarrow> (\<forall>t. float_of (read_float (l_fl env)) v = Some t \<longrightarrow> t \<le> of_int created))"

definition operator_cookie :: "login_env \<Rightarrow> string \<Rightarrow> 's \<Rightarrow> bool" where
  "operator_cookie env cookie s \<longleftrightarrow>
     cookie \<noteq> [] \<and>
     (\<exists>c. verify_session_cookie env cookie = Some c \<and> unmarked env cookie s \<and> unmarked env (stable_id c) s \<and>
        (\<forall>sid. c_sid c = Some sid \<longrightarrow> unmarked env (sid_mark sid) s) \<and> after_epoch env (c_created c) s)"

definition operator_bearer :: "login_env \<Rightarrow> string \<Rightarrow> 's \<Rightarrow> bool" where
  "operator_bearer env bearer s \<longleftrightarrow>
     bearer \<noteq> [] \<and> validate_session_token env bearer \<noteq> None \<and> unmarked env bearer s"

lemma revoked_shared_up:
  assumes "l_up env"
  shows "fst (revoked_shared be env k s) \<longleftrightarrow> \<not> unmarked env k s"
    and "unmarked env j (snd (revoked_shared be env k s)) \<longleftrightarrow> unmarked env j s"
    and "after_epoch env t (snd (revoked_shared be env k s)) \<longleftrightarrow> after_epoch env t s"
  using assms
  by (simp_all add: revoked_shared_def unmarked_def after_epoch_def case_prod_beta stored_get
      get_val stored_def [symmetric])

lemma epoch_up:
  assumes "l_up env" and "\<not> before_epoch (of_int t) (fst (operator_session_epoch be env s))"
  shows "after_epoch env t s"
  using assms
  by (auto simp: operator_session_epoch_def after_epoch_def Let_def case_prod_beta get_val stored_def
      split: if_splits option.splits)

lemma check_authenticated_shown:
  assumes up: "l_up env" and ok: "fst (fst (check_authenticated be env cookie bearer s))"
  shows "operator_cookie env cookie s \<or> operator_bearer env bearer s"
proof -
  have bearer: "operator_bearer env bearer s"
    if b: "fst (fst (if bearer = [] then ((False, None), z)
            else (case revoked_shared be env bearer z of
                    (True, s) \<Rightarrow> ((False, None), s)
                  | (False, s) \<Rightarrow>
                      (case validate_session_token env bearer of
                         Some user \<Rightarrow> ((True, Some user), s)
                       | None \<Rightarrow> ((False, None), s)))))"
      and z: "unmarked env bearer z \<longleftrightarrow> unmarked env bearer s" for z
    using b z revoked_shared_up(1) [OF up, of bearer z]
    by (auto simp: operator_bearer_def split: if_splits prod.splits bool.splits option.splits)
  show ?thesis
  proof (cases "cookie = []")
    case True
    then show ?thesis using ok bearer [of s] by (simp add: check_authenticated_def Let_def)
  next
    case False
    obtain m s1 where m: "revoked_shared be env cookie s = (m, s1)" by fastforce
    note r1 = revoked_shared_up [OF up, where k = cookie and s = s, unfolded m, simplified]
    have "\<not> m" using ok False m by (auto simp: check_authenticated_def Let_def split: bool.splits)
    show ?thesis
    proof (cases "verify_session_cookie env cookie")
      case None
      then show ?thesis
        using ok False m \<open>\<not> m\<close> bearer [of s1] r1 by (simp add: check_authenticated_def Let_def)
    next
      case (Some c)
      obtain n s2 where n: "revoked_shared be env (stable_id c) s1 = (n, s2)" by fastforce
      note r2 = revoked_shared_up [OF up, where k = "stable_id c" and s = s1, unfolded n, simplified]
      have "\<not> n" using ok False m \<open>\<not> m\<close> Some n by (auto simp: check_authenticated_def Let_def split: bool.splits)
      obtain q s3 where q: "(case c_sid c of None \<Rightarrow> (False, s2)
          | Some sid \<Rightarrow> revoked_shared be env (sid_mark sid) s2) = (q, s3)" by fastforce
      have "\<not> q" using ok False m \<open>\<not> m\<close> Some n \<open>\<not> n\<close> q by (auto simp: check_authenticated_def Let_def split: bool.splits)
      have r3: "unmarked env (sid_mark sid) s2" if "c_sid c = Some sid" for sid
        using q that \<open>\<not> q\<close> revoked_shared_up(1) [OF up, of "sid_mark sid" s2] by simp
      have e3: "after_epoch env t s3 \<longleftrightarrow> after_epoch env t s2" for t
        using q revoked_shared_up(3) [OF up, where s = s2] by (cases "c_sid c") (auto, metis snd_conv, metis snd_conv)
      have "\<not> before_epoch (of_int (c_created c)) (fst (operator_session_epoch be env s3))"
        using ok False m \<open>\<not> m\<close> Some n \<open>\<not> n\<close> q \<open>\<not> q\<close>
        by (auto simp: check_authenticated_def Let_def split: prod.splits if_splits)
      from epoch_up [OF up this] have "after_epoch env (c_created c) s" using e3 r1 r2 by simp
      then have "operator_cookie env cookie s"
        using False Some r1 r2 r3 \<open>\<not> m\<close> \<open>\<not> n\<close> by (auto simp: operator_cookie_def)
      then show ?thesis ..
    qed
  qed
qed

section \<open>Requests\<close>

definition link_spaces :: "string set" where
  "link_spaces = {ns_eph_revoked, ''maintenance'', ns_consumed, ns_uses}"

lemma same_links:
  assumes "ns \<notin> link_spaces"
  shows "quiet be env (same_rows ns s0)" and "claims_keep be env P (same_rows ns s0)"
proof -
  have ns: "ns_eph_revoked \<noteq> ns" "''maintenance'' \<noteq> ns" "ns_consumed \<noteq> ns" "ns_uses \<noteq> ns"
    using assms by (auto simp: link_spaces_def)
  show "quiet be env (same_rows ns s0)"
    unfolding quiet_def using ns by (auto intro: same_trans same_calls)
  have "same_rows ns s (snd (b_increment be now ns_uses k a (Some t) s))" for s now k a t
    using ns by (auto simp: same_rows_def incr_other)
  then show "claims_keep be env P (same_rows ns s0)"
    unfolding claims_keep_def claim_consumed_def claim_use_def
    using ns same_calls(5) by (auto simp: Let_def case_prod_beta intro: same_trans)
qed

definition operator_spaces :: "string set" where
  "operator_spaces = {ns_revoked, ns_operator_epoch}"

lemma operator_space: "ns \<in> operator_spaces \<Longrightarrow> ns \<notin> link_spaces \<and> ns \<notin> limiter_spaces"
  by (auto simp: operator_spaces_def link_spaces_def limiter_spaces_def)

text \<open>What an operator session rests on is the same in two states.\<close>

definition same_operators :: "'s \<Rightarrow> 's \<Rightarrow> bool" where
  "same_operators s s' \<longleftrightarrow> (\<forall>ns \<in> operator_spaces. same_rows ns s s')"

lemma same_operators_trans: "same_operators s s1 \<Longrightarrow> same_operators s1 s2 \<Longrightarrow> same_operators s s2"
  by (meson same_operators_def same_trans)

lemma operator_same:
  assumes "same_operators s s'"
  shows "operator_cookie env cookie s' \<longleftrightarrow> operator_cookie env cookie s"
    and "operator_bearer env bearer s' \<longleftrightarrow> operator_bearer env bearer s"
proof -
  have "same_rows ns_revoked s s'" "same_rows ns_operator_epoch s s'"
    using assms by (simp_all add: same_operators_def operator_spaces_def)
  then show "operator_cookie env cookie s' \<longleftrightarrow> operator_cookie env cookie s"
    "operator_bearer env bearer s' \<longleftrightarrow> operator_bearer env bearer s"
    by (simp_all add: operator_cookie_def operator_bearer_def unmarked_def after_epoch_def stored_same)
qed

lemma same_operators_links:
  shows "same_operators (st_state st) (st_state (snd (check_session_permission be env tok perm r ip st)))"
    and "same_operators (st_state st) (st_state (snd (check_permission be env tok perm r ip st)))"
    and "same_operators (st_state st) (st_state (snd (is_session_revoked be env tok st)))"
    and "same_operators (st_state st) (st_state (snd (is_session_expired be env tok st)))"
proof -
  have k: "kept (\<lambda>_ _. True) (same_rows ns (st_state st)) st" for ns by (simp add: kept_state_only)
  have q: "quiet be env (same_rows ns (st_state st))" "claims_keep be env P (same_rows ns (st_state st))"
    if "ns \<in> operator_spaces" for ns P
    using same_links operator_space [OF that] by blast+
  show "same_operators (st_state st) (st_state (snd (check_session_permission be env tok perm r ip st)))"
    unfolding same_operators_def
    using kept_check_session_permission [OF stable_True q(1) k] by (simp add: kept_state_only)
  show "same_operators (st_state st) (st_state (snd (check_permission be env tok perm r ip st)))"
    unfolding same_operators_def
    using kept_check_permission [OF stable_True q k] by (simp add: kept_state_only)
  show "same_operators (st_state st) (st_state (snd (is_session_revoked be env tok st)))"
    "same_operators (st_state st) (st_state (snd (is_session_expired be env tok st)))"
    unfolding same_operators_def
    using kept_is_session_revoked [OF stable_True q(1) k] by (simp_all add: kept_state_only)
qed

lemma same_operators_address:
  assumes "address_locked be env ip s = Some (b, s')"
  shows "same_operators s s'"
  unfolding same_operators_def
proof
  fix ns assume "ns \<in> operator_spaces"
  then have ns: "ns \<notin> limiter_spaces" using operator_space by blast
  show "same_rows ns s s'"
    using assms same_any_locked [OF ns, of env "[ip, ip_key ip, ws_key ip]" s b s']
    by (auto simp: address_locked_def is_client_locked_def simp del: any_locked.simps split: if_splits)
qed

text \<open>A share-link cookie, and a signed share-link token, that grant a permission.\<close>

definition link_cookie :: "gate \<Rightarrow> string \<Rightarrow> string \<Rightarrow> string option \<Rightarrow> string \<Rightarrow> 's store \<Rightarrow> bool" where
  "link_cookie g eph perm r ip st \<longleftrightarrow>
     eph \<noteq> [] \<and> (\<exists>s. of_store st eph s \<and> link_open (g_senv g) s (some_text ip) r \<and> has_permission s perm r)"

definition link_token :: "gate \<Rightarrow> string \<Rightarrow> string \<Rightarrow> string option \<Rightarrow> string \<Rightarrow> 's store \<Rightarrow> bool" where
  "link_token g bearer perm r ip st \<longleftrightarrow>
     bearer \<noteq> [] \<and> perm \<noteq> [] \<and>
     (\<exists>tok s. (\<exists>e b. verify_ephemeral_token (g_senv g) bearer = Some (tok, e, b)) \<and> of_store st tok s \<and>
        is_valid (host_of (g_senv g)) s (some_text ip) r \<and> has_permission s perm r)"

lemma of_store_state: "of_store (st\<lparr>st_state := x\<rparr>) k s \<longleftrightarrow> of_store st k s"
  by (simp add: of_store_def kept_def)

lemma of_store_links:
  shows "of_store (snd (check_session_permission be env tok perm r ip st)) k s \<Longrightarrow> of_store st k s"
    and "of_store (snd (check_permission be env tok perm r ip st)) k s \<Longrightarrow> of_store st k s"
    and "of_store (snd (is_session_revoked be env tok st)) k s \<Longrightarrow> of_store st k s"
    and "of_store (snd (is_session_expired be env tok st)) k s \<Longrightarrow> of_store st k s"
  by (erule of_store_sub; simp add: kept_check_session_permission kept_check_permission kept_is_session_revoked)+

lemma operator_session_shown:
  assumes "l_up (g_env g)"
    and "authorize_operator_session be g cookie bearer ip st = (Returned (True, reason, ident), st')"
  shows "(operator_cookie (g_env g) cookie (st_state st) \<or> operator_bearer (g_env g) bearer (st_state st)) \<and>
    ident = Some (if cookie \<noteq> [] then cookie else bearer)"
proof -
  obtain a b s1 where c: "check_authenticated be (g_env g) cookie bearer (st_state st) = ((a, b), s1)"
    by (metis prod.exhaust)
  have "a" "ident = Some (if cookie \<noteq> [] then cookie else bearer)"
    using assms(2) c
    by (auto simp: authorize_operator_session_def on_store_def ended_with_def split: bool.splits option.splits)
  then show ?thesis using check_authenticated_shown [OF assms(1), of cookie bearer "st_state st"] c by simp
qed

lemma request_shown:
  assumes up: "l_up (g_env g)"
    and ok: "authorize_request be g cookie bearer eph resource permission ip st = (Returned (True, reason, ident), st')"
  shows "link_cookie g eph (if permission = [] then ''view'' else permission)
        (if permission = [] then None else some_text resource) ip st \<and> ident = Some eph \<or>
      link_token g bearer permission (some_text resource) ip st \<and> ident = Some bearer \<or>
      (operator_cookie (g_env g) cookie (st_state st) \<or> operator_bearer (g_env g) bearer (st_state st)) \<and>
        ident = Some (if cookie \<noteq> [] then cookie else bearer)"
proof -
  obtain s0 where l: "address_locked be (g_env g) ip (st_state st) = Some (False, s0)"
    using ok by (auto simp: authorize_request_def split: option.splits bool.splits)
  let ?st0 = "st\<lparr>st_state := s0\<rparr>"
  have so: "same_operators (st_state st) s0" by (rule same_operators_address [OF l])
  have creds: "link_token g bearer permission (some_text resource) ip z \<and> ident = Some bearer \<or>
      (operator_cookie (g_env g) cookie (st_state z) \<or> operator_bearer (g_env g) bearer (st_state z)) \<and>
        ident = Some (if cookie \<noteq> [] then cookie else bearer)"
    if c: "authorize_credentials be g cookie bearer resource permission ip z = (Returned (True, reason, ident), st')" for z
  proof -
    obtain r z1 where e: "ephemeral_bearer_authorized be g bearer permission resource ip z = (r, z1)" by fastforce
    have z1: "same_operators (st_state z) (st_state z1)"
      using e same_operators_links(2) [of z "g_senv g" bearer permission "some_text resource" "some_text ip"]
      by (auto simp: ephemeral_bearer_authorized_def same_operators_def split: if_splits)
    show ?thesis
    proof (cases "r = Returned True")
      case True
      then have ne: "bearer \<noteq> []" "permission \<noteq> []"
        and cp: "check_permission be (g_senv g) bearer permission (some_text resource) (some_text ip) z = (Returned True, z1)"
        using e by (auto simp: ephemeral_bearer_authorized_def split: if_splits)
      have "ident = Some bearer"
        using c e True by (auto simp: authorize_credentials_def split: if_splits)
      then show ?thesis using ne permission_shown [OF cp] by (simp add: link_token_def)
    next
      case False
      then have "authorize_operator_session be g cookie bearer ip z1 = (Returned (True, reason, ident), st')"
        using c e by (auto simp: authorize_credentials_def split: if_splits outcome.splits bool.splits)
      from operator_session_shown [OF up this] operator_same [OF z1] show ?thesis by simp
    qed
  qed
  show ?thesis
  proof (cases "eph = []")
    case True
    then have "authorize_credentials be g cookie bearer resource permission ip ?st0 = (Returned (True, reason, ident), st')"
      using ok l by (simp add: authorize_request_def)
    from creds [OF this] operator_same [OF so] show ?thesis by (simp add: link_token_def of_store_state)
  next
    case False
    obtain a z where e: "authorize_ephemeral_cookie be g eph permission resource ip ?st0 = (a, z)" by fastforce
    let ?p = "if permission = [] then ''view'' else permission"
    let ?r = "if permission = [] then None else some_text resource"
    have p: "check_session_permission be (g_senv g) eph ?p ?r (some_text ip) ?st0 = (a, z)"
      using e by (auto simp: authorize_ephemeral_cookie_def)
    show ?thesis
    proof (cases a)
      case True
      then have at: "a = True" by simp
      have "ident = Some eph" using True ok l False e by (auto simp: authorize_request_def authorize_ephemeral_step_def)
      then show ?thesis
        using False session_permission_shown [OF p [unfolded at]] by (auto simp: link_cookie_def of_store_state)
    next
      case a: False
      then have "authorize_credentials be g cookie bearer resource permission ip z = (Returned (True, reason, ident), st')"
        using ok l False e
        by (auto simp: authorize_request_def authorize_ephemeral_step_def ended_with_def split: if_splits option.splits)
      note c = creds [OF this]
      have "same_operators (st_state ?st0) (st_state z)"
        using same_operators_links(1) [of ?st0 "g_senv g" eph ?p ?r "some_text ip"] p by simp
      then have "same_operators (st_state st) (st_state z)" using same_operators_trans [OF so] by simp
      moreover have "of_store st k s" if "of_store z k s" for k s
        using of_store_links(1) [of "g_senv g" eph ?p ?r "some_text ip" ?st0 k s] that p by (simp add: of_store_state)
      ultimately show ?thesis using c operator_same by (auto simp: link_token_def)
    qed
  qed
qed

section \<open>Upgrades\<close>

lemma ws_reject_refuses: "ws_reject be g ip reason st \<noteq> (Returned (True, r), st')"
  by (simp add: ws_reject_def ended_with_def split: option.split)

lemma ws_operator_shown:
  assumes "l_up (g_env g)" and "ws_operator be g cookie bearer ip st = (Returned (True, reason), st')"
  shows "operator_cookie (g_env g) cookie (st_state st) \<or> operator_bearer (g_env g) bearer (st_state st)"
proof -
  obtain a b s1 where c: "check_authenticated be (g_env g) cookie bearer (st_state st) = ((a, b), s1)"
    by (metis prod.exhaust)
  have a using assms(2) c ws_reject_refuses by (cases a) (auto simp: ws_operator_def on_store_def)
  then show ?thesis using check_authenticated_shown [OF assms(1), of cookie bearer "st_state st"] c by simp
qed

lemma ws_credentials_shown:
  assumes up: "l_up (g_env g)"
    and ok: "ws_credentials be g cookie bearer resource permission ip st = (Returned (True, reason), st')"
  shows "link_token g bearer permission (Some resource) ip st \<or>
    operator_cookie (g_env g) cookie (st_state st) \<or> operator_bearer (g_env g) bearer (st_state st)"
proof (cases "permission = [] \<or> bearer = []")
  case True
  then show ?thesis using ws_operator_shown [OF up, of cookie bearer ip st reason st'] ok
    by (auto simp: ws_credentials_def)
next
  case False
  show ?thesis
  proof (cases "ws_ephemeral_bearer be g bearer permission resource ip st")
    case (Inr z)
    then have "z = st" by (auto simp: ws_ephemeral_bearer_def split: option.splits list.splits)
    then show ?thesis using ws_operator_shown [OF up, of cookie bearer ip st reason st'] ok False Inr
      by (simp add: ws_credentials_def)
  next
    case (Inl w)
    obtain a st1 where r: "is_session_revoked be (g_senv g) bearer st = (a, st1)" by fastforce
    obtain b st2 where e: "is_session_expired be (g_senv g) bearer st1 = (b, st2)" by fastforce
    obtain c st3 where p: "check_permission be (g_senv g) bearer permission (Some resource) (some_text ip) st2 = (c, st3)"
      by fastforce
    have "w = (Returned (True, reason), st')" using ok False Inl by (simp add: ws_credentials_def)
    then have "c = Returned True"
      using Inl r e p ws_reject_refuses
      by (auto simp: ws_ephemeral_bearer_def split: option.splits list.splits bool.splits outcome.splits)
    from permission_shown [OF p [unfolded this]] obtain tok s where s:
      "\<exists>e b. verify_ephemeral_token (g_senv g) bearer = Some (tok, e, b)" "of_store st2 tok s"
      "is_valid (host_of (g_senv g)) s (some_text ip) (Some resource)" "has_permission s permission (Some resource)"
      by blast
    have "of_store st tok s"
      using s(2) of_store_links(3) [of "g_senv g" bearer st tok s] of_store_links(4) [of "g_senv g" bearer st1 tok s] r e
      by simp
    with s False show ?thesis by (auto simp: link_token_def)
  qed
qed

lemma upgrade_shown:
  assumes up: "l_up (g_env g)"
    and ok: "check_websocket_upgrade be g origin_ok origin cookie bearer resource permission ip eph st =
      (Returned (True, reason), st')"
  shows "origin_ok origin \<and>
    (permission \<noteq> [] \<and> link_cookie g eph permission (some_text resource) ip st \<or>
     link_token g bearer permission (Some resource) ip st \<or>
     operator_cookie (g_env g) cookie (st_state st) \<or> operator_bearer (g_env g) bearer (st_state st))"
proof -
  obtain s0 where l: "address_locked be (g_env g) ip (st_state st) = Some (False, s0)"
    using ok by (auto simp: check_websocket_upgrade_def split: option.splits bool.splits)
  let ?st0 = "st\<lparr>st_state := s0\<rparr>"
  have so: "same_operators (st_state st) s0" by (rule same_operators_address [OF l])
  have origin: "origin_ok origin"
    using ok l ws_reject_refuses by (auto simp: check_websocket_upgrade_def Let_def split: if_splits)
  show ?thesis
  proof (cases "eph = [] \<or> permission = []")
    case True
    then have "ws_credentials be g cookie bearer resource permission ip ?st0 = (Returned (True, reason), st')"
      using ok l origin by (simp add: check_websocket_upgrade_def)
    from ws_credentials_shown [OF up this] origin operator_same [OF so] show ?thesis
      by (simp add: link_token_def of_store_state)
  next
    case False
    obtain a z where p: "check_session_permission be (g_senv g) eph permission (some_text resource) (some_text ip) ?st0 = (a, z)"
      by fastforce
    show ?thesis
    proof (cases "a = True")
      case True
      from session_permission_shown [OF p [unfolded this]] False origin show ?thesis
        by (auto simp: link_cookie_def of_store_state)
    next
      case a: False
      then have "ws_credentials be g cookie bearer resource permission ip z = (Returned (True, reason), st')"
        using ok l origin False p ws_reject_refuses by (auto simp: check_websocket_upgrade_def split: if_splits)
      note c = ws_credentials_shown [OF up this]
      have "same_operators (st_state ?st0) (st_state z)"
        using same_operators_links(1) [of ?st0 "g_senv g" eph permission "some_text resource" "some_text ip"] p by simp
      then have "same_operators (st_state st) (st_state z)" using same_operators_trans [OF so] by simp
      moreover have "of_store st k s" if "of_store z k s" for k s
        using of_store_links(1) [of "g_senv g" eph permission "some_text resource" "some_text ip" ?st0 k s] that p
        by (simp add: of_store_state)
      ultimately show ?thesis using c origin operator_same by (auto simp: link_token_def)
    qed
  qed
qed

end

end
