(* ===== verification/ApiRules.thy ===== *)
theory ApiRules
  imports ApiDispatch GatewayRequests
begin

text \<open>
  What a handled request of the JSON API has shown: a guest its open share link, an operator a portal
  session that is not revoked or the credentials of an account, a mutation moreover the same site, the
  CSRF token, the capability of its route and, where the route asks for it, a recent authentication.
\<close>

section \<open>What a caller can show\<close>

definition holds_capability :: "operator \<Rightarrow> string \<Rightarrow> bool" where
  "holds_capability op cap \<longleftrightarrow>
     cap = [] \<or> cap \<in> set (op_permissions op) \<or> ''admin:*'' \<in> set (op_permissions op)"

definition same_site :: "(string \<Rightarrow> bool) \<Rightarrow> request \<Rightarrow> bool" where
  "same_site origin_ok rq \<longleftrightarrow>
     (rq_origin rq = [] \<or> origin_ok (rq_origin rq)) \<and> map ascii_lower (rq_fetch_site rq) \<noteq> ''cross-site''"

definition csrf_shown :: "login_env \<Rightarrow> request \<Rightarrow> string \<Rightarrow> bool" where
  "csrf_shown env rq sid \<longleftrightarrow>
     sid \<noteq> [] \<and> cookie_value (rq_cookie rq) ''vnc_csrf'' \<noteq> [] \<and> rq_csrf rq \<noteq> [] \<and>
     rq_csrf rq = csrf_token env sid (cookie_value (rq_cookie rq) ''vnc_csrf'')"

text \<open>Credentials of a stored account, or of the configured administrator.\<close>

definition basic_operator :: "http_call \<Rightarrow> string \<Rightarrow> operator \<Rightarrow> string option \<Rightarrow> bool" where
  "basic_operator hc auth op file \<longleftrightarrow>
     (\<exists>user password. basic_credentials (hc_tx hc) auth = Some (user, password) \<and>
        fst (verify_operator (hc_op hc) user password file) = Returned (Some op)) \<or>
     op = built_in_admin \<and> landing_password hc \<noteq> [] \<and>
       check_basic_auth (hc_tx hc) auth ''admin'' (landing_password hc)"

definition guest_shown :: "gate \<Rightarrow> request \<Rightarrow> 's store \<Rightarrow> bool" where
  "guest_shown g rq st \<longleftrightarrow>
     (let internal = cookie_value (rq_cookie rq) ''vnc_ephemeral''
      in internal \<noteq> [] \<and>
         (\<exists>s. of_store st internal s \<and> link_open (g_senv g) s (Some (rq_client_ip rq)) None \<and>
            has_permission s ''view'' None))"

lemma guest_shown_state [simp]: "guest_shown g rq (st\<lparr>st_state := s\<rparr>) = guest_shown g rq st"
  by (simp add: guest_shown_def of_store_def kept_def)

lemma read_operator_open: "read_operator portal cap = GateOpen op \<longleftrightarrow> portal = Some op \<and> holds_capability op cap"
  by (auto simp: read_operator_def holds_capability_def split: option.splits)

lemma read_operator_answer: "read_operator portal cap \<noteq> GateUnauthorized"
  by (simp add: read_operator_def split: option.split)

lemma public_gate_None: "public_gate origin_ok (rq_origin rq) (rq_fetch_site rq) = None \<longleftrightarrow> same_site origin_ok rq"
  by (auto simp: public_gate_def same_site_def)

lemma check_csrf_True: "check_csrf env rq sid = Some True \<Longrightarrow> csrf_shown env rq sid"
  by (auto simp: check_csrf_def csrf_shown_def Let_def split: if_splits)

lemma gate_in_state [simp]:
  "gs_state (with_portal z y) = os_state z" "gs_file (with_portal z y) = os_file z"
  "gs_auth (with_portal z y) = gs_auth y" "os_state (portal_part y) = gs_state y" "os_file (portal_part y) = gs_file y"
  by (simp_all add: with_portal_def portal_part_def put_state_def)

lemma put_state_parts [simp]:
  "gs_state (put_state s y) = s" "gs_file (put_state s y) = gs_file y" "gs_auth (put_state s y) = gs_auth y"
  "guest_shown g rq (gs_store (put_state s y)) = guest_shown g rq (gs_store y)"
  by (simp_all add: put_state_def)

lemma landing_shown:
  assumes "authenticate_landing be hc auth ip y = (Returned (True, Some op), y')"
  shows "basic_operator hc auth op (os_file y)"
proof -
  obtain s where l: "(if ip = [] then Some (False, os_state y) else basic_locked be (hc_env hc) ip (os_state y)) = Some (False, s)"
    using assms by (auto simp: authenticate_landing_def split: option.splits prod.splits bool.splits if_splits)
  let ?store = "case basic_credentials (hc_tx hc) auth of
      None \<Rightarrow> (None, y\<lparr>os_state := s\<rparr>)
    | Some (username, password) \<Rightarrow>
        if username = [] then (None, y\<lparr>os_state := s\<rparr>)
        else operator_store_auth be hc username password ip (y\<lparr>os_state := s\<rparr>)"
  obtain a z where st: "?store = (a, z)" by fastforce
  show ?thesis
  proof (cases a)
    case None
    let ?ok = "landing_password hc \<noteq> [] \<and> check_basic_auth (hc_tx hc) auth ''admin'' (landing_password hc)"
    have "?ok \<and> op = built_in_admin"
      using assms unfolding authenticate_landing_def l option.case prod.case bool.case st None
      by (auto simp: Let_def split: option.splits if_splits)
    then show ?thesis by (simp add: basic_operator_def)
  next
    case (Some answer)
    have ans: "answer = (True, Some op)"
      using assms unfolding authenticate_landing_def l option.case prod.case bool.case st Some by simp
    obtain user password where u: "basic_credentials (hc_tx hc) auth = Some (user, password)"
      and o: "operator_store_auth be hc user password ip (y\<lparr>os_state := s\<rparr>) = (Some (True, Some op), z)"
      using st Some ans by (auto split: option.splits if_splits)
    have "fst (verify_operator (hc_op hc) user password (os_file y)) = Returned (Some op)"
      using o by (auto simp: operator_store_auth_def Let_def split: if_splits prod.splits outcome.splits option.splits)
    with u show ?thesis by (auto simp: basic_operator_def)
  qed
qed

section \<open>Portal sessions\<close>

context kv_store
begin

definition unrevoked :: "login_env \<Rightarrow> string \<Rightarrow> string \<Rightarrow> int \<Rightarrow> 's \<Rightarrow> bool" where
  "unrevoked env sid user expires s \<longleftrightarrow>
     \<not> truthy (stored (l_now env) ns_op_revoked sid s) \<and>
     (let v = stored (l_now env) ns_revoked_users user s
      in truthy v \<longrightarrow> (\<exists>t. float_of (read_float (l_fl env)) v = Some t \<and> trunc t < expires - op_session_ttl))"

definition cookie_operator :: "http_call \<Rightarrow> request \<Rightarrow> string \<Rightarrow> operator \<Rightarrow> string option \<Rightarrow> 's \<Rightarrow> bool" where
  "cookie_operator hc rq sid op file s \<longleftrightarrow>
     l_up (hc_env hc) \<and> cookie_occurrences (rq_cookie rq) ''vnc_op'' = 1 \<and>
     (\<exists>user expires.
        parse_op_cookie (hc_env hc) (hc_tx hc) (cookie_value (rq_cookie rq) ''vnc_op'')
          (op_bind_ip (hc_env hc) (rq_client_ip rq)) = Some (sid, user, expires) \<and>
        resolve_op_identity (hc_op hc) user file = Some op \<and> unrevoked (hc_env hc) sid user expires s)"

text \<open>The recorded time of the last authentication.\<close>

definition recorded_time :: "login_env \<Rightarrow> string \<Rightarrow> stepup_manager \<Rightarrow> 's \<Rightarrow> time option" where
  "recorded_time env user m s =
     (let v = stored (l_now env) ns_auth_times user s
      in if v = PNone then None
         else (case float_of (read_float (l_fl env)) v of Some t \<Rightarrow> Some t | None \<Rightarrow> map_of (su_times m) user))"

definition recent_login :: "login_env \<Rightarrow> string \<Rightarrow> stepup_manager \<Rightarrow> 's \<Rightarrow> bool" where
  "recent_login env user m s \<longleftrightarrow>
     (\<exists>t. recorded_time env user m s = Some t \<and> t \<le> l_now env \<and> l_now env \<le> t + of_int (su_max_age m))"

definition portal_spaces :: "string set" where
  "portal_spaces = {ns_op_revoked, ns_revoked_users, ns_auth_times}"

definition same_portal :: "'s \<Rightarrow> 's \<Rightarrow> bool" where
  "same_portal s s' \<longleftrightarrow> (\<forall>ns \<in> portal_spaces. \<forall>now k. stored now ns k s' = stored now ns k s)"

lemma same_portalI: "(\<And>ns. ns \<in> portal_spaces \<Longrightarrow> same_rows ns s s') \<Longrightarrow> same_portal s s'"
  by (simp add: same_portal_def stored_same)

lemma same_portal_trans: "same_portal s s1 \<Longrightarrow> same_portal s1 s2 \<Longrightarrow> same_portal s s2"
  by (simp add: same_portal_def)

lemma portal_same:
  assumes "same_portal s s'"
  shows "cookie_operator hc rq sid op file s' \<longleftrightarrow> cookie_operator hc rq sid op file s"
    and "recent_login env user m s' \<longleftrightarrow> recent_login env user m s"
  using assms
  by (simp_all add: same_portal_def portal_spaces_def cookie_operator_def unrevoked_def recent_login_def recorded_time_def)

lemma session_unrevoked:
  assumes "op_session_revoked be env sid user expires s = (False, s')"
  shows "l_up env" and "unrevoked env sid user expires s" and "stored (l_now env) ns k s' = stored (l_now env) ns k s"
  using assms
  by (auto simp: op_session_revoked_def unrevoked_def Let_def case_prod_beta get_val stored_def [symmetric] stored_get
      split: if_splits option.splits)

lemma resolve_shown:
  assumes "resolve_operator be hc rq fresh m y = (Returned (Some (sid, op, cv)), m', y')"
  shows "cookie_operator hc rq sid op (os_file y) (os_state y) \<and> m' = m \<and>
      (\<forall>ns k. stored (l_now (hc_env hc)) ns k (os_state y') = stored (l_now (hc_env hc)) ns k (os_state y)) \<or>
    basic_operator hc (rq_authorization rq) op (os_file y)"
proof -
  let ?cookie = "if cookie_occurrences (rq_cookie rq) ''vnc_op'' = 1
    then verify_op_cookie be (hc_op hc) (hc_tx hc) (rq_client_ip rq) (cookie_value (rq_cookie rq) ''vnc_op'') y
    else (None, y)"
  obtain a z where c: "?cookie = (a, z)" by fastforce
  have z: "os_file z = os_file y"
    using c by (auto simp: verify_op_cookie_def split: if_splits option.splits prod.splits bool.splits)
  show ?thesis
  proof (cases a)
    case (Some x)
    then have x: "x = (sid, op)" "m' = m" "y' = z"
      using assms c by (auto simp: resolve_operator_def split: prod.splits)
    have one: "cookie_occurrences (rq_cookie rq) ''vnc_op'' = 1" using c Some by (auto split: if_splits)
    then have v: "verify_op_cookie be (hc_op hc) (hc_tx hc) (rq_client_ip rq) (cookie_value (rq_cookie rq) ''vnc_op'') y =
        (Some (sid, op), z)" using c Some x by simp
    obtain user expires s where p: "parse_op_cookie (hc_env hc) (hc_tx hc) (cookie_value (rq_cookie rq) ''vnc_op'')
        (op_bind_ip (hc_env hc) (rq_client_ip rq)) = Some (sid, user, expires)"
      and r: "op_session_revoked be (hc_env hc) sid user expires (os_state y) = (False, s)"
      and i: "resolve_op_identity (hc_op hc) user (os_file y) = Some op" and zs: "z = y\<lparr>os_state := s\<rparr>"
      using v by (auto simp: verify_op_cookie_def split: option.splits prod.splits bool.splits)
    note u = session_unrevoked [OF r]
    have "cookie_operator hc rq sid op (os_file y) (os_state y)"
      unfolding cookie_operator_def using u(1,2) one p i by blast
    then show ?thesis using x zs u(3) by simp
  next
    case None
    obtain o' z' where "authenticate_landing be hc (rq_authorization rq) (rq_client_ip rq) z =
        (Returned (True, Some o'), z')" and o': "o' = op"
      using assms c None
      by (auto simp: resolve_operator_def split: outcome.splits prod.splits bool.splits option.splits)
    from landing_shown [OF this(1)] o' z show ?thesis by simp
  qed
qed

lemma step_up_recent:
  assumes "needs_step_up be env user None m s = (False, s')" and "l_up env"
  shows "recent_login env user m s"
  using assms
  by (auto simp: needs_step_up_def su_backend_get_def recent_login_def recorded_time_def Let_def case_prod_beta
      get_val stored_def [symmetric] split: if_splits option.splits)

section \<open>Frames\<close>

lemma same_rate_limit:
  assumes "ns \<noteq> ''api_rate''"
  shows "same_rows ns s (snd (rate_limit be env scope ip b s))"
  using assms by (auto simp: rate_limit_def Let_def case_prod_beta same_rows_def incr_other)

lemma same_portal_rate: "same_portal s (snd (rate_limit be env scope ip b s))"
  by (rule same_portalI) (rule same_rate_limit, auto simp: portal_spaces_def)

lemma same_portal_link: "same_portal (st_state st) (st_state (snd (check_session_permission be env tok perm r ip st)))"
proof (rule same_portalI)
  fix ns assume "ns \<in> portal_spaces"
  then have ns: "ns \<notin> link_spaces" by (auto simp: portal_spaces_def link_spaces_def)
  have "kept (\<lambda>_ _. True) (same_rows ns (st_state st)) st" by (simp add: kept_state_only)
  from kept_check_session_permission [OF stable_True same_links(1) [OF ns] this]
  show "same_rows ns (st_state st) (st_state (snd (check_session_permission be env tok perm r ip st)))"
    by (simp add: kept_state_only)
qed

lemma valid_link:
  assumes "valid_ephemeral_cookie be g rq y = (ok, y')"
  shows "ok \<Longrightarrow> guest_shown g rq (gs_store y)" and "same_portal (gs_state y) (gs_state y')"
    and "gs_file y' = gs_file y" and "gs_auth y' = gs_auth y"
proof -
  let ?tok = "cookie_value (rq_cookie rq) ''vnc_ephemeral''"
  have "(ok \<longrightarrow> guest_shown g rq (gs_store y)) \<and> same_portal (gs_state y) (gs_state y') \<and> gs_file y' = gs_file y \<and>
      gs_auth y' = gs_auth y"
  proof (cases "?tok = []")
    case True
    then show ?thesis using assms by (auto simp: valid_ephemeral_cookie_def same_portal_def)
  next
    case False
    obtain b st where c: "check_session_permission be (g_senv g) ?tok ''view'' None (Some (rq_client_ip rq)) (gs_store y) = (b, st)"
      by fastforce
    have y': "ok = b" "y' = y\<lparr>gs_store := st\<rparr>" using assms False c by (auto simp: valid_ephemeral_cookie_def)
    have "same_portal (gs_state y) (st_state st)"
      using same_portal_link [of "gs_store y" "g_senv g" ?tok "''view''" None "Some (rq_client_ip rq)"] c by simp
    moreover have "guest_shown g rq (gs_store y)" if "b"
      using session_permission_shown [of be "g_senv g" ?tok "''view''" None] c that False
      by (simp add: guest_shown_def)
    ultimately show ?thesis using y' by simp
  qed
  then show "ok \<Longrightarrow> guest_shown g rq (gs_store y)" and "same_portal (gs_state y) (gs_state y')"
    and "gs_file y' = gs_file y" and "gs_auth y' = gs_auth y" by blast+
qed

section \<open>Requests\<close>

text \<open>An operator known by a session or by credentials; the second of them is itself an authentication.\<close>

definition operator_shown :: "gate \<Rightarrow> request \<Rightarrow> string \<Rightarrow> operator \<Rightarrow> 's gate_state \<Rightarrow> bool" where
  "operator_shown g rq sid op y \<longleftrightarrow>
     cookie_operator (g_http g) rq sid op (gs_file y) (gs_state y) \<or>
     basic_operator (g_http g) (rq_authorization rq) op (gs_file y)"

definition fresh_operator :: "gate \<Rightarrow> request \<Rightarrow> operator \<Rightarrow> 's gate_state \<Rightarrow> bool" where
  "fresh_operator g rq op y \<longleftrightarrow>
     recent_login (g_env g) (op_username op) (gs_auth y) (gs_state y) \<or>
     basic_operator (g_http g) (rq_authorization rq) op (gs_file y)"

lemma shown_same:
  assumes "same_portal (gs_state y) (gs_state y')" and "gs_file y' = gs_file y" and "gs_auth y' = gs_auth y"
  shows "operator_shown g rq sid op y' \<longleftrightarrow> operator_shown g rq sid op y"
    and "fresh_operator g rq op y' \<longleftrightarrow> fresh_operator g rq op y"
  using portal_same [OF assms(1)] assms(2,3) by (simp_all add: operator_shown_def fresh_operator_def)

lemma gate_shown:
  assumes "gate_in be g origin_ok rq permission fresh y = (Returned (GateOpen op), y')"
  shows "\<exists>sid. operator_shown g rq sid op y \<and> same_site origin_ok rq \<and> csrf_shown (g_env g) rq sid \<and>
      holds_capability op permission"
    and "step_up_gate be g r ps op y' = (Handled a r' ps', z) \<Longrightarrow> rt_step_up r \<Longrightarrow> fresh_operator g rq op y"
proof -
  obtain m z0 where g: "operator_gate be (g_http g) origin_ok rq permission fresh (gs_auth y) (portal_part y) =
      (Returned (GateOpen op), m, z0)" and y': "y' = (with_portal z0 y)\<lparr>gs_auth := m\<rparr>"
    using assms by (auto simp: gate_in_def split: prod.splits)
  obtain sid cv where r: "resolve_operator be (g_http g) rq fresh (gs_auth y) (portal_part y) =
      (Returned (Some (sid, op, cv)), m, z0)"
    and rest: "same_site origin_ok rq" "check_csrf (g_env g) rq sid = Some True" "holds_capability op permission"
    using g
    by (auto simp: operator_gate_def same_site_def holds_capability_def
        split: prod.splits outcome.splits option.splits if_splits bool.splits)
  note s = resolve_shown [OF r]
  then have "operator_shown g rq sid op y" by (auto simp: operator_shown_def)
  with rest check_csrf_True show "\<exists>sid. operator_shown g rq sid op y \<and> same_site origin_ok rq \<and>
      csrf_shown (g_env g) rq sid \<and> holds_capability op permission" by blast
  assume u: "step_up_gate be g r ps op y' = (Handled a r' ps', z)" and su: "rt_step_up r"
  show "fresh_operator g rq op y"
  proof (cases "basic_operator (g_http g) (rq_authorization rq) op (gs_file y)")
    case False
    with s have c: "cookie_operator (g_http g) rq sid op (gs_file y) (gs_state y)" "m = gs_auth y"
      and same: "\<And>ns k. stored (g_now g) ns k (os_state z0) = stored (g_now g) ns k (gs_state y)"
      by auto
    obtain s' where n: "needs_step_up be (g_env g) (op_username op) None m (os_state z0) = (False, s')"
      using u su y' by (auto simp: step_up_gate_def split: prod.splits bool.splits)
    have "recent_login (g_env g) (op_username op) m (os_state z0)"
      using step_up_recent [OF n] c(1) by (simp add: cookie_operator_def)
    then show ?thesis
      using c(2) same by (simp add: fresh_operator_def recent_login_def recorded_time_def)
  qed (simp add: fresh_operator_def)
qed

text \<open>What a handled mutation has shown.\<close>

definition mutation_entitled ::
    "gate \<Rightarrow> (string \<Rightarrow> bool) \<Rightarrow> request \<Rightarrow> caller \<Rightarrow> route \<Rightarrow> 's gate_state \<Rightarrow> bool" where
  "mutation_entitled g origin_ok rq a r y \<longleftrightarrow>
     (case a of
        Nobody \<Rightarrow> rt_perm r = Some ''public''
      | Guest \<Rightarrow> rt_perm r = Some ''session'' \<and> guest_shown g rq (gs_store y) \<and> same_site origin_ok rq
      | Account op \<Rightarrow>
          rt_perm r \<noteq> Some ''public'' \<and> same_site origin_ok rq \<and>
          (\<exists>sid. operator_shown g rq sid op y \<and> csrf_shown (g_env g) rq sid) \<and>
          (rt_perm r \<noteq> Some ''session'' \<longrightarrow>
             holds_capability op (capability r) \<and> (rt_step_up r \<longrightarrow> fresh_operator g rq op y)))"

lemma session_mutation_shown:
  assumes d: "dispatch_session be g origin_ok verb portal rq fresh r ps y = (Returned (Handled a r' ps'), y')"
    and v: "verb \<noteq> ''GET''" and p: "rt_perm r = Some ''session''"
  shows "r' = r" and "mutation_entitled g origin_ok rq a r y"
proof -
  obtain b z where l: "valid_ephemeral_cookie be g rq y = (b, z)" by fastforce
  note w = valid_link [OF l]
  have "r' = r \<and> mutation_entitled g origin_ok rq a r y"
  proof (cases b)
    case True
    then have "a = Guest \<and> r' = r \<and> same_site origin_ok rq"
      using d l v by (auto simp: dispatch_session_def public_gate_None split: if_splits)
    with w(1) True p show ?thesis by (simp add: mutation_entitled_def)
  next
    case False
    obtain ga z' where g: "gate_in be g origin_ok rq [] fresh z = (Returned ga, z')"
      and ga: "gated ga (\<lambda>op. (Handled (Account op) r ps, z')) z' = (Handled a r' ps', y')"
      using d l v False by (auto simp: dispatch_session_def split: prod.splits outcome.splits)
    obtain op where op: "ga = GateOpen op" "a = Account op" "r' = r"
      using ga by (cases ga) (auto simp: gated_def)
    from gate_shown(1) [OF g [unfolded op(1)]] shown_same [OF w(2-4)] op(2,3) p show ?thesis
      by (auto simp: mutation_entitled_def)
  qed
  then show "r' = r" and "mutation_entitled g origin_ok rq a r y" by blast+
qed

lemma operator_mutation_shown:
  assumes d: "dispatch_operator be g origin_ok verb portal rq fresh r ps y = (Returned (Handled a r' ps'), y')"
    and v: "verb \<noteq> ''GET''" and p: "rt_perm r \<noteq> Some ''session''" "rt_perm r \<noteq> Some ''public''"
  shows "r' = r" and "mutation_entitled g origin_ok rq a r y"
proof -
  obtain ga z where g: "gate_in be g origin_ok rq (capability r) fresh y = (Returned ga, z)"
    and ga: "gated ga (\<lambda>op. step_up_gate be g r ps op z) z = (Handled a r' ps', y')"
    using d v by (auto simp: dispatch_operator_def split: prod.splits outcome.splits)
  obtain op where op: "ga = GateOpen op" and u: "step_up_gate be g r ps op z = (Handled a r' ps', y')"
    using ga by (cases ga) (auto simp: gated_def)
  have a: "a = Account op" "r' = r"
    using u by (auto simp: step_up_gate_def split: if_splits prod.splits bool.splits)
  note gs = gate_shown [OF g [unfolded op]]
  from gs(1) gs(2) [OF u] a p show "mutation_entitled g origin_ok rq a r y"
    by (auto simp: mutation_entitled_def)
  show "r' = r" by (rule a(2))
qed

lemma mutation_shown:
  assumes "serve_mutation be g origin_ok verb path rq fresh y = (Handled a r ps, y')" and v: "verb \<noteq> ''GET''"
  shows "(\<exists>ps. match_route verb (drop (length api_prefix) path) = Some (r, ps)) \<and> mutation_entitled g origin_ok rq a r y"
proof -
  have d: "dispatch be g origin_ok verb path None rq fresh y = (Returned (Handled a r ps), y')"
    using assms by (auto simp: serve_mutation_def answered_def split: if_splits prod.splits outcome.splits)
  obtain r0 ps0 where m: "match_route verb (drop (length api_prefix) path) = Some (r0, ps0)"
    using d by (auto simp: dispatch_def split: option.splits)
  obtain s where l: "rate_limit be (g_env g) (rt_scope r0) (rq_client_ip rq) (rt_audit r0 \<noteq> None) (gs_state y) = (True, s)"
    using d m by (auto simp: dispatch_def split: prod.splits bool.splits)
  have same: "same_portal (gs_state y) (gs_state (put_state s y))"
    using same_portal_rate [of "gs_state y" "g_env g" "rt_scope r0" "rq_client_ip rq" "rt_audit r0 \<noteq> None"] l by simp
  note frame = shown_same [OF same] put_state_parts
  have e: "mutation_entitled g origin_ok rq a r0 (put_state s y) \<longleftrightarrow> mutation_entitled g origin_ok rq a r0 y"
    by (simp add: mutation_entitled_def frame split: caller.split)
  consider "rt_perm r0 = Some ''public''" | "rt_perm r0 = Some ''session''"
    | "rt_perm r0 \<noteq> Some ''public''" "rt_perm r0 \<noteq> Some ''session''" by blast
  then have "r = r0 \<and> mutation_entitled g origin_ok rq a r0 (put_state s y)"
  proof cases
    case 1
    then show ?thesis using d m l by (auto simp: dispatch_def mutation_entitled_def)
  next
    case 2
    then have "dispatch_session be g origin_ok verb None rq fresh r0 ps0 (put_state s y) = (Returned (Handled a r ps), y')"
      using d m l by (simp add: dispatch_def)
    from session_mutation_shown [OF this v 2] show ?thesis by blast
  next
    case 3
    then have "dispatch_operator be g origin_ok verb None rq fresh r0 ps0 (put_state s y) = (Returned (Handled a r ps), y')"
      using d m l by (simp add: dispatch_def)
    from operator_mutation_shown [OF this v 3(2,1)] show ?thesis by blast
  qed
  with m e show ?thesis by blast
qed

section \<open>Reads\<close>

lemma identity_shown:
  assumes "portal_identity be g rq fresh y = (Returned (True, portal), y')"
  shows "case portal of None \<Rightarrow> guest_shown g rq (gs_store y) | Some op \<Rightarrow> \<exists>sid. operator_shown g rq sid op y"
    and "guest_shown g rq (gs_store y') \<Longrightarrow> guest_shown g rq (gs_store y)"
proof -
  obtain b z where l: "valid_ephemeral_cookie be g rq y = (b, z)" by fastforce
  note w = valid_link [OF l]
  have links: "guest_shown g rq (gs_store y)" if "guest_shown g rq (gs_store z)"
  proof -
    let ?tok = "cookie_value (rq_cookie rq) ''vnc_ephemeral''"
    have "of_store (gs_store z) k s \<Longrightarrow> of_store (gs_store y) k s" for k s
      using l of_store_links(1) [of "g_senv g" ?tok "''view''" None "Some (rq_client_ip rq)" "gs_store y" k s]
      by (auto simp: valid_ephemeral_cookie_def Let_def split: if_splits prod.splits)
    then show ?thesis using that by (auto simp: guest_shown_def Let_def)
  qed
  have "(case portal of None \<Rightarrow> guest_shown g rq (gs_store y) | Some op \<Rightarrow> \<exists>sid. operator_shown g rq sid op y) \<and>
    (guest_shown g rq (gs_store y') \<longrightarrow> guest_shown g rq (gs_store y))"
  proof (cases b)
    case True
    then have "portal = None" "y' = z" using assms l by (auto simp: portal_identity_def)
    with w(1) True show ?thesis by simp
  next
    case False
    obtain r m z0 where r: "resolve_operator be (g_http g) rq fresh (gs_auth z) (portal_part z) = (r, m, z0)"
      by (metis prod.exhaust)
    then have i: "resolve_in be g rq fresh z = (r, (with_portal z0 z)\<lparr>gs_auth := m\<rparr>)" by (simp add: resolve_in_def)
    obtain sid op cv where op: "r = Returned (Some (sid, op, cv))" "portal = Some op"
      "y' = (with_portal z0 z)\<lparr>gs_auth := m\<rparr>"
      using assms l i False by (auto simp: portal_identity_def split: outcome.splits option.splits)
    have "operator_shown g rq sid op z"
      using resolve_shown [OF r [unfolded op(1)]] by (auto simp: operator_shown_def)
    moreover have "guest_shown g rq (gs_store y') \<longleftrightarrow> guest_shown g rq (gs_store z)"
      by (simp add: op(3) with_portal_def put_state_def)
    ultimately show ?thesis using shown_same [OF w(2-4)] op(2) links by auto
  qed
  then show "case portal of None \<Rightarrow> guest_shown g rq (gs_store y) | Some op \<Rightarrow> \<exists>sid. operator_shown g rq sid op y"
    and "guest_shown g rq (gs_store y') \<Longrightarrow> guest_shown g rq (gs_store y)" by blast+
qed

definition read_entitled :: "gate \<Rightarrow> request \<Rightarrow> caller \<Rightarrow> route \<Rightarrow> 's gate_state \<Rightarrow> bool" where
  "read_entitled g rq a r y \<longleftrightarrow>
     (case a of
        Nobody \<Rightarrow> rt_perm r = Some ''public'' \<or>
          rt_perm r = None \<and> (guest_shown g rq (gs_store y) \<or> (\<exists>sid op. operator_shown g rq sid op y))
      | Guest \<Rightarrow> rt_perm r = Some ''session'' \<and> guest_shown g rq (gs_store y)
      | Account op \<Rightarrow>
          rt_perm r \<noteq> None \<and> rt_perm r \<noteq> Some ''public'' \<and> (\<exists>sid. operator_shown g rq sid op y) \<and>
          (rt_perm r \<noteq> Some ''session'' \<longrightarrow> holds_capability op (capability r)))"

text \<open>A read that is dispatched for the identity the gate found.\<close>

lemma dispatched_read:
  assumes d: "dispatch be g origin_ok ''GET'' path portal rq fresh y = (Returned (Handled a r ps), y')"
  obtains ps' where "match_route ''GET'' (drop (length api_prefix) path) = Some (r, ps')"
    and "case a of
        Nobody \<Rightarrow> rt_perm r = Some ''public'' \<or> rt_perm r = None
      | Guest \<Rightarrow> rt_perm r = Some ''session'' \<and> guest_shown g rq (gs_store y)
      | Account op \<Rightarrow> rt_perm r \<noteq> None \<and> rt_perm r \<noteq> Some ''public'' \<and> portal = Some op \<and>
          (rt_perm r \<noteq> Some ''session'' \<longrightarrow> holds_capability op (capability r))"
proof -
  obtain r0 ps0 where m: "match_route ''GET'' (drop (length api_prefix) path) = Some (r0, ps0)"
    using d by (auto simp: dispatch_def split: option.splits)
  obtain s where l: "rate_limit be (g_env g) (rt_scope r0) (rq_client_ip rq) (rt_audit r0 \<noteq> None) (gs_state y) = (True, s)"
    using d m by (auto simp: dispatch_def split: prod.splits bool.splits)
  consider "rt_perm r0 = Some ''public''" | "rt_perm r0 = Some ''session''"
    | "rt_perm r0 \<noteq> Some ''public''" "rt_perm r0 \<noteq> Some ''session''" by blast
  then have "r = r0 \<and> (case a of
        Nobody \<Rightarrow> rt_perm r = Some ''public'' \<or> rt_perm r = None
      | Guest \<Rightarrow> rt_perm r = Some ''session'' \<and> guest_shown g rq (gs_store y)
      | Account op \<Rightarrow> rt_perm r \<noteq> None \<and> rt_perm r \<noteq> Some ''public'' \<and> portal = Some op \<and>
          (rt_perm r \<noteq> Some ''session'' \<longrightarrow> holds_capability op (capability r)))"
  proof cases
    case 1
    then show ?thesis using d m l by (auto simp: dispatch_def)
  next
    case 2
    then have s: "dispatch_session be g origin_ok ''GET'' portal rq fresh r0 ps0 (put_state s y) = (Returned (Handled a r ps), y')"
      using d m l by (simp add: dispatch_def)
    obtain b z where v: "valid_ephemeral_cookie be g rq (put_state s y) = (b, z)" by fastforce
    show ?thesis
    proof (cases b)
      case True
      then show ?thesis using s v 2 valid_link(1) [OF v] by (auto simp: dispatch_session_def)
    next
      case False
      then obtain op where "read_operator portal [] = GateOpen op" "a = Account op" "r = r0"
        using s v read_operator_answer [of portal "[]"]
        by (cases "read_operator portal []") (auto simp: dispatch_session_def gated_def)
      then show ?thesis using 2 by (simp add: read_operator_open)
    qed
  next
    case 3
    then have s: "dispatch_operator be g origin_ok ''GET'' portal rq fresh r0 ps0 (put_state s y) = (Returned (Handled a r ps), y')"
      using d m l by (simp add: dispatch_def)
    show ?thesis
    proof (cases "rt_perm r0 = None")
      case True
      then show ?thesis using s by (auto simp: dispatch_operator_def)
    next
      case False
      then obtain op where "read_operator portal (capability r0) = GateOpen op" "a = Account op" "r = r0"
        using s read_operator_answer [of portal "capability r0"]
        by (cases "read_operator portal (capability r0)") (auto simp: dispatch_operator_def gated_def)
      then show ?thesis using 3 False by (simp add: read_operator_open)
    qed
  qed
  with m that show ?thesis by blast
qed

lemma read_shown:
  assumes "serve_read be g origin_ok path rq fresh y = (Handled a r ps, y')" and api: "is_api_path path"
  shows "(\<exists>ps. match_route ''GET'' (drop (length api_prefix) path) = Some (r, ps)) \<and> read_entitled g rq a r y"
proof (cases "is_public_route ''GET'' path")
  case True
  then have d: "dispatch be g origin_ok ''GET'' path None rq fresh y = (Returned (Handled a r ps), y')"
    using assms by (auto simp: serve_read_def answered_def split: if_splits prod.splits outcome.splits)
  obtain r0 ps0 where m: "match_route ''GET'' (drop (length api_prefix) path) = Some (r0, ps0)"
    and p: "rt_perm r0 = Some ''public''"
    using True api by (auto simp: is_public_route_def split: option.splits)
  then have "a = Nobody \<and> r = r0" using d by (auto simp: dispatch_def split: prod.splits bool.splits)
  with m p show ?thesis by (simp add: read_entitled_def)
next
  case False
  obtain portal z where i: "portal_identity be g rq fresh y = (Returned (True, portal), z)"
    and d: "dispatch be g origin_ok ''GET'' path portal rq fresh z = (Returned (Handled a r ps), y')"
    using assms False
    by (auto simp: serve_read_def answered_def split: if_splits prod.splits outcome.splits bool.splits)
  note w = identity_shown [OF i]
  obtain ps' where m: "match_route ''GET'' (drop (length api_prefix) path) = Some (r, ps')"
    and c: "case a of
        Nobody \<Rightarrow> rt_perm r = Some ''public'' \<or> rt_perm r = None
      | Guest \<Rightarrow> rt_perm r = Some ''session'' \<and> guest_shown g rq (gs_store z)
      | Account op \<Rightarrow> rt_perm r \<noteq> None \<and> rt_perm r \<noteq> Some ''public'' \<and> portal = Some op \<and>
          (rt_perm r \<noteq> Some ''session'' \<longrightarrow> holds_capability op (capability r))"
    by (rule dispatched_read [OF d])
  have known: "guest_shown g rq (gs_store y) \<or> (\<exists>sid op. operator_shown g rq sid op y)"
    using w(1) by (auto split: option.splits)
  show ?thesis
  proof (cases a)
    case (Account op)
    then show ?thesis using m c w(1) by (auto simp: read_entitled_def)
  qed (use m c w(2) known in \<open>auto simp: read_entitled_def\<close>)
qed

end

end
