(* ===== verification/LoginRules.thy ===== *)
theory LoginRules
  imports ApiRules PortalRuns
begin

text \<open>
  What a login of the web client has shown: the same site, a well-formed body, the credentials of an
  account and, where the deployment requires one, a second factor that nobody can use again; and that
  logging out revokes the sessions it names.
\<close>

context kv_store
begin

section \<open>What a session leaves alone\<close>

text \<open>The name spaces a new session writes to.\<close>

definition session_spaces :: "string set" where
  "session_spaces = {ns_op_sessions, ns_op_revoked, ns_auth_times, ns_ctx, ns_operator_epoch}"

lemma same_after:
  assumes "same_rows ns s z" and "ns' \<noteq> ns"
  shows "same_rows ns s (b_delete be ns' k z)" and "same_rows ns s (b_set_ttl be now ns' k v t z)"
  using same_trans [OF assms(1) same_calls(3) [OF assms(2)]] same_trans [OF assms(1) same_calls(4) [OF assms(2)]] by blast+

lemma same_index_row: "ns \<noteq> ns_op_sessions \<Longrightarrow> same_rows ns (snd acc) (snd (index_row be env u acc k))"
  using same_calls(1) [of ns_op_sessions ns "snd acc" "l_now env" k] same_calls(3) [of ns_op_sessions ns]
  by (auto simp: index_row_def case_prod_beta intro: same_trans split: option.split)

lemma same_index_rows: "ns \<noteq> ns_op_sessions \<Longrightarrow> same_rows ns (snd acc) (snd (foldl (index_row be env u) acc ks))"
proof (induction ks arbitrary: acc)
  case (Cons k ks)
  show ?case using same_trans [OF same_index_row [OF Cons.prems] Cons.IH [OF Cons.prems]] by simp
qed simp

lemma same_evict:
  assumes "ns \<noteq> ns_op_sessions" and "ns \<noteq> ns_op_revoked"
  shows "same_rows ns s (evict be env u active s)"
  by (rule evict_inv [where P = "same_rows ns s"])
    (use assms in \<open>auto simp: revoke_op_session_def intro!: same_after\<close>)

lemma same_issue:
  assumes ns: "ns \<notin> session_spaces" and i: "issue_op_session be env tx ip user sid m s = (cv, m', s')"
  shows "same_rows ns s s'"
proof -
  have n: "ns \<noteq> ns_op_sessions" "ns \<noteq> ns_op_revoked" "ns \<noteq> ns_auth_times"
    using ns by (auto simp: session_spaces_def)
  have "same_rows ns s (index_op_session be env user sid e s)" for e
  proof (cases "l_up env")
    case True
    obtain active z where f: "foldl (index_row be env user) ([], s) (b_list_keys be (l_now env) ns_op_sessions [] s) = (active, z)"
      by fastforce
    have "same_rows ns s z" using same_index_rows [OF n(1), of "([], s)"] f by (metis snd_conv)
    also have "same_rows ns z (evict be env user active z)" by (rule same_evict [OF n(1,2)])
    finally show ?thesis
      using True f n(1) by (auto simp: index_op_session_def intro!: same_after)
  qed (simp add: index_op_session_def)
  moreover have "same_rows ns z (snd (record_auth_time be env user None m z))" for z
    by (rule same_auth_time [OF n(3)])
  ultimately have "same_rows ns s (snd (record_auth_time be env user None m (index_op_session be env user sid (op_expiry env) s)))"
    by (rule same_trans)
  then show ?thesis using i by (simp add: issue_op_session_def)
qed

lemma same_context:
  assumes "ns \<notin> session_spaces"
  shows "same_rows ns s (record_auth_context be env sid ctx pair x s)"
proof -
  have n: "ns \<noteq> ns_ctx" "ns \<noteq> ns_operator_epoch" using assms by (auto simp: session_spaces_def)
  have "same_rows ns s (snd (operator_session_epoch be env s))"
    using same_calls(1) [of ns_operator_epoch ns] n(2) by (auto simp: operator_session_epoch_def Let_def case_prod_beta)
  then show ?thesis
    using n(1) by (auto simp: record_auth_context_def Let_def case_prod_beta intro!: same_after split: option.split)
qed

lemma same_finish:
  assumes "ns \<notin> session_spaces" and f: "finish_operator_login be g ip fresh user m y = (grant, y')"
  shows "same_rows ns (gs_state y) (gs_state y')" and "gs_file y' = gs_file y"
    and "lg_username grant = user" and "lg_method grant = m"
    and "lg_op_cookie grant = mint_op_cookie (g_env g) (hc_tx (g_http g)) (op_bind_ip (g_env g) ip) user fresh"
    and "lg_service_cookie grant = service_cookie g user"
proof -
  obtain cv a s where i: "issue_op_session be (g_env g) (hc_tx (g_http g)) (op_bind_ip (g_env g) ip) user fresh
      (gs_auth y) (gs_state y) = (cv, a, s)" by (metis prod.exhaust)
  have s: "same_rows ns (gs_state y) s" by (rule same_issue [OF assms(1) i])
  have cv: "cv = mint_op_cookie (g_env g) (hc_tx (g_http g)) (op_bind_ip (g_env g) ip) user fresh"
    using i by (simp add: issue_op_session_def)
  let ?s = "case verify_session_cookie (g_env g) (service_cookie g user) of
      None \<Rightarrow> s
    | Some c \<Rightarrow>
        (case c_sid c of
           Some (x # xs) \<Rightarrow>
             record_auth_context be (g_env g) (x # xs) (login_context (g_env g) user m)
               (Some (user @ '':'' @ int_str (c_created c))) (Some (c_expires c)) s
         | _ \<Rightarrow> s)"
  have "same_rows ns s ?s"
    by (auto intro: same_context [OF assms(1)] split: option.split list.split)
  with s have t: "same_rows ns (gs_state y) ?s" by (rule same_trans)
  have y': "grant = \<lparr> lg_username = user, lg_op_cookie = cv, lg_service_cookie = service_cookie g user, lg_method = m \<rparr>"
    "y' = (put_state ?s y)\<lparr>gs_auth := a\<rparr>"
    using f i by (auto simp: finish_operator_login_def Let_def)
  show "same_rows ns (gs_state y) (gs_state y')" using t y'(2) by simp
  show "gs_file y' = gs_file y" "lg_username grant = user" "lg_method grant = m"
    "lg_op_cookie grant = mint_op_cookie (g_env g) (hc_tx (g_http g)) (op_bind_ip (g_env g) ip) user fresh"
    "lg_service_cookie grant = service_cookie g user"
    using y' cv by simp_all
qed

lemma same_landing:
  assumes ns: "ns \<notin> limiter_spaces" and a: "authenticate_landing be hc auth ip y = (Returned (True, Some op), y')"
  shows "same_rows ns (os_state y) (os_state y')"
proof -
  obtain s where l: "(if ip = [] then Some (False, os_state y) else basic_locked be (hc_env hc) ip (os_state y)) = Some (False, s)"
    using a by (auto simp: authenticate_landing_def split: option.splits prod.splits bool.splits if_splits)
  have s: "same_rows ns (os_state y) s"
    using l same_any_locked [OF ns] by (auto simp: basic_locked_def simp del: any_locked.simps split: if_splits)
  have ok: "same_rows ns z z'" if "lim_outcome be hc ip True b z = Some z'" for b z z'
    using that same_success [OF ns] by (auto simp: lim_outcome_def split: if_splits)
  let ?store = "case basic_credentials (hc_tx hc) auth of
      None \<Rightarrow> (None, y\<lparr>os_state := s\<rparr>)
    | Some (username, password) \<Rightarrow>
        if username = [] then (None, y\<lparr>os_state := s\<rparr>)
        else operator_store_auth be hc username password ip (y\<lparr>os_state := s\<rparr>)"
  obtain b z where st: "?store = (b, z)" by fastforce
  show ?thesis
  proof (cases b)
    case None
    have z: "os_state z = s"
      using st None by (auto simp: operator_store_auth_def Let_def split: option.splits if_splits prod.splits outcome.splits)
    let ?ok = "landing_password hc \<noteq> [] \<and> check_basic_auth (hc_tx hc) auth ''admin'' (landing_password hc)"
    have "?ok" and "\<exists>s'. lim_outcome be hc ip ?ok (py_strip auth \<noteq> []) (os_state z) = Some s' \<and> y' = z\<lparr>os_state := s'\<rparr>"
      using a unfolding authenticate_landing_def l option.case prod.case bool.case st None
      by (auto simp: Let_def split: option.splits if_splits)
    then obtain s' where "lim_outcome be hc ip True (py_strip auth \<noteq> []) (os_state z) = Some s'" "y' = z\<lparr>os_state := s'\<rparr>"
      by auto
    with ok z s show ?thesis by (auto intro: same_trans)
  next
    case (Some answer)
    have ans: "answer = (True, Some op)" "y' = z"
      using a unfolding authenticate_landing_def l option.case prod.case bool.case st Some by simp_all
    obtain user password where o: "operator_store_auth be hc user password ip (y\<lparr>os_state := s\<rparr>) = (Some (True, Some op), z)"
      using st Some ans(1) by (auto split: option.splits if_splits)
    then obtain s' where "lim_outcome be hc ip True True s = Some s'" "os_state z = s'"
      by (auto simp: operator_store_auth_def Let_def split: if_splits prod.splits outcome.splits option.splits)
    with ok s ans(2) show ?thesis by (auto intro: same_trans)
  qed
qed

section \<open>The login of the web client\<close>

lemma web_login_shown:
  assumes "post_auth_login be g origin_ok origin fetch_site b ip fresh y = (Returned (Gives grant), y')"
  shows "public_gate origin_ok origin fetch_site = None \<and> login_body_ok b \<and> login_allowed g (lb_username b) (gs_file y') \<and>
    (\<exists>op. basic_operator (g_http g) (login_authorization g (lb_username b) (lb_password b)) op (gs_file y) \<and>
       lg_username grant = op_username op \<and>
       lg_op_cookie grant =
         mint_op_cookie (g_env g) (hc_tx (g_http g)) (op_bind_ip (g_env g) ip) (op_username op) fresh) \<and>
    factors_used g (case lb_totp b of None \<Rightarrow> [] | Some t \<Rightarrow> take 32 (py_strip t)) (gs_hashes y) (lg_method grant)
      (gs_state y) (gs_state y')"
proof -
  let ?auth = "login_authorization g (lb_username b) (lb_password b)"
  let ?code = "case lb_totp b of None \<Rightarrow> [] | Some t \<Rightarrow> take 32 (py_strip t)"
  have gate: "public_gate origin_ok origin fetch_site = None" and body: "login_body_ok b"
    using assms by (auto simp: post_auth_login_def split: option.splits if_splits)
  obtain op z where l: "authenticate_landing be (g_http g) ?auth ip (portal_part y) = (Returned (True, Some op), z)"
    using assms gate body
    by (auto simp: post_auth_login_def split: prod.splits outcome.splits bool.splits option.splits)
  obtain k y2 where f: "login_second_factor be g b ip (with_portal z y) = (Returned (Gives k), y2)"
    and a: "login_allowed g (lb_username b) (gs_file y2)"
    and fin: "finish_operator_login be g ip fresh (op_username op)
        (''password'' @ (case k of None \<Rightarrow> [] | Some k \<Rightarrow> ''+'' @ k)) y2 = (grant, y')"
    using assms gate body l
    by (auto simp: post_auth_login_def split: prod.splits outcome.splits reply.splits if_splits)
  have spaces: "ns \<notin> limiter_spaces" "ns \<notin> session_spaces" if "ns \<in> {ns_used_steps, ns_used_recovery}" for ns
    using that by (auto simp: limiter_spaces_def session_spaces_def)
  have first: "same_rows ns (gs_state y) (gs_state (with_portal z y))" if "ns \<in> {ns_used_steps, ns_used_recovery}" for ns
    using same_landing [OF spaces(1) [OF that] l] by simp
  have last: "same_rows ns (gs_state y2) (gs_state y')" if "ns \<in> {ns_used_steps, ns_used_recovery}" for ns
    by (rule same_finish(1) [OF spaces(2) [OF that] fin])
  note grant = same_finish(2-5) [OF spaces(2) fin]
  have hashes: "gs_hashes (with_portal z y) = gs_hashes y" by (simp add: with_portal_def put_state_def)
  have used: "factors_used g ?code (gs_hashes y) (lg_method grant) (gs_state (with_portal z y)) (gs_state y2)"
  proof (cases "mfa_required_for_login (l_environ (g_env g))")
    case False
    then have "k = None" using f by (simp add: login_second_factor_def)
    then show ?thesis using False grant(3) [of ns_used_steps] by (simp add: factors_used_def)
  next
    case True
    obtain t where t: "lb_totp b = Some t" using f True by (auto simp: login_second_factor_def split: option.splits)
    obtain j where v: "verify_login_mfa be g (lb_username b) (take 32 (py_strip t)) ip (with_portal z y) = (Returned (Inr j), y2)"
      and k: "k = Some j"
      using f True t
      by (auto simp: login_second_factor_def Let_def split: if_splits prod.splits outcome.splits sum.splits)
    show ?thesis
      using second_factor_used(1) [OF v] True k t hashes grant(3) [of ns_used_steps] by (auto simp: factors_used_def)
  qed
  have "factors_used g ?code (gs_hashes y) (lg_method grant) (gs_state y) (gs_state y')"
    by (rule factors_same [OF used first last])
  moreover have "basic_operator (g_http g) ?auth op (gs_file y)"
    using landing_shown [OF l] by simp
  moreover have "gs_file y' = gs_file y2" using grant(1) [of ns_used_steps] by simp
  ultimately show ?thesis
    using gate body a grant(2,4) [of ns_used_steps] by auto
qed

end

end
