(* ===== verification/GatewayProperties.thy ===== *)
theory GatewayProperties
  imports LoginRules PortalProperties SecurityProperties
begin

text \<open>
  The properties of the authentication gateway and of the JSON API, each with a witness at a concrete
  input; the last section shows defects of the code that the models make visible.
\<close>

section \<open>A sample gateway\<close>

definition toy_gate :: "time \<Rightarrow> gate" where
  "toy_gate now =
     \<lparr> g_http = toy_http now, g_hotp = (\<lambda>_. Some (\<lambda>c. nat (c mod 1000000))), g_share = sample_env now,
       g_rnd = ''r2'', g_csrf = ''csrf'', g_sid = toy_sid, g_user = ''admin'', g_env_writes = False \<rparr>"

definition toy_state :: "rows gate_state" where
  "toy_state =
     \<lparr> gs_store = \<lparr> st_sessions = [], st_seen = 0, st_memo = ([], 0), st_file = None, st_state = [] \<rparr>,
       gs_file = toy_file, gs_auth = fresh_manager, gs_hashes = [] \<rparr>"

definition toy_origins :: "gate \<Rightarrow> string \<Rightarrow> bool" where
  "toy_origins g origin =
     check_origin (g_env g) (\<lambda>_. True) ''8080'' origin (get_allowed_origins (g_env g) ''8080'' [])"

section \<open>The JSON API\<close>

lemma match_templates_member: "match_templates verb rel rs = Some (r, ps) \<Longrightarrow> \<exists>t. ((verb, t), r) \<in> set rs"
  by (induction verb rel rs rule: match_templates.induct) (auto split: if_splits option.splits)

lemma match_route_member: "match_route verb rel = Some (r, ps) \<Longrightarrow> \<exists>t. ((verb, t), r) \<in> set routes"
  by (auto simp: match_route_def dest: map_of_SomeD match_templates_member split: option.splits)

text \<open>Every mutation names the event it leaves in the audit log.\<close>

lemma mutations_audited:
  assumes "match_route verb rel = Some (r, ps)" and "verb \<noteq> ''GET''"
  shows "rt_audit r \<noteq> None"
proof -
  have "list_all (\<lambda>((v, _), r). v \<noteq> ''GET'' \<longrightarrow> rt_audit r \<noteq> None) routes" by code_simp
  then show ?thesis using match_route_member [OF assms(1)] assms(2) by (auto simp: list_all_iff)
qed

text \<open>
  The registry agrees with the catalogue: every operation the API offers has its route, with its
  capability, audit event and step-up; reads never ask for a step-up, which only mutations check; and
  every capability is a known one.
\<close>

definition route_of :: "operation \<Rightarrow> (string \<times> string) option" where
  "route_of e = map_option (\<lambda>(m, p). (m, drop 1 p)) (split_first (CHR '' '') (ot_route e))"

definition route_agrees :: "((string \<times> string) \<times> route) list \<Rightarrow> operation \<Rightarrow> bool" where
  "route_agrees rs e =
     (case Option.bind (route_of e) (map_of rs) of
        None \<Rightarrow> False
      | Some r \<Rightarrow> rt_op r = ot_id e \<and> rt_perm r = Some (ot_capability e) \<and> rt_audit r = filled (ot_audit e) \<and>
          rt_step_up r = (ot_auth e \<noteq> []))"

lemma registry_matches_catalog: "list_all (route_agrees routes) api_operations"
  by code_simp

lemma route_table_sound:
  "list_all (\<lambda>((m, _), r). (m = ''GET'' \<longrightarrow> \<not> rt_step_up r) \<and>
     (case rt_perm r of None \<Rightarrow> True | Some p \<Rightarrow> p \<in> set known_perms)) routes"
  by code_simp

text \<open>C33: a mutation of the JSON API is handed to the handler of a route only if
  the route is public, or the caller holds an open share link that grants viewing, on a route for any
  session and from the same site, or is an operator known by an unrevoked portal session or by
  credentials who shows the CSRF token of that session from the same site; on an operator's route the
  operator also holds its capability and, where the route asks for it, has authenticated recently.\<close>

theorem api_mutations_guarded:
  assumes "serve_mutation sqlite_backend g origin_ok verb path rq fresh y = (Handled a r ps, y')"
    and "verb \<noteq> ''GET''"
  shows "(\<exists>ps. match_route verb (drop (length api_prefix) path) = Some (r, ps)) \<and>
    sqlkv.mutation_entitled g origin_ok rq a r y"
  using assms by (rule sqlkv.mutation_shown)

definition ann_console :: PortalSession.request where
  "ann_console =
     \<lparr> rq_cookie = ''vnc_op='' @ ann_cookie @ ''; vnc_csrf=nonce'', rq_authorization = [],
       rq_origin = ''https://localhost:8000'', rq_fetch_site = ''same-origin'',
       rq_csrf = csrf_token (portal_env 100) ''abcdefgh'' ''nonce'', rq_client_ip = ''10.0.0.9'' \<rparr>"

definition ann_state :: "rows gate_state" where
  "ann_state = put_state [((ns_auth_times, ''ann''), (PFloat 90, Some 86490))] toy_state"

definition ann_operator :: operator where
  "ann_operator = \<lparr> op_username = ''ann'', op_role = PStr ''admin'',
     op_permissions = [''admin:*'', ''admin_audit'', ''admin_config'', ''admin_sessions'', ''admin_users''] \<rparr>"

definition revoke_all_route :: route where
  "revoke_all_route =
     \<lparr> rt_fn = ''_post_session_revoke_all'', rt_perm = Some ''admin_sessions'', rt_scope = ''sessions.revoke-all'',
       rt_audit = Some ''portal_session_revoke_all'', rt_resp = ''SessionRevokeResponse'', rt_step_up = True,
       rt_op = ''session.revoke_all'' \<rparr>"

theorem api_mutations_guarded_witness:
  "sqlkv.mutation_entitled (toy_gate 100) (toy_origins (toy_gate 100)) ann_console (Account ann_operator)
     revoke_all_route ann_state"
proof -
  have "fst (serve_mutation sqlite_backend (toy_gate 100) (toy_origins (toy_gate 100)) ''POST''
      ''/api/v1/sessions/revoke-all'' ann_console ''fresh'' ann_state) = Handled (Account ann_operator) revoke_all_route []"
    by code_simp
  then obtain y' where "serve_mutation sqlite_backend (toy_gate 100) (toy_origins (toy_gate 100)) ''POST''
      ''/api/v1/sessions/revoke-all'' ann_console ''fresh'' ann_state =
    (Handled (Account ann_operator) revoke_all_route [], y')"
    by (metis prod.collapse)
  from api_mutations_guarded [OF this] show ?thesis by simp
qed

text \<open>C34: a read of the JSON API is handed to the handler of a route only if the route
  is public, or the caller holds an open share link that grants viewing, on a route for any session or
  for any identity, or is an operator known by an unrevoked portal session or by credentials who holds
  the capability the route asks for; a guest never reaches an operator's route.\<close>

theorem api_reads_guarded:
  assumes "serve_read sqlite_backend g origin_ok path rq fresh y = (Handled a r ps, y')" and "is_api_path path"
  shows "(\<exists>ps. match_route ''GET'' (drop (length api_prefix) path) = Some (r, ps)) \<and> sqlkv.read_entitled g rq a r y"
  using assms by (rule sqlkv.read_shown)

definition guest_state :: "rows gate_state" where
  "guest_state = toy_state\<lparr>gs_store := sample_created sample_args\<rparr>"

definition guest_request :: PortalSession.request where
  "guest_request =
     \<lparr> rq_cookie = ''vnc_ephemeral=tok'', rq_authorization = [], rq_origin = [], rq_fetch_site = [], rq_csrf = [],
       rq_client_ip = ''10.0.0.9'' \<rparr>"

definition files_route :: route where
  "files_route =
     \<lparr> rt_fn = ''_get_files'', rt_perm = Some ''session'', rt_scope = ''files.list'', rt_audit = None,
       rt_resp = ''FileListResponse'', rt_step_up = False, rt_op = [] \<rparr>"

theorem api_reads_guarded_witness:
  "sqlkv.read_entitled (toy_gate 11) guest_request Guest files_route guest_state"
proof -
  have "fst (serve_read sqlite_backend (toy_gate 11) (\<lambda>_. True) ''/api/v1/files'' guest_request ''fresh'' guest_state) =
      Handled Guest files_route []"
    by code_simp
  then obtain y' where "serve_read sqlite_backend (toy_gate 11) (\<lambda>_. True) ''/api/v1/files'' guest_request ''fresh''
      guest_state = (Handled Guest files_route [], y')"
    by (metis prod.collapse)
  moreover have "is_api_path ''/api/v1/files''" by code_simp
  ultimately show ?thesis by (rule api_reads_guarded [THEN conjunct2])
qed

text \<open>C40: while the shared state cannot be reached no mutation of the JSON API
  reaches a handler: every one is answered as an unknown route or as one request too many, and the
  state stays as it was.\<close>

theorem api_outage_fails_closed:
  assumes "\<not> l_up (g_env g)" and "verb \<noteq> ''GET''"
  shows "fst (serve_mutation be g origin_ok verb path rq fresh y) \<in> {NotFound, TooMany} \<and>
    snd (serve_mutation be g origin_ok verb path rq fresh y) = y"
proof (cases "is_api_path path")
  case True
  show ?thesis
  proof (cases "match_route verb (drop (length api_prefix) path)")
    case None
    then show ?thesis using True by (simp add: serve_mutation_def dispatch_def answered_def)
  next
    case (Some p)
    obtain r ps where p: "p = (r, ps)" by (cases p)
    obtain e where "rt_audit r = Some e" using mutations_audited Some p assms(2) by blast
    then show ?thesis
      using True Some p assms(1) by (simp add: serve_mutation_def dispatch_def answered_def rate_limit_def put_state_def)
  qed
qed (simp add: serve_mutation_def)

definition cut_off :: gate where
  "cut_off = (toy_gate 100)\<lparr>g_http := (toy_http 100)\<lparr>hc_op := (toy_call 100)\<lparr>oc_env := (portal_env 100)\<lparr>l_up := False\<rparr>\<rparr>\<rparr>\<rparr>"

theorem api_outage_fails_closed_witness:
  "fst (serve_mutation sqlite_backend cut_off (\<lambda>_. True) ''POST'' ''/api/v1/power'' ann_console ''fresh'' ann_state)
     \<in> {NotFound, TooMany} \<and>
   snd (serve_mutation sqlite_backend cut_off (\<lambda>_. True) ''POST'' ''/api/v1/power'' ann_console ''fresh'' ann_state) = ann_state"
  by (rule api_outage_fails_closed) (simp_all add: cut_off_def)

section \<open>Logging in\<close>


definition mfa_gate :: "time \<Rightarrow> gate" where
  "mfa_gate now = (toy_gate now)\<lparr>g_http := (toy_http now)\<lparr>hc_op := (toy_call now)\<lparr>oc_env :=
     (portal_env now)\<lparr>l_environ := (\<lambda>n. if n = ''TOTP_SECRET'' then Some ''secret'' else None)\<rparr>\<rparr>\<rparr>\<rparr>"

definition hashed_file :: "string option" where
  "hashed_file = Some (json_dumps ratio_io Spaced (PDict
     [(''ann'', PDict [(''password_hash'', PStr ''$argon2id$v=19$m=8,t=1,p=1$pw''), (''role'', PStr ''admin''),
        (''disabled'', PBool False)])]))"

definition ann_login :: login_body where
  "ann_login = \<lparr> lb_username = ''ann'', lb_password = ''pw'', lb_totp = Some '' 000003 '' \<rparr>"

definition login_state :: "rows gate_state" where
  "login_state = toy_state\<lparr>gs_file := hashed_file\<rparr>"


text \<open>C36: while a key of the limiter is locked, no login, request or WebSocket
  upgrade that consults the key is let in, whatever else is attempted in between, whoever attempts it
  and whatever credentials are presented.\<close>

theorem locked_client_stays_out:
  assumes "sqlkv.locked_gate k x y"
    and "along (gw_step sqlite_backend) (\<lambda>e y. g_now (gw_gate e) < x) es y"
  shows "count_of (passed k) (fst (run_steps (gw_step sqlite_backend) es y)) = 0"
  by (rule lockout.none_while_held [OF TrueI assms])

definition locked_state :: "rows gate_state" where
  "locked_state = put_state [((ns_lockouts, ip_key ''10.0.0.9''), (PFloat 500, Some 500))] login_state"

definition attempts :: "gw_event list" where
  "attempts =
     [GwLogin (toy_gate 100) ''ann'' ''pw'' [] ''10.0.0.9'',
      GwLogin (toy_gate 110) ''ann'' ''pw'' [] ''10.0.0.10'',
      GwRequest (toy_gate 120) (service_cookie (toy_gate 100) ''ann'') [] [] ''desktop'' ''view'' ''10.0.0.9'']"

theorem locked_client_stays_out_witness:
  "count_of (passed (ip_key ''10.0.0.9'')) (fst (run_steps (gw_step sqlite_backend) attempts locked_state)) = 0"
proof (rule locked_client_stays_out)
  show "sqlkv.locked_gate (ip_key ''10.0.0.9'') 500 locked_state"
    by (simp add: sqlkv.lock_held_def sqlkv.row_until_def locked_state_def ends_at_def)
  show "along (gw_step sqlite_backend) (\<lambda>e y. g_now (gw_gate e) < 500) attempts locked_state"
    by (simp add: attempts_def toy_gate_def toy_http_def toy_call_def portal_env_def toy_login_def)
qed

text \<open>C37: however the logins of any number of processes interleave, and whether
  or not the list of hashes can be rewritten, one recovery code is accepted at most once within
  thirty days.\<close>

theorem recovery_code_single_use:
  assumes "along (rec_step sqlite_backend) (\<lambda>e y. rec_within t0 e) es y"
  shows "count_of (\<lambda>a. a = Some h) (fst (run_steps (rec_step sqlite_backend) es y)) \<le> 1"
  by (rule recovery.won_at_most_once [OF TrueI assms])

definition two_processes :: "rows rec_sys" where
  "two_processes = \<lparr> rc_state = [], rc_phase = (\<lambda>_. RecIdle), rc_hashes = (\<lambda>_. ''ABCD,EFGH'') \<rparr>"

definition recovery_race :: "rec_event list" where
  "recovery_race =
     [RecMatch 0 toy_hotp ''abcd'', RecMatch 1 toy_hotp ''abcd'', RecClaim 1 (toy_login 10) False,
      RecClaim 0 (toy_login 10) True, RecReload 0 ''ABCD,EFGH'', RecMatch 0 toy_hotp ''abcd'', RecClaim 0 (toy_login 20) True]"

theorem recovery_code_single_use_witness:
  "count_of (\<lambda>a. a = Some ''ABCD'') (fst (run_steps (rec_step sqlite_backend) recovery_race two_processes)) \<le> 1"
  by (rule recovery_code_single_use [where ?t0.0 = 0]) (simp add: recovery_race_def toy_login_def)

section \<open>Requests and upgrades\<close>


definition ann_service :: string where
  "ann_service = service_cookie (toy_gate 100) ''ann''"




section \<open>Defects the models show\<close>

text \<open>
  Where the environment file cannot be rewritten the hash of a used recovery code stays configured and
  only the claim blocks it; the claim ends after thirty days and the code works again.
\<close>

definition late_again :: "rec_event list" where
  "late_again =
     [RecMatch 0 toy_hotp ''abcd'', RecClaim 0 (toy_login 10) False,
      RecMatch 0 toy_hotp ''abcd'', RecClaim 0 (toy_login 2592011) False]"

lemma recovery_code_works_again:
  "count_of (\<lambda>a. a = Some ''ABCD'') (fst (run_steps (rec_step sqlite_backend) late_again two_processes)) = 2"
  by code_simp

text \<open>
  A request whose bearer token is valid is admitted under the identity of the stale cookie it also
  carries.
\<close>

lemma stale_cookie_identity:
  "fst (authorize_request sqlite_backend (toy_gate 110) ''stale'' (create_session_token (portal_env 100) ''ann'' 1800) []
     ''desktop'' ''view'' [] (gs_store toy_state)) = Returned (True, ''OK'', Some ''stale'') \<and>
   verify_session_cookie (portal_env 110) ''stale'' = None"
  by code_simp

text \<open>
  An Argon2 hash configured as the password is not recognised as a hash (the code looks for the prefix
  \<open>argon2:\<close>): its text is the password, and the password it was made from is refused.
\<close>

definition argon_gate :: gate where
  "argon_gate = (toy_gate 100)\<lparr>g_http := (toy_http 100)\<lparr>hc_op := (toy_call 100)\<lparr>oc_env :=
     (portal_env 100)\<lparr>l_environ := (\<lambda>n. if n = ''USER_UI_PASSWORD'' then Some (kd_hash toy_kdf ''pw'' ''s'') else None)\<rparr>\<rparr>\<rparr>\<rparr>"

lemma argon2_hash_is_password:
  "verify_password toy_kdf ''pw'' (kd_hash toy_kdf ''pw'' ''s'') \<and>
   \<not> env_credentials argon_gate ''admin'' ''pw'' \<and> env_credentials argon_gate ''admin'' (kd_hash toy_kdf ''pw'' ''s'')"
  by code_simp

text \<open>
  The surfaces consult different keys: a lockout of the account does not stop the login of the web
  client, and one earned on WebSockets does not stop \<open>attempt_login\<close>.
\<close>

definition with_lock :: "string \<Rightarrow> rows gate_state" where
  "with_lock k = put_state [((ns_lockouts, k), (PFloat 500, Some 500))] login_state"

lemma account_lock_ignored:
  "(case fst (post_auth_login sqlite_backend (mfa_gate 100) (\<lambda>_. True) [] [] ann_login ''10.0.0.9'' ''abcdefgh''
       (with_lock (account_key ''ann''))) of Returned (Gives grant) \<Rightarrow> True | _ \<Rightarrow> False) \<and>
   (case fst (attempt_login sqlite_backend (toy_gate 100) ''ann'' ''pw'' [] ''10.0.0.9'' (with_lock (account_key ''ann''))) of
      Returned (LoggedIn c t m) \<Rightarrow> False | _ \<Rightarrow> True)"
  by code_simp

lemma socket_lock_ignored:
  "(case fst (attempt_login sqlite_backend (toy_gate 100) ''ann'' ''pw'' [] ''10.0.0.9'' (with_lock (ws_key ''10.0.0.9''))) of
      Returned (LoggedIn c t m) \<Rightarrow> True | _ \<Rightarrow> False)"
  by code_simp

text \<open>
  A logout reads the cookie it revokes without checking its signature: whoever logs out with a forged
  cookie replaces the revocation mark of the session it names by one that ends in a second, and the
  session is accepted again.
\<close>

definition revoked_rows :: rows where
  "revoked_rows = revoke_op_session sqlite_backend (portal_env 100) ''abcdefgh'' 28890 []"

definition after_forged_logout :: rows where
  "after_forged_logout = post_logout sqlite_backend (portal_env 200) ''bobs-session'' ''vnc_op=abcdefgh.x.1.x'' revoked_rows"

lemma forged_logout_revives_session:
  "fst (verify_op_cookie sqlite_backend (toy_call 202) toy_text [] ann_cookie \<lparr> os_file = toy_file, os_state = revoked_rows \<rparr>) = None \<and>
   fst (verify_op_cookie sqlite_backend (toy_call 202) toy_text [] ann_cookie
     \<lparr> os_file = toy_file, os_state = after_forged_logout \<rparr>) \<noteq> None"
  by code_simp

text \<open>The template of a route is also a literal route, which binds no parameters.\<close>

lemma template_is_literal_route:
  "(case match_route ''GET'' ''sessions/{token_id}'' of Some (r, ps) \<Rightarrow> ps = [] | None \<Rightarrow> False) \<and>
   (case match_route ''GET'' ''sessions/abc'' of Some (r, ps) \<Rightarrow> ps = [(''token_id'', ''abc'')] | None \<Rightarrow> False)"
  by code_simp

text \<open>Waking a host is said to need a step-up, and does not.\<close>

lemma wake_on_lan_without_step_up:
  "map_option rt_step_up (map_of routes (''POST'', ''power/wol'')) = Some False"
  by code_simp

text \<open>
  The rule of the catalogue, that every operation of high or critical risk has a confirmation and a
  bound step-up, is broken by fourteen of them.
\<close>

lemma catalog_rule_broken:
  "map ot_id (filter (\<lambda>e. ot_risk e \<in> {''high'', ''critical''} \<and>
       (ot_auth e \<noteq> ''stepup-bound'' \<or> ot_confirm e = ''none'')) operations) =
   [''session.create'', ''session.revoke_all'', ''operator.create'', ''operator.delete'', ''operator.restore'',
    ''system_user.create'', ''system_user.delete'', ''passkey.register_begin'', ''passkey.register_complete'',
    ''passkey.revoke'', ''maintenance.toggle'', ''recording.start'', ''host.install'', ''host.uninstall'']"
  by code_simp

end
