(* ===== verification/Spec2Isabelle.thy ===== *)
theory Spec2Isabelle
  imports RfbProperties SecurityProperties AuditProperties CaptureProperties LoginProperties PortalProperties GatewayProperties
begin

text \<open>
  Verification library of vnc-remote-secure, a gateway that puts a VNC desktop, a terminal and an
  operator console behind HTTPS.  All paths below are relative to src/vnc_remote_secure.

  \<^bold>\<open>The program's parts.\<close>  A browser talks to the noVNC gateway, which passes every byte between
  browser and VNC server through a permission filter (services/rfb_filter.py).  Who may do what is
  decided by the security modules: operators log in (security/auth_gateway.py) with a password and a
  second factor (security/mfa.py), throttled by security/rate_limit.py, and get a signed cookie
  (security/sessions.py over security/token_signing.py); sensitive requests need a recent
  authentication or a grant (security/step_up_auth.py) and a login of sufficient strength
  (security/auth_policy.py); guests come by share links (security/ephemeral_model.py,
  security/ephemeral_sessions.py), which maintenance mode (security/maintenance.py) can drain; live
  sockets are registered and swept (security/websocket_registry.py) and sessions revoked
  (security/revocation.py).  The services are separate processes and meet in one store of namespaced
  keys (security/shared_state.py).  Everything is written to a hash-chained log (security/audit.py)
  after redaction (security/redaction.py), and the desktop can be captured and recorded
  (core/rfb_capture.py).

  \<^bold>\<open>Foundations.\<close>
  \<^item> Prelude: bytes, big-endian numbers, slices, and the locale \<open>framing\<close> of incremental readers, which
    WebSocket frames, client messages and recording blocks instantiate.
  \<^item> PyData, PyJson: Python values, dictionaries in insertion order, text of integers, and json.dumps /
    json.loads with their round trip.
  \<^item> SharedState: the backend interface as a record of functions, its memory and SQLite
    implementations, and their contract, the locales \<open>kv_store\<close> and \<open>scan_store\<close>, interpreted for both.
  \<^item> Runs: runs of interleaved steps; the locales \<open>held_off\<close> (nothing happens while a state predicate
    holds) and \<open>won_once\<close> (an event happens at most once), which second factors, grants, logouts and
    rotations instantiate.

  \<^bold>\<open>The input filter (services/rfb_filter.py).\<close>  RfbWire: frames and cut texts; RfbServer: the handshake
  tracker; RfbDecoder: the server message decoder; RfbFilter: the client direction and the two entry
  points.  RfbPolicy, RfbSession and RfbChunks show what may reach either side in every reachable
  connection and that the cutting of the stream does not matter; RfbProperties states it.

  \<^bold>\<open>Share links and limits.\<close>  TokenSigning, RateLimit, EphemeralModel, SessionStore and
  SessionLifecycle follow their modules function by function (maintenance mode is in
  SessionLifecycle).  SessionInvariants shows that sessions only ever \<open>grow\<close> towards their end,
  SessionSystem runs several processes over one file and one backend, with faults at any call, and
  derives single use, budgets and revocation from the backend's contract; SecurityProperties.

  \<^bold>\<open>Audit log.\<close>  AuditLog models security/audit.py on the text of its files, Redaction the redaction.
  AuditChain and AuditOps describe the files of an honest log and every operation on them, AuditSystem
  several processes with crashes, lost entries and rotation, AuditTamper what a replaced log can pass
  for; AuditProperties.

  \<^bold>\<open>Capture (core/rfb_capture.py, vendor/d3des.py).\<close>  Capture and Recording are the client, framebuffer,
  PNG export, recorder and recordings directory.  CaptureScreen and Screenshot give an abstract screen
  and conforming server messages and show the framebuffer refines them; RecordingRuns and
  RecordingFile show termination and that the file reads back; CaptureProperties.

  \<^bold>\<open>Login stack.\<close>  AuthData holds the process as a call sees it (\<open>login_env\<close>: clock, environment,
  reachability of the backend, hash, keyed hash, keyring).  Mfa, StepUp, SessionCookie, AuthPolicy,
  SocketRegistry and Revocation follow their modules.  StepUpRuns and Mfa split a request into its
  backend calls and interleave them; LoginSystem and LoginRuns run the processes of a deployment
  (\<open>auth_event\<close>) over one shared state; Assurance relates the policy's decision to the reading of a
  requirement; LoginProperties.

  \<^bold>\<open>What the lemmas show.\<close>  Each component has lemmas for its operations on every branch, a
  well-formedness invariant kept by each operation, and a run theorem: safety over all interleavings
  (single use, revocation, rotation, budgets, grants, chain), refinement (message filter, screenshot),
  equivalence (chunking, backends, indexed reading, policy), round trips (tokens, frames, recordings),
  termination (recorder) and exact behaviour (lockouts, permissions).  Lemmas after the properties of
  a theory show defects of the code that modelling found; they describe what the code does.

  \<^bold>\<open>Bounds and fuel.\<close>  Parsing loops recurse on the buffer and need none.  The recorder and the
  screenshot take fuel: more fuel than the stream has bytes gives an outcome, which more fuel does not
  change.  The JSON reader's nesting fuel is twice the length of its text plus one, which is shown to
  be enough.  Runs are finite lists of events of any length; clocks, faults and schedules are
  arbitrary unless a theorem states how long a request takes (a time step claimed within 90 seconds, a
  grant consumed within 60 seconds of being read).

  \<^bold>\<open>Idealisations.\<close>  Floats are rationals; their text is a parameter with the laws the code relies on.
  Text is over the characters of \<open>char\<close> (Latin-1); an em dash in a message is the one character 0x97.
  The clock is read once per call of an operation, and an outage of the backend lasts a whole call,
  except where the code's own order of calls is the point (single-use claims, second factors, grants,
  registration), which are split into steps.  Operations under a lock are atomic.  A recorder's clock
  and stop event are sequences of readings.  A file's signature changes with every write.  A socket is
  the list of chunks it hands out; its end stands for closing and for a timeout.  SHA-256, HMAC, DES,
  zlib and HOTP are parameters; random values are inputs of the call that draws them.

  \<^bold>\<open>Not modelled.\<close>  Processes, sockets, threads and HTTP plumbing (services other than the filter,
  backend, web, cli, core/service_*.py), libraries behind thin wrappers (certificates, passkeys,
  TLS checks), host probes and reports (doctor, posture, monitoring), archives and upgrades, platform
  adapters, and the front end.  Metrics, log records and audit events are not part of a component's
  state outside the audit log.
\<close>

end
